(* ===== verification/Prelude.thy ===== *)
theory Prelude
  imports Main "HOL-Library.Word"
begin

unbundle bit_operations_syntax

section \<open>Shared types, collections and generic lemmas\<close>

text \<open>
  What the components share: the integer widths of the PIC24 (an \<open>int\<close> and a data pointer
  have 16 bits, an EDS pointer 32), the collections of rewrite rules the component proofs are
  built on, the arithmetic of 15-bit numbers that carry a flag in bit 15, doubly linked
  chains over an abstract store, and a few list and word lemmas.
\<close>

type_synonym u8 = "8 word"
type_synonym u16 = "16 word"
type_synonym u32 = "32 word"

named_theorems mem_simps "reads of a store after a write"
named_theorems flag_simps "15-bit numbers with a flag in bit 15"

subsection \<open>Numbers with a flag in bit 15\<close>

lemma low15_mask: "(0x7FFF :: u16) = mask 15" by (simp add: mask_eq_exp_minus_1)
lemma flag15_exp: "(0x8000 :: u16) = 2 ^ 15" by simp
lemma bit_low15: "bit (0x7FFF :: u16) n \<longleftrightarrow> n < 15"
  unfolding low15_mask by (auto simp: bit_simps)
lemma bit_flag15: "bit (0x8000 :: u16) n \<longleftrightarrow> n = 15"
  by (simp only: flag15_exp bit_exp_iff possible_bit_word) auto
lemma less_flag15_iff: "x < (0x8000 :: u16) \<longleftrightarrow> \<not> bit x 15"
proof -
  have "x < 0x8000 \<longleftrightarrow> x AND mask 15 = x"
    unfolding mask_eq_iff by (simp add: word_less_def)
  also have "\<dots> \<longleftrightarrow> \<not> bit x 15"
  proof
    assume "x AND mask 15 = x"
    then have "bit (x AND mask 15) 15 = bit x 15" by simp
    then show "\<not> bit x 15" by (simp add: bit_simps)
  next
    assume n: "\<not> bit x 15"
    show "x AND mask 15 = x"
    proof (rule bit_word_eqI)
      fix k assume "k < LENGTH(16)"
      then have "k < 15 \<or> k = 15" by auto
      with n show "bit (x AND mask 15) k = bit x k" by (auto simp: bit_simps)
    qed
  qed
  finally show ?thesis .
qed

lemma u16_eqI:
  assumes "\<And>n. n < 15 \<Longrightarrow> bit x n = bit y n" and "bit x 15 = bit y 15"
  shows "x = (y :: u16)"
proof (rule bit_word_eqI)
  fix n assume "n < LENGTH(16)"
  then have "n < 15 \<or> n = 15" by auto
  with assms show "bit x n = bit y n" by auto
qed

declare bit_numeral_word_iff [simp del]

lemma and_low15 [flag_simps]: "x < 0x8000 \<Longrightarrow> x AND 0x7FFF = (x :: u16)"
  by (rule u16_eqI) (auto simp: less_flag15_iff bit_and_iff bit_low15)
lemma or_flag_low15 [flag_simps]: "(x OR 0x8000) AND 0x7FFF = (x AND 0x7FFF:: u16)"
  by (rule u16_eqI) (auto simp: bit_and_iff bit_or_iff bit_low15 bit_flag15)
lemma and_flag [flag_simps]: "x < 0x8000 \<Longrightarrow> x AND 0x8000 = (0 :: u16)"
  by (rule u16_eqI) (auto simp: less_flag15_iff bit_and_iff bit_or_iff bit_flag15)
lemma or_and_flag [flag_simps]: "(x OR 0x8000) AND 0x8000 = (0x8000 :: u16)"
  by (rule u16_eqI) (auto simp: less_flag15_iff bit_and_iff bit_or_iff bit_flag15)
lemma low15_lt [flag_simps]: "(x AND 0x7FFF) < (0x8000::u16)"
  by (auto simp: less_flag15_iff bit_and_iff bit_low15)
lemma and_flag_iff: "x AND 0x8000 = (0 :: u16) \<longleftrightarrow> x < 0x8000"
proof
  assume "x AND 0x8000 = 0"
  then have "\<not> bit (x AND 0x8000) 15" by simp
  then show "x < 0x8000" by (simp add: bit_and_iff bit_flag15 less_flag15_iff)
qed (rule and_flag)

lemma not_flag_eq [flag_simps]: "NOT (0x8000 :: u16) = 0x7FFF"
  by simp

lemma low15_and_flag [flag_simps]: "(x AND 0x7FFF) AND 0x8000 = (0 :: u16)"
  by (rule u16_eqI) (auto simp: bit_and_iff bit_low15 bit_flag15)

lemma low15_or_flag [flag_simps]: "(x AND 0x7FFF) OR 0x8000 = (x OR 0x8000 :: u16)"
  by (rule u16_eqI) (auto simp: bit_and_iff bit_or_iff bit_low15 bit_flag15)

lemma low15_low15 [flag_simps]: "(x AND 0x7FFF) AND 0x7FFF = (x AND 0x7FFF :: u16)"
  by (rule u16_eqI) (auto simp: bit_and_iff bit_low15)

declare bit_numeral_word_iff [simp]

subsection \<open>Word arithmetic without wrap-around\<close>

lemma unat_add_no_wrap:
  fixes a b :: "'a::len word"
  assumes "unat a + unat b < 2 ^ LENGTH('a)"
  shows "unat (a + b) = unat a + unat b"
  using assms by (simp add: unat_word_ariths)

lemma unat_ucast_mod:
  "unat (ucast (a :: 'a::len word) :: 'b::len word) = unat a mod 2 ^ LENGTH('b)"
  by (simp add: unsigned_ucast_eq take_bit_eq_mod)

lemma unat_u8: "unat (x :: u8) < 256" using unsigned_less[of x] by simp
lemma unat_u16: "unat (x :: u16) < 65536" using unsigned_less[of x] by simp
lemma unat_u32: "unat (x :: u32) < 4294967296" using unsigned_less[of x] by simp

lemma unat_sub_le:
  fixes a b :: "'a::len word"
  assumes "b \<le> a"
  shows "unat (a - b) = unat a - unat b"
  using assms by (rule unat_sub)

lemma word_less_add_between:
  fixes a k b :: "'a::len word"
  assumes "0 < k" and "a < b" and "k < b - a"
  shows "a < a + k" and "a + k < b" and "unat (a + k) = unat a + unat k"
proof -
  have ab: "unat (b - a) = unat b - unat a" using assms(2) by (simp add: unat_sub)
  have k: "unat k < unat b - unat a" using assms(3) ab by (simp add: word_less_nat_alt)
  have b: "unat b < 2 ^ LENGTH('a)" by simp
  show e: "unat (a + k) = unat a + unat k"
    by (rule unat_add_no_wrap) (use k b in linarith)
  show "a < a + k" using assms(1) e by (simp add: word_less_nat_alt unat_gt_0)
  show "a + k < b" using k e by (simp add: word_less_nat_alt)
qed

subsection \<open>The two bytes of a halfword\<close>

lemma maskFF: "(0x00FF :: u16) = mask 8" by (simp add: mask_eq_exp_minus_1)
lemma maskFF00: "(0xFF00 :: u16) = push_bit 8 (mask 8)" by (simp add: mask_eq_exp_minus_1 push_bit_eq_mult)
lemma bit_FF: "bit (0x00FF :: u16) n \<longleftrightarrow> n < 8" unfolding maskFF by (auto simp: bit_simps)
lemma bit_FF00: "bit (0xFF00 :: u16) n \<longleftrightarrow> 8 \<le> n \<and> n < 16" unfolding maskFF00 by (auto simp: bit_simps)
declare bit_numeral_word_iff [simp del]
lemma byte_of_cell_and:
  fixes x :: u16 
  shows "(ucast (x AND 0xFF00) :: u8) = 0" "(ucast (x AND 0x00FF) :: u8) = ucast x"
   "(ucast (drop_bit 8 (x AND 0xFF00)) :: u8) = ucast (drop_bit 8 x)"
   "(ucast (drop_bit 8 (x AND 0x00FF)) :: u8) = 0"
  by (rule bit_word_eqI; auto simp: bit_simps bit_FF bit_FF00 dest: bit_imp_le_length)+
lemma byte_of_cell_or:
  fixes x :: u16 and v :: u8
  shows "(ucast ((x AND 0xFF00) OR ucast v) :: u8) = v"
   "(ucast (drop_bit 8 ((x AND 0xFF00) OR ucast v)) :: u8) = ucast (drop_bit 8 x)"
   "(ucast ((x AND 0x00FF) OR push_bit 8 (ucast v)) :: u8) = ucast x"
   "(ucast (drop_bit 8 ((x AND 0x00FF) OR push_bit 8 (ucast v))) :: u8) = v"
  by (rule bit_word_eqI; auto simp: bit_simps bit_FF bit_FF00 dest: bit_imp_le_length)+
lemma byte_of_high: "(ucast (drop_bit 8 (push_bit 8 (ucast (v :: u8) :: u16))) :: u8) = v"
  by (rule bit_word_eqI) (auto simp: bit_simps dest: bit_imp_le_length)

lemmas byte_of_cell = byte_of_cell_and byte_of_cell_or byte_of_high

declare bit_numeral_word_iff [simp]

subsection \<open>Doubly linked chains\<close>

text \<open>
  \<open>dll nx pv xs\<close>: each element of \<open>xs\<close> points to its successor by \<open>nx\<close> and the successor
  points back by \<open>pv\<close>. The block chain and the (circular) free list of the allocator are both
  instances.
\<close>

fun dll :: "('a \<Rightarrow> 'a) \<Rightarrow> ('a \<Rightarrow> 'a) \<Rightarrow> 'a list \<Rightarrow> bool" where
  "dll nx pv (a # b # xs) = (nx a = b \<and> pv b = a \<and> dll nx pv (b # xs))"
| "dll nx pv _ = True"

lemma dll_append: "dll nx pv (xs @ a # ys) \<longleftrightarrow> dll nx pv (xs @ [a]) \<and> dll nx pv (a # ys)"
proof (induction xs)
  case (Cons x xs)
  then show ?case by (cases xs) auto
qed (cases ys; simp)

lemma dll_cong:
  assumes "\<And>x. x \<in> set (butlast xs) \<Longrightarrow> nx' x = nx x"
    and "\<And>x. x \<in> set (tl xs) \<Longrightarrow> pv' x = pv x"
  shows "dll nx' pv' xs = dll nx pv xs"
  using assms
proof (induction nx pv xs rule: dll.induct)
  case (1 nx pv a b xs)
  then show ?case by (auto split: if_splits)
qed auto

lemma dll_nx: "dll nx pv (xs @ a # b # ys) \<Longrightarrow> nx a = b"
  by (subst (asm) dll_append) simp

lemma dll_pv: "dll nx pv (xs @ a # b # ys) \<Longrightarrow> pv b = a"
  by (subst (asm) dll_append) simp

text \<open>The three splices: take an element out, put one in, put one in another's place.\<close>

lemma dll_remove:
  assumes "dll nx pv (xs @ a # c # b # ys)"
    and "a \<notin> set xs" and "a \<notin> set (butlast (b # ys))"
    and "b \<notin> set ys" and "b \<notin> set (tl (xs @ [a]))"
  shows "dll (nx(a := b)) (pv(b := a)) (xs @ a # b # ys)"
proof -
  have 1: "dll nx pv (xs @ [a])" and 2: "dll nx pv (b # ys)"
    using assms(1) by (subst (asm) dll_append, simp)+
  have "dll (nx(a := b)) (pv(b := a)) (xs @ [a])"
    using 1 by (subst dll_cong [of _ _ nx _ pv]) (use assms in \<open>auto simp: butlast_append\<close>)
  moreover have "dll (nx(a := b)) (pv(b := a)) (b # ys)"
    using 2 by (subst dll_cong [of _ _ nx _ pv]) (use assms in auto)
  ultimately show ?thesis by (subst dll_append) simp
qed

lemma dll_insert:
  assumes "dll nx pv (xs @ a # b # ys)"
    and "a \<notin> set xs" and "a \<notin> set (butlast (b # ys))"
    and "b \<notin> set ys" and "b \<notin> set (tl (xs @ [a]))"
    and "c \<notin> set (xs @ a # b # ys)"
  shows "dll (nx(a := c, c := b)) (pv(c := a, b := c)) (xs @ a # c # b # ys)"
proof -
  have 1: "dll nx pv (xs @ [a])" and 2: "dll nx pv (b # ys)"
    using assms(1) by (subst (asm) dll_append, simp)+
  have tl: "x \<in> set (tl (xs @ [a])) \<Longrightarrow> x \<noteq> c \<and> x \<noteq> b" for x
    using assms(5,6) by (cases xs) auto
  have "dll (nx(a := c, c := b)) (pv(c := a, b := c)) (xs @ [a])"
    using 1 by (subst dll_cong [of _ _ nx _ pv]) (use assms tl in \<open>auto simp: butlast_append\<close>)
  moreover have "dll (nx(a := c, c := b)) (pv(c := a, b := c)) (b # ys)"
    using 2 by (subst dll_cong [of _ _ nx _ pv])
      (use assms in \<open>auto dest: in_set_butlastD split: if_splits\<close>)
  ultimately show ?thesis using assms(5,6) by (subst dll_append) auto
qed

lemma dll_replace:
  assumes "dll nx pv (xs @ a # c # b # ys)"
    and "a \<notin> set xs" and "a \<notin> set (butlast (b # ys))"
    and "b \<notin> set ys" and "b \<notin> set (tl (xs @ [a]))"
    and "d \<notin> set (xs @ a # b # ys)"
  shows "dll (nx(a := d, d := b)) (pv(d := a, b := d)) (xs @ a # d # b # ys)"
proof -
  have "dll (nx(a := b)) (pv(b := a)) (xs @ a # b # ys)"
    by (rule dll_remove [OF assms(1-5)])
  from dll_insert [OF this assms(2-6)] show ?thesis
    by (simp add: fun_upd_twist [of d b] fun_upd_upd)
qed

lemma splice_side:
  assumes "distinct (xs @ a # b # ys)"
  shows "a \<notin> set xs" "a \<notin> set (butlast (b # ys))" "b \<notin> set ys" "b \<notin> set (tl (xs @ [a]))"
  using assms by (auto dest: in_set_butlastD split: if_splits) (cases xs; auto)+

lemma dll_remove_distinct:
  assumes "dll nx pv (xs @ a # c # b # ys)" and "distinct (xs @ a # c # b # ys)"
  shows "dll (nx(a := b)) (pv(b := a)) (xs @ a # b # ys)"
proof -
  have "distinct (xs @ a # b # ys)" using assms(2) by auto
  from dll_remove [OF assms(1) splice_side [OF this]] show ?thesis .
qed

lemma dll_insert_distinct:
  assumes "dll nx pv (xs @ a # b # ys)" and "distinct (xs @ a # b # ys)" and "c \<notin> set (xs @ a # b # ys)"
  shows "dll (nx(a := c, c := b)) (pv(c := a, b := c)) (xs @ a # c # b # ys)"
  using dll_insert [OF assms(1) splice_side [OF assms(2)] assms(3)] .

end
