(* ===== verification/Umm_Heap.thy ===== *)
theory Umm_Heap
  imports Prelude
begin

section \<open>The heap of umm_malloc: blocks, free list and the primitive link operations\<close>

text \<open>
  Models \<^verbatim>\<open>umm_malloc.h\<close> and the static helpers of \<^verbatim>\<open>umm_malloc.c\<close>. The heap is an array of
  8-byte blocks; a block is a header (\<open>used.next\<close>, \<open>used.prev\<close>) and a body, which is either the
  free-list links (\<open>free.next\<close>, \<open>free.prev\<close>) or four bytes of user data, so the two halfwords
  of the body are read under both names. Blocks that lie inside an allocation are user data in all
  four halfwords. Array indices, block numbers and sizes are 16-bit words, as in the code. The
  array is a function of the index: a write outside the heap is a write to a block the heap does
  not own, and the frame lemmas below say that no operation does it.
\<close>

subsection \<open>Blocks\<close>

record umm_block =
  used_next :: u16
  used_prev :: u16
  free_next :: u16
  free_prev :: u16

type_synonym umm_mem = "u16 \<Rightarrow> umm_block"

definition UMM_FREELIST_MASK :: u16 where "UMM_FREELIST_MASK = 0x8000"
definition UMM_BLOCKNO_MASK :: u16 where "UMM_BLOCKNO_MASK = 0x7FFF"

text \<open>The accessor macros, as reads and as assignments.\<close>

definition UMM_NBLOCK :: "umm_mem \<Rightarrow> u16 \<Rightarrow> u16" where "UMM_NBLOCK m b = used_next (m b)"
definition UMM_PBLOCK :: "umm_mem \<Rightarrow> u16 \<Rightarrow> u16" where "UMM_PBLOCK m b = used_prev (m b)"
definition UMM_NFREE :: "umm_mem \<Rightarrow> u16 \<Rightarrow> u16" where "UMM_NFREE m b = free_next (m b)"
definition UMM_PFREE :: "umm_mem \<Rightarrow> u16 \<Rightarrow> u16" where "UMM_PFREE m b = free_prev (m b)"

definition set_NBLOCK :: "umm_mem \<Rightarrow> u16 \<Rightarrow> u16 \<Rightarrow> umm_mem" where
  "set_NBLOCK m b v = m(b := (m b)\<lparr>used_next := v\<rparr>)"
definition set_PBLOCK :: "umm_mem \<Rightarrow> u16 \<Rightarrow> u16 \<Rightarrow> umm_mem" where
  "set_PBLOCK m b v = m(b := (m b)\<lparr>used_prev := v\<rparr>)"
definition set_NFREE :: "umm_mem \<Rightarrow> u16 \<Rightarrow> u16 \<Rightarrow> umm_mem" where
  "set_NFREE m b v = m(b := (m b)\<lparr>free_next := v\<rparr>)"
definition set_PFREE :: "umm_mem \<Rightarrow> u16 \<Rightarrow> u16 \<Rightarrow> umm_mem" where
  "set_PFREE m b v = m(b := (m b)\<lparr>free_prev := v\<rparr>)"

lemma UMM_get_set [mem_simps]:
  "UMM_NBLOCK (set_NBLOCK m b v) = (UMM_NBLOCK m)(b := v)"
  "UMM_PBLOCK (set_NBLOCK m b v) = UMM_PBLOCK m"
  "UMM_NFREE (set_NBLOCK m b v) = UMM_NFREE m"
  "UMM_PFREE (set_NBLOCK m b v) = UMM_PFREE m"
  "UMM_NBLOCK (set_PBLOCK m b v) = UMM_NBLOCK m"
  "UMM_PBLOCK (set_PBLOCK m b v) = (UMM_PBLOCK m)(b := v)"
  "UMM_NFREE (set_PBLOCK m b v) = UMM_NFREE m"
  "UMM_PFREE (set_PBLOCK m b v) = UMM_PFREE m"
  "UMM_NBLOCK (set_NFREE m b v) = UMM_NBLOCK m"
  "UMM_PBLOCK (set_NFREE m b v) = UMM_PBLOCK m"
  "UMM_NFREE (set_NFREE m b v) = (UMM_NFREE m)(b := v)"
  "UMM_PFREE (set_NFREE m b v) = UMM_PFREE m"
  "UMM_NBLOCK (set_PFREE m b v) = UMM_NBLOCK m"
  "UMM_PBLOCK (set_PFREE m b v) = UMM_PBLOCK m"
  "UMM_NFREE (set_PFREE m b v) = UMM_NFREE m"
  "UMM_PFREE (set_PFREE m b v) = (UMM_PFREE m)(b := v)"
  by (auto simp: UMM_NBLOCK_def UMM_PBLOCK_def UMM_NFREE_def UMM_PFREE_def
      set_NBLOCK_def set_PBLOCK_def set_NFREE_def set_PFREE_def)

subsection \<open>The primitive operations\<close>

definition umm_split_block :: "umm_mem \<Rightarrow> u16 \<Rightarrow> u16 \<Rightarrow> u16 \<Rightarrow> umm_mem" where
  "umm_split_block m c blocks new_freemask =
     (let m1 = set_NBLOCK m (c + blocks) ((UMM_NBLOCK m c AND UMM_BLOCKNO_MASK) OR new_freemask);
          m2 = set_PBLOCK m1 (c + blocks) c;
          m3 = set_PBLOCK m2 (UMM_NBLOCK m2 c AND UMM_BLOCKNO_MASK) (c + blocks)
      in set_NBLOCK m3 c (c + blocks))"

definition umm_disconnect_from_free_list :: "umm_mem \<Rightarrow> u16 \<Rightarrow> umm_mem" where
  "umm_disconnect_from_free_list m c =
     (let m1 = set_NFREE m (UMM_PFREE m c) (UMM_NFREE m c);
          m2 = set_PFREE m1 (UMM_NFREE m1 c) (UMM_PFREE m1 c)
      in set_NBLOCK m2 c (UMM_NBLOCK m2 c AND NOT UMM_FREELIST_MASK))"

definition umm_assimilate_up :: "umm_mem \<Rightarrow> u16 \<Rightarrow> umm_mem" where
  "umm_assimilate_up m c =
     (if UMM_NBLOCK m (UMM_NBLOCK m c) AND UMM_FREELIST_MASK \<noteq> 0
      then
        let m1 = umm_disconnect_from_free_list m (UMM_NBLOCK m c);
            m2 = set_PBLOCK m1 (UMM_NBLOCK m1 (UMM_NBLOCK m1 c) AND UMM_BLOCKNO_MASK) c
        in set_NBLOCK m2 c (UMM_NBLOCK m2 (UMM_NBLOCK m2 c) AND UMM_BLOCKNO_MASK)
      else m)"

definition umm_assimilate_down :: "umm_mem \<Rightarrow> u16 \<Rightarrow> u16 \<Rightarrow> umm_mem \<times> u16" where
  "umm_assimilate_down m c freemask =
     (let m1 = set_NBLOCK m (UMM_PBLOCK m c) (UMM_NBLOCK m c OR freemask);
          m2 = set_PBLOCK m1 (UMM_NBLOCK m1 c) (UMM_PBLOCK m1 c)
      in (m2, UMM_PBLOCK m2 c))"

subsection \<open>Block number and free mark\<close>

definition blkno :: "umm_mem \<Rightarrow> u16 \<Rightarrow> u16" where
  "blkno m c = UMM_NBLOCK m c AND UMM_BLOCKNO_MASK"

definition blkfree :: "umm_mem \<Rightarrow> u16 \<Rightarrow> bool" where
  "blkfree m c \<longleftrightarrow> UMM_NBLOCK m c AND UMM_FREELIST_MASK \<noteq> 0"

lemmas umm_masks = UMM_FREELIST_MASK_def UMM_BLOCKNO_MASK_def

lemma not_freelist: "NOT UMM_FREELIST_MASK = UMM_BLOCKNO_MASK"
  by (simp add: umm_masks)

lemma NBLOCK_used: "\<not> blkfree m c \<Longrightarrow> UMM_NBLOCK m c = blkno m c"
  by (simp add: blkfree_def blkno_def umm_masks and_flag_iff and_low15)

lemma blkno_less [simp]: "blkno m c < 0x8000"
  by (simp add: blkno_def umm_masks low15_lt)

lemma blkno_set_NBLOCK [mem_simps]:
  "blkno (set_NBLOCK m c v) = (blkno m)(c := v AND UMM_BLOCKNO_MASK)"
  "blkfree (set_NBLOCK m c v) = (blkfree m)(c := (v AND UMM_FREELIST_MASK \<noteq> 0))"
  by (auto simp: blkno_def blkfree_def mem_simps fun_eq_iff)

lemma blkno_frame [mem_simps]:
  "blkno (set_PBLOCK m c v) = blkno m" "blkfree (set_PBLOCK m c v) = blkfree m"
  "blkno (set_NFREE m c v) = blkno m" "blkfree (set_NFREE m c v) = blkfree m"
  "blkno (set_PFREE m c v) = blkno m" "blkfree (set_PFREE m c v) = blkfree m"
  by (auto simp: blkno_def blkfree_def mem_simps)

subsection \<open>What each operation does to the links\<close>

lemma split_links:
  assumes d: "d = c + k" and "d \<noteq> c" and "b = blkno m c"
    and "fm = 0 \<or> fm = UMM_FREELIST_MASK" and "d < 0x8000"
  shows "blkno (umm_split_block m c k fm) = (blkno m)(c := d, d := b)"
    and "blkfree (umm_split_block m c k fm) = (blkfree m)(c := False, d := (fm \<noteq> 0))"
    and "UMM_PBLOCK (umm_split_block m c k fm) = (UMM_PBLOCK m)(d := c, b := d)"
    and "UMM_NFREE (umm_split_block m c k fm) = UMM_NFREE m"
    and "UMM_PFREE (umm_split_block m c k fm) = UMM_PFREE m"
  using assms
  by (auto simp: umm_split_block_def Let_def mem_simps umm_masks flag_simps blkno_def fun_eq_iff
      and_flag)

lemma disconnect_links:
  assumes "p = UMM_PFREE m c" and "q = UMM_NFREE m c" and "p \<noteq> c"
  shows "blkno (umm_disconnect_from_free_list m c) = blkno m"
    and "blkfree (umm_disconnect_from_free_list m c) = (blkfree m)(c := False)"
    and "UMM_PBLOCK (umm_disconnect_from_free_list m c) = UMM_PBLOCK m"
    and "UMM_NFREE (umm_disconnect_from_free_list m c) = (UMM_NFREE m)(p := q)"
    and "UMM_PFREE (umm_disconnect_from_free_list m c) = (UMM_PFREE m)(q := p)"
  using assms unfolding umm_disconnect_from_free_list_def not_freelist
  by (auto simp: Let_def mem_simps umm_masks flag_simps blkno_def fun_eq_iff)

lemma assimilate_up_used:
  assumes "\<not> blkfree m c" and "\<not> blkfree m (blkno m c)"
  shows "umm_assimilate_up m c = m"
  using assms by (simp add: umm_assimilate_up_def NBLOCK_used [OF assms(1)]) (simp add: blkfree_def)

lemma assimilate_up_links:
  assumes "\<not> blkfree m c" and "d = blkno m c" and "blkfree m d" and "b = blkno m d"
    and "p = UMM_PFREE m d" and "q = UMM_NFREE m d" and "p \<noteq> d" and "d \<noteq> c"
  shows "blkno (umm_assimilate_up m c) = (blkno m)(c := b)"
    and "blkfree (umm_assimilate_up m c) = (blkfree m)(d := False)"
    and "UMM_PBLOCK (umm_assimilate_up m c) = (UMM_PBLOCK m)(b := c)"
    and "UMM_NFREE (umm_assimilate_up m c) = (UMM_NFREE m)(p := q)"
    and "UMM_PFREE (umm_assimilate_up m c) = (UMM_PFREE m)(q := p)"
proof -
  let ?m1 = "umm_disconnect_from_free_list m d"
  note dl = disconnect_links [OF assms(5,6,7)]
  have n: "UMM_NBLOCK m c = d" using assms(1,2) by (simp add: NBLOCK_used)
  have n1: "UMM_NBLOCK ?m1 c = d"
    using dl(1,2) assms(1,2) by (simp add: NBLOCK_used)
  have b1: "UMM_NBLOCK ?m1 d AND UMM_BLOCKNO_MASK = b"
    using dl(1) assms(4) by (metis blkno_def)
  have eq: "umm_assimilate_up m c = set_NBLOCK (set_PBLOCK ?m1 b c) c b"
    using assms(3) by (simp add: umm_assimilate_up_def n n1 b1 Let_def mem_simps blkfree_def)
  show "blkno (umm_assimilate_up m c) = (blkno m)(c := b)"
    using assms(4) unfolding eq by (simp add: mem_simps dl umm_masks flag_simps)
  show "blkfree (umm_assimilate_up m c) = (blkfree m)(d := False)"
    using assms(1,4) unfolding eq
    by (auto simp: mem_simps dl umm_masks flag_simps fun_eq_iff)
  show "UMM_PBLOCK (umm_assimilate_up m c) = (UMM_PBLOCK m)(b := c)"
    "UMM_NFREE (umm_assimilate_up m c) = (UMM_NFREE m)(p := q)"
    "UMM_PFREE (umm_assimilate_up m c) = (UMM_PFREE m)(q := p)"
    unfolding eq by (simp_all add: mem_simps dl)
qed

lemma assimilate_down_links:
  assumes "\<not> blkfree m c" and "a = UMM_PBLOCK m c" and "b = blkno m c" and "a \<noteq> c" and "b \<noteq> c"
    and "fm = 0 \<or> fm = UMM_FREELIST_MASK"
  shows "snd (umm_assimilate_down m c fm) = a"
    and "blkno (fst (umm_assimilate_down m c fm)) = (blkno m)(a := b)"
    and "blkfree (fst (umm_assimilate_down m c fm)) = (blkfree m)(a := (fm \<noteq> 0))"
    and "UMM_PBLOCK (fst (umm_assimilate_down m c fm)) = (UMM_PBLOCK m)(b := a)"
    and "UMM_NFREE (fst (umm_assimilate_down m c fm)) = UMM_NFREE m"
    and "UMM_PFREE (fst (umm_assimilate_down m c fm)) = UMM_PFREE m"
  using assms
  by (auto simp: umm_assimilate_down_def Let_def mem_simps NBLOCK_used umm_masks flag_simps
      and_flag fun_eq_iff and_low15)

end
