(* ===== verification/Umm_Malloc.thy ===== *)
theory Umm_Malloc
  imports Umm_Heap
begin

section \<open>umm_malloc: initialisation, allocation, release and reallocation\<close>

text \<open>
  Models \<^verbatim>\<open>umm_malloc.c\<close> as configured in this repository (\<open>UMM_BEST_FIT\<close>, 8-byte blocks, logging
  and poisoning off). The state is the three global variables of the allocator with the heap's
  memory and the two board constants. A pointer is a 16-bit address and \<open>0\<close> is \<^verbatim>\<open>NULL\<close>. The
  critical-section macros have no effect on the sequential state. The scan of the free list is the
  only loop; it is a partial function, so an operation that never returns has the value \<open>None\<close>.
\<close>

record umm_state =
  umm_heap :: u16
  umm_numblocks :: u16
  umm_blk :: umm_mem
  UMM_Heap_Address :: u16
  UMM_Heap_Size :: u32

definition UMM_BLOCK_LAST :: "umm_state \<Rightarrow> u16" where
  "UMM_BLOCK_LAST s = umm_numblocks s - 1"

text \<open>The address \<open>&UMM_DATA(b)\<close> and the (truncating) way back to the block number.\<close>

definition UMM_DATA :: "umm_state \<Rightarrow> u16 \<Rightarrow> u16" where
  "UMM_DATA s b = umm_heap s + 8 * b + 4"

definition umm_block_of :: "umm_state \<Rightarrow> u16 \<Rightarrow> u16" where
  "umm_block_of s ptr = (ptr - umm_heap s) div 8"

definition umm_blocks :: "u16 \<Rightarrow> u16" where
  "umm_blocks sz = (if sz \<le> 4 then 1 else 2 + (sz - (1 + 4)) div 8)"

subsection \<open>The heap as bytes\<close>

text \<open>
  \<^verbatim>\<open>memset\<close>, \<^verbatim>\<open>memcpy\<close> and \<^verbatim>\<open>memmove\<close> see the heap as memory: halfword \<open>k\<close> (at byte
  offset \<open>2 * k\<close> from the heap base) is field \<open>k mod 4\<close> of block \<open>k div 4\<close>. The length of a copy
  in \<open>umm_realloc\<close> is even and heap pointers are word aligned, so copies move halfwords; clearing
  is to the byte (the low byte of a halfword comes first).
\<close>

definition umm_cell :: "umm_mem \<Rightarrow> nat \<Rightarrow> u16" where
  "umm_cell m k =
     (let b = m (of_nat (k div 4)) in
      if k mod 4 = 0 then used_next b
      else if k mod 4 = 1 then used_prev b
      else if k mod 4 = 2 then free_next b
      else free_prev b)"

definition umm_of_cells :: "(nat \<Rightarrow> u16) \<Rightarrow> umm_mem" where
  "umm_of_cells f =
     (\<lambda>b. \<lparr>used_next = f (4 * unat b), used_prev = f (4 * unat b + 1),
          free_next = f (4 * unat b + 2), free_prev = f (4 * unat b + 3)\<rparr>)"

definition umm_memmove :: "umm_mem \<Rightarrow> nat \<Rightarrow> nat \<Rightarrow> nat \<Rightarrow> umm_mem" where
  "umm_memmove m dst src n =
     umm_of_cells (\<lambda>k. if dst \<le> k \<and> k < dst + n then umm_cell m (src + (k - dst)) else umm_cell m k)"

definition umm_memzero :: "umm_mem \<Rightarrow> nat \<Rightarrow> nat \<Rightarrow> umm_mem" where
  "umm_memzero m off len =
     umm_of_cells (\<lambda>k.
       (let x = umm_cell m k;
            y = (if off \<le> 2 * k \<and> 2 * k < off + len then x AND 0xFF00 else x)
        in if off \<le> 2 * k + 1 \<and> 2 * k + 1 < off + len then y AND 0x00FF else y))"

text \<open>Copy \<open>n\<close> bytes between two heap addresses.\<close>

definition umm_copy :: "umm_state \<Rightarrow> u16 \<Rightarrow> u16 \<Rightarrow> u16 \<Rightarrow> umm_mem \<Rightarrow> umm_mem" where
  "umm_copy s dst src n m =
     umm_memmove m (unat (dst - umm_heap s) div 2) (unat (src - umm_heap s) div 2) (unat n div 2)"

subsection \<open>Initialisation\<close>

definition umm_init :: "umm_state \<Rightarrow> umm_state" where
  "umm_init s =
     (let s1 = s\<lparr>umm_heap := UMM_Heap_Address s, umm_numblocks := ucast (UMM_Heap_Size s div 8)\<rparr>;
          last = UMM_BLOCK_LAST s1;
          m0 = umm_memzero (umm_blk s1) 0 (unat (ucast (UMM_Heap_Size s) :: u16));
          m1 = set_NBLOCK m0 0 1;
          m2 = set_NFREE m1 0 1;
          m3 = set_PFREE m2 0 1;
          m4 = set_NBLOCK m3 1 (last OR UMM_FREELIST_MASK);
          m5 = set_PBLOCK m4 last 1
      in s1\<lparr>umm_blk := m5\<rparr>)"

definition umm_ensure_init :: "umm_state \<Rightarrow> umm_state" where
  "umm_ensure_init s = (if umm_heap s = 0 then umm_init s else s)"

subsection \<open>Release\<close>

text \<open>The part of \<open>umm_free_core\<close> that works on block numbers, and the function itself.\<close>

definition umm_free_block :: "umm_mem \<Rightarrow> u16 \<Rightarrow> umm_mem" where
  "umm_free_block m0 c =
     (let m = umm_assimilate_up m0 c
      in if UMM_NBLOCK m (UMM_PBLOCK m c) AND UMM_FREELIST_MASK \<noteq> 0
         then fst (umm_assimilate_down m c UMM_FREELIST_MASK)
         else
           let m1 = set_PFREE m (UMM_NFREE m 0) c;
               m2 = set_NFREE m1 c (UMM_NFREE m1 0);
               m3 = set_PFREE m2 c 0;
               m4 = set_NFREE m3 0 c
           in set_NBLOCK m4 c (UMM_NBLOCK m4 c OR UMM_FREELIST_MASK))"

definition umm_free_core :: "umm_state \<Rightarrow> u16 \<Rightarrow> umm_state" where
  "umm_free_core s ptr = s\<lparr>umm_blk := umm_free_block (umm_blk s) (umm_block_of s ptr)\<rparr>"

definition umm_free :: "umm_state \<Rightarrow> u16 \<Rightarrow> umm_state" where
  "umm_free s0 ptr =
     (let s = umm_ensure_init s0 in if ptr = 0 then s else umm_free_core s ptr)"

subsection \<open>Allocation\<close>

text \<open>The scan: \<open>cf\<close>, the size last looked at, and the best block so far with its size.\<close>

partial_function (option) umm_scan ::
  "umm_mem \<Rightarrow> u16 \<Rightarrow> u16 \<Rightarrow> u16 \<Rightarrow> u16 \<Rightarrow> u16 \<Rightarrow> (u16 \<times> u16 \<times> u16 \<times> u16) option" where
  "umm_scan m blocks cf blockSize bestBlock bestSize =
     (if cf = 0 then Some (cf, blockSize, bestBlock, bestSize)
      else
        let blockSize' = (UMM_NBLOCK m cf AND UMM_BLOCKNO_MASK) - cf
        in if blocks \<le> blockSize' \<and> blockSize' < bestSize
           then umm_scan m blocks (UMM_NFREE m cf) blockSize' cf blockSize'
           else umm_scan m blocks (UMM_NFREE m cf) blockSize' bestBlock bestSize)"

text \<open>Taking \<open>blocks\<close> blocks from the front of the larger free block \<open>cf\<close>.\<close>

definition umm_malloc_split :: "umm_mem \<Rightarrow> u16 \<Rightarrow> u16 \<Rightarrow> umm_mem" where
  "umm_malloc_split m cf blocks =
     (let m1 = umm_split_block m cf blocks UMM_FREELIST_MASK;
          m2 = set_NFREE m1 (UMM_PFREE m1 cf) (cf + blocks);
          m3 = set_PFREE m2 (cf + blocks) (UMM_PFREE m2 cf);
          m4 = set_PFREE m3 (UMM_NFREE m3 cf) (cf + blocks)
      in set_NFREE m4 (cf + blocks) (UMM_NFREE m4 cf))"

text \<open>
  The part of \<open>umm_malloc_core\<close> that works on block numbers: the memory after it and the block
  taken, if there is one.
\<close>

definition umm_malloc_block :: "umm_mem \<Rightarrow> u16 \<Rightarrow> (umm_mem \<times> u16 option) option" where
  "umm_malloc_block m blocks =
     (case umm_scan m blocks (UMM_NFREE m 0) 0 (UMM_NFREE m 0) 0x7FFF of
        None \<Rightarrow> None
      | Some (cf0, blockSize0, bestBlock, bestSize) \<Rightarrow>
          let cf = (if 0x7FFF \<noteq> bestSize then bestBlock else cf0);
              blockSize = (if 0x7FFF \<noteq> bestSize then bestSize else blockSize0)
          in if UMM_NBLOCK m cf AND UMM_BLOCKNO_MASK \<noteq> 0 \<and> blocks \<le> blockSize
             then if blockSize = blocks
                  then Some (umm_disconnect_from_free_list m cf, Some cf)
                  else Some (umm_malloc_split m cf blocks, Some cf)
             else Some (m, None))"

definition umm_malloc_core :: "umm_state \<Rightarrow> u16 \<Rightarrow> (umm_state \<times> u16) option" where
  "umm_malloc_core s sz =
     (case umm_malloc_block (umm_blk s) (umm_blocks sz) of
        None \<Rightarrow> None
      | Some (m, None) \<Rightarrow> Some (s, 0)
      | Some (m, Some cf) \<Rightarrow> Some (s\<lparr>umm_blk := m\<rparr>, UMM_DATA s cf))"

definition umm_malloc :: "umm_state \<Rightarrow> u16 \<Rightarrow> (umm_state \<times> u16) option" where
  "umm_malloc s0 sz =
     (let s = umm_ensure_init s0 in if sz = 0 then Some (s, 0) else umm_malloc_core s sz)"

definition umm_calloc :: "umm_state \<Rightarrow> u16 \<Rightarrow> u16 \<Rightarrow> (umm_state \<times> u16) option" where
  "umm_calloc s num item_size =
     (case umm_malloc s (item_size * num) of
        None \<Rightarrow> None
      | Some (s', ret) \<Rightarrow>
          if ret \<noteq> 0
          then Some (s'\<lparr>umm_blk :=
                 umm_memzero (umm_blk s') (unat (ret - umm_heap s')) (unat (item_size * num))\<rparr>, ret)
          else Some (s', ret))"

subsection \<open>Reallocation\<close>

text \<open>
  The six cases of \<open>umm_realloc\<close>, each giving the state, the block, the pointer and the size the
  block has then; the split of a block that is too large comes after.
\<close>

definition umm_realloc_place ::
  "umm_state \<Rightarrow> u16 \<Rightarrow> u16 \<Rightarrow> (umm_state \<times> u16 \<times> u16 \<times> u16) option" where
  "umm_realloc_place s ptr sz =
     (let m = umm_blk s;
          blocks = umm_blocks sz;
          c = umm_block_of s ptr;
          blockSize = UMM_NBLOCK m c - c;
          curSize = blockSize * 8 - 4;
          nextBlockSize =
            (if UMM_NBLOCK m (UMM_NBLOCK m c) AND UMM_FREELIST_MASK \<noteq> 0
             then (UMM_NBLOCK m (UMM_NBLOCK m c) AND UMM_BLOCKNO_MASK) - UMM_NBLOCK m c else 0);
          prevBlockSize =
            (if UMM_NBLOCK m (UMM_PBLOCK m c) AND UMM_FREELIST_MASK \<noteq> 0
             then c - UMM_PBLOCK m c else 0)
      in if blocks \<le> blockSize
         then Some (s, c, ptr, blockSize)
         else if blockSize + nextBlockSize = blocks
         then Some (s\<lparr>umm_blk := umm_assimilate_up m c\<rparr>, c, ptr, blockSize + nextBlockSize)
         else if prevBlockSize = 0 \<and> blocks \<le> blockSize + nextBlockSize
         then Some (s\<lparr>umm_blk := umm_assimilate_up m c\<rparr>, c, ptr, blockSize + nextBlockSize)
         else if blocks \<le> prevBlockSize + blockSize
         then
           let m1 = umm_disconnect_from_free_list m (UMM_PBLOCK m c);
               (m2, c') = umm_assimilate_down m1 c 0;
               m3 = umm_copy s (UMM_DATA s c') ptr curSize m2
           in Some (s\<lparr>umm_blk := m3\<rparr>, c', UMM_DATA s c', blockSize + prevBlockSize)
         else if blocks \<le> prevBlockSize + blockSize + nextBlockSize
         then
           let m0 = umm_assimilate_up m c;
               m1 = umm_disconnect_from_free_list m0 (UMM_PBLOCK m0 c);
               (m2, c') = umm_assimilate_down m1 c 0;
               m3 = umm_copy s (UMM_DATA s c') ptr curSize m2
           in Some (s\<lparr>umm_blk := m3\<rparr>, c', UMM_DATA s c',
                blockSize + (prevBlockSize + nextBlockSize))
         else
           (case umm_malloc_core s sz of
              None \<Rightarrow> None
            | Some (s1, ptr') \<Rightarrow>
                if ptr' \<noteq> 0
                then Some (umm_free_core
                       (s1\<lparr>umm_blk := umm_copy s1 ptr' ptr curSize (umm_blk s1)\<rparr>) ptr,
                       c, ptr', blocks)
                else Some (s1, c, ptr', blocks)))"

definition umm_realloc :: "umm_state \<Rightarrow> u16 \<Rightarrow> u16 \<Rightarrow> (umm_state \<times> u16) option" where
  "umm_realloc s0 ptr sz =
     (let s = umm_ensure_init s0 in
      if ptr = 0 then umm_malloc s sz
      else if sz = 0 then Some (umm_free s ptr, 0)
      else
        (case umm_realloc_place s ptr sz of
           None \<Rightarrow> None
         | Some (s', c, ptr', blockSize) \<Rightarrow>
             let blocks = umm_blocks sz in
             if blocks < blockSize
             then
               let s'' = s'\<lparr>umm_blk := umm_split_block (umm_blk s') c blocks 0\<rparr>
               in Some (umm_free_core s'' (UMM_DATA s'' (c + blocks)), ptr')
             else Some (s', ptr')))"

end
