(* ===== verification/Umm_Inv.thy ===== *)
theory Umm_Inv
  imports Umm_Malloc
begin

section \<open>The heap invariant and what each link operation does to it\<close>

text \<open>
  The invariant of a heap: the blocks, read along \<open>UMM_NBLOCK\<close> from block 0, form a strictly
  increasing doubly linked chain that ends in the last block; the blocks marked free are exactly
  the members of a circular doubly linked free list through block 0; and no two adjacent blocks
  are free. The lists are those an executable walk of the links produces. Each link operation is
  then shown to carry the chain and the free list to the ones a reader expects, writing only
  headers of chain blocks and links of free blocks.
\<close>

subsection \<open>The invariant\<close>

definition umm_chain :: "umm_mem \<Rightarrow> u16 \<Rightarrow> u16 list \<Rightarrow> bool" where
  "umm_chain m n bs \<longleftrightarrow>
     2 < n \<and> n < 0x8000 \<and> bs \<noteq> [] \<and> hd bs = 0 \<and> last bs = n - 1 \<and> sorted_wrt (<) bs \<and>
     dll (blkno m) (UMM_PBLOCK m) bs \<and> \<not> blkfree m 0 \<and> \<not> blkfree m (n - 1) \<and>
     blkno m (n - 1) = 0"

definition umm_flist :: "umm_mem \<Rightarrow> u16 list \<Rightarrow> u16 list \<Rightarrow> bool" where
  "umm_flist m bs fs \<longleftrightarrow>
     dll (UMM_NFREE m) (UMM_PFREE m) (0 # fs @ [0]) \<and> distinct fs \<and>
     set fs = {b \<in> set bs. blkfree m b}"

definition umm_coalesced :: "umm_mem \<Rightarrow> u16 list \<Rightarrow> bool" where
  "umm_coalesced m bs \<longleftrightarrow> list_all (\<lambda>b. \<not> (blkfree m b \<and> blkfree m (blkno m b))) bs"

lemma coalescedD: "umm_coalesced m bs \<Longrightarrow> b \<in> set bs \<Longrightarrow> blkfree m b \<Longrightarrow> \<not> blkfree m (blkno m b)"
  by (auto simp: umm_coalesced_def list_all_iff)

lemma coalescedI:
  "(\<And>b. b \<in> set bs \<Longrightarrow> blkfree m b \<Longrightarrow> \<not> blkfree m (blkno m b)) \<Longrightarrow> umm_coalesced m bs"
  by (auto simp: umm_coalesced_def list_all_iff)

text \<open>Executable walks of the two chains.\<close>

fun umm_walk :: "nat \<Rightarrow> (u16 \<Rightarrow> u16) \<Rightarrow> u16 \<Rightarrow> u16 list" where
  "umm_walk 0 nx b = []"
| "umm_walk (Suc k) nx b = b # (if nx b = 0 then [] else umm_walk k nx (nx b))"

subsection \<open>Reading the chain\<close>

lemma chainD:
  assumes "umm_chain m n bs"
  shows "2 < n" "n < 0x8000" "bs \<noteq> []" "hd bs = 0" "last bs = n - 1" "sorted_wrt (<) bs"
    "dll (blkno m) (UMM_PBLOCK m) bs" "\<not> blkfree m 0" "\<not> blkfree m (n - 1)" "blkno m (n - 1) = 0"
    "distinct bs" "0 \<in> set bs" "n - 1 \<in> set bs" "0 < n - 1"
proof -
  show d: "distinct bs" using assms by (auto simp: umm_chain_def strict_sorted_iff)
  show "0 \<in> set bs" "n - 1 \<in> set bs"
    using assms hd_in_set [of bs] last_in_set [of bs] by (auto simp: umm_chain_def)
  show "0 < n - 1" using assms unfolding umm_chain_def by unat_arith
qed (use assms in \<open>auto simp: umm_chain_def\<close>)

lemma chain_last_max: "umm_chain m n bs \<Longrightarrow> b \<in> set bs \<Longrightarrow> b \<le> n - 1"
proof -
  assume c: "umm_chain m n bs" and b: "b \<in> set bs"
  have bs: "butlast bs @ [n - 1] = bs"
    using append_butlast_last_id [OF chainD(3)[OF c]] chainD(5)[OF c] by simp
  have "sorted_wrt (<) (butlast bs @ [n - 1])" "b \<in> set (butlast bs @ [n - 1])"
    unfolding bs using b chainD(6)[OF c] by auto
  then show ?thesis by (auto simp: sorted_wrt_append intro: order.strict_implies_order)
qed

lemma chain_next:
  assumes "umm_chain m n bs" and "b \<in> set bs" and "b \<noteq> n - 1"
  obtains xs ys where "bs = xs @ b # blkno m b # ys"
proof -
  obtain xs zs where bs: "bs = xs @ b # zs" using split_list [OF assms(2)] by blast
  have "zs \<noteq> []" using chainD(5)[OF assms(1)] assms(3) bs by auto
  then obtain d ys where zs: "zs = d # ys" by (cases zs) auto
  have "dll (blkno m) (UMM_PBLOCK m) (xs @ b # d # ys)" using chainD(7)[OF assms(1)] bs zs by simp
  then have "blkno m b = d" by (rule dll_nx)
  with bs zs that show ?thesis by blast
qed

lemma chain_prev:
  assumes "umm_chain m n bs" and "b \<in> set bs" and "b \<noteq> 0"
  obtains xs ys where "bs = xs @ UMM_PBLOCK m b # b # ys"
proof -
  obtain zs ys where bs: "bs = zs @ b # ys" using split_list [OF assms(2)] by blast
  have "zs \<noteq> []" using chainD(4)[OF assms(1)] assms(3) bs by auto
  then obtain xs a where zs: "zs = xs @ [a]" by (cases zs rule: rev_exhaust) auto
  have "dll (blkno m) (UMM_PBLOCK m) (xs @ a # b # ys)" using chainD(7)[OF assms(1)] bs zs by simp
  then have "UMM_PBLOCK m b = a" by (rule dll_pv)
  with bs zs that show ?thesis by simp
qed

lemma chain_step:
  assumes "umm_chain m n bs" and "b \<in> set bs" and "b \<noteq> n - 1"
  shows "blkno m b \<in> set bs" "b < blkno m b" "UMM_PBLOCK m (blkno m b) = b"
    "blkno m b \<noteq> 0" "\<And>x. b < x \<Longrightarrow> x < blkno m b \<Longrightarrow> x \<notin> set bs"
proof -
  from assms obtain xs ys where bs: "bs = xs @ b # blkno m b # ys" by (rule chain_next)
  have d: "dll (blkno m) (UMM_PBLOCK m) (xs @ b # blkno m b # ys)"
    using chainD(7)[OF assms(1)] bs by simp
  then show "UMM_PBLOCK m (blkno m b) = b" by (rule dll_pv)
  show "blkno m b \<in> set bs" by (subst bs) simp
  from chainD(6)[OF assms(1)] bs have s: "sorted_wrt (<) (xs @ b # blkno m b # ys)" by simp
  then show lt: "b < blkno m b" by (simp add: sorted_wrt_append)
  then show "blkno m b \<noteq> 0" by auto
  fix x assume x: "b < x" "x < blkno m b"
  show "x \<notin> set bs"
  proof
    assume "x \<in> set bs"
    then have "x \<in> set (xs @ b # blkno m b # ys)" using bs by simp
    with s x show False by (auto simp: sorted_wrt_append)
  qed
qed

lemma chain_back:
  assumes "umm_chain m n bs" and "b \<in> set bs" and "b \<noteq> 0"
  shows "UMM_PBLOCK m b \<in> set bs" "UMM_PBLOCK m b < b" "blkno m (UMM_PBLOCK m b) = b"
    "UMM_PBLOCK m b \<noteq> n - 1"
proof -
  from assms obtain xs ys where bs: "bs = xs @ UMM_PBLOCK m b # b # ys" by (rule chain_prev)
  have d: "dll (blkno m) (UMM_PBLOCK m) (xs @ UMM_PBLOCK m b # b # ys)"
    using chainD(7)[OF assms(1)] bs by simp
  then show "blkno m (UMM_PBLOCK m b) = b" by (rule dll_nx)
  show m: "UMM_PBLOCK m b \<in> set bs" by (subst bs) simp
  from chainD(6)[OF assms(1)] bs have s: "sorted_wrt (<) (xs @ UMM_PBLOCK m b # b # ys)" by simp
  then show lt: "UMM_PBLOCK m b < b" by (simp add: sorted_wrt_append)
  show "UMM_PBLOCK m b \<noteq> n - 1" using chain_last_max[OF assms(1,2)] lt by auto
qed

subsection \<open>Merging two blocks and splitting one\<close>

lemma chain_merge:
  assumes c: "umm_chain m n bs" and a: "a \<in> set bs" "a \<noteq> n - 1" "blkno m a \<noteq> n - 1"
    and nx: "blkno m' = (blkno m)(a := blkno m (blkno m a))"
    and pv: "UMM_PBLOCK m' = (UMM_PBLOCK m)(blkno m (blkno m a) := a)"
    and fr: "\<not> blkfree m' 0" "\<not> blkfree m' (n - 1)"
  shows "umm_chain m' n (remove1 (blkno m a) bs)"
proof -
  let ?d = "blkno m a" and ?b = "blkno m (blkno m a)"
  obtain xs zs where bs: "bs = xs @ a # ?d # zs" using chain_next[OF c a(1,2)] by blast
  have d: "?d \<in> set bs" using chain_step(1)[OF c a(1,2)] .
  obtain xs' ys where bs': "bs = xs' @ ?d # ?b # ys" using chain_next[OF c d a(3)] by blast
  have dist: "distinct bs" by (rule chainD(11)[OF c])
  have "zs = ?b # ys"
  proof -
    have "dropWhile ((\<noteq>) ?d) bs = ?d # zs"
      using dist bs by (subst bs, subst dropWhile_append2) auto
    moreover have "dropWhile ((\<noteq>) ?d) bs = ?d # ?b # ys"
      using dist bs' by (subst bs', subst dropWhile_append2) auto
    ultimately show ?thesis by simp
  qed
  with bs have bs: "bs = xs @ a # ?d # ?b # ys" by simp
  have dist: "distinct (xs @ a # ?d # ?b # ys)" using dist bs by simp
  have r: "remove1 ?d bs = xs @ a # ?b # ys"
    by (subst bs) (use dist in \<open>simp add: remove1_append\<close>)
  have s: "sorted_wrt (<) (xs @ a # ?d # ?b # ys)" using chainD(6)[OF c] bs by simp
  have l: "dll (blkno m) (UMM_PBLOCK m) (xs @ a # ?d # ?b # ys)" using chainD(7)[OF c] bs by simp
  have dll: "dll (blkno m') (UMM_PBLOCK m') (xs @ a # ?b # ys)"
    unfolding nx pv using l dist by (rule dll_remove_distinct)
  have hd: "hd (xs @ a # ?b # ys) = 0" using chainD(4)[OF c] bs by (cases xs) auto
  have la: "last (xs @ a # ?b # ys) = n - 1" using chainD(5)[OF c] bs by (simp split: if_splits)
  have z: "blkno m' (n - 1) = 0" using nx a(2) chainD(10)[OF c] by simp
  show ?thesis unfolding r umm_chain_def
    using chainD(1,2)[OF c] hd la dll z fr s by (auto simp: sorted_wrt_append)
qed

lemma chain_split:
  assumes c: "umm_chain m n bs" and a: "a \<in> set bs" "a \<noteq> n - 1" "a < d" "d < blkno m a"
    and nx: "blkno m' = (blkno m)(a := d, d := blkno m a)"
    and pv: "UMM_PBLOCK m' = (UMM_PBLOCK m)(d := a, blkno m a := d)"
    and fr: "\<not> blkfree m' 0" "\<not> blkfree m' (n - 1)"
  shows "\<exists>bs'. umm_chain m' n bs' \<and> set bs' = insert d (set bs)"
proof -
  let ?b = "blkno m a"
  obtain xs ys where bs: "bs = xs @ a # ?b # ys" using chain_next[OF c a(1,2)] by blast
  have dist: "distinct (xs @ a # ?b # ys)" using chainD(11)[OF c] bs by simp
  have s: "sorted_wrt (<) (xs @ a # ?b # ys)" using chainD(6)[OF c] bs by simp
  have l: "dll (blkno m) (UMM_PBLOCK m) (xs @ a # ?b # ys)" using chainD(7)[OF c] bs by simp
  have d: "d \<notin> set (xs @ a # ?b # ys)" using chain_step(5)[OF c a(1,2) a(3,4)] bs by simp
  have dll: "dll (blkno m') (UMM_PBLOCK m') (xs @ a # d # ?b # ys)"
    unfolding nx pv using l dist d by (rule dll_insert_distinct)
  have hd: "hd (xs @ a # d # ?b # ys) = 0" using chainD(4)[OF c] bs by (cases xs) auto
  have la: "last (xs @ a # d # ?b # ys) = n - 1" using chainD(5)[OF c] bs by (simp split: if_splits)
  have "n - 1 \<in> set bs" by (rule chainD(13)[OF c])
  then have "n - 1 \<noteq> d" using d bs by auto
  then have z: "blkno m' (n - 1) = 0" using nx a(2) chainD(10)[OF c] by simp
  have s': "sorted_wrt (<) (xs @ a # d # ?b # ys)"
    using s a(3,4) by (auto simp: sorted_wrt_append intro: order.strict_trans)
  have "umm_chain m' n (xs @ a # d # ?b # ys)" unfolding umm_chain_def
    using chainD(1,2)[OF c] hd la dll z fr s' by auto
  moreover have "set (xs @ a # d # ?b # ys) = insert d (set bs)" by (subst bs) auto
  ultimately show ?thesis by blast
qed

lemma chain_same:
  assumes "umm_chain m n bs" and "blkno m' = blkno m" and "UMM_PBLOCK m' = UMM_PBLOCK m"
    and "\<not> blkfree m' 0" and "\<not> blkfree m' (n - 1)"
  shows "umm_chain m' n bs"
  using assms by (simp add: umm_chain_def)

subsection \<open>The free list\<close>

lemma flistD:
  assumes "umm_chain m n bs" and "umm_flist m bs fs"
  shows "dll (UMM_NFREE m) (UMM_PFREE m) (0 # fs @ [0])" "distinct fs"
    "set fs = {b \<in> set bs. blkfree m b}" "0 \<notin> set fs"
    "\<And>b. b \<in> set fs \<Longrightarrow> b \<in> set bs \<and> blkfree m b \<and> b \<noteq> 0 \<and> b \<noteq> n - 1"
  using assms chainD(8,9)[OF assms(1)] by (auto simp: umm_flist_def)

text \<open>The neighbours of a member, with what the splices need.\<close>

lemma flist_at:
  assumes l: "dll nx pv (0 # fs @ [0 :: u16])" and d: "distinct fs" "0 \<notin> set fs" and c: "c \<in> set fs"
  obtains us vs xs ys where "fs = us @ c # vs" "0 # us = xs @ [pv c]" "vs @ [0] = nx c # ys"
    "pv c \<notin> set xs" "pv c \<notin> set (butlast (nx c # ys))"
    "nx c \<notin> set ys" "nx c \<notin> set (tl (xs @ [pv c]))"
    "pv c \<noteq> c" "nx c \<noteq> c" "pv c \<in> insert 0 (set fs)" "nx c \<in> insert 0 (set fs)"
    "dll nx pv (xs @ pv c # c # nx c # ys)"
proof -
  obtain us vs where fs: "fs = us @ c # vs" using split_list [OF c] by blast
  obtain xs p where p: "0 # us = xs @ [p]" by (cases "0 # us" rule: rev_exhaust) auto
  obtain q ys where q: "vs @ [0] = q # ys" by (cases "vs @ [0]") auto
  have "0 # fs @ [0] = (0 # us) @ c # (vs @ [0])" using fs by simp
  also have "\<dots> = xs @ p # c # q # ys" unfolding p q by simp
  finally have e: "0 # fs @ [0] = xs @ p # c # q # ys" .
  have pc: "pv c = p" by (rule dll_pv) (use l in \<open>simp only: e\<close>)
  have qc: "nx c = q" by (rule dll_nx [of _ _ "xs @ [p]"]) (use l in \<open>simp only: e append.assoc append_Cons append_Nil\<close>)
  have P: "p = 0 \<and> us = [] \<and> xs = [] \<or> (\<exists>us'. us = us' @ [p] \<and> xs = 0 # us')"
    using p by (cases xs) auto
  have Q: "q = 0 \<and> vs = [] \<and> ys = [] \<or> (\<exists>vs'. vs = q # vs' \<and> ys = vs' @ [0])"
    using q by (cases vs) auto
  have l': "dll nx pv (xs @ p # c # q # ys)" using l by (simp only: e)
  have dd: "distinct (us @ c # vs)" "0 \<notin> set (us @ c # vs)" using d fs by auto
  show ?thesis
    by (rule that [of us vs xs ys, unfolded pc qc, OF fs p q _ _ _ _ _ _ _ _ l'];
        insert P Q dd fs; elim disjE conjE exE; simp add: butlast_append; blast?)
qed

lemma flist_remove:
  assumes c: "umm_chain m n bs" and f: "umm_flist m bs fs" and d: "d \<in> set fs"
    and nx: "UMM_NFREE m' = (UMM_NFREE m)(UMM_PFREE m d := UMM_NFREE m d)"
    and pv: "UMM_PFREE m' = (UMM_PFREE m)(UMM_NFREE m d := UMM_PFREE m d)"
    and fr: "{b \<in> set bs'. blkfree m' b} = set fs - {d}"
  shows "umm_flist m' bs' (remove1 d fs)"
proof -
  note F = flistD[OF c f]
  obtain us vs xs ys where e: "fs = us @ d # vs" "0 # us = xs @ [UMM_PFREE m d]" "vs @ [0] = UMM_NFREE m d # ys"
    and s: "UMM_PFREE m d \<notin> set xs" "UMM_PFREE m d \<notin> set (butlast (UMM_NFREE m d # ys))"
      "UMM_NFREE m d \<notin> set ys" "UMM_NFREE m d \<notin> set (tl (xs @ [UMM_PFREE m d]))"
    and l: "dll (UMM_NFREE m) (UMM_PFREE m) (xs @ UMM_PFREE m d # d # UMM_NFREE m d # ys)"
    by (rule flist_at[OF F(1,2,4) d])
  have r: "remove1 d fs = us @ vs" using e(1) F(2) by (simp add: remove1_append)
  have "0 # (us @ vs) @ [0] = (0 # us) @ (vs @ [0])" by simp
  then have r': "0 # (us @ vs) @ [0] = xs @ UMM_PFREE m d # UMM_NFREE m d # ys" unfolding e(2,3) by simp
  have "dll (UMM_NFREE m') (UMM_PFREE m') (xs @ UMM_PFREE m d # UMM_NFREE m d # ys)"
    unfolding nx pv by (rule dll_remove[OF l s])
  moreover have "set (us @ vs) = set fs - {d}" "distinct (us @ vs)" using e(1) F(2) by auto
  ultimately show ?thesis unfolding umm_flist_def r r' using fr by simp
qed

lemma flist_push:
  assumes c: "umm_chain m n bs" and f: "umm_flist m bs fs" and d: "d \<notin> set fs" "d \<noteq> 0"
    and nx: "UMM_NFREE m' = (UMM_NFREE m)(d := UMM_NFREE m 0, 0 := d)"
    and pv: "UMM_PFREE m' = (UMM_PFREE m)(UMM_NFREE m 0 := d, d := 0)"
    and fr: "{b \<in> set bs'. blkfree m' b} = insert d (set fs)"
  shows "umm_flist m' bs' (d # fs)"
proof -
  note F = flistD[OF c f]
  obtain q ys where q: "fs @ [0] = q # ys" by (cases "fs @ [0]") auto
  have q0: "UMM_NFREE m 0 = q" using F(1) q by simp
  have s: "q = 0 \<and> fs = [] \<and> ys = [] \<or> (\<exists>fs'. fs = q # fs' \<and> ys = fs' @ [0])"
    using q by (cases fs) auto
  have "dll ((UMM_NFREE m)(0 := d, d := q)) ((UMM_PFREE m)(d := 0, q := d)) ([] @ 0 # d # q # ys)"
  proof (rule dll_insert)
    show "dll (UMM_NFREE m) (UMM_PFREE m) ([] @ 0 # q # ys)" using F(1) q by simp
  qed (use F(2,4) s d in \<open>elim disjE conjE exE; simp add: butlast_append; blast?\<close>)+
  moreover have "q \<noteq> d" using s d by auto
  ultimately have "dll (UMM_NFREE m') (UMM_PFREE m') (0 # d # q # ys)"
    unfolding nx pv q0 using d(2) by (simp add: fun_upd_twist)
  then show ?thesis unfolding umm_flist_def using q F(2) d(1) fr by simp
qed

lemma flist_replace:
  assumes c: "umm_chain m n bs" and f: "umm_flist m bs fs" and d: "d \<in> set fs" "e \<notin> set fs" "e \<noteq> 0"
    and nx: "UMM_NFREE m' = (UMM_NFREE m)(UMM_PFREE m d := e, e := UMM_NFREE m d)"
    and pv: "UMM_PFREE m' = (UMM_PFREE m)(e := UMM_PFREE m d, UMM_NFREE m d := e)"
    and fr: "{b \<in> set bs'. blkfree m' b} = insert e (set fs - {d})"
  shows "\<exists>fs'. umm_flist m' bs' fs'"
proof -
  note F = flistD[OF c f]
  obtain us vs xs ys where a: "fs = us @ d # vs" "0 # us = xs @ [UMM_PFREE m d]" "vs @ [0] = UMM_NFREE m d # ys"
    and s: "UMM_PFREE m d \<notin> set xs" "UMM_PFREE m d \<notin> set (butlast (UMM_NFREE m d # ys))"
      "UMM_NFREE m d \<notin> set ys" "UMM_NFREE m d \<notin> set (tl (xs @ [UMM_PFREE m d]))"
    and l: "dll (UMM_NFREE m) (UMM_PFREE m) (xs @ UMM_PFREE m d # d # UMM_NFREE m d # ys)"
    by (rule flist_at[OF F(1,2,4) d(1)])
  have "0 # (us @ e # vs) @ [0] = (0 # us) @ e # (vs @ [0])" by simp
  then have r: "0 # (us @ e # vs) @ [0] = xs @ UMM_PFREE m d # e # UMM_NFREE m d # ys" unfolding a(2,3) by simp
  have "set (0 # us) \<subseteq> insert 0 (set fs)" "set (vs @ [0]) \<subseteq> insert 0 (set fs)" using a(1) by auto
  then have n: "e \<notin> set (xs @ UMM_PFREE m d # UMM_NFREE m d # ys)" unfolding a(2,3) using d by auto
  have "dll (UMM_NFREE m') (UMM_PFREE m') (xs @ UMM_PFREE m d # e # UMM_NFREE m d # ys)"
    unfolding nx pv by (rule dll_replace[OF l s n])
  moreover have "set (us @ e # vs) = insert e (set fs - {d})" "distinct (us @ e # vs)"
    using a(1) F(2) d by auto
  ultimately have "umm_flist m' bs' (us @ e # vs)" unfolding umm_flist_def r using fr by simp
  then show ?thesis ..
qed

lemma flist_same:
  assumes "umm_flist m bs fs" and "UMM_NFREE m' = UMM_NFREE m" and "UMM_PFREE m' = UMM_PFREE m"
    and "{b \<in> set bs'. blkfree m' b} = set fs"
  shows "umm_flist m' bs' fs"
  using assms by (simp add: umm_flist_def)

end
