(* ===== verification/Umm_Steps.thy ===== *)
theory Umm_Steps
  imports Umm_Inv
begin

section \<open>The link operations on a well-formed heap\<close>

text \<open>
  Each link operation as a step on the abstract heap: the chain, the free list, and the map
  \<open>umm_used\<close> from the used blocks to their ends. \<open>umm_frame\<close> records which headers and which
  free-list links a step may write.
\<close>

definition umm_used :: "umm_mem \<Rightarrow> u16 list \<Rightarrow> u16 \<Rightarrow> u16 option" where
  "umm_used m bs b = (if b \<in> set bs \<and> \<not> blkfree m b then Some (blkno m b) else None)"

definition umm_frame :: "umm_mem \<Rightarrow> umm_mem \<Rightarrow> u16 set \<Rightarrow> u16 set \<Rightarrow> bool" where
  "umm_frame m m' H B \<longleftrightarrow>
     (\<forall>x. x \<notin> H \<longrightarrow> blkno m' x = blkno m x \<and> blkfree m' x = blkfree m x \<and>
            UMM_PBLOCK m' x = UMM_PBLOCK m x) \<and>
     (\<forall>x. x \<notin> B \<longrightarrow> UMM_NFREE m' x = UMM_NFREE m x \<and> UMM_PFREE m' x = UMM_PFREE m x)"

lemma frame_refl [simp]: "umm_frame m m H B"
  by (simp add: umm_frame_def)

lemma frame_trans:
  "umm_frame m m' H B \<Longrightarrow> umm_frame m' m'' H' B' \<Longrightarrow> umm_frame m m'' (H \<union> H') (B \<union> B')"
  by (auto simp: umm_frame_def)

lemma frame_mono: "umm_frame m m' H B \<Longrightarrow> H \<subseteq> H' \<Longrightarrow> B \<subseteq> B' \<Longrightarrow> umm_frame m m' H' B'"
  unfolding umm_frame_def by blast

lemma NBLOCK_of_blkno: "UMM_NBLOCK m c = (if blkfree m c then blkno m c OR 0x8000 else blkno m c)"
proof (cases "blkfree m c")
  case True
  then have "bit (UMM_NBLOCK m c) 15"
    by (simp add: blkfree_def umm_masks and_flag_iff less_flag15_iff)
  then have "UMM_NBLOCK m c = (UMM_NBLOCK m c AND 0x7FFF) OR 0x8000"
    by (intro u16_eqI)
      (auto simp: bit_or_iff bit_and_iff bit_low15 bit_flag15 simp del: bit_numeral_word_iff)
  with True show ?thesis by (simp add: blkno_def umm_masks)
qed (simp add: NBLOCK_used)

lemma umm_block_eqI:
  assumes "blkno m' x = blkno m x" "blkfree m' x = blkfree m x" "UMM_PBLOCK m' x = UMM_PBLOCK m x"
    and "UMM_NFREE m' x = UMM_NFREE m x" "UMM_PFREE m' x = UMM_PFREE m x"
  shows "m' x = m x"
  using assms NBLOCK_of_blkno[of m x] NBLOCK_of_blkno[of m' x]
  by (simp add: UMM_NBLOCK_def UMM_PBLOCK_def UMM_NFREE_def UMM_PFREE_def)

lemma frame_same: "umm_frame m m' H B \<Longrightarrow> x \<notin> H \<Longrightarrow> x \<notin> B \<Longrightarrow> m' x = m x"
  by (rule umm_block_eqI) (auto simp: umm_frame_def)

lemma chain_disjoint:
  assumes c: "umm_chain m n bs" and "a \<in> set bs" "a \<noteq> n - 1" "b \<in> set bs" "b \<noteq> n - 1"
    and "a \<le> x" "x < blkno m a" "b \<le> x" "x < blkno m b"
  shows "a = b"
proof (rule ccontr)
  assume "a \<noteq> b"
  then consider "a < b" | "b < a" by (meson linorder_neqE)
  then show False
    using assms chain_step(5)[OF c assms(2,3), of b] chain_step(5)[OF c assms(4,5), of a]
    by cases (use assms in force)+
qed

lemma flist_neighbours:
  assumes "umm_chain m n bs" and "umm_flist m bs fs" and "d \<in> set fs"
  shows "UMM_PFREE m d \<noteq> d" "UMM_PFREE m d \<in> insert 0 (set fs)" "UMM_NFREE m d \<noteq> d"
    "UMM_NFREE m d \<in> insert 0 (set fs)"
  using flistD(1,2,4)[OF assms(1,2)] assms(3) by (blast elim: flist_at)+

subsection \<open>Disconnecting, assimilating, splitting, pushing\<close>

lemma disconnect_step:
  assumes c: "umm_chain m n bs" and f: "umm_flist m bs fs" and d: "d \<in> set bs" "blkfree m d"
    and m': "m' = umm_disconnect_from_free_list m d"
  shows "umm_chain m' n bs" "umm_flist m' bs (remove1 d fs)"
    "blkno m' = blkno m" "blkfree m' = (blkfree m)(d := False)" "UMM_PBLOCK m' = UMM_PBLOCK m"
    "umm_frame m m' (set bs) (insert 0 (set fs))"
proof -
  note F = flistD[OF c f]
  have dfs: "d \<in> set fs" using d F(3) by simp
  note n = flist_neighbours(1,2,4)[OF c f dfs]
  note L = disconnect_links[OF refl refl n(1), folded m']
  show "blkno m' = blkno m" "blkfree m' = (blkfree m)(d := False)" "UMM_PBLOCK m' = UMM_PBLOCK m"
    by (rule L)+
  show "umm_chain m' n bs"
    by (rule chain_same[OF c]) (use L chainD(8,9)[OF c] in auto)
  show "umm_flist m' bs (remove1 d fs)"
    by (rule flist_remove[OF c f dfs]) (use L F(3) in auto)
  show "umm_frame m m' (set bs) (insert 0 (set fs))"
    using L d n by (auto simp: umm_frame_def)
qed

lemma assimilate_up_step:
  assumes c: "umm_chain m n bs" and f: "umm_flist m bs fs" and a: "a \<in> set bs" "a \<noteq> n - 1" "\<not> blkfree m a"
    and d: "d = blkno m a" and m': "m' = umm_assimilate_up m a"
  shows "\<exists>bs' fs'. umm_chain m' n bs' \<and> umm_flist m' bs' fs' \<and>
      set bs' = (if blkfree m d then set bs - {d} else set bs) \<and>
      set fs' = set fs - {d} \<and>
      blkno m' = (if blkfree m d then (blkno m)(a := blkno m d) else blkno m) \<and>
      blkfree m' = (blkfree m)(d := False) \<and>
      umm_frame m m' (set bs) (insert 0 (set fs))"
proof (cases "blkfree m d")
  case False
  then have "m' = m" using a(3) d m' by (simp add: assimilate_up_used)
  moreover have "d \<notin> set fs" using False flistD(3)[OF c f] by auto
  moreover have "(blkfree m)(d := False) = blkfree m" using False by (simp add: fun_eq_iff)
  ultimately show ?thesis using c f False by (intro exI[of _ bs] exI[of _ fs]) auto
next
  case True
  note F = flistD[OF c f] and S = chain_step[OF c a(1,2), folded d]
  have dfs: "d \<in> set fs" using S(1) True F(3) by simp
  have dn: "d \<noteq> n - 1" using True chainD(9)[OF c] by auto
  note T = chain_step[OF c S(1) dn]
  note n = flist_neighbours(1,2,4)[OF c f dfs]
  have da: "d \<noteq> a" using S(2) by auto
  note L = assimilate_up_links[OF a(3) d True refl refl refl n(1) da, folded m']
  have ch: "umm_chain m' n (remove1 d bs)"
    unfolding d by (rule chain_merge[OF c a(1,2)]) (use L d dn chainD(8,9)[OF c] in auto)
  have fl: "umm_flist m' (remove1 d bs) (remove1 d fs)"
    by (rule flist_remove[OF c f dfs]) (use L F(3) chainD(11)[OF c] in auto)
  have fr: "umm_frame m m' (set bs) (insert 0 (set fs))"
    using L n a(1) S(1) T(1) by (auto simp: umm_frame_def)
  show ?thesis using ch fl fr L True chainD(11)[OF c] F(2)
    by (intro exI[of _ "remove1 d bs"] exI[of _ "remove1 d fs"]) auto
qed

lemma assimilate_down_step:
  assumes c: "umm_chain m n bs" and f: "umm_flist m bs fs"
    and b: "b \<in> set bs" "b \<noteq> 0" "b \<noteq> n - 1" "\<not> blkfree m b"
    and a: "a = UMM_PBLOCK m b" "blkfree m a = (fm \<noteq> 0)" and fm: "fm = 0 \<or> fm = UMM_FREELIST_MASK"
    and m': "m' = fst (umm_assimilate_down m b fm)"
  shows "snd (umm_assimilate_down m b fm) = a" "umm_chain m' n (remove1 b bs)"
    "umm_flist m' (remove1 b bs) fs" "blkno m' = (blkno m)(a := blkno m b)" "blkfree m' = blkfree m"
    "UMM_NFREE m' = UMM_NFREE m" "UMM_PFREE m' = UMM_PFREE m"
    "umm_frame m m' (set bs) {}"
proof -
  note B = chain_back[OF c b(1,2), folded a(1)] and S = chain_step[OF c b(1,3)]
  have n: "a \<noteq> b" "blkno m b \<noteq> b" using B(2) S(2) by auto
  note L = assimilate_down_links[OF b(4) a(1) refl n fm, folded m']
  show "snd (umm_assimilate_down m b fm) = a" by (rule L)
  show bn: "blkno m' = (blkno m)(a := blkno m b)" by (rule L)
  show bf: "blkfree m' = blkfree m" using L(3) a(2) by (simp add: fun_eq_iff)
  show fl: "UMM_NFREE m' = UMM_NFREE m" "UMM_PFREE m' = UMM_PFREE m" by (rule L)+
  have "umm_chain m' n (remove1 (blkno m a) bs)"
    by (rule chain_merge[OF c B(1,4)]) (use L B(3) b bf chainD(8,9)[OF c] in auto)
  then show "umm_chain m' n (remove1 b bs)" using B(3) by simp
  show "umm_flist m' (remove1 b bs) fs"
    by (rule flist_same[OF f fl]) (use bf flistD(3)[OF c f] b chainD(11)[OF c] in auto)
  show "umm_frame m m' (set bs) {}"
    using L B(1) S(1) a(2) by (auto simp: umm_frame_def)
qed

lemma split_step:
  assumes c: "umm_chain m n bs" and a: "a \<in> set bs" "a \<noteq> n - 1"
    and k: "0 < k" "k < blkno m a - a" and d: "d = a + k"
    and fm: "fm = 0 \<or> fm = UMM_FREELIST_MASK" and m': "m' = umm_split_block m a k fm"
  shows "a < d" "d < blkno m a" "d \<notin> set bs"
    "blkno m' = (blkno m)(a := d, d := blkno m a)" "blkfree m' = (blkfree m)(a := False, d := (fm \<noteq> 0))"
    "UMM_NFREE m' = UMM_NFREE m" "UMM_PFREE m' = UMM_PFREE m"
    "\<exists>bs'. umm_chain m' n bs' \<and> set bs' = insert d (set bs)"
    "umm_frame m m' (insert d (set bs)) {}"
proof -
  note S = chain_step[OF c a]
  show lt: "a < d" "d < blkno m a" using word_less_add_between[OF k(1) S(2) k(2)] d by auto
  show nd: "d \<notin> set bs" using S(5)[OF lt] .
  have "d < 0x8000" using lt(2) blkno_less[of m a] by (rule order.strict_trans)
  then have n: "d \<noteq> a" "d < 0x8000" using lt by auto
  note L = split_links[OF d n(1) refl fm n(2), of m, folded m']
  show bn: "blkno m' = (blkno m)(a := d, d := blkno m a)" by (rule L)
  show bf: "blkfree m' = (blkfree m)(a := False, d := (fm \<noteq> 0))" by (rule L)
  show "UMM_NFREE m' = UMM_NFREE m" "UMM_PFREE m' = UMM_PFREE m" by (rule L)+
  have nz: "d \<noteq> 0" "d \<noteq> n - 1" using nd chainD(12,13)[OF c] by auto
  show "\<exists>bs'. umm_chain m' n bs' \<and> set bs' = insert d (set bs)"
    by (rule chain_split[OF c a lt]) (use L bf nz chainD(8,9)[OF c] in auto)
  show "umm_frame m m' (insert d (set bs)) {}"
    using L a S(1) by (auto simp: umm_frame_def)
qed

lemma push_step:
  assumes c: "umm_chain m n bs" and f: "umm_flist m bs fs"
    and b: "b \<in> set bs" "b \<noteq> 0" "b \<noteq> n - 1" "\<not> blkfree m b"
    and m4: "m4 = set_NFREE (set_PFREE (set_NFREE (set_PFREE m (UMM_NFREE m 0) b) b (UMM_NFREE m 0)) b 0) 0 b"
    and m': "m' = set_NBLOCK m4 b (UMM_NBLOCK m4 b OR UMM_FREELIST_MASK)"
  shows "umm_chain m' n bs" "umm_flist m' bs (b # fs)" "blkno m' = blkno m"
    "blkfree m' = (blkfree m)(b := True)" "umm_frame m m' (set bs) (insert 0 (insert b (set fs)))"
proof -
  note F = flistD[OF c f]
  have nfs: "b \<notin> set fs" using b(4) F(3) by auto
  have bn: "blkno m' = blkno m"
    unfolding m' m4 by (auto simp: mem_simps fun_eq_iff blkno_def umm_masks flag_simps)
  have bf: "blkfree m' = (blkfree m)(b := True)"
    unfolding m' m4 by (auto simp: mem_simps fun_eq_iff umm_masks flag_simps)
  have pb: "UMM_PBLOCK m' = UMM_PBLOCK m" unfolding m' m4 by (simp add: mem_simps)
  have nf: "UMM_NFREE m' = (UMM_NFREE m)(b := UMM_NFREE m 0, 0 := b)"
    "UMM_PFREE m' = (UMM_PFREE m)(UMM_NFREE m 0 := b, b := 0)"
    unfolding m' m4 by (simp_all add: mem_simps)
  show "blkno m' = blkno m" "blkfree m' = (blkfree m)(b := True)" by fact+
  show "umm_chain m' n bs"
    by (rule chain_same[OF c bn pb]) (use bf b chainD(8,9)[OF c] in auto)
  show "umm_flist m' bs (b # fs)"
    by (rule flist_push[OF c f nfs b(2) nf]) (use bf b(1) F(3) in auto)
  obtain q ys where "fs @ [0] = q # ys" by (cases "fs @ [0]") auto
  moreover from this F(1) have "UMM_NFREE m 0 = q" by simp
  ultimately have "UMM_NFREE m 0 \<in> insert 0 (set fs)" by (cases fs) auto
  then show "umm_frame m m' (set bs) (insert 0 (insert b (set fs)))"
    using bn bf pb nf b(1) by (auto simp: umm_frame_def)
qed

end
