(* ===== verification/Umm_Correct.thy ===== *)
theory Umm_Correct
  imports Umm_Steps
begin

section \<open>Release and allocation on a well-formed heap\<close>

text \<open>
  The block-level correctness of \<open>umm_free_core\<close> and \<open>umm_malloc_core\<close>: \<open>umm_wf\<close> is kept, the
  map of used blocks changes at the one block the caller asked for, and the frame says which
  headers and links are written.
\<close>

definition umm_wf :: "umm_mem \<Rightarrow> u16 \<Rightarrow> u16 list \<Rightarrow> u16 list \<Rightarrow> bool" where
  "umm_wf m n bs fs \<longleftrightarrow> umm_chain m n bs \<and> umm_flist m bs fs \<and> umm_coalesced m bs"

lemma wfD:
  assumes "umm_wf m n bs fs"
  shows "umm_chain m n bs" "umm_flist m bs fs" "umm_coalesced m bs"
  using assms by (auto simp: umm_wf_def)

lemma chain_blkno_eq:
  "umm_chain m n bs \<Longrightarrow> x \<in> set bs \<Longrightarrow> x \<noteq> n - 1 \<Longrightarrow> blkno m x = b \<Longrightarrow> x = UMM_PBLOCK m b"
  using chain_step(3) by metis

subsection \<open>Release\<close>

lemma free_block_ok:
  assumes wf: "umm_wf m n bs fs" and c: "c \<in> set bs" "c \<noteq> 0" "c \<noteq> n - 1" "\<not> blkfree m c"
  shows "\<exists>m' bs' fs'. umm_free_block m c = m' \<and> umm_wf m' n bs' fs' \<and>
      umm_used m' bs' = (umm_used m bs)(c := None) \<and>
      umm_frame m m' (set bs) (insert 0 (insert c (set fs)))"
proof -
  note W = wfD[OF wf]
  let ?d = "blkno m c" and ?m1 = "umm_assimilate_up m c"
  note S = chain_step[OF W(1) c(1,3)]
  obtain bs1 fs1 where 1: "umm_chain ?m1 n bs1" "umm_flist ?m1 bs1 fs1"
      "set bs1 = (if blkfree m ?d then set bs - {?d} else set bs)" "set fs1 = set fs - {?d}"
      "blkno ?m1 = (if blkfree m ?d then (blkno m)(c := blkno m ?d) else blkno m)"
      "blkfree ?m1 = (blkfree m)(?d := False)" "umm_frame m ?m1 (set bs) (insert 0 (set fs))"
    using assimilate_up_step[OF W(1,2) c(1,3,4) refl refl] by blast
  have dc: "?d \<noteq> c" using S(2) by auto
  have c1: "c \<in> set bs1" "\<not> blkfree ?m1 c" using 1(3,6) c dc by auto
  have nf: "\<not> blkfree ?m1 (blkno ?m1 c)"
    using 1(5,6) coalescedD[OF W(3) S(1)] by auto
  let ?a = "UMM_PBLOCK ?m1 c"
  note B = chain_back[OF 1(1) c1(1) c(2)]
  note N = chain_step[OF 1(1) c1(1) c(3)]
  show ?thesis
  proof (cases "blkfree ?m1 ?a")
    case True
    let ?m2 = "fst (umm_assimilate_down ?m1 c UMM_FREELIST_MASK)"
    have "blkfree ?m1 ?a = (UMM_FREELIST_MASK \<noteq> 0)" using True by (simp add: umm_masks)
    note D = assimilate_down_step[OF 1(1,2) c1(1) c(2,3) c1(2) refl this disjI2[OF refl] refl]
    have eq: "umm_free_block m c = ?m2"
      using True by (simp add: umm_free_block_def blkfree_def)
    have a: "?a \<noteq> c" "?a \<noteq> ?d" "blkfree m ?a" using True 1(6) B(2) by (auto split: if_splits)
    have setbs: "set (remove1 c bs1) = set bs1 - {c}" using chainD(11)[OF 1(1)] by simp
    have co: "umm_coalesced ?m2 (remove1 c bs1)"
    proof (rule coalescedI)
      fix b assume b: "b \<in> set (remove1 c bs1)" "blkfree ?m2 b"
      have b1: "b \<in> set bs1" "b \<noteq> c" "blkfree m b" "b \<in> set bs" "b \<noteq> ?d"
        using b setbs D(5) 1(3,6) by (auto split: if_splits)
      show "\<not> blkfree ?m2 (blkno ?m2 b)"
      proof (cases "b = ?a")
        case True then show ?thesis using D(4,5) nf by simp
      next
        case False
        then have "blkno ?m2 b = blkno m b" using D(4) 1(5) b1(2) by simp
        then show ?thesis using D(5) 1(6) coalescedD[OF W(3) b1(4,3)] by simp
      qed
    qed
    have "umm_used ?m2 (remove1 c bs1) = (umm_used m bs)(c := None)"
      using D(4,5) setbs 1(3,5,6) a by (auto simp: umm_used_def fun_eq_iff split: if_splits)
    moreover have "umm_frame m ?m2 (set bs) (insert 0 (insert c (set fs)))"
      using frame_trans[OF 1(7) D(8)] by (rule frame_mono) (use 1(3) in \<open>auto split: if_splits\<close>)
    ultimately show ?thesis using eq D(2,3) co by (auto simp: umm_wf_def)
  next
    case False
    define m4 where "m4 = set_NFREE (set_PFREE (set_NFREE (set_PFREE ?m1 (UMM_NFREE ?m1 0) c) c
      (UMM_NFREE ?m1 0)) c 0) 0 c"
    let ?m2 = "set_NBLOCK m4 c (UMM_NBLOCK m4 c OR UMM_FREELIST_MASK)"
    note P = push_step[OF 1(1,2) c1(1) c(2,3) c1(2) m4_def refl]
    have eq: "umm_free_block m c = ?m2"
      using False by (simp add: umm_free_block_def blkfree_def m4_def mem_simps Let_def)
    have co: "umm_coalesced ?m2 bs1"
    proof (rule coalescedI)
      fix b assume b: "b \<in> set bs1" "blkfree ?m2 b"
      show "\<not> blkfree ?m2 (blkno ?m2 b)"
      proof (cases "b = c")
        case True then show ?thesis using P(3,4) nf N(2) by auto
      next
        case False
        then have f1: "blkfree ?m1 b" using b(2) P(4) by simp
        then have f: "blkfree m b" "b \<noteq> ?d" using 1(6) by (auto split: if_splits)
        have "b \<in> set bs" using b(1) 1(3) by (auto split: if_splits)
        then have "\<not> blkfree m (blkno m b)" using coalescedD[OF W(3)] f(1) by blast
        moreover have "blkno ?m1 b \<noteq> c"
        proof
          assume "blkno ?m1 b = c"
          moreover have "b \<noteq> n - 1" using f1 chainD(9)[OF 1(1)] by auto
          ultimately have "b = ?a" using chain_blkno_eq[OF 1(1) b(1)] by blast
          then show False using f1 \<open>\<not> blkfree ?m1 ?a\<close> by simp
        qed
        ultimately show ?thesis using P(3,4) 1(5,6) False by simp
      qed
    qed
    have "umm_used ?m2 bs1 = (umm_used m bs)(c := None)"
      using P(3,4) 1(3,5,6) by (auto simp: umm_used_def fun_eq_iff split: if_splits)
    moreover have "umm_frame m ?m2 (set bs) (insert 0 (insert c (set fs)))"
      using frame_trans[OF 1(7) P(5)] by (rule frame_mono) (use 1(3,4) in \<open>auto split: if_splits\<close>)
    ultimately show ?thesis using eq P(1,2) co by (auto simp: umm_wf_def)
  qed
qed

lemma free_core_ok:
  assumes wf: "umm_wf m n bs fs" and c: "c \<in> set bs" "c \<noteq> 0" "c \<noteq> n - 1" "\<not> blkfree m c"
    and s: "umm_blk s = m" "umm_block_of s ptr = c"
  shows "\<exists>m' bs' fs'. umm_free_core s ptr = s\<lparr>umm_blk := m'\<rparr> \<and> umm_wf m' n bs' fs' \<and>
      umm_used m' bs' = (umm_used m bs)(c := None) \<and>
      umm_frame m m' (set bs) (insert 0 (insert c (set fs)))"
  using free_block_ok[OF wf c] s by (auto simp: umm_free_core_def)

subsection \<open>The scan of the free list\<close>

definition blksize :: "umm_mem \<Rightarrow> u16 \<Rightarrow> u16" where
  "blksize m b = blkno m b - b"

lemma scan_result:
  assumes "dll (UMM_NFREE m) pv (z # fs @ [0])" and "0 \<notin> set fs"
    and "\<And>b. b \<in> set fs \<Longrightarrow> blksize m b < 0x7FFF"
    and "best < 0x7FFF \<Longrightarrow> k \<le> best" and "best \<le> 0x7FFF"
  shows "\<exists>sz' bb' best'. umm_scan m k (hd (fs @ [0])) sz bb best = Some (0, sz', bb', best') \<and>
      best' \<le> best \<and> (\<forall>b \<in> set fs. k \<le> blksize m b \<longrightarrow> best' \<le> blksize m b) \<and>
      (fs = [] \<and> sz' = sz \<or> sz' \<in> blksize m ` set fs) \<and>
      (best' = best \<and> bb' = bb \<or> bb' \<in> set fs \<and> best' = blksize m bb' \<and> k \<le> best')"
  using assms
proof (induction fs arbitrary: z sz bb best)
  case Nil
  then show ?case by (simp add: umm_scan.simps)
next
  case (Cons c fs)
  let ?sz = "blksize m c"
  have c0: "c \<noteq> 0" using Cons.prems(2) by auto
  have nx: "UMM_NFREE m c = hd (fs @ [0])" using Cons.prems(1) by (cases fs) auto
  have d: "dll (UMM_NFREE m) pv (c # fs @ [0])" using Cons.prems(1) by simp
  have z: "0 \<notin> set fs" using Cons.prems(2) by simp
  have bz: "\<And>b. b \<in> set fs \<Longrightarrow> blksize m b < 0x7FFF" using Cons.prems(3) by simp
  have szc: "(UMM_NBLOCK m c AND UMM_BLOCKNO_MASK) - c = ?sz" by (simp add: blksize_def blkno_def)
  have cs: "?sz < 0x7FFF" using Cons.prems(3) by simp
  show ?case
  proof (cases "k \<le> ?sz \<and> ?sz < best")
    case True
    then have st: "umm_scan m k (hd ((c # fs) @ [0])) sz bb best = umm_scan m k (hd (fs @ [0])) ?sz c ?sz"
      using c0 nx szc by (subst umm_scan.simps) (simp add: Let_def)
    obtain sz' bb' best' where r: "umm_scan m k (hd (fs @ [0])) ?sz c ?sz = Some (0, sz', bb', best')"
      "best' \<le> ?sz" "\<forall>b\<in>set fs. k \<le> blksize m b \<longrightarrow> best' \<le> blksize m b"
      "fs = [] \<and> sz' = ?sz \<or> sz' \<in> blksize m ` set fs"
      "best' = ?sz \<and> bb' = c \<or> bb' \<in> set fs \<and> best' = blksize m bb' \<and> k \<le> best'"
      using Cons.IH[OF d z bz, of ?sz ?sz c] True order.strict_implies_order[OF cs] by blast
    have "best' \<le> best" using r(2) True by (meson order.strict_implies_order order.trans)
    moreover have "\<forall>b\<in>set (c # fs). k \<le> blksize m b \<longrightarrow> best' \<le> blksize m b"
      using r(2,3) by simp
    moreover have "c # fs = [] \<and> sz' = sz \<or> sz' \<in> blksize m ` set (c # fs)" using r(4) by auto
    moreover have "bb' \<in> set (c # fs) \<and> best' = blksize m bb' \<and> k \<le> best'" using r(5) True by auto
    ultimately show ?thesis unfolding st using r(1) by blast
  next
    case False
    then have st: "umm_scan m k (hd ((c # fs) @ [0])) sz bb best = umm_scan m k (hd (fs @ [0])) ?sz bb best"
      using c0 nx szc by (subst umm_scan.simps) (auto simp: Let_def)
    obtain sz' bb' best' where r: "umm_scan m k (hd (fs @ [0])) ?sz bb best = Some (0, sz', bb', best')"
      "best' \<le> best" "\<forall>b\<in>set fs. k \<le> blksize m b \<longrightarrow> best' \<le> blksize m b"
      "fs = [] \<and> sz' = ?sz \<or> sz' \<in> blksize m ` set fs"
      "best' = best \<and> bb' = bb \<or> bb' \<in> set fs \<and> best' = blksize m bb' \<and> k \<le> best'"
      using Cons.IH[OF d z bz Cons.prems(4,5), of ?sz bb] by blast
    have "k \<le> ?sz \<longrightarrow> best' \<le> ?sz" using r(2) False by (auto simp: not_less)
    then have "\<forall>b\<in>set (c # fs). k \<le> blksize m b \<longrightarrow> best' \<le> blksize m b" using r(3) by simp
    moreover have "c # fs = [] \<and> sz' = sz \<or> sz' \<in> blksize m ` set (c # fs)" using r(4) by auto
    moreover have "best' = best \<and> bb' = bb \<or> bb' \<in> set (c # fs) \<and> best' = blksize m bb' \<and> k \<le> best'"
      using r(5) by auto
    ultimately show ?thesis unfolding st using r(1,2) by blast
  qed
qed

subsection \<open>Allocation\<close>

lemma umm_blocks_bounds: "1 \<le> umm_blocks sz" "umm_blocks sz < 0x7FFF"
proof -
  have "unat (sz - 5) < 65536" using unsigned_less[of "sz - 5"] by simp
  then have "unat (sz - 5) div 8 \<le> 8191" by simp
  then have "unat ((sz - 5) div 8) \<le> 8191" by (simp add: unat_div)
  then have "unat (2 + (sz - 5) div 8) = 2 + unat ((sz - 5) div 8)"
    by (subst unat_add_no_wrap) auto
  with \<open>unat ((sz - 5) div 8) \<le> 8191\<close>
  show "1 \<le> umm_blocks sz" "umm_blocks sz < 0x7FFF"
    by (auto simp: umm_blocks_def word_le_nat_alt word_less_nat_alt)
qed

lemma blksize_bound:
  assumes "umm_chain m n bs" and "b \<in> set bs" and "b \<noteq> n - 1" and "b \<noteq> 0"
  shows "blksize m b < 0x7FFF" "0 < blksize m b" "b + blksize m b = blkno m b"
proof -
  note S = chain_step[OF assms(1-3)]
  show "b + blksize m b = blkno m b" by (simp add: blksize_def)
  have u: "unat (blkno m b - b) = unat (blkno m b) - unat b" using S(2) by (simp add: unat_sub)
  have "unat (blkno m b) < 0x8000" using blkno_less[of m b] by (simp add: word_less_nat_alt)
  moreover have "0 < unat b" using assms(4) by (simp add: unat_gt_0)
  ultimately show "blksize m b < 0x7FFF" unfolding blksize_def word_less_nat_alt u by simp
  show "0 < blksize m b" using S(2) u by (simp add: blksize_def word_less_nat_alt)
qed

lemma malloc_split_ok:
  assumes wf: "umm_wf m n bs fs" and c: "c \<in> set fs" and k: "0 < k" "k < blksize m c"
    and m': "m' = umm_malloc_split m c k"
  shows "\<exists>bs' fs'. umm_wf m' n bs' fs' \<and> umm_used m' bs' = (umm_used m bs)(c := Some (c + k)) \<and>
      umm_frame m m' (insert (c + k) (set bs)) (insert 0 (insert (c + k) (set fs)))"
proof -
  note W = wfD[OF wf]
  note F = flistD[OF W(1,2)]
  let ?d = "c + k" and ?m1 = "umm_split_block m c k UMM_FREELIST_MASK"
  have cb: "c \<in> set bs" "blkfree m c" "c \<noteq> 0" "c \<noteq> n - 1" using F(5)[OF c] by auto
  note S = split_step[OF W(1) cb(1,4) k(1) k(2)[unfolded blksize_def] refl disjI2[OF refl] refl]
  obtain bs' where bs': "umm_chain ?m1 n bs'" "set bs' = insert ?d (set bs)" using S(8) by blast
  note N = flist_neighbours[OF W(1,2) c]
  have "set fs \<subseteq> set bs" unfolding F(3) by blast
  then have df: "?d \<notin> set fs" using S(3) by blast
  have d0: "?d \<noteq> 0" "?d \<noteq> c" using S(3) chainD(12)[OF W(1)] cb(1) by metis+
  note df = df d0
  have n: "UMM_PFREE m c \<noteq> ?d" "UMM_NFREE m c \<noteq> ?d" using N(2,4) df by auto
  have L: "blkno m' = blkno ?m1" "blkfree m' = blkfree ?m1" "UMM_PBLOCK m' = UMM_PBLOCK ?m1"
    "UMM_NFREE m' = (UMM_NFREE m)(UMM_PFREE m c := ?d, ?d := UMM_NFREE m c)"
    "UMM_PFREE m' = (UMM_PFREE m)(?d := UMM_PFREE m c, UMM_NFREE m c := ?d)"
    unfolding m' umm_malloc_split_def Let_def using S(6,7) N n df by (simp_all add: mem_simps)
  have bf: "blkfree m' = (blkfree m)(c := False, ?d := True)" using L(2) S(5) by (simp add: umm_masks)
  have ch: "umm_chain m' n bs'"
    by (rule chain_same[OF bs'(1) L(1,3)]) (use L(2) chainD(8,9)[OF bs'(1)] in auto)
  have fr: "{b \<in> set bs'. blkfree m' b} = insert ?d (set fs - {c})"
    unfolding bf bs'(2) F(3) using df(3) by (auto split: if_splits)
  obtain fs' where fl: "umm_flist m' bs' fs'"
    using flist_replace[OF W(1,2) c df(1,2) L(4,5) fr] by blast
  have co: "umm_coalesced m' bs'"
  proof (rule coalescedI)
    fix b assume b: "b \<in> set bs'" "blkfree m' b"
    then consider "b = ?d" | "b \<in> set bs" "b \<noteq> c" "b \<noteq> ?d" "blkfree m b"
      using bs'(2) bf by (auto split: if_splits)
    then show "\<not> blkfree m' (blkno m' b)"
    proof cases
      case 1
      then show ?thesis using L(1) S(2,4) bf coalescedD[OF W(3) cb(1,2)] by auto
    next
      case 2
      then have "b \<noteq> n - 1" using chainD(9)[OF W(1)] by auto
      then have "blkno m b \<noteq> ?d" using chain_step(1)[OF W(1) 2(1)] S(3) by auto
      then show ?thesis using 2 L(1) S(4) bf coalescedD[OF W(3) 2(1,4)] by simp
    qed
  qed
  have "umm_used m' bs' = (umm_used m bs)(c := Some ?d)"
    using L(1) S(3,4) bf bs'(2) cb df by (auto simp: umm_used_def fun_eq_iff)
  moreover have "umm_frame m m' (insert ?d (set bs)) (insert 0 (insert ?d (set fs)))"
    using S(9) L N(2,4) bf unfolding umm_frame_def by (auto simp: S(4))
  ultimately show ?thesis using ch fl co by (auto simp: umm_wf_def)
qed

lemma malloc_exact_ok:
  assumes wf: "umm_wf m n bs fs" and c: "c \<in> set fs"
    and m': "m' = umm_disconnect_from_free_list m c"
  shows "\<exists>bs' fs'. umm_wf m' n bs' fs' \<and> umm_used m' bs' = (umm_used m bs)(c := Some (blkno m c)) \<and>
      umm_frame m m' (set bs) (insert 0 (set fs))"
proof -
  note W = wfD[OF wf]
  have cb: "c \<in> set bs" "blkfree m c" using flistD(5)[OF W(1,2) c] by auto
  note D = disconnect_step[OF W(1,2) cb m']
  have "umm_coalesced m' bs"
    by (rule coalescedI) (use D(3,4) coalescedD[OF W(3)] in \<open>auto split: if_splits\<close>)
  moreover have "umm_used m' bs = (umm_used m bs)(c := Some (blkno m c))"
    using D(3,4) cb by (auto simp: umm_used_def fun_eq_iff)
  ultimately show ?thesis using D(1,2,6) by (auto simp: umm_wf_def)
qed

lemma malloc_block_ok:
  assumes wf: "umm_wf m n bs fs" and k1: "0 < k" "k < 0x7FFF"
  shows "(\<exists>c m' bs' fs'. umm_malloc_block m k = Some (m', Some c) \<and>
        c \<in> set fs \<and> k \<le> blksize m c \<and> (\<forall>b \<in> set fs. k \<le> blksize m b \<longrightarrow> blksize m c \<le> blksize m b) \<and>
        umm_wf m' n bs' fs' \<and> umm_used m' bs' = (umm_used m bs)(c := Some (c + k)) \<and>
        umm_frame m m' (set bs \<union> {c<..<blkno m c}) (insert 0 (set fs) \<union> {c<..<blkno m c})) \<or>
     umm_malloc_block m k = Some (m, None) \<and> (\<forall>b \<in> set fs. blksize m b < k)"
proof -
  note W = wfD[OF wf]
  note F = flistD[OF W(1,2)]
  have bz: "blksize m b < 0x7FFF" "0 < blksize m b" "b + blksize m b = blkno m b" if "b \<in> set fs" for b
    using blksize_bound[OF W(1)] F(5)[OF that] by blast+
  have h: "UMM_NFREE m 0 = hd (fs @ [0])" using F(1) by (cases fs) auto
  from scan_result[OF F(1) F(4) bz(1), of "0x7FFF" k 0 "UMM_NFREE m 0"]
  obtain sz' bb best where r:
    "umm_scan m k (UMM_NFREE m 0) 0 (UMM_NFREE m 0) 0x7FFF = Some (0, sz', bb, best)"
    "best \<le> 0x7FFF" "\<forall>b \<in> set fs. k \<le> blksize m b \<longrightarrow> best \<le> blksize m b"
    "fs = [] \<and> sz' = 0 \<or> sz' \<in> blksize m ` set fs"
    "best = 0x7FFF \<and> bb = UMM_NFREE m 0 \<or> bb \<in> set fs \<and> best = blksize m bb \<and> k \<le> best"
    unfolding h by auto
  show ?thesis
  proof (cases "best = 0x7FFF")
    case True
    have small: "blksize m b < k" if "b \<in> set fs" for b
      using r(3) True bz(1)[OF that] that by (meson leD not_le_imp_less)
    then have "\<not> k \<le> sz'" using r(4) k1(1) by (auto simp: not_le)
    then have "umm_malloc_block m k = Some (m, None)"
      using True r(1) by (simp add: umm_malloc_block_def)
    with small show ?thesis by blast
  next
    case False
    then have b: "bb \<in> set fs" "best = blksize m bb" "k \<le> best" using r(5) by auto
    have nz: "UMM_NBLOCK m bb AND UMM_BLOCKNO_MASK \<noteq> 0"
      using chain_step(4)[OF W(1)] F(5)[OF b(1)] by (simp add: blkno_def)
    have eq: "umm_malloc_block m k =
      Some (if best = k then umm_disconnect_from_free_list m bb else umm_malloc_split m bb k, Some bb)"
      using False r(1) nz b(3) by (simp add: umm_malloc_block_def)
    have "\<exists>m' bs' fs'. umm_malloc_block m k = Some (m', Some bb) \<and>
        umm_wf m' n bs' fs' \<and> umm_used m' bs' = (umm_used m bs)(bb := Some (bb + k)) \<and>
        umm_frame m m' (set bs \<union> {bb<..<blkno m bb}) (insert 0 (set fs) \<union> {bb<..<blkno m bb})"
    proof (cases "best = k")
      case True
      then have e: "bb + k = blkno m bb" using bz(3)[OF b(1)] b(2) by simp
      have fr: "umm_frame m m' (set bs) (insert 0 (set fs)) \<Longrightarrow>
        umm_frame m m' (set bs \<union> {bb<..<blkno m bb}) (insert 0 (set fs) \<union> {bb<..<blkno m bb})" for m'
        by (rule frame_mono) auto
      show ?thesis using malloc_exact_ok[OF wf b(1) refl] eq True e fr by simp blast
    next
      case False
      then have "k < blksize m bb" using b(2,3) by simp
      then have i: "bb + k \<in> {bb<..<blkno m bb}"
        using word_less_add_between[OF k1(1), of bb "blkno m bb"] bz(2)[OF b(1)] bz(3)[OF b(1)]
          chain_step(2)[OF W(1)] F(5)[OF b(1)] by (auto simp: blksize_def)
      have fr: "umm_frame m m' (insert (bb + k) (set bs)) (insert 0 (insert (bb + k) (set fs))) \<Longrightarrow>
        umm_frame m m' (set bs \<union> {bb<..<blkno m bb}) (insert 0 (set fs) \<union> {bb<..<blkno m bb})" for m'
        by (rule frame_mono) (use i in auto)
      from malloc_split_ok[OF wf b(1) k1(1) \<open>k < blksize m bb\<close> refl] fr show ?thesis
        using eq False by (simp; blast)
    qed
    then show ?thesis using b(1,2,3) r(3) by blast
  qed
qed

lemma malloc_core_ok:
  assumes wf: "umm_wf m n bs fs" and s: "umm_blk s = m" and k: "k = umm_blocks sz"
  shows "(\<exists>c m' bs' fs'. umm_malloc_core s sz = Some (s\<lparr>umm_blk := m'\<rparr>, UMM_DATA s c) \<and>
        c \<in> set fs \<and> k \<le> blksize m c \<and> (\<forall>b \<in> set fs. k \<le> blksize m b \<longrightarrow> blksize m c \<le> blksize m b) \<and>
        umm_wf m' n bs' fs' \<and> umm_used m' bs' = (umm_used m bs)(c := Some (c + k)) \<and>
        umm_frame m m' (set bs \<union> {c<..<blkno m c}) (insert 0 (set fs) \<union> {c<..<blkno m c})) \<or>
     umm_malloc_core s sz = Some (s, 0) \<and> (\<forall>b \<in> set fs. blksize m b < k)"
proof -
  have k1: "0 < k" "k < 0x7FFF" using umm_blocks_bounds[of sz] k by (auto simp: word_le_nat_alt word_less_nat_alt)
  from malloc_block_ok[OF wf k1] show ?thesis
    by (elim disjE exE conjE) (simp_all add: umm_malloc_core_def s flip: k, blast)
qed

end
