(* ===== verification/Umm_Spec.thy ===== *)
theory Umm_Spec
  imports Umm_Correct
begin

section \<open>What the allocator promises\<close>

text \<open>
  The contract of \<^verbatim>\<open>umm_malloc.c\<close> over addresses and bytes: the invariant of the allocator's
  state, the map \<open>umm_live\<close> from the pointers a client holds to the bytes it may use, and the
  bytes themselves. The properties say what \<open>umm_init\<close>, \<open>umm_malloc\<close> and \<open>umm_free\<close>
  do to them.
\<close>

subsection \<open>The state invariant\<close>

definition umm_block_list :: "umm_state \<Rightarrow> u16 list" where
  "umm_block_list s = umm_walk (unat (umm_numblocks s)) (blkno (umm_blk s)) 0"

definition umm_free_list :: "umm_state \<Rightarrow> u16 list" where
  "umm_free_list s =
     (let m = umm_blk s
      in if UMM_NFREE m 0 = 0 then []
         else umm_walk (unat (umm_numblocks s)) (UMM_NFREE m) (UMM_NFREE m 0))"

definition umm_inv :: "umm_state \<Rightarrow> bool" where
  "umm_inv s \<longleftrightarrow>
     umm_heap s \<noteq> 0 \<and> unat (umm_heap s) + 8 * unat (umm_numblocks s) < 65536 \<and>
     blkno (umm_blk s) 0 = 1 \<and>
     umm_wf (umm_blk s) (umm_numblocks s) (umm_block_list s) (umm_free_list s)"

lemma walk_dll:
  assumes "dll nx pv (b # xs)" and "nx (last (b # xs)) = 0" and "0 \<notin> set xs" and "length xs < k"
  shows "umm_walk k nx b = b # xs"
  using assms
proof (induction xs arbitrary: b k)
  case (Cons c xs)
  then obtain k' where "k = Suc k'" by (cases k) auto
  with Cons show ?case by auto
qed (auto simp: gr0_conv_Suc)

lemma chain_length:
  assumes c: "umm_chain m n bs"
  shows "length bs \<le> unat n"
proof -
  have "unat ` set bs \<subseteq> {..<unat n}"
  proof
    fix x assume "x \<in> unat ` set bs"
    then obtain b where b: "b \<in> set bs" "x = unat b" by blast
    have "b \<le> n - 1" by (rule chain_last_max[OF c b(1)])
    moreover have "n - 1 < n" using chainD(1)[OF c] by unat_arith
    ultimately show "x \<in> {..<unat n}" using b by (simp add: word_le_nat_alt word_less_nat_alt)
  qed
  then have "card (unat ` set bs) \<le> unat n" using card_mono[of "{..<unat n}"] by fastforce
  moreover have "card (unat ` set bs) = length bs"
    using distinct_card[OF chainD(11)[OF c]] card_image[of unat "set bs"]
    by (simp add: inj_on_def word_unat_eq_iff)
  ultimately show ?thesis by simp
qed

lemma wf_lists:
  assumes wf: "umm_wf (umm_blk s) (umm_numblocks s) bs fs"
  shows "umm_block_list s = bs" "umm_free_list s = fs"
proof -
  note W = wfD[OF wf]
  note F = flistD[OF W(1,2)]
  have l: "length bs \<le> unat (umm_numblocks s)" by (rule chain_length[OF W(1)])
  obtain xs where bs: "bs = 0 # xs" using chainD(3,4)[OF W(1)] by (cases bs) auto
  have z: "0 \<notin> set xs" using chainD(11)[OF W(1)] bs by simp
  have d: "dll (blkno (umm_blk s)) (UMM_PBLOCK (umm_blk s)) (0 # xs)" using chainD(7)[OF W(1)] bs by simp
  have "blkno (umm_blk s) (last (0 # xs)) = 0" using chainD(5,10)[OF W(1)] bs by simp
  from walk_dll[OF d this z] l show "umm_block_list s = bs" by (simp add: umm_block_list_def bs)
  have "length fs \<le> length bs"
  proof -
    have "length fs = card (set fs)" using F(2) by (simp add: distinct_card)
    also have "\<dots> \<le> card (set bs)" using F(3) by (auto intro: card_mono)
    also have "\<dots> = length bs" using chainD(11)[OF W(1)] by (simp add: distinct_card)
    finally show ?thesis .
  qed
  moreover have "UMM_NFREE (umm_blk s) 0 = hd (fs @ [0])" using F(1) by (cases fs) auto
  moreover have "umm_walk (unat (umm_numblocks s)) (UMM_NFREE (umm_blk s)) f = f # fs'"
    if fs: "fs = f # fs'" for f fs'
  proof (rule walk_dll[where pv = "UMM_PFREE (umm_blk s)"])
    have d: "dll (UMM_NFREE (umm_blk s)) (UMM_PFREE (umm_blk s)) (f # fs' @ [0])" using F(1) fs by simp
    have e: "f # fs' @ [0] = butlast fs @ last fs # [0]" using fs by (simp add: append_butlast_last_id)
    show "UMM_NFREE (umm_blk s) (last (f # fs')) = 0"
      using dll_nx[of _ _ "butlast fs" "last fs" 0 "[]"] d[unfolded e] fs by simp
    show "dll (UMM_NFREE (umm_blk s)) (UMM_PFREE (umm_blk s)) (f # fs')"
      using d dll_append[of _ _ "butlast fs" "last fs" "[0]"] fs e by (simp add: append_butlast_last_id)
  qed (use F(4) fs l calculation(1) in auto)
  ultimately show "umm_free_list s = fs"
    using F(4) by (cases fs) (auto simp: umm_free_list_def Let_def)
qed

lemma umm_inv_iff:
  "umm_inv s \<longleftrightarrow>
     umm_heap s \<noteq> 0 \<and> unat (umm_heap s) + 8 * unat (umm_numblocks s) < 65536 \<and>
     blkno (umm_blk s) 0 = 1 \<and> (\<exists>bs fs. umm_wf (umm_blk s) (umm_numblocks s) bs fs)"
  using wf_lists by (auto simp: umm_inv_def)

subsection \<open>Addresses and bytes\<close>

definition umm_byte :: "umm_mem \<Rightarrow> nat \<Rightarrow> u8" where
  "umm_byte m off =
     (let x = umm_cell m (off div 2) in if even off then ucast x else ucast (drop_bit 8 x))"

text \<open>The byte a client reads through a pointer into the heap.\<close>

definition umm_load :: "umm_state \<Rightarrow> u16 \<Rightarrow> u8" where
  "umm_load s a = umm_byte (umm_blk s) (unat (a - umm_heap s))"

definition umm_live :: "umm_state \<Rightarrow> u16 \<Rightarrow> nat option" where
  "umm_live s p =
     (let b = umm_block_of s p
      in if p = UMM_DATA s b \<and> b \<noteq> 0 \<and> b \<noteq> UMM_BLOCK_LAST s
         then map_option (\<lambda>e. 8 * (unat e - unat b) - 4) (umm_used (umm_blk s) (umm_block_list s) b)
         else None)"

lemma cell_frame:
  assumes fr: "umm_frame m m' H B" and b: "b \<notin> B" and x: "\<And>x. b < x \<Longrightarrow> x < e \<Longrightarrow> x \<notin> H \<and> x \<notin> B"
    and k: "4 * unat b + 2 \<le> k" "k < 4 * unat e"
  shows "umm_cell m' k = umm_cell m k"
proof (cases "k div 4 = unat b")
  case True
  then have "k mod 4 \<noteq> 0" "k mod 4 \<noteq> 1" using k(1) by presburger+
  moreover have "free_next (m' b) = free_next (m b)" "free_prev (m' b) = free_prev (m b)"
    using fr b by (auto simp: umm_frame_def UMM_NFREE_def UMM_PFREE_def)
  ultimately show ?thesis using True by (simp add: umm_cell_def Let_def)
next
  case False
  then have "unat b < k div 4" "k div 4 < unat e" using k by presburger+
  moreover have "unat e < 65536" using unsigned_less[of e] by simp
  ultimately have u: "unat (of_nat (k div 4) :: u16) = k div 4" by (simp add: unat_of_nat)
  have "b < of_nat (k div 4)" "of_nat (k div 4) < e"
    using \<open>unat b < k div 4\<close> \<open>k div 4 < unat e\<close> by (simp_all add: word_less_nat_alt u)
  then have "m' (of_nat (k div 4)) = m (of_nat (k div 4))" using frame_same[OF fr] x by blast
  then show ?thesis by (simp add: umm_cell_def)
qed

lemma byte_cells:
  assumes "\<And>k. 2 * k \<le> off \<Longrightarrow> off \<le> 2 * k + 1 \<Longrightarrow> umm_cell m' k = umm_cell m k"
  shows "umm_byte m' off = umm_byte m off"
  using assms[of "off div 2"] by (simp add: umm_byte_def)

lemma umm_addr:
  assumes "unat (umm_heap s) + 8 * unat n < 65536" and "b < n" and "i < 8 * (unat n - unat b) - 4"
  shows "unat (UMM_DATA s b + of_nat i - umm_heap s) = 8 * unat b + 4 + i"
    and "umm_block_of s (UMM_DATA s b) = b" and "UMM_DATA s b \<noteq> 0"
proof -
  have b: "unat b < unat n" "unat n < 8192" using assms(1,2) by (auto simp: word_less_nat_alt)
  have 8: "unat (8 * b) = 8 * unat b" using b by (simp add: unat_word_ariths)
  have 84: "unat (8 * b + 4) = 8 * unat b + 4" using 8 b by (simp add: unat_word_ariths)
  have i: "unat (of_nat i :: u16) = i" using assms(3) b by (simp add: unat_of_nat)
  have "UMM_DATA s b + of_nat i - umm_heap s = (8 * b + 4) + of_nat i" by (simp add: UMM_DATA_def)
  moreover have "unat ((8 * b + 4) + of_nat i) = 8 * unat b + 4 + i"
    by (subst unat_add_no_wrap) (use 84 i b assms(3) in auto)
  ultimately show "unat (UMM_DATA s b + of_nat i - umm_heap s) = 8 * unat b + 4 + i" by (simp only:)
  have "UMM_DATA s b - umm_heap s = 8 * b + 4" by (simp add: UMM_DATA_def)
  then have "unat (umm_block_of s (UMM_DATA s b)) = unat b"
    unfolding umm_block_of_def by (simp add: unat_div 84)
  then show "umm_block_of s (UMM_DATA s b) = b" by (simp add: word_unat_eq_iff)
  have "unat (umm_heap s + (8 * b + 4)) = unat (umm_heap s) + (8 * unat b + 4)"
    by (subst unat_add_no_wrap) (use 84 b assms(1) in auto)
  then have "unat (UMM_DATA s b) \<noteq> 0" by (simp add: UMM_DATA_def add.assoc)
  then show "UMM_DATA s b \<noteq> 0" by auto
qed

text \<open>The live pointers are the data addresses of the used blocks between the first and the last.\<close>

lemma used_block:
  assumes wf: "umm_wf m n bs fs" and u: "umm_used m bs b = Some e" and b: "b \<noteq> 0" "b \<noteq> n - 1"
  shows "b \<in> set bs" "\<not> blkfree m b" "e = blkno m b" "b < e" "b < n" "e \<le> n - 1" "0 < 8 * (unat e - unat b) - 4"
    "unat e < unat n"
proof -
  note W = wfD[OF wf]
  show bs: "b \<in> set bs" "\<not> blkfree m b" and e: "e = blkno m b"
    using u by (auto simp: umm_used_def split: if_splits)
  note S = chain_step[OF W(1) bs(1) b(2)]
  have n: "n - 1 < n" using chainD(1)[OF W(1)] by unat_arith
  show lt: "b < e" using S(2) e by simp
  show "e \<le> n - 1" using chain_last_max[OF W(1) S(1)] e by simp
  with n have "e < n" by simp
  then show "unat e < unat n" by (simp add: word_less_nat_alt)
  show "b < n" using chain_last_max[OF W(1) bs(1)] n by simp
  show "0 < 8 * (unat e - unat b) - 4" using lt by (simp add: word_less_nat_alt)
qed

lemma umm_live_Some:
  assumes wf: "umm_wf (umm_blk s) (umm_numblocks s) bs fs"
    and a: "unat (umm_heap s) + 8 * unat (umm_numblocks s) < 65536"
  shows "umm_live s p = Some k \<longleftrightarrow>
     (\<exists>b e. p = UMM_DATA s b \<and> b \<noteq> 0 \<and> b \<noteq> umm_numblocks s - 1 \<and>
        umm_used (umm_blk s) bs b = Some e \<and> k = 8 * (unat e - unat b) - 4)"
    (is "_ \<longleftrightarrow> ?r")
proof
  assume "umm_live s p = Some k"
  then show ?r unfolding umm_live_def Let_def UMM_BLOCK_LAST_def wf_lists(1)[OF wf]
    by (auto split: if_splits)
next
  assume ?r
  then obtain b e where r: "p = UMM_DATA s b" "b \<noteq> 0" "b \<noteq> umm_numblocks s - 1"
    "umm_used (umm_blk s) bs b = Some e" "k = 8 * (unat e - unat b) - 4" by blast
  note U = used_block[OF wf r(4,2,3)]
  have "umm_block_of s p = b" unfolding r(1)
    by (rule umm_addr(2)[OF a U(5), of 0]) (use U(5) in \<open>simp add: word_less_nat_alt\<close>)
  then show "umm_live s p = Some k"
    unfolding umm_live_def Let_def UMM_BLOCK_LAST_def wf_lists(1)[OF wf] using r by simp
qed

lemma umm_live_update:
  assumes wf: "umm_wf (umm_blk s) (umm_numblocks s) bs fs" and wf': "umm_wf m' (umm_numblocks s) bs' fs'"
    and a: "unat (umm_heap s) + 8 * unat (umm_numblocks s) < 65536"
    and u: "umm_used m' bs' = (umm_used (umm_blk s) bs)(c := v)"
    and c: "c < umm_numblocks s" "c \<noteq> 0" "c \<noteq> umm_numblocks s - 1"
  shows "umm_live (s\<lparr>umm_blk := m'\<rparr>) =
     (umm_live s)(UMM_DATA s c := map_option (\<lambda>e. 8 * (unat e - unat c) - 4) v)"
proof (rule ext)
  fix p
  let ?s' = "s\<lparr>umm_blk := m'\<rparr>"
  have d: "UMM_DATA ?s' = UMM_DATA s" "umm_block_of ?s' = umm_block_of s"
    by (simp_all add: fun_eq_iff UMM_DATA_def umm_block_of_def)
  have bl: "umm_block_list ?s' = bs'" "umm_block_list s = bs" using wf wf' wf_lists by auto
  have c4: "umm_block_of s (UMM_DATA s c) = c"
    by (rule umm_addr(2)[OF a c(1), of 0]) (use c(1) in \<open>simp add: word_less_nat_alt\<close>)
  show "umm_live ?s' p = ((umm_live s)(UMM_DATA s c := map_option (\<lambda>e. 8 * (unat e - unat c) - 4) v)) p"
    unfolding umm_live_def Let_def UMM_BLOCK_LAST_def d bl using c c4 u by auto
qed

lemma halfword_in_body:
  assumes "2 * k \<le> 8 * b + 4 + i" and "8 * b + 4 + i \<le> 2 * k + 1" and "b < e"
    and "i < 8 * (e - b) - (4::nat)"
  shows "4 * b + 2 \<le> k" "k < 4 * e"
  using assms by arith+

lemma load_frame:
  assumes wf: "umm_wf (umm_blk s) (umm_numblocks s) bs fs"
    and a: "unat (umm_heap s) + 8 * unat (umm_numblocks s) < 65536"
    and u: "umm_used (umm_blk s) bs b = Some e" "b \<noteq> 0" "b \<noteq> umm_numblocks s - 1"
    and fr: "umm_frame (umm_blk s) m' H B" and nb: "b \<notin> B"
    and x: "\<And>x. b < x \<Longrightarrow> x < e \<Longrightarrow> x \<notin> H \<and> x \<notin> B"
    and i: "i < 8 * (unat e - unat b) - 4"
  shows "umm_load (s\<lparr>umm_blk := m'\<rparr>) (UMM_DATA s b + of_nat i) = umm_load s (UMM_DATA s b + of_nat i)"
proof -
  note U = used_block[OF wf u]
  have ad: "unat (UMM_DATA s b + of_nat i - umm_heap s) = 8 * unat b + 4 + i"
    by (rule umm_addr(1)[OF a U(5)]) (use i U(8) in linarith)
  have lt: "unat b < unat e" using U(4) by (simp add: word_less_nat_alt)
  have "umm_byte m' (8 * unat b + 4 + i) = umm_byte (umm_blk s) (8 * unat b + 4 + i)"
    by (rule byte_cells, rule cell_frame[OF fr nb x]) (use halfword_in_body i lt in blast)+
  then show ?thesis by (simp add: umm_load_def ad)
qed

subsection \<open>Initialisation\<close>

lemma memzero_from_0:
  assumes "8 * unat b + 7 < len"
  shows "umm_memzero m 0 len b = \<lparr>used_next = 0, used_prev = 0, free_next = 0, free_prev = 0\<rparr>"
proof -
  have z: "(x AND 0xFF00) AND 0x00FF = (0 :: u16)" for x by (simp add: and.assoc)
  show ?thesis using assms by (simp add: umm_memzero_def umm_of_cells_def Let_def z)
qed

definition umm_init_mem :: "umm_mem \<Rightarrow> u16 \<Rightarrow> umm_mem" where
  "umm_init_mem m0 n =
      set_PBLOCK (set_NBLOCK (set_PFREE (set_NFREE (set_NBLOCK m0 0 1) 0 1) 0 1) 1 ((n - 1) OR UMM_FREELIST_MASK)) (n - 1) 1"
lemma umm_init_mem_ok:
  assumes n: "2 < n" "n < 0x8000" and z: "\<And>b. b < n \<Longrightarrow> m0 b = \<lparr>used_next = 0, used_prev = 0, free_next = 0, free_prev = 0\<rparr>"
  shows "umm_wf (umm_init_mem m0 n) n [0, 1, n - 1] [1]"
proof -
  have d: "n - 1 < n" "1 < n - 1" "n - 1 \<noteq> 1" "n - 1 \<noteq> 0" "0 < n" "1 < n" "n - 1 < 0x8000" "0 < n - 1" using n by unat_arith+
  have Z: "UMM_NBLOCK m0 b = 0" "UMM_PBLOCK m0 b = 0" "UMM_NFREE m0 b = 0" "UMM_PFREE m0 b = 0" if "b < n" for b
    using z[OF that] by (simp_all add: UMM_NBLOCK_def UMM_PBLOCK_def UMM_NFREE_def UMM_PFREE_def)
  have b: "blkno m0 b = 0" "\<not> blkfree m0 b" if "b < n" for b using Z(1)[OF that] by (simp_all add: blkno_def blkfree_def)
  have nx: "blkno (umm_init_mem m0 n) = (blkno m0)(0 := 1, 1 := n - 1)"
    unfolding umm_init_mem_def using d by (simp add: mem_simps umm_masks flag_simps)
  have fr: "blkfree (umm_init_mem m0 n) = (blkfree m0)(0 := False, 1 := True)"
    unfolding umm_init_mem_def using d by (simp add: mem_simps umm_masks flag_simps)
  have pv: "UMM_PBLOCK (umm_init_mem m0 n) = (UMM_PBLOCK m0)(n - 1 := 1)"
   "UMM_NFREE (umm_init_mem m0 n) = (UMM_NFREE m0)(0 := 1)" "UMM_PFREE (umm_init_mem m0 n) = (UMM_PFREE m0)(0 := 1)"
    unfolding umm_init_mem_def using d by (simp_all add: mem_simps)
  have "umm_chain (umm_init_mem m0 n) n [0, 1, n - 1]"
    unfolding umm_chain_def nx fr pv using n d Z b by simp
  moreover have "umm_flist (umm_init_mem m0 n) [0, 1, n - 1] [1]"
    unfolding umm_flist_def fr pv using n d Z b by auto
  moreover have "umm_coalesced (umm_init_mem m0 n) [0, 1, n - 1]"
    unfolding umm_coalesced_def nx fr using n d Z b by auto
  ultimately show ?thesis by (simp add: umm_wf_def)
qed
definition umm_init_pre :: "umm_state \<Rightarrow> bool" where
  "umm_init_pre s \<longleftrightarrow>
     UMM_Heap_Address s \<noteq> 0 \<and> 24 \<le> unat (UMM_Heap_Size s) \<and>
     unat (UMM_Heap_Address s) + unat (UMM_Heap_Size s) < 65536"

lemma init_ok:
  assumes pre: "umm_init_pre s"
  defines "n \<equiv> ucast (UMM_Heap_Size s div 8) :: u16"
  shows "umm_wf (umm_blk (umm_init s)) n [0, 1, n - 1] [1]"
    and "umm_numblocks (umm_init s) = n" and "unat n = unat (UMM_Heap_Size s) div 8"
    and "umm_heap (umm_init s) = UMM_Heap_Address s" and "umm_inv (umm_init s)"
proof -
  have sz: "24 \<le> unat (UMM_Heap_Size s)" "unat (UMM_Heap_Size s) < 65536"
    using pre by (auto simp: umm_init_pre_def)
  show un: "unat n = unat (UMM_Heap_Size s) div 8"
    unfolding n_def using sz by (simp add: unat_ucast_mod unat_div)
  have ul: "unat (ucast (UMM_Heap_Size s) :: u16) = unat (UMM_Heap_Size s)"
    using sz by (simp add: unat_ucast_mod)
  have n: "2 < n" "n < 0x8000" using un sz by (simp_all add: word_less_nat_alt)
  show nb: "umm_numblocks (umm_init s) = n" and hp: "umm_heap (umm_init s) = UMM_Heap_Address s"
    by (simp_all add: umm_init_def Let_def n_def)
  have m: "umm_blk (umm_init s) = umm_init_mem (umm_memzero (umm_blk s) 0 (unat (UMM_Heap_Size s))) n"
    by (simp add: umm_init_def Let_def umm_init_mem_def UMM_BLOCK_LAST_def n_def ul)
  have lt: "8 * unat b + 7 < unat (UMM_Heap_Size s)" if "b < n" for b
    using that un by (simp add: word_less_nat_alt)
  show wf: "umm_wf (umm_blk (umm_init s)) n [0, 1, n - 1] [1]"
    unfolding m by (rule umm_init_mem_ok[OF n memzero_from_0[OF lt]])
  have "unat (UMM_Heap_Address s) + 8 * unat n < 65536"
    using pre un times_div_less_eq_dividend[of 8 "unat (UMM_Heap_Size s)"] unfolding umm_init_pre_def
    by linarith
  moreover have "blkno (umm_blk (umm_init s)) 0 = 1" using wfD(1)[OF wf] by (simp add: umm_chain_def)
  ultimately show "umm_inv (umm_init s)"
    unfolding umm_inv_iff nb hp using wf pre by (auto simp: umm_init_pre_def)
qed

subsection \<open>Release and allocation\<close>

text \<open>A client's view of a step: the bytes behind every pointer in \<open>P\<close> are what they were.\<close>

definition umm_same_data :: "umm_state \<Rightarrow> umm_state \<Rightarrow> (u16 \<Rightarrow> nat option) \<Rightarrow> bool" where
  "umm_same_data s s' P \<longleftrightarrow>
     (\<forall>p k i. P p = Some k \<longrightarrow> i < k \<longrightarrow> umm_load s' (p + of_nat i) = umm_load s (p + of_nat i))"

lemma inv_update:
  assumes "umm_inv s" and wf: "umm_wf (umm_blk s) (umm_numblocks s) bs fs"
    and wf': "umm_wf m' (umm_numblocks s) bs' fs'"
    and u: "umm_used m' bs' = (umm_used (umm_blk s) bs)(c := v)" and c: "c \<noteq> 0"
  shows "umm_inv (s\<lparr>umm_blk := m'\<rparr>)"
proof -
  have "umm_used m' bs' 0 = umm_used (umm_blk s) bs 0" using u c by simp
  then have "blkno m' 0 = blkno (umm_blk s) 0"
    using chainD(8,12)[OF wfD(1)[OF wf]] chainD(8,12)[OF wfD(1)[OF wf']] by (simp add: umm_used_def)
  then show ?thesis using assms(1) wf' unfolding umm_inv_iff by auto
qed

lemma free_ok:
  assumes inv: "umm_inv s" and p: "umm_live s p = Some k"
  shows "umm_inv (umm_free s p)" "umm_live (umm_free s p) = (umm_live s)(p := None)"
    "umm_same_data s (umm_free s p) ((umm_live s)(p := None))"
proof -
  let ?n = "umm_numblocks s"
  obtain bs fs where a: "umm_heap s \<noteq> 0" "unat (umm_heap s) + 8 * unat ?n < 65536"
    and wf: "umm_wf (umm_blk s) ?n bs fs" using inv unfolding umm_inv_iff by blast
  obtain c e where c: "p = UMM_DATA s c" "c \<noteq> 0" "c \<noteq> ?n - 1" "umm_used (umm_blk s) bs c = Some e"
    using p unfolding umm_live_Some[OF wf a(2)] by blast
  note U = used_block[OF wf c(4,2,3)]
  have c0: "0 < 8 * (unat ?n - unat c) - 4" using U(5) by (simp add: word_less_nat_alt)
  have ad: "umm_block_of s p = c" "p \<noteq> 0" unfolding c(1) using umm_addr(2,3)[OF a(2) U(5) c0] by auto
  obtain m' bs' fs' where r: "umm_free_core s p = s\<lparr>umm_blk := m'\<rparr>" "umm_wf m' ?n bs' fs'"
    "umm_used m' bs' = (umm_used (umm_blk s) bs)(c := None)"
    "umm_frame (umm_blk s) m' (set bs) (insert 0 (insert c (set fs)))"
    using free_core_ok[OF wf U(1) c(2,3) U(2) refl ad(1)] by blast
  have f: "umm_free s p = s\<lparr>umm_blk := m'\<rparr>"
    using r(1) ad(2) a(1) by (simp add: umm_free_def umm_ensure_init_def)
  show "umm_inv (umm_free s p)" unfolding f by (rule inv_update[OF inv wf r(2,3) c(2)])
  show lv: "umm_live (umm_free s p) = (umm_live s)(p := None)"
    unfolding f using umm_live_update[OF wf r(2) a(2) r(3) U(5) c(2,3)] c(1) by simp
  note W = wfD[OF wf]
  show "umm_same_data s (umm_free s p) ((umm_live s)(p := None))"
    unfolding umm_same_data_def f
  proof (intro allI impI)
    fix q k i assume q: "((umm_live s)(p := None)) q = Some k" "i < k"
    then have "umm_live s q = Some k" "q \<noteq> p" by (auto split: if_splits)
    then obtain b d where b: "q = UMM_DATA s b" "b \<noteq> 0" "b \<noteq> ?n - 1"
      "umm_used (umm_blk s) bs b = Some d" "k = 8 * (unat d - unat b) - 4" "b \<noteq> c"
      using c(1) unfolding umm_live_Some[OF wf a(2)] by blast
    note B = used_block[OF wf b(4,2,3)]
    have nb: "b \<notin> insert 0 (insert c (set fs))" using b B flistD(3)[OF W(1,2)] by auto
    have "x \<notin> set bs \<and> x \<notin> insert 0 (insert c (set fs))" if "b < x" "x < d" for x
      using chain_step(5)[OF W(1) B(1) b(3), of x] that B(3) flistD(3)[OF W(1,2)] U(1) chainD(12)[OF W(1)]
      by auto
    from load_frame[OF wf a(2) b(4,2,3) r(4) nb this] q(2) b(1,5)
    show "umm_load (s\<lparr>umm_blk := m'\<rparr>) (q + of_nat i) = umm_load s (q + of_nat i)" by simp
  qed
qed

text \<open>The sizes of the free blocks, in blocks.\<close>

definition umm_fits :: "umm_state \<Rightarrow> u16 \<Rightarrow> bool" where
  "umm_fits s k \<longleftrightarrow> list_ex (\<lambda>b. k \<le> blksize (umm_blk s) b) (umm_free_list s)"

lemma blocks_capacity: "unat sz \<le> 8 * unat (umm_blocks sz) - 4"
proof (cases "sz \<le> 4")
  case False
  then have lt: "5 \<le> sz" "\<not> unat sz \<le> 4" by (unat_arith, simp add: word_le_nat_alt)
  have u: "unat (sz - 5) = unat sz - 5" using lt by (simp add: unat_sub)
  have "unat sz < 65536" using unsigned_less[of sz] by simp
  then have "unat (2 + (sz - 5) div 8) = 2 + (unat sz - 5) div 8"
    by (subst unat_add_no_wrap) (simp_all add: unat_div u)
  with False show ?thesis by (simp add: umm_blocks_def)
qed (simp add: umm_blocks_def word_le_nat_alt)

lemma malloc_ok:
  assumes inv: "umm_inv s" and sz: "sz \<noteq> 0" and k: "k = umm_blocks sz"
  shows "(\<exists>s' c. umm_malloc s sz = Some (s', UMM_DATA s c) \<and> UMM_DATA s c \<noteq> 0 \<and> umm_inv s' \<and>
        umm_live s (UMM_DATA s c) = None \<and>
        umm_live s' = (umm_live s)(UMM_DATA s c \<mapsto> 8 * unat k - 4) \<and> umm_same_data s s' (umm_live s) \<and>
        c \<in> set (umm_free_list s) \<and> k \<le> blksize (umm_blk s) c \<and>
        list_all (\<lambda>b. k \<le> blksize (umm_blk s) b \<longrightarrow> blksize (umm_blk s) c \<le> blksize (umm_blk s) b)
          (umm_free_list s) \<and> umm_malloc_core s sz = Some (s', UMM_DATA s c) \<and>
        (\<exists>m'. s' = s\<lparr>umm_blk := m'\<rparr>)) \<or>
     umm_malloc s sz = Some (s, 0) \<and> \<not> umm_fits s k \<and> umm_malloc_core s sz = Some (s, 0)"
proof -
  let ?n = "umm_numblocks s"
  obtain bs fs where a: "umm_heap s \<noteq> 0" "unat (umm_heap s) + 8 * unat ?n < 65536"
    and wf: "umm_wf (umm_blk s) ?n bs fs" using inv unfolding umm_inv_iff by blast
  note W = wfD[OF wf]
  note F = flistD[OF W(1,2)]
  have fl: "umm_free_list s = fs" by (rule wf_lists(2)[OF wf])
  have mc: "umm_malloc s sz = umm_malloc_core s sz" using a(1) sz by (simp add: umm_malloc_def umm_ensure_init_def)
  from malloc_core_ok[OF wf refl k] show ?thesis
  proof (elim disjE exE conjE)
    fix c m' bs' fs'
    assume r: "umm_malloc_core s sz = Some (s\<lparr>umm_blk := m'\<rparr>, UMM_DATA s c)"
      and c: "c \<in> set fs" "k \<le> blksize (umm_blk s) c"
      and best: "\<forall>b\<in>set fs. k \<le> blksize (umm_blk s) b \<longrightarrow> blksize (umm_blk s) c \<le> blksize (umm_blk s) b"
      and wf': "umm_wf m' ?n bs' fs'"
      and u: "umm_used m' bs' = (umm_used (umm_blk s) bs)(c := Some (c + k))"
      and fr: "umm_frame (umm_blk s) m' (set bs \<union> {c<..<blkno (umm_blk s) c})
        (insert 0 (set fs) \<union> {c<..<blkno (umm_blk s) c})"
    let ?s' = "s\<lparr>umm_blk := m'\<rparr>" and ?p = "UMM_DATA s c"
    have cb: "c \<in> set bs" "blkfree (umm_blk s) c" "c \<noteq> 0" "c \<noteq> ?n - 1" using F(5)[OF c(1)] by auto
    have uc: "umm_used m' bs' c = Some (c + k)" using u by simp
    note U = used_block[OF wf' uc cb(3,4)]
    have "c < c + k" by (rule U(4))
    have uk: "unat (c + k) = unat c + unat k"
    proof -
      have "unat (blksize (umm_blk s) c) + unat c = unat (blkno (umm_blk s) c)"
        using chain_step(2)[OF W(1) cb(1,4)]
        by (simp add: blksize_def unat_sub order.strict_implies_order) (simp add: word_less_nat_alt)
      then have "unat c + unat k < 65536"
        using c(2) unat_u16[of "blkno (umm_blk s) c"] by (simp add: word_le_nat_alt)
      then show ?thesis by (subst unat_add_no_wrap) auto
    qed
    have c0: "0 < 8 * (unat ?n - unat c) - 4" using U(5) by (simp add: word_less_nat_alt)
    have ad: "umm_block_of s ?p = c" "?p \<noteq> 0" using umm_addr(2,3)[OF a(2) U(5) c0] by auto
    have none: "umm_live s ?p = None"
      using ad(1) cb(2) by (simp add: umm_live_def Let_def umm_used_def)
    have lv: "umm_live ?s' = (umm_live s)(?p \<mapsto> 8 * unat k - 4)"
      using umm_live_update[OF wf wf' a(2) u U(5) cb(3,4)] uk by simp
    have same: "umm_same_data s ?s' (umm_live s)"
      unfolding umm_same_data_def
    proof (intro allI impI)
      fix q j i assume q: "umm_live s q = Some j" "i < j"
      then obtain b d where b: "q = UMM_DATA s b" "b \<noteq> 0" "b \<noteq> ?n - 1"
        "umm_used (umm_blk s) bs b = Some d" "j = 8 * (unat d - unat b) - 4"
        unfolding umm_live_Some[OF wf a(2)] by blast
      note B = used_block[OF wf b(4,2,3)]
      have bc: "b \<noteq> c" using B(2) cb(2) by auto
      have dis: "x \<notin> {c<..<blkno (umm_blk s) c}" if "b \<le> x" "x < d" for x
        using chain_disjoint[OF W(1) B(1) b(3) cb(1,4) that(1)] that(2) B(3) bc
        by (auto simp: order.strict_implies_order)
      have nb: "b \<notin> insert 0 (set fs) \<union> {c<..<blkno (umm_blk s) c}"
        using b(2) B(2) F(3) dis[OF order.refl B(4)] by auto
      have "x \<notin> set bs \<union> {c<..<blkno (umm_blk s) c} \<and> x \<notin> insert 0 (set fs) \<union> {c<..<blkno (umm_blk s) c}"
        if "b < x" "x < d" for x
        using chain_step(5)[OF W(1) B(1) b(3), of x] that B(3) F(3) chainD(12)[OF W(1)] dis[of x]
        by auto
      from load_frame[OF wf a(2) b(4,2,3) fr nb this] q(2) b(1,5)
      show "umm_load ?s' (q + of_nat i) = umm_load s (q + of_nat i)" by simp
    qed
    have "umm_inv ?s'" by (rule inv_update[OF inv wf wf' u cb(3)])
    then show ?thesis using r mc ad(2) none lv same c best unfolding fl by (auto simp: list_all_iff)
  next
    assume r: "umm_malloc_core s sz = Some (s, 0)" "\<forall>b\<in>set fs. blksize (umm_blk s) b < k"
    then have "\<not> umm_fits s k" unfolding umm_fits_def fl by (auto simp: list_ex_iff not_le)
    then show ?thesis using r(1) mc by simp
  qed
qed

subsection \<open>The layout of the heap is determined by what is live\<close>

lemma wf_blocks_of_used:
  assumes wf: "umm_wf m n bs fs"
  shows "set bs = dom (umm_used m bs) \<union> ran (umm_used m bs)"
proof
  note W = wfD[OF wf]
  show "set bs \<subseteq> dom (umm_used m bs) \<union> ran (umm_used m bs)"
  proof
    fix b assume b: "b \<in> set bs"
    show "b \<in> dom (umm_used m bs) \<union> ran (umm_used m bs)"
    proof (cases "blkfree m b")
      case True
      then have "b \<noteq> 0" using chainD(8)[OF W(1)] by auto
      note B = chain_back[OF W(1) b this]
      have "\<not> blkfree m (UMM_PBLOCK m b)" using coalescedD[OF W(3) B(1)] B(3) True by auto
      then have "umm_used m bs (UMM_PBLOCK m b) = Some b" using B by (simp add: umm_used_def)
      then show ?thesis by (auto simp: ran_def)
    qed (use b in \<open>auto simp: umm_used_def\<close>)
  qed
  show "dom (umm_used m bs) \<union> ran (umm_used m bs) \<subseteq> set bs"
  proof
    fix b assume "b \<in> dom (umm_used m bs) \<union> ran (umm_used m bs)"
    then consider "b \<in> set bs" | a where "a \<in> set bs" "b = blkno m a"
      by (auto simp: umm_used_def ran_def split: if_splits)
    then show "b \<in> set bs"
      using chain_step(1)[OF W(1)] chainD(10,12)[OF W(1)] by cases metis+
  qed
qed

lemma layout_of_used:
  assumes "umm_wf m n bs fs" and "umm_wf m' n bs' fs'" and "umm_used m bs = umm_used m' bs'"
  shows "bs = bs'"
proof -
  have "set bs = set bs'" using wf_blocks_of_used assms by metis
  moreover have "sorted_wrt (<) bs" using chainD(6)[OF wfD(1)[OF assms(1)]] .
  moreover have "sorted_wrt (<) bs'" using chainD(6)[OF wfD(1)[OF assms(2)]] .
  ultimately show ?thesis by (metis strict_sorted_equal)
qed

lemma live_of_used:
  assumes wf: "umm_wf (umm_blk s) (umm_numblocks s) bs fs"
    and a: "unat (umm_heap s) + 8 * unat (umm_numblocks s) < 65536"
    and b: "b \<noteq> 0" "b \<noteq> umm_numblocks s - 1" "b < umm_numblocks s"
  shows "umm_live s (UMM_DATA s b) =
    map_option (\<lambda>e. 8 * (unat e - unat b) - 4) (umm_used (umm_blk s) bs b)"
proof -
  have "umm_block_of s (UMM_DATA s b) = b"
    by (rule umm_addr(2)[OF a b(3), of 0]) (use b(3) in \<open>simp add: word_less_nat_alt\<close>)
  then show ?thesis
    unfolding umm_live_def Let_def UMM_BLOCK_LAST_def wf_lists(1)[OF wf] using b(1,2) by simp
qed

lemma layout_of_live:
  assumes i: "umm_inv s" "umm_inv s'"
    and h: "umm_heap s' = umm_heap s" "umm_numblocks s' = umm_numblocks s"
    and l: "umm_live s' = umm_live s"
  shows "umm_block_list s' = umm_block_list s"
proof -
  let ?n = "umm_numblocks s" and ?m = "umm_blk s" and ?m' = "umm_blk s'"
  obtain bs fs bs' fs' where wf: "umm_wf ?m ?n bs fs" and wf': "umm_wf ?m' ?n bs' fs'"
    using i h(2) unfolding umm_inv_iff by auto
  have a: "unat (umm_heap s) + 8 * unat ?n < 65536" and z: "blkno ?m 0 = 1" "blkno ?m' 0 = 1"
    using i unfolding umm_inv_iff by auto
  note C = chainD[OF wfD(1)[OF wf]] and C' = chainD[OF wfD(1)[OF wf']]
  have d: "UMM_DATA s' = UMM_DATA s" by (simp add: fun_eq_iff UMM_DATA_def h)
  have n: "?n - 1 < ?n" using C(1) by unat_arith
  have "umm_used ?m bs b = umm_used ?m' bs' b" for b
  proof -
    consider "b = 0" | "b = ?n - 1" | "\<not> b < ?n" | "b \<noteq> 0" "b \<noteq> ?n - 1" "b < ?n" by blast
    then show ?thesis
    proof cases
      case 3
      then have "b \<notin> set bs" "b \<notin> set bs'"
        using chain_last_max[OF wfD(1)[OF wf], of b] chain_last_max[OF wfD(1)[OF wf'], of b] n by auto
      then show ?thesis by (simp add: umm_used_def)
    next
      case 4
      let ?f = "\<lambda>e :: u16. 8 * (unat e - unat b) - 4"
      have e: "map_option ?f (umm_used ?m bs b) = map_option ?f (umm_used ?m' bs' b)"
        using live_of_used[OF wf a 4] live_of_used[of s' bs' fs' b] wf' a h l d 4 by simp
      show ?thesis
      proof (cases "umm_used ?m bs b")
        case None
        then show ?thesis using e by simp
      next
        case (Some x)
        then obtain y where y: "umm_used ?m' bs' b = Some y" "?f x = ?f y"
          using e by (cases "umm_used ?m' bs' b") auto
        have "unat b < unat x" "unat b < unat y"
          using used_block(4)[OF wf Some 4(1,2)] used_block(4)[OF wf' y(1) 4(1,2)]
          by (simp_all add: word_less_nat_alt)
        then have "unat x = unat y" using y(2) by arith
        then show ?thesis using Some y(1) by (simp add: word_unat_eq_iff)
      qed
    qed (use C C' z in \<open>auto simp: umm_used_def\<close>)
  qed
  then have "bs = bs'" using layout_of_used[OF wf wf'] by (simp add: fun_eq_iff)
  then show ?thesis using wf_lists(1)[OF wf] wf_lists(1)[of s' bs' fs'] wf' h(2) by simp
qed

end
