(* ===== verification/Umm_Bytes.thy ===== *)
theory Umm_Bytes
  imports Umm_Spec
begin

section \<open>Writing inside a block\<close>

text \<open>
  A client may write any byte of a block it holds, and \<open>umm_calloc\<close> and \<open>umm_realloc\<close> write there
  themselves. Such writes leave the links of the heap alone, so they keep the invariant and the
  live pointers, and change the data of that block only.
\<close>

subsection \<open>Writes to the body of a used block\<close>

lemma umm_cell_field:
  assumes "i < 4"
  shows "umm_cell m (4 * unat x + i) =
    (if i = 0 then used_next (m x) else if i = 1 then used_prev (m x)
     else if i = 2 then free_next (m x) else free_prev (m x))"
proof -
  have "(4 * unat x + i) div 4 = unat x" "(4 * unat x + i) mod 4 = i" using assms by simp_all
  then show ?thesis by (simp add: umm_cell_def Let_def)
qed

lemma cell_of_cells [simp]:
  assumes "k < 262144"
  shows "umm_cell (umm_of_cells f) k = f k"
proof -
  define x :: u16 and i where "x = of_nat (k div 4)" and "i = k mod 4"
  have i: "i < 4" by (simp add: i_def)
  have k: "k = 4 * unat x + i" using assms by (simp add: x_def i_def unat_of_nat)
  have "i = 0 \<or> i = 1 \<or> i = 2 \<or> i = 3" using i by arith
  then show ?thesis unfolding k umm_cell_field[OF i] by (auto simp: umm_of_cells_def)
qed

lemma wf_cong:
  assumes wf: "umm_wf m n bs fs"
    and h: "\<And>x. x \<in> set bs \<Longrightarrow> UMM_NBLOCK m' x = UMM_NBLOCK m x \<and> UMM_PBLOCK m' x = UMM_PBLOCK m x"
    and l: "\<And>x. x \<in> insert 0 (set fs) \<Longrightarrow> UMM_NFREE m' x = UMM_NFREE m x \<and> UMM_PFREE m' x = UMM_PFREE m x"
  shows "umm_wf m' n bs fs" "umm_used m' bs = umm_used m bs"
proof -
  note W = wfD[OF wf]
  note C = chainD[OF W(1)] and F = flistD[OF W(1,2)]
  have b: "blkno m' x = blkno m x" "blkfree m' x = blkfree m x" if "x \<in> set bs" for x
    using h[OF that] by (simp_all add: blkno_def blkfree_def)
  have "dll (blkno m') (UMM_PBLOCK m') bs = dll (blkno m) (UMM_PBLOCK m) bs"
    by (rule dll_cong) (use b h C(3) in \<open>blast dest: in_set_butlastD list.set_sel(2)\<close>)+
  then have "dll (blkno m') (UMM_PBLOCK m') bs" using C(7) by simp
  then have ch: "umm_chain m' n bs" using C b[OF C(12)] b[OF C(13)] by (simp add: umm_chain_def)
  have "dll (UMM_NFREE m') (UMM_PFREE m') (0 # fs @ [0]) = dll (UMM_NFREE m) (UMM_PFREE m) (0 # fs @ [0])"
    by (rule dll_cong) (use l in \<open>auto simp: butlast_append split: if_splits\<close>)
  then have "dll (UMM_NFREE m') (UMM_PFREE m') (0 # fs @ [0])" using F(1) by simp
  then have fl: "umm_flist m' bs fs" using F(2,3) b by (auto simp: umm_flist_def)
  have "umm_coalesced m' bs"
  proof (rule coalescedI)
    fix x assume x: "x \<in> set bs" "blkfree m' x"
    then have "x \<noteq> n - 1" using C(9,13) b by auto
    then have "blkno m x \<in> set bs" using chain_step(1)[OF W(1) x(1)] by blast
    then show "\<not> blkfree m' (blkno m' x)" using coalescedD[OF W(3) x(1)] x b by simp
  qed
  with ch fl show "umm_wf m' n bs fs" by (simp add: umm_wf_def)
  show "umm_used m' bs = umm_used m bs" using b by (auto simp: umm_used_def fun_eq_iff)
qed

text \<open>\<open>in_body b e k\<close>: halfword \<open>k\<close> is part of what the client of block \<open>b\<close> (ending at \<open>e\<close>) may use.\<close>

definition in_body :: "u16 \<Rightarrow> u16 \<Rightarrow> nat \<Rightarrow> bool" where
  "in_body b e k \<longleftrightarrow> 4 * unat b + 2 \<le> k \<and> k < 4 * unat e"

lemma body_write:
  assumes wf: "umm_wf m n bs fs" and u: "umm_used m bs b = Some e" "b \<noteq> 0" "b \<noteq> n - 1"
    and w: "\<And>k. k < 262144 \<Longrightarrow> \<not> in_body b e k \<Longrightarrow> umm_cell m' k = umm_cell m k"
  shows "umm_wf m' n bs fs" "umm_used m' bs = umm_used m bs"
proof -
  note W = wfD[OF wf]
  note U = used_block[OF wf u]
  have out: "x \<noteq> b \<Longrightarrow> x \<in> set bs \<Longrightarrow> i < 4 \<Longrightarrow> \<not> in_body b e (4 * unat x + i)" for x i
  proof -
    assume x: "x \<noteq> b" "x \<in> set bs" "i < 4"
    have "\<not> (b < x \<and> x < e)" using chain_step(5)[OF W(1) U(1) u(3), of x] x(2) U(3) by auto
    then have "unat x < unat b \<or> unat e \<le> unat x"
      using x(1) by (auto simp: word_less_nat_alt word_unat_eq_iff)
    then show ?thesis using x(3) by (auto simp: in_body_def)
  qed
  have big: "4 * unat x + i < 262144" if "i < 4" for x :: u16 and i using unat_u16[of x] that by linarith
  have eq: "umm_cell m' (4 * unat x + i) = umm_cell m (4 * unat x + i)"
    if "x \<in> set bs" "i < 4" "x = b \<longrightarrow> i < 2" for x i
    using w[OF big[OF that(2)]] out[of x i] that by (cases "x = b") (auto simp: in_body_def)
  have h: "UMM_NBLOCK m' x = UMM_NBLOCK m x \<and> UMM_PBLOCK m' x = UMM_PBLOCK m x" if "x \<in> set bs" for x
    using eq[OF that, of 0] eq[OF that, of 1]
    by (simp add: umm_cell_field[of 0, simplified] umm_cell_field[of 1] UMM_NBLOCK_def UMM_PBLOCK_def
        del: One_nat_def)
  have l: "UMM_NFREE m' x = UMM_NFREE m x \<and> UMM_PFREE m' x = UMM_PFREE m x"
    if "x \<in> insert 0 (set fs)" for x
  proof -
    have "x \<in> set bs" "x \<noteq> b" using that chainD(12)[OF W(1)] flistD(3)[OF W(1,2)] u(2) U(2) by auto
    then have "umm_cell m' (4 * unat x + 2) = umm_cell m (4 * unat x + 2)"
      "umm_cell m' (4 * unat x + 3) = umm_cell m (4 * unat x + 3)" using eq[of x 2] eq[of x 3] that by auto
    then show ?thesis using umm_cell_field[of 2 _ x] umm_cell_field[of 3 _ x]
      by (auto simp: UMM_NFREE_def UMM_PFREE_def)
  qed
  show "umm_wf m' n bs fs" "umm_used m' bs = umm_used m bs" using wf_cong[OF wf h l] by blast+
qed

lemma bodies_disjoint:
  assumes wf: "umm_wf m n bs fs" and u: "umm_used m bs b = Some e" "b \<noteq> 0" "b \<noteq> n - 1"
    and v: "umm_used m bs c = Some d" "c \<noteq> 0" "c \<noteq> n - 1" and "b \<noteq> c" "in_body b e k"
  shows "\<not> in_body c d k"
proof -
  note W = wfD[OF wf]
  note U = used_block[OF wf u] and V = used_block[OF wf v]
  have "\<not> (b < c \<and> c < e)" "\<not> (c < b \<and> b < d)"
    using chain_step(5)[OF W(1) U(1) u(3), of c] chain_step(5)[OF W(1) V(1) v(3), of b] U V by auto
  then have "unat e \<le> unat c \<or> unat d \<le> unat b"
    using \<open>b \<noteq> c\<close> by (auto simp: word_less_nat_alt word_unat_eq_iff)
  then show ?thesis using assms(9) by (auto simp: in_body_def)
qed

lemma body_bound: "in_body b e k \<Longrightarrow> k < 262144"
  using unat_u16[of e] by (simp add: in_body_def)

subsection \<open>The same over addresses and bytes\<close>

lemma load_byte:
  assumes wf: "umm_wf (umm_blk s) (umm_numblocks s) bs fs"
    and a: "unat (umm_heap s) + 8 * unat (umm_numblocks s) < 65536"
    and u: "umm_used (umm_blk s) bs b = Some e" "b \<noteq> 0" "b \<noteq> umm_numblocks s - 1"
    and i: "i < 8 * (unat e - unat b) - 4"
  shows "umm_load s (UMM_DATA s b + of_nat i) = umm_byte (umm_blk s) (8 * unat b + 4 + i)"
    "unat (UMM_DATA s b + of_nat i - umm_heap s) = 8 * unat b + 4 + i"
proof -
  note U = used_block[OF wf u]
  show "unat (UMM_DATA s b + of_nat i - umm_heap s) = 8 * unat b + 4 + i"
    by (rule umm_addr(1)[OF a U(5)]) (use i U(8) in linarith)
  then show "umm_load s (UMM_DATA s b + of_nat i) = umm_byte (umm_blk s) (8 * unat b + 4 + i)"
    by (simp add: umm_load_def)
qed

lemma live_parts:
  assumes inv: "umm_inv s" and p: "umm_live s p = Some k"
  obtains bs fs b e where "umm_wf (umm_blk s) (umm_numblocks s) bs fs"
    "unat (umm_heap s) + 8 * unat (umm_numblocks s) < 65536" "umm_heap s \<noteq> 0"
    "p = UMM_DATA s b" "b \<noteq> 0" "b \<noteq> umm_numblocks s - 1" "umm_used (umm_blk s) bs b = Some e"
    "k = 8 * (unat e - unat b) - 4" "umm_block_of s p = b" "p \<noteq> 0"
proof -
  obtain bs fs where a: "umm_heap s \<noteq> 0" "unat (umm_heap s) + 8 * unat (umm_numblocks s) < 65536"
    and wf: "umm_wf (umm_blk s) (umm_numblocks s) bs fs" using inv unfolding umm_inv_iff by blast
  obtain b e where b: "p = UMM_DATA s b" "b \<noteq> 0" "b \<noteq> umm_numblocks s - 1"
    "umm_used (umm_blk s) bs b = Some e" "k = 8 * (unat e - unat b) - 4"
    using p unfolding umm_live_Some[OF wf a(2)] by blast
  note U = used_block[OF wf b(4,2,3)]
  have c0: "0 < 8 * (unat (umm_numblocks s) - unat b) - 4" using U(5) by (simp add: word_less_nat_alt)
  have "umm_block_of s p = b" "p \<noteq> 0" unfolding b(1) using umm_addr(2,3)[OF a(2) U(5) c0] by auto
  then show ?thesis using that wf a b by blast
qed

text \<open>A write to memory that changes only the data of the block at \<open>p\<close>.\<close>

definition umm_writes_in :: "umm_state \<Rightarrow> umm_mem \<Rightarrow> u16 \<Rightarrow> bool" where
  "umm_writes_in s m' p \<longleftrightarrow>
     (case umm_live s p of None \<Rightarrow> False
      | Some k \<Rightarrow> (\<forall>j < 262144. \<not> (unat (p - umm_heap s) \<le> 2 * j \<and> 2 * j + 1 < unat (p - umm_heap s) + k) \<longrightarrow>
                    umm_cell m' j = umm_cell (umm_blk s) j))"

lemma write_ok:
  assumes inv: "umm_inv s" and w: "umm_writes_in s m' p"
  shows "umm_inv (s\<lparr>umm_blk := m'\<rparr>)" "umm_live (s\<lparr>umm_blk := m'\<rparr>) = umm_live s"
    "umm_same_data s (s\<lparr>umm_blk := m'\<rparr>) ((umm_live s)(p := None))"
    "umm_block_list (s\<lparr>umm_blk := m'\<rparr>) = umm_block_list s"
    "umm_free_list (s\<lparr>umm_blk := m'\<rparr>) = umm_free_list s"
proof -
  let ?n = "umm_numblocks s" and ?s' = "s\<lparr>umm_blk := m'\<rparr>"
  obtain k where p: "umm_live s p = Some k" using w by (auto simp: umm_writes_in_def split: option.splits)
  from inv p obtain bs fs b e where wf: "umm_wf (umm_blk s) ?n bs fs"
    and a: "unat (umm_heap s) + 8 * unat ?n < 65536"
    and b: "p = UMM_DATA s b" "b \<noteq> 0" "b \<noteq> ?n - 1" "umm_used (umm_blk s) bs b = Some e"
      "k = 8 * (unat e - unat b) - 4" by (rule live_parts)
  note U = used_block[OF wf b(4,2,3)]
  have k0: "0 < 8 * (unat e - unat b) - 4" by (rule U(7))
  have off: "unat (p - umm_heap s) = 8 * unat b + 4"
    using load_byte(2)[OF wf a b(4,2,3), of 0] k0 b(1) by simp
  have out: "umm_cell m' j = umm_cell (umm_blk s) j" if "j < 262144" "\<not> in_body b e j" for j
  proof -
    have "\<not> (8 * unat b + 4 \<le> 2 * j \<and> 2 * j + 1 < 8 * unat b + 4 + k)"
      using that(2) U(4) b(5) unfolding in_body_def word_less_nat_alt by arith
    then show ?thesis using w p that(1) off by (simp add: umm_writes_in_def)
  qed
  note BW = body_write[OF wf b(4,2,3) out]
  have same: "umm_used m' bs = (umm_used (umm_blk s) bs)(b := Some e)" using BW(2) b(4) by auto
  show "umm_inv ?s'" using inv_update[OF inv wf BW(1) same b(2)] .
  show "umm_live ?s' = umm_live s"
    using umm_live_update[OF wf BW(1) a same U(5) b(2,3)] p b(1,5) by (simp add: fun_upd_idem)
  show "umm_block_list ?s' = umm_block_list s" "umm_free_list ?s' = umm_free_list s"
    using wf_lists[OF wf] wf_lists[of ?s' bs fs] BW(1) by simp_all
  show "umm_same_data s ?s' ((umm_live s)(p := None))"
    unfolding umm_same_data_def
  proof (intro allI impI)
    fix q j i assume q: "((umm_live s)(p := None)) q = Some j" "i < j"
    then have "umm_live s q = Some j" "q \<noteq> p" by (auto split: if_splits)
    then obtain c d where c: "q = UMM_DATA s c" "c \<noteq> 0" "c \<noteq> ?n - 1"
      "umm_used (umm_blk s) bs c = Some d" "j = 8 * (unat d - unat c) - 4" "c \<noteq> b"
      using b(1) unfolding umm_live_Some[OF wf a] by blast
    note V = used_block[OF wf c(4,2,3)]
    have lt: "unat c < unat d" using V(4) by (simp add: word_less_nat_alt)
    have i: "i < 8 * (unat d - unat c) - 4" using q(2) c(5) by simp
    have "umm_byte m' (8 * unat c + 4 + i) = umm_byte (umm_blk s) (8 * unat c + 4 + i)"
    proof (rule byte_cells)
      fix h assume "2 * h \<le> 8 * unat c + 4 + i" "8 * unat c + 4 + i \<le> 2 * h + 1"
      then have "in_body c d h" using halfword_in_body[OF _ _ lt i] by (simp add: in_body_def)
      then show "umm_cell m' h = umm_cell (umm_blk s) h"
        using out[OF body_bound] bodies_disjoint[OF wf c(4,2,3) b(4,2,3) c(6)] by blast
    qed
    then show "umm_load ?s' (q + of_nat i) = umm_load s (q + of_nat i)"
      using load_byte[OF wf a c(4,2,3) i] c(1) by (simp add: umm_load_def)
  qed
qed

subsection \<open>Bytes\<close>

lemma byte_memzero:
  assumes "off < 524288"
  shows "umm_byte (umm_memzero m z len) off = (if z \<le> off \<and> off < z + len then 0 else umm_byte m off)"
proof -
  have k: "off div 2 < 262144" using assms by simp
  have e: "even off \<Longrightarrow> 2 * (off div 2) = off" "odd off \<Longrightarrow> Suc (2 * (off div 2)) = off" by simp_all
  show ?thesis
    by (cases "even off") (auto simp: umm_byte_def umm_memzero_def k Let_def e byte_of_cell)
qed

text \<open>The byte a client writes through a pointer into the heap.\<close>

definition umm_put :: "umm_mem \<Rightarrow> nat \<Rightarrow> u8 \<Rightarrow> umm_mem" where
  "umm_put m off v = umm_of_cells (\<lambda>k.
     let x = umm_cell m k in
     if k \<noteq> off div 2 then x
     else if even off then (x AND 0xFF00) OR ucast v
     else (x AND 0x00FF) OR push_bit 8 (ucast v))"

definition umm_store :: "umm_state \<Rightarrow> u16 \<Rightarrow> u8 \<Rightarrow> umm_state" where
  "umm_store s a v = s\<lparr>umm_blk := umm_put (umm_blk s) (unat (a - umm_heap s)) v\<rparr>"

lemma byte_put:
  assumes "off < 524288"
  shows "umm_byte (umm_put m z v) off = (if off = z then v else umm_byte m off)"
proof -
  have k: "off div 2 < 262144" using assms by simp
  consider "off = z" | "off \<noteq> z" "off div 2 = z div 2" "even off" "odd z"
    | "off \<noteq> z" "off div 2 = z div 2" "odd off" "even z" | "off \<noteq> z" "off div 2 \<noteq> z div 2"
    by (cases "even off"; cases "even z"; cases "off = z"; force elim!: evenE oddE)
  then show ?thesis
    unfolding umm_byte_def umm_put_def cell_of_cells[OF k] Let_def
    by cases (auto simp only: byte_of_cell if_True if_False simp_thms refl split: if_split)
qed

lemma store_writes:
  assumes inv: "umm_inv s" and p: "umm_live s p = Some k" and i: "i < k"
  shows "umm_writes_in s (umm_put (umm_blk s) (unat (p + of_nat i - umm_heap s)) v) p"
    "unat (p + of_nat i - umm_heap s) = unat (p - umm_heap s) + i"
proof -
  from inv p obtain bs fs b e where wf: "umm_wf (umm_blk s) (umm_numblocks s) bs fs"
    and a: "unat (umm_heap s) + 8 * unat (umm_numblocks s) < 65536"
    and b: "p = UMM_DATA s b" "b \<noteq> 0" "b \<noteq> umm_numblocks s - 1" "umm_used (umm_blk s) bs b = Some e"
      "k = 8 * (unat e - unat b) - 4" by (rule live_parts)
  note U = used_block[OF wf b(4,2,3)]
  have o: "unat (p + of_nat j - umm_heap s) = 8 * unat b + 4 + j" if "j < k" for j
    using load_byte(2)[OF wf a b(4,2,3)] that b(1,5) by simp
  have o0: "unat (p - umm_heap s) = 8 * unat b + 4" using o[of 0] U(7) b(5) by simp
  show "unat (p + of_nat i - umm_heap s) = unat (p - umm_heap s) + i" using o[OF i] o0 by simp
  show "umm_writes_in s (umm_put (umm_blk s) (unat (p + of_nat i - umm_heap s)) v) p"
    unfolding umm_writes_in_def p option.case o[OF i] o0
  proof (intro allI impI)
    fix j :: nat assume j: "j < 262144" "\<not> (8 * unat b + 4 \<le> 2 * j \<and> 2 * j + 1 < 8 * unat b + 4 + k)"
    have "j \<noteq> (8 * unat b + 4 + i) div 2"
    proof
      assume "j = (8 * unat b + 4 + i) div 2"
      moreover have "even k" using b(5) by simp
      ultimately show False using j(2) i by presburger
    qed
    then show "umm_cell (umm_put (umm_blk s) (8 * unat b + 4 + i) v) j = umm_cell (umm_blk s) j"
      using j(1) by (simp add: umm_put_def Let_def)
  qed
qed

lemma store_ok:
  assumes inv: "umm_inv s" and p: "umm_live s p = Some k" and i: "i < k"
    and s'_def: "s' = umm_store s (p + of_nat i) v"
  shows "umm_inv s'" "umm_live s' = umm_live s" "umm_same_data s s' ((umm_live s)(p := None))"
    "\<And>j. j < k \<Longrightarrow> umm_load s' (p + of_nat j) = (if j = i then v else umm_load s (p + of_nat j))"
proof -
  note S = store_writes[OF inv p]
  note W = write_ok[OF inv S(1)[OF i, of v]]
  show "umm_inv s'" "umm_live s' = umm_live s" "umm_same_data s s' ((umm_live s)(p := None))"
    unfolding s'_def umm_store_def by (rule W)+
  show "umm_load s' (p + of_nat j) = (if j = i then v else umm_load s (p + of_nat j))" if j: "j < k" for j
  proof -
    have lt: "unat (p + of_nat j - umm_heap s) < 524288" using unat_u16[of "p + of_nat j - umm_heap s"] by simp
    show ?thesis
      unfolding s'_def umm_store_def umm_load_def using S(2)[OF i] S(2)[OF j] lt by (simp add: byte_put)
  qed
qed

end
