(* ===== verification/Umm_Realloc.thy ===== *)
theory Umm_Realloc
  imports Umm_Bytes
begin

section \<open>Reallocation and cleared allocation\<close>

text \<open>
  The cases of \<open>umm_realloc\<close> as steps on the used blocks: growing into the free successor,
  sliding down into the free predecessor, cutting a block and releasing its tail, and moving to a
  new block. Each keeps the halfwords of every other used block.
\<close>

definition body_same :: "umm_mem \<Rightarrow> umm_mem \<Rightarrow> u16 \<Rightarrow> u16 \<Rightarrow> bool" where
  "body_same m m' b e \<longleftrightarrow> (\<forall>k. in_body b e k \<longrightarrow> umm_cell m' k = umm_cell m k)"

lemma body_same_trans: "body_same m m' b e \<Longrightarrow> body_same m' m'' b e \<Longrightarrow> body_same m m'' b e"
  by (simp add: body_same_def)

lemma body_same_refl [simp]: "body_same m m b e"
  by (simp add: body_same_def)

lemma body_same_shorter: "body_same m m' b e \<Longrightarrow> d \<le> e \<Longrightarrow> body_same m m' b d"
  by (auto simp: body_same_def in_body_def word_le_nat_alt)

lemma frame_body:
  assumes "umm_frame m m' H B" and "b \<notin> B" and "\<And>x. b < x \<Longrightarrow> x < e \<Longrightarrow> x \<notin> H \<and> x \<notin> B"
  shows "body_same m m' b e"
  unfolding body_same_def in_body_def using cell_frame[OF assms] by blast

text \<open>
  The effect of a step on the used blocks: the heap stays well formed, the used map is updated
  by \<open>f\<close>, and every used block in \<open>K\<close> keeps its body.
\<close>

definition umm_step :: "umm_mem \<Rightarrow> u16 \<Rightarrow> umm_mem \<Rightarrow> (u16 \<Rightarrow> u16 option) \<Rightarrow> (u16 \<Rightarrow> u16 option) \<Rightarrow> bool" where
  "umm_step m n m' used' keep \<longleftrightarrow>
     (\<exists>bs' fs'. umm_wf m' n bs' fs' \<and> umm_used m' bs' = used') \<and>
     (\<forall>b e. b \<noteq> 0 \<longrightarrow> b \<noteq> n - 1 \<longrightarrow> keep b = Some e \<longrightarrow> body_same m m' b e)"

lemma free_block_step:
  assumes wf: "umm_wf m n bs fs" and c: "umm_used m bs c = Some e" "c \<noteq> 0" "c \<noteq> n - 1"
  shows "umm_step m n (umm_free_block m c) ((umm_used m bs)(c := None)) ((umm_used m bs)(c := None))"
proof -
  note W = wfD[OF wf]
  note U = used_block[OF wf c]
  note F = flistD[OF W(1,2)]
  obtain m' bs' fs' where r: "umm_free_block m c = m'" "umm_wf m' n bs' fs'"
    "umm_used m' bs' = (umm_used m bs)(c := None)"
    "umm_frame m m' (set bs) (insert 0 (insert c (set fs)))"
    using free_block_ok[OF wf U(1) c(2,3) U(2)] by blast
  have "body_same m m' b d" if b: "b \<noteq> 0" "b \<noteq> n - 1" "((umm_used m bs)(c := None)) b = Some d" for b d
  proof (rule frame_body[OF r(4)])
    have ub: "umm_used m bs b = Some d" "b \<noteq> c" using b(3) by (auto split: if_splits)
    note V = used_block[OF wf ub(1) b(1,2)]
    show "b \<notin> insert 0 (insert c (set fs))" using b(1) ub(2) V(2) F(3) by auto
    show "x \<notin> set bs \<and> x \<notin> insert 0 (insert c (set fs))" if "b < x" "x < d" for x
      using chain_step(5)[OF W(1) V(1) b(2), of x] that V(3) F(3) U(1) chainD(12)[OF W(1)] by auto
  qed
  then show ?thesis using r(1-3) unfolding umm_step_def by blast
qed

lemma free_step:
  assumes wf: "umm_wf m n bs fs" and c: "umm_used m bs c = Some e" "c \<noteq> 0" "c \<noteq> n - 1"
    and s: "umm_blk s = m" "umm_block_of s ptr = c"
  shows "\<exists>m'. umm_free_core s ptr = s\<lparr>umm_blk := m'\<rparr> \<and>
    umm_step m n m' ((umm_used m bs)(c := None)) ((umm_used m bs)(c := None))"
  using free_block_step[OF wf c] s by (auto simp: umm_free_core_def)

lemma malloc_block_step:
  assumes wf: "umm_wf m n bs fs" and k: "0 < k" "k < 0x7FFF"
  shows "(\<exists>c m'. umm_malloc_block m k = Some (m', Some c) \<and> c \<in> set fs \<and> k \<le> blksize m c \<and>
       umm_used m bs c = None \<and> umm_step m n m' ((umm_used m bs)(c := Some (c + k))) (umm_used m bs)) \<or>
     umm_malloc_block m k = Some (m, None) \<and> (\<forall>b \<in> set fs. blksize m b < k)"
  using malloc_block_ok[OF wf k]
proof (elim disjE exE conjE)
  fix c m' bs' fs'
  assume r: "umm_malloc_block m k = Some (m', Some c)" and c: "c \<in> set fs" "k \<le> blksize m c"
    and wf': "umm_wf m' n bs' fs'" and u: "umm_used m' bs' = (umm_used m bs)(c := Some (c + k))"
    and fr: "umm_frame m m' (set bs \<union> {c<..<blkno m c}) (insert 0 (set fs) \<union> {c<..<blkno m c})"
  note W = wfD[OF wf]
  note F = flistD[OF W(1,2)]
  have cb: "c \<in> set bs" "blkfree m c" "c \<noteq> 0" "c \<noteq> n - 1" using F(5)[OF c(1)] by auto
  have "body_same m m' b d" if b: "b \<noteq> 0" "b \<noteq> n - 1" "umm_used m bs b = Some d" for b d
  proof (rule frame_body[OF fr])
    note V = used_block[OF wf b(3,1,2)]
    have bc: "b \<noteq> c" using V(2) cb(2) by auto
    have dis: "x \<notin> {c<..<blkno m c}" if "b \<le> x" "x < d" for x
      using chain_disjoint[OF W(1) V(1) b(2) cb(1,4) that(1)] that(2) V(3) bc
      by (auto simp: order.strict_implies_order)
    show "b \<notin> insert 0 (set fs) \<union> {c<..<blkno m c}" using b(1) V(2) F(3) dis[OF order.refl V(4)] by auto
    show "x \<notin> set bs \<union> {c<..<blkno m c} \<and> x \<notin> insert 0 (set fs) \<union> {c<..<blkno m c}" if "b < x" "x < d" for x
      using chain_step(5)[OF W(1) V(1) b(2), of x] that V(3) F(3) chainD(12)[OF W(1)] dis[of x] by auto
  qed
  then have "umm_step m n m' ((umm_used m bs)(c := Some (c + k))) (umm_used m bs)"
    unfolding umm_step_def using wf' u by blast
  moreover have "umm_used m bs c = None" using cb(2) by (simp add: umm_used_def)
  ultimately show ?thesis using r c by blast
qed blast

text \<open>Growing into the free successor.\<close>

lemma up_step:
  assumes wf: "umm_wf m n bs fs" and c: "umm_used m bs c = Some d" "c \<noteq> 0" "c \<noteq> n - 1"
    and d: "blkfree m d" and m': "m' = umm_assimilate_up m c"
  shows "umm_step m n m' ((umm_used m bs)(c := Some (blkno m d))) (umm_used m bs)"
    "UMM_PBLOCK m' c = UMM_PBLOCK m c" "blkno m' c = blkno m d"
    "blkfree m' (UMM_PBLOCK m c) = blkfree m (UMM_PBLOCK m c)"
proof -
  note W = wfD[OF wf]
  note U = used_block[OF wf c] and F = flistD[OF W(1,2)]
  note S = chain_step[OF W(1) U(1) c(3), folded U(3)]
  obtain bs' fs' where 1: "umm_chain m' n bs'" "umm_flist m' bs' fs'" "set bs' = set bs - {d}"
      "blkno m' = (blkno m)(c := blkno m d)" "blkfree m' = (blkfree m)(d := False)"
      "umm_frame m m' (set bs) (insert 0 (set fs))"
    using assimilate_up_step[OF W(1,2) U(1) c(3) U(2) U(3) m'] d by auto
  have dc: "d \<noteq> c" using S(2) by auto
  have cc: "c \<in> set bs'" using 1(3) U(1) dc by simp
  show pb: "UMM_PBLOCK m' c = UMM_PBLOCK m c"
  proof -
    have "UMM_PBLOCK m c \<in> set bs'" "UMM_PBLOCK m c \<noteq> n - 1" "UMM_PBLOCK m c \<noteq> c"
      using chain_back[OF W(1) U(1) c(2)] 1(3) S(2) U(1) by auto
    moreover have "blkno m' (UMM_PBLOCK m c) = c"
      using chain_back(3)[OF W(1) U(1) c(2)] calculation(3) 1(4) by simp
    ultimately show ?thesis using chain_step(3)[OF 1(1), of "UMM_PBLOCK m c"] by simp
  qed
  show "blkno m' c = blkno m d" using 1(4) by simp
  have "UMM_PBLOCK m c < c" "c < d" using chain_back(2)[OF W(1) U(1) c(2)] S(2) by auto
  then show "blkfree m' (UMM_PBLOCK m c) = blkfree m (UMM_PBLOCK m c)" using 1(5) by auto
  have co: "umm_coalesced m' bs'"
  proof (rule coalescedI)
    fix x assume x: "x \<in> set bs'" "blkfree m' x"
    then have "x \<noteq> c" "x \<in> set bs" "blkfree m x" using 1(3,5) U(2) by (auto split: if_splits)
    then show "\<not> blkfree m' (blkno m' x)" using coalescedD[OF W(3)] 1(4,5) by simp
  qed
  have used: "umm_used m' bs' = (umm_used m bs)(c := Some (blkno m d))"
    using 1(3,4,5) U(1,2) dc d by (auto simp: umm_used_def fun_eq_iff split: if_splits)
  have "body_same m m' b e" if b: "b \<noteq> 0" "b \<noteq> n - 1" "umm_used m bs b = Some e" for b e
  proof (rule frame_body[OF 1(6)])
    note V = used_block[OF wf b(3,1,2)]
    show "b \<notin> insert 0 (set fs)" using b(1) V(2) F(3) by auto
    show "x \<notin> set bs \<and> x \<notin> insert 0 (set fs)" if "b < x" "x < e" for x
      using chain_step(5)[OF W(1) V(1) b(2), of x] that V(3) F(3) chainD(12)[OF W(1)] by auto
  qed
  then show "umm_step m n m' ((umm_used m bs)(c := Some (blkno m d))) (umm_used m bs)"
    unfolding umm_step_def using 1(1,2) co used by (auto simp: umm_wf_def)
qed

text \<open>Cutting a block to its first \<open>k\<close> blocks and releasing the rest.\<close>

lemma cut_step:
  assumes wf: "umm_wf m n bs fs" and c: "umm_used m bs c = Some e" "c \<noteq> 0" "c \<noteq> n - 1"
    and k: "0 < k" "k < e - c" and s: "umm_blk s = umm_split_block m c k 0" "umm_block_of s ptr = c + k"
  shows "\<exists>m'. umm_free_core s ptr = s\<lparr>umm_blk := m'\<rparr> \<and>
    umm_step m n m' ((umm_used m bs)(c := Some (c + k))) ((umm_used m bs)(c := Some (c + k)))"
proof -
  note W = wfD[OF wf]
  note U = used_block[OF wf c] and F = flistD[OF W(1,2)]
  let ?m1 = "umm_split_block m c k 0" and ?d = "c + k"
  note S = split_step[OF W(1) U(1) c(3) k(1) k(2)[unfolded U(3)] refl disjI1[OF refl] refl]
  obtain bs1 where 1: "umm_chain ?m1 n bs1" "set bs1 = insert ?d (set bs)" using S(8) by blast
  have bf: "blkfree ?m1 x = blkfree m x" if "x \<in> set bs" for x using that S(3,5) U(2) by auto
  have nfd: "\<not> blkfree ?m1 ?d" using S(5) by simp
  have fl: "umm_flist ?m1 bs1 fs"
    by (rule flist_same[OF W(2) S(6,7)]) (use 1(2) bf nfd F(3) in auto)
  have co: "umm_coalesced ?m1 bs1"
  proof (rule coalescedI)
    fix x assume x: "x \<in> set bs1" "blkfree ?m1 x"
    then have xb: "x \<in> set bs" "x \<noteq> c" "x \<noteq> ?d" "blkfree m x" using 1(2) nfd U(2) bf by auto
    then have "x \<noteq> n - 1" using chainD(9)[OF W(1)] by auto
    then have "blkno m x \<in> set bs" using chain_step(1)[OF W(1) xb(1)] by blast
    then show "\<not> blkfree ?m1 (blkno ?m1 x)" using S(4) xb bf coalescedD[OF W(3) xb(1,4)] by simp
  qed
  have wf1: "umm_wf ?m1 n bs1 fs" using 1(1) fl co by (simp add: umm_wf_def)
  have u1: "umm_used ?m1 bs1 = (umm_used m bs)(c := Some ?d, ?d := Some e)"
    using S(3,4) nfd 1(2) bf U by (auto simp: umm_used_def fun_eq_iff)
  have d: "umm_used ?m1 bs1 ?d = Some e" "?d \<noteq> 0" "?d \<noteq> n - 1"
    using u1 S(3) chainD(12,13)[OF W(1)] by auto
  obtain m' where r: "umm_free_core s ptr = s\<lparr>umm_blk := m'\<rparr>"
    "umm_step ?m1 n m' ((umm_used ?m1 bs1)(?d := None)) ((umm_used ?m1 bs1)(?d := None))"
    using free_step[OF wf1 d s] by blast
  have dn: "umm_used m bs ?d = None" using S(3) by (simp add: umm_used_def)
  have u2: "(umm_used ?m1 bs1)(?d := None) = (umm_used m bs)(c := Some ?d)"
    unfolding u1 using dn S(1) by (auto simp: fun_eq_iff)
  have "body_same m m' b x" if b: "b \<noteq> 0" "b \<noteq> n - 1" "((umm_used m bs)(c := Some ?d)) b = Some x" for b x
  proof (rule body_same_trans)
    show "body_same ?m1 m' b x" using r(2) b unfolding u2 by (simp add: umm_step_def)
    show "body_same m ?m1 b x"
    proof (rule frame_body[OF S(9)])
      fix y assume y: "b < y" "y < x"
      have bb: "b \<in> set bs" "x \<le> blkno m b" "y \<noteq> ?d"
      proof -
        have "umm_used ?m1 bs1 b = Some x" using u2 b(3) dn by (metis fun_upd_apply option.distinct(1))
        note V = used_block[OF wf1 this b(1,2)]
        show "y \<noteq> ?d" using chain_step(5)[OF 1(1) V(1) b(2), of y] y V(3) 1(2) by auto
        show "b \<in> set bs" "x \<le> blkno m b"
          using b(3) U S(2) by (auto simp: umm_used_def split: if_splits)
      qed
      then show "y \<notin> insert ?d (set bs) \<and> y \<notin> {}"
        using chain_step(5)[OF W(1) bb(1) b(2), of y] y by auto
    qed auto
  qed
  then show ?thesis using r unfolding umm_step_def u2 by blast
qed

text \<open>Sliding down into the free predecessor, with the data.\<close>

lemma cell_memmove:
  "k < 262144 \<Longrightarrow> umm_cell (umm_memmove m dst src len) k =
     (if dst \<le> k \<and> k < dst + len then umm_cell m (src + (k - dst)) else umm_cell m k)"
  by (simp add: umm_memmove_def)

lemma down_step:
  assumes wf: "umm_wf m n bs fs" and c: "umm_used m bs c = Some e" "c \<noteq> 0" "c \<noteq> n - 1"
    and a: "a = UMM_PBLOCK m c" "blkfree m a"
    and m2: "m2 = fst (umm_assimilate_down (umm_disconnect_from_free_list m a) c 0)"
    and m': "m' = umm_memmove m2 (4 * unat a + 2) (4 * unat c + 2) len"
    and len: "len \<le> 4 * (unat e - unat c) - 2"
  shows "snd (umm_assimilate_down (umm_disconnect_from_free_list m a) c 0) = a"
    "umm_step m n m' ((umm_used m bs)(c := None, a := Some e)) ((umm_used m bs)(c := None))"
    "\<And>j. j < len \<Longrightarrow> umm_cell m' (4 * unat a + 2 + j) = umm_cell m (4 * unat c + 2 + j)"
    "a \<noteq> 0" "a \<noteq> n - 1" "a < c"
proof -
  note W = wfD[OF wf]
  note U = used_block[OF wf c] and F = flistD[OF W(1,2)]
  note B = chain_back[OF W(1) U(1) c(2), folded a(1)]
  let ?m1 = "umm_disconnect_from_free_list m a"
  note D = disconnect_step[OF W(1,2) B(1) a(2) refl]
  have c1: "\<not> blkfree ?m1 c" "a = UMM_PBLOCK ?m1 c" "blkfree ?m1 a = (0 \<noteq> (0::u16))"
    using D(4,5) U(2) a(1) by auto
  note A = assimilate_down_step[OF D(1,2) U(1) c(2,3) c1 disjI1[OF refl] m2]
  show "snd (umm_assimilate_down ?m1 c 0) = a" by (rule A)
  show a0: "a \<noteq> 0" "a \<noteq> n - 1" using a(2) chainD(8,9)[OF W(1)] by auto
  show ac: "a < c" by (rule B)
  have co: "umm_coalesced m2 (remove1 c bs)"
  proof (rule coalescedI)
    fix x assume x: "x \<in> set (remove1 c bs)" "blkfree m2 x"
    then have "x \<noteq> a" "x \<in> set bs" "blkfree m x"
      using A(5) D(4) chainD(11)[OF W(1)] by (auto split: if_splits)
    then show "\<not> blkfree m2 (blkno m2 x)" using coalescedD[OF W(3)] A(4,5) D(3,4) by simp
  qed
  have wf2: "umm_wf m2 n (remove1 c bs) (remove1 a fs)" using A(2,3) co by (simp add: umm_wf_def)
  have u2: "umm_used m2 (remove1 c bs) = (umm_used m bs)(c := None, a := Some e)"
    using A(4,5) D(3,4) B U chainD(11)[OF W(1)] by (auto simp: umm_used_def fun_eq_iff)
  have fr: "umm_frame m m2 (set bs) (insert 0 (set fs))"
    using frame_trans[OF D(6) A(8)] by (rule frame_mono) auto
  have same2: "body_same m m2 b x" if b: "b \<noteq> 0" "b \<noteq> n - 1" "umm_used m bs b = Some x" for b x
  proof (rule frame_body[OF fr])
    note V = used_block[OF wf b(3,1,2)]
    show "b \<notin> insert 0 (set fs)" using b(1) V(2) F(3) by auto
    show "y \<notin> set bs \<and> y \<notin> insert 0 (set fs)" if "b < y" "y < x" for y
      using chain_step(5)[OF W(1) V(1) b(2), of y] that V(3) F(3) chainD(12)[OF W(1)] by auto
  qed
  have ua: "umm_used m2 (remove1 c bs) a = Some e" using u2 by simp
  have ne: "unat a < unat c" "unat c < unat e" using ac U(4) by (simp_all add: word_less_nat_alt)
  have inb: "in_body a e (4 * unat a + 2 + j)" if "j < len" for j
    using that len ne by (simp add: in_body_def)
  have out: "umm_cell m' k = umm_cell m2 k" if "k < 262144" "\<not> in_body a e k" for k
    using that len ne unfolding m' cell_memmove[OF that(1)] by (auto simp: in_body_def)
  note BW = body_write[OF wf2 ua a0 out]
  show "umm_cell m' (4 * unat a + 2 + j) = umm_cell m (4 * unat c + 2 + j)" if j: "j < len" for j
  proof -
    have "in_body c e (4 * unat c + 2 + j)" using j len ne by (simp add: in_body_def)
    then have "umm_cell m2 (4 * unat c + 2 + j) = umm_cell m (4 * unat c + 2 + j)"
      using same2[OF c(2,3,1)] by (simp add: body_same_def)
    then show ?thesis using j unfolding m' cell_memmove[OF body_bound[OF inb[OF j]]] by simp
  qed
  have "body_same m m' b x" if b: "b \<noteq> 0" "b \<noteq> n - 1" "((umm_used m bs)(c := None)) b = Some x" for b x
  proof (rule body_same_trans)
    have ub: "umm_used m bs b = Some x" "b \<noteq> c" using b(3) by (auto split: if_splits)
    show "body_same m m2 b x" by (rule same2[OF b(1,2) ub(1)])
    have ba: "b \<noteq> a" using used_block(2)[OF wf ub(1) b(1,2)] a(2) by auto
    then have u2b: "umm_used m2 (remove1 c bs) b = Some x" using u2 ub by simp
    show "body_same m2 m' b x"
      unfolding body_same_def
      using bodies_disjoint[OF wf2 u2b b(1,2) ua a0 ba] out[OF body_bound] by blast
  qed
  then show "umm_step m n m' ((umm_used m bs)(c := None, a := Some e)) ((umm_used m bs)(c := None))"
    unfolding umm_step_def using BW u2 by auto
qed

subsection \<open>Placing the block\<close>

text \<open>\<open>umm_moved\<close>: the body of the block at \<open>c\<close> is found, as far as \<open>len\<close> halfwords, at \<open>q\<close>.\<close>

definition umm_moved :: "umm_mem \<Rightarrow> u16 \<Rightarrow> umm_mem \<Rightarrow> u16 \<Rightarrow> nat \<Rightarrow> bool" where
  "umm_moved m c m' q len \<longleftrightarrow>
     (\<forall>j < len. umm_cell m' (4 * unat q + 2 + j) = umm_cell m (4 * unat c + 2 + j))"

definition umm_placed :: "umm_mem \<Rightarrow> u16 \<Rightarrow> u16 list \<Rightarrow> u16 \<Rightarrow> u16 \<Rightarrow> umm_mem \<Rightarrow> u16 \<Rightarrow> u16 \<Rightarrow> bool" where
  "umm_placed m n bs c e m' q f \<longleftrightarrow>
     q \<noteq> 0 \<and> q \<noteq> n - 1 \<and> q < f \<and> ((umm_used m bs)(c := None)) q = None \<and>
     umm_step m n m' ((umm_used m bs)(c := None, q := Some f)) ((umm_used m bs)(c := None)) \<and>
     umm_moved m c m' q (4 * min (unat e - unat c) (unat f - unat q) - 2)"

lemma moved_of_body: "body_same m m' c e \<Longrightarrow> len \<le> 4 * (unat e - unat c) - 2 \<Longrightarrow> umm_moved m c m' c len"
  by (auto simp: umm_moved_def body_same_def in_body_def)

lemma step_weaken:
  "umm_step m n m' u k \<Longrightarrow> (\<And>b e. k' b = Some e \<Longrightarrow> k b = Some e) \<Longrightarrow> umm_step m n m' u k'"
  unfolding umm_step_def by blast

lemma placed_same:
  assumes wf: "umm_wf m n bs fs" and c: "umm_used m bs c = Some e" "c \<noteq> 0" "c \<noteq> n - 1"
  shows "umm_placed m n bs c e m c e"
proof -
  have "(umm_used m bs)(c := None, c := Some e) = umm_used m bs" using c by auto
  then show ?thesis using used_block(4)[OF wf c] c wf
    by (auto simp: umm_placed_def umm_step_def umm_moved_def)
qed

lemma placed_up:
  assumes wf: "umm_wf m n bs fs" and c: "umm_used m bs c = Some e" "c \<noteq> 0" "c \<noteq> n - 1"
    and e: "blkfree m e"
  shows "umm_placed m n bs c e (umm_assimilate_up m c) c (blkno m e)"
proof -
  note W = wfD[OF wf]
  note U = used_block[OF wf c] and S = up_step[OF wf c e refl]
  have en: "e \<noteq> n - 1" "e \<in> set bs" using e chainD(9)[OF W(1)] chain_step(1)[OF W(1) U(1) c(3)] U(3) by auto
  have lt: "c < blkno m e" using U(4) chain_step(2)[OF W(1) en(2,1)] by simp
  have b: "body_same m (umm_assimilate_up m c) c e" using S(1) c by (simp add: umm_step_def)
  have "umm_step m n (umm_assimilate_up m c) ((umm_used m bs)(c := Some (blkno m e))) ((umm_used m bs)(c := None))"
    by (rule step_weaken[OF S(1)]) (auto split: if_splits)
  then show ?thesis using c lt moved_of_body[OF b] by (simp add: umm_placed_def)
qed

lemma placed_down:
  assumes wf: "umm_wf m n bs fs" and c: "umm_used m bs c = Some e" "c \<noteq> 0" "c \<noteq> n - 1"
    and a: "a = UMM_PBLOCK m c" "blkfree m a"
    and m2: "m2 = fst (umm_assimilate_down (umm_disconnect_from_free_list m a) c 0)"
    and m': "m' = umm_memmove m2 (4 * unat a + 2) (4 * unat c + 2) (4 * (unat e - unat c) - 2)"
  shows "umm_placed m n bs c e m' a e"
proof -
  note U = used_block[OF wf c]
  note D = down_step[OF wf c a m2 m' order.refl]
  have an: "umm_used m bs a = None" using a(2) by (simp add: umm_used_def)
  then show ?thesis using D U(4) unfolding umm_placed_def umm_moved_def
    by (auto simp: fun_upd_def intro: order.strict_trans)
qed

lemma placed_both:
  assumes wf: "umm_wf m n bs fs" and c: "umm_used m bs c = Some e" "c \<noteq> 0" "c \<noteq> n - 1"
    and e: "blkfree m e" and a: "a = UMM_PBLOCK m c" "blkfree m a"
    and m0: "m0 = umm_assimilate_up m c"
    and m2: "m2 = fst (umm_assimilate_down (umm_disconnect_from_free_list m0 a) c 0)"
    and m': "m' = umm_memmove m2 (4 * unat a + 2) (4 * unat c + 2) (4 * (unat e - unat c) - 2)"
  shows "umm_placed m n bs c e m' a (blkno m e)"
    "snd (umm_assimilate_down (umm_disconnect_from_free_list m0 a) c 0) = a"
proof -
  note W = wfD[OF wf]
  note U = used_block[OF wf c] and S = up_step[OF wf c e m0]
  have en: "e \<noteq> n - 1" "e \<in> set bs" using e chainD(9)[OF W(1)] chain_step(1)[OF W(1) U(1) c(3)] U(3) by auto
  have lt: "c < blkno m e" "e < blkno m e" using U(4) chain_step(2)[OF W(1) en(2,1)] by simp_all
  obtain bs0 fs0 where 0: "umm_wf m0 n bs0 fs0" "umm_used m0 bs0 = (umm_used m bs)(c := Some (blkno m e))"
    using S(1) unfolding umm_step_def by blast
  have c0: "umm_used m0 bs0 c = Some (blkno m e)" using 0(2) by simp
  have a0: "a = UMM_PBLOCK m0 c" "blkfree m0 a" using S(2,4) a by auto
  have len: "4 * (unat e - unat c) - 2 \<le> 4 * (unat (blkno m e) - unat c) - 2"
    using lt by (simp add: word_less_nat_alt)
  note D = down_step[OF 0(1) c0 c(2,3) a0 m2 m' len]
  show "snd (umm_assimilate_down (umm_disconnect_from_free_list m0 a) c 0) = a" by (rule D)
  have an: "umm_used m bs a = None" using a(2) by (simp add: umm_used_def)
  have b0: "body_same m m0 b x" if "b \<noteq> 0" "b \<noteq> n - 1" "umm_used m bs b = Some x" for b x
    using S(1) that by (simp add: umm_step_def)
  have st: "umm_step m n m' ((umm_used m bs)(c := None, a := Some (blkno m e))) ((umm_used m bs)(c := None))"
    unfolding umm_step_def
  proof (intro conjI allI impI)
    show "\<exists>bs' fs'. umm_wf m' n bs' fs' \<and> umm_used m' bs' = (umm_used m bs)(c := None, a := Some (blkno m e))"
      using D(2) unfolding umm_step_def 0(2) by simp
    fix b x assume b: "b \<noteq> 0" "b \<noteq> n - 1" "((umm_used m bs)(c := None)) b = Some x"
    then have "body_same m m0 b x" using b0 by (auto split: if_splits)
    moreover have "body_same m0 m' b x" using D(2) b unfolding umm_step_def 0(2) by (auto split: if_splits)
    ultimately show "body_same m m' b x" by (rule body_same_trans)
  qed
  have mv: "umm_moved m c m' a (4 * min (unat e - unat c) (unat (blkno m e) - unat a) - 2)"
    unfolding umm_moved_def
  proof (intro allI impI)
    fix j assume "j < 4 * min (unat e - unat c) (unat (blkno m e) - unat a) - 2"
    then have j: "j < 4 * (unat e - unat c) - 2" by linarith
    then have "in_body c e (4 * unat c + 2 + j)" using U(4) by (simp add: in_body_def word_less_nat_alt)
    then show "umm_cell m' (4 * unat a + 2 + j) = umm_cell m (4 * unat c + 2 + j)"
      using D(3)[OF j] b0[OF c(2,3,1)] by (simp add: body_same_def)
  qed
  have "a < blkno m e" using D(6) lt(1) by simp
  then show "umm_placed m n bs c e m' a (blkno m e)"
    using st mv D(4,5) an by (simp add: umm_placed_def)
qed

text \<open>Cutting the placed block to the size asked for.\<close>

lemma placed_cut:
  assumes wf: "umm_wf m n bs fs" and c: "umm_used m bs c = Some e" "c \<noteq> 0" "c \<noteq> n - 1"
    and p: "umm_placed m n bs c e m' q f" and k: "0 < k" "k < f - q"
    and s: "umm_blk s = umm_split_block m' q k 0" "umm_block_of s ptr = q + k"
  shows "\<exists>m''. umm_free_core s ptr = s\<lparr>umm_blk := m''\<rparr> \<and> umm_placed m n bs c e m'' q (q + k)"
proof -
  let ?u = "(umm_used m bs)(c := None)"
  have P: "q \<noteq> 0" "q \<noteq> n - 1" "q < f" "?u q = None" "umm_step m n m' (?u(q := Some f)) ?u"
    "umm_moved m c m' q (4 * min (unat e - unat c) (unat f - unat q) - 2)"
    using p by (auto simp: umm_placed_def simp del: fun_upd_apply)
  obtain bs' fs' where 1: "umm_wf m' n bs' fs'" "umm_used m' bs' = ?u(q := Some f)"
    using P(5) unfolding umm_step_def by blast
  have q: "umm_used m' bs' q = Some f" using 1(2) by simp
  obtain m'' where r: "umm_free_core s ptr = s\<lparr>umm_blk := m''\<rparr>"
    "umm_step m' n m'' ((umm_used m' bs')(q := Some (q + k))) ((umm_used m' bs')(q := Some (q + k)))"
    using cut_step[OF 1(1) q P(1,2) k s] by blast
  have u2: "(umm_used m' bs')(q := Some (q + k)) = ?u(q := Some (q + k))" unfolding 1(2) by simp
  have lt: "q < q + k" "q + k < f" using word_less_add_between[OF k(1) P(3) k(2)] by auto
  have st: "umm_step m n m'' (?u(q := Some (q + k))) ?u"
    unfolding umm_step_def
  proof (intro conjI allI impI)
    show "\<exists>bs' fs'. umm_wf m'' n bs' fs' \<and> umm_used m'' bs' = ?u(q := Some (q + k))"
      using r(2) unfolding umm_step_def u2 by blast
    fix b x assume b: "b \<noteq> 0" "b \<noteq> n - 1" "?u b = Some x"
    then have "(?u(q := Some (q + k))) b = Some x" using P(4) by (cases "b = q") auto
    then have "body_same m' m'' b x" using r(2) b(1,2) unfolding umm_step_def u2 by blast
    moreover have "body_same m m' b x" using P(5) b unfolding umm_step_def by blast
    ultimately show "body_same m m'' b x" by (blast intro: body_same_trans)
  qed
  have bq: "body_same m' m'' q (q + k)" using r(2) P(1,2) unfolding umm_step_def u2 by simp
  have mv: "umm_moved m c m'' q (4 * min (unat e - unat c) (unat (q + k) - unat q) - 2)"
    unfolding umm_moved_def
  proof (intro allI impI)
    fix j assume j: "j < 4 * min (unat e - unat c) (unat (q + k) - unat q) - 2"
    have l: "unat q < unat (q + k)" "unat (q + k) < unat f" using lt by (simp_all add: word_less_nat_alt)
    have "in_body q (q + k) (4 * unat q + 2 + j)" using j l unfolding in_body_def by linarith
    moreover have "j < 4 * min (unat e - unat c) (unat f - unat q) - 2" using j l by linarith
    ultimately show "umm_cell m'' (4 * unat q + 2 + j) = umm_cell m (4 * unat c + 2 + j)"
      using bq P(6) by (simp add: body_same_def umm_moved_def)
  qed
  show ?thesis using r(1) st mv P(1,2,4) lt(1) unfolding umm_placed_def by blast
qed

subsection \<open>From blocks to addresses\<close>

lemma umm_live_update2:
  assumes wf: "umm_wf (umm_blk s) (umm_numblocks s) bs fs" and wf': "umm_wf m' (umm_numblocks s) bs' fs'"
    and a: "unat (umm_heap s) + 8 * unat (umm_numblocks s) < 65536"
    and u: "umm_used m' bs' = (umm_used (umm_blk s) bs)(c := v, q := w)"
    and c: "c < umm_numblocks s" "c \<noteq> 0" "c \<noteq> umm_numblocks s - 1"
    and q: "q < umm_numblocks s" "q \<noteq> 0" "q \<noteq> umm_numblocks s - 1"
  shows "umm_live (s\<lparr>umm_blk := m'\<rparr>) =
     (umm_live s)(UMM_DATA s c := map_option (\<lambda>e. 8 * (unat e - unat c) - 4) v,
                  UMM_DATA s q := map_option (\<lambda>e. 8 * (unat e - unat q) - 4) w)"
proof (rule ext)
  fix p
  let ?s' = "s\<lparr>umm_blk := m'\<rparr>"
  have d: "UMM_DATA ?s' = UMM_DATA s" "umm_block_of ?s' = umm_block_of s"
    by (simp_all add: fun_eq_iff UMM_DATA_def umm_block_of_def)
  have bl: "umm_block_list ?s' = bs'" "umm_block_list s = bs" using wf wf' wf_lists by auto
  have c4: "umm_block_of s (UMM_DATA s b) = b" if "b < umm_numblocks s" for b
    by (rule umm_addr(2)[OF a that, of 0]) (use that in \<open>simp add: word_less_nat_alt\<close>)
  show "umm_live ?s' p = ((umm_live s)(UMM_DATA s c := map_option (\<lambda>e. 8 * (unat e - unat c) - 4) v,
      UMM_DATA s q := map_option (\<lambda>e. 8 * (unat e - unat q) - 4) w)) p"
    unfolding umm_live_def Let_def UMM_BLOCK_LAST_def d bl using c q c4[OF c(1)] c4[OF q(1)] u by auto
qed

lemma half_less: "i < 8 * x - 4 \<Longrightarrow> i < 8 * y - 4 \<Longrightarrow> i div 2 < 4 * min x y - (2 :: nat)"
  by (auto simp: min_def)

lemma placed_finish:
  assumes inv: "umm_inv s" and wf: "umm_wf (umm_blk s) (umm_numblocks s) bs fs"
    and c: "umm_used (umm_blk s) bs c = Some e" "c \<noteq> 0" "c \<noteq> umm_numblocks s - 1"
    and p: "umm_placed (umm_blk s) (umm_numblocks s) bs c e m' q f"
  defines "k \<equiv> 8 * (unat e - unat c) - 4" and "k' \<equiv> 8 * (unat f - unat q) - 4"
  shows "umm_inv (s\<lparr>umm_blk := m'\<rparr>)"
    "umm_live (s\<lparr>umm_blk := m'\<rparr>) = (umm_live s)(UMM_DATA s c := None, UMM_DATA s q := Some k')"
    "umm_same_data s (s\<lparr>umm_blk := m'\<rparr>) ((umm_live s)(UMM_DATA s c := None))"
    "\<And>i. i < min k k' \<Longrightarrow> umm_load (s\<lparr>umm_blk := m'\<rparr>) (UMM_DATA s q + of_nat i) = umm_load s (UMM_DATA s c + of_nat i)"
    "umm_live s (UMM_DATA s q) = None \<or> q = c" "UMM_DATA s q \<noteq> 0"
proof -
  let ?n = "umm_numblocks s" and ?m = "umm_blk s" and ?s' = "s\<lparr>umm_blk := m'\<rparr>"
  let ?u = "(umm_used ?m bs)(c := None)"
  have a: "unat (umm_heap s) + 8 * unat ?n < 65536" and z: "blkno ?m 0 = 1" using inv unfolding umm_inv_iff by auto
  have P: "q \<noteq> 0" "q \<noteq> ?n - 1" "q < f" "?u q = None" "umm_step ?m ?n m' (?u(q := Some f)) ?u"
    "umm_moved ?m c m' q (4 * min (unat e - unat c) (unat f - unat q) - 2)"
    using p by (auto simp: umm_placed_def simp del: fun_upd_apply)
  obtain bs' fs' where 1: "umm_wf m' ?n bs' fs'" "umm_used m' bs' = ?u(q := Some f)"
    using P(5) unfolding umm_step_def by blast
  have q: "umm_used m' bs' q = Some f" using 1(2) by simp
  note U = used_block[OF wf c] and V = used_block[OF 1(1) q P(1,2)]
  show lv: "umm_live ?s' = (umm_live s)(UMM_DATA s c := None, UMM_DATA s q := Some k')"
    using umm_live_update2[OF wf 1(1) a 1(2) U(5) c(2,3) V(5) P(1,2)] by (simp add: k'_def)
  have "umm_used m' bs' 0 = umm_used ?m bs 0" using 1(2) c(2) P(1) by simp
  then have "blkno m' 0 = blkno ?m 0"
    using chainD(8,12)[OF wfD(1)[OF wf]] chainD(8,12)[OF wfD(1)[OF 1(1)]] by (simp add: umm_used_def)
  then show inv': "umm_inv ?s'" using inv 1(1) unfolding umm_inv_iff by auto
  have a': "unat (umm_heap ?s') + 8 * unat (umm_numblocks ?s') < 65536" using a by simp
  have wf': "umm_wf (umm_blk ?s') (umm_numblocks ?s') bs' fs'" using 1(1) by simp
  have d: "UMM_DATA ?s' = UMM_DATA s" by (simp add: fun_eq_iff UMM_DATA_def)
  have qn: "0 < 8 * (unat ?n - unat q) - 4" using V(5) by (simp add: word_less_nat_alt)
  have qb: "umm_block_of s (UMM_DATA s q) = q" using umm_addr(2)[OF a V(5) qn] .
  show "UMM_DATA s q \<noteq> 0" using umm_addr(3)[OF a V(5) qn] .
  show "umm_live s (UMM_DATA s q) = None \<or> q = c"
    using P(4) by (auto simp: live_of_used[OF wf a P(1,2) V(5)] split: if_splits)
  show "umm_same_data s ?s' ((umm_live s)(UMM_DATA s c := None))"
    unfolding umm_same_data_def
  proof (intro allI impI)
    fix r j i assume r: "((umm_live s)(UMM_DATA s c := None)) r = Some j" "i < j"
    then have "umm_live s r = Some j" "r \<noteq> UMM_DATA s c" by (auto split: if_splits)
    then obtain b x where b: "r = UMM_DATA s b" "b \<noteq> 0" "b \<noteq> ?n - 1"
      "umm_used ?m bs b = Some x" "j = 8 * (unat x - unat b) - 4" "b \<noteq> c"
      unfolding umm_live_Some[OF wf a] by blast
    note B = used_block[OF wf b(4,2,3)]
    have lt: "unat b < unat x" using B(4) by (simp add: word_less_nat_alt)
    have i: "i < 8 * (unat x - unat b) - 4" using r(2) b(5) by simp
    have "?u b = Some x" using b(4,6) by simp
    then have bs: "body_same ?m m' b x" using P(5) b(2,3) unfolding umm_step_def by blast
    have "umm_byte m' (8 * unat b + 4 + i) = umm_byte ?m (8 * unat b + 4 + i)"
    proof (rule byte_cells)
      fix h assume "2 * h \<le> 8 * unat b + 4 + i" "8 * unat b + 4 + i \<le> 2 * h + 1"
      then have "in_body b x h" using halfword_in_body[OF _ _ lt i] by (simp add: in_body_def)
      then show "umm_cell m' h = umm_cell ?m h" using bs by (simp add: body_same_def)
    qed
    then show "umm_load ?s' (r + of_nat i) = umm_load s (r + of_nat i)"
      using load_byte[OF wf a b(4,2,3) i] b(1) by (simp add: umm_load_def)
  qed
  fix i assume i: "i < min k k'"
  have ic: "i < 8 * (unat e - unat c) - 4" and iq: "i < 8 * (unat f - unat q) - 4"
    using i by (auto simp: k_def k'_def)
  have "i div 2 < 4 * min (unat e - unat c) (unat f - unat q) - 2"
    using ic iq by (rule half_less)
  then have cell: "umm_cell m' (4 * unat q + 2 + i div 2) = umm_cell ?m (4 * unat c + 2 + i div 2)"
    using P(6) by (simp add: umm_moved_def)
  have h: "(8 * unat b + 4 + i) div 2 = 4 * unat b + 2 + i div 2" "even (8 * unat b + 4 + i) = even i" for b :: u16
    by simp_all
  have "umm_byte m' (8 * unat q + 4 + i) = umm_byte ?m (8 * unat c + 4 + i)"
    unfolding umm_byte_def h using cell by simp
  moreover have uq: "umm_used (umm_blk ?s') bs' q = Some f" "q \<noteq> umm_numblocks ?s' - 1" using q P(2) by simp_all
  ultimately show "umm_load ?s' (UMM_DATA s q + of_nat i) = umm_load s (UMM_DATA s c + of_nat i)"
    using load_byte(1)[OF wf a c ic] load_byte(1)[OF wf' a' uq(1) P(1) uq(2) iq] d by simp
qed

subsection \<open>The whole of \<open>umm_realloc\<close>\<close>

lemma umm_copy_eq:
  assumes a: "unat (umm_heap s) + 8 * unat (umm_numblocks s) < 65536"
    and q: "q < umm_numblocks s" and c: "c < e" "unat e < unat (umm_numblocks s)"
  shows "umm_copy s (UMM_DATA s q) (UMM_DATA s c) ((e - c) * 8 - 4) m =
    umm_memmove m (4 * unat q + 2) (4 * unat c + 2) (4 * (unat e - unat c) - 2)"
proof -
  have lt: "unat c < unat e" "unat e < 8192" using a c by (simp_all add: word_less_nat_alt)
  have cn: "c < umm_numblocks s" using lt c(2) by (simp add: word_less_nat_alt)
  have d: "unat (UMM_DATA s b - umm_heap s) = 8 * unat b + 4" if "b < umm_numblocks s" for b
    using umm_addr(1)[OF a that, of 0] that by (simp add: word_less_nat_alt)
  have u: "unat (e - c) = unat e - unat c" using c(1) by (simp add: unat_sub)
  have "unat ((e - c) * 8) = 8 * (unat e - unat c)" 
    using u lt by (subst unat_word_ariths(2)) simp
  then have "unat ((e - c) * 8 - 4) = 8 * (unat e - unat c) - 4"
    using lt by (subst unat_sub_le) (simp_all add: word_le_nat_alt)
  moreover have "(8 * x - 4) div 2 = 4 * x - 2" "(8 * x + 4) div 2 = 4 * x + 2" for x :: nat by arith+
  ultimately show ?thesis unfolding umm_copy_def d[OF q] d[OF cn] by (simp only:)
qed

text \<open>The first five cases end in a placed block.\<close>

lemma realloc_place_near:
  assumes a: "unat (umm_heap s) + 8 * unat (umm_numblocks s) < 65536"
    and wf: "umm_wf (umm_blk s) (umm_numblocks s) bs fs"
    and c: "umm_used (umm_blk s) bs c = Some e" "c \<noteq> 0" "c \<noteq> umm_numblocks s - 1"
    and p: "p = UMM_DATA s c" and k: "k = umm_blocks sz"
  shows "(\<exists>m' q f. umm_realloc_place s p sz = Some (s\<lparr>umm_blk := m'\<rparr>, q, UMM_DATA s q, f - q) \<and>
       k \<le> f - q \<and> umm_placed (umm_blk s) (umm_numblocks s) bs c e m' q f) \<or>
     \<not> k \<le> e - c \<and> umm_realloc_place s p sz =
       (case umm_malloc_core s sz of
          None \<Rightarrow> None
        | Some (s1, ptr') \<Rightarrow>
            if ptr' \<noteq> 0
            then Some (umm_free_core
                   (s1\<lparr>umm_blk := umm_copy s1 ptr' p ((e - c) * 8 - 4) (umm_blk s1)\<rparr>) p, c, ptr', k)
            else Some (s1, c, ptr', k))"
    (is "?near \<or> ?far")
proof -
  let ?n = "umm_numblocks s" and ?m = "umm_blk s"
  note W = wfD[OF wf]
  note U = used_block[OF wf c]
  have nb: "UMM_NBLOCK ?m c = e" using U(2,3) by (simp add: NBLOCK_used)
  have bc: "umm_block_of s p = c" unfolding p
    by (rule umm_addr(2)[OF a U(5), of 0]) (use U(5) in \<open>simp add: word_less_nat_alt\<close>)
  let ?a = "UMM_PBLOCK ?m c"
  define nx where "nx = (if blkfree ?m e then blkno ?m e - e else 0)"
  define pv where "pv = (if blkfree ?m ?a then c - ?a else 0)"
  have an: "?a < ?n" using chain_back(2)[OF W(1) U(1) c(2)] U(5) by simp
  have cp: "umm_copy s (UMM_DATA s ?a) p ((e - c) * 8 - 4) m =
    umm_memmove m (4 * unat ?a + 2) (4 * unat c + 2) (4 * (unat e - unat c) - 2)" for m
    unfolding p by (rule umm_copy_eq[OF a an U(4,8)])
  have place: "umm_realloc_place s p sz =
      (if k \<le> e - c then Some (s, c, p, e - c)
       else if (e - c) + nx = k then Some (s\<lparr>umm_blk := umm_assimilate_up ?m c\<rparr>, c, p, (e - c) + nx)
       else if pv = 0 \<and> k \<le> (e - c) + nx
       then Some (s\<lparr>umm_blk := umm_assimilate_up ?m c\<rparr>, c, p, (e - c) + nx)
       else if k \<le> pv + (e - c) then
         (let (m2, c') = umm_assimilate_down (umm_disconnect_from_free_list ?m ?a) c 0
          in Some (s\<lparr>umm_blk := umm_copy s (UMM_DATA s c') p ((e - c) * 8 - 4) m2\<rparr>, c', UMM_DATA s c', (e - c) + pv))
       else if k \<le> pv + (e - c) + nx then
         (let m0 = umm_assimilate_up ?m c;
              (m2, c') = umm_assimilate_down (umm_disconnect_from_free_list m0 (UMM_PBLOCK m0 c)) c 0
          in Some (s\<lparr>umm_blk := umm_copy s (UMM_DATA s c') p ((e - c) * 8 - 4) m2\<rparr>, c', UMM_DATA s c', (e - c) + (pv + nx)))
       else (case umm_malloc_core s sz of
          None \<Rightarrow> None
        | Some (s1, ptr') \<Rightarrow>
            if ptr' \<noteq> 0
            then Some (umm_free_core
                   (s1\<lparr>umm_blk := umm_copy s1 ptr' p ((e - c) * 8 - 4) (umm_blk s1)\<rparr>) p, c, ptr', k)
            else Some (s1, c, ptr', k)))"
    unfolding umm_realloc_place_def Let_def nb bc nx_def pv_def k blkno_def blkfree_def by (rule refl)
  have up: ?near if "blkfree ?m e" "k \<le> (e - c) + nx" "umm_realloc_place s p sz =
      Some (s\<lparr>umm_blk := umm_assimilate_up ?m c\<rparr>, c, p, (e - c) + nx)"
  proof -
    have "(e - c) + nx = blkno ?m e - c" using that(1) by (simp add: nx_def)
    then show ?thesis using that placed_up[OF wf c that(1)] p by metis
  qed
  consider (1) "k \<le> e - c" | (2) "\<not> k \<le> e - c" "(e - c) + nx = k"
    | (3) "\<not> k \<le> e - c" "(e - c) + nx \<noteq> k" "pv = 0" "k \<le> (e - c) + nx"
    | (4) "\<not> k \<le> e - c" "(e - c) + nx \<noteq> k" "\<not> (pv = 0 \<and> k \<le> (e - c) + nx)" "k \<le> pv + (e - c)"
    | (5) "\<not> k \<le> e - c" "(e - c) + nx \<noteq> k" "\<not> (pv = 0 \<and> k \<le> (e - c) + nx)" "\<not> k \<le> pv + (e - c)"
        "k \<le> pv + (e - c) + nx"
    | (6) "\<not> k \<le> e - c" "(e - c) + nx \<noteq> k" "\<not> (pv = 0 \<and> k \<le> (e - c) + nx)" "\<not> k \<le> pv + (e - c)"
        "\<not> k \<le> pv + (e - c) + nx" by blast
  then show ?thesis
  proof cases
    case 1
    then have "umm_realloc_place s p sz = Some (s\<lparr>umm_blk := ?m\<rparr>, c, UMM_DATA s c, e - c)"
      unfolding place using p by simp
    then show ?thesis using 1 placed_same[OF wf c] by blast
  next
    case 2
    then have "blkfree ?m e" by (auto simp: nx_def split: if_splits)
    moreover have "umm_realloc_place s p sz = Some (s\<lparr>umm_blk := umm_assimilate_up ?m c\<rparr>, c, p, (e - c) + nx)"
      using 2 unfolding place by simp
    ultimately show ?thesis using up 2 by blast
  next
    case 3
    then have "blkfree ?m e" by (auto simp: nx_def split: if_splits)
    moreover have "umm_realloc_place s p sz = Some (s\<lparr>umm_blk := umm_assimilate_up ?m c\<rparr>, c, p, (e - c) + nx)"
      using 3 unfolding place by simp
    ultimately show ?thesis using up 3 by blast
  next
    case 4
    then have f: "blkfree ?m ?a" by (auto simp: pv_def split: if_splits)
    define r where "r = umm_assimilate_down (umm_disconnect_from_free_list ?m ?a) c 0"
    note D = placed_down[OF wf c refl f refl refl]
    have r: "r = (fst r, ?a)" unfolding r_def using down_step(1)[OF wf c refl f refl refl order.refl] by (metis prod.collapse)
    have sz: "(e - c) + pv = e - ?a" using f by (simp add: pv_def)
    have "umm_realloc_place s p sz = (case r of (m2, c') \<Rightarrow>
        Some (s\<lparr>umm_blk := umm_copy s (UMM_DATA s c') p ((e - c) * 8 - 4) m2\<rparr>, c', UMM_DATA s c', (e - c) + pv))"
      unfolding place r_def[symmetric] by (simp only: 4 if_False if_True simp_thms Let_def)
    then have "umm_realloc_place s p sz = Some (s\<lparr>umm_blk :=
        umm_memmove (fst r) (4 * unat ?a + 2) (4 * unat c + 2) (4 * (unat e - unat c) - 2)\<rparr>, ?a, UMM_DATA s ?a, e - ?a)"
      unfolding cp[symmetric] sz by (subst (asm) r) simp
    moreover have "pv + (e - c) = e - ?a" using f by (simp add: pv_def)
    then have "k \<le> e - ?a" using 4(4) by (simp only:)
    ultimately show ?thesis using D unfolding r_def by blast
  next
    case 5
    then have f: "blkfree ?m ?a" "blkfree ?m e" by (auto simp: pv_def nx_def split: if_splits)
    define m0 where "m0 = umm_assimilate_up ?m c"
    define r where "r = umm_assimilate_down (umm_disconnect_from_free_list m0 ?a) c 0"
    note D = placed_both[OF wf c f(2) refl f(1) m0_def refl refl, folded r_def]
    have pb: "UMM_PBLOCK m0 c = ?a" using up_step(2)[OF wf c f(2) m0_def] .
    have r: "r = (fst r, ?a)" using D(2) by (metis prod.collapse)
    have sz: "(e - c) + (pv + nx) = blkno ?m e - ?a" using f by (simp add: pv_def nx_def)
    have "umm_realloc_place s p sz = (case r of (m2, c') \<Rightarrow>
        Some (s\<lparr>umm_blk := umm_copy s (UMM_DATA s c') p ((e - c) * 8 - 4) m2\<rparr>, c', UMM_DATA s c', (e - c) + (pv + nx)))"
      unfolding place m0_def[symmetric] Let_def pb r_def[symmetric]
      by (simp only: 5 if_False if_True simp_thms)
    then have "umm_realloc_place s p sz = Some (s\<lparr>umm_blk :=
        umm_memmove (fst r) (4 * unat ?a + 2) (4 * unat c + 2) (4 * (unat e - unat c) - 2)\<rparr>, ?a, UMM_DATA s ?a, blkno ?m e - ?a)"
      unfolding cp[symmetric] sz by (subst (asm) r) simp
    moreover have "pv + (e - c) + nx = blkno ?m e - ?a" using f by (simp add: pv_def nx_def)
    then have "k \<le> blkno ?m e - ?a" using 5(5) by (simp only:)
    ultimately show ?thesis using D(1) by blast
  next
    case 6
    then show ?thesis unfolding place by (simp only: if_False simp_thms)
  qed
qed

text \<open>Copying a block's data into a larger block.\<close>

lemma copy_range:
  "8 * x - 4 \<le> k \<Longrightarrow> \<not> (8 * b + 4 \<le> 2 * j \<and> 2 * j + 1 < 8 * b + 4 + k) \<Longrightarrow>
   \<not> (4 * b + 2 \<le> j \<and> j < 4 * b + 2 + (4 * x - (2 :: nat)))"
  by arith

lemma copy_ok:
  assumes inv: "umm_inv s" and p: "umm_live s p = Some k" and q: "umm_live s q = Some k'"
    and le: "k \<le> k'"
    and n: "umm_used (umm_blk s) (umm_block_list s) (umm_block_of s p) = Some e"
  defines "s' \<equiv> s\<lparr>umm_blk := umm_copy s q p ((e - umm_block_of s p) * 8 - 4) (umm_blk s)\<rparr>"
  shows "umm_inv s'" "umm_live s' = umm_live s" "umm_same_data s s' ((umm_live s)(q := None))"
    "\<And>i. i < k \<Longrightarrow> umm_load s' (q + of_nat i) = umm_load s (p + of_nat i)"
proof -
  let ?n = "umm_numblocks s" and ?m = "umm_blk s"
  from inv p obtain bs fs c e' where wf: "umm_wf ?m ?n bs fs" and a: "unat (umm_heap s) + 8 * unat ?n < 65536"
    and c: "p = UMM_DATA s c" "c \<noteq> 0" "c \<noteq> ?n - 1" "umm_used ?m bs c = Some e'"
      "k = 8 * (unat e' - unat c) - 4" "umm_block_of s p = c" by (rule live_parts)
  have bl: "umm_block_list s = bs" by (rule wf_lists(1)[OF wf])
  have ee: "e' = e" using n c(4,6) bl by simp
  have ub: "umm_used ?m bs c = Some e" using c(4) ee by simp
  obtain b f where b: "q = UMM_DATA s b" "b \<noteq> 0" "b \<noteq> ?n - 1" "umm_used ?m bs b = Some f"
      "k' = 8 * (unat f - unat b) - 4"
    using q unfolding umm_live_Some[OF wf a] by blast
  note U = used_block[OF wf ub c(2,3)] and V = used_block[OF wf b(4,2,3)]
  have lt: "unat c < unat e" "unat b < unat f" using U(4) V(4) by (simp_all add: word_less_nat_alt)
  define m' where "m' = umm_memmove ?m (4 * unat b + 2) (4 * unat c + 2) (4 * (unat e - unat c) - 2)"
  have s': "s' = s\<lparr>umm_blk := m'\<rparr>"
    unfolding s'_def m'_def c(6) unfolding c(1) b(1) umm_copy_eq[OF a V(5) U(4,8)] by (rule refl)
  have qa: "unat (q - umm_heap s) = 8 * unat b + 4"
    using load_byte(2)[OF wf a b(4,2,3), of 0] V(7) b(1) by simp
  have w: "umm_writes_in s m' q"
    unfolding umm_writes_in_def q option.case qa
  proof (intro allI impI)
    fix j :: nat
    assume j: "j < 262144" "\<not> (8 * unat b + 4 \<le> 2 * j \<and> 2 * j + 1 < 8 * unat b + 4 + k')"
    have "\<not> (4 * unat b + 2 \<le> j \<and> j < 4 * unat b + 2 + (4 * (unat e - unat c) - 2))"
      by (rule copy_range[OF _ j(2)]) (use le c(5) ee in simp)
    then show "umm_cell m' j = umm_cell ?m j" unfolding m'_def cell_memmove[OF j(1)] by (simp only: if_False)
  qed
  note WO = write_ok[OF inv w, folded s']
  show "umm_inv s'" "umm_live s' = umm_live s" "umm_same_data s s' ((umm_live s)(q := None))" by (rule WO)+
  fix i assume i: "i < k"
  have ic: "i < 8 * (unat e - unat c) - 4" and ib: "i < 8 * (unat f - unat b) - 4"
    using i le c(5) b(5) ee by auto
  have h: "i div 2 < 4 * (unat e - unat c) - 2" using half_less[OF ic ic] by simp
  have "4 * unat b + 2 + i div 2 < 262144" using ib V(8) unat_u16[of ?n] unat_u16[of f] lt(2) by linarith
  then have cell: "umm_cell m' (4 * unat b + 2 + i div 2) = umm_cell ?m (4 * unat c + 2 + i div 2)"
    using h unfolding m'_def by (subst cell_memmove) (assumption, subst if_P, linarith, simp)
  have o: "(8 * unat x + 4 + i) div 2 = 4 * unat x + 2 + i div 2" "even (8 * unat x + 4 + i) = even i" for x :: u16
    by simp_all
  have "umm_byte m' (8 * unat b + 4 + i) = umm_byte ?m (8 * unat c + 4 + i)"
    unfolding umm_byte_def o using cell by simp
  then show "umm_load s' (q + of_nat i) = umm_load s (p + of_nat i)"
    using load_byte[OF wf a b(4,2,3) ib] load_byte(1)[OF wf a ub c(2,3) ic] unfolding s' b(1) c(1)
    by (simp add: umm_load_def)
qed

lemma same_dataD: "umm_same_data s s' P \<Longrightarrow> P p = Some k \<Longrightarrow> i < k \<Longrightarrow> umm_load s' (p + of_nat i) = umm_load s (p + of_nat i)"
  by (simp add: umm_same_data_def)

lemma same_end: "c < x \<Longrightarrow> c < y \<Longrightarrow> 8 * (x - c) - 4 = 8 * (y - c) - (4 :: nat) \<Longrightarrow> x = y"
  by arith

lemma realloc_ok:
  assumes inv: "umm_inv s" and p: "umm_live s p = Some k" and sz: "sz \<noteq> 0"
  defines "k' \<equiv> 8 * unat (umm_blocks sz) - 4"
  shows "\<exists>s' q. umm_realloc s p sz = Some (s', q) \<and> umm_inv s' \<and>
     (q = 0 \<and> s' = s \<or>
      q \<noteq> 0 \<and> umm_live s' = (umm_live s)(p := None, q := Some k') \<and>
      (umm_live s q = None \<or> q = p) \<and> umm_same_data s s' ((umm_live s)(p := None)) \<and>
      (\<forall>i < min k k'. umm_load s' (q + of_nat i) = umm_load s (p + of_nat i)))"
proof -
  let ?n = "umm_numblocks s" and ?m = "umm_blk s" and ?k = "umm_blocks sz"
  from inv p obtain bs fs c e where wf: "umm_wf ?m ?n bs fs" and a: "unat (umm_heap s) + 8 * unat ?n < 65536"
    and hp: "umm_heap s \<noteq> 0" and c: "p = UMM_DATA s c" "c \<noteq> 0" "c \<noteq> ?n - 1" "umm_used ?m bs c = Some e"
      "k = 8 * (unat e - unat c) - 4" "umm_block_of s p = c" and p0: "p \<noteq> 0" by (rule live_parts)
  note U = used_block[OF wf c(4,2,3)]
  have k1: "0 < ?k" using umm_blocks_bounds(1)[of sz] by (simp add: word_le_nat_alt word_less_nat_alt)
  have ro: "umm_realloc s p sz = (case umm_realloc_place s p sz of
           None \<Rightarrow> None
         | Some (s', c, ptr', blockSize) \<Rightarrow>
             if ?k < blockSize
             then
               let s'' = s'\<lparr>umm_blk := umm_split_block (umm_blk s') c ?k 0\<rparr>
               in Some (umm_free_core s'' (UMM_DATA s'' (c + ?k)), ptr')
             else Some (s', ptr'))"
    unfolding umm_realloc_def umm_ensure_init_def Let_def using hp p0 sz by simp
  from realloc_place_near[OF a wf c(4,2,3) c(1) refl, of sz] show ?thesis
  proof (elim disjE exE conjE)
    fix m' q f
    assume pl: "umm_realloc_place s p sz = Some (s\<lparr>umm_blk := m'\<rparr>, q, UMM_DATA s q, f - q)"
      and kf: "?k \<le> f - q" and P: "umm_placed ?m ?n bs c e m' q f"
    have "\<exists>m''. umm_realloc s p sz = Some (s\<lparr>umm_blk := m''\<rparr>, UMM_DATA s q) \<and> umm_placed ?m ?n bs c e m'' q (q + ?k)"
    proof (cases "?k < f - q")
      case False
      then have "q + ?k = f" using kf by simp
      then show ?thesis using False pl P by (intro exI[of _ m']) (simp add: ro)
    next
      case True
      let ?s'' = "s\<lparr>umm_blk := umm_split_block m' q ?k 0\<rparr>"
      have q: "q \<noteq> 0" "q \<noteq> ?n - 1" "q < f" using P by (auto simp: umm_placed_def)
      obtain bs' fs' where 1: "umm_wf m' ?n bs' fs'" "umm_used m' bs' q = Some f"
        using P unfolding umm_placed_def umm_step_def by fastforce
      have "q + ?k < f" using word_less_add_between[OF k1 q(3) True] by simp
      then have qn: "q + ?k < ?n" using used_block(8)[OF 1 q(1,2)] by (simp add: word_less_nat_alt)
      have "unat (umm_heap ?s'') + 8 * unat ?n < 65536" using a by simp
      then have ad: "umm_block_of ?s'' (UMM_DATA ?s'' (q + ?k)) = q + ?k"
        by (rule umm_addr(2)[of _ _ _ 0]) (use qn in \<open>simp_all add: word_less_nat_alt\<close>)
      obtain m'' where "umm_free_core ?s'' (UMM_DATA ?s'' (q + ?k)) = ?s''\<lparr>umm_blk := m''\<rparr>"
        "umm_placed ?m ?n bs c e m'' q (q + ?k)"
        using placed_cut[OF wf c(4,2,3) P k1 True _ ad] by auto
      then show ?thesis using True pl by (auto simp: ro Let_def)
    qed
    then obtain m'' where r: "umm_realloc s p sz = Some (s\<lparr>umm_blk := m''\<rparr>, UMM_DATA s q)"
      "umm_placed ?m ?n bs c e m'' q (q + ?k)" by blast
    note F = placed_finish[OF inv wf c(4,2,3) r(2)]
    have kk: "8 * (unat (q + ?k) - unat q) - 4 = k'"
    proof -
      have "unat q < unat (q + ?k)" using r(2) by (simp add: umm_placed_def word_less_nat_alt)
      then have "unat (q + ?k) = unat q + unat ?k" by (metis unat_plus_if_size unat_plus_simple
        word_le_nat_alt order.strict_implies_order)
      then show ?thesis by (simp add: k'_def)
    qed
    show ?thesis using r(1) F c(1,5) unfolding kk by (intro exI conjI) (assumption | blast)+
  next
    assume far: "\<not> ?k \<le> e - c" "umm_realloc_place s p sz =
       (case umm_malloc_core s sz of
          None \<Rightarrow> None
        | Some (s1, ptr') \<Rightarrow>
            if ptr' \<noteq> 0
            then Some (umm_free_core
                   (s1\<lparr>umm_blk := umm_copy s1 ptr' p ((e - c) * 8 - 4) (umm_blk s1)\<rparr>) p, c, ptr', ?k)
            else Some (s1, c, ptr', ?k))"
    from malloc_ok[OF inv sz refl] show ?thesis
    proof (elim disjE exE conjE)
      fix s1 c' m1
      let ?q = "UMM_DATA s c'"
      assume q0: "?q \<noteq> 0" and i1: "umm_inv s1" and fresh: "umm_live s ?q = None"
        and l1: "umm_live s1 = (umm_live s)(?q \<mapsto> 8 * unat ?k - 4)" and d1: "umm_same_data s s1 (umm_live s)"
        and mc: "umm_malloc_core s sz = Some (s1, ?q)" and s1: "s1 = s\<lparr>umm_blk := m1\<rparr>"
      have qp: "?q \<noteq> p" using fresh p by auto
      have lp: "umm_live s1 p = Some k" and lq: "umm_live s1 ?q = Some k'" using l1 p qp by (auto simp: k'_def)
      have bo: "umm_block_of s1 p = c" using c(6) s1 by (simp add: umm_block_of_def)
      have u1: "umm_used (umm_blk s1) (umm_block_list s1) (umm_block_of s1 p) = Some e"
      proof -
        from i1 lp obtain bs1 fs1 c1 e1 where w1: "umm_wf (umm_blk s1) (umm_numblocks s1) bs1 fs1"
          and c1: "c1 \<noteq> 0" "c1 \<noteq> umm_numblocks s1 - 1" "umm_used (umm_blk s1) bs1 c1 = Some e1"
          "k = 8 * (unat e1 - unat c1) - 4" "umm_block_of s1 p = c1" by (rule live_parts)
        have cc: "c1 = c" using c1(5) bo by simp
        have "unat c < unat e1" using used_block(4)[OF w1 c1(3,1,2)] cc by (simp add: word_less_nat_alt)
        moreover have "unat c < unat e" using U(4) by (simp add: word_less_nat_alt)
        moreover have "8 * (unat e1 - unat c) - 4 = 8 * (unat e - unat c) - 4" using c1(4) c(5) cc by simp
        ultimately have "unat e1 = unat e" by (rule same_end)
        then have "e1 = e" by (simp add: word_unat_eq_iff)
        then show ?thesis using c1(3) wf_lists(1)[OF w1] bo cc by simp
      qed
      have kk: "k \<le> k'"
      proof -
        have "unat (e - c) = unat e - unat c" using U(4) by (simp add: unat_sub)
        then have "unat e - unat c \<le> unat ?k" using far(1) by (simp add: word_le_nat_alt)
        then show ?thesis using c(5) by (simp add: k'_def diff_le_mono)
      qed
      define s2 where "s2 = s1\<lparr>umm_blk := umm_copy s1 ?q p ((e - c) * 8 - 4) (umm_blk s1)\<rparr>"
      note C = copy_ok[OF i1 lp lq kk u1, unfolded bo, folded s2_def]
      have lp2: "umm_live s2 p = Some k" using C(2) lp by simp
      note F = free_ok[OF C(1) lp2]
      have h2: "umm_heap s2 \<noteq> 0" using hp s1 by (simp add: s2_def)
      have fc: "umm_free_core s2 p = umm_free s2 p"
        using h2 p0 by (simp add: umm_free_def umm_ensure_init_def)
      have r: "umm_realloc s p sz = Some (umm_free s2 p, ?q)"
        unfolding ro far(2) mc using q0 fc by (simp add: s2_def)
      have lv: "umm_live (umm_free s2 p) = (umm_live s)(p := None, ?q := Some k')"
        using F(2) C(2) l1 qp by (simp add: k'_def fun_upd_twist)
      have sd: "umm_same_data s (umm_free s2 p) ((umm_live s)(p := None))"
        unfolding umm_same_data_def
      proof (intro allI impI)
        fix r j i assume x: "((umm_live s)(p := None)) r = Some j" "i < j"
        then have y: "umm_live s r = Some j" "r \<noteq> p" "r \<noteq> ?q" using fresh by (auto split: if_splits)
        have "((umm_live s2)(p := None)) r = Some j" "((umm_live s1)(?q := None)) r = Some j"
          using y C(2) l1 by auto
        then show "umm_load (umm_free s2 p) (r + of_nat i) = umm_load s (r + of_nat i)"
          using same_dataD[OF F(3) _ x(2)] same_dataD[OF C(3) _ x(2)] same_dataD[OF d1 y(1) x(2)] by metis
      qed
      have dt: "umm_load (umm_free s2 p) (?q + of_nat i) = umm_load s (p + of_nat i)" if i: "i < min k k'" for i
      proof -
        have "((umm_live s2)(p := None)) ?q = Some k'" using C(2) lq qp by simp
        then have "umm_load (umm_free s2 p) (?q + of_nat i) = umm_load s2 (?q + of_nat i)"
          using same_dataD[OF F(3)] i by simp
        also have "\<dots> = umm_load s1 (p + of_nat i)" using C(4) i by simp
        also have "\<dots> = umm_load s (p + of_nat i)" using same_dataD[OF d1 p] i by simp
        finally show ?thesis .
      qed
      show ?thesis using r F(1) q0 lv fresh sd dt by blast
    next
      assume mc: "umm_malloc_core s sz = Some (s, 0)"
      have "umm_realloc s p sz = Some (s, 0)" unfolding ro far(2) mc by simp
      then show ?thesis using inv by blast
    qed
  qed
qed

subsection \<open>Cleared allocation\<close>

lemma calloc_ok:
  assumes inv: "umm_inv s" and sz: "item_size * num \<noteq> 0"
  defines "len \<equiv> item_size * num"
  shows "(\<exists>s' p k. umm_calloc s num item_size = Some (s', p) \<and> p \<noteq> 0 \<and> umm_inv s' \<and>
        umm_live s p = None \<and> umm_live s' = (umm_live s)(p \<mapsto> k) \<and> unat len \<le> k \<and>
        umm_same_data s s' (umm_live s) \<and> (\<forall>i < unat len. umm_load s' (p + of_nat i) = 0)) \<or>
     umm_calloc s num item_size = Some (s, 0)"
  using malloc_ok[OF inv sz refl]
proof (elim disjE exE conjE)
  fix s1 c m1
  let ?p = "UMM_DATA s c" and ?k = "8 * unat (umm_blocks (item_size * num)) - 4"
  assume m: "umm_malloc s (item_size * num) = Some (s1, ?p)" "?p \<noteq> 0" "umm_inv s1" "umm_live s ?p = None"
    "umm_live s1 = (umm_live s)(?p \<mapsto> ?k)" "umm_same_data s s1 (umm_live s)"
  have p: "umm_live s1 ?p = Some ?k" using m(5) by simp
  have le: "unat len \<le> ?k" unfolding len_def by (rule blocks_capacity)
  let ?o = "unat (?p - umm_heap s1)"
  let ?m = "umm_memzero (umm_blk s1) ?o (unat len)"
  have o: "unat (?p + of_nat i - umm_heap s1) = ?o + i" if "i < ?k" for i
    using store_writes(2)[OF m(3) p that] .
  have ev: "even ?o" "even ?k"
  proof -
    from m(3) p obtain bs fs b e where wf: "umm_wf (umm_blk s1) (umm_numblocks s1) bs fs"
      and a: "unat (umm_heap s1) + 8 * unat (umm_numblocks s1) < 65536"
      and b: "?p = UMM_DATA s1 b" "b \<noteq> 0" "b \<noteq> umm_numblocks s1 - 1" "umm_used (umm_blk s1) bs b = Some e"
      by (rule live_parts)
    show "even ?o" using load_byte(2)[OF wf a b(4,2,3), of 0] used_block(7)[OF wf b(4,2,3)] b(1) by simp
  qed simp
  have w: "umm_writes_in s1 ?m ?p"
    unfolding umm_writes_in_def p option.case
  proof (intro allI impI)
    fix j :: nat assume j: "j < 262144" "\<not> (?o \<le> 2 * j \<and> 2 * j + 1 < ?o + ?k)"
    have "\<not> (?o \<le> 2 * j \<and> 2 * j < ?o + unat len)" "\<not> (?o \<le> 2 * j + 1 \<and> 2 * j + 1 < ?o + unat len)"
      using j(2) le ev by presburger+
    then show "umm_cell ?m j = umm_cell (umm_blk s1) j"
      unfolding umm_memzero_def cell_of_cells[OF j(1)] Let_def by (simp only: if_False)
  qed
  note W = write_ok[OF m(3) w]
  have c: "umm_calloc s num item_size = Some (s1\<lparr>umm_blk := ?m\<rparr>, ?p)"
    using m(1,2) by (simp add: umm_calloc_def len_def)
  have z: "umm_load (s1\<lparr>umm_blk := ?m\<rparr>) (?p + of_nat i) = 0" if "i < unat len" for i
  proof -
    have "?o + i < 524288" using o[of i] unat_u16[of "?p + of_nat i - umm_heap s1"] that le by simp
    then show ?thesis using o[of i] that le by (simp add: umm_load_def byte_memzero)
  qed
  have "umm_same_data s (s1\<lparr>umm_blk := ?m\<rparr>) (umm_live s)"
    unfolding umm_same_data_def
  proof (intro allI impI)
    fix q j i assume q: "umm_live s q = Some j" "i < j"
    then have "((umm_live s1)(?p := None)) q = Some j" using m(4,5) by (auto split: if_splits)
    then show "umm_load (s1\<lparr>umm_blk := ?m\<rparr>) (q + of_nat i) = umm_load s (q + of_nat i)"
      using W(3) m(6) q unfolding umm_same_data_def by metis
  qed
  moreover have "umm_live (s1\<lparr>umm_blk := ?m\<rparr>) = (umm_live s)(?p \<mapsto> ?k)" using W(2) m(5) by simp
  ultimately show ?thesis using c m(2,4) W(1) le z
    by (intro disjI1 exI[of _ "s1\<lparr>umm_blk := ?m\<rparr>"] exI[of _ ?p] exI[of _ ?k]) simp
next
  assume "umm_malloc s (item_size * num) = Some (s, 0)"
  then show ?thesis by (simp add: umm_calloc_def)
qed

end
