(* ===== verification/Umm_Props.thy ===== *)
theory Umm_Props
  imports Umm_Realloc
begin

section \<open>The properties of the allocator\<close>

text \<open>
  The contract of \<^verbatim>\<open>umm_malloc.c\<close> as its callers see it, stated over the invariant
  \<open>umm_inv\<close>, the live pointers \<open>umm_live\<close> with their sizes in bytes, and the bytes behind
  them. A small heap of eight blocks with one live block serves as the concrete instance.
\<close>

subsection \<open>A concrete heap\<close>

definition umm_ex :: umm_state where
  "umm_ex = \<lparr>umm_heap = 0x1000, umm_numblocks = 8,
     umm_blk = (\<lambda>_. \<lparr>used_next = 0, used_prev = 0, free_next = 0, free_prev = 0\<rparr>)
       (0 := \<lparr>used_next = 1, used_prev = 0, free_next = 3, free_prev = 3\<rparr>,
        1 := \<lparr>used_next = 3, used_prev = 0, free_next = 0xBEEF, free_prev = 0xCAFE\<rparr>,
        3 := \<lparr>used_next = 0x8007, used_prev = 1, free_next = 0, free_prev = 0\<rparr>,
        7 := \<lparr>used_next = 0, used_prev = 3, free_next = 0, free_prev = 0\<rparr>),
     UMM_Heap_Address = 0x1000, UMM_Heap_Size = 64\<rparr>"
lemma umm_ex_links:
  "blkno (umm_blk umm_ex) = (\<lambda>_. 0)(0 := 1, 1 := 3, 3 := 7)"
  "blkfree (umm_blk umm_ex) = (\<lambda>_. False)(3 := True)"
  "UMM_PBLOCK (umm_blk umm_ex) = (\<lambda>_. 0)(3 := 1, 7 := 3)"
  "UMM_NFREE (umm_blk umm_ex) = (\<lambda>_. 0)(0 := 3, 1 := 0xBEEF)"
  "UMM_PFREE (umm_blk umm_ex) = (\<lambda>_. 0)(0 := 3, 1 := 0xCAFE)"
  by (auto simp: fun_eq_iff blkno_def blkfree_def UMM_NBLOCK_def UMM_PBLOCK_def UMM_NFREE_def UMM_PFREE_def umm_ex_def umm_masks)
lemma umm_ex_wf: "umm_wf (umm_blk umm_ex) 8 [0, 1, 3, 7] [3]"
  unfolding umm_wf_def umm_chain_def umm_flist_def umm_coalesced_def umm_ex_links by auto
lemma umm_ex_inv: "umm_inv umm_ex" unfolding umm_inv_iff using umm_ex_wf by (auto simp: umm_ex_links) (auto simp: umm_ex_def)
lemma umm_ex_live: "umm_live umm_ex 0x100C = Some 12"
proof -
  have bl: "umm_block_list umm_ex = [0, 1, 3, 7]" by (rule wf_lists(1)[of _ _ "[3]"]) (use umm_ex_wf in \<open>simp add: umm_ex_def\<close>)
  have "umm_block_of umm_ex 0x100C = 1" "UMM_DATA umm_ex 1 = 0x100C" "UMM_BLOCK_LAST umm_ex = 7"
    by (simp_all add: umm_ex_def umm_block_of_def UMM_DATA_def UMM_BLOCK_LAST_def)
  then show ?thesis by (simp add: umm_live_def bl umm_used_def umm_ex_links)
qed

subsection \<open>Initialisation\<close>

text \<open>For every heap of 24 bytes or more that lies below the end of the address space,
  \<open>umm_init\<close> builds a well-formed heap: nothing is live, and all blocks but the first and the
  last form one free block.\<close>

theorem umm_init_correct:
  assumes "umm_init_pre s"
  shows "umm_inv (umm_init s) \<and> umm_live (umm_init s) = (\<lambda>p. None) \<and>
    umm_free_list (umm_init s) = [1] \<and>
    unat (blksize (umm_blk (umm_init s)) 1) = unat (UMM_Heap_Size s) div 8 - 2"
proof -
  let ?n = "umm_numblocks (umm_init s)" and ?m = "umm_blk (umm_init s)"
  note I = init_ok[OF assms]
  have wf: "umm_wf ?m ?n [0, 1, ?n - 1] [1]" using I(1,2) by simp
  note C = chainD[OF wfD(1)[OF wf]]
  have a: "unat (umm_heap (umm_init s)) + 8 * unat ?n < 65536" using I(5) by (simp add: umm_inv_def)
  have "1 \<in> set [1 :: u16]" by simp
  then have f: "blkfree ?m 1" using flistD(5)[OF wfD(1,2)[OF wf]] by blast
  have "umm_live (umm_init s) p = None" for p
  proof (cases "umm_live (umm_init s) p")
    case (Some k)
    then show ?thesis using f unfolding umm_live_Some[OF wf a] by (auto simp: umm_used_def split: if_splits)
  qed
  moreover have "blkno ?m 1 = ?n - 1" using C(7) by simp
  then have "unat (blksize ?m 1) = unat ?n - 2"
    using C(1) by (simp add: blksize_def) unat_arith
  ultimately show ?thesis using I wf_lists(2)[OF wf] by auto
qed

theorem umm_init_correct_witness:
  "umm_inv (umm_init (umm_ex\<lparr>umm_heap := 0, UMM_Heap_Size := 8192\<rparr>)) \<and>
   umm_free_list (umm_init (umm_ex\<lparr>umm_heap := 0, UMM_Heap_Size := 8192\<rparr>)) = [1]"
  using umm_init_correct[of "umm_ex\<lparr>umm_heap := 0, UMM_Heap_Size := 8192\<rparr>"]
  by (simp add: umm_init_pre_def umm_ex_def)

subsection \<open>Allocation and release\<close>

text \<open>(C2) \<open>umm_malloc\<close> always returns. It gives \<open>NULL\<close>, and changes nothing, exactly when no free
  block is large enough; otherwise the pointer is to a new block of at least the size asked for,
  the invariant holds, and the data of every other live block is what it was.\<close>

theorem umm_malloc_correct:
  assumes "umm_inv s" and "sz \<noteq> 0"
  shows "\<exists>s' p. umm_malloc s sz = Some (s', p) \<and> umm_inv s' \<and>
    (if umm_fits s (umm_blocks sz)
     then p \<noteq> 0 \<and> umm_live s p = None \<and> unat sz \<le> 8 * unat (umm_blocks sz) - 4 \<and>
       umm_live s' = (umm_live s)(p \<mapsto> 8 * unat (umm_blocks sz) - 4) \<and> umm_same_data s s' (umm_live s)
     else p = 0 \<and> s' = s)"
  using malloc_ok[OF assms refl]
proof (elim disjE exE conjE)
  fix s' c m'
  assume "umm_malloc s sz = Some (s', UMM_DATA s c)" "UMM_DATA s c \<noteq> 0" "umm_inv s'"
    "umm_live s (UMM_DATA s c) = None"
    "umm_live s' = (umm_live s)(UMM_DATA s c \<mapsto> 8 * unat (umm_blocks sz) - 4)"
    "umm_same_data s s' (umm_live s)" "c \<in> set (umm_free_list s)" "umm_blocks sz \<le> blksize (umm_blk s) c"
  moreover from this have "umm_fits s (umm_blocks sz)" by (auto simp: umm_fits_def list_ex_iff)
  ultimately show ?thesis using blocks_capacity[of sz] by auto
qed (use assms in auto)

lemma umm_ex_malloc: "map_option snd (umm_malloc umm_ex 5) = Some 0x101C"
 by (simp add: umm_malloc_def umm_ensure_init_def umm_malloc_core_def umm_malloc_block_def umm_ex_def umm_blocks_def umm_scan.simps UMM_DATA_def umm_masks
   UMM_NBLOCK_def UMM_PBLOCK_def UMM_NFREE_def UMM_PFREE_def)

theorem umm_malloc_correct_witness:
  "\<exists>s'. umm_malloc umm_ex 5 = Some (s', 0x101C) \<and> umm_inv s' \<and>
    umm_live s' = (umm_live umm_ex)(0x101C \<mapsto> 12)"
proof -
  obtain s' p where "umm_malloc umm_ex 5 = Some (s', p)" "umm_inv s'"
    "p \<noteq> 0 \<longrightarrow> umm_live s' = (umm_live umm_ex)(p \<mapsto> 12)"
    using umm_malloc_correct[OF umm_ex_inv, of 5] by (auto simp: umm_blocks_def split: if_splits)
  then show ?thesis using umm_ex_malloc by auto
qed

text \<open>\<open>umm_malloc\<close> is best-fit: the new block starts at a free block that is large enough, and no
  free block that is large enough is smaller than that one.\<close>

theorem umm_malloc_best_fit:
  assumes "umm_inv s" and "sz \<noteq> 0" and "umm_malloc s sz = Some (s', p)" and "p \<noteq> 0"
  shows "umm_block_of s p \<in> set (umm_free_list s) \<and>
    umm_blocks sz \<le> blksize (umm_blk s) (umm_block_of s p) \<and>
    list_all (\<lambda>b. umm_blocks sz \<le> blksize (umm_blk s) b \<longrightarrow>
      blksize (umm_blk s) (umm_block_of s p) \<le> blksize (umm_blk s) b) (umm_free_list s)"
proof -
  obtain bs fs where a: "unat (umm_heap s) + 8 * unat (umm_numblocks s) < 65536"
    and wf: "umm_wf (umm_blk s) (umm_numblocks s) bs fs" using assms(1) unfolding umm_inv_iff by blast
  from malloc_ok[OF assms(1,2) refl] obtain c where c: "p = UMM_DATA s c" "c \<in> set (umm_free_list s)"
    "umm_blocks sz \<le> blksize (umm_blk s) c"
    "list_all (\<lambda>b. umm_blocks sz \<le> blksize (umm_blk s) b \<longrightarrow> blksize (umm_blk s) c \<le> blksize (umm_blk s) b)
      (umm_free_list s)" using assms(3,4) by auto
  have cb: "c \<in> set bs" using c(2) flistD(5)[OF wfD(1,2)[OF wf]] wf_lists(2)[OF wf] by auto
  have "c < umm_numblocks s"
    using chain_last_max[OF wfD(1)[OF wf] cb] chainD(1)[OF wfD(1)[OF wf]] by unat_arith
  then have "umm_block_of s p = c"
    unfolding c(1) by (intro umm_addr(2)[OF a, of _ 0]) (simp_all add: word_less_nat_alt)
  then show ?thesis using c by simp
qed

theorem umm_malloc_best_fit_witness:
  "3 \<in> set (umm_free_list umm_ex) \<and> umm_blocks 5 \<le> blksize (umm_blk umm_ex) 3"
proof -
  obtain s' where "umm_malloc umm_ex 5 = Some (s', 0x101C)" using umm_ex_malloc by auto
  moreover have "umm_block_of umm_ex 0x101C = 3" by (simp add: umm_block_of_def umm_ex_def)
  ultimately show ?thesis using umm_malloc_best_fit[OF umm_ex_inv, of 5 s' "0x101C"] by simp
qed

text \<open>(C3) \<open>umm_free\<close> of a live pointer keeps the invariant (so neighbouring free blocks are merged),
  takes exactly that pointer out of the live ones, and leaves every other block's data alone.\<close>

theorem umm_free_correct:
  assumes "umm_inv s" and "umm_live s p = Some k"
  shows "umm_inv (umm_free s p) \<and> umm_live (umm_free s p) = (umm_live s)(p := None) \<and>
    umm_same_data s (umm_free s p) ((umm_live s)(p := None))"
  using free_ok[OF assms] by blast

theorem umm_free_correct_witness:
  "umm_inv (umm_free umm_ex 0x100C) \<and> umm_live (umm_free umm_ex 0x100C) 0x100C = None"
  using umm_free_correct[OF umm_ex_inv umm_ex_live] by simp

text \<open>The layout of the heap is determined by what is live: two well-formed heaps at the same place
  with the same live blocks have the same chain of blocks, whatever their histories. So releasing
  memory undoes all fragmentation that the released blocks caused.\<close>

theorem umm_layout_canonical:
  assumes "umm_inv s" and "umm_inv s'" and "umm_heap s' = umm_heap s"
    and "umm_numblocks s' = umm_numblocks s" and "umm_live s' = umm_live s"
  shows "umm_block_list s' = umm_block_list s"
  by (rule layout_of_live[OF assms])

theorem umm_layout_canonical_witness:
  "umm_block_list (the (map_option (\<lambda>(s, p). umm_free s p) (umm_malloc umm_ex 5))) = umm_block_list umm_ex"
proof -
  from malloc_ok[OF umm_ex_inv, of 5, OF _ refl] umm_ex_malloc obtain s' m' where
    m: "umm_malloc umm_ex 5 = Some (s', 0x101C)" "umm_inv s'" "umm_live umm_ex 0x101C = None"
    "umm_live s' = (umm_live umm_ex)(0x101C \<mapsto> 12)" "s' = umm_ex\<lparr>umm_blk := m'\<rparr>"
    by (auto simp: umm_blocks_def)
  have l: "umm_live s' 0x101C = Some 12" using m(4) by simp
  note F = free_ok[OF m(2) l]
  have h: "umm_heap (umm_free s' 0x101C) = umm_heap s'" "umm_numblocks (umm_free s' 0x101C) = umm_numblocks s'"
    using m(5) by (simp_all add: umm_free_def umm_ensure_init_def umm_free_core_def Let_def umm_ex_def)
  have "umm_live (umm_free s' 0x101C) = umm_live umm_ex" using F(2) m(3,4) by auto
  from umm_layout_canonical[OF umm_ex_inv F(1) _ _ this] h m(1,5) show ?thesis by simp
qed

subsection \<open>Reallocation and cleared allocation\<close>

text \<open>(C1) \<open>umm_realloc\<close> of a live pointer always returns. Either it gives \<open>NULL\<close> and nothing has
  changed, the old block included; or the old pointer is replaced by one to a block of exactly the
  blocks asked for, whose first bytes are those of the old block up to the smaller of the two
  sizes, and no other live block's data has changed. All six placement cases and the cut of an
  oversized block are covered.\<close>

theorem umm_realloc_correct:
  assumes "umm_inv s" and "umm_live s p = Some k" and "sz \<noteq> 0"
  shows "\<exists>s' q. umm_realloc s p sz = Some (s', q) \<and> umm_inv s' \<and>
     (q = 0 \<and> s' = s \<or>
      q \<noteq> 0 \<and> umm_live s' = (umm_live s)(p := None, q := Some (8 * unat (umm_blocks sz) - 4)) \<and>
      (umm_live s q = None \<or> q = p) \<and> umm_same_data s s' ((umm_live s)(p := None)) \<and>
      (\<forall>i < min k (8 * unat (umm_blocks sz) - 4). umm_load s' (q + of_nat i) = umm_load s (p + of_nat i)))"
  by (rule realloc_ok[OF assms])

theorem umm_realloc_correct_witness:
  "\<exists>s' q. umm_realloc umm_ex 0x100C 20 = Some (s', q) \<and> umm_inv s'"
  using umm_realloc_correct[OF umm_ex_inv umm_ex_live, of 20] by auto

text \<open>\<open>umm_calloc\<close> either gives \<open>NULL\<close> and changes nothing, or a new block that holds the 16-bit
  product of its arguments in bytes, all of them zero, with every other block's data intact.\<close>

theorem umm_calloc_correct:
  assumes "umm_inv s" and "item_size * num \<noteq> 0"
  shows "(\<exists>s' p k. umm_calloc s num item_size = Some (s', p) \<and> p \<noteq> 0 \<and> umm_inv s' \<and>
        umm_live s p = None \<and> umm_live s' = (umm_live s)(p \<mapsto> k) \<and> unat (item_size * num) \<le> k \<and>
        umm_same_data s s' (umm_live s) \<and> (\<forall>i < unat (item_size * num). umm_load s' (p + of_nat i) = 0)) \<or>
     umm_calloc s num item_size = Some (s, 0)"
  by (rule calloc_ok[OF assms])

theorem umm_calloc_correct_witness: "\<exists>s' p. umm_calloc umm_ex 3 2 = Some (s', p)"
  using umm_calloc_correct[OF umm_ex_inv, of 2 3] by auto

end
