(* ===== verification/Umm_Integrity.thy ===== *)
theory Umm_Integrity
  imports Umm_Props
begin

section \<open>The integrity check\<close>

text \<open>
  Models \<^verbatim>\<open>umm_integrity.c\<close>. Both loops are \<open>while (1)\<close> loops over links that may be corrupt, so they
  are partial functions; that they end on every memory is a theorem. The first loop marks the
  free blocks in \<open>UMM_PBLOCK\<close>, the second compares the marks with those of \<open>UMM_NBLOCK\<close> and takes
  them out. Logging is left out.
\<close>

partial_function (option) umm_check_free :: "u16 \<Rightarrow> umm_mem \<Rightarrow> u16 \<Rightarrow> (umm_mem \<times> bool) option" where
  "umm_check_free n m prev =
     (let cur = UMM_NFREE m prev in
      if n \<le> cur then Some (m, False)
      else if cur = 0 then Some (m, True)
      else if UMM_PFREE m cur \<noteq> prev then Some (m, False)
      else umm_check_free n (set_PBLOCK m cur (UMM_PBLOCK m cur OR UMM_FREELIST_MASK)) cur)"

partial_function (option) umm_check_blocks :: "u16 \<Rightarrow> umm_mem \<Rightarrow> u16 \<Rightarrow> (umm_mem \<times> bool) option" where
  "umm_check_blocks n m prev =
     (let cur = UMM_NBLOCK m prev AND UMM_BLOCKNO_MASK in
      if n \<le> cur then Some (m, False)
      else if cur = 0 then Some (m, True)
      else if UMM_NBLOCK m cur AND UMM_FREELIST_MASK \<noteq> UMM_PBLOCK m cur AND UMM_FREELIST_MASK
      then Some (m, False)
      else if cur \<le> prev then Some (m, False)
      else
        let m1 = set_PBLOCK m cur (UMM_PBLOCK m cur AND UMM_BLOCKNO_MASK)
        in if UMM_PBLOCK m1 cur \<noteq> prev then Some (m1, False)
           else umm_check_blocks n m1 cur)"

definition umm_integrity_check :: "umm_state \<Rightarrow> (umm_state \<times> bool) option" where
  "umm_integrity_check s0 =
     (let s = umm_ensure_init s0; n = umm_numblocks s
      in case umm_check_free n (umm_blk s) 0 of
           None \<Rightarrow> None
         | Some (m, False) \<Rightarrow> Some (s\<lparr>umm_blk := m\<rparr>, False)
         | Some (m, True) \<Rightarrow>
             (case umm_check_blocks n m 0 of
                None \<Rightarrow> None
              | Some (m', ok) \<Rightarrow> Some (s\<lparr>umm_blk := m'\<rparr>, ok)))"

subsection \<open>Both loops end on every memory\<close>

lemma check_free_ends:
  assumes "dll (UMM_NFREE m) (UMM_PFREE m) path" and "distinct path" and "path \<noteq> []"
    and "hd path = 0" and "last path = prev"
  shows "\<exists>r. umm_check_free n m prev = Some r"
  using assms
proof (induction "card (UNIV - set path)" arbitrary: path prev m rule: less_induct)
  case less
  let ?c = "UMM_NFREE m prev"
  show ?case
  proof (cases "n \<le> ?c \<or> ?c = 0 \<or> UMM_PFREE m ?c \<noteq> prev")
    case True
    then show ?thesis by (subst umm_check_free.simps) (auto simp: Let_def)
  next
    case False
    then have c: "\<not> n \<le> ?c" "?c \<noteq> 0" "UMM_PFREE m ?c = prev" by auto
    have new: "?c \<notin> set path"
    proof
      assume "?c \<in> set path"
      then obtain zs ys where p: "path = zs @ ?c # ys" using split_list by fastforce
      have "zs \<noteq> []" using p less.prems(4) c(2) by auto
      then obtain xs a where z: "zs = xs @ [a]" by (cases zs rule: rev_exhaust) auto
      have "dll (UMM_NFREE m) (UMM_PFREE m) (xs @ a # ?c # ys)" using less.prems(1) p z by simp
      then have "a = prev" using dll_pv c(3) by metis
      moreover have "prev \<in> set (?c # ys)" using less.prems(5) p by (metis last_appendR last_in_set list.simps(3))
      ultimately show False using less.prems(2) p z by auto
    qed
    let ?m = "set_PBLOCK m ?c (UMM_PBLOCK m ?c OR UMM_FREELIST_MASK)"
    have pn: "butlast path @ [prev] = path" using less.prems(3,5) append_butlast_last_id by blast
    have d: "dll (UMM_NFREE m) (UMM_PFREE m) (path @ [?c])"
    proof -
      have "dll (UMM_NFREE m) (UMM_PFREE m) (butlast path @ prev # [?c])"
        by (subst dll_append) (use less.prems(1) pn c(3) in simp)
      then show ?thesis using pn by (metis append.assoc append_Cons append_Nil)
    qed
    have lt: "card (UNIV - set (path @ [?c])) < card (UNIV - set path)"
      by (rule psubset_card_mono) (use new in auto)
    have "\<exists>r. umm_check_free n ?m ?c = Some r"
      by (rule less.hyps[OF lt]) (use d new less.prems in \<open>auto simp: mem_simps\<close>)
    then show ?thesis using c by (subst umm_check_free.simps) (auto simp: Let_def)
  qed
qed

lemma check_blocks_ends: "\<exists>r. umm_check_blocks n m prev = Some r"
proof (induction "65536 - unat prev" arbitrary: prev m rule: less_induct)
  case less
  let ?c = "UMM_NBLOCK m prev AND UMM_BLOCKNO_MASK"
  have "prev < ?c \<Longrightarrow> 65536 - unat ?c < 65536 - unat prev"
    using unat_u16[of ?c] by (simp add: word_less_nat_alt)
  then have "prev < ?c \<Longrightarrow> \<exists>r. umm_check_blocks n m' ?c = Some r" for m'
    using less by blast
  then show ?case by (subst umm_check_blocks.simps) (auto simp: Let_def not_le)
qed

lemma integrity_ends: "\<exists>s' ok. umm_integrity_check s = Some (s', ok)"
proof -
  let ?s = "umm_ensure_init s"
  obtain m ok where f: "umm_check_free (umm_numblocks ?s) (umm_blk ?s) 0 = Some (m, ok)"
    using check_free_ends[of "umm_blk ?s" "[0]" 0 "umm_numblocks ?s"] by auto
  obtain m' ok' where "umm_check_blocks (umm_numblocks ?s) m 0 = Some (m', ok')"
    using check_blocks_ends[of "umm_numblocks ?s" m 0] by auto
  with f show ?thesis by (cases ok) (auto simp: umm_integrity_check_def Let_def)
qed

subsection \<open>A well-formed heap passes and is left as it was\<close>

definition umm_mark :: "umm_mem \<Rightarrow> u16 set \<Rightarrow> umm_mem" where
  "umm_mark m F = (\<lambda>x. if x \<in> F then (m x)\<lparr>used_prev := used_prev (m x) OR 0x8000\<rparr> else m x)"

lemma mark_links [simp]:
  "UMM_NBLOCK (umm_mark m F) = UMM_NBLOCK m" "UMM_NFREE (umm_mark m F) = UMM_NFREE m"
  "UMM_PFREE (umm_mark m F) = UMM_PFREE m" "blkno (umm_mark m F) = blkno m"
  "blkfree (umm_mark m F) = blkfree m"
  "UMM_PBLOCK (umm_mark m F) x = (if x \<in> F then UMM_PBLOCK m x OR 0x8000 else UMM_PBLOCK m x)"
  by (auto simp: umm_mark_def UMM_NBLOCK_def UMM_NFREE_def UMM_PFREE_def UMM_PBLOCK_def blkno_def
      blkfree_def fun_eq_iff)

lemma mark_empty [simp]: "umm_mark m {} = m"
  by (simp add: umm_mark_def)

lemma mark_insert:
  "x \<notin> F \<Longrightarrow> umm_mark (set_PBLOCK m x (UMM_PBLOCK m x OR UMM_FREELIST_MASK)) F = umm_mark m (insert x F)"
  by (auto simp: umm_mark_def set_PBLOCK_def UMM_PBLOCK_def umm_masks fun_eq_iff)

lemma unmark_one:
  assumes "UMM_PBLOCK m x < 0x8000"
  shows "set_PBLOCK (umm_mark m F) x (UMM_PBLOCK (umm_mark m F) x AND UMM_BLOCKNO_MASK) = umm_mark m (F - {x})"
  using assms by (auto simp: umm_mark_def set_PBLOCK_def UMM_PBLOCK_def umm_masks fun_eq_iff flag_simps)

lemma check_free_accepts:
  assumes "dll (UMM_NFREE m) (UMM_PFREE m) (prev # fs @ [0])" and "distinct fs" and "0 \<notin> set fs"
    and "0 < n" and "\<And>x. x \<in> set fs \<Longrightarrow> x < n"
  shows "umm_check_free n m prev = Some (umm_mark m (set fs), True)"
  using assms
proof (induction fs arbitrary: m prev)
  case Nil
  then show ?case by (subst umm_check_free.simps) (simp add: Let_def)
next
  case (Cons c fs)
  let ?m = "set_PBLOCK m c (UMM_PBLOCK m c OR UMM_FREELIST_MASK)"
  have "umm_check_free n ?m c = Some (umm_mark ?m (set fs), True)"
    by (rule Cons.IH) (use Cons.prems in \<open>auto simp: mem_simps\<close>)
  moreover have "UMM_NFREE m prev = c" "UMM_PFREE m c = prev" using Cons.prems(1) by auto
  ultimately show ?case
    using Cons.prems by (subst umm_check_free.simps) (auto simp: Let_def mark_insert not_le)
qed

lemma check_blocks_accepts:
  assumes "dll (blkno m) (UMM_PBLOCK m) (prev # bs)" and "sorted_wrt (<) (prev # bs)"
    and "blkno m (last (prev # bs)) = 0" and "0 < n" and "\<And>x. x \<in> set (prev # bs) \<Longrightarrow> x < n \<and> x < 0x8000"
    and "\<And>x. x \<in> set bs \<Longrightarrow> (x \<in> F) = blkfree m x"
  shows "umm_check_blocks n (umm_mark m F) prev = Some (umm_mark m (F - set bs), True)"
  using assms
proof (induction bs arbitrary: F prev)
  case Nil
  then show ?case by (subst umm_check_blocks.simps) (simp add: Let_def blkno_def)
next
  case (Cons c bs)
  have l: "blkno m prev = c" "UMM_PBLOCK m c = prev" using Cons.prems(1) by auto
  have p8: "UMM_PBLOCK m c < 0x8000" using Cons.prems(5)[of prev] l(2) by simp
  have c: "prev < c" "c < n" "c \<noteq> 0" using Cons.prems(2) Cons.prems(5)[of c] by auto
  have IH: "umm_check_blocks n (umm_mark m (F - {c})) c = Some (umm_mark m (F - {c} - set bs), True)"
  proof (rule Cons.IH)
    fix x assume "x \<in> set bs"
    moreover from this have "c < x" using Cons.prems(2) by simp
    ultimately show "(x \<in> F - {c}) = blkfree m x" using Cons.prems(6)[of x] by auto
  qed (use Cons.prems in auto)
  have cur: "UMM_NBLOCK (umm_mark m F) prev AND UMM_BLOCKNO_MASK = c" using l(1) by (simp add: blkno_def)
  have mask: "UMM_NBLOCK m c AND UMM_FREELIST_MASK = UMM_PBLOCK (umm_mark m F) c AND UMM_FREELIST_MASK"
  proof -
    have "UMM_NBLOCK m c AND UMM_FREELIST_MASK = (if blkfree m c then 0x8000 else 0)"
      using NBLOCK_of_blkno[of m c] blkno_less[of m c] by (simp add: umm_masks flag_simps and_flag)
    moreover have "UMM_PBLOCK (umm_mark m F) c AND UMM_FREELIST_MASK = (if c \<in> F then 0x8000 else 0)"
      using p8 by (simp add: umm_masks flag_simps and_flag)
    ultimately show ?thesis using Cons.prems(6)[of c] by simp
  qed
  have un: "set_PBLOCK (umm_mark m F) c (UMM_PBLOCK (umm_mark m F) c AND UMM_BLOCKNO_MASK) = umm_mark m (F - {c})"
    by (rule unmark_one[OF p8])
  have nle: "\<not> n \<le> c" "\<not> c \<le> prev" using c by auto
  have pb: "UMM_PBLOCK (umm_mark m (F - {c})) c = prev" using l(2) by simp
  have st: "umm_check_blocks n (umm_mark m F) prev = umm_check_blocks n (umm_mark m (F - {c})) c"
    by (subst umm_check_blocks.simps, unfold Let_def cur un)
      (simp only: nle c(3) mark_links(1) mask pb if_False simp_thms)
  have "F - {c} - set bs = F - set (c # bs)" by auto
  then show ?case unfolding st IH by simp
qed

lemma checks_accept:
  assumes wf: "umm_wf m n bs fs"
  shows "\<exists>m1. umm_check_free n m 0 = Some (m1, True) \<and> umm_check_blocks n m1 0 = Some (m, True)"
proof -
  note W = wfD[OF wf]
  note C = chainD[OF W(1)] and F = flistD[OF W(1,2)]
  have n0: "0 < n" "n - 1 < n" using C(1) by unat_arith+
  have lt: "x < n \<and> x < 0x8000" if "x \<in> set bs" for x
    using chain_last_max[OF W(1) that] n0(2) C(2)
    by (meson order.strict_trans order.strict_trans1)
  have 1: "umm_check_free n m 0 = Some (umm_mark m (set fs), True)"
    by (rule check_free_accepts[OF F(1,2,4) n0(1)]) (use F(5) lt in blast)
  obtain xs where bs: "bs = 0 # xs" using C(3,4) by (cases bs) auto
  have 2: "umm_check_blocks n (umm_mark m (set fs)) 0 = Some (umm_mark m (set fs - set xs), True)"
  proof (rule check_blocks_accepts)
    show "dll (blkno m) (UMM_PBLOCK m) (0 # xs)" "sorted_wrt (<) (0 # xs)" using C(6,7) bs by simp_all
    show "blkno m (last (0 # xs)) = 0" using C(5,10) bs by simp
    show "x < n \<and> x < 0x8000" if "x \<in> set (0 # xs)" for x using lt that bs by simp
    show "(x \<in> set fs) = blkfree m x" if "x \<in> set xs" for x using F(3) that bs by auto
  qed (rule n0)
  have e: "set fs - set xs = {}" using F(3,4) bs by auto
  show ?thesis using 1 2[unfolded e] by simp
qed

lemma integrity_accepts:
  assumes "umm_inv s"
  shows "umm_integrity_check s = Some (s, True)"
proof -
  obtain bs fs where h: "umm_heap s \<noteq> 0" and wf: "umm_wf (umm_blk s) (umm_numblocks s) bs fs"
    using assms unfolding umm_inv_iff by blast
  from checks_accept[OF wf] h show ?thesis
    by (auto simp: umm_integrity_check_def umm_ensure_init_def Let_def)
qed

subsection \<open>What a passed check means\<close>

lemma check_free_sound:
  assumes "umm_check_free n m prev = Some (m', True)"
    and "dll (UMM_NFREE m) (UMM_PFREE m) path" and "distinct path" and "path \<noteq> []"
    and "hd path = 0" and "last path = prev"
  shows "\<exists>fs. dll (UMM_NFREE m) (UMM_PFREE m) (path @ fs) \<and> distinct (path @ fs) \<and>
    UMM_NFREE m (last (path @ fs)) = 0 \<and> m' = umm_mark m (set fs) \<and> list_all (\<lambda>x. x < n) fs"
  using assms
proof (induction "card (UNIV - set path)" arbitrary: path prev m rule: less_induct)
  case less
  let ?c = "UMM_NFREE m prev"
  have nc: "\<not> n \<le> ?c" using less.prems(1) by (subst (asm) umm_check_free.simps) (auto simp: Let_def)
  show ?case
  proof (cases "?c = 0")
    case True
    then have "m' = m" using less.prems(1) nc by (subst (asm) umm_check_free.simps) (auto simp: Let_def)
    then show ?thesis using less.prems True by (intro exI[of _ "[]"]) simp
  next
    case False
    let ?m = "set_PBLOCK m ?c (UMM_PBLOCK m ?c OR UMM_FREELIST_MASK)"
    have c: "UMM_PFREE m ?c = prev" and r: "umm_check_free n ?m ?c = Some (m', True)"
      using less.prems(1) nc False by (subst (asm) umm_check_free.simps, auto simp: Let_def split: if_splits)+
    have new: "?c \<notin> set path"
    proof
      assume "?c \<in> set path"
      then obtain zs ys where p: "path = zs @ ?c # ys" using split_list by fastforce
      have "zs \<noteq> []" using p less.prems(5) False by auto
      then obtain xs a where z: "zs = xs @ [a]" by (cases zs rule: rev_exhaust) auto
      have "dll (UMM_NFREE m) (UMM_PFREE m) (xs @ a # ?c # ys)" using less.prems(2) p z by simp
      then have "a = prev" using dll_pv c by metis
      moreover have "prev \<in> set (?c # ys)" using less.prems(6) p by (metis last_appendR last_in_set list.simps(3))
      ultimately show False using less.prems(3) p z by auto
    qed
    have pn: "butlast path @ [prev] = path" using less.prems(4,6) append_butlast_last_id by blast
    have d: "dll (UMM_NFREE m) (UMM_PFREE m) (path @ [?c])"
    proof -
      have "dll (UMM_NFREE m) (UMM_PFREE m) (butlast path @ prev # [?c])"
        by (subst dll_append) (use less.prems(2) pn c in simp)
      then show ?thesis using pn by (metis append.assoc append_Cons append_Nil)
    qed
    have lt: "card (UNIV - set (path @ [?c])) < card (UNIV - set path)"
      by (rule psubset_card_mono) (use new in auto)
    have "\<exists>fs. dll (UMM_NFREE ?m) (UMM_PFREE ?m) ((path @ [?c]) @ fs) \<and> distinct ((path @ [?c]) @ fs) \<and>
      UMM_NFREE ?m (last ((path @ [?c]) @ fs)) = 0 \<and> m' = umm_mark ?m (set fs) \<and> list_all (\<lambda>x. x < n) fs"
      by (rule less.hyps[OF lt r]) (use d new less.prems in \<open>auto simp: mem_simps\<close>)
    then obtain fs where f: "dll (UMM_NFREE m) (UMM_PFREE m) (path @ ?c # fs)" "distinct (path @ ?c # fs)"
      "UMM_NFREE m (last (path @ ?c # fs)) = 0" "m' = umm_mark ?m (set fs)" "list_all (\<lambda>x. x < n) fs"
      by (auto simp: mem_simps)
    have "umm_mark ?m (set fs) = umm_mark m (set (?c # fs))" using f(2) by (simp add: mark_insert)
    then show ?thesis using f nc by (intro exI[of _ "?c # fs"]) auto
  qed
qed

lemma check_blocks_sound:
  assumes "umm_check_blocks n m prev = Some (m', True)"
  shows "\<exists>bs. sorted_wrt (<) (prev # bs) \<and> dll (blkno m) (\<lambda>x. UMM_PBLOCK m x AND UMM_BLOCKNO_MASK) (prev # bs) \<and>
    blkno m (last (prev # bs)) = 0 \<and>
    list_all (\<lambda>x. x < n \<and> blkfree m x = (UMM_PBLOCK m x AND UMM_FREELIST_MASK \<noteq> 0)) bs"
  using assms
proof (induction "65536 - unat prev" arbitrary: prev m rule: less_induct)
  case less
  let ?c = "blkno m prev"
  note st = less.prems(1)[unfolded umm_check_blocks.simps[of n m prev] Let_def, folded blkno_def]
  have nc: "\<not> n \<le> ?c" using st by auto
  show ?case
  proof (cases "?c = 0")
    case True
    then show ?thesis by (intro exI[of _ "[]"]) simp
  next
    case False
    let ?m = "set_PBLOCK m ?c (UMM_PBLOCK m ?c AND UMM_BLOCKNO_MASK)"
    have c: "UMM_NBLOCK m ?c AND UMM_FREELIST_MASK = UMM_PBLOCK m ?c AND UMM_FREELIST_MASK" "prev < ?c"
      "UMM_PBLOCK ?m ?c = prev" and r: "umm_check_blocks n ?m ?c = Some (m', True)"
      using st nc False by (auto split: if_splits)
    have lt: "65536 - unat ?c < 65536 - unat prev"
      using c(2) unat_u16[of ?c] by (simp add: word_less_nat_alt)
    from less.hyps[OF lt r] obtain bs where b: "sorted_wrt (<) (?c # bs)"
      "dll (blkno ?m) (\<lambda>x. UMM_PBLOCK ?m x AND UMM_BLOCKNO_MASK) (?c # bs)" "blkno ?m (last (?c # bs)) = 0"
      "list_all (\<lambda>x. x < n \<and> blkfree ?m x = (UMM_PBLOCK ?m x AND UMM_FREELIST_MASK \<noteq> 0)) bs" by blast
    have ne: "?c \<notin> set bs" using b(1) by auto
    have "dll (blkno m) (\<lambda>x. UMM_PBLOCK m x AND UMM_BLOCKNO_MASK) (?c # bs)"
      using b(2) by (subst dll_cong[where nx = "blkno ?m" and pv = "\<lambda>x. UMM_PBLOCK ?m x AND UMM_BLOCKNO_MASK"])
        (use ne in \<open>auto simp: mem_simps\<close>)
    moreover have "UMM_PBLOCK m ?c AND UMM_BLOCKNO_MASK = prev" using c(3) by (simp add: mem_simps)
    moreover have "list_all (\<lambda>x. x < n \<and> blkfree m x = (UMM_PBLOCK m x AND UMM_FREELIST_MASK \<noteq> 0)) (?c # bs)"
      using b(4) ne nc c(1) by (auto simp: list_all_iff mem_simps blkfree_def)
    moreover have "sorted_wrt (<) (prev # ?c # bs)" using b(1) c(2) by (auto intro: order.strict_trans)
    moreover have "blkno m (last (prev # ?c # bs)) = 0" using b(3) by (simp add: mem_simps)
    ultimately show ?thesis by (intro exI[of _ "?c # bs"]) simp
  qed
qed

subsection \<open>Properties\<close>

text \<open>(C23) The check always ends, whatever the memory holds: a free list or a block chain that has been
  corrupted into a cycle is detected and not followed forever.\<close>

theorem umm_integrity_terminates: "\<exists>s' ok. umm_integrity_check s = Some (s', ok)"
  by (rule integrity_ends)

text \<open>A well-formed heap passes the check, and the marks the check writes are all taken out again.\<close>

theorem umm_integrity_complete:
  assumes "umm_inv s"
  shows "umm_integrity_check s = Some (s, True)"
  by (rule integrity_accepts[OF assms])

theorem umm_integrity_complete_witness: "umm_integrity_check umm_ex = Some (umm_ex, True)"
  by (rule umm_integrity_complete[OF umm_ex_inv])

text \<open>A heap that passes the check, and whose back links carry no mark beforehand, has a strictly
  increasing doubly linked chain of blocks from block 0 that ends, a doubly linked free list
  without repetition that ends, all inside the heap, and a block of the chain is marked free
  exactly when it is on the free list.\<close>

theorem umm_integrity_sound:
  assumes "umm_integrity_check s = Some (s', True)" and "umm_heap s \<noteq> 0"
    and "\<forall>b. UMM_PBLOCK (umm_blk s) b < 0x8000"
  shows "\<exists>bs fs. let m = umm_blk s; n = umm_numblocks s in
    sorted_wrt (<) (0 # bs) \<and> dll (blkno m) (UMM_PBLOCK m) (0 # bs) \<and> blkno m (last (0 # bs)) = 0 \<and>
    dll (UMM_NFREE m) (UMM_PFREE m) (0 # fs) \<and> distinct (0 # fs) \<and> UMM_NFREE m (last (0 # fs)) = 0 \<and>
    list_all (\<lambda>b. b < n \<and> blkfree m b = (b \<in> set fs)) bs \<and> list_all (\<lambda>b. b < n) fs"
proof -
  let ?m = "umm_blk s" and ?n = "umm_numblocks s"
  have s: "umm_ensure_init s = s" using assms(2) by (simp add: umm_ensure_init_def)
  obtain m1 m2 where 1: "umm_check_free ?n ?m 0 = Some (m1, True)" and 2: "umm_check_blocks ?n m1 0 = Some (m2, True)"
    using assms(1) by (auto simp: umm_integrity_check_def s Let_def split: option.splits prod.splits bool.splits)
  from check_free_sound[OF 1, of "[0]"] obtain fs where f: "dll (UMM_NFREE ?m) (UMM_PFREE ?m) (0 # fs)"
    "distinct (0 # fs)" "UMM_NFREE ?m (last (0 # fs)) = 0" "m1 = umm_mark ?m (set fs)" "list_all (\<lambda>x. x < ?n) fs" by auto
  from check_blocks_sound[OF 2] obtain bs where b: "sorted_wrt (<) (0 # bs)"
    "dll (blkno m1) (\<lambda>x. UMM_PBLOCK m1 x AND UMM_BLOCKNO_MASK) (0 # bs)" "blkno m1 (last (0 # bs)) = 0"
    "list_all (\<lambda>x. x < ?n \<and> blkfree m1 x = (UMM_PBLOCK m1 x AND UMM_FREELIST_MASK \<noteq> 0)) bs" by blast
  have pb: "UMM_PBLOCK m1 x AND UMM_BLOCKNO_MASK = UMM_PBLOCK ?m x" for x
    using assms(3) by (simp add: f(4) umm_masks flag_simps)
  have pf: "(UMM_PBLOCK m1 x AND UMM_FREELIST_MASK \<noteq> 0) = (x \<in> set fs)" for x
    using assms(3) by (simp add: f(4) umm_masks flag_simps and_flag)
  have "dll (blkno ?m) (UMM_PBLOCK ?m) (0 # bs)" using b(2) unfolding pb by (simp add: f(4))
  moreover have "list_all (\<lambda>x. x < ?n \<and> blkfree ?m x = (x \<in> set fs)) bs" using b(4) unfolding pf by (simp add: f(4))
  ultimately show ?thesis using f b(1,3) unfolding Let_def by (intro exI[of _ bs] exI[of _ fs]) (simp add: f(4))
qed

theorem umm_integrity_sound_witness: "\<exists>bs. sorted_wrt (<) (0 # bs) \<and> blkno (umm_blk umm_ex) (last (0 # bs)) = 0"
proof -
  have "\<forall>b. UMM_PBLOCK (umm_blk umm_ex) b < 0x8000" by (simp add: umm_ex_links)
  moreover have "umm_heap umm_ex \<noteq> 0" by (simp add: umm_ex_def)
  ultimately show ?thesis
    using umm_integrity_sound[OF integrity_accepts[OF umm_ex_inv]] unfolding Let_def by blast
qed

end
