(* ===== verification/Umm_Info.thy ===== *)
theory Umm_Info
  imports Umm_Integrity
begin

section \<open>Heap statistics\<close>

text \<open>
  Models \<^verbatim>\<open>umm_info.c\<close>: the walk over the blocks that fills the statistics, the metrics computed
  from them, and the block lines \<open>umm_info_show\<close> prints. The C library's \<open>sqrtf\<close>, converted to
  \<open>uint32_t\<close>, is the parameter \<open>sqrt_u32\<close>. The statistics are 16-bit unsigned integers, as in
  \<^verbatim>\<open>UMM_HEAP_INFO\<close>.
\<close>

record umm_heap_info =
  totalEntries :: u16
  usedEntries :: u16
  freeEntries :: u16
  totalBlocks :: u16
  usedBlocks :: u16
  freeBlocks :: u16
  freeBlocksSquared :: u16
  maxFreeContiguousBlocks :: u16
  totalSize :: u16
  usedSize :: u16
  usage_metric :: u8
  fragmentation_metric :: u8

definition umm_info_zero :: umm_heap_info where
  "umm_info_zero = \<lparr>totalEntries = 0, usedEntries = 0, freeEntries = 0, totalBlocks = 0, usedBlocks = 0,
     freeBlocks = 0, freeBlocksSquared = 0, maxFreeContiguousBlocks = 0, totalSize = 0, usedSize = 0,
     usage_metric = 0, fragmentation_metric = 0\<rparr>"

text \<open>One turn of the loop, for the block \<open>b\<close>.\<close>

definition umm_info_step :: "umm_mem \<Rightarrow> u16 \<Rightarrow> umm_heap_info \<Rightarrow> umm_heap_info" where
  "umm_info_step m b i =
     (let curBlocks = (UMM_NBLOCK m b AND UMM_BLOCKNO_MASK) - b;
          i1 = i\<lparr>totalEntries := totalEntries i + 1, totalBlocks := totalBlocks i + curBlocks\<rparr>
      in if UMM_NBLOCK m b AND UMM_FREELIST_MASK \<noteq> 0
         then i1\<lparr>freeEntries := freeEntries i1 + 1, freeBlocks := freeBlocks i1 + curBlocks,
                freeBlocksSquared := freeBlocksSquared i1 + curBlocks * curBlocks,
                maxFreeContiguousBlocks :=
                  (if maxFreeContiguousBlocks i1 < curBlocks then curBlocks else maxFreeContiguousBlocks i1)\<rparr>
         else i1\<lparr>usedEntries := usedEntries i1 + 1, usedBlocks := usedBlocks i1 + curBlocks\<rparr>)"

text \<open>The loop; it stops early (second component) at a free block whose address is \<^verbatim>\<open>NULL\<close>.\<close>

partial_function (option) umm_info_walk ::
  "umm_state \<Rightarrow> u16 \<Rightarrow> umm_heap_info \<Rightarrow> (umm_heap_info \<times> bool) option" where
  "umm_info_walk s b i =
     (if UMM_NBLOCK (umm_blk s) b AND UMM_BLOCKNO_MASK = 0 then Some (i, False)
      else if UMM_NBLOCK (umm_blk s) b AND UMM_FREELIST_MASK \<noteq> 0 \<and> umm_heap s + 8 * b = 0
      then Some (umm_info_step (umm_blk s) b i, True)
      else umm_info_walk s (UMM_NBLOCK (umm_blk s) b AND UMM_BLOCKNO_MASK) (umm_info_step (umm_blk s) b i))"

definition umm_info_metrics :: "(u16 \<Rightarrow> u32) \<Rightarrow> umm_heap_info \<Rightarrow> umm_heap_info" where
  "umm_info_metrics sqrt_u32 i =
     (if freeBlocks i = 0
      then i\<lparr>usedSize := totalSize i, usage_metric := 100, fragmentation_metric := 0\<rparr>
      else
        let us = ucast ((ucast (totalSize i) * ucast (usedBlocks i)) div (ucast (totalBlocks i) :: u32)) :: u16
        in i\<lparr>usedSize := us,
            usage_metric := ucast ((ucast us * 100) div (ucast (totalSize i) :: u32)),
            fragmentation_metric :=
              ucast (100 - (sqrt_u32 (freeBlocksSquared i) * 100) div (ucast (freeBlocks i) :: u32))\<rparr>)"

definition umm_info :: "(u16 \<Rightarrow> u32) \<Rightarrow> umm_state \<Rightarrow> (umm_state \<times> umm_heap_info) option" where
  "umm_info sqrt_u32 s0 =
     (let s = umm_ensure_init s0;
          i0 = umm_info_zero\<lparr>totalSize := ucast (UMM_Heap_Size s)\<rparr>
      in case umm_info_walk s (UMM_NBLOCK (umm_blk s) 0 AND UMM_BLOCKNO_MASK) i0 of
           None \<Rightarrow> None
         | Some (i, True) \<Rightarrow> Some (s, i)
         | Some (i, False) \<Rightarrow> Some (s, umm_info_metrics sqrt_u32 i))"

text \<open>
  The block lines \<open>umm_info_show\<close> prints (block, next, previous, size, and the free links of a free
  block), with the block the walk stops at.
\<close>

type_synonym umm_info_line = "u16 \<times> u16 \<times> u16 \<times> u16 \<times> (u16 \<times> u16) option"

definition umm_info_line :: "umm_mem \<Rightarrow> u16 \<Rightarrow> umm_info_line" where
  "umm_info_line m b =
     (b, UMM_NBLOCK m b AND UMM_BLOCKNO_MASK, UMM_PBLOCK m b, (UMM_NBLOCK m b AND UMM_BLOCKNO_MASK) - b,
      if UMM_NBLOCK m b AND UMM_FREELIST_MASK \<noteq> 0 then Some (UMM_NFREE m b, UMM_PFREE m b) else None)"

partial_function (option) umm_info_lines :: "umm_state \<Rightarrow> u16 \<Rightarrow> (umm_info_line list \<times> u16 option) option" where
  "umm_info_lines s b =
     (if UMM_NBLOCK (umm_blk s) b AND UMM_BLOCKNO_MASK = 0 then Some ([], Some b)
      else if UMM_NBLOCK (umm_blk s) b AND UMM_FREELIST_MASK \<noteq> 0 \<and> umm_heap s + 8 * b = 0
      then Some ([umm_info_line (umm_blk s) b], None)
      else
        Option.bind (umm_info_lines s (UMM_NBLOCK (umm_blk s) b AND UMM_BLOCKNO_MASK))
          (\<lambda>(ls, e). Some (umm_info_line (umm_blk s) b # ls, e)))"

definition umm_info_show ::
  "(u16 \<Rightarrow> u32) \<Rightarrow> umm_state \<Rightarrow> (umm_state \<times> umm_info_line list \<times> umm_heap_info option) option" where
  "umm_info_show sqrt_u32 s0 =
     (let s = umm_ensure_init s0; m = umm_blk s;
          first = (0, UMM_NBLOCK m 0 AND UMM_BLOCKNO_MASK, UMM_PBLOCK m 0, (UMM_NBLOCK m 0 AND UMM_BLOCKNO_MASK) - 0,
                   Some (UMM_NFREE m 0, UMM_PFREE m 0))
      in case umm_info_lines s (UMM_NBLOCK m 0 AND UMM_BLOCKNO_MASK) of
           None \<Rightarrow> None
         | Some (ls, None) \<Rightarrow> Some (s, first # ls, None)
         | Some (ls, Some b) \<Rightarrow>
             map_option (\<lambda>(s', i). (s', first # ls @
               [(b, UMM_NBLOCK m b AND UMM_BLOCKNO_MASK, UMM_PBLOCK m b, umm_numblocks s - b,
                 Some (UMM_NFREE m b, UMM_PFREE m b))], Some i)) (umm_info sqrt_u32 s))"

subsection \<open>The walk visits the blocks between the first and the last\<close>

lemma step_simp:
  "umm_info_step m b i =
     (let i1 = i\<lparr>totalEntries := totalEntries i + 1, totalBlocks := totalBlocks i + blksize m b\<rparr>
      in if blkfree m b
         then i1\<lparr>freeEntries := freeEntries i + 1, freeBlocks := freeBlocks i + blksize m b,
                freeBlocksSquared := freeBlocksSquared i + blksize m b * blksize m b,
                maxFreeContiguousBlocks := max (maxFreeContiguousBlocks i) (blksize m b)\<rparr>
         else i1\<lparr>usedEntries := usedEntries i + 1, usedBlocks := usedBlocks i + blksize m b\<rparr>)"
  by (simp add: umm_info_step_def Let_def blksize_def blkno_def blkfree_def max_def not_less)

lemma info_walk_list:
  assumes "dll (blkno (umm_blk s)) pv (bs @ [z])" and "blkno (umm_blk s) z = 0" and "0 \<notin> set (tl bs @ [z])"
    and "\<And>b. b \<in> set bs \<Longrightarrow> umm_heap s + 8 * b \<noteq> 0"
  shows "umm_info_walk s (hd (bs @ [z])) i = Some (fold (umm_info_step (umm_blk s)) bs i, False)"
  using assms
proof (induction bs arbitrary: i)
  case Nil
  then show ?case by (subst umm_info_walk.simps) (simp add: blkno_def)
next
  case (Cons b bs)
  have n: "blkno (umm_blk s) b = hd (bs @ [z])" using Cons.prems(1) by (cases bs) auto
  have nz: "hd (bs @ [z]) \<noteq> 0" using Cons.prems(3) by (cases bs) auto
  have "umm_info_walk s (hd (bs @ [z])) (umm_info_step (umm_blk s) b i) =
      Some (fold (umm_info_step (umm_blk s)) bs (umm_info_step (umm_blk s) b i), False)"
    by (rule Cons.IH) (use Cons.prems in \<open>cases bs; auto\<close>)+
  then show ?case
    using n nz Cons.prems(4)[of b] by (subst umm_info_walk.simps) (simp add: blkno_def)
qed

lemma fold_info:
  fixes m :: umm_mem
  shows "totalEntries (fold (umm_info_step m) bs i) = totalEntries i + of_nat (length bs)"
    and "totalBlocks (fold (umm_info_step m) bs i) = totalBlocks i + sum_list (map (blksize m) bs)"
    and "freeEntries (fold (umm_info_step m) bs i) = freeEntries i + of_nat (length (filter (blkfree m) bs))"
    and "freeBlocks (fold (umm_info_step m) bs i) =
      freeBlocks i + sum_list (map (blksize m) (filter (blkfree m) bs))"
    and "freeBlocksSquared (fold (umm_info_step m) bs i) = freeBlocksSquared i +
      sum_list (map (\<lambda>b. blksize m b * blksize m b) (filter (blkfree m) bs))"
    and "maxFreeContiguousBlocks (fold (umm_info_step m) bs i) =
      fold max (map (blksize m) (filter (blkfree m) bs)) (maxFreeContiguousBlocks i)"
    and "totalSize (fold (umm_info_step m) bs i) = totalSize i"
  by (induction bs arbitrary: i) (simp_all add: step_simp Let_def ac_simps)

lemma fold_info_entries:
  fixes m :: umm_mem
  shows "usedEntries (fold (umm_info_step m) bs i) + freeEntries (fold (umm_info_step m) bs i) =
    usedEntries i + freeEntries i + of_nat (length bs)"
  by (induction bs arbitrary: i) (simp_all add: step_simp Let_def ac_simps)

lemma fold_info_blocks:
  fixes m :: umm_mem
  shows "usedBlocks (fold (umm_info_step m) bs i) + freeBlocks (fold (umm_info_step m) bs i) =
    usedBlocks i + freeBlocks i + sum_list (map (blksize m) bs)"
  by (induction bs arbitrary: i) (simp_all add: step_simp Let_def ac_simps)

lemma telescope:
  "dll (blkno m) pv (b # bs) \<Longrightarrow> sum_list (map (blksize m) (butlast (b # bs))) = last (b # bs) - b"
  by (induction bs arbitrary: b) (auto simp: blksize_def)

lemma info_ok:
  assumes inv: "umm_inv s"
  defines "mids \<equiv> butlast (tl (umm_block_list s))" and "m \<equiv> umm_blk s"
  shows "umm_info sq s = Some (s, umm_info_metrics sq
      (fold (umm_info_step m) mids (umm_info_zero\<lparr>totalSize := ucast (UMM_Heap_Size s)\<rparr>)))"
    and "sum_list (map (blksize m) mids) = umm_numblocks s - 2"
    and "set (filter (blkfree m) mids) = set (umm_free_list s)" and "distinct mids"
proof -
  let ?n = "umm_numblocks s"
  obtain bs fs where h: "umm_heap s \<noteq> 0" and a: "unat (umm_heap s) + 8 * unat ?n < 65536"
    and z: "blkno m 0 = 1" and wf: "umm_wf m ?n bs fs"
    using inv unfolding umm_inv_iff m_def by blast
  note W = wfD[OF wf]
  note C = chainD[OF W(1)] and F = flistD[OF W(1,2)]
  have bl: "umm_block_list s = bs" "umm_free_list s = fs" using wf_lists wf unfolding m_def by auto
  obtain xs where bs: "bs = 0 # xs @ [?n - 1]"
  proof -
    obtain ys where y: "bs = 0 # ys" using C(3,4) by (cases bs) auto
    then have "ys \<noteq> []" using C(5,14) by auto
    then have "ys = butlast ys @ [?n - 1]" using C(5) y append_butlast_last_id[of ys] by simp
    then show ?thesis using that y by simp
  qed
  have mids: "mids = xs" unfolding mids_def bl bs by simp
  have d: "dll (blkno m) (UMM_PBLOCK m) (xs @ [?n - 1])" using C(7) unfolding bs by (cases xs) auto
  have dist: "distinct (0 # xs @ [?n - 1])" using C(11) bs by simp
  show "distinct mids" using dist mids by simp
  have hd1: "hd (xs @ [?n - 1]) = 1" using C(7) z unfolding bs by (cases xs) auto
  have nn: "umm_heap s + 8 * b \<noteq> 0" if "b \<in> set xs" for b
  proof
    assume e: "umm_heap s + 8 * b = 0"
    have "b \<le> ?n - 1" using chain_last_max[OF W(1)] that bs by auto
    moreover have "?n - 1 < ?n" using C(1) by unat_arith
    ultimately have b: "unat b < unat ?n" unfolding word_le_nat_alt word_less_nat_alt by linarith
    have "unat (8 * b) = 8 * unat b" using b a by (subst unat_word_ariths(2)) simp
    then have "unat (umm_heap s + 8 * b) = unat (umm_heap s) + 8 * unat b"
      using b a by (subst unat_add_no_wrap) auto
    then show False using e h by (simp add: unat_eq_0)
  qed
  have "umm_info_walk s (hd (xs @ [?n - 1])) i = Some (fold (umm_info_step m) xs i, False)" for i
    unfolding m_def
  proof (rule info_walk_list)
    show "0 \<notin> set (tl xs @ [?n - 1])" using dist by (cases xs) auto
  qed (use d C(10) nn in \<open>simp_all add: m_def\<close>)
  then have w: "umm_info_walk s 1 i = Some (fold (umm_info_step m) xs i, False)" for i using hd1 by simp
  have s: "umm_ensure_init s = s" using h by (simp add: umm_ensure_init_def)
  have u: "UMM_NBLOCK m 0 AND UMM_BLOCKNO_MASK = 1" using z by (simp add: blkno_def)
  show "umm_info sq s = Some (s, umm_info_metrics sq
      (fold (umm_info_step m) mids (umm_info_zero\<lparr>totalSize := ucast (UMM_Heap_Size s)\<rparr>)))"
    unfolding umm_info_def s Let_def m_def[symmetric] u w mids by simp
  have xs: "xs \<noteq> []"
  proof
    assume "xs = []"
    then have "?n - 1 = 1" using hd1 by simp
    then show False using C(1) by (metis add.commute diff_add_cancel one_add_one order.irrefl)
  qed
  have "sum_list (map (blksize m) (butlast (xs @ [?n - 1]))) = last (xs @ [?n - 1]) - hd (xs @ [?n - 1])"
    using telescope[of m "UMM_PBLOCK m" "hd xs" "tl xs @ [?n - 1]"] d xs by (cases xs) auto
  then show "sum_list (map (blksize m) mids) = ?n - 2" using hd1 mids by simp
  show "set (filter (blkfree m) mids) = set (umm_free_list s)"
    unfolding bl mids using F(3) bs C(8,9) by auto
qed

lemma metrics_keep [simp]:
  "totalEntries (umm_info_metrics sq i) = totalEntries i" "usedEntries (umm_info_metrics sq i) = usedEntries i"
  "freeEntries (umm_info_metrics sq i) = freeEntries i" "totalBlocks (umm_info_metrics sq i) = totalBlocks i"
  "usedBlocks (umm_info_metrics sq i) = usedBlocks i" "freeBlocks (umm_info_metrics sq i) = freeBlocks i"
  "maxFreeContiguousBlocks (umm_info_metrics sq i) = maxFreeContiguousBlocks i"
  by (simp_all add: umm_info_metrics_def Let_def)

lemma zero_fields [simp]:
  "totalEntries umm_info_zero = 0" "usedEntries umm_info_zero = 0" "freeEntries umm_info_zero = 0"
  "totalBlocks umm_info_zero = 0" "usedBlocks umm_info_zero = 0" "freeBlocks umm_info_zero = 0"
  "freeBlocksSquared umm_info_zero = 0" "maxFreeContiguousBlocks umm_info_zero = 0"
  by (simp_all add: umm_info_zero_def)

lemma fold_max:
  fixes z :: "'a :: linorder"
  shows "list_all (\<lambda>x. x \<le> fold max xs z) xs \<and> z \<le> fold max xs z \<and> (fold max xs z = z \<or> fold max xs z \<in> set xs)"
proof (induction xs arbitrary: z)
  case (Cons x xs)
  from Cons[of "max x z"] show ?case by (auto simp: max_def split: if_splits)
qed simp

subsection \<open>Properties\<close>

text \<open>On a well-formed heap \<open>umm_info\<close> returns without touching the heap, and its counters are
  right: the blocks add up to all blocks but the first and the last, used and free ones add up to
  the totals, the free entries are those of the free list, and the largest free block is the
  largest size on the free list.\<close>

theorem umm_info_correct:
  assumes "umm_inv s"
  shows "\<exists>i. umm_info sqrt_u32 s = Some (s, i) \<and>
    totalEntries i = of_nat (length (umm_block_list s) - 2) \<and> totalBlocks i = umm_numblocks s - 2 \<and>
    usedEntries i + freeEntries i = totalEntries i \<and> usedBlocks i + freeBlocks i = totalBlocks i \<and>
    freeEntries i = of_nat (length (umm_free_list s)) \<and>
    list_all (\<lambda>b. blksize (umm_blk s) b \<le> maxFreeContiguousBlocks i) (umm_free_list s) \<and>
    (if umm_free_list s = [] then maxFreeContiguousBlocks i = 0
     else maxFreeContiguousBlocks i \<in> blksize (umm_blk s) ` set (umm_free_list s))"
proof -
  let ?m = "umm_blk s" and ?mids = "butlast (tl (umm_block_list s))" and ?fs = "umm_free_list s"
  let ?i = "fold (umm_info_step ?m) ?mids (umm_info_zero\<lparr>totalSize := ucast (UMM_Heap_Size s)\<rparr>)"
  note I = info_ok[OF assms]
  obtain bs fs where wf: "umm_wf ?m (umm_numblocks s) bs fs" using assms unfolding umm_inv_iff by blast
  have df: "distinct ?fs" using flistD(2)[OF wfD(1,2)[OF wf]] wf_lists(2)[OF wf] by simp
  have len: "length (filter (blkfree ?m) ?mids) = length ?fs"
    using I(3,4) df distinct_card by (metis distinct_filter)
  have mx: "maxFreeContiguousBlocks ?i = fold max (map (blksize ?m) (filter (blkfree ?m) ?mids)) 0"
    by (simp add: fold_info)
  note M = fold_max[of "map (blksize ?m) (filter (blkfree ?m) ?mids)" 0, folded mx]
  have 1: "list_all (\<lambda>b. blksize ?m b \<le> maxFreeContiguousBlocks ?i) ?fs"
    using M I(3) by (auto simp: list_all_iff)
  have 2: "if ?fs = [] then maxFreeContiguousBlocks ?i = 0 else maxFreeContiguousBlocks ?i \<in> blksize ?m ` set ?fs"
  proof (cases "?fs = []")
    case True
    then have "filter (blkfree ?m) ?mids = []" using len by simp
    then show ?thesis using True mx by simp
  next
    case False
    have pos: "0 < blksize ?m b" if "b \<in> set ?fs" for b
      using blksize_bound(2)[OF wfD(1)[OF wf]] flistD(5)[OF wfD(1,2)[OF wf]] that wf_lists(2)[OF wf] by blast
    have "maxFreeContiguousBlocks ?i \<noteq> 0"
    proof
      assume z: "maxFreeContiguousBlocks ?i = 0"
      obtain b where b: "b \<in> set ?fs" using False by (cases ?fs) auto
      then have "blksize ?m b \<le> 0" using 1 z by (auto simp: list_all_iff)
      then show False using pos[OF b] by simp
    qed
    then have "maxFreeContiguousBlocks ?i \<in> set (map (blksize ?m) (filter (blkfree ?m) ?mids))" using M by blast
    then show ?thesis using False I(3) by auto
  qed
  have "sum_list (map (blksize ?m) ?mids) = umm_numblocks s - 2" by (rule I(2))
  moreover have "length ?mids = length (umm_block_list s) - 2" by simp
  ultimately show ?thesis
    using I(1)[of sqrt_u32] 1 2 len fold_info(1-3)[of ?m ?mids] fold_info_entries[of ?m ?mids] fold_info_blocks[of ?m ?mids]
    by (intro exI[of _ "umm_info_metrics sqrt_u32 ?i"]) simp
qed

theorem umm_info_correct_witness:
  "\<exists>i. umm_info (\<lambda>x. 0) umm_ex = Some (umm_ex, i) \<and> totalBlocks i = 6"
proof -
  have "umm_numblocks umm_ex - 2 = 6" by (simp add: umm_ex_def)
  then show ?thesis using umm_info_correct[OF umm_ex_inv, of "\<lambda>x. 0"] by auto
qed

text \<open>The fragmentation metric is wrong for a free block of 256 blocks or more, because the square is
  summed in 16 bits: with any truncated square root, a freshly initialised 8 KB heap, all of it one
  free block, reports at least 76 percent fragmentation.\<close>

theorem umm_info_fragmentation_wraps:
  assumes "umm_init_pre s" and "UMM_Heap_Size s = 8192" and "umm_heap s = 0"
    and "\<forall>x. unat (sqrt_u32 x) * unat (sqrt_u32 x) \<le> unat x"
  shows "\<exists>i. umm_info sqrt_u32 s = Some (umm_init s, i) \<and> freeEntries i = 1 \<and> usedEntries i = 0 \<and>
    76 \<le> fragmentation_metric i"
proof -
  let ?s = "umm_init s"
  note I = init_ok[OF assms(1)]
  have wf: "umm_wf (umm_blk ?s) 1024 [0, 1, 1023] [1]" and nb: "umm_numblocks ?s = 1024" using I(1,2) assms(2) by simp_all
  have bl: "umm_block_list ?s = [0, 1, 1023]" "umm_free_list ?s = [1]" using wf_lists wf nb by auto
  have e: "umm_ensure_init s = ?s" "umm_ensure_init ?s = ?s"
    using assms(1,3) I(4) by (auto simp: umm_ensure_init_def umm_init_pre_def)
  have "blkno (umm_blk ?s) 1 = 1023" using chainD(7)[OF wfD(1)[OF wf]] by simp
  then have bz: "blksize (umm_blk ?s) 1 = 1022" by (simp add: blksize_def)
  have "1 \<in> set [1 :: u16]" by simp
  then have fr: "blkfree (umm_blk ?s) 1" using flistD(5)[OF wfD(1,2)[OF wf]] by blast
  let ?i = "umm_info_step (umm_blk ?s) 1 (umm_info_zero\<lparr>totalSize := ucast (UMM_Heap_Size ?s)\<rparr>)"
  have "umm_info sqrt_u32 ?s = Some (?s, umm_info_metrics sqrt_u32 ?i)"
    using info_ok(1)[OF I(5), of sqrt_u32] by (simp add: bl)
  then have r: "umm_info sqrt_u32 s = Some (?s, umm_info_metrics sqrt_u32 ?i)"
    by (simp add: umm_info_def e)
  have f: "freeBlocks ?i = 1022" "freeBlocksSquared ?i = 61444" "freeEntries ?i = 1" "usedEntries ?i = 0"
    using fr bz by (simp_all add: step_simp Let_def)
  let ?q = "sqrt_u32 61444"
  have "unat ?q * unat ?q \<le> unat (61444 :: u16)" using assms(4) by blast
  then have q: "unat ?q \<le> 247"
  proof -
    assume a: "unat ?q * unat ?q \<le> unat (61444 :: u16)"
    show ?thesis
    proof (rule ccontr)
      assume "\<not> unat ?q \<le> 247"
      then have "248 * 248 \<le> unat ?q * unat ?q" by (intro mult_le_mono) auto
      then show False using a by simp
    qed
  qed
  have m: "unat (?q * 100) = unat ?q * 100" using q by (subst unat_word_ariths(2)) simp
  have d: "unat ((?q * 100) div 1022) = unat ?q * 100 div 1022" by (simp add: unat_div m)
  have d24: "unat ?q * 100 div 1022 \<le> 24" using q by simp
  have s1: "unat (100 - (?q * 100) div 1022) = 100 - unat ?q * 100 div 1022"
    by (subst unat_sub_le) (use d d24 in \<open>simp_all add: word_le_nat_alt\<close>)
  have "fragmentation_metric (umm_info_metrics sqrt_u32 ?i) = ucast (100 - (?q * 100) div 1022)"
    using f(1,2) by (simp add: umm_info_metrics_def Let_def)
  then have "unat (fragmentation_metric (umm_info_metrics sqrt_u32 ?i)) = 100 - unat ?q * 100 div 1022"
    by (simp add: unat_ucast_mod s1)
  then have "76 \<le> fragmentation_metric (umm_info_metrics sqrt_u32 ?i)"
    using d24 by (simp add: word_le_nat_alt)
  then show ?thesis using r f(3,4) by auto
qed

theorem umm_info_fragmentation_wraps_witness:
  "\<exists>i. umm_info (\<lambda>x. 0) (umm_ex\<lparr>umm_heap := 0, UMM_Heap_Size := 8192\<rparr>) =
     Some (umm_init (umm_ex\<lparr>umm_heap := 0, UMM_Heap_Size := 8192\<rparr>), i) \<and> freeEntries i = 1 \<and> usedEntries i = 0 \<and>
     76 \<le> fragmentation_metric i"
  by (rule umm_info_fragmentation_wraps) (simp_all add: umm_init_pre_def umm_ex_def)

end
