(* ===== verification/Scratch_String.thy ===== *)
theory Scratch_String
  imports Prelude
begin

section \<open>Byte operations on extended data space\<close>

text \<open>
  Models \<^verbatim>\<open>ScratchLibc/string/string.c\<close>: the four EDS string functions as their loops, over the
  linear 32-bit byte memory that \<^verbatim>\<open>auto_eds\<close> pointers address. Index \<open>i\<close> of the loop is added to the
  pointer in 32 bits.
\<close>

type_synonym eds_mem = "u32 \<Rightarrow> u8"

text \<open>The memory after \<open>n\<close> turns of each loop.\<close>

primrec memset_turns :: "u32 \<Rightarrow> u16 \<Rightarrow> nat \<Rightarrow> eds_mem \<Rightarrow> eds_mem" where
  "memset_turns p c 0 m = m"
| "memset_turns p c (Suc n) m = (memset_turns p c n m)(p + of_nat n := ucast c)"

definition memset_eds :: "eds_mem \<Rightarrow> u32 \<Rightarrow> u16 \<Rightarrow> u32 \<Rightarrow> eds_mem" where
  "memset_eds m p c len = memset_turns p c (unat len) m"

primrec memcpy_turns :: "u32 \<Rightarrow> u32 \<Rightarrow> nat \<Rightarrow> eds_mem \<Rightarrow> eds_mem" where
  "memcpy_turns dest src 0 m = m"
| "memcpy_turns dest src (Suc n) m =
     (let m' = memcpy_turns dest src n m in m'(dest + of_nat n := m' (src + of_nat n)))"

definition memcpy_eds :: "eds_mem \<Rightarrow> u32 \<Rightarrow> u32 \<Rightarrow> u32 \<Rightarrow> eds_mem" where
  "memcpy_eds m dest src len = memcpy_turns dest src (unat len) m"

primrec memmove_turns :: "u32 \<Rightarrow> u32 \<Rightarrow> nat \<Rightarrow> eds_mem \<Rightarrow> eds_mem" where
  "memmove_turns dest src 0 m = m"
| "memmove_turns dest src (Suc n) m =
     (let m' = memmove_turns dest src n m; buf = m' (src + of_nat n) in m'(dest + of_nat n := buf))"

definition memmove_eds :: "eds_mem \<Rightarrow> u32 \<Rightarrow> u32 \<Rightarrow> u32 \<Rightarrow> eds_mem" where
  "memmove_eds m dest src len = memmove_turns dest src (unat len) m"

fun memcmp_from :: "eds_mem \<Rightarrow> u32 \<Rightarrow> u32 \<Rightarrow> nat list \<Rightarrow> u16" where
  "memcmp_from m s1 s2 [] = 0"
| "memcmp_from m s1 s2 (i # is) =
     (if m (s1 + of_nat i) \<noteq> m (s2 + of_nat i) then 1 else memcmp_from m s1 s2 is)"

definition memcmp_eds :: "eds_mem \<Rightarrow> u32 \<Rightarrow> u32 \<Rightarrow> u32 \<Rightarrow> u16" where
  "memcmp_eds m s1 s2 n = memcmp_from m s1 s2 [0..<unat n]"

lemma memmove_turns_eq: "memmove_turns dest src n m = memcpy_turns dest src n m"
  by (induction n) (simp_all add: Let_def)

lemma memmove_is_memcpy: "memmove_eds = memcpy_eds"
  by (simp add: fun_eq_iff memmove_eds_def memcpy_eds_def memmove_turns_eq)

lemma memcmp_from_eq: "memcmp_from m s1 s2 is = (if list_all (\<lambda>i. m (s1 + of_nat i) = m (s2 + of_nat i)) is then 0 else 1)"
  by (induction "is") auto

text \<open>Distinct offsets below \<open>2 ^ 32\<close> address distinct bytes.\<close>

lemma eds_addr_eq:
  assumes "i < 4294967296" and "j < 4294967296"
  shows "(p :: u32) + of_nat i = p + of_nat j \<longleftrightarrow> i = j"
proof -
  have "unat (of_nat i :: u32) = i" "unat (of_nat j :: u32) = j" using assms by (simp_all add: unat_of_nat)
  then show ?thesis by (metis add_left_cancel)
qed

lemma memset_fold:
  assumes "n \<le> 4294967296"
  shows "memset_turns p c n m a = (if \<exists>i < n. a = p + of_nat i then ucast c else m a)"
  using assms by (induction n) (auto simp: less_Suc_eq)

text \<open>
  The forward copy, when the destination starts \<open>d\<close> bytes above the source: byte \<open>i\<close> comes from
  byte \<open>i mod d\<close> of the source.
\<close>

lemma copy_up:
  assumes "0 < d" and "n + d \<le> 4294967296"
  shows "memcpy_turns (src + of_nat d) src n m a =
    (if \<exists>i < n. a = src + of_nat (d + i) then m (src + of_nat ((unat (a - src) - d) mod d)) else m (a :: u32))"
  using assms(2)
proof (induction n arbitrary: a)
  case (Suc n)
  let ?f = "\<lambda>n. memcpy_turns (src + of_nat d) src n m"
  have le: "n + d \<le> 4294967296" using Suc.prems by simp
  have off: "unat (src + of_nat k - src) = k" if "k < 4294967296" for k
    using that by (simp add: unat_of_nat)
  have src: "?f n (src + of_nat n) = m (src + of_nat (n mod d))"
  proof (cases "n < d")
    case True
    have nx: "\<not> (\<exists>i < n. src + of_nat n = src + of_nat (d + i))"
      using eds_addr_eq[of n _ src] True Suc.prems by (auto simp del: of_nat_add)
    show ?thesis using True by (simp only: Suc.IH[OF le] if_not_P[OF nx] mod_less)
  next
    case False
    then have "\<exists>i < n. src + of_nat n = src + of_nat (d + i)"
      using assms(1) by (intro exI[of _ "n - d"]) auto
    then show ?thesis using Suc.IH[OF le, of "src + of_nat n"] off[of n] False Suc.prems
      by (simp add: le_mod_geq)
  qed
  show ?case
  proof (cases "a = src + of_nat (d + n)")
    case True
    have "?f (Suc n) a = ?f n (src + of_nat n)" using True by (simp add: Let_def ac_simps)
    also have "\<dots> = m (src + of_nat ((unat (a - src) - d) mod d))"
      unfolding src True using off[of "d + n"] Suc.prems by (simp add: ac_simps)
    finally show ?thesis using True by auto
  next
    case False
    then have "?f (Suc n) a = ?f n a" by (simp add: Let_def ac_simps)
    also have "\<dots> = (if \<exists>i < n. a = src + of_nat (d + i) then m (src + of_nat ((unat (a - src) - d) mod d)) else m a)"
      by (rule Suc.IH[OF le])
    also have "(\<exists>i < n. a = src + of_nat (d + i)) = (\<exists>i < Suc n. a = src + of_nat (d + i))"
      using False by (auto simp: less_Suc_eq)
    finally show ?thesis .
  qed
qed simp

text \<open>The forward copy, when the destination does not lie above the source within the range copied.\<close>

lemma copy_down:
  assumes "\<And>i j. i < n \<Longrightarrow> j < i \<Longrightarrow> dest + of_nat j \<noteq> (src + of_nat i :: u32)" and "n \<le> 4294967296"
  shows "memcpy_turns dest src n m a =
    (if \<exists>i < n. a = dest + of_nat i then m (src + (a - dest)) else m a)"
  using assms
proof (induction n arbitrary: a)
  case (Suc n)
  let ?f = "\<lambda>n. memcpy_turns dest src n m"
  have IH: "?f n a = (if \<exists>i < n. a = dest + of_nat i then m (src + (a - dest)) else m a)" for a
    using Suc.prems by (intro Suc.IH) auto
  have nx: "\<not> (\<exists>i < n. src + of_nat n = dest + of_nat i)" using Suc.prems(1)[of n] by (simp, metis)
  have "?f n (src + of_nat n) = m (src + of_nat n)" by (simp only: IH if_not_P[OF nx])
  then show ?case using IH[of a] by (auto simp: less_Suc_eq Let_def)
qed simp

subsection \<open>Properties\<close>

text \<open>\<open>memset_eds\<close> sets exactly the \<open>len\<close> bytes from \<open>p\<close> to the low byte of \<open>c\<close>.\<close>

theorem memset_eds_correct:
  "memset_eds m p c len a = (if unat (a - p) < unat len then ucast c else m a)"
proof -
  have "(\<exists>i < unat len. a = p + of_nat i) \<longleftrightarrow> unat (a - p) < unat len"
  proof
    assume "\<exists>i < unat len. a = p + of_nat i"
    then obtain i where "i < unat len" "a = p + of_nat i" by blast
    then show "unat (a - p) < unat len" using unat_u32[of len] by (simp add: unat_of_nat)
  next
    assume "unat (a - p) < unat len"
    then show "\<exists>i < unat len. a = p + of_nat i" by (intro exI[of _ "unat (a - p)"]) simp
  qed
  then show ?thesis
    unfolding memset_eds_def using memset_fold[of "unat len" p c m a] unat_u32[of len] by simp
qed

text \<open>\<open>memmove_eds\<close> to a lower address (or to a range that does not meet the source) is a
  correct move: every byte of the destination is the old byte of the source, the rest is kept.\<close>

theorem memmove_eds_down:
  assumes "unat dest \<le> unat src" and "unat src + unat len \<le> 2 ^ 32"
  shows "memmove_eds m dest src len a =
    (if unat (a - dest) < unat len then m (src + (a - dest)) else m a)"
proof -
  have no: "dest + of_nat j \<noteq> src + of_nat i" if "i < unat len" "j < i" for i j
  proof
    assume e: "dest + of_nat j = src + of_nat i"
    have "unat (dest + of_nat j) = unat dest + j" "unat (src + of_nat i) = unat src + i"
      using that assms by (subst unat_add_no_wrap; simp add: unat_of_nat)+
    then show False using e assms(1) that(2) by simp
  qed
  have "(\<exists>i < unat len. a = dest + of_nat i) \<longleftrightarrow> unat (a - dest) < unat len"
  proof
    assume "\<exists>i < unat len. a = dest + of_nat i"
    then obtain i where "i < unat len" "a = dest + of_nat i" by blast
    then show "unat (a - dest) < unat len" using unat_u32[of len] by (simp add: unat_of_nat)
  next
    assume "unat (a - dest) < unat len"
    then show "\<exists>i < unat len. a = dest + of_nat i" by (intro exI[of _ "unat (a - dest)"]) simp
  qed
  then show ?thesis
    unfolding memmove_is_memcpy memcpy_eds_def
    using copy_down[of "unat len" dest src m a, OF no] unat_u32[of len] by simp
qed

theorem memmove_eds_down_witness:
  "memmove_eds (\<lambda>a. ucast a) 0x8000 0x8001 3 0x8001 = 2"
  using memmove_eds_down[of "0x8000" "0x8001" 3 "\<lambda>a. ucast a" "0x8001"] by simp

text \<open>\<open>memmove_eds\<close> to a higher address copies forward and so is not a move when the ranges overlap:
  with the destination \<open>d\<close> bytes above the source, the first \<open>d\<close> bytes of the source are repeated
  over the whole destination.\<close>

theorem memmove_eds_up:
  assumes "0 < d" and "unat len + unat d \<le> 2 ^ 32" and "i < unat len"
  shows "memmove_eds m (src + d) src len (src + d + of_nat i) = m (src + of_nat (i mod unat d))"
proof -
  have d: "src + of_nat (unat d) = src + d" by simp
  have "0 < unat d" using assms(1) by (simp add: unat_gt_0)
  note C = copy_up[OF this, of "unat len" src m "src + d + of_nat i", unfolded d]
  have "\<exists>j < unat len. src + d + of_nat i = src + of_nat (unat d + j)" using assms(3) by auto
  moreover have "unat (src + d + of_nat i - src) = unat d + i"
  proof -
    have "src + d + of_nat i - src = d + of_nat i" by simp
    then show ?thesis using assms(2,3) by (simp only:) (subst unat_add_no_wrap; simp add: unat_of_nat)
  qed
  ultimately show ?thesis
    unfolding memmove_is_memcpy memcpy_eds_def using C assms(2) by simp
qed

theorem memmove_eds_up_witness:
  "memmove_eds (\<lambda>a. ucast a) (0x8000 + 1) 0x8000 3 (0x8000 + 1 + of_nat 2) = 0"
  using memmove_eds_up[of 1 3 2 "\<lambda>a. ucast a" "0x8000"] by simp

text \<open>\<open>memcmp_eds\<close> is 0 exactly when the two ranges hold the same bytes, and 1 otherwise (it does not
  order them).\<close>

theorem memcmp_eds_correct:
  "memcmp_eds m s1 s2 n = (if list_all (\<lambda>i. m (s1 + of_nat i) = m (s2 + of_nat i)) [0..<unat n] then 0 else 1)"
  by (simp add: memcmp_eds_def memcmp_from_eq)

end
