(* ===== verification/Umm_Eds.thy ===== *)
theory Umm_Eds
  imports Umm_Info Scratch_String
begin

section \<open>The allocator for extended data space\<close>

text \<open>
  Models \<^verbatim>\<open>umm_malloc_eds/umm_eds_malloc.c\<close>, \<^verbatim>\<open>umm_eds_integrity.c\<close> and \<^verbatim>\<open>umm_eds_info.c\<close>. The
  code is a copy of the main allocator over 32-bit pointers and sizes. Blocks are the same, so the
  block-level functions are shown equal to those of the main allocator and inherit their
  theorems; the functions over addresses and sizes differ, and their differences are stated.
  An EDS pointer is a linear 32-bit address. The state holds the main allocator's state as well,
  because the code reads two of its variables.
\<close>

subsection \<open>Blocks\<close>

definition umm_eds_split_block :: "umm_mem \<Rightarrow> u16 \<Rightarrow> u16 \<Rightarrow> u16 \<Rightarrow> umm_mem" where
  "umm_eds_split_block m c blocks new_freemask =
     (let m1 = set_NBLOCK m (c + blocks) ((UMM_NBLOCK m c AND UMM_BLOCKNO_MASK) OR new_freemask);
          m2 = set_PBLOCK m1 (c + blocks) c;
          m3 = set_PBLOCK m2 (UMM_NBLOCK m2 c AND UMM_BLOCKNO_MASK) (c + blocks)
      in set_NBLOCK m3 c (c + blocks))"

definition umm_eds_disconnect_from_free_list :: "umm_mem \<Rightarrow> u16 \<Rightarrow> umm_mem" where
  "umm_eds_disconnect_from_free_list m c =
     (let m1 = set_NFREE m (UMM_PFREE m c) (UMM_NFREE m c);
          m2 = set_PFREE m1 (UMM_NFREE m1 c) (UMM_PFREE m1 c)
      in set_NBLOCK m2 c (UMM_NBLOCK m2 c AND NOT UMM_FREELIST_MASK))"

definition umm_eds_assimilate_up :: "umm_mem \<Rightarrow> u16 \<Rightarrow> umm_mem" where
  "umm_eds_assimilate_up m c =
     (if UMM_NBLOCK m (UMM_NBLOCK m c) AND UMM_FREELIST_MASK \<noteq> 0
      then
        let m1 = umm_eds_disconnect_from_free_list m (UMM_NBLOCK m c);
            m2 = set_PBLOCK m1 (UMM_NBLOCK m1 (UMM_NBLOCK m1 c) AND UMM_BLOCKNO_MASK) c
        in set_NBLOCK m2 c (UMM_NBLOCK m2 (UMM_NBLOCK m2 c) AND UMM_BLOCKNO_MASK)
      else m)"

definition umm_eds_assimilate_down :: "umm_mem \<Rightarrow> u16 \<Rightarrow> u16 \<Rightarrow> umm_mem \<times> u16" where
  "umm_eds_assimilate_down m c freemask =
     (let m1 = set_NBLOCK m (UMM_PBLOCK m c) (UMM_NBLOCK m c OR freemask);
          m2 = set_PBLOCK m1 (UMM_NBLOCK m1 c) (UMM_PBLOCK m1 c)
      in (m2, UMM_PBLOCK m2 c))"

definition umm_eds_free_block :: "umm_mem \<Rightarrow> u16 \<Rightarrow> umm_mem" where
  "umm_eds_free_block m0 c =
     (let m = umm_eds_assimilate_up m0 c
      in if UMM_NBLOCK m (UMM_PBLOCK m c) AND UMM_FREELIST_MASK \<noteq> 0
         then fst (umm_eds_assimilate_down m c UMM_FREELIST_MASK)
         else
           let m1 = set_PFREE m (UMM_NFREE m 0) c;
               m2 = set_NFREE m1 c (UMM_NFREE m1 0);
               m3 = set_PFREE m2 c 0;
               m4 = set_NFREE m3 0 c
           in set_NBLOCK m4 c (UMM_NBLOCK m4 c OR UMM_FREELIST_MASK))"

partial_function (option) umm_eds_scan ::
  "umm_mem \<Rightarrow> u16 \<Rightarrow> u16 \<Rightarrow> u16 \<Rightarrow> u16 \<Rightarrow> u16 \<Rightarrow> (u16 \<times> u16 \<times> u16 \<times> u16) option" where
  "umm_eds_scan m blocks cf blockSize bestBlock bestSize =
     (if cf = 0 then Some (cf, blockSize, bestBlock, bestSize)
      else
        let blockSize' = (UMM_NBLOCK m cf AND UMM_BLOCKNO_MASK) - cf
        in if blocks \<le> blockSize' \<and> blockSize' < bestSize
           then umm_eds_scan m blocks (UMM_NFREE m cf) blockSize' cf blockSize'
           else umm_eds_scan m blocks (UMM_NFREE m cf) blockSize' bestBlock bestSize)"

definition umm_eds_malloc_split :: "umm_mem \<Rightarrow> u16 \<Rightarrow> u16 \<Rightarrow> umm_mem" where
  "umm_eds_malloc_split m cf blocks =
     (let m1 = umm_eds_split_block m cf blocks UMM_FREELIST_MASK;
          m2 = set_NFREE m1 (UMM_PFREE m1 cf) (cf + blocks);
          m3 = set_PFREE m2 (cf + blocks) (UMM_PFREE m2 cf);
          m4 = set_PFREE m3 (UMM_NFREE m3 cf) (cf + blocks)
      in set_NFREE m4 (cf + blocks) (UMM_NFREE m4 cf))"

definition umm_eds_malloc_block :: "umm_mem \<Rightarrow> u16 \<Rightarrow> (umm_mem \<times> u16 option) option" where
  "umm_eds_malloc_block m blocks =
     (case umm_eds_scan m blocks (UMM_NFREE m 0) 0 (UMM_NFREE m 0) 0x7FFF of
        None \<Rightarrow> None
      | Some (cf0, blockSize0, bestBlock, bestSize) \<Rightarrow>
          let cf = (if 0x7FFF \<noteq> bestSize then bestBlock else cf0);
              blockSize = (if 0x7FFF \<noteq> bestSize then bestSize else blockSize0)
          in if UMM_NBLOCK m cf AND UMM_BLOCKNO_MASK \<noteq> 0 \<and> blocks \<le> blockSize
             then if blockSize = blocks
                  then Some (umm_eds_disconnect_from_free_list m cf, Some cf)
                  else Some (umm_eds_malloc_split m cf blocks, Some cf)
             else Some (m, None))"

partial_function (option) umm_eds_check_free :: "u16 \<Rightarrow> umm_mem \<Rightarrow> u16 \<Rightarrow> (umm_mem \<times> bool) option" where
  "umm_eds_check_free n m prev =
     (let cur = UMM_NFREE m prev in
      if n \<le> cur then Some (m, False)
      else if cur = 0 then Some (m, True)
      else if UMM_PFREE m cur \<noteq> prev then Some (m, False)
      else umm_eds_check_free n (set_PBLOCK m cur (UMM_PBLOCK m cur OR UMM_FREELIST_MASK)) cur)"

partial_function (option) umm_eds_check_blocks :: "u16 \<Rightarrow> umm_mem \<Rightarrow> u16 \<Rightarrow> (umm_mem \<times> bool) option" where
  "umm_eds_check_blocks n m prev =
     (let cur = UMM_NBLOCK m prev AND UMM_BLOCKNO_MASK in
      if n \<le> cur then Some (m, False)
      else if cur = 0 then Some (m, True)
      else if UMM_NBLOCK m cur AND UMM_FREELIST_MASK \<noteq> UMM_PBLOCK m cur AND UMM_FREELIST_MASK
      then Some (m, False)
      else if cur \<le> prev then Some (m, False)
      else
        let m1 = set_PBLOCK m cur (UMM_PBLOCK m cur AND UMM_BLOCKNO_MASK)
        in if UMM_PBLOCK m1 cur \<noteq> prev then Some (m1, False)
           else umm_eds_check_blocks n m1 cur)"



lemma eds_blocks_same:
  "umm_eds_split_block = umm_split_block"
  "umm_eds_disconnect_from_free_list = umm_disconnect_from_free_list"
  "umm_eds_assimilate_up = umm_assimilate_up" "umm_eds_assimilate_down = umm_assimilate_down"
  "umm_eds_free_block = umm_free_block" "umm_eds_malloc_split = umm_malloc_split"
proof -
  show 1: "umm_eds_split_block = umm_split_block"
    unfolding fun_eq_iff umm_eds_split_block_def umm_split_block_def by simp
  show 2: "umm_eds_disconnect_from_free_list = umm_disconnect_from_free_list"
    unfolding fun_eq_iff umm_eds_disconnect_from_free_list_def umm_disconnect_from_free_list_def by simp
  show 3: "umm_eds_assimilate_up = umm_assimilate_up"
    unfolding fun_eq_iff umm_eds_assimilate_up_def umm_assimilate_up_def 2 by simp
  show 4: "umm_eds_assimilate_down = umm_assimilate_down"
    unfolding fun_eq_iff umm_eds_assimilate_down_def umm_assimilate_down_def by simp
  show "umm_eds_free_block = umm_free_block"
    unfolding fun_eq_iff umm_eds_free_block_def umm_free_block_def 3 4 by simp
  show "umm_eds_malloc_split = umm_malloc_split"
    unfolding fun_eq_iff umm_eds_malloc_split_def umm_malloc_split_def 1 by simp
qed

text \<open>The loops agree: each run of one is a run of the other.\<close>

lemma eds_scan_le: "umm_eds_scan m k c z b t = Some r \<Longrightarrow> umm_scan m k c z b t = Some r"
  by (erule umm_eds_scan.raw_induct [where P = "\<lambda>m k c z b t r. umm_scan m k c z b t = Some r", rotated])
    (subst umm_scan.simps, auto simp: Let_def split: if_splits)

lemma eds_scan_ge: "umm_scan m k c z b t = Some r \<Longrightarrow> umm_eds_scan m k c z b t = Some r"
  by (erule umm_scan.raw_induct [where P = "\<lambda>m k c z b t r. umm_eds_scan m k c z b t = Some r", rotated])
    (subst umm_eds_scan.simps, auto simp: Let_def split: if_splits)

lemma option_le_antisym:
  "(\<And>r. x = Some r \<Longrightarrow> y = Some r) \<Longrightarrow> (\<And>r. y = Some r \<Longrightarrow> x = Some r) \<Longrightarrow> x = y"
  by (cases x; cases y) auto

lemma eds_scan_same: "umm_eds_scan = umm_scan"
  by ((rule ext)+, rule option_le_antisym) (erule eds_scan_le, erule eds_scan_ge)

lemma eds_malloc_block_same: "umm_eds_malloc_block = umm_malloc_block"
  unfolding fun_eq_iff umm_eds_malloc_block_def umm_malloc_block_def eds_scan_same eds_blocks_same by simp

lemma eds_check_free_le: "umm_eds_check_free n m p = Some r \<Longrightarrow> umm_check_free n m p = Some r"
  by (erule umm_eds_check_free.raw_induct [where P = "\<lambda>n m p r. umm_check_free n m p = Some r", rotated])
    (subst umm_check_free.simps, auto simp: Let_def split: if_splits)

lemma eds_check_free_ge: "umm_check_free n m p = Some r \<Longrightarrow> umm_eds_check_free n m p = Some r"
  by (erule umm_check_free.raw_induct [where P = "\<lambda>n m p r. umm_eds_check_free n m p = Some r", rotated])
    (subst umm_eds_check_free.simps, auto simp: Let_def split: if_splits)

lemma eds_check_blocks_le: "umm_eds_check_blocks n m p = Some r \<Longrightarrow> umm_check_blocks n m p = Some r"
  by (erule umm_eds_check_blocks.raw_induct [where P = "\<lambda>n m p r. umm_check_blocks n m p = Some r", rotated])
    (subst umm_check_blocks.simps, auto simp: Let_def split: if_splits)

lemma eds_check_blocks_ge: "umm_check_blocks n m p = Some r \<Longrightarrow> umm_eds_check_blocks n m p = Some r"
  by (erule umm_check_blocks.raw_induct [where P = "\<lambda>n m p r. umm_eds_check_blocks n m p = Some r", rotated])
    (subst umm_eds_check_blocks.simps, auto simp: Let_def split: if_splits)

lemma eds_check_free_same: "umm_eds_check_free = umm_check_free"
  by ((rule ext)+, rule option_le_antisym) (erule eds_check_free_le, erule eds_check_free_ge)

lemma eds_check_blocks_same: "umm_eds_check_blocks = umm_check_blocks"
  by ((rule ext)+, rule option_le_antisym) (erule eds_check_blocks_le, erule eds_check_blocks_ge)

subsection \<open>State and functions\<close>

record umm_eds_state =
  umm_eds_heap :: u32
  umm_eds_numblocks :: u16
  umm_eds_blk :: umm_mem
  UMM_EDSHeap_Addr :: u32
  UMM_EDSHeap_Size :: u32
  umm_main :: umm_state

definition UMM_EDS_BLOCK_LAST :: "umm_eds_state \<Rightarrow> u16" where
  "UMM_EDS_BLOCK_LAST s = umm_eds_numblocks s - 1"

definition UMM_EDS_DATA :: "umm_eds_state \<Rightarrow> u16 \<Rightarrow> u32" where
  "UMM_EDS_DATA s b = umm_eds_heap s + 8 * ucast b + 4"

text \<open>The size is 32 bits wide, the number of blocks 16.\<close>

definition umm_eds_blocks :: "u32 \<Rightarrow> u16" where
  "umm_eds_blocks sz = (if sz \<le> 4 then 1 else ucast (2 + (sz - (1 + 4)) div 8))"

text \<open>The heap is cleared for \<open>UMM_Heap_Size\<close> bytes, the size of the main heap, as the code has it.\<close>

definition umm_eds_init :: "umm_eds_state \<Rightarrow> umm_eds_state" where
  "umm_eds_init s =
     (let s1 = s\<lparr>umm_eds_heap := UMM_EDSHeap_Addr s, umm_eds_numblocks := ucast (UMM_EDSHeap_Size s div 8)\<rparr>;
          lastb = UMM_EDS_BLOCK_LAST s1;
          m0 = umm_memzero (umm_eds_blk s1) 0 (unat (UMM_Heap_Size (umm_main s1)));
          m1 = set_NBLOCK m0 0 1;
          m2 = set_NFREE m1 0 1;
          m3 = set_PFREE m2 0 1;
          m4 = set_NBLOCK m3 1 (lastb OR UMM_FREELIST_MASK);
          m5 = set_PBLOCK m4 lastb 1
      in s1\<lparr>umm_eds_blk := m5\<rparr>)"

definition umm_eds_ensure_init :: "umm_eds_state \<Rightarrow> umm_eds_state" where
  "umm_eds_ensure_init s = (if umm_eds_heap s = 0 then umm_eds_init s else s)"

definition umm_eds_free_core :: "umm_eds_state \<Rightarrow> u32 \<Rightarrow> umm_eds_state" where
  "umm_eds_free_core s ptr =
     s\<lparr>umm_eds_blk := umm_eds_free_block (umm_eds_blk s) (ucast ((ptr - umm_eds_heap s) div 8))\<rparr>"

definition umm_eds_free :: "umm_eds_state \<Rightarrow> u32 \<Rightarrow> umm_eds_state" where
  "umm_eds_free s0 ptr =
     (let s = umm_eds_ensure_init s0 in if ptr = 0 then s else umm_eds_free_core s ptr)"

text \<open>The parameter of \<open>umm_eds_malloc_core\<close> is a \<open>size_t\<close>, which has 16 bits.\<close>

definition umm_eds_malloc_core :: "umm_eds_state \<Rightarrow> u16 \<Rightarrow> (umm_eds_state \<times> u32) option" where
  "umm_eds_malloc_core s sz =
     (case umm_eds_malloc_block (umm_eds_blk s) (umm_eds_blocks (ucast sz)) of
        None \<Rightarrow> None
      | Some (m, None) \<Rightarrow> Some (s, 0)
      | Some (m, Some cf) \<Rightarrow> Some (s\<lparr>umm_eds_blk := m\<rparr>, UMM_EDS_DATA s cf))"

definition umm_eds_malloc :: "umm_eds_state \<Rightarrow> u32 \<Rightarrow> (umm_eds_state \<times> u32) option" where
  "umm_eds_malloc s0 sz =
     (let s = umm_eds_ensure_init s0 in if sz = 0 then Some (s, 0) else umm_eds_malloc_core s (ucast sz))"

definition umm_eds_calloc :: "umm_eds_state \<Rightarrow> u32 \<Rightarrow> u32 \<Rightarrow> (umm_eds_state \<times> u32) option" where
  "umm_eds_calloc s num item_size =
     (case umm_eds_malloc s (item_size * num) of
        None \<Rightarrow> None
      | Some (s', ret) \<Rightarrow>
          if ret \<noteq> 0
          then Some (s'\<lparr>umm_eds_blk := umm_memzero (umm_eds_blk s') (unat (ret - umm_eds_heap s'))
                 (unat (item_size * num))\<rparr>, ret)
          else Some (s', ret))"

text \<open>The forward byte copy of \<open>memmove_eds\<close> and \<open>memcpy_eds\<close>, after \<open>i\<close> turns, inside the heap.\<close>

primrec umm_eds_copy_turns :: "umm_eds_state \<Rightarrow> u32 \<Rightarrow> u32 \<Rightarrow> nat \<Rightarrow> umm_mem \<Rightarrow> umm_mem" where
  "umm_eds_copy_turns s dst src 0 m = m"
| "umm_eds_copy_turns s dst src (Suc i) m =
     (let m' = umm_eds_copy_turns s dst src i m
      in umm_put m' (unat (dst + of_nat i - umm_eds_heap s))
           (umm_byte m' (unat (src + of_nat i - umm_eds_heap s))))"

text \<open>
  The block number of the pointer is computed from the base of the main heap, \<open>umm_heap\<close>, as the
  code has it.
\<close>

definition umm_eds_realloc_block :: "umm_eds_state \<Rightarrow> u32 \<Rightarrow> u16" where
  "umm_eds_realloc_block s ptr = ucast ((ptr - ucast (umm_heap (umm_main s))) div 8)"

definition umm_eds_realloc_place ::
  "umm_eds_state \<Rightarrow> u32 \<Rightarrow> u32 \<Rightarrow> (umm_eds_state \<times> u16 \<times> u32 \<times> u16) option" where
  "umm_eds_realloc_place s ptr sz =
     (let m = umm_eds_blk s;
          blocks = umm_eds_blocks sz;
          c = umm_eds_realloc_block s ptr;
          blockSize = UMM_NBLOCK m c - c;
          curSize = ucast (blockSize * 8 - 4 :: u16) :: u32;
          nextBlockSize =
            (if UMM_NBLOCK m (UMM_NBLOCK m c) AND UMM_FREELIST_MASK \<noteq> 0
             then (UMM_NBLOCK m (UMM_NBLOCK m c) AND UMM_BLOCKNO_MASK) - UMM_NBLOCK m c else 0);
          prevBlockSize =
            (if UMM_NBLOCK m (UMM_PBLOCK m c) AND UMM_FREELIST_MASK \<noteq> 0
             then c - UMM_PBLOCK m c else 0)
      in if blocks \<le> blockSize
         then Some (s, c, ptr, blockSize)
         else if blockSize + nextBlockSize = blocks
         then Some (s\<lparr>umm_eds_blk := umm_eds_assimilate_up m c\<rparr>, c, ptr, blockSize + nextBlockSize)
         else if prevBlockSize = 0 \<and> blocks \<le> blockSize + nextBlockSize
         then Some (s\<lparr>umm_eds_blk := umm_eds_assimilate_up m c\<rparr>, c, ptr, blockSize + nextBlockSize)
         else if blocks \<le> prevBlockSize + blockSize
         then
           let m1 = umm_eds_disconnect_from_free_list m (UMM_PBLOCK m c);
               (m2, c') = umm_eds_assimilate_down m1 c 0;
               m3 = umm_eds_copy_turns s (UMM_EDS_DATA s c') ptr (unat curSize) m2
           in Some (s\<lparr>umm_eds_blk := m3\<rparr>, c', UMM_EDS_DATA s c', blockSize + prevBlockSize)
         else if blocks \<le> prevBlockSize + blockSize + nextBlockSize
         then
           let m0 = umm_eds_assimilate_up m c;
               m1 = umm_eds_disconnect_from_free_list m0 (UMM_PBLOCK m0 c);
               (m2, c') = umm_eds_assimilate_down m1 c 0;
               m3 = umm_eds_copy_turns s (UMM_EDS_DATA s c') ptr (unat curSize) m2
           in Some (s\<lparr>umm_eds_blk := m3\<rparr>, c', UMM_EDS_DATA s c',
                blockSize + (prevBlockSize + nextBlockSize))
         else
           (case umm_eds_malloc_core s (ucast sz) of
              None \<Rightarrow> None
            | Some (s1, ptr') \<Rightarrow>
                if ptr' \<noteq> 0
                then Some (umm_eds_free_core
                       (s1\<lparr>umm_eds_blk := umm_eds_copy_turns s1 ptr' ptr (unat curSize) (umm_eds_blk s1)\<rparr>) ptr,
                       c, ptr', blocks)
                else Some (s1, c, ptr', blocks)))"

definition umm_eds_realloc :: "umm_eds_state \<Rightarrow> u32 \<Rightarrow> u32 \<Rightarrow> (umm_eds_state \<times> u32) option" where
  "umm_eds_realloc s0 ptr sz =
     (let s = umm_eds_ensure_init s0 in
      if ptr = 0 then umm_eds_malloc s sz
      else if sz = 0 then Some (umm_eds_free s ptr, 0)
      else
        (case umm_eds_realloc_place s ptr sz of
           None \<Rightarrow> None
         | Some (s', c, ptr', blockSize) \<Rightarrow>
             let blocks = umm_eds_blocks sz in
             if blocks < blockSize
             then
               let s'' = s'\<lparr>umm_eds_blk := umm_eds_split_block (umm_eds_blk s') c blocks 0\<rparr>
               in Some (umm_eds_free_core s'' (UMM_EDS_DATA s'' (c + blocks)), ptr')
             else Some (s', ptr')))"

definition umm_eds_integrity_check :: "umm_eds_state \<Rightarrow> (umm_eds_state \<times> bool) option" where
  "umm_eds_integrity_check s0 =
     (let s = umm_eds_ensure_init s0; n = umm_eds_numblocks s
      in case umm_eds_check_free n (umm_eds_blk s) 0 of
           None \<Rightarrow> None
         | Some (m, False) \<Rightarrow> Some (s\<lparr>umm_eds_blk := m\<rparr>, False)
         | Some (m, True) \<Rightarrow>
             (case umm_eds_check_blocks n m 0 of
                None \<Rightarrow> None
              | Some (m', ok) \<Rightarrow> Some (s\<lparr>umm_eds_blk := m'\<rparr>, ok)))"

subsection \<open>The contract over 32-bit addresses\<close>

definition umm_eds_block_list :: "umm_eds_state \<Rightarrow> u16 list" where
  "umm_eds_block_list s = umm_walk (unat (umm_eds_numblocks s)) (blkno (umm_eds_blk s)) 0"

definition umm_eds_free_list :: "umm_eds_state \<Rightarrow> u16 list" where
  "umm_eds_free_list s =
     (let m = umm_eds_blk s
      in if UMM_NFREE m 0 = 0 then []
         else umm_walk (unat (umm_eds_numblocks s)) (UMM_NFREE m) (UMM_NFREE m 0))"

definition umm_eds_inv :: "umm_eds_state \<Rightarrow> bool" where
  "umm_eds_inv s \<longleftrightarrow>
     umm_eds_heap s \<noteq> 0 \<and> unat (umm_eds_heap s) + 8 * unat (umm_eds_numblocks s) < 4294967296 \<and>
     blkno (umm_eds_blk s) 0 = 1 \<and>
     umm_wf (umm_eds_blk s) (umm_eds_numblocks s) (umm_eds_block_list s) (umm_eds_free_list s)"

definition umm_eds_block_of :: "umm_eds_state \<Rightarrow> u32 \<Rightarrow> u16" where
  "umm_eds_block_of s p = ucast ((p - umm_eds_heap s) div 8)"

definition umm_eds_load :: "umm_eds_state \<Rightarrow> u32 \<Rightarrow> u8" where
  "umm_eds_load s a = umm_byte (umm_eds_blk s) (unat (a - umm_eds_heap s))"

definition umm_eds_live :: "umm_eds_state \<Rightarrow> u32 \<Rightarrow> nat option" where
  "umm_eds_live s p =
     (let b = umm_eds_block_of s p
      in if p = UMM_EDS_DATA s b \<and> b \<noteq> 0 \<and> b \<noteq> UMM_EDS_BLOCK_LAST s
         then map_option (\<lambda>e. 8 * (unat e - unat b) - 4) (umm_used (umm_eds_blk s) (umm_eds_block_list s) b)
         else None)"

definition umm_eds_same_data :: "umm_eds_state \<Rightarrow> umm_eds_state \<Rightarrow> (u32 \<Rightarrow> nat option) \<Rightarrow> bool" where
  "umm_eds_same_data s s' P \<longleftrightarrow>
     (\<forall>p k i. P p = Some k \<longrightarrow> i < k \<longrightarrow> umm_eds_load s' (p + of_nat i) = umm_eds_load s (p + of_nat i))"

lemma eds_lists:
  assumes "umm_wf (umm_eds_blk s) (umm_eds_numblocks s) bs fs"
  shows "umm_eds_block_list s = bs" "umm_eds_free_list s = fs"
  using wf_lists[of "\<lparr>umm_heap = 0, umm_numblocks = umm_eds_numblocks s, umm_blk = umm_eds_blk s,
      UMM_Heap_Address = 0, UMM_Heap_Size = 0\<rparr>" bs fs] assms
  by (simp_all add: umm_block_list_def umm_free_list_def umm_eds_block_list_def umm_eds_free_list_def
      Let_def split: if_splits)

lemma eds_addr:
  assumes "unat (umm_eds_heap s) + 8 * unat n < 4294967296" and "b < n" and "i < 8 * (unat n - unat b) - 4"
  shows "unat (UMM_EDS_DATA s b + of_nat i - umm_eds_heap s) = 8 * unat b + 4 + i"
    and "umm_eds_block_of s (UMM_EDS_DATA s b) = b" and "UMM_EDS_DATA s b \<noteq> 0"
proof -
  have b: "unat b < unat n" "unat n < 65536" using assms(2) unat_u16[of n] by (auto simp: word_less_nat_alt)
  have ub: "unat (ucast b :: u32) = unat b" using b by (simp add: unat_ucast_mod)
  have 8: "unat (8 * ucast b :: u32) = 8 * unat b" using b ub by (subst unat_word_ariths(2)) simp
  have 84: "unat (8 * ucast b + 4 :: u32) = 8 * unat b + 4" using 8 b by (subst unat_add_no_wrap) auto
  have i: "unat (of_nat i :: u32) = i" using assms(3) b by (simp add: unat_of_nat)
  have "UMM_EDS_DATA s b + of_nat i - umm_eds_heap s = (8 * ucast b + 4) + of_nat i" by (simp add: UMM_EDS_DATA_def)
  moreover have "unat ((8 * ucast b + 4) + of_nat i :: u32) = 8 * unat b + 4 + i"
    by (subst unat_add_no_wrap) (use 84 i b assms(3) in auto)
  ultimately show "unat (UMM_EDS_DATA s b + of_nat i - umm_eds_heap s) = 8 * unat b + 4 + i" by (simp only:)
  have "UMM_EDS_DATA s b - umm_eds_heap s = 8 * ucast b + 4" by (simp add: UMM_EDS_DATA_def)
  then have "unat (umm_eds_block_of s (UMM_EDS_DATA s b)) = unat b"
    using b unfolding umm_eds_block_of_def by (simp add: unat_ucast_mod unat_div 84)
  then show "umm_eds_block_of s (UMM_EDS_DATA s b) = b" by (simp add: word_unat_eq_iff)
  have "unat (umm_eds_heap s + (8 * ucast b + 4)) = unat (umm_eds_heap s) + (8 * unat b + 4)"
    by (subst unat_add_no_wrap) (use 84 b assms(1) in auto)
  then have "unat (UMM_EDS_DATA s b) \<noteq> 0" by (simp add: UMM_EDS_DATA_def add.assoc)
  then show "UMM_EDS_DATA s b \<noteq> 0" by auto
qed

lemma eds_parts:
  assumes "umm_eds_inv s"
  obtains bs fs where "umm_wf (umm_eds_blk s) (umm_eds_numblocks s) bs fs" "umm_eds_block_list s = bs"
    "umm_eds_free_list s = fs" "unat (umm_eds_heap s) + 8 * unat (umm_eds_numblocks s) < 4294967296"
    "umm_eds_heap s \<noteq> 0"
  using assms unfolding umm_eds_inv_def by blast

lemma eds_step:
  assumes inv: "umm_eds_inv s" and c: "c < umm_eds_numblocks s" "c \<noteq> 0" "c \<noteq> umm_eds_numblocks s - 1"
    and st: "umm_step (umm_eds_blk s) (umm_eds_numblocks s) m'
      ((umm_used (umm_eds_blk s) (umm_eds_block_list s))(c := v)) K"
    and K: "\<And>b e. b \<noteq> c \<Longrightarrow> umm_used (umm_eds_blk s) (umm_eds_block_list s) b = Some e \<Longrightarrow> K b = Some e"
  defines "s' \<equiv> s\<lparr>umm_eds_blk := m'\<rparr>"
  shows "umm_eds_inv s'"
    "umm_eds_live s' = (umm_eds_live s)(UMM_EDS_DATA s c := map_option (\<lambda>e. 8 * (unat e - unat c) - 4) v)"
    "umm_eds_same_data s s' ((umm_eds_live s)(UMM_EDS_DATA s c := None))"
proof -
  let ?m = "umm_eds_blk s" and ?n = "umm_eds_numblocks s"
  obtain bs fs where wf: "umm_wf ?m ?n bs fs" and bl: "umm_eds_block_list s = bs"
    and a: "unat (umm_eds_heap s) + 8 * unat ?n < 4294967296" and h: "umm_eds_heap s \<noteq> 0"
    using inv by (rule eds_parts)
  obtain bs' fs' where wf': "umm_wf m' ?n bs' fs'" and u: "umm_used m' bs' = (umm_used ?m bs)(c := v)"
    using st unfolding umm_step_def bl by blast
  have w: "umm_wf (umm_eds_blk s') (umm_eds_numblocks s') bs' fs'" using wf' by (simp add: s'_def)
  have bl': "umm_eds_block_list s' = bs'" "umm_eds_free_list s' = fs'" using eds_lists[OF w] by auto
  have "umm_used m' bs' 0 = umm_used ?m bs 0" using u c by simp
  then have "blkno m' 0 = blkno ?m 0"
    using chainD(8,12)[OF wfD(1)[OF wf]] chainD(8,12)[OF wfD(1)[OF wf']] by (simp add: umm_used_def)
  then show "umm_eds_inv s'" using inv wf' bl' unfolding umm_eds_inv_def by (simp add: s'_def)
  have d: "UMM_EDS_DATA s' = UMM_EDS_DATA s" "umm_eds_block_of s' = umm_eds_block_of s"
    "UMM_EDS_BLOCK_LAST s' = ?n - 1" "UMM_EDS_BLOCK_LAST s = ?n - 1"
    by (simp_all add: fun_eq_iff UMM_EDS_DATA_def umm_eds_block_of_def UMM_EDS_BLOCK_LAST_def s'_def)
  have c4: "umm_eds_block_of s (UMM_EDS_DATA s b) = b" if "b < ?n" for b
    by (rule eds_addr(2)[OF a that, of 0]) (use that in \<open>simp add: word_less_nat_alt\<close>)
  have m': "umm_eds_blk s' = m'" by (simp add: s'_def)
  show "umm_eds_live s' = (umm_eds_live s)(UMM_EDS_DATA s c := map_option (\<lambda>e. 8 * (unat e - unat c) - 4) v)"
  proof (rule ext)
    fix p
    show "umm_eds_live s' p = ((umm_eds_live s)(UMM_EDS_DATA s c := map_option (\<lambda>e. 8 * (unat e - unat c) - 4) v)) p"
      unfolding umm_eds_live_def Let_def d bl bl' m' using c c4[OF c(1)] u by auto
  qed
  show "umm_eds_same_data s s' ((umm_eds_live s)(UMM_EDS_DATA s c := None))"
    unfolding umm_eds_same_data_def
  proof (intro allI impI)
    fix p k i assume p: "((umm_eds_live s)(UMM_EDS_DATA s c := None)) p = Some k" "i < k"
    then have "umm_eds_live s p = Some k" "p \<noteq> UMM_EDS_DATA s c" by (auto split: if_splits)
    then obtain e where e: "p = UMM_EDS_DATA s (umm_eds_block_of s p)" "umm_eds_block_of s p \<noteq> 0"
      "umm_eds_block_of s p \<noteq> ?n - 1" "umm_used ?m bs (umm_eds_block_of s p) = Some e"
      "k = 8 * (unat e - unat (umm_eds_block_of s p)) - 4" "umm_eds_block_of s p \<noteq> c"
      unfolding umm_eds_live_def Let_def bl d by (cases "umm_eds_block_of s p = c") (auto split: if_splits)
    define b where "b = umm_eds_block_of s p"
    note b = e[folded b_def]
    note U = used_block[OF wf b(4,2,3)]
    have lt: "unat b < unat e" using U(4) by (simp add: word_less_nat_alt)
    have i: "i < 8 * (unat e - unat b) - 4" using p(2) b(5) by simp
    have o: "unat (UMM_EDS_DATA s b + of_nat i - umm_eds_heap s) = 8 * unat b + 4 + i"
      by (rule eds_addr(1)[OF a U(5)]) (use i U(8) in linarith)
    have "K b = Some e" using K[of b e] b(4,6) bl by simp
    then have bs: "body_same ?m m' b e" using st b(2,3) unfolding umm_step_def by blast
    have "umm_byte m' (8 * unat b + 4 + i) = umm_byte ?m (8 * unat b + 4 + i)"
    proof (rule byte_cells)
      fix j assume "2 * j \<le> 8 * unat b + 4 + i" "8 * unat b + 4 + i \<le> 2 * j + 1"
      then have "in_body b e j" using halfword_in_body[OF _ _ lt i] by (simp add: in_body_def)
      then show "umm_cell m' j = umm_cell ?m j" using bs by (simp add: body_same_def)
    qed
    then show "umm_eds_load s' (p + of_nat i) = umm_eds_load s (p + of_nat i)"
      unfolding umm_eds_load_def m' b(1) using o by (simp add: s'_def)
  qed
qed

lemma eds_blocks_u16: "umm_eds_blocks (ucast (sz :: u16)) = umm_blocks sz"
proof (cases "sz \<le> 4")
  case True
  then show ?thesis by (simp add: umm_eds_blocks_def umm_blocks_def word_le_nat_alt unat_ucast_mod)
next
  case False
  have u: "unat (ucast sz :: u32) = unat sz" using unat_u16[of sz] by (simp add: unat_ucast_mod)
  have 5: "5 \<le> unat sz" using False by (simp add: word_le_nat_alt)
  have 1: "unat (2 + (ucast sz - 5) div 8 :: u32) = 2 + (unat sz - 5) div 8"
    by (subst unat_add_no_wrap) (use unat_u16[of sz] 5 u in \<open>simp_all add: unat_div unat_sub_le word_le_nat_alt\<close>)
  have 2: "unat (2 + (sz - 5) div 8) = 2 + (unat sz - 5) div 8"
    by (subst unat_add_no_wrap) (use unat_u16[of sz] 5 in \<open>simp_all add: unat_div unat_sub_le word_le_nat_alt\<close>)
  have "unat (ucast (2 + (ucast sz - 5) div 8 :: u32) :: u16) = unat (2 + (sz - 5) div 8)"
    unfolding unat_ucast_mod 1 2 using unat_u16[of sz] by simp
  then have "(ucast (2 + (ucast sz - 5) div 8 :: u32) :: u16) = 2 + (sz - 5) div 8" by (simp add: word_unat_eq_iff)
  moreover have "\<not> (ucast sz :: u32) \<le> 4" using 5 u by (simp add: word_le_nat_alt)
  ultimately show ?thesis using False by (simp add: umm_eds_blocks_def umm_blocks_def)
qed

lemma eds_malloc_ok:
  assumes inv: "umm_eds_inv s" and sz: "sz \<noteq> 0"
  defines "k \<equiv> umm_blocks (ucast sz)"
  shows "(\<exists>s' p. umm_eds_malloc s sz = Some (s', p) \<and> p \<noteq> 0 \<and> umm_eds_inv s' \<and> umm_eds_live s p = None \<and>
       umm_eds_live s' = (umm_eds_live s)(p \<mapsto> 8 * unat k - 4) \<and> umm_eds_same_data s s' (umm_eds_live s)) \<or>
     umm_eds_malloc s sz = Some (s, 0) \<and>
       list_all (\<lambda>b. blksize (umm_eds_blk s) b < k) (umm_eds_free_list s)"
proof -
  let ?m = "umm_eds_blk s" and ?n = "umm_eds_numblocks s"
  obtain bs fs where wf: "umm_wf ?m ?n bs fs" and bl: "umm_eds_block_list s = bs" "umm_eds_free_list s = fs"
    and a: "unat (umm_eds_heap s) + 8 * unat ?n < 4294967296" and h: "umm_eds_heap s \<noteq> 0"
    using inv by (rule eds_parts)
  have k: "0 < k" "k < 0x7FFF" using umm_blocks_bounds[of "ucast sz"] by (auto simp: k_def word_le_nat_alt word_less_nat_alt)
  have mc: "umm_eds_malloc s sz = (case umm_malloc_block ?m k of
        None \<Rightarrow> None
      | Some (m, None) \<Rightarrow> Some (s, 0)
      | Some (m, Some cf) \<Rightarrow> Some (s\<lparr>umm_eds_blk := m\<rparr>, UMM_EDS_DATA s cf))"
    using h sz by (simp add: umm_eds_malloc_def umm_eds_ensure_init_def umm_eds_malloc_core_def
        eds_malloc_block_same eds_blocks_u16 k_def)
  from malloc_block_step[OF wf k] show ?thesis
  proof (elim disjE exE conjE)
    fix c m'
    assume r: "umm_malloc_block ?m k = Some (m', Some c)" and c: "c \<in> set fs"
      and cu: "umm_used ?m bs c = None" and st: "umm_step ?m ?n m' ((umm_used ?m bs)(c := Some (c + k))) (umm_used ?m bs)"
    note F = flistD(5)[OF wfD(1,2)[OF wf] c]
    have "?n - 1 < ?n" using chainD(1)[OF wfD(1)[OF wf]] by unat_arith
    moreover have "c \<le> ?n - 1" using chain_last_max[OF wfD(1)[OF wf]] F by blast
    ultimately have cn: "c < ?n" by simp
    have c0: "0 < 8 * (unat ?n - unat c) - 4" using cn by (simp add: word_less_nat_alt)
    note E = eds_step[OF inv cn, unfolded bl, OF _ _ st]
    let ?p = "UMM_EDS_DATA s c"
    have uk: "unat (c + k) = unat c + unat k"
    proof -
      obtain bs' fs' where w: "umm_wf m' ?n bs' fs'" "umm_used m' bs' c = Some (c + k)"
        using st unfolding umm_step_def by fastforce
      have "c < c + k" using used_block(4)[OF w] F by blast
      then have "c \<le> c + k" by simp
      then show ?thesis unfolding unat_plus_simple .
    qed
    have fresh: "umm_eds_live s ?p = None"
      using eds_addr(2)[OF a cn c0] cu by (simp add: umm_eds_live_def bl)
    have "umm_eds_inv (s\<lparr>umm_eds_blk := m'\<rparr>)" using E(1) F by blast
    moreover have "umm_eds_live (s\<lparr>umm_eds_blk := m'\<rparr>) = (umm_eds_live s)(?p \<mapsto> 8 * unat k - 4)"
      using E(2) F uk by simp
    moreover have "umm_eds_same_data s (s\<lparr>umm_eds_blk := m'\<rparr>) (umm_eds_live s)"
      using E(3) F fresh by (simp add: fun_upd_idem)
    ultimately show ?thesis using mc r fresh eds_addr(3)[OF a cn c0] by simp
  next
    assume "umm_malloc_block ?m k = Some (?m, None)" "\<forall>b \<in> set fs. blksize ?m b < k"
    then show ?thesis using mc bl by (simp add: list_all_iff)
  qed
qed

lemma eds_free_ok:
  assumes inv: "umm_eds_inv s" and p: "umm_eds_live s p = Some k"
  shows "umm_eds_inv (umm_eds_free s p)" "umm_eds_live (umm_eds_free s p) = (umm_eds_live s)(p := None)"
    "umm_eds_same_data s (umm_eds_free s p) ((umm_eds_live s)(p := None))"
proof -
  let ?m = "umm_eds_blk s" and ?n = "umm_eds_numblocks s"
  obtain bs fs where wf: "umm_wf ?m ?n bs fs" and bl: "umm_eds_block_list s = bs" "umm_eds_free_list s = fs"
    and a: "unat (umm_eds_heap s) + 8 * unat ?n < 4294967296" and h: "umm_eds_heap s \<noteq> 0"
    using inv by (rule eds_parts)
  let ?c = "umm_eds_block_of s p"
  obtain e where c: "p = UMM_EDS_DATA s ?c" "?c \<noteq> 0" "?c \<noteq> ?n - 1" "umm_used ?m bs ?c = Some e"
    using p unfolding umm_eds_live_def Let_def bl UMM_EDS_BLOCK_LAST_def by (auto split: if_splits)
  note U = used_block[OF wf c(4,2,3)]
  have c0: "0 < 8 * (unat ?n - unat ?c) - 4" using U(5) by (simp add: word_less_nat_alt)
  have p0: "p \<noteq> 0" using eds_addr(3)[OF a U(5) c0] c(1) by simp
  have f: "umm_eds_free s p = s\<lparr>umm_eds_blk := umm_free_block ?m ?c\<rparr>"
    using h p0 by (simp add: umm_eds_free_def umm_eds_ensure_init_def umm_eds_free_core_def
        umm_eds_block_of_def eds_blocks_same)
  have st: "umm_step ?m ?n (umm_free_block ?m ?c) ((umm_used ?m (umm_eds_block_list s))(?c := None))
      ((umm_used ?m (umm_eds_block_list s))(?c := None))"
    unfolding bl using free_block_step[OF wf c(4,2,3)] .
  note E = eds_step[OF inv U(5) c(2,3) st]
  show "umm_eds_inv (umm_eds_free s p)" unfolding f by (rule E(1)) simp
  show "umm_eds_live (umm_eds_free s p) = (umm_eds_live s)(p := None)"
    unfolding f using E(2) c(1) by simp
  show "umm_eds_same_data s (umm_eds_free s p) ((umm_eds_live s)(p := None))"
    unfolding f using E(3) c(1) by simp
qed

lemma eds_init_ok:
  assumes addr: "UMM_EDSHeap_Addr s \<noteq> 0" "24 \<le> unat (UMM_EDSHeap_Size s)" "unat (UMM_EDSHeap_Size s) < 262144"
    "unat (UMM_EDSHeap_Addr s) + unat (UMM_EDSHeap_Size s) < 4294967296"
    and sz: "UMM_EDSHeap_Size s \<le> UMM_Heap_Size (umm_main s)"
  shows "umm_eds_inv (umm_eds_init s)" "umm_eds_free_list (umm_eds_init s) = [1]"
proof -
  let ?n = "ucast (UMM_EDSHeap_Size s div 8) :: u16" and ?s = "umm_eds_init s"
  have un: "unat ?n = unat (UMM_EDSHeap_Size s) div 8"
    using addr(3) by (simp add: unat_ucast_mod unat_div)
  have n: "2 < ?n" "?n < 0x8000" using un addr(2,3) by (simp_all add: word_less_nat_alt)
  have f: "umm_eds_numblocks ?s = ?n" "umm_eds_heap ?s = UMM_EDSHeap_Addr s"
    by (simp_all add: umm_eds_init_def Let_def)
  have m: "umm_eds_blk ?s = umm_init_mem (umm_memzero (umm_eds_blk s) 0 (unat (UMM_Heap_Size (umm_main s)))) ?n"
    by (simp add: umm_eds_init_def Let_def umm_init_mem_def UMM_EDS_BLOCK_LAST_def)
  have lt: "8 * unat b + 7 < unat (UMM_Heap_Size (umm_main s))" if "b < ?n" for b
    using that un sz by (simp add: word_less_nat_alt word_le_nat_alt)
  have wf: "umm_wf (umm_eds_blk ?s) (umm_eds_numblocks ?s) [0, 1, ?n - 1] [1]"
    unfolding m f by (rule umm_init_mem_ok[OF n memzero_from_0[OF lt]])
  have "blkno (umm_eds_blk ?s) 0 = 1" using wfD(1)[OF wf] by (simp add: umm_chain_def)
  moreover have "unat (UMM_EDSHeap_Addr s) + 8 * unat ?n < 4294967296"
    using un addr(4) times_div_less_eq_dividend[of 8 "unat (UMM_EDSHeap_Size s)"] by linarith
  ultimately show "umm_eds_inv ?s" using wf eds_lists[OF wf] addr(1) f by (simp add: umm_eds_inv_def)
  show "umm_eds_free_list ?s = [1]" using eds_lists[OF wf] by simp
qed

subsection \<open>Statistics\<close>

text \<open>
  \<open>umm_eds_info\<close> counts in 32 bits, but the square is a 16-bit product. It initialises the main heap, not
  its own, and reports the main heap's size; the model is for an EDS heap that has been initialised.
\<close>

record umm_eds_heap_info =
  eds_totalEntries :: u32
  eds_usedEntries :: u32
  eds_freeEntries :: u32
  eds_totalBlocks :: u32
  eds_usedBlocks :: u32
  eds_freeBlocks :: u32
  eds_freeBlocksSquared :: u32
  eds_maxFreeContiguousBlocks :: u32
  eds_totalSize :: u32
  eds_usedSize :: u32
  eds_usage_metric :: u8
  eds_fragmentation_metric :: u8

definition umm_eds_info_zero :: umm_eds_heap_info where
  "umm_eds_info_zero = \<lparr>eds_totalEntries = 0, eds_usedEntries = 0, eds_freeEntries = 0, eds_totalBlocks = 0,
     eds_usedBlocks = 0, eds_freeBlocks = 0, eds_freeBlocksSquared = 0, eds_maxFreeContiguousBlocks = 0,
     eds_totalSize = 0, eds_usedSize = 0, eds_usage_metric = 0, eds_fragmentation_metric = 0\<rparr>"

definition umm_eds_info_step :: "umm_mem \<Rightarrow> u16 \<Rightarrow> umm_eds_heap_info \<Rightarrow> umm_eds_heap_info" where
  "umm_eds_info_step m b i =
     (let curBlocks = (UMM_NBLOCK m b AND UMM_BLOCKNO_MASK) - b;
          i1 = i\<lparr>eds_totalEntries := eds_totalEntries i + 1, eds_totalBlocks := eds_totalBlocks i + ucast curBlocks\<rparr>
      in if UMM_NBLOCK m b AND UMM_FREELIST_MASK \<noteq> 0
         then i1\<lparr>eds_freeEntries := eds_freeEntries i1 + 1, eds_freeBlocks := eds_freeBlocks i1 + ucast curBlocks,
                eds_freeBlocksSquared := eds_freeBlocksSquared i1 + ucast (curBlocks * curBlocks),
                eds_maxFreeContiguousBlocks :=
                  (if eds_maxFreeContiguousBlocks i1 < ucast curBlocks then ucast curBlocks
                   else eds_maxFreeContiguousBlocks i1)\<rparr>
         else i1\<lparr>eds_usedEntries := eds_usedEntries i1 + 1, eds_usedBlocks := eds_usedBlocks i1 + ucast curBlocks\<rparr>)"

partial_function (option) umm_eds_info_walk ::
  "umm_eds_state \<Rightarrow> u16 \<Rightarrow> umm_eds_heap_info \<Rightarrow> (umm_eds_heap_info \<times> bool) option" where
  "umm_eds_info_walk s b i =
     (if UMM_NBLOCK (umm_eds_blk s) b AND UMM_BLOCKNO_MASK = 0 then Some (i, False)
      else if UMM_NBLOCK (umm_eds_blk s) b AND UMM_FREELIST_MASK \<noteq> 0 \<and> umm_eds_heap s + 8 * ucast b = 0
      then Some (umm_eds_info_step (umm_eds_blk s) b i, True)
      else umm_eds_info_walk s (UMM_NBLOCK (umm_eds_blk s) b AND UMM_BLOCKNO_MASK)
        (umm_eds_info_step (umm_eds_blk s) b i))"

definition umm_eds_info_metrics :: "(u32 \<Rightarrow> u32) \<Rightarrow> umm_eds_heap_info \<Rightarrow> umm_eds_heap_info" where
  "umm_eds_info_metrics sqrt_u32 i =
     (if eds_freeBlocks i = 0
      then i\<lparr>eds_usedSize := eds_totalSize i, eds_usage_metric := 100, eds_fragmentation_metric := 0\<rparr>
      else
        let us = (eds_totalSize i * eds_usedBlocks i) div eds_totalBlocks i
        in i\<lparr>eds_usedSize := us,
            eds_usage_metric := ucast ((us * 100) div eds_totalSize i),
            eds_fragmentation_metric :=
              ucast (100 - (sqrt_u32 (eds_freeBlocksSquared i) * 100) div eds_freeBlocks i)\<rparr>)"

definition umm_eds_info :: "(u32 \<Rightarrow> u32) \<Rightarrow> umm_eds_state \<Rightarrow> (umm_eds_state \<times> umm_eds_heap_info) option" where
  "umm_eds_info sqrt_u32 s0 =
     (let s = (if umm_heap (umm_main s0) = 0 then s0\<lparr>umm_main := umm_init (umm_main s0)\<rparr> else s0);
          i0 = umm_eds_info_zero\<lparr>eds_totalSize := UMM_Heap_Size (umm_main s)\<rparr>
      in case umm_eds_info_walk s (UMM_NBLOCK (umm_eds_blk s) 0 AND UMM_BLOCKNO_MASK) i0 of
           None \<Rightarrow> None
         | Some (i, True) \<Rightarrow> Some (s, i)
         | Some (i, False) \<Rightarrow> Some (s, umm_eds_info_metrics sqrt_u32 i))"

end
