(* ===== verification/Umm_Eds_Props.thy ===== *)
theory Umm_Eds_Props
  imports Umm_Eds
begin

section \<open>The properties of the EDS allocator\<close>

text \<open>
  What the copy for extended data space keeps of the main allocator's contract, and where it
  departs from it: sizes are cut to 16 bits, \<open>umm_eds_realloc\<close> finds the wrong block, the heap is
  cleared over the main heap's size and \<open>umm_eds_info\<close> reports that size.
\<close>

definition umm_eds_ex :: umm_eds_state where
  "umm_eds_ex = \<lparr>umm_eds_heap = 0x8000, umm_eds_numblocks = 8, umm_eds_blk = umm_blk umm_ex,
     UMM_EDSHeap_Addr = 0x8000, UMM_EDSHeap_Size = 64, umm_main = umm_ex\<rparr>"

lemma umm_eds_ex_wf: "umm_wf (umm_eds_blk umm_eds_ex) (umm_eds_numblocks umm_eds_ex) [0, 1, 3, 7] [3]"
  using umm_ex_wf by (simp add: umm_eds_ex_def)

lemma umm_eds_ex_inv: "umm_eds_inv umm_eds_ex"
  using umm_eds_ex_wf eds_lists[OF umm_eds_ex_wf] umm_ex_links(1)
  by (simp add: umm_eds_inv_def) (simp add: umm_eds_ex_def)

lemma umm_eds_ex_live: "umm_eds_live umm_eds_ex 0x800C = Some 12"
proof -
  have "umm_eds_block_of umm_eds_ex 0x800C = 1" "UMM_EDS_DATA umm_eds_ex 1 = 0x800C" "UMM_EDS_BLOCK_LAST umm_eds_ex = 7"
    by (simp_all add: umm_eds_ex_def umm_eds_block_of_def UMM_EDS_DATA_def UMM_EDS_BLOCK_LAST_def)
  moreover have "umm_eds_blk umm_eds_ex = umm_blk umm_ex" by (simp add: umm_eds_ex_def)
  ultimately show ?thesis
    by (simp add: umm_eds_live_def eds_lists(1)[OF umm_eds_ex_wf] umm_used_def umm_ex_links)
qed

subsection \<open>Allocation and release\<close>

text \<open>For sizes of fewer than 65536 bytes \<open>umm_eds_malloc\<close> keeps the allocator's contract: it
  returns, gives a new block of at least the size asked for and leaves all other data alone, or
  gives \<open>NULL\<close> and changes nothing.\<close>

theorem umm_eds_malloc_correct:
  assumes "umm_eds_inv s" and "sz \<noteq> 0" and "sz < 0x10000"
  shows "\<exists>s' p. umm_eds_malloc s sz = Some (s', p) \<and> umm_eds_inv s' \<and>
    (p = 0 \<and> s' = s \<or>
     (\<exists>k. p \<noteq> 0 \<and> umm_eds_live s p = None \<and> unat sz \<le> k \<and> umm_eds_live s' = (umm_eds_live s)(p \<mapsto> k) \<and>
       umm_eds_same_data s s' (umm_eds_live s)))"
proof -
  have "unat (ucast sz :: u16) = unat sz" using assms(3) by (simp add: unat_ucast_mod word_less_nat_alt)
  then have le: "unat sz \<le> 8 * unat (umm_blocks (ucast sz)) - 4" using blocks_capacity[of "ucast sz"] by simp
  from eds_malloc_ok[OF assms(1,2)] show ?thesis using assms(1) le by blast
qed

theorem umm_eds_malloc_correct_witness:
  "\<exists>s' p. umm_eds_malloc umm_eds_ex 20 = Some (s', p) \<and> umm_eds_inv s'"
  using umm_eds_malloc_correct[OF umm_eds_ex_inv, of 20] by auto

lemma blocks_tight: "8 * unat (umm_blocks sz) - 4 \<le> unat sz + 8"
proof (cases "sz \<le> 4")
  case False
  then have lt: "5 \<le> sz" by unat_arith
  have u: "unat (sz - 5) = unat sz - 5" using lt by (simp add: unat_sub)
  have "unat (2 + (sz - 5) div 8) = 2 + (unat sz - 5) div 8"
    using unat_u16[of sz] by (subst unat_add_no_wrap) (simp_all add: unat_div u)
  then show ?thesis using False lt by (simp add: umm_blocks_def word_le_nat_alt)
qed (simp add: umm_blocks_def)

lemma mod_drop: "65536 \<le> (x :: nat) \<Longrightarrow> x mod 65536 + 65536 \<le> x"
  using mod_less_eq_dividend[of "x - 65536" 65536] by (simp add: le_mod_geq)

lemma div_shift: "(D :: nat) mod 8 = 0 \<Longrightarrow> (D + (8 * b + 4)) div 8 = D div 8 + b"
  by (auto simp: mod_eq_0_iff_dvd elim!: dvdE)

lemma mod_shift_neq: "0 < (d :: nat) \<Longrightarrow> d < 65536 \<Longrightarrow> b < 65536 \<Longrightarrow> (d + b) mod 65536 \<noteq> b"
  by (cases "d + b < 65536") (auto simp: le_mod_geq)

text \<open>\<open>umm_eds_malloc\<close> of 65536 bytes or more returns a block that is too small: the size is cut to
  16 bits on its way to \<open>umm_eds_malloc_core\<close>.\<close>

theorem umm_eds_malloc_truncates:
  assumes "umm_eds_inv s" and "0x10000 \<le> sz" and "umm_eds_malloc s sz = Some (s', p)" and "p \<noteq> 0"
  shows "\<exists>k. umm_eds_live s' p = Some k \<and> k < unat sz"
proof -
  have nz: "sz \<noteq> 0" using assms(2) by (auto simp: word_le_nat_alt)
  have "unat (ucast sz :: u16) = unat sz mod 65536" by (simp add: unat_ucast_mod)
  then have "8 * unat (umm_blocks (ucast sz)) - 4 \<le> unat sz mod 65536 + 8"
    using blocks_tight[of "ucast sz"] by simp
  moreover have "65536 \<le> unat sz" using assms(2) by (simp add: word_le_nat_alt)
  then have "unat sz mod 65536 + 65536 \<le> unat sz" by (rule mod_drop)
  ultimately have lt: "8 * unat (umm_blocks (ucast sz)) - 4 < unat sz" by linarith
  from eds_malloc_ok[OF assms(1) nz] assms(3,4)
  have "umm_eds_live s' p = Some (8 * unat (umm_blocks (ucast sz)) - 4)" by auto
  then show ?thesis using lt by blast
qed

theorem umm_eds_malloc_truncates_witness:
  "\<exists>s' p k. umm_eds_malloc umm_eds_ex 0x10004 = Some (s', p) \<and> umm_eds_live s' p = Some k \<and> k < 65540"
proof -
  have fits: "\<not> list_all (\<lambda>b. blksize (umm_eds_blk umm_eds_ex) b < umm_blocks (ucast (0x10004 :: u32)))
    (umm_eds_free_list umm_eds_ex)"
    unfolding eds_lists(2)[OF umm_eds_ex_wf]
    by (simp add: umm_eds_ex_def blksize_def umm_ex_links umm_blocks_def)
  from eds_malloc_ok[OF umm_eds_ex_inv, of "0x10004"] fits obtain s' p
    where m: "umm_eds_malloc umm_eds_ex 0x10004 = Some (s', p)" "p \<noteq> 0" by auto
  show ?thesis using umm_eds_malloc_truncates[OF umm_eds_ex_inv _ m] m(1) by auto
qed

text \<open>\<open>umm_eds_free\<close> of a live pointer keeps the invariant, releases exactly that pointer and leaves
  all other data alone.\<close>

theorem umm_eds_free_correct:
  assumes "umm_eds_inv s" and "umm_eds_live s p = Some k"
  shows "umm_eds_inv (umm_eds_free s p) \<and> umm_eds_live (umm_eds_free s p) = (umm_eds_live s)(p := None) \<and>
    umm_eds_same_data s (umm_eds_free s p) ((umm_eds_live s)(p := None))"
  using eds_free_ok[OF assms] by blast

theorem umm_eds_free_correct_witness:
  "umm_eds_inv (umm_eds_free umm_eds_ex 0x800C) \<and> umm_eds_live (umm_eds_free umm_eds_ex 0x800C) 0x800C = None"
  using umm_eds_free_correct[OF umm_eds_ex_inv umm_eds_ex_live] by simp

subsection \<open>Initialisation\<close>

text \<open>\<open>umm_eds_init\<close> builds a well-formed EDS heap when the main heap is at least as large as the EDS
  heap, because the EDS heap is then cleared completely.\<close>

theorem umm_eds_init_correct:
  assumes "UMM_EDSHeap_Addr s \<noteq> 0" and "24 \<le> unat (UMM_EDSHeap_Size s)" and "unat (UMM_EDSHeap_Size s) < 262144"
    and "unat (UMM_EDSHeap_Addr s) + unat (UMM_EDSHeap_Size s) < 2 ^ 32"
    and "UMM_EDSHeap_Size s \<le> UMM_Heap_Size (umm_main s)"
  shows "umm_eds_inv (umm_eds_init s) \<and> umm_eds_free_list (umm_eds_init s) = [1]"
  using eds_init_ok[OF assms(1-3) _ assms(5)] assms(4) by simp

theorem umm_eds_init_correct_witness:
  "umm_eds_inv (umm_eds_init umm_eds_ex)"
  using umm_eds_init_correct[of umm_eds_ex] by (simp add: umm_eds_ex_def umm_ex_def)

text \<open>When the main heap is smaller, the end of the EDS heap is not cleared: if the link of the last
  block holds anything but zero at power-up, the heap that \<open>umm_eds_init\<close> leaves is not well formed.\<close>

theorem umm_eds_init_leaves_garbage:
  assumes "unat (UMM_Heap_Size (umm_main s)) \<le> 8 * unat n1" and "n1 = ucast (UMM_EDSHeap_Size s div 8) - 1"
    and "1 < n1" and "blkno (umm_eds_blk s) n1 \<noteq> 0"
  shows "\<not> umm_eds_inv (umm_eds_init s)"
proof
  assume "umm_eds_inv (umm_eds_init s)"
  then obtain bs fs where wf: "umm_wf (umm_eds_blk (umm_eds_init s)) (umm_eds_numblocks (umm_eds_init s)) bs fs"
    by (rule eds_parts)
  have n: "umm_eds_numblocks (umm_eds_init s) - 1 = n1" by (simp add: umm_eds_init_def Let_def assms(2))
  let ?z = "umm_memzero (umm_eds_blk s) 0 (unat (UMM_Heap_Size (umm_main s)))"
  have m: "umm_eds_blk (umm_eds_init s) = umm_init_mem ?z (n1 + 1)"
    by (simp add: umm_eds_init_def Let_def umm_init_mem_def UMM_EDS_BLOCK_LAST_def assms(2))
  have "n1 \<noteq> 0" "n1 \<noteq> 1" using assms(3) by auto
  then have "blkno (umm_init_mem ?z (n1 + 1)) n1 = blkno ?z n1"
    by (simp add: umm_init_mem_def mem_simps)
  also have "UMM_NBLOCK ?z n1 = UMM_NBLOCK (umm_eds_blk s) n1"
    using assms(1) umm_cell_field[of 0 "umm_eds_blk s" n1]
    by (simp add: UMM_NBLOCK_def umm_memzero_def umm_of_cells_def Let_def)
  then have "blkno ?z n1 = blkno (umm_eds_blk s) n1" by (simp add: blkno_def)
  finally show False using chainD(10)[OF wfD(1)[OF wf]] assms(4) unfolding n m by simp
qed

theorem umm_eds_init_leaves_garbage_witness:
  "\<not> umm_eds_inv (umm_eds_init (umm_eds_ex\<lparr>UMM_EDSHeap_Size := 0x7FF8,
     umm_eds_blk := \<lambda>b. \<lparr>used_next = 5, used_prev = 5, free_next = 5, free_prev = 5\<rparr>\<rparr>))"
  by (rule umm_eds_init_leaves_garbage[where ?n1.0 = "0xFFE"])
    (simp_all add: umm_eds_ex_def umm_ex_def blkno_def UMM_NBLOCK_def umm_masks)

subsection \<open>Reallocation\<close>

text \<open>\<open>umm_eds_realloc\<close> computes the block of its pointer from the base of the main heap: for an EDS
  heap that lies fewer than 512 KB above the main heap, at a distance of whole blocks, it never
  works on the block the pointer points to.\<close>

theorem umm_eds_realloc_wrong_block:
  assumes "unat (umm_heap (umm_main s)) < unat (umm_eds_heap s)"
    and "unat (umm_eds_heap s) - unat (umm_heap (umm_main s)) < 524288"
    and "(unat (umm_eds_heap s) - unat (umm_heap (umm_main s))) mod 8 = 0"
    and "unat (umm_eds_heap s) + 8 * unat b + 4 < 2 ^ 32"
  shows "umm_eds_realloc_block s (UMM_EDS_DATA s b) \<noteq> b"
proof -
  let ?A = "umm_eds_heap s" and ?H = "umm_heap (umm_main s)"
  let ?D = "unat ?A - unat ?H"
  have uH: "unat (ucast ?H :: u32) = unat ?H" using unat_u16[of ?H] by (simp add: unat_ucast_mod)
  have ub: "unat (ucast b :: u32) = unat b" using unat_u16[of b] by (simp add: unat_ucast_mod)
  have "unat (8 * ucast b :: u32) = 8 * unat b"
    using unat_u16[of b] ub by (subst unat_word_ariths(2)) simp
  then have "unat (8 * ucast b + 4 :: u32) = 8 * unat b + 4"
    using unat_u16[of b] by (subst unat_add_no_wrap) auto
  then have d: "unat (UMM_EDS_DATA s b) = unat ?A + (8 * unat b + 4)"
    unfolding UMM_EDS_DATA_def add.assoc using assms(4) by (subst unat_add_no_wrap) auto
  have "ucast ?H \<le> UMM_EDS_DATA s b" using assms(1) by (simp add: word_le_nat_alt uH d)
  then have "unat (UMM_EDS_DATA s b - ucast ?H) = ?D + (8 * unat b + 4)"
    using assms(1) by (simp add: unat_sub uH d)
  then have "unat ((UMM_EDS_DATA s b - ucast ?H) div 8) = (?D + (8 * unat b + 4)) div 8" by (simp add: unat_div)
  also have "\<dots> = ?D div 8 + unat b" by (rule div_shift[OF assms(3)])
  finally have u: "unat (umm_eds_realloc_block s (UMM_EDS_DATA s b)) = (?D div 8 + unat b) mod 65536"
    by (simp add: umm_eds_realloc_block_def unat_ucast_mod)
  have "0 < ?D" "?D < 65536 * 8" using assms(1,2) by auto
  then have "0 < ?D div 8" "?D div 8 < 65536" using assms(3) by (auto simp: mod_eq_0_iff_dvd elim!: dvdE)
  then have "(?D div 8 + unat b) mod 65536 \<noteq> unat b" using unat_u16[of b] by (intro mod_shift_neq) auto
  then show ?thesis using u by auto
qed

theorem umm_eds_realloc_wrong_block_witness:
  "umm_eds_realloc_block umm_eds_ex (UMM_EDS_DATA umm_eds_ex 1) \<noteq> 1"
  using umm_eds_realloc_wrong_block[of umm_eds_ex 1] by (simp add: umm_eds_ex_def umm_ex_def)

subsection \<open>Integrity check and statistics\<close>

text \<open>The EDS integrity check ends on every memory, and accepts a well-formed EDS heap and leaves it as
  it was.\<close>

theorem umm_eds_integrity_correct:
  "(\<exists>s' ok. umm_eds_integrity_check s = Some (s', ok)) \<and>
   (umm_eds_inv s \<longrightarrow> umm_eds_integrity_check s = Some (s, True))"
proof
  let ?s = "umm_eds_ensure_init s"
  obtain m ok where f: "umm_check_free (umm_eds_numblocks ?s) (umm_eds_blk ?s) 0 = Some (m, ok)"
    using check_free_ends[of "umm_eds_blk ?s" "[0]" 0 "umm_eds_numblocks ?s"] by auto
  obtain m' ok' where "umm_check_blocks (umm_eds_numblocks ?s) m 0 = Some (m', ok')"
    using check_blocks_ends[of "umm_eds_numblocks ?s" m 0] by auto
  with f show "\<exists>s' ok. umm_eds_integrity_check s = Some (s', ok)"
    by (cases ok) (auto simp: umm_eds_integrity_check_def Let_def eds_check_free_same eds_check_blocks_same)
  show "umm_eds_inv s \<longrightarrow> umm_eds_integrity_check s = Some (s, True)"
  proof
    assume "umm_eds_inv s"
    then obtain bs fs where wf: "umm_wf (umm_eds_blk s) (umm_eds_numblocks s) bs fs" and "umm_eds_heap s \<noteq> 0"
      by (rule eds_parts)
    then show "umm_eds_integrity_check s = Some (s, True)"
      using checks_accept[OF wf]
      by (auto simp: umm_eds_integrity_check_def umm_eds_ensure_init_def Let_def eds_check_free_same
          eds_check_blocks_same)
  qed
qed

theorem umm_eds_integrity_correct_witness: "umm_eds_integrity_check umm_eds_ex = Some (umm_eds_ex, True)"
  using umm_eds_integrity_correct[of umm_eds_ex] umm_eds_ex_inv by simp

end
