(* ===== verification/Heap_Interface.thy ===== *)
theory Heap_Interface
  imports Umm_Realloc Umm_Eds
begin

section \<open>The allocator interface\<close>

text \<open>
  What the clients of the allocators rely on, as two locales: \<open>heap_core\<close> (allocate and release)
  and \<open>heap_full\<close>, which adds reallocation and stores. \<open>umm_malloc\<close> keeps both contracts;
  \<open>umm_eds_malloc\<close> keeps the first one (its reallocation does not work, see
  \<open>umm_eds_realloc_wrong_block\<close>). The lemmas of the two locales are proved once and reach the
  clients through the interpretations at the end. Also here: the C library's entry points of
  \<^verbatim>\<open>malloc.c\<close> and reads and writes of several bytes.
\<close>

subsection \<open>The entry points of the C library\<close>

definition c_malloc :: "umm_state \<Rightarrow> u16 \<Rightarrow> (umm_state \<times> u16) option" where
  "c_malloc s sz = umm_malloc s sz"

definition c_calloc :: "umm_state \<Rightarrow> u16 \<Rightarrow> u16 \<Rightarrow> (umm_state \<times> u16) option" where
  "c_calloc s num sz = umm_calloc s num sz"

definition c_realloc :: "umm_state \<Rightarrow> u16 \<Rightarrow> u16 \<Rightarrow> (umm_state \<times> u16) option" where
  "c_realloc s ptr sz = umm_realloc s ptr sz"

definition c_free :: "umm_state \<Rightarrow> u16 \<Rightarrow> umm_state" where
  "c_free s ptr = umm_free s ptr"

definition malloc_eds :: "umm_eds_state \<Rightarrow> u32 \<Rightarrow> (umm_eds_state \<times> u32) option" where
  "malloc_eds s sz = umm_eds_malloc s sz"

definition calloc_eds :: "umm_eds_state \<Rightarrow> u32 \<Rightarrow> u32 \<Rightarrow> (umm_eds_state \<times> u32) option" where
  "calloc_eds s num sz = umm_eds_calloc s num sz"

definition realloc_eds :: "umm_eds_state \<Rightarrow> u32 \<Rightarrow> u32 \<Rightarrow> (umm_eds_state \<times> u32) option" where
  "realloc_eds s ptr sz = umm_eds_realloc s ptr sz"

definition free_eds :: "umm_eds_state \<Rightarrow> u32 \<Rightarrow> umm_eds_state" where
  "free_eds s ptr = umm_eds_free s ptr"

subsection \<open>Several bytes at a time\<close>

primrec put_bytes :: "('s \<Rightarrow> 'a::len word \<Rightarrow> u8 \<Rightarrow> 's) \<Rightarrow> 's \<Rightarrow> 'a word \<Rightarrow> u8 list \<Rightarrow> 's" where
  "put_bytes st s a [] = s"
| "put_bytes st s a (v # vs) = put_bytes st (st s a v) (a + 1) vs"

definition get_bytes :: "('s \<Rightarrow> 'a::len word \<Rightarrow> u8) \<Rightarrow> 's \<Rightarrow> 'a word \<Rightarrow> nat \<Rightarrow> u8 list" where
  "get_bytes ld s a n = map (\<lambda>i. ld s (a + of_nat i)) [0..<n]"

lemma length_get_bytes [simp]: "length (get_bytes ld s a n) = n"
  by (simp add: get_bytes_def)

lemma nth_get_bytes: "i < n \<Longrightarrow> get_bytes ld s a n ! i = ld s (a + of_nat i)"
  by (simp add: get_bytes_def)

lemma put_bytes_snoc: "put_bytes st s a (vs @ [v]) = st (put_bytes st s a vs) (a + of_nat (length vs)) v"
  by (induction vs arbitrary: s a) (simp_all add: add.assoc)

text \<open>\<open>p\<close> points to a live block that starts with these bytes.\<close>

definition holds ::
  "('s \<Rightarrow> 'a::len word \<Rightarrow> nat option) \<Rightarrow> ('s \<Rightarrow> 'a word \<Rightarrow> u8) \<Rightarrow> 's \<Rightarrow> 'a word \<Rightarrow> u8 list \<Rightarrow> bool" where
  "holds live ld s p vs \<longleftrightarrow>
     (case live s p of None \<Rightarrow> False | Some k \<Rightarrow> length vs \<le> k \<and> get_bytes ld s p (length vs) = vs)"

definition keeps ::
  "('s \<Rightarrow> 'a::len word \<Rightarrow> nat option) \<Rightarrow> ('s \<Rightarrow> 'a word \<Rightarrow> u8) \<Rightarrow> 's \<Rightarrow> 's \<Rightarrow> 'a word set \<Rightarrow> bool" where
  "keeps live ld s s' P \<longleftrightarrow>
     (\<forall>p k. p \<notin> P \<longrightarrow> live s p = Some k \<longrightarrow>
        live s' p = Some k \<and> (\<forall>i<k. ld s' (p + of_nat i) = ld s (p + of_nat i)))"

lemma keeps_refl: "keeps live ld s s P"
  by (simp add: keeps_def)

lemma keeps_trans: "keeps live ld s s' P \<Longrightarrow> keeps live ld s' s'' P \<Longrightarrow> keeps live ld s s'' P"
  unfolding keeps_def by metis

lemma keeps_mono: "keeps live ld s s' P \<Longrightarrow> P \<subseteq> Q \<Longrightarrow> keeps live ld s s' Q"
  unfolding keeps_def by blast

lemma holds_nth: "holds live ld s p vs \<Longrightarrow> i < length vs \<Longrightarrow> ld s (p + of_nat i) = vs ! i"
  by (auto simp: holds_def list_eq_iff_nth_eq nth_get_bytes split: option.splits)

lemma holds_live: "holds live ld s p vs \<Longrightarrow> \<exists>k. live s p = Some k \<and> length vs \<le> k"
  by (auto simp: holds_def split: option.splits)

lemma holdsI:
  assumes "live s p = Some k" and "length vs \<le> k" and "\<And>i. i < length vs \<Longrightarrow> ld s (p + of_nat i) = vs ! i"
  shows "holds live ld s p vs"
  using assms by (simp add: holds_def list_eq_iff_nth_eq nth_get_bytes)

lemma keeps_holds:
  assumes "keeps live ld s s' P" and "p \<notin> P" and "holds live ld s p vs"
  shows "holds live ld s' p vs"
proof -
  obtain k where k: "live s p = Some k" "length vs \<le> k" using holds_live[OF assms(3)] by blast
  with assms(1,2) have "live s' p = Some k" "\<forall>i<k. ld s' (p + of_nat i) = ld s (p + of_nat i)"
    unfolding keeps_def by auto
  then show ?thesis using k(2) holds_nth[OF assms(3)] by (intro holdsI[of _ _ _ k]) auto
qed

lemma holds_take:
  assumes "holds live ld s p vs"
  shows "holds live ld s p (take n vs)"
proof -
  obtain k where "live s p = Some k" "length vs \<le> k" using holds_live[OF assms] by blast
  then show ?thesis using holds_nth[OF assms] by (intro holdsI[of _ _ _ k]) auto
qed

lemma holds_get: "holds live ld s p vs \<Longrightarrow> a + n \<le> length vs \<Longrightarrow>
  get_bytes ld s (p + of_nat a) n = take n (drop a vs)"
  using holds_nth[of live ld s p vs]
  by (auto simp: list_eq_iff_nth_eq nth_get_bytes simp flip: of_nat_add simp add: add.assoc)

subsection \<open>Allocate and release\<close>

locale heap_core =
  fixes inv :: "'s \<Rightarrow> bool"
    and live :: "'s \<Rightarrow> 'a::len word \<Rightarrow> nat option"
    and load :: "'s \<Rightarrow> 'a word \<Rightarrow> u8"
    and alloc :: "'s \<Rightarrow> u16 \<Rightarrow> ('s \<times> 'a word) option"
    and release :: "'s \<Rightarrow> 'a word \<Rightarrow> 's"
  assumes alloc_law: "inv s \<Longrightarrow> n \<noteq> 0 \<Longrightarrow>
      \<exists>s' p. alloc s n = Some (s', p) \<and> inv s' \<and>
        (p = 0 \<and> s' = s \<or>
         p \<noteq> 0 \<and> live s p = None \<and> (\<exists>k. unat n \<le> k \<and> live s' = (live s)(p \<mapsto> k)) \<and>
         keeps live load s s' {})"
    and alloc_zero: "inv s \<Longrightarrow> alloc s 0 = Some (s, 0)"
    and release_law: "inv s \<Longrightarrow> live s p = Some k \<Longrightarrow>
      inv (release s p) \<and> live (release s p) = (live s)(p := None) \<and> keeps live load s (release s p) {p}"
begin

lemma alloc_fresh:
  assumes "inv s" and "alloc s n = Some (s', p)" and "p \<noteq> 0"
  shows "inv s'" and "live s p = None" and "\<exists>k. live s' p = Some k \<and> unat n \<le> k" and "keeps live load s s' {}"
proof -
  have "n \<noteq> 0" using assms alloc_zero by force
  from alloc_law[OF assms(1) this] assms(2,3)
  show "inv s'" "live s p = None" "\<exists>k. live s' p = Some k \<and> unat n \<le> k" "keeps live load s s' {}" by auto
qed

lemma alloc_release:
  assumes "inv s" and "alloc s n = Some (s', p)" and "p \<noteq> 0"
  shows "inv (release s' p)" and "live (release s' p) = live s" and "keeps live load s (release s' p) {}"
proof -
  have n: "n \<noteq> 0" using assms alloc_zero by force
  from alloc_law[OF assms(1) n] assms(2,3) obtain k where
    A: "inv s'" "live s p = None" "live s' = (live s)(p \<mapsto> k)" "keeps live load s s' {}" by auto
  from release_law[OF A(1), of p k] A(3) have R: "inv (release s' p)"
    "live (release s' p) = (live s')(p := None)" "keeps live load s' (release s' p) {p}" by auto
  show "inv (release s' p)" by (rule R(1))
  show "live (release s' p) = live s" using R(2) A(2,3) by auto
  show "keeps live load s (release s' p) {}"
    using A(2,4) R(3) unfolding keeps_def by (metis insertE empty_iff option.distinct(1))
qed

end

subsection \<open>Reallocation and stores\<close>

locale heap_full = heap_core +
  fixes resize :: "'s \<Rightarrow> 'a::len word \<Rightarrow> u16 \<Rightarrow> ('s \<times> 'a word) option"
    and store :: "'s \<Rightarrow> 'a word \<Rightarrow> u8 \<Rightarrow> 's"
  assumes resize_law: "inv s \<Longrightarrow> live s p = Some k \<Longrightarrow> n \<noteq> 0 \<Longrightarrow>
      \<exists>s' q. resize s p n = Some (s', q) \<and> inv s' \<and>
        (q = 0 \<and> s' = s \<or>
         q \<noteq> 0 \<and> (live s q = None \<or> q = p) \<and>
         (\<exists>k'. unat n \<le> k' \<and> live s' = (live s)(p := None, q := Some k') \<and>
            (\<forall>i < min k k'. load s' (q + of_nat i) = load s (p + of_nat i))) \<and>
         keeps live load s s' {p})"
    and resize_zero: "inv s \<Longrightarrow> live s p = Some k \<Longrightarrow> resize s p 0 = Some (release s p, 0)"
    and store_law: "inv s \<Longrightarrow> live s p = Some k \<Longrightarrow> i < k \<Longrightarrow>
      inv (store s (p + of_nat i) v) \<and> live (store s (p + of_nat i) v) = live s \<and>
      keeps live load s (store s (p + of_nat i) v) {p} \<and>
      (\<forall>j<k. load (store s (p + of_nat i) v) (p + of_nat j) = (if j = i then v else load s (p + of_nat j)))"
begin

lemma put_ok:
  assumes "inv s" and "live s p = Some k" and "a + length vs \<le> k" and "s' = put_bytes store s (p + of_nat a) vs"
  shows "inv s' \<and> live s' = live s \<and> keeps live load s s' {p} \<and>
    (\<forall>j<k. load s' (p + of_nat j) =
       (if a \<le> j \<and> j < a + length vs then vs ! (j - a) else load s (p + of_nat j)))"
  using assms(3,4)
proof (induction vs arbitrary: s' rule: rev_induct)
  case Nil
  then show ?case using assms(1) by (auto simp: keeps_refl)
next
  case (snoc v vs)
  define t where "t = put_bytes store s (p + of_nat a) vs"
  have s': "s' = store t (p + of_nat (a + length vs)) v"
    using snoc.prems(2) by (simp add: put_bytes_snoc t_def add.assoc)
  have le: "a + length vs \<le> k" using snoc.prems(1) by simp
  note IH = snoc.IH[OF le t_def]
  have I: "inv t" "live t = live s" "keeps live load s t {p}"
    "\<And>j. j < k \<Longrightarrow> load t (p + of_nat j) =
       (if a \<le> j \<and> j < a + length vs then vs ! (j - a) else load s (p + of_nat j))"
    using IH by blast+
  have lt: "a + length vs < k" and lv: "live t p = Some k" using snoc.prems(1) assms(2) I(2) by auto
  note S = store_law[OF I(1) lv lt, of v, folded s']
  have "keeps live load t s' {p}" using S by blast
  then have "keeps live load s s' {p}" by (rule keeps_trans[OF I(3)])
  moreover have "load s' (p + of_nat j) =
      (if a \<le> j \<and> j < a + length (vs @ [v]) then (vs @ [v]) ! (j - a) else load s (p + of_nat j))" if "j < k" for j
  proof -
    have "load s' (p + of_nat j) = (if j = a + length vs then v else load t (p + of_nat j))" using S that by blast
    then show ?thesis using I(4)[OF that] by (auto simp: nth_append)
  qed
  ultimately show ?case using S I(2) by auto
qed

lemma put_holds:
  assumes "inv s" and "holds live load s p vs" and "live s p = Some k" and "a \<le> length vs" and "a + length ws \<le> k"
    and "s' = put_bytes store s (p + of_nat a) ws"
  shows "inv s'" and "live s' = live s" and "keeps live load s s' {p}"
    and "holds live load s' p (take a vs @ ws @ drop (a + length ws) vs)"
proof -
  note P = put_ok[OF assms(1,3,5,6)]
  show "inv s'" "live s' = live s" "keeps live load s s' {p}" using P by auto
  have lk: "length vs \<le> k" using holds_live[OF assms(2)] assms(3) by auto
  show "holds live load s' p (take a vs @ ws @ drop (a + length ws) vs)"
  proof (rule holdsI)
    show "live s' p = Some k" using P assms(3) by auto
    show "length (take a vs @ ws @ drop (a + length ws) vs) \<le> k" using lk assms(4,5) by auto
    fix i assume i: "i < length (take a vs @ ws @ drop (a + length ws) vs)"
    then have "i < k" using lk assms(4,5) by auto
    then have "load s' (p + of_nat i) =
        (if a \<le> i \<and> i < a + length ws then ws ! (i - a) else load s (p + of_nat i))" using P by blast
    moreover have "\<not> (a \<le> i \<and> i < a + length ws) \<Longrightarrow> i < length vs" using i assms(4) by auto
    ultimately show "load s' (p + of_nat i) = (take a vs @ ws @ drop (a + length ws) vs) ! i"
      using i assms(4) holds_nth[OF assms(2), of i] by (auto simp: nth_append min_def)
  qed
qed

text \<open>The pattern of a growing buffer: reallocate what there is, or allocate.\<close>

lemma grow_ok:
  assumes "inv s" and "n \<noteq> 0" and "p = 0 \<and> vs = [] \<or> p \<noteq> 0 \<and> holds live load s p vs"
  shows "\<exists>s' q. (if p \<noteq> 0 then resize s p n else alloc s n) = Some (s', q) \<and> inv s' \<and>
    (q = 0 \<and> s' = s \<or>
     q \<noteq> 0 \<and> (live s q = None \<or> q = p) \<and> (q \<noteq> p \<longrightarrow> p \<noteq> 0 \<longrightarrow> live s' p = None) \<and>
     (\<exists>k. live s' q = Some k \<and> unat n \<le> k) \<and>
     holds live load s' q (take (unat n) vs) \<and> keeps live load s s' {p})"
  using assms(3)
proof (elim disjE conjE)
  assume p: "p = 0" "vs = []"
  from alloc_law[OF assms(1,2)] obtain s' q where A: "alloc s n = Some (s', q)" "inv s'"
    "q = 0 \<and> s' = s \<or> q \<noteq> 0 \<and> live s q = None \<and> (\<exists>k. unat n \<le> k \<and> live s' = (live s)(q \<mapsto> k)) \<and>
         keeps live load s s' {}" by blast
  from A(3) show ?thesis
  proof (elim disjE conjE exE)
    fix k assume q: "q \<noteq> 0" "live s q = None" "unat n \<le> k" "live s' = (live s)(q \<mapsto> k)" "keeps live load s s' {}"
    have "holds live load s' q (take (unat n) vs)" using p(2) q(4) by (intro holdsI[of _ _ _ k]) simp_all
    moreover have "keeps live load s s' {p}" using q(5) by (rule keeps_mono) simp
    ultimately show ?thesis using A(1,2) p(1) q(1-4) by (intro exI[of _ s'] exI[of _ q]) simp
  next
    assume "q = 0" "s' = s"
    then show ?thesis using A(1,2) p(1) by (intro exI[of _ s'] exI[of _ q]) simp
  qed
next
  assume p: "p \<noteq> 0" "holds live load s p vs"
  obtain k where k: "live s p = Some k" "length vs \<le> k" using holds_live[OF p(2)] by blast
  from resize_law[OF assms(1) k(1) assms(2)] obtain s' q where A: "resize s p n = Some (s', q)" "inv s'"
    and c: "q = 0 \<and> s' = s \<or> q \<noteq> 0 \<and> (live s q = None \<or> q = p) \<and>
         (\<exists>k'. unat n \<le> k' \<and> live s' = (live s)(p := None, q := Some k') \<and>
            (\<forall>i < min k k'. load s' (q + of_nat i) = load s (p + of_nat i))) \<and>
         keeps live load s s' {p}" by blast
  show ?thesis
  proof (cases "q = 0")
    case True
    then show ?thesis using A c p(1) by (intro exI[of _ s'] exI[of _ q]) simp
  next
    case False
    with c obtain k' where q: "q \<noteq> 0" "live s q = None \<or> q = p" "unat n \<le> k'"
      "live s' = (live s)(p := None, q := Some k')"
      "\<forall>i < min k k'. load s' (q + of_nat i) = load s (p + of_nat i)" "keeps live load s s' {p}" by blast
    have "holds live load s' q (take (unat n) vs)"
    proof (rule holdsI)
      show "live s' q = Some k'" using q(4) by simp
      show "length (take (unat n) vs) \<le> k'" using q(3) by auto
      fix i assume i: "i < length (take (unat n) vs)"
      then have "i < min k k'" using k(2) q(3) by auto
      then show "load s' (q + of_nat i) = take (unat n) vs ! i"
        using q(5) holds_nth[OF p(2), of i] i by auto
    qed
    then have "(\<exists>k. live s' q = Some k \<and> unat n \<le> k) \<and> holds live load s' q (take (unat n) vs) \<and>
        (q \<noteq> p \<longrightarrow> p \<noteq> 0 \<longrightarrow> live s' p = None)" using q(3,4) by simp
    with A p(1) q(1,2,6) show ?thesis by (intro exI[of _ s'] exI[of _ q]) simp
  qed
qed

end

subsection \<open>The interpretations\<close>

lemma umm_keeps:
  assumes "umm_same_data s s' ((umm_live s)(p := None))" and "\<And>q. q \<noteq> p \<Longrightarrow> umm_live s q \<noteq> None \<Longrightarrow> umm_live s' q = umm_live s q"
  shows "keeps umm_live umm_load s s' {p}"
  unfolding keeps_def
proof (intro allI impI conjI)
  fix q k i assume q: "q \<notin> {p}" "umm_live s q = Some k"
  then show "umm_live s' q = Some k" using assms(2)[of q] by auto
  assume "i < k"
  then show "umm_load s' (q + of_nat i) = umm_load s (q + of_nat i)"
    using q assms(1) unfolding umm_same_data_def by auto
qed

interpretation umm: heap_core umm_inv umm_live umm_load c_malloc c_free
proof unfold_locales
  fix s :: umm_state and n :: u16
  assume s: "umm_inv s" and n: "n \<noteq> 0"
  from malloc_ok[OF s n refl] blocks_capacity[of n] s
  show "\<exists>s' p. c_malloc s n = Some (s', p) \<and> umm_inv s' \<and>
        (p = 0 \<and> s' = s \<or>
         p \<noteq> 0 \<and> umm_live s p = None \<and> (\<exists>k. unat n \<le> k \<and> umm_live s' = (umm_live s)(p \<mapsto> k)) \<and>
         keeps umm_live umm_load s s' {})"
    unfolding c_malloc_def keeps_def umm_same_data_def by (elim disjE exE conjE) force+
next
  fix s :: umm_state
  assume "umm_inv s"
  then show "c_malloc s 0 = Some (s, 0)"
    by (simp add: c_malloc_def umm_malloc_def umm_ensure_init_def umm_inv_def)
next
  fix s :: umm_state and p k
  assume s: "umm_inv s" "umm_live s p = Some k"
  show "umm_inv (c_free s p) \<and> umm_live (c_free s p) = (umm_live s)(p := None) \<and>
    keeps umm_live umm_load s (c_free s p) {p}"
    unfolding c_free_def using free_ok[OF s] by (auto intro!: umm_keeps)
qed

interpretation umm: heap_full umm_inv umm_live umm_load c_malloc c_free c_realloc umm_store
proof unfold_locales
  fix s :: umm_state and n :: u16 and p k
  assume s: "umm_inv s" "umm_live s p = Some k" and n: "n \<noteq> 0"
  from realloc_ok[OF s n] obtain s' q where R: "umm_realloc s p n = Some (s', q)" "umm_inv s'"
    and c: "q = 0 \<and> s' = s \<or>
      q \<noteq> 0 \<and> umm_live s' = (umm_live s)(p := None, q := Some (8 * unat (umm_blocks n) - 4)) \<and>
      (umm_live s q = None \<or> q = p) \<and> umm_same_data s s' ((umm_live s)(p := None)) \<and>
      (\<forall>i < min k (8 * unat (umm_blocks n) - 4). umm_load s' (q + of_nat i) = umm_load s (p + of_nat i))" by blast
  have "q \<noteq> 0 \<Longrightarrow> keeps umm_live umm_load s s' {p}" using c by (intro umm_keeps) auto
  then show "\<exists>s' q. c_realloc s p n = Some (s', q) \<and> umm_inv s' \<and>
        (q = 0 \<and> s' = s \<or>
         q \<noteq> 0 \<and> (umm_live s q = None \<or> q = p) \<and>
         (\<exists>k'. unat n \<le> k' \<and> umm_live s' = (umm_live s)(p := None, q := Some k') \<and>
            (\<forall>i < min k k'. umm_load s' (q + of_nat i) = umm_load s (p + of_nat i))) \<and>
         keeps umm_live umm_load s s' {p})"
    unfolding c_realloc_def using R c blocks_capacity[of n] by (intro exI[of _ s'] exI[of _ q]) auto
next
  fix s :: umm_state and p k
  assume s: "umm_inv s" "umm_live s p = Some k"
  then have "p \<noteq> 0" using live_parts by blast
  then show "c_realloc s p 0 = Some (c_free s p, 0)"
    using s by (simp add: c_realloc_def c_free_def umm_realloc_def umm_ensure_init_def umm_inv_def)
next
  fix s :: umm_state and p k i and v :: u8
  assume s: "umm_inv s" "umm_live s p = Some k" and i: "i < k"
  show "umm_inv (umm_store s (p + of_nat i) v) \<and> umm_live (umm_store s (p + of_nat i) v) = umm_live s \<and>
      keeps umm_live umm_load s (umm_store s (p + of_nat i) v) {p} \<and>
      (\<forall>j<k. umm_load (umm_store s (p + of_nat i) v) (p + of_nat j) = (if j = i then v else umm_load s (p + of_nat j)))"
    using store_ok[OF s i refl, where v = v] by (auto intro!: umm_keeps)
qed

text \<open>The sizes are those a \<open>size_t\<close> can hold: for larger ones the contract does not hold.\<close>

interpretation eds: heap_core umm_eds_inv umm_eds_live umm_eds_load "\<lambda>s n. malloc_eds s (ucast n)" free_eds
proof unfold_locales
  fix s :: umm_eds_state and n :: u16
  assume s: "umm_eds_inv s" and n: "n \<noteq> 0"
  have u: "unat (ucast n :: u32) = unat n" using unat_u16[of n] by (simp add: unat_ucast_mod)
  then have n': "(ucast n :: u32) \<noteq> 0" using n by (metis unat_0 unat_eq_zero)
  have d: "(ucast (ucast n :: u32) :: u16) = n"
    using unat_u16[of n] by (simp add: word_unat_eq_iff unat_ucast_mod)
  from eds_malloc_ok[OF s n'] blocks_capacity[of n] s
  show "\<exists>s' p. malloc_eds s (ucast n) = Some (s', p) \<and> umm_eds_inv s' \<and>
        (p = 0 \<and> s' = s \<or>
         p \<noteq> 0 \<and> umm_eds_live s p = None \<and> (\<exists>k. unat n \<le> k \<and> umm_eds_live s' = (umm_eds_live s)(p \<mapsto> k)) \<and>
         keeps umm_eds_live umm_eds_load s s' {})"
    unfolding malloc_eds_def keeps_def umm_eds_same_data_def d by (elim disjE exE conjE) force+
next
  fix s :: umm_eds_state
  assume "umm_eds_inv s"
  then show "malloc_eds s (ucast 0) = Some (s, 0)"
    by (simp add: malloc_eds_def umm_eds_malloc_def umm_eds_ensure_init_def umm_eds_inv_def)
next
  fix s :: umm_eds_state and p k
  assume s: "umm_eds_inv s" "umm_eds_live s p = Some k"
  show "umm_eds_inv (free_eds s p) \<and> umm_eds_live (free_eds s p) = (umm_eds_live s)(p := None) \<and>
    keeps umm_eds_live umm_eds_load s (free_eds s p) {p}"
    unfolding free_eds_def using eds_free_ok[OF s] by (auto simp: keeps_def umm_eds_same_data_def)
qed

end
