(* ===== verification/Vector.thy ===== *)
theory Vector
  imports Heap_Interface Umm_Props
begin

section \<open>Vectors, sets and the checked allocator functions\<close>

text \<open>
  Models \<^verbatim>\<open>Library/Vector.c\<close>, \<^verbatim>\<open>Library/Set.c\<close> and \<^verbatim>\<open>Library/SafeMalloc.c\<close> over the main heap. A vector is
  the C struct; its elements are bytes in the block at \<open>vec_data\<close>. \<open>None\<close> is a call that does not
  return. Objects passed by a pointer to the caller's own memory are given as their bytes. Products
  of sizes have 16 bits, as in the code. The proofs rest on the interpretations \<open>umm\<close> of the
  allocator interface.
\<close>

record vector =
  vec_size :: u16
  vec_data :: u16
  vec_element_size :: u16

definition Vector_Init :: "u16 \<Rightarrow> vector" where
  "Vector_Init element_size = \<lparr>vec_size = 0, vec_data = 0, vec_element_size = element_size\<rparr>"

definition Vector_Clear :: "umm_state \<Rightarrow> vector \<Rightarrow> umm_state \<times> vector" where
  "Vector_Clear s vec =
     (if vec_size vec \<noteq> 0 then (c_free s (vec_data vec), vec\<lparr>vec_size := 0, vec_data := 0\<rparr>) else (s, vec))"

definition Vector_Resize :: "umm_state \<Rightarrow> vector \<Rightarrow> u16 \<Rightarrow> (umm_state \<times> vector) option" where
  "Vector_Resize s vec n =
     map_option (\<lambda>(s', p). (s', vec\<lparr>vec_data := p, vec_size := n\<rparr>))
       (if vec_data vec \<noteq> 0 then c_realloc s (vec_data vec) (vec_element_size vec * n)
        else c_malloc s (vec_element_size vec * n))"

definition Vector_At :: "vector \<Rightarrow> u16 \<Rightarrow> u16" where
  "Vector_At vec pos = (if vec_size vec \<le> pos then 0 else vec_data vec + vec_element_size vec * pos)"

definition Vector_At2 :: "umm_state \<Rightarrow> vector \<Rightarrow> u16 \<Rightarrow> (umm_state \<times> vector \<times> u16) option" where
  "Vector_At2 s vec pos =
     (if vec_size vec \<le> pos
      then map_option (\<lambda>(s', vec').
             let ret = vec_data vec' + vec_element_size vec' * pos
             in (put_bytes umm_store s' ret (replicate (unat (vec_element_size vec')) 0), vec', ret))
           (Vector_Resize s vec (pos + 1))
      else Some (s, vec, vec_data vec + vec_element_size vec * pos))"

text \<open>The result is a \<open>long\<close>; \<open>Vector_Npos\<close> is -1. The difference of the pointers is converted to the
  unsigned type of the element size before the division.\<close>

definition Vector_DistanceFromBegin :: "vector \<Rightarrow> u16 \<Rightarrow> u32" where
  "Vector_DistanceFromBegin vec it =
     (if vec_element_size vec = 0 then -1 else ucast ((it - vec_data vec) div vec_element_size vec))"

definition Vector_Front :: "vector \<Rightarrow> u16" where
  "Vector_Front vec = vec_data vec"

definition Vector_Back :: "vector \<Rightarrow> u16" where
  "Vector_Back vec =
     (if vec_size vec = 0 then 0 else vec_data vec + vec_element_size vec * (vec_size vec - 1))"

definition Vector_Empty :: "vector \<Rightarrow> bool" where
  "Vector_Empty vec \<longleftrightarrow> vec_size vec = 0"

definition Vector_EmplaceBack :: "umm_state \<Rightarrow> vector \<Rightarrow> (umm_state \<times> vector \<times> u16) option" where
  "Vector_EmplaceBack s vec =
     map_option (\<lambda>(s', vec'). (s', vec', Vector_Back vec')) (Vector_Resize s vec (vec_size vec + 1))"

definition Vector_EmplaceBack2 :: "umm_state \<Rightarrow> vector \<Rightarrow> u16 \<Rightarrow> (umm_state \<times> vector \<times> u16) option" where
  "Vector_EmplaceBack2 s vec len =
     (let oldsize = vec_size vec
      in map_option (\<lambda>(s', vec'). (s', vec', Vector_At vec' oldsize)) (Vector_Resize s vec (oldsize + len)))"

definition Vector_PushBack :: "umm_state \<Rightarrow> vector \<Rightarrow> u8 list \<Rightarrow> (umm_state \<times> vector) option" where
  "Vector_PushBack s vec object =
     map_option (\<lambda>(s', vec', p).
         (put_bytes umm_store s' p (take (unat (vec_element_size vec')) object), vec'))
       (Vector_EmplaceBack s vec)"

definition Vector_PushBack2 :: "umm_state \<Rightarrow> vector \<Rightarrow> u8 list \<Rightarrow> u16 \<Rightarrow> (umm_state \<times> vector) option" where
  "Vector_PushBack2 s vec object len =
     map_option (\<lambda>(s', vec', p).
         (put_bytes umm_store s' p (take (unat (vec_element_size vec' * len)) object), vec'))
       (Vector_EmplaceBack2 s vec len)"

definition Vector_Erase :: "umm_state \<Rightarrow> vector \<Rightarrow> u16 \<Rightarrow> umm_state \<times> vector" where
  "Vector_Erase s vec object =
     (let pos = ucast (Vector_DistanceFromBegin vec object) :: u16;
          items_left = vec_size vec - pos - 1;
          s' = (if items_left \<noteq> 0
                then put_bytes umm_store s object
                       (get_bytes umm_load s (object + vec_element_size vec)
                         (unat (items_left * vec_element_size vec)))
                else s)
      in (s', vec\<lparr>vec_size := vec_size vec - 1\<rparr>))"

primrec Vector_Find_from :: "umm_state \<Rightarrow> vector \<Rightarrow> u8 list \<Rightarrow> nat list \<Rightarrow> u32" where
  "Vector_Find_from s vec object [] = -1"
| "Vector_Find_from s vec object (i # is) =
     (if get_bytes umm_load s (Vector_At vec (of_nat i)) (unat (vec_element_size vec)) =
         take (unat (vec_element_size vec)) object
      then of_nat i else Vector_Find_from s vec object is)"

definition Vector_Find :: "umm_state \<Rightarrow> vector \<Rightarrow> u8 list \<Rightarrow> u32" where
  "Vector_Find s vec object = Vector_Find_from s vec object [0..<unat (vec_size vec)]"

definition Set_Insert :: "umm_state \<Rightarrow> vector \<Rightarrow> u8 list \<Rightarrow> (umm_state \<times> vector \<times> bool) option" where
  "Set_Insert s vec object =
     (if Vector_Find s vec object = -1
      then map_option (\<lambda>(s', vec'). (s', vec', True)) (Vector_PushBack s vec object)
      else Some (s, vec, False))"

text \<open>\<open>None\<close>: the endless loop of a trap.\<close>

definition malloc_safe :: "umm_state \<Rightarrow> u16 \<Rightarrow> (umm_state \<times> u16) option" where
  "malloc_safe s len =
     (case umm_malloc s len of None \<Rightarrow> None | Some (s', ret) \<Rightarrow> if ret = 0 then None else Some (s', ret))"

definition calloc_safe :: "umm_state \<Rightarrow> u16 \<Rightarrow> u16 \<Rightarrow> (umm_state \<times> u16) option" where
  "calloc_safe s n len =
     (case umm_calloc s n len of None \<Rightarrow> None | Some (s', ret) \<Rightarrow> if ret = 0 then None else Some (s', ret))"

definition realloc_safe :: "umm_state \<Rightarrow> u16 \<Rightarrow> u16 \<Rightarrow> (umm_state \<times> u16) option" where
  "realloc_safe s p len =
     (case umm_realloc s p len of None \<Rightarrow> None | Some (s', ret) \<Rightarrow> if ret = 0 then None else Some (s', ret))"

definition free_safe :: "umm_state \<Rightarrow> u16 \<Rightarrow> umm_state option" where
  "free_safe s p = (if p = 0 then None else Some (umm_free s p))"

subsection \<open>The list a vector stands for\<close>

definition vec_rep :: "umm_state \<Rightarrow> vector \<Rightarrow> u8 list list \<Rightarrow> bool" where
  "vec_rep s vec xs \<longleftrightarrow>
     umm_inv s \<and> vec_element_size vec \<noteq> 0 \<and> unat (vec_size vec) = length xs \<and>
     list_all (\<lambda>x. length x = unat (vec_element_size vec)) xs \<and>
     unat (vec_element_size vec) * length xs < 65536 \<and>
     (vec_data vec = 0 \<and> xs = [] \<or> vec_data vec \<noteq> 0 \<and> holds umm_live umm_load s (vec_data vec) (concat xs))"

lemma length_concat_uniform:
  "list_all (\<lambda>x. length x = n) xs \<Longrightarrow> length (concat xs) = n * length xs"
  by (induction xs) auto

lemma concat_slice:
  "list_all (\<lambda>x. length x = n) xs \<Longrightarrow> i < length xs \<Longrightarrow> take n (drop (n * i) (concat xs)) = xs ! i"
proof (induction xs arbitrary: i)
  case (Cons x xs)
  then show ?case by (cases i) (auto simp: add.commute)
qed simp

lemma concat_take:
  "list_all (\<lambda>x. length x = n) xs \<Longrightarrow> take (n * i) (concat xs) = concat (take i xs)"
proof (induction xs arbitrary: i)
  case (Cons x xs)
  then show ?case by (cases i) auto
qed simp

lemma concat_drop:
  "list_all (\<lambda>x. length x = n) xs \<Longrightarrow> drop (n * i) (concat xs) = concat (drop i xs)"
proof (induction xs arbitrary: i)
  case (Cons x xs)
  then show ?case by (cases i) auto
qed simp

lemma unat_mult_u16: "unat a * unat b < 65536 \<Longrightarrow> unat (a * b :: u16) = unat a * unat b"
  by (subst unat_word_ariths(2)) simp

lemma rep_parts:
  assumes "vec_rep s vec xs"
  shows "umm_inv s" "vec_element_size vec \<noteq> 0" "unat (vec_size vec) = length xs"
    "list_all (\<lambda>x. length x = unat (vec_element_size vec)) xs" "unat (vec_element_size vec) * length xs < 65536"
    "vec_data vec = 0 \<and> xs = [] \<or> vec_data vec \<noteq> 0 \<and> holds umm_live umm_load s (vec_data vec) (concat xs)"
    "0 < unat (vec_element_size vec)" "length (concat xs) = unat (vec_element_size vec) * length xs"
    "xs \<noteq> [] \<Longrightarrow> vec_data vec \<noteq> 0 \<and> holds umm_live umm_load s (vec_data vec) (concat xs)"
  using assms unfolding vec_rep_def by (auto simp: unat_gt_0 length_concat_uniform)

lemma elem_offset: "e * of_nat i = (of_nat (unat e * i) :: u16)"
  by simp

lemma rep_elem:
  assumes "vec_rep s vec xs" and "i < length xs"
  shows "get_bytes umm_load s (vec_data vec + vec_element_size vec * of_nat i) (unat (vec_element_size vec)) = xs ! i"
proof -
  note R = rep_parts[OF assms(1)]
  let ?e = "unat (vec_element_size vec)"
  have "xs \<noteq> []" using assms(2) by auto
  then have h: "holds umm_live umm_load s (vec_data vec) (concat xs)" using R(9) by blast
  have "?e * Suc i \<le> ?e * length xs" by (rule mult_le_mono2) (use assms(2) in simp)
  then have le: "?e * i + ?e \<le> length (concat xs)" unfolding R(8) by (simp add: add.commute)
  show ?thesis
    unfolding elem_offset holds_get[OF h le] by (rule concat_slice[OF R(4) assms(2)])
qed

lemma rep_at:
  assumes "vec_rep s vec xs" and "i < length xs"
  shows "Vector_At vec (of_nat i) = vec_data vec + vec_element_size vec * of_nat i"
proof -
  note R = rep_parts[OF assms(1)]
  have "unat (of_nat i :: u16) = i" using assms(2) R(3) unat_u16[of "vec_size vec"]
    by (simp add: unat_of_nat)
  then show ?thesis using assms(2) R(3) by (simp add: Vector_At_def word_le_nat_alt)
qed

lemma resize_ok:
  assumes "vec_rep s vec xs" and "n \<noteq> 0" and "unat (vec_element_size vec) * unat n < 65536"
  shows "\<exists>s' q. Vector_Resize s vec n = Some (s', vec\<lparr>vec_data := q, vec_size := n\<rparr>) \<and> umm_inv s' \<and>
     (q = 0 \<and> s' = s \<or>
      q \<noteq> 0 \<and> (umm_live s q = None \<or> q = vec_data vec) \<and>
      (\<exists>k. umm_live s' q = Some k \<and> unat (vec_element_size vec) * unat n \<le> k) \<and>
      holds umm_live umm_load s' q (concat (take (unat n) xs)) \<and> keeps umm_live umm_load s s' {vec_data vec})"
proof -
  note R = rep_parts[OF assms(1)]
  have u: "unat (vec_element_size vec * n) = unat (vec_element_size vec) * unat n"
    by (rule unat_mult_u16[OF assms(3)])
  have "0 < unat n" using assms(2) by (simp add: unat_gt_0)
  then have nz: "vec_element_size vec * n \<noteq> 0" using R(7) u by (metis mult_is_0 not_gr_zero unat_0)
  have pre: "vec_data vec = 0 \<and> concat xs = [] \<or> vec_data vec \<noteq> 0 \<and> holds umm_live umm_load s (vec_data vec) (concat xs)"
    using R(6) by auto
  show ?thesis
    using umm.grow_ok[OF R(1) nz pre] unfolding u concat_take[OF R(4)] Vector_Resize_def
    by (elim exE conjE) (simp, blast)
qed

lemma pushback_ok:
  assumes "vec_rep s vec xs" and "length obj = unat (vec_element_size vec)"
    and "unat (vec_element_size vec) * Suc (length xs) < 65536"
  shows "\<exists>s' vec'. Vector_PushBack s vec obj = Some (s', vec') \<and> vec_size vec' = vec_size vec + 1 \<and>
     (vec_data vec' = 0 \<or> vec_rep s' vec' (xs @ [obj]) \<and> vec_element_size vec' = vec_element_size vec \<and>
       keeps umm_live umm_load s s' {vec_data vec})"
proof -
  note R = rep_parts[OF assms(1)]
  let ?e = "unat (vec_element_size vec)"
  have "Suc (length xs) \<le> ?e * Suc (length xs)" using R(7) by (cases ?e) auto
  then have "Suc (length xs) < 65536" using assms(3) by linarith
  then have n: "unat (vec_size vec + 1) = Suc (length xs)" using R(3) by (subst unat_add_no_wrap) auto
  then have nz: "vec_size vec + 1 \<noteq> 0" by (metis unat_0 nat.distinct(1))
  have sz: "?e * unat (vec_size vec + 1) < 65536" using assms(3) n by simp
  from resize_ok[OF assms(1) nz sz] obtain s1 q where
    Z: "Vector_Resize s vec (vec_size vec + 1) = Some (s1, vec\<lparr>vec_data := q, vec_size := vec_size vec + 1\<rparr>)" "umm_inv s1"
    and c: "q = 0 \<and> s1 = s \<or> q \<noteq> 0 \<and> (umm_live s q = None \<or> q = vec_data vec) \<and>
      (\<exists>k. umm_live s1 q = Some k \<and> ?e * unat (vec_size vec + 1) \<le> k) \<and>
      holds umm_live umm_load s1 q (concat (take (unat (vec_size vec + 1)) xs)) \<and>
      keeps umm_live umm_load s s1 {vec_data vec}" by blast
  let ?v = "vec\<lparr>vec_data := q, vec_size := vec_size vec + 1\<rparr>"
  have bk: "Vector_Back ?v = q + of_nat (length (concat xs))"
    using nz R(3) unfolding Vector_Back_def R(8) by (simp add: R(3)[symmetric])
  have pb: "Vector_PushBack s vec obj = Some (put_bytes umm_store s1 (q + of_nat (length (concat xs))) obj, ?v)"
    using Z(1) bk assms(2) by (simp add: Vector_PushBack_def Vector_EmplaceBack_def)
  show ?thesis
  proof (cases "q = 0")
    case True
    then show ?thesis using pb by simp
  next
    case False
    with c n obtain k where k: "umm_live s1 q = Some k" "?e * Suc (length xs) \<le> k"
      and h: "holds umm_live umm_load s1 q (concat xs)" and kp: "keeps umm_live umm_load s s1 {vec_data vec}"
      and fr: "umm_live s q = None \<or> q = vec_data vec" by auto
    have le: "length (concat xs) + length obj \<le> k" using k(2) assms(2) R(8) by (simp add: add.commute)
    note P = umm.put_holds[OF Z(2) h k(1) order_refl le refl]
    have "vec_rep (put_bytes umm_store s1 (q + of_nat (length (concat xs))) obj) ?v (xs @ [obj])"
      using P(1,4) R(2,4) n assms(2,3) False by (simp add: vec_rep_def)
    moreover have "keeps umm_live umm_load s (put_bytes umm_store s1 (q + of_nat (length (concat xs))) obj) {vec_data vec}"
      unfolding keeps_def
    proof (intro allI impI)
      fix r j assume r: "r \<notin> {vec_data vec}" "umm_live s r = Some j"
      then have "r \<noteq> q" using fr by auto
      with P(3) kp r show "umm_live (put_bytes umm_store s1 (q + of_nat (length (concat xs))) obj) r = Some j \<and>
         (\<forall>i<j. umm_load (put_bytes umm_store s1 (q + of_nat (length (concat xs))) obj) (r + of_nat i) =
            umm_load s (r + of_nat i))" unfolding keeps_def by auto
    qed
    ultimately show ?thesis using pb by auto
  qed
qed

lemma erase_pos:
  assumes "vec_rep s vec xs" and "i < length xs"
  shows "(ucast (Vector_DistanceFromBegin vec (Vector_At vec (of_nat i))) :: u16) = of_nat i"
proof -
  note R = rep_parts[OF assms(1)]
  let ?e = "vec_element_size vec"
  have "unat ?e * i \<le> unat ?e * length xs" using assms(2) by (intro mult_le_mono2) simp
  then have lt: "unat ?e * i < 65536" using R(5) by linarith
  have il: "i < 65536" using assms(2) R(3) unat_u16[of "vec_size vec"] by linarith
  have ui: "unat (of_nat i :: u16) = i" using il by (simp add: unat_of_nat)
  have "unat (?e * of_nat i) = unat ?e * i" using lt ui by (subst unat_mult_u16) auto
  then have "unat ((?e * of_nat i) div ?e) = i" using R(7) by (simp add: unat_div)
  then have "(?e * of_nat i) div ?e = of_nat i" using ui by (simp add: word_unat_eq_iff)
  then have "Vector_DistanceFromBegin vec (Vector_At vec (of_nat i)) = ucast (of_nat i :: u16)"
    using R(2) unfolding Vector_DistanceFromBegin_def rep_at[OF assms] by simp
  then show ?thesis using ui il by (simp add: word_unat_eq_iff unat_ucast_mod)
qed

lemma erase_ok:
  assumes "vec_rep s vec xs" and "i < length xs" and "Vector_Erase s vec (Vector_At vec (of_nat i)) = (s', vec')"
  shows "vec_rep s' vec' (take i xs @ drop (Suc i) xs)" "keeps umm_live umm_load s s' {vec_data vec}"
    "vec_data vec' = vec_data vec"
proof -
  note R = rep_parts[OF assms(1)]
  let ?e = "unat (vec_element_size vec)" and ?d = "vec_data vec" and ?es = "vec_element_size vec"
  let ?l = "vec_size vec - of_nat i - 1"
  have ne: "xs \<noteq> []" using assms(2) by auto
  from R(9)[OF this] have d: "?d \<noteq> 0" and h: "holds umm_live umm_load s ?d (concat xs)" by auto
  obtain k where k: "umm_live s ?d = Some k" "length (concat xs) \<le> k" using holds_live[OF h] by blast
  have il: "i < 65536" using assms(2) R(3) unat_u16[of "vec_size vec"] by linarith
  have ui: "unat (of_nat i :: u16) = i" using il by (simp add: unat_of_nat)
  have "of_nat i \<le> vec_size vec" using assms(2) R(3) ui by (simp add: word_le_nat_alt)
  then have u1: "unat (vec_size vec - of_nat i) = length xs - i" using R(3) ui by (simp add: unat_sub)
  then have "1 \<le> vec_size vec - of_nat i" using assms(2) by (simp add: word_le_nat_alt)
  then have ul: "unat ?l = length xs - Suc i" using u1 by (simp add: unat_sub)
  have "unat ?l * ?e \<le> length xs * ?e" using ul by (intro mult_le_mono1) simp
  then have "unat ?l * ?e < 65536" using R(5) by (simp only: mult.commute)
  then have "unat (?l * ?es) = unat ?l * ?e" by (rule unat_mult_u16)
  then have um: "unat (?l * ?es) = (length xs - Suc i) * ?e" unfolding ul .
  have el: "?e * i + ?e + ?e * (length xs - Suc i) = length (concat xs)"
  proof -
    have "?e * i + ?e + ?e * (length xs - Suc i) = ?e * (Suc i + (length xs - Suc i))" by (simp add: distrib_left)
    also have "Suc i + (length xs - Suc i) = length xs" using assms(2) by simp
    finally show ?thesis using R(8) by simp
  qed
  let ?ws = "get_bytes umm_load s (?d + ?es * of_nat i + ?es) (unat (?l * ?es))"
  have off: "?d + ?es * of_nat i + ?es = ?d + of_nat (?e * Suc i)" by (simp add: add.assoc)
  have "length (concat (drop (Suc i) xs)) = length (concat xs) - ?e * Suc i"
    by (simp only: concat_drop[OF R(4), symmetric] length_drop)
  then have lc: "length (concat (drop (Suc i) xs)) = ?e * (length xs - Suc i)" using el by simp
  have ws: "?ws = concat (drop (Suc i) xs)"
    unfolding off um
    by (subst holds_get[OF h]) (use el concat_drop[OF R(4), of "Suc i"] lc in \<open>simp_all add: mult.commute\<close>)
  have len: "?e * i + length ?ws \<le> k" using el k(2) um by (simp add: mult.commute)
  have a: "?e * i \<le> length (concat xs)" using el by linarith
  note P = umm.put_holds[OF R(1) h k(1) a len refl]
  have pos: "ucast (Vector_DistanceFromBegin vec (?d + ?es * of_nat i)) = (of_nat i :: u16)"
    using erase_pos[OF assms(1,2)] unfolding rep_at[OF assms(1,2)] .
  have lz: "?l = 0 \<Longrightarrow> ?ws = []" by (simp add: get_bytes_def)
  have "Vector_Erase s vec (?d + ?es * of_nat i) =
      (put_bytes umm_store s (?d + ?es * of_nat i) ?ws, vec\<lparr>vec_size := vec_size vec - 1\<rparr>)"
    unfolding Vector_Erase_def Let_def pos using lz by (cases "?l = 0") simp_all
  then have er: "Vector_Erase s vec (Vector_At vec (of_nat i)) =
      (put_bytes umm_store s (?d + of_nat (?e * i)) ?ws, vec\<lparr>vec_size := vec_size vec - 1\<rparr>)"
    unfolding rep_at[OF assms(1,2)] by simp
  have s': "s' = put_bytes umm_store s (?d + of_nat (?e * i)) ?ws" and v': "vec' = vec\<lparr>vec_size := vec_size vec - 1\<rparr>"
    using assms(3) er by auto
  have full: "concat (take i xs @ drop (Suc i) xs) =
      take (length (concat (take i xs @ drop (Suc i) xs)))
        (take (?e * i) (concat xs) @ ?ws @ drop (?e * i + length ?ws) (concat xs))"
    unfolding ws concat_take[OF R(4)] by simp
  have hh: "holds umm_live umm_load s' ?d (concat (take i xs @ drop (Suc i) xs))"
    unfolding s' by (subst full) (rule holds_take[OF P(4)])
  have "unat (vec_size vec - 1) = length xs - 1"
    using R(3) assms(2) by (subst unat_sub) (auto simp: word_le_nat_alt)
  moreover have "list_all (\<lambda>x. length x = ?e) (take i xs @ drop (Suc i) xs)"
    using R(4) by (auto simp: list_all_iff dest: in_set_takeD in_set_dropD)
  moreover have "?e * (length xs - 1) < 65536"
    by (rule le_less_trans[OF _ R(5)]) simp
  ultimately show "vec_rep s' vec' (take i xs @ drop (Suc i) xs)"
    using P(1) hh d R(2) assms(2) unfolding vec_rep_def v' s' by simp
  show "keeps umm_live umm_load s s' {?d}" unfolding s' by (rule P(3))
  show "vec_data vec' = ?d" unfolding v' by simp
qed

lemma find_from_ok:
  assumes "vec_rep s vec xs" and "length obj = unat (vec_element_size vec)" and "\<forall>i\<in>set is. i < length xs"
  shows "Vector_Find_from s vec obj is = (case filter (\<lambda>i. xs ! i = obj) is of [] \<Rightarrow> -1 | i # _ \<Rightarrow> of_nat i)"
  using assms(3)
proof (induction "is")
  case (Cons i "is")
  then have "Vector_At vec (of_nat i) = vec_data vec + vec_element_size vec * of_nat i"
    "get_bytes umm_load s (vec_data vec + vec_element_size vec * of_nat i) (unat (vec_element_size vec)) = xs ! i"
    using rep_at[OF assms(1)] rep_elem[OF assms(1)] by auto
  with Cons assms(2) show ?case by auto
qed simp

lemma filter_hd_upt:
  assumes "filter P [0..<n] = i # ks"
  shows "i < n" "P i" "\<And>j. j < i \<Longrightarrow> \<not> P j"
proof -
  have "i \<in> set (filter P [0..<n])" using assms by simp
  then show "i < n" "P i" by auto
  show "\<not> P j" if j: "j < i" for j
  proof
    assume "P j"
    then have "j \<in> set (filter P [0..<n])" using j \<open>i < n\<close> by auto
    moreover have "sorted (filter P [0..<n])" by (simp add: sorted_wrt_filter)
    ultimately show False using j assms by auto
  qed
qed

lemma minus_1_u32: "(-1 :: u32) = 0xFFFFFFFF"
  by simp

lemma find_ok:
  assumes "vec_rep s vec xs" and "length obj = unat (vec_element_size vec)"
  shows "obj \<notin> set xs \<and> Vector_Find s vec obj = -1 \<or>
    (\<exists>i < length xs. Vector_Find s vec obj = of_nat i \<and> xs ! i = obj \<and> obj \<notin> set (take i xs))"
    "Vector_Find s vec obj = -1 \<longleftrightarrow> obj \<notin> set xs"
proof -
  note R = rep_parts[OF assms(1)]
  have F: "Vector_Find s vec obj =
      (case filter (\<lambda>i. xs ! i = obj) [0..<length xs] of [] \<Rightarrow> -1 | i # _ \<Rightarrow> of_nat i)"
    unfolding Vector_Find_def R(3) by (rule find_from_ok[OF assms]) auto
  show A: "obj \<notin> set xs \<and> Vector_Find s vec obj = -1 \<or>
    (\<exists>i < length xs. Vector_Find s vec obj = of_nat i \<and> xs ! i = obj \<and> obj \<notin> set (take i xs))"
  proof (cases "filter (\<lambda>i. xs ! i = obj) [0..<length xs]")
    case Nil
    then have "obj \<notin> set xs" by (auto simp: filter_empty_conv in_set_conv_nth)
    then show ?thesis using F Nil by simp
  next
    case (Cons i ks)
    note H = filter_hd_upt[OF Cons]
    have "obj \<notin> set (take i xs)" using H(3) by (auto simp: in_set_conv_nth)
    then show ?thesis using F Cons H(1,2) by auto
  qed
  show "Vector_Find s vec obj = -1 \<longleftrightarrow> obj \<notin> set xs"
    using A
  proof (elim disjE exE conjE)
    fix i assume i: "i < length xs" "Vector_Find s vec obj = of_nat i" "xs ! i = obj"
    have "i < 65536" using i(1) R(3) unat_u16[of "vec_size vec"] by linarith
    then have "unat (of_nat i :: u32) \<noteq> unat (0xFFFFFFFF :: u32)" by (simp add: unat_of_nat)
    then have "(of_nat i :: u32) \<noteq> -1" by (metis minus_1_u32)
    then have "Vector_Find s vec obj \<noteq> -1" using i(2) by simp
    then show ?thesis using i by auto
  qed auto
qed

subsection \<open>The vector as a list\<close>

lemma get_bytes_add: "get_bytes ld s a (m + n) = get_bytes ld s a m @ get_bytes ld s (a + of_nat m) n"
  by (rule nth_equalityI) (auto simp: nth_get_bytes nth_append add.assoc simp flip: of_nat_add)

definition vector_ex :: vector where
  "vector_ex = \<lparr>vec_size = 2, vec_data = 0x100C, vec_element_size = 4\<rparr>"

definition vector_ex_list :: "u8 list list" where
  "vector_ex_list = [get_bytes umm_load umm_ex 0x100C 4, get_bytes umm_load umm_ex 0x1010 4]"

lemma vector_ex_rep: "vec_rep umm_ex vector_ex vector_ex_list"
  using umm_ex_inv umm_ex_live get_bytes_add[where m = 4 and n = 4 and s = umm_ex and ld = umm_load and a = "0x100C"]
  by (simp add: vec_rep_def vector_ex_def vector_ex_list_def holds_def)

text \<open>\<open>Vector_PushBack\<close> returns. If memory could be allocated the vector stands for the old list
  with the object at its end, and every other block keeps its data; if not, the vector's data
  pointer is \<open>NULL\<close>.\<close>

theorem Vector_PushBack_correct:
  assumes "vec_rep s vec xs" and "length obj = unat (vec_element_size vec)"
    and "unat (vec_element_size vec) * Suc (length xs) < 65536"
  shows "\<exists>s' vec'. Vector_PushBack s vec obj = Some (s', vec') \<and>
     (vec_data vec' = 0 \<or> vec_rep s' vec' (xs @ [obj]) \<and> keeps umm_live umm_load s s' {vec_data vec})"
  using pushback_ok[OF assms] by blast

theorem Vector_PushBack_correct_witness: "\<exists>s' vec'. Vector_PushBack umm_ex vector_ex [1, 2, 3, 4] = Some (s', vec')"
  using Vector_PushBack_correct[OF vector_ex_rep, of "[1, 2, 3, 4]"] by (auto simp: vector_ex_def vector_ex_list_def)

text \<open>\<open>Vector_Erase\<close> of a pointer to the element at an index removes exactly that element.\<close>

theorem Vector_Erase_correct:
  assumes "vec_rep s vec xs" and "i < length xs"
  shows "case Vector_Erase s vec (Vector_At vec (of_nat i)) of (s', vec') \<Rightarrow>
    vec_rep s' vec' (take i xs @ drop (Suc i) xs) \<and> keeps umm_live umm_load s s' {vec_data vec}"
  using erase_ok[OF assms] by (auto split: prod.split)

theorem Vector_Erase_correct_witness:
  "case Vector_Erase umm_ex vector_ex 0x100C of (s', vec') \<Rightarrow> vec_rep s' vec' [get_bytes umm_load umm_ex 0x1010 4]"
  using Vector_Erase_correct[OF vector_ex_rep, of 0]
  by (auto simp: vector_ex_list_def Vector_At_def vector_ex_def split: prod.splits)

text \<open>\<open>Vector_Find\<close> gives the first index of the object, and \<open>Vector_Npos\<close> exactly when it is not there;
  \<open>Vector_At\<close> of an index points to that element.\<close>

theorem Vector_Find_correct:
  assumes "vec_rep s vec xs" and "length obj = unat (vec_element_size vec)"
  shows "(obj \<notin> set xs \<and> Vector_Find s vec obj = -1) \<or>
    (\<exists>i < length xs. Vector_Find s vec obj = of_nat i \<and> xs ! i = obj \<and> obj \<notin> set (take i xs) \<and>
      get_bytes umm_load s (Vector_At vec (of_nat i)) (unat (vec_element_size vec)) = obj)"
  using find_ok(1)[OF assms] rep_at[OF assms(1)] rep_elem[OF assms(1)] by fastforce

theorem Vector_Find_correct_witness:
  "Vector_Find umm_ex vector_ex (get_bytes umm_load umm_ex 0x100C 4) = 0"
  using Vector_Find_correct[OF vector_ex_rep, of "get_bytes umm_load umm_ex 0x100C 4"]
  by (auto simp: vector_ex_list_def vector_ex_def less_Suc_eq)

text \<open>\<open>Set_Insert\<close> keeps the elements distinct: it adds an object that is not there yet, if memory can
  be allocated, and leaves the vector alone and says so when the object is there.\<close>

theorem Set_Insert_correct:
  assumes "vec_rep s vec xs" and "distinct xs" and "length obj = unat (vec_element_size vec)"
    and "unat (vec_element_size vec) * Suc (length xs) < 65536"
  shows "(obj \<in> set xs \<and> Set_Insert s vec obj = Some (s, vec, False)) \<or>
    (obj \<notin> set xs \<and> (\<exists>s' vec'. Set_Insert s vec obj = Some (s', vec', True) \<and>
      (vec_data vec' = 0 \<or> vec_rep s' vec' (xs @ [obj]) \<and> distinct (xs @ [obj]))))"
proof (cases "obj \<in> set xs")
  case True
  then show ?thesis using find_ok(2)[OF assms(1,3)] by (simp add: Set_Insert_def)
next
  case False
  then show ?thesis
    using find_ok(2)[OF assms(1,3)] pushback_ok[OF assms(1,3,4)] assms(2) by (auto simp: Set_Insert_def)
qed

theorem Set_Insert_correct_witness:
  "\<exists>s' vec'. Set_Insert umm_ex (Vector_Init 4) [1, 2, 3, 4] = Some (s', vec', True)"
proof -
  have "vec_rep umm_ex (Vector_Init 4) []" using umm_ex_inv by (simp add: vec_rep_def Vector_Init_def)
  from Set_Insert_correct[OF this, of "[1, 2, 3, 4]"] show ?thesis by (auto simp: Vector_Init_def)
qed

subsection \<open>Where the vector loses memory\<close>

text \<open>When a vector cannot be resized, nothing is reported: the vector claims the new number of
  elements at \<open>NULL\<close>, and the block with its old elements stays allocated with no pointer to it.\<close>

theorem Vector_Resize_failure:
  assumes "vec_rep s vec xs" and "xs \<noteq> []" and "n \<noteq> 0" and "unat (vec_element_size vec) * unat n < 65536"
    and "Vector_Resize s vec n = Some (s', vec')" and "vec_data vec' = 0"
  shows "vec_size vec' = n \<and> umm_live s' (vec_data vec) \<noteq> None \<and> Vector_At vec' 0 = 0"
proof -
  note R = rep_parts[OF assms(1)]
  have "holds umm_live umm_load s (vec_data vec) (concat xs)" using R(9)[OF assms(2)] by blast
  from holds_live[OF this] obtain k where "umm_live s (vec_data vec) = Some k" by blast
  then show ?thesis
    using resize_ok[OF assms(1,3,4)] assms(3,5,6) by (auto simp: Vector_At_def)
qed

lemma vector_ex_no_space: "umm_realloc umm_ex 0x100C 0x4000 = Some (umm_ex, 0)"
proof -
  have b: "umm_blocks 0x4000 = 0x801" by (simp add: umm_blocks_def)
  have f: "umm_free_list umm_ex = [3]"
    by (rule wf_lists(2)[where bs = "[0, 1, 3, 7]"]) (use umm_ex_wf in \<open>simp add: umm_ex_def\<close>)
  have "blksize (umm_blk umm_ex) 3 = 4" by (simp add: blksize_def umm_ex_links)
  then have c: "umm_malloc_core umm_ex 0x4000 = Some (umm_ex, 0)"
    using malloc_ok[OF umm_ex_inv, of "0x4000" "0x801"] b f by auto
  have n: "UMM_NBLOCK (umm_blk umm_ex) 1 = 3" "UMM_NBLOCK (umm_blk umm_ex) 3 = 0x8007"
    "UMM_PBLOCK (umm_blk umm_ex) 1 = 0" "UMM_NBLOCK (umm_blk umm_ex) 0 = 1" "umm_block_of umm_ex 0x100C = 1"
    by (simp_all add: UMM_NBLOCK_def UMM_PBLOCK_def umm_block_of_def umm_ex_def)
  have "umm_realloc_place umm_ex 0x100C 0x4000 = Some (umm_ex, 1, 0, 0x801)"
    unfolding umm_realloc_place_def n Let_def b c by (simp add: n umm_masks)
  moreover have "umm_ensure_init umm_ex = umm_ex" by (simp add: umm_ensure_init_def umm_ex_def)
  ultimately show ?thesis by (simp add: umm_realloc_def b)
qed

theorem Vector_Resize_failure_witness:
  "\<exists>s' vec'. Vector_Resize umm_ex vector_ex 0x1000 = Some (s', vec') \<and> vec_size vec' = 0x1000 \<and>
    umm_live s' 0x100C \<noteq> None"
proof -
  obtain s' where z: "Vector_Resize umm_ex vector_ex 0x1000 = Some (s', vector_ex\<lparr>vec_data := 0, vec_size := 0x1000\<rparr>)"
    using vector_ex_no_space by (simp add: Vector_Resize_def c_realloc_def vector_ex_def)
  from Vector_Resize_failure[OF vector_ex_rep _ _ _ z] show ?thesis
    using z by (auto simp: vector_ex_def vector_ex_list_def)
qed

text \<open>\<open>Vector_Clear\<close> does not release the block of a vector whose elements have all been erased.\<close>

theorem Vector_Clear_leaks:
  assumes "vec_rep s vec [x]" and "Vector_Erase s vec (Vector_At vec 0) = (s', vec')"
  shows "Vector_Clear s' vec' = (s', vec') \<and> umm_live s' (vec_data vec') \<noteq> None"
proof -
  have e: "Vector_Erase s vec (Vector_At vec (of_nat 0)) = (s', vec')" using assms(2) by simp
  note E = erase_ok[OF assms(1) _ e]
  have r: "vec_rep s' vec' []" "vec_data vec' = vec_data vec" using E(1,3) by auto
  have "vec_data vec \<noteq> 0" using rep_parts(9)[OF assms(1)] by simp
  with r have "holds umm_live umm_load s' (vec_data vec') (concat [])" unfolding vec_rep_def by metis
  moreover have "vec_size vec' = 0" using rep_parts(3)[OF r(1)] by (simp add: unat_eq_0)
  ultimately show ?thesis by (auto simp: Vector_Clear_def dest!: holds_live)
qed

theorem Vector_Clear_leaks_witness:
  "case Vector_Erase umm_ex (vector_ex\<lparr>vec_size := 1\<rparr>) 0x100C of (s', vec') \<Rightarrow> Vector_Clear s' vec' = (s', vec')"
proof -
  have "vec_rep umm_ex (vector_ex\<lparr>vec_size := 1\<rparr>) [get_bytes umm_load umm_ex 0x100C 4]"
    using umm_ex_inv umm_ex_live by (simp add: vec_rep_def vector_ex_def holds_def)
  from Vector_Clear_leaks[OF this] show ?thesis by (auto simp: Vector_At_def vector_ex_def split: prod.split)
qed

end
