(* ===== verification/Variant.thy ===== *)
theory Variant
  imports Prelude
begin

section \<open>Numbers in unaligned memory\<close>

text \<open>
  Models \<^verbatim>\<open>Library/Variant.c\<close>: numbers read byte by byte from memory of any alignment. The memory is
  the list of bytes the pointer points to; the PIC24 is little-endian. The signed functions have the
  same bits as the unsigned ones. The two byte order functions serve the USB components as well.
\<close>

primrec le_bytes :: "nat \<Rightarrow> 'a::len word \<Rightarrow> u8 list" where
  "le_bytes 0 w = []"
| "le_bytes (Suc n) w = ucast w # le_bytes n (drop_bit 8 w)"

primrec le_word :: "u8 list \<Rightarrow> 'a::len word" where
  "le_word [] = 0"
| "le_word (b # bs) = ucast b OR push_bit 8 (le_word bs)"

definition Variant_AsUint8 :: "u8 list \<Rightarrow> u8" where
  "Variant_AsUint8 data = hd data"

definition Variant_AsUint16 :: "u8 list \<Rightarrow> u16" where
  "Variant_AsUint16 data = le_word (take 2 data)"

definition Variant_AsUint32 :: "u8 list \<Rightarrow> u32" where
  "Variant_AsUint32 data = le_word (take 4 data)"

definition Variant_AsUint64 :: "u8 list \<Rightarrow> 64 word" where
  "Variant_AsUint64 data = le_word (take 8 data)"

definition Variant_AsInt8 :: "u8 list \<Rightarrow> int" where
  "Variant_AsInt8 data = sint (Variant_AsUint8 data)"

definition Variant_AsInt16 :: "u8 list \<Rightarrow> int" where
  "Variant_AsInt16 data = sint (Variant_AsUint16 data)"

definition Variant_AsInt32 :: "u8 list \<Rightarrow> int" where
  "Variant_AsInt32 data = sint (Variant_AsUint32 data)"

definition Variant_AsInt64 :: "u8 list \<Rightarrow> int" where
  "Variant_AsInt64 data = sint (Variant_AsUint64 data)"

lemma length_le_bytes [simp]: "length (le_bytes n w) = n"
  by (induction n arbitrary: w) auto

lemma bit_byte_or:
  fixes w :: "'a::len word"
  shows "ucast (ucast w :: u8) OR push_bit 8 (drop_bit 8 w AND mask n) = w AND mask (n + 8)"
  by (rule bit_word_eqI) (auto simp: bit_simps)

lemma le_word_bytes: "le_word (le_bytes n w) = w AND mask (8 * n)"
proof (induction n arbitrary: w)
  case (Suc n)
  then show ?case by (simp only: le_bytes.simps le_word.simps bit_byte_or mult_Suc_right add.commute)
qed simp

lemma le_word_bytes_full:
  fixes w :: "'a::len word"
  assumes "LENGTH('a) \<le> 8 * n"
  shows "le_word (le_bytes n w) = w"
  unfolding le_word_bytes by (rule bit_word_eqI) (use assms in \<open>auto simp: bit_simps\<close>)

lemma variant_ok:
  "Variant_AsUint16 (le_bytes 2 w @ bs) = w" "Variant_AsUint32 (le_bytes 4 v @ bs) = v"
  "Variant_AsUint64 (le_bytes 8 u @ bs) = u"
  by (simp_all add: Variant_AsUint16_def Variant_AsUint32_def Variant_AsUint64_def le_word_bytes_full)

text \<open>Reading back what was stored in little-endian order gives the stored number, at every width and
  whatever follows it in memory; the signed variants give its two's complement value.\<close>

theorem Variant_roundtrip:
  "Variant_AsUint16 (le_bytes 2 w @ bs) = w \<and> Variant_AsUint32 (le_bytes 4 v @ bs) = v \<and>
   Variant_AsUint64 (le_bytes 8 u @ bs) = u \<and> Variant_AsInt16 (le_bytes 2 w @ bs) = sint w \<and>
   Variant_AsInt32 (le_bytes 4 v @ bs) = sint v \<and> Variant_AsInt64 (le_bytes 8 u @ bs) = sint u"
  by (simp add: variant_ok Variant_AsInt16_def Variant_AsInt32_def Variant_AsInt64_def)

end
