(* ===== verification/USB_Endpoint.thy ===== *)
theory USB_Endpoint
  imports Prelude
begin

section \<open>Endpoint buffers of the USB device controller\<close>

text \<open>
  Models the part of \<^verbatim>\<open>usb_device.c\<close> and \<^verbatim>\<open>usb_device.h\<close> that the device functions call for data on the
  endpoints other than endpoint 0: the buffer descriptor table with a pair of entries per endpoint
  and direction (\<open>USB_PING_PONG__FULL_PING_PONG\<close>), the pointers to the entry that is next, and the
  functions that arm, query and stall them. A handle is a pointer to an entry, \<open>None\<close> the null pointer.
  The status byte is its bit fields. The buffer address has the type of the client's buffers. The
  serial interface engine is the environment: it clears \<open>bdt_UOWN\<close> when a packet is done.
\<close>

datatype usb_dir = OUT_FROM_HOST | IN_TO_HOST

type_synonym bdt_index = "u8 \<times> usb_dir \<times> bool"
type_synonym usb_handle = "bdt_index option"

record 'b bdt_entry =
  bdt_UOWN :: bool
  bdt_DTS :: bool
  bdt_DTSEN :: bool
  bdt_BSTALL :: bool
  bdt_CNT :: u8
  bdt_ADR :: 'b

record 'b usb_eps =
  BDT :: "bdt_index \<Rightarrow> 'b bdt_entry"
  pBDTEntryIn :: "u8 \<Rightarrow> usb_handle"
  pBDTEntryOut :: "u8 \<Rightarrow> usb_handle"
  U1EP :: "u8 \<Rightarrow> u8"

definition bdt_upd :: "bdt_index \<Rightarrow> ('b bdt_entry \<Rightarrow> 'b bdt_entry) \<Rightarrow> 'b usb_eps \<Rightarrow> 'b usb_eps" where
  "bdt_upd h f u = u\<lparr>BDT := (BDT u)(h := f (BDT u h))\<rparr>"

fun USB_NEXT_PING_PONG :: "usb_handle \<Rightarrow> usb_handle" where
  "USB_NEXT_PING_PONG None = None"
| "USB_NEXT_PING_PONG (Some (ep, d, pp)) = Some (ep, d, \<not> pp)"

definition USBConfigureEndpoint :: "'b usb_eps \<Rightarrow> u8 \<Rightarrow> usb_dir \<Rightarrow> 'b usb_eps" where
  "USBConfigureEndpoint u EPNum direction =
     (let h = (EPNum, direction, False);
          u1 = bdt_upd h (\<lambda>e. e\<lparr>bdt_UOWN := False\<rparr>) u;
          u2 = (if direction = OUT_FROM_HOST then u1\<lparr>pBDTEntryOut := (pBDTEntryOut u1)(EPNum := Some h)\<rparr>
                else u1\<lparr>pBDTEntryIn := (pBDTEntryIn u1)(EPNum := Some h)\<rparr>)
      in bdt_upd (EPNum, direction, True) (\<lambda>e. e\<lparr>bdt_DTS := True\<rparr>)
           (bdt_upd h (\<lambda>e. e\<lparr>bdt_DTS := False\<rparr>) u2))"

definition USB_HANDSHAKE_ENABLED :: u8 where "USB_HANDSHAKE_ENABLED = 0x01"
definition USB_OUT_ENABLED :: u8 where "USB_OUT_ENABLED = 0x08"
definition USB_IN_ENABLED :: u8 where "USB_IN_ENABLED = 0x04"
definition USB_DISALLOW_SETUP :: u8 where "USB_DISALLOW_SETUP = 0x10"

definition USBEnableEndpoint :: "'b usb_eps \<Rightarrow> u8 \<Rightarrow> u8 \<Rightarrow> 'b usb_eps" where
  "USBEnableEndpoint u ep options =
     (let u1 = (if options AND USB_OUT_ENABLED \<noteq> 0 then USBConfigureEndpoint u ep OUT_FROM_HOST else u);
          u2 = (if options AND USB_IN_ENABLED \<noteq> 0 then USBConfigureEndpoint u1 ep IN_TO_HOST else u1)
      in u2\<lparr>U1EP := (U1EP u2)(ep := options)\<rparr>)"

definition USBTransferOnePacket ::
  "'b usb_eps \<Rightarrow> u8 \<Rightarrow> usb_dir \<Rightarrow> 'b \<Rightarrow> u8 \<Rightarrow> 'b usb_eps \<times> usb_handle" where
  "USBTransferOnePacket u ep dir data len =
     (case (if dir = IN_TO_HOST then pBDTEntryIn u ep else pBDTEntryOut u ep) of
        None \<Rightarrow> (u, None)
      | Some h \<Rightarrow>
          let u1 = bdt_upd h (\<lambda>e. e\<lparr>bdt_ADR := data, bdt_CNT := len, bdt_BSTALL := False, bdt_DTSEN := True,
                     bdt_UOWN := True\<rparr>) u;
              u2 = (if dir = IN_TO_HOST
                    then u1\<lparr>pBDTEntryIn := (pBDTEntryIn u1)(ep := USB_NEXT_PING_PONG (pBDTEntryIn u1 ep))\<rparr>
                    else u1\<lparr>pBDTEntryOut := (pBDTEntryOut u1)(ep := USB_NEXT_PING_PONG (pBDTEntryOut u1 ep))\<rparr>)
          in (u2, Some h))"

definition USBHandleBusy :: "'b usb_eps \<Rightarrow> usb_handle \<Rightarrow> bool" where
  "USBHandleBusy u handle = (case handle of None \<Rightarrow> False | Some h \<Rightarrow> bdt_UOWN (BDT u h))"

text \<open>The macro reads through the pointer: its value is not specified for a null handle.\<close>

definition USBHandleGetLength :: "'b usb_eps \<Rightarrow> usb_handle \<Rightarrow> u8" where
  "USBHandleGetLength u handle = bdt_CNT (BDT u (the handle))"

definition USBGetNextHandle :: "'b usb_eps \<Rightarrow> u8 \<Rightarrow> usb_dir \<Rightarrow> usb_handle" where
  "USBGetNextHandle u ep dir = (if dir = OUT_FROM_HOST then pBDTEntryOut u ep else pBDTEntryIn u ep)"

text \<open>For endpoints other than endpoint 0.\<close>

definition USBStallEndpoint :: "'b usb_eps \<Rightarrow> u8 \<Rightarrow> usb_dir \<Rightarrow> 'b usb_eps" where
  "USBStallEndpoint u ep dir =
     bdt_upd (ep, dir, True) (\<lambda>e. e\<lparr>bdt_BSTALL := True, bdt_UOWN := True\<rparr>)
       (bdt_upd (ep, dir, False) (\<lambda>e. e\<lparr>bdt_BSTALL := True, bdt_UOWN := True\<rparr>) u)"

definition usb_stalled :: "'b usb_eps \<Rightarrow> u8 \<Rightarrow> usb_dir \<Rightarrow> bool" where
  "usb_stalled u ep dir \<longleftrightarrow> bdt_BSTALL (BDT u (ep, dir, False)) \<and> bdt_BSTALL (BDT u (ep, dir, True))"

subsection \<open>Facts about the endpoint functions\<close>

text \<open>The pointers of one endpoint point to its own entries.\<close>

definition usb_eps_ok :: "'b usb_eps \<Rightarrow> u8 \<Rightarrow> u8 \<Rightarrow> bool" where
  "usb_eps_ok u ein eout \<longleftrightarrow>
     (\<exists>a. pBDTEntryIn u ein = Some (ein, IN_TO_HOST, a)) \<and> (\<exists>b. pBDTEntryOut u eout = Some (eout, OUT_FROM_HOST, b))"

lemma transfer_in:
  assumes "usb_eps_ok u ein eout"
  shows "usb_eps_ok (fst (USBTransferOnePacket u ein IN_TO_HOST b n)) ein eout"
    and "\<exists>a. snd (USBTransferOnePacket u ein IN_TO_HOST b n) = Some (ein, IN_TO_HOST, a)"
    and "USBHandleBusy (fst (USBTransferOnePacket u ein IN_TO_HOST b n)) (Some (e, OUT_FROM_HOST, c)) =
           USBHandleBusy u (Some (e, OUT_FROM_HOST, c))"
    and "BDT (fst (USBTransferOnePacket u ein IN_TO_HOST b n)) (e, OUT_FROM_HOST, c) = BDT u (e, OUT_FROM_HOST, c)"
  using assms
  by (auto simp: usb_eps_ok_def USBTransferOnePacket_def bdt_upd_def USBHandleBusy_def Let_def)

lemma transfer_out:
  assumes "usb_eps_ok u ein eout"
  shows "usb_eps_ok (fst (USBTransferOnePacket u eout OUT_FROM_HOST b n)) ein eout"
    and "\<exists>a. snd (USBTransferOnePacket u eout OUT_FROM_HOST b n) = Some (eout, OUT_FROM_HOST, a)"
    and "USBHandleBusy (fst (USBTransferOnePacket u eout OUT_FROM_HOST b n)) (Some (e, IN_TO_HOST, c)) =
           USBHandleBusy u (Some (e, IN_TO_HOST, c))"
    and "BDT (fst (USBTransferOnePacket u eout OUT_FROM_HOST b n)) (e, IN_TO_HOST, c) = BDT u (e, IN_TO_HOST, c)"
  using assms
  by (auto simp: usb_eps_ok_def USBTransferOnePacket_def bdt_upd_def USBHandleBusy_def Let_def)

lemma transfer_busy:
  assumes "USBTransferOnePacket u ep dir b n = (u', Some h)"
  shows "USBHandleBusy u' (Some h)" "bdt_CNT (BDT u' h) = n" "bdt_ADR (BDT u' h) = b" "\<not> bdt_BSTALL (BDT u' h)"
  using assms
  by (auto simp: USBTransferOnePacket_def bdt_upd_def USBHandleBusy_def Let_def split: option.splits if_splits)

lemma stall_ok:
  "usb_eps_ok (USBStallEndpoint u ep d) ein eout = usb_eps_ok u ein eout"
  "usb_stalled (USBStallEndpoint u ep d) ep d"
  "usb_stalled u e f \<Longrightarrow> usb_stalled (USBStallEndpoint u ep d) e f"
  by (auto simp: USBStallEndpoint_def usb_eps_ok_def usb_stalled_def bdt_upd_def)

end
