(* ===== verification/MSD.thy ===== *)
theory MSD
  imports USB_Endpoint Variant
begin

section \<open>The mass storage function\<close>

text \<open>
  Models \<^verbatim>\<open>usb_deluxe_device_msd.c\<close>: the bulk-only transport and SCSI command state machines of the
  mass storage device. The context is the C struct; its two unions of bytes are the numbers they
  hold, \<open>ptrNextData\<close> is the offset of the pointer in \<open>msd_buffer\<close>. The disk operations are the
  callbacks the application registers, with the state behind \<open>userp\<close> passed through them. Each
  switch with fall-through is one definition per label, so that a label can run into the next one.
  \<open>usb_sent\<close> records the packets given to the controller for sending. It is for the properties only;
  no operation reads it.
\<close>

subsection \<open>Data\<close>

datatype msd_buf = Buf_CBW | Buf_CSW | Buf_Data u16

record msd_cbw =
  dCBWSignature :: u32
  dCBWTag :: u32
  dCBWDataTransferLength :: u32
  bCBWFlags :: u8
  bCBWLUN :: u8
  bCBWCBLength :: u8
  CBWCB :: "u8 list"

record msd_csw =
  dCSWSignature :: u32
  dCSWTag :: u32
  dCSWDataResidue :: u32
  bCSWStatus :: u8

record msd_sense =
  sn_ResponseCode :: u8
  sn_VALID :: bool
  sn_Obsolete :: u8
  sn_SenseKey :: u8
  sn_Resv :: bool
  sn_ILI :: bool
  sn_EOM :: bool
  sn_FILEMARK :: bool
  sn_Information :: "u8 list"
  sn_AddSenseLen :: u8
  sn_CmdSpecificInfo :: u32
  sn_ASC :: u8
  sn_ASCQ :: u8
  sn_FRUC :: u8
  sn_SenseKeySpecific :: "u8 list"

record 'd msd_diskops =
  MediaInitialize :: "'d \<Rightarrow> u8 \<Rightarrow> 'd \<times> u8"
  MediaDetect :: "'d \<Rightarrow> u8 \<Rightarrow> 'd \<times> u8"
  ReadCapacity :: "'d \<Rightarrow> u8 \<Rightarrow> 'd \<times> u32"
  ReadSectorSize :: "'d \<Rightarrow> u8 \<Rightarrow> 'd \<times> u16"
  WriteProtectState :: "'d \<Rightarrow> u8 \<Rightarrow> 'd \<times> u8"
  SectorRead :: "'d \<Rightarrow> u8 \<Rightarrow> u32 \<Rightarrow> u8 list \<Rightarrow> 'd \<times> u8 list \<times> u8"
  SectorWrite :: "'d \<Rightarrow> u8 \<Rightarrow> u32 \<Rightarrow> u8 list \<Rightarrow> u8 \<Rightarrow> 'd \<times> u8"

record 'd msd_ctx =
  USB_IFACE :: u8
  USB_EP_OUT :: u8
  USB_EP_IN :: u8
  nr_LUNs :: u8
  userp :: 'd
  vendor_id :: "u16 \<times> u8 list"
  product_id :: "u16 \<times> u8 list"
  product_rev :: "u16 \<times> u8 list"
  MSD_State :: u8
  MSDCommandState :: u8
  MSDReadState :: u8
  MSDWriteState :: u8
  MSDRetryAttempt :: u8
  MSDCBWValid :: bool
  msd_buffer :: "u8 list"
  ptrNextData :: u16
  LBA :: u32
  TransferLength :: u16
  msd_cbw :: "u8 list"
  msd_csw :: msd_csw
  gblMediaPresent :: u16
  gblSenseData :: "msd_sense list"
  gblCBW :: msd_cbw
  gblNumBLKS :: u32
  gblBLKLen :: u32
  USBMSDOutHandle :: usb_handle
  USBMSDInHandle :: usb_handle
  diskops :: "'d msd_diskops"
  MSDHostNoData :: bool
  usb :: "msd_buf usb_eps"
  usb_sent :: "u8 list list"

abbreviation MSD_WAIT :: u8 where "MSD_WAIT \<equiv> 0x00"
abbreviation MSD_DATA_IN :: u8 where "MSD_DATA_IN \<equiv> 0x01"
abbreviation MSD_DATA_OUT :: u8 where "MSD_DATA_OUT \<equiv> 0x02"
abbreviation MSD_SEND_CSW :: u8 where "MSD_SEND_CSW \<equiv> 0x03"
abbreviation MSD_COMMAND_WAIT :: u8 where "MSD_COMMAND_WAIT \<equiv> 0xFF"
abbreviation MSD_COMMAND_RESPONSE :: u8 where "MSD_COMMAND_RESPONSE \<equiv> 0xFD"
abbreviation MSD_INQUIRY :: u8 where "MSD_INQUIRY \<equiv> 0x12"
abbreviation MSD_READ_CAPACITY :: u8 where "MSD_READ_CAPACITY \<equiv> 0x25"
abbreviation MSD_READ_10 :: u8 where "MSD_READ_10 \<equiv> 0x28"
abbreviation MSD_WRITE_10 :: u8 where "MSD_WRITE_10 \<equiv> 0x2A"
abbreviation MSD_REQUEST_SENSE :: u8 where "MSD_REQUEST_SENSE \<equiv> 0x03"
abbreviation MSD_MODE_SENSE :: u8 where "MSD_MODE_SENSE \<equiv> 0x1A"
abbreviation MSD_PREVENT_ALLOW_MEDIUM_REMOVAL :: u8 where "MSD_PREVENT_ALLOW_MEDIUM_REMOVAL \<equiv> 0x1E"
abbreviation MSD_TEST_UNIT_READY :: u8 where "MSD_TEST_UNIT_READY \<equiv> 0x00"
abbreviation MSD_VERIFY :: u8 where "MSD_VERIFY \<equiv> 0x2F"
abbreviation MSD_STOP_START :: u8 where "MSD_STOP_START \<equiv> 0x1B"
abbreviation MSD_READ10_WAIT :: u8 where "MSD_READ10_WAIT \<equiv> 0x00"
abbreviation MSD_READ10_BLOCK :: u8 where "MSD_READ10_BLOCK \<equiv> 0x01"
abbreviation MSD_READ10_SECTOR :: u8 where "MSD_READ10_SECTOR \<equiv> 0x02"
abbreviation MSD_READ10_TX_SECTOR :: u8 where "MSD_READ10_TX_SECTOR \<equiv> 0x03"
abbreviation MSD_READ10_TX_PACKET :: u8 where "MSD_READ10_TX_PACKET \<equiv> 0x04"
abbreviation MSD_WRITE10_WAIT :: u8 where "MSD_WRITE10_WAIT \<equiv> 0x00"
abbreviation MSD_WRITE10_BLOCK :: u8 where "MSD_WRITE10_BLOCK \<equiv> 0x01"
abbreviation MSD_WRITE10_SECTOR :: u8 where "MSD_WRITE10_SECTOR \<equiv> 0x02"
abbreviation MSD_WRITE10_RX_SECTOR :: u8 where "MSD_WRITE10_RX_SECTOR \<equiv> 0x03"
abbreviation MSD_WRITE10_RX_PACKET :: u8 where "MSD_WRITE10_RX_PACKET \<equiv> 0x04"
abbreviation MSD_CSW_COMMAND_PASSED :: u8 where "MSD_CSW_COMMAND_PASSED \<equiv> 0x00"
abbreviation MSD_CSW_COMMAND_FAILED :: u8 where "MSD_CSW_COMMAND_FAILED \<equiv> 0x01"
abbreviation MSD_CSW_PHASE_ERROR :: u8 where "MSD_CSW_PHASE_ERROR \<equiv> 0x02"
abbreviation MSD_ERROR_CASE_NO_ERROR :: u8 where "MSD_ERROR_CASE_NO_ERROR \<equiv> 0x00"
abbreviation MSD_ERROR_CASE_2 :: u8 where "MSD_ERROR_CASE_2 \<equiv> 0x01"
abbreviation MSD_ERROR_CASE_3 :: u8 where "MSD_ERROR_CASE_3 \<equiv> 0x01"
abbreviation MSD_ERROR_CASE_4 :: u8 where "MSD_ERROR_CASE_4 \<equiv> 0x02"
abbreviation MSD_ERROR_CASE_5 :: u8 where "MSD_ERROR_CASE_5 \<equiv> 0x02"
abbreviation MSD_ERROR_CASE_7 :: u8 where "MSD_ERROR_CASE_7 \<equiv> 0x03"
abbreviation MSD_ERROR_CASE_8 :: u8 where "MSD_ERROR_CASE_8 \<equiv> 0x03"
abbreviation MSD_ERROR_CASE_9 :: u8 where "MSD_ERROR_CASE_9 \<equiv> 0x04"
abbreviation MSD_ERROR_CASE_11 :: u8 where "MSD_ERROR_CASE_11 \<equiv> 0x04"
abbreviation MSD_ERROR_CASE_10 :: u8 where "MSD_ERROR_CASE_10 \<equiv> 0x05"
abbreviation MSD_ERROR_CASE_13 :: u8 where "MSD_ERROR_CASE_13 \<equiv> 0x05"
abbreviation MSD_ERROR_UNSUPPORTED_COMMAND :: u8 where "MSD_ERROR_UNSUPPORTED_COMMAND \<equiv> 0x7F"
abbreviation MSD_VALID_CBW_SIGNATURE :: u32 where "MSD_VALID_CBW_SIGNATURE \<equiv> 0x43425355"
abbreviation MSD_VALID_CSW_SIGNATURE :: u32 where "MSD_VALID_CSW_SIGNATURE \<equiv> 0x53425355"

definition sense_bytes :: "msd_sense \<Rightarrow> u8 list" where
  "sense_bytes n =
     [(sn_ResponseCode n AND 0x7F) OR (if sn_VALID n then 0x80 else 0), sn_Obsolete n,
      (sn_SenseKey n AND 0x0F) OR (if sn_Resv n then 0x10 else 0) OR (if sn_ILI n then 0x20 else 0) OR
        (if sn_EOM n then 0x40 else 0) OR (if sn_FILEMARK n then 0x80 else 0)] @
     sn_Information n @ [sn_AddSenseLen n] @ le_bytes 4 (sn_CmdSpecificInfo n) @
     [sn_ASC n, sn_ASCQ n, sn_FRUC n] @ sn_SenseKeySpecific n"

definition sense_zero :: msd_sense where
  "sense_zero = \<lparr>sn_ResponseCode = 0, sn_VALID = False, sn_Obsolete = 0, sn_SenseKey = 0, sn_Resv = False,
     sn_ILI = False, sn_EOM = False, sn_FILEMARK = False, sn_Information = [0, 0, 0, 0], sn_AddSenseLen = 0,
     sn_CmdSpecificInfo = 0, sn_ASC = 0, sn_ASCQ = 0, sn_FRUC = 0, sn_SenseKeySpecific = [0, 0, 0]\<rparr>"

definition cbw_of_bytes :: "u8 list \<Rightarrow> msd_cbw" where
  "cbw_of_bytes bs = \<lparr>dCBWSignature = le_word (take 4 bs), dCBWTag = le_word (take 4 (drop 4 bs)),
     dCBWDataTransferLength = le_word (take 4 (drop 8 bs)), bCBWFlags = bs ! 12, bCBWLUN = bs ! 13,
     bCBWCBLength = bs ! 14, CBWCB = take 16 (drop 15 bs)\<rparr>"

definition csw_bytes :: "msd_csw \<Rightarrow> u8 list" where
  "csw_bytes c = le_bytes 4 (dCSWSignature c) @ le_bytes 4 (dCSWTag c) @ le_bytes 4 (dCSWDataResidue c) @ [bCSWStatus c]"

definition msd_inq_resp :: "u8 list" where
  "msd_inq_resp = [0x00, 0x80, 0x04, 0x02, 0x20, 0x00, 0x00, 0x00] @
     [0x50, 0x49, 0x43, 0x6F, 0x32, 0x34, 0x00, 0x00] @
     [0x4D, 0x61, 0x73, 0x73, 0x20, 0x53, 0x74, 0x6F, 0x72, 0x61, 0x67, 0x65, 0x20, 0x20, 0x20, 0x20] @
     [0x30, 0x30, 0x30, 0x31]"

definition c_strncpy :: "nat \<Rightarrow> u8 list \<Rightarrow> u8 list" where
  "c_strncpy n src = take n (takeWhile (\<lambda>c. c \<noteq> 0) src @ replicate n 0)"

subsection \<open>Shared steps\<close>

definition msd_packet :: "'d msd_ctx \<Rightarrow> msd_buf \<Rightarrow> u8 \<Rightarrow> u8 list" where
  "msd_packet s b len =
     take (unat len) (case b of Buf_CBW \<Rightarrow> msd_cbw s | Buf_CSW \<Rightarrow> csw_bytes (msd_csw s)
                              | Buf_Data off \<Rightarrow> drop (unat off) (msd_buffer s))"

definition msd_TxOnePacket :: "'d msd_ctx \<Rightarrow> msd_buf \<Rightarrow> u8 \<Rightarrow> 'd msd_ctx" where
  "msd_TxOnePacket s b len =
     (case USBTransferOnePacket (usb s) (USB_EP_IN s) IN_TO_HOST b len of
        (u, h) \<Rightarrow> s\<lparr>usb := u, USBMSDInHandle := h, usb_sent := usb_sent s @ [msd_packet s b len]\<rparr>)"

definition msd_RxOnePacket :: "'d msd_ctx \<Rightarrow> msd_buf \<Rightarrow> 'd msd_ctx" where
  "msd_RxOnePacket s b =
     (case USBTransferOnePacket (usb s) (USB_EP_OUT s) OUT_FROM_HOST b 64 of
        (u, h) \<Rightarrow> s\<lparr>usb := u, USBMSDOutHandle := h\<rparr>)"

definition msd_stall_in :: "'d msd_ctx \<Rightarrow> 'd msd_ctx" where
  "msd_stall_in s = s\<lparr>usb := USBStallEndpoint (usb s) (USB_EP_IN s) IN_TO_HOST\<rparr>"

definition msd_stall_out :: "'d msd_ctx \<Rightarrow> 'd msd_ctx" where
  "msd_stall_out s = s\<lparr>usb := USBStallEndpoint (usb s) (USB_EP_OUT s) OUT_FROM_HOST\<rparr>"

definition msd_set_status :: "'d msd_ctx \<Rightarrow> u8 \<Rightarrow> 'd msd_ctx" where
  "msd_set_status s v = s\<lparr>msd_csw := (msd_csw s)\<lparr>bCSWStatus := v\<rparr>\<rparr>"

definition msd_set_residue :: "'d msd_ctx \<Rightarrow> u32 \<Rightarrow> 'd msd_ctx" where
  "msd_set_residue s v = s\<lparr>msd_csw := (msd_csw s)\<lparr>dCSWDataResidue := v\<rparr>\<rparr>"

definition msd_set_host_length :: "'d msd_ctx \<Rightarrow> u32 \<Rightarrow> 'd msd_ctx" where
  "msd_set_host_length s v = s\<lparr>gblCBW := (gblCBW s)\<lparr>dCBWDataTransferLength := v\<rparr>\<rparr>"

definition USBDeluxeDevice_MSD_CurrentLUN :: "'d msd_ctx \<Rightarrow> u8" where
  "USBDeluxeDevice_MSD_CurrentLUN s = bCBWLUN (gblCBW s)"

definition msd_sense_keys :: "'d msd_ctx \<Rightarrow> u8 \<Rightarrow> u8 \<Rightarrow> u8 \<Rightarrow> 'd msd_ctx" where
  "msd_sense_keys s key asc ascq =
     (let i = unat (USBDeluxeDevice_MSD_CurrentLUN s)
      in s\<lparr>gblSenseData := (gblSenseData s)[i := (gblSenseData s ! i)\<lparr>sn_SenseKey := key, sn_ASC := asc, sn_ASCQ := ascq\<rparr>]\<rparr>)"

definition USBDeluxeDevice_MSD_ResetSenseData :: "'d msd_ctx \<Rightarrow> u8 \<Rightarrow> 'd msd_ctx" where
  "USBDeluxeDevice_MSD_ResetSenseData s lun =
     (let i = unat lun
      in s\<lparr>gblSenseData := (gblSenseData s)[i := \<lparr>sn_ResponseCode = 0x70, sn_VALID = False, sn_Obsolete = 0,
           sn_SenseKey = 0, sn_Resv = sn_Resv (gblSenseData s ! i), sn_ILI = False, sn_EOM = False,
           sn_FILEMARK = False, sn_Information = [0, 0, 0, 0], sn_AddSenseLen = 0x0A, sn_CmdSpecificInfo = 0,
           sn_ASC = 0, sn_ASCQ = 0, sn_FRUC = 0, sn_SenseKeySpecific = [0, 0, 0]\<rparr>]\<rparr>)"

subsection \<open>Creation and initialisation\<close>

definition USBDeluxeDevice_MSD_Create ::
  "msd_buf usb_eps \<Rightarrow> 'd \<Rightarrow> u8 \<Rightarrow> u8 \<Rightarrow> u8 \<Rightarrow> u8 \<Rightarrow> u16 \<times> u8 list \<Rightarrow> u16 \<times> u8 list \<Rightarrow> u16 \<times> u8 list \<Rightarrow>
   'd msd_diskops \<Rightarrow> 'd msd_ctx" where
  "USBDeluxeDevice_MSD_Create u up usb_iface usb_ep_in usb_ep_out nr_luns vid pid prev ops =
     \<lparr>USB_IFACE = usb_iface, USB_EP_OUT = usb_ep_out, USB_EP_IN = usb_ep_in, nr_LUNs = nr_luns, userp = up,
      vendor_id = vid, product_id = pid, product_rev = prev, MSD_State = 0, MSDCommandState = 0,
      MSDReadState = 0, MSDWriteState = 0, MSDRetryAttempt = 0, MSDCBWValid = False,
      msd_buffer = replicate 512 0, ptrNextData = 0, LBA = 0, TransferLength = 0, msd_cbw = replicate 31 0,
      msd_csw = \<lparr>dCSWSignature = 0, dCSWTag = 0, dCSWDataResidue = 0, bCSWStatus = 0\<rparr>, gblMediaPresent = 0,
      gblSenseData = replicate (unat nr_luns) sense_zero, gblCBW = cbw_of_bytes (replicate 31 0),
      gblNumBLKS = 0, gblBLKLen = 0, USBMSDOutHandle = None, USBMSDInHandle = None, diskops = ops,
      MSDHostNoData = False, usb = u, usb_sent = []\<rparr>"

definition msd_init_lun :: "u8 \<Rightarrow> 'd msd_ctx \<Rightarrow> 'd msd_ctx" where
  "msd_init_lun cur_lun s =
     (case MediaDetect (diskops s) (userp s) cur_lun of
        (d, r) \<Rightarrow>
          let s1 = s\<lparr>userp := d\<rparr>;
              s2 = (if r \<noteq> 0
                    then (case MediaInitialize (diskops s1) (userp s1) cur_lun of
                            (d', r') \<Rightarrow>
                              let s1' = s1\<lparr>userp := d'\<rparr>
                              in if r' \<noteq> 0
                                 then s1'\<lparr>gblMediaPresent := gblMediaPresent s1' OR push_bit (unat cur_lun) 1\<rparr>
                                 else s1')
                    else s1)
          in USBDeluxeDevice_MSD_ResetSenseData s2 cur_lun)"

definition USBDeluxeDevice_MSD_Init :: "'d msd_ctx \<Rightarrow> 'd msd_ctx" where
  "USBDeluxeDevice_MSD_Init s =
     (let s1 = (if USB_EP_IN s = USB_EP_OUT s
                then s\<lparr>usb := USBEnableEndpoint (usb s) (USB_EP_IN s)
                       (USB_IN_ENABLED OR USB_OUT_ENABLED OR USB_HANDSHAKE_ENABLED OR USB_DISALLOW_SETUP)\<rparr>
                else s\<lparr>usb := USBEnableEndpoint
                       (USBEnableEndpoint (usb s) (USB_EP_IN s)
                          (USB_IN_ENABLED OR USB_HANDSHAKE_ENABLED OR USB_DISALLOW_SETUP))
                       (USB_EP_OUT s) (USB_OUT_ENABLED OR USB_HANDSHAKE_ENABLED OR USB_DISALLOW_SETUP)\<rparr>);
          s2 = msd_RxOnePacket s1 Buf_CBW;
          s3 = s2\<lparr>USBMSDInHandle := USBGetNextHandle (usb s2) (USB_EP_IN s2) IN_TO_HOST,
                 MSD_State := MSD_WAIT, MSDCommandState := MSD_COMMAND_WAIT, MSDReadState := MSD_READ10_WAIT,
                 MSDWriteState := MSD_WRITE10_WAIT, MSDHostNoData := False, gblNumBLKS := 0, gblBLKLen := 0,
                 MSDCBWValid := True, gblMediaPresent := 0\<rparr>
      in fold msd_init_lun (map of_nat [0..<unat (nr_LUNs s3)]) s3)"

record setup_packet =
  Recipient_is_interface :: bool
  bIntfID :: u8
  bRequest :: u8
  wValue :: u16
  wLength :: u16

datatype ep0_reply = EP0_not_handled | EP0_no_data | EP0_send "u8 list"

definition USBDeluxeDevice_MSD_CheckRequest :: "setup_packet \<Rightarrow> 'd msd_ctx \<Rightarrow> 'd msd_ctx \<times> ep0_reply" where
  "USBDeluxeDevice_MSD_CheckRequest SetupPkt s =
     (if \<not> Recipient_is_interface SetupPkt then (s, EP0_not_handled)
      else if bIntfID SetupPkt \<noteq> USB_IFACE s then (s, EP0_not_handled)
      else if bRequest SetupPkt = 0xFF then
        if wValue SetupPkt \<noteq> 0 \<or> wLength SetupPkt \<noteq> 0 then (s, EP0_not_handled)
        else
          let s1 = s\<lparr>MSD_State := MSD_WAIT, MSDCommandState := MSD_COMMAND_WAIT, MSDReadState := MSD_READ10_WAIT,
                     MSDWriteState := MSD_WRITE10_WAIT, MSDCBWValid := True\<rparr>;
              s2 = (if \<not> USBHandleBusy (usb s1) (USBGetNextHandle (usb s1) (USB_EP_OUT s1) OUT_FROM_HOST)
                    then msd_RxOnePacket s1 Buf_CBW else s1)
          in (s2, EP0_no_data)
      else if bRequest SetupPkt = 0xFE then
        if wValue SetupPkt \<noteq> 0 \<or> wLength SetupPkt \<noteq> 1 then (s, EP0_not_handled)
        else (s, EP0_send [nr_LUNs s - 1])
      else (s, EP0_not_handled))"

subsection \<open>Data lengths and the thirteen cases\<close>

definition MSDComputeDeviceInAndResidue :: "'d msd_ctx \<Rightarrow> u16 \<Rightarrow> 'd msd_ctx" where
  "MSDComputeDeviceInAndResidue s DiExpected =
     (if dCBWDataTransferLength (gblCBW s) < ucast DiExpected
      then (msd_set_residue s 0)\<lparr>TransferLength := ucast (dCBWDataTransferLength (gblCBW s))\<rparr>
      else
        let s1 = (if DiExpected < TransferLength s then s\<lparr>TransferLength := DiExpected\<rparr> else s)
        in msd_set_residue s1 (dCBWDataTransferLength (gblCBW s1) - ucast (TransferLength s1)))"

definition MSDErrorHandler :: "'d msd_ctx \<Rightarrow> u8 \<Rightarrow> 'd msd_ctx" where
  "MSDErrorHandler s ErrorCase =
     (if USBHandleBusy (usb s) (USBMSDInHandle s) \<or> USBHandleBusy (usb s) (USBMSDOutHandle s) then s
      else
        let OldMSD_State = MSD_State s;
            s1 = s\<lparr>MSDCommandState := MSD_COMMAND_WAIT, MSDReadState := MSD_READ10_WAIT,
                   MSDWriteState := MSD_WRITE10_WAIT\<rparr>;
            s2 = msd_set_residue s1 (dCBWDataTransferLength (gblCBW s1));
            s3 = (msd_set_status s2 MSD_CSW_COMMAND_FAILED)\<lparr>MSD_State := MSD_SEND_CSW\<rparr>
        in if ErrorCase = MSD_ERROR_CASE_2 then msd_set_status s3 MSD_CSW_PHASE_ERROR
           else if ErrorCase = MSD_ERROR_CASE_4 then msd_stall_in s3
           else if ErrorCase = MSD_ERROR_CASE_7 then msd_stall_in (msd_set_status s3 MSD_CSW_PHASE_ERROR)
           else if ErrorCase = MSD_ERROR_CASE_9 then msd_stall_out s3
           else if ErrorCase = MSD_ERROR_CASE_10 then msd_stall_out (msd_set_status s3 MSD_CSW_PHASE_ERROR)
           else if ErrorCase = MSD_ERROR_UNSUPPORTED_COMMAND then
             let s4 = USBDeluxeDevice_MSD_ResetSenseData s3 (USBDeluxeDevice_MSD_CurrentLUN s3);
                 s5 = msd_sense_keys s4 0x5 0x20 0x00
             in if OldMSD_State = MSD_DATA_OUT \<and> dCBWDataTransferLength (gblCBW s5) \<noteq> 0
                then msd_stall_out s5 else msd_stall_in s5
           else s3)"

definition msd_error_case :: "'d msd_ctx \<Rightarrow> u32 \<Rightarrow> u8" where
  "msd_error_case s DeviceBytes =
     (let DeviceNoData = (DeviceBytes = 0);
          HostMoreDataThanDevice = (DeviceBytes < dCBWDataTransferLength (gblCBW s))
      in if MSDHostNoData s \<and> DeviceNoData then MSD_ERROR_CASE_NO_ERROR
         else if dCBWDataTransferLength (gblCBW s) = DeviceBytes \<and>
           (if MSD_State s = MSD_DATA_IN then MSDCommandState s \<noteq> MSD_WRITE_10
            else MSDCommandState s = MSD_WRITE_10) then MSD_ERROR_CASE_NO_ERROR
         else if MSD_State s = MSD_DATA_OUT then
           (if MSDCommandState s \<noteq> MSD_WRITE_10 \<and> \<not> DeviceNoData then MSD_ERROR_CASE_10
            else if MSDHostNoData s then MSD_ERROR_CASE_3
            else if DeviceNoData then MSD_ERROR_CASE_9
            else if HostMoreDataThanDevice then MSD_ERROR_CASE_11
            else MSD_ERROR_CASE_13)
         else
           (if MSDCommandState s = MSD_WRITE_10 then MSD_ERROR_CASE_8
            else if MSDHostNoData s then MSD_ERROR_CASE_2
            else if DeviceNoData then MSD_ERROR_CASE_4
            else if HostMoreDataThanDevice then MSD_ERROR_CASE_5
            else MSD_ERROR_CASE_7))"

definition MSDCheckForErrorCases :: "'d msd_ctx \<Rightarrow> u32 \<Rightarrow> 'd msd_ctx \<times> u8" where
  "MSDCheckForErrorCases s DeviceBytes =
     (let c = msd_error_case s DeviceBytes
      in if c = MSD_ERROR_CASE_NO_ERROR then (s, c) else (MSDErrorHandler s c, c))"

subsection \<open>Reading blocks\<close>

definition msd_read10_tx_packet :: "'d msd_ctx \<Rightarrow> 'd msd_ctx" where
  "msd_read10_tx_packet s =
     (if USBHandleBusy (usb s) (USBMSDInHandle s) then s
      else
        let s1 = (msd_TxOnePacket s (Buf_Data (ptrNextData s)) 64)\<lparr>MSDReadState := MSD_READ10_TX_SECTOR\<rparr>;
            s2 = msd_set_host_length s1 (dCBWDataTransferLength (gblCBW s1) - 64);
            s3 = msd_set_residue s2 (dCSWDataResidue (msd_csw s2) - 64)
        in s3\<lparr>ptrNextData := ptrNextData s3 + 64\<rparr>)"

definition msd_read10_tx_sector :: "'d msd_ctx \<Rightarrow> 'd msd_ctx" where
  "msd_read10_tx_sector s =
     (if dCSWDataResidue (msd_csw s) = 0 then s\<lparr>MSDReadState := MSD_READ10_BLOCK\<rparr>
      else msd_read10_tx_packet (s\<lparr>MSDReadState := MSD_READ10_TX_PACKET\<rparr>))"

definition msd_read10_sector :: "'d msd_ctx \<Rightarrow> 'd msd_ctx" where
  "msd_read10_sector s =
     (if USBHandleBusy (usb s) (USBMSDInHandle s) then s
      else
        case SectorRead (diskops s) (userp s) (USBDeluxeDevice_MSD_CurrentLUN s) (LBA s) (msd_buffer s) of
          (d, buf, r) \<Rightarrow>
            let s1 = s\<lparr>userp := d, msd_buffer := buf\<rparr>
            in if r \<noteq> 1 then
                 if MSDRetryAttempt s1 < 100 then s1\<lparr>MSDRetryAttempt := MSDRetryAttempt s1 + 1\<rparr>
                 else (msd_stall_in (msd_sense_keys (msd_set_status s1 0x02) 0x3 0x00 0x00))\<lparr>MSDReadState := MSD_READ10_WAIT\<rparr>
               else
                 let s2 = msd_set_residue (s1\<lparr>LBA := LBA s1 + 1\<rparr>) 512
                 in msd_read10_tx_sector (s2\<lparr>ptrNextData := 0, MSDReadState := MSD_READ10_TX_SECTOR\<rparr>))"

definition msd_read10_block :: "'d msd_ctx \<Rightarrow> 'd msd_ctx" where
  "msd_read10_block s =
     (if TransferLength s = 0 then s\<lparr>MSDReadState := MSD_READ10_WAIT\<rparr>
      else msd_read10_sector (s\<lparr>TransferLength := TransferLength s - 1, MSDReadState := MSD_READ10_SECTOR\<rparr>))"

definition msd_cb_lba :: "'d msd_ctx \<Rightarrow> u32" where
  "msd_cb_lba s = le_word [CBWCB (gblCBW s) ! 5, CBWCB (gblCBW s) ! 4, CBWCB (gblCBW s) ! 3, CBWCB (gblCBW s) ! 2]"

definition msd_cb_length :: "'d msd_ctx \<Rightarrow> u16" where
  "msd_cb_length s = le_word [CBWCB (gblCBW s) ! 8, CBWCB (gblCBW s) ! 7]"

definition msd_read10_wait :: "'d msd_ctx \<Rightarrow> 'd msd_ctx" where
  "msd_read10_wait s =
     (let s1 = s\<lparr>LBA := msd_cb_lba s, TransferLength := msd_cb_length s\<rparr>
      in case MSDCheckForErrorCases s1 (ucast (TransferLength s1) * 512) of
           (s2, c) \<Rightarrow> if c \<noteq> MSD_ERROR_CASE_NO_ERROR then s2
                      else msd_read10_block (s2\<lparr>MSDReadState := MSD_READ10_BLOCK\<rparr>))"

definition MSDReadHandler :: "'d msd_ctx \<Rightarrow> 'd msd_ctx" where
  "MSDReadHandler s =
     (if MSDReadState s = MSD_READ10_WAIT then msd_read10_wait s
      else if MSDReadState s = MSD_READ10_BLOCK then msd_read10_block s
      else if MSDReadState s = MSD_READ10_SECTOR then msd_read10_sector s
      else if MSDReadState s = MSD_READ10_TX_SECTOR then msd_read10_tx_sector s
      else if MSDReadState s = MSD_READ10_TX_PACKET then msd_read10_tx_packet s
      else (msd_stall_in (msd_set_status s 0x02))\<lparr>MSDReadState := MSD_READ10_WAIT\<rparr>)"

subsection \<open>Writing blocks\<close>

definition msd_write10_rx_packet :: "'d msd_ctx \<Rightarrow> 'd msd_ctx" where
  "msd_write10_rx_packet s =
     (if USBHandleBusy (usb s) (USBMSDOutHandle s) then s
      else
        let n = ucast (USBHandleGetLength (usb s) (USBMSDOutHandle s));
            s1 = msd_set_host_length s (dCBWDataTransferLength (gblCBW s) - n);
            s2 = msd_set_residue s1 (dCSWDataResidue (msd_csw s1) - n)
        in s2\<lparr>ptrNextData := ptrNextData s2 + 64, MSDWriteState := MSD_WRITE10_RX_SECTOR\<rparr>)"

definition msd_write10_rx_sector :: "'d msd_ctx \<Rightarrow> 'd msd_ctx" where
  "msd_write10_rx_sector s =
     (if 0 < dCSWDataResidue (msd_csw s) then
        if USBHandleBusy (usb s) (USBMSDOutHandle s) then s
        else msd_write10_rx_packet
               ((msd_RxOnePacket s (Buf_Data (ptrNextData s)))\<lparr>MSDWriteState := MSD_WRITE10_RX_PACKET\<rparr>)
      else
        case WriteProtectState (diskops s) (userp s) (USBDeluxeDevice_MSD_CurrentLUN s) of
          (d, r) \<Rightarrow>
            let s1 = s\<lparr>userp := d\<rparr>;
                s2 = (if r \<noteq> 0 then msd_sense_keys (msd_set_status s1 0x01) 0x2 0x27 0x00 else s1)
            in s2\<lparr>MSDWriteState := MSD_WRITE10_SECTOR\<rparr>)"

definition msd_write10_block :: "'d msd_ctx \<Rightarrow> 'd msd_ctx" where
  "msd_write10_block s =
     (if TransferLength s = 0 then s\<lparr>MSDWriteState := MSD_WRITE10_WAIT\<rparr>
      else msd_write10_rx_sector
             (msd_set_residue (s\<lparr>MSDWriteState := MSD_WRITE10_RX_SECTOR, ptrNextData := 0\<rparr>) 512))"

definition msd_write10_sector :: "'d msd_ctx \<Rightarrow> 'd msd_ctx" where
  "msd_write10_sector s =
     (let next = (\<lambda>t :: 'd msd_ctx. t\<lparr>LBA := LBA t + 1, TransferLength := TransferLength t - 1,
                     MSDWriteState := MSD_WRITE10_BLOCK\<rparr>)
      in if bCSWStatus (msd_csw s) = 0x00 then
           case SectorWrite (diskops s) (userp s) (USBDeluxeDevice_MSD_CurrentLUN s) (LBA s) (msd_buffer s)
                  (if LBA s = 0 then 1 else 0) of
             (d, r) \<Rightarrow>
               let s1 = s\<lparr>userp := d\<rparr>
               in if r \<noteq> 1 then
                    if MSDRetryAttempt s1 < 100 then s1\<lparr>MSDRetryAttempt := MSDRetryAttempt s1 + 1\<rparr>
                    else next (msd_sense_keys (msd_set_status s1 MSD_CSW_COMMAND_FAILED) 0x3 0x00 0x00)
                  else next s1
         else next s)"

text \<open>The state \<open>MSD_WRITE10_BLOCK\<close> is stored in \<open>MSD_State\<close>, as the code has it.\<close>

definition msd_write10_wait :: "'d msd_ctx \<Rightarrow> 'd msd_ctx" where
  "msd_write10_wait s =
     (let s1 = s\<lparr>LBA := msd_cb_lba s, TransferLength := msd_cb_length s\<rparr>
      in case MSDCheckForErrorCases s1 (ucast (TransferLength s1) * 512) of
           (s2, c) \<Rightarrow>
             if c \<noteq> MSD_ERROR_CASE_NO_ERROR then s2
             else
               case WriteProtectState (diskops s2) (userp s2) (USBDeluxeDevice_MSD_CurrentLUN s2) of
                 (d, r) \<Rightarrow>
                   let s3 = s2\<lparr>userp := d\<rparr>
                   in if r \<noteq> 0
                      then (msd_stall_out (msd_sense_keys (msd_set_status s3 MSD_CSW_COMMAND_FAILED) 0x7 0x27 0x00))
                             \<lparr>MSDWriteState := MSD_WRITE10_WAIT\<rparr>
                      else msd_write10_block (s3\<lparr>MSD_State := MSD_WRITE10_BLOCK\<rparr>))"

definition MSDWriteHandler :: "'d msd_ctx \<Rightarrow> 'd msd_ctx" where
  "MSDWriteHandler s =
     (if MSDWriteState s = MSD_WRITE10_WAIT then msd_write10_wait s
      else if MSDWriteState s = MSD_WRITE10_BLOCK then msd_write10_block s
      else if MSDWriteState s = MSD_WRITE10_RX_SECTOR then msd_write10_rx_sector s
      else if MSDWriteState s = MSD_WRITE10_RX_PACKET then msd_write10_rx_packet s
      else if MSDWriteState s = MSD_WRITE10_SECTOR then msd_write10_sector s
      else (msd_stall_out (msd_set_status s 0x02))\<lparr>MSDWriteState := MSD_WRITE10_WAIT\<rparr>)"

subsection \<open>Commands\<close>

definition msd_put :: "u8 list \<Rightarrow> 'd msd_ctx \<Rightarrow> 'd msd_ctx" where
  "msd_put bs s = s\<lparr>msd_buffer := bs @ drop (length bs) (msd_buffer s)\<rparr>"

definition msd_rom_string :: "nat \<Rightarrow> u16 \<times> u8 list \<Rightarrow> u8 list \<Rightarrow> u8 list" where
  "msd_rom_string n p dflt = (if 32767 < fst p then c_strncpy n (snd p) else dflt)"

definition msd_inquiry_data :: "'d msd_ctx \<Rightarrow> u8 list" where
  "msd_inquiry_data s =
     take 8 msd_inq_resp @ msd_rom_string 8 (vendor_id s) (take 8 (drop 8 msd_inq_resp)) @
     msd_rom_string 16 (product_id s) (take 16 (drop 16 msd_inq_resp)) @
     msd_rom_string 4 (product_rev s) (take 4 (drop 32 msd_inq_resp))"

definition msd_do_inquiry :: "'d msd_ctx \<Rightarrow> 'd msd_ctx" where
  "msd_do_inquiry s =
     (if MSDHostNoData s then s\<lparr>MSDCommandState := MSD_COMMAND_WAIT\<rparr>
      else
        let s1 = s\<lparr>TransferLength := le_word [CBWCB (gblCBW s) ! 4, CBWCB (gblCBW s) ! 3]\<rparr>
        in case MSDCheckForErrorCases s1 (ucast (TransferLength s1)) of
             (s2, c) \<Rightarrow>
               if c \<noteq> MSD_ERROR_CASE_NO_ERROR then s2
               else let s3 = MSDComputeDeviceInAndResidue s2 36
                    in (msd_put (msd_inquiry_data s3) s3)\<lparr>MSDCommandState := MSD_COMMAND_RESPONSE\<rparr>)"

definition msd_do_read_capacity :: "'d msd_ctx \<Rightarrow> 'd msd_ctx" where
  "msd_do_read_capacity s =
     (case ReadCapacity (diskops s) (userp s) (USBDeluxeDevice_MSD_CurrentLUN s) of
        (d, cap) \<Rightarrow>
          (case ReadSectorSize (diskops s) d (USBDeluxeDevice_MSD_CurrentLUN s) of
             (d', sz) \<Rightarrow>
               let s1 = s\<lparr>userp := d'\<rparr>;
                   capacity = (if cap \<noteq> 0 then cap - 1 else cap);
                   s2 = msd_put (rev (le_bytes 4 capacity) @ rev (le_bytes 4 (ucast sz :: u32))) s1;
                   s3 = MSDComputeDeviceInAndResidue (s2\<lparr>TransferLength := 8\<rparr>) 8
               in s3\<lparr>MSDCommandState := MSD_COMMAND_RESPONSE\<rparr>))"

definition msd_do_request_sense :: "'d msd_ctx \<Rightarrow> 'd msd_ctx" where
  "msd_do_request_sense s =
     (if MSDHostNoData s then s\<lparr>MSDCommandState := MSD_COMMAND_WAIT\<rparr>
      else
        let s1 = MSDComputeDeviceInAndResidue (s\<lparr>TransferLength := 18\<rparr>) 18
        in (msd_put (sense_bytes (gblSenseData s1 ! unat (USBDeluxeDevice_MSD_CurrentLUN s1))) s1)
             \<lparr>MSDCommandState := MSD_COMMAND_RESPONSE\<rparr>)"

definition msd_do_mode_sense :: "'d msd_ctx \<Rightarrow> 'd msd_ctx" where
  "msd_do_mode_sense s =
     (case WriteProtectState (diskops s) (userp s) (USBDeluxeDevice_MSD_CurrentLUN s) of
        (d, r) \<Rightarrow>
          let s1 = msd_put [0x03, 0x00, if r \<noteq> 0 then 0x80 else 0x00, 0x00] (s\<lparr>userp := d\<rparr>);
              s2 = MSDComputeDeviceInAndResidue (s1\<lparr>TransferLength := 4\<rparr>) 4
          in s2\<lparr>MSDCommandState := MSD_COMMAND_RESPONSE\<rparr>)"

definition msd_do_test_unit_ready :: "'d msd_ctx \<Rightarrow> 'd msd_ctx" where
  "msd_do_test_unit_ready s =
     (case MSDCheckForErrorCases s 0 of
        (s1, c) \<Rightarrow>
          if c \<noteq> MSD_ERROR_CASE_NO_ERROR then s1
          else if sn_SenseKey (gblSenseData s1 ! unat (USBDeluxeDevice_MSD_CurrentLUN s1)) = 0x6 \<and>
                  bCSWStatus (msd_csw s1) = MSD_CSW_COMMAND_FAILED
               then s1\<lparr>MSDCommandState := MSD_COMMAND_WAIT\<rparr>
               else (msd_set_residue (USBDeluxeDevice_MSD_ResetSenseData s1 (USBDeluxeDevice_MSD_CurrentLUN s1)) 0)
                      \<lparr>MSDCommandState := MSD_COMMAND_WAIT\<rparr>)"

text \<open>The loop that pads the packet: the first \<open>TransferLength\<close> bytes are kept, the others become zero.\<close>

primrec msd_pad :: "nat list \<Rightarrow> 'd msd_ctx \<Rightarrow> 'd msd_ctx" where
  "msd_pad [] s = s"
| "msd_pad (i # is) s =
     msd_pad is (if TransferLength s \<noteq> 0 then s\<lparr>TransferLength := TransferLength s - 1\<rparr>
                 else s\<lparr>msd_buffer := (msd_buffer s)[i := 0]\<rparr>)"

definition msd_do_response :: "'d msd_ctx \<Rightarrow> 'd msd_ctx" where
  "msd_do_response s =
     (if USBHandleBusy (usb s) (USBMSDInHandle s) then s
      else
        let hl = dCBWDataTransferLength (gblCBW s);
            NumBytesInPacket = (if 64 \<le> hl then 64 else ucast hl :: u8);
            s1 = msd_set_host_length s (if 64 \<le> hl then hl - 64 else 0);
            s2 = (if ucast NumBytesInPacket \<le> TransferLength s1
                  then s1\<lparr>TransferLength := TransferLength s1 - ucast NumBytesInPacket\<rparr>
                  else msd_pad [0..<unat NumBytesInPacket] s1);
            s3 = msd_TxOnePacket s2 (Buf_Data 0) NumBytesInPacket
        in if dCBWDataTransferLength (gblCBW s3) = 0 then s3\<lparr>MSDCommandState := MSD_COMMAND_WAIT\<rparr> else s3)"

definition USBDeluxeDevice_MSD_ProcessCommandMediaPresent :: "'d msd_ctx \<Rightarrow> 'd msd_ctx" where
  "USBDeluxeDevice_MSD_ProcessCommandMediaPresent s =
     (let c = MSDCommandState s
      in if c = MSD_READ_10 then
           let s1 = MSDReadHandler s
           in if MSDReadState s1 = MSD_READ10_WAIT then s1\<lparr>MSDCommandState := MSD_COMMAND_WAIT\<rparr> else s1
         else if c = MSD_WRITE_10 then
           let s1 = MSDWriteHandler s
           in if MSDWriteState s1 = MSD_WRITE10_WAIT then s1\<lparr>MSDCommandState := MSD_COMMAND_WAIT\<rparr> else s1
         else if c = MSD_INQUIRY then msd_do_inquiry s
         else if c = MSD_READ_CAPACITY then msd_do_read_capacity s
         else if c = MSD_REQUEST_SENSE then msd_do_request_sense s
         else if c = MSD_MODE_SENSE then msd_do_mode_sense s
         else if c = MSD_PREVENT_ALLOW_MEDIUM_REMOVAL then
           (msd_set_residue (msd_set_status (msd_sense_keys s 0x5 0x20 0x00) MSD_CSW_COMMAND_FAILED) 0)
             \<lparr>MSDCommandState := MSD_COMMAND_WAIT\<rparr>
         else if c = MSD_TEST_UNIT_READY then msd_do_test_unit_ready s
         else if c = MSD_VERIFY \<or> c = MSD_STOP_START then
           (msd_set_residue s 0)\<lparr>MSDCommandState := MSD_COMMAND_WAIT\<rparr>
         else if c = MSD_COMMAND_RESPONSE then msd_do_response s
         else MSDErrorHandler s MSD_ERROR_UNSUPPORTED_COMMAND)"

definition USBDeluxeDevice_MSD_ProcessCommandMediaAbsent :: "'d msd_ctx \<Rightarrow> 'd msd_ctx" where
  "USBDeluxeDevice_MSD_ProcessCommandMediaAbsent s =
     (let c = MSDCommandState s
      in if c = MSD_REQUEST_SENSE then
           USBDeluxeDevice_MSD_ProcessCommandMediaPresent
             (msd_sense_keys (USBDeluxeDevice_MSD_ResetSenseData s (USBDeluxeDevice_MSD_CurrentLUN s)) 0x2 0x3A 0x00)
         else if c = MSD_PREVENT_ALLOW_MEDIUM_REMOVAL \<or> c = MSD_TEST_UNIT_READY then
           (msd_set_status s MSD_CSW_COMMAND_FAILED)\<lparr>MSDCommandState := MSD_COMMAND_WAIT\<rparr>
         else if c = MSD_INQUIRY \<or> c = MSD_COMMAND_RESPONSE then USBDeluxeDevice_MSD_ProcessCommandMediaPresent s
         else MSDErrorHandler s MSD_ERROR_UNSUPPORTED_COMMAND)"

definition USBDeluxeDevice_MSD_ProcessCommand :: "'d msd_ctx \<Rightarrow> 'd msd_ctx" where
  "USBDeluxeDevice_MSD_ProcessCommand s =
     (case MediaDetect (diskops s) (userp s) (USBDeluxeDevice_MSD_CurrentLUN s) of
        (d, r) \<Rightarrow>
          let s1 = s\<lparr>userp := d\<rparr>; bit = push_bit (unat (bCBWLUN (gblCBW s1))) (1 :: u16)
          in if r = 0 then
               USBDeluxeDevice_MSD_ProcessCommandMediaAbsent
                 (s1\<lparr>gblMediaPresent := gblMediaPresent s1 AND NOT bit\<rparr>)
             else if gblMediaPresent s1 AND bit = 0 then
               (case MediaInitialize (diskops s1) (userp s1) (USBDeluxeDevice_MSD_CurrentLUN s1) of
                  (d', r') \<Rightarrow>
                    let s2 = s1\<lparr>userp := d'\<rparr>
                    in if r' \<noteq> 0 then
                         USBDeluxeDevice_MSD_ProcessCommandMediaPresent
                           (msd_set_status
                              (msd_sense_keys (s2\<lparr>gblMediaPresent := gblMediaPresent s2 OR bit\<rparr>) 0x6 0x28 0x00)
                              MSD_CSW_COMMAND_FAILED)
                       else USBDeluxeDevice_MSD_ProcessCommandMediaAbsent s2)
             else USBDeluxeDevice_MSD_ProcessCommandMediaPresent s1)"

subsection \<open>The task\<close>

definition msd_cbw_meaningful :: "'d msd_ctx \<Rightarrow> bool" where
  "msd_cbw_meaningful s \<longleftrightarrow>
     int (unat (bCBWLUN (gblCBW s))) \<le> int (unat (nr_LUNs s)) - 1 \<and> bCBWCBLength (gblCBW s) \<le> 0x10 \<and>
     0x01 \<le> bCBWCBLength (gblCBW s) \<and> bCBWFlags (gblCBW s) AND 0x3F = 0"

definition msd_accept_cbw :: "'d msd_ctx \<Rightarrow> 'd msd_ctx" where
  "msd_accept_cbw s =
     (let cbw = gblCBW s;
          s1 = s\<lparr>msd_csw := \<lparr>dCSWSignature = MSD_VALID_CSW_SIGNATURE, dCSWTag = dCBWTag cbw,
                   dCSWDataResidue = 0, bCSWStatus = MSD_CSW_COMMAND_PASSED\<rparr>,
                 MSDCommandState := MSD_COMMAND_WAIT, MSDReadState := MSD_READ10_WAIT,
                 MSDWriteState := MSD_WRITE10_WAIT, MSDRetryAttempt := 0\<rparr>;
          s2 = (if CBWCB cbw ! 0 \<noteq> MSD_REQUEST_SENSE then msd_sense_keys s1 0x0 0x00 0x00 else s1)
      in s2\<lparr>MSD_State := (if bCBWFlags cbw AND 0x80 \<noteq> 0 then MSD_DATA_IN else MSD_DATA_OUT),
            MSDHostNoData := (dCBWDataTransferLength cbw = 0), MSDCommandState := CBWCB cbw ! 0\<rparr>)"

definition msd_task_wait :: "'d msd_ctx \<Rightarrow> 'd msd_ctx" where
  "msd_task_wait s =
     (if USBHandleBusy (usb s) (USBMSDOutHandle s) then s
      else
        let s1 = s\<lparr>gblCBW := cbw_of_bytes (msd_cbw s)\<rparr>
        in if USBHandleGetLength (usb s1) (USBMSDOutHandle s1) = 0x1F \<and>
              dCBWSignature (gblCBW s1) = MSD_VALID_CBW_SIGNATURE
           then
             let s2 = s1\<lparr>MSDCBWValid := True\<rparr>
             in if msd_cbw_meaningful s2 then msd_accept_cbw s2 else msd_stall_out (msd_stall_in s2)
           else (msd_stall_out (msd_stall_in s1))\<lparr>MSDCBWValid := False\<rparr>)"

definition msd_task_send_csw :: "'d msd_ctx \<Rightarrow> 'd msd_ctx" where
  "msd_task_send_csw s =
     (if USBHandleBusy (usb s) (USBGetNextHandle (usb s) (USB_EP_IN s) IN_TO_HOST) then s
      else
        let s1 = msd_TxOnePacket s Buf_CSW 0x0D;
            s2 = (if \<not> USBHandleBusy (usb s1) (USBMSDOutHandle s1) then msd_RxOnePacket s1 Buf_CBW else s1)
        in s2\<lparr>MSD_State := MSD_WAIT\<rparr>)"

definition USBDeluxeDevice_MSD_Tasks :: "'d msd_ctx \<Rightarrow> 'd msd_ctx" where
  "USBDeluxeDevice_MSD_Tasks s =
     (if MSD_State s = MSD_WAIT then msd_task_wait s
      else if MSD_State s = MSD_DATA_IN then
        let s1 = USBDeluxeDevice_MSD_ProcessCommand s
        in if MSDCommandState s1 = MSD_COMMAND_WAIT then s1\<lparr>MSD_State := MSD_SEND_CSW\<rparr> else s1
      else if MSD_State s = MSD_DATA_OUT then
        let s1 = USBDeluxeDevice_MSD_ProcessCommand s
        in if MSDCommandState s1 = MSD_COMMAND_WAIT then
             (if bCSWStatus (msd_csw s1) = MSD_CSW_COMMAND_PASSED \<and> dCSWDataResidue (msd_csw s1) \<noteq> 0
              then msd_set_status s1 MSD_CSW_PHASE_ERROR else s1)\<lparr>MSD_State := MSD_SEND_CSW\<rparr>
           else s1
      else if MSD_State s = MSD_SEND_CSW then msd_task_send_csw s
      else msd_stall_out (msd_set_status (s\<lparr>MSD_State := MSD_WAIT\<rparr>) MSD_CSW_PHASE_ERROR))"

end
