(* ===== verification/MSD_Inv.thy ===== *)
theory MSD_Inv
  imports MSD
begin

section \<open>The mass storage function on the bus: steps and invariant\<close>

text \<open>
  The device together with its environment: a call of the task, the host taking the packet offered on the
  IN endpoint, the host sending a packet into the buffer armed on the OUT endpoint, and a class request on
  endpoint 0. Every event has an outcome in every state. A packet that is larger than the object its buffer lies in overwrites
  other memory (\<open>msd_host_sends\<close> is \<open>None\<close>): the outcome is \<open>Overrun\<close>, and the device stays there, since what it
  does from then on depends on what was overwritten.
\<close>

definition msd_host_takes :: "'d msd_ctx \<Rightarrow> 'd msd_ctx" where
  "msd_host_takes s =
     (case USBMSDInHandle s of None \<Rightarrow> s
      | Some h \<Rightarrow> s\<lparr>usb := bdt_upd h (\<lambda>e. e\<lparr>bdt_UOWN := False\<rparr>) (usb s)\<rparr>)"

definition overwrite :: "'a list \<Rightarrow> nat \<Rightarrow> 'a list \<Rightarrow> 'a list option" where
  "overwrite buf off data =
     (if off + length data \<le> length buf then Some (take off buf @ data @ drop (off + length data) buf) else None)"

definition msd_host_sends :: "u8 list \<Rightarrow> 'd msd_ctx \<Rightarrow> 'd msd_ctx option" where
  "msd_host_sends data s =
     (case USBMSDOutHandle s of None \<Rightarrow> Some s
      | Some h \<Rightarrow>
          let e = BDT (usb s) h;
              u = bdt_upd h (\<lambda>e. e\<lparr>bdt_UOWN := False, bdt_CNT := of_nat (length data)\<rparr>) (usb s)
          in if \<not> bdt_UOWN e \<or> bdt_BSTALL e \<or> unat (bdt_CNT e) < length data then Some s
             else case bdt_ADR e of
                    Buf_Data off \<Rightarrow> map_option (\<lambda>b. s\<lparr>msd_buffer := b, usb := u\<rparr>)
                                     (overwrite (msd_buffer s) (unat off) data)
                  | Buf_CBW \<Rightarrow> map_option (\<lambda>b. s\<lparr>msd_cbw := b, usb := u\<rparr>) (overwrite (msd_cbw s) 0 data)
                  | Buf_CSW \<Rightarrow> None)"

datatype 'd msd_run = Running "'d msd_ctx" | Overrun

datatype msd_event = Task_Call | Host_Takes | Host_Sends "u8 list" | Class_Request setup_packet

fun msd_step :: "msd_event \<Rightarrow> 'd msd_run \<Rightarrow> 'd msd_run" where
  "msd_step e Overrun = Overrun"
| "msd_step Task_Call (Running s) = Running (USBDeluxeDevice_MSD_Tasks s)"
| "msd_step Host_Takes (Running s) = Running (if usb_stalled (usb s) (USB_EP_IN s) IN_TO_HOST then s else msd_host_takes s)"
| "msd_step (Host_Sends data) (Running s) = (case msd_host_sends data s of None \<Rightarrow> Overrun | Some s' \<Rightarrow> Running s')"
| "msd_step (Class_Request p) (Running s) = Running (fst (USBDeluxeDevice_MSD_CheckRequest p s))"

inductive msd_reachable :: "'d msd_ctx \<Rightarrow> 'd msd_run \<Rightarrow> bool" for s0 where
  reach_init: "msd_reachable s0 (Running (USBDeluxeDevice_MSD_Init s0))"
| reach_step: "msd_reachable s0 r \<Longrightarrow> msd_reachable s0 (msd_step e r)"

text \<open>The hardware accepts the packet, and it does not fit into the object the OUT buffer is armed on: the command block
  (31 bytes), or the sector buffer (512 bytes) from the offset of the packet.\<close>

definition msd_too_big :: "u8 list \<Rightarrow> 'd msd_ctx \<Rightarrow> bool" where
  "msd_too_big data s \<longleftrightarrow>
     (case USBMSDOutHandle s of None \<Rightarrow> False
      | Some h \<Rightarrow>
          (let e = BDT (usb s) h
           in bdt_UOWN e \<and> \<not> bdt_BSTALL e \<and> length data \<le> unat (bdt_CNT e) \<and>
              (bdt_ADR e = Buf_CBW \<and> 31 < length data \<or> (\<exists>off. bdt_ADR e = Buf_Data off \<and> 512 < unat off + length data))))"

subsection \<open>The invariant\<close>

definition disk_ok :: "'d msd_diskops \<Rightarrow> bool" where
  "disk_ok ops \<longleftrightarrow> (\<forall>d l a buf. length buf = 512 \<longrightarrow> length (fst (snd (SectorRead ops d l a buf))) = 512)"

text \<open>An OUT buffer the hardware may fill is never the status wrapper.\<close>

definition out_no_csw :: "msd_buf usb_eps \<Rightarrow> usb_handle \<Rightarrow> bool" where
  "out_no_csw u handle \<longleftrightarrow>
     (case handle of None \<Rightarrow> True
      | Some h \<Rightarrow> bdt_UOWN (BDT u h) \<and> \<not> bdt_BSTALL (BDT u h) \<longrightarrow> bdt_ADR (BDT u h) \<noteq> Buf_CSW)"

text \<open>What no handler changes, and what holds whenever a command is being processed.\<close>

definition msd_frame :: "'d msd_ctx \<Rightarrow> bool" where
  "msd_frame s \<longleftrightarrow>
     disk_ok (diskops s) \<and> length (msd_buffer s) = 512 \<and> length (msd_cbw s) = 31 \<and>
     length (gblSenseData s) = unat (nr_LUNs s) \<and> usb_eps_ok (usb s) (USB_EP_IN s) (USB_EP_OUT s) \<and>
     (\<exists>a. USBMSDInHandle s = Some (USB_EP_IN s, IN_TO_HOST, a)) \<and>
     (\<exists>b. USBMSDOutHandle s = Some (USB_EP_OUT s, OUT_FROM_HOST, b)) \<and> out_no_csw (usb s) (USBMSDOutHandle s) \<and>
     (\<forall>n\<in>set (gblSenseData s). length (sn_Information n) = 4 \<and> length (sn_SenseKeySpecific n) = 3)"

definition msd_states :: "'d msd_ctx \<Rightarrow> bool" where
  "msd_states s \<longleftrightarrow> MSD_State s \<le> 3 \<and> MSDReadState s \<le> 4 \<and> MSDWriteState s \<le> 4"

definition msd_lun_ok :: "'d msd_ctx \<Rightarrow> bool" where
  "msd_lun_ok s \<longleftrightarrow> bCBWLUN (gblCBW s) < nr_LUNs s"

definition msd_cmd_inv :: "'d msd_ctx \<Rightarrow> bool" where
  "msd_cmd_inv s \<longleftrightarrow> msd_frame s \<and> msd_states s \<and> msd_lun_ok s"

definition msd_inv :: "'d msd_ctx \<Rightarrow> bool" where
  "msd_inv s \<longleftrightarrow> msd_frame s \<and> msd_states s \<and> (MSD_State s \<noteq> MSD_WAIT \<longrightarrow> msd_lun_ok s)"

named_theorems msd_inv_intros "preservation of the invariant by the steps of the handlers"

lemma cmd_inv_simps [simp]:
  "msd_cmd_inv (s\<lparr>userp := d\<rparr>) = msd_cmd_inv s"
  "msd_cmd_inv (s\<lparr>LBA := a\<rparr>) = msd_cmd_inv s"
  "msd_cmd_inv (s\<lparr>TransferLength := n\<rparr>) = msd_cmd_inv s"
  "msd_cmd_inv (s\<lparr>ptrNextData := p\<rparr>) = msd_cmd_inv s"
  "msd_cmd_inv (s\<lparr>MSDRetryAttempt := r\<rparr>) = msd_cmd_inv s"
  "msd_cmd_inv (s\<lparr>MSDCommandState := c\<rparr>) = msd_cmd_inv s"
  "msd_cmd_inv (s\<lparr>gblMediaPresent := m\<rparr>) = msd_cmd_inv s"
  "msd_cmd_inv (s\<lparr>MSDHostNoData := h\<rparr>) = msd_cmd_inv s"
  "msd_cmd_inv (s\<lparr>msd_csw := w\<rparr>) = msd_cmd_inv s"
  "msd_cmd_inv (msd_set_status s v) = msd_cmd_inv s"
  "msd_cmd_inv (msd_set_residue s x) = msd_cmd_inv s"
  "msd_cmd_inv (msd_set_host_length s x) = msd_cmd_inv s"
  by (simp_all add: msd_cmd_inv_def msd_frame_def msd_states_def msd_lun_ok_def msd_set_status_def
      msd_set_residue_def msd_set_host_length_def)

lemma cmd_inv_upds [msd_inv_intros]:
  "msd_cmd_inv s \<Longrightarrow> v \<le> 4 \<Longrightarrow> msd_cmd_inv (s\<lparr>MSDReadState := v\<rparr>)"
  "msd_cmd_inv s \<Longrightarrow> v \<le> 4 \<Longrightarrow> msd_cmd_inv (s\<lparr>MSDWriteState := v\<rparr>)"
  "msd_cmd_inv s \<Longrightarrow> v \<le> 3 \<Longrightarrow> msd_cmd_inv (s\<lparr>MSD_State := v\<rparr>)"
  "msd_cmd_inv s \<Longrightarrow> length b = 512 \<Longrightarrow> msd_cmd_inv (s\<lparr>msd_buffer := b\<rparr>)"
  by (simp_all add: msd_cmd_inv_def msd_frame_def msd_states_def msd_lun_ok_def)

lemma no_csw_stall: "out_no_csw u h \<Longrightarrow> out_no_csw (USBStallEndpoint u ep d) h"
  by (auto simp: out_no_csw_def USBStallEndpoint_def bdt_upd_def split: option.splits)

lemma no_csw_upd: "out_no_csw u h \<Longrightarrow> out_no_csw (bdt_upd i (\<lambda>e. e\<lparr>bdt_UOWN := False\<rparr>) u) h"
  by (auto simp: out_no_csw_def bdt_upd_def split: option.splits)

lemma no_csw_filled: "out_no_csw (bdt_upd h (\<lambda>e. e\<lparr>bdt_UOWN := False, bdt_CNT := n\<rparr>) u) (Some h)"
  by (simp add: out_no_csw_def bdt_upd_def)

lemma no_csw_tx:
  assumes "usb_eps_ok u ein eout" and "out_no_csw u (Some (e, OUT_FROM_HOST, b))"
  shows "out_no_csw (fst (USBTransferOnePacket u ein IN_TO_HOST d n)) (Some (e, OUT_FROM_HOST, b))"
  using assms(2) unfolding out_no_csw_def by (simp add: transfer_in(4)[OF assms(1)])

lemma no_csw_rx: "USBTransferOnePacket u ep dir b n = (u', Some h) \<Longrightarrow> b \<noteq> Buf_CSW \<Longrightarrow> out_no_csw u' (Some h)"
  by (simp add: out_no_csw_def transfer_busy(3))

lemma cmd_inv_stall [msd_inv_intros]:
  "msd_cmd_inv s \<Longrightarrow> msd_cmd_inv (msd_stall_in s)"
  "msd_cmd_inv s \<Longrightarrow> msd_cmd_inv (msd_stall_out s)"
  by (simp_all add: msd_cmd_inv_def msd_frame_def msd_states_def msd_lun_ok_def msd_stall_in_def
      msd_stall_out_def stall_ok no_csw_stall)

lemma frame_tx: "msd_frame s \<Longrightarrow> msd_frame (msd_TxOnePacket s b n)"
  using transfer_in[of "usb s" "USB_EP_IN s" "USB_EP_OUT s" b n] no_csw_tx[of "usb s" "USB_EP_IN s" "USB_EP_OUT s" "USB_EP_OUT s" _ b n]
  by (cases "USBTransferOnePacket (usb s) (USB_EP_IN s) IN_TO_HOST b n") (auto simp: msd_frame_def msd_TxOnePacket_def)

lemma frame_rx: "msd_frame s \<Longrightarrow> b \<noteq> Buf_CSW \<Longrightarrow> msd_frame (msd_RxOnePacket s b)"
  using transfer_out[of "usb s" "USB_EP_IN s" "USB_EP_OUT s" b 64] no_csw_rx[of "usb s" "USB_EP_OUT s" OUT_FROM_HOST b 64]
  by (auto simp: msd_frame_def msd_RxOnePacket_def split: prod.splits)

lemma tx_rx_fields [simp]:
  "MSD_State (msd_TxOnePacket s b n) = MSD_State s" "MSDReadState (msd_TxOnePacket s b n) = MSDReadState s"
  "MSDWriteState (msd_TxOnePacket s b n) = MSDWriteState s" "MSDCommandState (msd_TxOnePacket s b n) = MSDCommandState s"
  "gblCBW (msd_TxOnePacket s b n) = gblCBW s" "nr_LUNs (msd_TxOnePacket s b n) = nr_LUNs s"
  "msd_csw (msd_TxOnePacket s b n) = msd_csw s" "ptrNextData (msd_TxOnePacket s b n) = ptrNextData s"
  "MSD_State (msd_RxOnePacket s b) = MSD_State s" "MSDReadState (msd_RxOnePacket s b) = MSDReadState s"
  "MSDWriteState (msd_RxOnePacket s b) = MSDWriteState s" "MSDCommandState (msd_RxOnePacket s b) = MSDCommandState s"
  "gblCBW (msd_RxOnePacket s b) = gblCBW s" "nr_LUNs (msd_RxOnePacket s b) = nr_LUNs s"
  "msd_csw (msd_RxOnePacket s b) = msd_csw s" "ptrNextData (msd_RxOnePacket s b) = ptrNextData s"
  by (simp_all add: msd_TxOnePacket_def msd_RxOnePacket_def split: prod.split)

lemma cmd_inv_tx_rx [msd_inv_intros]:
  "msd_cmd_inv s \<Longrightarrow> msd_cmd_inv (msd_TxOnePacket s b n)"
  "msd_cmd_inv s \<Longrightarrow> b \<noteq> Buf_CSW \<Longrightarrow> msd_cmd_inv (msd_RxOnePacket s b)"
  by (auto simp: msd_cmd_inv_def frame_tx frame_rx) (auto simp: msd_states_def msd_lun_ok_def)

lemma cmd_inv_sense [msd_inv_intros]:
  "msd_cmd_inv s \<Longrightarrow> msd_cmd_inv (msd_sense_keys s a b c)"
  "msd_cmd_inv s \<Longrightarrow> msd_cmd_inv (USBDeluxeDevice_MSD_ResetSenseData s l)"
proof -
  assume s: "msd_cmd_inv s"
  have "unat (USBDeluxeDevice_MSD_CurrentLUN s) < length (gblSenseData s)"
    using s by (simp add: msd_cmd_inv_def msd_frame_def msd_lun_ok_def USBDeluxeDevice_MSD_CurrentLUN_def word_less_nat_alt)
  with s show "msd_cmd_inv (msd_sense_keys s a b c)" "msd_cmd_inv (USBDeluxeDevice_MSD_ResetSenseData s l)"
    by (auto simp: msd_cmd_inv_def msd_frame_def msd_states_def msd_lun_ok_def msd_sense_keys_def Let_def
        USBDeluxeDevice_MSD_ResetSenseData_def dest!: set_update_subset_insert[THEN subsetD])
qed

subsection \<open>Every handler keeps the invariant\<close>

lemma cmd_inv_buffer: "msd_cmd_inv s \<Longrightarrow> length (msd_buffer s) = 512"
  by (simp add: msd_cmd_inv_def msd_frame_def)

lemma cmd_inv_put [msd_inv_intros]: "msd_cmd_inv s \<Longrightarrow> length bs \<le> 512 \<Longrightarrow> msd_cmd_inv (msd_put bs s)"
  by (auto simp: msd_put_def cmd_inv_buffer intro!: msd_inv_intros)

lemma cmd_inv_residue [msd_inv_intros]: "msd_cmd_inv s \<Longrightarrow> msd_cmd_inv (MSDComputeDeviceInAndResidue s n)"
  by (simp add: MSDComputeDeviceInAndResidue_def Let_def)

lemma cmd_inv_error [msd_inv_intros]: "msd_cmd_inv s \<Longrightarrow> msd_cmd_inv (MSDErrorHandler s c)"
  by (simp add: MSDErrorHandler_def Let_def msd_inv_intros)

lemma cmd_inv_check [msd_inv_intros]: "msd_cmd_inv s \<Longrightarrow> msd_cmd_inv (fst (MSDCheckForErrorCases s n))"
  by (simp add: MSDCheckForErrorCases_def Let_def msd_inv_intros)

lemma cmd_inv_read_packet [msd_inv_intros]: "msd_cmd_inv s \<Longrightarrow> msd_cmd_inv (msd_read10_tx_packet s)"
  by (simp add: msd_read10_tx_packet_def Let_def msd_inv_intros)

lemma cmd_inv_read_tx_sector [msd_inv_intros]: "msd_cmd_inv s \<Longrightarrow> msd_cmd_inv (msd_read10_tx_sector s)"
  by (simp add: msd_read10_tx_sector_def msd_inv_intros)

lemma sector_read_length:
  "msd_cmd_inv s \<Longrightarrow> SectorRead (diskops s) d l a (msd_buffer s) = (d', buf, r) \<Longrightarrow> length buf = 512"
  unfolding msd_cmd_inv_def msd_frame_def disk_ok_def by (metis fst_conv snd_conv)

lemma cmd_inv_read_sector [msd_inv_intros]:
  assumes "msd_cmd_inv s"
  shows "msd_cmd_inv (msd_read10_sector s)"
proof (cases "SectorRead (diskops s) (userp s) (USBDeluxeDevice_MSD_CurrentLUN s) (LBA s) (msd_buffer s)")
  case (fields d buf r)
  have "length buf = 512" by (rule sector_read_length[OF assms fields])
  then have "msd_cmd_inv (s\<lparr>userp := d, msd_buffer := buf\<rparr>)" using assms by (simp add: msd_inv_intros)
  then show ?thesis using assms unfolding msd_read10_sector_def fields Let_def prod.case
    by (auto simp del: cmd_inv_simps(1) intro!: msd_inv_intros)
qed

lemma cmd_inv_read_block [msd_inv_intros]: "msd_cmd_inv s \<Longrightarrow> msd_cmd_inv (msd_read10_block s)"
  by (simp add: msd_read10_block_def msd_inv_intros)

lemma cmd_inv_read_wait [msd_inv_intros]:
  assumes "msd_cmd_inv s"
  shows "msd_cmd_inv (msd_read10_wait s)"
proof -
  let ?s = "s\<lparr>LBA := msd_cb_lba s, TransferLength := msd_cb_length s\<rparr>"
  have "msd_cmd_inv (fst (MSDCheckForErrorCases ?s n))" for n using assms by (intro cmd_inv_check) simp
  then show ?thesis
    unfolding msd_read10_wait_def Let_def by (auto split: prod.split intro!: msd_inv_intros) (metis fst_conv)+
qed

lemma cmd_inv_read [msd_inv_intros]: "msd_cmd_inv s \<Longrightarrow> msd_cmd_inv (MSDReadHandler s)"
  by (simp add: MSDReadHandler_def msd_inv_intros)

lemma cmd_inv_write_packet [msd_inv_intros]: "msd_cmd_inv s \<Longrightarrow> msd_cmd_inv (msd_write10_rx_packet s)"
  by (simp add: msd_write10_rx_packet_def Let_def msd_inv_intros)

lemma cmd_inv_write_rx_sector [msd_inv_intros]: "msd_cmd_inv s \<Longrightarrow> msd_cmd_inv (msd_write10_rx_sector s)"
  by (auto simp: msd_write10_rx_sector_def Let_def split: prod.split intro!: msd_inv_intros)

lemma cmd_inv_write_block [msd_inv_intros]: "msd_cmd_inv s \<Longrightarrow> msd_cmd_inv (msd_write10_block s)"
  by (auto simp: msd_write10_block_def intro!: msd_inv_intros)

lemma cmd_inv_write_sector [msd_inv_intros]: "msd_cmd_inv s \<Longrightarrow> msd_cmd_inv (msd_write10_sector s)"
  by (auto simp: msd_write10_sector_def Let_def split: prod.split intro!: msd_inv_intros)

lemma cmd_inv_write_wait [msd_inv_intros]:
  assumes "msd_cmd_inv s"
  shows "msd_cmd_inv (msd_write10_wait s)"
proof -
  let ?s = "s\<lparr>LBA := msd_cb_lba s, TransferLength := msd_cb_length s\<rparr>"
  obtain t c where t: "MSDCheckForErrorCases ?s (ucast (TransferLength ?s) * 512) = (t, c)" by fastforce
  have i: "msd_cmd_inv t"
    using cmd_inv_check[of ?s "ucast (TransferLength ?s) * 512"] assms unfolding t by simp
  then show ?thesis
    unfolding msd_write10_wait_def Let_def t prod.case by (auto split: prod.split intro!: msd_inv_intros)
qed

lemma cmd_inv_write [msd_inv_intros]: "msd_cmd_inv s \<Longrightarrow> msd_cmd_inv (MSDWriteHandler s)"
  by (simp add: MSDWriteHandler_def msd_inv_intros)

lemma length_c_strncpy: "length (c_strncpy n src) = n"
  by (simp add: c_strncpy_def)

lemma length_inquiry: "length (msd_inquiry_data s) = 36"
  by (simp add: msd_inquiry_data_def msd_rom_string_def msd_inq_resp_def length_c_strncpy)

lemma cmd_inv_inquiry [msd_inv_intros]:
  assumes "msd_cmd_inv s"
  shows "msd_cmd_inv (msd_do_inquiry s)"
proof -
  let ?s = "s\<lparr>TransferLength := le_word [CBWCB (gblCBW s) ! 4, CBWCB (gblCBW s) ! 3]\<rparr>"
  obtain t c where t: "MSDCheckForErrorCases ?s (ucast (TransferLength ?s)) = (t, c)" by fastforce
  have i: "msd_cmd_inv t"
    using cmd_inv_check[of ?s "ucast (TransferLength ?s)"] assms unfolding t by simp
  then show ?thesis
    using assms unfolding msd_do_inquiry_def Let_def t prod.case
    by (auto simp: length_inquiry intro!: msd_inv_intros)
qed

lemma cmd_inv_capacity [msd_inv_intros]: "msd_cmd_inv s \<Longrightarrow> msd_cmd_inv (msd_do_read_capacity s)"
  by (auto simp: msd_do_read_capacity_def Let_def split: prod.split intro!: msd_inv_intros)

lemma cmd_inv_sense_data:
  assumes "msd_cmd_inv s"
  shows "length (sense_bytes (gblSenseData s ! unat (USBDeluxeDevice_MSD_CurrentLUN s))) = 18"
proof -
  let ?n = "gblSenseData s ! unat (USBDeluxeDevice_MSD_CurrentLUN s)"
  have "unat (USBDeluxeDevice_MSD_CurrentLUN s) < length (gblSenseData s)"
    using assms by (simp add: msd_cmd_inv_def msd_frame_def msd_lun_ok_def USBDeluxeDevice_MSD_CurrentLUN_def word_less_nat_alt)
  then have "?n \<in> set (gblSenseData s)" by simp
  then have "length (sn_Information ?n) = 4" "length (sn_SenseKeySpecific ?n) = 3"
    using assms unfolding msd_cmd_inv_def msd_frame_def by auto
  then show ?thesis by (simp add: sense_bytes_def)
qed

lemma cmd_inv_request_sense [msd_inv_intros]:
  assumes "msd_cmd_inv s"
  shows "msd_cmd_inv (msd_do_request_sense s)"
proof -
  let ?s = "MSDComputeDeviceInAndResidue (s\<lparr>TransferLength := 18\<rparr>) 18"
  have "msd_cmd_inv ?s" using assms by (simp add: msd_inv_intros)
  then show ?thesis
    using assms cmd_inv_sense_data[of ?s] by (simp add: msd_do_request_sense_def Let_def msd_inv_intros)
qed

lemma cmd_inv_mode_sense [msd_inv_intros]: "msd_cmd_inv s \<Longrightarrow> msd_cmd_inv (msd_do_mode_sense s)"
  by (auto simp: msd_do_mode_sense_def Let_def split: prod.split intro!: msd_inv_intros)

lemma cmd_inv_test_unit_ready [msd_inv_intros]:
  assumes "msd_cmd_inv s"
  shows "msd_cmd_inv (msd_do_test_unit_ready s)"
proof -
  obtain t c where t: "MSDCheckForErrorCases s 0 = (t, c)" by fastforce
  have "msd_cmd_inv t" using cmd_inv_check[OF assms, of 0] unfolding t by simp
  then show ?thesis unfolding msd_do_test_unit_ready_def t prod.case by (auto intro!: msd_inv_intros)
qed

lemma cmd_inv_pad [msd_inv_intros]: "msd_cmd_inv s \<Longrightarrow> msd_cmd_inv (msd_pad is s)"
proof (induction "is" arbitrary: s)
  case (Cons i "is")
  have "msd_cmd_inv (s\<lparr>msd_buffer := (msd_buffer s)[i := 0]\<rparr>)"
    using Cons.prems cmd_inv_buffer by (intro cmd_inv_upds(4)) auto
  then show ?case using Cons by simp
qed simp

lemma cmd_inv_response [msd_inv_intros]: "msd_cmd_inv s \<Longrightarrow> msd_cmd_inv (msd_do_response s)"
  by (simp add: msd_do_response_def Let_def msd_inv_intros)

lemma cmd_inv_present [msd_inv_intros]:
  "msd_cmd_inv s \<Longrightarrow> msd_cmd_inv (USBDeluxeDevice_MSD_ProcessCommandMediaPresent s)"
  by (simp add: USBDeluxeDevice_MSD_ProcessCommandMediaPresent_def Let_def msd_inv_intros)

lemma cmd_inv_absent [msd_inv_intros]:
  "msd_cmd_inv s \<Longrightarrow> msd_cmd_inv (USBDeluxeDevice_MSD_ProcessCommandMediaAbsent s)"
  by (simp add: USBDeluxeDevice_MSD_ProcessCommandMediaAbsent_def Let_def msd_inv_intros)

lemma cmd_inv_process [msd_inv_intros]: "msd_cmd_inv s \<Longrightarrow> msd_cmd_inv (USBDeluxeDevice_MSD_ProcessCommand s)"
  by (auto simp: USBDeluxeDevice_MSD_ProcessCommand_def Let_def split: prod.split intro!: msd_inv_intros)

subsection \<open>Every step keeps the invariant\<close>

lemma inv_of_cmd: "msd_cmd_inv s \<Longrightarrow> msd_inv s"
  by (simp add: msd_cmd_inv_def msd_inv_def)

lemma cmd_of_inv: "msd_inv s \<Longrightarrow> MSD_State s \<noteq> MSD_WAIT \<Longrightarrow> msd_cmd_inv s"
  by (simp add: msd_cmd_inv_def msd_inv_def)

lemma frame_stall: "msd_frame s \<Longrightarrow> msd_frame (msd_stall_in s)" "msd_frame s \<Longrightarrow> msd_frame (msd_stall_out s)"
  by (simp_all add: msd_frame_def msd_stall_in_def msd_stall_out_def stall_ok no_csw_stall)

lemma frame_simps [simp]:
  "msd_frame (s\<lparr>gblCBW := c\<rparr>) = msd_frame s" "msd_frame (s\<lparr>MSDCBWValid := v\<rparr>) = msd_frame s"
  "msd_frame (s\<lparr>MSD_State := st\<rparr>) = msd_frame s" "msd_frame (msd_set_status s w) = msd_frame s"
  by (simp_all add: msd_frame_def msd_set_status_def)

lemma stall_fields [simp]:
  "MSD_State (msd_stall_in s) = MSD_State s" "MSD_State (msd_stall_out s) = MSD_State s"
  "MSDReadState (msd_stall_in s) = MSDReadState s" "MSDReadState (msd_stall_out s) = MSDReadState s"
  "MSDWriteState (msd_stall_in s) = MSDWriteState s" "MSDWriteState (msd_stall_out s) = MSDWriteState s"
  "MSD_State (msd_set_status s v) = MSD_State s" "MSDReadState (msd_set_status s v) = MSDReadState s"
  "MSDWriteState (msd_set_status s v) = MSDWriteState s"
  by (simp_all add: msd_stall_in_def msd_stall_out_def msd_set_status_def)

lemma accept_cmd_inv:
  assumes "msd_frame s" and "msd_states s" and "msd_cbw_meaningful s"
  shows "msd_cmd_inv (msd_accept_cbw s)"
proof -
  have "bCBWLUN (gblCBW s) < nr_LUNs s" using assms(3) by (simp add: msd_cbw_meaningful_def word_less_def)
  then have "msd_cmd_inv s" using assms(1,2) by (simp add: msd_cmd_inv_def msd_lun_ok_def)
  then have "msd_cmd_inv (s\<lparr>msd_csw := w, MSDCommandState := c, MSDReadState := 0, MSDWriteState := 0,
      MSDRetryAttempt := r\<rparr>)" for w c r
    by (simp add: msd_cmd_inv_def msd_frame_def msd_states_def msd_lun_ok_def)
  then show ?thesis by (simp add: msd_accept_cbw_def Let_def msd_inv_intros)
qed

lemma inv_task_wait:
  assumes "msd_inv s" and "MSD_State s = MSD_WAIT"
  shows "msd_inv (msd_task_wait s)"
proof -
  have f: "msd_frame s" "msd_states s" using assms(1) by (simp_all add: msd_inv_def)
  have a: "msd_cbw_meaningful t \<Longrightarrow> msd_frame t \<Longrightarrow> msd_states t \<Longrightarrow> msd_inv (msd_accept_cbw t)" for t :: "'a msd_ctx"
    by (intro inv_of_cmd accept_cmd_inv)
  show ?thesis
    using f assms a unfolding msd_task_wait_def Let_def
    by (auto simp: msd_inv_def msd_states_def frame_stall)
qed

lemma inv_task_csw:
  assumes "msd_inv s"
  shows "msd_inv (msd_task_send_csw s)"
  using assms unfolding msd_task_send_csw_def Let_def
  by (auto simp: msd_inv_def msd_states_def frame_tx frame_rx)

lemma inv_tasks:
  assumes "msd_inv s"
  shows "msd_inv (USBDeluxeDevice_MSD_Tasks s)"
proof (cases "MSD_State s = MSD_WAIT")
  case True
  then show ?thesis using inv_task_wait[OF assms] by (simp add: USBDeluxeDevice_MSD_Tasks_def)
next
  case False
  note c = cmd_of_inv[OF assms False]
  have p: "msd_cmd_inv (USBDeluxeDevice_MSD_ProcessCommand s)" by (rule cmd_inv_process[OF c])
  have "msd_inv (msd_stall_out (msd_set_status (s\<lparr>MSD_State := MSD_WAIT\<rparr>) v))" for v
    using c by (intro inv_of_cmd msd_inv_intros) (simp add: msd_inv_intros)
  then show ?thesis
    using p inv_task_csw[OF assms] False unfolding USBDeluxeDevice_MSD_Tasks_def Let_def
    by (auto intro!: inv_of_cmd msd_inv_intros)
qed

lemma overwrite_length: "overwrite b n d = Some b' \<Longrightarrow> length b' = length b"
  by (auto simp: overwrite_def split: if_splits)

lemma bdt_upd_eps [simp]: "usb_eps_ok (bdt_upd h f u) a b = usb_eps_ok u a b"
  by (simp add: bdt_upd_def usb_eps_ok_def)

lemma inv_host:
  assumes "msd_inv s"
  shows "msd_inv (msd_host_takes s)" and "msd_host_sends data s = Some s' \<Longrightarrow> msd_inv s'"
proof -
  show "msd_inv (msd_host_takes s)"
    using assms by (auto simp: msd_host_takes_def msd_inv_def msd_frame_def msd_states_def msd_lun_ok_def no_csw_upd split: option.split)
  assume "msd_host_sends data s = Some s'"
  then show "msd_inv s'"
    using assms unfolding msd_host_sends_def Let_def
    by (auto simp: msd_inv_def msd_frame_def msd_states_def msd_lun_ok_def overwrite_length no_csw_filled
        split: option.splits if_splits msd_buf.splits)
qed

lemma inv_request:
  assumes "msd_inv s"
  shows "msd_inv (fst (USBDeluxeDevice_MSD_CheckRequest p s))"
proof -
  let ?t = "s\<lparr>MSD_State := MSD_WAIT, MSDCommandState := MSD_COMMAND_WAIT, MSDReadState := MSD_READ10_WAIT,
    MSDWriteState := MSD_WRITE10_WAIT, MSDCBWValid := True\<rparr>"
  have t: "msd_frame ?t" using assms by (simp add: msd_inv_def msd_frame_def)
  have "msd_inv ?t" using t by (simp add: msd_inv_def msd_states_def)
  moreover have "msd_inv (msd_RxOnePacket ?t Buf_CBW)" using frame_rx[OF t] by (simp add: msd_inv_def msd_states_def)
  ultimately show ?thesis using assms unfolding USBDeluxeDevice_MSD_CheckRequest_def Let_def by auto
qed

text \<open>In a state that satisfies the invariant a packet overruns exactly when it is too big.\<close>

lemma overrun_iff:
  assumes "msd_inv s"
  shows "msd_host_sends data s = None \<longleftrightarrow> msd_too_big data s"
proof -
  have f: "length (msd_buffer s) = 512" "length (msd_cbw s) = 31" "out_no_csw (usb s) (USBMSDOutHandle s)"
    using assms by (simp_all add: msd_inv_def msd_frame_def)
  then show ?thesis
    by (auto simp: msd_host_sends_def msd_too_big_def out_no_csw_def overwrite_def Let_def not_less split: option.splits msd_buf.splits)
qed

definition run_ok :: "'d msd_run \<Rightarrow> bool" where
  "run_ok r \<longleftrightarrow> (case r of Running s \<Rightarrow> msd_inv s | Overrun \<Rightarrow> True)"

lemma msd_step_inv: "run_ok r \<Longrightarrow> run_ok (msd_step e r)"
  by (cases "(e, r)" rule: msd_step.cases) (auto simp: run_ok_def inv_tasks inv_request inv_host(1) split: option.split dest: inv_host(2))

lemma step_overrun:
  assumes "run_ok r" and "r \<noteq> Overrun"
  shows "msd_step e r = Overrun \<longleftrightarrow> (\<exists>s data. r = Running s \<and> e = Host_Sends data \<and> msd_too_big data s)"
  using assms by (cases "(e, r)" rule: msd_step.cases) (auto simp: run_ok_def overrun_iff[symmetric] split: option.split)

subsection \<open>Initialisation\<close>

definition msd_created :: "'d msd_ctx \<Rightarrow> bool" where
  "msd_created s \<longleftrightarrow>
     (\<exists>u up i ein eout n v p r ops. disk_ok ops \<and> s = USBDeluxeDevice_MSD_Create u up i ein eout n v p r ops)"

lemma enable_ok:
  "usb_eps_ok (USBEnableEndpoint u e (USB_IN_ENABLED OR USB_OUT_ENABLED OR USB_HANDSHAKE_ENABLED OR USB_DISALLOW_SETUP)) e e"
  "ein \<noteq> eout \<Longrightarrow> usb_eps_ok (USBEnableEndpoint (USBEnableEndpoint u ein (USB_IN_ENABLED OR USB_HANDSHAKE_ENABLED OR USB_DISALLOW_SETUP))
     eout (USB_OUT_ENABLED OR USB_HANDSHAKE_ENABLED OR USB_DISALLOW_SETUP)) ein eout"
  by (auto simp: usb_eps_ok_def USBEnableEndpoint_def USBConfigureEndpoint_def bdt_upd_def Let_def
      USB_IN_ENABLED_def USB_OUT_ENABLED_def USB_HANDSHAKE_ENABLED_def USB_DISALLOW_SETUP_def)

lemma frame_init_lun:
  assumes "msd_frame s" and "MSD_State s = MSD_WAIT" and "msd_states s"
  shows "msd_frame (msd_init_lun l s)" "MSD_State (msd_init_lun l s) = MSD_WAIT" "msd_states (msd_init_lun l s)"
    "nr_LUNs (msd_init_lun l s) = nr_LUNs s"
  using assms
  by (auto simp: msd_init_lun_def Let_def msd_frame_def msd_states_def USBDeluxeDevice_MSD_ResetSenseData_def
      split: prod.splits dest!: set_update_subset_insert[THEN subsetD])

lemma frame_init_luns:
  assumes "msd_frame s" and "MSD_State s = MSD_WAIT" and "msd_states s"
  shows "msd_frame (fold msd_init_lun ls s) \<and> MSD_State (fold msd_init_lun ls s) = MSD_WAIT \<and>
    msd_states (fold msd_init_lun ls s)"
  using assms by (induction ls arbitrary: s) (auto simp: frame_init_lun)

lemma init_inv:
  assumes "msd_created s"
  shows "msd_inv (USBDeluxeDevice_MSD_Init s)"
proof -
  from assms obtain u up i ein eout n v p r ops
    where d: "disk_ok ops" and s: "s = USBDeluxeDevice_MSD_Create u up i ein eout n v p r ops"
    unfolding msd_created_def by blast
  define u1 where "u1 = (if ein = eout then USBEnableEndpoint u ein
      (USB_IN_ENABLED OR USB_OUT_ENABLED OR USB_HANDSHAKE_ENABLED OR USB_DISALLOW_SETUP)
    else USBEnableEndpoint (USBEnableEndpoint u ein (USB_IN_ENABLED OR USB_HANDSHAKE_ENABLED OR USB_DISALLOW_SETUP))
      eout (USB_OUT_ENABLED OR USB_HANDSHAKE_ENABLED OR USB_DISALLOW_SETUP))"
  have u1: "usb_eps_ok u1 ein eout" unfolding u1_def using enable_ok by auto
  define s2 where "s2 = msd_RxOnePacket (s\<lparr>usb := u1\<rparr>) Buf_CBW"
  note T = transfer_out[OF u1, of Buf_CBW 64]
  have f: "usb_eps_ok (usb s2) ein eout" "\<exists>b. USBMSDOutHandle s2 = Some (eout, OUT_FROM_HOST, b)"
    using T(1,2) by (auto simp: s2_def msd_RxOnePacket_def s USBDeluxeDevice_MSD_Create_def split: prod.splits)
  have nc: "out_no_csw (usb s2) (USBMSDOutHandle s2)"
    using T(2) no_csw_rx[of u1 eout OUT_FROM_HOST Buf_CBW 64]
    by (auto simp: s2_def msd_RxOnePacket_def s USBDeluxeDevice_MSD_Create_def split: prod.splits)
  have e: "\<exists>a. USBGetNextHandle (usb s2) ein IN_TO_HOST = Some (ein, IN_TO_HOST, a)"
    using f(1) by (auto simp: usb_eps_ok_def USBGetNextHandle_def)
  have g: "disk_ok (diskops s2)" "length (msd_buffer s2) = 512" "length (msd_cbw s2) = 31"
    "gblSenseData s2 = replicate (unat n) sense_zero" "nr_LUNs s2 = n" "USB_EP_IN s2 = ein" "USB_EP_OUT s2 = eout"
    using d by (simp_all add: s2_def msd_RxOnePacket_def s USBDeluxeDevice_MSD_Create_def split: prod.split)
  define s3 where "s3 = s2\<lparr>USBMSDInHandle := USBGetNextHandle (usb s2) ein IN_TO_HOST,
      MSD_State := MSD_WAIT, MSDCommandState := MSD_COMMAND_WAIT, MSDReadState := MSD_READ10_WAIT,
      MSDWriteState := MSD_WRITE10_WAIT, MSDHostNoData := False, gblNumBLKS := 0, gblBLKLen := 0,
      MSDCBWValid := True, gblMediaPresent := 0\<rparr>"
  have "msd_frame s3" "MSD_State s3 = MSD_WAIT" "msd_states s3"
    using f e g nc by (simp_all add: s3_def msd_frame_def msd_states_def sense_zero_def)
  then have "msd_inv (fold msd_init_lun ls s3)" for ls
    using frame_init_luns[of s3 ls] by (simp add: msd_inv_def)
  moreover have "(if USB_EP_IN s = USB_EP_OUT s
      then s\<lparr>usb := USBEnableEndpoint (usb s) (USB_EP_IN s)
        (USB_IN_ENABLED OR USB_OUT_ENABLED OR USB_HANDSHAKE_ENABLED OR USB_DISALLOW_SETUP)\<rparr>
      else s\<lparr>usb := USBEnableEndpoint (USBEnableEndpoint (usb s) (USB_EP_IN s)
            (USB_IN_ENABLED OR USB_HANDSHAKE_ENABLED OR USB_DISALLOW_SETUP))
          (USB_EP_OUT s) (USB_OUT_ENABLED OR USB_HANDSHAKE_ENABLED OR USB_DISALLOW_SETUP)\<rparr>) = s\<lparr>usb := u1\<rparr>"
    by (simp add: s USBDeluxeDevice_MSD_Create_def u1_def)
  ultimately show ?thesis
    unfolding USBDeluxeDevice_MSD_Init_def Let_def by (simp only: s2_def[symmetric] g(6) s3_def[symmetric])
qed

lemma reachable_inv:
  assumes "msd_reachable s0 r" and "msd_created s0"
  shows "run_ok r"
  using assms(1)
proof (induction rule: msd_reachable.induct)
  case reach_init
  show ?case using init_inv[OF assms(2)] by (simp add: run_ok_def)
qed (rule msd_step_inv)

lemma reachable_overrun:
  assumes "msd_reachable s0 r" and "msd_created s0" and "r = Overrun"
  shows "\<exists>s data. msd_reachable s0 (Running s) \<and> msd_too_big data s"
  using assms(1,3)
proof (induction rule: msd_reachable.induct)
  case (reach_step r e)
  show ?case
  proof (cases "r = Overrun")
    case False
    then show ?thesis using step_overrun[OF reachable_inv[OF reach_step.hyps assms(2)] False, of e] reach_step by auto
  qed (use reach_step.IH in blast)
qed simp

end
