(* ===== verification/MSD_Read.thy ===== *)
theory MSD_Read
  imports MSD_Inv
begin

section \<open>Reading blocks from the mass storage function\<close>

text \<open>
  A complete READ(10) transfer: a host that takes every packet before the next call of the task, and
  a medium that can be read. One call of the task makes one step of the read state machine; the
  lemmas follow a block through its nine calls, and the transfer by induction on its blocks.
\<close>

definition msd_poll :: "'d msd_ctx \<Rightarrow> 'd msd_ctx" where
  "msd_poll s = USBDeluxeDevice_MSD_Tasks (msd_host_takes s)"

text \<open>A present medium whose sector \<open>a\<close> holds \<open>content a\<close>; reading does not change its state.\<close>

definition disk_reads :: "'d msd_diskops \<Rightarrow> 'd \<Rightarrow> u8 \<Rightarrow> (u32 \<Rightarrow> u8 list) \<Rightarrow> bool" where
  "disk_reads ops d l content \<longleftrightarrow>
     (\<forall>a buf. SectorRead ops d l a buf = (d, content a, 1)) \<and> (\<forall>a. length (content a) = 512) \<and>
     MediaDetect ops d l = (d, 1)"

definition sector_packets :: "u8 list \<Rightarrow> u8 list list" where
  "sector_packets buf = map (\<lambda>j. take 64 (drop (64 * j) buf)) [0..<8]"

text \<open>No entry of the IN endpoint belongs to the controller but the one last armed.\<close>

definition in_idle :: "'d msd_ctx \<Rightarrow> bool" where
  "in_idle s \<longleftrightarrow>
     usb_eps_ok (usb s) (USB_EP_IN s) (USB_EP_OUT s) \<and> (\<exists>a. USBMSDInHandle s = Some (USB_EP_IN s, IN_TO_HOST, a)) \<and>
     (\<forall>pp. USBMSDInHandle s \<noteq> Some (USB_EP_IN s, IN_TO_HOST, pp) \<longrightarrow>
        \<not> bdt_UOWN (BDT (usb s) (USB_EP_IN s, IN_TO_HOST, pp)))"

definition in_free :: "'d msd_ctx \<Rightarrow> bool" where
  "in_free s \<longleftrightarrow>
     usb_eps_ok (usb s) (USB_EP_IN s) (USB_EP_OUT s) \<and> (\<exists>a. USBMSDInHandle s = Some (USB_EP_IN s, IN_TO_HOST, a)) \<and>
     (\<forall>pp. \<not> bdt_UOWN (BDT (usb s) (USB_EP_IN s, IN_TO_HOST, pp)))"

lemma host_takes_usb: "\<exists>u. msd_host_takes s = s\<lparr>usb := u\<rparr>"
proof (cases "USBMSDInHandle s")
  case None
  then have "msd_host_takes s = s\<lparr>usb := usb s\<rparr>" by (simp add: msd_host_takes_def)
  then show ?thesis by blast
qed (auto simp: msd_host_takes_def)

lemma host_takes_free: "in_idle s \<Longrightarrow> in_free (msd_host_takes s)"
  by (auto simp: in_idle_def in_free_def msd_host_takes_def) (auto simp: bdt_upd_def split: if_splits)

lemma free_not_busy: "in_free s \<Longrightarrow> \<not> USBHandleBusy (usb s) (USBMSDInHandle s)"
  "in_free s \<Longrightarrow> \<not> USBHandleBusy (usb s) (USBGetNextHandle (usb s) (USB_EP_IN s) IN_TO_HOST)"
  by (auto simp: in_free_def USBHandleBusy_def USBGetNextHandle_def usb_eps_ok_def)

lemma free_idle: "in_free s \<Longrightarrow> in_idle s"
  by (simp add: in_free_def in_idle_def)

lemma tx_idle:
  assumes "in_free s"
  shows "in_idle (msd_TxOnePacket s b n)"
  using assms
  by (auto simp: in_free_def in_idle_def msd_TxOnePacket_def USBTransferOnePacket_def bdt_upd_def usb_eps_ok_def
      Let_def split: prod.splits)

lemma tx_fields [simp]:
  "usb_sent (msd_TxOnePacket s b n) = usb_sent s @ [msd_packet s b n]" "diskops (msd_TxOnePacket s b n) = diskops s"
  "userp (msd_TxOnePacket s b n) = userp s" "gblMediaPresent (msd_TxOnePacket s b n) = gblMediaPresent s"
  "LBA (msd_TxOnePacket s b n) = LBA s" "TransferLength (msd_TxOnePacket s b n) = TransferLength s"
  "msd_buffer (msd_TxOnePacket s b n) = msd_buffer s" "USB_EP_IN (msd_TxOnePacket s b n) = USB_EP_IN s"
  "USB_EP_OUT (msd_TxOnePacket s b n) = USB_EP_OUT s"
  by (simp_all add: msd_TxOnePacket_def split: prod.split)

lemma in_idle_simps [simp]:
  "in_idle (s\<lparr>ptrNextData := p\<rparr>) = in_idle s" "in_idle (s\<lparr>MSDReadState := v\<rparr>) = in_idle s"
  "in_idle (s\<lparr>MSDCommandState := c\<rparr>) = in_idle s" "in_idle (s\<lparr>MSD_State := t\<rparr>) = in_idle s"
  "in_idle (msd_set_residue s x) = in_idle s" "in_idle (msd_set_host_length s x) = in_idle s"
  by (simp_all add: in_idle_def msd_set_residue_def msd_set_host_length_def)

lemma in_free_simps [simp]:
  "in_free (s\<lparr>ptrNextData := p\<rparr>) = in_free s" "in_free (s\<lparr>MSDReadState := v\<rparr>) = in_free s"
  "in_free (s\<lparr>TransferLength := t\<rparr>) = in_free s" "in_free (s\<lparr>LBA := a\<rparr>) = in_free s"
  "in_free (s\<lparr>msd_buffer := b\<rparr>) = in_free s" "in_free (s\<lparr>userp := d\<rparr>) = in_free s"
  "in_free (s\<lparr>msd_csw := w\<rparr>) = in_free s"
  "in_free (msd_set_residue s x) = in_free s" "in_free (msd_set_host_length s x) = in_free s"
  by (simp_all add: in_free_def msd_set_residue_def msd_set_host_length_def)

lemma set_fields [simp]:
  "msd_csw (msd_set_host_length s x) = msd_csw s" "ptrNextData (msd_set_host_length s x) = ptrNextData s"
  "dCSWDataResidue (msd_csw (msd_set_residue s x)) = x" "ptrNextData (msd_set_residue s x) = ptrNextData s"
  "dCSWTag (msd_csw (msd_set_residue s x)) = dCSWTag (msd_csw s)"
  "dCSWSignature (msd_csw (msd_set_residue s x)) = dCSWSignature (msd_csw s)"
  "bCSWStatus (msd_csw (msd_set_residue s x)) = bCSWStatus (msd_csw s)"
  "msd_buffer (msd_set_residue s x) = msd_buffer s" "msd_buffer (msd_set_host_length s x) = msd_buffer s"
  "usb_sent (msd_set_residue s x) = usb_sent s" "usb_sent (msd_set_host_length s x) = usb_sent s"
  "LBA (msd_set_residue s x) = LBA s" "LBA (msd_set_host_length s x) = LBA s"
  "TransferLength (msd_set_residue s x) = TransferLength s" "TransferLength (msd_set_host_length s x) = TransferLength s"
  "diskops (msd_set_residue s x) = diskops s" "diskops (msd_set_host_length s x) = diskops s"
  "userp (msd_set_residue s x) = userp s" "userp (msd_set_host_length s x) = userp s"
  "gblMediaPresent (msd_set_residue s x) = gblMediaPresent s" "gblMediaPresent (msd_set_host_length s x) = gblMediaPresent s"
  "MSD_State (msd_set_residue s x) = MSD_State s" "MSD_State (msd_set_host_length s x) = MSD_State s"
  "MSDCommandState (msd_set_residue s x) = MSDCommandState s" "MSDCommandState (msd_set_host_length s x) = MSDCommandState s"
  "MSDReadState (msd_set_residue s x) = MSDReadState s" "MSDReadState (msd_set_host_length s x) = MSDReadState s"
  "bCBWLUN (gblCBW (msd_set_residue s x)) = bCBWLUN (gblCBW s)"
  "bCBWLUN (gblCBW (msd_set_host_length s x)) = bCBWLUN (gblCBW s)"
  by (simp_all add: msd_set_residue_def msd_set_host_length_def)

subsection \<open>The steps of a transfer\<close>

text \<open>A READ(10) command in progress on a present, initialised medium.\<close>

definition msd_reading :: "'d msd_diskops \<Rightarrow> 'd \<Rightarrow> u8 \<Rightarrow> u32 \<Rightarrow> 'd msd_ctx \<Rightarrow> bool" where
  "msd_reading ops d l tag s \<longleftrightarrow>
     diskops s = ops \<and> userp s = d \<and> bCBWLUN (gblCBW s) = l \<and> MSD_State s = MSD_DATA_IN \<and>
     MSDCommandState s = MSD_READ_10 \<and> gblMediaPresent s AND push_bit (unat l) 1 \<noteq> 0 \<and>
     dCSWSignature (msd_csw s) = MSD_VALID_CSW_SIGNATURE \<and> dCSWTag (msd_csw s) = tag \<and> bCSWStatus (msd_csw s) = 0 \<and>
     length (msd_buffer s) = 512"

lemma reading_usb [simp]: "msd_reading ops d l tag (s\<lparr>usb := u\<rparr>) = msd_reading ops d l tag s"
  by (simp add: msd_reading_def)

lemma reading_task:
  assumes "msd_reading ops d l tag s" and "disk_reads ops d l content"
  shows "USBDeluxeDevice_MSD_Tasks s =
    (if MSDReadState (MSDReadHandler s) = MSD_READ10_WAIT
     then (MSDReadHandler s)\<lparr>MSDCommandState := MSD_COMMAND_WAIT, MSD_State := MSD_SEND_CSW\<rparr>
     else if MSDCommandState (MSDReadHandler s) = MSD_COMMAND_WAIT
     then (MSDReadHandler s)\<lparr>MSD_State := MSD_SEND_CSW\<rparr> else MSDReadHandler s)"
proof -
  have e: "s\<lparr>userp := d\<rparr> = s" using assms(1) by (cases s) (simp add: msd_reading_def)
  have "USBDeluxeDevice_MSD_ProcessCommand s =
      (let s1 = MSDReadHandler s in if MSDReadState s1 = MSD_READ10_WAIT then s1\<lparr>MSDCommandState := MSD_COMMAND_WAIT\<rparr> else s1)"
    using assms
    by (simp add: USBDeluxeDevice_MSD_ProcessCommand_def disk_reads_def msd_reading_def Let_def
        USBDeluxeDevice_MSD_CurrentLUN_def USBDeluxeDevice_MSD_ProcessCommandMediaPresent_def e)
  then show ?thesis using assms(1) by (simp add: USBDeluxeDevice_MSD_Tasks_def msd_reading_def Let_def)
qed

text \<open>A packet of the sector.\<close>

lemma tx_packet_step:
  assumes "in_free s" and "dCSWDataResidue (msd_csw s) \<noteq> 0" and "msd_reading ops d l tag s"
  defines "s' \<equiv> msd_read10_tx_sector s"
  shows "msd_reading ops d l tag s'" "in_idle s'" "MSDReadState s' = MSD_READ10_TX_SECTOR"
    "dCSWDataResidue (msd_csw s') = dCSWDataResidue (msd_csw s) - 64" "ptrNextData s' = ptrNextData s + 64"
    "msd_buffer s' = msd_buffer s" "LBA s' = LBA s" "TransferLength s' = TransferLength s"
    "usb_sent s' = usb_sent s @ [take 64 (drop (unat (ptrNextData s)) (msd_buffer s))]"
proof -
  have nb: "\<not> USBHandleBusy (usb s) (USBMSDInHandle s)" using assms(1) by (rule free_not_busy)
  have i: "in_idle (msd_TxOnePacket (s\<lparr>MSDReadState := MSD_READ10_TX_PACKET\<rparr>) b 64)" for b
    using assms(1) by (intro tx_idle) simp
  show "msd_reading ops d l tag s'"
    using assms(2,3) nb by (simp add: s'_def msd_read10_tx_sector_def msd_read10_tx_packet_def Let_def msd_reading_def)
  show "in_idle s'" "MSDReadState s' = MSD_READ10_TX_SECTOR"
    "dCSWDataResidue (msd_csw s') = dCSWDataResidue (msd_csw s) - 64" "ptrNextData s' = ptrNextData s + 64"
    "msd_buffer s' = msd_buffer s" "LBA s' = LBA s" "TransferLength s' = TransferLength s"
    "usb_sent s' = usb_sent s @ [take 64 (drop (unat (ptrNextData s)) (msd_buffer s))]"
    using assms(2) nb i
    by (simp_all add: s'_def msd_read10_tx_sector_def msd_read10_tx_packet_def Let_def msd_packet_def)
qed

lemma reading_poll:
  assumes "msd_reading ops d l tag s" and "in_idle s"
  obtains u where "msd_poll s = USBDeluxeDevice_MSD_Tasks (s\<lparr>usb := u\<rparr>)" and "in_free (s\<lparr>usb := u\<rparr>)"
    and "msd_reading ops d l tag (s\<lparr>usb := u\<rparr>)"
proof -
  obtain u where u: "msd_host_takes s = s\<lparr>usb := u\<rparr>" using host_takes_usb by blast
  show ?thesis by (rule that[of u]) (use host_takes_free[OF assms(2)] assms(1) u in \<open>simp_all add: msd_poll_def\<close>)
qed

text \<open>The state of a transfer between two calls: read state, next block, blocks left, bytes left of this
  block, and the packets sent.\<close>

definition rd_state ::
  "'d msd_diskops \<Rightarrow> 'd \<Rightarrow> u8 \<Rightarrow> u32 \<Rightarrow> u8 \<Rightarrow> u32 \<Rightarrow> u16 \<Rightarrow> u32 \<Rightarrow> u8 list list \<Rightarrow> 'd msd_ctx \<Rightarrow> bool" where
  "rd_state ops d l tag st a n r sent s \<longleftrightarrow>
     msd_reading ops d l tag s \<and> in_idle s \<and> MSDReadState s = st \<and> LBA s = a \<and> TransferLength s = n \<and>
     dCSWDataResidue (msd_csw s) = r \<and> usb_sent s = sent"

lemma poll_packet:
  assumes "rd_state ops d l tag MSD_READ10_TX_SECTOR a n r sent s" and "disk_reads ops d l content" and "r \<noteq> 0"
  shows "rd_state ops d l tag MSD_READ10_TX_SECTOR a n (r - 64)
      (sent @ [take 64 (drop (unat (ptrNextData s)) (msd_buffer s))]) (msd_poll s)"
    and "ptrNextData (msd_poll s) = ptrNextData s + 64" and "msd_buffer (msd_poll s) = msd_buffer s"
proof -
  have R: "msd_reading ops d l tag s" "in_idle s" using assms(1) by (simp_all add: rd_state_def)
  obtain u where u: "msd_poll s = USBDeluxeDevice_MSD_Tasks (s\<lparr>usb := u\<rparr>)" "in_free (s\<lparr>usb := u\<rparr>)"
    "msd_reading ops d l tag (s\<lparr>usb := u\<rparr>)" by (rule reading_poll[OF R])
  let ?t = "s\<lparr>usb := u\<rparr>"
  have r: "dCSWDataResidue (msd_csw ?t) \<noteq> 0" using assms(1,3) by (simp add: rd_state_def)
  note T = tx_packet_step[OF u(2) r u(3)]
  have h: "MSDReadHandler ?t = msd_read10_tx_sector ?t" using assms(1) by (simp add: MSDReadHandler_def rd_state_def)
  have p: "msd_poll s = msd_read10_tx_sector ?t"
    using T(1,3) by (simp add: u(1) reading_task[OF u(3) assms(2)] h msd_reading_def)
  show "rd_state ops d l tag MSD_READ10_TX_SECTOR a n (r - 64)
      (sent @ [take 64 (drop (unat (ptrNextData s)) (msd_buffer s))]) (msd_poll s)"
    "ptrNextData (msd_poll s) = ptrNextData s + 64" "msd_buffer (msd_poll s) = msd_buffer s"
    using T assms(1) unfolding p by (simp_all add: rd_state_def)
qed

lemma poll_sector_end:
  assumes "rd_state ops d l tag MSD_READ10_TX_SECTOR a n 0 sent s" and "disk_reads ops d l content"
  shows "rd_state ops d l tag MSD_READ10_BLOCK a n 0 sent (msd_poll s)"
proof -
  have R: "msd_reading ops d l tag s" "in_idle s" using assms(1) by (simp_all add: rd_state_def)
  obtain u where u: "msd_poll s = USBDeluxeDevice_MSD_Tasks (s\<lparr>usb := u\<rparr>)" "in_free (s\<lparr>usb := u\<rparr>)"
    "msd_reading ops d l tag (s\<lparr>usb := u\<rparr>)" by (rule reading_poll[OF R])
  have h: "MSDReadHandler (s\<lparr>usb := u\<rparr>) = s\<lparr>usb := u, MSDReadState := MSD_READ10_BLOCK\<rparr>"
    using assms(1) by (simp add: MSDReadHandler_def rd_state_def msd_read10_tx_sector_def)
  have "in_idle (s\<lparr>usb := u\<rparr>)" by (rule free_idle[OF u(2)])
  then have "in_idle (s\<lparr>usb := u, MSDReadState := MSD_READ10_BLOCK\<rparr>)" by (simp only: in_idle_simps)
  then show ?thesis
    using assms(1) by (simp add: u(1) reading_task[OF u(3) assms(2)] h rd_state_def msd_reading_def)
qed

text \<open>A block: the sector is read and its first packet sent.\<close>

lemma block_step:
  assumes "in_free t" and "msd_reading ops d l tag t" and "disk_reads ops d l content" and "TransferLength t \<noteq> 0"
  defines "s' \<equiv> msd_read10_block t"
  shows "rd_state ops d l tag MSD_READ10_TX_SECTOR (LBA t + 1) (TransferLength t - 1) 448
      (usb_sent t @ [take 64 (content (LBA t))]) s'"
    and "ptrNextData s' = 64" and "msd_buffer s' = content (LBA t)"
proof -
  let ?t = "t\<lparr>TransferLength := TransferLength t - 1, MSDReadState := MSD_READ10_SECTOR\<rparr>"
  let ?s = "(msd_set_residue (?t\<lparr>userp := d, msd_buffer := content (LBA t), LBA := LBA t + 1\<rparr>) 512)
    \<lparr>ptrNextData := 0, MSDReadState := MSD_READ10_TX_SECTOR\<rparr>"
  have nb: "\<not> USBHandleBusy (usb t) (USBMSDInHandle t)" by (rule free_not_busy(1)[OF assms(1)])
  have D: "SectorRead ops d l (LBA t) (msd_buffer t) = (d, content (LBA t), 1)" "length (content (LBA t)) = 512"
    using assms(3) by (simp_all add: disk_reads_def)
  have s': "s' = msd_read10_tx_sector ?s"
    using assms(2,4) nb D(1)
    by (simp add: s'_def msd_read10_block_def msd_read10_sector_def msd_reading_def USBDeluxeDevice_MSD_CurrentLUN_def Let_def)
  have f: "in_free ?s" using assms(1) by simp
  have r: "msd_reading ops d l tag ?s" using assms(2) D(2) by (simp add: msd_reading_def)
  note T = tx_packet_step[OF f _ r, folded s']
  show "rd_state ops d l tag MSD_READ10_TX_SECTOR (LBA t + 1) (TransferLength t - 1) 448
      (usb_sent t @ [take 64 (content (LBA t))]) s'" "ptrNextData s' = 64" "msd_buffer s' = content (LBA t)"
    using T by (simp_all add: rd_state_def)
qed

lemma poll_block:
  assumes "rd_state ops d l tag MSD_READ10_BLOCK a n r sent s" and "disk_reads ops d l content" and "n \<noteq> 0"
  shows "rd_state ops d l tag MSD_READ10_TX_SECTOR (a + 1) (n - 1) 448 (sent @ [take 64 (content a)]) (msd_poll s)"
    and "ptrNextData (msd_poll s) = 64" and "msd_buffer (msd_poll s) = content a"
proof -
  have R: "msd_reading ops d l tag s" "in_idle s" using assms(1) by (simp_all add: rd_state_def)
  obtain u where u: "msd_poll s = USBDeluxeDevice_MSD_Tasks (s\<lparr>usb := u\<rparr>)" "in_free (s\<lparr>usb := u\<rparr>)"
    "msd_reading ops d l tag (s\<lparr>usb := u\<rparr>)" by (rule reading_poll[OF R])
  have n: "TransferLength (s\<lparr>usb := u\<rparr>) \<noteq> 0" using assms(1,3) by (simp add: rd_state_def)
  note B = block_step[OF u(2,3) assms(2) n]
  have h: "MSDReadHandler (s\<lparr>usb := u\<rparr>) = msd_read10_block (s\<lparr>usb := u\<rparr>)"
    using assms(1) by (simp add: MSDReadHandler_def rd_state_def)
  have p: "msd_poll s = msd_read10_block (s\<lparr>usb := u\<rparr>)"
    using B(1) by (simp add: u(1) reading_task[OF u(3) assms(2)] h rd_state_def msd_reading_def)
  show "rd_state ops d l tag MSD_READ10_TX_SECTOR (a + 1) (n - 1) 448 (sent @ [take 64 (content a)]) (msd_poll s)"
    "ptrNextData (msd_poll s) = 64" "msd_buffer (msd_poll s) = content a"
    using B assms(1) unfolding p by (simp_all add: rd_state_def)
qed

text \<open>The packets of a sector, one per call.\<close>

lemma poll_packets:
  assumes "rd_state ops d l tag MSD_READ10_TX_SECTOR a n 448 sent s" and "disk_reads ops d l content"
    and "ptrNextData s = 64" and "j \<le> 7"
  shows "rd_state ops d l tag MSD_READ10_TX_SECTOR a n (448 - 64 * of_nat j)
      (sent @ map (\<lambda>i. take 64 (drop (64 * i) (msd_buffer s))) [1..<Suc j]) ((msd_poll ^^ j) s) \<and>
    ptrNextData ((msd_poll ^^ j) s) = 64 + 64 * of_nat j \<and> msd_buffer ((msd_poll ^^ j) s) = msd_buffer s"
  using assms(4)
proof (induction j)
  case 0
  then show ?case using assms(1,3) by simp
next
  case (Suc j)
  then have IH: "rd_state ops d l tag MSD_READ10_TX_SECTOR a n (448 - 64 * of_nat j)
      (sent @ map (\<lambda>i. take 64 (drop (64 * i) (msd_buffer s))) [1..<Suc j]) ((msd_poll ^^ j) s)"
    "ptrNextData ((msd_poll ^^ j) s) = 64 + 64 * of_nat j" "msd_buffer ((msd_poll ^^ j) s) = msd_buffer s" by auto
  have j: "j \<in> {0, 1, 2, 3, 4, 5, 6}" using Suc.prems by auto
  then have nz: "448 - 64 * of_nat j \<noteq> (0 :: u32)" by auto
  have off: "unat (64 + 64 * of_nat j :: u16) = 64 * Suc j" using j by auto
  note P = poll_packet[OF IH(1) assms(2) nz]
  show ?case using P unfolding IH(2,3) off by (simp add: algebra_simps)
qed

lemma poll_sector:
  assumes "rd_state ops d l tag MSD_READ10_BLOCK a n r sent s" and "disk_reads ops d l content" and "n \<noteq> 0"
  shows "rd_state ops d l tag MSD_READ10_BLOCK (a + 1) (n - 1) 0 (sent @ sector_packets (content a)) ((msd_poll ^^ 9) s)"
proof -
  note B = poll_block[OF assms]
  have e: "(msd_poll ^^ 9) s = msd_poll ((msd_poll ^^ 7) (msd_poll s))"
    by (simp only: funpow_swap1[symmetric]) (simp add: eval_nat_numeral)
  have l: "[0..<8] = 0 # [1..<Suc 7]" by (simp add: upt_rec eval_nat_numeral)
  have "rd_state ops d l tag MSD_READ10_TX_SECTOR (a + 1) (n - 1) 0
      ((sent @ [take 64 (content a)]) @ map (\<lambda>i. take 64 (drop (64 * i) (content a))) [1..<Suc 7])
      ((msd_poll ^^ 7) (msd_poll s))"
    using poll_packets[OF B(1) assms(2) B(2), of 7] unfolding B(3) by simp
  from poll_sector_end[OF this assms(2)] show ?thesis unfolding e sector_packets_def l by simp
qed

lemma poll_sectors:
  assumes "rd_state ops d l tag MSD_READ10_BLOCK a (of_nat k) 0 sent s" and "disk_reads ops d l content"
    and "k < 65536"
  shows "rd_state ops d l tag MSD_READ10_BLOCK (a + of_nat k) 0 0
      (sent @ concat (map (\<lambda>i. sector_packets (content (a + of_nat i))) [0..<k])) ((msd_poll ^^ (9 * k)) s)"
  using assms(1,3)
proof (induction k arbitrary: a sent s)
  case (Suc k)
  have "unat (of_nat (Suc k) :: u16) = Suc k" using Suc.prems(2) by (simp only: unat_of_nat) simp
  then have nz: "(of_nat (Suc k) :: u16) \<noteq> 0" by (metis nat.distinct(1) unat_0)
  note S = poll_sector[OF Suc.prems(1) assms(2) nz]
  have "rd_state ops d l tag MSD_READ10_BLOCK (a + 1) (of_nat k) 0 (sent @ sector_packets (content a)) ((msd_poll ^^ 9) s)"
    using S by simp
  from Suc.IH[OF this] Suc.prems(2) have "rd_state ops d l tag MSD_READ10_BLOCK (a + 1 + of_nat k) 0 0
      ((sent @ sector_packets (content a)) @ concat (map (\<lambda>i. sector_packets (content (a + 1 + of_nat i))) [0..<k]))
      ((msd_poll ^^ (9 * k)) ((msd_poll ^^ 9) s))" by simp
  moreover have "(msd_poll ^^ (9 * Suc k)) s = (msd_poll ^^ (9 * k)) ((msd_poll ^^ 9) s)"
    by (simp add: funpow_add add.commute[of 9])
  moreover have "map (\<lambda>i. sector_packets (content (a + of_nat i))) [0..<Suc k] =
      sector_packets (content a) # map (\<lambda>i. sector_packets (content (a + 1 + of_nat i))) [0..<k]"
    by (subst upt_conv_Cons) (simp_all add: map_Suc_upt[symmetric] add.assoc del: upt_Suc)
  ultimately show ?case by (simp add: add.assoc)
qed simp

text \<open>The end of the transfer.\<close>

lemma poll_end:
  assumes "rd_state ops d l tag MSD_READ10_BLOCK a 0 0 sent s" and "disk_reads ops d l content"
  shows "MSD_State (msd_poll s) = MSD_SEND_CSW" "in_idle (msd_poll s)" "usb_sent (msd_poll s) = sent"
    "msd_csw (msd_poll s) = \<lparr>dCSWSignature = MSD_VALID_CSW_SIGNATURE, dCSWTag = tag, dCSWDataResidue = 0, bCSWStatus = 0\<rparr>"
proof -
  have R: "msd_reading ops d l tag s" "in_idle s" using assms(1) by (simp_all add: rd_state_def)
  obtain u where u: "msd_poll s = USBDeluxeDevice_MSD_Tasks (s\<lparr>usb := u\<rparr>)" "in_free (s\<lparr>usb := u\<rparr>)"
    "msd_reading ops d l tag (s\<lparr>usb := u\<rparr>)" by (rule reading_poll[OF R])
  have h: "MSDReadHandler (s\<lparr>usb := u\<rparr>) = s\<lparr>usb := u, MSDReadState := MSD_READ10_WAIT\<rparr>"
    using assms(1) by (simp add: MSDReadHandler_def rd_state_def msd_read10_block_def)
  have p: "msd_poll s = s\<lparr>usb := u, MSDReadState := MSD_READ10_WAIT, MSDCommandState := MSD_COMMAND_WAIT, MSD_State := MSD_SEND_CSW\<rparr>"
    by (simp add: u(1) reading_task[OF u(3) assms(2)] h)
  have "in_idle (s\<lparr>usb := u\<rparr>)" by (rule free_idle[OF u(2)])
  then show "in_idle (msd_poll s)" unfolding p by (simp only: in_idle_simps)
  show "MSD_State (msd_poll s) = MSD_SEND_CSW" "usb_sent (msd_poll s) = sent"
    "msd_csw (msd_poll s) = \<lparr>dCSWSignature = MSD_VALID_CSW_SIGNATURE, dCSWTag = tag, dCSWDataResidue = 0, bCSWStatus = 0\<rparr>"
    using assms(1) unfolding p by (simp_all add: rd_state_def msd_reading_def)
qed

lemma poll_csw:
  assumes "MSD_State s = MSD_SEND_CSW" and "in_idle s"
  shows "MSD_State (msd_poll s) = MSD_WAIT" "usb_sent (msd_poll s) = usb_sent s @ [csw_bytes (msd_csw s)]"
proof -
  obtain u where u: "msd_host_takes s = s\<lparr>usb := u\<rparr>" using host_takes_usb by blast
  have f: "in_free (s\<lparr>usb := u\<rparr>)" using host_takes_free[OF assms(2)] u by simp
  have nb: "\<not> USBHandleBusy u (USBGetNextHandle u (USB_EP_IN s) IN_TO_HOST)" using free_not_busy(2)[OF f] by simp
  have "length (csw_bytes (msd_csw s)) = 13" by (simp add: csw_bytes_def)
  then have "msd_packet (s\<lparr>usb := u\<rparr>) Buf_CSW 0x0D = csw_bytes (msd_csw s)" by (simp add: msd_packet_def)
  moreover have "usb_sent (msd_RxOnePacket t b) = usb_sent t" for t :: "'a msd_ctx" and b
    by (simp add: msd_RxOnePacket_def split: prod.split)
  ultimately show "MSD_State (msd_poll s) = MSD_WAIT" "usb_sent (msd_poll s) = usb_sent s @ [csw_bytes (msd_csw s)]"
    using assms(1) nb by (auto simp: msd_poll_def u USBDeluxeDevice_MSD_Tasks_def msd_task_send_csw_def Let_def)
qed

text \<open>The first call of the read handler prepares the transfer and goes on as for a block.\<close>

definition msd_read_start :: "'d msd_ctx \<Rightarrow> 'd msd_ctx" where
  "msd_read_start s = s\<lparr>LBA := msd_cb_lba s, TransferLength := msd_cb_length s, MSDReadState := MSD_READ10_BLOCK\<rparr>"

lemma poll_start:
  assumes "msd_reading ops d l tag s" and "disk_reads ops d l content" and "MSDReadState s = MSD_READ10_WAIT"
    and "dCBWDataTransferLength (gblCBW s) = ucast (msd_cb_length s) * 512"
  shows "msd_poll s = msd_poll (msd_read_start s)"
proof -
  obtain u where u: "msd_host_takes s = s\<lparr>usb := u\<rparr>" using host_takes_usb by blast
  have u': "msd_host_takes (msd_read_start s) = msd_read_start (s\<lparr>usb := u\<rparr>)"
    using u by (cases "USBMSDInHandle s")
      (auto simp: msd_host_takes_def msd_read_start_def msd_cb_lba_def msd_cb_length_def dest: arg_cong[where f = usb])
  let ?t = "s\<lparr>usb := u\<rparr>"
  have r: "msd_reading ops d l tag ?t" "msd_reading ops d l tag (msd_read_start ?t)"
    using assms(1) by (simp_all add: msd_reading_def msd_read_start_def)
  have "MSDCheckForErrorCases (?t\<lparr>LBA := msd_cb_lba ?t, TransferLength := msd_cb_length ?t\<rparr>)
      (ucast (msd_cb_length ?t) * 512) = (?t\<lparr>LBA := msd_cb_lba ?t, TransferLength := msd_cb_length ?t\<rparr>, 0)"
    using assms(1,4) by (simp add: MSDCheckForErrorCases_def msd_error_case_def msd_reading_def msd_cb_length_def Let_def)
  then have "MSDReadHandler ?t = MSDReadHandler (msd_read_start ?t)"
    using assms(3) by (simp add: MSDReadHandler_def msd_read10_wait_def msd_read_start_def Let_def)
  then have "USBDeluxeDevice_MSD_Tasks ?t = USBDeluxeDevice_MSD_Tasks (msd_read_start ?t)"
    unfolding reading_task[OF r(1) assms(2)] reading_task[OF r(2) assms(2)] by simp
  then show ?thesis unfolding msd_poll_def u u' by simp
qed

lemma read_ok:
  assumes "msd_reading ops d l tag s" and "disk_reads ops d l content" and "in_idle s"
    and "MSDReadState s = MSD_READ10_WAIT" and "dCSWDataResidue (msd_csw s) = 0"
    and "dCBWDataTransferLength (gblCBW s) = ucast (msd_cb_length s) * 512"
  defines "n \<equiv> unat (msd_cb_length s)"
  shows "MSD_State ((msd_poll ^^ (9 * n + 2)) s) = MSD_WAIT"
    and "usb_sent ((msd_poll ^^ (9 * n + 2)) s) =
      usb_sent s @ concat (map (\<lambda>i. sector_packets (content (msd_cb_lba s + of_nat i))) [0..<n]) @
      [csw_bytes \<lparr>dCSWSignature = MSD_VALID_CSW_SIGNATURE, dCSWTag = tag, dCSWDataResidue = 0, bCSWStatus = 0\<rparr>]"
proof -
  let ?b = "msd_read_start s"
  have i: "in_idle ?b" using assms(3) by (simp add: msd_read_start_def in_idle_def)
  have "rd_state ops d l tag MSD_READ10_BLOCK (msd_cb_lba s) (of_nat n) 0 (usb_sent s) ?b"
    using assms(1,5) i by (simp add: rd_state_def msd_reading_def msd_read_start_def n_def)
  from poll_sectors[OF this assms(2)] have
    S: "rd_state ops d l tag MSD_READ10_BLOCK (msd_cb_lba s + of_nat n) 0 0
      (usb_sent s @ concat (map (\<lambda>i. sector_packets (content (msd_cb_lba s + of_nat i))) [0..<n]))
      ((msd_poll ^^ (9 * n)) ?b)" using unat_u16[of "msd_cb_length s"] by (simp add: n_def)
  note E = poll_end[OF S assms(2)]
  note C = poll_csw[OF E(1,2)]
  have "(msd_poll ^^ (9 * n + 2)) s = (msd_poll ^^ (9 * n + 1)) (msd_poll s)"
    by (simp add: funpow_swap1 eval_nat_numeral)
  also have "\<dots> = (msd_poll ^^ (9 * n + 1)) (msd_poll ?b)"
    unfolding poll_start[OF assms(1,2,4,6)] ..
  also have "\<dots> = msd_poll (msd_poll ((msd_poll ^^ (9 * n)) ?b))" by (simp add: funpow_swap1)
  finally have "(msd_poll ^^ (9 * n + 2)) s = msd_poll (msd_poll ((msd_poll ^^ (9 * n)) ?b))" .
  then show "MSD_State ((msd_poll ^^ (9 * n + 2)) s) = MSD_WAIT"
    "usb_sent ((msd_poll ^^ (9 * n + 2)) s) =
      usb_sent s @ concat (map (\<lambda>i. sector_packets (content (msd_cb_lba s + of_nat i))) [0..<n]) @
      [csw_bytes \<lparr>dCSWSignature = MSD_VALID_CSW_SIGNATURE, dCSWTag = tag, dCSWDataResidue = 0, bCSWStatus = 0\<rparr>]"
    using C E(3,4) by simp_all
qed

text \<open>A valid command block wrapper for READ(10) starts such a transfer.\<close>

definition cbw_read10 :: "'d msd_ctx \<Rightarrow> bool" where
  "cbw_read10 s \<longleftrightarrow>
     (let c = cbw_of_bytes (msd_cbw s)
      in dCBWSignature c = MSD_VALID_CBW_SIGNATURE \<and> bCBWLUN c < nr_LUNs s \<and> bCBWCBLength c \<le> 0x10 \<and>
         0x01 \<le> bCBWCBLength c \<and> bCBWFlags c = 0x80 \<and> CBWCB c ! 0 = MSD_READ_10 \<and>
         dCBWDataTransferLength c = ucast (le_word [CBWCB c ! 8, CBWCB c ! 7] :: u16) * 512)"

lemma task_accepts:
  assumes "MSD_State s = MSD_WAIT" and "\<not> USBHandleBusy (usb s) (USBMSDOutHandle s)"
    and "USBHandleGetLength (usb s) (USBMSDOutHandle s) = 0x1F"
  defines "c \<equiv> cbw_of_bytes (msd_cbw s)"
  assumes "dCBWSignature c = MSD_VALID_CBW_SIGNATURE" and "bCBWLUN c < nr_LUNs s" and "bCBWCBLength c \<le> 0x10"
    and "0x01 \<le> bCBWCBLength c" and "bCBWFlags c AND 0x3F = 0"
  shows "USBDeluxeDevice_MSD_Tasks s = msd_accept_cbw (s\<lparr>gblCBW := c, MSDCBWValid := True\<rparr>)"
proof -
  have l: "int (unat (bCBWLUN c)) \<le> int (unat (nr_LUNs s)) - 1" using assms(6) by (simp add: word_less_def)
  show ?thesis
    using assms(1-3,5,7-9) l
    by (simp add: USBDeluxeDevice_MSD_Tasks_def msd_task_wait_def msd_cbw_meaningful_def c_def[symmetric] Let_def)
qed

lemma accept_read:
  assumes "MSD_State s = MSD_WAIT" and "\<not> USBHandleBusy (usb s) (USBMSDOutHandle s)"
    and "USBHandleGetLength (usb s) (USBMSDOutHandle s) = 0x1F" and "cbw_read10 s"
    and "gblMediaPresent s AND push_bit (unat (bCBWLUN (cbw_of_bytes (msd_cbw s)))) 1 \<noteq> 0"
    and "length (msd_buffer s) = 512" and "in_idle s"
  defines "c \<equiv> cbw_of_bytes (msd_cbw s)"
  shows "msd_reading (diskops s) (userp s) (bCBWLUN c) (dCBWTag c) (USBDeluxeDevice_MSD_Tasks s)"
    and "in_idle (USBDeluxeDevice_MSD_Tasks s)" and "MSDReadState (USBDeluxeDevice_MSD_Tasks s) = MSD_READ10_WAIT"
    and "dCSWDataResidue (msd_csw (USBDeluxeDevice_MSD_Tasks s)) = 0"
    and "gblCBW (USBDeluxeDevice_MSD_Tasks s) = c" and "usb_sent (USBDeluxeDevice_MSD_Tasks s) = usb_sent s"
proof -
  have f: "bCBWFlags c AND 0x3F = 0" "bCBWFlags c AND 0x80 \<noteq> 0" using assms(4) by (simp_all add: cbw_read10_def c_def Let_def)
  have "USBDeluxeDevice_MSD_Tasks s = msd_accept_cbw (s\<lparr>gblCBW := c, MSDCBWValid := True\<rparr>)"
    using task_accepts[OF assms(1-3)] assms(4) f(1) by (simp add: cbw_read10_def c_def Let_def)
  then show "msd_reading (diskops s) (userp s) (bCBWLUN c) (dCBWTag c) (USBDeluxeDevice_MSD_Tasks s)"
    "in_idle (USBDeluxeDevice_MSD_Tasks s)" "MSDReadState (USBDeluxeDevice_MSD_Tasks s) = MSD_READ10_WAIT"
    "dCSWDataResidue (msd_csw (USBDeluxeDevice_MSD_Tasks s)) = 0"
    "gblCBW (USBDeluxeDevice_MSD_Tasks s) = c" "usb_sent (USBDeluxeDevice_MSD_Tasks s) = usb_sent s"
    using assms(4-7) f
    by (auto simp: msd_accept_cbw_def msd_reading_def in_idle_def msd_sense_keys_def cbw_read10_def c_def[symmetric] Let_def)
qed

lemma read10_ok:
  assumes "MSD_State s = MSD_WAIT" and "\<not> USBHandleBusy (usb s) (USBMSDOutHandle s)"
    and "USBHandleGetLength (usb s) (USBMSDOutHandle s) = 0x1F" and "cbw_read10 s"
    and "gblMediaPresent s AND push_bit (unat (bCBWLUN (cbw_of_bytes (msd_cbw s)))) 1 \<noteq> 0"
    and "length (msd_buffer s) = 512" and "in_idle s"
  defines "c \<equiv> cbw_of_bytes (msd_cbw s)"
  assumes "disk_reads (diskops s) (userp s) (bCBWLUN c) content"
  defines "n \<equiv> unat (le_word [CBWCB c ! 8, CBWCB c ! 7] :: u16)"
    and "lba \<equiv> le_word [CBWCB c ! 5, CBWCB c ! 4, CBWCB c ! 3, CBWCB c ! 2]"
  shows "MSD_State ((msd_poll ^^ (9 * n + 2)) (USBDeluxeDevice_MSD_Tasks s)) = MSD_WAIT \<and>
    usb_sent ((msd_poll ^^ (9 * n + 2)) (USBDeluxeDevice_MSD_Tasks s)) =
      usb_sent s @ concat (map (\<lambda>i. sector_packets (content (lba + of_nat i))) [0..<n]) @
      [csw_bytes \<lparr>dCSWSignature = MSD_VALID_CSW_SIGNATURE, dCSWTag = dCBWTag c, dCSWDataResidue = 0, bCSWStatus = 0\<rparr>]"
proof -
  note A = accept_read[OF assms(1-7), folded c_def]
  have len: "dCBWDataTransferLength (gblCBW (USBDeluxeDevice_MSD_Tasks s)) =
      ucast (msd_cb_length (USBDeluxeDevice_MSD_Tasks s)) * 512"
    using assms(4) unfolding msd_cb_length_def A(5) by (simp add: cbw_read10_def c_def Let_def)
  have e: "msd_cb_lba (USBDeluxeDevice_MSD_Tasks s) = lba" "unat (msd_cb_length (USBDeluxeDevice_MSD_Tasks s)) = n"
    unfolding msd_cb_lba_def msd_cb_length_def A(5) n_def lba_def by simp_all
  from read_ok[OF A(1) assms(9) A(2-4) len] show ?thesis unfolding e A(6) by simp
qed

end
