(* ===== verification/MSD_Write.thy ===== *)
theory MSD_Write
  imports MSD_Read
begin

section \<open>Writing blocks to the mass storage function\<close>

text \<open>
  A WRITE(10) transfer: the host sends its next packet whenever the OUT endpoint is armed. One
  packet takes two calls of the task (arm, receive), a block eighteen. The number of bytes still
  expected is counted by the bytes received, the place in the buffer by packets: with packets that
  are not full the two come apart.
\<close>

text \<open>The host sends its next packet if the endpoint is armed, then the task runs. \<open>None\<close>: the packet
  has overwritten memory outside the buffer it was armed with.\<close>

definition msd_feed :: "u8 list list \<times> 'd msd_ctx \<Rightarrow> (u8 list list \<times> 'd msd_ctx) option" where
  "msd_feed x =
     (case x of (ps, s) \<Rightarrow>
        if ps \<noteq> [] \<and> USBHandleBusy (usb s) (USBMSDOutHandle s)
        then map_option (\<lambda>s'. (tl ps, USBDeluxeDevice_MSD_Tasks s')) (msd_host_sends (hd ps) s)
        else Some (ps, USBDeluxeDevice_MSD_Tasks s))"

primrec msd_feeds :: "nat \<Rightarrow> u8 list list \<times> 'd msd_ctx \<Rightarrow> (u8 list list \<times> 'd msd_ctx) option" where
  "msd_feeds 0 x = Some x"
| "msd_feeds (Suc k) x = Option.bind (msd_feed x) (msd_feeds k)"

lemma feeds_add: "msd_feeds (j + k) x = Option.bind (msd_feeds j x) (msd_feeds k)"
proof (induction j arbitrary: x)
  case (Suc j)
  then show ?case by (cases "msd_feed x") simp_all
qed simp

text \<open>A present medium that is not protected, on which every write succeeds.\<close>

definition disk_writes ::
  "'d msd_diskops \<Rightarrow> u8 \<Rightarrow> ('d \<Rightarrow> u32 \<Rightarrow> u8 list \<Rightarrow> 'd) \<Rightarrow> bool" where
  "disk_writes ops l write \<longleftrightarrow>
     (\<forall>d. MediaDetect ops d l = (d, 1) \<and> WriteProtectState ops d l = (d, 0) \<and>
        (\<forall>a buf f. SectorWrite ops d l a buf f = (write d a buf, 1)))"

definition out_free :: "'d msd_ctx \<Rightarrow> bool" where
  "out_free s \<longleftrightarrow> \<not> USBHandleBusy (usb s) (USBMSDOutHandle s)"

definition out_armed :: "'d msd_ctx \<Rightarrow> u16 \<Rightarrow> bool" where
  "out_armed s off \<longleftrightarrow>
     (case USBMSDOutHandle s of None \<Rightarrow> False
      | Some h \<Rightarrow> bdt_UOWN (BDT (usb s) h) \<and> \<not> bdt_BSTALL (BDT (usb s) h) \<and> bdt_CNT (BDT (usb s) h) = 64 \<and>
                 bdt_ADR (BDT (usb s) h) = Buf_Data off)"

lemma out_armed_state [simp]: "out_armed (s\<lparr>MSDWriteState := v\<rparr>) off = out_armed s off"
  by (simp add: out_armed_def split: option.split)

lemma armed_busy: "out_armed s off \<Longrightarrow> USBHandleBusy (usb s) (USBMSDOutHandle s)"
  by (cases "USBMSDOutHandle s") (simp_all add: out_armed_def USBHandleBusy_def)

definition msd_writing :: "'d msd_diskops \<Rightarrow> u8 \<Rightarrow> u32 \<Rightarrow> 'd msd_ctx \<Rightarrow> bool" where
  "msd_writing ops l tag s \<longleftrightarrow>
     diskops s = ops \<and> bCBWLUN (gblCBW s) = l \<and> MSD_State s = MSD_DATA_IN \<and> MSDCommandState s = MSD_WRITE_10 \<and>
     gblMediaPresent s AND push_bit (unat l) 1 \<noteq> 0 \<and>
     dCSWSignature (msd_csw s) = MSD_VALID_CSW_SIGNATURE \<and> dCSWTag (msd_csw s) = tag \<and> bCSWStatus (msd_csw s) = 0 \<and>
     length (msd_buffer s) = 512 \<and> in_idle s \<and> (\<exists>b. USBMSDOutHandle s = Some (USB_EP_OUT s, OUT_FROM_HOST, b))"

text \<open>The state of a transfer between two calls: write state, block, blocks left, bytes left of this
  block, place in the buffer, packets sent and medium.\<close>

definition wr_state ::
  "'d msd_diskops \<Rightarrow> u8 \<Rightarrow> u32 \<Rightarrow> u8 \<Rightarrow> u32 \<Rightarrow> u16 \<Rightarrow> u32 \<Rightarrow> u16 \<Rightarrow> u8 list list \<Rightarrow> 'd \<Rightarrow> 'd msd_ctx \<Rightarrow> bool" where
  "wr_state ops l tag st a n r off sent d s \<longleftrightarrow>
     msd_writing ops l tag s \<and> MSDWriteState s = st \<and> LBA s = a \<and> TransferLength s = n \<and>
     dCSWDataResidue (msd_csw s) = r \<and> ptrNextData s = off \<and> usb_sent s = sent \<and> userp s = d"

lemma writing_task:
  assumes "msd_writing ops l tag s" and "disk_writes ops l write"
  shows "USBDeluxeDevice_MSD_Tasks s =
    (if MSDWriteState (MSDWriteHandler s) = MSD_WRITE10_WAIT
     then (MSDWriteHandler s)\<lparr>MSDCommandState := MSD_COMMAND_WAIT, MSD_State := MSD_SEND_CSW\<rparr>
     else if MSDCommandState (MSDWriteHandler s) = MSD_COMMAND_WAIT
     then (MSDWriteHandler s)\<lparr>MSD_State := MSD_SEND_CSW\<rparr> else MSDWriteHandler s)"
proof -
  have e: "s\<lparr>userp := userp s\<rparr> = s" by (cases s) simp
  have "USBDeluxeDevice_MSD_ProcessCommand s =
      (let s1 = MSDWriteHandler s in if MSDWriteState s1 = MSD_WRITE10_WAIT then s1\<lparr>MSDCommandState := MSD_COMMAND_WAIT\<rparr> else s1)"
    using assms
    by (simp add: USBDeluxeDevice_MSD_ProcessCommand_def disk_writes_def msd_writing_def Let_def
        USBDeluxeDevice_MSD_CurrentLUN_def USBDeluxeDevice_MSD_ProcessCommandMediaPresent_def e)
  then show ?thesis using assms(1) by (simp add: USBDeluxeDevice_MSD_Tasks_def msd_writing_def Let_def)
qed

lemma rx_fields [simp]:
  "usb_sent (msd_RxOnePacket s b) = usb_sent s" "diskops (msd_RxOnePacket s b) = diskops s"
  "userp (msd_RxOnePacket s b) = userp s" "gblMediaPresent (msd_RxOnePacket s b) = gblMediaPresent s"
  "LBA (msd_RxOnePacket s b) = LBA s" "TransferLength (msd_RxOnePacket s b) = TransferLength s"
  "msd_buffer (msd_RxOnePacket s b) = msd_buffer s" "USB_EP_IN (msd_RxOnePacket s b) = USB_EP_IN s"
  "USB_EP_OUT (msd_RxOnePacket s b) = USB_EP_OUT s" "USBMSDInHandle (msd_RxOnePacket s b) = USBMSDInHandle s"
  by (simp_all add: msd_RxOnePacket_def split: prod.split)

lemma rx_arms:
  assumes "in_idle s"
  shows "in_idle (msd_RxOnePacket s b)" "\<exists>c. USBMSDOutHandle (msd_RxOnePacket s b) = Some (USB_EP_OUT s, OUT_FROM_HOST, c)"
    "USBHandleBusy (usb (msd_RxOnePacket s b)) (USBMSDOutHandle (msd_RxOnePacket s b))"
    "out_armed (msd_RxOnePacket s (Buf_Data off)) off"
proof -
  have ok: "usb_eps_ok (usb s) (USB_EP_IN s) (USB_EP_OUT s)" using assms by (simp add: in_idle_def)
  note T = transfer_out[OF ok, of b 64]
  show "in_idle (msd_RxOnePacket s b)"
    using T(1,4) assms by (auto simp: in_idle_def msd_RxOnePacket_def split: prod.splits)
  show "\<exists>c. USBMSDOutHandle (msd_RxOnePacket s b) = Some (USB_EP_OUT s, OUT_FROM_HOST, c)"
    using T(2) by (auto simp: msd_RxOnePacket_def split: prod.splits)
  show "USBHandleBusy (usb (msd_RxOnePacket s b)) (USBMSDOutHandle (msd_RxOnePacket s b))"
    using T(2) by (auto simp: msd_RxOnePacket_def split: prod.splits dest: transfer_busy(1))
  show "out_armed (msd_RxOnePacket s (Buf_Data off)) off"
    using transfer_out(2)[OF ok, of "Buf_Data off" 64]
    by (auto simp: msd_RxOnePacket_def out_armed_def USBHandleBusy_def split: prod.splits option.splits dest: transfer_busy)
qed

text \<open>Arming the endpoint for the next packet of the block.\<close>

lemma arm_step:
  assumes "msd_writing ops l tag s" and "out_free s" and "dCSWDataResidue (msd_csw s) \<noteq> 0"
  defines "s' \<equiv> msd_write10_rx_sector s"
  shows "msd_writing ops l tag s'" "out_armed s' (ptrNextData s)" "MSDWriteState s' = MSD_WRITE10_RX_PACKET"
    "LBA s' = LBA s" "TransferLength s' = TransferLength s" "dCSWDataResidue (msd_csw s') = dCSWDataResidue (msd_csw s)"
    "ptrNextData s' = ptrNextData s" "usb_sent s' = usb_sent s" "userp s' = userp s" "msd_buffer s' = msd_buffer s"
proof -
  have i: "in_idle s" using assms(1) by (simp add: msd_writing_def)
  note A = rx_arms[OF i]
  have s': "s' = (msd_RxOnePacket s (Buf_Data (ptrNextData s)))\<lparr>MSDWriteState := MSD_WRITE10_RX_PACKET\<rparr>"
    using assms(2,3) A(3) by (simp add: s'_def msd_write10_rx_sector_def msd_write10_rx_packet_def out_free_def word_greater_zero_iff)
  have "in_idle (msd_RxOnePacket s b\<lparr>MSDWriteState := v\<rparr>)" for b v using A(1) by (simp add: in_idle_def)
  then show "msd_writing ops l tag s'" using assms(1) A(2) unfolding s' by (simp add: msd_writing_def)
  show "out_armed s' (ptrNextData s)" using A(4) unfolding s' by simp
  show "MSDWriteState s' = MSD_WRITE10_RX_PACKET"
    "LBA s' = LBA s" "TransferLength s' = TransferLength s" "dCSWDataResidue (msd_csw s') = dCSWDataResidue (msd_csw s)"
    "ptrNextData s' = ptrNextData s" "usb_sent s' = usb_sent s" "userp s' = userp s" "msd_buffer s' = msd_buffer s"
    unfolding s' by simp_all
qed

lemma feed_free: "out_free s \<Longrightarrow> msd_feed (ps, s) = Some (ps, USBDeluxeDevice_MSD_Tasks s)"
  by (simp add: msd_feed_def out_free_def)

lemma feed_arm:
  assumes "wr_state ops l tag MSD_WRITE10_RX_SECTOR a n r off sent d s" and "out_free s" and "r \<noteq> 0"
    and "disk_writes ops l write"
  shows "\<exists>s'. msd_feed (ps, s) = Some (ps, s') \<and> wr_state ops l tag MSD_WRITE10_RX_PACKET a n r off sent d s' \<and>
    out_armed s' off \<and> msd_buffer s' = msd_buffer s"
proof -
  have w: "msd_writing ops l tag s" "dCSWDataResidue (msd_csw s) \<noteq> 0" using assms(1,3) by (simp_all add: wr_state_def)
  note A = arm_step[OF w(1) assms(2) w(2)]
  have h: "MSDWriteHandler s = msd_write10_rx_sector s" using assms(1) by (simp add: MSDWriteHandler_def wr_state_def)
  have "USBDeluxeDevice_MSD_Tasks s = msd_write10_rx_sector s"
    using A(1,3) by (simp add: writing_task[OF w(1) assms(4)] h msd_writing_def)
  then show ?thesis using A assms(1) feed_free[OF assms(2)] by (simp add: wr_state_def)
qed

text \<open>Receiving a packet: the bytes left go down by its length, the place goes up by 64.\<close>

lemma host_sends_armed:
  assumes "out_armed s off" and "length p \<le> 64" and "unat off + length p \<le> 512" and "length (msd_buffer s) = 512"
  obtains u where "msd_host_sends p s = Some (s\<lparr>msd_buffer := take (unat off) (msd_buffer s) @ p @
      drop (unat off + length p) (msd_buffer s), usb := u\<rparr>)"
    and "\<not> USBHandleBusy u (USBMSDOutHandle s)" and "USBHandleGetLength u (USBMSDOutHandle s) = of_nat (length p)"
    and "\<forall>e x. BDT u (e, IN_TO_HOST, x) = BDT (usb s) (e, IN_TO_HOST, x) \<or> USBMSDOutHandle s = Some (e, IN_TO_HOST, x)"
    and "pBDTEntryIn u = pBDTEntryIn (usb s)" "pBDTEntryOut u = pBDTEntryOut (usb s)"
proof -
  from assms(1) obtain h where h: "USBMSDOutHandle s = Some h" "bdt_UOWN (BDT (usb s) h)" "\<not> bdt_BSTALL (BDT (usb s) h)"
    "bdt_CNT (BDT (usb s) h) = 64" "bdt_ADR (BDT (usb s) h) = Buf_Data off"
    by (auto simp: out_armed_def split: option.splits)
  let ?u = "bdt_upd h (\<lambda>e. e\<lparr>bdt_UOWN := False, bdt_CNT := of_nat (length p)\<rparr>) (usb s)"
  show ?thesis
  proof (rule that[of ?u])
    show "msd_host_sends p s = Some (s\<lparr>msd_buffer := take (unat off) (msd_buffer s) @ p @
      drop (unat off + length p) (msd_buffer s), usb := ?u\<rparr>)"
      using h assms(2-4) by (simp add: msd_host_sends_def overwrite_def Let_def)
  qed (use h in \<open>auto simp: bdt_upd_def USBHandleBusy_def USBHandleGetLength_def\<close>)
qed

lemma feed_receive:
  assumes "wr_state ops l tag MSD_WRITE10_RX_PACKET a n r off sent d s" and "out_armed s off"
    and "length p \<le> 64" and "unat off + length p \<le> 512" and "disk_writes ops l write"
  shows "\<exists>s'. msd_feed (p # ps, s) = Some (ps, s') \<and>
    wr_state ops l tag MSD_WRITE10_RX_SECTOR a n (r - of_nat (length p)) (off + 64) sent d s' \<and> out_free s' \<and>
    msd_buffer s' = take (unat off) (msd_buffer s) @ p @ drop (unat off + length p) (msd_buffer s)"
proof -
  have w: "msd_writing ops l tag s" using assms(1) by (simp add: wr_state_def)
  then have len: "length (msd_buffer s) = 512" by (simp add: msd_writing_def)
  obtain u where u: "msd_host_sends p s = Some (s\<lparr>msd_buffer := take (unat off) (msd_buffer s) @ p @
      drop (unat off + length p) (msd_buffer s), usb := u\<rparr>)" "\<not> USBHandleBusy u (USBMSDOutHandle s)"
    "USBHandleGetLength u (USBMSDOutHandle s) = of_nat (length p)"
    "\<forall>e x. BDT u (e, IN_TO_HOST, x) = BDT (usb s) (e, IN_TO_HOST, x) \<or> USBMSDOutHandle s = Some (e, IN_TO_HOST, x)"
    "pBDTEntryIn u = pBDTEntryIn (usb s)" "pBDTEntryOut u = pBDTEntryOut (usb s)"
    by (rule host_sends_armed[OF assms(2-4) len])
  let ?t = "s\<lparr>msd_buffer := take (unat off) (msd_buffer s) @ p @ drop (unat off + length p) (msd_buffer s), usb := u\<rparr>"
  have oh: "USBMSDOutHandle s \<noteq> Some (USB_EP_IN s, IN_TO_HOST, x)" for x using w by (auto simp: msd_writing_def)
  have "BDT u (USB_EP_IN s, IN_TO_HOST, x) = BDT (usb s) (USB_EP_IN s, IN_TO_HOST, x)" for x
    using u(4) oh by blast
  then have "in_idle ?t"
    using w u(5,6) by (simp add: msd_writing_def in_idle_def usb_eps_ok_def)
  then have wt: "msd_writing ops l tag ?t" using w len assms(4) by (simp add: msd_writing_def)
  have n: "(ucast (of_nat (length p) :: u8) :: u32) = of_nat (length p)"
    using assms(3) by (simp add: word_unat_eq_iff unat_ucast_mod unat_of_nat)
  have h: "MSDWriteHandler ?t = msd_write10_rx_packet ?t" using assms(1) by (simp add: MSDWriteHandler_def wr_state_def)
  have r: "msd_write10_rx_packet ?t =
      (msd_set_residue (msd_set_host_length ?t (dCBWDataTransferLength (gblCBW s) - of_nat (length p)))
        (r - of_nat (length p)))\<lparr>ptrNextData := off + 64, MSDWriteState := MSD_WRITE10_RX_SECTOR\<rparr>"
    using u(2,3) n assms(1) by (simp add: msd_write10_rx_packet_def Let_def wr_state_def)
  have k: "USBDeluxeDevice_MSD_Tasks ?t = msd_write10_rx_packet ?t"
    using wt by (simp add: writing_task[OF wt assms(5)] h r msd_writing_def)
  have busy: "USBHandleBusy (usb s) (USBMSDOutHandle s)"
    by (rule armed_busy[OF assms(2)])
  have f: "msd_feed (p # ps, s) = Some (ps, msd_write10_rx_packet ?t)"
    using busy u(1) k by (simp add: msd_feed_def)
  have "wr_state ops l tag MSD_WRITE10_RX_SECTOR a n (r - of_nat (length p)) (off + 64) sent d (msd_write10_rx_packet ?t)"
    using assms(1) wt unfolding r
    by (simp add: wr_state_def msd_writing_def) (simp add: in_idle_def msd_set_residue_def msd_set_host_length_def)
  moreover have "out_free (msd_write10_rx_packet ?t)"
    using u(2) unfolding r by (simp add: out_free_def msd_set_residue_def msd_set_host_length_def)
  moreover have "msd_buffer (msd_write10_rx_packet ?t) = msd_buffer ?t" unfolding r by simp
  ultimately show ?thesis using f by simp
qed

lemma feeds_one [simp]: "Option.bind (msd_feed x) (msd_feeds 0) = msd_feed x"
  by (cases "msd_feed x") simp_all

lemma feeds_Suc: "msd_feed x = Some y \<Longrightarrow> msd_feeds (Suc k) x = msd_feeds k y"
  by simp

lemma feeds_seq: "msd_feeds j x = Some y \<Longrightarrow> msd_feeds (j + k) x = msd_feeds k y"
  by (simp add: feeds_add)

text \<open>A packet: armed in one call, received in the next.\<close>

lemma feed_packet:
  assumes "wr_state ops l tag MSD_WRITE10_RX_SECTOR a n r off sent d s" and "out_free s" and "r \<noteq> 0"
    and "length p \<le> 64" and "unat off + length p \<le> 512" and "disk_writes ops l write"
  shows "\<exists>s'. msd_feeds 2 (p # ps, s) = Some (ps, s') \<and>
    wr_state ops l tag MSD_WRITE10_RX_SECTOR a n (r - of_nat (length p)) (off + 64) sent d s' \<and> out_free s' \<and>
    msd_buffer s' = take (unat off) (msd_buffer s) @ p @ drop (unat off + length p) (msd_buffer s)"
proof -
  obtain t where t: "msd_feed (p # ps, s) = Some (p # ps, t)" "out_armed t off" "msd_buffer t = msd_buffer s"
    "wr_state ops l tag MSD_WRITE10_RX_PACKET a n r off sent d t"
    using feed_arm[OF assms(1-3,6), of "p # ps"] by auto
  from feed_receive[OF t(4,2) assms(4-6), of ps] t(1,3) show ?thesis by (simp add: eval_nat_numeral)
qed

lemma unat_off: "unat (of_nat (64 * j) :: u16) = 64 * j" if "j \<le> 8"
  using that by (simp only: unat_of_nat) simp

text \<open>Packets that do not complete the block, from packet \<open>i\<close> on.\<close>

lemma feed_packets:
  assumes "wr_state ops l tag MSD_WRITE10_RX_SECTOR a n r (of_nat (64 * i)) sent d s" and "out_free s"
    and "i + length ps \<le> 8" and "\<forall>p\<in>set ps. length p \<le> 64" and "disk_writes ops l write"
    and "\<forall>k<length ps. length (concat (take k ps)) < unat r"
  shows "\<exists>s'. msd_feeds (2 * length ps) (ps @ qs, s) = Some (qs, s') \<and>
    wr_state ops l tag MSD_WRITE10_RX_SECTOR a n (r - of_nat (length (concat ps))) (of_nat (64 * (i + length ps))) sent d s' \<and>
    out_free s' \<and>
    ((\<forall>p\<in>set ps. length p = 64) \<longrightarrow> msd_buffer s' = take (64 * i) (msd_buffer s) @ concat ps @ drop (64 * (i + length ps)) (msd_buffer s))"
  using assms(1-4,6)
proof (induction ps arbitrary: i r s)
  case Nil
  then show ?case by simp
next
  case (Cons p ps)
  have off: "unat (of_nat (64 * i) :: u16) = 64 * i" using Cons.prems(3) by (intro unat_off) simp
  have p: "length p \<le> 64" "64 * i + length p \<le> 512" using Cons.prems(3,4) by auto
  have lb: "length (msd_buffer s) = 512" using Cons.prems(1) by (simp add: wr_state_def msd_writing_def)
  have r: "r \<noteq> 0" using Cons.prems(5) by auto
  obtain t where t: "msd_feeds 2 (p # ps @ qs, s) = Some (ps @ qs, t)" "out_free t"
    "wr_state ops l tag MSD_WRITE10_RX_SECTOR a n (r - of_nat (length p)) (of_nat (64 * Suc i)) sent d t"
    "msd_buffer t = take (64 * i) (msd_buffer s) @ p @ drop (64 * i + length p) (msd_buffer s)"
    using feed_packet[OF Cons.prems(1,2) r p(1) _ assms(5), of "ps @ qs"] p(2) unfolding off by (auto simp: algebra_simps)
  have u: "unat (r - of_nat (length p)) = unat r - length p" if "length p < unat r"
  proof -
    have "unat (of_nat (length p) :: u32) = length p" using p(1) by (simp add: unat_of_nat)
    with that show ?thesis by (simp add: unat_sub word_le_nat_alt)
  qed
  have lt: "\<forall>k<length ps. length (concat (take k ps)) < unat (r - of_nat (length p))" if "ps \<noteq> []"
  proof -
    have A: "length p < unat r" using Cons.prems(5)[rule_format, of 1] that by simp
    have B: "length p + length (concat (take k ps)) < unat r" if "k < length ps" for k
      using Cons.prems(5)[rule_format, of "Suc k"] that by simp
    show ?thesis using u[OF A] B by (simp add: less_diff_conv add.commute)
  qed
  show ?case
  proof (cases "ps = []")
    case True
    then show ?thesis using t by (simp add: lb add.commute numeral_2_eq_2)
  next
    case False
    have lens: "Suc i + length ps \<le> 8" "\<forall>p\<in>set ps. length p \<le> 64" using Cons.prems(3,4) by auto
    from Cons.IH[OF t(3,2) lens] lt[OF False] obtain s' where
      s': "msd_feeds (2 * length ps) (ps @ qs, t) = Some (qs, s')" "out_free s'"
      "wr_state ops l tag MSD_WRITE10_RX_SECTOR a n (r - of_nat (length p) - of_nat (length (concat ps)))
        (of_nat (64 * (Suc i + length ps))) sent d s'"
      "(\<forall>p\<in>set ps. length p = 64) \<longrightarrow> msd_buffer s' = take (64 * Suc i) (msd_buffer t) @ concat ps @
        drop (64 * (Suc i + length ps)) (msd_buffer t)" by blast
    have "msd_feeds (2 * length (p # ps)) ((p # ps) @ qs, s) = Some (qs, s')"
      using feeds_seq[OF t(1), of "2 * length ps"] s'(1) by simp
    moreover have "wr_state ops l tag MSD_WRITE10_RX_SECTOR a n (r - of_nat (length (concat (p # ps))))
        (of_nat (64 * (i + length (p # ps)))) sent d s'" using s'(3) by (simp add: algebra_simps)
    moreover have "msd_buffer s' = take (64 * i) (msd_buffer s) @ concat (p # ps) @ drop (64 * (i + length (p # ps))) (msd_buffer s)"
      if "\<forall>q\<in>set (p # ps). length q = 64"
    proof -
      have "length p = 64" using that by simp
      then show ?thesis using s'(4) that t(4) lb Cons.prems(3) by (simp add: ac_simps)
    qed
    ultimately show ?thesis using s'(2) by blast
  qed
qed

text \<open>The end of a block: the sector is written and the next block is due.\<close>

lemma feed_sector_end:
  assumes "wr_state ops l tag MSD_WRITE10_RX_SECTOR a n 0 off sent d s" and "out_free s" and "disk_writes ops l write"
  shows "\<exists>s'. msd_feed (ps, s) = Some (ps, s') \<and> wr_state ops l tag MSD_WRITE10_SECTOR a n 0 off sent d s' \<and>
    out_free s' \<and> msd_buffer s' = msd_buffer s"
proof -
  have w: "msd_writing ops l tag s" using assms(1) by (simp add: wr_state_def)
  have e: "s\<lparr>userp := d\<rparr> = s" using assms(1) by (cases s) (simp add: wr_state_def)
  have "WriteProtectState (diskops s) (userp s) (USBDeluxeDevice_MSD_CurrentLUN s) = (d, 0)"
    using assms(1,3) w by (simp add: wr_state_def disk_writes_def msd_writing_def USBDeluxeDevice_MSD_CurrentLUN_def)
  then have h: "MSDWriteHandler s = s\<lparr>MSDWriteState := MSD_WRITE10_SECTOR\<rparr>"
    using assms(1) e by (simp add: MSDWriteHandler_def wr_state_def msd_write10_rx_sector_def Let_def)
  have "USBDeluxeDevice_MSD_Tasks s = s\<lparr>MSDWriteState := MSD_WRITE10_SECTOR\<rparr>"
    using w by (simp add: writing_task[OF w assms(3)] h msd_writing_def)
  then show ?thesis using assms(1,2) feed_free[OF assms(2)]
    by (simp add: wr_state_def msd_writing_def in_idle_def) (simp add: out_free_def)
qed

lemma feed_sector:
  assumes "wr_state ops l tag MSD_WRITE10_SECTOR a n r off sent d s" and "out_free s" and "disk_writes ops l write"
  shows "\<exists>s'. msd_feed (ps, s) = Some (ps, s') \<and>
    wr_state ops l tag MSD_WRITE10_BLOCK (a + 1) (n - 1) r off sent (write d a (msd_buffer s)) s' \<and> out_free s'"
proof -
  have w: "msd_writing ops l tag s" using assms(1) by (simp add: wr_state_def)
  let ?t = "s\<lparr>userp := write d a (msd_buffer s), LBA := a + 1, TransferLength := n - 1, MSDWriteState := MSD_WRITE10_BLOCK\<rparr>"
  have "SectorWrite (diskops s) (userp s) (USBDeluxeDevice_MSD_CurrentLUN s) (LBA s) (msd_buffer s) f =
      (write d a (msd_buffer s), 1)" for f
    using assms(1,3) w by (simp add: wr_state_def disk_writes_def msd_writing_def USBDeluxeDevice_MSD_CurrentLUN_def)
  then have h: "MSDWriteHandler s = ?t"
    using assms(1) w by (simp add: MSDWriteHandler_def wr_state_def msd_write10_sector_def msd_writing_def Let_def)
  have "USBDeluxeDevice_MSD_Tasks s = ?t"
    using w by (simp add: writing_task[OF w assms(3)] h msd_writing_def)
  then show ?thesis using assms(1,2) feed_free[OF assms(2)]
    by (simp add: wr_state_def msd_writing_def in_idle_def) (simp add: out_free_def)
qed

text \<open>The start of a block arms the endpoint for its first packet.\<close>

lemma block_arm:
  assumes "msd_writing ops l tag s" and "out_free s" and "TransferLength s \<noteq> 0"
  shows "wr_state ops l tag MSD_WRITE10_RX_PACKET (LBA s) (TransferLength s) 512 0 (usb_sent s) (userp s) (msd_write10_block s)"
    and "out_armed (msd_write10_block s) 0"
proof -
  let ?t = "msd_set_residue (s\<lparr>MSDWriteState := MSD_WRITE10_RX_SECTOR, ptrNextData := 0\<rparr>) 512"
  have w: "msd_writing ops l tag ?t" using assms(1) by (simp add: msd_writing_def) (simp add: msd_set_residue_def in_idle_def)
  have f: "out_free ?t" using assms(2) by (simp add: out_free_def msd_set_residue_def)
  have r: "dCSWDataResidue (msd_csw ?t) \<noteq> 0" by simp
  note A = arm_step[OF w f r]
  have e: "msd_write10_block s = msd_write10_rx_sector ?t" using assms(3) by (simp add: msd_write10_block_def)
  show "wr_state ops l tag MSD_WRITE10_RX_PACKET (LBA s) (TransferLength s) 512 0 (usb_sent s) (userp s) (msd_write10_block s)"
    unfolding e using A by (simp add: wr_state_def)
  show "out_armed (msd_write10_block s) 0" unfolding e using A(2) by simp
qed

lemma feed_block:
  assumes "wr_state ops l tag MSD_WRITE10_BLOCK a n r off sent d s" and "out_free s" and "n \<noteq> 0"
    and "disk_writes ops l write"
  shows "\<exists>s'. msd_feed (ps, s) = Some (ps, s') \<and> wr_state ops l tag MSD_WRITE10_RX_PACKET a n 512 0 sent d s' \<and> out_armed s' 0"
proof -
  have w: "msd_writing ops l tag s" "TransferLength s \<noteq> 0" using assms(1,3) by (simp_all add: wr_state_def)
  note B = block_arm[OF w(1) assms(2) w(2)]
  have h: "MSDWriteHandler s = msd_write10_block s" using assms(1) by (simp add: MSDWriteHandler_def wr_state_def)
  have "USBDeluxeDevice_MSD_Tasks s = msd_write10_block s"
    using B(1) by (simp add: writing_task[OF w(1) assms(4)] h wr_state_def msd_writing_def)
  then show ?thesis using B assms(1) feed_free[OF assms(2)] by (simp add: wr_state_def)
qed

text \<open>The packets of a block, from the call after the one that armed the first.\<close>

lemma feed_sector_packets:
  assumes "wr_state ops l tag MSD_WRITE10_RX_PACKET a n 512 0 sent d s" and "out_armed s 0"
    and "ps \<noteq> []" and "length ps \<le> 8" and "\<forall>p\<in>set ps. length p \<le> 64" and "disk_writes ops l write"
    and "\<forall>k<length ps. length (concat (take k ps)) < 512"
  shows "\<exists>s'. msd_feeds (2 * length ps - 1) (ps @ qs, s) = Some (qs, s') \<and>
    wr_state ops l tag MSD_WRITE10_RX_SECTOR a n (512 - of_nat (length (concat ps))) (of_nat (64 * length ps)) sent d s' \<and>
    out_free s' \<and>
    ((\<forall>p\<in>set ps. length p = 64) \<longrightarrow> msd_buffer s' = concat ps @ drop (64 * length ps) (msd_buffer s))"
proof -
  obtain p ps' where ps: "ps = p # ps'" using assms(3) by (cases ps) auto
  have len: "length (msd_buffer s) = 512" using assms(1) by (simp add: wr_state_def msd_writing_def)
  have p: "length p \<le> 64" "unat (0 :: u16) + length p \<le> 512" "\<forall>q\<in>set ps'. length q \<le> 64" using assms(5) unfolding ps by auto
  obtain t where t: "msd_feed (p # ps' @ qs, s) = Some (ps' @ qs, t)" "out_free t"
    "wr_state ops l tag MSD_WRITE10_RX_SECTOR a n (512 - of_nat (length p)) (of_nat (64 * 1)) sent d t"
    "msd_buffer t = p @ drop (length p) (msd_buffer s)"
    using feed_receive[OF assms(1,2) p(1,2) assms(6), of "ps' @ qs"] by auto
  have u: "unat (512 - of_nat (length p) :: u32) = 512 - length p"
  proof -
    have "unat (of_nat (length p) :: u32) = length p" using p(1) by (simp add: unat_of_nat)
    with p(1) show ?thesis by (simp add: unat_sub word_le_nat_alt)
  qed
  have k: "length (concat (take k ps')) < unat (512 - of_nat (length p) :: u32)" if "k < length ps'" for k
    using assms(7)[rule_format, of "Suc k"] that unfolding ps u by simp
  have l: "1 + length ps' \<le> 8" using assms(4) ps by simp
  obtain s' where s': "msd_feeds (2 * length ps') (ps' @ qs, t) = Some (qs, s')" "out_free s'"
    "wr_state ops l tag MSD_WRITE10_RX_SECTOR a n (512 - of_nat (length p) - of_nat (length (concat ps')))
       (of_nat (64 * (1 + length ps'))) sent d s'"
    "(\<forall>p\<in>set ps'. length p = 64) \<longrightarrow> msd_buffer s' = take (64 * 1) (msd_buffer t) @ concat ps' @ drop (64 * (1 + length ps')) (msd_buffer t)"
    using feed_packets[OF t(3,2) l p(3) assms(6), of qs] k by blast
  have n: "2 * length ps - 1 = 1 + 2 * length ps'" unfolding ps by simp
  have "msd_feeds (2 * length ps - 1) (ps @ qs, s) = Some (qs, s')"
    unfolding n using s'(1) t(1) ps by (simp del: msd_feeds.simps add: feeds_seq[of 1]) simp
  moreover have "msd_buffer s' = concat ps @ drop (64 * length ps) (msd_buffer s)" if "\<forall>p\<in>set ps. length p = 64"
    using s'(4) that t(4) len unfolding ps by (simp add: add.commute)
  moreover have "wr_state ops l tag MSD_WRITE10_RX_SECTOR a n (512 - of_nat (length (concat ps))) (of_nat (64 * length ps)) sent d s'"
    using s'(3) unfolding ps by (simp add: algebra_simps)
  ultimately show ?thesis using s'(2) by blast
qed

lemma length_concat_64: "\<forall>p\<in>set ps. length p = 64 \<Longrightarrow> length (concat ps) = 64 * length ps"
  by (induction ps) auto

lemma feed_whole_block:
  assumes "wr_state ops l tag MSD_WRITE10_RX_PACKET a n 512 0 sent d s" and "out_armed s 0"
    and "length ps = 8" and "\<forall>p\<in>set ps. length p = 64" and "disk_writes ops l write"
  shows "\<exists>s' off. msd_feeds 17 (ps @ qs, s) = Some (qs, s') \<and>
    wr_state ops l tag MSD_WRITE10_BLOCK (a + 1) (n - 1) 0 off sent (write d a (concat ps)) s' \<and> out_free s'"
proof -
  have L: "length (concat (take k ps)) = 64 * k" if "k \<le> 8" for k
  proof -
    have "\<forall>p\<in>set (take k ps). length p = 64" using assms(4) by (auto dest: in_set_takeD)
    from length_concat_64[OF this] show ?thesis using that assms(3) by simp
  qed
  have k: "\<forall>k<length ps. length (concat (take k ps)) < 512" using L assms(3) by simp
  have ps: "ps \<noteq> []" "length ps \<le> 8" "\<forall>p\<in>set ps. length p \<le> 64" using assms(3,4) by auto
  have c: "length (concat ps) = 512" using L[of 8] assms(3) by simp
  have len: "length (msd_buffer s) = 512" using assms(1) by (simp add: wr_state_def msd_writing_def)
  obtain t where t: "msd_feeds 15 (ps @ qs, s) = Some (qs, t)" "out_free t" "msd_buffer t = concat ps"
    "wr_state ops l tag MSD_WRITE10_RX_SECTOR a n 0 512 sent d t"
    using feed_sector_packets[OF assms(1,2) ps assms(5) k, of qs] assms(3,4) len unfolding c by auto
  obtain t' where t': "msd_feed (qs, t) = Some (qs, t')" "out_free t'" "msd_buffer t' = concat ps"
    "wr_state ops l tag MSD_WRITE10_SECTOR a n 0 512 sent d t'"
    using feed_sector_end[OF t(4,2) assms(5), of qs] t(3) by auto
  obtain s' where s': "msd_feed (qs, t') = Some (qs, s')" "out_free s'"
    "wr_state ops l tag MSD_WRITE10_BLOCK (a + 1) (n - 1) 0 512 sent (write d a (concat ps)) s'"
    using feed_sector[OF t'(4,2) assms(5), of qs] t'(3) by auto
  have "msd_feeds (15 + 2) (ps @ qs, s) = Some (qs, s')"
    unfolding feeds_seq[OF t(1)] using t'(1) s'(1) by (simp add: numeral_2_eq_2)
  then show ?thesis using s' by auto
qed

text \<open>The medium after blocks \<open>bs\<close> have been written from \<open>a\<close> on.\<close>

primrec disk_fill :: "('d \<Rightarrow> u32 \<Rightarrow> u8 list \<Rightarrow> 'd) \<Rightarrow> 'd \<Rightarrow> u32 \<Rightarrow> u8 list list \<Rightarrow> 'd" where
  "disk_fill write d a [] = d"
| "disk_fill write d a (b # bs) = disk_fill write (write d a b) (a + 1) bs"

lemma feed_blocks:
  assumes "wr_state ops l tag MSD_WRITE10_RX_PACKET a (of_nat (length bs)) 512 0 sent d s" and "out_armed s 0"
    and "bs \<noteq> []" and "length bs < 65536" and "\<forall>ps\<in>set bs. length ps = 8 \<and> (\<forall>p\<in>set ps. length p = 64)"
    and "disk_writes ops l write"
  shows "\<exists>s' a' off. msd_feeds (18 * length bs - 1) (concat bs, s) = Some ([], s') \<and>
    wr_state ops l tag MSD_WRITE10_BLOCK a' 0 0 off sent (disk_fill write d a (map concat bs)) s' \<and> out_free s'"
  using assms(1-5)
proof (induction bs arbitrary: a d s)
  case (Cons b bs)
  have b: "length b = 8" "\<forall>p\<in>set b. length p = 64" using Cons.prems(5) by auto
  obtain t off where t: "msd_feeds 17 (b @ concat bs, s) = Some (concat bs, t)" "out_free t"
    "wr_state ops l tag MSD_WRITE10_BLOCK (a + 1) (of_nat (length bs)) 0 off sent (write d a (concat b)) t"
    using feed_whole_block[OF Cons.prems(1,2) b assms(6), of "concat bs"] by auto
  show ?case
  proof (cases "bs = []")
    case True
    then show ?thesis using t by auto
  next
    case False
    have nz: "(of_nat (length bs) :: u16) \<noteq> 0"
    proof -
      have "unat (of_nat (length bs) :: u16) = length bs" using Cons.prems(4) by (simp add: unat_of_nat)
      with False show ?thesis by (metis length_0_conv unat_0)
    qed
    obtain t' where t': "msd_feed (concat bs, t) = Some (concat bs, t')" "out_armed t' 0"
      "wr_state ops l tag MSD_WRITE10_RX_PACKET (a + 1) (of_nat (length bs)) 512 0 sent (write d a (concat b)) t'"
      using feed_block[OF t(3,2) nz assms(6), of "concat bs"] by auto
    have lt: "length bs < 65536" "\<forall>ps\<in>set bs. length ps = 8 \<and> (\<forall>p\<in>set ps. length p = 64)" using Cons.prems(4,5) by auto
    obtain s' a' off' where s': "msd_feeds (18 * length bs - 1) (concat bs, t') = Some ([], s')" "out_free s'"
      "wr_state ops l tag MSD_WRITE10_BLOCK a' 0 0 off' sent (disk_fill write (write d a (concat b)) (a + 1) (map concat bs)) s'"
      using Cons.IH[OF t'(3,2) False lt] by blast
    have n: "18 * length (b # bs) - 1 = 17 + Suc (18 * length bs - 1)" using False by (cases bs) auto
    have "concat (b # bs) = b @ concat bs" by simp
    then have "msd_feeds (18 * length (b # bs) - 1) (concat (b # bs), s) = Some ([], s')"
      unfolding n by (simp only: feeds_seq[OF t(1)] feeds_Suc[OF t'(1)] s'(1))
    then show ?thesis using s'(2,3) by auto
  qed
qed simp

text \<open>The end of the transfer and the start of it.\<close>

lemma feed_end:
  assumes "wr_state ops l tag MSD_WRITE10_BLOCK a 0 0 off sent d s" and "out_free s" and "disk_writes ops l write"
  shows "\<exists>s'. msd_feed (ps, s) = Some (ps, s') \<and> MSD_State s' = MSD_SEND_CSW \<and> in_idle s' \<and> userp s' = d \<and>
    usb_sent s' = sent \<and> msd_csw s' = \<lparr>dCSWSignature = MSD_VALID_CSW_SIGNATURE, dCSWTag = tag, dCSWDataResidue = 0, bCSWStatus = 0\<rparr>"
proof -
  have w: "msd_writing ops l tag s" using assms(1) by (simp add: wr_state_def)
  have h: "MSDWriteHandler s = s\<lparr>MSDWriteState := MSD_WRITE10_WAIT\<rparr>"
    using assms(1) by (simp add: MSDWriteHandler_def wr_state_def msd_write10_block_def)
  have p: "USBDeluxeDevice_MSD_Tasks s =
      s\<lparr>MSDWriteState := MSD_WRITE10_WAIT, MSDCommandState := MSD_COMMAND_WAIT, MSD_State := MSD_SEND_CSW\<rparr>"
    by (simp add: writing_task[OF w assms(3)] h)
  have "in_idle (s\<lparr>MSDWriteState := MSD_WRITE10_WAIT\<rparr>)" using w by (simp add: msd_writing_def in_idle_def)
  then have "in_idle (USBDeluxeDevice_MSD_Tasks s)" unfolding p by (simp only: in_idle_simps)
  then show ?thesis using assms(1) feed_free[OF assms(2)] by (simp add: p wr_state_def msd_writing_def)
qed

definition msd_write_ready :: "'d msd_diskops \<Rightarrow> u8 \<Rightarrow> u32 \<Rightarrow> 'd msd_ctx \<Rightarrow> bool" where
  "msd_write_ready ops l tag s \<longleftrightarrow>
     msd_writing ops l tag (s\<lparr>MSD_State := MSD_DATA_IN\<rparr>) \<and> MSD_State s = MSD_DATA_OUT \<and> out_free s \<and>
     MSDWriteState s = MSD_WRITE10_WAIT \<and> msd_cb_length s \<noteq> 0 \<and>
     dCBWDataTransferLength (gblCBW s) = ucast (msd_cb_length s) * 512"

lemma feed_start:
  assumes "msd_write_ready ops l tag s" and "disk_writes ops l write"
  shows "\<exists>s'. msd_feed (ps, s) = Some (ps, s') \<and> out_armed s' 0 \<and>
    wr_state ops l tag MSD_WRITE10_RX_PACKET (msd_cb_lba s) (msd_cb_length s) 512 0 (usb_sent s) (userp s) s'"
proof -
  let ?t = "s\<lparr>LBA := msd_cb_lba s, TransferLength := msd_cb_length s, MSD_State := MSD_WRITE10_BLOCK\<rparr>"
  have w: "msd_writing ops l tag (s\<lparr>MSD_State := MSD_DATA_IN\<rparr>)" "MSD_State s = MSD_DATA_OUT" "MSDWriteState s = MSD_WRITE10_WAIT"
    using assms(1) by (simp_all add: msd_write_ready_def)
  have wt: "msd_writing ops l tag ?t" using w(1) by (simp add: msd_writing_def in_idle_def)
  have ft: "out_free ?t" "TransferLength ?t \<noteq> 0" using assms(1) by (simp_all add: msd_write_ready_def out_free_def)
  note B = block_arm[OF wt ft]
  have e: "t\<lparr>userp := userp t\<rparr> = t" for t :: "'a msd_ctx" by (cases t) simp
  let ?s1 = "s\<lparr>LBA := msd_cb_lba s, TransferLength := msd_cb_length s\<rparr>"
  have c: "MSDCheckForErrorCases ?s1 (ucast (msd_cb_length s) * 512) = (?s1, 0)"
    using assms(1) by (simp add: MSDCheckForErrorCases_def msd_error_case_def msd_write_ready_def msd_writing_def Let_def)
  have p: "WriteProtectState (diskops ?s1) (userp ?s1) (USBDeluxeDevice_MSD_CurrentLUN ?s1) = (userp ?s1, 0)"
    using assms(2) wt by (simp add: disk_writes_def msd_writing_def USBDeluxeDevice_MSD_CurrentLUN_def)
  have h: "MSDWriteHandler s = msd_write10_block ?t"
    using w(3) c p by (simp add: MSDWriteHandler_def msd_write10_wait_def Let_def e[of ?s1, simplified])
  have "USBDeluxeDevice_MSD_ProcessCommand s =
      (let s1 = MSDWriteHandler s in if MSDWriteState s1 = MSD_WRITE10_WAIT then s1\<lparr>MSDCommandState := MSD_COMMAND_WAIT\<rparr> else s1)"
    using assms(2) w(1)
    by (simp add: USBDeluxeDevice_MSD_ProcessCommand_def disk_writes_def msd_writing_def Let_def
        USBDeluxeDevice_MSD_CurrentLUN_def USBDeluxeDevice_MSD_ProcessCommandMediaPresent_def e)
  then have "USBDeluxeDevice_MSD_Tasks s = msd_write10_block ?t"
    using B(1) w(2) by (simp add: USBDeluxeDevice_MSD_Tasks_def h wr_state_def msd_writing_def Let_def)
  moreover have "out_free s" using assms(1) by (simp add: msd_write_ready_def)
  ultimately show ?thesis using B feed_free[of s ps] by simp
qed

lemma write_transfer_ok:
  assumes "msd_write_ready ops l tag s" and "disk_writes ops l write"
    and "\<forall>ps\<in>set bs. length ps = 8 \<and> (\<forall>p\<in>set ps. length p = 64)" and "length bs = unat (msd_cb_length s)"
  shows "\<exists>s'. msd_feeds (18 * length bs + 1) (concat bs, s) = Some ([], s') \<and> MSD_State (msd_poll s') = MSD_WAIT \<and>
    userp s' = disk_fill write (userp s) (msd_cb_lba s) (map concat bs) \<and>
    usb_sent (msd_poll s') = usb_sent s @
      [csw_bytes \<lparr>dCSWSignature = MSD_VALID_CSW_SIGNATURE, dCSWTag = tag, dCSWDataResidue = 0, bCSWStatus = 0\<rparr>]"
proof -
  have n: "of_nat (length bs) = msd_cb_length s" using assms(4) by simp
  have bs: "bs \<noteq> []" "length bs < 65536"
    using assms(1,4) unat_u16[of "msd_cb_length s"] by (auto simp: msd_write_ready_def unat_eq_zero)
  obtain t where t: "msd_feed (concat bs, s) = Some (concat bs, t)" "out_armed t 0"
    "wr_state ops l tag MSD_WRITE10_RX_PACKET (msd_cb_lba s) (of_nat (length bs)) 512 0 (usb_sent s) (userp s) t"
    using feed_start[OF assms(1,2), of "concat bs"] unfolding n by auto
  obtain u a off where u: "msd_feeds (18 * length bs - 1) (concat bs, t) = Some ([], u)" "out_free u"
    "wr_state ops l tag MSD_WRITE10_BLOCK a 0 0 off (usb_sent s) (disk_fill write (userp s) (msd_cb_lba s) (map concat bs)) u"
    using feed_blocks[OF t(3,2) bs assms(3,2)] by blast
  obtain s' where s': "msd_feed ([], u) = Some ([], s')" "MSD_State s' = MSD_SEND_CSW" "in_idle s'" "usb_sent s' = usb_sent s"
    "userp s' = disk_fill write (userp s) (msd_cb_lba s) (map concat bs)"
    "msd_csw s' = \<lparr>dCSWSignature = MSD_VALID_CSW_SIGNATURE, dCSWTag = tag, dCSWDataResidue = 0, bCSWStatus = 0\<rparr>"
    using feed_end[OF u(3,2) assms(2), of "[]"] by auto
  have n': "18 * length bs + 1 = Suc ((18 * length bs - 1) + Suc 0)" using bs(1) by (cases bs) auto
  have "msd_feeds (18 * length bs + 1) (concat bs, s) = Some ([], s')"
    unfolding n' by (simp only: feeds_Suc[OF t(1)] feeds_seq[OF u(1)] feeds_Suc[OF s'(1)] msd_feeds.simps(1))
  then show ?thesis using poll_csw[OF s'(2,3)] s'(4-6) by auto
qed

end
