(* ===== verification/MSD_Props.thy ===== *)
theory MSD_Props
  imports MSD_Write
begin

section \<open>What the mass storage function guarantees\<close>

text \<open>
  The properties of the mass storage function: the invariant of every reachable state, complete
  READ(10) and WRITE(10) transfers, the thirteen cases of the bulk-only transport, the treatment of
  invalid command blocks, and the places where the code goes wrong. The witnesses run on a device
  with one unit and a RAM disk.
\<close>

subsection \<open>A WRITE(10) command block\<close>

definition cbw_write10 :: "'d msd_ctx \<Rightarrow> bool" where
  "cbw_write10 s \<longleftrightarrow>
     (let c = cbw_of_bytes (msd_cbw s); n = le_word [CBWCB c ! 8, CBWCB c ! 7] :: u16
      in dCBWSignature c = MSD_VALID_CBW_SIGNATURE \<and> bCBWLUN c < nr_LUNs s \<and> bCBWCBLength c \<le> 0x10 \<and>
         0x01 \<le> bCBWCBLength c \<and> bCBWFlags c = 0x00 \<and> CBWCB c ! 0 = MSD_WRITE_10 \<and> n \<noteq> 0 \<and>
         dCBWDataTransferLength c = ucast n * 512)"

text \<open>A command block has been received for a unit whose medium is present.\<close>

definition cbw_received :: "'d msd_ctx \<Rightarrow> bool" where
  "cbw_received s \<longleftrightarrow>
     MSD_State s = MSD_WAIT \<and> \<not> USBHandleBusy (usb s) (USBMSDOutHandle s) \<and>
     USBHandleGetLength (usb s) (USBMSDOutHandle s) = 0x1F \<and>
     gblMediaPresent s AND push_bit (unat (bCBWLUN (cbw_of_bytes (msd_cbw s)))) 1 \<noteq> 0 \<and>
     length (msd_buffer s) = 512 \<and> in_idle s \<and> (\<exists>b. USBMSDOutHandle s = Some (USB_EP_OUT s, OUT_FROM_HOST, b))"

lemma accept_write:
  assumes "cbw_received s" and "cbw_write10 s"
  defines "c \<equiv> cbw_of_bytes (msd_cbw s)"
  shows "msd_write_ready (diskops s) (bCBWLUN c) (dCBWTag c) (USBDeluxeDevice_MSD_Tasks s)"
    and "gblCBW (USBDeluxeDevice_MSD_Tasks s) = c" and "usb_sent (USBDeluxeDevice_MSD_Tasks s) = usb_sent s"
    and "userp (USBDeluxeDevice_MSD_Tasks s) = userp s"
proof -
  have r: "MSD_State s = MSD_WAIT" "\<not> USBHandleBusy (usb s) (USBMSDOutHandle s)"
    "USBHandleGetLength (usb s) (USBMSDOutHandle s) = 0x1F" using assms(1) by (simp_all add: cbw_received_def)
  have t: "USBDeluxeDevice_MSD_Tasks s = msd_accept_cbw (s\<lparr>gblCBW := c, MSDCBWValid := True\<rparr>)"
    using task_accepts[OF r] assms(2) by (simp add: cbw_write10_def c_def Let_def)
  show "msd_write_ready (diskops s) (bCBWLUN c) (dCBWTag c) (USBDeluxeDevice_MSD_Tasks s)"
    "gblCBW (USBDeluxeDevice_MSD_Tasks s) = c" "usb_sent (USBDeluxeDevice_MSD_Tasks s) = usb_sent s"
    "userp (USBDeluxeDevice_MSD_Tasks s) = userp s"
    using assms(1,2) unfolding t
    by (auto simp: msd_accept_cbw_def msd_write_ready_def msd_writing_def in_idle_def msd_sense_keys_def cbw_write10_def
        cbw_received_def out_free_def msd_cb_length_def c_def[symmetric] Let_def)
qed

lemma write10_ok:
  assumes "cbw_received s" and "cbw_write10 s"
  defines "c \<equiv> cbw_of_bytes (msd_cbw s)"
  assumes "disk_writes (diskops s) (bCBWLUN c) write"
    and "\<forall>ps\<in>set bs. length ps = 8 \<and> (\<forall>p\<in>set ps. length p = 64)"
    and "length bs = unat (le_word [CBWCB c ! 8, CBWCB c ! 7] :: u16)"
  shows "\<exists>s'. msd_feeds (18 * length bs + 1) (concat bs, USBDeluxeDevice_MSD_Tasks s) = Some ([], s') \<and>
    MSD_State (msd_poll s') = MSD_WAIT \<and>
    userp s' = disk_fill write (userp s) (le_word [CBWCB c ! 5, CBWCB c ! 4, CBWCB c ! 3, CBWCB c ! 2]) (map concat bs) \<and>
    usb_sent (msd_poll s') = usb_sent s @
      [csw_bytes \<lparr>dCSWSignature = MSD_VALID_CSW_SIGNATURE, dCSWTag = dCBWTag c, dCSWDataResidue = 0, bCSWStatus = 0\<rparr>]"
proof -
  note A = accept_write[OF assms(1,2), folded c_def]
  have e: "msd_cb_lba (USBDeluxeDevice_MSD_Tasks s) = le_word [CBWCB c ! 5, CBWCB c ! 4, CBWCB c ! 3, CBWCB c ! 2]"
    "unat (msd_cb_length (USBDeluxeDevice_MSD_Tasks s)) = unat (le_word [CBWCB c ! 8, CBWCB c ! 7] :: u16)"
    unfolding msd_cb_lba_def msd_cb_length_def A(2) by simp_all
  from write_transfer_ok[OF A(1) assms(4,5)] assms(6) show ?thesis unfolding e A(3,4) by simp
qed

text \<open>The overrun: eight packets use up the buffer whatever their length.\<close>

lemma write_overrun:
  assumes "msd_write_ready ops l tag s" and "disk_writes ops l write"
    and "length ps = 8" and "\<forall>p\<in>set ps. length p \<le> 64" and "length (concat ps) < 512"
    and "p \<noteq> []" and "length p \<le> 64"
  shows "msd_feeds 18 (ps @ [p], s) = None"
proof -
  obtain t where t: "msd_feed (ps @ [p], s) = Some (ps @ [p], t)" "out_armed t 0"
    "wr_state ops l tag MSD_WRITE10_RX_PACKET (msd_cb_lba s) (msd_cb_length s) 512 0 (usb_sent s) (userp s) t"
    using feed_start[OF assms(1,2), of "ps @ [p]"] by auto
  have ne: "ps \<noteq> []" "length ps \<le> 8" using assms(3) by auto
  have k: "\<forall>k<length ps. length (concat (take k ps)) < 512"
  proof (intro allI impI)
    fix k
    have "concat ps = concat (take k ps) @ concat (drop k ps)" by (metis append_take_drop_id concat_append)
    then show "length (concat (take k ps)) < 512" using assms(5) by simp
  qed
  obtain u where u: "msd_feeds 15 (ps @ [p], t) = Some ([p], u)" "out_free u"
    "wr_state ops l tag MSD_WRITE10_RX_SECTOR (msd_cb_lba s) (msd_cb_length s) (512 - of_nat (length (concat ps))) 512
      (usb_sent s) (userp s) u"
    using feed_sector_packets[OF t(3,2) ne assms(4,2) k, of "[p]"] assms(3) by auto
  have "unat (of_nat (length (concat ps)) :: u32) = length (concat ps)" using assms(5) by (simp add: unat_of_nat)
  then have nz: "512 - of_nat (length (concat ps)) \<noteq> (0 :: u32)" using assms(5) by auto
  obtain v where v: "msd_feed ([p], u) = Some ([p], v)" "out_armed v 512"
    "wr_state ops l tag MSD_WRITE10_RX_PACKET (msd_cb_lba s) (msd_cb_length s) (512 - of_nat (length (concat ps))) 512
      (usb_sent s) (userp s) v"
    using feed_arm[OF u(3,2) nz assms(2), of "[p]"] by auto
  have "length (msd_buffer v) = 512" using v(3) by (simp add: wr_state_def msd_writing_def)
  then have "msd_host_sends p v = None"
    using v(2) assms(6,7) by (auto simp: msd_host_sends_def out_armed_def overwrite_def Let_def split: option.splits)
  then have w: "msd_feed ([p], v) = None" using armed_busy[OF v(2)] by (simp add: msd_feed_def)
  have n: "(18 :: nat) = Suc (15 + Suc (Suc 0))" by simp
  show ?thesis unfolding n by (simp only: feeds_Suc[OF t(1)] feeds_seq[OF u(1)] feeds_Suc[OF v(1)]) (simp add: w)
qed

subsection \<open>INQUIRY\<close>

lemma process_present:
  assumes "MediaDetect (diskops s) (userp s) (bCBWLUN (gblCBW s)) = (userp s, 1)"
    and "gblMediaPresent s AND push_bit (unat (bCBWLUN (gblCBW s))) 1 \<noteq> 0"
  shows "USBDeluxeDevice_MSD_ProcessCommand s = USBDeluxeDevice_MSD_ProcessCommandMediaPresent s"
proof -
  have e: "s\<lparr>userp := userp s\<rparr> = s" by (cases s) simp
  show ?thesis using assms by (simp add: USBDeluxeDevice_MSD_ProcessCommand_def USBDeluxeDevice_MSD_CurrentLUN_def Let_def e)
qed

text \<open>The padding loop keeps what is left of the data and clears the rest of the packet.\<close>

lemma pad_frame: "\<exists>t b. msd_pad is s = s\<lparr>TransferLength := t, msd_buffer := b\<rparr>"
proof (induction "is" arbitrary: s)
  case Nil
  have "s = s\<lparr>TransferLength := TransferLength s, msd_buffer := msd_buffer s\<rparr>" by (cases s) simp
  then show ?case by (metis msd_pad.simps(1))
next
  case (Cons i "is")
  obtain t b where "msd_pad is (s\<lparr>TransferLength := TransferLength s - 1\<rparr>) =
    s\<lparr>TransferLength := TransferLength s - 1\<rparr>\<lparr>TransferLength := t, msd_buffer := b\<rparr>" using Cons by blast
  moreover obtain t' b' where "msd_pad is (s\<lparr>msd_buffer := (msd_buffer s)[i := 0]\<rparr>) =
    s\<lparr>msd_buffer := (msd_buffer s)[i := 0]\<rparr>\<lparr>TransferLength := t', msd_buffer := b'\<rparr>" using Cons by blast
  ultimately show ?case by (cases "TransferLength s = 0") auto
qed

lemma pad_buffer:
  assumes "n \<le> length (msd_buffer s)" and "i \<le> n"
  shows "msd_buffer (msd_pad [i..<n] s) = take (min n (i + unat (TransferLength s))) (msd_buffer s) @
      replicate (n - min n (i + unat (TransferLength s))) 0 @ drop n (msd_buffer s)"
  using assms
proof (induction "n - i" arbitrary: i s)
  case (Suc k)
  let ?t = "if TransferLength s \<noteq> 0 then s\<lparr>TransferLength := TransferLength s - 1\<rparr> else s\<lparr>msd_buffer := (msd_buffer s)[i := 0]\<rparr>"
  have i: "i < n" "[i..<n] = i # [Suc i..<n]" using Suc(2) by (simp_all add: upt_conv_Cons)
  have l: "k = n - Suc i" "n \<le> length (msd_buffer ?t)" "Suc i \<le> n" using Suc(2,3) i by auto
  note IH = Suc(1)[OF l]
  show ?case
  proof (cases "TransferLength s = 0")
    case False
    then have "unat (TransferLength s - 1) = unat (TransferLength s) - 1" "unat (TransferLength s) \<noteq> 0"
      by (simp_all add: unat_minus_one unat_eq_zero)
    then have e: "unat (TransferLength s) = Suc (unat (TransferLength s - 1))" by simp
    then show ?thesis using IH False by (simp add: i(2) e)
  next
    case True
    have "take (Suc i) ((msd_buffer s)[i := 0]) = take i (msd_buffer s) @ [0]"
      using i(1) Suc.prems(1) by (simp add: take_Suc_conv_app_nth)
    moreover have "replicate (n - i) (0 :: u8) = 0 # replicate (n - Suc i) 0"
      using i(1) by (metis Suc_diff_Suc replicate_Suc)
    ultimately show ?thesis using IH True i(1) by (simp add: i(2))
  qed
qed simp

text \<open>One packet of a response: the data, then zeros.\<close>

lemma response_packet:
  assumes "in_free s" and "dCBWDataTransferLength (gblCBW s) \<le> 64" and "length (msd_buffer s) = 512"
  defines "n \<equiv> unat (dCBWDataTransferLength (gblCBW s))"
  shows "usb_sent (msd_do_response s) =
      usb_sent s @ [take (min n (unat (TransferLength s))) (msd_buffer s) @ replicate (n - unat (TransferLength s)) 0]"
    and "MSDCommandState (msd_do_response s) = MSD_COMMAND_WAIT" and "msd_csw (msd_do_response s) = msd_csw s"
    and "in_idle (msd_do_response s)" and "MSD_State (msd_do_response s) = MSD_State s"
proof -
  let ?hl = "dCBWDataTransferLength (gblCBW s)"
  let ?n = "if 64 \<le> ?hl then 64 else ucast ?hl :: u8"
  let ?s1 = "msd_set_host_length s (if 64 \<le> ?hl then ?hl - 64 else 0)"
  have n64: "n \<le> 64" using assms(2) by (simp add: n_def word_le_nat_alt)
  have un: "unat ?n = n"
  proof (cases "64 \<le> ?hl")
    case True
    then have "?hl = 64" using assms(2) by simp
    then show ?thesis by (simp add: n_def)
  next
    case False
    then show ?thesis using n64 by (simp add: n_def unat_ucast_mod)
  qed
  have hl0: "(if 64 \<le> ?hl then ?hl - 64 else 0) = 0" using assms(2) by simp
  have nb: "\<not> USBHandleBusy (usb s) (USBMSDInHandle s)" by (rule free_not_busy(1)[OF assms(1)])
  have uc: "unat (ucast ?n :: u16) = n" using un n64 by (simp add: unat_ucast_mod)
  let ?s2 = "if ucast ?n \<le> TransferLength ?s1 then ?s1\<lparr>TransferLength := TransferLength ?s1 - ucast ?n\<rparr>
    else msd_pad [0..<unat ?n] ?s1"
  obtain t b where p: "msd_pad [0..<unat ?n] ?s1 = ?s1\<lparr>TransferLength := t, msd_buffer := b\<rparr>" using pad_frame by blast
  have b: "take n (msd_buffer ?s2) = take (min n (unat (TransferLength s))) (msd_buffer s) @ replicate (n - unat (TransferLength s)) 0"
  proof (cases "ucast ?n \<le> TransferLength s")
    case True
    then have "n \<le> unat (TransferLength s)" using uc by (simp add: word_le_nat_alt)
    then show ?thesis using True by simp
  next
    case False
    then have "unat (TransferLength s) < n" using uc by (simp add: word_le_nat_alt)
    then show ?thesis using False pad_buffer[of n ?s1 0] n64 assms(3) un by (simp add: min_def)
  qed
  have f: "in_free ?s2" "usb_sent ?s2 = usb_sent s" "msd_csw ?s2 = msd_csw s" "gblCBW ?s2 = gblCBW ?s1" "MSD_State ?s2 = MSD_State s"
    using assms(1) p by (auto simp: in_free_def msd_set_host_length_def)
  have r: "msd_do_response s = (msd_TxOnePacket ?s2 (Buf_Data 0) ?n)\<lparr>MSDCommandState := MSD_COMMAND_WAIT\<rparr>"
    using nb f(4) hl0 by (simp add: msd_do_response_def Let_def) (simp add: msd_set_host_length_def)
  show "usb_sent (msd_do_response s) =
      usb_sent s @ [take (min n (unat (TransferLength s))) (msd_buffer s) @ replicate (n - unat (TransferLength s)) 0]"
    unfolding r b[symmetric] using f(2) un by (simp add: msd_packet_def)
  show "MSDCommandState (msd_do_response s) = MSD_COMMAND_WAIT" "msd_csw (msd_do_response s) = msd_csw s"
    "MSD_State (msd_do_response s) = MSD_State s"
    unfolding r using f by simp_all
  show "in_idle (msd_do_response s)" unfolding r using tx_idle[OF f(1)] by simp
qed

text \<open>The command: the data is put in front of the buffer, its length and the residue are computed.\<close>

definition cbw_inquiry :: "'d msd_ctx \<Rightarrow> bool" where
  "cbw_inquiry s \<longleftrightarrow>
     (let c = cbw_of_bytes (msd_cbw s)
      in dCBWSignature c = MSD_VALID_CBW_SIGNATURE \<and> bCBWLUN c < nr_LUNs s \<and> bCBWCBLength c \<le> 0x10 \<and>
         0x01 \<le> bCBWCBLength c \<and> bCBWFlags c = 0x80 \<and> CBWCB c ! 0 = MSD_INQUIRY \<and>
         0 < dCBWDataTransferLength c \<and> dCBWDataTransferLength c \<le> 64 \<and>
         dCBWDataTransferLength c = ucast (le_word [CBWCB c ! 4, CBWCB c ! 3] :: u16))"

lemma inquiry_data_simps [simp]:
  "msd_inquiry_data (s\<lparr>TransferLength := t\<rparr>) = msd_inquiry_data s" "msd_inquiry_data (s\<lparr>msd_csw := w\<rparr>) = msd_inquiry_data s"
  "msd_inquiry_data (s\<lparr>usb := u\<rparr>) = msd_inquiry_data s"
  by (simp_all add: msd_inquiry_data_def)

lemma do_inquiry:
  assumes "\<not> MSDHostNoData s" and "MSD_State s = MSD_DATA_IN" and "MSDCommandState s = MSD_INQUIRY"
  defines "h \<equiv> dCBWDataTransferLength (gblCBW s)"
  assumes "h = ucast (le_word [CBWCB (gblCBW s) ! 4, CBWCB (gblCBW s) ! 3] :: u16)" and "h \<le> 64"
  shows "\<exists>t. unat t = min (unat h) 36 \<and> msd_do_inquiry s = s\<lparr>TransferLength := t, msd_buffer := msd_inquiry_data s @ drop 36 (msd_buffer s),
      msd_csw := (msd_csw s)\<lparr>dCSWDataResidue := h - ucast t\<rparr>, MSDCommandState := MSD_COMMAND_RESPONSE\<rparr>"
proof -
  obtain l :: u16 where l: "le_word [CBWCB (gblCBW s) ! 4, CBWCB (gblCBW s) ! 3] = l" by blast
  note [simp del] = le_word.simps
  let ?s = "s\<lparr>TransferLength := l\<rparr>"
  have hl: "dCBWDataTransferLength (gblCBW s) = ucast l" using assms(5) h_def l by simp
  have c: "MSDCheckForErrorCases ?s (ucast l) = (?s, 0)"
    using assms(1-3) hl by (simp add: MSDCheckForErrorCases_def msd_error_case_def Let_def)
  have "unat (ucast l :: u32) = unat l" for l :: u16 using unat_u16[of l] by (simp add: unat_ucast_mod)
  then have ul: "unat h = unat l" using assms(5) l by simp
  have uu: "(ucast (ucast l :: u32) :: u16) = l"
    using unat_u16[of l] by (simp add: word_unat_eq_iff unat_ucast_mod)
  show ?thesis
  proof (cases "l < 36")
    case True
    then have "(ucast l :: u32) < 36" using ul assms(5) l by (simp add: word_less_nat_alt)
    then have "msd_do_inquiry s = s\<lparr>TransferLength := l, msd_buffer := msd_inquiry_data s @ drop 36 (msd_buffer s),
      msd_csw := (msd_csw s)\<lparr>dCSWDataResidue := h - ucast l\<rparr>, MSDCommandState := MSD_COMMAND_RESPONSE\<rparr>"
      using assms(1) c hl h_def
      by (simp add: uu msd_do_inquiry_def MSDComputeDeviceInAndResidue_def msd_put_def length_inquiry Let_def msd_set_residue_def l)
    moreover have "unat l = min (unat h) 36" using True ul by (simp add: word_less_nat_alt)
    ultimately show ?thesis by blast
  next
    case False
    then have g: "\<not> (ucast l :: u32) < 36" using ul assms(5) l by (simp add: word_less_nat_alt)
    have t: "(if 36 < l then 36 else l) = 36" using False by auto
    have "msd_do_inquiry s = s\<lparr>TransferLength := 36, msd_buffer := msd_inquiry_data s @ drop 36 (msd_buffer s),
      msd_csw := (msd_csw s)\<lparr>dCSWDataResidue := h - ucast (36 :: u16)\<rparr>, MSDCommandState := MSD_COMMAND_RESPONSE\<rparr>"
      using assms(1) c hl h_def g t
      by (cases "36 < l") (simp_all add: msd_do_inquiry_def MSDComputeDeviceInAndResidue_def msd_put_def length_inquiry Let_def msd_set_residue_def l)
    moreover have "unat (36 :: u16) = min (unat h) 36" using False ul by (simp add: word_less_nat_alt)
    ultimately show ?thesis by blast
  qed
qed

lemma host_takes_accept:
  "msd_host_takes (s\<lparr>gblCBW := c\<rparr>) = (msd_host_takes s)\<lparr>gblCBW := c\<rparr>"
  by (simp add: msd_host_takes_def split: option.split)

lemma inquiry_ok:
  assumes "cbw_received s" and "cbw_inquiry s"
  defines "c \<equiv> cbw_of_bytes (msd_cbw s)"
  assumes "MediaDetect (diskops s) (userp s) (bCBWLUN c) = (userp s, 1)"
  defines "h \<equiv> unat (dCBWDataTransferLength c)"
  shows "MSD_State ((msd_poll ^^ 3) (USBDeluxeDevice_MSD_Tasks s)) = MSD_WAIT \<and>
    usb_sent ((msd_poll ^^ 3) (USBDeluxeDevice_MSD_Tasks s)) =
      usb_sent s @ [take h (msd_inquiry_data s) @ replicate (h - 36) 0,
        csw_bytes \<lparr>dCSWSignature = MSD_VALID_CSW_SIGNATURE, dCSWTag = dCBWTag c, dCSWDataResidue = of_nat (h - 36), bCSWStatus = 0\<rparr>]"
proof -
  have r: "MSD_State s = MSD_WAIT" "\<not> USBHandleBusy (usb s) (USBMSDOutHandle s)"
    "USBHandleGetLength (usb s) (USBMSDOutHandle s) = 0x1F" "length (msd_buffer s) = 512" "in_idle s"
    "gblMediaPresent s AND push_bit (unat (bCBWLUN c)) 1 \<noteq> 0" using assms(1) by (simp_all add: cbw_received_def c_def)
  note q = assms(2)[unfolded cbw_inquiry_def Let_def, folded c_def]
  define s1 where "s1 = USBDeluxeDevice_MSD_Tasks s"
  have t: "s1 = msd_accept_cbw (s\<lparr>gblCBW := c, MSDCBWValid := True\<rparr>)"
    using task_accepts[OF r(1-3)] q by (simp add: s1_def c_def)
  have s1: "in_idle s1" "MSD_State s1 = MSD_DATA_IN" "MSDCommandState s1 = MSD_INQUIRY" "\<not> MSDHostNoData s1" "gblCBW s1 = c"
    "length (msd_buffer s1) = 512" "usb_sent s1 = usb_sent s" "userp s1 = userp s" "diskops s1 = diskops s"
    "msd_inquiry_data s1 = msd_inquiry_data s" "gblMediaPresent s1 = gblMediaPresent s"
    "msd_csw s1 = \<lparr>dCSWSignature = MSD_VALID_CSW_SIGNATURE, dCSWTag = dCBWTag c, dCSWDataResidue = 0, bCSWStatus = 0\<rparr>"
    using r q unfolding t by (auto simp: msd_accept_cbw_def in_idle_def msd_sense_keys_def msd_inquiry_data_def Let_def)
  obtain u where u: "msd_host_takes s1 = s1\<lparr>usb := u\<rparr>" using host_takes_usb by blast
  define s2 where "s2 = msd_poll s1"
  have f: "in_idle (s1\<lparr>usb := u\<rparr>)" using host_takes_free[OF s1(1)] free_idle u by metis
  obtain tl where tl: "unat tl = min h 36" and i: "msd_do_inquiry (s1\<lparr>usb := u\<rparr>) = s1\<lparr>usb := u, TransferLength := tl,
      msd_buffer := msd_inquiry_data s @ drop 36 (msd_buffer s1),
      msd_csw := (msd_csw s1)\<lparr>dCSWDataResidue := dCBWDataTransferLength c - ucast tl\<rparr>, MSDCommandState := MSD_COMMAND_RESPONSE\<rparr>"
    using do_inquiry[of "s1\<lparr>usb := u\<rparr>"] s1(2-5,10) q by (auto simp: h_def simp del: le_word.simps)
  have s2: "s2 = msd_do_inquiry (s1\<lparr>usb := u\<rparr>)"
    using assms(4) r(6) s1(2,3,5,8,9,11) i
    by (simp add: s2_def msd_poll_def u USBDeluxeDevice_MSD_Tasks_def process_present
        USBDeluxeDevice_MSD_ProcessCommandMediaPresent_def Let_def)
  have i2: "in_idle s2" using f unfolding s2 i by (simp add: in_idle_def)
  obtain v where v: "msd_host_takes s2 = s2\<lparr>usb := v\<rparr>" using host_takes_usb by blast
  have f2: "in_free (s2\<lparr>usb := v\<rparr>)" using host_takes_free[OF i2] v by simp
  have cs: "dCBWDataTransferLength (gblCBW (s2\<lparr>usb := v\<rparr>)) \<le> 64" "length (msd_buffer (s2\<lparr>usb := v\<rparr>)) = 512"
    unfolding s2 i using q[THEN conjunct2, THEN conjunct2, THEN conjunct2, THEN conjunct2, THEN conjunct2, THEN conjunct2,
      THEN conjunct2, THEN conjunct1] s1(5,6) by (simp_all add: length_inquiry)
  note R = response_packet[OF f2 cs]
  define s3 where "s3 = msd_poll s2"
  have e2: "MSD_State s2 = MSD_DATA_IN" "MSDCommandState s2 = MSD_COMMAND_RESPONSE" "gblCBW s2 = c" "userp s2 = userp s"
    "diskops s2 = diskops s" "gblMediaPresent s2 = gblMediaPresent s" using s1 by (simp_all add: s2 i)
  have s3: "s3 = (msd_do_response (s2\<lparr>usb := v\<rparr>))\<lparr>MSD_State := MSD_SEND_CSW\<rparr>"
    using assms(4) r(6) e2 R(2)
    by (simp add: s3_def msd_poll_def v USBDeluxeDevice_MSD_Tasks_def process_present
        USBDeluxeDevice_MSD_ProcessCommandMediaPresent_def Let_def)
  have e3: "in_idle s3" "MSD_State s3 = MSD_SEND_CSW" "msd_csw s3 = msd_csw s2"
    "usb_sent s3 = usb_sent s @ [take h (msd_inquiry_data s) @ replicate (h - 36) 0]"
    using R tl s1(5,7) unfolding s3 by (simp_all add: s2 i h_def length_inquiry min_def)
  have p: "unat (dCBWDataTransferLength c - ucast tl) = h - 36"
  proof -
    have "unat (ucast tl :: u32) = min h 36" using tl unat_u16[of tl] by (simp add: unat_ucast_mod)
    then show ?thesis by (auto simp: h_def unat_sub_if_size)
  qed
  then have d: "dCBWDataTransferLength c - ucast tl = of_nat (h - 36)" unfolding p[symmetric] by simp
  have "(msd_poll ^^ 3) s1 = msd_poll s3" by (simp add: s3_def s2_def eval_nat_numeral)
  then show ?thesis
    using poll_csw[OF e3(2,1)] e3(3,4) s1(12) unfolding s1_def[symmetric] by (simp add: s2 i d)
qed

subsection \<open>Command blocks that are not accepted, and one that should not be\<close>

lemma cbw_rejected:
  assumes "MSD_State s = MSD_WAIT" and "\<not> USBHandleBusy (usb s) (USBMSDOutHandle s)"
  defines "c \<equiv> cbw_of_bytes (msd_cbw s)"
  assumes "\<not> (USBHandleGetLength (usb s) (USBMSDOutHandle s) = 0x1F \<and> dCBWSignature c = MSD_VALID_CBW_SIGNATURE \<and>
      bCBWLUN c < nr_LUNs s \<and> 0x01 \<le> bCBWCBLength c \<and> bCBWCBLength c \<le> 0x10 \<and> bCBWFlags c AND 0x3F = 0)"
  defines "s' \<equiv> USBDeluxeDevice_MSD_Tasks s"
  shows "usb_stalled (usb s') (USB_EP_IN s) IN_TO_HOST \<and> usb_stalled (usb s') (USB_EP_OUT s) OUT_FROM_HOST \<and>
    MSD_State s' = MSD_WAIT \<and> usb_sent s' = usb_sent s \<and> userp s' = userp s \<and> gblSenseData s' = gblSenseData s \<and>
    msd_csw s' = msd_csw s"
proof -
  have L: "int (unat (bCBWLUN c)) \<le> int (unat (nr_LUNs s)) - 1 \<longleftrightarrow> bCBWLUN c < nr_LUNs s"
    by (auto simp: word_less_def)
  let ?v = "USBHandleGetLength (usb s) (USBMSDOutHandle s) = 0x1F \<and> dCBWSignature c = MSD_VALID_CBW_SIGNATURE"
  have t: "s' = (if ?v then (if msd_cbw_meaningful (s\<lparr>gblCBW := c, MSDCBWValid := True\<rparr>)
        then msd_accept_cbw (s\<lparr>gblCBW := c, MSDCBWValid := True\<rparr>)
        else msd_stall_out (msd_stall_in (s\<lparr>gblCBW := c, MSDCBWValid := True\<rparr>)))
      else (msd_stall_out (msd_stall_in (s\<lparr>gblCBW := c\<rparr>)))\<lparr>MSDCBWValid := False\<rparr>)"
    using assms(1,2) by (simp add: s'_def USBDeluxeDevice_MSD_Tasks_def msd_task_wait_def c_def[symmetric] Let_def)
  have m: "\<not> (?v \<and> msd_cbw_meaningful (s\<lparr>gblCBW := c, MSDCBWValid := True\<rparr>))"
    using assms(4) L by (simp add: msd_cbw_meaningful_def)
  have "s' = (if ?v then msd_stall_out (msd_stall_in (s\<lparr>gblCBW := c, MSDCBWValid := True\<rparr>))
      else (msd_stall_out (msd_stall_in (s\<lparr>gblCBW := c\<rparr>)))\<lparr>MSDCBWValid := False\<rparr>)"
    using t m by (simp split: if_splits)
  then show ?thesis using assms(1) by (cases ?v) (simp_all add: msd_stall_out_def msd_stall_in_def stall_ok)
qed

definition cbw_internal :: "'d msd_ctx \<Rightarrow> bool" where
  "cbw_internal s \<longleftrightarrow>
     (let c = cbw_of_bytes (msd_cbw s)
      in dCBWSignature c = MSD_VALID_CBW_SIGNATURE \<and> bCBWLUN c < nr_LUNs s \<and> bCBWCBLength c \<le> 0x10 \<and>
         0x01 \<le> bCBWCBLength c \<and> bCBWFlags c = 0x80 \<and> CBWCB c ! 0 = MSD_COMMAND_RESPONSE \<and>
         0 < dCBWDataTransferLength c \<and> dCBWDataTransferLength c \<le> 64)"

lemma internal_ok:
  assumes "cbw_received s" and "cbw_internal s"
  defines "c \<equiv> cbw_of_bytes (msd_cbw s)"
  assumes "MediaDetect (diskops s) (userp s) (bCBWLUN c) = (userp s, 1)"
  defines "h \<equiv> unat (dCBWDataTransferLength c)"
  assumes "h \<le> unat (TransferLength s)"
  shows "usb_sent ((msd_poll ^^ 2) (USBDeluxeDevice_MSD_Tasks s)) = usb_sent s @ [take h (msd_buffer s),
        csw_bytes \<lparr>dCSWSignature = MSD_VALID_CSW_SIGNATURE, dCSWTag = dCBWTag c, dCSWDataResidue = 0, bCSWStatus = 0\<rparr>]"
proof -
  have r: "MSD_State s = MSD_WAIT" "\<not> USBHandleBusy (usb s) (USBMSDOutHandle s)"
    "USBHandleGetLength (usb s) (USBMSDOutHandle s) = 0x1F" "length (msd_buffer s) = 512" "in_idle s"
    "gblMediaPresent s AND push_bit (unat (bCBWLUN c)) 1 \<noteq> 0" using assms(1) by (simp_all add: cbw_received_def c_def)
  note q = assms(2)[unfolded cbw_internal_def Let_def, folded c_def]
  define s1 where "s1 = USBDeluxeDevice_MSD_Tasks s"
  have t: "s1 = msd_accept_cbw (s\<lparr>gblCBW := c, MSDCBWValid := True\<rparr>)"
    using task_accepts[OF r(1-3)] q by (simp add: s1_def c_def)
  have s1: "in_idle s1" "MSD_State s1 = MSD_DATA_IN" "MSDCommandState s1 = MSD_COMMAND_RESPONSE" "gblCBW s1 = c"
    "msd_buffer s1 = msd_buffer s" "usb_sent s1 = usb_sent s" "userp s1 = userp s" "diskops s1 = diskops s"
    "TransferLength s1 = TransferLength s" "gblMediaPresent s1 = gblMediaPresent s"
    "msd_csw s1 = \<lparr>dCSWSignature = MSD_VALID_CSW_SIGNATURE, dCSWTag = dCBWTag c, dCSWDataResidue = 0, bCSWStatus = 0\<rparr>"
    using r q unfolding t by (auto simp: msd_accept_cbw_def in_idle_def msd_sense_keys_def Let_def)
  obtain v where v: "msd_host_takes s1 = s1\<lparr>usb := v\<rparr>" using host_takes_usb by blast
  have f: "in_free (s1\<lparr>usb := v\<rparr>)" using host_takes_free[OF s1(1)] v by simp
  have cs: "dCBWDataTransferLength (gblCBW (s1\<lparr>usb := v\<rparr>)) \<le> 64" "length (msd_buffer (s1\<lparr>usb := v\<rparr>)) = 512"
    using q s1(4,5) r(4) by simp_all
  note R = response_packet[OF f cs]
  define s2 where "s2 = msd_poll s1"
  have s2: "s2 = (msd_do_response (s1\<lparr>usb := v\<rparr>))\<lparr>MSD_State := MSD_SEND_CSW\<rparr>"
    using assms(4) r(6) s1(2,3,4,7,8,10) R(2)
    by (simp add: s2_def msd_poll_def v USBDeluxeDevice_MSD_Tasks_def process_present
        USBDeluxeDevice_MSD_ProcessCommandMediaPresent_def Let_def)
  have e: "in_idle s2" "MSD_State s2 = MSD_SEND_CSW" "msd_csw s2 = msd_csw s1" "usb_sent s2 = usb_sent s @ [take h (msd_buffer s)]"
    using R s1(4-6,9) assms(6) unfolding s2 by (simp_all add: h_def min_def)
  have "(msd_poll ^^ 2) s1 = msd_poll s2" by (simp add: s2_def eval_nat_numeral)
  then show ?thesis using poll_csw[OF e(2,1)] e(3,4) s1(11) unfolding s1_def[symmetric] by simp
qed

subsection \<open>The thirteen cases of the bulk-only transport\<close>

text \<open>The host and the device each expect no data, data to the host or data to the device.\<close>

datatype bot_dir = Dir_none | Dir_in | Dir_out

fun bot_case :: "bot_dir \<times> u32 \<Rightarrow> bot_dir \<times> u32 \<Rightarrow> nat" where
  "bot_case (Dir_none, h) (Dir_none, d) = 1"
| "bot_case (Dir_none, h) (Dir_in, d) = 2"
| "bot_case (Dir_none, h) (Dir_out, d) = 3"
| "bot_case (Dir_in, h) (Dir_none, d) = 4"
| "bot_case (Dir_in, h) (Dir_in, d) = (if d < h then 5 else if d = h then 6 else 7)"
| "bot_case (Dir_in, h) (Dir_out, d) = 8"
| "bot_case (Dir_out, h) (Dir_none, d) = 9"
| "bot_case (Dir_out, h) (Dir_in, d) = 10"
| "bot_case (Dir_out, h) (Dir_out, d) = (if d < h then 11 else if d = h then 12 else 13)"

text \<open>The groups of cases the code treats alike.\<close>

definition bot_group :: "nat \<Rightarrow> u8" where
  "bot_group k = (if k \<in> {1, 6, 12} then 0 else if k \<in> {2, 3} then 1 else if k \<in> {4, 5} then 2
     else if k \<in> {7, 8} then 3 else if k \<in> {9, 11} then 4 else 5)"

definition bot_host :: "'d msd_ctx \<Rightarrow> bot_dir" where
  "bot_host s = (if dCBWDataTransferLength (gblCBW s) = 0 then Dir_none
     else if MSD_State s = MSD_DATA_IN then Dir_in else Dir_out)"

definition bot_device :: "'d msd_ctx \<Rightarrow> u32 \<Rightarrow> bot_dir" where
  "bot_device s n = (if n = 0 then Dir_none else if MSDCommandState s = MSD_WRITE_10 then Dir_out else Dir_in)"

lemma error_case_bot:
  assumes "MSD_State s = MSD_DATA_IN \<or> MSD_State s = MSD_DATA_OUT"
    and "MSDHostNoData s = (dCBWDataTransferLength (gblCBW s) = 0)"
  shows "msd_error_case s n = bot_group (bot_case (bot_host s, dCBWDataTransferLength (gblCBW s)) (bot_device s n, n)) \<longleftrightarrow>
    \<not> (dCBWDataTransferLength (gblCBW s) = 0 \<and> n \<noteq> 0 \<and> (MSD_State s = MSD_DATA_IN) = (MSDCommandState s = MSD_WRITE_10)) \<and>
    \<not> (dCBWDataTransferLength (gblCBW s) \<noteq> 0 \<and> n = 0 \<and> MSD_State s = MSD_DATA_IN \<and> MSDCommandState s = MSD_WRITE_10)"
  using assms
  by (cases "MSDCommandState s = MSD_WRITE_10"; cases "dCBWDataTransferLength (gblCBW s) = 0"; cases "n = 0";
      cases "MSD_State s = MSD_DATA_IN") (auto simp: msd_error_case_def bot_host_def bot_device_def bot_group_def Let_def)

subsection \<open>The buffer of the command block\<close>

lemma init_lun_fields:
  "usb (fold msd_init_lun ls s) = usb s" "USBMSDOutHandle (fold msd_init_lun ls s) = USBMSDOutHandle s"
  "msd_cbw (fold msd_init_lun ls s) = msd_cbw s"
proof -
  have "usb (fold msd_init_lun ls s) = usb s \<and> USBMSDOutHandle (fold msd_init_lun ls s) = USBMSDOutHandle s \<and>
    msd_cbw (fold msd_init_lun ls s) = msd_cbw s"
    by (induction ls arbitrary: s)
      (simp_all add: msd_init_lun_def Let_def USBDeluxeDevice_MSD_ResetSenseData_def split: prod.split)
  then show "usb (fold msd_init_lun ls s) = usb s" "USBMSDOutHandle (fold msd_init_lun ls s) = USBMSDOutHandle s"
    "msd_cbw (fold msd_init_lun ls s) = msd_cbw s" by blast+
qed

lemma init_armed:
  obtains h where "USBMSDOutHandle (USBDeluxeDevice_MSD_Init s) = Some h"
    and "BDT (usb (USBDeluxeDevice_MSD_Init s)) h = BDT (usb (USBDeluxeDevice_MSD_Init s)) h\<lparr>bdt_UOWN := True, bdt_BSTALL := False,
      bdt_CNT := 64, bdt_ADR := Buf_CBW\<rparr>"
    and "msd_cbw (USBDeluxeDevice_MSD_Init s) = msd_cbw s"
proof -
  let ?E = "if USB_EP_IN s = USB_EP_OUT s
      then s\<lparr>usb := USBEnableEndpoint (usb s) (USB_EP_IN s)
        (USB_IN_ENABLED OR USB_OUT_ENABLED OR USB_HANDSHAKE_ENABLED OR USB_DISALLOW_SETUP)\<rparr>
      else s\<lparr>usb := USBEnableEndpoint (USBEnableEndpoint (usb s) (USB_EP_IN s)
            (USB_IN_ENABLED OR USB_HANDSHAKE_ENABLED OR USB_DISALLOW_SETUP))
          (USB_EP_OUT s) (USB_OUT_ENABLED OR USB_HANDSHAKE_ENABLED OR USB_DISALLOW_SETUP)\<rparr>"
  have ok: "usb_eps_ok (usb ?E) (USB_EP_IN s) (USB_EP_OUT s)"
    using enable_ok(1)[of "usb s" "USB_EP_IN s"] enable_ok(2)[of "USB_EP_IN s" "USB_EP_OUT s" "usb s"]
    by (cases "USB_EP_IN s = USB_EP_OUT s") simp_all
  have f: "USB_EP_OUT ?E = USB_EP_OUT s" "msd_cbw ?E = msd_cbw s" by simp_all
  obtain u h where t: "USBTransferOnePacket (usb ?E) (USB_EP_OUT s) OUT_FROM_HOST Buf_CBW 64 = (u, Some h)"
    using transfer_out(2)[OF ok, of Buf_CBW 64] by (metis prod.collapse)
  have r: "usb (msd_RxOnePacket ?E Buf_CBW) = u" "USBMSDOutHandle (msd_RxOnePacket ?E Buf_CBW) = Some h"
    "msd_cbw (msd_RxOnePacket ?E Buf_CBW) = msd_cbw s"
    using t f unfolding msd_RxOnePacket_def by simp_all
  show ?thesis
  proof (rule that[of h])
    show "USBMSDOutHandle (USBDeluxeDevice_MSD_Init s) = Some h" "msd_cbw (USBDeluxeDevice_MSD_Init s) = msd_cbw s"
      unfolding USBDeluxeDevice_MSD_Init_def Let_def init_lun_fields by (simp_all add: r del: if_split)
    have "usb (USBDeluxeDevice_MSD_Init s) = u"
      unfolding USBDeluxeDevice_MSD_Init_def Let_def init_lun_fields by (simp add: r del: if_split)
    then show "BDT (usb (USBDeluxeDevice_MSD_Init s)) h = BDT (usb (USBDeluxeDevice_MSD_Init s)) h\<lparr>bdt_UOWN := True,
        bdt_BSTALL := False, bdt_CNT := 64, bdt_ADR := Buf_CBW\<rparr>"
      using transfer_busy[OF t] by (cases "BDT u h") (simp add: USBHandleBusy_def)
  qed
qed

lemma cbw_overrun:
  assumes "length (msd_cbw s) = 31" and "31 < length data" and "length data \<le> 64"
  shows "msd_host_sends data (USBDeluxeDevice_MSD_Init s) = None"
proof -
  obtain h where h: "USBMSDOutHandle (USBDeluxeDevice_MSD_Init s) = Some h" "msd_cbw (USBDeluxeDevice_MSD_Init s) = msd_cbw s"
    "BDT (usb (USBDeluxeDevice_MSD_Init s)) h = BDT (usb (USBDeluxeDevice_MSD_Init s)) h\<lparr>bdt_UOWN := True, bdt_BSTALL := False,
      bdt_CNT := 64, bdt_ADR := Buf_CBW\<rparr>"
    by (rule init_armed)
  let ?e = "BDT (usb (USBDeluxeDevice_MSD_Init s)) h"
  have "bdt_UOWN ?e" "\<not> bdt_BSTALL ?e" "bdt_CNT ?e = 64" "bdt_ADR ?e = Buf_CBW" by (subst h(3), simp)+
  then show ?thesis using h(1,2) assms by (simp add: msd_host_sends_def overwrite_def Let_def)
qed

subsection \<open>A device to run the properties on\<close>

text \<open>One unit with a RAM disk, all sectors zero, in the state after a command block was received.\<close>

definition ram_ops :: "(u32 \<Rightarrow> u8 list) msd_diskops" where
  "ram_ops = \<lparr>MediaInitialize = (\<lambda>d l. (d, 1)), MediaDetect = (\<lambda>d l. (d, 1)), ReadCapacity = (\<lambda>d l. (d, 0x1000)),
     ReadSectorSize = (\<lambda>d l. (d, 512)), WriteProtectState = (\<lambda>d l. (d, 0)),
     SectorRead = (\<lambda>d l a buf. (d, d a, 1)), SectorWrite = (\<lambda>d l a buf f. (d(a := buf), 1))\<rparr>"

definition demo_usb :: "msd_buf usb_eps" where
  "demo_usb = \<lparr>BDT = (\<lambda>_. \<lparr>bdt_UOWN = False, bdt_DTS = False, bdt_DTSEN = False, bdt_BSTALL = False, bdt_CNT = 31, bdt_ADR = Buf_CBW\<rparr>),
     pBDTEntryIn = (\<lambda>e. Some (e, IN_TO_HOST, False)), pBDTEntryOut = (\<lambda>e. Some (e, OUT_FROM_HOST, True)), U1EP = (\<lambda>_. 0)\<rparr>"

definition demo_created :: "(u32 \<Rightarrow> u8 list) msd_ctx" where
  "demo_created = USBDeluxeDevice_MSD_Create demo_usb (\<lambda>_. replicate 512 0) 0 1 1 1 (0, []) (0, []) (0, []) ram_ops"

definition demo :: "u8 list \<Rightarrow> (u32 \<Rightarrow> u8 list) msd_ctx" where
  "demo cbw = demo_created\<lparr>gblMediaPresent := 1, msd_cbw := cbw, USBMSDOutHandle := Some (1, OUT_FROM_HOST, False),
     USBMSDInHandle := Some (1, IN_TO_HOST, True)\<rparr>"

definition cbw_bytes :: "u8 list \<Rightarrow> u8 \<Rightarrow> u8 list \<Rightarrow> u8 list" where
  "cbw_bytes len flags cb = [0x55, 0x53, 0x42, 0x43, 1, 2, 3, 4] @ len @ [flags, 0, 16] @ cb @ replicate (16 - length cb) 0"

lemmas demo_defs = demo_def demo_created_def demo_usb_def ram_ops_def USBDeluxeDevice_MSD_Create_def

lemma demo_received: "length cb \<le> 16 \<Longrightarrow> length len = 4 \<Longrightarrow> cbw_received (demo (cbw_bytes len flags cb))"
  by (simp add: cbw_received_def demo_defs USBHandleBusy_def USBHandleGetLength_def in_idle_def usb_eps_ok_def
      cbw_of_bytes_def cbw_bytes_def nth_append ex_bool_eq)

lemma demo_disk:
  "disk_reads (diskops (demo c)) (userp (demo c)) 0 (\<lambda>_. replicate 512 0)"
  "disk_writes (diskops (demo c)) 0 (\<lambda>d a buf. d(a := buf))"
  "MediaDetect (diskops (demo c)) (userp (demo c)) 0 = (userp (demo c), 1)"
  by (simp_all add: demo_defs disk_reads_def disk_writes_def)

subsection \<open>The properties\<close>




text \<open>(C4) A READ(10) command block of \<open>n\<close> blocks on a medium that can be read: with a host that takes its
  packets, \<open>9 n + 2\<close> calls later the device waits for the next command, and it has sent exactly
  the 64 byte packets of the \<open>n\<close> sectors in order, followed by a status wrapper with the tag of the
  command, no residue and the status passed.\<close>

theorem msd_read10_correct:
  assumes "cbw_received s" and "cbw_read10 s"
  defines "c \<equiv> cbw_of_bytes (msd_cbw s)"
  assumes "disk_reads (diskops s) (userp s) (bCBWLUN c) content"
  defines "n \<equiv> unat (le_word [CBWCB c ! 8, CBWCB c ! 7] :: u16)"
    and "lba \<equiv> le_word [CBWCB c ! 5, CBWCB c ! 4, CBWCB c ! 3, CBWCB c ! 2]"
  shows "MSD_State ((msd_poll ^^ (9 * n + 2)) (USBDeluxeDevice_MSD_Tasks s)) = MSD_WAIT \<and>
    usb_sent ((msd_poll ^^ (9 * n + 2)) (USBDeluxeDevice_MSD_Tasks s)) =
      usb_sent s @ concat (map (\<lambda>i. sector_packets (content (lba + of_nat i))) [0..<n]) @
      [csw_bytes \<lparr>dCSWSignature = MSD_VALID_CSW_SIGNATURE, dCSWTag = dCBWTag c, dCSWDataResidue = 0, bCSWStatus = 0\<rparr>]"
proof -
  have r: "MSD_State s = MSD_WAIT" "\<not> USBHandleBusy (usb s) (USBMSDOutHandle s)"
    "USBHandleGetLength (usb s) (USBMSDOutHandle s) = 0x1F" "length (msd_buffer s) = 512" "in_idle s"
    "gblMediaPresent s AND push_bit (unat (bCBWLUN (cbw_of_bytes (msd_cbw s)))) 1 \<noteq> 0"
    using assms(1) by (simp_all add: cbw_received_def)
  show ?thesis
    using read10_ok[OF r(1-3) assms(2) r(6,4,5) assms(4)[unfolded c_def]] unfolding n_def lba_def c_def by simp
qed

theorem msd_read10_correct_witness:
  defines "d \<equiv> demo (cbw_bytes [0, 4, 0, 0] 0x80 [0x28, 0, 0, 0, 0, 7, 0, 0, 2])"
  shows "length (usb_sent ((msd_poll ^^ 20) (USBDeluxeDevice_MSD_Tasks d))) = 17"
proof -
  have c: "cbw_of_bytes (msd_cbw d) = \<lparr>dCBWSignature = MSD_VALID_CBW_SIGNATURE, dCBWTag = 0x04030201,
      dCBWDataTransferLength = 1024, bCBWFlags = 0x80, bCBWLUN = 0, bCBWCBLength = 16,
      CBWCB = [0x28, 0, 0, 0, 0, 7, 0, 0, 2, 0, 0, 0, 0, 0, 0, 0]\<rparr>"
    unfolding d_def by code_simp
  have r: "cbw_received d" "cbw_read10 d" unfolding cbw_read10_def c
    by (simp_all add: d_def demo_received) (simp add: demo_defs)
  have "disk_reads (diskops d) (userp d) (bCBWLUN (cbw_of_bytes (msd_cbw d))) (\<lambda>_. replicate 512 0)"
    unfolding c by (simp add: d_def demo_disk)
  from msd_read10_correct[OF r this] show ?thesis
    by (simp add: c) (simp add: d_def demo_defs sector_packets_def eval_nat_numeral)
qed

text \<open>(C5) A WRITE(10) command block of \<open>n\<close> blocks on a medium that can be written: when the host sends
  \<open>8 n\<close> full packets, one whenever the endpoint is armed, \<open>18 n + 1\<close> calls take them all, the medium
  holds each block of 512 bytes at its address and nothing else has changed, and the next call sends
  a status wrapper with no residue and the status passed.\<close>

theorem msd_write10_correct:
  assumes "cbw_received s" and "cbw_write10 s"
  defines "c \<equiv> cbw_of_bytes (msd_cbw s)"
  assumes "disk_writes (diskops s) (bCBWLUN c) write"
    and "\<forall>ps\<in>set bs. length ps = 8 \<and> (\<forall>p\<in>set ps. length p = 64)"
    and "length bs = unat (le_word [CBWCB c ! 8, CBWCB c ! 7] :: u16)"
  shows "\<exists>s'. msd_feeds (18 * length bs + 1) (concat bs, USBDeluxeDevice_MSD_Tasks s) = Some ([], s') \<and>
    MSD_State (msd_poll s') = MSD_WAIT \<and>
    userp s' = disk_fill write (userp s) (le_word [CBWCB c ! 5, CBWCB c ! 4, CBWCB c ! 3, CBWCB c ! 2]) (map concat bs) \<and>
    usb_sent (msd_poll s') = usb_sent s @
      [csw_bytes \<lparr>dCSWSignature = MSD_VALID_CSW_SIGNATURE, dCSWTag = dCBWTag c, dCSWDataResidue = 0, bCSWStatus = 0\<rparr>]"
  using write10_ok[OF assms(1,2)] assms(4-6) unfolding c_def by blast

lemma demo_write_cbw:
  defines "d \<equiv> demo (cbw_bytes [0, 2, 0, 0] 0 [0x2A, 0, 0, 0, 0, 7, 0, 0, 1])"
  shows "cbw_of_bytes (msd_cbw d) = \<lparr>dCBWSignature = MSD_VALID_CBW_SIGNATURE, dCBWTag = 0x04030201,
      dCBWDataTransferLength = 512, bCBWFlags = 0, bCBWLUN = 0, bCBWCBLength = 16,
      CBWCB = [0x2A, 0, 0, 0, 0, 7, 0, 0, 1, 0, 0, 0, 0, 0, 0, 0]\<rparr>"
    and "cbw_received d" "cbw_write10 d"
proof -
  show c: "cbw_of_bytes (msd_cbw d) = \<lparr>dCBWSignature = MSD_VALID_CBW_SIGNATURE, dCBWTag = 0x04030201,
      dCBWDataTransferLength = 512, bCBWFlags = 0, bCBWLUN = 0, bCBWCBLength = 16,
      CBWCB = [0x2A, 0, 0, 0, 0, 7, 0, 0, 1, 0, 0, 0, 0, 0, 0, 0]\<rparr>"
    unfolding d_def by code_simp
  show "cbw_received d" "cbw_write10 d" unfolding cbw_write10_def c
    by (simp_all add: d_def demo_received) (simp add: demo_defs)
qed

theorem msd_write10_correct_witness:
  defines "d \<equiv> demo (cbw_bytes [0, 2, 0, 0] 0 [0x2A, 0, 0, 0, 0, 7, 0, 0, 1])"
  shows "\<exists>s'. msd_feeds 19 (replicate 8 (replicate 64 5), USBDeluxeDevice_MSD_Tasks d) = Some ([], s') \<and>
    userp s' = (\<lambda>a. if a = 7 then replicate 512 5 else replicate 512 0)"
proof -
  note D = demo_write_cbw[folded d_def]
  have w: "disk_writes (diskops d) (bCBWLUN (cbw_of_bytes (msd_cbw d))) (\<lambda>d a buf. d(a := buf))"
    unfolding D(1) by (simp add: d_def demo_disk)
  have u: "userp d = (\<lambda>_. replicate 512 0)" by (simp add: d_def demo_defs)
  have r: "concat (replicate 8 (replicate 64 (5 :: u8))) = replicate 512 5"
    by (simp add: eval_nat_numeral)
  show ?thesis
    using msd_write10_correct[OF D(2,3) w, of "[replicate 8 (replicate 64 5)]"]
    unfolding u D(1) by (auto simp: fun_upd_def r)
qed

text \<open>(C28) The packets of a WRITE(10) block are counted as full ones but their bytes are counted as received:
  after eight packets that are not all full the endpoint is armed for a ninth at the end of the
  buffer, and a ninth packet that is not empty overwrites what lies behind it.\<close>

theorem msd_write10_short_packets_overrun:
  assumes "cbw_received s" and "cbw_write10 s" and "disk_writes (diskops s) (bCBWLUN (cbw_of_bytes (msd_cbw s))) write"
    and "length ps = 8" and "\<forall>p\<in>set ps. length p \<le> 64" and "length (concat ps) < 512"
    and "p \<noteq> []" and "length p \<le> 64"
  shows "msd_feeds 18 (ps @ [p], USBDeluxeDevice_MSD_Tasks s) = None"
proof -
  have "diskops (USBDeluxeDevice_MSD_Tasks s) = diskops s"
    using accept_write(1)[OF assms(1,2)] by (simp add: msd_write_ready_def msd_writing_def)
  then show ?thesis using write_overrun[OF accept_write(1)[OF assms(1,2)] assms(3-8)] by simp
qed

theorem msd_write10_short_packets_overrun_witness:
  "msd_feeds 18 (replicate 8 [] @ [[1]], USBDeluxeDevice_MSD_Tasks (demo (cbw_bytes [0, 2, 0, 0] 0 [0x2A, 0, 0, 0, 0, 7, 0, 0, 1]))) = None"
  by (rule msd_write10_short_packets_overrun[of _ "\<lambda>d a buf. d(a := buf)", OF demo_write_cbw(2,3)])
    (unfold demo_write_cbw(1), simp_all add: demo_disk)

text \<open>(C26) The check of the host's expectation against the command's gives the group of the case of the
  bulk-only transport specification, for every length and direction, but for two situations: the
  host expects no data, where the direction flag of the command block is used although it has no
  meaning then, and a WRITE(10) of no blocks with the flag set to IN.\<close>

theorem msd_error_case_correct:
  assumes "MSD_State s = MSD_DATA_IN \<or> MSD_State s = MSD_DATA_OUT"
    and "MSDHostNoData s = (dCBWDataTransferLength (gblCBW s) = 0)"
  shows "msd_error_case s n = bot_group (bot_case (bot_host s, dCBWDataTransferLength (gblCBW s)) (bot_device s n, n)) \<longleftrightarrow>
    \<not> (dCBWDataTransferLength (gblCBW s) = 0 \<and> n \<noteq> 0 \<and> (MSD_State s = MSD_DATA_IN) = (MSDCommandState s = MSD_WRITE_10)) \<and>
    \<not> (dCBWDataTransferLength (gblCBW s) \<noteq> 0 \<and> n = 0 \<and> MSD_State s = MSD_DATA_IN \<and> MSDCommandState s = MSD_WRITE_10)"
  by (rule error_case_bot[OF assms])

theorem msd_error_case_correct_witness:
  defines "d \<equiv> demo_created\<lparr>MSD_State := MSD_DATA_IN, MSDCommandState := MSD_READ_10,
      gblCBW := (gblCBW demo_created)\<lparr>dCBWDataTransferLength := 512\<rparr>\<rparr>"
  shows "msd_error_case d 1024 = bot_group (bot_case (Dir_in, 512) (Dir_in, 1024)) \<and>
    msd_error_case (d\<lparr>MSDCommandState := MSD_WRITE_10\<rparr>) 0 \<noteq> bot_group (bot_case (Dir_in, 512) (Dir_none, 0))"
  using msd_error_case_correct[of d 1024] msd_error_case_correct[of "d\<lparr>MSDCommandState := MSD_WRITE_10\<rparr>" 0]
  by (simp add: d_def demo_created_def USBDeluxeDevice_MSD_Create_def bot_host_def bot_device_def)

text \<open>A packet that is not a valid and meaningful command block wrapper (31 bytes with the signature,
  an existing unit, a command length from 1 to 16 and no reserved flag) stalls both endpoints and
  changes neither the state of the transport nor the medium, the sense data or the status.\<close>

theorem msd_cbw_rejected:
  assumes "MSD_State s = MSD_WAIT" and "\<not> USBHandleBusy (usb s) (USBMSDOutHandle s)"
  defines "c \<equiv> cbw_of_bytes (msd_cbw s)"
  assumes "\<not> (USBHandleGetLength (usb s) (USBMSDOutHandle s) = 0x1F \<and> dCBWSignature c = MSD_VALID_CBW_SIGNATURE \<and>
      bCBWLUN c < nr_LUNs s \<and> 0x01 \<le> bCBWCBLength c \<and> bCBWCBLength c \<le> 0x10 \<and> bCBWFlags c AND 0x3F = 0)"
  defines "s' \<equiv> USBDeluxeDevice_MSD_Tasks s"
  shows "usb_stalled (usb s') (USB_EP_IN s) IN_TO_HOST \<and> usb_stalled (usb s') (USB_EP_OUT s) OUT_FROM_HOST \<and>
    MSD_State s' = MSD_WAIT \<and> usb_sent s' = usb_sent s \<and> userp s' = userp s \<and> gblSenseData s' = gblSenseData s \<and>
    msd_csw s' = msd_csw s"
  using cbw_rejected[OF assms(1,2)] assms(4) unfolding c_def s'_def by blast

theorem msd_cbw_rejected_witness:
  "usb_sent (USBDeluxeDevice_MSD_Tasks (demo (replicate 31 0))) = []"
proof -
  let ?d = "demo (replicate 31 0)"
  have r: "MSD_State ?d = MSD_WAIT" "\<not> USBHandleBusy (usb ?d) (USBMSDOutHandle ?d)"
    by (simp_all add: demo_defs USBHandleBusy_def)
  have "dCBWSignature (cbw_of_bytes (msd_cbw ?d)) \<noteq> MSD_VALID_CBW_SIGNATURE" by code_simp
  then have "usb_sent (USBDeluxeDevice_MSD_Tasks ?d) = usb_sent ?d" using msd_cbw_rejected[OF r] by simp
  then show ?thesis by (simp add: demo_defs)
qed

text \<open>An INQUIRY of 1 to 64 bytes is answered with the identification data of the context, cut off or
  padded with zeros to the length the host asked for, then a status wrapper whose residue is the
  number of bytes that were padding.\<close>

theorem msd_inquiry_correct:
  assumes "cbw_received s" and "cbw_inquiry s"
  defines "c \<equiv> cbw_of_bytes (msd_cbw s)"
  assumes "MediaDetect (diskops s) (userp s) (bCBWLUN c) = (userp s, 1)"
  defines "h \<equiv> unat (dCBWDataTransferLength c)"
  shows "MSD_State ((msd_poll ^^ 3) (USBDeluxeDevice_MSD_Tasks s)) = MSD_WAIT \<and>
    usb_sent ((msd_poll ^^ 3) (USBDeluxeDevice_MSD_Tasks s)) =
      usb_sent s @ [take h (msd_inquiry_data s) @ replicate (h - 36) 0,
        csw_bytes \<lparr>dCSWSignature = MSD_VALID_CSW_SIGNATURE, dCSWTag = dCBWTag c, dCSWDataResidue = of_nat (h - 36), bCSWStatus = 0\<rparr>]"
  using inquiry_ok[OF assms(1,2)] assms(4) unfolding h_def c_def by blast

theorem msd_inquiry_correct_witness:
  defines "d \<equiv> demo (cbw_bytes [40, 0, 0, 0] 0x80 [0x12, 0, 0, 0, 40, 0])"
  shows "hd (usb_sent ((msd_poll ^^ 3) (USBDeluxeDevice_MSD_Tasks d))) = msd_inq_resp @ [0, 0, 0, 0]"
proof -
  have c: "cbw_of_bytes (msd_cbw d) = \<lparr>dCBWSignature = MSD_VALID_CBW_SIGNATURE, dCBWTag = 0x04030201,
      dCBWDataTransferLength = 40, bCBWFlags = 0x80, bCBWLUN = 0, bCBWCBLength = 16,
      CBWCB = [0x12, 0, 0, 0, 40, 0, 0, 0, 0, 0, 0, 0, 0, 0, 0, 0]\<rparr>"
    unfolding d_def by code_simp
  have r: "cbw_received d" "cbw_inquiry d" unfolding cbw_inquiry_def c
    by (simp_all add: d_def demo_received) (simp add: demo_defs)
  have m: "MediaDetect (diskops d) (userp d) (bCBWLUN (cbw_of_bytes (msd_cbw d))) = (userp d, 1)"
    unfolding c by (simp add: d_def demo_disk)
  from msd_inquiry_correct[OF r m] show ?thesis
    by (simp add: c)
      (simp add: d_def demo_defs msd_inquiry_data_def msd_rom_string_def msd_inq_resp_def eval_nat_numeral)
qed

text \<open>The operation code 0xFD, which the code uses for the response phase itself, is accepted from
  the host: the device answers with what the last command left in its buffer.\<close>

theorem msd_internal_opcode_leaks:
  assumes "cbw_received s" and "cbw_internal s"
  defines "c \<equiv> cbw_of_bytes (msd_cbw s)"
  assumes "MediaDetect (diskops s) (userp s) (bCBWLUN c) = (userp s, 1)"
  defines "h \<equiv> unat (dCBWDataTransferLength c)"
  assumes "h \<le> unat (TransferLength s)"
  shows "usb_sent ((msd_poll ^^ 2) (USBDeluxeDevice_MSD_Tasks s)) = usb_sent s @ [take h (msd_buffer s),
        csw_bytes \<lparr>dCSWSignature = MSD_VALID_CSW_SIGNATURE, dCSWTag = dCBWTag c, dCSWDataResidue = 0, bCSWStatus = 0\<rparr>]"
  using internal_ok[OF assms(1,2)] assms(4,6) unfolding h_def c_def by blast

theorem msd_internal_opcode_leaks_witness:
  defines "d \<equiv> (demo (cbw_bytes [4, 0, 0, 0] 0x80 [0xFD]))\<lparr>TransferLength := 36, msd_buffer := replicate 512 9\<rparr>"
  shows "hd (usb_sent ((msd_poll ^^ 2) (USBDeluxeDevice_MSD_Tasks d))) = [9, 9, 9, 9]"
proof -
  have c: "cbw_of_bytes (msd_cbw d) = \<lparr>dCBWSignature = MSD_VALID_CBW_SIGNATURE, dCBWTag = 0x04030201,
      dCBWDataTransferLength = 4, bCBWFlags = 0x80, bCBWLUN = 0, bCBWCBLength = 16,
      CBWCB = [0xFD, 0, 0, 0, 0, 0, 0, 0, 0, 0, 0, 0, 0, 0, 0, 0]\<rparr>"
    unfolding d_def by code_simp
  have "cbw_received (demo (cbw_bytes [4, 0, 0, 0] 0x80 [0xFD]))" by (simp add: demo_received)
  then have r: "cbw_received d" "cbw_internal d" unfolding cbw_internal_def c
    by (simp_all add: d_def cbw_received_def in_idle_def) (simp add: demo_defs)
  have m: "MediaDetect (diskops d) (userp d) (bCBWLUN (cbw_of_bytes (msd_cbw d))) = (userp d, 1)"
    unfolding c by (simp add: d_def demo_defs)
  have "TransferLength d = 36" "usb_sent d = []" "take 4 (msd_buffer d) = [9, 9, 9, 9]"
    by (simp_all add: d_def demo_defs numeral_eq_Suc)
  with msd_internal_opcode_leaks[OF r m] show ?thesis by (simp add: c)
qed

text \<open>The buffer for the command block has 31 bytes (32 with the padding of the struct) but is armed for
  packets of 64: after the initialisation a packet of 33 to 64 bytes overwrites what lies behind it.\<close>

theorem msd_cbw_buffer_overrun:
  assumes "length (msd_cbw s) = 31" and "32 < length data" and "length data \<le> 64"
  shows "msd_host_sends data (USBDeluxeDevice_MSD_Init s) = None"
  by (rule cbw_overrun[OF assms(1) _ assms(3)]) (use assms(2) in simp)

theorem msd_cbw_buffer_overrun_witness:
  "msd_host_sends (replicate 33 1) (USBDeluxeDevice_MSD_Init demo_created) = None"
  by (rule msd_cbw_buffer_overrun) (simp_all add: demo_created_def USBDeluxeDevice_MSD_Create_def)

end
