(* ===== verification/I2C.thy ===== *)
theory I2C
  imports Prelude
begin

section \<open>The I2C master driver\<close>

text \<open>
  Models \<^verbatim>\<open>I2C.c\<close>: the queue of transactions, the requests that fill it and the interrupt handler that
  works it off. The handle is one record: the master object, the bits of the control and status
  registers, and the memory the driver reaches through pointers, kept in one store per type:
  transaction blocks, status flags and bytes. A pointer into the queue is its index; \<open>None\<close> is the
  null pointer, and the result \<open>None\<close> of the handler is an access through it. \<open>bus\<close> records the
  commands given to the controller; no operation reads it.
\<close>

subsection \<open>Data\<close>

datatype i2c_status = I2C_MESSAGE_FAIL | I2C_MESSAGE_PENDING | I2C_MESSAGE_COMPLETE | I2C_STUCK_START
  | I2C_MESSAGE_ADDRESS_NO_ACK | I2C_DATA_NO_ACK | I2C_LOST_STATE

datatype i2c_state = S_MASTER_IDLE | S_MASTER_RESTART | S_MASTER_SEND_ADDR | S_MASTER_SEND_DATA | S_MASTER_SEND_STOP
  | S_MASTER_ACK_ADDR | S_MASTER_RCV_DATA | S_MASTER_RCV_STOP | S_MASTER_ACK_RCV_DATA | S_MASTER_NOACK_STOP
  | S_MASTER_SEND_ADDR_10BIT_LSB | S_MASTER_10BIT_RESTART

datatype i2c_command = Bus_Start | Bus_Restart | Bus_Stop | Bus_Tx u16 | Bus_Receive | Bus_Ack bool

record i2c_trb =
  trb_address :: u16
  trb_length :: u8
  trb_pbuffer :: u16

record i2c_queue_entry =
  qe_count :: u8
  qe_ptrb_list :: nat
  qe_pTrFlag :: "nat option"

record i2c_handle =
  i2c_tr_queue :: "i2c_queue_entry list"
  i2c1_state :: i2c_state
  p_i2c1_trb_current :: nat
  p_i2c1_current :: "nat option"
  pTrTail :: nat
  pTrHead :: nat
  tr_full :: bool
  tr_empty :: bool
  pi2c_buf_ptr :: u16
  i2c_address :: u16
  i2c1_trb_count :: u8
  queue_len :: u8
  i2cErrors :: u8
  i2c_bytes_left :: u8
  i2c_10bit_address_restart :: u8
  con_A10M :: bool
  con_I2CEN :: bool
  con_ACKDT :: bool
  stat_IWCOL :: bool
  stat_ACKSTAT :: bool
  reg_BRG :: u16
  reg_RCV :: u16
  reg_IEC :: u16
  reg_IFS :: u16
  IECOffset_M :: u8
  IFSOffset_M :: u8
  trbs :: "nat \<Rightarrow> i2c_trb"
  flags :: "nat \<Rightarrow> i2c_status"
  ram :: "u16 \<Rightarrow> u8"
  bus :: "i2c_command list"

text \<open>A command: a write to the transmit register or to a bit of the control register.\<close>

definition i2c_do :: "i2c_command \<Rightarrow> i2c_handle \<Rightarrow> i2c_handle" where
  "i2c_do c h = h\<lparr>bus := bus h @ [c]\<rparr>"

definition i2c_goto :: "i2c_state \<Rightarrow> i2c_handle \<Rightarrow> i2c_handle" where
  "i2c_goto st h = h\<lparr>i2c1_state := st\<rparr>"

subsection \<open>Initialisation and the queue\<close>

text \<open>\<open>q\<close>: the block of \<open>queue_len\<close> entries that \<open>malloc\<close> returned.\<close>

definition I2C_Master_Initialize :: "u8 \<Rightarrow> u8 \<Rightarrow> u16 \<Rightarrow> i2c_queue_entry list \<Rightarrow> i2c_handle \<Rightarrow> i2c_handle" where
  "I2C_Master_Initialize i2c_mode qlen speed q h =
     h\<lparr>reg_BRG := speed, queue_len := qlen, i2c_tr_queue := q, i2c1_state := S_MASTER_IDLE, p_i2c1_trb_current := 0,
       p_i2c1_current := None, pTrHead := 0, pTrTail := 0, tr_empty := True, tr_full := False, pi2c_buf_ptr := 0,
       i2c_address := 0, i2c1_trb_count := 0, i2cErrors := 0, i2c_bytes_left := 0, i2c_10bit_address_restart := 0,
       con_A10M := i2c_mode AND 0x1 \<noteq> 0, con_ACKDT := False, stat_IWCOL := False, stat_ACKSTAT := False,
       reg_IFS := reg_IFS h AND NOT (push_bit (unat (IFSOffset_M h)) 1),
       reg_IEC := reg_IEC h OR push_bit (unat (IECOffset_M h)) 1, con_I2CEN := True\<rparr>"

definition I2C_Master_GetErrorCount :: "i2c_handle \<Rightarrow> u8" where
  "I2C_Master_GetErrorCount h = i2cErrors h"

definition I2C_Master_QueueIsEmpty :: "i2c_handle \<Rightarrow> bool" where
  "I2C_Master_QueueIsEmpty h = tr_empty h"

definition I2C_Master_QueueIsFull :: "i2c_handle \<Rightarrow> bool" where
  "I2C_Master_QueueIsFull h = tr_full h"

text \<open>The next place of the ring.\<close>

definition i2c_next :: "i2c_handle \<Rightarrow> nat \<Rightarrow> nat" where
  "i2c_next h p = (if Suc p = unat (queue_len h) then 0 else Suc p)"

definition i2c_enqueue :: "i2c_queue_entry \<Rightarrow> i2c_handle \<Rightarrow> i2c_handle" where
  "i2c_enqueue e h =
     (let h1 = h\<lparr>i2c_tr_queue := (i2c_tr_queue h)[pTrTail h := e], pTrTail := i2c_next h (pTrTail h), tr_empty := False\<rparr>
      in if pTrHead h1 = pTrTail h1 then h1\<lparr>tr_full := True\<rparr> else h1)"

definition i2c_dequeue :: "i2c_handle \<Rightarrow> i2c_handle" where
  "i2c_dequeue h =
     (let e = i2c_tr_queue h ! pTrHead h;
          h1 = h\<lparr>p_i2c1_current := Some (pTrHead h), i2c1_trb_count := qe_count e, p_i2c1_trb_current := qe_ptrb_list e,
                 pTrHead := i2c_next h (pTrHead h), tr_full := False\<rparr>
      in if pTrHead h1 = pTrTail h1 then h1\<lparr>tr_empty := True\<rparr> else h1)"

definition I2C_Master_TRBInsert :: "u8 \<Rightarrow> nat \<Rightarrow> nat \<Rightarrow> i2c_handle \<Rightarrow> i2c_handle" where
  "I2C_Master_TRBInsert count ptrb_list pflag h =
     (if \<not> tr_full h then
        let h1 = h\<lparr>flags := (flags h)(pflag := I2C_MESSAGE_PENDING)\<rparr>;
            h2 = i2c_enqueue \<lparr>qe_count = count, qe_ptrb_list = ptrb_list, qe_pTrFlag = Some pflag\<rparr> h1
        in if i2c1_state h2 = S_MASTER_IDLE then h2\<lparr>reg_IFS := reg_IFS h2 OR push_bit (unat (IFSOffset_M h2)) 1\<rparr> else h2
      else h\<lparr>flags := (flags h)(pflag := I2C_MESSAGE_FAIL)\<rparr>)"

definition I2C_Master_ReadTRBBuild :: "nat \<Rightarrow> u16 \<Rightarrow> u8 \<Rightarrow> u16 \<Rightarrow> i2c_handle \<Rightarrow> i2c_handle" where
  "I2C_Master_ReadTRBBuild ptrb pdata len address h =
     h\<lparr>trbs := (trbs h)(ptrb := \<lparr>trb_address = push_bit 1 address OR 0x01, trb_length = len, trb_pbuffer = pdata\<rparr>)\<rparr>"

definition I2C_Master_WriteTRBBuild :: "nat \<Rightarrow> u16 \<Rightarrow> u8 \<Rightarrow> u16 \<Rightarrow> i2c_handle \<Rightarrow> i2c_handle" where
  "I2C_Master_WriteTRBBuild ptrb pdata len address h =
     h\<lparr>trbs := (trbs h)(ptrb := \<lparr>trb_address = push_bit 1 address, trb_length = len, trb_pbuffer = pdata\<rparr>)\<rparr>"

text \<open>\<open>sp\<close>: the address of the local block \<open>trBlock\<close> in the stack frame of the call.\<close>

definition I2C_Master_Write :: "nat \<Rightarrow> u16 \<Rightarrow> u8 \<Rightarrow> u16 \<Rightarrow> nat \<Rightarrow> i2c_handle \<Rightarrow> i2c_handle" where
  "I2C_Master_Write sp pdata len address pstatus h =
     (if \<not> tr_full h then I2C_Master_TRBInsert 1 sp pstatus (I2C_Master_WriteTRBBuild sp pdata len address h)
      else h\<lparr>flags := (flags h)(pstatus := I2C_MESSAGE_FAIL)\<rparr>)"

definition I2C_Master_Read :: "nat \<Rightarrow> u16 \<Rightarrow> u8 \<Rightarrow> u16 \<Rightarrow> nat \<Rightarrow> i2c_handle \<Rightarrow> i2c_handle" where
  "I2C_Master_Read sp pdata len address pstatus h =
     (if \<not> tr_full h then I2C_Master_TRBInsert 1 sp pstatus (I2C_Master_ReadTRBBuild sp pdata len address h)
      else h\<lparr>flags := (flags h)(pstatus := I2C_MESSAGE_FAIL)\<rparr>)"

subsection \<open>The interrupt handler\<close>

definition I2C_Master_Stop :: "i2c_status \<Rightarrow> i2c_handle \<Rightarrow> i2c_handle option" where
  "I2C_Master_Stop completion_code h =
     (let h1 = i2c_do Bus_Stop h
      in case p_i2c1_current h1 of None \<Rightarrow> None
         | Some i \<Rightarrow>
             Some (i2c_goto S_MASTER_IDLE
               (case qe_pTrFlag (i2c_tr_queue h1 ! i) of None \<Rightarrow> h1
                | Some f \<Rightarrow> h1\<lparr>flags := (flags h1)(f := completion_code)\<rparr>)))"

definition I2C_Master_FunctionComplete :: "i2c_handle \<Rightarrow> i2c_handle" where
  "I2C_Master_FunctionComplete h =
     (let h1 = h\<lparr>p_i2c1_trb_current := p_i2c1_trb_current h + 1, i2c1_trb_count := i2c1_trb_count h - 1\<rparr>
      in i2c_goto (if i2c1_trb_count h1 = 0 then S_MASTER_SEND_STOP else S_MASTER_RESTART) h1)"

definition i2c_error :: "i2c_handle \<Rightarrow> i2c_handle" where
  "i2c_error h = h\<lparr>i2cErrors := i2cErrors h + 1\<rparr>"

definition i2c_collision :: "i2c_handle \<Rightarrow> i2c_handle option" where
  "i2c_collision h =
     (let h1 = i2c_goto S_MASTER_IDLE (h\<lparr>stat_IWCOL := False\<rparr>)
      in case p_i2c1_current h1 of None \<Rightarrow> None
         | Some i \<Rightarrow>
             (case qe_pTrFlag (i2c_tr_queue h1 ! i) of None \<Rightarrow> None
              | Some f \<Rightarrow> Some (h1\<lparr>flags := (flags h1)(f := I2C_MESSAGE_FAIL), p_i2c1_current := None\<rparr>)))"

definition i2c_send_addr_lsb :: "i2c_handle \<Rightarrow> i2c_handle option" where
  "i2c_send_addr_lsb h =
     (if stat_ACKSTAT h then I2C_Master_Stop I2C_MESSAGE_ADDRESS_NO_ACK (i2c_error h)
      else
        let h1 = i2c_do (Bus_Tx (drop_bit 1 (i2c_address h) AND 0x00FF)) h
        in Some (i2c_goto (if i2c_address h1 AND 0x01 \<noteq> 0 then S_MASTER_10BIT_RESTART else S_MASTER_SEND_DATA) h1))"

definition i2c_10bit_restart :: "i2c_handle \<Rightarrow> i2c_handle option" where
  "i2c_10bit_restart h =
     (if stat_ACKSTAT h then I2C_Master_Stop I2C_MESSAGE_ADDRESS_NO_ACK (i2c_error h)
      else
        let h1 = i2c_do Bus_Restart h;
            h2 = h1\<lparr>i2c_address := 0x00F0 OR (drop_bit 8 (i2c_address h1) AND 0x0006)\<rparr>;
            h3 = h2\<lparr>i2c_address := i2c_address h2 OR 0x0001, i2c_10bit_address_restart := 1\<rparr>
        in Some (i2c_goto S_MASTER_SEND_ADDR h3))"

definition i2c_send_addr :: "i2c_handle \<Rightarrow> i2c_handle" where
  "i2c_send_addr h =
     (let t = trbs h (p_i2c1_trb_current h);
          h1 = (if i2c_10bit_address_restart h \<noteq> 1
                then h\<lparr>i2c_address := trb_address t, pi2c_buf_ptr := trb_pbuffer t, i2c_bytes_left := trb_length t\<rparr>
                else h\<lparr>i2c_10bit_address_restart := 0\<rparr>)
      in if 0x00FF < i2c_address h1
         then i2c_goto S_MASTER_SEND_ADDR_10BIT_LSB (i2c_do (Bus_Tx (0xF0 OR (drop_bit 8 (i2c_address h1) AND 0x0006))) h1)
         else i2c_goto (if i2c_address h1 AND 0x01 \<noteq> 0 then S_MASTER_ACK_ADDR else S_MASTER_SEND_DATA)
                (i2c_do (Bus_Tx (i2c_address h1)) h1))"

definition i2c_send_data :: "i2c_handle \<Rightarrow> i2c_handle option" where
  "i2c_send_data h =
     (if stat_ACKSTAT h then I2C_Master_Stop I2C_DATA_NO_ACK ((i2c_error h)\<lparr>stat_ACKSTAT := False\<rparr>)
      else
        let left = i2c_bytes_left h; h1 = h\<lparr>i2c_bytes_left := i2c_bytes_left h - 1\<rparr>
        in if left = 0 then
             let h2 = h1\<lparr>p_i2c1_trb_current := p_i2c1_trb_current h1 + 1, i2c1_trb_count := i2c1_trb_count h1 - 1\<rparr>
             in if i2c1_trb_count h2 = 0 then I2C_Master_Stop I2C_MESSAGE_COMPLETE h2
                else Some (i2c_goto S_MASTER_SEND_ADDR (i2c_do Bus_Restart h2))
           else Some (i2c_do (Bus_Tx (ucast (ram h1 (pi2c_buf_ptr h1)))) (h1\<lparr>pi2c_buf_ptr := pi2c_buf_ptr h1 + 1\<rparr>)))"

definition i2c_ack_addr :: "i2c_handle \<Rightarrow> i2c_handle option" where
  "i2c_ack_addr h =
     (if stat_ACKSTAT h
      then map_option (\<lambda>h1. h1\<lparr>stat_ACKSTAT := False\<rparr>) (I2C_Master_Stop I2C_MESSAGE_ADDRESS_NO_ACK (i2c_error h))
      else Some (i2c_goto S_MASTER_ACK_RCV_DATA (i2c_do Bus_Receive h)))"

definition i2c_ack_rcv_data :: "i2c_handle \<Rightarrow> i2c_handle" where
  "i2c_ack_rcv_data h =
     (let h1 = h\<lparr>ram := (ram h)(pi2c_buf_ptr h := ucast (reg_RCV h)), pi2c_buf_ptr := pi2c_buf_ptr h + 1,
                 i2c_bytes_left := i2c_bytes_left h - 1\<rparr>;
          h2 = (if i2c_bytes_left h1 \<noteq> 0 then i2c_goto S_MASTER_RCV_DATA (h1\<lparr>con_ACKDT := False\<rparr>)
                else I2C_Master_FunctionComplete (h1\<lparr>con_ACKDT := True\<rparr>))
      in i2c_do (Bus_Ack (\<not> con_ACKDT h2)) h2)"

definition I2C_Master_ProcessInterrupt :: "i2c_handle \<Rightarrow> i2c_handle option" where
  "I2C_Master_ProcessInterrupt h0 =
     (let h = h0\<lparr>reg_IFS := reg_IFS h0 AND NOT (push_bit (unat (IFSOffset_M h0)) 1)\<rparr>
      in if stat_IWCOL h then i2c_collision h
         else
           case i2c1_state h of
             S_MASTER_IDLE \<Rightarrow>
               Some (if \<not> tr_empty h then i2c_goto S_MASTER_SEND_ADDR (i2c_do Bus_Start (i2c_dequeue h)) else h)
           | S_MASTER_RESTART \<Rightarrow> Some (i2c_goto S_MASTER_SEND_ADDR (i2c_do Bus_Restart h))
           | S_MASTER_SEND_ADDR_10BIT_LSB \<Rightarrow> i2c_send_addr_lsb h
           | S_MASTER_10BIT_RESTART \<Rightarrow> i2c_10bit_restart h
           | S_MASTER_SEND_ADDR \<Rightarrow> Some (i2c_send_addr h)
           | S_MASTER_SEND_DATA \<Rightarrow> i2c_send_data h
           | S_MASTER_ACK_ADDR \<Rightarrow> i2c_ack_addr h
           | S_MASTER_RCV_DATA \<Rightarrow> Some (i2c_do Bus_Receive (i2c_goto S_MASTER_ACK_RCV_DATA h))
           | S_MASTER_ACK_RCV_DATA \<Rightarrow> Some (i2c_ack_rcv_data h)
           | S_MASTER_RCV_STOP \<Rightarrow> I2C_Master_Stop I2C_MESSAGE_COMPLETE h
           | S_MASTER_SEND_STOP \<Rightarrow> I2C_Master_Stop I2C_MESSAGE_COMPLETE h
           | S_MASTER_NOACK_STOP \<Rightarrow> I2C_Master_Stop I2C_LOST_STATE (i2c_error h))"

end
