(* ===== verification/I2C_Queue.thy ===== *)
theory I2C_Queue
  imports I2C
begin

section \<open>The transaction queue refines a bounded list\<close>

text \<open>
  The ring of the I2C driver against an abstract bounded queue. The locale \<open>bounded_queue\<close> states what
  a client of such a queue relies on: an abstraction to a list, an insertion that appends when there
  is room, a removal that takes the first element. Its lemmas say that any sequence of operations
  behaves like the list; they are used through the interpretation on the driver's queue.
\<close>

subsection \<open>Bounded queues\<close>

datatype 'a queue_op = Put 'a | Get

locale bounded_queue =
  fixes put :: "'a \<Rightarrow> 's \<Rightarrow> 's" and get :: "'s \<Rightarrow> 's" and full :: "'s \<Rightarrow> bool" and void :: "'s \<Rightarrow> bool"
    and first :: "'s \<Rightarrow> 'a" and contents :: "'s \<Rightarrow> 'a list" and wf :: "'s \<Rightarrow> bool" and cap :: "'s \<Rightarrow> nat"
  assumes full_iff: "wf s \<Longrightarrow> full s \<longleftrightarrow> length (contents s) = cap s"
    and void_iff: "wf s \<Longrightarrow> void s \<longleftrightarrow> contents s = []"
    and bound: "wf s \<Longrightarrow> length (contents s) \<le> cap s"
    and put_law: "wf s \<Longrightarrow> \<not> full s \<Longrightarrow> wf (put x s) \<and> contents (put x s) = contents s @ [x] \<and> cap (put x s) = cap s"
    and get_law: "wf s \<Longrightarrow> \<not> void s \<Longrightarrow>
      wf (get s) \<and> contents s = first s # contents (get s) \<and> cap (get s) = cap s"
begin

text \<open>A run of operations, a put on a full queue and a get on an empty one being refused; the result is the
  state and the elements taken.\<close>

fun run :: "'a queue_op list \<Rightarrow> 's \<Rightarrow> 's \<times> 'a list" where
  "run [] s = (s, [])"
| "run (Put x # ops) s = run ops (if full s then s else put x s)"
| "run (Get # ops) s =
     (if void s then run ops s else (case run ops (get s) of (t, xs) \<Rightarrow> (t, first s # xs)))"

text \<open>The elements that were accepted.\<close>

fun accepted :: "'a queue_op list \<Rightarrow> 's \<Rightarrow> 'a list" where
  "accepted [] s = []"
| "accepted (Put x # ops) s = (if full s then accepted ops s else x # accepted ops (put x s))"
| "accepted (Get # ops) s = (if void s then accepted ops s else accepted ops (get s))"

lemma run_fifo:
  "wf s \<Longrightarrow> wf (fst (run ops s)) \<and> cap (fst (run ops s)) = cap s \<and>
     contents s @ accepted ops s = snd (run ops s) @ contents (fst (run ops s))"
proof (induction ops s rule: run.induct)
  case (2 x ops s)
  then show ?case using put_law[of s x] by (cases "full s") auto
next
  case (3 ops s)
  then show ?case using get_law[of s] by (cases "void s") (auto split: prod.split)
qed simp

lemma run_bound: "wf s \<Longrightarrow> length (contents (fst (run ops s))) \<le> cap s"
  using run_fifo[of s ops] bound[of "fst (run ops s)"] by simp

end

subsection \<open>Rings\<close>

definition ring :: "nat \<Rightarrow> nat \<Rightarrow> nat \<Rightarrow> 'a list \<Rightarrow> 'a list" where
  "ring n h len q = map (\<lambda>i. q ! ((h + i) mod n)) [0..<len]"

lemma length_ring [simp]: "length (ring n h len q) = len"
  by (simp add: ring_def)

lemma ring_distinct:
  assumes "i < j" and "j < n"
  shows "(h + len + j) mod n \<noteq> (h + len + i) mod (n :: nat)"
proof
  assume "(h + len + j) mod n = (h + len + i) mod n"
  then have "n dvd j - i" using assms(1) by (simp add: mod_eq_dvd_iff_nat)
  then show False using assms dvd_imp_le[of n "j - i"] by simp
qed

lemma ring_put:
  assumes "len < n" and "length q = n"
  shows "ring n h (Suc len) (q[(h + len) mod n := x]) = ring n h len q @ [x]"
proof -
  have b: "(h + len) mod n < n" using assms(1) by simp
  have "(h + len) mod n \<noteq> (h + i) mod n" if "i < len" for i
    using ring_distinct[of i len n h 0] assms(1) that by simp
  then have "map (\<lambda>i. q[(h + len) mod n := x] ! ((h + i) mod n)) [0..<len] = map (\<lambda>i. q ! ((h + i) mod n)) [0..<len]"
    by (intro map_cong refl nth_list_update_neq) auto
  then show ?thesis using b assms(2) by (simp add: ring_def)
qed

lemma ring_get: "ring n h (Suc len) q = q ! (h mod n) # ring n (Suc h mod n) len q"
proof -
  have "[0..<Suc len] = 0 # map Suc [0..<len]" by (simp add: map_Suc_upt upt_conv_Cons del: upt_Suc)
  moreover have "(h + Suc i) mod n = (Suc h mod n + i) mod n" for i
    by (metis add_Suc_right add_Suc mod_add_left_eq)
  ultimately show ?thesis by (simp only: ring_def list.map map_map o_def add_0_right)
qed

subsection \<open>The queue of the driver\<close>

definition i2c_fill :: "i2c_handle \<Rightarrow> nat" where
  "i2c_fill h = (if tr_empty h then 0 else if tr_full h then unat (queue_len h)
     else (pTrTail h + unat (queue_len h) - pTrHead h) mod unat (queue_len h))"

definition i2c_contents :: "i2c_handle \<Rightarrow> i2c_queue_entry list" where
  "i2c_contents h = ring (unat (queue_len h)) (pTrHead h) (i2c_fill h) (i2c_tr_queue h)"

definition i2c_queue_wf :: "i2c_handle \<Rightarrow> bool" where
  "i2c_queue_wf h \<longleftrightarrow>
     0 < queue_len h \<and> length (i2c_tr_queue h) = unat (queue_len h) \<and> pTrHead h < unat (queue_len h) \<and>
     i2c_fill h \<le> unat (queue_len h) \<and> pTrTail h = (pTrHead h + i2c_fill h) mod unat (queue_len h) \<and>
     (tr_empty h \<longleftrightarrow> i2c_fill h = 0) \<and> (tr_full h \<longleftrightarrow> i2c_fill h = unat (queue_len h))"

lemma queue_cong:
  assumes "i2c_tr_queue h' = i2c_tr_queue h" and "pTrHead h' = pTrHead h" and "pTrTail h' = pTrTail h"
    and "tr_full h' = tr_full h" and "tr_empty h' = tr_empty h" and "queue_len h' = queue_len h"
  shows "i2c_contents h' = i2c_contents h" "i2c_queue_wf h' = i2c_queue_wf h"
proof -
  have "i2c_fill h' = i2c_fill h" using assms by (simp add: i2c_fill_def)
  with assms show "i2c_contents h' = i2c_contents h" "i2c_queue_wf h' = i2c_queue_wf h"
    by (simp_all add: i2c_contents_def i2c_queue_wf_def)
qed

text \<open>The fill is determined by the indices and the flags.\<close>

lemma fill_unique:
  assumes "pTrTail h = (pTrHead h + len) mod n" and "len \<le> n" and "pTrHead h < n" and "n = unat (queue_len h)"
    and "tr_empty h \<longleftrightarrow> len = 0" and "tr_full h \<longleftrightarrow> len = n"
  shows "i2c_fill h = len"
proof (cases "len = 0 \<or> len = n")
  case True
  then show ?thesis using assms by (auto simp: i2c_fill_def)
next
  case False
  have "(pTrTail h + n - pTrHead h) mod n = len"
  proof (cases "pTrHead h + len < n")
    case True
    then show ?thesis using assms(1,2) False by simp
  next
    case f: False
    then have "(pTrHead h + len) mod n = pTrHead h + len - n" using assms(2,3) by (simp add: mod_if)
    then show ?thesis using assms(1,2) False f by simp
  qed
  then show ?thesis using assms(4-6) False by (simp add: i2c_fill_def)
qed

lemma queue_wfI:
  assumes "0 < queue_len h" and "length (i2c_tr_queue h) = unat (queue_len h)" and "pTrHead h < unat (queue_len h)"
    and "pTrTail h = (pTrHead h + len) mod unat (queue_len h)" and "len \<le> unat (queue_len h)"
    and "tr_empty h \<longleftrightarrow> len = 0" and "tr_full h \<longleftrightarrow> len = unat (queue_len h)"
  shows "i2c_queue_wf h" and "i2c_contents h = ring (unat (queue_len h)) (pTrHead h) len (i2c_tr_queue h)"
  using fill_unique[OF assms(4,5,3) refl assms(6,7)] assms by (simp_all add: i2c_queue_wf_def i2c_contents_def)

lemma next_mod: "p < unat (queue_len h) \<Longrightarrow> i2c_next h p = Suc p mod unat (queue_len h)"
  by (simp add: i2c_next_def)

lemma enqueue_ok:
  assumes "i2c_queue_wf h" and "\<not> tr_full h"
  shows "i2c_queue_wf (i2c_enqueue e h)" "i2c_contents (i2c_enqueue e h) = i2c_contents h @ [e]"
    "queue_len (i2c_enqueue e h) = queue_len h"
proof -
  let ?n = "unat (queue_len h)" and ?l = "i2c_fill h" and ?q = "(i2c_tr_queue h)[pTrTail h := e]"
  have w: "0 < ?n" "length (i2c_tr_queue h) = ?n" "pTrHead h < ?n" "?l < ?n" "pTrTail h = (pTrHead h + ?l) mod ?n"
    using assms by (auto simp: i2c_queue_wf_def word_less_nat_alt)
  have t: "i2c_next h (pTrTail h) = (pTrHead h + Suc ?l) mod ?n"
    using w by (simp add: next_mod mod_Suc_eq)
  have f: "pTrHead h = (pTrHead h + Suc ?l) mod ?n \<longleftrightarrow> Suc ?l = ?n"
    using w ring_distinct[of 0 "Suc ?l" ?n "pTrHead h" 0] by (cases "Suc ?l = ?n") auto
  let ?h = "i2c_enqueue e h"
  have E: "i2c_tr_queue ?h = ?q" "pTrHead ?h = pTrHead h" "pTrTail ?h = (pTrHead h + Suc ?l) mod ?n" "queue_len ?h = queue_len h"
    "\<not> tr_empty ?h" "tr_full ?h \<longleftrightarrow> Suc ?l = ?n"
    using assms(2) f by (auto simp: i2c_enqueue_def t Let_def)
  have p: "0 < queue_len ?h" "length (i2c_tr_queue ?h) = unat (queue_len ?h)" "pTrHead ?h < unat (queue_len ?h)"
    "pTrTail ?h = (pTrHead ?h + Suc ?l) mod unat (queue_len ?h)" "Suc ?l \<le> unat (queue_len ?h)"
    "tr_empty ?h \<longleftrightarrow> Suc ?l = 0" "tr_full ?h \<longleftrightarrow> Suc ?l = unat (queue_len ?h)"
    using E w by (simp_all add: word_less_nat_alt)
  show "i2c_queue_wf ?h" by (rule queue_wfI(1)[OF p])
  have "i2c_contents ?h = ring ?n (pTrHead h) (Suc ?l) ?q" using queue_wfI(2)[OF p] by (simp only: E)
  then show "i2c_contents ?h = i2c_contents h @ [e]"
    using ring_put[OF w(4,2), of "pTrHead h" e] w(5) by (simp add: i2c_contents_def)
  show "queue_len ?h = queue_len h" by (rule E)
qed

lemma dequeue_ok:
  assumes "i2c_queue_wf h" and "\<not> tr_empty h"
  shows "i2c_queue_wf (i2c_dequeue h)" "i2c_contents h = i2c_tr_queue h ! pTrHead h # i2c_contents (i2c_dequeue h)"
    "queue_len (i2c_dequeue h) = queue_len h"
proof -
  let ?n = "unat (queue_len h)" and ?q = "i2c_tr_queue h"
  obtain l where l: "i2c_fill h = Suc l" using assms by (cases "i2c_fill h") (auto simp: i2c_queue_wf_def)
  have w: "0 < ?n" "length ?q = ?n" "pTrHead h < ?n" "Suc l \<le> ?n" "pTrTail h = (pTrHead h + Suc l) mod ?n"
    using assms l by (auto simp: i2c_queue_wf_def word_less_nat_alt)
  have t: "i2c_next h (pTrHead h) = Suc (pTrHead h) mod ?n" by (rule next_mod[OF w(3)])
  have tl: "pTrTail h = (Suc (pTrHead h) mod ?n + l) mod ?n" using w(5) by (simp add: mod_add_left_eq)
  have f: "Suc (pTrHead h) mod ?n = pTrTail h \<longleftrightarrow> l = 0"
    using w ring_distinct[of 0 l ?n "pTrHead h" 1] by (cases "l = 0") auto
  let ?h = "i2c_dequeue h"
  have E: "i2c_tr_queue ?h = ?q" "pTrHead ?h = Suc (pTrHead h) mod ?n" "pTrTail ?h = pTrTail h" "queue_len ?h = queue_len h"
    "\<not> tr_full ?h" "tr_empty ?h \<longleftrightarrow> l = 0"
    using assms(2) f by (auto simp: i2c_dequeue_def t Let_def)
  have p: "0 < queue_len ?h" "length (i2c_tr_queue ?h) = unat (queue_len ?h)" "pTrHead ?h < unat (queue_len ?h)"
    "pTrTail ?h = (pTrHead ?h + l) mod unat (queue_len ?h)" "l \<le> unat (queue_len ?h)"
    "tr_empty ?h \<longleftrightarrow> l = 0" "tr_full ?h \<longleftrightarrow> l = unat (queue_len ?h)"
    using E w tl by (simp_all add: word_less_nat_alt)
  show "i2c_queue_wf ?h" by (rule queue_wfI(1)[OF p])
  have "i2c_contents ?h = ring ?n (Suc (pTrHead h) mod ?n) l ?q" using queue_wfI(2)[OF p] by (simp only: E)
  then show "i2c_contents h = ?q ! pTrHead h # i2c_contents ?h"
    using ring_get[of ?n "pTrHead h" l ?q] w(3) l by (simp add: i2c_contents_def)
  show "queue_len ?h = queue_len h" by (rule E)
qed

interpretation i2cq: bounded_queue i2c_enqueue i2c_dequeue tr_full tr_empty "\<lambda>h. i2c_tr_queue h ! pTrHead h" i2c_contents
  i2c_queue_wf "\<lambda>h. unat (queue_len h)"
proof unfold_locales
  fix h :: i2c_handle and e
  assume w: "i2c_queue_wf h"
  then show "tr_full h \<longleftrightarrow> length (i2c_contents h) = unat (queue_len h)" "tr_empty h \<longleftrightarrow> i2c_contents h = []"
    "length (i2c_contents h) \<le> unat (queue_len h)"
    by (auto simp: i2c_queue_wf_def i2c_contents_def simp flip: length_0_conv)
  show "i2c_queue_wf (i2c_enqueue e h) \<and> i2c_contents (i2c_enqueue e h) = i2c_contents h @ [e] \<and>
      unat (queue_len (i2c_enqueue e h)) = unat (queue_len h)" if "\<not> tr_full h"
    using enqueue_ok[OF w that, of e] by simp
  show "i2c_queue_wf (i2c_dequeue h) \<and> i2c_contents h = i2c_tr_queue h ! pTrHead h # i2c_contents (i2c_dequeue h) \<and>
      unat (queue_len (i2c_dequeue h)) = unat (queue_len h)" if "\<not> tr_empty h"
    by (intro conjI dequeue_ok(1,2)[OF w that]) (simp only: dequeue_ok(3)[OF w that])
qed

end
