(* ===== verification/I2C_Message.thy ===== *)
theory I2C_Message
  imports I2C_Queue
begin

section \<open>Messages on the I2C bus\<close>

text \<open>
  A message is a list of transaction blocks. With a slave that acknowledges everything, the interrupts
  of a message issue the commands of its blocks one after the other. A transfer is a block with
  the bytes the slave sends during it (none for a write); the lemmas follow a block through its
  interrupts, and the message by induction on its blocks.
\<close>

subsection \<open>Interrupts of a slave that acknowledges\<close>

definition i2c_irq :: "bool \<Rightarrow> u8 \<Rightarrow> i2c_handle \<Rightarrow> i2c_handle option" where
  "i2c_irq nack b h = I2C_Master_ProcessInterrupt (h\<lparr>stat_ACKSTAT := nack, reg_RCV := ucast b\<rparr>)"

primrec i2c_acks :: "u8 list \<Rightarrow> i2c_handle \<Rightarrow> i2c_handle option" where
  "i2c_acks [] h = Some h"
| "i2c_acks (b # bs) h = Option.bind (i2c_irq False b h) (i2c_acks bs)"

lemma acks_append: "i2c_acks (as @ bs) h = Option.bind (i2c_acks as h) (i2c_acks bs)"
proof (induction as arbitrary: h)
  case (Cons a as)
  then show ?case by (cases "i2c_irq False a h") simp_all
qed simp

lemma acks_Cons: "i2c_irq False b h = Some h' \<Longrightarrow> i2c_acks (b # bs) h = i2c_acks bs h'"
  by simp

lemma acks_step: "i2c_acks as h = Some h' \<Longrightarrow> i2c_acks (as @ bs) h = i2c_acks bs h'"
  by (simp add: acks_append)

subsection \<open>What a message does\<close>

abbreviation trb_reads :: "i2c_trb \<Rightarrow> bool" where
  "trb_reads t \<equiv> trb_address t AND 0x01 \<noteq> 0"

definition trb_10bit :: "i2c_trb \<Rightarrow> bool" where
  "trb_10bit t \<longleftrightarrow> 0xFF < trb_address t"

definition addr_high :: "i2c_trb \<Rightarrow> u16" where
  "addr_high t = 0xF0 OR (drop_bit 8 (trb_address t) AND 0x0006)"

definition addr_ops :: "i2c_trb \<Rightarrow> i2c_command list" where
  "addr_ops t =
     (if \<not> trb_10bit t then [Bus_Tx (trb_address t)]
      else [Bus_Tx (addr_high t), Bus_Tx (drop_bit 1 (trb_address t) AND 0xFF)] @
        (if trb_reads t then [Bus_Restart, Bus_Tx (addr_high t OR 1)] else []))"

primrec write_ops :: "(u16 \<Rightarrow> u8) \<Rightarrow> u16 \<Rightarrow> nat \<Rightarrow> i2c_command list" where
  "write_ops m p 0 = []"
| "write_ops m p (Suc n) = Bus_Tx (ucast (m p)) # write_ops m (p + 1) n"

text \<open>Every byte but the last is acknowledged.\<close>

fun read_ops :: "u8 list \<Rightarrow> i2c_command list" where
  "read_ops [] = []"
| "read_ops [b] = [Bus_Receive, Bus_Ack False]"
| "read_ops (b # bs) = Bus_Receive # Bus_Ack True # read_ops bs"

primrec read_ram :: "u16 \<Rightarrow> u8 list \<Rightarrow> (u16 \<Rightarrow> u8) \<Rightarrow> u16 \<Rightarrow> u8" where
  "read_ram p [] m = m"
| "read_ram p (b # bs) m = read_ram (p + 1) bs (m(p := b))"

definition trb_ops :: "(u16 \<Rightarrow> u8) \<Rightarrow> i2c_trb \<Rightarrow> u8 list \<Rightarrow> i2c_command list" where
  "trb_ops m t bs = addr_ops t @
     (if trb_reads t then read_ops bs else write_ops m (trb_pbuffer t) (unat (trb_length t)))"

definition trb_ram :: "i2c_trb \<Rightarrow> u8 list \<Rightarrow> (u16 \<Rightarrow> u8) \<Rightarrow> u16 \<Rightarrow> u8" where
  "trb_ram t bs m = (if trb_reads t then read_ram (trb_pbuffer t) bs m else m)"

primrec msg_ops :: "(u16 \<Rightarrow> u8) \<Rightarrow> (i2c_trb \<times> u8 list) list \<Rightarrow> i2c_command list" where
  "msg_ops m [] = []"
| "msg_ops m (x # xs) = trb_ops m (fst x) (snd x) @
     (if xs = [] then [Bus_Stop] else Bus_Restart # msg_ops (trb_ram (fst x) (snd x) m) xs)"

primrec msg_ram :: "(i2c_trb \<times> u8 list) list \<Rightarrow> (u16 \<Rightarrow> u8) \<Rightarrow> u16 \<Rightarrow> u8" where
  "msg_ram [] m = m"
| "msg_ram (x # xs) m = msg_ram xs (trb_ram (fst x) (snd x) m)"

text \<open>The received bytes at the interrupts of a message: 0 where none is received.\<close>

definition trb_rx :: "i2c_trb \<Rightarrow> u8 list \<Rightarrow> u8 list" where
  "trb_rx t bs = replicate (if \<not> trb_10bit t then 1 else if trb_reads t then 4 else 2) 0 @
     (if trb_reads t then concat (map (\<lambda>b. [0, b]) bs) else replicate (unat (trb_length t)) 0) @ [0]"

definition msg_rx :: "(i2c_trb \<times> u8 list) list \<Rightarrow> u8 list" where
  "msg_rx xs = concat (map (\<lambda>x. trb_rx (fst x) (snd x)) xs)"

text \<open>The slave sends as many bytes as the block asks for; the length 0 asks for 256.\<close>

definition trb_ok :: "i2c_trb \<times> u8 list \<Rightarrow> bool" where
  "trb_ok x \<longleftrightarrow> (trb_reads (fst x) \<longrightarrow>
     length (snd x) = (if trb_length (fst x) = 0 then 256 else unat (trb_length (fst x))))"

lemma count_down: "(if n = 0 then 256 else unat n) = Suc (unat (n - 1))" for n :: u8
proof (cases "n = 0")
  case False
  then have "unat n \<noteq> 0" by (simp add: unat_eq_zero)
  with False show ?thesis by (simp add: unat_minus_one)
next
  case True
  have "unat (0 - 1 :: u8) = 255" by code_simp
  with True show ?thesis by simp
qed

subsection \<open>One block\<close>

text \<open>The state between two interrupts: state, address, pointer, bytes left, block, blocks left, memory and
  commands. What belongs to the queue and the caller is as in \<open>h0\<close>.\<close>

definition i2c_same :: "i2c_handle \<Rightarrow> i2c_handle \<Rightarrow> bool" where
  "i2c_same h0 h \<longleftrightarrow>
     trbs h = trbs h0 \<and> i2c_tr_queue h = i2c_tr_queue h0 \<and> p_i2c1_current h = p_i2c1_current h0 \<and>
     pTrHead h = pTrHead h0 \<and> pTrTail h = pTrTail h0 \<and> tr_full h = tr_full h0 \<and> tr_empty h = tr_empty h0 \<and>
     queue_len h = queue_len h0 \<and> i2cErrors h = i2cErrors h0 \<and> \<not> stat_IWCOL h"

definition i2c_st ::
  "i2c_handle \<Rightarrow> i2c_state \<Rightarrow> u16 \<Rightarrow> u16 \<Rightarrow> u8 \<Rightarrow> nat \<Rightarrow> u8 \<Rightarrow> (u16 \<Rightarrow> u8) \<Rightarrow> i2c_command list \<Rightarrow> i2c_handle \<Rightarrow> bool" where
  "i2c_st h0 st ad p left cur cnt m log h \<longleftrightarrow>
     i2c1_state h = st \<and> i2c_address h = ad \<and> pi2c_buf_ptr h = p \<and> i2c_bytes_left h = left \<and>
     p_i2c1_trb_current h = cur \<and> i2c1_trb_count h = cnt \<and> ram h = m \<and> bus h = log \<and>
     i2c_10bit_address_restart h \<noteq> 1 \<and> flags h = flags h0 \<and> i2c_same h0 h"

lemmas i2c_steps = i2c_irq_def I2C_Master_ProcessInterrupt_def i2c_do_def i2c_goto_def i2c_st_def i2c_same_def Let_def

text \<open>Sending the address loads the block.\<close>

lemma addr7:
  assumes "i2c_st h0 S_MASTER_SEND_ADDR ad p left cur cnt m log h" and "trbs h0 cur = t" and "\<not> trb_10bit t"
  shows "\<exists>h'. i2c_irq False b h = Some h' \<and>
    i2c_st h0 (if trb_reads t then S_MASTER_ACK_ADDR else S_MASTER_SEND_DATA) (trb_address t) (trb_pbuffer t) (trb_length t)
      cur cnt m (log @ [Bus_Tx (trb_address t)]) h'"
  using assms by (simp add: i2c_steps i2c_send_addr_def trb_10bit_def)

lemma restart_address: "\<not> 0xFF < (0xF0 OR (a AND 6) OR 1 :: u16)" "(0xF0 OR (a AND 6) OR 1 :: u16) AND 1 = 1"
proof -
  have "0xF0 OR (a AND 6) OR 1 = (0xF0 OR (a AND 6) OR 1 :: u16) AND 0xFF" by (simp add: bit.conj_disj_distrib2 and.assoc)
  then have "(0xF0 OR (a AND 6) OR 1 :: u16) \<le> 0xFF" by (metis word_and_le1)
  then show "\<not> 0xFF < (0xF0 OR (a AND 6) OR 1 :: u16)" by simp
  show "(0xF0 OR (a AND 6) OR 1 :: u16) AND 1 = 1" by (simp add: bit.conj_disj_distrib2)
qed

lemma addr10:
  assumes "i2c_st h0 S_MASTER_SEND_ADDR ad p left cur cnt m log h" and "trbs h0 cur = t" and "trb_10bit t"
  shows "\<exists>h'. i2c_acks (if trb_reads t then [0, 0, 0, 0] else [0, 0]) h = Some h' \<and>
    i2c_st h0 (if trb_reads t then S_MASTER_ACK_ADDR else S_MASTER_SEND_DATA)
      (if trb_reads t then addr_high t OR 1 else trb_address t) (trb_pbuffer t) (trb_length t)
      cur cnt m (log @ addr_ops t) h'"
proof -
  let ?l = "log @ [Bus_Tx (addr_high t)]" and ?l2 = "log @ [Bus_Tx (addr_high t), Bus_Tx (drop_bit 1 (trb_address t) AND 0xFF)]"
  obtain h1 where 1: "i2c_irq False 0 h = Some h1"
    "i2c_st h0 S_MASTER_SEND_ADDR_10BIT_LSB (trb_address t) (trb_pbuffer t) (trb_length t) cur cnt m ?l h1"
    using assms by (simp add: i2c_steps i2c_send_addr_def trb_10bit_def addr_high_def)
  obtain h2 where 2: "i2c_irq False 0 h1 = Some h2"
    "i2c_st h0 (if trb_reads t then S_MASTER_10BIT_RESTART else S_MASTER_SEND_DATA)
      (trb_address t) (trb_pbuffer t) (trb_length t) cur cnt m ?l2 h2"
    using 1(2) by (simp add: i2c_steps i2c_send_addr_lsb_def)
  show ?thesis
  proof (cases "trb_reads t")
    case False
    then show ?thesis using 1(1) 2 assms(3) by (simp add: addr_ops_def)
  next
    case True
    obtain h3 where 3: "i2c_irq False 0 h2 = Some h3" "i2c1_state h3 = S_MASTER_SEND_ADDR"
      "i2c_st h0 S_MASTER_SEND_ADDR (addr_high t OR 1) (trb_pbuffer t) (trb_length t) cur cnt m (?l2 @ [Bus_Restart])
        (h3\<lparr>i2c_10bit_address_restart := 0\<rparr>)" "i2c_10bit_address_restart h3 = 1"
      using 2(2) True by (simp add: i2c_steps i2c_10bit_restart_def addr_high_def or.assoc)
    define A where "A = addr_high t OR 1"
    have a: "\<not> 0xFF < A" "A AND 1 = 1"
      unfolding A_def addr_high_def or.assoc by (rule restart_address)+
    note 3 = 3[folded A_def]
    have "i2c_address h3 = A" using 3(3) by (simp add: i2c_st_def)
    then obtain h4 where 4: "i2c_irq False 0 h3 = Some h4"
      "i2c_st h0 S_MASTER_ACK_ADDR A (trb_pbuffer t) (trb_length t) cur cnt m (?l2 @ [Bus_Restart, Bus_Tx A]) h4"
      using 3(2-4) a by (simp add: i2c_steps i2c_send_addr_def)
    have "i2c_acks [0, 0, 0, 0] h = Some h4"
      by (simp only: acks_Cons[OF 1(1)] acks_Cons[OF 2(1)] acks_Cons[OF 3(1)] acks_Cons[OF 4(1)] i2c_acks.simps(1))
    then show ?thesis using True 4(2) assms(3) unfolding addr_ops_def A_def[symmetric] by simp
  qed
qed

text \<open>The data of a write.\<close>

lemma write_data:
  assumes "i2c_st h0 S_MASTER_SEND_DATA ad p left cur cnt m log h"
  shows "\<exists>h' ad' p'. i2c_acks (replicate (unat left) 0) h = Some h' \<and>
    i2c_st h0 S_MASTER_SEND_DATA ad' p' 0 cur cnt m (log @ write_ops m p (unat left)) h'"
  using assms
proof (induction "unat left" arbitrary: left p log h)
  case 0
  then have "left = 0" by (simp add: unat_eq_zero)
  then show ?case using 0(2) by auto
next
  case (Suc n)
  have nz: "left \<noteq> 0" using Suc(2) by auto
  then have l: "unat (left - 1) = n" using Suc(2) by (simp add: unat_minus_one)
  obtain h1 where 1: "i2c_irq False 0 h = Some h1"
    "i2c_st h0 S_MASTER_SEND_DATA ad (p + 1) (left - 1) cur cnt m (log @ [Bus_Tx (ucast (m p))]) h1"
    using Suc(3) nz by (simp add: i2c_steps i2c_send_data_def)
  from Suc(1)[OF l[symmetric] 1(2)] obtain h' ad' p' where
    2: "i2c_acks (replicate n 0) h1 = Some h'" "i2c_st h0 S_MASTER_SEND_DATA ad' p' 0 cur cnt m
      ((log @ [Bus_Tx (ucast (m p))]) @ write_ops m (p + 1) n) h'" unfolding l by blast
  have "i2c_acks (replicate (unat left) 0) h = Some h'" unfolding Suc(2)[symmetric] using 1(1) 2(1) by simp
  moreover have "i2c_st h0 S_MASTER_SEND_DATA ad' p' 0 cur cnt m (log @ write_ops m p (unat left)) h'"
    unfolding Suc(2)[symmetric] using 2(2) by simp
  ultimately show ?case by blast
qed

text \<open>The data of a read: the receiver is enabled in \<open>S_MASTER_ACK_ADDR\<close> for the first byte and in
  \<open>S_MASTER_RCV_DATA\<close> for the others.\<close>

lemma read_data:
  assumes "i2c_st h0 st ad p left cur cnt m log h" and "st = S_MASTER_ACK_ADDR \<or> st = S_MASTER_RCV_DATA"
    and "length bs = Suc (unat (left - 1))"
  shows "\<exists>h' ad' p' left'. i2c_acks (concat (map (\<lambda>b. [0, b]) bs)) h = Some h' \<and>
    i2c_st h0 (if cnt = 1 then S_MASTER_SEND_STOP else S_MASTER_RESTART) ad' p' left' (cur + 1) (cnt - 1)
      (read_ram p bs m) (log @ read_ops bs) h'"
  using assms
proof (induction bs arbitrary: st p left m log h)
  case (Cons b bs)
  have l: "unat (left - 1) = length bs" using Cons.prems(3) by simp
  obtain h1 where 1: "i2c_irq False 0 h = Some h1"
    "i2c_st h0 S_MASTER_ACK_RCV_DATA ad p left cur cnt m (log @ [Bus_Receive]) h1"
    using Cons(2,3) by (elim disjE) (simp_all add: i2c_steps i2c_ack_addr_def)
  have u: "ucast (ucast b :: u16) = b" using unat_u8[of b] by (simp add: word_unat_eq_iff unat_ucast_mod)
  show ?case
  proof (cases bs)
    case Nil
    then have l1: "left - 1 = 0" using l by (simp add: unat_eq_zero)
    obtain h2 where 2: "i2c_irq False b h1 = Some h2"
      "i2c_st h0 (if cnt = 1 then S_MASTER_SEND_STOP else S_MASTER_RESTART) ad (p + 1) (left - 1) (cur + 1) (cnt - 1)
        (m(p := b)) (log @ [Bus_Receive, Bus_Ack False]) h2"
      using 1(2) l1 by (simp add: i2c_steps i2c_ack_rcv_data_def I2C_Master_FunctionComplete_def u)
    have "i2c_acks [0, b] h = Some h2" by (simp only: acks_Cons[OF 1(1)] acks_Cons[OF 2(1)] i2c_acks.simps(1))
    then show ?thesis using 2(2) unfolding Nil list.map concat.simps append_Nil2 read_ram.simps read_ops.simps by blast
  next
    case c: (Cons c cs)
    then have l1: "left - 1 \<noteq> 0" using l by (auto simp: unat_eq_zero)
    obtain h2 where 2: "i2c_irq False b h1 = Some h2"
      "i2c_st h0 S_MASTER_RCV_DATA ad (p + 1) (left - 1) cur cnt (m(p := b)) (log @ [Bus_Receive, Bus_Ack True]) h2"
      using 1(2) l1 by (simp add: i2c_steps i2c_ack_rcv_data_def u)
    have l2: "length bs = Suc (unat (left - 1 - 1))" using count_down[of "left - 1"] l l1 by simp
    have d: "S_MASTER_RCV_DATA = S_MASTER_ACK_ADDR \<or> S_MASTER_RCV_DATA = S_MASTER_RCV_DATA" by simp
    from Cons.IH[OF 2(2) d l2] obtain h' ad' p' left' where
      3: "i2c_acks (concat (map (\<lambda>b. [0, b]) bs)) h2 = Some h'"
      "i2c_st h0 (if cnt = 1 then S_MASTER_SEND_STOP else S_MASTER_RESTART) ad' p' left' (cur + 1) (cnt - 1)
        (read_ram (p + 1) bs (m(p := b))) ((log @ [Bus_Receive, Bus_Ack True]) @ read_ops bs) h'" by blast
    have "i2c_acks (concat (map (\<lambda>b. [0, b]) (b # bs))) h = Some h'" using 1(1) 2(1) 3(1) by simp
    moreover have "log @ read_ops (b # bs) = (log @ [Bus_Receive, Bus_Ack True]) @ read_ops bs" using c by simp
    ultimately show ?thesis using 3(2) by (metis read_ram.simps(2))
  qed
qed simp

text \<open>The last interrupt of a block: the next one is started or the message ends.\<close>

definition i2c_done :: "i2c_handle \<Rightarrow> nat \<Rightarrow> (u16 \<Rightarrow> u8) \<Rightarrow> i2c_command list \<Rightarrow> i2c_handle \<Rightarrow> bool" where
  "i2c_done h0 f m log h \<longleftrightarrow>
     i2c1_state h = S_MASTER_IDLE \<and> ram h = m \<and> bus h = log \<and> i2c_10bit_address_restart h \<noteq> 1 \<and>
     flags h = (flags h0)(f := I2C_MESSAGE_COMPLETE) \<and> i2c_same h0 h"

definition i2c_after ::
  "i2c_handle \<Rightarrow> nat \<Rightarrow> nat \<Rightarrow> u8 \<Rightarrow> (u16 \<Rightarrow> u8) \<Rightarrow> i2c_command list \<Rightarrow> i2c_handle \<Rightarrow> bool" where
  "i2c_after h0 f cur cnt m log h \<longleftrightarrow>
     (if cnt = 1 then i2c_done h0 f m (log @ [Bus_Stop]) h
      else \<exists>ad p left. i2c_st h0 S_MASTER_SEND_ADDR ad p left (cur + 1) (cnt - 1) m (log @ [Bus_Restart]) h)"

lemma write_end:
  assumes "i2c_st h0 S_MASTER_SEND_DATA ad p 0 cur cnt m log h"
    and "p_i2c1_current h0 = Some i" and "qe_pTrFlag (i2c_tr_queue h0 ! i) = Some f"
  shows "\<exists>h'. i2c_irq False b h = Some h' \<and> i2c_after h0 f cur cnt m log h'"
proof (cases "cnt = 1")
  case True
  then show ?thesis using assms
    by (simp add: i2c_steps i2c_send_data_def I2C_Master_Stop_def i2c_after_def i2c_done_def)
next
  case False
  then show ?thesis using assms
    by (simp add: i2c_steps i2c_send_data_def i2c_after_def i2c_done_def)
qed

lemma read_end:
  assumes "i2c_st h0 (if cnt = 1 then S_MASTER_SEND_STOP else S_MASTER_RESTART) ad p left (cur + 1) (cnt - 1) m log h"
    and "p_i2c1_current h0 = Some i" and "qe_pTrFlag (i2c_tr_queue h0 ! i) = Some f"
  shows "\<exists>h'. i2c_irq False b h = Some h' \<and> i2c_after h0 f cur cnt m log h'"
proof (cases "cnt = 1")
  case True
  then show ?thesis using assms
    by (simp add: i2c_steps I2C_Master_Stop_def i2c_after_def i2c_done_def)
next
  case False
  then show ?thesis using assms by (simp add: i2c_steps i2c_after_def i2c_done_def)
qed

lemma block_ok:
  assumes "i2c_st h0 S_MASTER_SEND_ADDR ad p left cur cnt m log h" and "trbs h0 cur = t" and "trb_ok (t, bs)"
    and "p_i2c1_current h0 = Some i" and "qe_pTrFlag (i2c_tr_queue h0 ! i) = Some f"
  shows "\<exists>h'. i2c_acks (trb_rx t bs) h = Some h' \<and> i2c_after h0 f cur cnt (trb_ram t bs m) (log @ trb_ops m t bs) h'"
proof -
  let ?pre = "replicate (if \<not> trb_10bit t then 1 else if trb_reads t then 4 else 2) (0 :: u8)"
  obtain h1 ad1 where 1: "i2c_acks ?pre h = Some h1"
    "i2c_st h0 (if trb_reads t then S_MASTER_ACK_ADDR else S_MASTER_SEND_DATA) ad1 (trb_pbuffer t) (trb_length t)
      cur cnt m (log @ addr_ops t) h1"
  proof (cases "trb_10bit t")
    case True
    have "replicate 4 (0 :: u8) = [0, 0, 0, 0]" "replicate 2 (0 :: u8) = [0, 0]" by (simp_all add: eval_nat_numeral)
    then have pre: "?pre = (if trb_reads t then [0, 0, 0, 0] else [0, 0])" using True by (cases "trb_reads t") (simp_all only: simp_thms if_False if_True)
    obtain h1 where "i2c_acks (if trb_reads t then [0, 0, 0, 0] else [0, 0]) h = Some h1"
      "i2c_st h0 (if trb_reads t then S_MASTER_ACK_ADDR else S_MASTER_SEND_DATA)
      (if trb_reads t then addr_high t OR 1 else trb_address t) (trb_pbuffer t) (trb_length t)
      cur cnt m (log @ addr_ops t) h1" using addr10[OF assms(1,2) True] by blast
    then show ?thesis by (intro that) (simp_all only: pre)
  next
    case False
    have pre: "?pre = [0]" "addr_ops t = [Bus_Tx (trb_address t)]" using False by (simp_all add: addr_ops_def)
    obtain h1 where 1: "i2c_irq False 0 h = Some h1"
      "i2c_st h0 (if trb_reads t then S_MASTER_ACK_ADDR else S_MASTER_SEND_DATA) (trb_address t) (trb_pbuffer t) (trb_length t)
      cur cnt m (log @ [Bus_Tx (trb_address t)]) h1" using addr7[OF assms(1,2) False, of 0] by blast
    have "i2c_acks ?pre h = Some h1" by (simp only: pre acks_Cons[OF 1(1)] i2c_acks.simps(1))
    then show ?thesis by (rule that) (use 1(2) in \<open>simp only: pre\<close>)
  qed
  show ?thesis
  proof (cases "trb_reads t")
    case True
    have bs: "length bs = Suc (unat (trb_length t - 1))"
      using assms(3) True count_down[of "trb_length t"] unfolding trb_ok_def fst_conv snd_conv by simp
    have st: "i2c_st h0 S_MASTER_ACK_ADDR ad1 (trb_pbuffer t) (trb_length t) cur cnt m (log @ addr_ops t) h1"
      using 1(2) by (simp only: True if_True simp_thms)
    obtain h2 ad2 p2 left2 where 2: "i2c_acks (concat (map (\<lambda>b. [0, b]) bs)) h1 = Some h2"
      "i2c_st h0 (if cnt = 1 then S_MASTER_SEND_STOP else S_MASTER_RESTART) ad2 p2 left2 (cur + 1) (cnt - 1)
        (read_ram (trb_pbuffer t) bs m) ((log @ addr_ops t) @ read_ops bs) h2"
      using read_data[OF st _ bs] by blast
    obtain h3 where 3: "i2c_irq False 0 h2 = Some h3"
      "i2c_after h0 f cur cnt (read_ram (trb_pbuffer t) bs m) ((log @ addr_ops t) @ read_ops bs) h3"
      using read_end[OF 2(2) assms(4,5)] by blast
    have "trb_rx t bs = ?pre @ concat (map (\<lambda>b. [0, b]) bs) @ [0]" unfolding trb_rx_def by (simp only: True if_True simp_thms)
    then have "i2c_acks (trb_rx t bs) h = Some h3"
      by (simp only: acks_step[OF 1(1)] acks_step[OF 2(1)] acks_Cons[OF 3(1)] i2c_acks.simps(1))
    moreover have "trb_ram t bs m = read_ram (trb_pbuffer t) bs m" "trb_ops m t bs = addr_ops t @ read_ops bs"
      unfolding trb_ram_def trb_ops_def by (simp_all only: True if_True simp_thms)
    ultimately show ?thesis using 3(2) by simp
  next
    case False
    have st: "i2c_st h0 S_MASTER_SEND_DATA ad1 (trb_pbuffer t) (trb_length t) cur cnt m (log @ addr_ops t) h1"
      using 1(2) by (simp only: False if_False)
    obtain h2 ad2 p2 where 2: "i2c_acks (replicate (unat (trb_length t)) 0) h1 = Some h2"
      "i2c_st h0 S_MASTER_SEND_DATA ad2 p2 0 cur cnt m ((log @ addr_ops t) @ write_ops m (trb_pbuffer t) (unat (trb_length t))) h2"
      using write_data[OF st] by blast
    obtain h3 where 3: "i2c_irq False 0 h2 = Some h3"
      "i2c_after h0 f cur cnt m ((log @ addr_ops t) @ write_ops m (trb_pbuffer t) (unat (trb_length t))) h3"
      using write_end[OF 2(2) assms(4,5)] by blast
    have "trb_rx t bs = ?pre @ replicate (unat (trb_length t)) 0 @ [0]" unfolding trb_rx_def by (simp only: False if_False)
    then have "i2c_acks (trb_rx t bs) h = Some h3"
      by (simp only: acks_step[OF 1(1)] acks_step[OF 2(1)] acks_Cons[OF 3(1)] i2c_acks.simps(1))
    moreover have "trb_ram t bs m = m" "trb_ops m t bs = addr_ops t @ write_ops m (trb_pbuffer t) (unat (trb_length t))"
      unfolding trb_ram_def trb_ops_def by (simp_all only: False if_False)
    ultimately show ?thesis using 3(2) by simp
  qed
qed

subsection \<open>A message\<close>

lemma blocks_ok:
  assumes "i2c_st h0 S_MASTER_SEND_ADDR ad p left cur (of_nat (length xs)) m log h"
    and "xs \<noteq> []" and "length xs < 256" and "\<forall>k<length xs. trbs h0 (cur + k) = fst (xs ! k)" and "\<forall>x\<in>set xs. trb_ok x"
    and "p_i2c1_current h0 = Some i" and "qe_pTrFlag (i2c_tr_queue h0 ! i) = Some f"
  shows "\<exists>h'. i2c_acks (msg_rx xs) h = Some h' \<and> i2c_done h0 f (msg_ram xs m) (log @ msg_ops m xs) h'"
  using assms(1-5)
proof (induction xs arbitrary: ad p left cur m log h)
  case (Cons x xs)
  obtain t bs where x: "x = (t, bs)" by (cases x)
  have t: "trbs h0 cur = t" "trb_ok (t, bs)" using Cons.prems(4)[rule_format, of 0] Cons.prems(5) x by auto
  obtain h1 where 1: "i2c_acks (trb_rx t bs) h = Some h1"
    "i2c_after h0 f cur (of_nat (length (x # xs))) (trb_ram t bs m) (log @ trb_ops m t bs) h1"
    using block_ok[OF Cons.prems(1) t assms(6,7)] by blast
  have u: "unat (of_nat (length (x # xs)) :: u8) = length (x # xs)" using Cons.prems(3) by (simp only: unat_of_nat) simp
  show ?case
  proof (cases "xs = []")
    case True
    then show ?thesis using 1 x by (simp add: i2c_after_def msg_rx_def)
  next
    case False
    then have "(of_nat (length (x # xs)) :: u8) \<noteq> 1" using u by (metis length_0_conv length_Cons One_nat_def Suc_inject unat_1)
    then obtain ad' p' left' where 2: "i2c_st h0 S_MASTER_SEND_ADDR ad' p' left' (cur + 1) (of_nat (length xs))
        (trb_ram t bs m) ((log @ trb_ops m t bs) @ [Bus_Restart]) h1"
      using 1(2) by (auto simp: i2c_after_def)
    have k: "length xs < 256" "\<forall>k<length xs. trbs h0 (cur + 1 + k) = fst (xs ! k)" "\<forall>x\<in>set xs. trb_ok x"
      using Cons.prems(3-5) by (auto dest: spec[of _ "Suc _"])
    obtain h' where 3: "i2c_acks (msg_rx xs) h1 = Some h'"
      "i2c_done h0 f (msg_ram xs (trb_ram t bs m)) (((log @ trb_ops m t bs) @ [Bus_Restart]) @ msg_ops (trb_ram t bs m) xs) h'"
      using Cons.IH[OF 2 False k] by blast
    have "msg_rx (x # xs) = trb_rx t bs @ msg_rx xs" by (simp add: msg_rx_def x)
    then have "i2c_acks (msg_rx (x # xs)) h = Some h'" by (simp only: acks_step[OF 1(1)] 3(1))
    then show ?thesis using 3(2) False by (auto simp: x)
  qed
qed simp

lemma contents_same: "i2c_same h0 h \<Longrightarrow> i2c_contents h = i2c_contents h0 \<and> i2c_queue_wf h = i2c_queue_wf h0"
  using queue_cong[of h h0] by (simp add: i2c_same_def)

lemma message_ok:
  assumes "i2c_queue_wf h" and "i2c_contents h = \<lparr>qe_count = of_nat (length xs), qe_ptrb_list = ptr, qe_pTrFlag = Some f\<rparr> # rest"
    and "i2c1_state h = S_MASTER_IDLE" and "\<not> stat_IWCOL h" and "i2c_10bit_address_restart h \<noteq> 1"
    and "xs \<noteq> []" and "length xs < 256" and "\<forall>k<length xs. trbs h (ptr + k) = fst (xs ! k)" and "\<forall>x\<in>set xs. trb_ok x"
  shows "\<exists>h'. i2c_acks (0 # msg_rx xs) h = Some h' \<and> i2c1_state h' = S_MASTER_IDLE \<and> i2c_queue_wf h' \<and> i2c_contents h' = rest \<and>
    bus h' = bus h @ Bus_Start # msg_ops (ram h) xs \<and> ram h' = msg_ram xs (ram h) \<and>
    flags h' = (flags h)(f := I2C_MESSAGE_COMPLETE) \<and> i2cErrors h' = i2cErrors h"
proof -
  have ne: "\<not> tr_empty h" using assms(2) i2cq.void_iff[OF assms(1)] by simp
  note D = dequeue_ok[OF assms(1) ne]
  let ?e = "i2c_tr_queue h ! pTrHead h"
  have e: "?e = \<lparr>qe_count = of_nat (length xs), qe_ptrb_list = ptr, qe_pTrFlag = Some f\<rparr>" "i2c_contents (i2c_dequeue h) = rest"
    using D(2) assms(2) by simp_all
  let ?h0 = "i2c_dequeue h"
  have d: "p_i2c1_current ?h0 = Some (pTrHead h)" "i2c_tr_queue ?h0 = i2c_tr_queue h" "trbs ?h0 = trbs h" "flags ?h0 = flags h"
    "ram ?h0 = ram h" "bus ?h0 = bus h" "i2cErrors ?h0 = i2cErrors h" "p_i2c1_trb_current ?h0 = ptr"
    "i2c1_trb_count ?h0 = of_nat (length xs)" "i2c_10bit_address_restart ?h0 \<noteq> 1" "\<not> stat_IWCOL ?h0"
    using e(1) assms(4,5) by (auto simp: i2c_dequeue_def Let_def)
  have q: "i2c_dequeue (h\<lparr>stat_ACKSTAT := a, reg_RCV := b, reg_IFS := c\<rparr>) =
      (i2c_dequeue h)\<lparr>stat_ACKSTAT := a, reg_RCV := b, reg_IFS := c\<rparr>" for a b c
    by (simp add: i2c_dequeue_def i2c_next_def Let_def)
  obtain h1 where 1: "i2c_irq False 0 h = Some h1"
    "i2c_st ?h0 S_MASTER_SEND_ADDR (i2c_address h1) (pi2c_buf_ptr h1) (i2c_bytes_left h1) ptr (of_nat (length xs)) (ram h)
      (bus h @ [Bus_Start]) h1"
    using assms(3,4) ne d by (simp add: i2c_steps q)
  have fl: "qe_pTrFlag (i2c_tr_queue ?h0 ! pTrHead h) = Some f" using e(1) d(2) by simp
  have tr: "\<forall>k<length xs. trbs ?h0 (ptr + k) = fst (xs ! k)" using assms(8) d(3) by simp
  obtain h' where h': "i2c_acks (msg_rx xs) h1 = Some h'"
    "i2c_done ?h0 f (msg_ram xs (ram h)) ((bus h @ [Bus_Start]) @ msg_ops (ram h) xs) h'"
    using blocks_ok[OF 1(2) assms(6,7) tr assms(9) d(1) fl] by blast
  have same: "i2c_same ?h0 h'" using h'(2) by (simp add: i2c_done_def)
  have "i2c_acks (0 # msg_rx xs) h = Some h'" by (simp only: acks_Cons[OF 1(1)] h'(1))
  then show ?thesis using h'(2) contents_same[OF same] D(1) e(2) same d
    by (simp add: i2c_done_def i2c_same_def)
qed

end
