(* ===== verification/I2C_Props.thy ===== *)
theory I2C_Props
  imports I2C_Message
begin

section \<open>What the I2C driver guarantees\<close>

text \<open>
  Messages and the queue as the caller sees them, error handling, and two ways in which a caller is
  misled: the completion code of a message written to the flag of another one, and a transaction
  block that lives in a stack frame that is gone.
\<close>

subsection \<open>Errors\<close>

text \<open>The states in which the handler looks at the acknowledgement of the byte sent before.\<close>

definition i2c_waits_ack :: "i2c_handle \<Rightarrow> bool" where
  "i2c_waits_ack h \<longleftrightarrow>
     i2c1_state h \<in> {S_MASTER_SEND_ADDR_10BIT_LSB, S_MASTER_10BIT_RESTART, S_MASTER_SEND_DATA, S_MASTER_ACK_ADDR}"

lemma nack_ok:
  assumes "i2c_waits_ack h" and "\<not> stat_IWCOL h" and "p_i2c1_current h = Some i" and "qe_pTrFlag (i2c_tr_queue h ! i) = Some f"
  shows "\<exists>h'. i2c_irq True b h = Some h' \<and> i2c1_state h' = S_MASTER_IDLE \<and> bus h' = bus h @ [Bus_Stop] \<and>
    flags h' = (flags h)(f := if i2c1_state h = S_MASTER_SEND_DATA then I2C_DATA_NO_ACK else I2C_MESSAGE_ADDRESS_NO_ACK) \<and>
    i2cErrors h' = i2cErrors h + 1 \<and> ram h' = ram h \<and> i2c_contents h' = i2c_contents h"
proof -
  from assms show ?thesis
    by (auto simp: i2c_waits_ack_def i2c_irq_def I2C_Master_ProcessInterrupt_def i2c_send_addr_lsb_def i2c_10bit_restart_def
        i2c_send_data_def i2c_ack_addr_def I2C_Master_Stop_def i2c_error_def i2c_do_def i2c_goto_def Let_def intro!: queue_cong(1))
qed

lemma collision_ok:
  assumes "stat_IWCOL h" and "p_i2c1_current h = Some i" and "qe_pTrFlag (i2c_tr_queue h ! i) = Some f"
  shows "\<exists>h'. I2C_Master_ProcessInterrupt h = Some h' \<and> i2c1_state h' = S_MASTER_IDLE \<and> bus h' = bus h \<and>
    flags h' = (flags h)(f := I2C_MESSAGE_FAIL) \<and> \<not> stat_IWCOL h' \<and> p_i2c1_current h' = None"
  using assms by (simp add: I2C_Master_ProcessInterrupt_def i2c_collision_def i2c_goto_def Let_def)

subsection \<open>Insertion\<close>

lemma insert_ok:
  fixes h :: i2c_handle and count :: u8 and ptr f :: nat
  assumes "i2c_queue_wf h"
  defines "h' \<equiv> I2C_Master_TRBInsert count ptr f h"
  shows "if length (i2c_contents h) < unat (queue_len h)
    then i2c_queue_wf h' \<and> flags h' = (flags h)(f := I2C_MESSAGE_PENDING) \<and>
      i2c_contents h' = i2c_contents h @ [\<lparr>qe_count = count, qe_ptrb_list = ptr, qe_pTrFlag = Some f\<rparr>]
    else h' = h\<lparr>flags := (flags h)(f := I2C_MESSAGE_FAIL)\<rparr>"
proof -
  have full: "tr_full h \<longleftrightarrow> length (i2c_contents h) = unat (queue_len h)" by (rule i2cq.full_iff[OF assms(1)])
  show ?thesis
  proof (cases "tr_full h")
    case True
    then show ?thesis using full by (simp add: h'_def I2C_Master_TRBInsert_def)
  next
    case False
    let ?h1 = "h\<lparr>flags := (flags h)(f := I2C_MESSAGE_PENDING)\<rparr>"
    let ?e = "\<lparr>qe_count = count, qe_ptrb_list = ptr, qe_pTrFlag = Some f\<rparr>"
    have w: "i2c_queue_wf ?h1" "\<not> tr_full ?h1" "i2c_contents ?h1 = i2c_contents h"
      using assms(1) False queue_cong[of ?h1 h] by simp_all
    note E = enqueue_ok[OF w(1,2), of ?e]
    have s: "i2c_queue_wf (k\<lparr>reg_IFS := v\<rparr>) = i2c_queue_wf k" "i2c_contents (k\<lparr>reg_IFS := v\<rparr>) = i2c_contents k" for k v
      by (rule queue_cong; simp)+
    have fl: "flags (i2c_enqueue ?e ?h1) = (flags h)(f := I2C_MESSAGE_PENDING)" by (simp add: i2c_enqueue_def Let_def)
    have l: "length (i2c_contents h) < unat (queue_len h)"
      using full False i2cq.bound[OF assms(1)] by simp
    show ?thesis using l E w(3) False fl by (simp add: h'_def I2C_Master_TRBInsert_def Let_def s)
  qed
qed

lemma insert_fields [simp]:
  "i2c1_state (I2C_Master_TRBInsert c p f h) = i2c1_state h" "stat_IWCOL (I2C_Master_TRBInsert c p f h) = stat_IWCOL h"
  "i2c_10bit_address_restart (I2C_Master_TRBInsert c p f h) = i2c_10bit_address_restart h"
  "ram (I2C_Master_TRBInsert c p f h) = ram h" "bus (I2C_Master_TRBInsert c p f h) = bus h"
  by (simp_all add: I2C_Master_TRBInsert_def i2c_enqueue_def Let_def)

subsection \<open>A flag that is overwritten\<close>

lemma ring_last_slot:
  assumes "i2c_queue_wf h" and "tr_full h"
  shows "pTrTail h = pTrHead h"
  using assms by (simp add: i2c_queue_wf_def)

lemma start_ok:
  assumes "i2c1_state h = S_MASTER_IDLE" and "\<not> stat_IWCOL h" and "\<not> tr_empty h"
  shows "\<exists>h1. i2c_irq False 0 h = Some h1 \<and> h1 = (i2c_dequeue h)\<lparr>i2c1_state := S_MASTER_SEND_ADDR, bus := bus h @ [Bus_Start],
    stat_ACKSTAT := False, reg_RCV := 0, reg_IFS := reg_IFS h AND NOT (push_bit (unat (IFSOffset_M h)) 1)\<rparr>"
  using assms by (simp add: i2c_irq_def I2C_Master_ProcessInterrupt_def i2c_dequeue_def i2c_next_def i2c_do_def i2c_goto_def Let_def)

lemma flag_overwritten:
  assumes "i2c_queue_wf h" and "tr_full h"
    and "i2c_contents h = \<lparr>qe_count = of_nat (length xs), qe_ptrb_list = ptr, qe_pTrFlag = Some f\<rparr> # rest"
    and "i2c1_state h = S_MASTER_IDLE" and "\<not> stat_IWCOL h" and "i2c_10bit_address_restart h \<noteq> 1"
    and "xs \<noteq> []" and "length xs < 256" and "\<forall>k<length xs. trbs h (ptr + k) = fst (xs ! k)" and "\<forall>x\<in>set xs. trb_ok x"
  shows "\<exists>h1 h'. i2c_irq False 0 h = Some h1 \<and> i2c_acks (msg_rx xs) (I2C_Master_TRBInsert c p g h1) = Some h' \<and>
    flags h' = (flags h)(g := I2C_MESSAGE_COMPLETE) \<and> i2c1_state h' = S_MASTER_IDLE \<and>
    i2c_contents h' = rest @ [\<lparr>qe_count = c, qe_ptrb_list = p, qe_pTrFlag = Some g\<rparr>]"
proof -
  have ne: "\<not> tr_empty h" using assms(3) i2cq.void_iff[OF assms(1)] by simp
  note D = dequeue_ok[OF assms(1) ne]
  have e: "i2c_tr_queue h ! pTrHead h = \<lparr>qe_count = of_nat (length xs), qe_ptrb_list = ptr, qe_pTrFlag = Some f\<rparr>"
    "i2c_contents (i2c_dequeue h) = rest" using D(2) assms(3) by simp_all
  obtain h1 where h1: "i2c_irq False 0 h = Some h1" "h1 = (i2c_dequeue h)\<lparr>i2c1_state := S_MASTER_SEND_ADDR, bus := bus h @ [Bus_Start],
    stat_ACKSTAT := False, reg_RCV := 0, reg_IFS := reg_IFS h AND NOT (push_bit (unat (IFSOffset_M h)) 1)\<rparr>"
    using start_ok[OF assms(4,5) ne] by blast
  let ?e = "\<lparr>qe_count = c, qe_ptrb_list = p, qe_pTrFlag = Some g\<rparr>"
  let ?h2 = "I2C_Master_TRBInsert c p g h1"
  have wf1: "i2c_queue_wf h1" "i2c_contents h1 = rest" "queue_len h1 = queue_len h"
    using D(1,3) e(2) queue_cong[of h1 "i2c_dequeue h"] by (simp_all add: h1(2))
  have nf: "\<not> tr_full h1" by (simp add: h1(2) i2c_dequeue_def Let_def)
  have "length rest < unat (queue_len h)" using i2cq.full_iff[OF assms(1)] assms(2,3) by simp
  then have ins: "i2c_contents ?h2 = rest @ [?e]" using insert_ok[OF wf1(1), of c p g] wf1(2,3) by simp
  have slot: "pTrTail h1 = pTrHead h" using ring_last_slot[OF assms(1,2)] by (simp add: h1(2) i2c_dequeue_def Let_def)
  have len: "pTrHead h < length (i2c_tr_queue h)" using assms(1) by (simp add: i2c_queue_wf_def)
  have f2: "p_i2c1_current ?h2 = Some (pTrHead h)" "qe_pTrFlag (i2c_tr_queue ?h2 ! pTrHead h) = Some g"
    "flags ?h2 = (flags h)(g := I2C_MESSAGE_PENDING)" "trbs ?h2 = trbs h" "i2c1_state ?h2 = S_MASTER_SEND_ADDR"
    "p_i2c1_trb_current ?h2 = ptr" "i2c1_trb_count ?h2 = of_nat (length xs)" "\<not> stat_IWCOL ?h2"
    "i2c_10bit_address_restart ?h2 \<noteq> 1"
    using nf slot len e(1) assms(5,6)
    by (simp_all add: I2C_Master_TRBInsert_def i2c_enqueue_def Let_def h1(2) i2c_dequeue_def)
  have st: "i2c_st ?h2 S_MASTER_SEND_ADDR (i2c_address ?h2) (pi2c_buf_ptr ?h2) (i2c_bytes_left ?h2) ptr (of_nat (length xs))
      (ram ?h2) (bus ?h2) ?h2"
    using f2 by (simp add: i2c_st_def i2c_same_def)
  have tr: "\<forall>k<length xs. trbs ?h2 (ptr + k) = fst (xs ! k)" using assms(9) f2(4) by simp
  obtain h' where h': "i2c_acks (msg_rx xs) ?h2 = Some h'" "i2c_done ?h2 g (msg_ram xs (ram ?h2)) (bus ?h2 @ msg_ops (ram ?h2) xs) h'"
    using blocks_ok[OF st assms(7,8) tr assms(10) f2(1,2)] by blast
  have "i2c_same ?h2 h'" using h'(2) by (simp add: i2c_done_def)
  then show ?thesis using h1(1) h' ins f2(3) contents_same[of ?h2 h'] by (intro exI[of _ h1] exI[of _ h']) (simp add: i2c_done_def)
qed

subsection \<open>A handle to run the properties on\<close>

definition i2c_demo :: "i2c_queue_entry list \<Rightarrow> nat \<Rightarrow> i2c_trb \<Rightarrow> i2c_trb \<Rightarrow> i2c_handle" where
  "i2c_demo q k t0 t1 = \<lparr>i2c_tr_queue = q, i2c1_state = S_MASTER_IDLE, p_i2c1_trb_current = 0, p_i2c1_current = None,
     pTrTail = k mod 2, pTrHead = 0, tr_full = (k = 2), tr_empty = (k = 0), pi2c_buf_ptr = 0, i2c_address = 0, i2c1_trb_count = 0,
     queue_len = 2, i2cErrors = 0, i2c_bytes_left = 0, i2c_10bit_address_restart = 0, con_A10M = False,
     con_I2CEN = True, con_ACKDT = False, stat_IWCOL = False, stat_ACKSTAT = False, reg_BRG = 0, reg_RCV = 0,
     reg_IEC = 0, reg_IFS = 0, IECOffset_M = 1, IFSOffset_M = 1, trbs = (\<lambda>p. if p = 0 then t0 else t1),
     flags = (\<lambda>_. I2C_MESSAGE_PENDING), ram = (\<lambda>a. if a = 0x10 then 0x55 else 0), bus = []\<rparr>"

abbreviation demo_write :: i2c_trb where "demo_write \<equiv> \<lparr>trb_address = 0xA0, trb_length = 1, trb_pbuffer = 0x10\<rparr>"
abbreviation demo_read :: i2c_trb where "demo_read \<equiv> \<lparr>trb_address = 0xA1, trb_length = 2, trb_pbuffer = 0x20\<rparr>"
abbreviation demo_entry :: "u8 \<Rightarrow> nat \<Rightarrow> i2c_queue_entry" where
  "demo_entry n f \<equiv> \<lparr>qe_count = n, qe_ptrb_list = 0, qe_pTrFlag = Some f\<rparr>"

lemma demo_queue:
  assumes "length q = 2" and "k \<le> 2"
  shows "i2c_queue_wf (i2c_demo q k t0 t1)" "i2c_contents (i2c_demo q k t0 t1) = take k q"
proof -
  have k: "k = 0 \<or> k = 1 \<or> k = 2" using assms(2) by auto
  then have f: "i2c_fill (i2c_demo q k t0 t1) = k" by (auto simp: i2c_fill_def i2c_demo_def)
  show "i2c_queue_wf (i2c_demo q k t0 t1)" using assms(1) k by (auto simp: i2c_queue_wf_def f) (auto simp: i2c_demo_def)
  have "ring 2 0 k q = take k q"
    using assms by (intro nth_equalityI) (auto simp: ring_def)
  then show "i2c_contents (i2c_demo q k t0 t1) = take k q" unfolding i2c_contents_def f by (simp add: i2c_demo_def)
qed

subsection \<open>The properties\<close>

text \<open>(C24) When the driver is idle, with no collision and no 10 bit restart under way, the message at the head of the queue, any list of
  one to 255 transaction blocks with 7 or 10 bit addresses, its blocks in memory as they were inserted, is sent completely by the interrupts of a
  bus on which the slave acknowledges every byte and nothing collides: they give the controller a start, for each block its address
  and its bytes, repeated starts in between and one stop; the buffers of the reads hold the bytes received, the last byte of a read
  is not acknowledged; the flag of the message becomes \<open>I2C_MESSAGE_COMPLETE\<close>, no other flag
  changes, and the other entries stay in the queue.\<close>

theorem i2c_message_correct:
  assumes "i2c_queue_wf h" and "i2c_contents h = \<lparr>qe_count = of_nat (length xs), qe_ptrb_list = ptr, qe_pTrFlag = Some f\<rparr> # rest"
    and "i2c1_state h = S_MASTER_IDLE" and "\<not> stat_IWCOL h" and "i2c_10bit_address_restart h \<noteq> 1"
    and "xs \<noteq> []" and "length xs < 256" and "\<forall>k<length xs. trbs h (ptr + k) = fst (xs ! k)" and "\<forall>x\<in>set xs. trb_ok x"
  shows "\<exists>h'. i2c_acks (0 # msg_rx xs) h = Some h' \<and> i2c1_state h' = S_MASTER_IDLE \<and> i2c_queue_wf h' \<and> i2c_contents h' = rest \<and>
    bus h' = bus h @ Bus_Start # msg_ops (ram h) xs \<and> ram h' = msg_ram xs (ram h) \<and>
    flags h' = (flags h)(f := I2C_MESSAGE_COMPLETE) \<and> i2cErrors h' = i2cErrors h"
  by (rule message_ok[OF assms])

theorem i2c_message_correct_witness:
  "\<exists>h'. i2c_acks [0, 0, 0, 0, 0, 0, 7, 0, 8, 0] (i2c_demo [demo_entry 2 5, demo_entry 1 6] 1 demo_write demo_read) = Some h' \<and>
    bus h' = [Bus_Start, Bus_Tx 0xA0, Bus_Tx 0x55, Bus_Restart, Bus_Tx 0xA1, Bus_Receive, Bus_Ack True, Bus_Receive,
      Bus_Ack False, Bus_Stop] \<and> ram h' 0x21 = 8 \<and> flags h' 5 = I2C_MESSAGE_COMPLETE"
proof -
  let ?h = "i2c_demo [demo_entry 2 5, demo_entry 1 6] 1 demo_write demo_read"
  let ?xs = "[(demo_write, []), (demo_read, [7, 8])]"
  have q: "i2c_queue_wf ?h" "i2c_contents ?h = \<lparr>qe_count = of_nat (length ?xs), qe_ptrb_list = 0, qe_pTrFlag = Some 5\<rparr> # []"
    by (simp_all add: demo_queue)
  have s: "i2c1_state ?h = S_MASTER_IDLE" "\<not> stat_IWCOL ?h" "i2c_10bit_address_restart ?h \<noteq> 1" "bus ?h = []" by (simp_all add: i2c_demo_def)
  have t: "\<forall>k<length ?xs. trbs ?h (0 + k) = fst (?xs ! k)" by (auto simp: i2c_demo_def less_Suc_eq)
  have o: "\<forall>x\<in>set ?xs. trb_ok x" by (simp add: trb_ok_def)
  have rx: "msg_rx ?xs = [0, 0, 0, 0, 0, 7, 0, 8, 0]" by (simp add: msg_rx_def trb_rx_def trb_10bit_def)
  have ops: "msg_ops (ram ?h) ?xs = [Bus_Tx 0xA0, Bus_Tx 0x55, Bus_Restart, Bus_Tx 0xA1, Bus_Receive, Bus_Ack True, Bus_Receive,
      Bus_Ack False, Bus_Stop]" by (simp add: trb_ops_def trb_ram_def addr_ops_def trb_10bit_def) (simp add: i2c_demo_def)
  have m: "msg_ram ?xs (ram ?h) 0x21 = 8" by (simp add: trb_ram_def)
  show ?thesis using i2c_message_correct[OF q s(1-3) _ _ t o] m unfolding rx ops s(4) by auto
qed

text \<open>(C25) The queue is a bounded first-in first-out queue: for every sequence of insertions and removals, those
  on a full or empty queue being refused, what was in it followed by what was accepted is what came
  out followed by what is left in it, and it never holds more than its length.\<close>

theorem i2c_queue_fifo:
  assumes "i2c_queue_wf h"
  shows "i2c_contents h @ i2cq.accepted ops h = snd (i2cq.run ops h) @ i2c_contents (fst (i2cq.run ops h)) \<and>
    length (i2c_contents (fst (i2cq.run ops h))) \<le> unat (queue_len h)"
  using i2cq.run_fifo[OF assms, of ops] i2cq.run_bound[OF assms, of ops] by simp

theorem i2c_queue_fifo_witness:
  "snd (i2cq.run [Put (demo_entry 1 3), Get, Put (demo_entry 1 4), Get] (i2c_demo [demo_entry 1 0, demo_entry 1 1] 0 demo_write demo_read)) @
    i2c_contents (fst (i2cq.run [Put (demo_entry 1 3), Get, Put (demo_entry 1 4), Get] (i2c_demo [demo_entry 1 0, demo_entry 1 1] 0 demo_write demo_read))) =
    [demo_entry 1 3, demo_entry 1 4]"
proof -
  let ?h = "i2c_demo [demo_entry 1 0, demo_entry 1 1] 0 demo_write demo_read"
  have w: "i2c_queue_wf ?h" "i2c_contents ?h = []" by (simp_all add: demo_queue)
  have "i2cq.accepted [Put (demo_entry 1 3), Get, Put (demo_entry 1 4), Get] ?h = [demo_entry 1 3, demo_entry 1 4]"
    by (simp add: i2c_demo_def i2c_enqueue_def i2c_dequeue_def i2c_next_def Let_def)
  then show ?thesis using i2c_queue_fifo[OF w(1), of "[Put (demo_entry 1 3), Get, Put (demo_entry 1 4), Get]"] w(2) by simp
qed

text \<open>\<open>I2C_Master_TRBInsert\<close> marks the message pending and appends it when the queue has room; when it has
  none, it reports failure through the flag and changes nothing else.\<close>

theorem i2c_insert_correct:
  assumes "i2c_queue_wf h"
  shows "if length (i2c_contents h) < unat (queue_len h)
    then i2c_queue_wf (I2C_Master_TRBInsert count ptr f h) \<and>
      flags (I2C_Master_TRBInsert count ptr f h) = (flags h)(f := I2C_MESSAGE_PENDING) \<and>
      i2c_contents (I2C_Master_TRBInsert count ptr f h) = i2c_contents h @ [\<lparr>qe_count = count, qe_ptrb_list = ptr, qe_pTrFlag = Some f\<rparr>]
    else I2C_Master_TRBInsert count ptr f h = h\<lparr>flags := (flags h)(f := I2C_MESSAGE_FAIL)\<rparr>"
  by (rule insert_ok[OF assms])

theorem i2c_insert_correct_witness:
  "flags (I2C_Master_TRBInsert 1 0 9 (i2c_demo [demo_entry 1 3, demo_entry 1 4] 2 demo_write demo_read)) 9 = I2C_MESSAGE_FAIL \<and>
   i2c_contents (I2C_Master_TRBInsert 1 0 9 (i2c_demo [demo_entry 1 3, demo_entry 1 4] 1 demo_write demo_read)) = [demo_entry 1 3, demo_entry 1 9]"
proof -
  let ?h = "\<lambda>k. i2c_demo [demo_entry 1 3, demo_entry 1 4] k demo_write demo_read"
  have w: "i2c_queue_wf (?h 2)" "i2c_contents (?h 2) = [demo_entry 1 3, demo_entry 1 4]"
    "i2c_queue_wf (?h 1)" "i2c_contents (?h 1) = [demo_entry 1 3]" "queue_len (?h k) = 2" for k
    by (simp_all add: demo_queue) (simp add: i2c_demo_def)
  show ?thesis using i2c_insert_correct[OF w(1), of 1 0 9] i2c_insert_correct[OF w(3), of 1 0 9] w by simp
qed

text \<open>When the slave does not acknowledge a byte, the transfer is stopped, the error is counted, the flag of
  the message tells whether the address or the data was refused, the memory and the queue stay as
  they are, and the driver is ready for the next message.\<close>

theorem i2c_nack_correct:
  assumes "i2c_waits_ack h" and "\<not> stat_IWCOL h" and "p_i2c1_current h = Some i" and "qe_pTrFlag (i2c_tr_queue h ! i) = Some f"
  shows "\<exists>h'. i2c_irq True b h = Some h' \<and> i2c1_state h' = S_MASTER_IDLE \<and> bus h' = bus h @ [Bus_Stop] \<and>
    flags h' = (flags h)(f := if i2c1_state h = S_MASTER_SEND_DATA then I2C_DATA_NO_ACK else I2C_MESSAGE_ADDRESS_NO_ACK) \<and>
    i2cErrors h' = i2cErrors h + 1 \<and> ram h' = ram h \<and> i2c_contents h' = i2c_contents h"
  by (rule nack_ok[OF assms])

theorem i2c_nack_correct_witness:
  "\<exists>h'. i2c_irq True 0 ((i2c_demo [demo_entry 1 3, demo_entry 1 4] 1 demo_write demo_read)
      \<lparr>i2c1_state := S_MASTER_ACK_ADDR, p_i2c1_current := Some 1\<rparr>) = Some h' \<and> flags h' 4 = I2C_MESSAGE_ADDRESS_NO_ACK"
  using i2c_nack_correct[of "(i2c_demo [demo_entry 1 3, demo_entry 1 4] 1 demo_write demo_read)
      \<lparr>i2c1_state := S_MASTER_ACK_ADDR, p_i2c1_current := Some 1\<rparr>" 1 4 0]
  by (auto simp: i2c_demo_def i2c_waits_ack_def)

text \<open>The handler keeps a pointer to the queue entry of the message it works on, but gives its place free: when
  the queue was full and a message with the flag \<open>g\<close> is inserted after the start condition, the
  completion of the running message is written to \<open>g\<close>, while the message of \<open>g\<close> is still
  in the queue, and the flag of the message that was completed stays as it was.\<close>

theorem i2c_flag_overwritten:
  assumes "i2c_queue_wf h" and "tr_full h"
    and "i2c_contents h = \<lparr>qe_count = of_nat (length xs), qe_ptrb_list = ptr, qe_pTrFlag = Some f\<rparr> # rest"
    and "i2c1_state h = S_MASTER_IDLE" and "\<not> stat_IWCOL h" and "i2c_10bit_address_restart h \<noteq> 1"
    and "xs \<noteq> []" and "length xs < 256" and "\<forall>k<length xs. trbs h (ptr + k) = fst (xs ! k)" and "\<forall>x\<in>set xs. trb_ok x"
  shows "\<exists>h1 h'. i2c_irq False 0 h = Some h1 \<and> i2c_acks (msg_rx xs) (I2C_Master_TRBInsert c p g h1) = Some h' \<and>
    flags h' = (flags h)(g := I2C_MESSAGE_COMPLETE) \<and> i2c1_state h' = S_MASTER_IDLE \<and>
    i2c_contents h' = rest @ [\<lparr>qe_count = c, qe_ptrb_list = p, qe_pTrFlag = Some g\<rparr>]"
  by (rule flag_overwritten[OF assms])

theorem i2c_flag_overwritten_witness:
  "\<exists>h1 h'. i2c_irq False 0 (i2c_demo [demo_entry 1 3, demo_entry 1 4] 2 demo_write demo_read) = Some h1 \<and>
    i2c_acks [0, 0, 0] (I2C_Master_TRBInsert 1 0 9 h1) = Some h' \<and> flags h' 3 = I2C_MESSAGE_PENDING \<and>
    flags h' 9 = I2C_MESSAGE_COMPLETE \<and> i2c_contents h' = [demo_entry 1 4, demo_entry 1 9]"
proof -
  let ?h = "i2c_demo [demo_entry 1 3, demo_entry 1 4] 2 demo_write demo_read"
  let ?xs = "[(demo_write, [])]"
  have q: "i2c_queue_wf ?h" "i2c_contents ?h = \<lparr>qe_count = of_nat (length ?xs), qe_ptrb_list = 0, qe_pTrFlag = Some 3\<rparr> # [demo_entry 1 4]"
    by (simp_all add: demo_queue)
  have s: "tr_full ?h" "i2c1_state ?h = S_MASTER_IDLE" "\<not> stat_IWCOL ?h" "i2c_10bit_address_restart ?h \<noteq> 1"
    "flags ?h = (\<lambda>_. I2C_MESSAGE_PENDING)" by (simp_all add: i2c_demo_def)
  have t: "\<forall>k<length ?xs. trbs ?h (0 + k) = fst (?xs ! k)" by (simp add: i2c_demo_def)
  have o: "\<forall>x\<in>set ?xs. trb_ok x" by (simp add: trb_ok_def)
  have rx: "msg_rx ?xs = [0, 0, 0]" by (simp add: msg_rx_def trb_rx_def trb_10bit_def)
  show ?thesis using i2c_flag_overwritten[OF q(1) s(1) q(2) s(2-4) _ _ t o, of 1 0 9] unfolding rx s(5) by auto
qed

text \<open>\<open>I2C_Master_Write\<close> queues a pointer to a block in its own stack frame: when the frame has been reused by
  the time the address is sent, what goes over the bus is whatever the place holds then, whatever
  address, buffer and length the caller asked for, and the caller is told that the message is complete.\<close>

theorem i2c_write_dangling_block:
  assumes "i2c_queue_wf h" and "tr_empty h" and "i2c1_state h = S_MASTER_IDLE" and "\<not> stat_IWCOL h"
    and "i2c_10bit_address_restart h \<noteq> 1" and "\<not> trb_reads t"
  shows "\<exists>h'. i2c_acks (0 # msg_rx [(t, [])])
      ((I2C_Master_Write sp pdata len address f h)\<lparr>trbs := (trbs h)(sp := t)\<rparr>) = Some h' \<and>
    bus h' = bus h @ Bus_Start # trb_ops (ram h) t [] @ [Bus_Stop] \<and> flags h' f = I2C_MESSAGE_COMPLETE"
proof -
  let ?h = "(I2C_Master_Write sp pdata len address f h)\<lparr>trbs := (trbs h)(sp := t)\<rparr>"
  let ?g = "I2C_Master_WriteTRBBuild sp pdata len address h"
  have g: "i2c_queue_wf ?g" "i2c_contents ?g = i2c_contents h" "queue_len ?g = queue_len h" "flags ?g = flags h"
    using queue_cong[of ?g h] assms(1) by (simp_all add: I2C_Master_WriteTRBBuild_def)
  have e: "i2c_contents h = []" using i2cq.void_iff[OF assms(1)] assms(2) by simp
  have nf: "\<not> tr_full h" using i2cq.full_iff[OF assms(1)] e assms(1) by (auto simp: i2c_queue_wf_def word_less_nat_alt)
  have w: "I2C_Master_Write sp pdata len address f h = I2C_Master_TRBInsert 1 sp f ?g" using nf by (simp add: I2C_Master_Write_def)
  have "0 < unat (queue_len h)" using assms(1) by (simp add: i2c_queue_wf_def word_less_nat_alt)
  then have c: "i2c_queue_wf ?h" "i2c_contents ?h = \<lparr>qe_count = of_nat (length [(t, [])]), qe_ptrb_list = sp, qe_pTrFlag = Some f\<rparr> # []"
    using insert_ok[OF g(1), of 1 sp f] g(2,3) e queue_cong[of ?h "I2C_Master_TRBInsert 1 sp f ?g"] by (simp_all add: w)
  have s: "i2c1_state ?h = S_MASTER_IDLE" "\<not> stat_IWCOL ?h" "i2c_10bit_address_restart ?h \<noteq> 1" "ram ?h = ram h" "bus ?h = bus h"
    using assms(3-5) by (simp_all add: w I2C_Master_WriteTRBBuild_def)
  have t: "\<forall>k<length [(t, [] :: u8 list)]. trbs ?h (sp + k) = fst ([(t, [] :: u8 list)] ! k)" by simp
  have o: "\<forall>x\<in>set [(t, [] :: u8 list)]. trb_ok x" using assms(6) by (simp add: trb_ok_def)
  obtain h' where h': "i2c_acks (0 # msg_rx [(t, [])]) ?h = Some h'" "bus h' = bus ?h @ Bus_Start # msg_ops (ram ?h) [(t, [])]"
    "flags h' = (flags ?h)(f := I2C_MESSAGE_COMPLETE)"
    using message_ok[OF c s(1-3) _ _ t o] by auto
  then show ?thesis unfolding s(4,5) by (intro exI[of _ h']) simp
qed

theorem i2c_write_dangling_block_witness:
  "\<exists>h'. i2c_acks [0, 0, 0, 0] ((I2C_Master_Write 0 16 4 51 9 (i2c_demo [demo_entry 1 3, demo_entry 1 4] 0 demo_write demo_read))
      \<lparr>trbs := (trbs (i2c_demo [demo_entry 1 3, demo_entry 1 4] 0 demo_write demo_read))(0 := demo_write)\<rparr>) = Some h' \<and>
    bus h' = [Bus_Start, Bus_Tx 0xA0, Bus_Tx 0x55, Bus_Stop] \<and> flags h' 9 = I2C_MESSAGE_COMPLETE"
proof -
  let ?h = "i2c_demo [demo_entry 1 3, demo_entry 1 4] 0 demo_write demo_read"
  have q: "i2c_queue_wf ?h" by (simp add: demo_queue)
  have s: "tr_empty ?h" "i2c1_state ?h = S_MASTER_IDLE" "\<not> stat_IWCOL ?h" "i2c_10bit_address_restart ?h \<noteq> 1"
    "bus ?h = []" by (simp_all add: i2c_demo_def)
  have r: "\<not> trb_reads demo_write" by simp
  have rx: "msg_rx [(demo_write, [])] = [0, 0, 0]" by (simp add: msg_rx_def trb_rx_def trb_10bit_def)
  have ops: "trb_ops (ram ?h) demo_write [] = [Bus_Tx 0xA0, Bus_Tx 0x55]"
    by (simp add: trb_ops_def addr_ops_def trb_10bit_def) (simp add: i2c_demo_def)
  show ?thesis using i2c_write_dangling_block[OF q s(1-4) r, of 0 16 4 51 9] unfolding rx ops s(5) by simp
qed

end
