(* ===== verification/USB_Descriptor.thy ===== *)
theory USB_Descriptor
  imports Prelude
begin

section \<open>The configuration descriptor builder of the USB device\<close>

text \<open>
  Models \<^verbatim>\<open>usb_deluxe_device.c\<close>: the globals that hold the configuration under construction, the
  functions that append descriptors to it, the string table, and the registration functions of the
  seven device functions (\<^verbatim>\<open>USBDeluxe_DeviceFunction_Add_*\<close>, each in the file of its function). The
  vectors are the lists they stand for (\<^verbatim>\<open>Vector.c\<close> is modelled over the heap in theory \<open>Vector\<close>); a
  driver context is the interface and endpoint numbers its \<^verbatim>\<open>Create\<close> function is given. With FreeRTOS
  each registration also starts a task, which is not modelled.
\<close>

subsection \<open>Data\<close>

record usb_string =
  sd_bLength :: u8
  sd_bDscType :: u8
  sd_string :: "u16 list"

datatype usb_driver =
    DRV_HID (hid_iface: u8) (hid_ep: u8) (hid_rpt_len: u8) (hid_rpt_dsc_len: u8) (hid_dsc_offset: u16) (hid_dsc_len: u16)
  | DRV_AUDIO u8 u8 u8
  | DRV_MIDI u8 u8 u8
  | DRV_CDC_ACM u8 u8 u8 u8
  | DRV_CDC_ECM u8 u8 u8 u8
  | DRV_CDC_NCM u8 u8 u8 u8
  | DRV_MSD u8 u8 u8 u8

text \<open>
  \<open>usb_config\<close> gathers the globals: the descriptor context, the driver and string tables, the two
  fields of the device descriptor that are set, and what \<^verbatim>\<open>USB_CD_Ptr[0]\<close> points to.
\<close>

record usb_config =
  raw :: "u8 list"
  used_interfaces :: u16
  used_endpoints :: u16
  drivers :: "usb_driver list"
  strings :: "usb_string list"
  idVendor :: u16
  idProduct :: u16
  USB_CD_Ptr :: "u8 list option"

definition usb_config_reset :: usb_config where
  "usb_config_reset = \<lparr>raw = [], used_interfaces = 0, used_endpoints = 0, drivers = [], strings = [],
     idVendor = 0x04D8, idProduct = 0x0057, USB_CD_Ptr = None\<rparr>"

abbreviation (input) USB_EP_DIR_IN :: u8 where "USB_EP_DIR_IN \<equiv> 0x1"
abbreviation (input) USB_EP_DIR_OUT :: u8 where "USB_EP_DIR_OUT \<equiv> 0x2"
abbreviation (input) EP_ISO :: u8 where "EP_ISO \<equiv> 0x01"
abbreviation (input) EP_BULK :: u8 where "EP_BULK \<equiv> 0x02"
abbreviation (input) EP_INTERRUPT :: u8 where "EP_INTERRUPT \<equiv> 0x03"
abbreviation (input) CS_INTERFACE :: u8 where "CS_INTERFACE \<equiv> 0x24"
abbreviation (input) CS_ENDPOINT :: u8 where "CS_ENDPOINT \<equiv> 0x25"
abbreviation (input) DSC_HID :: u8 where "DSC_HID \<equiv> 0x21"

subsection \<open>The builder\<close>

definition desc_push :: "u8 list \<Rightarrow> usb_config \<Rightarrow> usb_config" where
  "desc_push buf c = c\<lparr>raw := raw c @ buf\<rparr>"

definition USBDeluxe_DeviceDescriptor_Init :: "usb_config \<Rightarrow> usb_config" where
  "USBDeluxe_DeviceDescriptor_Init c =
     desc_push [0x09, 0x02, 0x09, 0x00, 1, 1, 0, 0x80 OR 0x40, 50]
       (c\<lparr>raw := [], used_interfaces := 0, used_endpoints := 1\<rparr>)"

definition USBDeluxe_DeviceDescriptor_RefreshSize :: "usb_config \<Rightarrow> usb_config" where
  "USBDeluxe_DeviceDescriptor_RefreshSize c =
     (let len = of_nat (length (raw c)) :: u16;
          r = (raw c)[2 := ucast (len AND 0xff), 3 := ucast (drop_bit 8 len), 4 := ucast (used_interfaces c)]
      in c\<lparr>raw := r, USB_CD_Ptr := Some r\<rparr>)"

text \<open>The length is a C \<^verbatim>\<open>int\<close>; -1 asks for the length of the string up to its terminating 0.\<close>

definition USBDeluxe_DeviceDescriptor_AddString :: "u8 list \<Rightarrow> int \<Rightarrow> usb_config \<Rightarrow> usb_config \<times> u16" where
  "USBDeluxe_DeviceDescriptor_AddString str len c =
     (let len' = (if len = -1 then int (length (takeWhile (\<lambda>b. b \<noteq> 0) str)) else len);
          desc_len = 2 + 2 * of_int len' :: u16;
          desc = \<lparr>sd_bLength = ucast desc_len, sd_bDscType = 0x03,
                  sd_string = map (\<lambda>i. ucast (str ! i)) [0..<nat len']\<rparr>;
          c' = c\<lparr>strings := strings c @ [desc]\<rparr>
      in (c', of_nat (length (strings c')) - 1))"

definition USBDeluxe_DeviceDescriptor_AddString16 :: "u16 list \<Rightarrow> u16 \<Rightarrow> usb_config \<Rightarrow> usb_config \<times> u16" where
  "USBDeluxe_DeviceDescriptor_AddString16 str len c =
     (let desc_len = 2 + 2 * len;
          desc = \<lparr>sd_bLength = ucast desc_len, sd_bDscType = 0x03,
                  sd_string = map (\<lambda>i. str ! i) [0..<unat len]\<rparr>;
          c' = c\<lparr>strings := strings c @ [desc]\<rparr>
      in (c', of_nat (length (strings c')) - 1))"

definition USBDeluxe_Device_ConfigInit :: "u16 \<Rightarrow> u16 \<Rightarrow> u8 list \<Rightarrow> u8 list \<Rightarrow> u8 list \<Rightarrow> usb_config \<Rightarrow> usb_config" where
  "USBDeluxe_Device_ConfigInit vid pid manufacturer product_str serial c =
     (let c1 = (USBDeluxe_DeviceDescriptor_Init c)\<lparr>idVendor := vid, idProduct := pid\<rparr>;
          c2 = fst (USBDeluxe_DeviceDescriptor_AddString16 [0x0409] 1 c1);
          c3 = fst (USBDeluxe_DeviceDescriptor_AddString manufacturer (-1) c2);
          c4 = fst (USBDeluxe_DeviceDescriptor_AddString product_str (-1) c3)
      in fst (USBDeluxe_DeviceDescriptor_AddString serial (-1) c4))"

definition USBDeluxe_Device_ConfigApply :: "usb_config \<Rightarrow> usb_config" where
  "USBDeluxe_Device_ConfigApply c = USBDeluxe_DeviceDescriptor_RefreshSize c"

definition USBDeluxe_DeviceDescriptor_InsertInterface ::
  "u8 \<Rightarrow> u8 \<Rightarrow> u8 \<Rightarrow> u8 \<Rightarrow> u8 \<Rightarrow> usb_config \<Rightarrow> usb_config \<times> u8" where
  "USBDeluxe_DeviceDescriptor_InsertInterface alternate_setting nr_endpoints cls subclass protocol c =
     (let ret = ucast (used_interfaces c);
          c' = desc_push [0x9, 0x04, ucast (used_interfaces c), alternate_setting, nr_endpoints, cls, subclass, protocol, 0x0] c
      in (c'\<lparr>used_interfaces := used_interfaces c' + 1\<rparr>, ret))"

text \<open>\<open>opt_refresh\<close> and \<open>opt_sync_addr\<close> are 16-bit signed numbers, -1 when the field is left out.\<close>

definition USBDeluxe_DeviceDescriptor_InsertEndpointRaw ::
  "u8 \<Rightarrow> u8 \<Rightarrow> u16 \<Rightarrow> u8 \<Rightarrow> u16 \<Rightarrow> u16 \<Rightarrow> usb_config \<Rightarrow> usb_config" where
  "USBDeluxe_DeviceDescriptor_InsertEndpointRaw addr attr sz interval opt_refresh opt_sync_addr c =
     (let len0 = 0x7 :: u8;
          len1 = (if opt_refresh \<noteq> -1 then len0 + 1 else len0);
          len = (if opt_sync_addr \<noteq> -1 then len1 + 1 else len1);
          buf = [len, 0x05, addr, attr, ucast (sz AND 0xff), ucast (drop_bit 8 sz), interval,
                 ucast opt_refresh, ucast opt_sync_addr]
      in desc_push (take (unat len) buf) c)"

definition USBDeluxe_DeviceDescriptor_InsertEndpoint ::
  "u8 \<Rightarrow> u8 \<Rightarrow> u16 \<Rightarrow> u8 \<Rightarrow> u16 \<Rightarrow> u16 \<Rightarrow> usb_config \<Rightarrow> usb_config \<times> u8" where
  "USBDeluxe_DeviceDescriptor_InsertEndpoint direction attr sz interval opt_refresh opt_sync_addr c =
     (let next_free_ep = ucast (used_endpoints c) :: u8;
          c1 = (if direction AND USB_EP_DIR_IN \<noteq> 0
                then USBDeluxe_DeviceDescriptor_InsertEndpointRaw (next_free_ep OR 0x80) attr sz interval opt_refresh opt_sync_addr c
                else c);
          c2 = (if direction AND USB_EP_DIR_OUT \<noteq> 0
                then USBDeluxe_DeviceDescriptor_InsertEndpointRaw next_free_ep attr sz interval opt_refresh opt_sync_addr c1
                else c1)
      in (c2\<lparr>used_endpoints := used_endpoints c2 + 1\<rparr>, next_free_ep))"

definition USBDeluxe_DeviceDescriptor_InsertIAD :: "u8 \<Rightarrow> u8 \<Rightarrow> u8 \<Rightarrow> u16 \<Rightarrow> u8 \<Rightarrow> usb_config \<Rightarrow> usb_config" where
  "USBDeluxe_DeviceDescriptor_InsertIAD iface nr_contiguous_ifaces iface_class iface_subclass protocol =
     desc_push [0x8, 0x0b, iface, nr_contiguous_ifaces, iface_class, ucast iface_subclass, protocol, 0]"

text \<open>The driver table: the allocated context, filled in by the \<^verbatim>\<open>Create\<close> function of the driver.\<close>

definition USBDeluxe_DeviceDriver_AllocateMemory :: "usb_driver \<Rightarrow> usb_config \<Rightarrow> usb_config" where
  "USBDeluxe_DeviceDriver_AllocateMemory d c = c\<lparr>drivers := drivers c @ [d]\<rparr>"

definition driver_index :: "usb_config \<Rightarrow> u8" where
  "driver_index c = of_nat (length (drivers c))"

subsection \<open>Registration of the device functions\<close>

definition USBDeluxe_DeviceDescriptor_InsertCDCACMSpecific :: "u8 \<Rightarrow> u8 \<Rightarrow> usb_config \<Rightarrow> usb_config" where
  "USBDeluxe_DeviceDescriptor_InsertCDCACMSpecific comm_iface data_iface c =
     desc_push [0x5, CS_INTERFACE, 0x01, 0x00, data_iface]
       (desc_push [0x5, CS_INTERFACE, 0x06, comm_iface, data_iface]
         (desc_push [0x4, CS_INTERFACE, 0x02, 0x2]
           (desc_push [0x5, CS_INTERFACE, 0x00, 0x10, 0x01] c)))"

definition USBDeluxe_DeviceFunction_Add_CDC_ACM :: "usb_config \<Rightarrow> usb_config \<times> u8" where
  "USBDeluxe_DeviceFunction_Add_CDC_ACM c =
     (let last_idx = driver_index c;
          c1 = USBDeluxe_DeviceDescriptor_InsertIAD (ucast (used_interfaces c)) 2 0x02 0x02 0x01 c;
          (c2, iface_comm) = USBDeluxe_DeviceDescriptor_InsertInterface 0 1 0x02 0x02 0x01 c1;
          c3 = USBDeluxe_DeviceDescriptor_InsertCDCACMSpecific iface_comm (ucast (used_interfaces c2)) c2;
          (c4, ep_comm) = USBDeluxe_DeviceDescriptor_InsertEndpoint USB_EP_DIR_IN EP_INTERRUPT 10 2 (-1) (-1) c3;
          (c5, iface_data) = USBDeluxe_DeviceDescriptor_InsertInterface 0 2 0x0A 0 0 c4;
          (c6, ep_data) = USBDeluxe_DeviceDescriptor_InsertEndpoint (USB_EP_DIR_IN OR USB_EP_DIR_OUT) EP_BULK 64 0 (-1) (-1) c5
      in (USBDeluxe_DeviceDriver_AllocateMemory (DRV_CDC_ACM iface_comm iface_data ep_comm ep_data) c6, last_idx))"

definition USBDeluxe_DeviceDescriptor_InsertCDCECMSpecific :: "u8 \<Rightarrow> u8 \<Rightarrow> u8 \<Rightarrow> usb_config \<Rightarrow> usb_config" where
  "USBDeluxe_DeviceDescriptor_InsertCDCECMSpecific comm_iface data_iface macaddr_str_idx c =
     desc_push [6, CS_INTERFACE, 0x1a, 0x00, 0x01, 0]
       (desc_push [0x5, CS_INTERFACE, 0x06, comm_iface, data_iface]
         (desc_push [13, CS_INTERFACE, 0x0f, macaddr_str_idx, 0, 0, 0, 0, 0xea, 0x05, 0x00, 0x00, 0x00]
           (desc_push [0x5, CS_INTERFACE, 0x00, 0x20, 0x01] c)))"

definition USBDeluxe_DeviceFunction_Add_CDC_ECM :: "u8 list \<Rightarrow> usb_config \<Rightarrow> usb_config \<times> u8" where
  "USBDeluxe_DeviceFunction_Add_CDC_ECM mac_addr c0 =
     (let last_idx = driver_index c0;
          (c, mac_str_idx) = USBDeluxe_DeviceDescriptor_AddString mac_addr (-1) c0;
          c1 = USBDeluxe_DeviceDescriptor_InsertIAD (ucast (used_interfaces c)) 2 0x02 0x0d 0x00 c;
          (c2, iface_comm) = USBDeluxe_DeviceDescriptor_InsertInterface 0 1 0x02 0x0d 0x00 c1;
          c3 = USBDeluxe_DeviceDescriptor_InsertCDCECMSpecific iface_comm (ucast (used_interfaces c2)) (ucast mac_str_idx) c2;
          (c4, ep_comm) = USBDeluxe_DeviceDescriptor_InsertEndpoint USB_EP_DIR_IN EP_INTERRUPT 8 2 (-1) (-1) c3;
          c5 = fst (USBDeluxe_DeviceDescriptor_InsertInterface 0 0 0x0A 0 1 c4);
          c6 = c5\<lparr>used_interfaces := used_interfaces c5 - 1\<rparr>;
          (c7, iface_data) = USBDeluxe_DeviceDescriptor_InsertInterface 1 2 0x0A 0 1 c6;
          (c8, ep_data) = USBDeluxe_DeviceDescriptor_InsertEndpoint (USB_EP_DIR_IN OR USB_EP_DIR_OUT) EP_BULK 64 0 (-1) (-1) c7
      in (USBDeluxe_DeviceDriver_AllocateMemory (DRV_CDC_ECM iface_comm iface_data ep_comm ep_data) c8, last_idx))"

definition USBDeluxe_DeviceDescriptor_InsertCDCNCMSpecific :: "u8 \<Rightarrow> u8 \<Rightarrow> u8 \<Rightarrow> usb_config \<Rightarrow> usb_config" where
  "USBDeluxe_DeviceDescriptor_InsertCDCNCMSpecific comm_iface data_iface macaddr_str_idx c =
     desc_push [6, CS_INTERFACE, 0x1a, 0x00, 0x01, 0]
       (desc_push [0x5, CS_INTERFACE, 0x06, comm_iface, data_iface]
         (desc_push [13, CS_INTERFACE, 0x0f, macaddr_str_idx, 0, 0, 0, 0, 0xea, 0x05, 0x00, 0x00, 0x00]
           (desc_push [0x5, CS_INTERFACE, 0x00, 0x20, 0x01] c)))"

definition USBDeluxe_DeviceFunction_Add_CDC_NCM :: "u8 list \<Rightarrow> usb_config \<Rightarrow> usb_config \<times> u8" where
  "USBDeluxe_DeviceFunction_Add_CDC_NCM mac_addr c0 =
     (let last_idx = driver_index c0;
          (c, mac_str_idx) = USBDeluxe_DeviceDescriptor_AddString mac_addr (-1) c0;
          c1 = USBDeluxe_DeviceDescriptor_InsertIAD (ucast (used_interfaces c)) 2 0x02 0x0d 0x00 c;
          (c2, iface_comm) = USBDeluxe_DeviceDescriptor_InsertInterface 0 1 0x02 0x0d 0x00 c1;
          c3 = USBDeluxe_DeviceDescriptor_InsertCDCNCMSpecific iface_comm (ucast (used_interfaces c2)) (ucast mac_str_idx) c2;
          (c4, ep_comm) = USBDeluxe_DeviceDescriptor_InsertEndpoint USB_EP_DIR_IN EP_INTERRUPT 24 2 (-1) (-1) c3;
          c5 = fst (USBDeluxe_DeviceDescriptor_InsertInterface 0 0 0x0A 0 1 c4);
          c6 = c5\<lparr>used_interfaces := used_interfaces c5 - 1\<rparr>;
          (c7, iface_data) = USBDeluxe_DeviceDescriptor_InsertInterface 1 2 0x0A 0 1 c6;
          (c8, ep_data) = USBDeluxe_DeviceDescriptor_InsertEndpoint (USB_EP_DIR_IN OR USB_EP_DIR_OUT) EP_BULK 64 0 (-1) (-1) c7
      in (USBDeluxe_DeviceDriver_AllocateMemory (DRV_CDC_NCM iface_comm iface_data ep_comm ep_data) c8, last_idx))"

definition USBDeluxe_DeviceFunction_Add_MSD :: "u8 \<Rightarrow> usb_config \<Rightarrow> usb_config \<times> u8" where
  "USBDeluxe_DeviceFunction_Add_MSD nr_luns c =
     (let last_idx = driver_index c;
          (c1, iface) = USBDeluxe_DeviceDescriptor_InsertInterface 0 2 0x08 0x06 0x50 c;
          (c2, ep) = USBDeluxe_DeviceDescriptor_InsertEndpoint (USB_EP_DIR_IN OR USB_EP_DIR_OUT) EP_BULK 64 1 (-1) (-1) c1
      in (USBDeluxe_DeviceDriver_AllocateMemory (DRV_MSD iface ep ep nr_luns) c2, last_idx))"

definition USBDeluxe_DeviceDescriptor_InsertHIDSpecific :: "u16 \<Rightarrow> u8 \<Rightarrow> u8 \<Rightarrow> u16 \<Rightarrow> usb_config \<Rightarrow> usb_config" where
  "USBDeluxe_DeviceDescriptor_InsertHIDSpecific version country nr_dscs report_size =
     desc_push [0x9, DSC_HID, ucast (version AND 0xff), ucast (drop_bit 8 version), country, nr_dscs, 0x22,
       ucast (report_size AND 0xff), ucast (drop_bit 8 report_size)]"

definition USBDeluxe_DeviceFunction_Add_HID :: "u8 \<Rightarrow> u8 \<Rightarrow> u8 \<Rightarrow> usb_config \<Rightarrow> usb_config \<times> u8" where
  "USBDeluxe_DeviceFunction_Add_HID hid_protocol hid_report_size hid_report_desc_size c =
     (let last_idx = driver_index c;
          (c1, iface) = USBDeluxe_DeviceDescriptor_InsertInterface 0 2 0x03 0x01 hid_protocol c;
          dsc_off0 = of_nat (length (raw c1)) :: u16;
          c2 = USBDeluxe_DeviceDescriptor_InsertHIDSpecific 0x0111 0x00 1 (ucast hid_report_desc_size) c1;
          dsc_off1 = of_nat (length (raw c2));
          (c3, ep) = USBDeluxe_DeviceDescriptor_InsertEndpoint (USB_EP_DIR_IN OR USB_EP_DIR_OUT) EP_INTERRUPT (ucast hid_report_size) 1 (-1) (-1) c2
      in (USBDeluxe_DeviceDriver_AllocateMemory
            (DRV_HID iface ep hid_report_size hid_report_desc_size dsc_off0 (dsc_off1 - dsc_off0)) c3, last_idx))"

definition USBDeluxe_DeviceDescriptor_InsertMIDISpecificEndpoint_OUT :: "usb_config \<Rightarrow> usb_config" where
  "USBDeluxe_DeviceDescriptor_InsertMIDISpecificEndpoint_OUT = desc_push [0x5, 0x25, 0x01, 0x01, 0x01]"

definition USBDeluxe_DeviceDescriptor_InsertMIDISpecificEndpoint_IN :: "usb_config \<Rightarrow> usb_config" where
  "USBDeluxe_DeviceDescriptor_InsertMIDISpecificEndpoint_IN = desc_push [0x5, 0x25, 0x01, 0x01, 0x03]"

definition USBDeluxe_DeviceDescriptor_InsertMIDISpecific_AC :: "usb_config \<Rightarrow> usb_config" where
  "USBDeluxe_DeviceDescriptor_InsertMIDISpecific_AC =
     desc_push [0x9, 0x24, 0x01, 0x00, 0x01, 0x09, 0x00, 0x01, 0x01]"

definition USBDeluxe_DeviceDescriptor_InsertMIDISpecific_MS :: "usb_config \<Rightarrow> usb_config" where
  "USBDeluxe_DeviceDescriptor_InsertMIDISpecific_MS = desc_push [0x7, 0x24, 0x01, 0x00, 0x01, 0x41, 0x00]"

definition USBDeluxe_DeviceDescriptor_InsertMIDISpecific_JACK :: "usb_config \<Rightarrow> usb_config" where
  "USBDeluxe_DeviceDescriptor_InsertMIDISpecific_JACK =
     desc_push ([0x6, 0x24, 0x02, 0x01, 0x01, 0x00] @
                [0x6, 0x24, 0x02, 0x02, 0x02, 0x00] @
                [0x9, 0x24, 0x03, 0x01, 0x03, 0x01, 0x02, 0x01, 0x00] @
                [0x9, 0x24, 0x03, 0x02, 0x04, 0x01, 0x01, 0x01, 0x00])"

definition USBDeluxe_DeviceFunction_Add_MIDI :: "usb_config \<Rightarrow> usb_config \<times> u8" where
  "USBDeluxe_DeviceFunction_Add_MIDI c =
     (let last_idx = driver_index c;
          (c1, iface_ac) = USBDeluxe_DeviceDescriptor_InsertInterface 0 0 0x1 0x1 0x0 c;
          c2 = USBDeluxe_DeviceDescriptor_InsertMIDISpecific_AC c1;
          (c3, iface_ms) = USBDeluxe_DeviceDescriptor_InsertInterface 0 2 0x1 0x3 0x0 c2;
          c4 = USBDeluxe_DeviceDescriptor_InsertMIDISpecific_MS c3;
          c5 = USBDeluxe_DeviceDescriptor_InsertMIDISpecific_JACK c4;
          next_free_ep = ucast (used_endpoints c5) :: u8;
          c6 = USBDeluxe_DeviceDescriptor_InsertEndpointRaw next_free_ep EP_BULK 0x40 0 0 0 c5;
          c7 = USBDeluxe_DeviceDescriptor_InsertMIDISpecificEndpoint_OUT c6;
          c8 = USBDeluxe_DeviceDescriptor_InsertEndpointRaw (next_free_ep OR 0x80) EP_BULK 0x40 0 0 0 c7;
          c9 = USBDeluxe_DeviceDescriptor_InsertMIDISpecificEndpoint_IN c8;
          c10 = c9\<lparr>used_endpoints := used_endpoints c9 + 1\<rparr>
      in (USBDeluxe_DeviceDriver_AllocateMemory (DRV_MIDI iface_ac iface_ms next_free_ep) c10, last_idx))"

definition USBDeluxe_DeviceDescriptor_InsertAudioSpecific_AC :: "u8 \<Rightarrow> usb_config \<Rightarrow> usb_config" where
  "USBDeluxe_DeviceDescriptor_InsertAudioSpecific_AC interface =
     desc_push [0x9, 0x24, 0x01, 0x00, 0x01, 0x1e, 0x00, 0x01, interface]"

definition USBDeluxe_DeviceDescriptor_InsertAudioSpecific_Terminal :: "u16 \<Rightarrow> u8 \<Rightarrow> usb_config \<Rightarrow> usb_config" where
  "USBDeluxe_DeviceDescriptor_InsertAudioSpecific_Terminal terminal_type nr_channels c =
     desc_push [0x9, CS_INTERFACE, 0x03, 0x02, 0x01, 0x01, 0x00, 0x01, 0x00]
       (desc_push [12, CS_INTERFACE, 0x02, 0x01, ucast (terminal_type AND 0xff), ucast (drop_bit 8 terminal_type), 0x00,
          nr_channels, 0x00, 0x00, 0x00, 0x00] c)"

definition USBDeluxe_DeviceDescriptor_InsertAudioSpecific_AS :: "u8 \<Rightarrow> usb_config \<Rightarrow> usb_config" where
  "USBDeluxe_DeviceDescriptor_InsertAudioSpecific_AS output_terminal =
     desc_push [0x7, CS_INTERFACE, 0x01, output_terminal, 0x01, 0x01, 0x00]"

definition USBDeluxe_DeviceDescriptor_InsertAudioSpecific_Type1Format ::
  "u8 \<Rightarrow> u8 \<Rightarrow> u8 \<Rightarrow> u16 \<Rightarrow> usb_config \<Rightarrow> usb_config" where
  "USBDeluxe_DeviceDescriptor_InsertAudioSpecific_Type1Format nr_channels subframe_size bit_resolution sample_freq =
     desc_push [11, CS_INTERFACE, 0x02, 0x01, nr_channels, subframe_size, bit_resolution, 0x01,
       ucast (sample_freq AND 0xff), ucast (drop_bit 8 sample_freq), 0x0]"

definition USBDeluxe_DeviceDescriptor_InsertAudioSpecific_IsocEP :: "usb_config \<Rightarrow> usb_config" where
  "USBDeluxe_DeviceDescriptor_InsertAudioSpecific_IsocEP = desc_push [0x7, CS_INTERFACE, 0x01, 0x00, 0x00, 0x00, 0x00]"

definition USBDeluxe_DeviceFunction_Add_Audio :: "usb_config \<Rightarrow> usb_config \<times> u8" where
  "USBDeluxe_DeviceFunction_Add_Audio c =
     (let last_idx = driver_index c;
          (c1, iface_ac) = USBDeluxe_DeviceDescriptor_InsertInterface 0 0 0x01 0x01 0x0 c;
          c2 = USBDeluxe_DeviceDescriptor_InsertAudioSpecific_AC (iface_ac + 1) c1;
          c3 = USBDeluxe_DeviceDescriptor_InsertAudioSpecific_Terminal 0x0201 1 c2;
          c4 = fst (USBDeluxe_DeviceDescriptor_InsertInterface 0 0 0x01 0x02 0x0 c3);
          c5 = c4\<lparr>used_interfaces := used_interfaces c4 - 1\<rparr>;
          (c6, iface_as) = USBDeluxe_DeviceDescriptor_InsertInterface 1 1 0x01 0x02 0x0 c5;
          c7 = USBDeluxe_DeviceDescriptor_InsertAudioSpecific_AS 0x02 c6;
          c8 = USBDeluxe_DeviceDescriptor_InsertAudioSpecific_Type1Format 1 2 16 8000 c7;
          (c9, ep) = USBDeluxe_DeviceDescriptor_InsertEndpoint USB_EP_DIR_IN EP_ISO 16 1 0 0 c8;
          c10 = USBDeluxe_DeviceDescriptor_InsertAudioSpecific_IsocEP c9
      in (USBDeluxe_DeviceDriver_AllocateMemory (DRV_AUDIO iface_ac iface_as ep) c10, last_idx))"

subsection \<open>Reading the strings back\<close>

text \<open>The string branch of \<^verbatim>\<open>USBStdGetDscHandler\<close>: the bytes given to endpoint 0, \<open>None\<close> for a stall.\<close>

definition usb_string_bytes :: "usb_string \<Rightarrow> u8 list" where
  "usb_string_bytes d = [sd_bLength d, sd_bDscType d] @ concat (map (\<lambda>w. [ucast w, ucast (drop_bit 8 w)]) (sd_string d))"

definition usb_get_string :: "usb_config \<Rightarrow> u8 \<Rightarrow> u8 list option" where
  "usb_get_string c idx =
     (if unat idx < length (strings c)
      then let pstr = strings c ! unat idx in Some (take (unat (sd_bLength pstr)) (usb_string_bytes pstr))
      else None)"

end
