(* ===== verification/USB_Descriptor_Props.thy ===== *)
theory USB_Descriptor_Props
  imports USB_Descriptor
begin

section \<open>What a host reads in the configuration\<close>

text \<open>
  A parser of configuration descriptors as a host does it: the bytes are split by their length
  bytes, and each piece is read by its type. \<open>usb_config_valid\<close> states what the USB specification asks
  of the whole configuration. The theorems: whatever functions are registered, as long as the
  endpoints last, the configuration is valid; the driver table and the descriptors agree on who owns
  which interface and endpoint; strings come back as they were added, up to 126 characters.
\<close>

subsection \<open>The parser\<close>

datatype usb_desc =
    D_Interface u8 u8 u8 u8 u8 u8
  | D_Endpoint u8 u8 u16 u8 "u8 list"
  | D_Assoc u8 u8 u8 u8 u8
  | D_Class u8 "u8 list"

fun parse_desc :: "u8 list \<Rightarrow> usb_desc option" where
  "parse_desc (l # t # bs) =
     (if t = 0x04 then (case bs of [n, a, k, c, s, p, _] \<Rightarrow> Some (D_Interface n a k c s p) | _ \<Rightarrow> None)
      else if t = 0x05 then
        (case bs of a # at # lo # hi # iv # ex \<Rightarrow> Some (D_Endpoint a at (ucast lo OR push_bit 8 (ucast hi)) iv ex) | _ \<Rightarrow> None)
      else if t = 0x0b then (case bs of [f, n, c, s, p, _] \<Rightarrow> Some (D_Assoc f n c s p) | _ \<Rightarrow> None)
      else if t = 0x21 \<or> t = 0x24 \<or> t = 0x25 then Some (D_Class t bs) else None)"
| "parse_desc _ = None"

function desc_split :: "u8 list \<Rightarrow> u8 list list option" where
  "desc_split [] = Some []"
| "desc_split (l # bs) =
     (if unat l < 2 \<or> Suc (length bs) < unat l then None
      else map_option ((#) (take (unat l) (l # bs))) (desc_split (drop (unat l) (l # bs))))"
  by pat_completeness auto
termination by (relation "measure length") auto

definition parse_descs :: "u8 list \<Rightarrow> usb_desc list option" where
  "parse_descs bs = (case desc_split bs of None \<Rightarrow> None | Some ds \<Rightarrow> those (map parse_desc ds))"

fun iface_alts :: "usb_desc list \<Rightarrow> (u8 \<times> u8) list" where
  "iface_alts [] = []"
| "iface_alts (D_Interface n a k c s p # ds) = (n, a) # iface_alts ds"
| "iface_alts (_ # ds) = iface_alts ds"

fun ep_addrs :: "usb_desc list \<Rightarrow> u8 list" where
  "ep_addrs [] = []"
| "ep_addrs (D_Endpoint a at s iv ex # ds) = a # ep_addrs ds"
| "ep_addrs (_ # ds) = ep_addrs ds"

text \<open>Each interface is followed by as many endpoint descriptors as it says, before the next one starts.\<close>

fun eps_counted :: "nat \<Rightarrow> usb_desc list \<Rightarrow> bool" where
  "eps_counted k [] \<longleftrightarrow> k = 0"
| "eps_counted k (D_Interface n a j c s p # ds) \<longleftrightarrow> k = 0 \<and> eps_counted (unat j) ds"
| "eps_counted k (D_Assoc f n c s p # ds) \<longleftrightarrow> k = 0 \<and> eps_counted 0 ds"
| "eps_counted k (D_Endpoint a at s iv ex # ds) \<longleftrightarrow> 0 < k \<and> eps_counted (k - 1) ds"
| "eps_counted k (D_Class t bs # ds) \<longleftrightarrow> eps_counted k ds"

fun assoc_inside :: "nat \<Rightarrow> usb_desc \<Rightarrow> bool" where
  "assoc_inside n (D_Assoc f k c s p) \<longleftrightarrow> unat f + unat k \<le> n"
| "assoc_inside n _ \<longleftrightarrow> True"

definition ep_number :: "u8 \<Rightarrow> nat" where
  "ep_number a = unat (a AND 0x7F)"

definition usb_config_valid :: "u8 list \<Rightarrow> bool" where
  "usb_config_valid b \<longleftrightarrow>
     9 \<le> length b \<and> b ! 0 = 9 \<and> b ! 1 = 2 \<and> unat (b ! 2) + 256 * unat (b ! 3) = length b \<and>
     (case parse_descs (drop 9 b) of
        None \<Rightarrow> False
      | Some ds \<Rightarrow>
          set (map fst (iface_alts ds)) = set (map of_nat [0..<unat (b ! 4)]) \<and>
          distinct (iface_alts ds) \<and> eps_counted 0 ds \<and> distinct (ep_addrs ds) \<and>
          list_all (\<lambda>a. 1 \<le> ep_number a \<and> ep_number a \<le> 15) (ep_addrs ds) \<and>
          list_all (assoc_inside (unat (b ! 4))) ds)"

subsection \<open>The functions an application registers\<close>

datatype usb_function =
    Fn_HID u8 u8 u8 | Fn_Audio | Fn_MIDI | Fn_CDC_ACM | Fn_CDC_ECM "u8 list" | Fn_CDC_NCM "u8 list" | Fn_MSD u8

fun usb_add :: "usb_function \<Rightarrow> usb_config \<Rightarrow> usb_config \<times> u8" where
  "usb_add (Fn_HID p s d) = USBDeluxe_DeviceFunction_Add_HID p s d"
| "usb_add Fn_Audio = USBDeluxe_DeviceFunction_Add_Audio"
| "usb_add Fn_MIDI = USBDeluxe_DeviceFunction_Add_MIDI"
| "usb_add Fn_CDC_ACM = USBDeluxe_DeviceFunction_Add_CDC_ACM"
| "usb_add (Fn_CDC_ECM mac) = USBDeluxe_DeviceFunction_Add_CDC_ECM mac"
| "usb_add (Fn_CDC_NCM mac) = USBDeluxe_DeviceFunction_Add_CDC_NCM mac"
| "usb_add (Fn_MSD n) = USBDeluxe_DeviceFunction_Add_MSD n"

primrec usb_add_all :: "usb_function list \<Rightarrow> usb_config \<Rightarrow> usb_config" where
  "usb_add_all [] c = c"
| "usb_add_all (f # fs) c = usb_add_all fs (fst (usb_add f c))"

fun fn_ifaces :: "usb_function \<Rightarrow> nat" where
  "fn_ifaces (Fn_HID _ _ _) = 1" | "fn_ifaces (Fn_MSD _) = 1" | "fn_ifaces _ = 2"

fun fn_eps :: "usb_function \<Rightarrow> nat" where
  "fn_eps Fn_CDC_ACM = 2" | "fn_eps (Fn_CDC_ECM _) = 2" | "fn_eps (Fn_CDC_NCM _) = 2" | "fn_eps _ = 1"

fun fn_strings :: "usb_function \<Rightarrow> nat" where
  "fn_strings (Fn_CDC_ECM _) = 1" | "fn_strings (Fn_CDC_NCM _) = 1" | "fn_strings _ = 0"

text \<open>The descriptors of a function whose first interface, endpoint and string are \<open>i\<close>, \<open>e\<close> and \<open>m\<close>.\<close>

fun net_descs :: "u16 \<Rightarrow> u8 \<Rightarrow> u8 \<Rightarrow> u8 \<Rightarrow> usb_desc list" where
  "net_descs sz i e m =
     [D_Assoc i 2 0x02 0x0d 0, D_Interface i 0 1 0x02 0x0d 0, D_Class 0x24 [0x00, 0x20, 0x01],
      D_Class 0x24 [0x0f, m, 0, 0, 0, 0, 0xea, 0x05, 0, 0, 0], D_Class 0x24 [0x06, i, i + 1], D_Class 0x24 [0x1a, 0x00, 0x01, 0],
      D_Endpoint (e OR 0x80) EP_INTERRUPT sz 2 [], D_Interface (i + 1) 0 0 0x0A 0 1, D_Interface (i + 1) 1 2 0x0A 0 1,
      D_Endpoint ((e + 1) OR 0x80) EP_BULK 64 0 [], D_Endpoint (e + 1) EP_BULK 64 0 []]"

fun fn_descs :: "usb_function \<Rightarrow> u8 \<Rightarrow> u8 \<Rightarrow> u8 \<Rightarrow> usb_desc list" where
  "fn_descs (Fn_HID p sz d) i e m =
     [D_Interface i 0 2 0x03 0x01 p, D_Class DSC_HID [0x11, 0x01, 0, 1, 0x22, d, 0],
      D_Endpoint (e OR 0x80) EP_INTERRUPT (ucast sz) 1 [], D_Endpoint e EP_INTERRUPT (ucast sz) 1 []]"
| "fn_descs Fn_Audio i e m =
     [D_Interface i 0 0 0x01 0x01 0, D_Class 0x24 [0x01, 0x00, 0x01, 0x1e, 0, 1, i + 1],
      D_Class 0x24 [0x02, 0x01, 0x01, 0x02, 0, 1, 0, 0, 0, 0], D_Class 0x24 [0x03, 0x02, 0x01, 0x01, 0, 0x01, 0],
      D_Interface (i + 1) 0 0 0x01 0x02 0, D_Interface (i + 1) 1 1 0x01 0x02 0,
      D_Class 0x24 [0x01, 0x02, 0x01, 0x01, 0x00], D_Class 0x24 [0x02, 0x01, 1, 2, 16, 0x01, 0x40, 0x1f, 0],
      D_Endpoint (e OR 0x80) EP_ISO 16 1 [0, 0], D_Class 0x24 [0x01, 0, 0, 0, 0]]"
| "fn_descs Fn_MIDI i e m =
     [D_Interface i 0 0 0x01 0x01 0, D_Class 0x24 [0x01, 0x00, 0x01, 0x09, 0, 1, 1],
      D_Interface (i + 1) 0 2 0x01 0x03 0, D_Class 0x24 [0x01, 0x00, 0x01, 0x41, 0],
      D_Class 0x24 [0x02, 0x01, 0x01, 0], D_Class 0x24 [0x02, 0x02, 0x02, 0],
      D_Class 0x24 [0x03, 0x01, 0x03, 0x01, 0x02, 0x01, 0], D_Class 0x24 [0x03, 0x02, 0x04, 0x01, 0x01, 0x01, 0],
      D_Endpoint e EP_BULK 0x40 0 [0, 0], D_Class 0x25 [0x01, 0x01, 0x01],
      D_Endpoint (e OR 0x80) EP_BULK 0x40 0 [0, 0], D_Class 0x25 [0x01, 0x01, 0x03]]"
| "fn_descs Fn_CDC_ACM i e m =
     [D_Assoc i 2 0x02 0x02 0x01, D_Interface i 0 1 0x02 0x02 0x01, D_Class 0x24 [0x00, 0x10, 0x01], D_Class 0x24 [0x02, 0x02],
      D_Class 0x24 [0x06, i, i + 1], D_Class 0x24 [0x01, 0x00, i + 1], D_Endpoint (e OR 0x80) EP_INTERRUPT 10 2 [],
      D_Interface (i + 1) 0 2 0x0A 0 0, D_Endpoint ((e + 1) OR 0x80) EP_BULK 64 0 [], D_Endpoint (e + 1) EP_BULK 64 0 []]"
| "fn_descs (Fn_CDC_ECM mac) i e m = net_descs 8 i e m"
| "fn_descs (Fn_CDC_NCM mac) i e m = net_descs 24 i e m"
| "fn_descs (Fn_MSD n) i e m =
     [D_Interface i 0 2 0x08 0x06 0x50, D_Endpoint (e OR 0x80) EP_BULK 64 1 [], D_Endpoint e EP_BULK 64 1 []]"

fun fn_driver :: "usb_function \<Rightarrow> u8 \<Rightarrow> u8 \<Rightarrow> u16 \<Rightarrow> usb_driver" where
  "fn_driver (Fn_HID p s d) i e off = DRV_HID i e s d off 9"
| "fn_driver Fn_Audio i e off = DRV_AUDIO i (i + 1) e"
| "fn_driver Fn_MIDI i e off = DRV_MIDI i (i + 1) e"
| "fn_driver Fn_CDC_ACM i e off = DRV_CDC_ACM i (i + 1) e (e + 1)"
| "fn_driver (Fn_CDC_ECM mac) i e off = DRV_CDC_ECM i (i + 1) e (e + 1)"
| "fn_driver (Fn_CDC_NCM mac) i e off = DRV_CDC_NCM i (i + 1) e (e + 1)"
| "fn_driver (Fn_MSD n) i e off = DRV_MSD i e e n"

subsection \<open>One registration\<close>

lemma ucast_of_nat_u8 [simp]: "ucast (of_nat n :: u16) = (of_nat n :: u8)"
  by (simp add: word_unat_eq_iff unat_ucast_mod unat_of_nat take_bit_eq_mod mod_mod_cancel)

lemma ucast_of_nat_Suc_u8 [simp]: "ucast (of_nat n + 1 :: u16) = (of_nat n + 1 :: u8)"
  using ucast_of_nat_u8[of "Suc n"] by (simp add: add.commute)

lemma byte_as_halfword [simp]:
  fixes x :: u8
  shows "ucast (ucast x AND 0xFF :: u16) = x" "drop_bit 8 (ucast x :: u16) = 0"
  by (rule bit_word_eqI; auto simp: bit_simps bit_FF simp del: bit_numeral_word_iff dest: bit_imp_le_length)+

lemma those_append: "those (xs @ ys) = (case those xs of None \<Rightarrow> None | Some as \<Rightarrow> map_option ((@) as) (those ys))"
proof (induction xs)
  case Nil
  then show ?case by (cases "those ys") auto
next
  case (Cons x xs)
  then show ?case by (cases "those ys") (auto split: option.splits)
qed

lemma desc_split_append:
  "desc_split bs = Some ds \<Longrightarrow> desc_split (bs @ bs') = map_option ((@) ds) (desc_split bs')"
proof (induction bs arbitrary: ds rule: desc_split.induct)
  case 1
  then show ?case by (simp add: option.map_ident)
next
  case (2 l bs)
  then obtain ds' where a: "\<not> (unat l < 2 \<or> Suc (length bs) < unat l)" and
    b: "desc_split (drop (unat l) (l # bs)) = Some ds'" and c: "ds = take (unat l) (l # bs) # ds'"
    by (auto split: if_splits)
  have "drop (unat l) (l # bs @ bs') = drop (unat l) (l # bs) @ bs'" and "take (unat l) (l # bs @ bs') = take (unat l) (l # bs)"
    using a by (cases "unat l"; simp)+
  then show ?case using "2.IH"[OF a b] a c by (simp add: option.map_comp comp_def)
qed

lemma parse_descs_append:
  assumes "parse_descs bs = Some ds" and "parse_descs bs' = Some ds'"
  shows "parse_descs (bs @ bs') = Some (ds @ ds')"
  using assms unfolding parse_descs_def
  by (auto split: option.splits simp: desc_split_append those_append)

lemmas desc_op_defs =
  desc_push_def USBDeluxe_DeviceDescriptor_InsertInterface_def USBDeluxe_DeviceDescriptor_InsertEndpointRaw_def
  USBDeluxe_DeviceDescriptor_InsertEndpoint_def USBDeluxe_DeviceDescriptor_InsertIAD_def
  USBDeluxe_DeviceDriver_AllocateMemory_def USBDeluxe_DeviceDescriptor_AddString_def

lemmas fn_op_defs =
  USBDeluxe_DeviceDescriptor_InsertCDCACMSpecific_def USBDeluxe_DeviceFunction_Add_CDC_ACM_def
  USBDeluxe_DeviceDescriptor_InsertCDCECMSpecific_def USBDeluxe_DeviceFunction_Add_CDC_ECM_def
  USBDeluxe_DeviceDescriptor_InsertCDCNCMSpecific_def USBDeluxe_DeviceFunction_Add_CDC_NCM_def
  USBDeluxe_DeviceFunction_Add_MSD_def USBDeluxe_DeviceDescriptor_InsertHIDSpecific_def USBDeluxe_DeviceFunction_Add_HID_def
  USBDeluxe_DeviceDescriptor_InsertMIDISpecificEndpoint_OUT_def USBDeluxe_DeviceDescriptor_InsertMIDISpecificEndpoint_IN_def
  USBDeluxe_DeviceDescriptor_InsertMIDISpecific_AC_def USBDeluxe_DeviceDescriptor_InsertMIDISpecific_MS_def
  USBDeluxe_DeviceDescriptor_InsertMIDISpecific_JACK_def USBDeluxe_DeviceFunction_Add_MIDI_def
  USBDeluxe_DeviceDescriptor_InsertAudioSpecific_AC_def USBDeluxe_DeviceDescriptor_InsertAudioSpecific_Terminal_def
  USBDeluxe_DeviceDescriptor_InsertAudioSpecific_AS_def USBDeluxe_DeviceDescriptor_InsertAudioSpecific_Type1Format_def
  USBDeluxe_DeviceDescriptor_InsertAudioSpecific_IsocEP_def USBDeluxe_DeviceFunction_Add_Audio_def

definition fn_offset :: "usb_config \<Rightarrow> u16" where
  "fn_offset c = of_nat (length (raw c) + 9)"

lemma add_ok:
  assumes "used_interfaces c = of_nat i" and "used_endpoints c = of_nat e" and "length (strings c) = m"
    and "usb_add f c = (c', idx)"
  shows "used_interfaces c' = of_nat (i + fn_ifaces f)" "used_endpoints c' = of_nat (e + fn_eps f)"
    "length (strings c') = m + fn_strings f"
  using assms by (cases f; auto simp: desc_op_defs fn_op_defs Let_def)+

lemma add_driver:
  assumes "used_interfaces c = of_nat i" and "used_endpoints c = of_nat e" and "usb_add f c = (c', idx)"
  shows "drivers c' = drivers c @ [fn_driver f (of_nat i) (of_nat e) (fn_offset c)]"
  using assms by (cases f; clarsimp simp: desc_op_defs fn_op_defs Let_def driver_index_def fn_offset_def)

lemma add_raw:
  assumes "used_interfaces c = of_nat i" and "used_endpoints c = of_nat e" and "length (strings c) = m"
    and "usb_add f c = (c', idx)"
  shows "take (length (raw c)) (raw c') = raw c" "length (drop (length (raw c)) (raw c')) \<le> 120"
   "parse_descs (drop (length (raw c)) (raw c')) = Some (fn_descs f (of_nat i) (of_nat e) (of_nat m))"
  using assms apply -
  apply (cases f; clarsimp simp: desc_op_defs fn_op_defs Let_def; fail)
  apply (cases f; clarsimp simp: desc_op_defs fn_op_defs Let_def; fail)
  apply (cases f; clarsimp simp: desc_op_defs fn_op_defs Let_def parse_descs_def)
  done

subsection \<open>A list of registrations\<close>

primrec all_descs :: "usb_function list \<Rightarrow> nat \<Rightarrow> nat \<Rightarrow> nat \<Rightarrow> usb_desc list" where
  "all_descs [] i e m = []"
| "all_descs (f # fs) i e m =
     fn_descs f (of_nat i) (of_nat e) (of_nat m) @ all_descs fs (i + fn_ifaces f) (e + fn_eps f) (m + fn_strings f)"

definition n_ifaces :: "usb_function list \<Rightarrow> nat" where
  "n_ifaces fs = sum_list (map fn_ifaces fs)"

definition n_eps :: "usb_function list \<Rightarrow> nat" where
  "n_eps fs = sum_list (map fn_eps fs)"

lemma n_simps [simp]:
  "n_ifaces [] = 0" "n_ifaces (f # fs) = fn_ifaces f + n_ifaces fs" "n_eps [] = 0" "n_eps (f # fs) = fn_eps f + n_eps fs"
  by (simp_all add: n_ifaces_def n_eps_def)

lemma n_bounds: "length fs \<le> n_eps fs" "n_ifaces fs \<le> 2 * n_eps fs"
proof (induction fs)
  case (Cons f fs)
  {
    case 1
    then show ?case using Cons.IH by (cases f) auto
  next
    case 2
    then show ?case using Cons.IH by (cases f) auto
  }
qed auto

lemma add_all_ok:
  assumes "used_interfaces c = of_nat i" and "used_endpoints c = of_nat e" and "length (strings c) = m"
  shows "used_interfaces (usb_add_all fs c) = of_nat (i + n_ifaces fs) \<and>
    used_endpoints (usb_add_all fs c) = of_nat (e + n_eps fs) \<and>
    (\<exists>bs. raw (usb_add_all fs c) = raw c @ bs \<and> parse_descs bs = Some (all_descs fs i e m) \<and>
      length bs \<le> 120 * length fs)"
  using assms
proof (induction fs arbitrary: c i e m)
  case Nil
  then show ?case by (auto simp: parse_descs_def)
next
  case (Cons f fs)
  obtain c1 idx where a: "usb_add f c = (c1, idx)" by (cases "usb_add f c")
  note A = add_ok[OF Cons.prems a] and B = add_raw[OF Cons.prems a]
  note I = Cons.IH[OF A]
  let ?b1 = "drop (length (raw c)) (raw c1)"
  have r1: "raw c1 = raw c @ ?b1" using B(1) by (metis append_take_drop_id)
  from I obtain bs where bs: "raw (usb_add_all fs c1) = raw c1 @ bs"
    "parse_descs bs = Some (all_descs fs (i + fn_ifaces f) (e + fn_eps f) (m + fn_strings f))" "length bs \<le> 120 * length fs"
    by blast
  have "raw (usb_add_all (f # fs) c) = raw c @ (?b1 @ bs)" using a bs(1) r1 by simp
  moreover have "parse_descs (?b1 @ bs) = Some (all_descs (f # fs) i e m)"
    using parse_descs_append[OF B(3) bs(2)] by simp
  moreover have "length (?b1 @ bs) \<le> 120 * length (f # fs)" using B(2) bs(3) by simp
  ultimately have "\<exists>bs. raw (usb_add_all (f # fs) c) = raw c @ bs \<and>
    parse_descs bs = Some (all_descs (f # fs) i e m) \<and> length bs \<le> 120 * length (f # fs)" by blast
  with I a show ?case by (simp add: add.assoc)
qed

subsection \<open>The structure of the descriptors\<close>

lemma iface_alts_append: "iface_alts (xs @ ys) = iface_alts xs @ iface_alts ys"
  by (induction xs rule: iface_alts.induct) auto

lemma ep_addrs_append: "ep_addrs (xs @ ys) = ep_addrs xs @ ep_addrs ys"
  by (induction xs rule: ep_addrs.induct) auto

lemma eps_counted_append: "eps_counted k xs \<Longrightarrow> eps_counted 0 ys \<Longrightarrow> eps_counted k (xs @ ys)"
  by (induction k xs rule: eps_counted.induct) auto

lemma all_counted: "eps_counted 0 (all_descs fs i e m)"
proof (induction fs arbitrary: i e m)
  case (Cons f fs)
  have "eps_counted 0 (fn_descs f (of_nat i) (of_nat e) (of_nat m))" by (cases f) auto
  then show ?case using Cons by (auto intro: eps_counted_append)
qed simp

lemma fn_ifaces_set:
  "set (map fst (iface_alts (fn_descs f (of_nat i) e m))) = of_nat ` {i..<i + fn_ifaces f}"
proof -
  have "{i..<i + 2} = {i, Suc i}" by auto
  then show ?thesis by (cases f) (auto simp: add.commute)
qed

lemma all_ifaces_set:
  "set (map fst (iface_alts (all_descs fs i e m))) = of_nat ` {i..<i + n_ifaces fs}"
proof (induction fs arbitrary: i e m)
  case (Cons f fs)
  have "{i..<i + n_ifaces (f # fs)} = {i..<i + fn_ifaces f} \<union> {i + fn_ifaces f..<i + fn_ifaces f + n_ifaces fs}" by auto
  moreover have "set (map fst (iface_alts (all_descs (f # fs) i e m))) =
      of_nat ` {i..<i + fn_ifaces f} \<union> of_nat ` {i + fn_ifaces f..<i + fn_ifaces f + n_ifaces fs}"
    unfolding all_descs.simps iface_alts_append map_append set_append fn_ifaces_set Cons ..
  ultimately show ?case by (simp only: image_Un)
qed simp

lemma of_nat_u8_eq: "a < 256 \<Longrightarrow> b < 256 \<Longrightarrow> (of_nat a :: u8) = of_nat b \<longleftrightarrow> a = b"
  by (simp add: word_unat_eq_iff unat_of_nat)

lemma all_alts_distinct:
  "i + n_ifaces fs \<le> 256 \<Longrightarrow> distinct (iface_alts (all_descs fs i e m))"
proof (induction fs arbitrary: i e m)
  case (Cons f fs)
  let ?xs = "iface_alts (fn_descs f (of_nat i) (of_nat e) (of_nat m))"
  let ?ys = "iface_alts (all_descs fs (i + fn_ifaces f) (e + fn_eps f) (m + fn_strings f))"
  have "distinct ?xs" by (cases f) auto
  moreover have "distinct ?ys" using Cons by simp
  moreover have "set ?xs \<inter> set ?ys = {}"
  proof (rule ccontr)
    assume "set ?xs \<inter> set ?ys \<noteq> {}"
    then obtain x where "x \<in> set ?xs" "x \<in> set ?ys" by blast
    then have "fst x \<in> set (map fst ?xs)" "fst x \<in> set (map fst ?ys)" by auto
    then have "fst x \<in> of_nat ` {i..<i + fn_ifaces f}"
      "fst x \<in> of_nat ` {i + fn_ifaces f..<i + fn_ifaces f + n_ifaces fs}"
      unfolding fn_ifaces_set all_ifaces_set .
    then show False using Cons.prems by (auto simp: of_nat_u8_eq)
  qed
  ultimately show ?case by (simp add: iface_alts_append)
qed simp

lemma ep_number_of_nat: "e < 128 \<Longrightarrow> ep_number (of_nat e) = e" "e < 128 \<Longrightarrow> ep_number (of_nat e OR 0x80) = e"
proof -
  have m: "(0x7F :: u8) = mask 7" by (simp add: mask_eq_exp_minus_1)
  have "((x :: u8) OR 0x80) AND 0x7F = x AND 0x7F" for x by (simp add: bit.conj_disj_distrib2)
  moreover assume "e < 128"
  then have "unat ((of_nat e :: u8) AND 0x7F) = e"
    unfolding m take_bit_eq_mask[symmetric] unsigned_take_bit_eq by (simp add: unat_of_nat take_bit_eq_mod)
  ultimately show "ep_number (of_nat e) = e" "ep_number (of_nat e OR 0x80) = e" by (simp_all add: ep_number_def)
qed

lemma in_address: 
  assumes "e < 128" shows "(of_nat e OR 0x80 :: u8) \<noteq> of_nat e"
proof
  assume eq: "(of_nat e OR 0x80 :: u8) = of_nat e"
  have m: "(0x7F :: u8) = mask 7" by (simp add: mask_eq_exp_minus_1)
  have "(of_nat e :: u8) = of_nat e AND 0x7F"
    using ep_number_of_nat(1)[OF assms] assms by (simp add: ep_number_def word_unat_eq_iff unat_of_nat)
  then have "(of_nat e :: u8) AND 0x80 = 0" proof -
    have "((x :: u8) AND 0x7F) AND 0x80 = 0" for x by (simp add: and.assoc)
    with \<open>of_nat e = of_nat e AND 0x7F\<close> show ?thesis by metis
  qed
  moreover have "(of_nat e OR 0x80 :: u8) AND 0x80 = 0x80" by (simp add: bit.conj_disj_distrib2)
  ultimately show False using eq by simp
qed

lemma ep_number_Suc: "Suc e < 128 \<Longrightarrow> ep_number (of_nat e + 1) = Suc e" "Suc e < 128 \<Longrightarrow> ep_number ((of_nat e + 1) OR 0x80) = Suc e"
  using ep_number_of_nat[of "Suc e"] by (simp_all add: add.commute)

lemma in_address_Suc: "Suc e < 128 \<Longrightarrow> ((of_nat e + 1) OR 0x80 :: u8) \<noteq> of_nat e + 1"
  using in_address[of "Suc e"] by (simp add: add.commute)

lemma fn_ep_numbers:
  "e + fn_eps f \<le> 128 \<Longrightarrow> a \<in> set (ep_addrs (fn_descs f i (of_nat e) m)) \<Longrightarrow> e \<le> ep_number a \<and> ep_number a < e + fn_eps f"
  by (cases f) (auto simp: ep_number_of_nat ep_number_Suc)

lemma fn_eps_distinct: "e + fn_eps f \<le> 128 \<Longrightarrow> distinct (ep_addrs (fn_descs f i (of_nat e) m))"
proof -
  assume e: "e + fn_eps f \<le> 128"
  have ne: "x \<noteq> y" if "ep_number x \<noteq> ep_number y" for x y using that by blast
  show ?thesis
    using e by (cases f) (auto simp: in_address in_address_Suc in_address[symmetric]
      intro!: ne simp: ep_number_of_nat ep_number_Suc)
qed

lemma all_ep_numbers:
  "e + n_eps fs \<le> 128 \<Longrightarrow> a \<in> set (ep_addrs (all_descs fs i e m)) \<Longrightarrow> e \<le> ep_number a \<and> ep_number a < e + n_eps fs"
proof (induction fs arbitrary: i e m)
  case (Cons f fs)
  let ?ys = "all_descs fs (i + fn_ifaces f) (e + fn_eps f) (m + fn_strings f)"
  from Cons.prems have "e + fn_eps f \<le> 128" and e: "(e + fn_eps f) + n_eps fs \<le> 128" by simp_all
  note A = fn_ep_numbers[OF this(1)] and B = Cons.IH[OF e]
  from Cons.prems(2) consider "a \<in> set (ep_addrs (fn_descs f (of_nat i) (of_nat e) (of_nat m)))" | "a \<in> set (ep_addrs ?ys)"
    by (auto simp: ep_addrs_append)
  then show ?case
  proof cases
    case 1
    from A[OF this] show ?thesis by simp
  next
    case 2
    from B[OF this] show ?thesis by simp
  qed
qed simp

lemma all_eps_distinct: "e + n_eps fs \<le> 128 \<Longrightarrow> distinct (ep_addrs (all_descs fs i e m))"
proof (induction fs arbitrary: i e m)
  case (Cons f fs)
  let ?xs = "ep_addrs (fn_descs f (of_nat i) (of_nat e) (of_nat m))"
  let ?ys = "ep_addrs (all_descs fs (i + fn_ifaces f) (e + fn_eps f) (m + fn_strings f))"
  have "distinct ?xs" using Cons.prems by (intro fn_eps_distinct) simp
  moreover have "distinct ?ys" using Cons by simp
  moreover have "set ?xs \<inter> set ?ys = {}"
    using Cons.prems fn_ep_numbers[of e f _ "of_nat i" "of_nat m"]
      all_ep_numbers[of "e + fn_eps f" fs _ "i + fn_ifaces f" "m + fn_strings f"] by fastforce
  ultimately show ?case by (simp add: ep_addrs_append)
qed simp

lemma all_assoc:
  "i + n_ifaces fs \<le> n \<Longrightarrow> n < 256 \<Longrightarrow> d \<in> set (all_descs fs i e m) \<Longrightarrow> assoc_inside n d"
proof (induction fs arbitrary: i e m)
  case (Cons f fs)
  have "assoc_inside n d" if "d \<in> set (fn_descs f (of_nat i) (of_nat e) (of_nat m))"
    using that Cons.prems(1,2) by (cases f) (auto simp: unat_of_nat)
  moreover have "(i + fn_ifaces f) + n_ifaces fs \<le> n" using Cons.prems(1) by simp
  ultimately show ?case using Cons.IH Cons.prems(2,3) by fastforce
qed simp

subsection \<open>The configuration is valid\<close>

definition usb_configured :: "u16 \<Rightarrow> u16 \<Rightarrow> u8 list \<Rightarrow> u8 list \<Rightarrow> u8 list \<Rightarrow> usb_function list \<Rightarrow> usb_config" where
  "usb_configured vid pid m p s fs =
     USBDeluxe_Device_ConfigApply (usb_add_all fs (USBDeluxe_Device_ConfigInit vid pid m p s usb_config_reset))"

lemma config_init:
  "raw (USBDeluxe_Device_ConfigInit vid pid m p s c) = [9, 2, 9, 0, 1, 1, 0, 0xC0, 50]"
  "used_interfaces (USBDeluxe_Device_ConfigInit vid pid m p s c) = of_nat 0"
  "used_endpoints (USBDeluxe_Device_ConfigInit vid pid m p s c) = of_nat 1"
  "length (strings (USBDeluxe_Device_ConfigInit vid pid m p s c)) = length (strings c) + 4"
  "drivers (USBDeluxe_Device_ConfigInit vid pid m p s c) = drivers c"
  by (simp_all add: USBDeluxe_Device_ConfigInit_def USBDeluxe_DeviceDescriptor_Init_def Let_def desc_push_def
      USBDeluxe_DeviceDescriptor_AddString_def USBDeluxe_DeviceDescriptor_AddString16_def)

lemma two_bytes: "unat (ucast ((x :: u16) AND 0xFF) :: u8) + 256 * unat (ucast (drop_bit 8 x) :: u8) = unat x"
proof -
  have "unat (x AND 0xFF) = unat x mod 256" unfolding maskFF take_bit_eq_mask[symmetric] unsigned_take_bit_eq
    by (simp add: take_bit_eq_mod)
  moreover have "unat (drop_bit 8 x) = unat x div 256" unfolding unat_drop_bit_eq by (simp add: drop_bit_eq_div)
  moreover have "unat x div 256 < 256" using unat_u16[of x] by simp
  ultimately show ?thesis by (simp add: unat_ucast_mod)
qed

lemma configured_split:
  "\<exists>lo hi bs. raw (usb_configured vid pid m p s fs) = [9, 2, lo, hi, of_nat (n_ifaces fs), 1, 0, 0xC0, 50] @ bs \<and>
    (unat lo + 256 * unat hi) = (length bs + 9) mod 65536 \<and> parse_descs bs = Some (all_descs fs 0 1 4) \<and> length bs \<le> 120 * length fs \<and>
    USB_CD_Ptr (usb_configured vid pid m p s fs) = Some (raw (usb_configured vid pid m p s fs))"
proof -
  let ?c = "USBDeluxe_Device_ConfigInit vid pid m p s usb_config_reset"
  have s4: "length (strings ?c) = 4" by (simp add: config_init usb_config_reset_def)
  from add_all_ok[OF config_init(2,3) s4, of fs] obtain bs where
    i: "used_interfaces (usb_add_all fs ?c) = of_nat (n_ifaces fs)"
    and r: "raw (usb_add_all fs ?c) = raw ?c @ bs" and P: "parse_descs bs = Some (all_descs fs 0 1 4)"
    and L: "length bs \<le> 120 * length fs" by auto
  let ?r = "raw (usb_add_all fs ?c)" let ?n = "of_nat (length ?r) :: u16"
  have "length ?r = length bs + 9" using r by (simp add: config_init)
  then have u: "unat ?n = (length bs + 9) mod 65536" by (simp only: unat_of_nat) simp
  have "raw (usb_configured vid pid m p s fs) =
      [9, 2, ucast (?n AND 0xff), ucast (drop_bit 8 ?n), of_nat (n_ifaces fs), 1, 0, 0xC0, 50] @ bs"
    using r i by (simp add: usb_configured_def USBDeluxe_Device_ConfigApply_def USBDeluxe_DeviceDescriptor_RefreshSize_def
      Let_def config_init)
  moreover have "USB_CD_Ptr (usb_configured vid pid m p s fs) = Some (raw (usb_configured vid pid m p s fs))"
    by (simp add: usb_configured_def USBDeluxe_Device_ConfigApply_def USBDeluxe_DeviceDescriptor_RefreshSize_def Let_def)
  ultimately show ?thesis using two_bytes[of ?n] u P L by metis
qed

lemma configured_raw:
  assumes "n_eps fs \<le> 15"
  shows "\<exists>lo hi bs. raw (usb_configured vid pid m p s fs) = [9, 2, lo, hi, of_nat (n_ifaces fs), 1, 0, 0xC0, 50] @ bs \<and>
    unat lo + 256 * unat hi = length bs + 9 \<and> parse_descs bs = Some (all_descs fs 0 1 4) \<and>
    USB_CD_Ptr (usb_configured vid pid m p s fs) = Some (raw (usb_configured vid pid m p s fs))"
proof -
  obtain lo hi bs where A: "raw (usb_configured vid pid m p s fs) = [9, 2, lo, hi, of_nat (n_ifaces fs), 1, 0, 0xC0, 50] @ bs"
    "unat lo + 256 * unat hi = (length bs + 9) mod 65536" "parse_descs bs = Some (all_descs fs 0 1 4)" "length bs \<le> 120 * length fs"
    "USB_CD_Ptr (usb_configured vid pid m p s fs) = Some (raw (usb_configured vid pid m p s fs))"
    using configured_split by blast
  have "length bs + 9 < 65536" using A(4) n_bounds(1)[of fs] assms by simp
  then have "unat lo + 256 * unat hi = length bs + 9" using A(2) by simp
  then show ?thesis using A by blast
qed

lemma configuration_valid:
  assumes "n_eps fs \<le> 15"
  shows "USB_CD_Ptr (usb_configured vid pid m p s fs) = Some (raw (usb_configured vid pid m p s fs))"
    and "usb_config_valid (raw (usb_configured vid pid m p s fs))"
proof -
  from configured_raw[OF assms, of vid pid m p s] obtain lo hi bs where
    r: "raw (usb_configured vid pid m p s fs) = [9, 2, lo, hi, of_nat (n_ifaces fs), 1, 0, 0xC0, 50] @ bs"
    and l: "unat lo + 256 * unat hi = length bs + 9" and P: "parse_descs bs = Some (all_descs fs 0 1 4)"
    and cd: "USB_CD_Ptr (usb_configured vid pid m p s fs) = Some (raw (usb_configured vid pid m p s fs))" by blast
  show "USB_CD_Ptr (usb_configured vid pid m p s fs) = Some (raw (usb_configured vid pid m p s fs))" by (rule cd)
  have n: "n_ifaces fs < 256" using n_bounds(2)[of fs] assms by simp
  then have un: "unat (of_nat (n_ifaces fs) :: u8) = n_ifaces fs" by (simp add: unat_of_nat)
  have "set (map fst (iface_alts (all_descs fs 0 1 4))) = set (map of_nat [0..<n_ifaces fs])"
    unfolding all_ifaces_set by simp
  moreover have "list_all (\<lambda>a. 1 \<le> ep_number a \<and> ep_number a \<le> 15) (ep_addrs (all_descs fs 0 1 4))"
    using all_ep_numbers[of 1 fs _ 0 4] assms by (fastforce simp: list_all_iff)
  moreover have "list_all (assoc_inside (n_ifaces fs)) (all_descs fs 0 1 4)"
    using all_assoc[of 0 fs "n_ifaces fs"] n by (auto simp: list_all_iff)
  moreover have "distinct (iface_alts (all_descs fs 0 1 4))" using n by (intro all_alts_distinct) simp
  moreover have "distinct (ep_addrs (all_descs fs 0 1 4))" using assms by (intro all_eps_distinct) simp
  ultimately show "usb_config_valid (raw (usb_configured vid pid m p s fs))"
    using l P un unfolding usb_config_valid_def r by (simp add: all_counted)
qed

lemma fn_ep_numbers_set:
  "e + fn_eps f \<le> 128 \<Longrightarrow> ep_number ` set (ep_addrs (fn_descs f i (of_nat e) m)) = {e..<e + fn_eps f}"
proof -
  have "{e..<e + 2} = {e, Suc e}" by auto
  then show "e + fn_eps f \<le> 128 \<Longrightarrow> ep_number ` set (ep_addrs (fn_descs f i (of_nat e) m)) = {e..<e + fn_eps f}"
    by (cases f) (auto simp: ep_number_of_nat ep_number_Suc)
qed

text \<open>With more than 15 endpoints there is one with the number 16.\<close>

lemma ep_16_there:
  "e \<le> 16 \<Longrightarrow> 16 < e + n_eps fs \<Longrightarrow> \<exists>a \<in> set (ep_addrs (all_descs fs i e m)). ep_number a = 16"
proof (induction fs arbitrary: i e m)
  case (Cons f fs)
  show ?case
  proof (cases "16 < e + fn_eps f")
    case True
    have "fn_eps f \<le> 2" by (cases f) simp_all
    then have "ep_number ` set (ep_addrs (fn_descs f (of_nat i) (of_nat e) (of_nat m))) = {e..<e + fn_eps f}"
      using Cons.prems(1) by (intro fn_ep_numbers_set) simp
    then have "16 \<in> ep_number ` set (ep_addrs (fn_descs f (of_nat i) (of_nat e) (of_nat m)))" using True Cons.prems(1) by simp
    then show ?thesis by (auto simp: ep_addrs_append)
  next
    case False
    then have "\<exists>a \<in> set (ep_addrs (all_descs fs (i + fn_ifaces f) (e + fn_eps f) (m + fn_strings f))). ep_number a = 16"
      using Cons.prems(2) by (intro Cons.IH) simp_all
    then show ?thesis by (auto simp: ep_addrs_append)
  qed
qed simp

lemma configuration_invalid:
  assumes "15 < n_eps fs"
  shows "\<not> usb_config_valid (raw (usb_configured vid pid m p s fs))"
proof
  assume v: "usb_config_valid (raw (usb_configured vid pid m p s fs))"
  obtain lo hi bs where r: "raw (usb_configured vid pid m p s fs) = [9, 2, lo, hi, of_nat (n_ifaces fs), 1, 0, 0xC0, 50] @ bs"
    and P: "parse_descs bs = Some (all_descs fs 0 1 4)"
    using configured_split by blast
  have "list_all (\<lambda>a. 1 \<le> ep_number a \<and> ep_number a \<le> 15) (ep_addrs (all_descs fs 0 1 4))"
    using v P by (simp add: usb_config_valid_def r)
  moreover have "\<exists>a \<in> set (ep_addrs (all_descs fs 0 1 4)). ep_number a = 16" using assms by (intro ep_16_there) simp_all
  ultimately show False by (auto simp: list_all_iff)
qed

text \<open>(C7) Whatever device functions are registered between the initialisation and \<^verbatim>\<open>USBDeluxe_Device_ConfigApply\<close>, what the
  host reads is the bytes they have added, and these are a valid configuration exactly when the functions need at most the 15
  endpoint numbers there are: the total length is right, it splits into descriptors, the interface numbers are those from 0 up to
  the announced count, no interface setting and no endpoint address occurs twice, each interface has as many endpoints as it says,
  the endpoint numbers lie between 1 and 15 and the interface associations name interfaces of the configuration. The code does not
  check the bound: with a sixteenth endpoint it announces one with the number 16, and the configuration is not valid.\<close>
theorem usb_configuration_valid:
  "USB_CD_Ptr (usb_configured vid pid m p s fs) = Some (raw (usb_configured vid pid m p s fs)) \<and>
    (usb_config_valid (raw (usb_configured vid pid m p s fs)) \<longleftrightarrow> n_eps fs \<le> 15)"
proof -
  have "USB_CD_Ptr (usb_configured vid pid m p s fs) = Some (raw (usb_configured vid pid m p s fs))" using configured_split by blast
  moreover have "usb_config_valid (raw (usb_configured vid pid m p s fs)) \<longleftrightarrow> n_eps fs \<le> 15"
    using configuration_valid(2) configuration_invalid not_le by blast
  ultimately show ?thesis by blast
qed

theorem usb_configuration_valid_witness:
  "usb_config_valid (raw (usb_configured 0x04D8 0x0057 [] [] [] [Fn_CDC_ACM, Fn_CDC_NCM [0x30], Fn_MSD 1, Fn_Audio, Fn_HID 1 8 63])) \<and>
   \<not> usb_config_valid (raw (usb_configured 0x04D8 0x0057 [] [] [] (replicate 8 Fn_CDC_ACM)))"
  by (simp add: usb_configuration_valid n_eps_def sum_list_replicate)

subsection \<open>The drivers and their descriptors\<close>

fun driver_ifaces :: "usb_driver \<Rightarrow> u8 list" where
  "driver_ifaces (DRV_HID i e r d off len) = [i]"
| "driver_ifaces (DRV_AUDIO ac as e) = [ac, as]"
| "driver_ifaces (DRV_MIDI ac ms e) = [ac, ms]"
| "driver_ifaces (DRV_CDC_ACM cm dt ec ed) = [cm, dt]"
| "driver_ifaces (DRV_CDC_ECM cm dt ec ed) = [cm, dt]"
| "driver_ifaces (DRV_CDC_NCM cm dt ec ed) = [cm, dt]"
| "driver_ifaces (DRV_MSD i eo ei n) = [i]"

fun driver_eps :: "usb_driver \<Rightarrow> u8 list" where
  "driver_eps (DRV_HID i e r d off len) = [e]"
| "driver_eps (DRV_AUDIO ac as e) = [e]"
| "driver_eps (DRV_MIDI ac ms e) = [e]"
| "driver_eps (DRV_CDC_ACM cm dt ec ed) = [ec, ed]"
| "driver_eps (DRV_CDC_ECM cm dt ec ed) = [ec, ed]"
| "driver_eps (DRV_CDC_NCM cm dt ec ed) = [ec, ed]"
| "driver_eps (DRV_MSD i eo ei n) = remdups [eo, ei]"

text \<open>The piece of the configuration a HID driver answers a request for its HID descriptor with.\<close>

fun hid_slice :: "u8 list \<Rightarrow> usb_driver \<Rightarrow> bool" where
  "hid_slice r (DRV_HID i e rpt d off len) \<longleftrightarrow>
     9 \<le> unat off \<and> unat off + unat len \<le> length r \<and>
     parse_desc (take (unat len) (drop (unat off) r)) = Some (D_Class DSC_HID [0x11, 0x01, 0, 1, 0x22, d, 0])"
| "hid_slice r _ \<longleftrightarrow> True"

lemma hid_slice_append: "hid_slice r d \<Longrightarrow> hid_slice (r @ bs) d"
  by (cases d) auto

lemma add_hid_slice:
  assumes "usb_add f c = (c', idx)" and "9 \<le> length (raw c) + 9" and "length (raw c) \<le> 60000"
  shows "hid_slice (raw c') (fn_driver f i e (fn_offset c))"
proof -
  have "unat (fn_offset c) = length (raw c) + 9"
    using assms(3) unfolding fn_offset_def unat_of_nat by simp
  then show ?thesis
    using assms(1) by (cases f) (auto simp: desc_op_defs fn_op_defs Let_def)
qed

lemma fn_driver_parts:
  "driver_ifaces (fn_driver f (of_nat i) e off) = map of_nat [i..<i + fn_ifaces f]"
  "driver_eps (fn_driver f i' (of_nat e') off) = map of_nat [e'..<e' + fn_eps f]"
  by (cases f; simp add: upt_rec)+

lemma add_all_drivers:
  assumes "used_interfaces c = of_nat i" and "used_endpoints c = of_nat e" and "length (strings c) = m"
    and "length (raw c) + 120 * length fs \<le> 60000"
  shows "\<exists>ds. drivers (usb_add_all fs c) = drivers c @ ds \<and> length ds = length fs \<and>
    concat (map driver_ifaces ds) = map of_nat [i..<i + n_ifaces fs] \<and>
    concat (map driver_eps ds) = map of_nat [e..<e + n_eps fs] \<and>
    list_all (hid_slice (raw (usb_add_all fs c))) ds"
  using assms
proof (induction fs arbitrary: c i e m)
  case (Cons f fs)
  obtain c1 idx where a: "usb_add f c = (c1, idx)" by (cases "usb_add f c")
  let ?d = "fn_driver f (of_nat i) (of_nat e) (fn_offset c)"
  note A = add_ok[OF Cons.prems(1-3) a] and B = add_raw[OF Cons.prems(1-3) a]
  have "length (raw c1) \<le> length (raw c) + 120"
    using B(2) by simp
  then have "length (raw c1) + 120 * length fs \<le> 60000" using Cons.prems(4) by simp
  note I = Cons.IH[OF A this]
  from I obtain ds where ds: "drivers (usb_add_all fs c1) = drivers c1 @ ds" "length ds = length fs"
    "concat (map driver_ifaces ds) = map of_nat [i + fn_ifaces f..<i + fn_ifaces f + n_ifaces fs]"
    "concat (map driver_eps ds) = map of_nat [e + fn_eps f..<e + fn_eps f + n_eps fs]"
    "list_all (hid_slice (raw (usb_add_all fs c1))) ds" by blast
  from add_all_ok[OF A] obtain bs where "raw (usb_add_all fs c1) = raw c1 @ bs" by blast
  moreover have "hid_slice (raw c1) ?d" by (rule add_hid_slice[OF a]) (use Cons.prems(4) in auto)
  ultimately have h: "hid_slice (raw (usb_add_all fs c1)) ?d" by (simp add: hid_slice_append)
  have "[i..<i + n_ifaces (f # fs)] = [i..<i + fn_ifaces f] @ [i + fn_ifaces f..<i + fn_ifaces f + n_ifaces fs]"
    "[e..<e + n_eps (f # fs)] = [e..<e + fn_eps f] @ [e + fn_eps f..<e + fn_eps f + n_eps fs]"
    by (simp_all only: n_simps add.assoc[symmetric] upt_add_eq_append[OF le_add1])
  then have "concat (map driver_ifaces (?d # ds)) = map of_nat [i..<i + n_ifaces (f # fs)]"
    "concat (map driver_eps (?d # ds)) = map of_nat [e..<e + n_eps (f # fs)]"
    using ds(3,4) fn_driver_parts by simp_all
  moreover have "drivers (usb_add_all (f # fs) c) = drivers c @ (?d # ds)"
    using a ds(1) add_driver[OF Cons.prems(1,2) a] by simp
  moreover have "list_all (hid_slice (raw (usb_add_all (f # fs) c))) (?d # ds)" using ds(5) h a by simp
  ultimately show ?case using ds(2) by (intro exI[of _ "?d # ds"]) simp
qed simp

lemma all_ep_numbers_set:
  "e + n_eps fs \<le> 128 \<Longrightarrow> ep_number ` set (ep_addrs (all_descs fs i e m)) = {e..<e + n_eps fs}"
proof (induction fs arbitrary: i e m)
  case (Cons f fs)
  then have "ep_number ` set (ep_addrs (all_descs fs (i + fn_ifaces f) (e + fn_eps f) (m + fn_strings f))) =
    {e + fn_eps f..<e + fn_eps f + n_eps fs}" by simp
  moreover have "ep_number ` set (ep_addrs (fn_descs f (of_nat i) (of_nat e) (of_nat m))) = {e..<e + fn_eps f}"
    using Cons.prems by (intro fn_ep_numbers_set) simp
  moreover have "{e..<e + n_eps (f # fs)} = {e..<e + fn_eps f} \<union> {e + fn_eps f..<e + fn_eps f + n_eps fs}" by auto
  ultimately show ?case by (simp only: all_descs.simps ep_addrs_append set_append image_Un)
qed simp

lemma hid_slice_update:
  assumes "hid_slice r d"
  shows "hid_slice (r[2 := x, 3 := y, 4 := z]) d"
  using assms by (cases d) auto

lemma drivers_own:
  assumes "n_eps fs \<le> 15"
  shows "length (drivers (usb_configured vid pid m p s fs)) = length fs"
    and "distinct (concat (map driver_ifaces (drivers (usb_configured vid pid m p s fs))))"
    and "distinct (map ep_number (concat (map driver_eps (drivers (usb_configured vid pid m p s fs)))))"
    and "\<exists>ds. parse_descs (drop 9 (raw (usb_configured vid pid m p s fs))) = Some ds \<and>
          set (concat (map driver_ifaces (drivers (usb_configured vid pid m p s fs)))) = set (map fst (iface_alts ds)) \<and>
          set (map ep_number (concat (map driver_eps (drivers (usb_configured vid pid m p s fs))))) =
            set (map ep_number (ep_addrs ds))"
    and "list_all (hid_slice (raw (usb_configured vid pid m p s fs))) (drivers (usb_configured vid pid m p s fs))"
proof -
  let ?c = "USBDeluxe_Device_ConfigInit vid pid m p s usb_config_reset" and ?a = "usb_configured vid pid m p s fs"
  have s4: "length (strings ?c) = 4" by (simp add: config_init usb_config_reset_def)
  have "length (raw ?c) + 120 * length fs \<le> 60000" using n_bounds(1)[of fs] assms by (simp add: config_init)
  from add_all_drivers[OF config_init(2,3) s4 this]
  obtain ds where ds: "drivers (usb_add_all fs ?c) = drivers ?c @ ds" "length ds = length fs"
    "concat (map driver_ifaces ds) = map of_nat [0..<n_ifaces fs]" "concat (map driver_eps ds) = map of_nat [1..<1 + n_eps fs]"
    "list_all (hid_slice (raw (usb_add_all fs ?c))) ds" by auto
  have d: "drivers ?a = ds" using ds(1) by (simp add: usb_configured_def USBDeluxe_Device_ConfigApply_def
      USBDeluxe_DeviceDescriptor_RefreshSize_def Let_def config_init usb_config_reset_def)
  have e: "map ep_number (concat (map driver_eps ds)) = [1..<1 + n_eps fs]"
    unfolding ds(4) using assms by (auto simp: ep_number_of_nat intro: map_idI)
  have n: "n_ifaces fs < 256" using n_bounds(2)[of fs] assms by simp
  show "length (drivers ?a) = length fs" using d ds(2) by simp
  show "distinct (concat (map driver_ifaces (drivers ?a)))"
    unfolding d ds(3) using n by (simp add: distinct_map inj_on_def of_nat_u8_eq)
  show "distinct (map ep_number (concat (map driver_eps (drivers ?a))))" unfolding d e by simp
  from configured_raw[OF assms, of vid pid m p s] obtain lo hi bs where
    r: "raw ?a = [9, 2, lo, hi, of_nat (n_ifaces fs), 1, 0, 0xC0, 50] @ bs"
    and P: "parse_descs bs = Some (all_descs fs 0 1 4)" by blast
  have "set (map ep_number (ep_addrs (all_descs fs 0 1 4))) = set [1..<1 + n_eps fs]"
    using all_ep_numbers_set[of 1 fs 0 4] assms by (simp only: set_map set_upt)
  moreover have "set (map fst (iface_alts (all_descs fs 0 1 4))) = set (map of_nat [0..<n_ifaces fs])"
    unfolding all_ifaces_set by simp
  ultimately show "\<exists>ds. parse_descs (drop 9 (raw ?a)) = Some ds \<and>
      set (concat (map driver_ifaces (drivers ?a))) = set (map fst (iface_alts ds)) \<and>
      set (map ep_number (concat (map driver_eps (drivers ?a)))) = set (map ep_number (ep_addrs ds))"
    unfolding d e ds(3) r using P by simp
  show "list_all (hid_slice (raw ?a)) (drivers ?a)"
    using ds(5) unfolding d by (simp add: usb_configured_def USBDeluxe_Device_ConfigApply_def
      USBDeluxe_DeviceDescriptor_RefreshSize_def Let_def list_all_iff hid_slice_update)
qed

text \<open>(C8) The driver table and the descriptors agree: each registered function has one driver, the
  drivers' interfaces are all the interfaces of the configuration and their endpoints all its
  endpoints, no two drivers share one, and each HID driver's slice of the configuration is its own
  HID descriptor.\<close>
theorem usb_drivers_own:
  assumes "n_eps fs \<le> 15"
  shows "length (drivers (usb_configured vid pid m p s fs)) = length fs \<and>
    distinct (concat (map driver_ifaces (drivers (usb_configured vid pid m p s fs)))) \<and>
    distinct (map ep_number (concat (map driver_eps (drivers (usb_configured vid pid m p s fs))))) \<and>
    (\<exists>ds. parse_descs (drop 9 (raw (usb_configured vid pid m p s fs))) = Some ds \<and>
       set (concat (map driver_ifaces (drivers (usb_configured vid pid m p s fs)))) = set (map fst (iface_alts ds)) \<and>
       set (map ep_number (concat (map driver_eps (drivers (usb_configured vid pid m p s fs))))) =
         set (map ep_number (ep_addrs ds))) \<and>
    list_all (hid_slice (raw (usb_configured vid pid m p s fs))) (drivers (usb_configured vid pid m p s fs))"
  using drivers_own[OF assms] by (intro conjI)

theorem usb_drivers_own_witness:
  "length (drivers (usb_configured 0x04D8 0x0057 [] [] [] [Fn_CDC_ACM, Fn_HID 1 8 63])) = 2"
  using usb_drivers_own[of "[Fn_CDC_ACM, Fn_HID 1 8 63]"] by (simp add: n_eps_def)

subsection \<open>Strings\<close>

text \<open>What a host expects for a string: the length, the type and the characters in 16 bits each.\<close>

definition string_reply :: "u8 list \<Rightarrow> u8 list" where
  "string_reply str = [of_nat (2 + 2 * length str), 0x03] @ concat (map (\<lambda>b. [b, 0]) str)"

lemma word_bytes_again: "ucast (ucast (b :: u8) :: u16) = b"
  by (rule bit_word_eqI) (auto simp: bit_simps)

lemma length_string_reply: "length (string_reply str) = 2 + 2 * length str"
  by (simp add: string_reply_def length_concat comp_def sum_list_triv)

lemma add_strings: "\<exists>ss. strings (fst (usb_add f c)) = strings c @ ss"
  by (cases f) (auto simp: desc_op_defs fn_op_defs Let_def)

lemma add_all_strings: "\<exists>ss. strings (usb_add_all fs c) = strings c @ ss"
proof (induction fs arbitrary: c)
  case (Cons f fs)
  from add_strings[of f c] Cons.IH[of "fst (usb_add f c)"] show ?case by auto
qed simp

lemma apply_strings: "strings (USBDeluxe_Device_ConfigApply c) = strings c"
  by (simp add: USBDeluxe_Device_ConfigApply_def USBDeluxe_DeviceDescriptor_RefreshSize_def Let_def)

lemma added_string:
  assumes "USBDeluxe_DeviceDescriptor_AddString str (-1) c = (c', idx)" and "length (strings c) < 256"
    and "strings c'' = strings c' @ ss" and "length (takeWhile (\<lambda>b. b \<noteq> 0) str) < 32767"
  shows "usb_get_string c'' (ucast idx) =
    Some (take ((2 + 2 * length (takeWhile (\<lambda>b. b \<noteq> 0) str)) mod 256) (string_reply (takeWhile (\<lambda>b. b \<noteq> 0) str)))"
proof -
  let ?s = "takeWhile (\<lambda>b. b \<noteq> 0) str"
  have idx: "idx = of_nat (length (strings c))"
    and c': "strings c' = strings c @ [\<lparr>sd_bLength = ucast (2 + 2 * of_nat (length ?s) :: u16), sd_bDscType = 0x03,
        sd_string = map (\<lambda>i. ucast (str ! i)) [0..<length ?s]\<rparr>]"
    using assms(1) by (auto simp: USBDeluxe_DeviceDescriptor_AddString_def Let_def)
  have u: "unat (ucast idx :: u8) = length (strings c)" using assms(2) unfolding idx by (simp add: unat_of_nat)
  have "2 + 2 * of_nat (length ?s) = (of_nat (2 + 2 * length ?s) :: u16)" by simp
  then have l: "ucast (2 + 2 * of_nat (length ?s) :: u16) = (of_nat (2 + 2 * length ?s) :: u8)"
    by (simp only: ucast_of_nat_u8)
  have "map (\<lambda>i. ucast (str ! i)) [0..<length ?s] = map (\<lambda>b. ucast b :: u16) ?s"
    by (rule nth_equalityI) (auto simp: takeWhile_nth)
  then have b: "usb_string_bytes \<lparr>sd_bLength = ucast (2 + 2 * of_nat (length ?s) :: u16), sd_bDscType = 0x03,
        sd_string = map (\<lambda>i. ucast (str ! i)) [0..<length ?s]\<rparr> = string_reply ?s"
    unfolding usb_string_bytes_def string_reply_def l by (simp add: comp_def word_bytes_again)
  define d where "d = \<lparr>sd_bLength = ucast (2 + 2 * of_nat (length ?s) :: u16), sd_bDscType = 0x03,
        sd_string = map (\<lambda>i. ucast (str ! i) :: u16) [0..<length ?s]\<rparr>"
  have "unat (sd_bLength d) = (2 + 2 * length ?s) mod 256"
    unfolding d_def usb_string.simps l by (simp only: unat_of_nat) simp
  then show ?thesis using u c' assms(3) b unfolding d_def[symmetric]
    by (simp add: usb_get_string_def Let_def)
qed

text \<open>A string of at most 126 characters comes back as it was added, whatever functions are
  registered later: the reply to the request for its index is the string descriptor USB asks for. From
  127 characters on the length byte wraps and the host receives only the first
  \<open>(2 + 2 * n) mod 256\<close> bytes of the descriptor.\<close>
theorem usb_string_roundtrip:
  assumes "USBDeluxe_DeviceDescriptor_AddString str (-1) c = (c', idx)" and "length (strings c) < 256"
    and "takeWhile (\<lambda>b. b \<noteq> 0) str = cs" and "length cs < 32767"
  shows "usb_get_string (USBDeluxe_Device_ConfigApply (usb_add_all fs c')) (ucast idx) =
    Some (if length cs \<le> 126 then string_reply cs else take ((2 + 2 * length cs) mod 256) (string_reply cs))"
proof -
  from add_all_strings obtain ss where "strings (USBDeluxe_Device_ConfigApply (usb_add_all fs c')) = strings c' @ ss"
    unfolding apply_strings by blast
  note G = added_string[OF assms(1,2) this, unfolded assms(3), OF assms(4)]
  show ?thesis unfolding G using length_string_reply[of cs] by simp
qed

theorem usb_string_roundtrip_witness:
  "usb_get_string (USBDeluxe_Device_ConfigApply (usb_add_all [Fn_Audio]
      (fst (USBDeluxe_DeviceDescriptor_AddString [0x50, 0x49, 0] (-1) usb_config_reset)))) 0 = Some [6, 3, 0x50, 0, 0x49, 0] \<and>
   usb_get_string (USBDeluxe_Device_ConfigApply (usb_add_all []
      (fst (USBDeluxe_DeviceDescriptor_AddString (replicate 127 0x41) (-1) usb_config_reset)))) 0 = Some []"
proof
  obtain c idx where a: "USBDeluxe_DeviceDescriptor_AddString [0x50, 0x49, 0] (-1) usb_config_reset = (c, idx)"
    by fastforce
  then have "idx = 0" by (auto simp: USBDeluxe_DeviceDescriptor_AddString_def Let_def usb_config_reset_def)
  then show "usb_get_string (USBDeluxe_Device_ConfigApply (usb_add_all [Fn_Audio]
      (fst (USBDeluxe_DeviceDescriptor_AddString [0x50, 0x49, 0] (-1) usb_config_reset)))) 0 = Some [6, 3, 0x50, 0, 0x49, 0]"
    using usb_string_roundtrip[OF a, of "[0x50, 0x49]" "[Fn_Audio]"] a by (simp add: usb_config_reset_def string_reply_def)
next
  obtain c idx where a: "USBDeluxe_DeviceDescriptor_AddString (replicate 127 0x41) (-1) usb_config_reset = (c, idx)"
    by fastforce
  then have "idx = 0" by (auto simp: USBDeluxe_DeviceDescriptor_AddString_def Let_def usb_config_reset_def)
  then show "usb_get_string (USBDeluxe_Device_ConfigApply (usb_add_all []
      (fst (USBDeluxe_DeviceDescriptor_AddString (replicate 127 0x41) (-1) usb_config_reset)))) 0 = Some []"
    using usb_string_roundtrip[OF a, of "replicate 127 0x41" "[]"] a by (simp add: usb_config_reset_def takeWhile_eq_all_conv)
qed

end
