(* ===== verification/USB_Control.thy ===== *)
theory USB_Control
  imports Variant
begin

section \<open>Setup packets and what a class driver does with endpoint 0\<close>

text \<open>
  The setup packet of a control request (\<^verbatim>\<open>CTRL_TRF_SETUP\<close> in \<^verbatim>\<open>usb_ch9.h\<close>) by its fields, and the
  effects on endpoint 0 a request handler has through the macros \<^verbatim>\<open>USBEP0SendRAMPtr\<close>,
  \<^verbatim>\<open>USBEP0SendROMPtr\<close>, \<^verbatim>\<open>USBEP0Transmit\<close> and \<^verbatim>\<open>USBEP0Receive\<close> of \<^verbatim>\<open>usb_device.h\<close>: nothing (the stack stalls the
  request unless someone else takes it), a reply without data, the bytes to send, or the number of
  bytes to receive. \<open>rtos_queue_send\<close> and the mutex operations are the FreeRTOS calls the drivers
  use, on a queue of one element and a mutex, without their waiting times: a call whose wait times out
  is the one that returns at once.
\<close>

record usb_setup =
  st_Recipient :: u8
  st_RequestType :: u8
  st_DataDir :: bool
  st_bRequest :: u8
  st_wValue :: u16
  st_wIndex :: u16
  st_wLength :: u16

text \<open>The fields of the eight bytes, \<open>st_DataDir\<close> for device to host.\<close>

definition setup_of_bytes :: "u8 list \<Rightarrow> usb_setup" where
  "setup_of_bytes bs =
     \<lparr>st_Recipient = bs ! 0 AND 0x1F, st_RequestType = drop_bit 5 (bs ! 0) AND 0x3, st_DataDir = bit (bs ! 0) 7,
      st_bRequest = bs ! 1, st_wValue = le_word (take 2 (drop 2 bs)), st_wIndex = le_word (take 2 (drop 4 bs)),
      st_wLength = le_word (take 2 (drop 6 bs))\<rparr>"

definition st_bIntfID :: "usb_setup \<Rightarrow> u8" where
  "st_bIntfID p = ucast (st_wIndex p)"

definition st_bDescriptorType :: "usb_setup \<Rightarrow> u8" where
  "st_bDescriptorType p = ucast (drop_bit 8 (st_wValue p))"

definition st_bDscIndex :: "usb_setup \<Rightarrow> u8" where
  "st_bDscIndex p = ucast (st_wValue p)"

definition st_bFeature :: "usb_setup \<Rightarrow> u8" where
  "st_bFeature p = ucast (st_wValue p)"

definition st_EPNum :: "usb_setup \<Rightarrow> u8" where
  "st_EPNum p = ucast (st_wIndex p) AND 0x0F"

definition st_EPDir :: "usb_setup \<Rightarrow> bool" where
  "st_EPDir p = bit (st_wIndex p) 7"

datatype ep0_action = EP0_nothing | EP0_empty | EP0_data "u8 list" | EP0_receive u16

definition class_interface_request :: "usb_setup \<Rightarrow> bool" where
  "class_interface_request p \<longleftrightarrow> st_Recipient p = 0x01 \<and> st_RequestType p = 0x01"

subsection \<open>A FreeRTOS queue of one element and a mutex\<close>

definition rtos_queue_send :: "'a \<Rightarrow> 'a option \<Rightarrow> 'a option \<times> bool" where
  "rtos_queue_send x q = (case q of None \<Rightarrow> (Some x, True) | Some y \<Rightarrow> (Some y, False))"

definition rtos_mutex_take :: "bool \<Rightarrow> bool \<times> bool" where
  "rtos_mutex_take free = (False, free)"

end
