(* ===== verification/USB_EP0.thy ===== *)
theory USB_EP0
  imports USB_Endpoint USB_Control USB_Descriptor
begin

section \<open>Endpoint 0: the control transfers of the USB device stack\<close>

text \<open>
  Models the control transfer engine of \<^verbatim>\<open>usb_device.c\<close> with full ping-pong buffering, 64-byte packets
  and data toggle checking: the two OUT and two IN descriptors of endpoint 0, the setup, data and
  status stages, and the standard requests. The class drivers are reached through
  \<^verbatim>\<open>USB_Device_EventHandler\<close>; here they are the two functions of \<open>usb_events\<close> on their state \<open>'d\<close> and
  the other endpoints. A driver answers a request with a list of claims on the pipes of endpoint 0
  (the macros \<^verbatim>\<open>USBEP0SendRAMPtr\<close>, \<^verbatim>\<open>USBEP0Transmit\<close> and \<^verbatim>\<open>USBEP0Receive\<close>).

  The result \<open>None\<close> of a handler is an access through a null pointer or past the end of an array. A
  source pointer is the function from offsets to the bytes behind it, which do not change
  during the transfer; a destination pointer is the function that stores a byte at an offset. The
  address field of a descriptor that is not armed has no meaning.
\<close>

subsection \<open>State\<close>

datatype ep0_buf = Buf_SetupPkt | Buf_CtrlTrfData
datatype ctrl_state = WAIT_SETUP | CTRL_TRF_TX | CTRL_TRF_RX
datatype short_pkt = SHORT_PKT_NOT_USED | SHORT_PKT_PENDING | SHORT_PKT_SENT
datatype dev_state =
  DETACHED_STATE | ATTACHED_STATE | POWERED_STATE | DEFAULT_STATE | ADR_PENDING_STATE | ADDRESS_STATE | CONFIGURED_STATE

record in_pipe =
  ip_pSrc :: "nat \<Rightarrow> u8"
  ip_wCount :: u16
  ip_busy :: bool

record 'd out_pipe =
  op_pDst :: "nat \<Rightarrow> u8 \<Rightarrow> 'd \<Rightarrow> 'd"
  op_pos :: nat
  op_wCount :: u16
  op_busy :: bool
  op_pFunc :: "('d \<Rightarrow> 'd) option"

record ('b, 'd) usb_dev =
  USBDeviceState :: dev_state
  USBActiveConfiguration :: u8
  USBAlternateInterface :: "u8 list"
  U1ADDR :: u8
  SetupPkt :: "u8 list"
  CtrlTrfData :: "u8 list"
  ep0_OUT :: "bool \<Rightarrow> ep0_buf bdt_entry"
  ep0_IN :: "bool \<Rightarrow> ep0_buf bdt_entry"
  ep0_PID :: "bool \<Rightarrow> u8"
  EP0OutCurrent :: bool
  EP0OutNext :: bool
  EP0In :: bool
  inPipe :: in_pipe
  outPipe :: "'d out_pipe"
  shortPacketStatus :: short_pkt
  controlTransferState :: ctrl_state
  BothEP0OutUOWNsSet :: bool
  USBDeferStatusStagePacket :: bool
  USBDeferINDataStagePackets :: bool
  USBDeferOUTDataStagePackets :: bool
  USBStatusStageEnabledFlag1 :: bool
  USBStatusStageEnabledFlag2 :: bool
  USBStatusStageTimeoutCounter :: u8
  RemoteWakeup :: bool
  ep_terminated :: "u8 \<times> usb_dir \<Rightarrow> bool"
  ep_ping_pong :: "u8 \<times> usb_dir \<Rightarrow> bool"
  PKTDIS :: bool
  EPSTALL :: bool
  sie_OUT :: bool
  sie_IN :: bool
  dev_eps :: "'b usb_eps"
  dev_config :: usb_config
  dev_drv :: 'd

datatype 'd ep0_claim =
    Claim_empty
  | Claim_in "u8 list"
  | Claim_out u16 "nat \<Rightarrow> u8 \<Rightarrow> 'd \<Rightarrow> 'd" "('d \<Rightarrow> 'd) option"

record ('b, 'd) usb_events =
  EventInit :: "'d \<times> 'b usb_eps \<Rightarrow> 'd \<times> 'b usb_eps"
  EventCheckRequest :: "usb_setup \<Rightarrow> 'd \<times> 'b usb_eps \<Rightarrow> (('d \<times> 'b usb_eps) \<times> 'd ep0_claim list) option"

abbreviation (input) USB_EP0_BUFF_SIZE :: u8 where "USB_EP0_BUFF_SIZE \<equiv> 64"

text \<open>The status byte of a descriptor that is handed to the hardware: data toggle, toggle check, stall.\<close>

definition ep0_give :: "bool \<Rightarrow> bool \<Rightarrow> bool \<Rightarrow> ep0_buf bdt_entry \<Rightarrow> ep0_buf bdt_entry" where
  "ep0_give dts dtsen bstall e = e\<lparr>bdt_DTS := dts, bdt_DTSEN := dtsen, bdt_BSTALL := bstall, bdt_UOWN := True\<rparr>"

definition ep0_buffer :: "ep0_buf \<Rightarrow> ep0_buf bdt_entry \<Rightarrow> ep0_buf bdt_entry" where
  "ep0_buffer b e = e\<lparr>bdt_CNT := USB_EP0_BUFF_SIZE, bdt_ADR := b\<rparr>"

definition out_upd :: "bool \<Rightarrow> (ep0_buf bdt_entry \<Rightarrow> ep0_buf bdt_entry) \<Rightarrow> ('b, 'd) usb_dev \<Rightarrow> ('b, 'd) usb_dev" where
  "out_upd i f s = s\<lparr>ep0_OUT := (ep0_OUT s)(i := f (ep0_OUT s i))\<rparr>"

definition in_upd :: "bool \<Rightarrow> (ep0_buf bdt_entry \<Rightarrow> ep0_buf bdt_entry) \<Rightarrow> ('b, 'd) usb_dev \<Rightarrow> ('b, 'd) usb_dev" where
  "in_upd i f s = s\<lparr>ep0_IN := (ep0_IN s)(i := f (ep0_IN s i))\<rparr>"

subsection \<open>Data and status stages\<close>

definition USBCtrlEPAllowStatusStage :: "('b, 'd) usb_dev \<Rightarrow> ('b, 'd) usb_dev" where
  "USBCtrlEPAllowStatusStage s =
     (if USBStatusStageEnabledFlag1 s then s
      else
        let s1 = s\<lparr>USBStatusStageEnabledFlag1 := True\<rparr>
        in if USBStatusStageEnabledFlag2 s1 then s1
           else
             let s2 = s1\<lparr>USBStatusStageEnabledFlag2 := True\<rparr>
             in case controlTransferState s2 of
                  CTRL_TRF_RX \<Rightarrow> in_upd (EP0In s2) (\<lambda>e. ep0_give True True False (e\<lparr>bdt_CNT := 0\<rparr>)) s2
                | CTRL_TRF_TX \<Rightarrow>
                    let s3 = out_upd (EP0OutCurrent s2) (\<lambda>e. ep0_give False False True (ep0_buffer Buf_SetupPkt e)) s2;
                        s4 = s3\<lparr>BothEP0OutUOWNsSet := True\<rparr>
                    in out_upd (EP0OutNext s4) (\<lambda>e. ep0_give False False False (ep0_buffer Buf_SetupPkt e)) s4
                | WAIT_SETUP \<Rightarrow> s2)"

text \<open>The next packet of the data stage is copied to \<open>CtrlTrfData\<close>.\<close>

definition USBCtrlTrfTxService :: "('b, 'd) usb_dev \<Rightarrow> ('b, 'd) usb_dev" where
  "USBCtrlTrfTxService s =
     (let p = inPipe s;
          short = ip_wCount p < ucast USB_EP0_BUFF_SIZE;
          byteToSend = (if short then ucast (ip_wCount p) else USB_EP0_BUFF_SIZE) :: u8;
          n = unat byteToSend;
          s1 = (if short then s\<lparr>shortPacketStatus :=
                  (case shortPacketStatus s of SHORT_PKT_NOT_USED \<Rightarrow> SHORT_PKT_PENDING | _ \<Rightarrow> SHORT_PKT_SENT)\<rparr> else s);
          s2 = in_upd (EP0In s1) (\<lambda>e. e\<lparr>bdt_CNT := byteToSend\<rparr>) s1
      in s2\<lparr>inPipe := p\<lparr>ip_wCount := ip_wCount p - ucast byteToSend, ip_pSrc := (\<lambda>i. ip_pSrc p (i + n))\<rparr>,
            CtrlTrfData := map (ip_pSrc p) [0..<n] @ drop n (CtrlTrfData s2)\<rparr>)"

definition USBCtrlEPAllowDataStage :: "('b, 'd) usb_dev \<Rightarrow> ('b, 'd) usb_dev" where
  "USBCtrlEPAllowDataStage s =
     (let s0 = s\<lparr>USBDeferINDataStagePackets := False, USBDeferOUTDataStagePackets := False\<rparr>
      in if controlTransferState s0 = CTRL_TRF_RX
         then out_upd (EP0OutNext s0) (\<lambda>e. ep0_give True True False (ep0_buffer Buf_CtrlTrfData e)) s0
         else
           let wLength = st_wLength (setup_of_bytes (SetupPkt s0));
               s1 = (if wLength < ip_wCount (inPipe s0) then s0\<lparr>inPipe := (inPipe s0)\<lparr>ip_wCount := wLength\<rparr>\<rparr> else s0);
               s2 = USBCtrlTrfTxService s1
           in in_upd (EP0In s2) (\<lambda>e. ep0_give True True False (e\<lparr>bdt_ADR := Buf_CtrlTrfData\<rparr>)) s2)"

definition USBCtrlEPServiceComplete :: "('b, 'd) usb_dev \<Rightarrow> ('b, 'd) usb_dev" where
  "USBCtrlEPServiceComplete s =
     (let s0 = s\<lparr>PKTDIS := False\<rparr>
      in if \<not> ip_busy (inPipe s0) then
           if op_busy (outPipe s0) then
             let s1 = s0\<lparr>controlTransferState := CTRL_TRF_RX\<rparr>;
                 s2 = (if \<not> USBDeferOUTDataStagePackets s1 then USBCtrlEPAllowDataStage s1 else s1)
             in s2\<lparr>USBStatusStageEnabledFlag2 := False, USBStatusStageEnabledFlag1 := False\<rparr>
           else
             let s1 = out_upd (EP0OutNext s0) (\<lambda>e. ep0_give False True True (ep0_buffer Buf_SetupPkt e)) s0
             in in_upd (EP0In s1) (\<lambda>e. ep0_give False False True e) s1
         else if st_DataDir (setup_of_bytes (SetupPkt s0)) then
           let s1 = s0\<lparr>controlTransferState := CTRL_TRF_TX\<rparr>;
               s2 = (if \<not> USBDeferINDataStagePackets s1 then USBCtrlEPAllowDataStage s1 else s1);
               s3 = s2\<lparr>USBStatusStageEnabledFlag2 := False, USBStatusStageEnabledFlag1 := False\<rparr>
           in if \<not> USBDeferStatusStagePacket s3 then USBCtrlEPAllowStatusStage s3 else s3
         else
           let s1 = s0\<lparr>controlTransferState := CTRL_TRF_RX\<rparr>;
               s2 = out_upd (EP0OutNext s1) (\<lambda>e. ep0_give False False True (ep0_buffer Buf_SetupPkt e)) s1;
               s3 = s2\<lparr>USBStatusStageEnabledFlag2 := False, USBStatusStageEnabledFlag1 := False\<rparr>
           in if \<not> USBDeferStatusStagePacket s3 then USBCtrlEPAllowStatusStage s3 else s3)"

definition ep0_callback :: "('b, 'd) usb_dev \<Rightarrow> ('b, 'd) usb_dev" where
  "ep0_callback s = (case op_pFunc (outPipe s) of None \<Rightarrow> s | Some f \<Rightarrow> s\<lparr>dev_drv := f (dev_drv s)\<rparr>)"

definition USBCtrlTrfRxService :: "('b, 'd) usb_dev \<Rightarrow> ('b, 'd) usb_dev" where
  "USBCtrlTrfRxService s =
     (let p = outPipe s;
          cnt = bdt_CNT (ep0_OUT s (EP0OutCurrent s));
          byteToRead = (if ucast cnt > op_wCount p then ucast (op_wCount p) else cnt);
          n = unat byteToRead;
          s1 = s\<lparr>outPipe := p\<lparr>op_wCount := op_wCount p - ucast byteToRead, op_pos := op_pos p + n\<rparr>,
                 dev_drv := fold (\<lambda>i d. op_pDst p (op_pos p + i) (CtrlTrfData s ! i) d) [0..<n] (dev_drv s)\<rparr>
      in if op_wCount (outPipe s1) > 0 then
           out_upd (EP0OutNext s1)
             (\<lambda>e. ep0_give (\<not> bdt_DTS (ep0_OUT s1 (EP0OutCurrent s1))) True False (ep0_buffer Buf_CtrlTrfData e)) s1
         else
           let s2 = out_upd (EP0OutNext s1) (\<lambda>e. ep0_give False False True (ep0_buffer Buf_SetupPkt e)) s1;
               s3 = ep0_callback s2;
               s4 = s3\<lparr>outPipe := (outPipe s3)\<lparr>op_busy := False\<rparr>\<rparr>
           in if \<not> USBDeferStatusStagePacket s4 then USBCtrlEPAllowStatusStage s4 else s4)"

subsection \<open>Standard requests\<close>

definition bytes_at :: "u8 list \<Rightarrow> nat \<Rightarrow> u8" where
  "bytes_at bs i = (if i < length bs then bs ! i else 0)"

definition bdt_zero :: "'a bdt_entry \<Rightarrow> 'a bdt_entry" where
  "bdt_zero e = e\<lparr>bdt_UOWN := False, bdt_DTS := False, bdt_DTSEN := False, bdt_BSTALL := False, bdt_CNT := 0\<rparr>"

text \<open>The table is cleared, all endpoints but 0 are disabled, and the hardware starts with the even buffers.\<close>

definition ep0_clear :: "('b, 'd) usb_dev \<Rightarrow> ('b, 'd) usb_dev" where
  "ep0_clear s = s\<lparr>ep0_OUT := (\<lambda>i. bdt_zero (ep0_OUT s i)), ep0_IN := (\<lambda>i. bdt_zero (ep0_IN s i)),
     dev_eps := (dev_eps s)\<lparr>BDT := (\<lambda>h. bdt_zero (BDT (dev_eps s) h)), U1EP := (\<lambda>e. if e = 0 then U1EP (dev_eps s) 0 else 0)\<rparr>,
     ep_ping_pong := (\<lambda>_. False), ep_terminated := (\<lambda>_. False), sie_OUT := False, sie_IN := False\<rparr>"

definition ep0_claim_busy :: "('b, 'd) usb_dev \<Rightarrow> ('b, 'd) usb_dev" where
  "ep0_claim_busy s = s\<lparr>inPipe := (inPipe s)\<lparr>ip_busy := True\<rparr>\<rparr>"

definition ep0_send :: "(nat \<Rightarrow> u8) \<Rightarrow> u16 \<Rightarrow> ('b, 'd) usb_dev \<Rightarrow> ('b, 'd) usb_dev" where
  "ep0_send src n s = s\<lparr>inPipe := \<lparr>ip_pSrc = src, ip_wCount = n, ip_busy = True\<rparr>\<rparr>"

definition USBStdSetCfgHandler :: "('b, 'd) usb_events \<Rightarrow> ('b, 'd) usb_dev \<Rightarrow> ('b, 'd) usb_dev" where
  "USBStdSetCfgHandler ev s =
     (let s1 = (ep0_clear (ep0_claim_busy s))\<lparr>USBAlternateInterface := replicate 32 0, EP0In := False,
                 EP0OutCurrent := False, EP0OutNext := False,
                 USBActiveConfiguration := ucast (st_wValue (setup_of_bytes (SetupPkt s)))\<rparr>
      in if USBActiveConfiguration s1 = 0 then s1\<lparr>USBDeviceState := ADDRESS_STATE\<rparr>
         else case EventInit ev (dev_drv s1, dev_eps s1) of
                (d, u) \<Rightarrow> s1\<lparr>dev_drv := d, dev_eps := u, USBDeviceState := CONFIGURED_STATE\<rparr>)"

definition device_dsc :: "usb_config \<Rightarrow> u8 list" where
  "device_dsc c = [0x12, 0x01, 0x00, 0x02, 0xEF, 0x02, 0x01, USB_EP0_BUFF_SIZE] @ le_bytes 2 (idVendor c) @ le_bytes 2 (idProduct c) @
     [0x01, 0x00, 0x01, 0x02, 0x03, 0x01]"

definition USBStdGetDscHandler :: "('b, 'd) usb_dev \<Rightarrow> ('b, 'd) usb_dev option" where
  "USBStdGetDscHandler s =
     (let p = setup_of_bytes (SetupPkt s); c = dev_config s
      in if SetupPkt s ! 0 \<noteq> 0x80 then Some s
         else if st_bDescriptorType p = 0x01 then Some (ep0_send (bytes_at (device_dsc c)) 18 s)
         else if st_bDescriptorType p = 0x02 then
           if st_bDscIndex p < 1 then
             (case USB_CD_Ptr c of None \<Rightarrow> None
              | Some r \<Rightarrow> Some (ep0_send (bytes_at r) (le_word [bytes_at r 2, bytes_at r 3]) s))
           else Some (s\<lparr>inPipe := (inPipe s)\<lparr>ip_busy := False\<rparr>\<rparr>)
         else if st_bDescriptorType p = 0x03 then
           if unat (st_bDscIndex p) < length (strings c) then
             let d = strings c ! unat (st_bDscIndex p)
             in Some (ep0_send (bytes_at (usb_string_bytes d)) (ucast (sd_bLength d)) s)
           else Some (s\<lparr>inPipe := (inPipe s)\<lparr>ip_busy := False\<rparr>\<rparr>)
         else Some (s\<lparr>inPipe := (inPipe s)\<lparr>ip_busy := False\<rparr>\<rparr>))"

text \<open>The pointer \<^verbatim>\<open>pBDTEntryOut[EPNum]\<close> or \<^verbatim>\<open>pBDTEntryIn[EPNum]\<close>; the one for OUT endpoint 0 is never set.\<close>

definition ep_handle :: "usb_setup \<Rightarrow> ('b, 'd) usb_dev \<Rightarrow> usb_handle" where
  "ep_handle p s = (if st_EPDir p then pBDTEntryIn (dev_eps s) (st_EPNum p) else pBDTEntryOut (dev_eps s) (st_EPNum p))"

definition ep_halted :: "usb_setup \<Rightarrow> ('b, 'd) usb_dev \<Rightarrow> bool option" where
  "ep_halted p s =
     (if st_EPNum p = 0 \<and> st_EPDir p then
        let e = ep0_IN s (EP0In s) in Some (bdt_UOWN e \<and> bdt_BSTALL e)
      else if st_EPNum p = 0 then None
      else case ep_handle p s of None \<Rightarrow> None
           | Some h \<Rightarrow> let e = BDT (dev_eps s) h in Some (bdt_UOWN e \<and> bdt_BSTALL e))"

definition ep0_status :: "u8 \<Rightarrow> ('b, 'd) usb_dev \<Rightarrow> ('b, 'd) usb_dev" where
  "ep0_status b s =
     (let s1 = s\<lparr>CtrlTrfData := [b, 0] @ drop 2 (CtrlTrfData s)\<rparr>
      in ep0_send (bytes_at (CtrlTrfData s1)) 2 s1)"

definition USBStdGetStatusHandler :: "('b, 'd) usb_dev \<Rightarrow> ('b, 'd) usb_dev option" where
  "USBStdGetStatusHandler s =
     (let p = setup_of_bytes (SetupPkt s)
      in if st_Recipient p = 0x0 then Some (ep0_status (if RemoteWakeup s then 0x02 else 0x00) s)
         else if st_Recipient p = 0x1 then Some (ep0_status 0x00 s)
         else if st_Recipient p = 0x2 then
           (case ep_halted p s of None \<Rightarrow> None | Some h \<Rightarrow> Some (ep0_status (if h then 0x01 else 0x00) s))
         else Some (s\<lparr>CtrlTrfData := [0, 0] @ drop 2 (CtrlTrfData s)\<rparr>))"

text \<open>SET_FEATURE and CLEAR_FEATURE of an endpoint halt: \<open>h\<close> is the active entry of the endpoint.\<close>

definition ep_set_halt :: "bdt_index \<Rightarrow> u8 \<times> usb_dir \<Rightarrow> ('b, 'd) usb_dev \<Rightarrow> ('b, 'd) usb_dev" where
  "ep_set_halt h ed s =
     (let s1 = (if bdt_UOWN (BDT (dev_eps s) h) then s\<lparr>ep_terminated := (ep_terminated s)(ed := True)\<rparr> else s)
      in s1\<lparr>dev_eps := bdt_upd h (\<lambda>e. e\<lparr>bdt_BSTALL := True, bdt_UOWN := True\<rparr>) (dev_eps s1)\<rparr>)"

definition ep_clear_halt :: "bdt_index \<Rightarrow> u8 \<times> usb_dir \<Rightarrow> ('b, 'd) usb_dev \<Rightarrow> ('b, 'd) usb_dev" where
  "ep_clear_halt h ed s =
     (case h of (ep, d, pp) \<Rightarrow>
        let s1 = s\<lparr>dev_eps := bdt_upd (ep, d, \<not> pp) (\<lambda>e. e\<lparr>bdt_UOWN := False, bdt_DTS := True\<rparr>) (dev_eps s)\<rparr>;
            s2 = (if ep_terminated s1 ed \<or> bdt_UOWN (BDT (dev_eps s1) h)
                  then s1\<lparr>ep_terminated := (ep_terminated s1)(ed := False)\<rparr> else s1);
            u = bdt_upd h (\<lambda>e. e\<lparr>bdt_UOWN := False, bdt_DTS := False, bdt_BSTALL := False\<rparr>) (dev_eps s2)
        in s2\<lparr>dev_eps := u\<lparr>U1EP := (U1EP u)(ep := U1EP u ep AND NOT 0x02)\<rparr>\<rparr>)"

definition USBStdFeatureReqHandler :: "('b, 'd) usb_dev \<Rightarrow> ('b, 'd) usb_dev option" where
  "USBStdFeatureReqHandler s =
     (let p = setup_of_bytes (SetupPkt s);
          s1 = (if st_bFeature p = 1 \<and> st_Recipient p = 0x0
                then (ep0_claim_busy s)\<lparr>RemoteWakeup := (st_bRequest p = 3)\<rparr> else s)
      in if st_bFeature p = 0 \<and> st_Recipient p = 0x2 \<and> st_EPNum p \<noteq> 0 \<and> USBDeviceState s1 = CONFIGURED_STATE then
           let s2 = ep0_claim_busy s1;
               d = (if st_EPDir p then IN_TO_HOST else OUT_FROM_HOST);
               ed = (st_EPNum p, d)
           in case ep_handle p s2 of None \<Rightarrow> None
              | Some (ep, d', _) \<Rightarrow>
                  let h = (ep, d', ep_ping_pong s2 ed);
                      s3 = s2\<lparr>dev_eps := (if st_EPDir p then (dev_eps s2)\<lparr>pBDTEntryIn := (pBDTEntryIn (dev_eps s2))(st_EPNum p := Some h)\<rparr>
                             else (dev_eps s2)\<lparr>pBDTEntryOut := (pBDTEntryOut (dev_eps s2))(st_EPNum p := Some h)\<rparr>)\<rparr>
                  in Some (if st_bRequest p = 3 then ep_set_halt h ed s3 else ep_clear_halt h ed s3)
         else Some s1)"

definition USBCheckStdRequest :: "('b, 'd) usb_events \<Rightarrow> ('b, 'd) usb_dev \<Rightarrow> ('b, 'd) usb_dev option" where
  "USBCheckStdRequest ev s =
     (let p = setup_of_bytes (SetupPkt s)
      in if st_RequestType p \<noteq> 0x00 then Some s
         else if st_bRequest p = 5 then Some ((ep0_claim_busy s)\<lparr>USBDeviceState := ADR_PENDING_STATE\<rparr>)
         else if st_bRequest p = 6 then USBStdGetDscHandler s
         else if st_bRequest p = 9 then Some (USBStdSetCfgHandler ev s)
         else if st_bRequest p = 8 then Some (ep0_send (\<lambda>_. USBActiveConfiguration s) 1 s)
         else if st_bRequest p = 0 then USBStdGetStatusHandler s
         else if st_bRequest p = 1 \<or> st_bRequest p = 3 then USBStdFeatureReqHandler s
         else if st_bRequest p = 10 then
           if unat (st_bIntfID p) < 32
           then Some (ep0_send (\<lambda>_. USBAlternateInterface s ! unat (st_bIntfID p)) 1 s) else None
         else if st_bRequest p = 11 then
           if unat (st_bIntfID p) < 32
           then Some ((ep0_claim_busy s)\<lparr>USBAlternateInterface :=
                  (USBAlternateInterface s)[unat (st_bIntfID p) := ucast (st_wValue p)]\<rparr>) else None
         else Some s)"

subsection \<open>Transactions on endpoint 0\<close>

definition ep0_apply :: "'d ep0_claim \<Rightarrow> ('b, 'd) usb_dev \<Rightarrow> ('b, 'd) usb_dev" where
  "ep0_apply c s =
     (case c of
        Claim_empty \<Rightarrow> ep0_claim_busy s
      | Claim_in bs \<Rightarrow> ep0_send (bytes_at bs) (of_nat (length bs)) s
      | Claim_out n put f \<Rightarrow> s\<lparr>outPipe := \<lparr>op_pDst = put, op_pos = 0, op_wCount = n, op_busy = True, op_pFunc = f\<rparr>\<rparr>)"

definition ep0_class_request :: "('b, 'd) usb_events \<Rightarrow> ('b, 'd) usb_dev \<Rightarrow> ('b, 'd) usb_dev option" where
  "ep0_class_request ev s =
     (case EventCheckRequest ev (setup_of_bytes (SetupPkt s)) (dev_drv s, dev_eps s) of
        None \<Rightarrow> None
      | Some ((d, u), cs) \<Rightarrow> Some (fold ep0_apply cs (s\<lparr>dev_drv := d, dev_eps := u\<rparr>)))"

text \<open>The setup handler takes both IN buffers and the next OUT buffer back first.\<close>

definition ep0_abandon :: "('b, 'd) usb_dev \<Rightarrow> ('b, 'd) usb_dev" where
  "ep0_abandon s =
     (let s1 = s\<lparr>shortPacketStatus := SHORT_PKT_NOT_USED, USBDeferStatusStagePacket := False, USBDeferINDataStagePackets := False,
                 USBDeferOUTDataStagePackets := False, BothEP0OutUOWNsSet := False, controlTransferState := WAIT_SETUP\<rparr>;
          s2 = in_upd (EP0In s1) (\<lambda>e. e\<lparr>bdt_UOWN := False\<rparr>) s1;
          s3 = in_upd (\<not> EP0In s2) (\<lambda>e. e\<lparr>bdt_UOWN := False\<rparr>) s2;
          s4 = out_upd (EP0OutNext s3) (\<lambda>e. e\<lparr>bdt_UOWN := False\<rparr>) s3
      in s4\<lparr>inPipe := (inPipe s4)\<lparr>ip_busy := False, ip_wCount := 0\<rparr>, outPipe := (outPipe s4)\<lparr>op_busy := False, op_wCount := 0\<rparr>\<rparr>)"

definition USBCtrlTrfSetupHandler :: "('b, 'd) usb_events \<Rightarrow> ('b, 'd) usb_dev \<Rightarrow> ('b, 'd) usb_dev option" where
  "USBCtrlTrfSetupHandler ev s =
     (case USBCheckStdRequest ev (ep0_abandon s) of None \<Rightarrow> None
      | Some s1 \<Rightarrow> map_option USBCtrlEPServiceComplete (ep0_class_request ev s1))"

definition USBCtrlTrfOutHandler :: "('b, 'd) usb_dev \<Rightarrow> ('b, 'd) usb_dev" where
  "USBCtrlTrfOutHandler s =
     (if controlTransferState s = CTRL_TRF_RX then USBCtrlTrfRxService s
      else
        let s1 = s\<lparr>controlTransferState := WAIT_SETUP\<rparr>
        in if \<not> BothEP0OutUOWNsSet s1
           then out_upd (EP0OutNext s1) (\<lambda>e. ep0_give False True True (ep0_buffer Buf_SetupPkt e)) s1
           else s1\<lparr>BothEP0OutUOWNsSet := False\<rparr>)"

definition USBCtrlTrfInHandler :: "('b, 'd) usb_dev \<Rightarrow> ('b, 'd) usb_dev" where
  "USBCtrlTrfInHandler s =
     (let lastDTS = bdt_DTS (ep0_IN s (EP0In s));
          s1 = s\<lparr>EP0In := \<not> EP0In s\<rparr>;
          s2 = (if USBDeviceState s1 = ADR_PENDING_STATE then
                  let a = ucast (st_wValue (setup_of_bytes (SetupPkt s1))) AND 0x7F
                  in s1\<lparr>U1ADDR := a, USBDeviceState := (if a \<noteq> 0 then ADDRESS_STATE else DEFAULT_STATE)\<rparr>
                else s1)
      in if controlTransferState s2 = CTRL_TRF_TX then
           let s3 = USBCtrlTrfTxService (in_upd (EP0In s2) (\<lambda>e. e\<lparr>bdt_ADR := Buf_CtrlTrfData\<rparr>) s2)
           in if shortPacketStatus s3 = SHORT_PKT_SENT then in_upd (EP0In s3) (ep0_give False False True) s3
              else in_upd (EP0In s3) (ep0_give (\<not> lastDTS) True False) s3
         else
           let s3 = (if op_busy (outPipe s2) then
                       let t = ep0_callback s2 in t\<lparr>outPipe := (outPipe t)\<lparr>op_busy := False\<rparr>\<rparr>
                     else s2)
           in s3\<lparr>controlTransferState := WAIT_SETUP\<rparr>)"

text \<open>The last transaction was in \<open>dir\<close> on the buffer \<open>pp\<close>.\<close>

definition USBCtrlEPService :: "('b, 'd) usb_events \<Rightarrow> usb_dir \<Rightarrow> bool \<Rightarrow> ('b, 'd) usb_dev \<Rightarrow> ('b, 'd) usb_dev option" where
  "USBCtrlEPService ev dir pp s0 =
     (let s = s0\<lparr>USBStatusStageTimeoutCounter := 45\<rparr>
      in if dir = OUT_FROM_HOST then
           let s1 = s\<lparr>EP0OutCurrent := pp, EP0OutNext := \<not> pp\<rparr>
           in if ep0_PID s1 pp = 0xD then
                let bs = (case bdt_ADR (ep0_OUT s1 pp) of Buf_SetupPkt \<Rightarrow> SetupPkt s1 | Buf_CtrlTrfData \<Rightarrow> take 8 (CtrlTrfData s1))
                in USBCtrlTrfSetupHandler ev (s1\<lparr>SetupPkt := bs\<rparr>)
              else Some (USBCtrlTrfOutHandler s1)
         else Some (USBCtrlTrfInHandler s))"

definition USBStallHandler :: "('b, 'd) usb_dev \<Rightarrow> ('b, 'd) usb_dev" where
  "USBStallHandler s =
     (if EPSTALL s then
        let o' = ep0_OUT s (EP0OutCurrent s); i = ep0_IN s (EP0In s);
            s1 = (if (bdt_UOWN o' \<and> \<not> bdt_DTS o' \<and> \<not> bdt_DTSEN o' \<and> \<not> bdt_BSTALL o') \<and>
                     (bdt_UOWN i \<and> \<not> bdt_DTS i \<and> \<not> bdt_DTSEN i \<and> bdt_BSTALL i)
                  then out_upd (EP0OutCurrent s) (ep0_give False True True) s else s)
        in s1\<lparr>EPSTALL := False\<rparr>
      else s)"

subsection \<open>Start, reset and start of frame\<close>

definition USBDeviceInit :: "('b, 'd) usb_dev \<Rightarrow> ('b, 'd) usb_dev" where
  "USBDeviceInit s =
     (let s1 = (ep0_clear s)\<lparr>U1ADDR := 0, PKTDIS := False, inPipe := (inPipe s)\<lparr>ip_busy := False\<rparr>,
                 outPipe := (outPipe s)\<lparr>op_busy := False, op_wCount := 0\<rparr>,
                 USBStatusStageEnabledFlag1 := True, USBStatusStageEnabledFlag2 := True,
                 USBDeferINDataStagePackets := False, USBDeferOUTDataStagePackets := False\<rparr>;
          u = dev_eps s1;
          s2 = s1\<lparr>dev_eps := u\<lparr>pBDTEntryIn := (\<lambda>_. None), pBDTEntryOut := (\<lambda>_. None), U1EP := (U1EP u)(0 := 0x0D)\<rparr>,
                  EP0In := False\<rparr>
      in (out_upd False (\<lambda>e. ep0_give False False True (ep0_buffer Buf_SetupPkt e)) s2)
           \<lparr>USBActiveConfiguration := 0, USBDeviceState := DETACHED_STATE\<rparr>)"

text \<open>The bus reset and the start-of-frame branch of \<^verbatim>\<open>USBDeviceTasks\<close>.\<close>

definition usb_bus_reset :: "('b, 'd) usb_dev \<Rightarrow> ('b, 'd) usb_dev" where
  "usb_bus_reset s = (USBDeviceInit s)\<lparr>USBDeviceState := DEFAULT_STATE\<rparr>"

definition usb_start_of_frame :: "('b, 'd) usb_dev \<Rightarrow> ('b, 'd) usb_dev" where
  "usb_start_of_frame s =
     (let s1 = (if USBStatusStageTimeoutCounter s \<noteq> 0
                then s\<lparr>USBStatusStageTimeoutCounter := USBStatusStageTimeoutCounter s - 1\<rparr> else s)
      in if USBStatusStageTimeoutCounter s1 = 0 then USBCtrlEPAllowStatusStage s1 else s1)"

subsection \<open>The bus\<close>

text \<open>
  The serial interface engine and the host: a token of the host on endpoint 0 is answered by the
  hardware from the descriptor the hardware is at, and after a transaction the interrupt is served.
  A setup token is accepted by any buffer the hardware owns, whatever its stall and toggle bits. A data packet
  with the wrong toggle is acknowledged and dropped. \<open>None\<close>: the stack or the hardware has accessed memory outside its objects.
\<close>

datatype host_result = Host_ACK | Host_NAK | Host_STALL | Host_DATA bool "u8 list"

definition host_SETUP :: "('b, 'd) usb_events \<Rightarrow> u8 list \<Rightarrow> ('b, 'd) usb_dev \<Rightarrow> (('b, 'd) usb_dev \<times> host_result) option" where
  "host_SETUP ev bs s =
     (let pp = sie_OUT s; e = ep0_OUT s pp
      in if PKTDIS s \<or> \<not> bdt_UOWN e then Some (s, Host_NAK)
         else
           let s1 = (case bdt_ADR e of Buf_SetupPkt \<Rightarrow> s\<lparr>SetupPkt := bs\<rparr>
                     | Buf_CtrlTrfData \<Rightarrow> s\<lparr>CtrlTrfData := bs @ drop 8 (CtrlTrfData s)\<rparr>);
               s2 = (out_upd pp (\<lambda>e. e\<lparr>bdt_UOWN := False, bdt_CNT := 8, bdt_DTS := False\<rparr>) s1)
                      \<lparr>ep0_PID := (ep0_PID s1)(pp := 0xD), PKTDIS := True, sie_OUT := \<not> pp\<rparr>
           in map_option (\<lambda>t. (t, Host_ACK)) (USBCtrlEPService ev OUT_FROM_HOST pp s2))"

definition host_OUT :: "('b, 'd) usb_events \<Rightarrow> bool \<Rightarrow> u8 list \<Rightarrow> ('b, 'd) usb_dev \<Rightarrow> (('b, 'd) usb_dev \<times> host_result) option" where
  "host_OUT ev tgl bs s =
     (let pp = sie_OUT s; e = ep0_OUT s pp
      in if PKTDIS s \<or> \<not> bdt_UOWN e then Some (s, Host_NAK)
         else if bdt_BSTALL e then Some (USBStallHandler (s\<lparr>EPSTALL := True\<rparr>), Host_STALL)
         else if bdt_DTSEN e \<and> bdt_DTS e \<noteq> tgl then Some (s, Host_ACK)
         else if length bs > (case bdt_ADR e of Buf_SetupPkt \<Rightarrow> 8 | Buf_CtrlTrfData \<Rightarrow> 64) then None
         else
           let s1 = (case bdt_ADR e of Buf_SetupPkt \<Rightarrow> s\<lparr>SetupPkt := bs @ drop (length bs) (SetupPkt s)\<rparr>
                     | Buf_CtrlTrfData \<Rightarrow> s\<lparr>CtrlTrfData := bs @ drop (length bs) (CtrlTrfData s)\<rparr>);
               s2 = (out_upd pp (\<lambda>e. e\<lparr>bdt_UOWN := False, bdt_CNT := of_nat (length bs), bdt_DTS := tgl\<rparr>) s1)
                      \<lparr>ep0_PID := (ep0_PID s1)(pp := 0x1), sie_OUT := \<not> pp\<rparr>
           in map_option (\<lambda>t. (t, Host_ACK)) (USBCtrlEPService ev OUT_FROM_HOST pp s2))"

definition host_IN :: "('b, 'd) usb_events \<Rightarrow> ('b, 'd) usb_dev \<Rightarrow> (('b, 'd) usb_dev \<times> host_result) option" where
  "host_IN ev s =
     (let pp = sie_IN s; e = ep0_IN s pp
      in if PKTDIS s \<or> \<not> bdt_UOWN e then Some (s, Host_NAK)
         else if bdt_BSTALL e then Some (USBStallHandler (s\<lparr>EPSTALL := True\<rparr>), Host_STALL)
         else
           let bs = take (unat (bdt_CNT e)) (case bdt_ADR e of Buf_SetupPkt \<Rightarrow> SetupPkt s | Buf_CtrlTrfData \<Rightarrow> CtrlTrfData s);
               s1 = (in_upd pp (\<lambda>e. e\<lparr>bdt_UOWN := False\<rparr>) s)\<lparr>sie_IN := \<not> pp\<rparr>
           in map_option (\<lambda>t. (t, Host_DATA (bdt_DTS e) bs)) (USBCtrlEPService ev IN_TO_HOST pp s1))"

end
