(* ===== verification/USB_EP0_Inv.thy ===== *)
theory USB_EP0_Inv
  imports USB_EP0
begin

section \<open>The invariant of endpoint 0\<close>

text \<open>
  The invariant says that the stack and the hardware agree on the next buffers and that the next OUT
  buffer is armed, so that a setup packet is always accepted. Every transaction of the host, a
  start of frame and a bus reset keep it, a \<open>SET_CONFIGURATION\<close> in the wrong direction apart. \<open>ep0_step\<close> is what can happen to the
  device, every setup packet and every access outside an object included.
\<close>

subsection \<open>The invariant\<close>

definition ep0_sized :: "('b, 'd) usb_dev \<Rightarrow> bool" where
  "ep0_sized s \<longleftrightarrow> length (SetupPkt s) = 8 \<and> length (CtrlTrfData s) = 64 \<and> length (USBAlternateInterface s) = 32 \<and>
     \<not> USBDeferStatusStagePacket s \<and> \<not> USBDeferINDataStagePackets s \<and> \<not> USBDeferOUTDataStagePackets s \<and>
     EP0In s = sie_IN s"

definition ep0_next :: "('b, 'd) usb_dev \<Rightarrow> bool" where
  "ep0_next s \<longleftrightarrow> EP0OutNext s = sie_OUT s \<and> EP0OutCurrent s = (\<not> sie_OUT s)"

definition ep0_inv :: "('b, 'd) usb_dev \<Rightarrow> bool" where
  "ep0_inv s \<longleftrightarrow> ep0_sized s \<and> \<not> PKTDIS s \<and> bdt_UOWN (ep0_OUT s (sie_OUT s)) \<and>
     (\<not> USBStatusStageEnabledFlag1 s \<longrightarrow> ep0_next s) \<and> (\<not> USBStatusStageEnabledFlag1 s \<longrightarrow> controlTransferState s \<noteq> CTRL_TRF_TX) \<and>
     (BothEP0OutUOWNsSet s \<and> \<not> bdt_BSTALL (ep0_OUT s (sie_OUT s)) \<longrightarrow> bdt_UOWN (ep0_OUT s (\<not> sie_OUT s))) \<and>
     (BothEP0OutUOWNsSet s \<longrightarrow> controlTransferState s \<noteq> CTRL_TRF_RX)"

named_theorems ep0_simps "updates of the endpoint 0 state"

lemmas ep0_upd_defs = out_upd_def in_upd_def ep0_give_def ep0_buffer_def ep0_claim_busy_def ep0_send_def

lemma sized_upd [ep0_simps]:
  "ep0_sized (out_upd i f s) = ep0_sized s" "ep0_sized (in_upd i f s) = ep0_sized s"
  "ep0_sized (ep0_send src n s) = ep0_sized s" "ep0_sized (ep0_claim_busy s) = ep0_sized s"
  "ep0_next (out_upd i f s) = ep0_next s" "ep0_next (in_upd i f s) = ep0_next s"
  "ep0_next (ep0_send src n s) = ep0_next s" "ep0_next (ep0_claim_busy s) = ep0_next s"
  by (simp_all add: ep0_sized_def ep0_next_def ep0_upd_defs)

lemma give_owned [simp]: "bdt_UOWN (ep0_give a b c e)"
  by (simp add: ep0_give_def)

text \<open>Arming the status stage on the IN side touches no OUT buffer.\<close>

lemma allow_status_rx:
  assumes "controlTransferState s \<noteq> CTRL_TRF_TX"
  shows "ep0_OUT (USBCtrlEPAllowStatusStage s) = ep0_OUT s" "sie_OUT (USBCtrlEPAllowStatusStage s) = sie_OUT s"
    "ep0_sized (USBCtrlEPAllowStatusStage s) = ep0_sized s" "PKTDIS (USBCtrlEPAllowStatusStage s) = PKTDIS s"
    "USBStatusStageEnabledFlag1 (USBCtrlEPAllowStatusStage s)" "BothEP0OutUOWNsSet (USBCtrlEPAllowStatusStage s) = BothEP0OutUOWNsSet s"
    "controlTransferState (USBCtrlEPAllowStatusStage s) = controlTransferState s"
    "dev_drv (USBCtrlEPAllowStatusStage s) = dev_drv s"
  using assms
  by (auto simp: USBCtrlEPAllowStatusStage_def Let_def in_upd_def ep0_sized_def split: ctrl_state.split)

lemma inv_allow_status:
  assumes "ep0_inv s"
  shows "ep0_inv (USBCtrlEPAllowStatusStage s)"
proof (cases "USBStatusStageEnabledFlag1 s")
  case True
  then show ?thesis using assms by (simp add: USBCtrlEPAllowStatusStage_def)
next
  case False
  then have "controlTransferState s \<noteq> CTRL_TRF_TX" using assms by (simp add: ep0_inv_def)
  from allow_status_rx[OF this] show ?thesis using assms by (simp add: ep0_inv_def)
qed

lemma inv_frame:
  "ep0_inv (s\<lparr>USBStatusStageTimeoutCounter := x\<rparr>) = ep0_inv s"
  "ep0_inv (s\<lparr>dev_drv := d\<rparr>) = ep0_inv s"
  "ep0_inv (s\<lparr>outPipe := p\<rparr>) = ep0_inv s"
  "ep0_inv (s\<lparr>EPSTALL := b\<rparr>) = ep0_inv s"
  by (simp_all add: ep0_inv_def ep0_sized_def ep0_next_def)

lemma inv_start_of_frame: "ep0_inv s \<Longrightarrow> ep0_inv (usb_start_of_frame s)"
  by (simp add: usb_start_of_frame_def Let_def inv_allow_status inv_frame)

lemma inv_bus_reset:
  assumes "length (SetupPkt s) = 8" and "length (CtrlTrfData s) = 64" and "length (USBAlternateInterface s) = 32"
    and "\<not> USBDeferStatusStagePacket s" and "BothEP0OutUOWNsSet s \<longrightarrow> controlTransferState s \<noteq> CTRL_TRF_RX"
  shows "ep0_inv (usb_bus_reset s)"
  using assms
  by (simp add: usb_bus_reset_def USBDeviceInit_def ep0_clear_def Let_def ep0_inv_def ep0_sized_def ep0_upd_defs)

lemma inv_stall_handler: "ep0_inv s \<Longrightarrow> ep0_inv (USBStallHandler s)"
  by (auto simp: USBStallHandler_def Let_def inv_frame) (auto simp: ep0_inv_def ep0_simps out_upd_def ep0_sized_def ep0_next_def)

subsection \<open>Transactions keep the invariant\<close>

text \<open>What the request handlers leave alone, \<open>SET_CONFIGURATION\<close> apart.\<close>

definition ep0_same :: "('b, 'd) usb_dev \<Rightarrow> ('b, 'd) usb_dev \<Rightarrow> bool" where
  "ep0_same s t \<longleftrightarrow> ep0_OUT t = ep0_OUT s \<and> ep0_IN t = ep0_IN s \<and> sie_OUT t = sie_OUT s \<and> sie_IN t = sie_IN s \<and>
     EP0In t = EP0In s \<and> EP0OutNext t = EP0OutNext s \<and> EP0OutCurrent t = EP0OutCurrent s \<and> PKTDIS t = PKTDIS s \<and>
     BothEP0OutUOWNsSet t = BothEP0OutUOWNsSet s \<and> controlTransferState t = controlTransferState s \<and>
     shortPacketStatus t = shortPacketStatus s \<and>
     USBStatusStageEnabledFlag1 t = USBStatusStageEnabledFlag1 s \<and> USBStatusStageEnabledFlag2 t = USBStatusStageEnabledFlag2 s \<and>
     SetupPkt t = SetupPkt s \<and> length (CtrlTrfData t) = length (CtrlTrfData s) \<and>
     length (USBAlternateInterface t) = length (USBAlternateInterface s) \<and>
     USBDeferStatusStagePacket t = USBDeferStatusStagePacket s \<and>
     USBDeferINDataStagePackets t = USBDeferINDataStagePackets s \<and>
     USBDeferOUTDataStagePackets t = USBDeferOUTDataStagePackets s"

lemma ep0_same_refl [simp]: "ep0_same s s" by (simp add: ep0_same_def)

lemma ep0_same_trans: "ep0_same s t \<Longrightarrow> ep0_same t u \<Longrightarrow> ep0_same s u" by (simp add: ep0_same_def)

lemma same_claim: "ep0_same s (ep0_claim_busy s)" "ep0_same s (ep0_send src n s)" "ep0_same s (ep0_apply c s)"
  by (simp_all add: ep0_same_def ep0_claim_busy_def ep0_send_def ep0_apply_def split: ep0_claim.split)

lemma same_fold: "ep0_same s (fold ep0_apply cs s)"
  by (induction cs arbitrary: s) (auto intro: ep0_same_trans same_claim)

lemma same_class: "ep0_class_request ev s = Some t \<Longrightarrow> ep0_same s t"
proof -
  have e: "ep0_same s (s\<lparr>dev_drv := d, dev_eps := u\<rparr>)" for d u by (simp add: ep0_same_def)
  then have "ep0_same s (fold ep0_apply cs (s\<lparr>dev_drv := d, dev_eps := u\<rparr>))" for cs d u
    by (rule ep0_same_trans[OF _ same_fold])
  then show "ep0_class_request ev s = Some t \<Longrightarrow> ep0_same s t" by (auto simp: ep0_class_request_def split: option.splits prod.splits)
qed

lemma same_get_descriptor: "USBStdGetDscHandler s = Some t \<Longrightarrow> ep0_same s t"
  by (auto simp: USBStdGetDscHandler_def Let_def ep0_same_def ep0_send_def split: if_splits option.splits)

lemma same_get_status: "USBStdGetStatusHandler s = Some t \<Longrightarrow> length (CtrlTrfData s) = 64 \<Longrightarrow> ep0_same s t"
  by (auto simp: USBStdGetStatusHandler_def Let_def ep0_same_def ep0_status_def ep0_send_def split: if_splits option.splits)

lemma same_halt: "ep0_same s (ep_set_halt h ed s)" "ep0_same s (ep_clear_halt h ed s)"
  by (cases h; simp add: ep_set_halt_def ep_clear_halt_def ep0_same_def Let_def)+

lemma same_feature: "USBStdFeatureReqHandler s = Some t \<Longrightarrow> ep0_same s t"
  by (auto simp: USBStdFeatureReqHandler_def Let_def ep0_same_def ep0_claim_busy_def ep_set_halt_def ep_clear_halt_def
      split: if_splits option.splits)

lemma same_std:
  assumes "USBCheckStdRequest ev s = Some t" and "length (CtrlTrfData s) = 64"
    and "\<not> (st_RequestType (setup_of_bytes (SetupPkt s)) = 0 \<and> st_bRequest (setup_of_bytes (SetupPkt s)) = 9)"
  shows "ep0_same s t"
proof -
  have "ep0_same s ((ep0_claim_busy s)\<lparr>USBDeviceState := x\<rparr>)" for x by (simp add: ep0_same_def ep0_claim_busy_def)
  moreover have "ep0_same s ((ep0_claim_busy s)\<lparr>USBAlternateInterface := (USBAlternateInterface s)[i := b]\<rparr>)" for i b
    by (simp add: ep0_same_def ep0_claim_busy_def)
  ultimately show ?thesis using assms
    by (auto simp: USBCheckStdRequest_def Let_def intro: same_claim same_get_descriptor same_get_status same_feature
        split: if_splits)
qed

text \<open>After the handlers: which descriptor is next, and that only a claimed request without data stage may have reset it.\<close>

definition ep0_serviced :: "('b, 'd) usb_dev \<Rightarrow> bool" where
  "ep0_serviced s \<longleftrightarrow> ep0_sized s \<and> EP0OutNext s = sie_OUT s \<and> \<not> BothEP0OutUOWNsSet s \<and> controlTransferState s = WAIT_SETUP \<and>
     (ep0_next s \<or> ip_busy (inPipe s) \<and> \<not> st_DataDir (setup_of_bytes (SetupPkt s)))"

lemma tx_service_frame:
  "ep0_OUT (USBCtrlTrfTxService s) = ep0_OUT s" "sie_OUT (USBCtrlTrfTxService s) = sie_OUT s" "sie_IN (USBCtrlTrfTxService s) = sie_IN s"
  "EP0OutNext (USBCtrlTrfTxService s) = EP0OutNext s" "EP0OutCurrent (USBCtrlTrfTxService s) = EP0OutCurrent s"
  "PKTDIS (USBCtrlTrfTxService s) = PKTDIS s" "EP0In (USBCtrlTrfTxService s) = EP0In s"
  "BothEP0OutUOWNsSet (USBCtrlTrfTxService s) = BothEP0OutUOWNsSet s"
  "controlTransferState (USBCtrlTrfTxService s) = controlTransferState s" "SetupPkt (USBCtrlTrfTxService s) = SetupPkt s"
  "USBStatusStageEnabledFlag1 (USBCtrlTrfTxService s) = USBStatusStageEnabledFlag1 s"
  "USBStatusStageEnabledFlag2 (USBCtrlTrfTxService s) = USBStatusStageEnabledFlag2 s"
  "dev_drv (USBCtrlTrfTxService s) = dev_drv s" "dev_eps (USBCtrlTrfTxService s) = dev_eps s" "USBDeviceState (USBCtrlTrfTxService s) = USBDeviceState s"
  "USBAlternateInterface (USBCtrlTrfTxService s) = USBAlternateInterface s"
  "USBDeferStatusStagePacket (USBCtrlTrfTxService s) = USBDeferStatusStagePacket s"
  "USBDeferINDataStagePackets (USBCtrlTrfTxService s) = USBDeferINDataStagePackets s"
  "USBDeferOUTDataStagePackets (USBCtrlTrfTxService s) = USBDeferOUTDataStagePackets s"
  "dev_config (USBCtrlTrfTxService s) = dev_config s" "U1ADDR (USBCtrlTrfTxService s) = U1ADDR s"
  by (simp_all add: USBCtrlTrfTxService_def Let_def in_upd_def)

lemma tx_service_length: "length (CtrlTrfData s) = 64 \<Longrightarrow> length (CtrlTrfData (USBCtrlTrfTxService s)) = 64"
proof -
  assume l: "length (CtrlTrfData s) = 64"
  have "unat (ucast (ip_wCount (inPipe s)) :: u8) \<le> 64" if "ip_wCount (inPipe s) < 64"
    using that unfolding word_less_nat_alt unsigned_ucast_eq
    by (auto intro: order_trans[OF take_bit_nat_less_eq_self])
  then show ?thesis using l by (auto simp: USBCtrlTrfTxService_def Let_def in_upd_def)
qed

lemma tx_service_sized: "length (CtrlTrfData s) = 64 \<Longrightarrow> ep0_sized (USBCtrlTrfTxService s) = ep0_sized s"
  by (simp add: ep0_sized_def tx_service_frame tx_service_length)

lemma data_stage_frame:
  fixes s :: "('b, 'd) usb_dev"
  defines "t \<equiv> USBCtrlEPAllowDataStage s"
  assumes "ep0_sized s"
  shows "ep0_sized t" "sie_OUT t = sie_OUT s" "EP0OutNext t = EP0OutNext s" "EP0OutCurrent t = EP0OutCurrent s" "PKTDIS t = PKTDIS s"
    "BothEP0OutUOWNsSet t = BothEP0OutUOWNsSet s" "controlTransferState t = controlTransferState s"
    "controlTransferState s = CTRL_TRF_RX \<Longrightarrow> bdt_UOWN (ep0_OUT t (EP0OutNext s))"
  unfolding t_def USBCtrlEPAllowDataStage_def Let_def using assms(2)
  by (simp_all add: tx_service_frame tx_service_length ep0_sized_def in_upd_def out_upd_def)

lemma complete_ok:
  assumes "ep0_serviced s"
  shows "ep0_inv (USBCtrlEPServiceComplete s)"
proof -
  have z: "ep0_sized s" "EP0OutNext s = sie_OUT s" "\<not> BothEP0OutUOWNsSet s" "controlTransferState s = WAIT_SETUP"
    using assms by (simp_all add: ep0_serviced_def)
  let ?rx = "s\<lparr>PKTDIS := False, controlTransferState := CTRL_TRF_RX\<rparr>"
  let ?tx = "s\<lparr>PKTDIS := False, controlTransferState := CTRL_TRF_TX\<rparr>"
  have zr: "ep0_sized ?rx" "ep0_sized ?tx" using z(1) by (simp_all add: ep0_sized_def)
  note R = data_stage_frame[OF zr(1)] and T = data_stage_frame[OF zr(2)]
  show ?thesis
  proof (cases "ip_busy (inPipe s)")
    case False
    then have n: "ep0_next s" using assms by (simp add: ep0_serviced_def)
    show ?thesis
    proof (cases "op_busy (outPipe s)")
      case True
      have d: "\<not> USBDeferOUTDataStagePackets s" using z(1) by (simp add: ep0_sized_def)
      have "USBCtrlEPServiceComplete s = (USBCtrlEPAllowDataStage ?rx)\<lparr>USBStatusStageEnabledFlag2 := False, USBStatusStageEnabledFlag1 := False\<rparr>"
        using True False d by (simp add: USBCtrlEPServiceComplete_def Let_def)
      then show ?thesis using R z n by (simp add: ep0_inv_def ep0_sized_def ep0_next_def)
    next
      case nob: False
      show ?thesis using False nob z n
        by (simp add: USBCtrlEPServiceComplete_def Let_def ep0_inv_def ep0_sized_def ep0_next_def ep0_upd_defs)
    qed
  next
    case True
    show ?thesis
    proof (cases "st_DataDir (setup_of_bytes (SetupPkt s))")
      case D: True
      have d: "\<not> USBDeferINDataStagePackets s" "\<not> USBDeferStatusStagePacket (USBCtrlEPAllowDataStage ?tx)"
        using z(1) T(1) by (simp_all add: ep0_sized_def)
      have n: "ep0_next s" using assms D by (simp add: ep0_serviced_def)
      have "USBCtrlEPServiceComplete s = USBCtrlEPAllowStatusStage
          ((USBCtrlEPAllowDataStage ?tx)\<lparr>USBStatusStageEnabledFlag2 := False, USBStatusStageEnabledFlag1 := False\<rparr>)"
        using True D d by (simp add: USBCtrlEPServiceComplete_def Let_def)
      then show ?thesis using T z n
        by (simp add: ep0_inv_def ep0_sized_def ep0_next_def USBCtrlEPAllowStatusStage_def Let_def ep0_upd_defs)
    next
      case D: False
      have d: "\<not> USBDeferStatusStagePacket s" using z(1) by (simp add: ep0_sized_def)
      show ?thesis using True D d z
        by (simp add: USBCtrlEPServiceComplete_def Let_def ep0_inv_def ep0_sized_def USBCtrlEPAllowStatusStage_def ep0_upd_defs)
    qed
  qed
qed

text \<open>The state in which the setup handler runs.\<close>

definition ep0_setup_state :: "u8 list \<Rightarrow> ('b, 'd) usb_dev \<Rightarrow> ('b, 'd) usb_dev" where
  "ep0_setup_state bs s =
     (let pp = sie_OUT s;
          s1 = (if bdt_ADR (ep0_OUT s pp) = Buf_SetupPkt then s else s\<lparr>CtrlTrfData := bs @ drop 8 (CtrlTrfData s)\<rparr>)
      in (out_upd pp (\<lambda>e. e\<lparr>bdt_UOWN := False, bdt_CNT := 8, bdt_DTS := False\<rparr>) s1)
           \<lparr>ep0_PID := (ep0_PID s)(pp := 0xD), PKTDIS := True, sie_OUT := \<not> pp,
            USBStatusStageTimeoutCounter := 45, EP0OutCurrent := pp, EP0OutNext := \<not> pp, SetupPkt := bs\<rparr>)"

lemma setup_accepted:
  assumes "\<not> PKTDIS s" and "bdt_UOWN (ep0_OUT s (sie_OUT s))" and "length bs = 8"
  shows "host_SETUP ev bs s = map_option (\<lambda>t. (t, Host_ACK)) (USBCtrlTrfSetupHandler ev (ep0_setup_state bs s))"
  using assms
  by (cases "bdt_ADR (ep0_OUT s (sie_OUT s))")
    (simp_all add: host_SETUP_def USBCtrlEPService_def ep0_setup_state_def Let_def out_upd_def)

lemma setup_token:
  assumes "ep0_inv s" and "length bs = 8"
  shows "host_SETUP ev bs s = map_option (\<lambda>t. (t, Host_ACK)) (USBCtrlTrfSetupHandler ev (ep0_setup_state bs s))"
  using assms by (intro setup_accepted) (simp_all add: ep0_inv_def)

lemma setup_state_ok:
  assumes "ep0_inv s" and "length bs = 8"
  shows "ep0_sized (ep0_setup_state bs s)" "ep0_next (ep0_setup_state bs s)" "SetupPkt (ep0_setup_state bs s) = bs"
  using assms by (simp_all add: ep0_setup_state_def Let_def out_upd_def ep0_inv_def ep0_sized_def ep0_next_def)

definition ep0_fresh :: "('b, 'd) usb_dev \<Rightarrow> bool" where
  "ep0_fresh s \<longleftrightarrow> ep0_sized s \<and> ep0_next s \<and> \<not> BothEP0OutUOWNsSet s \<and> controlTransferState s = WAIT_SETUP \<and>
     shortPacketStatus s = SHORT_PKT_NOT_USED"

lemma abandon_fresh: "ep0_sized s \<Longrightarrow> ep0_next s \<Longrightarrow> ep0_fresh (ep0_abandon s)"
  by (simp add: ep0_abandon_def Let_def in_upd_def out_upd_def ep0_fresh_def ep0_sized_def ep0_next_def)

lemma abandon_frame [simp]:
  "SetupPkt (ep0_abandon s) = SetupPkt s" "dev_config (ep0_abandon s) = dev_config s" "dev_drv (ep0_abandon s) = dev_drv s"
  "dev_eps (ep0_abandon s) = dev_eps s" "sie_OUT (ep0_abandon s) = sie_OUT s" "USBDeviceState (ep0_abandon s) = USBDeviceState s"
  "\<not> ip_busy (inPipe (ep0_abandon s))" "\<not> op_busy (outPipe (ep0_abandon s))" "ip_wCount (inPipe (ep0_abandon s)) = 0"
  "U1ADDR (ep0_abandon s) = U1ADDR s" "USBAlternateInterface (ep0_abandon s) = USBAlternateInterface s"
  "CtrlTrfData (ep0_abandon s) = CtrlTrfData s"
  by (simp_all add: ep0_abandon_def Let_def in_upd_def out_upd_def)

lemma same_fresh: "ep0_same s t \<Longrightarrow> ep0_fresh s \<Longrightarrow> ep0_fresh t"
  by (simp add: ep0_same_def ep0_fresh_def ep0_sized_def ep0_next_def)

lemma fresh_serviced: "ep0_fresh s \<Longrightarrow> ep0_serviced s"
  by (simp add: ep0_fresh_def ep0_serviced_def ep0_next_def)

lemma same_serviced:
  "ep0_same s t \<Longrightarrow> ep0_serviced s \<Longrightarrow> ip_busy (inPipe s) \<longrightarrow> ip_busy (inPipe t) \<Longrightarrow> ep0_serviced t"
  by (auto simp: ep0_same_def ep0_serviced_def ep0_sized_def ep0_next_def)

lemma claims_busy: "ip_busy (inPipe s) \<Longrightarrow> ip_busy (inPipe (fold ep0_apply cs s))"
proof (induction cs arbitrary: s)
  case (Cons c cs)
  then show ?case by (cases c) (simp_all add: ep0_apply_def ep0_claim_busy_def ep0_send_def)
qed simp

lemma class_busy: "ep0_class_request ev s = Some t \<Longrightarrow> ip_busy (inPipe s) \<Longrightarrow> ip_busy (inPipe t)"
  by (auto simp: ep0_class_request_def claims_busy split: option.splits prod.splits)

lemma set_config_serviced:
  assumes "ep0_fresh s" and "\<not> st_DataDir (setup_of_bytes (SetupPkt s))"
  shows "ep0_serviced (USBStdSetCfgHandler ev s)"
  using assms
  by (simp add: USBStdSetCfgHandler_def ep0_clear_def ep0_claim_busy_def Let_def ep0_fresh_def ep0_serviced_def ep0_sized_def split: prod.split)

text \<open>\<open>SET_CONFIGURATION\<close> with the direction bit set (which no host sends) is left out; see below.\<close>

definition ep0_ill_formed :: "u8 list \<Rightarrow> bool" where
  "ep0_ill_formed bs \<longleftrightarrow> (let p = setup_of_bytes bs in st_RequestType p = 0 \<and> st_bRequest p = 9 \<and> st_DataDir p)"

lemma std_serviced:
  assumes "ep0_fresh s" and "\<not> ep0_ill_formed (SetupPkt s)" and "USBCheckStdRequest ev s = Some t"
  shows "ep0_serviced t"
proof (cases "st_RequestType (setup_of_bytes (SetupPkt s)) = 0 \<and> st_bRequest (setup_of_bytes (SetupPkt s)) = 9")
  case True
  then have "t = USBStdSetCfgHandler ev s" using assms(3) by (simp add: USBCheckStdRequest_def)
  then show ?thesis using set_config_serviced[OF assms(1)] True assms(2) by (simp add: ep0_ill_formed_def Let_def)
next
  case False
  have "length (CtrlTrfData s) = 64" using assms(1) by (simp add: ep0_fresh_def ep0_sized_def)
  from same_std[OF assms(3) this False] show ?thesis using assms(1) same_fresh fresh_serviced by blast
qed

lemma setup_ok:
  assumes "ep0_inv s" and "length bs = 8" and "\<not> ep0_ill_formed bs" and "host_SETUP ev bs s = Some (t, r)"
  shows "r = Host_ACK \<and> ep0_inv t"
proof -
  let ?u = "ep0_abandon (ep0_setup_state bs s)"
  note S = setup_state_ok[OF assms(1,2)]
  have f: "ep0_fresh ?u" using abandon_fresh[OF S(1,2)] .
  obtain v w where v: "USBCheckStdRequest ev ?u = Some v" and w: "ep0_class_request ev v = Some w"
    and t: "t = USBCtrlEPServiceComplete w" "r = Host_ACK"
    using assms(4) unfolding setup_token[OF assms(1,2)] USBCtrlTrfSetupHandler_def by (auto split: option.splits)
  have "ep0_serviced v" using std_serviced[OF f _ v] S(3) assms(3) by simp
  then have "ep0_serviced w" using same_serviced[OF same_class[OF w]] class_busy[OF w] by blast
  then show ?thesis using complete_ok t by blast
qed

text \<open>The state in which the OUT handler runs, and the one in which the IN handler runs.\<close>

definition ep0_out_state :: "bool \<Rightarrow> u8 list \<Rightarrow> ('b, 'd) usb_dev \<Rightarrow> ('b, 'd) usb_dev" where
  "ep0_out_state tgl bs s =
     (let pp = sie_OUT s;
          s1 = (case bdt_ADR (ep0_OUT s pp) of Buf_SetupPkt \<Rightarrow> s\<lparr>SetupPkt := bs @ drop (length bs) (SetupPkt s)\<rparr>
                | Buf_CtrlTrfData \<Rightarrow> s\<lparr>CtrlTrfData := bs @ drop (length bs) (CtrlTrfData s)\<rparr>)
      in (out_upd pp (\<lambda>e. e\<lparr>bdt_UOWN := False, bdt_CNT := of_nat (length bs), bdt_DTS := tgl\<rparr>) s1)
           \<lparr>ep0_PID := (ep0_PID s)(pp := 0x1), sie_OUT := \<not> pp, USBStatusStageTimeoutCounter := 45,
            EP0OutCurrent := pp, EP0OutNext := \<not> pp\<rparr>)"

definition ep0_in_state :: "('b, 'd) usb_dev \<Rightarrow> ('b, 'd) usb_dev" where
  "ep0_in_state s = (in_upd (sie_IN s) (\<lambda>e. e\<lparr>bdt_UOWN := False\<rparr>) s)\<lparr>sie_IN := \<not> sie_IN s, USBStatusStageTimeoutCounter := 45\<rparr>"

lemma out_token_cases:
  assumes "ep0_inv s" and "host_OUT ev tgl bs s = Some (t, r)"
  obtains "t = s" "r = Host_ACK" | "t = USBStallHandler (s\<lparr>EPSTALL := True\<rparr>)" "r = Host_STALL"
  | "t = USBCtrlTrfOutHandler (ep0_out_state tgl bs s)" "r = Host_ACK" "\<not> bdt_BSTALL (ep0_OUT s (sie_OUT s))"
    "length bs \<le> (case bdt_ADR (ep0_OUT s (sie_OUT s)) of Buf_SetupPkt \<Rightarrow> 8 | Buf_CtrlTrfData \<Rightarrow> 64)"
  using assms
  by (cases "bdt_ADR (ep0_OUT s (sie_OUT s))")
    (auto simp: host_OUT_def USBCtrlEPService_def ep0_out_state_def ep0_inv_def Let_def out_upd_def split: if_splits)

lemma out_state_ok:
  assumes "ep0_inv s" and "length bs \<le> (case bdt_ADR (ep0_OUT s (sie_OUT s)) of Buf_SetupPkt \<Rightarrow> 8 | Buf_CtrlTrfData \<Rightarrow> 64)"
  shows "ep0_sized (ep0_out_state tgl bs s)" "ep0_next (ep0_out_state tgl bs s)" "sie_OUT (ep0_out_state tgl bs s) = (\<not> sie_OUT s)"
    "PKTDIS (ep0_out_state tgl bs s) = PKTDIS s" "BothEP0OutUOWNsSet (ep0_out_state tgl bs s) = BothEP0OutUOWNsSet s"
    "controlTransferState (ep0_out_state tgl bs s) = controlTransferState s"
    "ep0_OUT (ep0_out_state tgl bs s) (\<not> sie_OUT s) = ep0_OUT s (\<not> sie_OUT s)"
  using assms
  by (cases "bdt_ADR (ep0_OUT s (sie_OUT s))";
      simp add: ep0_out_state_def Let_def out_upd_def ep0_inv_def ep0_sized_def ep0_next_def)+

text \<open>An armed next buffer is what the invariant asks outside the status stage of a read.\<close>

lemma inv_armed:
  assumes "ep0_sized s" and "ep0_next s" and "\<not> PKTDIS s" and "\<not> BothEP0OutUOWNsSet s" and "controlTransferState s \<noteq> CTRL_TRF_TX"
    and "bdt_UOWN (ep0_OUT s (sie_OUT s))"
  shows "ep0_inv s"
  using assms by (simp add: ep0_inv_def)

lemma callback_frame [simp]:
  "ep0_inv (ep0_callback s) = ep0_inv s" "USBDeferStatusStagePacket (ep0_callback s) = USBDeferStatusStagePacket s"
  by (simp_all add: ep0_callback_def inv_frame split: option.split)

lemma rx_service_inv:
  assumes "ep0_sized s" and "ep0_next s" and "\<not> PKTDIS s" and "\<not> BothEP0OutUOWNsSet s" and "controlTransferState s = CTRL_TRF_RX"
  shows "ep0_inv (USBCtrlTrfRxService s)"
proof -
  have a: "ep0_inv (out_upd (EP0OutNext s) (\<lambda>e. ep0_give x y z (ep0_buffer b e)) (s\<lparr>outPipe := p, dev_drv := d\<rparr>))" for x y z b p d
    using assms by (intro inv_armed) (simp_all add: ep0_sized_def ep0_next_def out_upd_def)
  have d: "\<not> USBDeferStatusStagePacket s" using assms(1) by (simp add: ep0_sized_def)
  let ?p = "(outPipe s)\<lparr>op_wCount := w, op_pos := i\<rparr>"
  have "ep0_inv (USBCtrlEPAllowStatusStage ((ep0_callback u)\<lparr>outPipe := q\<rparr>))" if "ep0_inv u" for u :: "('a, 'b) usb_dev" and q
    using that by (intro inv_allow_status) (simp add: inv_frame)
  moreover have "\<not> USBDeferStatusStagePacket (ep0_callback (out_upd i f (s\<lparr>outPipe := p, dev_drv := e\<rparr>)))" for i f p e
    using d by (simp add: out_upd_def)
  ultimately show ?thesis using a by (simp add: USBCtrlTrfRxService_def Let_def)
qed

lemma inv_OUT:
  assumes "ep0_inv s" and "host_OUT ev tgl bs s = Some (t, r)"
  shows "ep0_inv t"
  using assms
proof (cases rule: out_token_cases)
  case 2
  have "ep0_inv (s\<lparr>EPSTALL := True\<rparr>)" using assms(1) by (simp add: inv_frame)
  then show ?thesis using 2 inv_stall_handler by blast
next
  case 3
  let ?s = "ep0_out_state tgl bs s"
  note O = out_state_ok[OF assms(1) 3(4), of tgl]
  have p: "\<not> PKTDIS ?s" "ep0_next ?s" "ep0_sized ?s" using O assms(1) by (simp_all add: ep0_inv_def)
  show ?thesis
  proof (cases "controlTransferState s = CTRL_TRF_RX")
    case True
    then have "\<not> BothEP0OutUOWNsSet ?s" using assms(1) O by (simp add: ep0_inv_def)
    then show ?thesis using True O p 3 rx_service_inv[of ?s] by (simp add: USBCtrlTrfOutHandler_def)
  next
    case False
    have n: "EP0OutNext ?s = (\<not> sie_OUT s)" "sie_OUT ?s = (\<not> sie_OUT s)" using O(2,3) by (simp_all add: ep0_next_def)
    show ?thesis
    proof (cases "BothEP0OutUOWNsSet s")
      case True
      then have "bdt_UOWN (ep0_OUT ?s (\<not> sie_OUT s))" using assms(1) 3(3) O(7) by (simp add: ep0_inv_def)
      then have "ep0_inv (?s\<lparr>controlTransferState := WAIT_SETUP, BothEP0OutUOWNsSet := False\<rparr>)"
        using p n by (intro inv_armed) (simp_all add: ep0_sized_def ep0_next_def)
      then show ?thesis using True False O 3 by (simp add: USBCtrlTrfOutHandler_def Let_def)
    next
      case nb: False
      have "ep0_inv (out_upd (\<not> sie_OUT s) (\<lambda>e. ep0_give False True True (ep0_buffer Buf_SetupPkt e)) (?s\<lparr>controlTransferState := WAIT_SETUP\<rparr>))"
        using p n nb O by (intro inv_armed) (simp_all add: ep0_sized_def ep0_next_def out_upd_def)
      then show ?thesis using nb False O n 3 by (simp add: USBCtrlTrfOutHandler_def Let_def)
    qed
  qed
qed (use assms(1) in simp)

text \<open>The IN side keeps what the invariant says of the OUT side.\<close>

lemma in_token_cases:
  assumes "ep0_inv s" and "host_IN ev s = Some (t, r)"
  obtains "t = s" "r = Host_NAK" | "t = USBStallHandler (s\<lparr>EPSTALL := True\<rparr>)" "r = Host_STALL"
  | "t = USBCtrlTrfInHandler (ep0_in_state s)"
  using assms
  by (auto simp: host_IN_def USBCtrlEPService_def ep0_in_state_def ep0_inv_def Let_def in_upd_def split: if_splits)

lemma inv_in_upd [simp]: "ep0_inv (in_upd i f s) = ep0_inv s"
  by (simp add: in_upd_def ep0_inv_def ep0_sized_def ep0_next_def)

lemma inv_tx_service: "ep0_inv s \<Longrightarrow> ep0_inv (USBCtrlTrfTxService s)"
  by (simp add: ep0_inv_def tx_service_length tx_service_frame ep0_next_def ep0_sized_def)

lemma inv_wait_setup: "ep0_inv s \<Longrightarrow> ep0_inv (s\<lparr>controlTransferState := WAIT_SETUP\<rparr>)"
  by (simp add: ep0_inv_def ep0_sized_def ep0_next_def)

definition ep0_in_done :: "('b, 'd) usb_dev \<Rightarrow> ('b, 'd) usb_dev" where
  "ep0_in_done s =
     (let s1 = s\<lparr>EP0In := \<not> EP0In s\<rparr>; a = ucast (st_wValue (setup_of_bytes (SetupPkt s1))) AND 0x7F
      in if USBDeviceState s1 = ADR_PENDING_STATE
         then s1\<lparr>U1ADDR := a, USBDeviceState := (if a \<noteq> 0 then ADDRESS_STATE else DEFAULT_STATE)\<rparr> else s1)"

lemma inv_in_done: "ep0_inv s \<Longrightarrow> ep0_inv (ep0_in_done (ep0_in_state s))"
  by (simp add: ep0_in_done_def ep0_in_state_def Let_def in_upd_def ep0_inv_def ep0_sized_def ep0_next_def)

lemma in_handler_eq:
  "USBCtrlTrfInHandler s =
     (let lastDTS = bdt_DTS (ep0_IN s (EP0In s)); s2 = ep0_in_done s
      in if controlTransferState s2 = CTRL_TRF_TX then
           let s3 = USBCtrlTrfTxService (in_upd (EP0In s2) (\<lambda>e. e\<lparr>bdt_ADR := Buf_CtrlTrfData\<rparr>) s2)
           in if shortPacketStatus s3 = SHORT_PKT_SENT then in_upd (EP0In s3) (ep0_give False False True) s3
              else in_upd (EP0In s3) (ep0_give (\<not> lastDTS) True False) s3
         else
           let s3 = (if op_busy (outPipe s2) then (ep0_callback s2)\<lparr>outPipe := (outPipe (ep0_callback s2))\<lparr>op_busy := False\<rparr>\<rparr> else s2)
           in s3\<lparr>controlTransferState := WAIT_SETUP\<rparr>)"
  unfolding USBCtrlTrfInHandler_def ep0_in_done_def Let_def by simp

lemma inv_in_handler:
  assumes "ep0_inv s"
  shows "ep0_inv (USBCtrlTrfInHandler (ep0_in_state s))"
proof -
  let ?s = "ep0_in_done (ep0_in_state s)"
  have i: "ep0_inv ?s" using assms by (rule inv_in_done)
  have c: "ep0_inv ((ep0_callback ?s)\<lparr>outPipe := q, controlTransferState := WAIT_SETUP\<rparr>)" for q
    using i by (intro inv_wait_setup) (simp add: inv_frame)
  show ?thesis unfolding in_handler_eq Let_def using i c by (simp add: inv_tx_service inv_wait_setup)
qed

lemma inv_IN:
  assumes "ep0_inv s" and "host_IN ev s = Some (t, r)"
  shows "ep0_inv t"
  using assms
proof (cases rule: in_token_cases)
  case 2
  have "ep0_inv (s\<lparr>EPSTALL := True\<rparr>)" using assms(1) by (simp add: inv_frame)
  then show ?thesis using 2 inv_stall_handler by blast
next
  case 3
  then show ?thesis using assms(1) inv_in_handler by simp
qed (use assms(1) in simp)

subsection \<open>Reachable states\<close>

text \<open>
  What can happen to the device between two bus resets: a start of frame, and the tokens of a host, whose
  setup packets satisfy \<open>ok\<close>; each transaction is served before the next token.
\<close>

inductive ep0_traffic :: "('b, 'd) usb_events \<Rightarrow> (u8 list \<Rightarrow> bool) \<Rightarrow> ('b, 'd) usb_dev \<Rightarrow> ('b, 'd) usb_dev \<Rightarrow> bool" for ev ok where
  Frame: "ep0_traffic ev ok s (usb_start_of_frame s)"
| Setup: "length bs = 8 \<Longrightarrow> ok bs \<Longrightarrow> host_SETUP ev bs s = Some (t, r) \<Longrightarrow> ep0_traffic ev ok s t"
| Out: "host_OUT ev tgl bs s = Some (t, r) \<Longrightarrow> ep0_traffic ev ok s t"
| In: "host_IN ev s = Some (t, r) \<Longrightarrow> ep0_traffic ev ok s t"

text \<open>What holds in every state, whatever the host has sent: the buffers have their sizes, and a bus reset brings the invariant back.\<close>

definition ep0_core :: "('b, 'd) usb_dev \<Rightarrow> bool" where
  "ep0_core s \<longleftrightarrow> length (SetupPkt s) = 8 \<and> length (CtrlTrfData s) = 64 \<and> length (USBAlternateInterface s) = 32 \<and>
     \<not> USBDeferStatusStagePacket s \<and> (BothEP0OutUOWNsSet s \<longrightarrow> controlTransferState s \<noteq> CTRL_TRF_RX)"

lemma inv_core: "ep0_inv s \<Longrightarrow> ep0_core s"
  by (simp add: ep0_inv_def ep0_core_def ep0_sized_def)

lemma core_reset: "ep0_core s \<Longrightarrow> ep0_inv (usb_bus_reset s)"
  by (rule inv_bus_reset) (simp_all add: ep0_core_def)

lemma core_upd [simp]:
  "ep0_core (out_upd i f s) = ep0_core s" "ep0_core (in_upd i f s) = ep0_core s" "ep0_core (s\<lparr>PKTDIS := b\<rparr>) = ep0_core s"
  "ep0_core (s\<lparr>USBStatusStageEnabledFlag1 := b\<rparr>) = ep0_core s" "ep0_core (s\<lparr>USBStatusStageEnabledFlag2 := b\<rparr>) = ep0_core s"
  "ep0_core (s\<lparr>USBStatusStageTimeoutCounter := n\<rparr>) = ep0_core s" "ep0_core (s\<lparr>EPSTALL := b\<rparr>) = ep0_core s"
  "ep0_core (s\<lparr>inPipe := ip\<rparr>) = ep0_core s" "ep0_core (s\<lparr>outPipe := op\<rparr>) = ep0_core s" "ep0_core (s\<lparr>dev_drv := d\<rparr>) = ep0_core s"
  "ep0_core (ep0_callback s) = ep0_core s" "BothEP0OutUOWNsSet (out_upd i f s) = BothEP0OutUOWNsSet s"
  "ep0_core (s\<lparr>controlTransferState := WAIT_SETUP, BothEP0OutUOWNsSet := False\<rparr>) = ep0_core (s\<lparr>controlTransferState := WAIT_SETUP\<rparr>)"
  by (simp_all add: ep0_core_def out_upd_def in_upd_def ep0_callback_def split: option.split)

lemma core_state: "ep0_core s \<Longrightarrow> \<not> BothEP0OutUOWNsSet s \<or> x \<noteq> CTRL_TRF_RX \<Longrightarrow> ep0_core (s\<lparr>controlTransferState := x\<rparr>)"
  by (auto simp: ep0_core_def)

lemma core_same: "ep0_same s t \<Longrightarrow> ep0_core s \<Longrightarrow> ep0_core t \<and> BothEP0OutUOWNsSet t = BothEP0OutUOWNsSet s"
  by (simp add: ep0_same_def ep0_core_def)

lemma core_allow_status: "ep0_core s \<Longrightarrow> ep0_core (USBCtrlEPAllowStatusStage s)"
  by (auto simp: USBCtrlEPAllowStatusStage_def Let_def ep0_core_def out_upd_def in_upd_def split: ctrl_state.split)

lemma core_tx: "ep0_core s \<Longrightarrow> ep0_core (USBCtrlTrfTxService s)"
  by (simp add: ep0_core_def tx_service_frame tx_service_length)

lemma core_data_stage: "ep0_core s \<Longrightarrow> ep0_core (USBCtrlEPAllowDataStage s)"
proof -
  assume "ep0_core s"
  then have "ep0_core (s\<lparr>USBDeferINDataStagePackets := False, USBDeferOUTDataStagePackets := False\<rparr>)" by (simp add: ep0_core_def)
  then show ?thesis by (simp add: USBCtrlEPAllowDataStage_def Let_def core_tx)
qed

lemma core_complete: "ep0_core s \<Longrightarrow> \<not> BothEP0OutUOWNsSet s \<Longrightarrow> ep0_core (USBCtrlEPServiceComplete s)"
  by (simp add: USBCtrlEPServiceComplete_def Let_def core_data_stage core_allow_status core_state)

lemma core_std:
  assumes "USBCheckStdRequest ev s = Some t" and "ep0_core s" and "\<not> BothEP0OutUOWNsSet s"
  shows "ep0_core t \<and> \<not> BothEP0OutUOWNsSet t"
proof (cases "st_RequestType (setup_of_bytes (SetupPkt s)) = 0 \<and> st_bRequest (setup_of_bytes (SetupPkt s)) = 9")
  case True
  then have "t = USBStdSetCfgHandler ev s" using assms(1) by (simp add: USBCheckStdRequest_def)
  then show ?thesis using assms(2,3)
    by (simp add: USBStdSetCfgHandler_def ep0_clear_def ep0_claim_busy_def Let_def ep0_core_def split: prod.split)
next
  case False
  then show ?thesis using same_std[OF assms(1) _ False] core_same[of s t] assms(2,3) by (simp add: ep0_core_def)
qed

lemma core_setup:
  assumes "ep0_core s" and "length bs = 8" and "host_SETUP ev bs s = Some (t, r)"
  shows "ep0_core t"
proof (cases "PKTDIS s \<or> \<not> bdt_UOWN (ep0_OUT s (sie_OUT s))")
  case True
  then show ?thesis using assms(1,3) by (simp add: host_SETUP_def Let_def)
next
  case False
  then have h: "USBCtrlTrfSetupHandler ev (ep0_setup_state bs s) = Some t" using assms(2,3) setup_accepted[of s bs ev] by auto
  have "ep0_core (ep0_abandon (ep0_setup_state bs s)) \<and> \<not> BothEP0OutUOWNsSet (ep0_abandon (ep0_setup_state bs s))"
    using assms(1,2) by (simp add: ep0_abandon_def ep0_setup_state_def Let_def in_upd_def out_upd_def ep0_core_def)
  with h show ?thesis unfolding USBCtrlTrfSetupHandler_def
    by (auto split: option.splits dest!: core_std same_class core_same intro!: core_complete)
qed

lemma core_OUT:
  assumes "ep0_core s" and "host_OUT ev tgl bs s = Some (t, r)"
  shows "ep0_core t"
proof -
  have st: "ep0_core (USBStallHandler (s\<lparr>EPSTALL := True\<rparr>))" using assms(1) by (simp add: USBStallHandler_def Let_def)
  have o: "ep0_core (ep0_out_state tgl bs s)" "BothEP0OutUOWNsSet (ep0_out_state tgl bs s) = BothEP0OutUOWNsSet s"
    "controlTransferState (ep0_out_state tgl bs s) = controlTransferState s"
    if "length bs \<le> (case bdt_ADR (ep0_OUT s (sie_OUT s)) of Buf_SetupPkt \<Rightarrow> 8 | Buf_CtrlTrfData \<Rightarrow> 64)"
    using that assms(1)
    by (cases "bdt_ADR (ep0_OUT s (sie_OUT s))"; simp add: ep0_out_state_def Let_def out_upd_def ep0_core_def)+
  have h: "ep0_core (USBCtrlTrfOutHandler u)" if "ep0_core u" for u :: "('a, 'b) usb_dev"
    using that by (simp add: USBCtrlTrfOutHandler_def USBCtrlTrfRxService_def Let_def core_allow_status core_state)
  have "t = s \<or> t = USBStallHandler (s\<lparr>EPSTALL := True\<rparr>) \<or> t = USBCtrlTrfOutHandler (ep0_out_state tgl bs s) \<and>
      length bs \<le> (case bdt_ADR (ep0_OUT s (sie_OUT s)) of Buf_SetupPkt \<Rightarrow> 8 | Buf_CtrlTrfData \<Rightarrow> 64)"
    using assms(2) by (cases "bdt_ADR (ep0_OUT s (sie_OUT s))")
      (auto simp: host_OUT_def USBCtrlEPService_def ep0_out_state_def Let_def out_upd_def split: if_splits)
  then show ?thesis using assms(1) st h o by blast
qed

lemma core_IN:
  assumes "ep0_core s" and "host_IN ev s = Some (t, r)"
  shows "ep0_core t"
proof -
  have st: "ep0_core (USBStallHandler (s\<lparr>EPSTALL := True\<rparr>))" using assms(1) by (simp add: USBStallHandler_def Let_def)
  have "ep0_core (ep0_in_done (ep0_in_state s))"
    using assms(1) by (simp add: ep0_in_done_def ep0_in_state_def Let_def in_upd_def ep0_core_def)
  then have h: "ep0_core (USBCtrlTrfInHandler (ep0_in_state s))"
    unfolding in_handler_eq Let_def by (simp add: core_tx core_state)
  have "t = s \<or> t = USBStallHandler (s\<lparr>EPSTALL := True\<rparr>) \<or> t = USBCtrlTrfInHandler (ep0_in_state s)"
    using assms(2) by (auto simp: host_IN_def USBCtrlEPService_def ep0_in_state_def Let_def in_upd_def split: if_splits)
  then show ?thesis using assms(1) st h by blast
qed

text \<open>
  The events: a bus reset, a start of frame, and the tokens of the host, each served before the next one. A setup packet has eight bytes,
  the hardware drops any other. Every event has an outcome in every state; \<open>None\<close> is the device after an access outside an
  object, from where nothing is claimed.
\<close>

datatype ep0_event = Bus_Reset | Start_Of_Frame | Token_Setup "u8 list" | Token_Out bool "u8 list" | Token_In

fun ep0_step :: "('b, 'd) usb_events \<Rightarrow> ep0_event \<Rightarrow> ('b, 'd) usb_dev option \<Rightarrow> ('b, 'd) usb_dev option" where
  "ep0_step ev e None = None"
| "ep0_step ev Bus_Reset (Some s) = Some (usb_bus_reset s)"
| "ep0_step ev Start_Of_Frame (Some s) = Some (usb_start_of_frame s)"
| "ep0_step ev (Token_Setup bs) (Some s) = (if length bs = 8 then map_option fst (host_SETUP ev bs s) else Some s)"
| "ep0_step ev (Token_Out tgl bs) (Some s) = map_option fst (host_OUT ev tgl bs s)"
| "ep0_step ev Token_In (Some s) = map_option fst (host_IN ev s)"

definition ep0_run :: "('b, 'd) usb_events \<Rightarrow> ep0_event list \<Rightarrow> ('b, 'd) usb_dev \<Rightarrow> ('b, 'd) usb_dev option" where
  "ep0_run ev es s = fold (ep0_step ev) es (Some s)"

definition ep0_misdirected :: "ep0_event \<Rightarrow> bool" where
  "ep0_misdirected e \<longleftrightarrow> (case e of Token_Setup bs \<Rightarrow> ep0_ill_formed bs | _ \<Rightarrow> False)"

lemma step_core: "ep0_core s \<Longrightarrow> ep0_step ev e (Some s) = Some t \<Longrightarrow> ep0_core t"
  by (cases e) (auto simp: usb_start_of_frame_def Let_def core_allow_status inv_core core_reset split: if_splits
      intro: core_setup core_OUT core_IN)

lemma step_inv: "ep0_inv s \<Longrightarrow> \<not> ep0_misdirected e \<Longrightarrow> ep0_step ev e (Some s) = Some t \<Longrightarrow> ep0_inv t"
  by (cases e) (auto simp: ep0_misdirected_def inv_start_of_frame inv_core core_reset split: if_splits
      dest: setup_ok inv_OUT inv_IN)

lemma run_none [simp]: "fold (ep0_step ev) es None = None"
  by (induction es) auto

lemma run_snoc: "ep0_run ev (es @ [e]) s = ep0_step ev e (ep0_run ev es s)"
  by (simp add: ep0_run_def)

lemma run_append: "ep0_run ev (es @ fs) s = Option.bind (ep0_run ev es s) (ep0_run ev fs)"
  by (cases "fold (ep0_step ev) es (Some s)") (simp_all add: ep0_run_def)

lemma run_core: "ep0_core s \<Longrightarrow> ep0_run ev es s = Some t \<Longrightarrow> ep0_core t"
proof (induction es arbitrary: t rule: rev_induct)
  case (snoc e es)
  then obtain u where u: "ep0_run ev es s = Some u" by (cases "ep0_run ev es s") (auto simp: run_snoc)
  then show ?case using snoc step_core[of u ev e t] by (simp add: run_snoc)
qed (simp add: ep0_run_def)

lemma run_inv:
  "ep0_inv s \<Longrightarrow> \<forall>e \<in> set es. \<not> ep0_misdirected e \<Longrightarrow> ep0_run ev es s = Some t \<Longrightarrow> ep0_inv t"
proof (induction es arbitrary: t rule: rev_induct)
  case (snoc e es)
  then obtain u where u: "ep0_run ev es s = Some u" by (cases "ep0_run ev es s") (auto simp: run_snoc)
  then show ?case using snoc step_inv[of u e ev t] by (simp add: run_snoc)
qed (simp add: ep0_run_def)

text \<open>The requests at which a handler reads or writes outside its objects, or the callback of the drivers does.\<close>

definition ep0_bad_request :: "('b, 'd) usb_events \<Rightarrow> u8 list \<Rightarrow> ('b, 'd) usb_dev \<Rightarrow> bool" where
  "ep0_bad_request ev bs s \<longleftrightarrow>
     (let p = setup_of_bytes bs
      in st_RequestType p = 0 \<and>
           (bs ! 0 = 0x80 \<and> st_bRequest p = 6 \<and> st_bDescriptorType p = 2 \<and> st_bDscIndex p = 0 \<and> USB_CD_Ptr (dev_config s) = None \<or>
            (st_bRequest p = 10 \<or> st_bRequest p = 11) \<and> 32 \<le> unat (st_bIntfID p) \<or>
            st_bRequest p = 0 \<and> st_Recipient p = 2 \<and> (if st_EPNum p = 0 then \<not> st_EPDir p else ep_handle p s = None) \<or>
            (st_bRequest p = 1 \<or> st_bRequest p = 3) \<and> st_bFeature p = 0 \<and> st_Recipient p = 2 \<and> st_EPNum p \<noteq> 0 \<and>
              USBDeviceState s = CONFIGURED_STATE \<and> ep_handle p s = None) \<or>
         (\<exists>x. EventCheckRequest ev p x = None))"

definition ep0_faulty :: "('b, 'd) usb_events \<Rightarrow> ep0_event \<Rightarrow> ('b, 'd) usb_dev \<Rightarrow> bool" where
  "ep0_faulty ev e s \<longleftrightarrow>
     (case e of Token_Setup bs \<Rightarrow> ep0_bad_request ev bs s
      | Token_Out tgl bs \<Rightarrow> length bs > (case bdt_ADR (ep0_OUT s (sie_OUT s)) of Buf_SetupPkt \<Rightarrow> 8 | Buf_CtrlTrfData \<Rightarrow> 64)
      | _ \<Rightarrow> False)"

lemma std_same_pkt: "USBCheckStdRequest ev s = Some t \<Longrightarrow> length (CtrlTrfData s) = 64 \<Longrightarrow> SetupPkt t = SetupPkt s"
proof (cases "st_RequestType (setup_of_bytes (SetupPkt s)) = 0 \<and> st_bRequest (setup_of_bytes (SetupPkt s)) = 9")
  case True
  assume "USBCheckStdRequest ev s = Some t"
  then have "t = USBStdSetCfgHandler ev s" using True by (simp add: USBCheckStdRequest_def)
  then show ?thesis by (simp add: USBStdSetCfgHandler_def ep0_clear_def ep0_claim_busy_def Let_def split: prod.split)
next
  case False
  assume "USBCheckStdRequest ev s = Some t" "length (CtrlTrfData s) = 64"
  from same_std[OF this False] show ?thesis by (simp add: ep0_same_def)
qed

lemma handler_faults:
  "USBStdGetDscHandler s = None \<Longrightarrow> SetupPkt s ! 0 = 0x80 \<and> st_bDescriptorType (setup_of_bytes (SetupPkt s)) = 2 \<and>
     st_bDscIndex (setup_of_bytes (SetupPkt s)) = 0 \<and> USB_CD_Ptr (dev_config s) = None"
  "USBStdGetStatusHandler s = None \<Longrightarrow> st_Recipient (setup_of_bytes (SetupPkt s)) = 2 \<and>
     (if st_EPNum (setup_of_bytes (SetupPkt s)) = 0 then \<not> st_EPDir (setup_of_bytes (SetupPkt s))
      else ep_handle (setup_of_bytes (SetupPkt s)) s = None)"
  "USBStdFeatureReqHandler s = None \<Longrightarrow> st_bFeature (setup_of_bytes (SetupPkt s)) = 0 \<and>
     st_Recipient (setup_of_bytes (SetupPkt s)) = 2 \<and> st_EPNum (setup_of_bytes (SetupPkt s)) \<noteq> 0 \<and>
     USBDeviceState s = CONFIGURED_STATE \<and> ep_handle (setup_of_bytes (SetupPkt s)) s = None"
proof -
  have z: "(x :: u8) < 1 \<longleftrightarrow> x = 0" for x by (simp add: word_less_nat_alt unat_eq_0)
  have h: "ep_handle p (ep0_claim_busy s) = ep_handle p s" for p by (simp add: ep_handle_def ep0_claim_busy_def)
  show "USBStdGetDscHandler s = None \<Longrightarrow> SetupPkt s ! 0 = 0x80 \<and> st_bDescriptorType (setup_of_bytes (SetupPkt s)) = 2 \<and>
     st_bDscIndex (setup_of_bytes (SetupPkt s)) = 0 \<and> USB_CD_Ptr (dev_config s) = None"
    by (simp add: USBStdGetDscHandler_def Let_def z split: if_splits option.splits)
  show "USBStdGetStatusHandler s = None \<Longrightarrow> st_Recipient (setup_of_bytes (SetupPkt s)) = 2 \<and>
     (if st_EPNum (setup_of_bytes (SetupPkt s)) = 0 then \<not> st_EPDir (setup_of_bytes (SetupPkt s))
      else ep_handle (setup_of_bytes (SetupPkt s)) s = None)"
    by (auto simp: USBStdGetStatusHandler_def ep_halted_def Let_def split: if_splits option.splits)
  have st: "USBDeviceState (ep0_claim_busy s) = USBDeviceState s" by (simp add: ep0_claim_busy_def)
  have w: "ep_handle p (s\<lparr>RemoteWakeup := b\<rparr>) = ep_handle p s" for p b by (simp add: ep_handle_def)
  show "USBStdFeatureReqHandler s = None \<Longrightarrow> st_bFeature (setup_of_bytes (SetupPkt s)) = 0 \<and>
     st_Recipient (setup_of_bytes (SetupPkt s)) = 2 \<and> st_EPNum (setup_of_bytes (SetupPkt s)) \<noteq> 0 \<and>
     USBDeviceState s = CONFIGURED_STATE \<and> ep_handle (setup_of_bytes (SetupPkt s)) s = None"
    unfolding USBStdFeatureReqHandler_def Let_def by (auto simp: h st split: if_splits option.splits)
qed

lemma std_fault:
  assumes "USBCheckStdRequest ev (ep0_abandon (ep0_setup_state bs s)) = None" and "length bs = 8"
  shows "ep0_bad_request ev bs s"
proof -
  let ?u = "ep0_abandon (ep0_setup_state bs s)"
  have f: "SetupPkt ?u = bs" "dev_config ?u = dev_config s" "dev_eps ?u = dev_eps s" "USBDeviceState ?u = USBDeviceState s"
    by (simp_all add: ep0_setup_state_def Let_def out_upd_def)
  then have h: "ep_handle p ?u = ep_handle p s" for p by (simp add: ep_handle_def)
  show ?thesis using assms(1) handler_faults[of ?u]
    unfolding USBCheckStdRequest_def f Let_def h by (simp add: ep0_bad_request_def Let_def split: if_splits)
qed

lemma setup_fault:
  assumes "host_SETUP ev bs s = None" and "length bs = 8" and "ep0_core s"
  shows "ep0_bad_request ev bs s"
proof -
  have "\<not> PKTDIS s" "bdt_UOWN (ep0_OUT s (sie_OUT s))" using assms(1) by (auto simp: host_SETUP_def Let_def split: if_splits)
  then have n: "USBCtrlTrfSetupHandler ev (ep0_setup_state bs s) = None" using assms(1) setup_accepted[OF _ _ assms(2), of s ev] by simp
  let ?u = "ep0_abandon (ep0_setup_state bs s)"
  show ?thesis
  proof (cases "USBCheckStdRequest ev ?u")
    case None
    then show ?thesis using std_fault assms(2) by blast
  next
    case (Some v)
    then have c: "ep0_class_request ev v = None" using n by (simp add: USBCtrlTrfSetupHandler_def)
    have "length (CtrlTrfData ?u) = 64" "SetupPkt ?u = bs"
      using assms(2,3) by (simp_all add: ep0_setup_state_def Let_def out_upd_def ep0_core_def)
    then have "SetupPkt v = bs" using std_same_pkt[OF Some] by simp
    then show ?thesis using c by (auto simp: ep0_bad_request_def Let_def ep0_class_request_def split: option.splits)
  qed
qed

lemma step_fault: "ep0_core s \<Longrightarrow> ep0_step ev e (Some s) = None \<Longrightarrow> ep0_faulty ev e s"
  by (cases e) (auto simp: ep0_faulty_def setup_fault host_OUT_def host_IN_def USBCtrlEPService_def Let_def out_upd_def
      split: if_splits ep0_buf.splits)

lemma run_fault:
  "ep0_core s \<Longrightarrow> ep0_run ev es s = None \<Longrightarrow>
     \<exists>es1 e es2 u. es = es1 @ e # es2 \<and> ep0_run ev es1 s = Some u \<and> ep0_faulty ev e u"
proof (induction es rule: rev_induct)
  case (snoc e es)
  show ?case
  proof (cases "ep0_run ev es s")
    case None
    with snoc obtain es1 x es2 u where "es = es1 @ x # es2" "ep0_run ev es1 s = Some u" "ep0_faulty ev x u" by blast
    then show ?thesis by (intro exI[of _ es1] exI[of _ x] exI[of _ "es2 @ [e]"] exI[of _ u]) simp
  next
    case (Some u)
    then have "ep0_faulty ev e u" using snoc.prems step_fault[of u ev e] run_core[of s ev es u] by (simp add: run_snoc)
    with Some show ?thesis by (intro exI[of _ es] exI[of _ e] exI[of _ "[]"] exI[of _ u]) simp
  qed
qed (simp add: ep0_run_def)

end
