(* ===== verification/USB_EP0_Transfer.thy ===== *)
theory USB_EP0_Transfer
  imports USB_EP0_Inv
begin

section \<open>Whole control transfers\<close>

text \<open>
  A host that reads the data stage packet by packet, or writes it, and closes the transfer with the
  status stage. \<open>ep0_sending\<close> and \<open>ep0_receiving\<close> say what is left of the data stage; each packet takes
  its bytes from them, \<open>ep0_status_armed\<close> and \<open>ep0_in_status\<close> that the status stage is ready.
\<close>

subsection \<open>The host's control transfers\<close>

text \<open>
  A host reads the data stage until it has what it asked for or a short packet, checks that the toggles
  alternate and start with DATA1, and closes with an empty OUT packet; it writes the data stage in
  packets of 64 bytes and closes with an empty IN packet. \<open>None\<close> where the host sees an error.
\<close>

fun host_read_data :: "('b, 'd) usb_events \<Rightarrow> bool \<Rightarrow> nat \<Rightarrow> ('b, 'd) usb_dev \<Rightarrow> (('b, 'd) usb_dev \<times> u8 list) option" where
  "host_read_data ev tgl rem s =
     (if rem = 0 then Some (s, [])
      else case host_IN ev s of
             Some (t, Host_DATA tg bs) \<Rightarrow>
               if tg \<noteq> tgl \<or> length bs > min 64 rem then None
               else if length bs < 64 then Some (t, bs)
               else map_option (\<lambda>(u, cs). (u, bs @ cs)) (host_read_data ev (\<not> tgl) (rem - 64) t)
           | _ \<Rightarrow> None)"

declare host_read_data.simps [simp del]

definition host_control_read :: "('b, 'd) usb_events \<Rightarrow> u8 list \<Rightarrow> ('b, 'd) usb_dev \<Rightarrow> (('b, 'd) usb_dev \<times> u8 list) option" where
  "host_control_read ev bs s =
     (case host_SETUP ev bs s of
        Some (t, Host_ACK) \<Rightarrow>
          (case host_read_data ev True (unat (st_wLength (setup_of_bytes bs))) t of
             Some (u, D) \<Rightarrow> (case host_OUT ev True [] u of Some (v, Host_ACK) \<Rightarrow> Some (v, D) | _ \<Rightarrow> None)
           | None \<Rightarrow> None)
      | _ \<Rightarrow> None)"

fun host_write_data :: "('b, 'd) usb_events \<Rightarrow> bool \<Rightarrow> u8 list \<Rightarrow> ('b, 'd) usb_dev \<Rightarrow> ('b, 'd) usb_dev option" where
  "host_write_data ev tgl D s =
     (if D = [] then Some s
      else case host_OUT ev tgl (take 64 D) s of
             Some (t, Host_ACK) \<Rightarrow> host_write_data ev (\<not> tgl) (drop 64 D) t
           | _ \<Rightarrow> None)"

declare host_write_data.simps [simp del]

definition host_control_write :: "('b, 'd) usb_events \<Rightarrow> u8 list \<Rightarrow> u8 list \<Rightarrow> ('b, 'd) usb_dev \<Rightarrow> ('b, 'd) usb_dev option" where
  "host_control_write ev bs D s =
     (case host_SETUP ev bs s of
        Some (t, Host_ACK) \<Rightarrow>
          (case host_write_data ev True D t of
             Some u \<Rightarrow> (case host_IN ev u of Some (v, Host_DATA True []) \<Rightarrow> Some v | _ \<Rightarrow> None)
           | None \<Rightarrow> None)
      | _ \<Rightarrow> None)"

subsection \<open>The data stage of a read\<close>

text \<open>The status stage of a read is armed: the next OUT packet is taken, whatever its toggle.\<close>

definition ep0_status_armed :: "('b, 'd) usb_dev \<Rightarrow> bool" where
  "ep0_status_armed s \<longleftrightarrow> ep0_inv s \<and> controlTransferState s = CTRL_TRF_TX \<and> BothEP0OutUOWNsSet s \<and>
     \<not> bdt_BSTALL (ep0_OUT s (sie_OUT s)) \<and> \<not> bdt_DTSEN (ep0_OUT s (sie_OUT s))"

lemma read_status:
  assumes "ep0_status_armed s"
  obtains t where "host_OUT ev tgl [] s = Some (t, Host_ACK)" "ep0_inv t" "controlTransferState t = WAIT_SETUP"
    "dev_drv t = dev_drv s" "dev_eps t = dev_eps s" "USBDeviceState t = USBDeviceState s" "dev_config t = dev_config s"
proof -
  let ?t = "(ep0_out_state tgl [] s)\<lparr>controlTransferState := WAIT_SETUP, BothEP0OutUOWNsSet := False\<rparr>"
  have "host_OUT ev tgl [] s = Some (?t, Host_ACK)"
    using assms
    by (cases "bdt_ADR (ep0_OUT s (sie_OUT s))")
      (simp_all add: host_OUT_def USBCtrlEPService_def USBCtrlTrfOutHandler_def ep0_out_state_def ep0_status_armed_def ep0_inv_def
        Let_def out_upd_def)
  moreover from this have "ep0_inv ?t" using inv_OUT assms unfolding ep0_status_armed_def by blast
  moreover have "dev_drv ?t = dev_drv s" "dev_eps ?t = dev_eps s" "USBDeviceState ?t = USBDeviceState s" "dev_config ?t = dev_config s"
    by (cases "bdt_ADR (ep0_OUT s (sie_OUT s))"; simp add: ep0_out_state_def Let_def out_upd_def)+
  ultimately show ?thesis using that by simp
qed

text \<open>The bytes \<open>D\<close> remain to be sent; the first packet of them is armed with the toggle \<open>tgl\<close>.\<close>

definition ep0_sending :: "u8 list \<Rightarrow> bool \<Rightarrow> ('b, 'd) usb_dev \<Rightarrow> bool" where
  "ep0_sending D tgl s \<longleftrightarrow> ep0_status_armed s \<and>
     (let e = ep0_IN s (sie_IN s)
      in bdt_UOWN e \<and> \<not> bdt_BSTALL e \<and> bdt_DTS e = tgl \<and> bdt_ADR e = Buf_CtrlTrfData \<and> unat (bdt_CNT e) = min 64 (length D)) \<and>
     take (min 64 (length D)) (CtrlTrfData s) = take 64 D \<and>
     map (ip_pSrc (inPipe s)) [0..<unat (ip_wCount (inPipe s))] = drop 64 D \<and>
     shortPacketStatus s = (if length D < 64 then SHORT_PKT_PENDING else SHORT_PKT_NOT_USED)"

text \<open>What a packet of the transmit service is.\<close>

lemma tx_service_packet:
  fixes s :: "('b, 'd) usb_dev"
  defines "D \<equiv> map (ip_pSrc (inPipe s)) [0..<unat (ip_wCount (inPipe s))]" and "t \<equiv> USBCtrlTrfTxService s"
  assumes "length (CtrlTrfData s) = 64" and "shortPacketStatus s = SHORT_PKT_NOT_USED"
  shows "take (min 64 (length D)) (CtrlTrfData t) = take 64 D" "unat (bdt_CNT (ep0_IN t (EP0In s))) = min 64 (length D)"
    "map (ip_pSrc (inPipe t)) [0..<unat (ip_wCount (inPipe t))] = drop 64 D"
    "shortPacketStatus t = (if length D < 64 then SHORT_PKT_PENDING else SHORT_PKT_NOT_USED)"
proof -
  let ?w = "ip_wCount (inPipe s)"
  have short: "?w < 64 \<longleftrightarrow> unat ?w < 64" by (simp add: word_less_nat_alt)
  have c: "unat (ucast ?w :: u8) = unat ?w" if "unat ?w < 64"
    using that by (simp add: unsigned_ucast_eq unsigned_take_bit_eq take_bit_nat_eq_self)
  have u: "ucast (ucast ?w :: u8) = ?w" if "unat ?w < 64"
    using c[OF that] that by (simp add: word_unat_eq_iff unsigned_ucast_eq unsigned_take_bit_eq take_bit_nat_eq_self)
  have sub: "unat (?w - 64) = unat ?w - 64" if "\<not> unat ?w < 64"
    using that by (simp add: unat_sub word_le_nat_alt)
  have d: "map (\<lambda>i. f (i + 64)) [0..<n - 64] = drop 64 (map f [0..<n])" for f :: "nat \<Rightarrow> u8" and n
    by (rule nth_equalityI) (auto simp: algebra_simps)
  have tk: "map f [0..<64] = take 64 (map f [0..<n])" if "64 \<le> n" for f :: "nat \<Rightarrow> u8" and n
    using that by (intro nth_equalityI) auto
  show "take (min 64 (length D)) (CtrlTrfData t) = take 64 D" "unat (bdt_CNT (ep0_IN t (EP0In s))) = min 64 (length D)"
    "map (ip_pSrc (inPipe t)) [0..<unat (ip_wCount (inPipe t))] = drop 64 D"
    "shortPacketStatus t = (if length D < 64 then SHORT_PKT_PENDING else SHORT_PKT_NOT_USED)"
    unfolding D_def t_def USBCtrlTrfTxService_def Let_def using assms(3,4) c u sub
    by (cases "unat ?w < 64"; simp add: short in_upd_def d tk min_def)+
qed

text \<open>The transmit service leaves the status stage armed.\<close>

lemma armed_tx_service: "ep0_status_armed s \<Longrightarrow> ep0_status_armed (USBCtrlTrfTxService s)"
  by (simp add: ep0_status_armed_def inv_tx_service tx_service_frame)

lemma armed_in_upd [simp]: "ep0_status_armed (in_upd i f s) = ep0_status_armed s"
  by (simp add: ep0_status_armed_def) (simp add: in_upd_def)

lemma armed_in_done: "ep0_status_armed s \<Longrightarrow> ep0_status_armed (ep0_in_done (ep0_in_state s))"
  unfolding ep0_status_armed_def using inv_in_done[of s]
  by (simp add: ep0_in_done_def ep0_in_state_def Let_def in_upd_def)

lemma in_done_frame:
  fixes s :: "('b, 'd) usb_dev"
  defines "t \<equiv> ep0_in_done (ep0_in_state s)"
  assumes "ep0_inv s"
  shows "inPipe t = inPipe s" "CtrlTrfData t = CtrlTrfData s" "shortPacketStatus t = shortPacketStatus s" "EP0In t = (\<not> sie_IN s)"
    "sie_IN t = (\<not> sie_IN s)" "dev_drv t = dev_drv s" "dev_eps t = dev_eps s" "dev_config t = dev_config s"
    "USBDeviceState s \<noteq> ADR_PENDING_STATE \<Longrightarrow> USBDeviceState t = USBDeviceState s"
    "controlTransferState t = controlTransferState s" "outPipe t = outPipe s"
  using assms(2)
  by (simp_all add: t_def ep0_in_done_def ep0_in_state_def Let_def in_upd_def ep0_inv_def ep0_sized_def)

lemma in_token_armed:
  assumes "ep0_inv s" and "bdt_UOWN (ep0_IN s (sie_IN s))" and "\<not> bdt_BSTALL (ep0_IN s (sie_IN s))"
    and "bdt_ADR (ep0_IN s (sie_IN s)) = Buf_CtrlTrfData"
  shows "host_IN ev s = Some (USBCtrlTrfInHandler (ep0_in_state s),
     Host_DATA (bdt_DTS (ep0_IN s (sie_IN s))) (take (unat (bdt_CNT (ep0_IN s (sie_IN s)))) (CtrlTrfData s)))"
  using assms by (simp add: host_IN_def USBCtrlEPService_def ep0_in_state_def ep0_inv_def Let_def in_upd_def)

lemma sending_give:
  assumes "ep0_status_armed w" and "take (min 64 (length D)) (CtrlTrfData w) = take 64 D"
    and "unat (bdt_CNT (ep0_IN w (EP0In w))) = min 64 (length D)"
    and "map (ip_pSrc (inPipe w)) [0..<unat (ip_wCount (inPipe w))] = drop 64 D"
    and "shortPacketStatus w = (if length D < 64 then SHORT_PKT_PENDING else SHORT_PKT_NOT_USED)"
    and "bdt_ADR (ep0_IN w (EP0In w)) = Buf_CtrlTrfData"
  shows "ep0_sending D tgl (in_upd (EP0In w) (ep0_give tgl True False) w)"
proof -
  have "EP0In w = sie_IN w" using assms(1) by (simp add: ep0_status_armed_def ep0_inv_def ep0_sized_def)
  then have e: "ep0_IN (in_upd (EP0In w) (ep0_give tgl True False) w) (sie_IN (in_upd (EP0In w) (ep0_give tgl True False) w)) =
      ep0_give tgl True False (ep0_IN w (EP0In w))"
    by (simp add: in_upd_def)
  show ?thesis unfolding ep0_sending_def Let_def e using assms(2-6)
    by (simp add: assms(1)) (auto simp: ep0_give_def in_upd_def min_def)
qed

text \<open>One packet of the data stage; \<open>D\<close> is what is left.\<close>

lemma sending_IN:
  fixes s :: "('b, 'd) usb_dev"
  assumes "ep0_sending D tgl s"
  obtains t where "host_IN ev s = Some (t, Host_DATA tgl (take 64 D))" "ep0_status_armed t"
    "64 \<le> length D \<longrightarrow> ep0_sending (drop 64 D) (\<not> tgl) t"
    "dev_drv t = dev_drv s" "dev_eps t = dev_eps s" "dev_config t = dev_config s"
    "USBDeviceState s \<noteq> ADR_PENDING_STATE \<longrightarrow> USBDeviceState t = USBDeviceState s"
proof -
  let ?u = "ep0_in_done (ep0_in_state s)"
  let ?v = "in_upd (EP0In ?u) (\<lambda>e. e\<lparr>bdt_ADR := Buf_CtrlTrfData\<rparr>) ?u"
  let ?w = "USBCtrlTrfTxService ?v"
  let ?t = "USBCtrlTrfInHandler (ep0_in_state s)"
  have a: "ep0_status_armed s" and e: "bdt_UOWN (ep0_IN s (sie_IN s))" "\<not> bdt_BSTALL (ep0_IN s (sie_IN s))"
      "bdt_DTS (ep0_IN s (sie_IN s)) = tgl" "bdt_ADR (ep0_IN s (sie_IN s)) = Buf_CtrlTrfData"
      "take (unat (bdt_CNT (ep0_IN s (sie_IN s)))) (CtrlTrfData s) = take 64 D"
    and p: "map (ip_pSrc (inPipe s)) [0..<unat (ip_wCount (inPipe s))] = drop 64 D"
    and sh: "shortPacketStatus s = (if length D < 64 then SHORT_PKT_PENDING else SHORT_PKT_NOT_USED)"
    using assms by (simp_all add: ep0_sending_def Let_def)
  have i: "ep0_inv s" using a by (simp add: ep0_status_armed_def)
  have i2: "EP0In s = sie_IN s" using i by (simp add: ep0_inv_def ep0_sized_def)
  note F = in_done_frame[OF i]
  have tx: "controlTransferState ?u = CTRL_TRF_TX" using a F by (simp add: ep0_status_armed_def)
  have l: "bdt_DTS (ep0_IN (ep0_in_state s) (EP0In (ep0_in_state s))) = tgl"
    using e(3) i2 by (simp add: ep0_in_state_def in_upd_def)
  have t: "?t = in_upd (EP0In ?w) (if shortPacketStatus ?w = SHORT_PKT_SENT then ep0_give False False True else ep0_give (\<not> tgl) True False) ?w"
    unfolding in_handler_eq Let_def l using tx by simp
  have aw: "ep0_status_armed ?w" using a by (intro armed_tx_service) (simp add: armed_in_done)
  have fr: "dev_drv ?t = dev_drv s" "dev_eps ?t = dev_eps s" "dev_config ?t = dev_config s" "USBDeviceState ?t = USBDeviceState ?u"
    unfolding t using F by (simp_all add: in_upd_def tx_service_frame)
  have snd: "ep0_sending (drop 64 D) (\<not> tgl) ?t" if D: "64 \<le> length D"
  proof -
    have v: "length (CtrlTrfData ?v) = 64" "shortPacketStatus ?v = SHORT_PKT_NOT_USED" "inPipe ?v = inPipe s" "EP0In ?v = EP0In ?w"
      using i sh D F by (simp_all add: in_upd_def ep0_inv_def ep0_sized_def tx_service_frame)
    note T = tx_service_packet[OF v(1,2), unfolded v(3) p]
    have adr: "bdt_ADR (ep0_IN ?w (EP0In ?w)) = Buf_CtrlTrfData"
      by (simp add: USBCtrlTrfTxService_def Let_def in_upd_def)
    have ns: "shortPacketStatus ?w \<noteq> SHORT_PKT_SENT" using T(4) by (simp split: if_splits)
    show ?thesis unfolding t using ns sending_give[OF aw T(1) T(2)[unfolded v(4)] T(3,4) adr] by simp
  qed
  show ?thesis
  proof (rule that)
    show "host_IN ev s = Some (?t, Host_DATA tgl (take 64 D))" using in_token_armed[OF i e(1,2,4)] e(3,5) by simp
    show "ep0_status_armed ?t" unfolding t using aw by simp
    show "USBDeviceState s \<noteq> ADR_PENDING_STATE \<longrightarrow> USBDeviceState ?t = USBDeviceState s" using fr(4) F(9) by simp
  qed (use snd fr in simp_all)
qed

lemma ep0_read_data:
  assumes "ep0_sending D tgl s" and "length D \<le> n"
  obtains t where "host_read_data ev tgl n s = Some (t, D)" "ep0_status_armed t"
    "dev_drv t = dev_drv s" "dev_eps t = dev_eps s" "dev_config t = dev_config s"
    "USBDeviceState s \<noteq> ADR_PENDING_STATE \<longrightarrow> USBDeviceState t = USBDeviceState s"
proof -
  have "\<exists>t. host_read_data ev tgl n s = Some (t, D) \<and> ep0_status_armed t \<and> dev_drv t = dev_drv s \<and> dev_eps t = dev_eps s \<and>
      dev_config t = dev_config s \<and> (USBDeviceState s \<noteq> ADR_PENDING_STATE \<longrightarrow> USBDeviceState t = USBDeviceState s)"
    using assms
  proof (induction n arbitrary: D tgl s rule: less_induct)
    case (less n)
    show ?case
    proof (cases "n = 0")
      case True
      then have "host_read_data ev tgl n s = Some (s, D)" using less.prems(2) by (simp add: host_read_data.simps[of ev tgl 0])
      then show ?thesis using less.prems(1) by (simp add: ep0_sending_def)
    next
      case False
      obtain t where t: "host_IN ev s = Some (t, Host_DATA tgl (take 64 D))" "ep0_status_armed t"
        "64 \<le> length D \<longrightarrow> ep0_sending (drop 64 D) (\<not> tgl) t"
        "dev_drv t = dev_drv s" "dev_eps t = dev_eps s" "dev_config t = dev_config s"
        "USBDeviceState s \<noteq> ADR_PENDING_STATE \<longrightarrow> USBDeviceState t = USBDeviceState s"
        using sending_IN[OF less.prems(1), where ev = ev] .
      show ?thesis
      proof (cases "64 \<le> length D")
        case True
        then have "n - 64 < n" "length (drop 64 D) \<le> n - 64" using less.prems(2) False by simp_all
        from less.IH[OF this(1) t(3)[rule_format, OF True] this(2)] obtain u where u: "host_read_data ev (\<not> tgl) (n - 64) t = Some (u, drop 64 D)"
          "ep0_status_armed u" "dev_drv u = dev_drv t" "dev_eps u = dev_eps t" "dev_config u = dev_config t"
          "USBDeviceState t \<noteq> ADR_PENDING_STATE \<longrightarrow> USBDeviceState u = USBDeviceState t" by blast
        have "host_read_data ev tgl n s = Some (u, D)"
          using True False less.prems(2) u(1) t(1) by (simp add: host_read_data.simps[of ev tgl n])
        then show ?thesis using u t by auto
      next
        case short: False
        then have "host_read_data ev tgl n s = Some (t, D)"
          using False less.prems(2) t(1) by (simp add: host_read_data.simps[of ev tgl n])
        then show ?thesis using t by auto
      qed
    qed
  qed
  then show ?thesis using that by blast
qed

subsection \<open>The setup stage\<close>

lemma wf_same:
  assumes "ep0_inv s" and "length bs = 8" and "USBCheckStdRequest ev (ep0_abandon (ep0_setup_state bs s)) = Some v"
    and "ep0_class_request ev v = Some w" and "\<not> (st_RequestType (setup_of_bytes bs) = 0 \<and> st_bRequest (setup_of_bytes bs) = 9)"
  shows "ep0_fresh w" "SetupPkt w = bs" "sie_OUT w = (\<not> sie_OUT s)"
proof -
  let ?u = "ep0_abandon (ep0_setup_state bs s)"
  note S = setup_state_ok[OF assms(1,2)]
  have f: "ep0_fresh ?u" using abandon_fresh[OF S(1,2)] .
  have "ep0_same ?u v" using same_std[OF assms(3)] assms(5) S(3) f by (simp add: ep0_fresh_def ep0_sized_def)
  then have m: "ep0_same ?u w" using same_class[OF assms(4)] ep0_same_trans by blast
  show "ep0_fresh w" using same_fresh[OF m f] .
  show "SetupPkt w = bs" using m S(3) by (simp add: ep0_same_def)
  have "sie_OUT ?u = (\<not> sie_OUT s)" by (simp add: ep0_setup_state_def Let_def out_upd_def)
  then show "sie_OUT w = (\<not> sie_OUT s)" using m by (simp add: ep0_same_def)
qed

lemma allow_data_tx:
  fixes s :: "('b, 'd) usb_dev"
  defines "D \<equiv> take (unat (st_wLength (setup_of_bytes (SetupPkt s)))) (map (ip_pSrc (inPipe s)) [0..<unat (ip_wCount (inPipe s))])"
    and "t \<equiv> USBCtrlEPAllowDataStage s"
  assumes "ep0_sized s" and "shortPacketStatus s = SHORT_PKT_NOT_USED" and "controlTransferState s = CTRL_TRF_TX"
  shows "take (min 64 (length D)) (CtrlTrfData t) = take 64 D" "unat (bdt_CNT (ep0_IN t (EP0In s))) = min 64 (length D)"
    "map (ip_pSrc (inPipe t)) [0..<unat (ip_wCount (inPipe t))] = drop 64 D"
    "shortPacketStatus t = (if length D < 64 then SHORT_PKT_PENDING else SHORT_PKT_NOT_USED)"
    "bdt_ADR (ep0_IN t (EP0In s)) = Buf_CtrlTrfData" "bdt_UOWN (ep0_IN t (EP0In s))" "\<not> bdt_BSTALL (ep0_IN t (EP0In s))"
    "bdt_DTS (ep0_IN t (EP0In s))" "EP0In t = EP0In s" "dev_drv t = dev_drv s" "dev_eps t = dev_eps s" "dev_config t = dev_config s"
    "USBDeviceState t = USBDeviceState s"
proof -
  let ?wL = "st_wLength (setup_of_bytes (SetupPkt s))" and ?p = "inPipe s"
  let ?s0 = "s\<lparr>USBDeferINDataStagePackets := False, USBDeferOUTDataStagePackets := False\<rparr>"
  define s1 where "s1 = (if ?wL < ip_wCount ?p then ?s0\<lparr>inPipe := ?p\<lparr>ip_wCount := ?wL\<rparr>\<rparr> else ?s0)"
  have t: "t = in_upd (EP0In s) (\<lambda>e. ep0_give True True False (e\<lparr>bdt_ADR := Buf_CtrlTrfData\<rparr>)) (USBCtrlTrfTxService s1)"
    unfolding t_def USBCtrlEPAllowDataStage_def Let_def s1_def using assms(5) by (simp add: tx_service_frame)
  have c: "unat (ip_wCount (inPipe s1)) = min (unat ?wL) (unat (ip_wCount ?p))"
    by (simp add: s1_def word_less_nat_alt min_def)
  have src: "ip_pSrc (inPipe s1) = ip_pSrc ?p" by (simp add: s1_def)
  have D: "map (ip_pSrc (inPipe s1)) [0..<unat (ip_wCount (inPipe s1))] = D"
    unfolding D_def c src by (simp add: take_map min.commute) (simp add: min_def)
  have z: "length (CtrlTrfData s1) = 64" "shortPacketStatus s1 = SHORT_PKT_NOT_USED" "EP0In s1 = EP0In s"
    using assms(3,4) by (simp_all add: s1_def ep0_sized_def)
  note T = tx_service_packet[OF z(1,2), unfolded D z(3)]
  show "take (min 64 (length D)) (CtrlTrfData t) = take 64 D" "unat (bdt_CNT (ep0_IN t (EP0In s))) = min 64 (length D)"
    "map (ip_pSrc (inPipe t)) [0..<unat (ip_wCount (inPipe t))] = drop 64 D"
    "shortPacketStatus t = (if length D < 64 then SHORT_PKT_PENDING else SHORT_PKT_NOT_USED)"
    unfolding t using T by (simp_all add: in_upd_def ep0_give_def)
  show "bdt_ADR (ep0_IN t (EP0In s)) = Buf_CtrlTrfData" "bdt_UOWN (ep0_IN t (EP0In s))" "\<not> bdt_BSTALL (ep0_IN t (EP0In s))"
    "bdt_DTS (ep0_IN t (EP0In s))" unfolding t by (simp_all add: in_upd_def ep0_give_def)
  show "EP0In t = EP0In s" "dev_drv t = dev_drv s" "dev_eps t = dev_eps s" "dev_config t = dev_config s" "USBDeviceState t = USBDeviceState s"
    unfolding t by (simp_all add: in_upd_def tx_service_frame s1_def)
qed

lemma complete_sending:
  fixes s :: "('b, 'd) usb_dev"
  defines "D \<equiv> take (unat (st_wLength (setup_of_bytes (SetupPkt s)))) (map (ip_pSrc (inPipe s)) [0..<unat (ip_wCount (inPipe s))])"
    and "t \<equiv> USBCtrlEPServiceComplete s"
  assumes "ep0_fresh s" and "ip_busy (inPipe s)" and "st_DataDir (setup_of_bytes (SetupPkt s))"
  shows "ep0_sending D True t" "dev_drv t = dev_drv s" "dev_eps t = dev_eps s" "dev_config t = dev_config s" "USBDeviceState t = USBDeviceState s"
proof -
  let ?tx = "s\<lparr>PKTDIS := False, controlTransferState := CTRL_TRF_TX\<rparr>"
  define a where "a = USBCtrlEPAllowDataStage ?tx"
  have z: "ep0_sized ?tx" "shortPacketStatus ?tx = SHORT_PKT_NOT_USED" "controlTransferState ?tx = CTRL_TRF_TX"
    using assms(3) by (simp_all add: ep0_fresh_def ep0_sized_def)
  note A = allow_data_tx[OF z, folded a_def, simplified]
  note T = data_stage_frame[OF z(1), folded a_def, simplified]
  have d: "\<not> USBDeferINDataStagePackets s" "\<not> USBDeferStatusStagePacket a"
    using z(1) T(1) by (simp_all add: ep0_sized_def)
  have t: "t = USBCtrlEPAllowStatusStage (a\<lparr>USBStatusStageEnabledFlag2 := False, USBStatusStageEnabledFlag1 := False\<rparr>)"
    unfolding t_def using assms(4,5) d by (simp add: USBCtrlEPServiceComplete_def Let_def a_def)
  have i: "ep0_inv t" unfolding t_def using complete_ok fresh_serviced assms(3) by blast
  have n: "EP0OutNext a = sie_OUT a" "EP0OutCurrent a = (\<not> sie_OUT a)" "EP0In s = sie_IN s" "EP0In a = EP0In s"
    using assms(3) T A by (simp_all add: ep0_fresh_def ep0_next_def ep0_sized_def)
  have sie: "sie_IN a = EP0In s" using T(1) n by (simp add: ep0_sized_def)
  have f: "ep0_IN t = ep0_IN a" "sie_IN t = sie_IN a" "CtrlTrfData t = CtrlTrfData a" "inPipe t = inPipe a"
    "shortPacketStatus t = shortPacketStatus a" "dev_drv t = dev_drv a" "dev_eps t = dev_eps a" "dev_config t = dev_config a"
    "USBDeviceState t = USBDeviceState a" "controlTransferState t = CTRL_TRF_TX" "BothEP0OutUOWNsSet t" "sie_OUT t = sie_OUT a"
    "\<not> bdt_BSTALL (ep0_OUT t (sie_OUT a))" "\<not> bdt_DTSEN (ep0_OUT t (sie_OUT a))"
    unfolding t USBCtrlEPAllowStatusStage_def Let_def using T n by (simp_all add: out_upd_def ep0_give_def)
  have "ep0_status_armed t" using i f by (simp add: ep0_status_armed_def)
  then show "ep0_sending D True t"
    unfolding ep0_sending_def Let_def f sie D_def using A by (simp add: n)
  show "dev_drv t = dev_drv s" "dev_eps t = dev_eps s" "dev_config t = dev_config s" "USBDeviceState t = USBDeviceState s"
    using f A by simp_all
qed

text \<open>A whole read: what the host gets of the bytes the handlers have claimed.\<close>

lemma control_read:
  assumes "ep0_inv s" and "length bs = 8" and "st_DataDir (setup_of_bytes bs)" and "\<not> ep0_ill_formed bs"
    and "USBCheckStdRequest ev (ep0_abandon (ep0_setup_state bs s)) = Some v"
    and "ep0_class_request ev v = Some w" and "ip_busy (inPipe w)"
  obtains t where "host_control_read ev bs s = Some (t, take (unat (st_wLength (setup_of_bytes bs)))
       (map (ip_pSrc (inPipe w)) [0..<unat (ip_wCount (inPipe w))]))"
    "ep0_inv t" "controlTransferState t = WAIT_SETUP"
    "dev_drv t = dev_drv w" "dev_eps t = dev_eps w"
    "dev_config t = dev_config w"
    "USBDeviceState w \<noteq> ADR_PENDING_STATE \<Longrightarrow> USBDeviceState t = USBDeviceState w"
proof -
  let ?t = "USBCtrlEPServiceComplete w"
  let ?D = "take (unat (st_wLength (setup_of_bytes bs))) (map (ip_pSrc (inPipe w)) [0..<unat (ip_wCount (inPipe w))])"
  have n: "\<not> (st_RequestType (setup_of_bytes bs) = 0 \<and> st_bRequest (setup_of_bytes bs) = 9)"
    using assms(3,4) by (simp add: ep0_ill_formed_def Let_def)
  note W = wf_same[OF assms(1,2,5,6) n]
  have d: "st_DataDir (setup_of_bytes (SetupPkt w))" using W(2) assms(3) by simp
  note C = complete_sending[OF W(1) assms(7) d, unfolded W(2)]
  have su: "host_SETUP ev bs s = Some (?t, Host_ACK)"
    using assms(5,6) unfolding setup_token[OF assms(1,2)] USBCtrlTrfSetupHandler_def by simp
  obtain u where u: "host_read_data ev True (unat (st_wLength (setup_of_bytes bs))) ?t = Some (u, ?D)" "ep0_status_armed u"
    "dev_drv u = dev_drv ?t" "dev_eps u = dev_eps ?t" "dev_config u = dev_config ?t"
    "USBDeviceState ?t \<noteq> ADR_PENDING_STATE \<longrightarrow> USBDeviceState u = USBDeviceState ?t"
    by (rule ep0_read_data[OF C(1), of "unat (st_wLength (setup_of_bytes bs))" ev]) auto
  obtain t where t: "host_OUT ev True [] u = Some (t, Host_ACK)" "ep0_inv t" "controlTransferState t = WAIT_SETUP"
    "dev_drv t = dev_drv u" "dev_eps t = dev_eps u" "USBDeviceState t = USBDeviceState u" "dev_config t = dev_config u"
    using read_status[OF u(2), where ev = ev and tgl = True] .
  show ?thesis
  proof (rule that)
    show "host_control_read ev bs s = Some (t, ?D)" using su u t by (simp add: host_control_read_def)
  qed (use t u C in auto)
qed

subsection \<open>A whole write\<close>

text \<open>The status stage of a write, or of a request without data, is armed.\<close>

definition ep0_in_status :: "('b, 'd) usb_dev \<Rightarrow> bool" where
  "ep0_in_status s \<longleftrightarrow> ep0_inv s \<and> controlTransferState s = CTRL_TRF_RX \<and> \<not> op_busy (outPipe s) \<and>
     (let e = ep0_IN s (sie_IN s) in bdt_UOWN e \<and> \<not> bdt_BSTALL e \<and> bdt_DTS e \<and> bdt_CNT e = 0)"

lemma write_status:
  assumes "ep0_in_status s"
  shows "host_IN ev s = Some ((ep0_in_done (ep0_in_state s))\<lparr>controlTransferState := WAIT_SETUP\<rparr>, Host_DATA True [])"
proof -
  have i: "ep0_inv s" using assms by (simp add: ep0_in_status_def)
  note F = in_done_frame[OF i]
  have "USBCtrlTrfInHandler (ep0_in_state s) = (ep0_in_done (ep0_in_state s))\<lparr>controlTransferState := WAIT_SETUP\<rparr>"
    unfolding in_handler_eq Let_def using F assms by (simp add: ep0_in_status_def)
  then show ?thesis using assms i
    by (simp add: host_IN_def USBCtrlEPService_def ep0_in_state_def ep0_in_status_def ep0_inv_def Let_def in_upd_def)
qed

text \<open>Arming the IN side for the status stage.\<close>

lemma allow_status_in:
  fixes s :: "('b, 'd) usb_dev"
  defines "t \<equiv> USBCtrlEPAllowStatusStage s"
  assumes "ep0_inv t" and "controlTransferState s = CTRL_TRF_RX" and "\<not> op_busy (outPipe s)"
    and "\<not> USBStatusStageEnabledFlag1 s" and "\<not> USBStatusStageEnabledFlag2 s"
  shows "ep0_in_status t" "dev_drv t = dev_drv s" "dev_eps t = dev_eps s" "dev_config t = dev_config s" "USBDeviceState t = USBDeviceState s"
    "SetupPkt t = SetupPkt s" "U1ADDR t = U1ADDR s" "USBActiveConfiguration t = USBActiveConfiguration s"
proof -
  have t: "t = in_upd (EP0In s) (\<lambda>e. ep0_give True True False (e\<lparr>bdt_CNT := 0\<rparr>))
      (s\<lparr>USBStatusStageEnabledFlag1 := True, USBStatusStageEnabledFlag2 := True\<rparr>)"
    unfolding t_def USBCtrlEPAllowStatusStage_def Let_def using assms(3-6) by simp
  have "EP0In t = sie_IN t" using assms(2) by (simp add: ep0_inv_def ep0_sized_def)
  then have "EP0In s = sie_IN s" by (simp add: t in_upd_def)
  then show "ep0_in_status t" using assms(2-4) by (simp add: ep0_in_status_def Let_def) (simp add: t in_upd_def ep0_give_def)
  show "dev_drv t = dev_drv s" "dev_eps t = dev_eps s" "dev_config t = dev_config s" "USBDeviceState t = USBDeviceState s"
    "SetupPkt t = SetupPkt s" "U1ADDR t = U1ADDR s" "USBActiveConfiguration t = USBActiveConfiguration s"
    by (simp_all add: t in_upd_def)
qed

text \<open>\<open>n\<close> more bytes are expected; the next packet has the toggle \<open>tgl\<close>.\<close>

definition ep0_receiving :: "nat \<Rightarrow> bool \<Rightarrow> ('b, 'd) usb_dev \<Rightarrow> bool" where
  "ep0_receiving n tgl s \<longleftrightarrow> ep0_inv s \<and> controlTransferState s = CTRL_TRF_RX \<and>
     unat (op_wCount (outPipe s)) = n \<and> \<not> USBStatusStageEnabledFlag1 s \<and> \<not> USBStatusStageEnabledFlag2 s \<and>
     (let e = ep0_OUT s (sie_OUT s) in \<not> bdt_BSTALL e \<and> bdt_DTSEN e \<and> bdt_DTS e = tgl \<and> bdt_ADR e = Buf_CtrlTrfData)"

definition store_bytes :: "(nat \<Rightarrow> u8 \<Rightarrow> 'd \<Rightarrow> 'd) \<Rightarrow> nat \<Rightarrow> u8 list \<Rightarrow> 'd \<Rightarrow> 'd" where
  "store_bytes put pos bs d = fold (\<lambda>i. put (pos + i) (bs ! i)) [0..<length bs] d"

lemma store_bytes_append: "store_bytes put pos (xs @ ys) d = store_bytes put (pos + length xs) ys (store_bytes put pos xs d)"
proof -
  have a: "fold (\<lambda>i. put (pos + i) ((xs @ ys) ! i)) [0..<length xs] d = fold (\<lambda>i. put (pos + i) (xs ! i)) [0..<length xs] d" for d
    by (rule fold_cong) (auto simp: nth_append)
  have "[0..<length (xs @ ys)] = [0..<length xs] @ map (\<lambda>i. i + length xs) [0..<length ys]"
    by (simp add: map_add_upt upt_add_eq_append[of 0 "length xs" "length ys", simplified] add.commute)
  then have "store_bytes put pos (xs @ ys) d =
      fold (\<lambda>i. put (pos + (i + length xs)) ((xs @ ys) ! (i + length xs))) [0..<length ys] (store_bytes put pos xs d)"
    unfolding store_bytes_def by (simp only: fold_append o_apply a fold_map comp_def)
  also have "\<dots> = store_bytes put (pos + length xs) ys (store_bytes put pos xs d)"
    unfolding store_bytes_def by (rule fold_cong) (auto simp: nth_append ac_simps)
  finally show ?thesis .
qed

lemma store_bytes_take:
  assumes "n = length bs" and "\<And>i. i < n \<Longrightarrow> xs ! i = bs ! i"
  shows "fold (\<lambda>i d. put (pos + i) (xs ! i) d) [0..<n] d = store_bytes put pos bs d"
  unfolding store_bytes_def using assms by (intro fold_cong) auto

text \<open>The accepted packet is in \<open>CtrlTrfData\<close>.\<close>

lemma out_token_armed:
  assumes "ep0_receiving n tgl s" and "length bs \<le> 64"
  shows "host_OUT ev tgl bs s = Some (USBCtrlTrfRxService (ep0_out_state tgl bs s), Host_ACK)"
  using assms
  by (simp add: host_OUT_def USBCtrlEPService_def USBCtrlTrfOutHandler_def ep0_out_state_def ep0_receiving_def ep0_inv_def Let_def out_upd_def)

lemma out_state_frame:
  fixes s :: "('b, 'd) usb_dev" and tgl :: bool and bs :: "u8 list"
  defines "t \<equiv> ep0_out_state tgl bs s"
  assumes "bdt_ADR (ep0_OUT s (sie_OUT s)) = Buf_CtrlTrfData"
  shows "outPipe t = outPipe s" "dev_drv t = dev_drv s" "dev_eps t = dev_eps s" "dev_config t = dev_config s"
    "USBDeviceState t = USBDeviceState s" "CtrlTrfData t = bs @ drop (length bs) (CtrlTrfData s)" "SetupPkt t = SetupPkt s"
    "USBStatusStageEnabledFlag1 t = USBStatusStageEnabledFlag1 s" "USBStatusStageEnabledFlag2 t = USBStatusStageEnabledFlag2 s"
    "EP0OutCurrent t = sie_OUT s" "EP0OutNext t = (\<not> sie_OUT s)" "sie_OUT t = (\<not> sie_OUT s)" "U1ADDR t = U1ADDR s"
    "bdt_CNT (ep0_OUT t (sie_OUT s)) = of_nat (length bs)" "bdt_DTS (ep0_OUT t (sie_OUT s)) = tgl"
  using assms(2) by (simp_all add: t_def ep0_out_state_def Let_def out_upd_def)

lemma receiving_OUT:
  fixes s :: "('b, 'd) usb_dev"
  assumes "ep0_receiving n tgl s" and "length bs \<le> 64" and "length bs \<le> n"
  defines "p \<equiv> outPipe s"
  obtains t where "host_OUT ev tgl bs s = Some (t, Host_ACK)" "dev_eps t = dev_eps s" "dev_config t = dev_config s"
    "USBDeviceState t = USBDeviceState s"
    "if length bs < n
     then ep0_receiving (n - length bs) (\<not> tgl) t \<and> dev_drv t = store_bytes (op_pDst p) (op_pos p) bs (dev_drv s) \<and>
          op_pos (outPipe t) = op_pos p + length bs \<and> op_pDst (outPipe t) = op_pDst p \<and> op_pFunc (outPipe t) = op_pFunc p
     else ep0_in_status t \<and>
          dev_drv t = (case op_pFunc p of None \<Rightarrow> id | Some f \<Rightarrow> f) (store_bytes (op_pDst p) (op_pos p) bs (dev_drv s))"
proof -
  let ?s = "ep0_out_state tgl bs s" and ?k = "length bs" and ?d = "store_bytes (op_pDst p) (op_pos p) bs (dev_drv s)"
  let ?t = "USBCtrlTrfRxService (ep0_out_state tgl bs s)"
  have r: "ep0_inv s" "controlTransferState s = CTRL_TRF_RX" "unat (op_wCount p) = n" "\<not> USBStatusStageEnabledFlag1 s"
      "\<not> USBStatusStageEnabledFlag2 s" "bdt_ADR (ep0_OUT s (sie_OUT s)) = Buf_CtrlTrfData"
    using assms by (simp_all add: ep0_receiving_def Let_def)
  note O = out_state_ok[OF r(1), of bs tgl, unfolded r(6), simplified, OF assms(2)]
  note F = out_state_frame[OF r(6), of tgl bs]
  have i: "ep0_inv ?t"
    using rx_service_inv[OF O(1,2)] O r by (simp add: ep0_inv_def)
  have k8: "unat (of_nat ?k :: u8) = ?k" using assms(2) by (simp add: unsigned_of_nat take_bit_nat_eq_self)
  have k16: "unat (ucast (of_nat ?k :: u8) :: u16) = ?k" using k8 assms(2) by (simp add: unsigned_ucast_eq take_bit_nat_eq_self unsigned_take_bit_eq unsigned_of_nat)
  have le: "\<not> ucast (of_nat ?k :: u8) > op_wCount p" using k16 r(3) assms(3) by (simp add: word_less_nat_alt)
  have w: "unat (op_wCount p - ucast (of_nat ?k :: u8)) = n - ?k" using k16 r(3) assms(3) by (simp add: unat_sub word_le_nat_alt)
  have pos: "op_wCount p - ucast (of_nat ?k :: u8) > 0 \<longleftrightarrow> ?k < n" using w by (simp add: word_less_nat_alt)
  have d: "fold (\<lambda>i d. op_pDst p (op_pos p + i) (CtrlTrfData ?s ! i) d) [0..<?k] (dev_drv s) = ?d"
    by (rule store_bytes_take) (simp_all add: F nth_append)
  define u where "u = ?s\<lparr>outPipe := p\<lparr>op_wCount := op_wCount p - ucast (of_nat ?k :: u8), op_pos := op_pos p + ?k\<rparr>, dev_drv := ?d\<rparr>"
  have df: "\<not> USBDeferStatusStagePacket ?s" using O(1) by (simp add: ep0_sized_def)
  define v where "v = out_upd (\<not> sie_OUT s) (\<lambda>e. ep0_give False False True (ep0_buffer Buf_SetupPkt e)) u"
  define w' where "w' = (ep0_callback v)\<lparr>outPipe := (outPipe (ep0_callback v))\<lparr>op_busy := False\<rparr>\<rparr>"
  have cb: "USBDeferStatusStagePacket w' = USBDeferStatusStagePacket ?s"
    by (simp add: w'_def) (simp add: v_def u_def out_upd_def)
  have "?t = (if ?k < n then out_upd (\<not> sie_OUT s) (\<lambda>e. ep0_give (\<not> tgl) True False (ep0_buffer Buf_CtrlTrfData e)) u
                 else if \<not> USBDeferStatusStagePacket w' then USBCtrlEPAllowStatusStage w' else w')"
    unfolding USBCtrlTrfRxService_def Let_def w'_def v_def u_def using le pos d k8 F by (simp add: p_def)
  then have t: "?t = (if ?k < n then out_upd (\<not> sie_OUT s) (\<lambda>e. ep0_give (\<not> tgl) True False (ep0_buffer Buf_CtrlTrfData e)) u
                 else USBCtrlEPAllowStatusStage w')"
    using cb df by simp
  have frame: "dev_eps w' = dev_eps s" "dev_config w' = dev_config s" "USBDeviceState w' = USBDeviceState s"
    "controlTransferState w' = CTRL_TRF_RX" "\<not> op_busy (outPipe w')" "\<not> USBStatusStageEnabledFlag1 w'" "\<not> USBStatusStageEnabledFlag2 w'"
    "dev_drv w' = (case op_pFunc p of None \<Rightarrow> id | Some f \<Rightarrow> f) ?d"
    unfolding w'_def ep0_callback_def v_def u_def using F O r by (auto simp: out_upd_def split: option.split)
  show ?thesis
  proof (cases "?k < n")
    case True
    then have t': "?t = out_upd (\<not> sie_OUT s) (\<lambda>e. ep0_give (\<not> tgl) True False (ep0_buffer Buf_CtrlTrfData e)) u" using t by simp
    have "ep0_receiving (n - ?k) (\<not> tgl) ?t"
      unfolding ep0_receiving_def using i unfolding t' u_def using F O r w
      by (simp add: out_upd_def ep0_give_def ep0_buffer_def)
    moreover have "dev_eps ?t = dev_eps s" "dev_config ?t = dev_config s" "USBDeviceState ?t = USBDeviceState s" "dev_drv ?t = ?d"
      "op_pos (outPipe ?t) = op_pos p + ?k" "op_pDst (outPipe ?t) = op_pDst p" "op_pFunc (outPipe ?t) = op_pFunc p"
      unfolding t' u_def using F by (simp_all add: out_upd_def)
    ultimately show ?thesis using that[OF out_token_armed[OF assms(1,2)]] True by simp
  next
    case False
    then have t': "?t = USBCtrlEPAllowStatusStage w'" using t by simp
    note A = allow_status_in[OF i[unfolded t'] frame(4-7), folded t']
    show ?thesis using that[OF out_token_armed[OF assms(1,2)]] A frame False by simp
  qed
qed

lemma ep0_write_data:
  assumes "ep0_receiving (length D) tgl s" and "D \<noteq> []"
  obtains t where "host_write_data ev tgl D s = Some t" "ep0_in_status t" "dev_eps t = dev_eps s" "dev_config t = dev_config s"
    "USBDeviceState t = USBDeviceState s"
    "dev_drv t = (case op_pFunc (outPipe s) of None \<Rightarrow> id | Some f \<Rightarrow> f)
       (store_bytes (op_pDst (outPipe s)) (op_pos (outPipe s)) D (dev_drv s))"
proof -
  have "\<exists>t. host_write_data ev tgl D s = Some t \<and> ep0_in_status t \<and> dev_eps t = dev_eps s \<and> dev_config t = dev_config s \<and>
      USBDeviceState t = USBDeviceState s \<and> dev_drv t = (case op_pFunc (outPipe s) of None \<Rightarrow> id | Some f \<Rightarrow> f)
       (store_bytes (op_pDst (outPipe s)) (op_pos (outPipe s)) D (dev_drv s))"
    using assms
  proof (induction D arbitrary: tgl s rule: length_induct)
    case (1 D)
    let ?bs = "take 64 D" and ?p = "outPipe s"
    have l: "length ?bs \<le> 64" "length ?bs \<le> length D" by simp_all
    obtain t where t: "host_OUT ev tgl ?bs s = Some (t, Host_ACK)" "dev_eps t = dev_eps s" "dev_config t = dev_config s"
      "USBDeviceState t = USBDeviceState s"
      "if length ?bs < length D
       then ep0_receiving (length D - length ?bs) (\<not> tgl) t \<and> dev_drv t = store_bytes (op_pDst ?p) (op_pos ?p) ?bs (dev_drv s) \<and>
            op_pos (outPipe t) = op_pos ?p + length ?bs \<and> op_pDst (outPipe t) = op_pDst ?p \<and> op_pFunc (outPipe t) = op_pFunc ?p
       else ep0_in_status t \<and>
            dev_drv t = (case op_pFunc ?p of None \<Rightarrow> id | Some f \<Rightarrow> f) (store_bytes (op_pDst ?p) (op_pos ?p) ?bs (dev_drv s))"
      using receiving_OUT[OF 1(2) l, where ev = ev] .
    show ?case
    proof (cases "64 < length D")
      case True
      then have r: "ep0_receiving (length (drop 64 D)) (\<not> tgl) t" "drop 64 D \<noteq> []" "length (drop 64 D) < length D"
        and e: "dev_drv t = store_bytes (op_pDst ?p) (op_pos ?p) ?bs (dev_drv s)" "op_pos (outPipe t) = op_pos ?p + length ?bs"
          "op_pDst (outPipe t) = op_pDst ?p" "op_pFunc (outPipe t) = op_pFunc ?p"
        using t(5) by simp_all
      obtain u where u: "host_write_data ev (\<not> tgl) (drop 64 D) t = Some u" "ep0_in_status u" "dev_eps u = dev_eps t"
        "dev_config u = dev_config t" "USBDeviceState u = USBDeviceState t"
        "dev_drv u = (case op_pFunc (outPipe t) of None \<Rightarrow> id | Some f \<Rightarrow> f)
           (store_bytes (op_pDst (outPipe t)) (op_pos (outPipe t)) (drop 64 D) (dev_drv t))"
        using 1(1) r by blast
      have "host_write_data ev tgl D s = Some u" using u(1) t(1) 1(3) by (simp add: host_write_data.simps[of ev tgl D])
      moreover have "dev_drv u = (case op_pFunc ?p of None \<Rightarrow> id | Some f \<Rightarrow> f) (store_bytes (op_pDst ?p) (op_pos ?p) D (dev_drv s))"
        using u(6) e store_bytes_append[of "op_pDst ?p" "op_pos ?p" ?bs "drop 64 D" "dev_drv s"] by simp
      ultimately show ?thesis using u t by auto
    next
      case False
      then have "?bs = D" "drop 64 D = []" by simp_all
      then have "host_write_data ev tgl D s = Some t"
        using t(1) 1(3) by (simp add: host_write_data.simps[of ev tgl D] host_write_data.simps[of ev "\<not> tgl" "[]"])
      then show ?thesis using t \<open>?bs = D\<close> by auto
    qed
  qed
  then show ?thesis using that by blast
qed

lemma complete_receiving:
  fixes s :: "('b, 'd) usb_dev"
  defines "t \<equiv> USBCtrlEPServiceComplete s"
  assumes "ep0_fresh s" and "\<not> ip_busy (inPipe s)" and "op_busy (outPipe s)"
  shows "ep0_receiving (unat (op_wCount (outPipe s))) True t" "outPipe t = outPipe s" "dev_drv t = dev_drv s" "dev_eps t = dev_eps s"
    "dev_config t = dev_config s" "USBDeviceState t = USBDeviceState s"
proof -
  have d: "\<not> USBDeferOUTDataStagePackets s" and n: "EP0OutNext s = sie_OUT s"
    using assms(2) by (simp_all add: ep0_fresh_def ep0_sized_def ep0_next_def)
  have i: "ep0_inv t" unfolding t_def using complete_ok fresh_serviced assms(2) by blast
  show "ep0_receiving (unat (op_wCount (outPipe s))) True t"
    unfolding ep0_receiving_def using i unfolding t_def USBCtrlEPServiceComplete_def USBCtrlEPAllowDataStage_def Let_def
    using assms(3,4) d n by (simp add: out_upd_def ep0_give_def ep0_buffer_def)
  show "outPipe t = outPipe s" "dev_drv t = dev_drv s" "dev_eps t = dev_eps s" "dev_config t = dev_config s" "USBDeviceState t = USBDeviceState s"
    unfolding t_def USBCtrlEPServiceComplete_def USBCtrlEPAllowDataStage_def Let_def using assms(3,4) d by (simp_all add: out_upd_def)
qed

lemma complete_in_status:
  fixes s :: "('b, 'd) usb_dev"
  defines "t \<equiv> USBCtrlEPServiceComplete s"
  assumes "ep0_serviced s" and "ip_busy (inPipe s)" and "\<not> st_DataDir (setup_of_bytes (SetupPkt s))" and "\<not> op_busy (outPipe s)"
  shows "ep0_in_status t" "dev_drv t = dev_drv s" "dev_eps t = dev_eps s" "dev_config t = dev_config s" "USBDeviceState t = USBDeviceState s"
    "SetupPkt t = SetupPkt s" "U1ADDR t = U1ADDR s" "USBActiveConfiguration t = USBActiveConfiguration s"
proof -
  define a where "a = (out_upd (EP0OutNext s) (\<lambda>e. ep0_give False False True (ep0_buffer Buf_SetupPkt e)) (s\<lparr>PKTDIS := False, controlTransferState := CTRL_TRF_RX\<rparr>))
      \<lparr>USBStatusStageEnabledFlag2 := False, USBStatusStageEnabledFlag1 := False\<rparr>"
  have d: "\<not> USBDeferStatusStagePacket s" using assms(2) by (simp add: ep0_serviced_def ep0_sized_def)
  have t: "t = USBCtrlEPAllowStatusStage a"
    unfolding t_def USBCtrlEPServiceComplete_def Let_def a_def using assms(3,4) d by (simp add: out_upd_def)
  have i: "ep0_inv t" unfolding t_def using complete_ok assms(2) by blast
  have "controlTransferState a = CTRL_TRF_RX" "\<not> op_busy (outPipe a)" "\<not> USBStatusStageEnabledFlag1 a" "\<not> USBStatusStageEnabledFlag2 a"
    using assms(5) by (simp_all add: a_def out_upd_def)
  note A = allow_status_in[OF i[unfolded t] this, folded t]
  show "ep0_in_status t" "dev_drv t = dev_drv s" "dev_eps t = dev_eps s" "dev_config t = dev_config s" "USBDeviceState t = USBDeviceState s"
    "SetupPkt t = SetupPkt s" "U1ADDR t = U1ADDR s" "USBActiveConfiguration t = USBActiveConfiguration s"
    using A by (simp_all add: a_def out_upd_def)
qed

text \<open>A request nobody claims is stalled in both directions.\<close>

lemma complete_stall:
  assumes "ep0_fresh s" and "\<not> ip_busy (inPipe s)" and "\<not> op_busy (outPipe s)"
  shows "host_IN ev (USBCtrlEPServiceComplete s) = Some (USBStallHandler ((USBCtrlEPServiceComplete s)\<lparr>EPSTALL := True\<rparr>), Host_STALL)"
    "host_OUT ev tgl D (USBCtrlEPServiceComplete s) = Some (USBStallHandler ((USBCtrlEPServiceComplete s)\<lparr>EPSTALL := True\<rparr>), Host_STALL)"
  using assms
  by (simp_all add: USBCtrlEPServiceComplete_def Let_def ep0_fresh_def ep0_sized_def ep0_next_def host_IN_def host_OUT_def ep0_upd_defs)

lemma setup_complete:
  assumes "ep0_inv s" and "length bs = 8" and "USBCheckStdRequest ev (ep0_abandon (ep0_setup_state bs s)) = Some v"
    and "ep0_class_request ev v = Some w"
  shows "host_SETUP ev bs s = Some (USBCtrlEPServiceComplete w, Host_ACK)"
  using assms(3,4) unfolding setup_token[OF assms(1,2)] USBCtrlTrfSetupHandler_def by simp

lemma setup_frame:
  "dev_drv (ep0_abandon (ep0_setup_state bs s)) = dev_drv s" "dev_eps (ep0_abandon (ep0_setup_state bs s)) = dev_eps s"
  "dev_config (ep0_abandon (ep0_setup_state bs s)) = dev_config s" "USBDeviceState (ep0_abandon (ep0_setup_state bs s)) = USBDeviceState s"
  "U1ADDR (ep0_abandon (ep0_setup_state bs s)) = U1ADDR s"
  "USBAlternateInterface (ep0_abandon (ep0_setup_state bs s)) = USBAlternateInterface s"
  "ep0_inv s \<Longrightarrow> length bs = 8 \<Longrightarrow> SetupPkt (ep0_abandon (ep0_setup_state bs s)) = bs"
  using setup_state_ok(3)[of s bs] by (auto simp: ep0_setup_state_def Let_def out_upd_def)

lemma bytes_at_map: "map (bytes_at D) [0..<length D] = D"
  by (rule nth_equalityI) (simp_all add: bytes_at_def)

text \<open>A class request answered with bytes to send.\<close>

lemma class_read:
  assumes "ep0_inv s" and "length bs = 8" and "st_RequestType (setup_of_bytes bs) \<noteq> 0" and "st_DataDir (setup_of_bytes bs)"
    and "EventCheckRequest ev (setup_of_bytes bs) (dev_drv s, dev_eps s) = Some ((d, u), [Claim_in D])" and "length D < 65536"
  shows "\<exists>t. host_control_read ev bs s = Some (t, take (unat (st_wLength (setup_of_bytes bs))) D) \<and> ep0_inv t \<and>
    controlTransferState t = WAIT_SETUP \<and> dev_drv t = d \<and> dev_eps t = u"
proof -
  let ?v = "ep0_abandon (ep0_setup_state bs s)"
  note F = setup_frame(1-6)[of bs s] setup_frame(7)[OF assms(1,2)]
  have std: "USBCheckStdRequest ev ?v = Some ?v" using assms(3) F(7) by (simp add: USBCheckStdRequest_def Let_def)
  let ?w = "ep0_send (bytes_at D) (of_nat (length D)) (?v\<lparr>dev_drv := d, dev_eps := u\<rparr>)"
  have w: "ep0_class_request ev ?v = Some ?w"
    unfolding ep0_class_request_def F using assms(5) by (simp add: ep0_apply_def)
  have c: "unat (of_nat (length D) :: u16) = length D" using assms(6) by (simp add: unsigned_of_nat take_bit_nat_eq_self)
  have "ip_busy (inPipe ?w)" "map (ip_pSrc (inPipe ?w)) [0..<unat (ip_wCount (inPipe ?w))] = D" "dev_drv ?w = d" "dev_eps ?w = u"
    using c by (simp_all add: ep0_send_def bytes_at_map)
  moreover have "\<not> ep0_ill_formed bs" using assms(3) by (simp add: ep0_ill_formed_def Let_def)
  ultimately show ?thesis using control_read[OF assms(1,2,4) _ std w] by metis
qed

text \<open>A class request that takes bytes: they are stored in order, then the callback is called.\<close>

lemma class_write:
  assumes "ep0_inv s" and "length bs = 8" and "st_RequestType (setup_of_bytes bs) \<noteq> 0" and "\<not> st_DataDir (setup_of_bytes bs)"
    and "EventCheckRequest ev (setup_of_bytes bs) (dev_drv s, dev_eps s) = Some ((d, u), [Claim_out n put f])"
    and "length D = unat n" and "D \<noteq> []"
  shows "\<exists>t. host_control_write ev bs D s = Some t \<and> ep0_inv t \<and> controlTransferState t = WAIT_SETUP \<and>
    dev_drv t = (case f of None \<Rightarrow> id | Some g \<Rightarrow> g) (store_bytes put 0 D d) \<and> dev_eps t = u"
proof -
  let ?v = "ep0_abandon (ep0_setup_state bs s)"
  note F = setup_frame(1-6)[of bs s] setup_frame(7)[OF assms(1,2)]
  have std: "USBCheckStdRequest ev ?v = Some ?v" using assms(3) F(7) by (simp add: USBCheckStdRequest_def Let_def)
  let ?w = "ep0_apply (Claim_out n put f) (?v\<lparr>dev_drv := d, dev_eps := u\<rparr>)"
  have w: "ep0_class_request ev ?v = Some ?w"
    unfolding ep0_class_request_def F using assms(5) by simp
  have p: "outPipe ?w = \<lparr>op_pDst = put, op_pos = 0, op_wCount = n, op_busy = True, op_pFunc = f\<rparr>" "\<not> ip_busy (inPipe ?w)"
    "dev_drv ?w = d" "dev_eps ?w = u"
    by (simp_all add: ep0_apply_def)
  have "\<not> (st_RequestType (setup_of_bytes bs) = 0 \<and> st_bRequest (setup_of_bytes bs) = 9)" using assms(3) by simp
  from wf_same(1)[OF assms(1,2) std w this] have fr: "ep0_fresh ?w" .
  have busy: "op_busy (outPipe ?w)" by (simp add: p)
  note R = complete_receiving[OF fr p(2) busy]
  have rec: "ep0_receiving (length D) True (USBCtrlEPServiceComplete ?w)" using R(1) p assms(6) by simp
  obtain t where t: "host_write_data ev True D (USBCtrlEPServiceComplete ?w) = Some t" "ep0_in_status t" "dev_eps t = u"
    "dev_drv t = (case f of None \<Rightarrow> id | Some g \<Rightarrow> g) (store_bytes put 0 D d)"
    by (rule ep0_write_data[OF rec assms(7), of ev]) (use R p in simp)
  have i: "ep0_inv t" using t(2) by (simp add: ep0_in_status_def)
  note S = write_status[OF t(2), of ev]
  show ?thesis
    using setup_complete[OF assms(1,2) std w] t S inv_IN[OF i S] in_done_frame[OF i] by (simp add: host_control_write_def)
qed

end
