(* ===== verification/USB_EP0_Props.thy ===== *)
theory USB_EP0_Props
  imports USB_EP0_Transfer USB_Descriptor_Props
begin

section \<open>Properties of the control transfers\<close>

text \<open>
  Endpoint 0 always accepts a setup packet; what a driver answers reaches the host, what the host
  writes reaches the driver; the address and the configuration change as the requests say; and two
  requests the handlers do not check break the device.
\<close>

subsection \<open>A device to run the examples on\<close>

definition ep0_power_on :: "usb_config \<Rightarrow> 'd \<Rightarrow> ('b::zero, 'd) usb_dev" where
  "ep0_power_on c d =
     (let e = \<lparr>bdt_UOWN = False, bdt_DTS = False, bdt_DTSEN = False, bdt_BSTALL = False, bdt_CNT = 0, bdt_ADR = Buf_SetupPkt\<rparr>;
          b = \<lparr>bdt_UOWN = False, bdt_DTS = False, bdt_DTSEN = False, bdt_BSTALL = False, bdt_CNT = 0, bdt_ADR = 0\<rparr>
      in \<lparr>USBDeviceState = DETACHED_STATE, USBActiveConfiguration = 0, USBAlternateInterface = replicate 32 0, U1ADDR = 0,
          SetupPkt = replicate 8 0, CtrlTrfData = replicate 64 0, ep0_OUT = (\<lambda>_. e), ep0_IN = (\<lambda>_. e), ep0_PID = (\<lambda>_. 0),
          EP0OutCurrent = False, EP0OutNext = False, EP0In = False, inPipe = \<lparr>ip_pSrc = (\<lambda>_. 0), ip_wCount = 0, ip_busy = False\<rparr>,
          outPipe = \<lparr>op_pDst = (\<lambda>_ _ d. d), op_pos = 0, op_wCount = 0, op_busy = False, op_pFunc = None\<rparr>,
          shortPacketStatus = SHORT_PKT_NOT_USED, controlTransferState = WAIT_SETUP, BothEP0OutUOWNsSet = False,
          USBDeferStatusStagePacket = False, USBDeferINDataStagePackets = False, USBDeferOUTDataStagePackets = False,
          USBStatusStageEnabledFlag1 = False, USBStatusStageEnabledFlag2 = False, USBStatusStageTimeoutCounter = 0,
          RemoteWakeup = False, ep_terminated = (\<lambda>_. False), ep_ping_pong = (\<lambda>_. False), PKTDIS = False, EPSTALL = False,
          sie_OUT = False, sie_IN = False,
          dev_eps = \<lparr>BDT = (\<lambda>_. b), pBDTEntryIn = (\<lambda>_. None), pBDTEntryOut = (\<lambda>_. None), U1EP = (\<lambda>_. 0)\<rparr>,
          dev_config = c, dev_drv = d\<rparr>)"

lemma power_on_inv: "ep0_inv (usb_bus_reset (ep0_power_on c d))"
  by (rule inv_bus_reset) (simp_all add: ep0_power_on_def Let_def)

lemma bus_reset_frame: "dev_config (usb_bus_reset s) = dev_config s" "dev_drv (usb_bus_reset s) = dev_drv s"
  by (simp_all add: usb_bus_reset_def USBDeviceInit_def ep0_clear_def Let_def out_upd_def)

definition no_class :: "('b, 'd) usb_events" where
  "no_class = \<lparr>EventInit = id, EventCheckRequest = (\<lambda>p x. Some (x, []))\<rparr>"

text \<open>A driver that answers a read with \<open>D\<close> and stores what is written to it.\<close>

definition one_class :: "u8 list \<Rightarrow> ('b, u8 list) usb_events" where
  "one_class D = \<lparr>EventInit = id, EventCheckRequest = (\<lambda>p x. Some (x, [if st_DataDir p then Claim_in D
     else Claim_out (st_wLength p) (\<lambda>i b d. d[i := b]) (Some rev)]))\<rparr>"

subsection \<open>Theorems\<close>

text \<open>(C9) A bus reset makes endpoint 0 ready, whatever happened before, and it stays ready until the next misdirected
  \<open>SET_CONFIGURATION\<close>: after any sequence of events from a state like the one at power-on (\<open>ep0_core\<close>), a reset, and any sequence of frames, resets, setup packets and other tokens without
  a \<open>SET_CONFIGURATION\<close> in the direction of a read, every setup packet is taken by the hardware (the host sees no NAK) and served
  by the handlers, or it is one of the requests at which they leave their objects; the buffers have their sizes. When a
  sequence ended in such an access, there is a first event that made it: a request of these, or a data packet longer than the
  buffer of the descriptor it went to.\<close>
theorem ep0_ready_after_reset:
  assumes "ep0_core s" and "\<forall>e \<in> set es. \<not> ep0_misdirected e"
  shows "case ep0_run ev (before @ Bus_Reset # es) s of
      Some t \<Rightarrow>
        (\<forall>bs. length bs = 8 \<longrightarrow>
           (case USBCtrlTrfSetupHandler ev (ep0_setup_state bs t) of
              Some u \<Rightarrow> host_SETUP ev bs t = Some (u, Host_ACK)
            | None \<Rightarrow> host_SETUP ev bs t = None \<and> ep0_bad_request ev bs t)) \<and>
        length (SetupPkt t) = 8 \<and> length (CtrlTrfData t) = 64 \<and> length (USBAlternateInterface t) = 32
    | None \<Rightarrow> \<exists>es1 e es2 u. before @ Bus_Reset # es = es1 @ e # es2 \<and> ep0_run ev es1 s = Some u \<and> ep0_faulty ev e u"
proof (cases "ep0_run ev (before @ Bus_Reset # es) s")
  case None
  then show ?thesis using run_fault[OF assms(1)] by (simp only: option.case)
next
  case (Some t)
  obtain u where u: "ep0_run ev before s = Some u" "ep0_run ev es (usb_bus_reset u) = Some t"
    using Some by (cases "ep0_run ev before s") (simp_all add: run_append ep0_run_def)
  have i: "ep0_inv t" using run_inv[OF core_reset[OF run_core[OF assms(1) u(1)]] assms(2) u(2)] .
  have "case USBCtrlTrfSetupHandler ev (ep0_setup_state bs t) of Some u \<Rightarrow> host_SETUP ev bs t = Some (u, Host_ACK)
      | None \<Rightarrow> host_SETUP ev bs t = None \<and> ep0_bad_request ev bs t" if "length bs = 8" for bs
    using setup_token[OF i that, of ev] setup_fault[OF _ that inv_core[OF i], of ev] by (simp split: option.split)
  then show ?thesis using Some i by (simp add: ep0_inv_def ep0_sized_def)
qed

text \<open>The device is deaf after the misdirected request, and the reset cures it.\<close>

theorem ep0_ready_after_reset_witness:
  "\<exists>t u. ep0_run no_class [Token_Setup [0x80, 9, 1, 0, 0, 0, 1, 0], Token_In, Token_Out True [], Bus_Reset, Start_Of_Frame]
      (usb_bus_reset (ep0_power_on usb_config_reset ()) :: (nat, unit) usb_dev) = Some t \<and>
    host_SETUP no_class [0x80, 8, 0, 0, 0, 0, 1, 0] t = Some (u, Host_ACK)"
proof -
  let ?s = "usb_bus_reset (ep0_power_on usb_config_reset ()) :: (nat, unit) usb_dev"
  let ?before = "[Token_Setup [0x80, 9, 1, 0, 0, 0, 1, 0], Token_In, Token_Out True []]" and ?bs = "[0x80, 8, 0, 0, 0, 0, 1, 0] :: u8 list"
  have c: "ep0_core ?s" by (rule inv_core[OF power_on_inv])
  have m: "\<forall>e \<in> set [Start_Of_Frame]. \<not> ep0_misdirected e" by (simp add: ep0_misdirected_def)
  have b: "\<not> ep0_bad_request no_class ?bs t" for t :: "(nat, unit) usb_dev"
    by (simp add: ep0_bad_request_def setup_of_bytes_def no_class_def)
  have f: "\<not> ep0_faulty no_class e u" if "e \<in> set (?before @ Bus_Reset # [Start_Of_Frame])" for e and u :: "(nat, unit) usb_dev"
    using that by (auto simp: ep0_faulty_def ep0_bad_request_def setup_of_bytes_def no_class_def split: ep0_buf.split)
  have "ep0_run no_class (?before @ Bus_Reset # [Start_Of_Frame]) ?s \<noteq> None"
  proof
    assume n: "ep0_run no_class (?before @ Bus_Reset # [Start_Of_Frame]) ?s = None"
    obtain es1 e es2 u where e: "?before @ Bus_Reset # [Start_Of_Frame] = es1 @ e # es2" "ep0_run no_class es1 ?s = Some u" "ep0_faulty no_class e u"
      using run_fault[OF c n] by (elim exE conjE)
    have "e \<in> set (?before @ Bus_Reset # [Start_Of_Frame])" unfolding e(1) by simp
    from f[OF this] e(3) show False by blast
  qed
  then obtain t where t: "ep0_run no_class (?before @ Bus_Reset # [Start_Of_Frame]) ?s = Some t" by blast
  from ep0_ready_after_reset[OF c m, of ?before no_class, unfolded t option.case]
  have "case USBCtrlTrfSetupHandler no_class (ep0_setup_state ?bs t) of Some u \<Rightarrow> host_SETUP no_class ?bs t = Some (u, Host_ACK)
      | None \<Rightarrow> host_SETUP no_class ?bs t = None \<and> ep0_bad_request no_class ?bs t" by (elim conjE allE[of _ ?bs]) simp
  with b[of t] have "\<exists>u. host_SETUP no_class ?bs t = Some (u, Host_ACK)" by (simp split: option.splits)
  with t show ?thesis by simp
qed

text \<open>(C10) A control read: when a class driver answers a request with the bytes \<open>D\<close>, the host
  receives exactly the first \<open>wLength\<close> of them, in 64-byte packets with alternating toggles and a
  short or empty packet at the end when they are fewer, the status stage succeeds, and the device waits for the next setup packet.\<close>
theorem ep0_control_read:
  assumes "ep0_inv s" and "length bs = 8" and "st_RequestType (setup_of_bytes bs) \<noteq> 0" and "st_DataDir (setup_of_bytes bs)"
    and "EventCheckRequest ev (setup_of_bytes bs) (dev_drv s, dev_eps s) = Some ((d, u), [Claim_in D])" and "length D < 65536"
  shows "\<exists>t. host_control_read ev bs s = Some (t, take (unat (st_wLength (setup_of_bytes bs))) D) \<and> ep0_inv t \<and>
    controlTransferState t = WAIT_SETUP \<and> dev_drv t = d \<and> dev_eps t = u"
  by (rule class_read[OF assms])

theorem ep0_control_read_witness:
  "\<exists>t. host_control_read (one_class (replicate 150 7)) [0xA1, 0x21, 0, 0, 0, 0, 200, 0]
      (usb_bus_reset (ep0_power_on usb_config_reset [] :: (nat, u8 list) usb_dev)) = Some (t, replicate 150 7)"
proof -
  let ?bs = "[0xA1, 0x21, 0, 0, 0, 0, 200, 0] :: u8 list"
  let ?s = "usb_bus_reset (ep0_power_on usb_config_reset [] :: (nat, u8 list) usb_dev)"
  have b: "st_RequestType (setup_of_bytes ?bs) \<noteq> 0" "st_DataDir (setup_of_bytes ?bs)" "unat (st_wLength (setup_of_bytes ?bs)) = 200"
    by code_simp+
  have "EventCheckRequest (one_class (replicate 150 7)) (setup_of_bytes ?bs) (dev_drv ?s, dev_eps ?s) =
      Some ((dev_drv ?s, dev_eps ?s), [Claim_in (replicate 150 7)])" using b by (simp add: one_class_def)
  from ep0_control_read[OF power_on_inv _ b(1,2) this] show ?thesis using b(3) by auto
qed

text \<open>(C11) A control write: when a class driver takes the \<open>n\<close> bytes of a request, they are stored
  through its pointer one by one, in order and each once, then its callback is called once, and the
  status stage succeeds.\<close>
theorem ep0_control_write:
  assumes "ep0_inv s" and "length bs = 8" and "st_RequestType (setup_of_bytes bs) \<noteq> 0" and "\<not> st_DataDir (setup_of_bytes bs)"
    and "EventCheckRequest ev (setup_of_bytes bs) (dev_drv s, dev_eps s) = Some ((d, u), [Claim_out n put f])"
    and "length D = unat n" and "D \<noteq> []"
  shows "\<exists>t. host_control_write ev bs D s = Some t \<and> ep0_inv t \<and> controlTransferState t = WAIT_SETUP \<and>
    dev_drv t = (case f of None \<Rightarrow> id | Some g \<Rightarrow> g) (store_bytes put 0 D d) \<and> dev_eps t = u"
  by (rule class_write[OF assms])

theorem ep0_control_write_witness:
  "\<exists>t. host_control_write (one_class []) [0x21, 0x20, 0, 0, 0, 0, 3, 0] [1, 2, 3]
      (usb_bus_reset (ep0_power_on usb_config_reset [9, 9, 9, 9] :: (nat, u8 list) usb_dev)) = Some t \<and> dev_drv t = [9, 3, 2, 1]"
proof -
  let ?bs = "[0x21, 0x20, 0, 0, 0, 0, 3, 0] :: u8 list"
  let ?s = "usb_bus_reset (ep0_power_on usb_config_reset [9, 9, 9, 9] :: (nat, u8 list) usb_dev)"
  have b: "st_RequestType (setup_of_bytes ?bs) \<noteq> 0" "\<not> st_DataDir (setup_of_bytes ?bs)" "st_wLength (setup_of_bytes ?bs) = 3"
    by code_simp+
  have d: "dev_drv ?s = [9, 9, 9, 9]" by (simp add: bus_reset_frame ep0_power_on_def Let_def)
  have "EventCheckRequest (one_class []) (setup_of_bytes ?bs) (dev_drv ?s, dev_eps ?s) =
      Some (([9, 9, 9, 9], dev_eps ?s), [Claim_out 3 (\<lambda>i b d. d[i := b]) (Some rev)])" using b d by (simp add: one_class_def)
  moreover have "store_bytes (\<lambda>i b d. d[i := b]) 0 [1, 2, 3 :: u8] [9, 9, 9, 9] = [1, 2, 3, 9 :: u8]" by code_simp
  ultimately show ?thesis using ep0_control_write[OF power_on_inv _ b(1,2), of "one_class []" usb_config_reset "[9, 9, 9, 9]"
      "[9, 9, 9, 9]" "dev_eps ?s" 3 "\<lambda>i b d. d[i := b]" "Some rev" "[1, 2, 3]"] by auto
qed

lemma no_claim:
  assumes "EventCheckRequest ev (setup_of_bytes (SetupPkt s)) (dev_drv s, dev_eps s) = Some ((d, u), [])"
  shows "ep0_class_request ev s = Some (s\<lparr>dev_drv := d, dev_eps := u\<rparr>)"
  using assms by (simp add: ep0_class_request_def)

lemma word2: "unat (le_word [a, b] :: u16) = unat a + 256 * unat b" for a b :: u8
proof -
  have "le_word [a, b] = (ucast a + push_bit 8 (ucast b) :: u16)"
    by (simp, rule disjunctive_add[symmetric]) (auto simp: bit_simps dest!: bit_imp_le_length)
  also have "\<dots> = of_nat (unat a + 256 * unat b)"
    by (simp add: push_bit_eq_mult mult.commute)
  finally have "unat (le_word [a, b] :: u16) = take_bit 16 (unat a + 256 * unat b)" by (simp only: unsigned_of_nat) simp
  moreover have "unat a < 256" "unat b < 256" using unsigned_less[of a, where ?'a = nat] unsigned_less[of b, where ?'a = nat] by simp_all
  ultimately show ?thesis by (simp add: take_bit_nat_eq_self)
qed

lemma word2_lo: "ucast (le_word [a, b] :: u16) = a" for a b :: u8
  by (rule bit_word_eqI) (auto simp: bit_simps)

lemma word2_hi: "ucast (drop_bit 8 (le_word [a, b] :: u16)) = b" for a b :: u8
  by (rule bit_word_eqI) (auto simp: bit_simps dest!: bit_imp_le_length)

lemma setup_word:
  assumes "length bs = 8"
  shows "st_wValue (setup_of_bytes bs) = le_word [bs ! 2, bs ! 3]" "st_wIndex (setup_of_bytes bs) = le_word [bs ! 4, bs ! 5]"
    "st_wLength (setup_of_bytes bs) = le_word [bs ! 6, bs ! 7]"
proof -
  have "take 2 (drop 2 bs) = [bs ! 2, bs ! 3]" "take 2 (drop 4 bs) = [bs ! 4, bs ! 5]" "take 2 (drop 6 bs) = [bs ! 6, bs ! 7]"
    using assms by (auto intro!: nth_equalityI simp: less_Suc_eq numeral_2_eq_2 numeral_3_eq_3)
  then show "st_wValue (setup_of_bytes bs) = le_word [bs ! 2, bs ! 3]" "st_wIndex (setup_of_bytes bs) = le_word [bs ! 4, bs ! 5]"
    "st_wLength (setup_of_bytes bs) = le_word [bs ! 6, bs ! 7]"
    by (simp_all only: setup_of_bytes_def usb_setup.simps)
qed

text \<open>(C14) The address a host assigns takes effect with the status stage of the request, not before.\<close>
theorem ep0_set_address:
  assumes "ep0_inv s" and "bs = [0x00, 5, a, 0, 0, 0, 0, 0]"
    and "EventCheckRequest ev (setup_of_bytes bs) (dev_drv s, dev_eps s) = Some ((d, u), [])"
  shows "\<exists>t v. host_SETUP ev bs s = Some (t, Host_ACK) \<and> U1ADDR t = U1ADDR s \<and> USBDeviceState t = ADR_PENDING_STATE \<and>
    host_IN ev t = Some (v, Host_DATA True []) \<and> U1ADDR v = a AND 0x7F \<and>
    USBDeviceState v = (if a AND 0x7F \<noteq> 0 then ADDRESS_STATE else DEFAULT_STATE) \<and> ep0_inv v"
proof -
  have l: "length bs = 8" using assms(2) by simp
  let ?v = "ep0_abandon (ep0_setup_state bs s)"
  let ?x = "(ep0_claim_busy ?v)\<lparr>USBDeviceState := ADR_PENDING_STATE\<rparr>"
  note F = setup_frame(1-6)[of bs s] setup_frame(7)[OF assms(1) l]
  have p: "st_RequestType (setup_of_bytes bs) = 0" "st_bRequest (setup_of_bytes bs) = 5" "\<not> st_DataDir (setup_of_bytes bs)"
    using assms(2) by (simp_all add: setup_of_bytes_def)
  have std: "USBCheckStdRequest ev ?v = Some ?x" using F(7) p by (simp add: USBCheckStdRequest_def Let_def)
  have xf: "SetupPkt ?x = bs" "dev_drv ?x = dev_drv s" "dev_eps ?x = dev_eps s" using F by (simp_all add: ep0_claim_busy_def)
  let ?w = "?x\<lparr>dev_drv := d, dev_eps := u\<rparr>"
  have w: "ep0_class_request ev ?x = Some ?w" using no_claim[of ev ?x] assms(3) xf by simp
  have "ep0_serviced ?w" using wf_same(1)[OF assms(1) l std w] p fresh_serviced by fastforce
  moreover have "ip_busy (inPipe ?w)" "\<not> op_busy (outPipe ?w)" "SetupPkt ?w = bs" "U1ADDR ?w = U1ADDR s"
    "USBDeviceState ?w = ADR_PENDING_STATE" using F xf by (simp_all add: ep0_claim_busy_def)
  ultimately have "ep0_serviced ?w" "ip_busy (inPipe ?w)" "\<not> st_DataDir (setup_of_bytes (SetupPkt ?w))" "\<not> op_busy (outPipe ?w)"
    and wf: "SetupPkt ?w = bs" "U1ADDR ?w = U1ADDR s" "USBDeviceState ?w = ADR_PENDING_STATE" using p by simp_all
  note C = complete_in_status[OF this(1-4)]
  let ?t = "USBCtrlEPServiceComplete ?w"
  note S = write_status[OF C(1), of ev]
  have i: "ep0_inv ?t" using C(1) by (simp add: ep0_in_status_def)
  have val: "ucast (st_wValue (setup_of_bytes bs)) = a" unfolding setup_word(1)[OF l] word2_lo by (simp add: assms(2))
  have f: "SetupPkt ?t = bs" "USBDeviceState ?t = ADR_PENDING_STATE" "U1ADDR ?t = U1ADDR s" using C wf by simp_all
  have "U1ADDR ((ep0_in_done (ep0_in_state ?t))\<lparr>controlTransferState := WAIT_SETUP\<rparr>) = a AND 0x7F"
    "USBDeviceState ((ep0_in_done (ep0_in_state ?t))\<lparr>controlTransferState := WAIT_SETUP\<rparr>) =
       (if a AND 0x7F \<noteq> 0 then ADDRESS_STATE else DEFAULT_STATE)"
    using f val by (simp_all add: ep0_in_done_def ep0_in_state_def Let_def in_upd_def)
  then show ?thesis using setup_complete[OF assms(1) l std w] S inv_IN[OF i S] f by blast
qed

theorem ep0_set_address_witness:
  "\<exists>t v. host_SETUP no_class [0x00, 5, 9, 0, 0, 0, 0, 0] (usb_bus_reset (ep0_power_on usb_config_reset ()) :: (nat, unit) usb_dev) = Some (t, Host_ACK) \<and>
     U1ADDR t = 0 \<and> host_IN no_class t = Some (v, Host_DATA True []) \<and> U1ADDR v = 9"
proof -
  let ?s = "usb_bus_reset (ep0_power_on usb_config_reset ()) :: (nat, unit) usb_dev"
  have "EventCheckRequest no_class p (dev_drv ?s, dev_eps ?s) = Some ((dev_drv ?s, dev_eps ?s), [])" for p by (simp add: no_class_def)
  moreover have "U1ADDR ?s = 0" by (simp add: usb_bus_reset_def USBDeviceInit_def ep0_clear_def Let_def out_upd_def)
  ultimately show ?thesis using ep0_set_address[OF power_on_inv refl, where ev = no_class and c2 = usb_config_reset and a = 9] by fastforce
qed

text \<open>(C12) The configuration the functions have built reaches the host: on a device configured with any
  functions that need at most 15 endpoints, a host that asks for the configuration descriptor gets
  the first \<open>wLength\<close> bytes of it, and the whole is valid.\<close>
theorem ep0_get_configuration:
  assumes "ep0_inv s" and "dev_config s = usb_configured vid pid m p n fs" and "n_eps fs \<le> 15"
    and "bs = [0x80, 6, 0, 2, 0, 0, lo, hi]"
    and "\<And>x. EventCheckRequest ev (setup_of_bytes bs) x = Some (x, [])"
  shows "\<exists>t r. host_control_read ev bs s = Some (t, take (unat lo + 256 * unat hi) r) \<and> usb_config_valid r \<and>
    r = raw (usb_configured vid pid m p n fs) \<and> ep0_inv t \<and> dev_drv t = dev_drv s \<and> dev_eps t = dev_eps s"
proof -
  have l: "length bs = 8" using assms(4) by simp
  let ?v = "ep0_abandon (ep0_setup_state bs s)" and ?c = "usb_configured vid pid m p n fs"
  let ?r = "raw ?c"
  let ?x = "ep0_send (bytes_at ?r) (le_word [bytes_at ?r 2, bytes_at ?r 3]) ?v"
  note F = setup_frame(1-6)[of bs s] setup_frame(7)[OF assms(1) l]
  note V = configuration_valid[OF assms(3), of vid pid m p n]
  have p: "st_RequestType (setup_of_bytes bs) = 0" "st_bRequest (setup_of_bytes bs) = 6" "st_DataDir (setup_of_bytes bs)"
    "\<not> ep0_ill_formed bs" "bs ! 0 = 0x80"
    using assms(4) by (simp_all add: setup_of_bytes_def ep0_ill_formed_def Let_def)
  have d: "st_bDescriptorType (setup_of_bytes bs) = 2" "st_bDscIndex (setup_of_bytes bs) = 0"
    unfolding st_bDescriptorType_def st_bDscIndex_def setup_word(1)[OF l] word2_hi word2_lo by (simp_all add: assms(4))
  have "USBStdGetDscHandler ?v = Some ?x" using F d p V(1) assms(2) by (simp add: USBStdGetDscHandler_def Let_def)
  then have std: "USBCheckStdRequest ev ?v = Some ?x" using F(7) p by (simp add: USBCheckStdRequest_def Let_def)
  have w: "ep0_class_request ev ?x = Some ?x" using no_claim[of ev ?x] assms(5) F by (simp add: ep0_send_def)
  have len: "unat (le_word [bytes_at ?r 2, bytes_at ?r 3] :: u16) = length ?r"
    using V(2) unfolding word2 by (simp add: usb_config_valid_def bytes_at_def)
  have D: "map (ip_pSrc (inPipe ?x)) [0..<unat (ip_wCount (inPipe ?x))] = ?r" using len by (simp add: ep0_send_def bytes_at_map)
  have b: "ip_busy (inPipe ?x)" by (simp add: ep0_send_def)
  have wl: "unat (st_wLength (setup_of_bytes bs)) = unat lo + 256 * unat hi"
    unfolding setup_word(3)[OF l] word2 by (simp add: assms(4))
  obtain t where "host_control_read ev bs s = Some (t, take (unat lo + 256 * unat hi) ?r)" "ep0_inv t"
    "dev_drv t = dev_drv ?x" "dev_eps t = dev_eps ?x"
    using control_read[OF assms(1) l p(3,4) std w b] unfolding D wl by metis
  moreover have "dev_drv ?x = dev_drv s" "dev_eps ?x = dev_eps s" using F by (simp_all add: ep0_send_def)
  ultimately show ?thesis using V(2) by auto
qed

theorem ep0_get_configuration_witness:
  "\<exists>t r. host_control_read no_class [0x80, 6, 0, 2, 0, 0, 0xFF, 0]
      (usb_bus_reset (ep0_power_on (usb_configured 0x04D8 0x0057 [] [] [] [Fn_CDC_ACM, Fn_HID 1 8 63]) ()) :: (nat, unit) usb_dev) =
      Some (t, take 255 r) \<and> usb_config_valid r"
proof -
  have n: "n_eps [Fn_CDC_ACM, Fn_HID 1 8 63] \<le> 15" by (simp add: n_eps_def)
  have "EventCheckRequest no_class p x = Some (x, [])" for p and x :: "unit \<times> nat usb_eps" by (simp add: no_class_def)
  moreover have "dev_config (usb_bus_reset (ep0_power_on c () :: (nat, unit) usb_dev)) = c" for c
    by (simp add: bus_reset_frame) (simp add: ep0_power_on_def Let_def)
  ultimately show ?thesis
    using ep0_get_configuration[OF power_on_inv _ n refl, where ev = no_class and vid = "0x04D8" and pid = "0x0057" and lo = "0xFF" and hi = 0]
    by fastforce
qed

text \<open>(C13) \<open>SET_CONFIGURATION\<close> initialises the class drivers once, on endpoints that are all free, and
  answers the status stage; with configuration 0 the drivers are not called and the device is back in the address state.\<close>
theorem ep0_set_configuration:
  assumes "ep0_inv s" and "bs = [0x00, 9, n, 0, 0, 0, 0, 0]" and "\<And>x. EventCheckRequest ev (setup_of_bytes bs) x = Some (x, [])"
  shows "\<exists>t v u. host_SETUP ev bs s = Some (t, Host_ACK) \<and> host_IN ev t = Some (v, Host_DATA True []) \<and> ep0_inv v \<and>
    USBActiveConfiguration v = n \<and> USBDeviceState v = (if n = 0 then ADDRESS_STATE else CONFIGURED_STATE) \<and>
    (\<forall>h. \<not> bdt_UOWN (BDT u h)) \<and> (\<forall>e. e \<noteq> 0 \<longrightarrow> U1EP u e = 0) \<and>
    (dev_drv v, dev_eps v) = (if n = 0 then id else EventInit ev) (dev_drv s, u)"
proof -
  have l: "length bs = 8" using assms(2) by simp
  let ?v = "ep0_abandon (ep0_setup_state bs s)"
  let ?x = "USBStdSetCfgHandler ev ?v" and ?u = "dev_eps (ep0_clear (ep0_claim_busy ?v))"
  note F = setup_frame(1-6)[of bs s] setup_frame(7)[OF assms(1) l] and S = setup_state_ok[OF assms(1) l]
  have p: "st_RequestType (setup_of_bytes bs) = 0" "st_bRequest (setup_of_bytes bs) = 9" "\<not> st_DataDir (setup_of_bytes bs)"
    using assms(2) by (simp_all add: setup_of_bytes_def)
  have val: "ucast (st_wValue (setup_of_bytes bs)) = n" unfolding setup_word(1)[OF l] word2_lo by (simp add: assms(2))
  have std: "USBCheckStdRequest ev ?v = Some ?x" using F(7) p by (simp add: USBCheckStdRequest_def Let_def)
  have w: "ep0_class_request ev ?x = Some ?x"
  proof -
    have "SetupPkt ?x = bs" using F(7)
      by (simp add: USBStdSetCfgHandler_def ep0_clear_def ep0_claim_busy_def Let_def split: prod.split)
    then show ?thesis using no_claim[of ev ?x] assms(3) by simp
  qed
  have fr: "ep0_fresh ?v" using abandon_fresh[OF S(1,2)] .
  have sv: "ep0_serviced ?x" using set_config_serviced[OF fr] p F(7) by simp
  have x: "ip_busy (inPipe ?x)" "\<not> op_busy (outPipe ?x)" "SetupPkt ?x = bs" "USBActiveConfiguration ?x = n"
    "USBDeviceState ?x = (if n = 0 then ADDRESS_STATE else CONFIGURED_STATE)"
    "(dev_drv ?x, dev_eps ?x) = (if n = 0 then id else EventInit ev) (dev_drv s, ?u)"
    using F val by (auto simp: USBStdSetCfgHandler_def ep0_clear_def ep0_claim_busy_def Let_def split: prod.split)
  have nd: "\<not> st_DataDir (setup_of_bytes (SetupPkt ?x))" using x(3) p by simp
  note C = complete_in_status[OF sv x(1) nd x(2)]
  let ?t = "USBCtrlEPServiceComplete ?x"
  note W = write_status[OF C(1), of ev]
  have i: "ep0_inv ?t" using C(1) by (simp add: ep0_in_status_def)
  let ?z = "(ep0_in_done (ep0_in_state ?t))\<lparr>controlTransferState := WAIT_SETUP\<rparr>"
  have na: "USBDeviceState ?t \<noteq> ADR_PENDING_STATE" using C x by simp
  have z: "USBActiveConfiguration ?z = n" "USBDeviceState ?z = (if n = 0 then ADDRESS_STATE else CONFIGURED_STATE)"
    "(dev_drv ?z, dev_eps ?z) = (if n = 0 then id else EventInit ev) (dev_drv s, ?u)"
    using C x in_done_frame[OF i] na by (simp_all add: ep0_in_done_def ep0_in_state_def Let_def in_upd_def)
  have u: "\<forall>h. \<not> bdt_UOWN (BDT ?u h)" "\<forall>e. e \<noteq> 0 \<longrightarrow> U1EP ?u e = 0" by (simp_all add: ep0_clear_def bdt_zero_def)
  have su: "host_SETUP ev bs s = Some (?t, Host_ACK)" using setup_complete[OF assms(1) l std w] w by simp
  show ?thesis using su W inv_IN[OF i W] z u by blast
qed

theorem ep0_set_configuration_witness:
  "\<exists>t v. host_SETUP no_class [0x00, 9, 1, 0, 0, 0, 0, 0] (usb_bus_reset (ep0_power_on usb_config_reset ()) :: (nat, unit) usb_dev) = Some (t, Host_ACK) \<and>
     host_IN no_class t = Some (v, Host_DATA True []) \<and> USBDeviceState v = CONFIGURED_STATE"
proof -
  have "EventCheckRequest no_class p x = Some (x, [])" for p and x :: "unit \<times> nat usb_eps" by (simp add: no_class_def)
  from ep0_set_configuration[OF power_on_inv refl this, where n = 1] show ?thesis by fastforce
qed

text \<open>(C15) A request that neither the stack nor a driver claims is stalled in the data and the status
  stage, in both directions, and the device accepts the next setup packet.\<close>
theorem ep0_unclaimed_stalls:
  assumes "ep0_inv s" and "length bs = 8" and "st_RequestType (setup_of_bytes bs) \<noteq> 0"
    and "EventCheckRequest ev (setup_of_bytes bs) (dev_drv s, dev_eps s) = Some ((d, u), [])"
  shows "\<exists>t v. host_SETUP ev bs s = Some (t, Host_ACK) \<and> host_IN ev t = Some (v, Host_STALL) \<and>
    host_OUT ev tgl D t = Some (v, Host_STALL) \<and> ep0_inv v \<and> dev_drv v = d \<and> dev_eps v = u"
proof -
  let ?v = "ep0_abandon (ep0_setup_state bs s)"
  note F = setup_frame(1-6)[of bs s] setup_frame(7)[OF assms(1,2)]
  have std: "USBCheckStdRequest ev ?v = Some ?v" using assms(3) F(7) by (simp add: USBCheckStdRequest_def Let_def)
  let ?w = "?v\<lparr>dev_drv := d, dev_eps := u\<rparr>"
  have w: "ep0_class_request ev ?v = Some ?w" using no_claim[of ev ?v] assms(4) F by simp
  have fr: "ep0_fresh ?w" using wf_same(1)[OF assms(1,2) std w] assms(3) by blast
  have "\<not> ip_busy (inPipe ?w)" "\<not> op_busy (outPipe ?w)" "dev_drv ?w = d" "dev_eps ?w = u" by simp_all
  note C = complete_stall[OF fr this(1,2)] and this
  let ?t = "USBCtrlEPServiceComplete ?w"
  have f: "dev_drv (USBStallHandler (?t\<lparr>EPSTALL := True\<rparr>)) = d" "dev_eps (USBStallHandler (?t\<lparr>EPSTALL := True\<rparr>)) = u"
    by (simp_all add: USBCtrlEPServiceComplete_def USBStallHandler_def Let_def out_upd_def in_upd_def)
  have "ep0_inv ?t" using complete_ok fresh_serviced fr by blast
  then have "ep0_inv (USBStallHandler (?t\<lparr>EPSTALL := True\<rparr>))" by (intro inv_stall_handler) (simp add: inv_frame)
  then show ?thesis using setup_complete[OF assms(1,2) std w] C f by blast
qed

theorem ep0_unclaimed_stalls_witness:
  "\<exists>t v. host_SETUP no_class [0xC0, 1, 0, 0, 0, 0, 4, 0] (usb_bus_reset (ep0_power_on usb_config_reset ()) :: (nat, unit) usb_dev) = Some (t, Host_ACK) \<and>
     host_IN no_class t = Some (v, Host_STALL)"
proof -
  let ?s = "usb_bus_reset (ep0_power_on usb_config_reset ()) :: (nat, unit) usb_dev"
  have n: "EventCheckRequest no_class p (dev_drv ?s, dev_eps ?s) = Some ((dev_drv ?s, dev_eps ?s), [])" for p by (simp add: no_class_def)
  have "st_RequestType (setup_of_bytes [0xC0, 1, 0, 0, 0, 0, 4, 0]) \<noteq> 0" by code_simp
  from ep0_unclaimed_stalls[OF power_on_inv _ this n, where tgl = True and D = "[]"] show ?thesis by fastforce
qed

text \<open>(C17) \<open>SET_INTERFACE\<close> and \<open>GET_INTERFACE\<close> use the interface number of the request as an index
  into the array of alternate settings without a check: from 32 on the access is out of bounds.\<close>
theorem ep0_interface_overrun:
  assumes "ep0_inv s" and "32 \<le> unat i"
  shows "host_SETUP ev [0x01, 11, a, 0, i, 0, 0, 0] s = None \<and> host_SETUP ev [0x81, 10, 0, 0, i, 0, 1, 0] s = None"
proof
  have F: "SetupPkt (ep0_abandon (ep0_setup_state bs s)) = bs" if "length bs = 8" for bs using setup_frame(7)[OF assms(1) that] .
  have id: "st_bIntfID (setup_of_bytes bs) = bs ! 4" if "length bs = 8" for bs
    unfolding st_bIntfID_def setup_word(2)[OF that] word2_lo ..
  show "host_SETUP ev [0x01, 11, a, 0, i, 0, 0, 0] s = None"
    using setup_token[OF assms(1), of "[0x01, 11, a, 0, i, 0, 0, 0]"] assms(2) F[of "[0x01, 11, a, 0, i, 0, 0, 0]"] id[of "[0x01, 11, a, 0, i, 0, 0, 0]"]
    by (simp add: USBCtrlTrfSetupHandler_def USBCheckStdRequest_def Let_def setup_of_bytes_def)
  show "host_SETUP ev [0x81, 10, 0, 0, i, 0, 1, 0] s = None"
    using setup_token[OF assms(1), of "[0x81, 10, 0, 0, i, 0, 1, 0]"] assms(2) F[of "[0x81, 10, 0, 0, i, 0, 1, 0]"] id[of "[0x81, 10, 0, 0, i, 0, 1, 0]"]
    by (simp add: USBCtrlTrfSetupHandler_def USBCheckStdRequest_def Let_def setup_of_bytes_def)
qed

theorem ep0_interface_overrun_witness:
  "host_SETUP no_class [0x01, 11, 0, 0, 32, 0, 0, 0] (usb_bus_reset (ep0_power_on usb_config_reset ()) :: (nat, unit) usb_dev) = None"
  by (rule ep0_interface_overrun[OF power_on_inv, THEN conjunct1]) simp

text \<open>No OUT buffer is armed and nothing arms one again.\<close>

definition ep0_deaf :: "('b, 'd) usb_dev \<Rightarrow> bool" where
  "ep0_deaf s \<longleftrightarrow> \<not> bdt_UOWN (ep0_OUT s (sie_OUT s)) \<and> USBStatusStageEnabledFlag1 s \<and> EP0OutCurrent s = (\<not> sie_OUT s)"

lemma deaf_nak:
  assumes "ep0_deaf s"
  shows "host_SETUP ev bs s = Some (s, Host_NAK)" "host_OUT ev tgl D s = Some (s, Host_NAK)"
  using assms by (simp_all add: ep0_deaf_def host_SETUP_def host_OUT_def)

lemma deaf_frame: "ep0_deaf s \<Longrightarrow> ep0_deaf (usb_start_of_frame s)"
  by (simp add: usb_start_of_frame_def Let_def USBCtrlEPAllowStatusStage_def) (simp add: ep0_deaf_def)

lemma deaf_IN:
  assumes "ep0_deaf s" and "host_IN ev s = Some (t, r)"
  shows "ep0_deaf t"
proof -
  have st: "ep0_deaf (USBStallHandler (s\<lparr>EPSTALL := True\<rparr>))"
    using assms(1) by (auto simp: USBStallHandler_def Let_def ep0_deaf_def out_upd_def)
  let ?s = "ep0_in_done (ep0_in_state s)"
  have d: "ep0_deaf ?s"
    using assms(1) by (simp add: ep0_in_done_def ep0_in_state_def Let_def in_upd_def ep0_deaf_def)
  have u: "ep0_deaf (in_upd i f x) = ep0_deaf x" "ep0_deaf (USBCtrlTrfTxService x) = ep0_deaf x" "ep0_deaf (ep0_callback x) = ep0_deaf x"
    "ep0_deaf (x\<lparr>outPipe := q\<rparr>) = ep0_deaf x" "ep0_deaf (x\<lparr>controlTransferState := c\<rparr>) = ep0_deaf x" for i f x q c
    by (simp_all add: ep0_deaf_def tx_service_frame) (simp_all add: in_upd_def ep0_callback_def split: option.split)
  have h: "ep0_deaf (USBCtrlTrfInHandler (ep0_in_state s))"
    unfolding in_handler_eq Let_def using d by (simp add: u)
  have "t = s \<or> t = USBStallHandler (s\<lparr>EPSTALL := True\<rparr>) \<or> t = USBCtrlTrfInHandler (ep0_in_state s)"
    using assms(2) by (auto simp: host_IN_def USBCtrlEPService_def ep0_in_state_def Let_def in_upd_def split: if_splits)
  then show ?thesis using assms(1) st h by blast
qed

lemma deaf_traffic: "ep0_traffic ev ok s t \<Longrightarrow> ep0_deaf s \<Longrightarrow> ep0_deaf t"
  by (induction rule: ep0_traffic.induct) (auto simp: deaf_nak deaf_frame deaf_IN)

lemma deaf_stays: "(ep0_traffic ev ok)\<^sup>*\<^sup>* s t \<Longrightarrow> ep0_deaf s \<Longrightarrow> ep0_deaf t"
  by (induction rule: rtranclp_induct) (auto intro: deaf_traffic)

text \<open>After the handlers of an ill-directed \<open>SET_CONFIGURATION\<close> both OUT pointers are at the even buffer.\<close>

lemma misdirected_setup:
  assumes "ep0_inv s" and "bs = [0x80, 9, n, 0, 0, 0, l, 0]" and "\<And>x. EventCheckRequest ev (setup_of_bytes bs) x = Some (x, [])"
  obtains t where "host_SETUP ev bs s = Some (t, Host_ACK)" "\<not> PKTDIS t" "controlTransferState t = CTRL_TRF_TX" "BothEP0OutUOWNsSet t"
    "\<not> sie_OUT t" "USBStatusStageEnabledFlag1 t" "bdt_UOWN (ep0_OUT t False)" "\<not> bdt_BSTALL (ep0_OUT t False)"
    "\<not> bdt_DTSEN (ep0_OUT t False)" "\<not> bdt_UOWN (ep0_OUT t True)" "\<not> sie_IN t" "bdt_UOWN (ep0_IN t False)"
    "\<not> bdt_BSTALL (ep0_IN t False)" "bdt_DTS (ep0_IN t False)" "bdt_CNT (ep0_IN t False) = 0" "\<not> EP0In t"
proof -
  have l: "length bs = 8" using assms(2) by simp
  let ?v = "ep0_abandon (ep0_setup_state bs s)"
  let ?x = "USBStdSetCfgHandler ev ?v"
  note F = setup_frame(1-6)[of bs s] setup_frame(7)[OF assms(1) l] and S = setup_state_ok[OF assms(1) l]
  have p: "st_RequestType (setup_of_bytes bs) = 0" "st_bRequest (setup_of_bytes bs) = 9" "st_DataDir (setup_of_bytes bs)"
    using assms(2) by (simp_all add: setup_of_bytes_def)
  have std: "USBCheckStdRequest ev ?v = Some ?x" using F(7) p by (simp add: USBCheckStdRequest_def Let_def)
  have x: "SetupPkt ?x = bs" "ip_busy (inPipe ?x)" "ip_wCount (inPipe ?x) = 0" "\<not> USBDeferINDataStagePackets ?x"
    "\<not> USBDeferStatusStagePacket ?x" "\<not> EP0In ?x" "\<not> EP0OutCurrent ?x" "\<not> EP0OutNext ?x" "\<not> sie_OUT ?x" "\<not> sie_IN ?x"
    "\<not> bdt_UOWN (ep0_OUT ?x b)" for b
    using F abandon_fresh[OF S(1,2)] 
    by (simp_all add: USBStdSetCfgHandler_def ep0_clear_def ep0_claim_busy_def Let_def ep0_fresh_def ep0_sized_def bdt_zero_def split: prod.split)
  have w: "ep0_class_request ev ?x = Some ?x" using no_claim[of ev ?x] assms(3) x(1) by simp
  let ?t = "USBCtrlEPServiceComplete ?x"
  let ?tx = "?x\<lparr>PKTDIS := False, controlTransferState := CTRL_TRF_TX\<rparr>"
  define a where "a = USBCtrlTrfTxService (?tx\<lparr>USBDeferINDataStagePackets := False, USBDeferOUTDataStagePackets := False\<rparr>)"
  have a: "ep0_OUT a = ep0_OUT ?x" "\<not> sie_OUT a" "\<not> sie_IN a" "\<not> EP0OutNext a" "\<not> EP0OutCurrent a" "\<not> PKTDIS a" "\<not> EP0In a"
    "controlTransferState a = CTRL_TRF_TX" "\<not> USBDeferStatusStagePacket a" "bdt_CNT (ep0_IN a False) = 0"
    using x unfolding a_def by (simp_all add: tx_service_frame) (simp_all add: USBCtrlTrfTxService_def Let_def in_upd_def)
  have t: "?t = USBCtrlEPAllowStatusStage
      ((in_upd False (\<lambda>e. ep0_give True True False (e\<lparr>bdt_ADR := Buf_CtrlTrfData\<rparr>)) a)\<lparr>USBStatusStageEnabledFlag2 := False, USBStatusStageEnabledFlag1 := False\<rparr>)"
    using x p a unfolding USBCtrlEPServiceComplete_def USBCtrlEPAllowDataStage_def Let_def
    by (simp add: a_def[symmetric] tx_service_frame) (simp add: in_upd_def)
  have su: "host_SETUP ev bs s = Some (?t, Host_ACK)" using setup_complete[OF assms(1) l std w] w by simp
  show ?thesis
    by (rule that[OF su]; unfold t USBCtrlEPAllowStatusStage_def Let_def; use a x(11) in \<open>simp add: out_upd_def in_upd_def ep0_give_def ep0_buffer_def\<close>)
qed

lemma misdirected_read:
  assumes "ep0_inv s" and "bs = [0x80, 9, n, 0, 0, 0, l, 0]" and "l \<noteq> 0" and "\<And>x. EventCheckRequest ev (setup_of_bytes bs) x = Some (x, [])"
  shows "\<exists>t. host_control_read ev bs s = Some (t, []) \<and> ep0_deaf t"
proof -
  have len: "length bs = 8" using assms(2) by simp
  have wl: "unat (st_wLength (setup_of_bytes bs)) = unat l" unfolding setup_word(3)[OF len] word2 by (simp add: assms(2))
  obtain t where t: "host_SETUP ev bs s = Some (t, Host_ACK)" "\<not> PKTDIS t" "controlTransferState t = CTRL_TRF_TX" "BothEP0OutUOWNsSet t"
    "\<not> sie_OUT t" "USBStatusStageEnabledFlag1 t" "bdt_UOWN (ep0_OUT t False)" "\<not> bdt_BSTALL (ep0_OUT t False)"
    "\<not> bdt_DTSEN (ep0_OUT t False)" "\<not> bdt_UOWN (ep0_OUT t True)" "\<not> sie_IN t" "bdt_UOWN (ep0_IN t False)"
    "\<not> bdt_BSTALL (ep0_IN t False)" "bdt_DTS (ep0_IN t False)" "bdt_CNT (ep0_IN t False) = 0" "\<not> EP0In t"
    using misdirected_setup[OF assms(1,2,4)] .
  let ?u = "USBCtrlTrfInHandler (ep0_in_state t)"
  have i: "host_IN ev t = Some (?u, Host_DATA True [])"
    using t by (simp add: host_IN_def USBCtrlEPService_def ep0_in_state_def Let_def in_upd_def)
  have u: "\<not> PKTDIS ?u" "controlTransferState ?u = CTRL_TRF_TX" "BothEP0OutUOWNsSet ?u" "\<not> sie_OUT ?u" "USBStatusStageEnabledFlag1 ?u"
    "ep0_OUT ?u = ep0_OUT t"
    unfolding in_handler_eq Let_def using t
    by (auto simp: tx_service_frame in_upd_def ep0_in_done_def ep0_in_state_def Let_def)
  have rd: "host_read_data ev True (unat l) t = Some (?u, [])"
    using i assms(3) by (simp add: host_read_data.simps[of ev True] unat_eq_0)
  let ?w = "(ep0_out_state True [] ?u)\<lparr>controlTransferState := WAIT_SETUP, BothEP0OutUOWNsSet := False\<rparr>"
  have "host_OUT ev True [] ?u = Some (?w, Host_ACK)"
    using u t(7-9)
    by (cases "bdt_ADR (ep0_OUT t False)")
      (simp_all add: host_OUT_def USBCtrlEPService_def USBCtrlTrfOutHandler_def ep0_out_state_def Let_def out_upd_def)
  moreover have "ep0_deaf ?w"
    using u t(10) by (cases "bdt_ADR (ep0_OUT t False)") (simp_all add: ep0_deaf_def ep0_out_state_def Let_def out_upd_def)
  ultimately show ?thesis using t(1) rd wl by (simp add: host_control_read_def)
qed

text \<open>(C16) A \<open>SET_CONFIGURATION\<close> request sent in the wrong direction, with a data stage, leaves endpoint 0
  deaf: the handler has reset both OUT pointers to the same buffer, the status stage uses it up, and from then
  on every setup packet is answered with NAK, whatever else happens on the bus short of a reset.\<close>
theorem ep0_misdirected_set_configuration:
  assumes "ep0_inv s" and "bs = [0x80, 9, n, 0, 0, 0, l, 0]" and "l \<noteq> 0" and "\<And>x. EventCheckRequest ev (setup_of_bytes bs) x = Some (x, [])"
  shows "\<exists>t. host_control_read ev bs s = Some (t, []) \<and>
    (\<forall>u cs. (ep0_traffic ev (\<lambda>_. True))\<^sup>*\<^sup>* t u \<longrightarrow> host_SETUP ev cs u = Some (u, Host_NAK))"
  using misdirected_read[OF assms] deaf_stays deaf_nak(1) by blast

theorem ep0_misdirected_set_configuration_witness:
  "\<exists>t. host_control_read no_class [0x80, 9, 1, 0, 0, 0, 1, 0] (usb_bus_reset (ep0_power_on usb_config_reset ()) :: (nat, unit) usb_dev) = Some (t, []) \<and>
     host_SETUP no_class [0x80, 6, 0, 1, 0, 0, 18, 0] t = Some (t, Host_NAK)"
proof -
  have "EventCheckRequest no_class p x = Some (x, [])" for p and x :: "unit \<times> nat usb_eps" by (simp add: no_class_def)
  from ep0_misdirected_set_configuration[OF power_on_inv refl _ this, where n = 1 and l = 1] show ?thesis by fastforce
qed

end
