(* ===== verification/CDC_ACM.thy ===== *)
theory CDC_ACM
  imports USB_Endpoint USB_Control Variant
begin

section \<open>The CDC ACM function (virtual serial port)\<close>

text \<open>
  Models \<^verbatim>\<open>usb_deluxe_device_cdc_acm.c\<close> as it is built with FreeRTOS: two receive and two send
  buffers of 64 bytes, a queue of length one with the number of the receive buffer the reader may
  read, and a mutex for the send buffer. The callbacks are functions on the state behind \<open>userp\<close>. The
  registration of the function is in theory \<open>USB_Descriptor\<close>.
\<close>

subsection \<open>Data\<close>

datatype cdc_buf = Rx_Buf u8 | Tx_Buf u8

record 'd acm_iops =
  RxDone :: "('d \<Rightarrow> u8 list \<Rightarrow> 'd) option"
  SetLineCoding :: "('d \<Rightarrow> u8 list \<Rightarrow> 'd) option"
  SetControlLineState :: "('d \<Rightarrow> u8 \<Rightarrow> 'd) option"

record 'd acm_ctx =
  rx_buf :: "u8 list list"
  rx_buf_len :: "u8 list"
  rx_buf_pos :: "u8 list"
  tx_buf :: "u8 list list"
  tx_buf_len :: "u8 list"
  rx_buf_idx :: u8
  tx_buf_idx :: u8
  acm_userp :: 'd
  io_ops :: "'d acm_iops"
  USB_IFACE_COMM :: u8
  USB_IFACE_DATA :: u8
  USB_EP_COMM :: u8
  USB_EP_DATA :: u8
  line_coding :: "u8 list"
  control_signal_bitmap :: u8
  CDCDataOutHandle :: usb_handle
  CDCDataInHandle :: usb_handle
  rx_queue :: "u8 option"
  tx_lock :: bool
  rx_queue_pending :: bool
  rx_queue_pending_idx :: u8
  acm_usb :: "cdc_buf usb_eps"

subsection \<open>Setup\<close>

definition no_iops :: "'d acm_iops" where
  "no_iops = \<lparr>RxDone = None, SetLineCoding = None, SetControlLineState = None\<rparr>"

definition USBDeluxeDevice_CDC_ACM_Create ::
  "cdc_buf usb_eps \<Rightarrow> 'd \<Rightarrow> u8 \<Rightarrow> u8 \<Rightarrow> u8 \<Rightarrow> u8 \<Rightarrow> 'd acm_iops option \<Rightarrow> 'd acm_ctx" where
  "USBDeluxeDevice_CDC_ACM_Create u userp usb_iface_comm usb_iface_data usb_ep_comm usb_ep_data ops =
     \<lparr>rx_buf = [replicate 64 0, replicate 64 0], rx_buf_len = [0, 0], rx_buf_pos = [0, 0],
      tx_buf = [replicate 64 0, replicate 64 0], tx_buf_len = [0, 0], rx_buf_idx = 0, tx_buf_idx = 0,
      acm_userp = userp, io_ops = (case ops of None \<Rightarrow> no_iops | Some o' \<Rightarrow> o'),
      USB_IFACE_COMM = usb_iface_comm, USB_IFACE_DATA = usb_iface_data, USB_EP_COMM = usb_ep_comm,
      USB_EP_DATA = usb_ep_data, line_coding = replicate 7 0, control_signal_bitmap = 0,
      CDCDataOutHandle = None, CDCDataInHandle = None, rx_queue = None, tx_lock = True,
      rx_queue_pending = False, rx_queue_pending_idx = 0, acm_usb = u\<rparr>"

definition acm_arm_rx :: "u8 \<Rightarrow> 'd acm_ctx \<Rightarrow> 'd acm_ctx" where
  "acm_arm_rx i s =
     (case USBTransferOnePacket (acm_usb s) (USB_EP_DATA s) OUT_FROM_HOST (Rx_Buf i) 64 of
        (u, h) \<Rightarrow> s\<lparr>acm_usb := u, CDCDataInHandle := h\<rparr>)"

definition USBDeluxeDevice_CDC_ACM_Init :: "'d acm_ctx \<Rightarrow> 'd acm_ctx" where
  "USBDeluxeDevice_CDC_ACM_Init s =
     (let s1 = s\<lparr>line_coding := le_bytes 4 (2000000 :: u32) @ [0x00, 0x00, 0x08]\<rparr>;
          s2 = s1\<lparr>acm_usb := USBEnableEndpoint (acm_usb s1) (USB_EP_DATA s1)
                 (USB_IN_ENABLED OR USB_OUT_ENABLED OR USB_HANDSHAKE_ENABLED OR USB_DISALLOW_SETUP)\<rparr>
      in (acm_arm_rx 0 s2)\<lparr>CDCDataOutHandle := None\<rparr>)"

subsection \<open>Class requests\<close>

definition USBDeluxeDevice_CDC_ACM_EP0RxHandler_LineCoding :: "'d acm_ctx \<Rightarrow> 'd acm_ctx" where
  "USBDeluxeDevice_CDC_ACM_EP0RxHandler_LineCoding s =
     (case SetLineCoding (io_ops s) of None \<Rightarrow> s
      | Some f \<Rightarrow> s\<lparr>acm_userp := f (acm_userp s) (line_coding s)\<rparr>)"

definition USBDeluxeDevice_CDC_ACM_EP0RxHandler_ControlLineState :: "'d acm_ctx \<Rightarrow> 'd acm_ctx" where
  "USBDeluxeDevice_CDC_ACM_EP0RxHandler_ControlLineState s =
     (case SetControlLineState (io_ops s) of None \<Rightarrow> s
      | Some f \<Rightarrow> s\<lparr>acm_userp := f (acm_userp s) (control_signal_bitmap s)\<rparr>)"

definition USBDeluxeDevice_CDC_ACM_CheckRequest :: "usb_setup \<Rightarrow> 'd acm_ctx \<Rightarrow> 'd acm_ctx \<times> ep0_action" where
  "USBDeluxeDevice_CDC_ACM_CheckRequest p s =
     (if st_Recipient p \<noteq> 0x01 then (s, EP0_nothing)
      else if st_RequestType p \<noteq> 0x01 then (s, EP0_nothing)
      else if st_bIntfID p \<noteq> USB_IFACE_COMM s \<and> st_bIntfID p \<noteq> USB_IFACE_DATA s then (s, EP0_nothing)
      else if st_bRequest p = 0x00 \<or> st_bRequest p = 0x01 then (s, EP0_data (replicate 8 0))
      else if st_bRequest p = 0x20 then (s, EP0_receive (st_wLength p))
      else if st_bRequest p = 0x21 then (s, EP0_data (line_coding s))
      else if st_bRequest p = 0x22 then
        let s1 = s\<lparr>control_signal_bitmap := ucast (st_wValue p)\<rparr>;
            s2 = (case SetControlLineState (io_ops s1) of None \<Rightarrow> s1
                  | Some f \<Rightarrow> s1\<lparr>acm_userp := f (acm_userp s1) (control_signal_bitmap s1)\<rparr>)
        in (s2, EP0_empty)
      else (s, EP0_nothing))"

text \<open>
  The data of \<^verbatim>\<open>SET_LINE_CODING\<close>, received at \<^verbatim>\<open>&line_coding\<close>; the union takes 8 bytes with its padding.
  \<open>None\<close>: the data of the host overwrites the fields behind it.
\<close>

definition acm_line_coding_received :: "u8 list \<Rightarrow> 'd acm_ctx \<Rightarrow> 'd acm_ctx option" where
  "acm_line_coding_received data s =
     (if 8 < length data then None
      else Some (USBDeluxeDevice_CDC_ACM_EP0RxHandler_LineCoding
             (s\<lparr>line_coding := take 7 (data @ drop (length data) (line_coding s))\<rparr>)))"

subsection \<open>The data path\<close>

definition acm_next :: "u8 \<Rightarrow> u8" where
  "acm_next i = (i + 1) mod 2"

text \<open>The other buffer is armed before the finished packet is delivered.\<close>

definition acm_rx_flip :: "'d acm_ctx \<Rightarrow> 'd acm_ctx" where
  "acm_rx_flip s =
     (let cur_buf_idx = rx_buf_idx s;
          last_rx_len = USBHandleGetLength (acm_usb s) (CDCDataInHandle s);
          s1 = s\<lparr>rx_buf_idx := acm_next (rx_buf_idx s)\<rparr>;
          s2 = acm_arm_rx (rx_buf_idx s1) s1
      in s2\<lparr>rx_buf_len := (rx_buf_len s2)[unat cur_buf_idx := last_rx_len],
            rx_buf_pos := (rx_buf_pos s2)[unat cur_buf_idx := 0]\<rparr>)"

definition USBDeluxeDevice_CDC_ACM_TryRx :: "'d acm_ctx \<Rightarrow> 'd acm_ctx" where
  "USBDeluxeDevice_CDC_ACM_TryRx s =
     (if rx_queue_pending s then
        (case rtos_queue_send (rx_queue_pending_idx s) (rx_queue s) of
           (q, passed) \<Rightarrow> if passed then s\<lparr>rx_queue := q, rx_queue_pending := False\<rparr> else s\<lparr>rx_queue := q\<rparr>)
      else if \<not> USBHandleBusy (acm_usb s) (CDCDataInHandle s) then
        let cur_buf_idx = rx_buf_idx s;
            last_rx_len = USBHandleGetLength (acm_usb s) (CDCDataInHandle s);
            s3 = acm_rx_flip s
        in (case RxDone (io_ops s3) of
              Some f \<Rightarrow> s3\<lparr>acm_userp := f (acm_userp s3) (take (unat last_rx_len) (rx_buf s3 ! unat cur_buf_idx))\<rparr>
            | None \<Rightarrow>
                (case rtos_queue_send cur_buf_idx (rx_queue s3) of
                   (q, passed) \<Rightarrow> if passed then s3\<lparr>rx_queue := q, rx_queue_pending := False\<rparr>
                                  else s3\<lparr>rx_queue := q, rx_queue_pending := True, rx_queue_pending_idx := cur_buf_idx\<rparr>))
      else s)"

definition USBDeluxeDevice_CDC_ACM_DoTx :: "'d acm_ctx \<Rightarrow> 'd acm_ctx \<times> u8" where
  "USBDeluxeDevice_CDC_ACM_DoTx s =
     (let (s1, tx_done) =
            (if \<not> USBHandleBusy (acm_usb s) (CDCDataOutHandle s) then
               let cur_buf_idx = tx_buf_idx s
               in if tx_buf_len s ! unat cur_buf_idx \<noteq> 0 then
                    (case USBTransferOnePacket (acm_usb s) (USB_EP_DATA s) IN_TO_HOST (Tx_Buf cur_buf_idx)
                            (tx_buf_len s ! unat cur_buf_idx) of
                       (u, h) \<Rightarrow>
                         let t = s\<lparr>acm_usb := u, CDCDataOutHandle := h, tx_buf_idx := acm_next (tx_buf_idx s)\<rparr>
                         in (t\<lparr>tx_buf_len := (tx_buf_len t)[unat (tx_buf_idx t) := 0]\<rparr>, 1))
                  else (s, 0)
             else (s, 2));
          s2 = (if tx_done = 1 then s1\<lparr>tx_lock := True\<rparr> else s1)
      in (s2, tx_done))"

definition USBDeluxeDevice_CDC_ACM_Tasks :: "'d acm_ctx \<Rightarrow> 'd acm_ctx" where
  "USBDeluxeDevice_CDC_ACM_Tasks s = USBDeluxeDevice_CDC_ACM_TryRx (fst (USBDeluxeDevice_CDC_ACM_DoTx s))"

text \<open>The buffer number \<^verbatim>\<open>AcquireRxBuffer\<close> hands out, \<open>None\<close> for -1 with EAGAIN.\<close>

definition USBDeluxeDevice_CDC_ACM_AcquireRxBuffer :: "'d acm_ctx \<Rightarrow> u8 option" where
  "USBDeluxeDevice_CDC_ACM_AcquireRxBuffer s = rx_queue s"

definition USBDeluxeDevice_CDC_ACM_AdvanceRxBuffer :: "'d acm_ctx \<Rightarrow> 'd acm_ctx" where
  "USBDeluxeDevice_CDC_ACM_AdvanceRxBuffer s = s\<lparr>rx_queue := None\<rparr>"

text \<open>\<open>None\<close> in the result is -1; otherwise the bytes copied to the caller, their number is the C result.\<close>

definition USBDeluxeDevice_CDC_ACM_Read :: "u16 \<Rightarrow> 'd acm_ctx \<Rightarrow> 'd acm_ctx \<times> u8 list option" where
  "USBDeluxeDevice_CDC_ACM_Read len s =
     (case USBDeluxeDevice_CDC_ACM_AcquireRxBuffer s of
        None \<Rightarrow> (s, None)
      | Some idx \<Rightarrow>
          let i = unat idx;
              left = rx_buf_len s ! i - rx_buf_pos s ! i;
              len' = (if len > ucast left then ucast left else len);
              data = take (unat len') (drop (unat (rx_buf_pos s ! i)) (rx_buf s ! i));
              s1 = s\<lparr>rx_buf_pos := (rx_buf_pos s)[i := rx_buf_pos s ! i + ucast len']\<rparr>;
              s2 = (if rx_buf_pos s1 ! i = rx_buf_len s1 ! i then USBDeluxeDevice_CDC_ACM_AdvanceRxBuffer s1 else s1)
          in (s2, Some data))"

definition USBDeluxeDevice_CDC_ACM_AcquireTxBuffer :: "'d acm_ctx \<Rightarrow> 'd acm_ctx \<times> u8 option" where
  "USBDeluxeDevice_CDC_ACM_AcquireTxBuffer s =
     (case rtos_mutex_take (tx_lock s) of
        (l, taken) \<Rightarrow> if taken then (s\<lparr>tx_lock := l\<rparr>, Some (tx_buf_idx s)) else (s, None))"

definition USBDeluxeDevice_CDC_ACM_Write :: "u8 list \<Rightarrow> 'd acm_ctx \<Rightarrow> 'd acm_ctx \<times> nat option" where
  "USBDeluxeDevice_CDC_ACM_Write buf s =
     (case USBDeluxeDevice_CDC_ACM_AcquireTxBuffer s of
        (s1, None) \<Rightarrow> (s1, None)
      | (s1, Some idx) \<Rightarrow>
          let i = unat idx;
              len = min (length buf) 64
          in (s1\<lparr>tx_buf := (tx_buf s1)[i := take len buf @ drop len (tx_buf s1 ! i)],
                 tx_buf_len := (tx_buf_len s1)[i := of_nat len]\<rparr>, Some len))"

end
