(* ===== verification/CDC_ACM_Props.thy ===== *)
theory CDC_ACM_Props
  imports CDC_ACM
begin

section \<open>Properties of the virtual serial port\<close>

text \<open>
  The host is the environment: it sends a packet into the armed receive buffer and takes a packet out
  of the armed send buffer, reading the buffer at that moment. Runs are lists of operations of the
  host, the USB task and the application in any order; events record what was written, what reached
  the host and what the host sent. The invariant ties the armed entries to the buffer numbers.
\<close>

subsection \<open>The host and runs\<close>

definition acm_host_sends :: "u8 list \<Rightarrow> 'd acm_ctx \<Rightarrow> 'd acm_ctx \<times> bool" where
  "acm_host_sends p s =
     (case CDCDataInHandle s of None \<Rightarrow> (s, False)
      | Some h \<Rightarrow>
          if bdt_UOWN (BDT (acm_usb s) h) \<and> length p \<le> unat (bdt_CNT (BDT (acm_usb s) h)) then
            (case bdt_ADR (BDT (acm_usb s) h) of
               Rx_Buf k \<Rightarrow>
                 (s\<lparr>rx_buf := (rx_buf s)[unat k := p @ drop (length p) (rx_buf s ! unat k)],
                    acm_usb := bdt_upd h (\<lambda>e. e\<lparr>bdt_UOWN := False, bdt_CNT := of_nat (length p)\<rparr>) (acm_usb s)\<rparr>, True)
             | Tx_Buf k \<Rightarrow> (s, False))
          else (s, False))"

definition acm_host_takes :: "'d acm_ctx \<Rightarrow> 'd acm_ctx \<times> u8 list option" where
  "acm_host_takes s =
     (case CDCDataOutHandle s of None \<Rightarrow> (s, None)
      | Some h \<Rightarrow>
          if bdt_UOWN (BDT (acm_usb s) h) then
            (case bdt_ADR (BDT (acm_usb s) h) of
               Tx_Buf k \<Rightarrow>
                 (s\<lparr>acm_usb := bdt_upd h (\<lambda>e. e\<lparr>bdt_UOWN := False\<rparr>) (acm_usb s)\<rparr>,
                  Some (take (unat (bdt_CNT (BDT (acm_usb s) h))) (tx_buf s ! unat k)))
             | Rx_Buf k \<Rightarrow> (s, None))
          else (s, None))"

datatype acm_op = Op_Tasks | Op_Write "u8 list" | Op_Read u16 | Op_HostSends "u8 list" | Op_HostTakes

datatype acm_event = Written "u8 list" | HostGot "u8 list" | HostSent "u8 list" | ReadOut "u8 list"

fun acm_step :: "acm_op \<Rightarrow> 'd acm_ctx \<Rightarrow> 'd acm_ctx \<times> acm_event list" where
  "acm_step Op_Tasks s = (USBDeluxeDevice_CDC_ACM_Tasks s, [])"
| "acm_step (Op_Write d) s =
     (case USBDeluxeDevice_CDC_ACM_Write d s of
        (s', None) \<Rightarrow> (s', []) | (s', Some n) \<Rightarrow> (s', [Written (take n d)]))"
| "acm_step (Op_Read n) s =
     (case USBDeluxeDevice_CDC_ACM_Read n s of
        (s', None) \<Rightarrow> (s', []) | (s', Some d) \<Rightarrow> (s', [ReadOut d]))"
| "acm_step (Op_HostSends p) s = (case acm_host_sends p s of (s', ok) \<Rightarrow> (s', if ok then [HostSent p] else []))"
| "acm_step Op_HostTakes s =
     (case acm_host_takes s of (s', None) \<Rightarrow> (s', []) | (s', Some p) \<Rightarrow> (s', [HostGot p]))"

fun acm_run :: "acm_op list \<Rightarrow> 'd acm_ctx \<Rightarrow> 'd acm_ctx \<times> acm_event list" where
  "acm_run [] s = (s, [])"
| "acm_run (x # xs) s = (case acm_step x s of (s1, e1) \<Rightarrow> case acm_run xs s1 of (s2, e2) \<Rightarrow> (s2, e1 @ e2))"

fun ev_written :: "acm_event list \<Rightarrow> u8 list list" where
  "ev_written [] = []"
| "ev_written (Written d # es) = d # ev_written es"
| "ev_written (_ # es) = ev_written es"

fun ev_got :: "acm_event list \<Rightarrow> u8 list list" where
  "ev_got [] = []"
| "ev_got (HostGot d # es) = d # ev_got es"
| "ev_got (_ # es) = ev_got es"

fun ev_sent :: "acm_event list \<Rightarrow> u8 list list" where
  "ev_sent [] = []"
| "ev_sent (HostSent d # es) = d # ev_sent es"
| "ev_sent (_ # es) = ev_sent es"

fun ev_read :: "acm_event list \<Rightarrow> u8 list list" where
  "ev_read [] = []"
| "ev_read (ReadOut d # es) = d # ev_read es"
| "ev_read (_ # es) = ev_read es"

lemma ev_append [simp]:
  "ev_written (es @ fs) = ev_written es @ ev_written fs"
  "ev_got (es @ fs) = ev_got es @ ev_got fs"
  "ev_sent (es @ fs) = ev_sent es @ ev_sent fs"
  "ev_read (es @ fs) = ev_read es @ ev_read fs"
  by (induction es rule: ev_written.induct; simp)+

subsection \<open>The invariant\<close>

definition acm_bufs :: "'d acm_ctx \<Rightarrow> bool" where
  "acm_bufs s \<longleftrightarrow>
     length (rx_buf s) = 2 \<and> list_all (\<lambda>b. length b = 64) (rx_buf s) \<and> length (rx_buf_len s) = 2 \<and>
     length (rx_buf_pos s) = 2 \<and> length (tx_buf s) = 2 \<and> list_all (\<lambda>b. length b = 64) (tx_buf s) \<and>
     length (tx_buf_len s) = 2 \<and> (rx_buf_idx s = 0 \<or> rx_buf_idx s = 1) \<and> (tx_buf_idx s = 0 \<or> tx_buf_idx s = 1)"

text \<open>The armed receive entry is for the current receive buffer.\<close>

definition acm_rx_ok :: "'d acm_ctx \<Rightarrow> bool" where
  "acm_rx_ok s \<longleftrightarrow>
     (\<exists>a. CDCDataInHandle s = Some (USB_EP_DATA s, OUT_FROM_HOST, a) \<and>
          bdt_ADR (BDT (acm_usb s) (USB_EP_DATA s, OUT_FROM_HOST, a)) = Rx_Buf (rx_buf_idx s) \<and>
          bdt_CNT (BDT (acm_usb s) (USB_EP_DATA s, OUT_FROM_HOST, a)) \<le> 64 \<and>
          (bdt_UOWN (BDT (acm_usb s) (USB_EP_DATA s, OUT_FROM_HOST, a)) \<longrightarrow>
             bdt_CNT (BDT (acm_usb s) (USB_EP_DATA s, OUT_FROM_HOST, a)) = 64))"

text \<open>A packet in flight is in the other send buffer.\<close>

definition acm_tx_ok :: "'d acm_ctx \<Rightarrow> bool" where
  "acm_tx_ok s \<longleftrightarrow>
     (\<forall>h. CDCDataOutHandle s = Some h \<longrightarrow>
        (\<exists>a. h = (USB_EP_DATA s, IN_TO_HOST, a)) \<and>
        (bdt_UOWN (BDT (acm_usb s) h) \<longrightarrow> bdt_ADR (BDT (acm_usb s) h) = Tx_Buf (acm_next (tx_buf_idx s))))"

text \<open>The mutex is free exactly if nothing waits in the current send buffer.\<close>

definition acm_lock_ok :: "'d acm_ctx \<Rightarrow> bool" where
  "acm_lock_ok s \<longleftrightarrow> (tx_lock s \<longleftrightarrow> tx_buf_len s ! unat (tx_buf_idx s) = 0)"

definition acm_inv :: "'d acm_ctx \<Rightarrow> bool" where
  "acm_inv s \<longleftrightarrow> acm_bufs s \<and> usb_eps_ok (acm_usb s) (USB_EP_DATA s) (USB_EP_DATA s) \<and> acm_rx_ok s \<and> acm_tx_ok s"

definition acm_pending :: "'d acm_ctx \<Rightarrow> u8 list list" where
  "acm_pending s = (if tx_lock s then [] else [take (unat (tx_buf_len s ! unat (tx_buf_idx s))) (tx_buf s ! unat (tx_buf_idx s))])"

definition acm_inflight :: "'d acm_ctx \<Rightarrow> u8 list list" where
  "acm_inflight s =
     (case CDCDataOutHandle s of None \<Rightarrow> []
      | Some h \<Rightarrow> if bdt_UOWN (BDT (acm_usb s) h)
                  then [take (unat (bdt_CNT (BDT (acm_usb s) h))) (tx_buf s ! unat (acm_next (tx_buf_idx s)))] else [])"

definition acm_waiting :: "'d acm_ctx \<Rightarrow> u8 list list" where
  "acm_waiting s =
     (case CDCDataInHandle s of None \<Rightarrow> []
      | Some h \<Rightarrow> if bdt_UOWN (BDT (acm_usb s) h) then []
                  else [take (unat (bdt_CNT (BDT (acm_usb s) h))) (rx_buf s ! unat (rx_buf_idx s))])"

lemma acm_next_simps [simp]: "acm_next 0 = 1" "acm_next 1 = 0" by (simp_all add: acm_next_def)

lemma two_list: "length xs = 2 \<longleftrightarrow> (\<exists>a b. xs = [a, b])"
  by (auto simp: numeral_2_eq_2 length_Suc_conv)

lemmas acm_inv_defs = acm_inv_def acm_bufs_def acm_rx_ok_def acm_tx_ok_def
lemmas acm_views = acm_pending_def acm_inflight_def acm_waiting_def

subsection \<open>Each operation\<close>

definition acm_rx_same :: "'d acm_ctx \<Rightarrow> 'd acm_ctx \<Rightarrow> bool" where
  "acm_rx_same s s' \<longleftrightarrow> acm_userp s' = acm_userp s \<and> io_ops s' = io_ops s \<and> acm_waiting s' = acm_waiting s \<and>
     rx_queue_pending s' = rx_queue_pending s \<and> rx_queue s' = rx_queue s"

definition armed :: "'b \<Rightarrow> u8 \<Rightarrow> 'b bdt_entry \<Rightarrow> 'b bdt_entry" where
  "armed b n e = e\<lparr>bdt_ADR := b, bdt_CNT := n, bdt_BSTALL := False, bdt_DTSEN := True, bdt_UOWN := True\<rparr>"

lemma armed_simps [simp]: "bdt_UOWN (armed b n e)" "bdt_ADR (armed b n e) = b" "bdt_CNT (armed b n e) = n"
  by (simp_all add: armed_def)

lemma transfer_in_entry:
  assumes "usb_eps_ok u ep ep"
  obtains a u' where "USBTransferOnePacket u ep IN_TO_HOST b n = (u', Some (ep, IN_TO_HOST, a))" "usb_eps_ok u' ep ep"
    "BDT u' = (BDT u)((ep, IN_TO_HOST, a) := armed b n (BDT u (ep, IN_TO_HOST, a)))"
proof -
  from assms obtain a where a: "pBDTEntryIn u ep = Some (ep, IN_TO_HOST, a)" by (auto simp: usb_eps_ok_def)
  show ?thesis
    by (rule that[of "fst (USBTransferOnePacket u ep IN_TO_HOST b n)" a])
      (use assms a in \<open>auto simp: USBTransferOnePacket_def usb_eps_ok_def Let_def bdt_upd_def armed_def\<close>)
qed

lemma transfer_out_entry:
  assumes "usb_eps_ok u ep ep"
  obtains a u' where "USBTransferOnePacket u ep OUT_FROM_HOST b n = (u', Some (ep, OUT_FROM_HOST, a))" "usb_eps_ok u' ep ep"
    "BDT u' = (BDT u)((ep, OUT_FROM_HOST, a) := armed b n (BDT u (ep, OUT_FROM_HOST, a)))"
proof -
  from assms obtain a where a: "pBDTEntryOut u ep = Some (ep, OUT_FROM_HOST, a)" by (auto simp: usb_eps_ok_def)
  show ?thesis
    by (rule that[of "fst (USBTransferOnePacket u ep OUT_FROM_HOST b n)" a])
      (use assms a in \<open>auto simp: USBTransferOnePacket_def usb_eps_ok_def Let_def bdt_upd_def armed_def\<close>)
qed

lemma idx_facts:
  assumes "i = 0 \<or> i = (1 :: u8)"
  shows "acm_next i = 0 \<or> acm_next i = 1" "acm_next (acm_next i) = i" "unat i < 2" "unat (acm_next i) < 2" "unat (acm_next i) \<noteq> unat i"
  using assms by auto

lemma dotx_ok:
  assumes "acm_inv s"
  shows "acm_inv (fst (USBDeluxeDevice_CDC_ACM_DoTx s)) \<and> acm_rx_same s (fst (USBDeluxeDevice_CDC_ACM_DoTx s)) \<and>
    (acm_lock_ok s \<longrightarrow> acm_lock_ok (fst (USBDeluxeDevice_CDC_ACM_DoTx s)) \<and>
      acm_inflight (fst (USBDeluxeDevice_CDC_ACM_DoTx s)) @ acm_pending (fst (USBDeluxeDevice_CDC_ACM_DoTx s)) =
        acm_inflight s @ acm_pending s \<and>
      (acm_inflight s = [] \<longrightarrow> acm_pending (fst (USBDeluxeDevice_CDC_ACM_DoTx s)) = []))"
proof (cases "USBHandleBusy (acm_usb s) (CDCDataOutHandle s) \<or> tx_buf_len s ! unat (tx_buf_idx s) = 0")
  case True
  then have "fst (USBDeluxeDevice_CDC_ACM_DoTx s) = s" by (auto simp: USBDeluxeDevice_CDC_ACM_DoTx_def Let_def)
  moreover have "acm_pending s = []" if "acm_lock_ok s" "acm_inflight s = []"
    using that True by (auto simp: acm_lock_ok_def acm_pending_def acm_inflight_def USBHandleBusy_def split: option.splits)
  ultimately show ?thesis using assms by (simp add: acm_rx_same_def)
next
  case False
  let ?i = "tx_buf_idx s" let ?n = "tx_buf_len s ! unat ?i"
  have b: "acm_bufs s" and e: "usb_eps_ok (acm_usb s) (USB_EP_DATA s) (USB_EP_DATA s)" and r: "acm_rx_ok s" and x: "acm_tx_ok s"
    using assms by (auto simp: acm_inv_def)
  from transfer_in_entry[OF e] obtain a u where t:
    "USBTransferOnePacket (acm_usb s) (USB_EP_DATA s) IN_TO_HOST (Tx_Buf ?i) ?n = (u, Some (USB_EP_DATA s, IN_TO_HOST, a))"
    "usb_eps_ok u (USB_EP_DATA s) (USB_EP_DATA s)"
    "BDT u = (BDT (acm_usb s))((USB_EP_DATA s, IN_TO_HOST, a) := armed (Tx_Buf ?i) ?n (BDT (acm_usb s) (USB_EP_DATA s, IN_TO_HOST, a)))"
    by blast
  have i: "?i = 0 \<or> ?i = 1" using b by (simp add: acm_bufs_def)
  note I = idx_facts[OF i]
  define s' where "s' = s\<lparr>acm_usb := u, CDCDataOutHandle := Some (USB_EP_DATA s, IN_TO_HOST, a), tx_buf_idx := acm_next ?i,
    tx_buf_len := (tx_buf_len s)[unat (acm_next ?i) := 0], tx_lock := True\<rparr>"
  have s': "fst (USBDeluxeDevice_CDC_ACM_DoTx s) = s'"
    using False t(1) by (simp add: USBDeluxeDevice_CDC_ACM_DoTx_def Let_def s'_def)
  have "acm_bufs s'" using b I(1) by (simp add: acm_bufs_def s'_def)
  moreover have "acm_rx_ok s'" using r t(3) by (auto simp: acm_rx_ok_def s'_def)
  moreover have "acm_tx_ok s'" using t(3) I b by (simp add: acm_tx_ok_def s'_def acm_bufs_def)
  moreover have "acm_rx_same s s'" using r t(3) by (auto simp: acm_rx_same_def acm_rx_ok_def acm_waiting_def s'_def)
  moreover have "acm_inflight s = []" using False by (auto simp: acm_inflight_def USBHandleBusy_def split: option.splits)
  moreover have "acm_lock_ok s'" using b I by (simp add: acm_lock_ok_def acm_bufs_def s'_def)
  moreover have "acm_lock_ok s \<Longrightarrow> \<not> tx_lock s" using False by (simp add: acm_lock_ok_def)
  moreover have "acm_inflight s' = [take (unat ?n) (tx_buf s ! unat ?i)]" "acm_pending s' = []"
    using t(3) I by (simp_all add: acm_inflight_def acm_pending_def s'_def)
  ultimately show ?thesis unfolding s' using t(2) by (simp add: acm_inv_def acm_pending_def s'_def)
qed

lemma arm_rx_ok:
  assumes "usb_eps_ok (acm_usb s) (USB_EP_DATA s) (USB_EP_DATA s)"
  obtains a u where "acm_arm_rx i s = s\<lparr>acm_usb := u, CDCDataInHandle := Some (USB_EP_DATA s, OUT_FROM_HOST, a)\<rparr>"
    "usb_eps_ok u (USB_EP_DATA s) (USB_EP_DATA s)"
    "BDT u = (BDT (acm_usb s))((USB_EP_DATA s, OUT_FROM_HOST, a) := armed (Rx_Buf i) 64 (BDT (acm_usb s) (USB_EP_DATA s, OUT_FROM_HOST, a)))"
proof -
  from transfer_out_entry[OF assms, of "Rx_Buf i" 64] obtain a u where
    "USBTransferOnePacket (acm_usb s) (USB_EP_DATA s) OUT_FROM_HOST (Rx_Buf i) 64 = (u, Some (USB_EP_DATA s, OUT_FROM_HOST, a))"
    "usb_eps_ok u (USB_EP_DATA s) (USB_EP_DATA s)"
    "BDT u = (BDT (acm_usb s))((USB_EP_DATA s, OUT_FROM_HOST, a) := armed (Rx_Buf i) 64 (BDT (acm_usb s) (USB_EP_DATA s, OUT_FROM_HOST, a)))"
    by blast
  then show ?thesis by (intro that[where u = u and a = a]) (simp_all add: acm_arm_rx_def)
qed

lemma flip_ok:
  assumes "acm_inv s"
  obtains a u where "acm_rx_flip s = s\<lparr>rx_buf_idx := acm_next (rx_buf_idx s), acm_usb := u,
      CDCDataInHandle := Some (USB_EP_DATA s, OUT_FROM_HOST, a),
      rx_buf_len := (rx_buf_len s)[unat (rx_buf_idx s) := USBHandleGetLength (acm_usb s) (CDCDataInHandle s)],
      rx_buf_pos := (rx_buf_pos s)[unat (rx_buf_idx s) := 0]\<rparr>"
    "acm_inv (acm_rx_flip s)" "acm_waiting (acm_rx_flip s) = []"
    "acm_inflight (acm_rx_flip s) = acm_inflight s" "acm_pending (acm_rx_flip s) = acm_pending s"
    "acm_lock_ok (acm_rx_flip s) = acm_lock_ok s"
    "bdt_UOWN (BDT u (USB_EP_DATA s, OUT_FROM_HOST, a))"
    "bdt_ADR (BDT u (USB_EP_DATA s, OUT_FROM_HOST, a)) = Rx_Buf (acm_next (rx_buf_idx s))"
proof -
  let ?i = "rx_buf_idx s" let ?t = "s\<lparr>rx_buf_idx := acm_next ?i\<rparr>"
  have b: "acm_bufs s" and e: "usb_eps_ok (acm_usb s) (USB_EP_DATA s) (USB_EP_DATA s)" and r: "acm_rx_ok s" and x: "acm_tx_ok s"
    using assms by (auto simp: acm_inv_def)
  have e': "usb_eps_ok (acm_usb ?t) (USB_EP_DATA ?t) (USB_EP_DATA ?t)" using e by simp
  from arm_rx_ok[OF e', of "acm_next ?i"] obtain a u where t:
    "acm_arm_rx (acm_next ?i) ?t = ?t\<lparr>acm_usb := u, CDCDataInHandle := Some (USB_EP_DATA s, OUT_FROM_HOST, a)\<rparr>"
    "usb_eps_ok u (USB_EP_DATA s) (USB_EP_DATA s)"
    "BDT u = (BDT (acm_usb s))((USB_EP_DATA s, OUT_FROM_HOST, a) :=
       armed (Rx_Buf (acm_next ?i)) 64 (BDT (acm_usb s) (USB_EP_DATA s, OUT_FROM_HOST, a)))" by auto
  define s' where "s' = s\<lparr>rx_buf_idx := acm_next ?i, acm_usb := u,
      CDCDataInHandle := Some (USB_EP_DATA s, OUT_FROM_HOST, a),
      rx_buf_len := (rx_buf_len s)[unat ?i := USBHandleGetLength (acm_usb s) (CDCDataInHandle s)],
      rx_buf_pos := (rx_buf_pos s)[unat ?i := 0]\<rparr>"
  have s': "acm_rx_flip s = s'" using t(1) by (simp add: acm_rx_flip_def Let_def s'_def)
  have i: "?i = 0 \<or> ?i = 1" using b by (simp add: acm_bufs_def)
  note I = idx_facts[OF i]
  have "acm_bufs s'" using b I(1) by (simp add: acm_bufs_def s'_def)
  moreover have "acm_rx_ok s'" using t(3) by (auto simp: acm_rx_ok_def s'_def)
  moreover have "acm_tx_ok s'" using x t(3) by (fastforce simp: acm_tx_ok_def s'_def)
  ultimately have "acm_inv (acm_rx_flip s)" using t(2) unfolding s' by (simp add: acm_inv_def s'_def)
  moreover have "acm_inflight s' = acm_inflight s"
    using x t(3) by (auto simp: acm_inflight_def acm_tx_ok_def s'_def split: option.split)
  moreover have "acm_waiting s' = []" using t(3) by (simp add: acm_waiting_def s'_def)
  moreover have "acm_pending s' = acm_pending s" by (simp add: acm_pending_def s'_def)
  moreover have "acm_lock_ok s' = acm_lock_ok s" by (simp add: acm_lock_ok_def s'_def)
  ultimately show ?thesis using t(3) by (intro that[where u = u and a = a]) (simp_all add: s' s'_def)
qed

lemma tryrx_cases:
  assumes "acm_inv s"
  obtains (again) q b where "USBDeluxeDevice_CDC_ACM_TryRx s = s\<lparr>rx_queue := q, rx_queue_pending := b\<rparr>" "rx_queue_pending s"
  | (none) "USBDeluxeDevice_CDC_ACM_TryRx s = s" "\<not> rx_queue_pending s" "USBHandleBusy (acm_usb s) (CDCDataInHandle s)"
  | (call) f where "RxDone (io_ops s) = Some f" "\<not> rx_queue_pending s" "\<not> USBHandleBusy (acm_usb s) (CDCDataInHandle s)"
      "USBDeluxeDevice_CDC_ACM_TryRx s = (acm_rx_flip s)\<lparr>acm_userp := f (acm_userp s)
         (take (unat (USBHandleGetLength (acm_usb s) (CDCDataInHandle s))) (rx_buf s ! unat (rx_buf_idx s)))\<rparr>"
  | (queue) q b k where "RxDone (io_ops s) = None" "\<not> rx_queue_pending s" "\<not> USBHandleBusy (acm_usb s) (CDCDataInHandle s)"
      "USBDeluxeDevice_CDC_ACM_TryRx s = (acm_rx_flip s)\<lparr>rx_queue := q, rx_queue_pending := b, rx_queue_pending_idx := k\<rparr>"
proof -
  from flip_ok[OF assms] obtain a u where f: "acm_rx_flip s = s\<lparr>rx_buf_idx := acm_next (rx_buf_idx s), acm_usb := u,
      CDCDataInHandle := Some (USB_EP_DATA s, OUT_FROM_HOST, a),
      rx_buf_len := (rx_buf_len s)[unat (rx_buf_idx s) := USBHandleGetLength (acm_usb s) (CDCDataInHandle s)],
      rx_buf_pos := (rx_buf_pos s)[unat (rx_buf_idx s) := 0]\<rparr>" by metis
  consider "rx_queue_pending s" | "\<not> rx_queue_pending s" "USBHandleBusy (acm_usb s) (CDCDataInHandle s)"
    | "\<not> rx_queue_pending s" "\<not> USBHandleBusy (acm_usb s) (CDCDataInHandle s)" by blast
  then show ?thesis
  proof cases
    case 1
    show ?thesis
      by (rule again[where q = "fst (rtos_queue_send (rx_queue_pending_idx s) (rx_queue s))" and b = "\<not> snd (rtos_queue_send (rx_queue_pending_idx s) (rx_queue s))"])
        (use 1 in \<open>simp_all add: USBDeluxeDevice_CDC_ACM_TryRx_def split: prod.split\<close>)
  next
    case 2
    then show ?thesis by (intro none) (simp_all add: USBDeluxeDevice_CDC_ACM_TryRx_def)
  next
    case 3
    have F: "io_ops (acm_rx_flip s) = io_ops s" "acm_userp (acm_rx_flip s) = acm_userp s" "rx_buf (acm_rx_flip s) = rx_buf s"
      "rx_queue (acm_rx_flip s) = rx_queue s" "rx_queue_pending_idx (acm_rx_flip s) = rx_queue_pending_idx s"
      unfolding f by simp_all
    have "USBDeluxeDevice_CDC_ACM_TryRx s =
      (case RxDone (io_ops (acm_rx_flip s)) of
         Some f \<Rightarrow> (acm_rx_flip s)\<lparr>acm_userp := f (acm_userp (acm_rx_flip s))
           (take (unat (USBHandleGetLength (acm_usb s) (CDCDataInHandle s))) (rx_buf (acm_rx_flip s) ! unat (rx_buf_idx s)))\<rparr>
       | None \<Rightarrow> (case rtos_queue_send (rx_buf_idx s) (rx_queue (acm_rx_flip s)) of
           (q, passed) \<Rightarrow> if passed then (acm_rx_flip s)\<lparr>rx_queue := q, rx_queue_pending := False\<rparr>
             else (acm_rx_flip s)\<lparr>rx_queue := q, rx_queue_pending := True, rx_queue_pending_idx := rx_buf_idx s\<rparr>))"
      using 3 by (simp add: USBDeluxeDevice_CDC_ACM_TryRx_def Let_def)
    note D = this[unfolded F]
    show ?thesis
    proof (cases "RxDone (io_ops s)")
      case None
      obtain q p where q: "rtos_queue_send (rx_buf_idx s) (rx_queue s) = (q, p)" by fastforce
      show ?thesis
        by (rule queue[where q = q and b = "\<not> p" and k = "if p then rx_queue_pending_idx s else rx_buf_idx s"])
          (use None 3 D q F in simp_all)
    next
      case (Some f)
      then show ?thesis using 3 D by (intro call) simp_all
    qed
  qed
qed

text \<open>The fields of the reader's queue and of the application play no part in the invariant.\<close>

lemma acm_frame [simp]:
  "acm_inv (s\<lparr>rx_queue := q\<rparr>) = acm_inv s" "acm_inv (s\<lparr>rx_queue_pending := b\<rparr>) = acm_inv s"
  "acm_inv (s\<lparr>rx_queue_pending_idx := k\<rparr>) = acm_inv s" "acm_inv (s\<lparr>acm_userp := d\<rparr>) = acm_inv s"
  "acm_inflight (s\<lparr>rx_queue := q\<rparr>) = acm_inflight s" "acm_inflight (s\<lparr>rx_queue_pending := b\<rparr>) = acm_inflight s"
  "acm_inflight (s\<lparr>rx_queue_pending_idx := k\<rparr>) = acm_inflight s" "acm_inflight (s\<lparr>acm_userp := d\<rparr>) = acm_inflight s"
  "acm_pending (s\<lparr>rx_queue := q\<rparr>) = acm_pending s" "acm_pending (s\<lparr>rx_queue_pending := b\<rparr>) = acm_pending s"
  "acm_pending (s\<lparr>rx_queue_pending_idx := k\<rparr>) = acm_pending s" "acm_pending (s\<lparr>acm_userp := d\<rparr>) = acm_pending s"
  "acm_waiting (s\<lparr>rx_queue := q\<rparr>) = acm_waiting s" "acm_waiting (s\<lparr>rx_queue_pending := b\<rparr>) = acm_waiting s"
  "acm_waiting (s\<lparr>rx_queue_pending_idx := k\<rparr>) = acm_waiting s" "acm_waiting (s\<lparr>acm_userp := d\<rparr>) = acm_waiting s"
  "acm_lock_ok (s\<lparr>rx_queue := q\<rparr>) = acm_lock_ok s" "acm_lock_ok (s\<lparr>rx_queue_pending := b\<rparr>) = acm_lock_ok s"
  "acm_lock_ok (s\<lparr>rx_queue_pending_idx := k\<rparr>) = acm_lock_ok s" "acm_lock_ok (s\<lparr>acm_userp := d\<rparr>) = acm_lock_ok s"
  by (simp_all add: acm_lock_ok_def acm_inv_defs acm_views split: option.split)

definition acm_calls :: "('d \<Rightarrow> u8 list \<Rightarrow> 'd) \<Rightarrow> 'd acm_ctx \<Rightarrow> bool" where
  "acm_calls f s \<longleftrightarrow> RxDone (io_ops s) = Some f \<and> \<not> rx_queue_pending s"

definition acm_delivered :: "('d \<Rightarrow> u8 list \<Rightarrow> 'd) \<Rightarrow> 'd acm_ctx \<Rightarrow> 'd" where
  "acm_delivered f s = foldl f (acm_userp s) (acm_waiting s)"

lemma tryrx_ok:
  assumes "acm_inv s"
  shows "acm_inv (USBDeluxeDevice_CDC_ACM_TryRx s)"
    "acm_inflight (USBDeluxeDevice_CDC_ACM_TryRx s) = acm_inflight s" "acm_pending (USBDeluxeDevice_CDC_ACM_TryRx s) = acm_pending s"
    "acm_lock_ok (USBDeluxeDevice_CDC_ACM_TryRx s) = acm_lock_ok s"
    "acm_calls f s \<Longrightarrow> acm_calls f (USBDeluxeDevice_CDC_ACM_TryRx s) \<and>
       acm_delivered f (USBDeluxeDevice_CDC_ACM_TryRx s) = acm_delivered f s"
proof -
  from flip_ok[OF assms] obtain a u where f: "acm_rx_flip s = s\<lparr>rx_buf_idx := acm_next (rx_buf_idx s), acm_usb := u,
      CDCDataInHandle := Some (USB_EP_DATA s, OUT_FROM_HOST, a),
      rx_buf_len := (rx_buf_len s)[unat (rx_buf_idx s) := USBHandleGetLength (acm_usb s) (CDCDataInHandle s)],
      rx_buf_pos := (rx_buf_pos s)[unat (rx_buf_idx s) := 0]\<rparr>"
    and F: "acm_inv (acm_rx_flip s)" "acm_waiting (acm_rx_flip s) = []"
    "acm_inflight (acm_rx_flip s) = acm_inflight s" "acm_pending (acm_rx_flip s) = acm_pending s"
    "acm_lock_ok (acm_rx_flip s) = acm_lock_ok s" by metis
  have G: "io_ops (acm_rx_flip s) = io_ops s" "rx_queue_pending (acm_rx_flip s) = rx_queue_pending s" unfolding f by simp_all
  have r: "acm_rx_ok s" using assms by (simp add: acm_inv_def)
  show "acm_inv (USBDeluxeDevice_CDC_ACM_TryRx s)"
    "acm_inflight (USBDeluxeDevice_CDC_ACM_TryRx s) = acm_inflight s" "acm_pending (USBDeluxeDevice_CDC_ACM_TryRx s) = acm_pending s"
    "acm_lock_ok (USBDeluxeDevice_CDC_ACM_TryRx s) = acm_lock_ok s"
    by (cases rule: tryrx_cases[OF assms]; simp add: F assms)+
  assume c: "acm_calls f s"
  show "acm_calls f (USBDeluxeDevice_CDC_ACM_TryRx s) \<and> acm_delivered f (USBDeluxeDevice_CDC_ACM_TryRx s) = acm_delivered f s"
  proof (cases rule: tryrx_cases[OF assms, case_names again none call queue])
    case (call g)
    then have "acm_waiting s = [take (unat (USBHandleGetLength (acm_usb s) (CDCDataInHandle s))) (rx_buf s ! unat (rx_buf_idx s))]"
      using r by (auto simp: acm_waiting_def acm_rx_ok_def USBHandleBusy_def USBHandleGetLength_def)
    then show ?thesis using call c F G by (simp add: acm_calls_def acm_delivered_def)
  qed (use c in \<open>simp_all add: acm_calls_def\<close>)
qed

lemma tasks_ok:
  assumes "acm_inv s"
  shows "acm_inv (USBDeluxeDevice_CDC_ACM_Tasks s)"
    "acm_lock_ok s \<Longrightarrow> acm_lock_ok (USBDeluxeDevice_CDC_ACM_Tasks s) \<and>
      acm_inflight (USBDeluxeDevice_CDC_ACM_Tasks s) @ acm_pending (USBDeluxeDevice_CDC_ACM_Tasks s) = acm_inflight s @ acm_pending s \<and>
      (acm_inflight s = [] \<longrightarrow> acm_pending (USBDeluxeDevice_CDC_ACM_Tasks s) = [])"
    "acm_calls f s \<Longrightarrow> acm_calls f (USBDeluxeDevice_CDC_ACM_Tasks s) \<and>
       acm_delivered f (USBDeluxeDevice_CDC_ACM_Tasks s) = acm_delivered f s"
    "acm_calls f s \<Longrightarrow> acm_waiting (USBDeluxeDevice_CDC_ACM_Tasks s) = []"
proof -
  let ?t = "fst (USBDeluxeDevice_CDC_ACM_DoTx s)"
  note D = dotx_ok[OF assms]
  then have t: "acm_inv ?t" by simp
  note T = tryrx_ok[OF t]
  show "acm_inv (USBDeluxeDevice_CDC_ACM_Tasks s)"
    "acm_lock_ok s \<Longrightarrow> acm_lock_ok (USBDeluxeDevice_CDC_ACM_Tasks s) \<and>
      acm_inflight (USBDeluxeDevice_CDC_ACM_Tasks s) @ acm_pending (USBDeluxeDevice_CDC_ACM_Tasks s) = acm_inflight s @ acm_pending s \<and>
      (acm_inflight s = [] \<longrightarrow> acm_pending (USBDeluxeDevice_CDC_ACM_Tasks s) = [])"
    "acm_calls f s \<Longrightarrow> acm_calls f (USBDeluxeDevice_CDC_ACM_Tasks s) \<and>
       acm_delivered f (USBDeluxeDevice_CDC_ACM_Tasks s) = acm_delivered f s"
    using D T by (simp_all add: USBDeluxeDevice_CDC_ACM_Tasks_def acm_rx_same_def acm_calls_def acm_delivered_def)
  assume "acm_calls f s"
  then have c: "acm_calls f ?t" using D by (simp add: acm_rx_same_def acm_calls_def)
  obtain w where w: "acm_waiting (acm_rx_flip ?t) = []" using flip_ok[OF t] by metis
  have n: "acm_waiting ?t = []" if "USBHandleBusy (acm_usb ?t) (CDCDataInHandle ?t)"
    using that by (auto simp: acm_waiting_def USBHandleBusy_def split: option.splits)
  show "acm_waiting (USBDeluxeDevice_CDC_ACM_Tasks s) = []"
    unfolding USBDeluxeDevice_CDC_ACM_Tasks_def
    by (cases rule: tryrx_cases[OF t]) (use c w n in \<open>simp_all add: acm_calls_def\<close>)
qed

lemma acm_write_ok:
  assumes "acm_inv s" and "USBDeluxeDevice_CDC_ACM_Write d s = (s', r)"
  shows "acm_inv s' \<and> acm_rx_same s s' \<and> acm_inflight s' = acm_inflight s \<and>
    acm_pending s' = acm_pending s @ (case r of None \<Rightarrow> [] | Some n \<Rightarrow> [take n d]) \<and>
    (d \<noteq> [] \<and> acm_lock_ok s \<longrightarrow> acm_lock_ok s')"
proof (cases "tx_lock s")
  case False
  then have "s' = s" "r = None" using assms(2)
    by (auto simp: USBDeluxeDevice_CDC_ACM_Write_def USBDeluxeDevice_CDC_ACM_AcquireTxBuffer_def rtos_mutex_take_def)
  then show ?thesis using assms(1) by (simp add: acm_rx_same_def)
next
  case True
  let ?i = "unat (tx_buf_idx s)" let ?n = "min (length d) 64"
  have b: "acm_bufs s" and x: "acm_tx_ok s" using assms(1) by (auto simp: acm_inv_def)
  then have i: "tx_buf_idx s = 0 \<or> tx_buf_idx s = 1" by (simp add: acm_bufs_def)
  note I = idx_facts[OF i]
  have s': "s' = s\<lparr>tx_lock := False, tx_buf := (tx_buf s)[?i := take ?n d @ drop ?n (tx_buf s ! ?i)],
      tx_buf_len := (tx_buf_len s)[?i := of_nat ?n]\<rparr>" and r: "r = Some ?n"
    using assms(2) True
    by (auto simp: USBDeluxeDevice_CDC_ACM_Write_def USBDeluxeDevice_CDC_ACM_AcquireTxBuffer_def rtos_mutex_take_def Let_def)
  have n: "unat (of_nat ?n :: u8) = ?n" by (simp add: unat_of_nat)
  then have nz: "d \<noteq> [] \<Longrightarrow> (of_nat ?n :: u8) \<noteq> 0"
    by (metis length_greater_0_conv less_irrefl min_less_iff_conj unat_0 zero_less_numeral)
  have li: "?i < length (tx_buf s)" "?i < length (tx_buf_len s)" using b I by (auto simp: acm_bufs_def)
  have l: "length (tx_buf s ! ?i) = 64" using b li by (simp add: acm_bufs_def list_all_length)
  have "list_all (\<lambda>b. length b = 64) (tx_buf s')"
    using b l unfolding s' by (auto simp: acm_bufs_def list_all_length nth_list_update)
  then have "acm_bufs s'" using b unfolding s' by (simp add: acm_bufs_def)
  moreover have "acm_tx_ok s'" using x unfolding s' by (simp add: acm_tx_ok_def)
  moreover have "d \<noteq> [] \<longrightarrow> acm_lock_ok s'" using nz li unfolding s' by (simp add: acm_lock_ok_def)
  moreover have "acm_rx_ok s'" "usb_eps_ok (acm_usb s') (USB_EP_DATA s') (USB_EP_DATA s')"
    using assms(1) unfolding s' by (auto simp: acm_inv_def acm_rx_ok_def)
  moreover have "acm_rx_same s s'" unfolding s' by (simp add: acm_rx_same_def acm_waiting_def split: option.split)
  moreover have "acm_inflight s' = acm_inflight s" using I unfolding s' by (simp add: acm_inflight_def split: option.split)
  moreover have "acm_pending s' = [take ?n d]" using li n unfolding s' by (simp add: acm_pending_def)
  moreover have "acm_pending s = []" using True by (simp add: acm_pending_def)
  ultimately show ?thesis using r by (simp add: acm_inv_def)
qed

lemma acm_read_ok:
  assumes "acm_inv s" and "USBDeluxeDevice_CDC_ACM_Read n s = (s', r)"
  shows "acm_inv s' \<and> acm_userp s' = acm_userp s \<and> io_ops s' = io_ops s \<and> acm_waiting s' = acm_waiting s \<and>
    rx_queue_pending s' = rx_queue_pending s \<and> acm_inflight s' = acm_inflight s \<and> acm_pending s' = acm_pending s \<and>
    acm_lock_ok s' = acm_lock_ok s"
proof -
  have "\<exists>pos q. s' = s\<lparr>rx_buf_pos := pos, rx_queue := q\<rparr> \<and> length pos = length (rx_buf_pos s)"
  proof (cases "rx_queue s")
    case None
    then show ?thesis using assms(2)
      by (intro exI[of _ "rx_buf_pos s"] exI[of _ "rx_queue s"])
        (simp add: USBDeluxeDevice_CDC_ACM_Read_def USBDeluxeDevice_CDC_ACM_AcquireRxBuffer_def)
  next
    case (Some idx)
    then show ?thesis using assms(2)
      by (intro exI[of _ "rx_buf_pos s'"] exI[of _ "rx_queue s'"])
        (auto simp: USBDeluxeDevice_CDC_ACM_Read_def USBDeluxeDevice_CDC_ACM_AcquireRxBuffer_def
          USBDeluxeDevice_CDC_ACM_AdvanceRxBuffer_def Let_def)
  qed
  then obtain pos q where s': "s' = s\<lparr>rx_buf_pos := pos, rx_queue := q\<rparr>" and l: "length pos = length (rx_buf_pos s)" by blast
  have "acm_inv s'" using assms(1) l unfolding s' by (simp add: acm_inv_defs)
  then show ?thesis unfolding s' by (simp add: acm_lock_ok_def acm_views split: option.split)
qed

lemma host_sends_ok:
  assumes "acm_inv s" and "acm_host_sends p s = (s', sent)"
  shows "acm_inv s' \<and> acm_userp s' = acm_userp s \<and> io_ops s' = io_ops s \<and> rx_queue_pending s' = rx_queue_pending s \<and>
    acm_waiting s' = acm_waiting s @ (if sent then [p] else []) \<and> acm_inflight s' = acm_inflight s \<and>
    acm_pending s' = acm_pending s \<and> acm_lock_ok s' = acm_lock_ok s"
proof -
  let ?i = "rx_buf_idx s"
  have b: "acm_bufs s" and r: "acm_rx_ok s" and x: "acm_tx_ok s" using assms(1) by (auto simp: acm_inv_def)
  from r obtain a where h: "CDCDataInHandle s = Some (USB_EP_DATA s, OUT_FROM_HOST, a)"
    "bdt_ADR (BDT (acm_usb s) (USB_EP_DATA s, OUT_FROM_HOST, a)) = Rx_Buf ?i"
    "bdt_CNT (BDT (acm_usb s) (USB_EP_DATA s, OUT_FROM_HOST, a)) \<le> 64" by (auto simp: acm_rx_ok_def)
  let ?h = "(USB_EP_DATA s, OUT_FROM_HOST, a)"
  show ?thesis
  proof (cases "bdt_UOWN (BDT (acm_usb s) ?h) \<and> length p \<le> unat (bdt_CNT (BDT (acm_usb s) ?h))")
    case False
    then have "s' = s" "\<not> sent" using assms(2) h unfolding acm_host_sends_def by auto
    then show ?thesis using assms(1) by simp
  next
    case True
    let ?B = "p @ drop (length p) (rx_buf s ! unat ?i)"
    have s': "s' = s\<lparr>rx_buf := (rx_buf s)[unat ?i := ?B],
        acm_usb := bdt_upd ?h (\<lambda>e. e\<lparr>bdt_UOWN := False, bdt_CNT := of_nat (length p)\<rparr>) (acm_usb s)\<rparr>" and snt: "sent"
      using assms(2) h True unfolding acm_host_sends_def by auto
    have "unat (bdt_CNT (BDT (acm_usb s) ?h)) \<le> 64" using h(3) by (simp add: word_le_nat_alt)
    then have l: "length p \<le> 64" using True by simp
    then have n: "unat (of_nat (length p) :: u8) = length p" by (simp add: unat_of_nat)
    have i: "?i = 0 \<or> ?i = 1" using b by (simp add: acm_bufs_def)
    note I = idx_facts[OF i]
    have li: "unat ?i < length (rx_buf s)" using b I by (simp add: acm_bufs_def)
    have "length (rx_buf s ! unat ?i) = 64" using b li by (simp add: acm_bufs_def list_all_length)
    then have "list_all (\<lambda>b. length b = 64) (rx_buf s')"
      using b l unfolding s' by (auto simp: acm_bufs_def list_all_length nth_list_update)
    then have "acm_bufs s'" using b unfolding s' by (simp add: acm_bufs_def)
    moreover have "acm_rx_ok s'" using h l n unfolding s' by (simp add: acm_rx_ok_def bdt_upd_def word_le_nat_alt)
    moreover have "acm_tx_ok s'" using x unfolding s' by (fastforce simp: acm_tx_ok_def bdt_upd_def)
    moreover have "usb_eps_ok (acm_usb s') (USB_EP_DATA s') (USB_EP_DATA s')"
      using assms(1) unfolding s' by (simp add: acm_inv_def usb_eps_ok_def bdt_upd_def)
    moreover have "acm_waiting s' = [p]" using h n li unfolding s' by (simp add: acm_waiting_def bdt_upd_def)
    moreover have "acm_waiting s = []" using h True by (simp add: acm_waiting_def)
    moreover have "acm_inflight s' = acm_inflight s" using x unfolding s'
      by (auto simp: acm_inflight_def acm_tx_ok_def bdt_upd_def split: option.split)
    ultimately show ?thesis using snt unfolding s' by (simp add: acm_inv_def acm_pending_def acm_lock_ok_def)
  qed
qed

lemma host_takes_ok:
  assumes "acm_inv s" and "acm_host_takes s = (s', r)"
  shows "acm_inv s' \<and> acm_rx_same s s' \<and> acm_inflight s = (case r of None \<Rightarrow> [] | Some p \<Rightarrow> [p]) \<and> acm_inflight s' = [] \<and>
    acm_pending s' = acm_pending s \<and> acm_lock_ok s' = acm_lock_ok s"
proof (cases "CDCDataOutHandle s")
  case None
  then have "s' = s" "r = None" using assms(2) by (simp_all add: acm_host_takes_def)
  then show ?thesis using assms(1) None by (simp add: acm_rx_same_def acm_inflight_def)
next
  case (Some h)
  show ?thesis
  proof (cases "bdt_UOWN (BDT (acm_usb s) h)")
    case False
    then have "s' = s" "r = None" using assms(2) Some by (simp_all add: acm_host_takes_def)
    then show ?thesis using assms(1) Some False by (simp add: acm_rx_same_def acm_inflight_def)
  next
    case True
    obtain a where a: "h = (USB_EP_DATA s, IN_TO_HOST, a)" "bdt_ADR (BDT (acm_usb s) h) = Tx_Buf (acm_next (tx_buf_idx s))"
      using assms(1) Some True by (auto simp: acm_inv_def acm_tx_ok_def)
    have s': "s' = s\<lparr>acm_usb := bdt_upd h (\<lambda>e. e\<lparr>bdt_UOWN := False\<rparr>) (acm_usb s)\<rparr>"
      and r: "r = Some (take (unat (bdt_CNT (BDT (acm_usb s) h))) (tx_buf s ! unat (acm_next (tx_buf_idx s))))"
      using assms(2) Some True a by (simp_all add: acm_host_takes_def)
    have "acm_inv s'" using assms(1) a Some unfolding s' acm_inv_def acm_bufs_def acm_rx_ok_def acm_tx_ok_def usb_eps_ok_def
      by (auto simp: bdt_upd_def)
    moreover have "acm_rx_same s s'" using assms(1) a unfolding s'
      by (auto simp: acm_rx_same_def acm_waiting_def acm_inv_def acm_rx_ok_def bdt_upd_def split: option.split)
    ultimately show ?thesis using Some True r unfolding s'
      by (simp add: acm_inflight_def acm_pending_def acm_lock_ok_def bdt_upd_def)
  qed
qed

subsection \<open>Runs\<close>

lemma step_ok:
  assumes "acm_inv s" and "acm_step x s = (s', es)"
  shows "acm_inv s'"
    "acm_lock_ok s \<Longrightarrow> x \<noteq> Op_Write [] \<Longrightarrow> acm_lock_ok s' \<and>
       ev_got es @ acm_inflight s' @ acm_pending s' = acm_inflight s @ acm_pending s @ ev_written es"
    "acm_calls f s \<Longrightarrow> acm_calls f s' \<and> acm_delivered f s' = foldl f (acm_delivered f s) (ev_sent es)"
proof -
  have "acm_inv s' \<and> (acm_lock_ok s \<longrightarrow> x \<noteq> Op_Write [] \<longrightarrow> acm_lock_ok s' \<and>
       ev_got es @ acm_inflight s' @ acm_pending s' = acm_inflight s @ acm_pending s @ ev_written es) \<and>
    (acm_calls f s \<longrightarrow> acm_calls f s' \<and> acm_delivered f s' = foldl f (acm_delivered f s) (ev_sent es))"
  proof (cases x)
    case Op_Tasks
    then show ?thesis using tasks_ok[OF assms(1)] assms(2) by simp
  next
    case (Op_Write d)
    obtain t r where w: "USBDeluxeDevice_CDC_ACM_Write d s = (t, r)" by fastforce
    note W = acm_write_ok[OF assms(1) w]
    show ?thesis using W assms(2) Op_Write w
      by (cases r) (auto simp: acm_rx_same_def acm_calls_def acm_delivered_def)
  next
    case (Op_Read n)
    obtain t r where w: "USBDeluxeDevice_CDC_ACM_Read n s = (t, r)" by fastforce
    note W = acm_read_ok[OF assms(1) w]
    show ?thesis using W assms(2) Op_Read w by (cases r) (auto simp: acm_calls_def acm_delivered_def)
  next
    case (Op_HostSends p)
    obtain t r where w: "acm_host_sends p s = (t, r)" by fastforce
    note W = host_sends_ok[OF assms(1) w]
    show ?thesis using W assms(2) Op_HostSends w by (cases r) (auto simp: acm_calls_def acm_delivered_def)
  next
    case Op_HostTakes
    obtain t r where w: "acm_host_takes s = (t, r)" by fastforce
    note W = host_takes_ok[OF assms(1) w]
    show ?thesis using W assms(2) Op_HostTakes w by (cases r) (auto simp: acm_rx_same_def acm_calls_def acm_delivered_def)
  qed
  then show "acm_inv s'"
    "acm_lock_ok s \<Longrightarrow> x \<noteq> Op_Write [] \<Longrightarrow> acm_lock_ok s' \<and>
       ev_got es @ acm_inflight s' @ acm_pending s' = acm_inflight s @ acm_pending s @ ev_written es"
    "acm_calls f s \<Longrightarrow> acm_calls f s' \<and> acm_delivered f s' = foldl f (acm_delivered f s) (ev_sent es)"
    by blast+
qed

lemma run_ok:
  assumes "acm_inv s" and "acm_run xs s = (s', es)"
  shows "acm_inv s' \<and>
    (acm_lock_ok s \<longrightarrow> Op_Write [] \<notin> set xs \<longrightarrow> acm_lock_ok s' \<and>
       ev_got es @ acm_inflight s' @ acm_pending s' = acm_inflight s @ acm_pending s @ ev_written es) \<and>
    (acm_calls f s \<longrightarrow> acm_calls f s' \<and> acm_delivered f s' = foldl f (acm_delivered f s) (ev_sent es))"
  using assms
proof (induction xs arbitrary: s es)
  case (Cons x xs)
  obtain t e1 where st: "acm_step x s = (t, e1)" by fastforce
  obtain e2 where rn: "acm_run xs t = (s', e2)" and es: "es = e1 @ e2"
    using Cons.prems(2) st by (auto split: prod.splits)
  note S = step_ok[OF Cons.prems(1) st]
  note I = Cons.IH[OF S(1) rn]
  show ?case
  proof (intro conjI impI)
    show "acm_inv s'" using I by blast
    assume a: "acm_lock_ok s" "Op_Write [] \<notin> set (x # xs)"
    then have J: "acm_lock_ok t" "ev_got e1 @ acm_inflight t @ acm_pending t = acm_inflight s @ acm_pending s @ ev_written e1"
      using S(2) by auto
    then have K: "acm_lock_ok s'" "ev_got e2 @ acm_inflight s' @ acm_pending s' = acm_inflight t @ acm_pending t @ ev_written e2"
      using I a(2) by auto
    show "acm_lock_ok s'" by (rule K(1))
    have "ev_got es @ acm_inflight s' @ acm_pending s' = ev_got e1 @ acm_inflight t @ acm_pending t @ ev_written e2"
      unfolding es using K(2) by simp
    also have "\<dots> = acm_inflight s @ acm_pending s @ ev_written es" unfolding es using J(2) by simp
    finally show "ev_got es @ acm_inflight s' @ acm_pending s' = acm_inflight s @ acm_pending s @ ev_written es" .
  next
    assume "acm_calls f s"
    then show "acm_calls f s'" "acm_delivered f s' = foldl f (acm_delivered f s) (ev_sent es)"
      using S(3)[of f] I unfolding es by auto
  qed
qed simp

text \<open>The port as it is after it was created and the host has configured the device.\<close>

definition acm_started :: "cdc_buf usb_eps \<Rightarrow> 'd \<Rightarrow> u8 \<Rightarrow> 'd acm_iops option \<Rightarrow> 'd acm_ctx" where
  "acm_started u d ep ops = USBDeluxeDevice_CDC_ACM_Init (USBDeluxeDevice_CDC_ACM_Create u d 0 1 1 ep ops)"

lemma enabled_eps:
  "usb_eps_ok (USBEnableEndpoint u ep (USB_IN_ENABLED OR USB_OUT_ENABLED OR USB_HANDSHAKE_ENABLED OR USB_DISALLOW_SETUP)) ep ep"
proof -
  have "USB_IN_ENABLED OR USB_OUT_ENABLED OR USB_HANDSHAKE_ENABLED OR USB_DISALLOW_SETUP = (0x1D :: u8)"
    by (simp add: USB_IN_ENABLED_def USB_OUT_ENABLED_def USB_HANDSHAKE_ENABLED_def USB_DISALLOW_SETUP_def)
  moreover have "(0x1D :: u8) AND USB_OUT_ENABLED \<noteq> 0" "(0x1D :: u8) AND USB_IN_ENABLED \<noteq> 0"
    by (simp_all add: USB_OUT_ENABLED_def USB_IN_ENABLED_def)
  ultimately show ?thesis
    by (simp add: USBEnableEndpoint_def USBConfigureEndpoint_def Let_def usb_eps_ok_def bdt_upd_def) blast
qed

lemma started_ok:
  "acm_inv (acm_started u d ep ops)" "acm_lock_ok (acm_started u d ep ops)" "acm_inflight (acm_started u d ep ops) = []"
  "acm_pending (acm_started u d ep ops) = []" "acm_waiting (acm_started u d ep ops) = []"
  "io_ops (acm_started u d ep ops) = (case ops of None \<Rightarrow> no_iops | Some x \<Rightarrow> x)"
  "acm_userp (acm_started u d ep ops) = d" "\<not> rx_queue_pending (acm_started u d ep ops)" "rx_queue (acm_started u d ep ops) = None"
proof -
  let ?c = "USBDeluxeDevice_CDC_ACM_Create u d 0 1 1 ep ops"
  define c where "c = ?c\<lparr>line_coding := le_bytes 4 (2000000 :: u32) @ [0x00, 0x00, 0x08], acm_usb := USBEnableEndpoint u ep
      (USB_IN_ENABLED OR USB_OUT_ENABLED OR USB_HANDSHAKE_ENABLED OR USB_DISALLOW_SETUP)\<rparr>"
  have "usb_eps_ok (acm_usb c) (USB_EP_DATA c) (USB_EP_DATA c)"
    using enabled_eps by (simp add: c_def USBDeluxeDevice_CDC_ACM_Create_def)
  from arm_rx_ok[OF this, of 0] obtain a v where A: "acm_arm_rx 0 c = c\<lparr>acm_usb := v, CDCDataInHandle := Some (USB_EP_DATA c, OUT_FROM_HOST, a)\<rparr>"
    "usb_eps_ok v (USB_EP_DATA c) (USB_EP_DATA c)"
    "BDT v = (BDT (acm_usb c))((USB_EP_DATA c, OUT_FROM_HOST, a) := armed (Rx_Buf 0) 64 (BDT (acm_usb c) (USB_EP_DATA c, OUT_FROM_HOST, a)))"
    by metis
  have S: "acm_started u d ep ops = c\<lparr>acm_usb := v, CDCDataInHandle := Some (USB_EP_DATA c, OUT_FROM_HOST, a), CDCDataOutHandle := None\<rparr>"
    using A(1) by (simp add: acm_started_def USBDeluxeDevice_CDC_ACM_Init_def Let_def c_def USBDeluxeDevice_CDC_ACM_Create_def)
  show "acm_inv (acm_started u d ep ops)" "acm_lock_ok (acm_started u d ep ops)" "acm_inflight (acm_started u d ep ops) = []"
    "acm_pending (acm_started u d ep ops) = []" "acm_waiting (acm_started u d ep ops) = []"
    "io_ops (acm_started u d ep ops) = (case ops of None \<Rightarrow> no_iops | Some x \<Rightarrow> x)"
    "acm_userp (acm_started u d ep ops) = d" "\<not> rx_queue_pending (acm_started u d ep ops)" "rx_queue (acm_started u d ep ops) = None"
    using A(2,3) unfolding S
    by (simp_all add: acm_inv_defs acm_lock_ok_def acm_views c_def USBDeluxeDevice_CDC_ACM_Create_def split: option.split)
qed

text \<open>(C21) What is written to the port reaches the host in order, each piece once and unchanged,
  however the operations of the application, the USB task and the host interleave: at most two pieces
  are still on their way, and one more round of the host and the task brings them out. Writes of zero
  bytes are left out (see the next theorem).\<close>
theorem acm_tx_fifo:
  assumes "Op_Write [] \<notin> set ops" and "acm_run ops (acm_started u d ep io) = (s, es)"
  shows "\<exists>rest. ev_written es = ev_got es @ rest \<and> length rest \<le> 2 \<and>
    ev_got (snd (acm_run [Op_HostTakes, Op_Tasks, Op_HostTakes] s)) = rest"
proof -
  note S = started_ok[of u d ep io]
  from run_ok[OF S(1) assms(2)] S(2-4) assms(1) have I: "acm_inv s" "acm_lock_ok s"
    and E: "ev_got es @ acm_inflight s @ acm_pending s = ev_written es" by auto
  have l: "length (acm_inflight s @ acm_pending s) \<le> 2"
    by (auto simp: acm_inflight_def acm_pending_def split: option.split)
  obtain s1 r1 where t1: "acm_host_takes s = (s1, r1)" by fastforce
  note H1 = host_takes_ok[OF I(1) t1]
  let ?s2 = "USBDeluxeDevice_CDC_ACM_Tasks s1"
  note T = tasks_ok(1,2)[of s1]
  obtain s3 r3 where t3: "acm_host_takes ?s2 = (s3, r3)" by fastforce
  have i2: "acm_inv ?s2" using T(1) H1 by blast
  note H3 = host_takes_ok[OF i2 t3]
  have e1: "snd (acm_step Op_HostTakes s) = (case r1 of None \<Rightarrow> [] | Some p \<Rightarrow> [HostGot p])" using t1 by (simp split: option.split)
  have "ev_got (snd (acm_run [Op_HostTakes, Op_Tasks, Op_HostTakes] s)) =
      (case r1 of None \<Rightarrow> [] | Some p \<Rightarrow> [p]) @ (case r3 of None \<Rightarrow> [] | Some p \<Rightarrow> [p])"
    using t1 t3 by (simp split: option.split)
  also have "\<dots> = acm_inflight s @ acm_pending s" using H1 H3 T I by auto
  finally show ?thesis using E l by (intro exI[of _ "acm_inflight s @ acm_pending s"]) simp
qed

definition demo_usb_eps :: "cdc_buf usb_eps" where
  "demo_usb_eps = \<lparr>BDT = (\<lambda>_. \<lparr>bdt_UOWN = False, bdt_DTS = False, bdt_DTSEN = False, bdt_BSTALL = False, bdt_CNT = 0, bdt_ADR = Rx_Buf 0\<rparr>),
     pBDTEntryIn = (\<lambda>_. None), pBDTEntryOut = (\<lambda>_. None), U1EP = (\<lambda>_. 0)\<rparr>"

theorem acm_tx_fifo_witness:
  "\<exists>s es. acm_run [Op_Write [1, 2], Op_Tasks, Op_Write [3], Op_Tasks, Op_HostTakes] (acm_started demo_usb_eps () 2 None) = (s, es) \<and>
    (\<exists>rest. ev_written es = ev_got es @ rest \<and> length rest \<le> 2 \<and>
      ev_got (snd (acm_run [Op_HostTakes, Op_Tasks, Op_HostTakes] s)) = rest)"
proof -
  obtain s es where r: "acm_run [Op_Write [1, 2], Op_Tasks, Op_Write [3], Op_Tasks, Op_HostTakes]
      (acm_started demo_usb_eps () 2 None) = (s, es)" by fastforce
  from acm_tx_fifo[OF _ r] show ?thesis using r by auto
qed

text \<open>(C22) With a receive callback every packet of the host is handed over exactly once and in order,
  whatever else happens in between, and after the next run of the task none is outstanding.\<close>
theorem acm_rx_callback:
  assumes "acm_run ops (acm_started u d ep (Some io)) = (s, es)" and "RxDone io = Some f"
  shows "acm_userp (USBDeluxeDevice_CDC_ACM_Tasks s) = foldl f d (ev_sent es)"
proof -
  note S = started_ok[of u d ep "Some io"]
  have c: "acm_calls f (acm_started u d ep (Some io))" using S assms(2) by (simp add: acm_calls_def)
  have d: "acm_delivered f (acm_started u d ep (Some io)) = d" using S by (simp add: acm_delivered_def)
  from run_ok[OF S(1) assms(1), of f] c d have R: "acm_inv s" "acm_calls f s" "acm_delivered f s = foldl f d (ev_sent es)" by auto
  from tasks_ok(3,4)[OF R(1,2)] R(3) show ?thesis by (simp add: acm_delivered_def)
qed

theorem acm_rx_callback_witness:
  "\<exists>s es. acm_run [Op_HostSends [7], Op_Tasks, Op_HostSends [8, 9]] (acm_started demo_usb_eps [] 2
        (Some \<lparr>RxDone = Some (\<lambda>d p. d @ p), SetLineCoding = None, SetControlLineState = None\<rparr>)) = (s, es) \<and>
      acm_userp (USBDeluxeDevice_CDC_ACM_Tasks s) = foldl (\<lambda>d p. d @ p) [] (ev_sent es)"
proof -
  obtain s es where r: "acm_run [Op_HostSends [7], Op_Tasks, Op_HostSends [8, 9]] (acm_started demo_usb_eps [] 2
        (Some \<lparr>RxDone = Some (\<lambda>d p. d @ p), SetLineCoding = None, SetControlLineState = None\<rparr>)) = (s, es)" by fastforce
  from acm_rx_callback[OF r] show ?thesis using r by simp
qed

text \<open>The port keeps receiving into the buffer the reader still holds: when a reader is late by two
  packets, the third one overwrites the first, which is lost, and the third is delivered twice.\<close>
theorem acm_rx_overwritten:
  assumes "length p1 = 64" and "length p2 = 64" and "length p3 = 64"
  shows "snd (acm_run [Op_HostSends p1, Op_Tasks, Op_HostSends p2, Op_Tasks, Op_HostSends p3,
      Op_Read 64, Op_Tasks, Op_Read 64, Op_Tasks, Op_Read 64] (acm_started u d ep None)) =
     [HostSent p1, HostSent p2, HostSent p3, ReadOut p3, ReadOut p2, ReadOut p3]"
  using assms
  by (simp add: acm_started_def USBDeluxeDevice_CDC_ACM_Create_def USBDeluxeDevice_CDC_ACM_Init_def Let_def
    acm_arm_rx_def USBTransferOnePacket_def USBEnableEndpoint_def USBConfigureEndpoint_def bdt_upd_def acm_host_sends_def
    no_iops_def USB_IN_ENABLED_def USB_OUT_ENABLED_def USB_HANDSHAKE_ENABLED_def USB_DISALLOW_SETUP_def
    USBDeluxeDevice_CDC_ACM_Tasks_def USBDeluxeDevice_CDC_ACM_DoTx_def USBDeluxeDevice_CDC_ACM_TryRx_def
    USBHandleBusy_def acm_rx_flip_def rtos_queue_send_def USBHandleGetLength_def USBDeluxeDevice_CDC_ACM_Read_def
    USBDeluxeDevice_CDC_ACM_AcquireRxBuffer_def USBDeluxeDevice_CDC_ACM_AdvanceRxBuffer_def)

theorem acm_rx_overwritten_witness:
  "ev_read (snd (acm_run [Op_HostSends (replicate 64 1), Op_Tasks, Op_HostSends (replicate 64 2), Op_Tasks,
      Op_HostSends (replicate 64 3), Op_Read 64, Op_Tasks, Op_Read 64, Op_Tasks, Op_Read 64]
      (acm_started demo_usb_eps () 2 None))) = [replicate 64 3, replicate 64 2, replicate 64 3]"
  using acm_rx_overwritten[of "replicate 64 1" "replicate 64 2" "replicate 64 3" demo_usb_eps "()" 2] by simp

subsection \<open>A write of nothing\<close>

definition acm_stuck :: "'d acm_ctx \<Rightarrow> bool" where
  "acm_stuck s \<longleftrightarrow> acm_inv s \<and> \<not> acm_lock_ok s \<and> acm_pending s \<noteq> []"

lemma stuck_alt: "acm_stuck s \<longleftrightarrow> acm_inv s \<and> \<not> tx_lock s \<and> tx_buf_len s ! unat (tx_buf_idx s) = 0"
  by (auto simp: acm_stuck_def acm_lock_ok_def acm_pending_def)

lemma stuck_write: "acm_stuck s \<Longrightarrow> USBDeluxeDevice_CDC_ACM_Write d s = (s, None)"
  by (simp add: stuck_alt USBDeluxeDevice_CDC_ACM_Write_def USBDeluxeDevice_CDC_ACM_AcquireTxBuffer_def rtos_mutex_take_def)

lemma stuck_tasks:
  assumes "acm_stuck s"
  shows "acm_stuck (USBDeluxeDevice_CDC_ACM_Tasks s)"
proof -
  have "fst (USBDeluxeDevice_CDC_ACM_DoTx s) = s"
    using assms by (simp add: stuck_alt USBDeluxeDevice_CDC_ACM_DoTx_def Let_def)
  then show ?thesis using assms tryrx_ok(1,3,4)[of s]
    by (simp add: acm_stuck_def USBDeluxeDevice_CDC_ACM_Tasks_def)
qed

lemma stuck_run:
  "acm_stuck s \<Longrightarrow> acm_run xs s = (s', es) \<Longrightarrow> acm_stuck s' \<and> ev_written es = []"
proof (induction xs arbitrary: s es)
  case (Cons x xs)
  obtain t e1 where st: "acm_step x s = (t, e1)" by fastforce
  obtain e2 where rn: "acm_run xs t = (s', e2)" and es: "es = e1 @ e2"
    using Cons.prems(2) st by (auto split: prod.splits)
  have i: "acm_inv s" using Cons.prems(1) by (simp add: acm_stuck_def)
  have "acm_stuck t \<and> ev_written e1 = []"
  proof (cases x)
    case Op_Tasks
    then show ?thesis using st stuck_tasks[OF Cons.prems(1)] by auto
  next
    case (Op_Write d)
    then show ?thesis using st stuck_write[OF Cons.prems(1)] Cons.prems(1) by auto
  next
    case (Op_Read n)
    obtain v r where w: "USBDeluxeDevice_CDC_ACM_Read n s = (v, r)" by fastforce
    then show ?thesis using st Op_Read acm_read_ok[OF i w] Cons.prems(1) by (cases r) (auto simp: acm_stuck_def)
  next
    case (Op_HostSends p)
    obtain v r where w: "acm_host_sends p s = (v, r)" by fastforce
    then show ?thesis using st Op_HostSends host_sends_ok[OF i w] Cons.prems(1) by (auto simp: acm_stuck_def)
  next
    case Op_HostTakes
    obtain v r where w: "acm_host_takes s = (v, r)" by fastforce
    then show ?thesis using st Op_HostTakes host_takes_ok[OF i w] Cons.prems(1) by (cases r) (auto simp: acm_stuck_def)
  qed
  then show ?case using Cons.IH[OF _ rn] es by auto
qed simp

text \<open>A write of zero bytes to a free port is accepted and blocks the port for good: the mutex is
  never given back, so no later write succeeds, whatever the host and the task do.\<close>
theorem acm_empty_write_blocks:
  assumes "acm_run ops (acm_started u d ep io) = (s, es)" and "tx_lock s"
    and "acm_run (Op_Write [] # ops') s = (s', es')"
  shows "ev_written es' = [[]] \<and> (\<forall>buf. USBDeluxeDevice_CDC_ACM_Write buf s' = (s', None))"
proof -
  have i: "acm_inv s" using run_ok[OF started_ok(1) assms(1)] by blast
  obtain t r where w: "USBDeluxeDevice_CDC_ACM_Write [] s = (t, r)" by fastforce
  note W = acm_write_ok[OF i w]
  have b: "acm_bufs s" using i by (simp add: acm_inv_def)
  then have "unat (tx_buf_idx s) < length (tx_buf_len s)" by (auto simp: acm_bufs_def)
  then have "r = Some 0" "acm_stuck t" using w assms(2) W
    by (auto simp: stuck_alt USBDeluxeDevice_CDC_ACM_Write_def USBDeluxeDevice_CDC_ACM_AcquireTxBuffer_def rtos_mutex_take_def Let_def)
  moreover obtain e2 where "acm_run ops' t = (s', e2)" "es' = [Written []] @ e2"
    using assms(3) w calculation(1) by (auto split: prod.splits)
  ultimately show ?thesis using stuck_run[of t ops' s' e2] stuck_write[of s'] by auto
qed

theorem acm_empty_write_blocks_witness:
  "\<exists>s es. acm_run [Op_Write [], Op_Tasks, Op_HostTakes] (acm_started demo_usb_eps () 2 None) = (s, es) \<and>
     USBDeluxeDevice_CDC_ACM_Write [1] s = (s, None)"
proof -
  obtain s es where r: "acm_run [Op_Write [], Op_Tasks, Op_HostTakes] (acm_started demo_usb_eps () 2 None) = (s, es)" by fastforce
  have "tx_lock (acm_started demo_usb_eps () 2 None)"
    using started_ok(4)[of demo_usb_eps "()" 2 None] by (auto simp: acm_pending_def split: if_splits)
  from acm_empty_write_blocks[OF _ this r, of "[]" demo_usb_eps "()" 2 None "[]"] r show ?thesis by auto
qed

end
