(* ===== verification/CDC_NCM.thy ===== *)
theory CDC_NCM
  imports USB_Control Variant
begin

section \<open>The CDC NCM function (virtual Ethernet): transfer blocks\<close>

text \<open>
  Models the two functions of \<^verbatim>\<open>usb_deluxe_device_cdc_ncm.c\<close> that take datagrams out of NCM transfer
  blocks and put them in: \<^verbatim>\<open>USBDeluxeDevice_CDC_NCM_Read\<close> and \<^verbatim>\<open>USBDeluxeDevice_CDC_NCM_Write\<close>, and its
  class requests. The packets come from the receive queue and go to the send buffers of a data path
  that is written like the one of theory \<open>CDC_ACM\<close>: here the packets that arrive are a list, and the
  number of send buffers that can be acquired before a wait times out is an argument. The parser
  works on addresses: \<open>m\<close> is the memory and \<open>d\<close> the address of the vector's data. Reading past the
  end of the block is a read of \<open>m\<close>.
\<close>

subsection \<open>Data\<close>

record ncm_ctx =
  ntb_buffer :: "u8 list"
  ptr_upper_limit :: u16
  header_seq :: u16
  header_len :: u16
  first_ndp_offset :: u16
  current_ndp_offset :: u16
  next_ndp_offset :: u16
  current_ndp_datagram_ptr :: u16
  ntb_tx_seq :: u16
  ncm_tx_buf :: "u8 list list"
  ncm_tx_idx :: nat
  ncm_sent :: "u8 list list"

definition ncm_load :: "(u16 \<Rightarrow> u8) \<Rightarrow> u16 \<Rightarrow> nat \<Rightarrow> u8 list" where
  "ncm_load m p n = map (\<lambda>i. m (p + of_nat i)) [0..<n]"

definition ncm_load16 :: "(u16 \<Rightarrow> u8) \<Rightarrow> u16 \<Rightarrow> u16" where
  "ncm_load16 m p = le_word (ncm_load m p 2)"

text \<open>\<^verbatim>\<open>Vector_At\<close> of the byte vector at address \<open>d\<close>.\<close>

definition ncm_at :: "u16 \<Rightarrow> u8 list \<Rightarrow> u16 \<Rightarrow> u16" where
  "ncm_at d buf pos = (if length buf \<le> unat pos then 0 else d + pos)"

text \<open>A send buffer is acquired, filled by \<open>f\<close> and sent with \<open>n\<close> bytes, then the other one is current.\<close>

definition ncm_send :: "(u8 list \<Rightarrow> u8 list) \<Rightarrow> nat \<Rightarrow> ncm_ctx \<Rightarrow> ncm_ctx" where
  "ncm_send f n s =
     (let b = f (ncm_tx_buf s ! ncm_tx_idx s)
      in s\<lparr>ncm_tx_buf := (ncm_tx_buf s)[ncm_tx_idx s := b], ncm_sent := ncm_sent s @ [take n b],
           ncm_tx_idx := (ncm_tx_idx s + 1) mod 2\<rparr>)"

definition put_at :: "nat \<Rightarrow> u8 list \<Rightarrow> u8 list \<Rightarrow> u8 list" where
  "put_at i xs b = take i b @ xs @ drop (i + length xs) b"

subsection \<open>Reading\<close>

text \<open>
  Step 1: packets are collected until one is shorter than 64 bytes, each is also sent back to the
  host. \<open>None\<close>: the function waits for a packet that does not come. The limit is taken one past the
  last element.
\<close>

fun ncm_collect :: "u16 \<Rightarrow> u8 list list \<Rightarrow> ncm_ctx \<Rightarrow> (ncm_ctx \<times> u8 list list) option" where
  "ncm_collect d [] s = None"
| "ncm_collect d (p # rx) s =
     (let s1 = ncm_send (put_at 0 p) (length p) s;
          s2 = s1\<lparr>ntb_buffer := ntb_buffer s1 @ p\<rparr>
      in if length p < 64
         then Some (s2\<lparr>ptr_upper_limit := ncm_at d (ntb_buffer s2) (of_nat (length (ntb_buffer s2)))\<rparr>, rx)
         else ncm_collect d rx s2)"

definition ncm_reset :: "ncm_ctx \<Rightarrow> ncm_ctx" where
  "ncm_reset s = s\<lparr>ntb_buffer := [], ptr_upper_limit := 0, header_seq := 0, header_len := 0, first_ndp_offset := 0,
     current_ndp_offset := 0, next_ndp_offset := 0, current_ndp_datagram_ptr := 0\<rparr>"

text \<open>Step 2: the header. \<open>None\<close>: \<^verbatim>\<open>goto free_ntb_and_return\<close>.\<close>

definition ncm_header :: "(u16 \<Rightarrow> u8) \<Rightarrow> u16 \<Rightarrow> ncm_ctx \<Rightarrow> ncm_ctx option" where
  "ncm_header m d s =
     (let ntb_len = of_nat (length (ntb_buffer s)) :: u16
      in if header_len s \<noteq> 0 then Some s
         else if 12 < ntb_len \<and> ncm_load m d 6 = [0x4E, 0x43, 0x4D, 0x48, 0x0c, 0x00] then
           let s1 = s\<lparr>header_seq := ncm_load16 m (d + 6), header_len := ncm_load16 m (d + 8),
                      first_ndp_offset := ncm_load16 m (d + 10)\<rparr>
           in if header_len s1 \<noteq> ntb_len then None
              else if ntb_len \<le> first_ndp_offset s1 then None
              else Some (s1\<lparr>current_ndp_offset := first_ndp_offset s1\<rparr>)
         else None)"

text \<open>
  Step 3: the loop over the datagram pointer tables. The result is the state and the copied bytes;
  \<open>Some (s, None)\<close> leaves for \<^verbatim>\<open>free_ntb_and_return\<close>, \<open>None\<close> is a loop that runs out of fuel.
\<close>

fun ncm_ndps :: "nat \<Rightarrow> (u16 \<Rightarrow> u8) \<Rightarrow> u16 \<Rightarrow> u16 \<Rightarrow> ncm_ctx \<Rightarrow> (ncm_ctx \<times> u8 list option) option" where
  "ncm_ndps 0 m d len s = None"
| "ncm_ndps (Suc fuel) m d len s =
     (if current_ndp_offset s = 0 then Some (s, None)
      else if current_ndp_datagram_ptr s \<noteq> 0 then
        if current_ndp_datagram_ptr s > ptr_upper_limit s then Some (s, None)
        else
          let dgm_offset = ncm_load16 m (current_ndp_datagram_ptr s);
              dgm_len = ncm_load16 m (current_ndp_datagram_ptr s + 2)
          in if dgm_offset \<noteq> 0 then
               let dgm_abs_ptr = ncm_at d (ntb_buffer s) dgm_offset
               in if dgm_abs_ptr + dgm_len > ptr_upper_limit s then Some (s, None)
                  else let copy_len = (if len > dgm_len then dgm_len else len)
                       in Some (s\<lparr>current_ndp_datagram_ptr := current_ndp_datagram_ptr s + 4\<rparr>,
                                Some (ncm_load m dgm_abs_ptr (unat copy_len)))
             else ncm_ndps fuel m d len (s\<lparr>current_ndp_offset := next_ndp_offset s\<rparr>)
      else
        let ndp_data = d + current_ndp_offset s
        in if ncm_load m ndp_data 4 \<noteq> [0x4E, 0x43, 0x4D, 0x30] then Some (s, None)
           else
             let s1 = s\<lparr>next_ndp_offset := ncm_load16 m (ndp_data + 6)\<rparr>
             in if of_nat (length (ntb_buffer s1)) \<le> next_ndp_offset s1 then Some (s1, None)
                else ncm_ndps fuel m d len (s1\<lparr>current_ndp_datagram_ptr := ndp_data + 8\<rparr>))"

text \<open>The result: the new state, the packets left, and the copied datagram or \<open>None\<close> for -1.\<close>

definition USBDeluxeDevice_CDC_NCM_Read ::
  "nat \<Rightarrow> (u16 \<Rightarrow> u8) \<Rightarrow> u16 \<Rightarrow> u8 list list \<Rightarrow> u16 \<Rightarrow> ncm_ctx \<Rightarrow> (ncm_ctx \<times> u8 list list \<times> u8 list option) option" where
  "USBDeluxeDevice_CDC_NCM_Read fuel m d rx len s =
     (case (if ntb_buffer s = [] then ncm_collect d rx s else Some (s, rx)) of
        None \<Rightarrow> None
      | Some (s1, rx1) \<Rightarrow>
          (case ncm_header m d s1 of
             None \<Rightarrow> Some (ncm_reset s1, rx1, None)
           | Some s2 \<Rightarrow>
               (case ncm_ndps fuel m d len s2 of
                  None \<Rightarrow> None
                | Some (s3, None) \<Rightarrow> Some (ncm_reset s3, rx1, None)
                | Some (s3, Some dgm) \<Rightarrow> Some (s3, rx1, Some dgm))))"

subsection \<open>Writing\<close>

definition ntb_template :: "u8 list" where
  "ntb_template = [0x4E, 0x43, 0x4D, 0x48, 0x0c, 0x00, 0x00, 0x00, 0x00, 0x00, 0x0c, 0x00] @
     [0x4E, 0x43, 0x4D, 0x30, 0x10, 0x00, 0x00, 0x00, 0xb8, 0x00, 0x00, 0x00, 0x00, 0x00, 0x00, 0x00]"

text \<open>
  The loop over the rest of the frame: \<open>acq\<close> is the number of buffers that can still be acquired. The
  last packet is padded to a multiple of 8 (and by 8 if it is one already).
\<close>

fun ncm_write_rest :: "nat \<Rightarrow> u8 list \<Rightarrow> ncm_ctx \<Rightarrow> nat \<Rightarrow> nat \<Rightarrow> (ncm_ctx \<times> nat \<times> nat) option \<times> (ncm_ctx \<times> nat)" where
  "ncm_write_rest 0 rest s copied processed =
     (if rest = [] then (Some (s, copied, 0), (s, processed)) else (None, (s, processed)))"
| "ncm_write_rest (Suc acq) rest s copied processed =
     (if rest = [] then (Some (s, copied, Suc acq), (s, processed))
      else
        let copy_len = min (length rest) 64;
            n = (if copy_len \<noteq> 64 then copy_len + (8 - copy_len mod 8) else copy_len);
            s1 = ncm_send (put_at 0 (take copy_len rest)) n s
        in ncm_write_rest acq (drop copy_len rest) s1 copy_len (processed + copy_len))"

text \<open>The result \<open>None\<close> is -1, otherwise the number of bytes the function returns.\<close>

definition USBDeluxeDevice_CDC_NCM_Write :: "nat \<Rightarrow> (u16 \<Rightarrow> u8) \<Rightarrow> u8 list \<Rightarrow> ncm_ctx \<Rightarrow> ncm_ctx \<times> nat option" where
  "USBDeluxeDevice_CDC_NCM_Write acq m buf s =
     (let len = of_nat (length buf) :: u16
      in if acq = 0 then (s, None)
         else
           let s1 = ncm_send (\<lambda>b. put_at 0x16 (le_bytes 2 len) (put_at 0x08 (le_bytes 2 (len + 0xb8))
                       (put_at 0x06 (le_bytes 2 (ntb_tx_seq s)) (put_at 0 ntb_template b)))) 64 s
           in if acq = 1 then (s1, None)
              else
                let s2 = ncm_send id 64 s1
                in if acq = 2 then (s2, None)
                   else
                     let copy_len = min (length buf) 8;
                         s3 = ncm_send (put_at 56 (ncm_load m 0 copy_len)) (56 + copy_len) s2
                     in (case ncm_write_rest (acq - 3) (drop copy_len buf) s3 copy_len copy_len of
                           (None, (s4, processed)) \<Rightarrow> (s4, Some processed)
                         | (Some (s4, copied, acq'), (_, processed)) \<Rightarrow>
                             if copied = 64 then
                               if acq' = 0 then (s4, Some processed)
                               else ((ncm_send id 0 s4)\<lparr>ntb_tx_seq := ntb_tx_seq s4 + 1\<rparr>, Some processed)
                             else (s4\<lparr>ntb_tx_seq := ntb_tx_seq s4 + 1\<rparr>, Some processed)))"

subsection \<open>Class requests\<close>

definition ntb_params :: "u8 list" where
  "ntb_params = [0x1c, 0x00, 0x01, 0x00, 0x00, 0x08, 0x00, 0x00, 0x04, 0x00, 0x00, 0x00, 0x04, 0x00] @
     [0x00, 0x00, 0x00, 0x08, 0x00, 0x00, 0x04, 0x00, 0x00, 0x00, 0x04, 0x00, 0x10, 0x00]"

text \<open>The second component: the notification is due (\<^verbatim>\<open>notif_sent = 0\<close>).\<close>

definition USBDeluxeDevice_CDC_NCM_CheckRequest :: "usb_setup \<Rightarrow> u8 \<Rightarrow> u8 \<Rightarrow> ep0_action \<times> bool" where
  "USBDeluxeDevice_CDC_NCM_CheckRequest p iface_comm iface_data =
     (if st_Recipient p \<noteq> 0x01 then (EP0_nothing, False)
      else if st_RequestType p \<noteq> 0x01 then (EP0_nothing, False)
      else if st_bIntfID p \<noteq> iface_comm \<and> st_bIntfID p \<noteq> iface_data then (EP0_nothing, False)
      else if st_bRequest p = 0x80 then (EP0_data ntb_params, True)
      else if st_bRequest p = 0x43 then (EP0_empty, True)
      else (EP0_nothing, True))"

end
