(* ===== verification/CDC_NCM_Props.thy ===== *)
theory CDC_NCM_Props
  imports CDC_NCM
begin

section \<open>Properties of the NCM function\<close>

text \<open>
  Reading: the limit the parser compares with is the null pointer (the element one past the end of a
  vector is null), so no datagram is ever delivered; every read that gets a whole block ends with -1
  and a cleared context. Writing: the packets of a frame carry its length and all of its bytes but the
  first eight, which are taken from address 0 instead.
\<close>

subsection \<open>Reading\<close>

definition ncm_fresh :: "ncm_ctx \<Rightarrow> bool" where
  "ncm_fresh s \<longleftrightarrow> ntb_buffer s = [] \<and> header_len s = 0 \<and> current_ndp_offset s = 0 \<and> current_ndp_datagram_ptr s = 0"

lemma fresh_reset: "ncm_fresh (ncm_reset s)"
  by (simp add: ncm_fresh_def ncm_reset_def)

lemma at_end: "length buf < 65536 \<Longrightarrow> ncm_at d buf (of_nat (length buf)) = 0"
  unfolding ncm_at_def by (simp add: unat_of_nat)

lemma collect_grows: "ncm_collect d rx s = Some (s', rx') \<Longrightarrow> length (ntb_buffer s) \<le> length (ntb_buffer s')"
  by (induction d rx s rule: ncm_collect.induct) (fastforce simp: Let_def ncm_send_def split: if_splits)+

lemma collect_limit:
  assumes "ncm_collect d rx s = Some (s', rx')" and "length (ntb_buffer s') < 65536"
  shows "ptr_upper_limit s' = 0" "header_len s' = header_len s" "current_ndp_datagram_ptr s' = current_ndp_datagram_ptr s"
    "current_ndp_offset s' = current_ndp_offset s"
  using assms
  by (induction d rx s rule: ncm_collect.induct)
    (auto simp: Let_def ncm_send_def at_end simp flip: length_append of_nat_add split: if_splits)

lemma header_frame:
  assumes "ncm_header m d s = Some s'" and "header_len s = 0"
  shows "ptr_upper_limit s' = ptr_upper_limit s" "ntb_buffer s' = ntb_buffer s"
    "current_ndp_datagram_ptr s' = current_ndp_datagram_ptr s"
    "current_ndp_offset s' < of_nat (length (ntb_buffer s))"
  using assms by (auto simp: ncm_header_def Let_def split: if_splits)

text \<open>A pointer into the block is above the null limit.\<close>

lemma ndp_pointer:
  assumes "unat d + n + 8 < 65536" and "off < (of_nat n :: u16)"
  shows "d + off + 8 \<noteq> (0 :: u16)"
proof -
  have "unat off < n" using assms by (simp add: word_less_nat_alt unat_of_nat)
  then have "unat (d + off + 8) = unat d + unat off + 8"
    using assms(1) by (simp add: unat_word_ariths)
  then show ?thesis by (metis add_is_0 unat_0 zero_neq_numeral)
qed

lemma ndps_fail:
  assumes "ptr_upper_limit s = 0" and "current_ndp_datagram_ptr s = 0"
    and "current_ndp_offset s < of_nat (length (ntb_buffer s))" and "unat d + length (ntb_buffer s) + 8 < 65536"
  shows "\<exists>s'. ncm_ndps (Suc (Suc fuel)) m d len s = Some (s', None)"
  using assms ndp_pointer[OF assms(4,3)] by (simp add: Let_def word_gt_0)

lemma read_fails:
  assumes "ncm_fresh s" and "ncm_collect d rx s = Some (s1, rx')" and "unat d + length (ntb_buffer s1) + 8 < 65536"
  shows "\<exists>s'. USBDeluxeDevice_CDC_NCM_Read (Suc (Suc fuel)) m d rx len s = Some (s', rx', None) \<and> ncm_fresh s'"
proof -
  have l: "length (ntb_buffer s1) < 65536" using assms(3) by simp
  note C = collect_limit[OF assms(2) l]
  have e: "ntb_buffer s = []" using assms(1) by (simp add: ncm_fresh_def)
  show ?thesis
  proof (cases "ncm_header m d s1")
    case None
    then show ?thesis using e assms(2) fresh_reset by (simp add: USBDeluxeDevice_CDC_NCM_Read_def)
  next
    case (Some s2)
    have h: "header_len s1 = 0" using C assms(1) by (simp add: ncm_fresh_def)
    note H = header_frame[OF Some h]
    have "\<exists>s'. ncm_ndps (Suc (Suc fuel)) m d len s2 = Some (s', None)"
      by (rule ndps_fail) (use H C assms in \<open>simp_all add: ncm_fresh_def\<close>)
    then obtain s3 where "ncm_ndps (Suc (Suc fuel)) m d len s2 = Some (s3, None)" by blast
    then show ?thesis using e assms(2) Some fresh_reset by (simp add: USBDeluxeDevice_CDC_NCM_Read_def del: ncm_ndps.simps)
  qed
qed

definition ncm_demo :: ncm_ctx where
  "ncm_demo = \<lparr>ntb_buffer = [], ptr_upper_limit = 0, header_seq = 0, header_len = 0, first_ndp_offset = 0,
     current_ndp_offset = 0, next_ndp_offset = 0, current_ndp_datagram_ptr = 0, ntb_tx_seq = 0,
     ncm_tx_buf = [replicate 64 0, replicate 64 0], ncm_tx_idx = 0, ncm_sent = []\<rparr>"

text \<open>(C27) \<^verbatim>\<open>USBDeluxeDevice_CDC_NCM_Read\<close> never delivers a datagram: whatever the packets contain, once a
  whole transfer block has arrived the call returns -1 and clears the context, so that the next call is
  in the same position again.\<close>
theorem ncm_read_never_delivers:
  assumes "ncm_fresh s" and "ncm_collect d rx s = Some (s1, rx')" and "unat d + length (ntb_buffer s1) + 8 < 65536"
  shows "\<exists>s'. USBDeluxeDevice_CDC_NCM_Read (Suc (Suc fuel)) m d rx len s = Some (s', rx', None) \<and> ncm_fresh s'"
  by (rule read_fails[OF assms])

definition ncm_block :: "u8 list" where
  "ncm_block = [0x4E, 0x43, 0x4D, 0x48, 0x0c, 0x00, 0x00, 0x00, 0x1e, 0x00, 0x0c, 0x00,
     0x4E, 0x43, 0x4D, 0x30, 0x10, 0x00, 0x00, 0x00, 0x1c, 0x00, 0x02, 0x00, 0x00, 0x00, 0x00, 0x00, 0xAA, 0xBB]"

theorem ncm_read_never_delivers_witness:
  "\<exists>s'. USBDeluxeDevice_CDC_NCM_Read 2 (\<lambda>a. if 0x1000 \<le> a \<and> a < 0x101e then ncm_block ! unat (a - 0x1000) else 0) 0x1000
     [ncm_block] 1514 ncm_demo = Some (s', [], None) \<and> ncm_fresh s'"
proof -
  obtain s1 where c: "ncm_collect 0x1000 [ncm_block] ncm_demo = Some (s1, [])" and b: "ntb_buffer s1 = ncm_block"
    by (simp add: ncm_block_def ncm_demo_def ncm_send_def Let_def)
  have "unat (0x1000 :: u16) + length (ntb_buffer s1) + 8 < 65536" unfolding b by (simp add: ncm_block_def)
  from ncm_read_never_delivers[OF _ c this, of 0] show ?thesis
    by (simp add: ncm_fresh_def ncm_demo_def numeral_2_eq_2 del: ncm_ndps.simps)
qed

subsection \<open>Writing\<close>

definition ncm_wf :: "ncm_ctx \<Rightarrow> bool" where
  "ncm_wf s \<longleftrightarrow> length (ncm_tx_buf s) = 2 \<and> list_all (\<lambda>b. length b = 64) (ncm_tx_buf s) \<and> ncm_tx_idx s < 2"

lemma length_put_at [simp]: "i + length xs \<le> length b \<Longrightarrow> length (put_at i xs b) = length b"
  by (simp add: put_at_def)

lemma send_ok:
  assumes "ncm_wf s" and "\<And>b. length b = 64 \<Longrightarrow> length (f b) = 64"
  shows "ncm_wf (ncm_send f n s)" "\<exists>b. length b = 64 \<and> ncm_sent (ncm_send f n s) = ncm_sent s @ [take n (f b)]"
    "ntb_tx_seq (ncm_send f n s) = ntb_tx_seq s"
proof -
  have b: "length (ncm_tx_buf s ! ncm_tx_idx s) = 64" using assms(1) by (simp add: ncm_wf_def list_all_length)
  have "list_all (\<lambda>b. length b = 64) ((ncm_tx_buf s)[ncm_tx_idx s := f (ncm_tx_buf s ! ncm_tx_idx s)])"
    using assms b by (auto simp: ncm_wf_def list_all_length nth_list_update)
  then show "ncm_wf (ncm_send f n s)" using assms(1) by (simp add: ncm_wf_def ncm_send_def Let_def)
  show "\<exists>b. length b = 64 \<and> ncm_sent (ncm_send f n s) = ncm_sent s @ [take n (f b)]"
    using b by (auto simp: ncm_send_def Let_def)
  show "ntb_tx_seq (ncm_send f n s) = ntb_tx_seq s" by (simp add: ncm_send_def Let_def)
qed

lemma write_rest_ok:
  assumes "ncm_wf s" and "length rest \<le> 64 * acq"
  shows "\<exists>s' c acq' pad. ncm_write_rest acq rest s copied processed = (Some (s', c, acq'), (s', processed + length rest)) \<and>
    ncm_wf s' \<and> concat (ncm_sent s') = concat (ncm_sent s) @ rest @ pad \<and> acq - (length rest + 63) div 64 \<le> acq' \<and>
    ntb_tx_seq s' = ntb_tx_seq s"
  using assms
proof (induction acq arbitrary: rest s copied processed)
  case 0
  then show ?case by simp
next
  case (Suc acq)
  show ?case
  proof (cases "rest = []")
    case True
    then show ?thesis using Suc.prems by simp
  next
    case False
    let ?k = "min (length rest) 64"
    let ?n = "if ?k \<noteq> 64 then ?k + (8 - ?k mod 8) else ?k"
    let ?f = "put_at 0 (take ?k rest)"
    have f: "length (?f b) = 64" if "length b = 64" for b using that by simp
    note S = send_ok[OF Suc.prems(1), of ?f, OF f]
    obtain b where b: "length b = 64" "ncm_sent (ncm_send ?f ?n s) = ncm_sent s @ [take ?n (?f b)]" using S(2) by blast
    have kn: "?k \<le> ?n" by (rule if_split[where P = "\<lambda>n. ?k \<le> n", THEN iffD2]) (simp only: le_add1 order_refl simp_thms)
    have t: "take ?n (?f b) = take ?k rest @ take (?n - ?k) (drop ?k b)"
      using kn by (simp add: put_at_def take_append min_def)
    have l: "length (drop ?k rest) \<le> 64 * acq" using Suc.prems(2) by auto
    from Suc.IH[OF S(1)[of ?n] l, of ?k "processed + ?k"] obtain s' c acq' pad where
      R: "ncm_write_rest acq (drop ?k rest) (ncm_send ?f ?n s) ?k (processed + ?k) =
            (Some (s', c, acq'), (s', processed + ?k + length (drop ?k rest)))"
      "ncm_wf s'" "concat (ncm_sent s') = concat (ncm_sent (ncm_send ?f ?n s)) @ drop ?k rest @ pad"
      "acq - (length (drop ?k rest) + 63) div 64 \<le> acq'" "ntb_tx_seq s' = ntb_tx_seq (ncm_send ?f ?n s)" by blast
    have E: "ncm_write_rest (Suc acq) rest s copied processed = (Some (s', c, acq'), (s', processed + length rest))"
      using R(1) False by (simp add: Let_def)
    show ?thesis
    proof (cases "64 \<le> length rest")
      case True
      then have "concat (ncm_sent s') = concat (ncm_sent s) @ rest @ pad"
        using R(3) b(2) t by simp
      moreover have "(length rest + 63) div 64 = Suc ((length rest - 64 + 63) div 64)" using True by (auto simp: div_if)
      then have "Suc acq - (length rest + 63) div 64 \<le> acq'" using R(4) True by simp
      ultimately show ?thesis using E R(2,5) S(3) by (metis)
    next
      case False
      then have "concat (ncm_sent s') = concat (ncm_sent s) @ rest @ (take (?n - ?k) (drop ?k b) @ pad)"
        using R(3) b(2) t by simp
      moreover have "(length rest + 63) div 64 = 1" using False \<open>rest \<noteq> []\<close> by (simp add: div_if Suc_le_eq)
      then have "Suc acq - (length rest + 63) div 64 \<le> acq'" using R(4) False by simp
      ultimately show ?thesis using E R(2,5) S(3) by (metis)
    qed
  qed
qed

lemma length_ncm_load [simp]: "length (ncm_load m p n) = n"
  by (simp add: ncm_load_def)

text \<open>What the first packet starts with.\<close>

definition ncm_head :: "u16 \<Rightarrow> u16 \<Rightarrow> u8 list" where
  "ncm_head seq len = [0x4E, 0x43, 0x4D, 0x48, 0x0c, 0x00] @ le_bytes 2 seq @ le_bytes 2 (len + 0xb8) @ [0x0c, 0x00] @
     [0x4E, 0x43, 0x4D, 0x30, 0x10, 0x00, 0x00, 0x00, 0xb8, 0x00] @ le_bytes 2 len @ [0x00, 0x00, 0x00, 0x00]"

lemma ncm_head_packet:
  "put_at 0x16 (le_bytes 2 len) (put_at 0x08 (le_bytes 2 (len + 0xb8))
     (put_at 0x06 (le_bytes 2 seq) (put_at 0 ntb_template b))) = ncm_head seq len @ drop 28 b"
  by (simp add: put_at_def ntb_template_def ncm_head_def le_bytes_def eval_nat_numeral)

lemma write_frame:
  assumes "ncm_wf s" and "ncm_sent s = []" and "length buf div 64 + 5 \<le> acq"
  shows "\<exists>s'. USBDeluxeDevice_CDC_NCM_Write acq m buf s = (s', Some (length buf)) \<and> ntb_tx_seq s' = ntb_tx_seq s + 1 \<and>
    take 28 (concat (ncm_sent s')) = ncm_head (ntb_tx_seq s) (of_nat (length buf)) \<and>
    take (length buf) (drop 0xb8 (concat (ncm_sent s'))) = ncm_load m 0 (min 8 (length buf)) @ drop 8 buf"
proof -
  let ?h = "\<lambda>b. put_at 0x16 (le_bytes 2 (of_nat (length buf) :: u16)) (put_at 0x08 (le_bytes 2 (of_nat (length buf) + 0xb8 :: u16))
              (put_at 0x06 (le_bytes 2 (ntb_tx_seq s)) (put_at 0 ntb_template b)))"
  let ?k = "min (length buf) 8"
  let ?g = "put_at 56 (ncm_load m 0 ?k)"
  define s1 where "s1 = ncm_send ?h 64 s"
  define s2 where "s2 = ncm_send id 64 s1"
  define s3 where "s3 = ncm_send ?g (56 + ?k) s2"
  have h: "length (?h b) = 64" if "length b = 64" for b using that by (simp add: ntb_template_def)
  note S1 = send_ok[OF assms(1), of ?h 64, OF h, folded s1_def]
  note S2 = send_ok[OF S1(1), of id 64, folded s2_def, simplified]
  have g: "length (?g b) = 64" if "length b = 64" for b using that by simp
  note S3 = send_ok[OF S2(1), of ?g "56 + ?k", OF g, folded s3_def]
  obtain b1 b2 b3 where b: "length b1 = 64" "ncm_sent s1 = [take 64 (?h b1)]" "length b2 = 64" "ncm_sent s2 = ncm_sent s1 @ [take 64 b2]"
      "length b3 = 64" "ncm_sent s3 = ncm_sent s2 @ [take (56 + ?k) (?g b3)]"
    using S1(2) S2(2) S3(2) assms(2) by auto
  have c3: "concat (ncm_sent s3) = ncm_head (ntb_tx_seq s) (of_nat (length buf)) @ drop 28 b1 @ b2 @ take 56 b3 @ ncm_load m 0 ?k"
    using b by (simp add: ncm_head_packet) (auto simp: ncm_head_def put_at_def)
  have "length buf < 64 * (length buf div 64 + 1)" by (simp add: dividend_less_div_times)
  then have l: "length (drop ?k buf) \<le> 64 * (acq - 3)" using assms(3) by simp
  from write_rest_ok[OF S3(1) l, of ?k ?k] obtain s4 c acq' pad where
    R: "ncm_write_rest (acq - 3) (drop ?k buf) s3 ?k ?k = (Some (s4, c, acq'), (s4, ?k + length (drop ?k buf)))"
    "ncm_wf s4" "concat (ncm_sent s4) = concat (ncm_sent s3) @ drop ?k buf @ pad"
    "acq - 3 - (length (drop ?k buf) + 63) div 64 \<le> acq'" "ntb_tx_seq s4 = ntb_tx_seq s3" by blast
  have "(length (drop ?k buf) + 63) div 64 \<le> (length buf + 63) div 64" by (intro div_le_mono) simp
  also have "\<dots> \<le> length buf div 64 + 1" by linarith
  finally have acq': "acq' \<noteq> 0" using R(4) assms(3) by simp
  obtain b4 where "ncm_sent (ncm_send id 0 s4) = ncm_sent s4 @ [take 0 (id b4)]" using send_ok(2)[OF R(2), of id 0] by auto
  then have z: "concat (ncm_sent (ncm_send id 0 s4)) = concat (ncm_sent s4)" by simp
  define s' where "s' = (if c = 64 then (ncm_send id 0 s4)\<lparr>ntb_tx_seq := ntb_tx_seq s4 + 1\<rparr> else s4\<lparr>ntb_tx_seq := ntb_tx_seq s4 + 1\<rparr>)"
  have "USBDeluxeDevice_CDC_NCM_Write acq m buf s = (s', Some (length buf))"
    using assms(3) acq' R(1) by (simp add: USBDeluxeDevice_CDC_NCM_Write_def Let_def s'_def flip: s1_def s2_def s3_def)
  moreover have "ntb_tx_seq s' = ntb_tx_seq s + 1" using S1(3) S2(3) S3(3) R(5) by (simp add: s'_def)
  moreover have "concat (ncm_sent s') = ncm_head (ntb_tx_seq s) (of_nat (length buf)) @ drop 28 b1 @ b2 @ take 56 b3 @
      ncm_load m 0 ?k @ drop 8 buf @ pad"
    using R(3) c3 z by (auto simp: s'_def min_def)
  ultimately show ?thesis using b(1,3,5) by (simp add: ncm_head_def min.commute)
qed

text \<open>\<^verbatim>\<open>USBDeluxeDevice_CDC_NCM_Write\<close> with enough send buffers sends the whole frame: the packets, put
  together, start with the header (sequence number, total length, length of the frame) and carry from
  offset 0xb8 as many bytes as the frame has; all of them are the frame's bytes except the first eight,
  which are read from address 0.\<close>
theorem ncm_write_frame:
  assumes "ncm_wf s" and "ncm_sent s = []" and "length buf div 64 + 5 \<le> acq"
  shows "\<exists>s'. USBDeluxeDevice_CDC_NCM_Write acq m buf s = (s', Some (length buf)) \<and> ntb_tx_seq s' = ntb_tx_seq s + 1 \<and>
    take 28 (concat (ncm_sent s')) = ncm_head (ntb_tx_seq s) (of_nat (length buf)) \<and>
    take (length buf) (drop 0xb8 (concat (ncm_sent s'))) = ncm_load m 0 (min 8 (length buf)) @ drop 8 buf"
  by (rule write_frame[OF assms])

theorem ncm_write_frame_witness:
  "\<exists>s'. USBDeluxeDevice_CDC_NCM_Write 6 (\<lambda>a. 0xFF) (map of_nat [1..<101]) ncm_demo = (s', Some 100) \<and> ntb_tx_seq s' = 1 \<and>
    take 28 (concat (ncm_sent s')) = ncm_head 0 100 \<and>
    take 100 (drop 0xb8 (concat (ncm_sent s'))) = replicate 8 0xFF @ drop 8 (map of_nat [1..<101])"
  using ncm_write_frame[of ncm_demo "map of_nat [1..<101]" 6 "\<lambda>a. 0xFF"]
  by (simp add: ncm_wf_def ncm_demo_def ncm_load_def map_replicate_const del: upt.simps)

end
