(* ===== verification/USB_Functions.thy ===== *)
theory USB_Functions
  imports USB_EP0
begin

section \<open>The HID, MIDI, audio and CDC ECM functions\<close>

text \<open>
  Models the operations of \<^verbatim>\<open>usb_deluxe_device_hid.c\<close>, \<^verbatim>\<open>usb_deluxe_device_midi.c\<close>,
  \<^verbatim>\<open>usb_deluxe_device_audio.c\<close> and \<^verbatim>\<open>usb_deluxe_device_cdc_ecm.c\<close>; their registration is in theory
  \<open>USB_Descriptor\<close>. The callbacks of the application are functions on the state \<open>'d\<close> behind \<open>userp\<close>; the
  callbacks for reports and for audio requests may answer the request themselves, so they also give
  claims on endpoint 0. The result \<open>None\<close> of an operation is an access through a null pointer (or a null
  function pointer, or a null handle given to FreeRTOS) or past the end of an object.

  A packet is sent from the buffer of the caller: \<open>User_Buf\<close> stands for the bytes behind that pointer, which the
  caller may not change until the packet is sent.
\<close>

datatype fn_buf = Own_Buf | User_Buf "u8 list"

text \<open>\<^verbatim>\<open>USBHandleGetLength\<close> reads through the handle.\<close>

definition handle_length :: "'b usb_eps \<Rightarrow> usb_handle \<Rightarrow> u8 option" where
  "handle_length u h = (case h of None \<Rightarrow> None | Some _ \<Rightarrow> Some (USBHandleGetLength u h))"

subsection \<open>HID\<close>

record 'd hid_ops =
  GetReport :: "('d \<Rightarrow> 'd \<times> 'd ep0_claim list) option"
  SetReport :: "('d \<Rightarrow> 'd \<times> 'd ep0_claim list) option"
  SetIdleRate :: "('d \<Rightarrow> u8 \<Rightarrow> 'd) option"
  GetReportDescriptor :: "('d \<Rightarrow> u8 list \<Rightarrow> 'd \<times> u8 list) option"
  hid_RxDone :: "('d \<Rightarrow> u8 list \<Rightarrow> u8 \<Rightarrow> 'd) option"

record 'd hid_ctx =
  hid_userp :: 'd
  hid_buffer :: "u8 list"
  HID_IFACE :: u8
  HID_EP :: u8
  hid_dsc_offset :: u16
  hid_dsc_len :: u16
  hid_rpt_len :: u8
  hid_rpt_dsc_len :: u8
  hid_HandleRx :: usb_handle
  hid_HandleTx :: usb_handle
  idle_rate :: u8
  active_protocol :: u8
  hid_opers :: "'d hid_ops"
  hid_usb :: "fn_buf usb_eps"

definition USBDeluxeDevice_HID_Create ::
  "fn_buf usb_eps \<Rightarrow> 'd \<Rightarrow> u8 \<Rightarrow> u8 \<Rightarrow> u8 \<Rightarrow> u8 \<Rightarrow> u16 \<Rightarrow> u16 \<Rightarrow> 'd hid_ops \<Rightarrow> 'd hid_ctx" where
  "USBDeluxeDevice_HID_Create u userp usb_iface usb_ep rpt_len rpt_dsc_len dsc_offset dsc_len ops =
     \<lparr>hid_userp = userp, hid_buffer = replicate 64 0, HID_IFACE = usb_iface, HID_EP = usb_ep,
      hid_dsc_offset = dsc_offset, hid_dsc_len = dsc_len, hid_rpt_len = rpt_len, hid_rpt_dsc_len = rpt_dsc_len,
      hid_HandleRx = None, hid_HandleTx = None, idle_rate = 0, active_protocol = 0, hid_opers = ops, hid_usb = u\<rparr>"

text \<open>The handle of the armed buffer is not stored.\<close>

definition hid_arm_rx :: "'d hid_ctx \<Rightarrow> 'd hid_ctx" where
  "hid_arm_rx s = s\<lparr>hid_usb := fst (USBTransferOnePacket (hid_usb s) (HID_EP s) OUT_FROM_HOST Own_Buf 64)\<rparr>"

definition USBDeluxeDevice_HID_Init :: "'d hid_ctx \<Rightarrow> 'd hid_ctx" where
  "USBDeluxeDevice_HID_Init s =
     hid_arm_rx (s\<lparr>hid_usb := USBEnableEndpoint (hid_usb s) (HID_EP s)
       (USB_IN_ENABLED OR USB_OUT_ENABLED OR USB_HANDSHAKE_ENABLED OR USB_DISALLOW_SETUP)\<rparr>)"

text \<open>\<open>rd\<close> is the configuration descriptor, \<open>cfg\<close> is \<open>USBActiveConfiguration\<close>.\<close>

definition hid_get_descriptor :: "u8 list \<Rightarrow> u8 \<Rightarrow> usb_setup \<Rightarrow> 'd hid_ctx \<Rightarrow> ('d hid_ctx \<times> 'd ep0_claim list) option" where
  "hid_get_descriptor rd cfg p s =
     (if st_bDescriptorType p = 0x21 then
        if cfg = 1 then
          if unat (hid_dsc_offset s) + unat (hid_dsc_len s) \<le> length rd
          then Some (s, [Claim_in (take (unat (hid_dsc_len s)) (drop (unat (hid_dsc_offset s)) rd))]) else None
        else Some (s, [])
      else if st_bDescriptorType p = 0x22 then
        (case GetReportDescriptor (hid_opers s) of
           None \<Rightarrow> Some (s, [])
         | Some f \<Rightarrow>
             (case f (hid_userp s) (hid_buffer s) of
                (d, b) \<Rightarrow>
                  if unat (hid_rpt_dsc_len s) \<le> 64
                  then Some (s\<lparr>hid_userp := d, hid_buffer := b\<rparr>, [Claim_in (take (unat (hid_rpt_dsc_len s)) b)]) else None))
      else Some (s, []))"

definition hid_app_request :: "('d \<Rightarrow> 'd \<times> 'd ep0_claim list) option \<Rightarrow> 'd hid_ctx \<Rightarrow> 'd hid_ctx \<times> 'd ep0_claim list" where
  "hid_app_request f s = (case f of None \<Rightarrow> (s, []) | Some g \<Rightarrow> (case g (hid_userp s) of (d, a) \<Rightarrow> (s\<lparr>hid_userp := d\<rparr>, a)))"

definition hid_class_request :: "usb_setup \<Rightarrow> 'd hid_ctx \<Rightarrow> 'd hid_ctx \<times> 'd ep0_claim list" where
  "hid_class_request p s =
     (if st_bRequest p = 0x01 then hid_app_request (GetReport (hid_opers s)) s
      else if st_bRequest p = 0x09 then hid_app_request (SetReport (hid_opers s)) s
      else if st_bRequest p = 0x02 then (s, [Claim_in [idle_rate s]])
      else if st_bRequest p = 0x0A then
        let s1 = s\<lparr>idle_rate := ucast (drop_bit 8 (st_wValue p))\<rparr>;
            s2 = (case SetIdleRate (hid_opers s1) of None \<Rightarrow> s1 | Some f \<Rightarrow> s1\<lparr>hid_userp := f (hid_userp s1) (idle_rate s1)\<rparr>)
        in (s2, [Claim_empty])
      else if st_bRequest p = 0x03 then (s, [Claim_in [active_protocol s]])
      else if st_bRequest p = 0x0B then (s\<lparr>active_protocol := ucast (st_wValue p)\<rparr>, [Claim_empty])
      else (s, []))"

definition USBDeluxeDevice_HID_CheckRequest ::
  "u8 list \<Rightarrow> u8 \<Rightarrow> usb_setup \<Rightarrow> 'd hid_ctx \<Rightarrow> ('d hid_ctx \<times> 'd ep0_claim list) option" where
  "USBDeluxeDevice_HID_CheckRequest rd cfg p s =
     (if st_Recipient p \<noteq> 0x01 \<or> st_bIntfID p \<noteq> HID_IFACE s then Some (s, [])
      else if st_bRequest p = 0x06 then hid_get_descriptor rd cfg p s
      else if st_RequestType p \<noteq> 0x01 then Some (s, [])
      else Some (hid_class_request p s))"

text \<open>\<open>False\<close> is the result -1.\<close>

definition USBDeluxeDevice_HID_Write :: "u8 list \<Rightarrow> u8 \<Rightarrow> 'd hid_ctx \<Rightarrow> 'd hid_ctx \<times> bool" where
  "USBDeluxeDevice_HID_Write buf len s =
     (if USBHandleBusy (hid_usb s) (hid_HandleTx s) then (s, False)
      else case USBTransferOnePacket (hid_usb s) (HID_EP s) IN_TO_HOST (User_Buf buf) len of
             (u, h) \<Rightarrow> (s\<lparr>hid_usb := u, hid_HandleTx := h\<rparr>, True))"

definition USBDeluxeDevice_HID_Tasks :: "'d hid_ctx \<Rightarrow> 'd hid_ctx option" where
  "USBDeluxeDevice_HID_Tasks s =
     (if USBHandleBusy (hid_usb s) (hid_HandleRx s) then Some s
      else case handle_length (hid_usb s) (hid_HandleRx s) of None \<Rightarrow> None
           | Some len \<Rightarrow>
               let s1 = (case hid_RxDone (hid_opers s) of None \<Rightarrow> s
                         | Some f \<Rightarrow> s\<lparr>hid_userp := f (hid_userp s) (hid_buffer s) len\<rparr>)
               in Some (hid_arm_rx s1))"

subsection \<open>MIDI\<close>

record 'd midi_ctx =
  midi_userp :: 'd
  midi_buffer :: "u8 list"
  MIDI_IFACE_AC :: u8
  MIDI_IFACE_MS :: u8
  MIDI_EP_MS :: u8
  midi_HandleRx :: usb_handle
  midi_HandleTx :: usb_handle
  midi_RxDone :: "('d \<Rightarrow> u8 list \<Rightarrow> u8 \<Rightarrow> 'd) option"
  midi_usb :: "fn_buf usb_eps"

definition USBDeluxeDevice_MIDI_Create ::
  "fn_buf usb_eps \<Rightarrow> 'd \<Rightarrow> u8 \<Rightarrow> u8 \<Rightarrow> u8 \<Rightarrow> ('d \<Rightarrow> u8 list \<Rightarrow> u8 \<Rightarrow> 'd) option \<Rightarrow> 'd midi_ctx" where
  "USBDeluxeDevice_MIDI_Create u userp iface_ac iface_ms ep_ms rxdone =
     \<lparr>midi_userp = userp, midi_buffer = replicate 64 0, MIDI_IFACE_AC = iface_ac, MIDI_IFACE_MS = iface_ms,
      MIDI_EP_MS = ep_ms, midi_HandleRx = None, midi_HandleTx = None, midi_RxDone = rxdone, midi_usb = u\<rparr>"

definition midi_arm_rx :: "'d midi_ctx \<Rightarrow> 'd midi_ctx" where
  "midi_arm_rx s =
     (case USBTransferOnePacket (midi_usb s) (MIDI_EP_MS s) OUT_FROM_HOST Own_Buf 64 of
        (u, h) \<Rightarrow> s\<lparr>midi_usb := u, midi_HandleRx := h\<rparr>)"

definition USBDeluxeDevice_MIDI_Init :: "'d midi_ctx \<Rightarrow> 'd midi_ctx" where
  "USBDeluxeDevice_MIDI_Init s =
     midi_arm_rx (s\<lparr>midi_usb := USBEnableEndpoint (midi_usb s) (MIDI_EP_MS s)
       (USB_OUT_ENABLED OR USB_IN_ENABLED OR USB_HANDSHAKE_ENABLED OR USB_DISALLOW_SETUP)\<rparr>)"

definition USBDeluxeDevice_MIDI_Tasks :: "'d midi_ctx \<Rightarrow> 'd midi_ctx" where
  "USBDeluxeDevice_MIDI_Tasks s =
     (if midi_HandleRx s \<noteq> None then
        if USBHandleBusy (midi_usb s) (midi_HandleRx s) then s
        else
          let len = USBHandleGetLength (midi_usb s) (midi_HandleRx s);
              s1 = (case midi_RxDone s of None \<Rightarrow> s
                    | Some f \<Rightarrow> s\<lparr>midi_userp := f (midi_userp s) (midi_buffer s) len\<rparr>)
          in midi_arm_rx s1
      else midi_arm_rx s)"

definition USBDeluxeDevice_MIDI_Write :: "u8 list \<Rightarrow> u8 \<Rightarrow> 'd midi_ctx \<Rightarrow> 'd midi_ctx \<times> bool" where
  "USBDeluxeDevice_MIDI_Write buf len s =
     (if USBHandleBusy (midi_usb s) (midi_HandleTx s) then (s, False)
      else case USBTransferOnePacket (midi_usb s) (MIDI_EP_MS s) IN_TO_HOST (User_Buf buf) len of
             (u, h) \<Rightarrow> (s\<lparr>midi_usb := u, midi_HandleTx := h\<rparr>, True))"

subsection \<open>Audio\<close>

text \<open>The handlers of the requests to the seven kinds of entities, and the receive callback.\<close>

record 'd audio_ops =
  InputTerminalControlRequestsHandler :: "('d \<Rightarrow> u16 \<Rightarrow> u8 \<Rightarrow> u8 \<Rightarrow> u16 \<Rightarrow> 'd \<times> 'd ep0_claim list) option"
  OutputTerminalControlRequestsHandler :: "('d \<Rightarrow> u16 \<Rightarrow> u8 \<Rightarrow> u8 \<Rightarrow> u16 \<Rightarrow> 'd \<times> 'd ep0_claim list) option"
  MixerUnitControlRequestsHandler :: "('d \<Rightarrow> u8 \<Rightarrow> u8 \<Rightarrow> u8 \<Rightarrow> u8 \<Rightarrow> u16 \<Rightarrow> 'd \<times> 'd ep0_claim list) option"
  SelectorUnitControlRequestsHabdler :: "('d \<Rightarrow> u8 \<Rightarrow> u8 \<Rightarrow> u16 \<Rightarrow> 'd \<times> 'd ep0_claim list) option"
  FeatureUnitControlRequestsHandler :: "('d \<Rightarrow> u16 \<Rightarrow> u8 \<Rightarrow> u8 \<Rightarrow> u8 \<Rightarrow> u16 \<Rightarrow> 'd \<times> 'd ep0_claim list) option"
  ProcessingUnitControlRequestsHandler :: "('d \<Rightarrow> u16 \<Rightarrow> u8 \<Rightarrow> u8 \<Rightarrow> u16 \<Rightarrow> 'd \<times> 'd ep0_claim list) option"
  ExtensionUnitControlRequestsHandler :: "('d \<Rightarrow> u16 \<Rightarrow> u8 \<Rightarrow> u8 \<Rightarrow> u16 \<Rightarrow> 'd \<times> 'd ep0_claim list) option"
  audio_RxDone :: "('d \<Rightarrow> u8 list \<Rightarrow> u8 \<Rightarrow> 'd) option"

record 'd audio_ctx =
  audio_userp :: 'd
  audio_buffer :: "u8 list"
  AUDIO_IFACE_AC :: u8
  AUDIO_IFACE_AS :: u8
  AUDIO_EP_AS :: u8
  audio_HandleRx :: usb_handle
  audio_HandleTx :: usb_handle
  audio_opers :: "'d audio_ops"
  audio_usb :: "fn_buf usb_eps"

definition USBDeluxeDevice_Audio_Create ::
  "fn_buf usb_eps \<Rightarrow> 'd \<Rightarrow> u8 \<Rightarrow> u8 \<Rightarrow> u8 \<Rightarrow> 'd audio_ops \<Rightarrow> 'd audio_ctx" where
  "USBDeluxeDevice_Audio_Create u userp iface_ac iface_as ep_as ops =
     \<lparr>audio_userp = userp, audio_buffer = replicate 64 0, AUDIO_IFACE_AC = iface_ac, AUDIO_IFACE_AS = iface_as,
      AUDIO_EP_AS = ep_as, audio_HandleRx = None, audio_HandleTx = None, audio_opers = ops, audio_usb = u\<rparr>"

definition USBDeluxeDevice_Audio_Init :: "'d audio_ctx \<Rightarrow> 'd audio_ctx" where
  "USBDeluxeDevice_Audio_Init s =
     s\<lparr>audio_usb := USBEnableEndpoint (audio_usb s) (AUDIO_EP_AS s) (USB_OUT_ENABLED OR USB_IN_ENABLED OR USB_DISALLOW_SETUP)\<rparr>"

definition audio_call :: "'d \<times> 'd ep0_claim list \<Rightarrow> 'd audio_ctx \<Rightarrow> ('d audio_ctx \<times> 'd ep0_claim list) option" where
  "audio_call r s = (case r of (d, a) \<Rightarrow> Some (s\<lparr>audio_userp := d\<rparr>, a))"

definition USBDeluxeDevice_Audio_CheckRequest :: "usb_setup \<Rightarrow> 'd audio_ctx \<Rightarrow> ('d audio_ctx \<times> 'd ep0_claim list) option" where
  "USBDeluxeDevice_Audio_CheckRequest p s =
     (let o' = audio_opers s; d = audio_userp s; n = st_wLength p; val = st_wValue p;
          vh = ucast (drop_bit 8 val); vl = ucast val;
          ih = ucast (drop_bit 8 (st_wIndex p)) :: u8; il = ucast (st_wIndex p)
      in if st_Recipient p \<noteq> 0x01 \<or> st_RequestType p \<noteq> 0x01 then Some (s, [])
         else if st_bIntfID p \<noteq> AUDIO_IFACE_AC s \<and> st_bIntfID p \<noteq> AUDIO_IFACE_AS s then Some (s, [])
         else if ih = 0x01 then
           (case InputTerminalControlRequestsHandler o' of None \<Rightarrow> None | Some f \<Rightarrow> audio_call (f d val ih il n) s)
         else if ih = 0x02 then
           (case OutputTerminalControlRequestsHandler o' of None \<Rightarrow> None | Some f \<Rightarrow> audio_call (f d val ih il n) s)
         else if ih = 0x03 then
           (case MixerUnitControlRequestsHandler o' of None \<Rightarrow> None | Some f \<Rightarrow> audio_call (f d vh vl ih il n) s)
         else if ih = 0x04 then
           (case SelectorUnitControlRequestsHabdler o' of None \<Rightarrow> None | Some f \<Rightarrow> audio_call (f d ih il n) s)
         else if ih = 0x05 then
           (case FeatureUnitControlRequestsHandler o' of None \<Rightarrow> None
            | Some f \<Rightarrow> audio_call (f d (ucast (vh :: u8)) vl ih il n) s)
         else if ih = 0x06 then
           (case ProcessingUnitControlRequestsHandler o' of None \<Rightarrow> None | Some f \<Rightarrow> audio_call (f d val ih il n) s)
         else if ih = 0x07 then
           (case ExtensionUnitControlRequestsHandler o' of None \<Rightarrow> None | Some f \<Rightarrow> audio_call (f d val ih il n) s)
         else Some (s, []))"

definition audio_arm_rx :: "'d audio_ctx \<Rightarrow> 'd audio_ctx" where
  "audio_arm_rx s =
     (case USBTransferOnePacket (audio_usb s) (AUDIO_EP_AS s) OUT_FROM_HOST Own_Buf 64 of
        (u, h) \<Rightarrow> s\<lparr>audio_usb := u, audio_HandleRx := h\<rparr>)"

definition USBDeluxeDevice_Audio_Tasks :: "'d audio_ctx \<Rightarrow> 'd audio_ctx option" where
  "USBDeluxeDevice_Audio_Tasks s =
     (if USBHandleBusy (audio_usb s) (audio_HandleRx s) then Some s
      else case handle_length (audio_usb s) (audio_HandleRx s) of None \<Rightarrow> None
           | Some len \<Rightarrow>
               let s1 = (case audio_RxDone (audio_opers s) of None \<Rightarrow> s
                         | Some f \<Rightarrow> s\<lparr>audio_userp := f (audio_userp s) (audio_buffer s) len\<rparr>)
               in Some (audio_arm_rx s1))"

definition USBDeluxeDevice_Audio_Write :: "u8 list \<Rightarrow> u8 \<Rightarrow> 'd audio_ctx \<Rightarrow> 'd audio_ctx \<times> bool" where
  "USBDeluxeDevice_Audio_Write buf len s =
     (if USBHandleBusy (audio_usb s) (audio_HandleTx s) then (s, False)
      else case USBTransferOnePacket (audio_usb s) (AUDIO_EP_AS s) IN_TO_HOST (User_Buf buf) len of
             (u, h) \<Rightarrow> (s\<lparr>audio_usb := u, audio_HandleTx := h\<rparr>, True))"

subsection \<open>CDC ECM\<close>

text \<open>
  The receive queue and the transmit mutex are never created: their handles are null pointers, and every
  FreeRTOS call on them is a call on a null pointer.
\<close>

datatype ecm_buf = Ecm_Rx u8 | Ecm_Tx u8 | Ecm_Notif

record 'd ecm_ctx =
  ecm_rx_buf :: "u8 list list"
  ecm_rx_buf_len :: "u8 list"
  ecm_rx_buf_pos :: "u8 list"
  ecm_tx_buf :: "u8 list list"
  ecm_tx_buf_len :: "u8 list"
  ecm_rx_buf_idx :: u8
  ecm_tx_buf_idx :: u8
  ecm_userp :: 'd
  ECM_IFACE_COMM :: u8
  ECM_IFACE_DATA :: u8
  ECM_EP_COMM :: u8
  ECM_EP_DATA :: u8
  ecm_RxDone :: "('d \<Rightarrow> u8 list \<Rightarrow> 'd) option"
  ecm_notif :: "u8 list"
  ecm_DataOutHandle :: usb_handle
  ecm_DataInHandle :: usb_handle
  ecm_rx_queue :: "u8 option option"
  ecm_tx_lock :: "bool option"
  ecm_rx_queue_pending :: bool
  ecm_rx_queue_pending_idx :: u8
  ecm_usb :: "ecm_buf usb_eps"

definition USBDeluxeDevice_CDC_ECM_Create ::
  "ecm_buf usb_eps \<Rightarrow> 'd \<Rightarrow> u8 \<Rightarrow> u8 \<Rightarrow> u8 \<Rightarrow> u8 \<Rightarrow> ('d \<Rightarrow> u8 list \<Rightarrow> 'd) option \<Rightarrow> 'd ecm_ctx" where
  "USBDeluxeDevice_CDC_ECM_Create u userp usb_iface_comm usb_iface_data usb_ep_comm usb_ep_data rxdone =
     \<lparr>ecm_rx_buf = [replicate 64 0, replicate 64 0], ecm_rx_buf_len = [0, 0], ecm_rx_buf_pos = [0, 0],
      ecm_tx_buf = [replicate 64 0, replicate 64 0], ecm_tx_buf_len = [0, 0],
      ecm_rx_buf_idx = 0, ecm_tx_buf_idx = 0, ecm_userp = userp, ECM_IFACE_COMM = usb_iface_comm, ECM_IFACE_DATA = usb_iface_data,
      ECM_EP_COMM = usb_ep_comm, ECM_EP_DATA = usb_ep_data, ecm_RxDone = rxdone, ecm_notif = replicate 16 0,
      ecm_DataOutHandle = None, ecm_DataInHandle = None, ecm_rx_queue = None, ecm_tx_lock = None, ecm_rx_queue_pending = False,
      ecm_rx_queue_pending_idx = 0, ecm_usb = u\<rparr>"

definition ecm_arm_rx :: "u8 \<Rightarrow> 'd ecm_ctx \<Rightarrow> 'd ecm_ctx" where
  "ecm_arm_rx i s =
     (case USBTransferOnePacket (ecm_usb s) (ECM_EP_DATA s) OUT_FROM_HOST (Ecm_Rx i) 64 of
        (u, h) \<Rightarrow> s\<lparr>ecm_usb := u, ecm_DataInHandle := h\<rparr>)"

definition USBDeluxeDevice_CDC_ECM_Init :: "'d ecm_ctx \<Rightarrow> 'd ecm_ctx" where
  "USBDeluxeDevice_CDC_ECM_Init s =
     (let opts = USB_IN_ENABLED OR USB_OUT_ENABLED OR USB_HANDSHAKE_ENABLED OR USB_DISALLOW_SETUP;
          s1 = s\<lparr>ecm_usb := USBEnableEndpoint (ecm_usb s) (ECM_EP_COMM s) opts\<rparr>;
          s2 = s1\<lparr>ecm_usb := USBEnableEndpoint (ecm_usb s1) (ECM_EP_DATA s1) opts\<rparr>;
          s3 = (ecm_arm_rx 0 s2)\<lparr>ecm_DataOutHandle := None, ecm_notif := [0xa1, 0x00, 0x01, 0x00, 0x02, 0x00, 0x00, 0x00] @ replicate 8 0\<rparr>
      in s3\<lparr>ecm_usb := fst (USBTransferOnePacket (ecm_usb s3) (ECM_EP_COMM s3) IN_TO_HOST Ecm_Notif 8)\<rparr>)"

definition ecm_ntb_params :: "u8 list" where
  "ecm_ntb_params = [0x1c, 0x00, 0x01, 0x00, 0x00, 0x06, 0x00, 0x00, 0x04, 0x00, 0x00, 0x00, 0x04, 0x00] @
     [0x00, 0x00, 0x00, 0x06, 0x00, 0x00, 0x04, 0x00, 0x00, 0x00, 0x04, 0x00, 0x00, 0x00]"

definition USBDeluxeDevice_CDC_ECM_CheckRequest :: "usb_setup \<Rightarrow> 'd ecm_ctx \<Rightarrow> ep0_action" where
  "USBDeluxeDevice_CDC_ECM_CheckRequest p s =
     (if st_Recipient p \<noteq> 0x01 \<or> st_RequestType p \<noteq> 0x01 then EP0_nothing
      else if st_bIntfID p \<noteq> ECM_IFACE_COMM s \<and> st_bIntfID p \<noteq> ECM_IFACE_DATA s then EP0_nothing
      else if st_bRequest p = 0x80 then EP0_data ecm_ntb_params
      else EP0_nothing)"

text \<open>\<^verbatim>\<open>xQueueSendToBack\<close> on the receive queue.\<close>

definition ecm_enqueue :: "u8 \<Rightarrow> 'd ecm_ctx \<Rightarrow> ('d ecm_ctx \<times> bool) option" where
  "ecm_enqueue i s =
     (case ecm_rx_queue s of None \<Rightarrow> None
      | Some q \<Rightarrow> (case rtos_queue_send i q of (q', passed) \<Rightarrow> Some (s\<lparr>ecm_rx_queue := Some q'\<rparr>, passed)))"

text \<open>A packet of length 0 is dropped, any other is given to the callback or to the queue.\<close>

definition USBDeluxeDevice_CDC_ECM_TryRx :: "'d ecm_ctx \<Rightarrow> 'd ecm_ctx option" where
  "USBDeluxeDevice_CDC_ECM_TryRx s =
     (if ecm_rx_queue_pending s then
        (case ecm_enqueue (ecm_rx_queue_pending_idx s) s of None \<Rightarrow> None
         | Some (t, passed) \<Rightarrow> Some (if passed then t\<lparr>ecm_rx_queue_pending := False\<rparr> else t))
      else if \<not> USBHandleBusy (ecm_usb s) (ecm_DataInHandle s) then
        (case handle_length (ecm_usb s) (ecm_DataInHandle s) of None \<Rightarrow> None
         | Some last_rx_len \<Rightarrow>
             let cur = ecm_rx_buf_idx s;
                 s1 = s\<lparr>ecm_rx_buf_idx := (cur + 1) mod 2\<rparr>;
                 s2 = ecm_arm_rx (ecm_rx_buf_idx s1) s1
             in if last_rx_len \<noteq> 0 then
                  let s3 = s2\<lparr>ecm_rx_buf_len := (ecm_rx_buf_len s2)[unat cur := last_rx_len],
                              ecm_rx_buf_pos := (ecm_rx_buf_pos s2)[unat cur := 0]\<rparr>
                  in (case ecm_RxDone s3 of
                        Some f \<Rightarrow> Some (s3\<lparr>ecm_userp := f (ecm_userp s3) (take (unat last_rx_len) (ecm_rx_buf s3 ! unat cur))\<rparr>)
                      | None \<Rightarrow>
                          (case ecm_enqueue cur s3 of None \<Rightarrow> None
                           | Some (t, passed) \<Rightarrow> Some (if passed then t\<lparr>ecm_rx_queue_pending := False\<rparr>
                                                  else t\<lparr>ecm_rx_queue_pending := True, ecm_rx_queue_pending_idx := cur\<rparr>)))
                else Some s2)
      else Some s)"

definition USBDeluxeDevice_CDC_ECM_DoTx :: "'d ecm_ctx \<Rightarrow> ('d ecm_ctx \<times> u8) option" where
  "USBDeluxeDevice_CDC_ECM_DoTx s =
     (if \<not> USBHandleBusy (ecm_usb s) (ecm_DataOutHandle s) then
        let cur = ecm_tx_buf_idx s
        in if ecm_tx_buf_len s ! unat cur \<noteq> 0 then
             (case USBTransferOnePacket (ecm_usb s) (ECM_EP_DATA s) IN_TO_HOST (Ecm_Tx cur) (ecm_tx_buf_len s ! unat cur) of
                (u, h) \<Rightarrow>
                  let t = s\<lparr>ecm_usb := u, ecm_DataOutHandle := h, ecm_tx_buf_idx := (cur + 1) mod 2\<rparr>;
                      t' = t\<lparr>ecm_tx_buf_len := (ecm_tx_buf_len t)[unat (ecm_tx_buf_idx t) := 0]\<rparr>
                  in (case ecm_tx_lock t' of None \<Rightarrow> None | Some _ \<Rightarrow> Some (t'\<lparr>ecm_tx_lock := Some True\<rparr>, 1)))
           else Some (s, 0)
      else Some (s, 2))"

definition USBDeluxeDevice_CDC_ECM_Tasks :: "'d ecm_ctx \<Rightarrow> 'd ecm_ctx option" where
  "USBDeluxeDevice_CDC_ECM_Tasks s =
     (case USBDeluxeDevice_CDC_ECM_DoTx s of None \<Rightarrow> None | Some (t, _) \<Rightarrow> USBDeluxeDevice_CDC_ECM_TryRx t)"

text \<open>The buffer number, \<open>Some None\<close> for -1.\<close>

definition USBDeluxeDevice_CDC_ECM_AcquireRxBuffer :: "'d ecm_ctx \<Rightarrow> u8 option option" where
  "USBDeluxeDevice_CDC_ECM_AcquireRxBuffer s = ecm_rx_queue s"

definition USBDeluxeDevice_CDC_ECM_AcquireTxBuffer :: "'d ecm_ctx \<Rightarrow> ('d ecm_ctx \<times> u8 option) option" where
  "USBDeluxeDevice_CDC_ECM_AcquireTxBuffer s =
     (case ecm_tx_lock s of None \<Rightarrow> None
      | Some l \<Rightarrow> (case rtos_mutex_take l of
          (l', taken) \<Rightarrow> if taken then Some (s\<lparr>ecm_tx_lock := Some l'\<rparr>, Some (ecm_tx_buf_idx s)) else Some (s, None)))"

definition USBDeluxeDevice_CDC_ECM_AdvanceRxBuffer :: "'d ecm_ctx \<Rightarrow> 'd ecm_ctx option" where
  "USBDeluxeDevice_CDC_ECM_AdvanceRxBuffer s =
     (case ecm_rx_queue s of None \<Rightarrow> None | Some _ \<Rightarrow> Some (s\<lparr>ecm_rx_queue := Some None\<rparr>))"

definition USBDeluxeDevice_CDC_ECM_ReadRaw :: "u16 \<Rightarrow> 'd ecm_ctx \<Rightarrow> ('d ecm_ctx \<times> u8 list option) option" where
  "USBDeluxeDevice_CDC_ECM_ReadRaw len s =
     (case USBDeluxeDevice_CDC_ECM_AcquireRxBuffer s of
        None \<Rightarrow> None
      | Some None \<Rightarrow> Some (s, None)
      | Some (Some idx) \<Rightarrow>
          let i = unat idx;
              left = ecm_rx_buf_len s ! i - ecm_rx_buf_pos s ! i;
              len' = (if len > ucast left then ucast left else len);
              data = take (unat len') (drop (unat (ecm_rx_buf_pos s ! i)) (ecm_rx_buf s ! i));
              s1 = s\<lparr>ecm_rx_buf_pos := (ecm_rx_buf_pos s)[i := ecm_rx_buf_pos s ! i + ucast len']\<rparr>
          in if ecm_rx_buf_pos s1 ! i = ecm_rx_buf_len s1 ! i
             then map_option (\<lambda>t. (t, Some data)) (USBDeluxeDevice_CDC_ECM_AdvanceRxBuffer s1)
             else Some (s1, Some data))"

definition USBDeluxeDevice_CDC_ECM_Write :: "u8 list \<Rightarrow> 'd ecm_ctx \<Rightarrow> ('d ecm_ctx \<times> nat option) option" where
  "USBDeluxeDevice_CDC_ECM_Write buf s =
     (case USBDeluxeDevice_CDC_ECM_AcquireTxBuffer s of
        None \<Rightarrow> None
      | Some (s1, None) \<Rightarrow> Some (s1, None)
      | Some (s1, Some idx) \<Rightarrow>
          let i = unat idx; len = min (length buf) 64
          in Some (s1\<lparr>ecm_tx_buf := (ecm_tx_buf s1)[i := take len buf @ drop len (ecm_tx_buf s1 ! i)],
                      ecm_tx_buf_len := (ecm_tx_buf_len s1)[i := of_nat len]\<rparr>, Some len))"

end
