(* ===== verification/USB_Functions_Props.thy ===== *)
theory USB_Functions_Props
  imports USB_Functions
begin

section \<open>Properties of the HID, MIDI, audio and ECM functions\<close>

text \<open>
  The MIDI port delivers every packet once and in order, in both directions, in every interleaving of the host, the
  task and the application. The three other functions cannot do that: HID and audio read the length of
  a packet through a handle that was never set, and ECM uses a queue and a mutex that were never created.
\<close>

subsection \<open>MIDI: a run\<close>

text \<open>
  The run records what the host has sent, what the application has written with success and what the
  host has received. The host's side: a packet is taken by the armed buffer, and the armed packet is read.
\<close>

datatype midi_op = Midi_HostSends "u8 list" | Midi_Task | Midi_Write "u8 list" | Midi_HostTakes

record 'd midi_run =
  mr_ctx :: "'d midi_ctx"
  mr_sent :: "u8 list list"
  mr_written :: "u8 list list"
  mr_got :: "u8 list list"

definition midi_host_sends :: "u8 list \<Rightarrow> 'd midi_run \<Rightarrow> 'd midi_run" where
  "midi_host_sends p r =
     (let s = mr_ctx r
      in case midi_HandleRx s of None \<Rightarrow> r
         | Some h \<Rightarrow>
             if bdt_UOWN (BDT (midi_usb s) h) \<and> length p \<le> unat (bdt_CNT (BDT (midi_usb s) h))
             then r\<lparr>mr_ctx := s\<lparr>midi_buffer := p @ drop (length p) (midi_buffer s),
                       midi_usb := bdt_upd h (\<lambda>e. e\<lparr>bdt_UOWN := False, bdt_CNT := of_nat (length p)\<rparr>) (midi_usb s)\<rparr>,
                    mr_sent := mr_sent r @ [p]\<rparr>
             else r)"

definition midi_host_takes :: "'d midi_run \<Rightarrow> 'd midi_run" where
  "midi_host_takes r =
     (let s = mr_ctx r
      in case midi_HandleTx s of None \<Rightarrow> r
         | Some h \<Rightarrow>
             let e = BDT (midi_usb s) h
             in (case bdt_ADR e of
                   User_Buf b \<Rightarrow>
                     if bdt_UOWN e
                     then r\<lparr>mr_ctx := s\<lparr>midi_usb := bdt_upd h (\<lambda>e. e\<lparr>bdt_UOWN := False\<rparr>) (midi_usb s)\<rparr>,
                            mr_got := mr_got r @ [take (unat (bdt_CNT e)) b]\<rparr>
                     else r
                 | Own_Buf \<Rightarrow> r))"

text \<open>The application writes at most a packet.\<close>

definition midi_app_write :: "u8 list \<Rightarrow> 'd midi_run \<Rightarrow> 'd midi_run" where
  "midi_app_write b r =
     (if length b \<le> 64
      then (case USBDeluxeDevice_MIDI_Write b (of_nat (length b)) (mr_ctx r) of
              (s, ok) \<Rightarrow> r\<lparr>mr_ctx := s, mr_written := mr_written r @ (if ok then [b] else [])\<rparr>)
      else r)"

fun midi_step :: "'d midi_run \<Rightarrow> midi_op \<Rightarrow> 'd midi_run" where
  "midi_step r (Midi_HostSends p) = midi_host_sends p r"
| "midi_step r Midi_Task = r\<lparr>mr_ctx := USBDeluxeDevice_MIDI_Tasks (mr_ctx r)\<rparr>"
| "midi_step r (Midi_Write b) = midi_app_write b r"
| "midi_step r Midi_HostTakes = midi_host_takes r"

definition midi_start :: "fn_buf usb_eps \<Rightarrow> 'd \<Rightarrow> u8 \<Rightarrow> ('d \<Rightarrow> u8 list \<Rightarrow> 'd) \<Rightarrow> 'd midi_run" where
  "midi_start u d ep f =
     \<lparr>mr_ctx = USBDeluxeDevice_MIDI_Init (USBDeluxeDevice_MIDI_Create u d 0 1 ep (Some (\<lambda>d b n. f d (take (unat n) b)))),
      mr_sent = [], mr_written = [], mr_got = []\<rparr>"

text \<open>The packet that waits for the task, and the packet that waits for the host.\<close>

definition midi_waiting :: "'d midi_ctx \<Rightarrow> u8 list list" where
  "midi_waiting s = (if USBHandleBusy (midi_usb s) (midi_HandleRx s) then []
     else [take (unat (USBHandleGetLength (midi_usb s) (midi_HandleRx s))) (midi_buffer s)])"

definition midi_pending :: "'d midi_ctx \<Rightarrow> u8 list list" where
  "midi_pending s =
     (case midi_HandleTx s of None \<Rightarrow> []
      | Some h \<Rightarrow> (case bdt_ADR (BDT (midi_usb s) h) of
          User_Buf b \<Rightarrow> if bdt_UOWN (BDT (midi_usb s) h) then [take (unat (bdt_CNT (BDT (midi_usb s) h))) b] else []
        | Own_Buf \<Rightarrow> []))"

definition midi_inv :: "('d \<Rightarrow> u8 list \<Rightarrow> 'd) \<Rightarrow> 'd \<Rightarrow> 'd midi_run \<Rightarrow> bool" where
  "midi_inv f d r \<longleftrightarrow> (let s = mr_ctx r in
     usb_eps_ok (midi_usb s) (MIDI_EP_MS s) (MIDI_EP_MS s) \<and>
     (\<exists>a. midi_HandleRx s = Some (MIDI_EP_MS s, OUT_FROM_HOST, a) \<and> bdt_CNT (BDT (midi_usb s) (MIDI_EP_MS s, OUT_FROM_HOST, a)) \<le> 64) \<and>
     (\<forall>h. midi_HandleTx s = Some h \<longrightarrow> (\<exists>a b. h = (MIDI_EP_MS s, IN_TO_HOST, a) \<and> bdt_ADR (BDT (midi_usb s) h) = User_Buf b)) \<and>
     midi_RxDone s = Some (\<lambda>d b n. f d (take (unat n) b)) \<and>
     foldl f (midi_userp s) (midi_waiting s) = foldl f d (mr_sent r) \<and>
     mr_written r = mr_got r @ midi_pending s)"

lemma midi_arm:
  fixes s :: "'d midi_ctx"
  assumes "usb_eps_ok (midi_usb s) (MIDI_EP_MS s) (MIDI_EP_MS s)"
  obtains a u where "midi_arm_rx s = s\<lparr>midi_usb := u, midi_HandleRx := Some (MIDI_EP_MS s, OUT_FROM_HOST, a)\<rparr>"
    "usb_eps_ok u (MIDI_EP_MS s) (MIDI_EP_MS s)" "bdt_UOWN (BDT u (MIDI_EP_MS s, OUT_FROM_HOST, a))"
    "bdt_CNT (BDT u (MIDI_EP_MS s, OUT_FROM_HOST, a)) = 64" "\<And>b. BDT u (MIDI_EP_MS s, IN_TO_HOST, b) = BDT (midi_usb s) (MIDI_EP_MS s, IN_TO_HOST, b)"
  using assms
  by (auto simp: midi_arm_rx_def USBTransferOnePacket_def usb_eps_ok_def bdt_upd_def Let_def)

lemma midi_task_inv:
  assumes "midi_inv f d r"
  shows "midi_inv f d (midi_step r Midi_Task)" "foldl f d (mr_sent r) = midi_userp (USBDeluxeDevice_MIDI_Tasks (mr_ctx r))"
proof -
  let ?s = "mr_ctx r"
  obtain a where h: "midi_HandleRx ?s = Some (MIDI_EP_MS ?s, OUT_FROM_HOST, a)" using assms by (auto simp: midi_inv_def Let_def)
  have "midi_inv f d (midi_step r Midi_Task) \<and> foldl f d (mr_sent r) = midi_userp (USBDeluxeDevice_MIDI_Tasks ?s)"
  proof (cases "USBHandleBusy (midi_usb ?s) (midi_HandleRx ?s)")
    case True
    then show ?thesis using assms h by (simp add: USBDeluxeDevice_MIDI_Tasks_def midi_inv_def Let_def midi_waiting_def)
  next
    case False
    let ?d = "f (midi_userp ?s) (take (unat (USBHandleGetLength (midi_usb ?s) (midi_HandleRx ?s))) (midi_buffer ?s))"
    let ?t = "?s\<lparr>midi_userp := ?d\<rparr>"
    have t: "USBDeluxeDevice_MIDI_Tasks ?s = midi_arm_rx ?t"
      using False assms h by (simp add: USBDeluxeDevice_MIDI_Tasks_def midi_inv_def Let_def)
    have d: "?d = foldl f d (mr_sent r)" using assms False by (simp add: midi_inv_def Let_def midi_waiting_def)
    have "usb_eps_ok (midi_usb ?t) (MIDI_EP_MS ?t) (MIDI_EP_MS ?t)" using assms by (simp add: midi_inv_def Let_def)
    from midi_arm[OF this] obtain b u where A: "midi_arm_rx ?t = ?t\<lparr>midi_usb := u, midi_HandleRx := Some (MIDI_EP_MS ?s, OUT_FROM_HOST, b)\<rparr>"
      "usb_eps_ok u (MIDI_EP_MS ?s) (MIDI_EP_MS ?s)" "bdt_UOWN (BDT u (MIDI_EP_MS ?s, OUT_FROM_HOST, b))"
      "bdt_CNT (BDT u (MIDI_EP_MS ?s, OUT_FROM_HOST, b)) = 64" "\<And>b. BDT u (MIDI_EP_MS ?s, IN_TO_HOST, b) = BDT (midi_usb ?s) (MIDI_EP_MS ?s, IN_TO_HOST, b)"
      by auto
    have "midi_pending (midi_arm_rx ?t) = midi_pending ?s"
      using assms A(5) unfolding A(1) midi_pending_def midi_inv_def Let_def by (cases "midi_HandleTx ?s") auto
    then show ?thesis
      using assms A d unfolding midi_step.simps t
      by (auto simp: midi_inv_def Let_def midi_waiting_def USBHandleBusy_def)
  qed
  then show "midi_inv f d (midi_step r Midi_Task)" "foldl f d (mr_sent r) = midi_userp (USBDeluxeDevice_MIDI_Tasks (mr_ctx r))" by auto
qed

lemma midi_sends_inv:
  assumes "midi_inv f d r"
  shows "midi_inv f d (midi_host_sends p r)"
proof -
  let ?s = "mr_ctx r"
  obtain a where h: "midi_HandleRx ?s = Some (MIDI_EP_MS ?s, OUT_FROM_HOST, a)"
    and c: "bdt_CNT (BDT (midi_usb ?s) (MIDI_EP_MS ?s, OUT_FROM_HOST, a)) \<le> 64" using assms by (auto simp: midi_inv_def Let_def)
  let ?h = "(MIDI_EP_MS ?s, OUT_FROM_HOST, a)"
  show ?thesis
  proof (cases "bdt_UOWN (BDT (midi_usb ?s) ?h) \<and> length p \<le> unat (bdt_CNT (BDT (midi_usb ?s) ?h))")
    case False
    then have "midi_host_sends p r = r" using h by (auto simp: midi_host_sends_def Let_def)
    then show ?thesis using assms by simp
  next
    case True
    then have l: "length p \<le> 64" using c by (simp add: word_le_nat_alt)
    have n: "unat (of_nat (length p) :: u8) = length p" using l by (simp add: unsigned_of_nat take_bit_nat_eq_self)
    have u: "usb_eps_ok (bdt_upd ?h g (midi_usb ?s)) e e' = usb_eps_ok (midi_usb ?s) e e'" for g e e'
      by (simp add: usb_eps_ok_def bdt_upd_def)
    have le: "(of_nat (length p) :: u8) \<le> 64" using n l by (simp add: word_le_nat_alt)
    have w: "midi_waiting ?s = []" using True h by (simp add: midi_waiting_def USBHandleBusy_def)
    let ?g = "\<lambda>e. e\<lparr>bdt_UOWN := False, bdt_CNT := of_nat (length p)\<rparr>"
    let ?t = "?s\<lparr>midi_buffer := p @ drop (length p) (midi_buffer ?s), midi_usb := bdt_upd ?h ?g (midi_usb ?s)\<rparr>"
    have pend: "midi_pending ?t = midi_pending ?s"
      using assms by (auto simp: midi_pending_def midi_inv_def Let_def bdt_upd_def split: option.split)
    have wt: "midi_waiting ?t = [p]"
      using h n by (simp add: midi_waiting_def USBHandleBusy_def USBHandleGetLength_def bdt_upd_def)
    have cnt: "bdt_CNT (BDT (bdt_upd ?h ?g (midi_usb ?s)) ?h) \<le> 64" using le by (simp add: bdt_upd_def)
    have adr: "bdt_ADR (BDT (bdt_upd ?h ?g (midi_usb ?s)) x) = bdt_ADR (BDT (midi_usb ?s) x)" for x
      by (simp add: bdt_upd_def)
    have r: "midi_host_sends p r = r\<lparr>mr_ctx := ?t, mr_sent := mr_sent r @ [p]\<rparr>"
      using True h by (simp add: midi_host_sends_def Let_def)
    show ?thesis using assms h w pend wt cnt adr u unfolding r midi_inv_def Let_def by auto
  qed
qed

lemma midi_write_inv:
  assumes "midi_inv f d r"
  shows "midi_inv f d (midi_app_write b r)"
proof -
  let ?s = "mr_ctx r"
  show ?thesis
  proof (cases "length b \<le> 64 \<and> \<not> USBHandleBusy (midi_usb ?s) (midi_HandleTx ?s)")
    case False
    then have "midi_app_write b r = r"
      by (cases "length b \<le> 64") (simp_all add: midi_app_write_def USBDeluxeDevice_MIDI_Write_def)
    then show ?thesis using assms by simp
  next
    case True
    have n: "unat (of_nat (length b) :: u8) = length b" using True by (simp add: unsigned_of_nat take_bit_nat_eq_self)
    have ok: "usb_eps_ok (midi_usb ?s) (MIDI_EP_MS ?s) (MIDI_EP_MS ?s)" using assms by (simp add: midi_inv_def Let_def)
    have e: "midi_pending ?s = []"
      using True by (auto simp: midi_pending_def USBHandleBusy_def split: option.splits fn_buf.splits)
    obtain u h' where T0: "USBTransferOnePacket (midi_usb ?s) (MIDI_EP_MS ?s) IN_TO_HOST (User_Buf b) (of_nat (length b)) = (u, h')"
      by (metis surj_pair)
    let ?h = "\<lambda>a. (MIDI_EP_MS ?s, IN_TO_HOST, a)"
    obtain a where a: "h' = Some (?h a)"
      using transfer_in(2)[OF ok, of "User_Buf b" "of_nat (length b)"] T0 by auto
    define h where "h = ?h a"
    have T: "USBTransferOnePacket (midi_usb ?s) (MIDI_EP_MS ?s) IN_TO_HOST (User_Buf b) (of_nat (length b)) = (u, Some h)"
      using T0 unfolding a h_def .
    have U: "usb_eps_ok u (MIDI_EP_MS ?s) (MIDI_EP_MS ?s)"
      "\<And>c. BDT u (MIDI_EP_MS ?s, OUT_FROM_HOST, c) = BDT (midi_usb ?s) (MIDI_EP_MS ?s, OUT_FROM_HOST, c)"
      using transfer_in(1,4)[OF ok, of "User_Buf b" "of_nat (length b)"] unfolding T0 fst_conv .
    note B = transfer_busy[OF T]
    let ?t = "?s\<lparr>midi_usb := u, midi_HandleTx := Some h\<rparr>"
    have w: "midi_app_write b r = r\<lparr>mr_ctx := ?t, mr_written := mr_written r @ [b]\<rparr>"
      using True T by (simp add: midi_app_write_def USBDeluxeDevice_MIDI_Write_def)
    have "midi_pending ?t = [b]" using B n by (simp add: midi_pending_def USBHandleBusy_def)
    moreover have "midi_waiting ?t = midi_waiting ?s"
      using assms U(2) by (auto simp: midi_waiting_def midi_inv_def Let_def USBHandleBusy_def USBHandleGetLength_def)
    ultimately show ?thesis using assms U B e h_def unfolding w midi_inv_def Let_def by auto
  qed
qed

lemma midi_tx_handle:
  assumes "midi_inv f d r" "midi_HandleTx (mr_ctx r) = Some h"
  shows "\<exists>a b. h = (MIDI_EP_MS (mr_ctx r), IN_TO_HOST, a) \<and> bdt_ADR (BDT (midi_usb (mr_ctx r)) h) = User_Buf b"
  using assms unfolding midi_inv_def Let_def by blast

lemma midi_takes_inv:
  assumes "midi_inv f d r"
  shows "midi_inv f d (midi_host_takes r)"
proof -
  let ?s = "mr_ctx r"
  show ?thesis
  proof (cases "midi_HandleTx ?s")
    case None
    then show ?thesis using assms by (simp add: midi_host_takes_def)
  next
    case (Some h)
    then obtain a b where h: "h = (MIDI_EP_MS ?s, IN_TO_HOST, a)" "bdt_ADR (BDT (midi_usb ?s) h) = User_Buf b"
      using midi_tx_handle[OF assms] by blast
    show ?thesis
    proof (cases "bdt_UOWN (BDT (midi_usb ?s) h)")
      case False
      then show ?thesis using assms Some h by (simp add: midi_host_takes_def Let_def)
    next
      case True
      let ?t = "?s\<lparr>midi_usb := bdt_upd h (\<lambda>e. e\<lparr>bdt_UOWN := False\<rparr>) (midi_usb ?s)\<rparr>"
      have w: "midi_waiting ?t = midi_waiting ?s"
        using assms h by (auto simp: midi_waiting_def midi_inv_def Let_def USBHandleBusy_def USBHandleGetLength_def bdt_upd_def)
      have p: "midi_pending ?t = []" "midi_pending ?s = [take (unat (bdt_CNT (BDT (midi_usb ?s) h))) b]"
        using Some h True by (simp_all add: midi_pending_def bdt_upd_def)
      have r: "midi_host_takes r = r\<lparr>mr_ctx := ?t, mr_got := mr_got r @ [take (unat (bdt_CNT (BDT (midi_usb ?s) h))) b]\<rparr>"
        using Some h True by (simp add: midi_host_takes_def Let_def)
      show ?thesis using assms w p h unfolding r midi_inv_def Let_def by (auto simp: bdt_upd_def usb_eps_ok_def)
    qed
  qed
qed

lemma enabled_all:
  "usb_eps_ok (USBEnableEndpoint u ep (USB_OUT_ENABLED OR USB_IN_ENABLED OR USB_HANDSHAKE_ENABLED OR USB_DISALLOW_SETUP)) ep ep"
proof -
  have "USB_OUT_ENABLED OR USB_IN_ENABLED OR USB_HANDSHAKE_ENABLED OR USB_DISALLOW_SETUP = (0x1D :: u8)"
    by (simp add: USB_IN_ENABLED_def USB_OUT_ENABLED_def USB_HANDSHAKE_ENABLED_def USB_DISALLOW_SETUP_def)
  moreover have "(0x1D :: u8) AND USB_OUT_ENABLED \<noteq> 0" "(0x1D :: u8) AND USB_IN_ENABLED \<noteq> 0"
    by (simp_all add: USB_OUT_ENABLED_def USB_IN_ENABLED_def)
  ultimately show ?thesis
    by (simp add: USBEnableEndpoint_def USBConfigureEndpoint_def Let_def usb_eps_ok_def bdt_upd_def) blast
qed

lemma midi_start_inv: "midi_inv f d (midi_start u d ep f)"
proof -
  let ?c = "USBDeluxeDevice_MIDI_Create u d 0 1 ep (Some (\<lambda>d b n. f d (take (unat n) b)))"
  let ?s = "?c\<lparr>midi_usb := USBEnableEndpoint (midi_usb ?c) (MIDI_EP_MS ?c)
       (USB_OUT_ENABLED OR USB_IN_ENABLED OR USB_HANDSHAKE_ENABLED OR USB_DISALLOW_SETUP)\<rparr>"
  have "usb_eps_ok (midi_usb ?s) (MIDI_EP_MS ?s) (MIDI_EP_MS ?s)" using enabled_all by simp
  from midi_arm[OF this] obtain b v where A: "midi_arm_rx ?s = ?s\<lparr>midi_usb := v, midi_HandleRx := Some (MIDI_EP_MS ?s, OUT_FROM_HOST, b)\<rparr>"
    "usb_eps_ok v (MIDI_EP_MS ?s) (MIDI_EP_MS ?s)" "bdt_UOWN (BDT v (MIDI_EP_MS ?s, OUT_FROM_HOST, b))"
    "bdt_CNT (BDT v (MIDI_EP_MS ?s, OUT_FROM_HOST, b)) = 64"
    by metis
  have i: "USBDeluxeDevice_MIDI_Init ?c = midi_arm_rx ?s" by (simp add: USBDeluxeDevice_MIDI_Init_def)
  have c: "midi_HandleTx ?c = None" "midi_userp ?c = d" "midi_RxDone ?c = Some (\<lambda>d b n. f d (take (unat n) b))"
    by (simp_all add: USBDeluxeDevice_MIDI_Create_def)
  show ?thesis
    using A(2-4) c unfolding midi_start_def midi_inv_def Let_def i A(1)
    by (simp add: midi_waiting_def midi_pending_def USBHandleBusy_def)
qed

lemma midi_run_inv: "midi_inv f d r \<Longrightarrow> midi_inv f d (foldl midi_step r ops)"
proof (induction ops arbitrary: r)
  case (Cons x xs)
  then have "midi_inv f d (midi_step r x)"
    by (cases x) (simp_all add: midi_sends_inv midi_write_inv midi_takes_inv midi_task_inv(1)[unfolded midi_step.simps])
  then show ?case using Cons.IH by simp
qed simp

text \<open>(C20) In every interleaving of the host, the task and the application the MIDI port hands each packet of the
  host to the application once and in order (after the next run of the task none is outstanding), and the
  host receives what the application has written in order and unchanged, at most one packet being under way.\<close>
theorem midi_exactly_once:
  assumes "r = foldl midi_step (midi_start u d ep f) ops"
  shows "midi_userp (USBDeluxeDevice_MIDI_Tasks (mr_ctx r)) = foldl f d (mr_sent r) \<and>
    mr_written r = mr_got r @ midi_pending (mr_ctx r) \<and> length (midi_pending (mr_ctx r)) \<le> 1"
proof -
  have i: "midi_inv f d r" unfolding assms by (rule midi_run_inv[OF midi_start_inv])
  have "length (midi_pending s) \<le> 1" for s :: "'a midi_ctx" by (auto simp: midi_pending_def split: option.split fn_buf.split)
  then show ?thesis using i midi_task_inv(2)[OF i] by (simp add: midi_inv_def Let_def)
qed

definition midi_demo_eps :: "fn_buf usb_eps" where
  "midi_demo_eps = \<lparr>BDT = (\<lambda>_. \<lparr>bdt_UOWN = False, bdt_DTS = False, bdt_DTSEN = False, bdt_BSTALL = False, bdt_CNT = 0, bdt_ADR = Own_Buf\<rparr>),
     pBDTEntryIn = (\<lambda>_. None), pBDTEntryOut = (\<lambda>_. None), U1EP = (\<lambda>_. 0)\<rparr>"

theorem midi_exactly_once_witness:
  "\<exists>r. r = foldl midi_step (midi_start midi_demo_eps [] 3 (\<lambda>d p. d @ p)) [Midi_HostSends [9, 0x90, 60, 100], Midi_Write [1, 2], Midi_Task, Midi_HostTakes] \<and>
     midi_userp (USBDeluxeDevice_MIDI_Tasks (mr_ctx r)) = foldl (\<lambda>d p. d @ p) [] (mr_sent r)"
  using midi_exactly_once[OF refl, of midi_demo_eps "[]" 3 "\<lambda>d p. d @ p"] by blast

subsection \<open>The handles that are never set\<close>

lemma hid_keeps_null:
  assumes "hid_HandleRx s = None"
  shows "hid_HandleRx (USBDeluxeDevice_HID_Init s) = None"
    "USBDeluxeDevice_HID_CheckRequest rd cfg p s = Some (t, cs) \<Longrightarrow> hid_HandleRx t = None"
    "USBDeluxeDevice_HID_Write b n s = (t, ok) \<Longrightarrow> hid_HandleRx t = None"
    "USBDeluxeDevice_HID_Tasks s = None"
  using assms
  by (auto simp: USBDeluxeDevice_HID_Init_def hid_arm_rx_def USBDeluxeDevice_HID_CheckRequest_def hid_get_descriptor_def
      hid_class_request_def hid_app_request_def USBDeluxeDevice_HID_Write_def USBDeluxeDevice_HID_Tasks_def USBHandleBusy_def
      handle_length_def Let_def split: if_splits option.splits prod.splits)

text \<open>What the stack and the application do with a HID function short of its task.\<close>

inductive hid_calls :: "u8 list \<Rightarrow> u8 \<Rightarrow> 'd hid_ctx \<Rightarrow> 'd hid_ctx \<Rightarrow> bool" for rd cfg where
  Hid_Created: "hid_calls rd cfg s (USBDeluxeDevice_HID_Init s)"
| Hid_Init: "hid_calls rd cfg s t \<Longrightarrow> hid_calls rd cfg s (USBDeluxeDevice_HID_Init t)"
| Hid_Request: "hid_calls rd cfg s t \<Longrightarrow> USBDeluxeDevice_HID_CheckRequest rd cfg p t = Some (v, cs) \<Longrightarrow> hid_calls rd cfg s v"
| Hid_Write: "hid_calls rd cfg s t \<Longrightarrow> USBDeluxeDevice_HID_Write b n t = (v, ok) \<Longrightarrow> hid_calls rd cfg s v"

lemma hid_calls_null: "hid_calls rd cfg s t \<Longrightarrow> hid_HandleRx s = None \<Longrightarrow> hid_HandleRx t = None"
  by (induction rule: hid_calls.induct) (auto dest: hid_keeps_null)

text \<open>The task of a HID function never works: the handle of the armed buffer is not stored, so whatever
  the host and the application do before, the task reads the length of a packet through a null pointer.\<close>
theorem hid_task_null:
  assumes "hid_calls rd cfg (USBDeluxeDevice_HID_Create u d i ep n m off l ops) t"
  shows "USBDeluxeDevice_HID_Tasks t = None"
  using hid_calls_null[OF assms] hid_keeps_null(4) by (simp add: USBDeluxeDevice_HID_Create_def)

theorem hid_task_null_witness:
  "USBDeluxeDevice_HID_Tasks (USBDeluxeDevice_HID_Init (USBDeluxeDevice_HID_Create midi_demo_eps () 0 1 8 63 0 9
     \<lparr>GetReport = None, SetReport = None, SetIdleRate = None, GetReportDescriptor = None, hid_RxDone = None\<rparr>)) = None"
  by (rule hid_task_null[OF hid_calls.Hid_Created])

text \<open>The audio function has the same fault at its first run.\<close>

theorem audio_task_null:
  "USBDeluxeDevice_Audio_Tasks (USBDeluxeDevice_Audio_Init (USBDeluxeDevice_Audio_Create u d a s ep ops)) = None"
  by (simp add: USBDeluxeDevice_Audio_Tasks_def USBDeluxeDevice_Audio_Init_def USBDeluxeDevice_Audio_Create_def USBHandleBusy_def handle_length_def)

subsection \<open>The queue and the mutex of ECM\<close>

definition ecm_unusable :: "'d ecm_ctx \<Rightarrow> bool" where
  "ecm_unusable s \<longleftrightarrow> ecm_tx_lock s = None \<and> ecm_rx_queue s = None \<and> ecm_tx_buf_len s = [0, 0] \<and> unat (ecm_tx_buf_idx s) < 2"

lemma ecm_idle: "ecm_unusable s \<Longrightarrow> ecm_tx_buf_len s ! unat (ecm_tx_buf_idx s) = 0"
  by (auto simp: ecm_unusable_def less_Suc_eq numeral_2_eq_2)

lemma ecm_arm_frame [simp]: "ecm_unusable (ecm_arm_rx i s) = ecm_unusable s" "ecm_RxDone (ecm_arm_rx i s) = ecm_RxDone s"
  "ecm_rx_queue (ecm_arm_rx i s) = ecm_rx_queue s"
  by (simp_all add: ecm_arm_rx_def ecm_unusable_def split: prod.split)

lemma ecm_init_unusable: "ecm_unusable s \<Longrightarrow> ecm_unusable (USBDeluxeDevice_CDC_ECM_Init s)"
proof -
  assume a: "ecm_unusable s"
  have e: "ecm_unusable (x\<lparr>ecm_usb := u\<rparr>) = ecm_unusable x" "ecm_unusable (x\<lparr>ecm_DataOutHandle := h, ecm_notif := n\<rparr>) = ecm_unusable x"
    for x :: "'a ecm_ctx" and u h n
    by (simp_all add: ecm_unusable_def)
  show ?thesis using a by (simp add: USBDeluxeDevice_CDC_ECM_Init_def Let_def e)
qed

lemma ecm_rx_unusable:
  assumes "ecm_unusable s" and "USBDeluxeDevice_CDC_ECM_TryRx s = Some t"
  shows "ecm_unusable t"
proof -
  have e: "ecm_unusable (x\<lparr>ecm_rx_buf_idx := i\<rparr>) = ecm_unusable x" "ecm_unusable (x\<lparr>ecm_rx_buf_len := l, ecm_rx_buf_pos := p\<rparr>) = ecm_unusable x"
    "ecm_unusable (x\<lparr>ecm_rx_buf_len := l, ecm_rx_buf_pos := p, ecm_userp := d\<rparr>) = ecm_unusable x" for x :: "'a ecm_ctx" and i l p d
    by (simp_all add: ecm_unusable_def)
  have q: "ecm_rx_queue s = None" using assms(1) by (simp add: ecm_unusable_def)
  show ?thesis using assms q
    by (auto simp: USBDeluxeDevice_CDC_ECM_TryRx_def ecm_enqueue_def Let_def e split: if_splits option.splits)
qed

lemma ecm_tasks_unusable:
  assumes "ecm_unusable s" and "USBDeluxeDevice_CDC_ECM_Tasks s = Some t"
  shows "ecm_unusable t"
proof -
  have "USBDeluxeDevice_CDC_ECM_DoTx s = Some (s, 0) \<or> USBDeluxeDevice_CDC_ECM_DoTx s = Some (s, 2)"
    using ecm_idle[OF assms(1)] by (simp add: USBDeluxeDevice_CDC_ECM_DoTx_def Let_def)
  then show ?thesis using assms ecm_rx_unusable by (auto simp: USBDeluxeDevice_CDC_ECM_Tasks_def)
qed

inductive ecm_calls :: "'d ecm_ctx \<Rightarrow> 'd ecm_ctx \<Rightarrow> bool" where
  Ecm_Init: "ecm_calls s (USBDeluxeDevice_CDC_ECM_Init s)"
| Ecm_Again: "ecm_calls s t \<Longrightarrow> ecm_calls s (USBDeluxeDevice_CDC_ECM_Init t)"
| Ecm_Task: "ecm_calls s t \<Longrightarrow> USBDeluxeDevice_CDC_ECM_Tasks t = Some v \<Longrightarrow> ecm_calls s v"
| Ecm_Hardware: "ecm_calls s t \<Longrightarrow> ecm_calls s (t\<lparr>ecm_usb := bdt_upd h g (ecm_usb t), ecm_rx_buf := b\<rparr>)"

lemma ecm_hardware [simp]: "ecm_unusable (t\<lparr>ecm_usb := u, ecm_rx_buf := b\<rparr>) = ecm_unusable t"
  by (simp add: ecm_unusable_def)

lemma ecm_calls_unusable: "ecm_calls s t \<Longrightarrow> ecm_unusable s \<Longrightarrow> ecm_unusable t"
  by (induction rule: ecm_calls.induct) (auto intro: ecm_init_unusable ecm_tasks_unusable)

text \<open>Nothing can be sent or read through the ECM function: its mutex and its queue are never
  created, and in every state it can reach the calls for writing and reading pass a null handle to FreeRTOS.\<close>
theorem ecm_unusable_calls:
  assumes "ecm_calls (USBDeluxeDevice_CDC_ECM_Create u d a b c e f) t"
  shows "USBDeluxeDevice_CDC_ECM_Write buf t = None \<and> USBDeluxeDevice_CDC_ECM_ReadRaw n t = None"
proof -
  have "ecm_unusable t"
    using ecm_calls_unusable[OF assms] by (simp add: ecm_unusable_def USBDeluxeDevice_CDC_ECM_Create_def)
  then show ?thesis
    by (simp add: ecm_unusable_def USBDeluxeDevice_CDC_ECM_Write_def USBDeluxeDevice_CDC_ECM_AcquireTxBuffer_def
        USBDeluxeDevice_CDC_ECM_ReadRaw_def USBDeluxeDevice_CDC_ECM_AcquireRxBuffer_def)
qed

theorem ecm_unusable_calls_witness:
  "USBDeluxeDevice_CDC_ECM_Write [1, 2] (USBDeluxeDevice_CDC_ECM_Init (USBDeluxeDevice_CDC_ECM_Create
     \<lparr>BDT = (\<lambda>_. \<lparr>bdt_UOWN = False, bdt_DTS = False, bdt_DTSEN = False, bdt_BSTALL = False, bdt_CNT = 0, bdt_ADR = Ecm_Notif\<rparr>),
      pBDTEntryIn = (\<lambda>_. None), pBDTEntryOut = (\<lambda>_. None), U1EP = (\<lambda>_. 0)\<rparr> () 0 1 1 2 None)) = None"
  by (rule ecm_unusable_calls[OF ecm_calls.Ecm_Init, THEN conjunct1])

end
