(* ===== verification/CDC_NCM_Port.thy ===== *)
theory CDC_NCM_Port
  imports CDC_NCM USB_Endpoint
begin

section \<open>The CDC NCM function: the data path\<close>

text \<open>
  Models the rest of \<^verbatim>\<open>usb_deluxe_device_cdc_ncm.c\<close>: the context with its two receive and two send
  buffers, the initialisation, the class requests, the task and the buffer calls on which the transfer
  block functions of theory \<open>CDC_NCM\<close> are built. In contrast to the serial port a packet of length 0 can be
  sent. The task waits for its first notification to be taken by the host: the loop ends only when
  the hardware has cleared the ownership of the descriptor.
\<close>

datatype ncm_buf = Ncm_Rx u8 | Ncm_Tx u8 | Ncm_Notif

record 'd ncm_port =
  np_rx_buf :: "u8 list list"
  np_rx_buf_len :: "u8 list"
  np_rx_buf_pos :: "u8 list"
  np_tx_buf :: "u8 list list"
  np_tx_buf_len :: "u8 list"
  np_tx_buf_has_data :: "u8 list"
  np_rx_buf_idx :: u8
  np_tx_buf_idx :: u8
  np_userp :: 'd
  NCM_IFACE_COMM :: u8
  NCM_IFACE_DATA :: u8
  NCM_EP_COMM :: u8
  NCM_EP_DATA :: u8
  np_RxDone :: "('d \<Rightarrow> u8 list \<Rightarrow> 'd) option"
  cdc_notif :: "u8 list"
  np_DataOutHandle :: usb_handle
  np_DataInHandle :: usb_handle
  np_CommOutHandle :: usb_handle
  np_rx_queue :: "u8 option"
  np_tx_lock :: bool
  np_rx_queue_pending :: bool
  np_rx_queue_pending_idx :: u8
  notif_sent :: bool
  np_usb :: "ncm_buf usb_eps"

definition USBDeluxeDevice_CDC_NCM_Create ::
  "ncm_buf usb_eps \<Rightarrow> 'd \<Rightarrow> u8 \<Rightarrow> u8 \<Rightarrow> u8 \<Rightarrow> u8 \<Rightarrow> ('d \<Rightarrow> u8 list \<Rightarrow> 'd) option \<Rightarrow> 'd ncm_port" where
  "USBDeluxeDevice_CDC_NCM_Create u userp usb_iface_comm usb_iface_data usb_ep_comm usb_ep_data rxdone =
     \<lparr>np_rx_buf = [replicate 64 0, replicate 64 0], np_rx_buf_len = [0, 0], np_rx_buf_pos = [0, 0],
      np_tx_buf = [replicate 64 0, replicate 64 0], np_tx_buf_len = [0, 0], np_tx_buf_has_data = [0, 0],
      np_rx_buf_idx = 0, np_tx_buf_idx = 0, np_userp = userp, NCM_IFACE_COMM = usb_iface_comm, NCM_IFACE_DATA = usb_iface_data,
      NCM_EP_COMM = usb_ep_comm, NCM_EP_DATA = usb_ep_data, np_RxDone = rxdone, cdc_notif = replicate 32 0,
      np_DataOutHandle = None, np_DataInHandle = None, np_CommOutHandle = None, np_rx_queue = None, np_tx_lock = True,
      np_rx_queue_pending = False, np_rx_queue_pending_idx = 0, notif_sent = False, np_usb = u\<rparr>"

definition ncm_arm_rx :: "u8 \<Rightarrow> 'd ncm_port \<Rightarrow> 'd ncm_port" where
  "ncm_arm_rx i s =
     (case USBTransferOnePacket (np_usb s) (NCM_EP_DATA s) OUT_FROM_HOST (Ncm_Rx i) 64 of
        (u, h) \<Rightarrow> s\<lparr>np_usb := u, np_DataInHandle := h\<rparr>)"

definition USBDeluxeDevice_CDC_NCM_Init :: "'d ncm_port \<Rightarrow> 'd ncm_port" where
  "USBDeluxeDevice_CDC_NCM_Init s =
     (let opts = USB_IN_ENABLED OR USB_OUT_ENABLED OR USB_HANDSHAKE_ENABLED OR USB_DISALLOW_SETUP;
          s1 = s\<lparr>np_usb := USBEnableEndpoint (np_usb s) (NCM_EP_COMM s) opts\<rparr>;
          s2 = s1\<lparr>np_usb := USBEnableEndpoint (np_usb s1) (NCM_EP_DATA s1) opts\<rparr>
      in (ncm_arm_rx 0 s2)\<lparr>np_DataOutHandle := None, notif_sent := True\<rparr>)"

definition ncm_request :: "usb_setup \<Rightarrow> 'd ncm_port \<Rightarrow> 'd ncm_port \<times> ep0_action" where
  "ncm_request p s =
     (case USBDeluxeDevice_CDC_NCM_CheckRequest p (NCM_IFACE_COMM s) (NCM_IFACE_DATA s) of
        (a, due) \<Rightarrow> (if due then s\<lparr>notif_sent := False\<rparr> else s, a))"

definition USBDeluxeDevice_CDC_NCM_TryRx :: "'d ncm_port \<Rightarrow> 'd ncm_port" where
  "USBDeluxeDevice_CDC_NCM_TryRx s =
     (if np_rx_queue_pending s then
        (case rtos_queue_send (np_rx_queue_pending_idx s) (np_rx_queue s) of
           (q, passed) \<Rightarrow> if passed then s\<lparr>np_rx_queue := q, np_rx_queue_pending := False\<rparr> else s\<lparr>np_rx_queue := q\<rparr>)
      else if \<not> USBHandleBusy (np_usb s) (np_DataInHandle s) then
        let cur = np_rx_buf_idx s;
            last_rx_len = USBHandleGetLength (np_usb s) (np_DataInHandle s);
            s1 = s\<lparr>np_rx_buf_idx := (cur + 1) mod 2\<rparr>;
            s2 = ncm_arm_rx (np_rx_buf_idx s1) s1;
            s3 = s2\<lparr>np_rx_buf_len := (np_rx_buf_len s2)[unat cur := last_rx_len],
                    np_rx_buf_pos := (np_rx_buf_pos s2)[unat cur := 0]\<rparr>
        in (case np_RxDone s3 of
              Some f \<Rightarrow> s3\<lparr>np_userp := f (np_userp s3) (take (unat last_rx_len) (np_rx_buf s3 ! unat cur))\<rparr>
            | None \<Rightarrow>
                (case rtos_queue_send cur (np_rx_queue s3) of
                   (q, passed) \<Rightarrow> if passed then s3\<lparr>np_rx_queue := q, np_rx_queue_pending := False\<rparr>
                                  else s3\<lparr>np_rx_queue := q, np_rx_queue_pending := True, np_rx_queue_pending_idx := cur\<rparr>))
      else s)"

definition USBDeluxeDevice_CDC_NCM_DoTx :: "'d ncm_port \<Rightarrow> 'd ncm_port \<times> u8" where
  "USBDeluxeDevice_CDC_NCM_DoTx s =
     (if \<not> USBHandleBusy (np_usb s) (np_DataOutHandle s) then
        let cur = np_tx_buf_idx s
        in if np_tx_buf_len s ! unat cur \<noteq> 0 \<or> np_tx_buf_has_data s ! unat cur \<noteq> 0 then
             (case USBTransferOnePacket (np_usb s) (NCM_EP_DATA s) IN_TO_HOST (Ncm_Tx cur) (np_tx_buf_len s ! unat cur) of
                (u, h) \<Rightarrow>
                  let t = s\<lparr>np_usb := u, np_DataOutHandle := h, np_tx_buf_idx := (cur + 1) mod 2\<rparr>
                  in (t\<lparr>np_tx_buf_len := (np_tx_buf_len t)[unat (np_tx_buf_idx t) := 0],
                        np_tx_buf_has_data := (np_tx_buf_has_data t)[unat (np_tx_buf_idx t) := 0], np_tx_lock := True\<rparr>, 1))
           else (s, 0)
      else (s, 2))"

definition ncm_notify :: "u8 \<Rightarrow> 'd ncm_port \<Rightarrow> 'd ncm_port" where
  "ncm_notify n s =
     (case USBTransferOnePacket (np_usb s) (NCM_EP_COMM s) IN_TO_HOST Ncm_Notif n of
        (u, h) \<Rightarrow> s\<lparr>np_usb := u, np_CommOutHandle := h\<rparr>)"

text \<open>The loop on \<^verbatim>\<open>CDCCommOutHandle\<close>: what holds when it has ended.\<close>

definition ncm_wait_taken :: "'d ncm_port \<Rightarrow> 'd ncm_port" where
  "ncm_wait_taken s = (case np_CommOutHandle s of None \<Rightarrow> s | Some h \<Rightarrow> s\<lparr>np_usb := bdt_upd h (\<lambda>e. e\<lparr>bdt_UOWN := False\<rparr>) (np_usb s)\<rparr>)"

definition USBDeluxeDevice_CDC_NCM_Tasks :: "'d ncm_port \<Rightarrow> 'd ncm_port" where
  "USBDeluxeDevice_CDC_NCM_Tasks s =
     (let s1 = (if notif_sent s then s
                else
                  let speed = [0xa1, 0x2a, 0x01, 0x00, 0x02, 0x00, 0x08, 0x00, 0x00, 0x00, 0x01, 0x00, 0x00, 0x00, 0x01, 0x00];
                      connected = [0xa1, 0x00, 0x01, 0x00, 0x02, 0x00, 0x00, 0x00] @ replicate 8 0;
                      t1 = ncm_wait_taken (ncm_notify 16 (s\<lparr>cdc_notif := speed @ drop 16 (cdc_notif s)\<rparr>));
                      t2 = ncm_notify 16 (t1\<lparr>cdc_notif := connected @ drop 16 (cdc_notif t1)\<rparr>)
                  in t2\<lparr>notif_sent := True\<rparr>)
      in USBDeluxeDevice_CDC_NCM_TryRx (fst (USBDeluxeDevice_CDC_NCM_DoTx s1)))"

definition USBDeluxeDevice_CDC_NCM_AcquireRxBuffer :: "'d ncm_port \<Rightarrow> u8 option" where
  "USBDeluxeDevice_CDC_NCM_AcquireRxBuffer s = np_rx_queue s"

definition USBDeluxeDevice_CDC_NCM_AdvanceRxBuffer :: "'d ncm_port \<Rightarrow> 'd ncm_port" where
  "USBDeluxeDevice_CDC_NCM_AdvanceRxBuffer s = s\<lparr>np_rx_queue := None\<rparr>"

definition USBDeluxeDevice_CDC_NCM_AcquireTxBuffer :: "'d ncm_port \<Rightarrow> 'd ncm_port \<times> u8 option" where
  "USBDeluxeDevice_CDC_NCM_AcquireTxBuffer s =
     (case rtos_mutex_take (np_tx_lock s) of
        (l, taken) \<Rightarrow> if taken then (s\<lparr>np_tx_lock := l\<rparr>, Some (np_tx_buf_idx s)) else (s, None))"

definition USBDeluxeDevice_CDC_NCM_ReadRaw :: "u16 \<Rightarrow> 'd ncm_port \<Rightarrow> 'd ncm_port \<times> u8 list option" where
  "USBDeluxeDevice_CDC_NCM_ReadRaw len s =
     (case USBDeluxeDevice_CDC_NCM_AcquireRxBuffer s of
        None \<Rightarrow> (s, None)
      | Some idx \<Rightarrow>
          let i = unat idx;
              left = np_rx_buf_len s ! i - np_rx_buf_pos s ! i;
              len' = (if len > ucast left then ucast left else len);
              data = take (unat len') (drop (unat (np_rx_buf_pos s ! i)) (np_rx_buf s ! i));
              s1 = s\<lparr>np_rx_buf_pos := (np_rx_buf_pos s)[i := np_rx_buf_pos s ! i + ucast len']\<rparr>;
              s2 = (if np_rx_buf_pos s1 ! i = np_rx_buf_len s1 ! i then USBDeluxeDevice_CDC_NCM_AdvanceRxBuffer s1 else s1)
          in (s2, Some data))"

text \<open>What a writer does with the buffer it has acquired: fill it and announce \<open>n\<close> bytes, or an empty packet.\<close>

definition ncm_fill :: "u8 \<Rightarrow> (u8 list \<Rightarrow> u8 list) \<Rightarrow> u8 \<Rightarrow> 'd ncm_port \<Rightarrow> 'd ncm_port" where
  "ncm_fill i f n s =
     (let s1 = s\<lparr>np_tx_buf := (np_tx_buf s)[unat i := f (np_tx_buf s ! unat i)]\<rparr>
      in if n = 0 then s1\<lparr>np_tx_buf_has_data := (np_tx_buf_has_data s1)[unat i := 1]\<rparr>
         else s1\<lparr>np_tx_buf_len := (np_tx_buf_len s1)[unat i := n]\<rparr>)"

end
