(* ===== verification/USB_Dispatch.thy ===== *)
theory USB_Dispatch
  imports USB_Functions CDC_ACM CDC_NCM_Port MSD
begin

section \<open>The dispatch to the device functions\<close>

text \<open>
  Models \<^verbatim>\<open>USBDeluxe_Device_EventInit\<close>, \<^verbatim>\<open>USBDeluxe_Device_EventCheckRequest\<close> and
  \<^verbatim>\<open>USBDeluxe_Device_Tasks\<close> of \<^verbatim>\<open>usb_deluxe_device.c\<close>: the driver table is the list of the contexts of
  the functions, and the functions are called one after the other. A function sees the buffer descriptors of
  its own endpoints (no two functions share one, theory \<open>USB_Descriptor_Props\<close>). The claims of a function on
  endpoint 0 are lifted to the table: a destination pointer into the context of a function is a
  store into the entry of the table.
\<close>

datatype 'd usb_drv_ctx =
    Drv_HID "'d hid_ctx"
  | Drv_AUDIO "'d audio_ctx"
  | Drv_MIDI "'d midi_ctx"
  | Drv_ACM "'d acm_ctx"
  | Drv_ECM "'d ecm_ctx"
  | Drv_NCM "'d ncm_port"
  | Drv_MSD "'d msd_ctx"

fun lift_claim :: "(('c \<Rightarrow> 'c) \<Rightarrow> 'd \<Rightarrow> 'd) \<Rightarrow> 'c ep0_claim \<Rightarrow> 'd ep0_claim" where
  "lift_claim upd Claim_empty = Claim_empty"
| "lift_claim upd (Claim_in bs) = Claim_in bs"
| "lift_claim upd (Claim_out n put f) = Claim_out n (\<lambda>i b. upd (put i b)) (map_option upd f)"

fun userp_upd :: "('d \<Rightarrow> 'd) \<Rightarrow> 'd usb_drv_ctx \<Rightarrow> 'd usb_drv_ctx" where
  "userp_upd g (Drv_HID c) = Drv_HID (c\<lparr>hid_userp := g (hid_userp c)\<rparr>)"
| "userp_upd g (Drv_AUDIO c) = Drv_AUDIO (c\<lparr>audio_userp := g (audio_userp c)\<rparr>)"
| "userp_upd g d = d"

fun acm_upd :: "('d acm_ctx \<Rightarrow> 'd acm_ctx) \<Rightarrow> 'd usb_drv_ctx \<Rightarrow> 'd usb_drv_ctx" where
  "acm_upd g (Drv_ACM c) = Drv_ACM (g c)"
| "acm_upd g d = d"

text \<open>
  The data of \<^verbatim>\<open>SET_LINE_CODING\<close> goes to \<open>line_coding\<close>, then the handler is called. \<open>None\<close>: more than
  the 8 bytes of the union are accepted, the rest goes over the fields behind it.
\<close>

fun acm_claims :: "ep0_action \<Rightarrow> 'd acm_ctx ep0_claim list option" where
  "acm_claims EP0_nothing = Some []"
| "acm_claims EP0_empty = Some [Claim_empty]"
| "acm_claims (EP0_data bs) = Some [Claim_in bs]"
| "acm_claims (EP0_receive n) =
     (if n \<le> 8 then Some [Claim_out n (\<lambda>i b c. c\<lparr>line_coding := (line_coding c)[i := b]\<rparr>)
        (Some USBDeluxeDevice_CDC_ACM_EP0RxHandler_LineCoding)] else None)"

text \<open>The network functions only answer with data or nothing.\<close>

fun net_claims :: "ep0_action \<Rightarrow> 'd usb_drv_ctx ep0_claim list" where
  "net_claims (EP0_data bs) = [Claim_in bs]"
| "net_claims EP0_empty = [Claim_empty]"
| "net_claims _ = []"

fun msd_claims :: "ep0_reply \<Rightarrow> 'd usb_drv_ctx ep0_claim list" where
  "msd_claims EP0_not_handled = []"
| "msd_claims EP0_no_data = [Claim_empty]"
| "msd_claims (EP0_send bs) = [Claim_in bs]"

definition msd_setup :: "usb_setup \<Rightarrow> setup_packet" where
  "msd_setup p = \<lparr>Recipient_is_interface = (st_Recipient p = 0x01), bIntfID = st_bIntfID p, bRequest = st_bRequest p,
     wValue = st_wValue p, wLength = st_wLength p\<rparr>"

text \<open>One turn of the loops; \<open>rd\<close> is the configuration descriptor, \<open>cfg\<close> the active configuration.\<close>

fun drv_init :: "'d usb_drv_ctx \<Rightarrow> 'd usb_drv_ctx" where
  "drv_init (Drv_AUDIO c) = Drv_AUDIO (USBDeluxeDevice_Audio_Init c)"
| "drv_init (Drv_MIDI c) = Drv_MIDI (USBDeluxeDevice_MIDI_Init c)"
| "drv_init (Drv_ACM c) = Drv_ACM (USBDeluxeDevice_CDC_ACM_Init c)"
| "drv_init (Drv_ECM c) = Drv_ECM (USBDeluxeDevice_CDC_ECM_Init c)"
| "drv_init (Drv_NCM c) = Drv_NCM (USBDeluxeDevice_CDC_NCM_Init c)"
| "drv_init (Drv_HID c) = Drv_HID (USBDeluxeDevice_HID_Init c)"
| "drv_init (Drv_MSD c) = Drv_MSD (USBDeluxeDevice_MSD_Init c)"

fun drv_check :: "u8 list \<Rightarrow> u8 \<Rightarrow> usb_setup \<Rightarrow> 'd usb_drv_ctx \<Rightarrow> ('d usb_drv_ctx \<times> 'd usb_drv_ctx ep0_claim list) option" where
  "drv_check rd cfg p (Drv_ACM c) =
     (case USBDeluxeDevice_CDC_ACM_CheckRequest p c of
        (c', a) \<Rightarrow> map_option (\<lambda>cs. (Drv_ACM c', map (lift_claim acm_upd) cs)) (acm_claims a))"
| "drv_check rd cfg p (Drv_ECM c) = Some (Drv_ECM c, net_claims (USBDeluxeDevice_CDC_ECM_CheckRequest p c))"
| "drv_check rd cfg p (Drv_NCM c) = (case ncm_request p c of (c', a) \<Rightarrow> Some (Drv_NCM c', net_claims a))"
| "drv_check rd cfg p (Drv_AUDIO c) =
     map_option (\<lambda>(c', cs). (Drv_AUDIO c', map (lift_claim userp_upd) cs)) (USBDeluxeDevice_Audio_CheckRequest p c)"
| "drv_check rd cfg p (Drv_HID c) =
     map_option (\<lambda>(c', cs). (Drv_HID c', map (lift_claim userp_upd) cs)) (USBDeluxeDevice_HID_CheckRequest rd cfg p c)"
| "drv_check rd cfg p (Drv_MSD c) =
     (case USBDeluxeDevice_MSD_CheckRequest (msd_setup p) c of (c', a) \<Rightarrow> Some (Drv_MSD c', msd_claims a))"
| "drv_check rd cfg p (Drv_MIDI c) = Some (Drv_MIDI c, [])"

fun drv_tasks :: "'d usb_drv_ctx \<Rightarrow> 'd usb_drv_ctx option" where
  "drv_tasks (Drv_HID c) = map_option Drv_HID (USBDeluxeDevice_HID_Tasks c)"
| "drv_tasks (Drv_AUDIO c) = map_option Drv_AUDIO (USBDeluxeDevice_Audio_Tasks c)"
| "drv_tasks (Drv_MIDI c) = Some (Drv_MIDI (USBDeluxeDevice_MIDI_Tasks c))"
| "drv_tasks (Drv_ACM c) = Some (Drv_ACM (USBDeluxeDevice_CDC_ACM_Tasks c))"
| "drv_tasks (Drv_ECM c) = map_option Drv_ECM (USBDeluxeDevice_CDC_ECM_Tasks c)"
| "drv_tasks (Drv_NCM c) = Some (Drv_NCM (USBDeluxeDevice_CDC_NCM_Tasks c))"
| "drv_tasks (Drv_MSD c) = Some (Drv_MSD (USBDeluxeDevice_MSD_Tasks c))"

definition USBDeluxe_Device_EventInit :: "'d usb_drv_ctx list \<Rightarrow> 'd usb_drv_ctx list" where
  "USBDeluxe_Device_EventInit ds = map drv_init ds"

definition slot_upd :: "nat \<Rightarrow> ('c \<Rightarrow> 'c) \<Rightarrow> 'c list \<Rightarrow> 'c list" where
  "slot_upd k g ds = (if k < length ds then ds[k := g (ds ! k)] else ds)"

text \<open>\<open>k\<close> is the place of the first driver in the table.\<close>

fun check_from :: "u8 list \<Rightarrow> u8 \<Rightarrow> usb_setup \<Rightarrow> nat \<Rightarrow> 'd usb_drv_ctx list \<Rightarrow>
    ('d usb_drv_ctx list \<times> 'd usb_drv_ctx list ep0_claim list) option" where
  "check_from rd cfg p k [] = Some ([], [])"
| "check_from rd cfg p k (d # ds) =
     (case drv_check rd cfg p d of None \<Rightarrow> None
      | Some (d', cs) \<Rightarrow>
          (case check_from rd cfg p (Suc k) ds of None \<Rightarrow> None
           | Some (ds', cs') \<Rightarrow> Some (d' # ds', map (lift_claim (slot_upd k)) cs @ cs')))"

definition USBDeluxe_Device_EventCheckRequest ::
  "u8 list \<Rightarrow> u8 \<Rightarrow> usb_setup \<Rightarrow> 'd usb_drv_ctx list \<Rightarrow> ('d usb_drv_ctx list \<times> 'd usb_drv_ctx list ep0_claim list) option" where
  "USBDeluxe_Device_EventCheckRequest rd cfg p ds = check_from rd cfg p 0 ds"

text \<open>The functions only run on a configured device that is not suspended.\<close>

definition USBDeluxe_Device_Tasks :: "dev_state \<Rightarrow> bool \<Rightarrow> 'd usb_drv_ctx list \<Rightarrow> 'd usb_drv_ctx list option" where
  "USBDeluxe_Device_Tasks st suspended ds =
     (if st \<noteq> CONFIGURED_STATE then Some ds
      else if suspended then Some ds
      else those (map drv_tasks ds))"

text \<open>\<open>SET_CONFIGURATION\<close> has cleared the table of buffer descriptors before the functions are initialised.\<close>

definition eps_clear :: "'b usb_eps \<Rightarrow> 'b usb_eps" where
  "eps_clear u = u\<lparr>BDT := (\<lambda>h. bdt_zero (BDT u h)), U1EP := (\<lambda>e. if e = 0 then U1EP u 0 else 0)\<rparr>"

fun drv_clear :: "'d usb_drv_ctx \<Rightarrow> 'd usb_drv_ctx" where
  "drv_clear (Drv_HID c) = Drv_HID (c\<lparr>hid_usb := eps_clear (hid_usb c)\<rparr>)"
| "drv_clear (Drv_AUDIO c) = Drv_AUDIO (c\<lparr>audio_usb := eps_clear (audio_usb c)\<rparr>)"
| "drv_clear (Drv_MIDI c) = Drv_MIDI (c\<lparr>midi_usb := eps_clear (midi_usb c)\<rparr>)"
| "drv_clear (Drv_ACM c) = Drv_ACM (c\<lparr>acm_usb := eps_clear (acm_usb c)\<rparr>)"
| "drv_clear (Drv_ECM c) = Drv_ECM (c\<lparr>ecm_usb := eps_clear (ecm_usb c)\<rparr>)"
| "drv_clear (Drv_NCM c) = Drv_NCM (c\<lparr>np_usb := eps_clear (np_usb c)\<rparr>)"
| "drv_clear (Drv_MSD c) = Drv_MSD (c\<lparr>usb := eps_clear (usb c)\<rparr>)"

text \<open>\<^verbatim>\<open>USB_Device_EventHandler\<close> with these functions; the endpoints are in the contexts.\<close>

definition device_events :: "u8 list \<Rightarrow> u8 \<Rightarrow> ('b, 'd usb_drv_ctx list) usb_events" where
  "device_events rd cfg = \<lparr>EventInit = (\<lambda>(ds, u). (USBDeluxe_Device_EventInit (map drv_clear ds), u)),
     EventCheckRequest = (\<lambda>p (ds, u). map_option (\<lambda>(ds', cs). ((ds', u), cs)) (USBDeluxe_Device_EventCheckRequest rd cfg p ds))\<rparr>"

end
