(* ===== verification/USB_Dispatch_Props.thy ===== *)
theory USB_Dispatch_Props
  imports USB_Dispatch USB_EP0_Props
begin

section \<open>Properties of the dispatch\<close>

text \<open>
  A request goes to the function that owns its interface and to no other, whatever functions the device has; and
  a whole path through the stack: the line coding a host sets for one of the serial ports of a
  composite device is the one it reads back.
\<close>

fun drv_ifaces :: "'d usb_drv_ctx \<Rightarrow> u8 list" where
  "drv_ifaces (Drv_HID c) = [HID_IFACE c]"
| "drv_ifaces (Drv_AUDIO c) = [AUDIO_IFACE_AC c, AUDIO_IFACE_AS c]"
| "drv_ifaces (Drv_MIDI c) = [MIDI_IFACE_AC c, MIDI_IFACE_MS c]"
| "drv_ifaces (Drv_ACM c) = [USB_IFACE_COMM c, USB_IFACE_DATA c]"
| "drv_ifaces (Drv_ECM c) = [ECM_IFACE_COMM c, ECM_IFACE_DATA c]"
| "drv_ifaces (Drv_NCM c) = [NCM_IFACE_COMM c, NCM_IFACE_DATA c]"
| "drv_ifaces (Drv_MSD c) = [USB_IFACE c]"

text \<open>A function does nothing about a request for another interface.\<close>

lemma drv_check_other:
  assumes "st_bIntfID p \<notin> set (drv_ifaces d)"
  shows "drv_check rd cfg p d = Some (d, [])"
  using assms
  by (cases d) (auto simp: USBDeluxeDevice_CDC_ACM_CheckRequest_def USBDeluxeDevice_CDC_ECM_CheckRequest_def ncm_request_def
      USBDeluxeDevice_CDC_NCM_CheckRequest_def USBDeluxeDevice_Audio_CheckRequest_def USBDeluxeDevice_HID_CheckRequest_def
      USBDeluxeDevice_MSD_CheckRequest_def msd_setup_def Let_def)

lemma check_from_other:
  assumes "\<And>d. d \<in> set ds \<Longrightarrow> st_bIntfID p \<notin> set (drv_ifaces d)"
  shows "check_from rd cfg p k ds = Some (ds, [])"
  using assms by (induction ds arbitrary: k) (simp_all add: drv_check_other)

lemma check_from_owner:
  assumes "distinct (concat (map drv_ifaces ds))" and "j < length ds" and "st_bIntfID p \<in> set (drv_ifaces (ds ! j))"
  shows "check_from rd cfg p k ds =
    (case drv_check rd cfg p (ds ! j) of None \<Rightarrow> None
     | Some (d', cs) \<Rightarrow> Some (ds[j := d'], map (lift_claim (slot_upd (k + j))) cs))"
  using assms
proof (induction ds arbitrary: j k)
  case (Cons d ds)
  show ?case
  proof (cases j)
    case 0
    then have "st_bIntfID p \<notin> set (drv_ifaces d')" if "d' \<in> set ds" for d' using Cons.prems(1,3) that by auto
    from check_from_other[OF this] show ?thesis using 0 by (simp split: option.split)
  next
    case (Suc i)
    then have i: "i < length ds" "st_bIntfID p \<in> set (drv_ifaces (ds ! i))" using Cons.prems(2,3) by simp_all
    then have "ds ! i \<in> set ds" by simp
    then have "st_bIntfID p \<notin> set (drv_ifaces d)" using Cons.prems(1) i(2) by auto
    then show ?thesis using Suc Cons.IH[OF _ i, of "Suc k"] Cons.prems(1) by (simp add: drv_check_other split: option.split)
  qed
qed simp

lemma event_check_owner:
  assumes "distinct (concat (map drv_ifaces ds))" and "j < length ds" and "st_bIntfID p \<in> set (drv_ifaces (ds ! j))"
  shows "USBDeluxe_Device_EventCheckRequest rd cfg p ds =
    (case drv_check rd cfg p (ds ! j) of None \<Rightarrow> None
     | Some (d', cs) \<Rightarrow> Some (ds[j := d'], map (lift_claim (slot_upd j)) cs))"
  using check_from_owner[OF assms, of rd cfg 0, unfolded add_0] by (simp add: USBDeluxe_Device_EventCheckRequest_def)

lemma event_check_other:
  "(\<And>d. d \<in> set ds \<Longrightarrow> st_bIntfID p \<notin> set (drv_ifaces d)) \<Longrightarrow> USBDeluxe_Device_EventCheckRequest rd cfg p ds = Some (ds, [])"
  unfolding USBDeluxe_Device_EventCheckRequest_def by (rule check_from_other)

text \<open>(C18) A request is served by the function that owns its interface, and every other function is left
  alone and claims nothing; a request for an interface of no function is claimed by none.\<close>
theorem dispatch_routes:
  assumes "distinct (concat (map drv_ifaces ds))"
  shows "(\<forall>j < length ds. st_bIntfID p \<in> set (drv_ifaces (ds ! j)) \<longrightarrow>
      USBDeluxe_Device_EventCheckRequest rd cfg p ds =
        (case drv_check rd cfg p (ds ! j) of None \<Rightarrow> None
         | Some (d', cs) \<Rightarrow> Some (ds[j := d'], map (lift_claim (slot_upd j)) cs))) \<and>
    ((\<forall>d \<in> set ds. st_bIntfID p \<notin> set (drv_ifaces d)) \<longrightarrow>
      USBDeluxe_Device_EventCheckRequest rd cfg p ds = Some (ds, []))"
  by (intro conjI allI impI event_check_owner[OF assms] event_check_other) auto

text \<open>Two functions: a serial port on the interfaces 0 and 1 and a keyboard on 2.\<close>

definition blank_eps :: "'b \<Rightarrow> 'b usb_eps" where
  "blank_eps b = \<lparr>BDT = (\<lambda>_. \<lparr>bdt_UOWN = False, bdt_DTS = False, bdt_DTSEN = False, bdt_BSTALL = False, bdt_CNT = 0, bdt_ADR = b\<rparr>),
     pBDTEntryIn = (\<lambda>_. None), pBDTEntryOut = (\<lambda>_. None), U1EP = (\<lambda>_. 0)\<rparr>"

definition demo_port :: "unit acm_ctx" where
  "demo_port = USBDeluxeDevice_CDC_ACM_Create (blank_eps (Rx_Buf 0)) () 0 1 1 2 None"

definition demo_keyboard :: "unit hid_ctx" where
  "demo_keyboard = USBDeluxeDevice_HID_Create (blank_eps Own_Buf) () 2 3 8 63 75 9
     \<lparr>GetReport = None, SetReport = None, SetIdleRate = None, GetReportDescriptor = None, hid_RxDone = None\<rparr>"

lemma demo_fields [simp]:
  "USB_IFACE_COMM demo_port = 0" "USB_IFACE_DATA demo_port = 1" "length (line_coding demo_port) = 7" "HID_IFACE demo_keyboard = 2"
  "idle_rate demo_keyboard = 0"
  by (simp_all add: demo_port_def demo_keyboard_def USBDeluxeDevice_CDC_ACM_Create_def USBDeluxeDevice_HID_Create_def)

theorem dispatch_routes_witness:
  "USBDeluxe_Device_EventCheckRequest [] 1 (setup_of_bytes [0xA1, 0x02, 0, 0, 2, 0, 1, 0]) [Drv_ACM demo_port, Drv_HID demo_keyboard] =
     Some ([Drv_ACM demo_port, Drv_HID demo_keyboard], [Claim_in [0]])"
proof -
  let ?bs = "[0xA1, 0x02, 0, 0, 2, 0, 1, 0] :: u8 list" and ?ds = "[Drv_ACM demo_port, Drv_HID demo_keyboard]"
  have i: "st_bIntfID (setup_of_bytes ?bs) = 2" "st_Recipient (setup_of_bytes ?bs) = 1" "st_RequestType (setup_of_bytes ?bs) = 1"
    "st_bRequest (setup_of_bytes ?bs) = 2" by code_simp+
  have d: "USBDeluxeDevice_HID_CheckRequest [] 1 (setup_of_bytes ?bs) demo_keyboard = Some (demo_keyboard, [Claim_in [0]])"
    using i by (simp add: USBDeluxeDevice_HID_CheckRequest_def hid_class_request_def)
  have "distinct (concat (map drv_ifaces ?ds))" by simp
  from dispatch_routes[OF this, of "setup_of_bytes ?bs" "[]" 1, THEN conjunct1, rule_format, of 1] show ?thesis
    using i d by simp
qed

subsection \<open>The line coding of a serial port\<close>

lemma acm_set_line_coding:
  assumes "st_Recipient p = 1" and "st_RequestType p = 1" and "st_bIntfID p = USB_IFACE_COMM c" and "st_bRequest p = 0x20"
    and "st_wLength p = 7"
  shows "drv_check rd cfg p (Drv_ACM c) = Some (Drv_ACM c, [lift_claim acm_upd
     (Claim_out 7 (\<lambda>i b c. c\<lparr>line_coding := (line_coding c)[i := b]\<rparr>) (Some USBDeluxeDevice_CDC_ACM_EP0RxHandler_LineCoding))])"
  using assms by (simp add: USBDeluxeDevice_CDC_ACM_CheckRequest_def)

lemma acm_get_line_coding:
  assumes "st_Recipient p = 1" and "st_RequestType p = 1" and "st_bIntfID p = USB_IFACE_COMM c" and "st_bRequest p = 0x21"
  shows "drv_check rd cfg p (Drv_ACM c) = Some (Drv_ACM c, [Claim_in (line_coding c)])"
  using assms by (simp add: USBDeluxeDevice_CDC_ACM_CheckRequest_def)

text \<open>The bytes stored one by one through the pointer are the whole field.\<close>

lemma store_lift:
  assumes "k < length ds" and "ds ! k = Drv_ACM c"
  shows "store_bytes (\<lambda>i b. slot_upd k (acm_upd (g i b))) pos D ds = ds[k := Drv_ACM (store_bytes g pos D c)]"
proof -
  have "fold (\<lambda>i. slot_upd k (acm_upd (g (pos + i) (D ! i)))) xs ds = ds[k := Drv_ACM (fold (\<lambda>i. g (pos + i) (D ! i)) xs c)]" for xs
    using assms
  proof (induction xs arbitrary: ds c)
    case (Cons x xs)
    have "slot_upd k (acm_upd (g (pos + x) (D ! x))) ds = ds[k := Drv_ACM (g (pos + x) (D ! x) c)]"
      using Cons.prems by (simp add: slot_upd_def)
    then show ?case using Cons.IH[of "ds[k := Drv_ACM (g (pos + x) (D ! x) c)]" "g (pos + x) (D ! x) c"] Cons.prems by simp
  qed (metis fold_simps(1) list_update_id)
  then show ?thesis by (simp add: store_bytes_def)
qed

lemma store_line_coding:
  assumes "pos + length D \<le> length (line_coding c)"
  shows "store_bytes (\<lambda>i b c. c\<lparr>line_coding := (line_coding c)[i := b]\<rparr>) pos D c =
    c\<lparr>line_coding := take pos (line_coding c) @ D @ drop (pos + length D) (line_coding c)\<rparr>"
  using assms
proof (induction D arbitrary: pos c)
  case (Cons b D)
  let ?c = "c\<lparr>line_coding := (line_coding c)[pos := b]\<rparr>"
  have "store_bytes (\<lambda>i b c. c\<lparr>line_coding := (line_coding c)[i := b]\<rparr>) pos (b # D) c =
      store_bytes (\<lambda>i b c. c\<lparr>line_coding := (line_coding c)[i := b]\<rparr>) (pos + 1) D ?c"
    using store_bytes_append[of "\<lambda>i b c. c\<lparr>line_coding := (line_coding c)[i := b]\<rparr>" pos "[b]" D c] by (simp add: store_bytes_def)
  also have "\<dots> = ?c\<lparr>line_coding := take (pos + 1) (line_coding ?c) @ D @ drop (pos + 1 + length D) (line_coding ?c)\<rparr>"
    using Cons.prems by (intro Cons.IH) simp
  also have "\<dots> = c\<lparr>line_coding := take pos (line_coding c) @ (b # D) @ drop (pos + length (b # D)) (line_coding c)\<rparr>"
    using Cons.prems by (simp add: take_Suc_conv_app_nth)
  finally show ?case .
qed (simp add: store_bytes_def)

lemma line_coding_handler [simp]:
  "line_coding (USBDeluxeDevice_CDC_ACM_EP0RxHandler_LineCoding c) = line_coding c"
  "USB_IFACE_COMM (USBDeluxeDevice_CDC_ACM_EP0RxHandler_LineCoding c) = USB_IFACE_COMM c"
  "USB_IFACE_DATA (USBDeluxeDevice_CDC_ACM_EP0RxHandler_LineCoding c) = USB_IFACE_DATA c"
  by (simp_all add: USBDeluxeDevice_CDC_ACM_EP0RxHandler_LineCoding_def split: option.split)

lemma setup_fields:
  assumes "length bs = 8"
  shows "st_Recipient (setup_of_bytes bs) = bs ! 0 AND 0x1F" "st_RequestType (setup_of_bytes bs) = drop_bit 5 (bs ! 0) AND 0x3"
    "st_DataDir (setup_of_bytes bs) = bit (bs ! 0) 7" "st_bRequest (setup_of_bytes bs) = bs ! 1"
    "st_bIntfID (setup_of_bytes bs) = bs ! 4"
  using setup_word(2)[OF assms] word2_lo by (simp_all add: setup_of_bytes_def st_bIntfID_def)

lemma write_line_coding:
  assumes "ep0_inv s" and "distinct (concat (map drv_ifaces ds))" and "dev_drv s = ds" and "k < length ds" and "ds ! k = Drv_ACM c"
    and "bs = [0x21, 0x20, 0, 0, USB_IFACE_COMM c, 0, 7, 0]" and "length D = 7" and "length (line_coding c) = 7"
  shows "\<exists>t. host_control_write (device_events rd cfg) bs D s = Some t \<and> ep0_inv t \<and>
     dev_drv t = ds[k := Drv_ACM (USBDeluxeDevice_CDC_ACM_EP0RxHandler_LineCoding (c\<lparr>line_coding := D\<rparr>))]"
proof -
  let ?p = "setup_of_bytes bs" and ?g = "\<lambda>i b c. c\<lparr>line_coding := (line_coding c)[i := b]\<rparr>"
  have l: "length bs = 8" using assms(6) by simp
  have p: "st_Recipient ?p = 1" "st_RequestType ?p = 1" "\<not> st_DataDir ?p" "st_bRequest ?p = 0x20" "st_bIntfID ?p = USB_IFACE_COMM c"
    unfolding setup_fields[OF l] by (simp_all add: assms(6))
  have w: "st_wLength ?p = 7" unfolding setup_word(3)[OF l] by (simp add: assms(6))
  have own: "st_bIntfID ?p \<in> set (drv_ifaces (ds ! k))" using assms(5) p(5) by simp
  have "USBDeluxe_Device_EventCheckRequest rd cfg ?p ds = Some (ds[k := Drv_ACM c],
      [lift_claim (slot_upd k) (lift_claim acm_upd (Claim_out 7 ?g (Some USBDeluxeDevice_CDC_ACM_EP0RxHandler_LineCoding)))])"
    unfolding event_check_owner[OF assms(2,4) own, of rd cfg] assms(5) acm_set_line_coding[OF p(1,2,5,4) w]
    by simp
  then have e: "EventCheckRequest (device_events rd cfg) ?p (dev_drv s, dev_eps s) = Some ((ds, dev_eps s),
      [Claim_out 7 (\<lambda>i b. slot_upd k (acm_upd (?g i b))) (Some (slot_upd k (acm_upd USBDeluxeDevice_CDC_ACM_EP0RxHandler_LineCoding)))])"
    using assms(3,5) by (simp add: device_events_def list_update_id[of ds k, unfolded assms(5)])
  have "st_RequestType ?p \<noteq> 0" "D \<noteq> []" "length D = unat (7 :: u16)" using p(2) assms(7) by auto
  from class_write[OF assms(1) l this(1) p(3) e this(3,2)] obtain t where t: "host_control_write (device_events rd cfg) bs D s = Some t"
    "ep0_inv t" "dev_drv t = slot_upd k (acm_upd USBDeluxeDevice_CDC_ACM_EP0RxHandler_LineCoding)
       (store_bytes (\<lambda>i b. slot_upd k (acm_upd (?g i b))) 0 D ds)" by auto
  have "store_bytes ?g 0 D c = c\<lparr>line_coding := D\<rparr>" using store_line_coding[of 0 D c] assms(7,8) by simp
  then have "dev_drv t = ds[k := Drv_ACM (USBDeluxeDevice_CDC_ACM_EP0RxHandler_LineCoding (c\<lparr>line_coding := D\<rparr>))]"
    using t(3) assms(4) by (simp add: store_lift[OF assms(4,5)] slot_upd_def)
  then show ?thesis using t by blast
qed

lemma read_line_coding:
  assumes "ep0_inv s" and "distinct (concat (map drv_ifaces ds))" and "dev_drv s = ds" and "k < length ds" and "ds ! k = Drv_ACM c"
    and "bs = [0xA1, 0x21, 0, 0, USB_IFACE_COMM c, 0, 7, 0]" and "length (line_coding c) = 7"
  shows "\<exists>t. host_control_read (device_events rd cfg) bs s = Some (t, line_coding c) \<and> ep0_inv t \<and> dev_drv t = ds"
proof -
  let ?p = "setup_of_bytes bs"
  have l: "length bs = 8" using assms(6) by simp
  have p: "st_Recipient ?p = 1" "st_RequestType ?p = 1" "st_DataDir ?p" "st_bRequest ?p = 0x21" "st_bIntfID ?p = USB_IFACE_COMM c"
    unfolding setup_fields[OF l] by (simp_all add: assms(6))
  have w: "unat (st_wLength ?p) = 7" unfolding setup_word(3)[OF l] by (simp add: assms(6))
  have own: "st_bIntfID ?p \<in> set (drv_ifaces (ds ! k))" using assms(5) p(5) by simp
  have "USBDeluxe_Device_EventCheckRequest rd cfg ?p ds = Some (ds[k := Drv_ACM c], [Claim_in (line_coding c)])"
    unfolding event_check_owner[OF assms(2,4) own, of rd cfg] assms(5) acm_get_line_coding[OF p(1,2,5,4)] by simp
  then have e: "EventCheckRequest (device_events rd cfg) ?p (dev_drv s, dev_eps s) = Some ((ds, dev_eps s), [Claim_in (line_coding c)])"
    using assms(3,5) by (simp add: device_events_def list_update_id[of ds k, unfolded assms(5)])
  have "st_RequestType ?p \<noteq> 0" "length (line_coding c) < 65536" using p(2) assms(7) by simp_all
  from class_read[OF assms(1) l this(1) p(3) e this(2)] show ?thesis using w assms(7) by auto
qed

text \<open>(C19) On a composite device with any functions the line coding a host sets for a serial port is stored
  in that port, its handler is called, no other function is touched, and the host reads the same seven bytes back:
  configuration builder, driver table, dispatch, port and control transfers together.\<close>
theorem line_coding_roundtrip:
  assumes "ep0_inv s" and "n_eps fs \<le> 15" and "dev_drv s = ds"
    and "map drv_ifaces ds = map driver_ifaces (drivers (usb_configured vid pid m p n fs))"
    and "k < length ds" and "ds ! k = Drv_ACM c" and "length (line_coding c) = 7" and "length D = 7"
  shows "\<exists>t u. host_control_write (device_events rd cfg) [0x21, 0x20, 0, 0, USB_IFACE_COMM c, 0, 7, 0] D s = Some t \<and>
    dev_drv t = ds[k := Drv_ACM (USBDeluxeDevice_CDC_ACM_EP0RxHandler_LineCoding (c\<lparr>line_coding := D\<rparr>))] \<and>
    host_control_read (device_events rd cfg) [0xA1, 0x21, 0, 0, USB_IFACE_COMM c, 0, 7, 0] t = Some (u, D) \<and>
    dev_drv u = dev_drv t \<and> ep0_inv u"
proof -
  let ?c = "USBDeluxeDevice_CDC_ACM_EP0RxHandler_LineCoding (c\<lparr>line_coding := D\<rparr>)"
  let ?ds = "ds[k := Drv_ACM ?c]"
  have dist: "distinct (concat (map drv_ifaces ds))" unfolding assms(4) using drivers_own(2)[OF assms(2)] by simp
  have "map drv_ifaces ?ds = map drv_ifaces ds" using assms(5,6) by (simp add: map_update list_update_same_conv)
  then have dist2: "distinct (concat (map drv_ifaces ?ds))" using dist by simp
  obtain t where t: "host_control_write (device_events rd cfg) [0x21, 0x20, 0, 0, USB_IFACE_COMM c, 0, 7, 0] D s = Some t"
    "ep0_inv t" "dev_drv t = ?ds" using write_line_coding[OF assms(1) dist assms(3,5,6) refl assms(8,7)] by blast
  have "k < length ?ds" "?ds ! k = Drv_ACM ?c" "length (line_coding ?c) = 7" using assms(5,8) by simp_all
  from read_line_coding[OF t(2) dist2 t(3) this(1,2) refl this(3), of rd cfg]
  obtain u where "host_control_read (device_events rd cfg) [0xA1, 0x21, 0, 0, USB_IFACE_COMM c, 0, 7, 0] t = Some (u, D)"
    "ep0_inv u" "dev_drv u = ?ds" by auto
  then show ?thesis using t by auto
qed

theorem line_coding_roundtrip_witness:
  "\<exists>t u. host_control_write (device_events [] 1) [0x21, 0x20, 0, 0, 0, 0, 7, 0] [0, 0xC2, 1, 0, 0, 0, 8]
      (usb_bus_reset (ep0_power_on usb_config_reset [Drv_ACM demo_port, Drv_HID demo_keyboard]) :: (nat, unit usb_drv_ctx list) usb_dev) = Some t \<and>
    host_control_read (device_events [] 1) [0xA1, 0x21, 0, 0, 0, 0, 7, 0] t = Some (u, [0, 0xC2, 1, 0, 0, 0, 8])"
proof -
  let ?fs = "[Fn_CDC_ACM, Fn_HID 1 8 63]" and ?ds = "[Drv_ACM demo_port, Drv_HID demo_keyboard]"
  let ?s = "usb_bus_reset (ep0_power_on usb_config_reset ?ds) :: (nat, unit usb_drv_ctx list) usb_dev"
  have d: "dev_drv ?s = ?ds" by (simp add: bus_reset_frame) (simp add: ep0_power_on_def Let_def)
  have n: "n_eps ?fs \<le> 15" by (simp add: n_eps_def)
  have i: "map drv_ifaces ?ds = map driver_ifaces (drivers (usb_configured 0x04D8 0x0057 [] [] [] ?fs))" by code_simp
  from line_coding_roundtrip[OF power_on_inv n d i, of 0 demo_port "[0, 0xC2, 1, 0, 0, 0, 8]"] show ?thesis by fastforce
qed

end
