(* ===== verification/USB_Host.thy ===== *)
theory USB_Host
  imports Prelude
begin

section \<open>The USB host stack: devices, endpoints and transfers\<close>

text \<open>
  Models the part of \<^verbatim>\<open>usb_host.c\<close> client drivers use, and \<^verbatim>\<open>usb_deluxe_host.c\<close>: the table of device
  slots, the search for endpoints and drivers, the calls that start, query and end transfers.

  The lists the code links through \<^verbatim>\<open>next\<close> pointers are lists; the pointer to the current setting of an interface is its
  place in the list of settings. A pointer to the data of a client is a value of the type \<open>'p\<close>. The flag words are
  records of their bits. Allocations succeed unless an argument says otherwise. What an
  allocation returns is not cleared: the argument \<open>junk\<close>, or the field \<open>behind\<close> for the table of slots, is its
  old content.
\<close>

subsection \<open>Constants\<close>

abbreviation (input) USB_SUCCESS :: u8 where "USB_SUCCESS \<equiv> 0x00"
abbreviation (input) USB_INVALID_STATE :: u8 where "USB_INVALID_STATE \<equiv> 0x01"
abbreviation (input) USB_BUSY :: u8 where "USB_BUSY \<equiv> 0x02"
abbreviation (input) USB_ILLEGAL_REQUEST :: u8 where "USB_ILLEGAL_REQUEST \<equiv> 0x03"
abbreviation (input) USB_UNKNOWN_DEVICE :: u8 where "USB_UNKNOWN_DEVICE \<equiv> 0x06"
abbreviation (input) USB_CANNOT_ENUMERATE :: u8 where "USB_CANNOT_ENUMERATE \<equiv> 0x07"
abbreviation (input) USB_ENDPOINT_BUSY :: u8 where "USB_ENDPOINT_BUSY \<equiv> 0x10"
abbreviation (input) USB_ENDPOINT_STALLED :: u8 where "USB_ENDPOINT_STALLED \<equiv> 0x11"
abbreviation (input) USB_ENDPOINT_ERROR :: u8 where "USB_ENDPOINT_ERROR \<equiv> 0x12"
abbreviation (input) USB_ENDPOINT_NOT_FOUND :: u8 where "USB_ENDPOINT_NOT_FOUND \<equiv> 0x14"
abbreviation (input) USB_ENDPOINT_ILLEGAL_DIRECTION :: u8 where "USB_ENDPOINT_ILLEGAL_DIRECTION \<equiv> 0x15"
abbreviation (input) USB_ENDPOINT_ILLEGAL_TYPE :: u8 where "USB_ENDPOINT_ILLEGAL_TYPE \<equiv> 0x18"
abbreviation (input) USB_ENDPOINT_UNRESOLVED_STATE :: u8 where "USB_ENDPOINT_UNRESOLVED_STATE \<equiv> 0x19"
abbreviation (input) USB_ERROR_INSUFFICIENT_POWER :: u8 where "USB_ERROR_INSUFFICIENT_POWER \<equiv> 0x28"
abbreviation (input) USB_DEVICE_ATTACHED :: u8 where "USB_DEVICE_ATTACHED \<equiv> 0x30"
abbreviation (input) USB_DEVICE_DETACHED :: u8 where "USB_DEVICE_DETACHED \<equiv> 0x31"
abbreviation (input) USB_DEVICE_ENUMERATING :: u8 where "USB_DEVICE_ENUMERATING \<equiv> 0x32"
abbreviation (input) USB_HOLDING_UNSUPPORTED_DEVICE :: u8 where "USB_HOLDING_UNSUPPORTED_DEVICE \<equiv> 0x34"
abbreviation (input) USB_DEVICE_SUSPENDED :: u8 where "USB_DEVICE_SUSPENDED \<equiv> 0x3A"

abbreviation (input) STATE_MASK :: u16 where "STATE_MASK \<equiv> 0x0F00"
abbreviation (input) SUBSTATE_MASK :: u16 where "SUBSTATE_MASK \<equiv> 0x00F0"
abbreviation (input) SUBSUBSTATE_MASK :: u16 where "SUBSUBSTATE_MASK \<equiv> 0x000F"
abbreviation (input) STATE_DETACHED :: u16 where "STATE_DETACHED \<equiv> 0x0000"
abbreviation (input) STATE_ATTACHED :: u16 where "STATE_ATTACHED \<equiv> 0x0100"
abbreviation (input) STATE_CONFIGURING :: u16 where "STATE_CONFIGURING \<equiv> 0x0300"
abbreviation (input) STATE_RUNNING :: u16 where "STATE_RUNNING \<equiv> 0x0400"
abbreviation (input) STATE_HOLDING :: u16 where "STATE_HOLDING \<equiv> 0x0500"
abbreviation (input) SUBSTATE_SUSPEND_AND_RESUME :: u16 where "SUBSTATE_SUSPEND_AND_RESUME \<equiv> 0x0010"

abbreviation (input) TSTATE_CONTROL_NO_DATA :: u8 where "TSTATE_CONTROL_NO_DATA \<equiv> 0x10"
abbreviation (input) TSTATE_CONTROL_READ :: u8 where "TSTATE_CONTROL_READ \<equiv> 0x20"
abbreviation (input) TSTATE_CONTROL_WRITE :: u8 where "TSTATE_CONTROL_WRITE \<equiv> 0x30"
abbreviation (input) TSTATE_INTERRUPT_READ :: u8 where "TSTATE_INTERRUPT_READ \<equiv> 0x40"
abbreviation (input) TSTATE_INTERRUPT_WRITE :: u8 where "TSTATE_INTERRUPT_WRITE \<equiv> 0x50"
abbreviation (input) TSTATE_ISOCHRONOUS_READ :: u8 where "TSTATE_ISOCHRONOUS_READ \<equiv> 0x60"
abbreviation (input) TSTATE_ISOCHRONOUS_WRITE :: u8 where "TSTATE_ISOCHRONOUS_WRITE \<equiv> 0x70"
abbreviation (input) TSTATE_BULK_READ :: u8 where "TSTATE_BULK_READ \<equiv> 0x80"
abbreviation (input) TSTATE_BULK_WRITE :: u8 where "TSTATE_BULK_WRITE \<equiv> 0x90"

text \<open>The two low bits of the attributes of an endpoint.\<close>

datatype transfer_type = Control_Ep | Isochronous_Ep | Bulk_Ep | Interrupt_Ep

definition bfTransferType :: "u8 \<Rightarrow> transfer_type" where
  "bfTransferType a =
     (if a AND 3 = 0 then Control_Ep else if a AND 3 = 1 then Isochronous_Ep
      else if a AND 3 = 2 then Bulk_Ep else Interrupt_Ep)"

subsection \<open>State\<close>

text \<open>What the data pointers of an endpoint point to: the buffer \<^verbatim>\<open>pEP0Data\<close>, the device descriptor, the first of the
  configuration descriptors, the buffer of a client, or one of the buffers of a client's isochronous data.\<close>

datatype 'p host_data = No_Data | EP0_Data | Device_Descriptor | Config_Descriptor | User_Data 'p | Isoc_Buffer 'p nat

record 'p host_ep =
  bfErrorCount :: u8
  bfStalled :: bool
  bfError :: bool
  bfUserAbort :: bool
  bfTransferSuccessful :: bool
  bfTransferComplete :: bool
  bfUseDTS :: bool
  bfNextDATA01 :: bool
  bfLastTransferNAKd :: bool
  bfNAKTimeoutEnabled :: bool
  wInterval :: u16
  wIntervalCount :: u16
  he_wMaxPacketSize :: u16
  dataCountMax :: u32
  dataCountMaxSETUP :: u16
  dataCount :: u32
  pUserDataSETUP :: "'p host_data"
  pUserData :: "'p host_data"
  transferState :: u8
  he_clientDriver :: u8
  he_bEndpointAddress :: u8
  he_bmAttributes :: u8
  bErrorCode :: u8
  countNAKs :: u16
  timeoutNAKs :: u16

record 'p host_setting =
  interfaceAltSetting :: u8
  pEndpointList :: "'p host_ep list"

record 'p host_iface =
  hi_interface :: u8
  hi_clientDriver :: u8
  pInterfaceSettings :: "'p host_setting list"
  pCurrentSetting :: "nat option"

text \<open>An entry of the list of configuration descriptors.\<close>

record host_config =
  cfg_descriptor :: "u8 list"
  configNumber :: u8

text \<open>A pointer to an endpoint: endpoint 0, or interface, setting and place in its list.\<close>

datatype ep_ref = Ep0 | Ep_at nat nat nat

record 'p usb_device_info =
  currentConfiguration :: u8
  attributesOTG :: u8
  deviceAddressAndSpeed :: u8
  deviceAddress :: u8
  errorCode :: u8
  deviceClientDriver :: u8
  deviceEP0Driver :: u8
  deluxeExtendedFlags :: u8
  currentConfigurationPower :: u16
  pConfigurationDescriptorList :: "host_config list"
  pInterfaceList :: "'p host_iface list"
  pEndpoint0 :: "'p host_ep option"
  bfIsLowSpeed :: bool
  bfSupportsOTG :: bool
  bfConfiguredOTG :: bool
  bfAllowHNP :: bool
  bfPingPongIn :: bool
  bfPingPongOut :: bool
  bfUseDeviceClientDriver :: bool
  bfUseEP0Driver :: bool
  numCommandTries :: u8
  numEnumerationTries :: u8
  pCurrentConfigurationDescriptor :: "u8 list option"
  pDeviceDescriptor :: "u8 list option"
  pEP0Data :: "u8 list option"
  pCurrentEndpoint :: "ep_ref option"
  usbHostState :: u16
  usbOverrideHostState :: u16
  countConfigurations :: u8
  numTimerInterrupts :: u16
  usbLastHostState :: u16

text \<open>The targeted peripheral list: \<open>tpl_device\<close> is the union of class and vendor codes, \<open>tpl_flags\<close> the flag byte.\<close>

record usb_tpl =
  tpl_device :: u32
  tpl_bConfiguration :: u8
  tpl_ClientDriver :: u8
  tpl_flags :: u8

record client_driver =
  cd_func :: u16
  cd_dev_addr :: u8
  cd_Initialize :: u16
  cd_EventHandler :: u16
  cd_DataEventHandler :: u16
  cd_flags :: u32

datatype host_event = EVENT_HUB_ATTACH | EVENT_STALL | EVENT_VBUS_SES_REQUEST | EVENT_VBUS_OVERCURRENT
  | EVENT_VBUS_REQUEST_POWER | EVENT_VBUS_RELEASE_POWER | EVENT_VBUS_POWER_AVAILABLE | EVENT_UNSUPPORTED_DEVICE
  | EVENT_CANNOT_ENUMERATE | EVENT_CLIENT_INIT_ERROR | EVENT_OUT_OF_MEMORY | EVENT_UNSPECIFIED_ERROR | EVENT_DETACH
  | EVENT_TRANSFER u8 | EVENT_BUS_ERROR u8 | EVENT_SOF | EVENT_RESUME | EVENT_SUSPEND | EVENT_RESET
  | EVENT_DATA_ISOC_READ | EVENT_DATA_ISOC_WRITE | EVENT_OVERRIDE_CLIENT_DRIVER_SELECTION | EVENT_1MS
  | EVENT_ALT_INTERFACE | EVENT_HOLD_BEFORE_CONFIGURATION | Class_Event nat

text \<open>
  The calls of event handlers, in order: \<open>App_Call address event\<close> is the application's handler, \<open>Client_Call f address
  event\<close> the handler \<open>f\<close> of a client driver, with the address of its code.
\<close>

datatype host_call = App_Call u8 host_event | Client_Call u16 u8 host_event

text \<open>The isochronous data of a client. \<open>ib_pBuffer\<close> is the memory of a buffer, if it has any.\<close>

record isoc_buffer =
  ib_pBuffer :: "u8 list option"
  ib_dataLength :: u16
  bfDataLengthValid :: bool

record host_isoc =
  totalBuffers :: u8
  currentBufferUSB :: u8
  currentBufferUser :: u8
  pDataUser :: u16
  isoc_buffers :: "isoc_buffer list"

text \<open>The registers of the USB module and its interrupt, with the flag registers as the flags that are set.\<close>

record host_regs =
  U1IE :: u8
  U1IR :: u8
  U1OTGIE :: u8
  U1OTGIR :: u8
  U1EIE :: u8
  U1EIR :: u8
  U1CON :: u8
  U1OTGCON :: u8
  U1CNFG1 :: u8
  U1CNFG2 :: u8
  U1PWRC :: u8
  U1ADDR :: u8
  U1SOF :: u8
  U1TOK :: u8
  U1STAT :: u8
  U1EP :: "nat \<Rightarrow> u8"
  IFS5 :: u16
  IPC21 :: u16
  IEC5 :: u16

text \<open>A buffer descriptor: the buffer with an offset, the byte count of ten bits, and the bits of its status.\<close>

record 'p host_bd =
  bd_ADR :: "'p host_data \<times> u16"
  bd_count :: u16
  bd_PID :: u8
  bd_DTS :: bool
  bd_DTSEN :: bool
  bd_UOWN :: bool

text \<open>An event of the interrupt handler for the clients, with the data of the transfer.\<close>

record 'p host_item =
  item_address :: u8
  item_event :: host_event
  item_dataCount :: u32
  item_pUserData :: "'p host_data"
  item_bErrorCode :: u8
  item_bEndpointAddress :: u8
  item_bmAttributes :: u8

record 'p usb_host =
  usbDeviceInfo :: "'p usb_device_info list"
  behind :: "nat \<Rightarrow> 'p usb_device_info"
  usbTPL :: "usb_tpl list"
  usbClientDrvTable :: "client_driver list"
  bPowerGoodPort0 :: bool
  hregs :: host_regs
  host_BDT :: "nat \<Rightarrow> 'p host_bd"
  usbEventQueue :: "'p host_item list"
  bfControlTransfersDone :: bool
  bfInterruptTransfersDone :: bool
  bfIsochronousTransfersDone :: bool
  bfBulkTransfersDone :: bool
  bfTokenAlreadyWritten :: bool
  pCurrentConfigurationNode :: bool
  isoc :: "'p \<Rightarrow> host_isoc"
  lastBulkTransaction :: u8
  countBulkTransactions :: u8
  host_calls :: "host_call list"

text \<open>The events of the class drivers are the numbers of \<^verbatim>\<open>usb_host_cdc.h\<close> (800 to 807) and \<^verbatim>\<open>usb_host_hid.h\<close>.\<close>

fun USB_Host_EventHandler :: "host_event \<Rightarrow> bool" where
  "USB_Host_EventHandler (Class_Event n) \<longleftrightarrow> (800 \<le> n \<and> n \<le> 807) \<or> n = 601 \<or> n = 607 \<or> n = 608"
| "USB_Host_EventHandler e \<longleftrightarrow>
     e \<in> {EVENT_VBUS_REQUEST_POWER, EVENT_VBUS_RELEASE_POWER, EVENT_HUB_ATTACH, EVENT_UNSUPPORTED_DEVICE,
       EVENT_CANNOT_ENUMERATE, EVENT_CLIENT_INIT_ERROR, EVENT_OUT_OF_MEMORY, EVENT_UNSPECIFIED_ERROR}"

subsection \<open>Device slots\<close>

definition host_ep_zero :: "'p host_ep" where
  "host_ep_zero = \<lparr>bfErrorCount = 0, bfStalled = False, bfError = False, bfUserAbort = False, bfTransferSuccessful = False,
     bfTransferComplete = False, bfUseDTS = False, bfNextDATA01 = False, bfLastTransferNAKd = False, bfNAKTimeoutEnabled = False,
     wInterval = 0, wIntervalCount = 0, he_wMaxPacketSize = 0, dataCountMax = 0, dataCountMaxSETUP = 0, dataCount = 0,
     pUserDataSETUP = No_Data, pUserData = No_Data, transferState = 0, he_clientDriver = 0, he_bEndpointAddress = 0,
     he_bmAttributes = 0, bErrorCode = 0, countNAKs = 0, timeoutNAKs = 0\<rparr>"

definition device_zero :: "'p usb_device_info" where
  "device_zero = \<lparr>currentConfiguration = 0, attributesOTG = 0, deviceAddressAndSpeed = 0, deviceAddress = 0, errorCode = 0,
     deviceClientDriver = 0, deviceEP0Driver = 0, deluxeExtendedFlags = 0, currentConfigurationPower = 0,
     pConfigurationDescriptorList = [], pInterfaceList = [], pEndpoint0 = None, bfIsLowSpeed = False, bfSupportsOTG = False,
     bfConfiguredOTG = False, bfAllowHNP = False, bfPingPongIn = False, bfPingPongOut = False, bfUseDeviceClientDriver = False,
     bfUseEP0Driver = False, numCommandTries = 0, numEnumerationTries = 0, pCurrentConfigurationDescriptor = None,
     pDeviceDescriptor = None, pEP0Data = None, pCurrentEndpoint = None, usbHostState = 0, usbOverrideHostState = 0,
     countConfigurations = 0, numTimerInterrupts = 0, usbLastHostState = 0\<rparr>"

definition isoc_zero :: host_isoc where
  "isoc_zero = \<lparr>totalBuffers = 0, currentBufferUSB = 0, currentBufferUser = 0, pDataUser = 0, isoc_buffers = []\<rparr>"

definition host_zero :: "'p usb_host" where
  "host_zero = \<lparr>usbDeviceInfo = [], behind = (\<lambda>_. device_zero), usbTPL = [], usbClientDrvTable = [], bPowerGoodPort0 = False,
     hregs = \<lparr>U1IE = 0, U1IR = 0, U1OTGIE = 0, U1OTGIR = 0, U1EIE = 0, U1EIR = 0, U1CON = 0, U1OTGCON = 0, U1CNFG1 = 0, U1CNFG2 = 0,
       U1PWRC = 0, U1ADDR = 0, U1SOF = 0, U1TOK = 0, U1STAT = 0, U1EP = (\<lambda>_. 0), IFS5 = 0, IPC21 = 0, IEC5 = 0\<rparr>,
     host_BDT = (\<lambda>_. \<lparr>bd_ADR = (No_Data, 0), bd_count = 0, bd_PID = 0, bd_DTS = False, bd_DTSEN = False, bd_UOWN = False\<rparr>),
     usbEventQueue = [], bfControlTransfersDone = False, bfInterruptTransfersDone = False, bfIsochronousTransfersDone = False,
     bfBulkTransfersDone = False, bfTokenAlreadyWritten = False, pCurrentConfigurationNode = False, isoc = (\<lambda>_. isoc_zero), lastBulkTransaction = 0,
     countBulkTransactions = 0, host_calls = []\<rparr>"

definition reg_upd :: "(host_regs \<Rightarrow> host_regs) \<Rightarrow> 'p usb_host \<Rightarrow> 'p usb_host" where
  "reg_upd f h = h\<lparr>hregs := f (hregs h)\<rparr>"

text \<open>\<^verbatim>\<open>Vector_At2\<close> on the table: a slot that is not there is made, but only the last of the new ones is cleared.\<close>

definition host_slot :: "nat \<Rightarrow> 'p usb_host \<Rightarrow> 'p usb_host" where
  "host_slot n h =
     (if n < length (usbDeviceInfo h) then h
      else h\<lparr>usbDeviceInfo := usbDeviceInfo h @ map (behind h) [length (usbDeviceInfo h)..<n] @ [device_zero]\<rparr>)"

definition USBHostGetDeviceInfoBySlotIndex :: "u8 \<Rightarrow> 'p usb_host \<Rightarrow> 'p usb_host \<times> 'p usb_device_info" where
  "USBHostGetDeviceInfoBySlotIndex i h = (let h' = host_slot (unat i) h in (h', usbDeviceInfo h' ! unat i))"

definition dev_upd :: "u8 \<Rightarrow> ('p usb_device_info \<Rightarrow> 'p usb_device_info) \<Rightarrow> 'p usb_host \<Rightarrow> 'p usb_host" where
  "dev_upd i f h = h\<lparr>usbDeviceInfo := (usbDeviceInfo h)[unat i := f (usbDeviceInfo h ! unat i)]\<rparr>"

fun unused_slot :: "nat list \<Rightarrow> 'p usb_host \<Rightarrow> 'p usb_host \<times> nat option" where
  "unused_slot [] h = (h, None)"
| "unused_slot (i # is) h =
     (let h' = host_slot i h in if deviceAddress (usbDeviceInfo h' ! i) = 0 then (h', Some i) else unused_slot is h')"

definition USBHostGetUnusedDeviceSlot :: "'p usb_host \<Rightarrow> 'p usb_host \<times> nat option" where
  "USBHostGetUnusedDeviceSlot h = unused_slot [1..<127] h"

definition USBHostConfigureDeviceSlot :: "u8 \<Rightarrow> bool \<Rightarrow> bool \<Rightarrow> 'p usb_host \<Rightarrow> 'p usb_host" where
  "USBHostConfigureDeviceSlot i enabled low_speed h =
     (let h = host_slot (unat i) h in
      dev_upd i (\<lambda>d. let f = (if enabled then deluxeExtendedFlags d OR 1 else deluxeExtendedFlags d AND NOT 1)
                     in d\<lparr>deluxeExtendedFlags := (if low_speed then f OR 2 else f AND NOT 2)\<rparr>) h)"

definition USBHostGetDeviceInfoOfFirstDevice :: "'p usb_host \<Rightarrow> 'p usb_host \<times> 'p usb_device_info" where
  "USBHostGetDeviceInfoOfFirstDevice h = USBHostGetDeviceInfoBySlotIndex 1 h"

text \<open>\<open>mem\<close> is what the allocation of the 8 bytes for endpoint 0 returns.\<close>

definition USBHostDeviceAttached :: "u8 list option \<Rightarrow> 'p usb_device_info \<Rightarrow> 'p usb_device_info" where
  "USBHostDeviceAttached mem d =
     (let low = bit (deluxeExtendedFlags d) 1
      in d\<lparr>numCommandTries := 3, currentConfiguration := 0, attributesOTG := 0, bfIsLowSpeed := low, bfSupportsOTG := False,
           bfConfiguredOTG := False, bfAllowHNP := False, bfPingPongIn := False, bfPingPongOut := False,
           bfUseDeviceClientDriver := False, bfUseEP0Driver := False,
           deviceAddressAndSpeed := (if low then 0x80 else 0), pEP0Data := mem\<rparr>)"

subsection \<open>Endpoints\<close>

fun find_in_eps :: "u8 \<Rightarrow> 'p host_ep list \<Rightarrow> nat option" where
  "find_in_eps a [] = None"
| "find_in_eps a (e # es) = (if he_bEndpointAddress e = a then Some 0 else map_option Suc (find_in_eps a es))"

fun find_in_ifaces :: "u8 \<Rightarrow> nat \<Rightarrow> 'p host_iface list \<Rightarrow> ep_ref option" where
  "find_in_ifaces a n [] = None"
| "find_in_ifaces a n (i # is) =
     (case pCurrentSetting i of None \<Rightarrow> find_in_ifaces a (Suc n) is
      | Some k \<Rightarrow> (case find_in_eps a (pEndpointList (pInterfaceSettings i ! k)) of
          Some j \<Rightarrow> Some (Ep_at n k j) | None \<Rightarrow> find_in_ifaces a (Suc n) is))"

definition USB_FindEndpoint :: "'p usb_device_info \<Rightarrow> u8 \<Rightarrow> ep_ref option" where
  "USB_FindEndpoint d a =
     (if a = 0 then map_option (\<lambda>_. Ep0) (pEndpoint0 d) else find_in_ifaces a 0 (pInterfaceList d))"

fun ep_at :: "ep_ref \<Rightarrow> 'p usb_device_info \<Rightarrow> 'p host_ep" where
  "ep_at Ep0 d = the (pEndpoint0 d)"
| "ep_at (Ep_at n k j) d = pEndpointList (pInterfaceSettings (pInterfaceList d ! n) ! k) ! j"

definition iface_map_ep :: "nat \<Rightarrow> nat \<Rightarrow> ('p host_ep \<Rightarrow> 'p host_ep) \<Rightarrow> 'p host_iface \<Rightarrow> 'p host_iface" where
  "iface_map_ep k j f i =
     i\<lparr>pInterfaceSettings := (pInterfaceSettings i)[k := (pInterfaceSettings i ! k)
        \<lparr>pEndpointList := (pEndpointList (pInterfaceSettings i ! k))[j := f (pEndpointList (pInterfaceSettings i ! k) ! j)]\<rparr>]\<rparr>"

fun ep_set :: "ep_ref \<Rightarrow> ('p host_ep \<Rightarrow> 'p host_ep) \<Rightarrow> 'p usb_device_info \<Rightarrow> 'p usb_device_info" where
  "ep_set Ep0 f d = d\<lparr>pEndpoint0 := map_option f (pEndpoint0 d)\<rparr>"
| "ep_set (Ep_at n k j) f d = d\<lparr>pInterfaceList := (pInterfaceList d)[n := iface_map_ep k j f (pInterfaceList d ! n)]\<rparr>"

definition all_eps :: "'p usb_device_info \<Rightarrow> 'p host_ep list" where
  "all_eps d = concat (map (\<lambda>i. concat (map pEndpointList (pInterfaceSettings i))) (pInterfaceList d))"

definition map_eps :: "('p host_ep \<Rightarrow> 'p host_ep) \<Rightarrow> 'p usb_device_info \<Rightarrow> 'p usb_device_info" where
  "map_eps f d = d\<lparr>pInterfaceList := map (\<lambda>i. i\<lparr>pInterfaceSettings :=
     map (\<lambda>s. s\<lparr>pEndpointList := map f (pEndpointList s)\<rparr>) (pInterfaceSettings i)\<rparr>) (pInterfaceList d)\<rparr>"

definition USB_ResetDATA0 :: "u8 \<Rightarrow> 'p usb_device_info \<Rightarrow> 'p usb_device_info" where
  "USB_ResetDATA0 endpoint d =
     (if endpoint = 0 then map_eps (\<lambda>e. e\<lparr>bfNextDATA01 := False\<rparr>) d
      else case USB_FindEndpoint d endpoint of None \<Rightarrow> d | Some r \<Rightarrow> ep_set r (\<lambda>e. e\<lparr>bfNextDATA01 := False\<rparr>) d)"

text \<open>\<open>None\<close>: the device has no endpoint 0 yet and the code reads through a null pointer.\<close>

definition USB_TransferInProgress :: "'p usb_device_info \<Rightarrow> bool option" where
  "USB_TransferInProgress d =
     (case pEndpoint0 d of None \<Rightarrow> None
      | Some e \<Rightarrow> Some (\<not> bfTransferComplete e \<or> (\<exists>x \<in> set (all_eps d). \<not> bfTransferComplete x)))"

definition USB_FreeConfigMemory :: "'p usb_device_info \<Rightarrow> 'p usb_device_info" where
  "USB_FreeConfigMemory d = d\<lparr>pInterfaceList := [], pCurrentEndpoint := map_option (\<lambda>_. Ep0) (pEndpoint0 d)\<rparr>"

definition USB_FreeMemory :: "'p usb_device_info \<Rightarrow> 'p usb_device_info" where
  "USB_FreeMemory d =
     USB_FreeConfigMemory (d\<lparr>pConfigurationDescriptorList := [], pDeviceDescriptor := None, pEP0Data := None\<rparr>)"

subsection \<open>Starting a transfer\<close>

definition USB_InitControlRead :: "'p host_data \<Rightarrow> u16 \<Rightarrow> 'p host_data \<Rightarrow> u16 \<Rightarrow> 'p host_ep \<Rightarrow> 'p host_ep" where
  "USB_InitControlRead pControlData controlSize pData size' e =
     e\<lparr>bfStalled := False, bfError := False, bfUserAbort := False, bfTransferSuccessful := False, bfErrorCount := 0,
       bfLastTransferNAKd := False, pUserData := pData, dataCount := 0, dataCountMax := ucast size', countNAKs := 0,
       pUserDataSETUP := pControlData, dataCountMaxSETUP := controlSize, transferState := TSTATE_CONTROL_READ,
       bfTransferComplete := False\<rparr>"

definition USB_InitControlWrite :: "'p host_data \<Rightarrow> u16 \<Rightarrow> 'p host_data \<Rightarrow> u16 \<Rightarrow> 'p host_ep \<Rightarrow> 'p host_ep" where
  "USB_InitControlWrite pControlData controlSize pData size' e =
     e\<lparr>bfStalled := False, bfError := False, bfUserAbort := False, bfTransferSuccessful := False, bfErrorCount := 0,
       bfLastTransferNAKd := False, pUserData := pData, dataCount := 0, dataCountMax := ucast size', countNAKs := 0,
       pUserDataSETUP := pControlData, dataCountMaxSETUP := controlSize,
       transferState := (if size' = 0 then TSTATE_CONTROL_NO_DATA else TSTATE_CONTROL_WRITE), bfTransferComplete := False\<rparr>"

text \<open>An isochronous transfer also resets the buffer index in the object of the client.\<close>

definition USB_InitRead :: "'p \<Rightarrow> u16 \<Rightarrow> 'p host_ep \<Rightarrow> 'p host_ep" where
  "USB_InitRead pData size' e =
     e\<lparr>bfUserAbort := False, bfTransferSuccessful := False, bfErrorCount := 0, bfLastTransferNAKd := False,
       pUserData := User_Data pData, dataCount := 0, dataCountMax := ucast size', countNAKs := 0,
       transferState := (case bfTransferType (he_bmAttributes e) of Interrupt_Ep \<Rightarrow> TSTATE_INTERRUPT_READ
         | Isochronous_Ep \<Rightarrow> TSTATE_ISOCHRONOUS_READ | _ \<Rightarrow> TSTATE_BULK_READ), bfTransferComplete := False\<rparr>"

definition USB_InitWrite :: "'p \<Rightarrow> u16 \<Rightarrow> 'p host_ep \<Rightarrow> 'p host_ep" where
  "USB_InitWrite pData size' e =
     e\<lparr>bfUserAbort := False, bfTransferSuccessful := False, bfErrorCount := 0, bfLastTransferNAKd := False,
       pUserData := User_Data pData, dataCount := 0, dataCountMax := ucast size', countNAKs := 0,
       transferState := (case bfTransferType (he_bmAttributes e) of Interrupt_Ep \<Rightarrow> TSTATE_INTERRUPT_WRITE
         | Isochronous_Ep \<Rightarrow> TSTATE_ISOCHRONOUS_WRITE | _ \<Rightarrow> TSTATE_BULK_WRITE), bfTransferComplete := False\<rparr>"

definition isoc_restart :: "'p \<Rightarrow> 'p host_ep \<Rightarrow> 'p usb_host \<Rightarrow> 'p usb_host" where
  "isoc_restart p e h =
     (if bfTransferType (he_bmAttributes e) = Isochronous_Ep then h\<lparr>isoc := (isoc h)(p := (isoc h p)\<lparr>currentBufferUSB := 0\<rparr>)\<rparr> else h)"

text \<open>The buffers of an isochronous transfer; \<open>mem\<close> is what each allocation returns, \<open>None\<close> an index behind the array.\<close>

definition USBHostIsochronousBuffersReset :: "u8 \<Rightarrow> host_isoc \<Rightarrow> host_isoc option" where
  "USBHostIsochronousBuffersReset numberOfBuffers d =
     (if length (isoc_buffers d) < unat numberOfBuffers then None
      else Some (d\<lparr>isoc_buffers := map (\<lambda>b. b\<lparr>ib_dataLength := 0, bfDataLengthValid := False\<rparr>) (take (unat numberOfBuffers) (isoc_buffers d)) @
                     drop (unat numberOfBuffers) (isoc_buffers d),
                   totalBuffers := numberOfBuffers, currentBufferUser := 0, currentBufferUSB := 0, pDataUser := 0\<rparr>))"

fun isoc_create :: "(nat \<Rightarrow> u8 list option) \<Rightarrow> nat \<Rightarrow> nat \<Rightarrow> host_isoc \<Rightarrow> host_isoc \<times> bool" where
  "isoc_create mem i 0 d = (d, True)"
| "isoc_create mem i (Suc n) d =
     (if ib_pBuffer (isoc_buffers d ! i) \<noteq> None then isoc_create mem (Suc i) n d
      else case mem i of
        None \<Rightarrow> (d\<lparr>isoc_buffers := map (\<lambda>b. b\<lparr>ib_pBuffer := None\<rparr>) (take i (isoc_buffers d)) @ drop i (isoc_buffers d)\<rparr>, False)
      | Some m \<Rightarrow> isoc_create mem (Suc i) n (d\<lparr>isoc_buffers := (isoc_buffers d)[i := (isoc_buffers d ! i)\<lparr>ib_pBuffer := Some m\<rparr>]\<rparr>))"

definition USBHostIsochronousBuffersCreate :: "(nat \<Rightarrow> u8 list option) \<Rightarrow> u8 \<Rightarrow> host_isoc \<Rightarrow> (host_isoc \<times> bool) option" where
  "USBHostIsochronousBuffersCreate mem numberOfBuffers d =
     map_option (isoc_create mem 0 (unat numberOfBuffers)) (USBHostIsochronousBuffersReset numberOfBuffers d)"

definition USBHostIsochronousBuffersDestroy :: "u8 \<Rightarrow> host_isoc \<Rightarrow> host_isoc option" where
  "USBHostIsochronousBuffersDestroy numberOfBuffers d =
     map_option (\<lambda>d. d\<lparr>isoc_buffers := map (\<lambda>b. b\<lparr>ib_pBuffer := None\<rparr>) (take (unat numberOfBuffers) (isoc_buffers d)) @
         drop (unat numberOfBuffers) (isoc_buffers d)\<rparr>) (USBHostIsochronousBuffersReset numberOfBuffers d)"

subsection \<open>The calls of client drivers\<close>

definition USBHostClearEndpointErrors :: "u8 \<Rightarrow> u8 \<Rightarrow> 'p usb_host \<Rightarrow> 'p usb_host \<times> u8" where
  "USBHostClearEndpointErrors a endpoint h =
     (case USBHostGetDeviceInfoBySlotIndex a h of
        (h, d) \<Rightarrow>
          if deviceAddress d \<noteq> a then (h, USB_UNKNOWN_DEVICE)
          else case USB_FindEndpoint d endpoint of
                 Some r \<Rightarrow> (dev_upd a (ep_set r (\<lambda>e. e\<lparr>bfStalled := False, bfError := False\<rparr>)) h, USB_SUCCESS)
               | None \<Rightarrow> (h, USB_ENDPOINT_NOT_FOUND))"

definition USBHostDeviceSpecificClientDriver :: "u8 \<Rightarrow> 'p usb_host \<Rightarrow> 'p usb_host \<times> bool" where
  "USBHostDeviceSpecificClientDriver a h =
     (case USBHostGetDeviceInfoBySlotIndex a h of (h, d) \<Rightarrow>
        (h, if deviceAddress d \<noteq> a then False else bfUseDeviceClientDriver d))"

definition device_status :: "'p usb_device_info \<Rightarrow> u8" where
  "device_status d =
     (let s = usbHostState d
      in if s AND STATE_MASK = STATE_DETACHED then USB_DEVICE_DETACHED
         else if s AND STATE_MASK = STATE_RUNNING then
           (if s AND SUBSTATE_MASK = SUBSTATE_SUSPEND_AND_RESUME then USB_DEVICE_SUSPENDED else USB_DEVICE_ATTACHED)
         else if s AND STATE_MASK = STATE_HOLDING then errorCode d
         else if s > STATE_ATTACHED \<and> s < STATE_RUNNING then USB_DEVICE_ENUMERATING
         else USB_HOLDING_UNSUPPORTED_DEVICE)"

definition USBHostDeviceStatus :: "u8 \<Rightarrow> 'p usb_host \<Rightarrow> 'p usb_host \<times> u8" where
  "USBHostDeviceStatus a h =
     (case USBHostGetDeviceInfoBySlotIndex a h of (h, d) \<Rightarrow>
        (h, if deviceAddress d \<noteq> a then USB_DEVICE_DETACHED else device_status d))"

text \<open>\<open>mem\<close> is the result of the allocation of endpoint 0: nothing, or a node with its old content.\<close>

definition host_init_device :: "'p host_ep option \<Rightarrow> 'p usb_device_info \<Rightarrow> 'p usb_device_info option" where
  "host_init_device mem d =
     (case (case pEndpoint0 d of None \<Rightarrow> map_option (\<lambda>e. d\<lparr>pEndpoint0 := Some e\<rparr>) mem | Some _ \<Rightarrow> Some (USB_FreeMemory d)) of
        None \<Rightarrow> None
      | Some d \<Rightarrow> Some (d\<lparr>pCurrentEndpoint := Some Ep0, usbHostState := STATE_DETACHED, usbOverrideHostState := 0xFFFF,
                         deviceAddressAndSpeed := 0, deviceAddress := 0\<rparr>))"

definition USBHostInit :: "'p host_ep option \<Rightarrow> u8 \<Rightarrow> 'p usb_host \<Rightarrow> 'p usb_host \<times> bool" where
  "USBHostInit mem a h =
     (case USBHostGetDeviceInfoBySlotIndex a h of
        (h, d) \<Rightarrow>
          (case host_init_device mem d of None \<Rightarrow> (h, False)
           | Some d' \<Rightarrow>
               let h1 = dev_upd a (\<lambda>_. d') h
               in (if a = 0 then h1\<lparr>bPowerGoodPort0 := True, usbEventQueue := []\<rparr> else h1, True)))"

definition setup_bytes :: "u8 \<Rightarrow> u8 \<Rightarrow> u16 \<Rightarrow> u16 \<Rightarrow> u16 \<Rightarrow> u8 list" where
  "setup_bytes bmRequestType bRequest wValue wIndex wLength =
     [bmRequestType, bRequest, ucast (wValue AND 0xFF), ucast (drop_bit 8 wValue AND 0xFF),
      ucast (wIndex AND 0xFF), ucast (drop_bit 8 wIndex AND 0xFF), ucast (wLength AND 0xFF), ucast (drop_bit 8 wLength AND 0xFF)]"

text \<open>The new current setting of the interface, \<open>None\<close> for an illegal request.\<close>

fun position :: "('a \<Rightarrow> bool) \<Rightarrow> 'a list \<Rightarrow> nat option" where
  "position P [] = None"
| "position P (x # xs) = (if P x then Some 0 else map_option Suc (position P xs))"

definition set_interface :: "u16 \<Rightarrow> u16 \<Rightarrow> 'p usb_device_info \<Rightarrow> 'p usb_device_info option" where
  "set_interface wIndex wValue d =
     (case position (\<lambda>i. ucast (hi_interface i) = wIndex) (pInterfaceList d) of None \<Rightarrow> None
      | Some n \<Rightarrow>
          let i = pInterfaceList d ! n
          in (case pCurrentSetting i of None \<Rightarrow> None
              | Some k \<Rightarrow>
                  if \<exists>e \<in> set (pEndpointList (pInterfaceSettings i ! k)). \<not> bfTransferComplete e then None
                  else (case position (\<lambda>s. ucast (interfaceAltSetting s) = wValue) (pInterfaceSettings i) of None \<Rightarrow> None
                        | Some k' \<Rightarrow> Some (d\<lparr>pInterfaceList := (pInterfaceList d)[n := i\<lparr>pCurrentSetting := Some k'\<rparr>]\<rparr>))))"

text \<open>
  \<open>get\<close> is the direction \<^verbatim>\<open>USB_DEVICE_REQUEST_GET\<close>. \<open>None\<close> is an access through a null pointer or behind a buffer: the device
  has no endpoint 0, or no buffer of 8 bytes for the setup packet.
\<close>

definition USBHostIssueDeviceRequest ::
  "u8 \<Rightarrow> u8 \<Rightarrow> u8 \<Rightarrow> u16 \<Rightarrow> u16 \<Rightarrow> u16 \<Rightarrow> 'p host_data \<Rightarrow> bool \<Rightarrow> u8 \<Rightarrow> 'p usb_host \<Rightarrow> ('p usb_host \<times> u8) option" where
  "USBHostIssueDeviceRequest a bmRequestType bRequest wValue wIndex wLength data get clientDriverID h =
     (case USBHostGetDeviceInfoBySlotIndex a h of
        (h, d) \<Rightarrow>
          if deviceAddress d \<noteq> a then Some (h, USB_UNKNOWN_DEVICE)
          else if usbHostState d AND STATE_MASK \<noteq> STATE_RUNNING then Some (h, USB_INVALID_STATE)
          else case pEndpoint0 d of None \<Rightarrow> None
          | Some e \<Rightarrow>
              if \<not> bfTransferComplete e then Some (h, USB_ENDPOINT_BUSY)
              else
                (case (if bRequest = 11 then set_interface wIndex wValue d else Some d) of
                   None \<Rightarrow> Some (h, USB_ILLEGAL_REQUEST)
                 | Some d1 \<Rightarrow>
                     let d2 = (if bRequest = 1 \<and> wValue = 0 \<and> bmRequestType \<le> 2 then USB_ResetDATA0 (ucast wIndex) d1 else d1)
                     in (case pEP0Data d2 of None \<Rightarrow> None
                         | Some p \<Rightarrow>
                             let d3 = d2\<lparr>pEP0Data := Some (setup_bytes bmRequestType bRequest wValue wIndex wLength @ drop 8 p)\<rparr>;
                                 init = (if get then USB_InitControlRead EP0_Data 8 data wLength
                                         else USB_InitControlWrite EP0_Data 8 data wLength)
                             in if length p < 8 then None else Some (dev_upd a (\<lambda>_. ep_set Ep0 (\<lambda>e. init (e\<lparr>he_clientDriver := clientDriverID\<rparr>)) d3) h,
                                      USB_SUCCESS))))"

definition USBHostRead :: "u8 \<Rightarrow> u8 \<Rightarrow> 'p \<Rightarrow> u32 \<Rightarrow> 'p usb_host \<Rightarrow> 'p usb_host \<times> u8" where
  "USBHostRead a endpoint pData size' h =
     (case USBHostGetDeviceInfoBySlotIndex a h of
        (h, d) \<Rightarrow>
          if deviceAddress d \<noteq> a then (h, USB_UNKNOWN_DEVICE)
          else if usbHostState d AND STATE_MASK \<noteq> STATE_RUNNING then (h, USB_INVALID_STATE)
          else case USB_FindEndpoint d endpoint of None \<Rightarrow> (h, USB_ENDPOINT_NOT_FOUND)
          | Some r \<Rightarrow>
              let e = ep_at r d
              in if bfTransferType (he_bmAttributes e) = Control_Ep then (h, USB_ENDPOINT_ILLEGAL_TYPE)
                 else if he_bEndpointAddress e AND 0x80 = 0 then (h, USB_ENDPOINT_ILLEGAL_DIRECTION)
                 else if bfStalled e then (h, USB_ENDPOINT_STALLED)
                 else if bfError e then (h, USB_ENDPOINT_ERROR)
                 else if \<not> bfTransferComplete e then (h, USB_ENDPOINT_BUSY)
                 else (isoc_restart pData e (dev_upd a (ep_set r (USB_InitRead pData (ucast size'))) h), USB_SUCCESS))"

definition USBHostWrite :: "u8 \<Rightarrow> u8 \<Rightarrow> 'p \<Rightarrow> u32 \<Rightarrow> 'p usb_host \<Rightarrow> 'p usb_host \<times> u8" where
  "USBHostWrite a endpoint pData size' h =
     (case USBHostGetDeviceInfoBySlotIndex a h of
        (h, d) \<Rightarrow>
          if deviceAddress d \<noteq> a then (h, USB_UNKNOWN_DEVICE)
          else if usbHostState d AND STATE_MASK \<noteq> STATE_RUNNING then (h, USB_INVALID_STATE)
          else case USB_FindEndpoint d endpoint of None \<Rightarrow> (h, USB_ENDPOINT_NOT_FOUND)
          | Some r \<Rightarrow>
              let e = ep_at r d
              in if bfTransferType (he_bmAttributes e) = Control_Ep then (h, USB_ENDPOINT_ILLEGAL_TYPE)
                 else if he_bEndpointAddress e AND 0x80 \<noteq> 0 then (h, USB_ENDPOINT_ILLEGAL_DIRECTION)
                 else if bfStalled e then (h, USB_ENDPOINT_STALLED)
                 else if bfError e then (h, USB_ENDPOINT_ERROR)
                 else if \<not> bfTransferComplete e then (h, USB_ENDPOINT_BUSY)
                 else (isoc_restart pData e (dev_upd a (ep_set r (USB_InitWrite pData (ucast size'))) h), USB_SUCCESS))"

definition USBHostResetDevice :: "u8 \<Rightarrow> 'p usb_host \<Rightarrow> 'p usb_host \<times> u8" where
  "USBHostResetDevice a h =
     (case USBHostGetDeviceInfoBySlotIndex a h of
        (h, d) \<Rightarrow>
          if deviceAddress d \<noteq> a then (h, USB_UNKNOWN_DEVICE)
          else if usbHostState d AND STATE_MASK = STATE_DETACHED then (h, USB_ILLEGAL_REQUEST)
          else (dev_upd a (\<lambda>d. d\<lparr>usbHostState := STATE_DETACHED\<rparr>) h, USB_SUCCESS))"

definition USBHostResumeDevice :: "u8 \<Rightarrow> 'p usb_host \<Rightarrow> 'p usb_host \<times> u8" where
  "USBHostResumeDevice a h =
     (case USBHostGetDeviceInfoBySlotIndex a h of
        (h, d) \<Rightarrow>
          if deviceAddress d \<noteq> a then (h, USB_UNKNOWN_DEVICE)
          else if usbHostState d \<noteq> STATE_RUNNING OR SUBSTATE_SUSPEND_AND_RESUME then (h, USB_ILLEGAL_REQUEST)
          else (dev_upd a (\<lambda>d. d\<lparr>usbHostState := usbHostState d + 1\<rparr>) h, USB_SUCCESS))"

definition USBHostSetDeviceConfiguration :: "u8 \<Rightarrow> u8 \<Rightarrow> 'p usb_host \<Rightarrow> ('p usb_host \<times> u8) option" where
  "USBHostSetDeviceConfiguration a configuration h =
     (case USBHostGetDeviceInfoBySlotIndex a h of
        (h, d) \<Rightarrow>
          if deviceAddress d \<noteq> a then Some (h, USB_UNKNOWN_DEVICE)
          else if usbHostState d AND STATE_MASK \<noteq> STATE_RUNNING then Some (h, USB_INVALID_STATE)
          else case USB_TransferInProgress d of None \<Rightarrow> None
          | Some True \<Rightarrow> Some (h, USB_BUSY)
          | Some False \<Rightarrow>
              Some (dev_upd a (\<lambda>d. (ep_set Ep0 (\<lambda>e. e\<lparr>he_clientDriver := 0xFF\<rparr>) d)
                \<lparr>currentConfiguration := configuration, usbHostState := STATE_CONFIGURING OR 0x30\<rparr>) h, USB_SUCCESS))"

definition USBHostSetNAKTimeout :: "u8 \<Rightarrow> u8 \<Rightarrow> u16 \<Rightarrow> u16 \<Rightarrow> 'p usb_host \<Rightarrow> 'p usb_host \<times> u8" where
  "USBHostSetNAKTimeout a endpoint flags timeoutCount h =
     (case USBHostGetDeviceInfoBySlotIndex a h of
        (h, d) \<Rightarrow>
          if deviceAddress d \<noteq> a then (h, USB_UNKNOWN_DEVICE)
          else case USB_FindEndpoint d endpoint of None \<Rightarrow> (h, USB_ENDPOINT_NOT_FOUND)
          | Some r \<Rightarrow>
              (dev_upd a (ep_set r (\<lambda>e. e\<lparr>bfNAKTimeoutEnabled := bit flags 0, timeoutNAKs := timeoutCount\<rparr>)) h, USB_SUCCESS))"

end
