(* ===== verification/USB_Host_Drivers.thy ===== *)
theory USB_Host_Drivers
  imports USB_Host
begin

section \<open>The USB host stack: drivers, events and the end of transfers\<close>

text \<open>
  The other half of the model of \<^verbatim>\<open>usb_host.c\<close> (the queries on running transfers, events, the choice of the driver of a
  device or an interface, the choice of the endpoint to serve, the way out of a failed enumeration), and
  the registration of drivers in \<^verbatim>\<open>usb_deluxe_host.c\<close>.
\<close>

subsection \<open>The end of a transfer\<close>

text \<open>Completion, the error code and the byte count, \<open>None\<close> where the code leaves the caller's variable alone.\<close>

definition USBHostTransferIsComplete :: "u8 \<Rightarrow> u8 \<Rightarrow> 'p usb_host \<Rightarrow> 'p usb_host \<times> bool \<times> u8 \<times> u32 option" where
  "USBHostTransferIsComplete a endpoint h =
     (case USBHostGetDeviceInfoBySlotIndex a h of
        (h, d) \<Rightarrow>
          if deviceAddress d \<noteq> a then (h, True, USB_UNKNOWN_DEVICE, Some 0)
          else case USB_FindEndpoint d endpoint of
            None \<Rightarrow> (h, True, USB_ENDPOINT_NOT_FOUND, None)
          | Some r \<Rightarrow>
              let e = ep_at r d
              in if bfTransferSuccessful e then (h, bfTransferComplete e, USB_SUCCESS, Some (dataCount e))
                 else if bfStalled e then (h, bfTransferComplete e, USB_ENDPOINT_STALLED, None)
                 else if bfError e then (h, bfTransferComplete e, bErrorCode e, None)
                 else (h, bfTransferComplete e, USB_ENDPOINT_UNRESOLVED_STATE, None))"

definition USBHostTerminateTransfer :: "u8 \<Rightarrow> u8 \<Rightarrow> 'p usb_host \<Rightarrow> 'p usb_host" where
  "USBHostTerminateTransfer a endpoint h =
     (case USBHostGetDeviceInfoBySlotIndex a h of
        (h, d) \<Rightarrow>
          if deviceAddress d \<noteq> a then h
          else case USB_FindEndpoint d endpoint of None \<Rightarrow> h
          | Some r \<Rightarrow> dev_upd a (ep_set r (\<lambda>e. e\<lparr>bfUserAbort := True, bfTransferComplete := True\<rparr>)) h)"

definition valid_devices :: "'p usb_device_info list \<Rightarrow> nat" where
  "valid_devices ds = length (filter (\<lambda>i. unat (deviceAddress (ds ! i)) = i) [0..<length ds])"

definition USBHostSuspendDevice :: "u8 \<Rightarrow> 'p usb_host \<Rightarrow> 'p usb_host \<times> u8" where
  "USBHostSuspendDevice a h =
     (case USBHostGetDeviceInfoBySlotIndex a h of
        (h, d) \<Rightarrow>
          if deviceAddress d \<noteq> a then (h, USB_UNKNOWN_DEVICE)
          else if usbHostState d \<noteq> STATE_RUNNING then (h, USB_ILLEGAL_REQUEST)
          else
            let h1 = (if valid_devices (usbDeviceInfo h) < 2 then reg_upd (\<lambda>r. r\<lparr>U1CON := U1CON r AND NOT 0x01\<rparr>) h else h)
            in (dev_upd a (\<lambda>d. d\<lparr>usbHostState := STATE_RUNNING OR SUBSTATE_SUSPEND_AND_RESUME\<rparr>) h1, USB_SUCCESS))"

subsection \<open>Events\<close>

definition app_call :: "u8 \<Rightarrow> host_event \<Rightarrow> 'p usb_host \<Rightarrow> 'p usb_host \<times> bool" where
  "app_call a e h = (h\<lparr>host_calls := host_calls h @ [App_Call a e]\<rparr>, USB_Host_EventHandler e)"

text \<open>\<open>None\<close>: the driver index is beyond the table.\<close>

definition client_call :: "u8 \<Rightarrow> u8 \<Rightarrow> host_event \<Rightarrow> 'p usb_host \<Rightarrow> 'p usb_host option" where
  "client_call drv a e h =
     (if unat drv < length (usbClientDrvTable h)
      then Some (h\<lparr>host_calls := host_calls h @ [Client_Call (cd_EventHandler (usbClientDrvTable h ! unat drv)) a e]\<rparr>)
      else None)"

fun client_calls :: "u8 list \<Rightarrow> u8 \<Rightarrow> host_event \<Rightarrow> 'p usb_host \<Rightarrow> 'p usb_host option" where
  "client_calls [] a e h = Some h"
| "client_calls (x # xs) a e h = (case client_call x a e h of None \<Rightarrow> None | Some h' \<Rightarrow> client_calls xs a e h')"

text \<open>The argument of \<open>EVENT_TRANSFER\<close> and \<open>EVENT_BUS_ERROR\<close> is the client driver of the transfer.\<close>

definition USB_NotifyClients :: "u8 \<Rightarrow> host_event \<Rightarrow> 'p usb_host \<Rightarrow> 'p usb_host option" where
  "USB_NotifyClients a e h =
     (case USBHostGetDeviceInfoBySlotIndex a h of
        (h, d) \<Rightarrow>
          let own = (\<lambda>drv. if drv = 0xFF then [] else [drv]);
              all = map hi_clientDriver (pInterfaceList d) @ (if bfUseEP0Driver d then [deviceEP0Driver d] else [])
          in client_calls (case e of EVENT_TRANSFER drv \<Rightarrow> own drv | EVENT_BUS_ERROR drv \<Rightarrow> own drv | _ \<Rightarrow> all) a e h)"

fun data_calls :: "u8 list \<Rightarrow> u8 \<Rightarrow> host_event \<Rightarrow> 'p usb_host \<Rightarrow> 'p usb_host option" where
  "data_calls [] a e h = Some h"
| "data_calls (x # xs) a e h =
     (if unat x < length (usbClientDrvTable h) then
        let f = cd_DataEventHandler (usbClientDrvTable h ! unat x)
        in data_calls xs a e (if f = 0 then h else h\<lparr>host_calls := host_calls h @ [Client_Call f a e]\<rparr>)
      else None)"

definition USB_NotifyDataClients :: "u8 \<Rightarrow> host_event \<Rightarrow> 'p usb_host \<Rightarrow> 'p usb_host option" where
  "USB_NotifyDataClients a e h =
     (case USBHostGetDeviceInfoBySlotIndex a h of (h, d) \<Rightarrow> data_calls (map hi_clientDriver (pInterfaceList d)) a e h)"

definition USBHostShutdown :: "'p host_ep option \<Rightarrow> u8 \<Rightarrow> 'p usb_host \<Rightarrow> 'p usb_host option" where
  "USBHostShutdown mem a h =
     (case USBHostGetDeviceInfoBySlotIndex a h of
        (h, d) \<Rightarrow>
          let h1 = fst (USBHostGetDeviceInfoOfFirstDevice h);
              h2 = (if a = 1 then reg_upd (\<lambda>r. r\<lparr>U1PWRC := 0\<rparr>) h1 else h1)
          in (case (if deviceAddress d = a
                    then USB_NotifyClients a EVENT_DETACH (fst (app_call a EVENT_VBUS_RELEASE_POWER h2)) else Some h2) of
                None \<Rightarrow> None
              | Some h3 \<Rightarrow> Some (fst (USBHostInit mem a h3))))"

definition USBHostVbusEvent :: "'p host_ep option \<Rightarrow> host_event \<Rightarrow> u8 \<Rightarrow> u8 \<Rightarrow> 'p usb_host \<Rightarrow> ('p usb_host \<times> u8) option" where
  "USBHostVbusEvent mem e hubAddress portNumber h =
     (if hubAddress = 255 \<and> portNumber = 0 \<and> e = EVENT_VBUS_OVERCURRENT then
        map_option (\<lambda>h. (h\<lparr>bPowerGoodPort0 := False\<rparr>, USB_SUCCESS)) (USBHostShutdown mem 1 h)
      else if hubAddress = 255 \<and> portNumber = 0 \<and> e = EVENT_VBUS_POWER_AVAILABLE then
        Some (h\<lparr>bPowerGoodPort0 := True\<rparr>, USB_SUCCESS)
      else Some (h, USB_ILLEGAL_REQUEST))"

subsection \<open>A failed command of the enumeration\<close>

text \<open>The current endpoint is one of the device; \<open>None\<close>: it is a null pointer.\<close>

definition USB_CheckCommandAndEnumerationAttempts :: "'p usb_device_info \<Rightarrow> 'p usb_device_info option" where
  "USB_CheckCommandAndEnumerationAttempts d =
     (case pCurrentEndpoint d of None \<Rightarrow> None
      | Some r \<Rightarrow>
          let d1 = ep_set r (\<lambda>e. e\<lparr>bfError := False, bfStalled := False\<rparr>) d;
              d2 = d1\<lparr>numCommandTries := numCommandTries d1 - 1\<rparr>
          in if numCommandTries d2 \<noteq> 0 then Some (d2\<lparr>usbHostState := usbHostState d2 AND NOT SUBSUBSTATE_MASK\<rparr>)
             else
               let d3 = d2\<lparr>numEnumerationTries := numEnumerationTries d2 - 1\<rparr>
               in if numEnumerationTries d3 \<noteq> 0 then Some (d3\<lparr>usbHostState := STATE_ATTACHED OR 0x10\<rparr>)
                  else Some (d3\<lparr>errorCode := USB_CANNOT_ENUMERATE, usbHostState := STATE_HOLDING\<rparr>))"

subsection \<open>The choice of the driver\<close>

definition tpl_byte :: "nat \<Rightarrow> usb_tpl \<Rightarrow> u8" where
  "tpl_byte n t = ucast (drop_bit (8 * n) (tpl_device t))"

definition tpl_idVendor :: "usb_tpl \<Rightarrow> u16" where
  "tpl_idVendor t = ucast (tpl_device t)"

definition tpl_idProduct :: "usb_tpl \<Rightarrow> u16" where
  "tpl_idProduct t = ucast (drop_bit 16 (tpl_device t))"

text \<open>A little-endian half word of the device descriptor.\<close>

definition desc_u16 :: "u8 list \<Rightarrow> nat \<Rightarrow> u16" where
  "desc_u16 bs n = ucast (bs ! n) OR push_bit 8 (ucast (bs ! Suc n))"

definition tpl_class_match :: "u8 \<Rightarrow> u8 \<Rightarrow> u8 \<Rightarrow> usb_tpl \<Rightarrow> bool" where
  "tpl_class_match bClass bSubClass bProtocol t \<longleftrightarrow>
     bit (tpl_flags t) 1 \<and> (bit (tpl_flags t) 5 \<or> tpl_byte 0 t = bClass) \<and> (bit (tpl_flags t) 4 \<or> tpl_byte 1 t = bSubClass) \<and>
     (bit (tpl_flags t) 3 \<or> tpl_byte 2 t = bProtocol)"

text \<open>The application is asked before a driver is taken.\<close>

fun class_driver_from :: "usb_tpl list \<Rightarrow> u8 \<Rightarrow> u8 \<Rightarrow> u8 \<Rightarrow> 'p usb_host \<Rightarrow> 'p usb_host \<times> u8 option" where
  "class_driver_from [] c s p h = (h, None)"
| "class_driver_from (t # ts) c s p h =
     (if tpl_class_match c s p t then
        (case app_call 255 EVENT_OVERRIDE_CLIENT_DRIVER_SELECTION h of
           (h', refused) \<Rightarrow> if \<not> refused then (h', Some (tpl_ClientDriver t)) else class_driver_from ts c s p h')
      else class_driver_from ts c s p h)"

definition USB_FindClassDriver :: "u8 \<Rightarrow> u8 \<Rightarrow> u8 \<Rightarrow> 'p usb_host \<Rightarrow> 'p usb_host \<times> u8 option" where
  "USB_FindClassDriver bClass bSubClass bProtocol h = class_driver_from (usbTPL h) bClass bSubClass bProtocol h"

text \<open>One entry of the list: whether it gives a driver for the whole device, and the driver for endpoint 0.\<close>

definition device_level_entry :: "u8 list \<Rightarrow> usb_tpl \<Rightarrow> 'p usb_device_info \<Rightarrow> 'p usb_host \<Rightarrow> 'p usb_device_info \<times> 'p usb_host" where
  "device_level_entry pDesc t d h =
     (if bit (tpl_flags t) 1 then
        (if tpl_byte 0 t = pDesc ! 4 \<and> tpl_byte 1 t = pDesc ! 5 \<and> tpl_byte 2 t = pDesc ! 6
         then (d\<lparr>bfUseDeviceClientDriver := True\<rparr>, h) else (d, h))
      else
        let d1 = (if tpl_idVendor t = desc_u16 pDesc 8 \<and> tpl_idProduct t = desc_u16 pDesc 10 then
                    (if bit (tpl_flags t) 7 then
                       let d' = d\<lparr>bfUseEP0Driver := True, deviceEP0Driver := tpl_ClientDriver t\<rparr>
                       in if bit (tpl_flags t) 2 then d'\<lparr>currentConfiguration := tpl_bConfiguration t\<rparr> else d'
                     else d\<lparr>bfUseDeviceClientDriver := True\<rparr>)
                  else d)
        in if tpl_idVendor t = 0xFFFF \<and> tpl_idProduct t = 0xFFFF then
             (case app_call 255 EVENT_OVERRIDE_CLIENT_DRIVER_SELECTION h of
                (h', refused) \<Rightarrow> (if \<not> refused then d1\<lparr>bfUseDeviceClientDriver := True\<rparr> else d1, h'))
           else (d1, h))"

fun device_level_from :: "u8 list \<Rightarrow> usb_tpl list \<Rightarrow> 'p usb_device_info \<Rightarrow> 'p usb_host \<Rightarrow> 'p usb_device_info \<times> 'p usb_host \<times> bool" where
  "device_level_from pDesc [] d h = (d, h, False)"
| "device_level_from pDesc (t # ts) d h =
     (case device_level_entry pDesc t d h of
        (d1, h1) \<Rightarrow>
          if bfUseDeviceClientDriver d1 then
            let d2 = d1\<lparr>deviceClientDriver := tpl_ClientDriver t\<rparr>
            in (if bit (tpl_flags t) 2 then d2\<lparr>currentConfiguration := tpl_bConfiguration t\<rparr> else d2, h1, True)
          else device_level_from pDesc ts d1 h1)"

text \<open>\<open>None\<close>: there is no device descriptor, or it is too short.\<close>

definition USB_FindDeviceLevelClientDriver ::
  "'p usb_device_info \<Rightarrow> 'p usb_host \<Rightarrow> ('p usb_device_info \<times> 'p usb_host \<times> bool) option" where
  "USB_FindDeviceLevelClientDriver d h =
     (let d1 = d\<lparr>bfUseDeviceClientDriver := False, bfUseEP0Driver := False\<rparr>
      in if usbTPL h = [] then Some (d1, h, False)
         else case pDeviceDescriptor d of None \<Rightarrow> None
              | Some bs \<Rightarrow> if length bs < 12 then None else Some (device_level_from bs (usbTPL h) d1 h))"

subsection \<open>The endpoint to serve\<close>

text \<open>The endpoints of the current settings, in the order of the search.\<close>

definition iface_refs :: "nat \<Rightarrow> 'p host_iface \<Rightarrow> ep_ref list" where
  "iface_refs n i = (case pCurrentSetting i of None \<Rightarrow> []
     | Some k \<Rightarrow> map (Ep_at n k) [0..<length (pEndpointList (pInterfaceSettings i ! k))])"

definition service_refs :: "'p usb_device_info \<Rightarrow> ep_ref list" where
  "service_refs d = concat (map (\<lambda>n. iface_refs n (pInterfaceList d ! n)) [0..<length (pInterfaceList d)])"

text \<open>The state of the search: the device and the counters of bulk transactions in this frame.\<close>

fun service_scan ::
  "transfer_type \<Rightarrow> ep_ref list \<Rightarrow> 'p usb_device_info \<Rightarrow> u8 \<Rightarrow> u8 \<Rightarrow> 'p usb_device_info \<times> u8 \<times> u8 \<times> bool" where
  "service_scan ty [] d cnt lst = (d, cnt, lst, False)"
| "service_scan ty (r # rs) d cnt lst =
     (let e = ep_at r d
      in if bfTransferType (he_bmAttributes e) \<noteq> ty then service_scan ty rs d cnt lst
         else case ty of
           Control_Ep \<Rightarrow>
             if \<not> bfTransferComplete e then (d\<lparr>pCurrentEndpoint := Some r\<rparr>, cnt, lst, True) else service_scan ty rs d cnt lst
         | Bulk_Ep \<Rightarrow>
             if \<not> bfTransferComplete e \<and> \<not> bfLastTransferNAKd e then
               (if cnt + 1 > lst then (d\<lparr>pCurrentEndpoint := Some r\<rparr>, cnt + 1, cnt + 1, True)
                else service_scan ty rs d (cnt + 1) lst)
             else service_scan ty rs d cnt lst
         | _ \<Rightarrow>
             if bfTransferComplete e then
               service_scan ty rs (if wIntervalCount e = 0 then ep_set r (\<lambda>e. e\<lparr>wIntervalCount := wInterval e\<rparr>) d else d) cnt lst
             else if wIntervalCount e = 0 then (d\<lparr>pCurrentEndpoint := Some r\<rparr>, cnt, lst, True)
             else service_scan ty rs d cnt lst)"

definition USB_FindServiceEndpoint :: "transfer_type \<Rightarrow> u8 \<Rightarrow> 'p usb_host \<Rightarrow> ('p usb_host \<times> bool) option" where
  "USB_FindServiceEndpoint ty a h =
     (let d = usbDeviceInfo h ! unat a
      in case pEndpoint0 d of None \<Rightarrow> None
         | Some e \<Rightarrow>
             if bfTransferType (he_bmAttributes e) = ty \<and> \<not> bfTransferComplete e
             then Some (dev_upd a (\<lambda>d. d\<lparr>pCurrentEndpoint := Some Ep0\<rparr>) h, True)
             else (case service_scan ty (service_refs d) d 0 (lastBulkTransaction h) of
                     (d', cnt, lst, found) \<Rightarrow>
                       Some ((dev_upd a (\<lambda>_. d') h)\<lparr>countBulkTransactions := cnt, lastBulkTransaction := lst\<rparr>, found)))"

subsection \<open>Registration of drivers\<close>

text \<open>\<open>junk\<close> is the old content of the memory of the new entry: the fields that are not assigned keep it.\<close>

definition USBDeluxe_Host_AddDriver ::
  "client_driver \<Rightarrow> u8 \<Rightarrow> u16 \<Rightarrow> u16 \<Rightarrow> u16 \<Rightarrow> u32 \<Rightarrow> 'p usb_host \<Rightarrow> 'p usb_host \<times> u16" where
  "USBDeluxe_Host_AddDriver junk func init_cb event_cb dataevent_cb flags h =
     (h\<lparr>usbClientDrvTable := usbClientDrvTable h @
        [junk\<lparr>cd_func := ucast func, cd_Initialize := init_cb, cd_EventHandler := event_cb, cd_DataEventHandler := dataevent_cb,
              cd_flags := flags\<rparr>]\<rparr>, of_nat (length (usbClientDrvTable h)))"

definition USBDeluxe_Host_AddDeviceClass :: "usb_tpl \<Rightarrow> u16 \<Rightarrow> u8 \<Rightarrow> u8 \<Rightarrow> u8 \<Rightarrow> u8 \<Rightarrow> 'p usb_host \<Rightarrow> 'p usb_host \<times> u16" where
  "USBDeluxe_Host_AddDeviceClass junk driver_id bConfiguration bClass bSubClass bProtocol h =
     (h\<lparr>usbTPL := usbTPL h @
        [junk\<lparr>tpl_ClientDriver := ucast driver_id,
              tpl_device := (tpl_device junk AND 0xFF000000) OR ucast bClass OR push_bit 8 (ucast bSubClass) OR push_bit 16 (ucast bProtocol),
              tpl_bConfiguration := bConfiguration, tpl_flags := tpl_flags junk OR 2\<rparr>]\<rparr>, of_nat (length (usbTPL h)))"

text \<open>The tasks one turn runs. The case of a HID driver has no \<^verbatim>\<open>break\<close> and goes on into the case of a hub.\<close>

datatype host_task = Run_HID_Tasks u8 | Run_Hub_Tasks

definition driver_tasks :: "client_driver \<Rightarrow> host_task list" where
  "driver_tasks c = (if cd_func c = 0x03 then [Run_HID_Tasks (cd_dev_addr c), Run_Hub_Tasks]
     else if cd_func c = 0xEE then [Run_Hub_Tasks] else [])"

definition USBDeluxe_HostDriverTasks :: "'p usb_host \<Rightarrow> host_task list" where
  "USBDeluxe_HostDriverTasks h = concat (map driver_tasks (usbClientDrvTable h))"

end
