(* ===== verification/USB_Host_Parse.thy ===== *)
theory USB_Host_Parse
  imports USB_Host_Drivers
begin

section \<open>The USB host stack: reading a configuration\<close>

text \<open>
  Models \<^verbatim>\<open>_USB_ParseConfigurationDescriptor\<close>. The descriptor is the block of memory it was received in. The loops
  follow lengths the device has chosen, so they may not end: the result is \<open>None\<close> then. A read behind the
  block or an access through a null pointer is a \<open>host_fault\<close>. \<open>room\<close> is the number of allocations that still succeed.
\<close>

datatype host_fault = Read_Past_End | Write_Past_End | Null_Access

text \<open>The node of an endpoint; \<open>junk\<close> is the old content of its memory.\<close>

definition ep_node :: "'p host_ep \<Rightarrow> u8 \<Rightarrow> u8 \<Rightarrow> u8 \<Rightarrow> u16 \<Rightarrow> u8 \<Rightarrow> 'p host_ep" where
  "ep_node junk v addr attr sz iv =
     (let iso = (bfTransferType attr = Isochronous_Ep);
          w = (if iso then let n = (if iv = 0 then 1 else if iv > 16 then 16 else iv) in push_bit (unat n - 1) 1 else ucast iv)
      in junk\<lparr>he_bEndpointAddress := addr, he_bmAttributes := attr, he_wMaxPacketSize := sz, wInterval := w,
           bfErrorCount := 0, bfStalled := False, bfError := False, bfUserAbort := False, bfTransferSuccessful := False,
           bfTransferComplete := True, bfUseDTS := \<not> iso, bfNextDATA01 := False, bfLastTransferNAKd := False,
           bfNAKTimeoutEnabled := False, dataCount := 0, transferState := 0, he_clientDriver := v, wIntervalCount := w\<rparr>)"

text \<open>The inner loop: \<open>cur\<close> endpoints of \<open>num\<close> have been found.\<close>

partial_function (option) parse_eps ::
  "u8 list \<Rightarrow> u16 \<Rightarrow> u8 \<Rightarrow> u8 \<Rightarrow> 'p host_ep \<Rightarrow> nat \<Rightarrow> u16 \<Rightarrow> u8 \<Rightarrow> 'p host_ep list \<Rightarrow>
     (host_fault + (nat \<times> u16 \<times> u8 \<times> 'p host_ep list)) option" where
  "parse_eps buf tot num v junk room index cur eps =
     (if index < tot \<and> cur < num then
        let i = unat index
        in if length buf \<le> i + 1 then Some (Inl Read_Past_End)
           else if buf ! (i + 1) \<noteq> 0x05 then parse_eps buf tot num v junk room (index + ucast (buf ! i)) cur eps
           else if room = 0 then Some (Inl Null_Access)
           else if length buf \<le> i + 6 then Some (Inl Read_Past_End)
           else parse_eps buf tot num v junk (room - 1) (index + ucast (buf ! i)) (cur + 1)
                  (ep_node junk v (buf ! (i + 2)) (buf ! (i + 3)) (ucast (buf ! (i + 4)) + push_bit 8 (ucast (buf ! (i + 5))))
                     (buf ! (i + 6)) # eps)
      else Some (Inr (room, index, cur, eps)))"

text \<open>A new interface, and a new setting at the front of the settings of an interface.\<close>

definition new_iface :: "u8 \<Rightarrow> u8 \<Rightarrow> 'p host_iface" where
  "new_iface n v = \<lparr>hi_interface = n, hi_clientDriver = v, pInterfaceSettings = [], pCurrentSetting = None\<rparr>"

definition add_setting :: "u8 \<Rightarrow> 'p host_ep list \<Rightarrow> 'p host_iface \<Rightarrow> 'p host_iface" where
  "add_setting alt eps i =
     i\<lparr>pInterfaceSettings := \<lparr>interfaceAltSetting = alt, pEndpointList = eps\<rparr> # pInterfaceSettings i,
       pCurrentSetting := (if alt = 0 then Some 0 else map_option Suc (pCurrentSetting i))\<rparr>"

text \<open>The driver of an interface.\<close>

definition iface_driver :: "u8 \<Rightarrow> u8 \<Rightarrow> u8 \<Rightarrow> 'p usb_device_info \<Rightarrow> 'p usb_host \<Rightarrow> 'p usb_host \<times> u8 option" where
  "iface_driver c s p d h =
     (if bfUseDeviceClientDriver d then (h, Some (deviceClientDriver d)) else USB_FindClassDriver c s p h)"

text \<open>An OTG descriptor; without OTG support the flag for the host negotiation is clear.\<close>

definition parse_otg :: "u8 \<Rightarrow> 'p usb_device_info \<Rightarrow> 'p usb_device_info" where
  "parse_otg attributes d =
     (let d1 = d\<lparr>bfSupportsOTG := True, attributesOTG := attributes\<rparr>
      in if attributes AND 0x02 \<noteq> 0 \<and> bfAllowHNP d1 then d1\<lparr>bfConfiguredOTG := False\<rparr> else d1\<lparr>bfAllowHNP := False\<rparr>)"

text \<open>
  One interface descriptor whose driver is \<open>v\<close>: the new list of interfaces and the place after its endpoints, or no
  list when the memory or the endpoints do not suffice.
\<close>

definition parse_iface ::
  "u8 list \<Rightarrow> u16 \<Rightarrow> 'p host_ep \<Rightarrow> u8 \<Rightarrow> nat \<Rightarrow> u16 \<Rightarrow> 'p host_iface list \<Rightarrow> (host_fault + (nat \<times> u16 \<times> 'p host_iface list) option) option" where
  "parse_iface buf tot junk v room index ifs =
     (let i = unat index; n = buf ! (i + 2); alt = buf ! (i + 3); num = buf ! (i + 4)
      in case (case position (\<lambda>x. hi_interface x = n) ifs of
                 Some k \<Rightarrow> Some (room, k, ifs)
               | None \<Rightarrow> if room = 0 then None else Some (room - 1, 0, new_iface n v # ifs)) of
           None \<Rightarrow> Some (Inr None)
         | Some (room1, k, ifs1) \<Rightarrow>
             if room1 = 0 then Some (Inr None)
             else
               (case parse_eps buf tot num v junk (room1 - 1) (index + ucast (buf ! i)) 0 [] of
                  None \<Rightarrow> None
                | Some (Inl f) \<Rightarrow> Some (Inl f)
                | Some (Inr (room2, index', cur, eps)) \<Rightarrow>
                    if cur \<noteq> num then Some (Inr None)
                    else Some (Inr (Some (room2, index', ifs1[k := add_setting alt eps (ifs1 ! k)])))))"

partial_function (option) parse_loop ::
  "u8 list \<Rightarrow> u16 \<Rightarrow> 'p host_ep \<Rightarrow> nat \<Rightarrow> u16 \<Rightarrow> 'p host_iface list \<Rightarrow> 'p usb_device_info \<Rightarrow> 'p usb_host \<Rightarrow>
     (host_fault + ('p host_iface list option \<times> 'p usb_device_info \<times> 'p usb_host)) option" where
  "parse_loop buf tot junk room index ifs d h =
     (if index < tot then
        let i = unat index
        in if length buf \<le> i + 1 then Some (Inl Read_Past_End)
           else if buf ! (i + 1) = 0x04 then
             (if length buf \<le> i + 7 then Some (Inl Read_Past_End)
              else case iface_driver (buf ! (i + 5)) (buf ! (i + 6)) (buf ! (i + 7)) d h of
                (h', None) \<Rightarrow> parse_loop buf tot junk room (index + ucast (buf ! i)) ifs d h'
              | (h', Some v) \<Rightarrow>
                  (case parse_iface buf tot junk v room index ifs of
                     None \<Rightarrow> None
                   | Some (Inl f) \<Rightarrow> Some (Inl f)
                   | Some (Inr None) \<Rightarrow> Some (Inr (None, d, h'))
                   | Some (Inr (Some (room', index', ifs'))) \<Rightarrow> parse_loop buf tot junk room' index' ifs' d h'))
           else if buf ! (i + 1) = 0x09 then
             (if length buf \<le> i + 2 then Some (Inl Read_Past_End)
              else parse_loop buf tot junk room (index + ucast (buf ! i)) ifs (parse_otg (buf ! (i + 2)) d) h)
           else parse_loop buf tot junk room (index + ucast (buf ! i)) ifs d h
      else Some (Inr (Some ifs, d, h)))"

text \<open>The nodes are released when the configuration is refused.\<close>

definition USB_ParseConfigurationDescriptor ::
  "'p host_ep \<Rightarrow> nat \<Rightarrow> 'p usb_device_info \<Rightarrow> 'p usb_host \<Rightarrow> (host_fault + ('p usb_device_info \<times> 'p usb_host \<times> bool)) option" where
  "USB_ParseConfigurationDescriptor junk room d h =
     (let d1 = d\<lparr>bfSupportsOTG := False, bfConfiguredOTG := True\<rparr>
      in case pCurrentConfigurationDescriptor d of None \<Rightarrow> Some (Inl Read_Past_End)
         | Some buf \<Rightarrow>
             if length buf < 9 then Some (Inl Read_Past_End)
             else
               let tot = ucast (buf ! 2) + push_bit 8 (ucast (buf ! 3)) :: u16
               in case app_call 255 EVENT_VBUS_REQUEST_POWER h of
                    (h1, False) \<Rightarrow> Some (Inr (d1\<lparr>errorCode := USB_ERROR_INSUFFICIENT_POWER\<rparr>, h1, False))
                  | (h1, True) \<Rightarrow>
                      (case parse_loop buf tot junk room (ucast (buf ! 0)) (pInterfaceList d1) d1 h1 of
                         None \<Rightarrow> None
                       | Some (Inl f) \<Rightarrow> Some (Inl f)
                       | Some (Inr (None, d2, h2)) \<Rightarrow> Some (Inr (d2, h2, False))
                       | Some (Inr (Some ifs, d2, h2)) \<Rightarrow>
                           if ifs = [] then Some (Inr (d2, h2, False))
                           else Some (Inr (d2\<lparr>currentConfiguration := buf ! 5, currentConfigurationPower := ucast (buf ! 8),
                                             pInterfaceList := ifs\<rparr>, h2, True))))"

end
