(* ===== verification/USB_Host_Props.thy ===== *)
theory USB_Host_Props
  imports USB_Host_Parse USB_Descriptor_Props
begin

section \<open>Properties of the host stack: reading a configuration\<close>

text \<open>
  The host's reader of configurations against the specification of descriptors of theory \<open>USB_Descriptor_Props\<close>: on a
  valid configuration it finds exactly the interfaces it has drivers for, with their settings and endpoints. In
  particular it reads every configuration the device stack of this repository builds.
\<close>

subsection \<open>What the host is to find\<close>

fun desc_eps :: "usb_desc list \<Rightarrow> (u8 \<times> u8 \<times> u16 \<times> u8) list" where
  "desc_eps [] = []"
| "desc_eps (D_Endpoint a at s iv ex # ds) = (a, at, s, iv) # desc_eps ds"
| "desc_eps (_ # ds) = desc_eps ds"

definition host_node :: "'p host_ep \<Rightarrow> u8 \<Rightarrow> u8 \<times> u8 \<times> u16 \<times> u8 \<Rightarrow> 'p host_ep" where
  "host_node junk v = (\<lambda>(a, at, s, iv). ep_node junk v a at s iv)"

text \<open>A setting is put at the front of its interface, an interface at the front of the list; \<open>drv\<close> is the choice of drivers.\<close>

definition host_add :: "u8 \<Rightarrow> u8 \<Rightarrow> u8 \<Rightarrow> 'p host_ep list \<Rightarrow> 'p host_iface list \<Rightarrow> 'p host_iface list" where
  "host_add n alt v eps ifs =
     (case position (\<lambda>x. hi_interface x = n) ifs of
        Some k \<Rightarrow> ifs[k := add_setting alt eps (ifs ! k)]
      | None \<Rightarrow> add_setting alt eps (new_iface n v) # ifs)"

fun host_ifaces :: "'p host_ep \<Rightarrow> (u8 \<Rightarrow> u8 \<Rightarrow> u8 \<Rightarrow> u8 option) \<Rightarrow> usb_desc list \<Rightarrow> 'p host_iface list \<Rightarrow> 'p host_iface list" where
  "host_ifaces junk drv [] ifs = ifs"
| "host_ifaces junk drv (D_Interface n a k c s p # ds) ifs =
     host_ifaces junk drv ds (case drv c s p of None \<Rightarrow> ifs
       | Some v \<Rightarrow> host_add n a v (rev (map (host_node junk v) (take (unat k) (desc_eps ds)))) ifs)"
| "host_ifaces junk drv (_ # ds) ifs = host_ifaces junk drv ds ifs"

definition class_drv :: "usb_tpl list \<Rightarrow> u8 \<Rightarrow> u8 \<Rightarrow> u8 \<Rightarrow> u8 option" where
  "class_drv ts c s p = map_option tpl_ClientDriver (find (tpl_class_match c s p) ts)"

definition drv_of :: "'p usb_device_info \<Rightarrow> usb_tpl list \<Rightarrow> u8 \<Rightarrow> u8 \<Rightarrow> u8 \<Rightarrow> u8 option" where
  "drv_of d ts c s p = (if bfUseDeviceClientDriver d then Some (deviceClientDriver d) else class_drv ts c s p)"

subsection \<open>One descriptor\<close>

lemma desc_head:
  assumes "parse_descs bs = Some (d # ds)"
  obtains l t body where "bs = l # t # body" "2 \<le> unat l" "unat l \<le> length bs" "parse_desc (take (unat l) bs) = Some d"
    "parse_descs (drop (unat l) bs) = Some ds"
proof -
  from assms obtain xs where xs: "desc_split bs = Some xs" "those (map parse_desc xs) = Some (d # ds)"
    by (auto simp: parse_descs_def split: option.splits)
  then obtain x xs' where x: "xs = x # xs'" "parse_desc x = Some d" "those (map parse_desc xs') = Some ds"
    by (cases xs) (auto split: option.splits)
  from xs(1) x(1) obtain l bs' where b: "bs = l # bs'" by (cases bs) auto
  with xs(1) x(1) have a: "\<not> (unat l < 2 \<or> Suc (length bs') < unat l)" "x = take (unat l) bs"
    "desc_split (drop (unat l) bs) = Some xs'"
    by (auto split: if_splits)
  then obtain t body where "bs' = t # body" by (cases bs') auto
  then show ?thesis using that[of l t body] a b x by (auto simp: parse_descs_def)
qed

lemma desc_nil: "parse_descs bs = Some [] \<longleftrightarrow> bs = []"
  by (cases bs) (auto simp: parse_descs_def split: option.splits if_splits)

text \<open>The fields of the two kinds of descriptors the host reads, and the type byte of the others.\<close>

lemma iface_shape: "parse_desc x = Some (D_Interface n a k c s p) \<Longrightarrow> \<exists>l z. x = [l, 4, n, a, k, c, s, p, z]"
  by (induction x rule: parse_desc.induct) (auto split: if_splits list.splits)

lemma ep_shape:
  "parse_desc x = Some (D_Endpoint a at s iv ex) \<Longrightarrow>
     \<exists>l lo hi. x = l # 5 # a # at # lo # hi # iv # ex \<and> s = ucast lo OR push_bit 8 (ucast hi)"
  by (induction x rule: parse_desc.induct) (auto split: if_splits list.splits)

lemma other_shape:
  assumes "parse_desc x = Some d"
  shows "x ! 1 = (case d of D_Interface _ _ _ _ _ _ \<Rightarrow> 4 | D_Endpoint _ _ _ _ _ \<Rightarrow> 5 | D_Assoc _ _ _ _ _ \<Rightarrow> 0x0b | D_Class t _ \<Rightarrow> t)"
    "\<And>t b. d = D_Class t b \<Longrightarrow> t = 0x21 \<or> t = 0x24 \<or> t = 0x25"
  using assms by (induction x rule: parse_desc.induct) (auto split: if_splits list.splits)

lemma nth_of_take: "take m bs = x \<Longrightarrow> i < length x \<Longrightarrow> i < length bs \<and> bs ! i = x ! i"
  by auto

lemma u16_bytes_add: "ucast (lo :: u8) + push_bit 8 (ucast (hi :: u8)) = (ucast lo OR push_bit 8 (ucast hi) :: u16)"
proof (rule disjunctive_add)
  fix n
  show "\<not> bit (ucast lo :: u16) n \<or> \<not> bit (push_bit 8 (ucast hi :: u16)) n"
    by (auto simp: bit_simps dest: bit_imp_le_length)
qed

lemma step_index: "(of_nat k :: u16) + ucast (l :: u8) = of_nat (k + unat l)"
  by (simp add: unsigned_ucast_eq)

lemma drop_nth: "drop k b = x # y # z \<Longrightarrow> k + 1 < length b \<and> b ! k = x \<and> b ! (k + 1) = y"
  by (metis Cons_nth_drop_Suc Suc_eq_plus1 drop_eq_Nil2 list.distinct(1) list.inject not_less)

text \<open>The place \<open>k\<close> of the block, where the descriptors \<open>d # ds\<close> are still to be read.\<close>

lemma head_at:
  assumes "parse_descs (drop k b) = Some (d # ds)" "k \<le> length b"
  obtains l where "k + 1 < length b" "b ! k = l" "2 \<le> unat l" "k + unat l \<le> length b"
    "parse_desc (take (unat l) (drop k b)) = Some d" "parse_descs (drop (k + unat l) b) = Some ds"
    proof -
  from desc_head[OF assms(1)] obtain l t body where b: "drop k b = l # t # body" "2 \<le> unat l" "unat l \<le> length (drop k b)"
    "parse_desc (take (unat l) (drop k b)) = Some d" "parse_descs (drop (unat l) (drop k b)) = Some ds" by metis
  note n = drop_nth[OF b(1)]
  have le: "k + unat l \<le> length b" using b(3) assms(2) by simp
  have d: "parse_descs (drop (k + unat l) b) = Some ds" using b(5) by (simp add: add.commute)
  show ?thesis using n by (intro that[OF _ _ b(2) le b(4) d]) simp_all
qed

lemma field_at:
  assumes "take m (drop k b) = x" "i < length x"
  shows "k + i < length b" "b ! (k + i) = x ! i"
proof -
  have "i < length (drop k b) \<and> drop k b ! i = x ! i" by (rule nth_of_take[OF assms])
  then show "k + i < length b" "b ! (k + i) = x ! i" by auto
qed

subsection \<open>The endpoints of a setting\<close>

lemma eps_step:
  assumes "parse_descs (drop k b) = Some (d # ds)" "k \<le> length b" "length b < 65536" "cur < num"
  shows "d = D_Class t x \<Longrightarrow> \<exists>k'. k' \<le> length b \<and> parse_descs (drop k' b) = Some ds \<and>
      parse_eps b (of_nat (length b)) num v junk room (of_nat k) cur es =
      parse_eps b (of_nat (length b)) num v junk room (of_nat k') cur es"
    and "d = D_Endpoint a at sz iv ex \<Longrightarrow> 0 < room \<Longrightarrow> \<exists>k'. k' \<le> length b \<and> parse_descs (drop k' b) = Some ds \<and>
      parse_eps b (of_nat (length b)) num v junk room (of_nat k) cur es =
      parse_eps b (of_nat (length b)) num v junk (room - 1) (of_nat k') (cur + 1) (ep_node junk v a at sz iv # es)"
proof -
  from head_at[OF assms(1,2)] obtain l where H: "k + 1 < length b" "b ! k = l" "2 \<le> unat l" "k + unat l \<le> length b"
    "parse_desc (take (unat l) (drop k b)) = Some d" "parse_descs (drop (k + unat l) b) = Some ds" by blast
  have u: "unat (of_nat k :: u16) = k" "(of_nat k :: u16) < of_nat (length b)"
    using H(1) assms(3) by (simp_all add: unat_of_nat word_less_nat_alt)
  have l2: "1 < length (take (unat l) (drop k b))" using H(3,4) by simp
  note t = field_at[OF refl l2]
  { assume d: "d = D_Class t x"
    have "b ! (k + 1) \<noteq> 5" using t(2) other_shape[OF H(5)] d by auto
    then have "parse_eps b (of_nat (length b)) num v junk room (of_nat k) cur es =
        parse_eps b (of_nat (length b)) num v junk room (of_nat (k + unat l)) cur es"
      using assms(4) u H(1,2) by (subst parse_eps.simps) (simp add: Let_def step_index del: of_nat_add)
    then show "\<exists>k'. k' \<le> length b \<and> parse_descs (drop k' b) = Some ds \<and>
        parse_eps b (of_nat (length b)) num v junk room (of_nat k) cur es =
        parse_eps b (of_nat (length b)) num v junk room (of_nat k') cur es" using H(4,6) by blast }
  { assume d: "d = D_Endpoint a at sz iv ex" and room: "0 < room"
    from ep_shape[OF H(5)[unfolded d]] obtain l' lo hi where
      x: "take (unat l) (drop k b) = l' # 5 # a # at # lo # hi # iv # ex" and sz: "sz = ucast lo OR push_bit 8 (ucast hi)" by blast
    note F = field_at[OF x]
    have f: "b ! (k + 1) = 5" "b ! (k + 2) = a" "b ! (k + 3) = at" "b ! (k + 4) = lo" "b ! (k + 5) = hi" "b ! (k + 6) = iv"
      "k + 6 < length b"
      using F(2)[of 1] F(2)[of 2] F(2)[of 3] F(2)[of 4] F(2)[of 5] F(2)[of 6] F(1)[of 6] by simp_all
    have "parse_eps b (of_nat (length b)) num v junk room (of_nat k) cur es =
        parse_eps b (of_nat (length b)) num v junk (room - 1) (of_nat (k + unat l)) (cur + 1) (ep_node junk v a at sz iv # es)"
      using assms(4) u H(1,2) f room
      by (subst parse_eps.simps) (simp add: Let_def step_index u16_bytes_add sz del: of_nat_add)
    then show "\<exists>k'. k' \<le> length b \<and> parse_descs (drop k' b) = Some ds \<and>
        parse_eps b (of_nat (length b)) num v junk room (of_nat k) cur es =
        parse_eps b (of_nat (length b)) num v junk (room - 1) (of_nat k') (cur + 1) (ep_node junk v a at sz iv # es)"
      using H(4,6) by blast }
qed

lemma parse_eps_reads:
  assumes "length b < 65536" "parse_descs (drop k b) = Some ds" "k \<le> length b" "eps_counted j ds" "unat num = unat cur + j" "j \<le> room"
  shows "\<exists>k' ds'. parse_eps b (of_nat (length b)) num v junk room (of_nat k) cur es =
      Some (Inr (room - j, of_nat k', num, rev (map (host_node junk v) (take j (desc_eps ds))) @ es)) \<and>
    k' \<le> length b \<and> parse_descs (drop k' b) = Some ds' \<and> eps_counted 0 ds' \<and> length ds' + j \<le> length ds \<and>
    (\<forall>drv ifs. host_ifaces junk drv ds' ifs = host_ifaces junk drv ds ifs)"
  using assms(2-)
proof (induction ds arbitrary: k j cur room es)
  case Nil
  then have "k = length b" "j = 0" "cur = num" using desc_nil by (auto simp: word_unat_eq_iff)
  then show ?case using Nil by (subst parse_eps.simps) auto
next
  case (Cons d ds)
  show ?case
  proof (cases "j = 0")
    case True
    then have "cur = num" using Cons.prems(4) by (simp add: word_unat_eq_iff)
    then show ?thesis using True Cons.prems by (subst parse_eps.simps) auto
  next
    case False
    then have c: "cur < num" "unat (cur + 1) = unat cur + 1"
      using Cons.prems(4) unat_u8[of num] by (simp_all add: word_less_nat_alt) (simp add: unat_word_ariths)
    note S = eps_step[OF Cons.prems(1,2) assms(1) c(1), where v = v and junk = junk and room = room and es = es]
    show ?thesis
    proof (cases d)
      case (D_Endpoint a at sz iv ex)
      from S(2)[OF this] Cons.prems(5) False obtain k1 where K: "k1 \<le> length b" "parse_descs (drop k1 b) = Some ds"
        "parse_eps b (of_nat (length b)) num v junk room (of_nat k) cur es =
          parse_eps b (of_nat (length b)) num v junk (room - 1) (of_nat k1) (cur + 1) (ep_node junk v a at sz iv # es)" by auto
      have "eps_counted (j - 1) ds" "unat num = unat (cur + 1) + (j - 1)" "j - 1 \<le> room - 1"
        using Cons.prems False D_Endpoint c(2) by auto
      from Cons.IH[OF K(2,1) this, of "ep_node junk v a at sz iv # es"] obtain k' ds' where
        I: "parse_eps b (of_nat (length b)) num v junk (room - 1) (of_nat k1) (cur + 1) (ep_node junk v a at sz iv # es) =
          Some (Inr (room - 1 - (j - 1), of_nat k', num, rev (map (host_node junk v) (take (j - 1) (desc_eps ds))) @ ep_node junk v a at sz iv # es))"
        "k' \<le> length b" "parse_descs (drop k' b) = Some ds'" "eps_counted 0 ds'" "length ds' + (j - 1) \<le> length ds"
        "\<forall>drv ifs. host_ifaces junk drv ds' ifs = host_ifaces junk drv ds ifs" by blast
      have "take j (desc_eps (d # ds)) = (a, at, sz, iv) # take (j - 1) (desc_eps ds)"
        using False D_Endpoint by (cases j) auto
      moreover have "length ds' + j \<le> length (d # ds)" using I(5) False by simp
      moreover have "\<forall>drv ifs. host_ifaces junk drv ds' ifs = host_ifaces junk drv (d # ds) ifs" using I(6) D_Endpoint by simp
      moreover have "room - 1 - (j - 1) = room - j" using False Cons.prems(5) by simp
      ultimately show ?thesis using I(1-4) unfolding K(3) by (intro exI[of _ k'] exI[of _ ds']) (simp add: host_node_def)
    next
      case (D_Class t x)
      from S(1)[OF this] obtain k1 where K: "k1 \<le> length b" "parse_descs (drop k1 b) = Some ds"
        "parse_eps b (of_nat (length b)) num v junk room (of_nat k) cur es =
          parse_eps b (of_nat (length b)) num v junk room (of_nat k1) cur es" by auto
      have "eps_counted j ds" using Cons.prems(3) D_Class by simp
      from Cons.IH[OF K(2,1) this Cons.prems(4,5), of es] show ?thesis unfolding K(3) using D_Class by auto
    qed (use Cons.prems(3) False in auto)
  qed
qed

subsection \<open>The interfaces\<close>

lemma class_driver_found:
  "\<exists>cs. class_driver_from ts c s p h = (h\<lparr>host_calls := cs\<rparr>, class_drv ts c s p)"
proof (induction ts arbitrary: h)
  case Nil
  show ?case by (rule exI[of _ "host_calls h"]) (simp add: class_drv_def)
next
  case (Cons t ts)
  from Cons.IH[of h] show ?case by (auto simp: class_drv_def app_call_def)
qed

lemma iface_driver_found: "\<exists>cs. iface_driver c s p d h = (h\<lparr>host_calls := cs\<rparr>, drv_of d (usbTPL h) c s p)"
proof (cases "bfUseDeviceClientDriver d")
  case True
  then show ?thesis by (intro exI[of _ "host_calls h"]) (simp add: iface_driver_def drv_of_def)
next
  case False
  then show ?thesis using class_driver_found[of "usbTPL h" c s p h] by (simp add: iface_driver_def drv_of_def USB_FindClassDriver_def)
qed

lemma eps_counted_le: "eps_counted j ds \<Longrightarrow> j \<le> length ds"
  by (induction j ds rule: eps_counted.induct) auto

lemma parse_iface_reads:
  assumes b: "length b < 65536" and k: "k \<le> length b" and ds: "parse_descs (drop k b) = Some (D_Interface n a kk c s p # ds)"
    and cnt: "eps_counted (unat kk) ds" and room: "2 * Suc (length ds) \<le> room"
  shows "\<exists>room' k' ds'. parse_iface b (of_nat (length b)) junk v room (of_nat k) ifs = Some (Inr (Some (room', of_nat k',
      host_add n a v (rev (map (host_node junk v) (take (unat kk) (desc_eps ds)))) ifs))) \<and>
    k' \<le> length b \<and> parse_descs (drop k' b) = Some ds' \<and> eps_counted 0 ds' \<and> length ds' \<le> length ds \<and> 2 * length ds' \<le> room' \<and>
    (\<forall>drv ifs. host_ifaces junk drv ds' ifs = host_ifaces junk drv ds ifs)"
proof -
  from head_at[OF ds k] obtain l where H: "k + 1 < length b" "b ! k = l" "2 \<le> unat l" "k + unat l \<le> length b"
    "parse_desc (take (unat l) (drop k b)) = Some (D_Interface n a kk c s p)" "parse_descs (drop (k + unat l) b) = Some ds" by blast
  from iface_shape[OF H(5)] obtain l' z where x: "take (unat l) (drop k b) = [l', 4, n, a, kk, c, s, p, z]" by blast
  have u: "unat (of_nat k :: u16) = k" using H(1) b by (simp add: unat_of_nat)
  have f: "b ! (k + 2) = n" "b ! (k + 3) = a" "b ! (k + 4) = kk"
    using field_at(2)[OF x, of 2] field_at(2)[OF x, of 3] field_at(2)[OF x, of 4] by simp_all
  define pos where "pos = (case position (\<lambda>x. hi_interface x = n) ifs of Some k \<Rightarrow> (room, k, ifs) | None \<Rightarrow> (room - 1, 0, new_iface n v # ifs))"
  obtain r1 q ifs1 where pq: "pos = (r1, q, ifs1)" by (metis prod_cases3)
  have r1: "Suc (2 * length ds) \<le> r1" using pq room by (auto simp: pos_def split: option.splits)
  have p': "(case position (\<lambda>x. hi_interface x = n) ifs of Some k \<Rightarrow> Some (room, k, ifs)
      | None \<Rightarrow> if room = 0 then None else Some (room - 1, 0, new_iface n v # ifs)) = Some (r1, q, ifs1)"
    using pq room by (auto simp: pos_def split: option.splits)
  have j: "unat kk \<le> length ds \<Longrightarrow> unat kk \<le> r1 - 1" using r1 by simp
  have jl: "unat kk \<le> length ds" by (rule eps_counted_le[OF cnt])
  from parse_eps_reads[OF b H(6,4) cnt, of kk 0 "r1 - 1" v junk "[]"] j[OF jl] obtain k' ds' where
    E: "parse_eps b (of_nat (length b)) kk v junk (r1 - 1) (of_nat (k + unat l)) 0 [] =
      Some (Inr (r1 - 1 - unat kk, of_nat k', kk, rev (map (host_node junk v) (take (unat kk) (desc_eps ds)))))"
    "k' \<le> length b" "parse_descs (drop k' b) = Some ds'" "eps_counted 0 ds'" "length ds' + unat kk \<le> length ds"
    "\<forall>drv ifs. host_ifaces junk drv ds' ifs = host_ifaces junk drv ds ifs" by auto
  let ?eps = "rev (map (host_node junk v) (take (unat kk) (desc_eps ds)))"
  have add: "ifs1[q := add_setting a ?eps (ifs1 ! q)] = host_add n a v ?eps ifs"
    using pq by (auto simp: pos_def host_add_def split: option.splits)
  have "parse_iface b (of_nat (length b)) junk v room (of_nat k) ifs =
      Some (Inr (Some (r1 - 1 - unat kk, of_nat k', host_add n a v ?eps ifs)))"
    using r1 by (simp only: parse_iface_def Let_def u f p' H(2) step_index E(1) option.case sum.case prod.case add) simp
  moreover have "2 * length ds' \<le> r1 - 1 - unat kk" "length ds' \<le> length ds" using r1 E(5) by simp_all
  ultimately show ?thesis using E by blast
qed

lemma parse_loop_reads:
  assumes "length b < 65536" "parse_descs (drop k b) = Some ds" "k \<le> length b" "eps_counted j ds" "2 * length ds \<le> room"
  shows "\<exists>cs. parse_loop b (of_nat (length b)) junk room (of_nat k) ifs d h =
     Some (Inr (Some (host_ifaces junk (drv_of d (usbTPL h)) ds ifs), d, h\<lparr>host_calls := cs\<rparr>))"
  using assms(2-)
proof (induction "length ds" arbitrary: ds k j room ifs h rule: less_induct)
  case less
  show ?case
  proof (cases ds)
    case Nil
    then have "k = length b" using less.prems(1,2) desc_nil by auto
    then show ?thesis using Nil by (subst parse_loop.simps) (auto intro: exI[of _ "host_calls h"])
  next
    case (Cons x ds1)
    from head_at[OF less.prems(1)[unfolded Cons] less.prems(2)] obtain l where
      H: "k + 1 < length b" "b ! k = l" "2 \<le> unat l" "k + unat l \<le> length b"
      "parse_desc (take (unat l) (drop k b)) = Some x" "parse_descs (drop (k + unat l) b) = Some ds1" by blast
    have u: "unat (of_nat k :: u16) = k" "(of_nat k :: u16) < of_nat (length b)"
      using H(1) assms(1) by (simp_all add: unat_of_nat word_less_nat_alt)
    have l2: "1 < length (take (unat l) (drop k b))" using H(3,4) by simp
    note t = field_at[OF refl l2]
    have skip: "\<exists>j. eps_counted j ds1" using less.prems(3) Cons by (cases x) auto
    then obtain j1 where j1: "eps_counted j1 ds1" by blast
    have IH1: "\<exists>cs. parse_loop b (of_nat (length b)) junk room (of_nat (k + unat l)) ifs' d h' =
       Some (Inr (Some (host_ifaces junk (drv_of d (usbTPL h')) ds1 ifs'), d, h'\<lparr>host_calls := cs\<rparr>))" for ifs' h'
      using less.hyps[of ds1, OF _ H(6,4) j1] less.prems(4) Cons by simp
    show ?thesis
    proof (cases "\<exists>n a kk c s p. x = D_Interface n a kk c s p")
      case False
      then have ty: "b ! (k + 1) \<noteq> 4" "b ! (k + 1) \<noteq> 9" using t(2) other_shape[OF H(5)] by (cases x; auto)+
      have "parse_loop b (of_nat (length b)) junk room (of_nat k) ifs d h =
          parse_loop b (of_nat (length b)) junk room (of_nat (k + unat l)) ifs d h"
        using u H(1,2) ty by (subst parse_loop.simps) (simp add: Let_def step_index del: of_nat_add)
      moreover have "host_ifaces junk drv ds ifs = host_ifaces junk drv ds1 ifs" for drv using False Cons by (cases x) auto
      ultimately show ?thesis using IH1[of ifs h] by simp
    next
      case True
      then obtain n a kk c s p where x: "x = D_Interface n a kk c s p" by blast
      from iface_shape[OF H(5)[unfolded x]] obtain l' z where xs: "take (unat l) (drop k b) = [l', 4, n, a, kk, c, s, p, z]" by blast
      have f: "b ! (k + 1) = 4" "b ! (k + 5) = c" "b ! (k + 6) = s" "b ! (k + 7) = p" "k + 7 < length b"
        using field_at(2)[OF xs, of 1] field_at(2)[OF xs, of 5] field_at(2)[OF xs, of 6] field_at(2)[OF xs, of 7] field_at(1)[OF xs, of 7]
        by simp_all
      obtain cs where D: "iface_driver c s p d h = (h\<lparr>host_calls := cs\<rparr>, drv_of d (usbTPL h) c s p)"
        using iface_driver_found by blast
      show ?thesis
      proof (cases "drv_of d (usbTPL h) c s p")
        case None
        then have "parse_loop b (of_nat (length b)) junk room (of_nat k) ifs d h =
            parse_loop b (of_nat (length b)) junk room (of_nat (k + unat l)) ifs d (h\<lparr>host_calls := cs\<rparr>)"
          using u H(1,2) f D by (subst parse_loop.simps) (simp add: Let_def step_index del: of_nat_add)
        then show ?thesis using IH1[of ifs "h\<lparr>host_calls := cs\<rparr>"] None Cons x by auto
      next
        case (Some v)
        have cnt: "eps_counted (unat kk) ds1" using less.prems(3) Cons x by simp
        have room: "2 * Suc (length ds1) \<le> room" using less.prems(4) Cons by simp
        from parse_iface_reads[OF assms(1) less.prems(2) less.prems(1)[unfolded Cons x] cnt room, of junk v ifs]
        obtain room' k' ds' where I: "parse_iface b (of_nat (length b)) junk v room (of_nat k) ifs = Some (Inr (Some (room', of_nat k',
            host_add n a v (rev (map (host_node junk v) (take (unat kk) (desc_eps ds1)))) ifs)))"
          "k' \<le> length b" "parse_descs (drop k' b) = Some ds'" "eps_counted 0 ds'" "length ds' \<le> length ds1" "2 * length ds' \<le> room'"
          "\<forall>drv ifs. host_ifaces junk drv ds' ifs = host_ifaces junk drv ds1 ifs" by blast
        let ?ifs = "host_add n a v (rev (map (host_node junk v) (take (unat kk) (desc_eps ds1)))) ifs"
        have "parse_loop b (of_nat (length b)) junk room (of_nat k) ifs d h =
            parse_loop b (of_nat (length b)) junk room' (of_nat k') ?ifs d (h\<lparr>host_calls := cs\<rparr>)"
          using u H(1) f D Some I(1) by (subst parse_loop.simps) (simp add: Let_def)
        moreover have "length ds' < length ds" using I(5) Cons by simp
        ultimately show ?thesis
          using less.hyps[OF _ I(3,2,4,6), of ?ifs "h\<lparr>host_calls := cs\<rparr>"] I(7) Cons x Some by auto
      qed
    qed
  qed
qed

subsection \<open>The whole configuration\<close>

lemma total_length:
  assumes "unat (lo :: u8) + 256 * unat (hi :: u8) = n"
  shows "ucast lo + push_bit 8 (ucast hi) = (of_nat n :: u16)" "n < 65536"
proof -
  have "unat hi < 256" "unat lo < 256" by (rule unat_u8)+
  then show "n < 65536" using assms by simp
  have "(of_nat n :: u16) = of_nat (unat lo) + 256 * of_nat (unat hi)" by (simp add: assms[symmetric])
  moreover have "push_bit 8 x = 256 * x" for x :: u16 by (simp add: push_bit_eq_mult)
  ultimately show "ucast lo + push_bit 8 (ucast hi) = (of_nat n :: u16)" by simp
qed

lemma reads_configuration:
  fixes d :: "'p usb_device_info"
  assumes b: "pCurrentConfigurationDescriptor d = Some b" "usb_config_valid b" "parse_descs (drop 9 b) = Some ds"
    and d: "pInterfaceList d = []" and room: "2 * length ds \<le> room"
  shows "\<exists>cs d'. USB_ParseConfigurationDescriptor junk room d h =
      Some (Inr (d', h\<lparr>host_calls := cs\<rparr>, host_ifaces junk (drv_of d (usbTPL h)) ds [] \<noteq> [])) \<and>
    (host_ifaces junk (drv_of d (usbTPL h)) ds [] \<noteq> [] \<longrightarrow>
       pInterfaceList d' = host_ifaces junk (drv_of d (usbTPL h)) ds [] \<and> currentConfiguration d' = b ! 5)"
proof -
  have v: "9 \<le> length b" "b ! 0 = 9" "unat (b ! 2) + 256 * unat (b ! 3) = length b" "eps_counted 0 ds"
    using b(2,3) by (simp_all add: usb_config_valid_def)
  note T = total_length[OF v(3)]
  let ?d1 = "d\<lparr>bfSupportsOTG := False, bfConfiguredOTG := True\<rparr>"
  let ?h1 = "h\<lparr>host_calls := host_calls h @ [App_Call 255 EVENT_VBUS_REQUEST_POWER]\<rparr>"
  from parse_loop_reads[OF T(2) b(3) v(1,4) room, of junk "[]" ?d1 ?h1] obtain cs where
    L: "parse_loop b (of_nat (length b)) junk room 9 [] ?d1 ?h1 =
      Some (Inr (Some (host_ifaces junk (drv_of ?d1 (usbTPL h)) ds []), ?d1, h\<lparr>host_calls := cs\<rparr>))" by auto
  have dr: "drv_of ?d1 (usbTPL h) = drv_of d (usbTPL h)" by (simp add: drv_of_def fun_eq_iff)
  note E = USB_ParseConfigurationDescriptor_def Let_def app_call_def
  show ?thesis
  proof (cases "host_ifaces junk (drv_of d (usbTPL h)) ds [] = []")
    case True
    show ?thesis using True L dr b(1) v T(1) d by (intro exI[of _ cs] exI[of _ ?d1]) (simp add: E)
  next
    case False
    show ?thesis using False L dr b(1) v T(1) d
      by (intro exI[of _ cs] exI[of _ "?d1\<lparr>currentConfiguration := b ! 5, currentConfigurationPower := ucast (b ! 8),
            pInterfaceList := host_ifaces junk (drv_of d (usbTPL h)) ds []\<rparr>"]) (simp add: E)
  qed
qed

text \<open>(C29) On every valid configuration the host's parser returns, reads nothing outside the descriptor, and finds exactly the
  interfaces it has a driver for, each with its settings and the endpoints that follow it; it accepts the configuration if there is
  such an interface.\<close>
theorem host_reads_configuration:
  fixes d :: "'p usb_device_info"
  assumes "pCurrentConfigurationDescriptor d = Some b" "usb_config_valid b" "parse_descs (drop 9 b) = Some ds"
    and "pInterfaceList d = []" and "2 * length ds \<le> room"
  shows "\<exists>cs d'. USB_ParseConfigurationDescriptor junk room d h =
      Some (Inr (d', h\<lparr>host_calls := cs\<rparr>, host_ifaces junk (drv_of d (usbTPL h)) ds [] \<noteq> [])) \<and>
    (host_ifaces junk (drv_of d (usbTPL h)) ds [] \<noteq> [] \<longrightarrow>
       pInterfaceList d' = host_ifaces junk (drv_of d (usbTPL h)) ds [] \<and> currentConfiguration d' = b ! 5)"
  by (rule reads_configuration[OF assms])

subsection \<open>The devices of this repository\<close>

definition has_setting :: "'p host_iface list \<Rightarrow> u8 \<Rightarrow> u8 \<Rightarrow> nat \<Rightarrow> bool" where
  "has_setting ifs n alt m \<longleftrightarrow>
     (\<exists>i \<in> set ifs. hi_interface i = n \<and> (\<exists>s \<in> set (pInterfaceSettings i). interfaceAltSetting s = alt \<and> length (pEndpointList s) = m))"

lemma position_Some: "position P xs = Some k \<Longrightarrow> k < length xs \<and> P (xs ! k)"
  by (induction xs arbitrary: k) (auto split: if_splits)

lemma has_settingI:
  "i \<in> set ifs \<Longrightarrow> hi_interface i = n \<Longrightarrow> s \<in> set (pInterfaceSettings i) \<Longrightarrow> interfaceAltSetting s = alt \<Longrightarrow>
     length (pEndpointList s) = m \<Longrightarrow> has_setting ifs n alt m"
  by (auto simp: has_setting_def)

lemma add_setting_simps [simp]:
  "hi_interface (add_setting alt eps i) = hi_interface i"
  "pInterfaceSettings (add_setting alt eps i) = \<lparr>interfaceAltSetting = alt, pEndpointList = eps\<rparr> # pInterfaceSettings i"
  by (simp_all add: add_setting_def)

lemma host_add_has: "has_setting (host_add n alt v eps ifs) n alt (length eps)"
  "has_setting ifs n' alt' m \<Longrightarrow> has_setting (host_add n alt v eps ifs) n' alt' m"
proof -
  show "has_setting (host_add n alt v eps ifs) n alt (length eps)"
  proof (cases "position (\<lambda>x. hi_interface x = n) ifs")
    case None
    then show ?thesis by (simp add: host_add_def has_setting_def add_setting_def new_iface_def)
  next
    case (Some k)
    note K = position_Some[OF Some]
    have "add_setting alt eps (ifs ! k) \<in> set (ifs[k := add_setting alt eps (ifs ! k)])" using K by (simp add: set_update_memI)
    then have "has_setting (ifs[k := add_setting alt eps (ifs ! k)]) n alt (length eps)"
      by (rule has_settingI[where s = "\<lparr>interfaceAltSetting = alt, pEndpointList = eps\<rparr>"]) (use K in simp_all)
    then show ?thesis using Some by (simp add: host_add_def)
  qed
  assume "has_setting ifs n' alt' m"
  then obtain i s where i: "i \<in> set ifs" "hi_interface i = n'" "s \<in> set (pInterfaceSettings i)" "interfaceAltSetting s = alt'"
    "length (pEndpointList s) = m" by (auto simp: has_setting_def)
  show "has_setting (host_add n alt v eps ifs) n' alt' m"
  proof (cases "position (\<lambda>x. hi_interface x = n) ifs")
    case None
    then show ?thesis using i by (auto simp: host_add_def has_setting_def)
  next
    case (Some k)
    from i(1) obtain q where q: "q < length ifs" "ifs ! q = i" by (auto simp: in_set_conv_nth)
    let ?l = "ifs[k := add_setting alt eps (ifs ! k)]"
    have "?l ! q \<in> set ?l" using q by simp
    moreover have "hi_interface (?l ! q) = n'" "s \<in> set (pInterfaceSettings (?l ! q))"
      using q i position_Some[OF Some] by (cases "q = k"; simp add: add_setting_def)+
    ultimately have "has_setting ?l n' alt' m" by (rule has_settingI[OF _ _ _ i(4,5)])
    then show ?thesis using Some by (simp add: host_add_def)
  qed
qed

lemma host_ifaces_keep: "has_setting ifs n alt m \<Longrightarrow> has_setting (host_ifaces junk drv ds ifs) n alt m"
  by (induction junk drv ds ifs rule: host_ifaces.induct) (auto split: option.splits simp: host_add_has(2))

lemma counted_eps: "eps_counted j ds \<Longrightarrow> j \<le> length (desc_eps ds)"
  by (induction j ds rule: eps_counted.induct) auto

lemma host_ifaces_has:
  "eps_counted j ds \<Longrightarrow> D_Interface n a k c s p \<in> set ds \<Longrightarrow> drv c s p \<noteq> None \<Longrightarrow> has_setting (host_ifaces junk drv ds ifs) n a (unat k)"
proof (induction ds arbitrary: j ifs)
  case (Cons x ds)
  from Cons.prems(1) obtain j' where j': "eps_counted j' ds" by (cases x) auto
  show ?case
  proof (cases "x = D_Interface n a k c s p")
    case True
    from Cons.prems(3) obtain v where v: "drv c s p = Some v" by auto
    have "unat k \<le> length (desc_eps ds)" using Cons.prems(1) True counted_eps by auto
    then have "has_setting (host_add n a v (rev (map (host_node junk v) (take (unat k) (desc_eps ds)))) ifs) n a (unat k)"
      using host_add_has(1)[of n a v "rev (map (host_node junk v) (take (unat k) (desc_eps ds)))" ifs] by (simp add: min_absorb2)
    then show ?thesis using True v host_ifaces_keep by simp
  next
    case False
    then have "D_Interface n a k c s p \<in> set ds" using Cons.prems(2) by auto
    then show ?thesis using Cons.IH[OF j' _ Cons.prems(3)] by (cases x) auto
  qed
qed simp

text \<open>(C30) A host of this repository reads the configurations a device of this repository builds: whatever functions are
  registered, as long as they need at most 15 endpoint numbers and the first allocations of the host, two for each descriptor,
  succeed, for each interface setting whose class the host has a driver for it has a node with as many endpoints as the
  setting announces, and it accepts the configuration as soon as there is one.\<close>
theorem host_reads_own_device:
  fixes d :: "'p usb_device_info"
  assumes "n_eps fs \<le> 15" and "pCurrentConfigurationDescriptor d = USB_CD_Ptr (usb_configured vid pid m p s fs)"
    and "pInterfaceList d = []" and "2 * length (all_descs fs 0 1 4) \<le> room"
    and "D_Interface n a k c sc pr \<in> set (all_descs fs 0 1 4)" and "drv_of d (usbTPL h) c sc pr \<noteq> None"
  shows "\<exists>d' h'. USB_ParseConfigurationDescriptor junk room d h = Some (Inr (d', h', True)) \<and>
    has_setting (pInterfaceList d') n a (unat k) \<and> currentConfiguration d' = 1"
proof -
  from configured_raw[OF assms(1), of vid pid m p s] obtain lo hi bs where
    r: "raw (usb_configured vid pid m p s fs) = [9, 2, lo, hi, of_nat (n_ifaces fs), 1, 0, 0xC0, 50] @ bs"
    and P: "parse_descs bs = Some (all_descs fs 0 1 4)"
    and cd: "USB_CD_Ptr (usb_configured vid pid m p s fs) = Some (raw (usb_configured vid pid m p s fs))" by blast
  let ?b = "raw (usb_configured vid pid m p s fs)"
  have b: "pCurrentConfigurationDescriptor d = Some ?b" "parse_descs (drop 9 ?b) = Some (all_descs fs 0 1 4)" "?b ! 5 = 1"
    using assms(2) cd P by (simp_all add: r)
  have H: "has_setting (host_ifaces junk (drv_of d (usbTPL h)) (all_descs fs 0 1 4) []) n a (unat k)"
    by (rule host_ifaces_has[where j = 0 and c = c and s = sc and p = pr]) (use assms all_counted in auto)
  then have ne: "host_ifaces junk (drv_of d (usbTPL h)) (all_descs fs 0 1 4) [] \<noteq> []" by (auto simp: has_setting_def)
  let ?ifs = "host_ifaces junk (drv_of d (usbTPL h)) (all_descs fs 0 1 4) []"
  obtain cs d' where R: "USB_ParseConfigurationDescriptor junk room d h = Some (Inr (d', h\<lparr>host_calls := cs\<rparr>, ?ifs \<noteq> []))"
    "?ifs \<noteq> [] \<longrightarrow> pInterfaceList d' = ?ifs \<and> currentConfiguration d' = ?b ! 5"
    using reads_configuration[OF b(1) configuration_valid(2)[OF assms(1)] b(2) assms(3,4), of junk h] by blast
  have "(?ifs \<noteq> []) = True" using ne by simp
  with R(1) have "USB_ParseConfigurationDescriptor junk room d h = Some (Inr (d', h\<lparr>host_calls := cs\<rparr>, True))" by (simp only:)
  with R(2)[rule_format, OF ne] H b(3) show ?thesis by (intro exI[of _ d'] exI[of _ "h\<lparr>host_calls := cs\<rparr>"]) simp
qed

definition demo_config :: "u8 list" where
  "demo_config = [9, 2, 25, 0, 1, 1, 0, 0xC0, 50, 9, 4, 0, 0, 1, 3, 1, 1, 0, 7, 5, 0x81, 3, 8, 0, 10]"

definition demo_host :: "unit usb_host" where
  "demo_host = host_zero\<lparr>usbDeviceInfo := [device_zero, device_zero],
     usbTPL := [\<lparr>tpl_device = 0x00010103, tpl_bConfiguration = 0, tpl_ClientDriver = 0, tpl_flags = 2\<rparr>]\<rparr>"

theorem host_reads_configuration_witness:
  "\<exists>cs d'. USB_ParseConfigurationDescriptor host_ep_zero 4 (device_zero\<lparr>pCurrentConfigurationDescriptor := Some demo_config\<rparr>) demo_host =
     Some (Inr (d', demo_host\<lparr>host_calls := cs\<rparr>, True))"
proof -
  let ?ds = "[D_Interface 0 0 1 3 1 1, D_Endpoint 0x81 3 8 10 []]"
  let ?d = "device_zero\<lparr>pCurrentConfigurationDescriptor := Some demo_config\<rparr> :: unit usb_device_info"
  have p: "parse_descs (drop 9 demo_config) = Some ?ds"
    by code_simp
  have v: "usb_config_valid demo_config"
    unfolding usb_config_valid_def p by (simp add: demo_config_def ep_number_def)
  have drv: "drv_of ?d (usbTPL demo_host) 3 1 1 = Some 0"
    by (simp add: drv_of_def class_drv_def demo_host_def tpl_class_match_def tpl_byte_def device_zero_def)
  have "host_ifaces host_ep_zero (drv_of ?d (usbTPL demo_host)) ?ds [] \<noteq> []"
    by (simp add: drv host_add_def)
  with host_reads_configuration[of ?d demo_config ?ds 4 host_ep_zero demo_host] p v show ?thesis
    by (auto simp: device_zero_def)
qed

theorem host_reads_own_device_witness:
  "\<exists>d' h'. USB_ParseConfigurationDescriptor host_ep_zero 20
     (device_zero\<lparr>pCurrentConfigurationDescriptor := USB_CD_Ptr (usb_configured 1 2 [] [] [] [Fn_MSD 1, Fn_HID 1 8 63])\<rparr>) demo_host =
     Some (Inr (d', h', True)) \<and> has_setting (pInterfaceList d') 1 0 2"
proof -
  let ?d = "device_zero\<lparr>pCurrentConfigurationDescriptor := USB_CD_Ptr (usb_configured 1 2 [] [] [] [Fn_MSD 1, Fn_HID 1 8 63])\<rparr> :: unit usb_device_info"
  have drv: "drv_of ?d (usbTPL demo_host) 3 1 1 \<noteq> None"
    by (simp add: drv_of_def class_drv_def demo_host_def tpl_class_match_def tpl_byte_def device_zero_def)
  show ?thesis
    using host_reads_own_device[of "[Fn_MSD 1, Fn_HID 1 8 63]" ?d 1 2 "[]" "[]" "[]" 20 1 0 2 3 1 1 demo_host host_ep_zero] drv
    by (auto simp: n_eps_def device_zero_def)
qed

subsection \<open>A descriptor of length 0\<close>

lemma loop_stuck:
  "parse_loop b tot junk room index ifs d h = Some y \<Longrightarrow>
   index < tot \<longrightarrow> unat index + 1 < length b \<longrightarrow> b ! unat index = 0 \<longrightarrow> b ! (unat index + 1) \<noteq> 4 \<longrightarrow> b ! (unat index + 1) \<noteq> 9 \<longrightarrow> False"
  by (erule parse_loop.raw_induct [where P = "\<lambda>b tot junk room index ifs d h y. index < tot \<longrightarrow> unat index + 1 < length b \<longrightarrow>
        b ! unat index = 0 \<longrightarrow> b ! (unat index + 1) \<noteq> 4 \<longrightarrow> b ! (unat index + 1) \<noteq> 9 \<longrightarrow> False", rotated])
    (auto simp: Let_def split: if_splits)

text \<open>A device can stop the host: the parser does not return on a configuration whose first descriptor after the header has
  length 0 (and is neither an interface nor an OTG descriptor).\<close>
theorem host_parse_hangs:
  assumes "pCurrentConfigurationDescriptor d = Some b" "11 \<le> length b" "b ! 0 = 9" "b ! 9 = 0" "b ! 10 \<noteq> 4" "b ! 10 \<noteq> 9"
    and "9 < (ucast (b ! 2) + push_bit 8 (ucast (b ! 3)) :: u16)"
  shows "USB_ParseConfigurationDescriptor junk room d h = None"
proof -
  have "parse_loop b (ucast (b ! 2) + push_bit 8 (ucast (b ! 3))) junk room 9 ifs d' h' = None" for ifs d' h'
    using loop_stuck[of b "ucast (b ! 2) + push_bit 8 (ucast (b ! 3))" junk room 9 ifs d' h'] assms by (cases "parse_loop b (ucast (b ! 2) + push_bit 8 (ucast (b ! 3))) junk room 9 ifs d' h'") auto
  then show ?thesis using assms by (simp add: USB_ParseConfigurationDescriptor_def Let_def app_call_def)
qed

theorem host_parse_hangs_witness:
  "USB_ParseConfigurationDescriptor host_ep_zero 4
     (device_zero\<lparr>pCurrentConfigurationDescriptor := Some [9, 2, 11, 0, 1, 1, 0, 0xC0, 50, 0, 0x24]\<rparr>) demo_host = None"
proof (rule host_parse_hangs[where b = "[9, 2, 11, 0, 1, 1, 0, 0xC0, 50, 0, 0x24]"])
  show "9 < (ucast ([9, 2, 11, 0, 1, 1, 0, 0xC0, 50, 0, 0x24] ! 2 :: u8) +
      push_bit 8 (ucast ([9, 2, 11, 0, 1, 1, 0, 0xC0, 50, 0, 0x24] ! 3 :: u8)) :: u16)" by code_simp
qed (code_simp)+

end
