(* ===== verification/USB_Host_Requests.thy ===== *)
theory USB_Host_Requests
  imports USB_Host_Drivers USB_Control
begin

section \<open>Properties of the host stack: requests and the choice of the endpoint\<close>

text \<open>
  What a client driver can rely on: a request it has issued is the one the device reads and stays the only one of its device until
  it is complete or ended. The search for a bulk endpoint takes the due endpoints in the order of the interfaces.
\<close>

subsection \<open>Slots\<close>

lemma host_slot_there [simp]: "n < length (usbDeviceInfo h) \<Longrightarrow> host_slot n h = h"
  by (simp add: host_slot_def)

lemma host_slot_length: "n < length (usbDeviceInfo (host_slot n h))"
  by (simp add: host_slot_def)

lemma slot_get: "USBHostGetDeviceInfoBySlotIndex a h = (g, d) \<Longrightarrow> unat a < length (usbDeviceInfo g) \<and> d = usbDeviceInfo g ! unat a"
  using host_slot_length[of "unat a" h] by (auto simp: USBHostGetDeviceInfoBySlotIndex_def Let_def)

lemma slot_of: "unat a < length (usbDeviceInfo h) \<Longrightarrow> USBHostGetDeviceInfoBySlotIndex a h = (h, usbDeviceInfo h ! unat a)"
  by (simp add: USBHostGetDeviceInfoBySlotIndex_def Let_def)

lemma slot_upd:
  "unat a < length (usbDeviceInfo h) \<Longrightarrow>
     USBHostGetDeviceInfoBySlotIndex a (dev_upd a f h) = (dev_upd a f h, f (usbDeviceInfo h ! unat a))"
  by (simp add: USBHostGetDeviceInfoBySlotIndex_def dev_upd_def Let_def)

subsection \<open>Endpoint 0 of a device\<close>

lemma set_interface_fields [simp]:
  assumes "set_interface i v d = Some d1"
  shows "deviceAddress d1 = deviceAddress d" "usbHostState d1 = usbHostState d" "pEndpoint0 d1 = pEndpoint0 d" "pEP0Data d1 = pEP0Data d"
  using assms by (auto simp: set_interface_def Let_def split: option.splits if_splits)

lemma ep_set_fields [simp]:
  "deviceAddress (ep_set r f d) = deviceAddress d" "usbHostState (ep_set r f d) = usbHostState d" "pEP0Data (ep_set r f d) = pEP0Data d"
  by (cases r; simp)+

lemma find_in_ifaces_at: "find_in_ifaces a n is = Some r \<Longrightarrow> pEndpoint0 (ep_set r f d) = pEndpoint0 d"
  by (induction "is" arbitrary: n) (auto split: option.splits)

lemma find_endpoint_at: "USB_FindEndpoint d x = Some r \<Longrightarrow> x \<noteq> 0 \<Longrightarrow> pEndpoint0 (ep_set r f d) = pEndpoint0 d"
  by (simp add: USB_FindEndpoint_def find_in_ifaces_at)

lemma reset_data0_fields [simp]:
  "deviceAddress (USB_ResetDATA0 x d) = deviceAddress d" "usbHostState (USB_ResetDATA0 x d) = usbHostState d"
  "pEP0Data (USB_ResetDATA0 x d) = pEP0Data d" "pEndpoint0 (USB_ResetDATA0 x d) = pEndpoint0 d"
  by (simp_all add: USB_ResetDATA0_def map_eps_def find_endpoint_at split: option.split)

lemma request_accepted:
  assumes "USBHostIssueDeviceRequest a rt rq v i n data get drv h = Some (h', USB_SUCCESS)"
  shows "\<exists>d e. USBHostGetDeviceInfoBySlotIndex a h' = (h', d) \<and> deviceAddress d = a \<and> usbHostState d AND STATE_MASK = STATE_RUNNING \<and>
     (\<exists>q. pEP0Data d = Some (setup_bytes rt rq v i n @ q)) \<and> pEndpoint0 d = Some e \<and> he_clientDriver e = drv \<and> dataCountMax e = ucast n \<and>
     dataCount e = 0 \<and> pUserData e = data \<and> \<not> bfTransferComplete e \<and> \<not> bfTransferSuccessful e \<and> \<not> bfStalled e \<and> \<not> bfError e"
proof -
  obtain g d where G: "USBHostGetDeviceInfoBySlotIndex a h = (g, d)" by force
  note S = slot_get[OF G]
  show ?thesis
    using assms S unfolding USBHostIssueDeviceRequest_def G
    by (auto simp: Let_def slot_upd USB_InitControlRead_def USB_InitControlWrite_def split: if_splits option.splits)
qed

lemma le_word2: "le_word [ucast (x AND 0xFF), ucast (drop_bit 8 x AND 0xFF)] = x" for x :: u16
proof -
  have "(0xFF :: u16) = mask 8" by (simp add: mask_eq_exp_minus_1)
  show ?thesis unfolding \<open>0xFF = mask 8\<close> by (intro bit_word_eqI) (auto simp: bit_simps)
qed

lemma setup_fields_back:
  "setup_of_bytes (setup_bytes rt rq v i n @ q) =
     \<lparr>st_Recipient = rt AND 0x1F, st_RequestType = drop_bit 5 rt AND 3, st_DataDir = bit rt 7, st_bRequest = rq, st_wValue = v,
      st_wIndex = i, st_wLength = n\<rparr>"
proof -
  have "setup_of_bytes ([a, b, c, d, e, f, g, k] @ q) = \<lparr>st_Recipient = a AND 0x1F, st_RequestType = drop_bit 5 a AND 3, st_DataDir = bit a 7,
      st_bRequest = b, st_wValue = le_word [c, d], st_wIndex = le_word [e, f], st_wLength = le_word [g, k]\<rparr>" for a b c d e f g k
    by (simp add: setup_of_bytes_def)
  then show ?thesis unfolding setup_bytes_def by (simp only: le_word2)
qed

subsection \<open>Bulk transfers\<close>

text \<open>The endpoints a bulk transaction is due for, in the order of the search.\<close>

definition bulk_ep_due :: "'p usb_device_info \<Rightarrow> ep_ref \<Rightarrow> bool" where
  "bulk_ep_due d r \<longleftrightarrow> bfTransferType (he_bmAttributes (ep_at r d)) = Bulk_Ep \<and> \<not> bfTransferComplete (ep_at r d) \<and>
     \<not> bfLastTransferNAKd (ep_at r d)"

definition bulk_due :: "'p usb_device_info \<Rightarrow> ep_ref list" where
  "bulk_due d = filter (bulk_ep_due d) (service_refs d)"

lemma bulk_scan:
  assumes "unat cnt + length rs < 256" "cnt \<le> lst"
  shows "service_scan Bulk_Ep rs d cnt lst =
    (let due = filter (bulk_ep_due d) rs
     in if unat lst < unat cnt + length due
        then (d\<lparr>pCurrentEndpoint := Some (due ! (unat lst - unat cnt))\<rparr>, lst + 1, lst + 1, True)
        else (d, cnt + of_nat (length due), lst, False))"
  using assms
proof (induction rs arbitrary: cnt)
  case Nil
  then show ?case by (auto simp: word_le_nat_alt)
next
  case (Cons r rs)
  have c: "unat (cnt + 1) = unat cnt + 1" using Cons.prems(1) by (simp add: unat_word_ariths)
  show ?case
  proof (cases "lst = cnt")
    case True
    then have "cnt + 1 > lst" using c by (simp add: word_less_nat_alt)
    with True Cons.IH[of cnt] Cons.prems show ?thesis by (auto simp: Let_def bulk_ep_due_def)
  next
    case False
    then have "unat lst \<noteq> unat cnt" by (simp add: word_unat_eq_iff)
    then have l: "\<not> cnt + 1 > lst" "cnt + 1 \<le> lst" "unat cnt < unat lst"
      using Cons.prems(2) c by (simp_all add: word_less_nat_alt word_le_nat_alt)
    have "unat (cnt + 1) + length rs < 256" using Cons.prems(1) c by simp
    note IH = Cons.IH[OF this l(2)]
    have n: "unat lst - unat cnt = Suc (unat lst - unat (cnt + 1))" using l(3) c by simp
    show ?thesis
    proof (cases "bulk_ep_due d r")
      case True
      then have "service_scan Bulk_Ep (r # rs) d cnt lst = service_scan Bulk_Ep rs d (cnt + 1) lst"
        using l(1) by (simp add: Let_def bulk_ep_due_def)
      then show ?thesis unfolding IH using True by (simp add: n c Let_def add.assoc)
    next
      case False
      then have "service_scan Bulk_Ep (r # rs) d cnt lst = service_scan Bulk_Ep rs d cnt lst"
        by (auto simp: Let_def bulk_ep_due_def)
      then show ?thesis using False Cons.IH[of cnt] Cons.prems by simp
    qed
  qed
qed

lemma due_current [simp]: "bulk_due (d\<lparr>pCurrentEndpoint := x\<rparr>) = bulk_due d" "service_refs (d\<lparr>pCurrentEndpoint := x\<rparr>) = service_refs d"
proof -
  have "ep_at r (d\<lparr>pCurrentEndpoint := x\<rparr>) = ep_at r d" for r by (cases r) simp_all
  then have "bulk_ep_due (d\<lparr>pCurrentEndpoint := x\<rparr>) = bulk_ep_due d" by (simp add: fun_eq_iff bulk_ep_due_def)
  then show "bulk_due (d\<lparr>pCurrentEndpoint := x\<rparr>) = bulk_due d" "service_refs (d\<lparr>pCurrentEndpoint := x\<rparr>) = service_refs d"
    by (simp_all add: bulk_due_def service_refs_def)
qed

subsection \<open>The properties\<close>

text \<open>(C31) A request a client has issued is the one on the wire: the eight bytes of the setup packet, read the way the device stack
  reads them, give back every field of the call; the transfer waits for its data stage with the client as its owner, the
  device counts as busy (the next request is refused and changes nothing) until the transfer is complete or the client ends it.\<close>
theorem host_request_delivered:
  assumes "USBHostIssueDeviceRequest a rt rq v i n data get drv h = Some (h', USB_SUCCESS)"
  shows "(\<exists>d e p. USBHostGetDeviceInfoBySlotIndex a h' = (h', d) \<and> pEP0Data d = Some p \<and> pEndpoint0 d = Some e \<and>
      setup_of_bytes p = \<lparr>st_Recipient = rt AND 0x1F, st_RequestType = drop_bit 5 rt AND 3, st_DataDir = bit rt 7, st_bRequest = rq,
        st_wValue = v, st_wIndex = i, st_wLength = n\<rparr> \<and>
      he_clientDriver e = drv \<and> pUserData e = data \<and> dataCount e = 0 \<and> dataCountMax e = ucast n) \<and>
    USBHostTransferIsComplete a 0 h' = (h', False, USB_ENDPOINT_UNRESOLVED_STATE, None) \<and>
    USBHostIssueDeviceRequest a rt' rq' v' i' n' data' get' drv' h' = Some (h', USB_ENDPOINT_BUSY) \<and>
    fst (snd (USBHostTransferIsComplete a 0 (USBHostTerminateTransfer a 0 h')))"
proof -
  from request_accepted[OF assms] obtain d e where R: "USBHostGetDeviceInfoBySlotIndex a h' = (h', d)" "deviceAddress d = a"
    "usbHostState d AND STATE_MASK = STATE_RUNNING" "\<exists>q. pEP0Data d = Some (setup_bytes rt rq v i n @ q)" "pEndpoint0 d = Some e"
    "he_clientDriver e = drv" "dataCountMax e = ucast n" "dataCount e = 0" "pUserData e = data" "\<not> bfTransferComplete e"
    "\<not> bfTransferSuccessful e" "\<not> bfStalled e" "\<not> bfError e" by blast
  have f: "USB_FindEndpoint d 0 = Some Ep0" using R(5) by (simp add: USB_FindEndpoint_def)
  have T: "USBHostTransferIsComplete a 0 h' = (h', False, USB_ENDPOINT_UNRESOLVED_STATE, None)"
    unfolding USBHostTransferIsComplete_def R(1) using R f by (simp add: Let_def)
  have I: "USBHostIssueDeviceRequest a rt' rq' v' i' n' data' get' drv' h' = Some (h', USB_ENDPOINT_BUSY)"
    unfolding USBHostIssueDeviceRequest_def R(1) using R by simp
  have "USBHostTerminateTransfer a 0 h' = dev_upd a (ep_set Ep0 (\<lambda>e. e\<lparr>bfUserAbort := True, bfTransferComplete := True\<rparr>)) h'"
    unfolding USBHostTerminateTransfer_def R(1) using R f by simp
  then have "fst (snd (USBHostTransferIsComplete a 0 (USBHostTerminateTransfer a 0 h')))"
    using slot_get[OF R(1)] R by (simp add: USBHostTransferIsComplete_def slot_upd USB_FindEndpoint_def Let_def)
  with T I R setup_fields_back[of rt rq v i n] show ?thesis by metis
qed

definition demo_bulk_ep :: "u8 \<Rightarrow> unit host_ep" where
  "demo_bulk_ep a = host_ep_zero\<lparr>he_bEndpointAddress := a, he_bmAttributes := 2\<rparr>"

text \<open>A running device in slot 1 with two bulk endpoints, endpoint 0 free.\<close>

definition demo_stick :: "unit usb_device_info" where
  "demo_stick = device_zero\<lparr>deviceAddress := 1, usbHostState := STATE_RUNNING, pEP0Data := Some [0, 0, 0, 0, 0, 0, 0, 0],
     pEndpoint0 := Some (host_ep_zero\<lparr>bfTransferComplete := True\<rparr>),
     pInterfaceList := [\<lparr>hi_interface = 0, hi_clientDriver = 0, pInterfaceSettings =
       [\<lparr>interfaceAltSetting = 0, pEndpointList = [demo_bulk_ep 0x81, demo_bulk_ep 0x02]\<rparr>], pCurrentSetting = Some 0\<rparr>]\<rparr>"

definition demo_bus :: "unit usb_host" where
  "demo_bus = host_zero\<lparr>usbDeviceInfo := [device_zero, demo_stick]\<rparr>"

theorem host_request_delivered_witness:
  "\<exists>h'. USBHostIssueDeviceRequest 1 0x21 0x20 0 0 7 (User_Data ()) False 3 demo_bus = Some (h', USB_SUCCESS) \<and>
     USBHostIssueDeviceRequest 1 0x80 6 0x100 0 18 (User_Data ()) True 4 h' = Some (h', USB_ENDPOINT_BUSY)"
proof -
  have "\<exists>h'. USBHostIssueDeviceRequest 1 0x21 0x20 0 0 7 (User_Data ()) False 3 demo_bus = Some (h', USB_SUCCESS)"
    by (simp add: USBHostIssueDeviceRequest_def slot_of demo_bus_def host_zero_def demo_stick_def Let_def)
  then obtain h' where h: "USBHostIssueDeviceRequest 1 0x21 0x20 0 0 7 (User_Data ()) False 3 demo_bus = Some (h', USB_SUCCESS)" ..
  from host_request_delivered[OF h, where rt' = "0x80" and rq' = 6 and v' = "0x100" and i' = 0 and n' = 18 and
    data' = "User_Data ()" and get' = True and drv' = 4] h show ?thesis by blast
qed

end
