(* ===== verification/USB_Host_Tasks.thy ===== *)
theory USB_Host_Tasks
  imports USB_Host_Parse
begin

section \<open>The USB host stack: the state machine of a device\<close>

text \<open>
  Models \<^verbatim>\<open>USBHostTasks\<close>: from the attachment of a device over its reset, descriptors, address and configuration to the
  state in which client drivers use it, with the retries and the hold state for devices that cannot be served. One call runs
  one step of every enabled slot. A step is a function per state and substate.

  \<open>host_env\<close> is what the steps take from elsewhere: the results of the allocations, with the old content of the memory, and the
  initialisation callbacks of the client drivers, which may change the host. The callbacks do not change the number of slots
  while the loop over the slots runs. The address of the buffer descriptors (\<^verbatim>\<open>U1BDTP1\<close>) is left out. The bits \<^verbatim>\<open>JSTATE\<close>
  and \<^verbatim>\<open>SE0\<close> of \<^verbatim>\<open>U1CON\<close> belong to the hardware: a write keeps them. An access behind a buffer or through a null pointer is a
  \<open>host_fault\<close>.
\<close>

record 'p host_env =
  env_bytes :: "nat \<Rightarrow> u8 list option"
  env_node :: bool
  env_ep0 :: "'p host_ep option"
  env_junk :: "'p host_ep"
  env_room :: nat
  env_initialize :: "u16 \<Rightarrow> u8 \<Rightarrow> u32 \<Rightarrow> u8 \<Rightarrow> 'p usb_host \<Rightarrow> 'p usb_host \<times> bool"

subsection \<open>Results\<close>

text \<open>A step on a device gives a fault or the device; a step of the host may also not end (\<open>None\<close>).\<close>

definition rbind :: "host_fault + 'a \<Rightarrow> ('a \<Rightarrow> host_fault + 'b) \<Rightarrow> host_fault + 'b" where
  "rbind r f = (case r of Inl e \<Rightarrow> Inl e | Inr x \<Rightarrow> f x)"

definition hbind :: "(host_fault + 'a) option \<Rightarrow> ('a \<Rightarrow> (host_fault + 'b) option) \<Rightarrow> (host_fault + 'b) option" where
  "hbind r f = (case r of None \<Rightarrow> None | Some (Inl e) \<Rightarrow> Some (Inl e) | Some (Inr x) \<Rightarrow> f x)"

definition need :: "host_fault \<Rightarrow> 'a option \<Rightarrow> host_fault + 'a" where
  "need e r = (case r of None \<Rightarrow> Inl e | Some x \<Rightarrow> Inr x)"

definition byte_at :: "nat \<Rightarrow> u8 list \<Rightarrow> host_fault + u8" where
  "byte_at i bs = (if i < length bs then Inr (bs ! i) else Inl Read_Past_End)"

lemma rbind_simps [simp]: "rbind (Inl e) f = Inl e" "rbind (Inr x) f = f x"
  by (simp_all add: rbind_def)

lemma hbind_simps [simp]: "hbind None f = None" "hbind (Some (Inl e)) f = Some (Inl e)" "hbind (Some (Inr x)) f = f x"
  by (simp_all add: hbind_def)

lemma need_simps [simp]: "need e None = Inl e" "need e (Some x) = Inr x"
  by (simp_all add: need_def)

abbreviation dev_at :: "u8 \<Rightarrow> 'p usb_host \<Rightarrow> 'p usb_device_info" where
  "dev_at a h \<equiv> usbDeviceInfo h ! unat a"

definition on_dev :: "u8 \<Rightarrow> ('p usb_device_info \<Rightarrow> host_fault + 'p usb_device_info) \<Rightarrow> 'p usb_host \<Rightarrow> (host_fault + 'p usb_host) option" where
  "on_dev a f h = Some (rbind (f (dev_at a h)) (\<lambda>d. Inr (dev_upd a (\<lambda>_. d) h)))"

subsection \<open>The macros of the state machine\<close>

definition USB_SetNextState :: "'p usb_device_info \<Rightarrow> 'p usb_device_info" where
  "USB_SetNextState d = d\<lparr>usbHostState := (usbHostState d AND STATE_MASK) + 0x0100\<rparr>"

definition USB_SetNextSubState :: "'p usb_device_info \<Rightarrow> 'p usb_device_info" where
  "USB_SetNextSubState d = d\<lparr>usbHostState := (usbHostState d AND (STATE_MASK OR SUBSTATE_MASK)) + 0x0010\<rparr>"

definition USB_SetNextSubSubState :: "'p usb_device_info \<Rightarrow> 'p usb_device_info" where
  "USB_SetNextSubSubState d = d\<lparr>usbHostState := usbHostState d + 0x0001\<rparr>"

definition USB_InitErrorCounters :: "'p usb_device_info \<Rightarrow> 'p usb_device_info" where
  "USB_InitErrorCounters d = d\<lparr>numCommandTries := 3\<rparr>"

text \<open>\<^verbatim>\<open>_USB_SetErrorCode\<close> and \<^verbatim>\<open>_USB_SetHoldState\<close>, which always come together.\<close>

definition hold_device :: "u8 \<Rightarrow> 'p usb_device_info \<Rightarrow> 'p usb_device_info" where
  "hold_device e d = d\<lparr>errorCode := e, usbHostState := STATE_HOLDING\<rparr>"

text \<open>The millisecond timer is armed.\<close>

definition arm_timer :: "host_regs \<Rightarrow> host_regs" where
  "arm_timer r = r\<lparr>U1OTGIR := U1OTGIR r AND NOT 0x40, U1OTGIE := U1OTGIE r OR 0x40\<rparr>"

subsection \<open>A request of the enumeration\<close>

definition send_request :: "u8 list \<Rightarrow> ('p host_ep \<Rightarrow> 'p host_ep) \<Rightarrow> 'p usb_device_info \<Rightarrow> host_fault + 'p usb_device_info" where
  "send_request bs init d =
     rbind (need Null_Access (pEP0Data d)) (\<lambda>p.
       if length p < 8 then Inl Write_Past_End
       else rbind (need Null_Access (pEndpoint0 d)) (\<lambda>e.
         Inr (USB_SetNextSubSubState (d\<lparr>pEP0Data := Some (bs @ drop 8 p), pEndpoint0 := Some (init e)\<rparr>))))"

definition wait_request :: "'p usb_device_info \<Rightarrow> host_fault + 'p usb_device_info" where
  "wait_request d =
     rbind (need Null_Access (pEndpoint0 d)) (\<lambda>e.
       if \<not> bfTransferComplete e then Inr d
       else if bfTransferSuccessful e then Inr (USB_SetNextSubSubState d)
       else need Null_Access (USB_CheckCommandAndEnumerationAttempts d))"

subsection \<open>Detached\<close>

definition ep0_initial :: "'p host_ep \<Rightarrow> 'p host_ep" where
  "ep0_initial e = e\<lparr>bfErrorCount := 0, bfStalled := False, bfError := False, bfUserAbort := False, bfTransferSuccessful := False,
     bfTransferComplete := True, bfUseDTS := True, bfNextDATA01 := False, bfLastTransferNAKd := False, bfNAKTimeoutEnabled := True,
     timeoutNAKs := 20, he_wMaxPacketSize := 64, dataCount := 0, he_bEndpointAddress := 0, transferState := 0,
     he_bmAttributes := he_bmAttributes e AND NOT 3, he_clientDriver := 0xFF\<rparr>"

definition device_initial :: "'p usb_device_info \<Rightarrow> host_fault + 'p usb_device_info" where
  "device_initial d =
     rbind (need Null_Access (pEndpoint0 d)) (\<lambda>e.
       Inr (d\<lparr>pEndpoint0 := Some (ep0_initial e), numEnumerationTries := 3, currentConfiguration := 0, attributesOTG := 0,
              deviceAddressAndSpeed := 0, bfIsLowSpeed := False, bfSupportsOTG := False, bfConfiguredOTG := False,
              bfAllowHNP := False, bfPingPongIn := False, bfPingPongOut := False, bfUseDeviceClientDriver := False,
              bfUseEP0Driver := False, pInterfaceList := []\<rparr>))"

definition host_off :: "host_regs \<Rightarrow> host_regs" where
  "host_off r = r\<lparr>U1IE := 0, U1IR := 0, U1OTGIE := U1OTGIE r AND 0x8C, U1OTGIR := U1OTGIR r AND NOT 0x7D, U1EIE := 0, U1EIR := 0\<rparr>"

definition host_setup_regs :: "host_regs \<Rightarrow> host_regs" where
  "host_setup_regs r =
     (let r1 = host_off r
      in r1\<lparr>U1CON := (U1CON r1 AND 0xC0) OR 0x08, U1OTGCON := 0x30, U1CNFG1 := 0x02, U1CNFG2 := 0, U1ADDR := 0,
            U1EP := (U1EP r1)(0 := U1EP r1 0 AND NOT 0x80), U1SOF := 0x4A\<rparr>)"

fun disable_slots :: "nat list \<Rightarrow> 'p usb_host \<Rightarrow> 'p usb_host" where
  "disable_slots [] h = h"
| "disable_slots (i # is) h = disable_slots is (USBHostConfigureDeviceSlot (of_nat i) False False h)"

definition detached_initialize :: "'p host_env \<Rightarrow> u8 \<Rightarrow> 'p usb_host \<Rightarrow> (host_fault + 'p usb_host) option" where
  "detached_initialize env a h =
     (case USBHostShutdown (env_ep0 env) a h of
        None \<Rightarrow> Some (Inl Read_Past_End)
      | Some h1 \<Rightarrow>
          hbind (on_dev a device_initial h1) (\<lambda>h2.
            let h3 = (if unat a < 2 then
                        reg_upd host_setup_regs ((disable_slots [2..<length (usbDeviceInfo h2)] h2)
                          \<lparr>bfControlTransfersDone := False, bfInterruptTransfersDone := False, bfIsochronousTransfersDone := False,
                           bfBulkTransfersDone := False, bfTokenAlreadyWritten := False\<rparr>)
                      else h2)
            in Some (Inr (dev_upd a USB_SetNextSubState h3))))"

definition wait_for_power :: "u8 \<Rightarrow> 'p usb_host \<Rightarrow> 'p usb_host" where
  "wait_for_power a h =
     (if a = 1 then (if bPowerGoodPort0 h then dev_upd a USB_SetNextSubState h else h)
      else dev_upd a (\<lambda>d. d\<lparr>usbHostState := STATE_ATTACHED\<rparr>) h)"

definition power_on_regs :: "host_regs \<Rightarrow> host_regs" where
  "power_on_regs r = r\<lparr>U1PWRC := 0x01, IFS5 := IFS5 r AND 0xFFBF, IPC21 := (IPC21 r AND 0xF0FF) OR 0x0600, IEC5 := IEC5 r OR 0x0040,
     U1IE := U1IE r OR 0x40\<rparr>"

definition turn_on_power :: "u8 \<Rightarrow> 'p usb_host \<Rightarrow> 'p usb_host" where
  "turn_on_power a h =
     (let h1 = dev_upd a USB_SetNextSubState h
      in if a \<noteq> 1 then h1
         else case app_call 255 EVENT_VBUS_REQUEST_POWER h1 of
           (h2, True) \<Rightarrow> reg_upd power_on_regs h2
         | (h2, False) \<Rightarrow> dev_upd a (\<lambda>d. d\<lparr>usbHostState := STATE_DETACHED OR 0x10\<rparr>) (h2\<lparr>bPowerGoodPort0 := False\<rparr>))"

definition task_detached :: "'p host_env \<Rightarrow> u8 \<Rightarrow> 'p usb_host \<Rightarrow> (host_fault + 'p usb_host) option" where
  "task_detached env a h =
     (let s = usbHostState (dev_at a h) AND SUBSTATE_MASK
      in if s = 0x00 then detached_initialize env a h
         else if s = 0x10 then Some (Inr (wait_for_power a h))
         else if s = 0x20 then Some (Inr (turn_on_power a h))
         else Some (Inr h))"

subsection \<open>Attached\<close>

definition attached_settle :: "'p host_env \<Rightarrow> u8 \<Rightarrow> 'p usb_host \<Rightarrow> 'p usb_host" where
  "attached_settle env a h =
     (let s = usbHostState (dev_at a h) AND SUBSUBSTATE_MASK
      in if unat a < 2 then
           (if s = 0 then
              dev_upd a (\<lambda>d. USB_SetNextSubSubState (d\<lparr>numTimerInterrupts := 251\<rparr>))
                (reg_upd (\<lambda>r. arm_timer (r\<lparr>U1IR := U1IR r AND NOT 0x01, U1IE := U1IE r OR 0x01\<rparr>)) h)
            else if s = 2 then dev_upd a USB_SetNextSubState h
            else h)
         else dev_upd a (\<lambda>d. (USBHostDeviceAttached (env_bytes env 8) d)\<lparr>usbHostState := STATE_ATTACHED OR 0x20\<rparr>) h)"

definition reset_regs :: "host_regs \<Rightarrow> host_regs" where
  "reset_regs r =
     (let r1 = r\<lparr>U1EP := (\<lambda>n. if n = 0 then 0x0D else if n < 16 then 0 else U1EP r n)\<rparr>;
          r2 = (if \<not> bit (U1CON r) 7 then r1\<lparr>U1ADDR := 0x80, U1EP := (U1EP r1)(0 := U1EP r1 0 OR 0x80)\<rparr> else r1)
      in arm_timer (r2\<lparr>U1CON := (U1CON r2 AND NOT 0x02) OR 0x10\<rparr>))"

definition set_reset :: "'p host_env \<Rightarrow> u8 \<Rightarrow> 'p usb_host \<Rightarrow> 'p usb_host" where
  "set_reset env a h =
     (let low = \<not> bit (U1CON (hregs h)) 7; d = USBHostDeviceAttached (env_bytes env 8) (dev_at a h)
      in if pEP0Data d = None then dev_upd a (\<lambda>_. hold_device 0x33 d) h
         else dev_upd a (\<lambda>_. USB_SetNextSubSubState
                ((if low then d\<lparr>bfIsLowSpeed := True, deviceAddressAndSpeed := 0x80\<rparr> else d)
                   \<lparr>bfPingPongIn := False, bfPingPongOut := False, numTimerInterrupts := 51\<rparr>)) (reg_upd reset_regs h))"

definition attached_reset :: "'p host_env \<Rightarrow> u8 \<Rightarrow> 'p usb_host \<Rightarrow> 'p usb_host" where
  "attached_reset env a h =
     (let s = usbHostState (dev_at a h) AND SUBSUBSTATE_MASK
      in if s = 0 then set_reset env a h
         else if s = 2 then
           dev_upd a (\<lambda>d. USB_SetNextSubSubState (d\<lparr>numTimerInterrupts := 11\<rparr>))
             (reg_upd (\<lambda>r. arm_timer (r\<lparr>U1CON := (U1CON r AND NOT 0x10) OR 0x01\<rparr>)) h)
         else if s = 4 then dev_upd a USB_SetNextSubState (reg_upd (\<lambda>r. r\<lparr>U1IE := 0x0F, U1EIE := 0xFF\<rparr>) h)
         else h)"

text \<open>The first eight bytes of the device descriptor.\<close>

definition device_size_complete :: "'p host_env \<Rightarrow> 'p usb_device_info \<Rightarrow> host_fault + 'p usb_device_info" where
  "device_size_complete env d =
     rbind (need Null_Access (pEP0Data d)) (\<lambda>p.
     rbind (byte_at 0 p) (\<lambda>len.
       case env_bytes env (unat len) of
         None \<Rightarrow> Inr (hold_device 0x33 (d\<lparr>pDeviceDescriptor := None\<rparr>))
       | Some m \<Rightarrow>
           if m = [] then Inl Write_Past_End
           else
             rbind (byte_at 7 p) (\<lambda>mx.
             rbind (need Null_Access (pEndpoint0 d)) (\<lambda>e.
               let d1 = d\<lparr>pDeviceDescriptor := Some (m[0 := len]), pEndpoint0 := Some (e\<lparr>he_wMaxPacketSize := ucast mx\<rparr>),
                          pEP0Data := env_bytes env (unat mx)\<rparr>
               in Inr (if pEP0Data d1 = None then hold_device 0x33 d1 else USB_SetNextSubState (USB_InitErrorCounters d1))))))"

definition get_device_descriptor_size :: "'p host_env \<Rightarrow> 'p usb_device_info \<Rightarrow> host_fault + 'p usb_device_info" where
  "get_device_descriptor_size env d =
     (let s = usbHostState d AND SUBSUBSTATE_MASK
      in if s = 0 then
           send_request [0x80, 6, 0, 1, 0, 0, 8, 0] (USB_InitControlRead EP0_Data 8 EP0_Data 8) (d\<lparr>pDeviceDescriptor := None\<rparr>)
         else if s = 1 then wait_request d
         else if s = 2 then device_size_complete env d
         else Inr d)"

definition get_device_descriptor :: "bool \<Rightarrow> 'p usb_device_info \<Rightarrow> host_fault + 'p usb_device_info" where
  "get_device_descriptor token_written d =
     (let s = usbHostState d AND SUBSUBSTATE_MASK
      in if s = 0 then
           (if token_written then Inr d
            else rbind (need Null_Access (pDeviceDescriptor d)) (\<lambda>dd. rbind (byte_at 0 dd) (\<lambda>len.
              send_request [0x80, 6, 0, 1, 0, 0, len, 0] (USB_InitControlRead EP0_Data 8 Device_Descriptor (ucast len)) d)))
         else if s = 1 then wait_request d
         else if s = 2 then Inr (USB_SetNextSubState (USB_InitErrorCounters d))
         else Inr d)"

definition validate_vid_pid :: "u8 \<Rightarrow> 'p usb_host \<Rightarrow> (host_fault + 'p usb_host) option" where
  "validate_vid_pid a h =
     (case USB_FindDeviceLevelClientDriver (dev_at a h) h of
        None \<Rightarrow> Some (Inl Read_Past_End)
      | Some (d, h1, _) \<Rightarrow> Some (Inr (dev_upd a (\<lambda>_. USB_SetNextState d) h1)))"

definition task_attached :: "'p host_env \<Rightarrow> u8 \<Rightarrow> 'p usb_host \<Rightarrow> (host_fault + 'p usb_host) option" where
  "task_attached env a h =
     (let s = usbHostState (dev_at a h) AND SUBSTATE_MASK
      in if s = 0x00 then Some (Inr (attached_settle env a h))
         else if s = 0x10 then Some (Inr (attached_reset env a h))
         else if s = 0x20 then on_dev a (get_device_descriptor_size env) h
         else if s = 0x30 then on_dev a (get_device_descriptor (bfTokenAlreadyWritten h)) h
         else if s = 0x40 then validate_vid_pid a h
         else Some (Inr h))"

subsection \<open>Addressing\<close>

definition set_device_address :: "u8 \<Rightarrow> 'p usb_device_info \<Rightarrow> host_fault + 'p usb_device_info" where
  "set_device_address a d =
     (let s = usbHostState d AND SUBSUBSTATE_MASK
      in if s = 0 then
           send_request [0x00, 5, a, 0, 0, 0, 0, 0] (USB_InitControlWrite EP0_Data 8 No_Data 0) (d\<lparr>deviceAddress := a\<rparr>)
         else if s = 1 then wait_request d
         else if s = 2 then
           Inr (USB_SetNextState (USB_InitErrorCounters
             (d\<lparr>deviceAddressAndSpeed := (if bfIsLowSpeed d then 0x80 else 0) OR deviceAddress d\<rparr>)))
         else Inr d)"

definition task_addressing :: "u8 \<Rightarrow> 'p usb_host \<Rightarrow> (host_fault + 'p usb_host) option" where
  "task_addressing a h =
     (if usbHostState (dev_at a h) AND SUBSTATE_MASK = 0 then on_dev a (set_device_address a) h else Some (Inr h))"

subsection \<open>Configuring\<close>

definition init_configuration :: "'p usb_device_info \<Rightarrow> host_fault + 'p usb_device_info" where
  "init_configuration d =
     rbind (need Null_Access (pDeviceDescriptor d)) (\<lambda>dd. rbind (byte_at 17 dd) (\<lambda>n.
       Inr (USB_SetNextSubState (d\<lparr>countConfigurations := n, pConfigurationDescriptorList := []\<rparr>))))"

definition config_size_complete :: "'p host_env \<Rightarrow> 'p usb_device_info \<Rightarrow> host_fault + 'p usb_device_info" where
  "config_size_complete env d =
     (if \<not> env_node env then Inr (hold_device 0x33 d)
      else
        rbind (need Null_Access (pEP0Data d)) (\<lambda>p. rbind (byte_at 3 p) (\<lambda>hi. rbind (byte_at 2 p) (\<lambda>lo.
          case env_bytes env (unat ((push_bit 8 (ucast hi) + ucast lo) :: u16)) of
            None \<Rightarrow> Inr (hold_device 0x33 d)
          | Some m \<Rightarrow>
              if length m < 4 then Inl Write_Past_End
              else
                let c = m[2 := lo, 3 := hi]
                in Inr (USB_SetNextSubState (USB_InitErrorCounters
                     (d\<lparr>pConfigurationDescriptorList :=
                          \<lparr>cfg_descriptor = c, configNumber = countConfigurations d\<rparr> # pConfigurationDescriptorList d,
                        pCurrentConfigurationDescriptor := Some c\<rparr>)))))))"

definition get_config_descriptor_size :: "'p host_env \<Rightarrow> 'p usb_device_info \<Rightarrow> host_fault + 'p usb_device_info" where
  "get_config_descriptor_size env d =
     (let s = usbHostState d AND SUBSUBSTATE_MASK
      in if s = 0 then
           send_request [0x80, 6, countConfigurations d - 1, 2, 0, 0, 8, 0] (USB_InitControlRead EP0_Data 8 EP0_Data 8) d
         else if s = 1 then wait_request d
         else if s = 2 then config_size_complete env d
         else Inr d)"

definition get_config_descriptor :: "'p usb_device_info \<Rightarrow> host_fault + 'p usb_device_info" where
  "get_config_descriptor d =
     (let s = usbHostState d AND SUBSUBSTATE_MASK
      in if s = 0 then
           (case pConfigurationDescriptorList d of
              [] \<Rightarrow> Inl Null_Access
            | c # _ \<Rightarrow>
                rbind (byte_at 2 (cfg_descriptor c)) (\<lambda>lo. rbind (byte_at 3 (cfg_descriptor c)) (\<lambda>hi.
                  send_request [0x80, 6, countConfigurations d - 1, 2, 0, 0, lo, hi]
                    (USB_InitControlRead EP0_Data 8 Config_Descriptor (push_bit 8 (ucast hi) + ucast lo)) d)))
         else if s = 1 then wait_request d
         else if s = 2 then
           (let d1 = USB_InitErrorCounters d; d2 = d1\<lparr>countConfigurations := countConfigurations d1 - 1\<rparr>
            in Inr (if countConfigurations d2 \<noteq> 0 then d2\<lparr>usbHostState := STATE_CONFIGURING OR 0x10\<rparr> else USB_SetNextSubState d2))
         else Inr d)"

text \<open>The search for a configuration some driver serves. The flag says whether \<^verbatim>\<open>pCurrentConfigurationNode\<close> is not null.\<close>

fun search_config ::
  "'p host_env \<Rightarrow> host_config list \<Rightarrow> 'p usb_device_info \<Rightarrow> 'p usb_host \<Rightarrow>
     (host_fault + 'p usb_device_info \<times> 'p usb_host \<times> bool) option" where
  "search_config env [] d h = Some (Inr (d, h, False))"
| "search_config env (c # cs) d h =
     hbind (USB_ParseConfigurationDescriptor (env_junk env) (env_room env)
         (d\<lparr>pCurrentConfigurationDescriptor := Some (cfg_descriptor c)\<rparr>) h)
       (\<lambda>(d1, h1, ok). if ok then Some (Inr (d1, h1, True)) else search_config env cs (USB_FreeConfigMemory d1) h1)"

definition chosen_config ::
  "'p host_env \<Rightarrow> 'p usb_device_info \<Rightarrow> 'p usb_host \<Rightarrow> (host_fault + 'p usb_device_info \<times> 'p usb_host \<times> bool) option" where
  "chosen_config env d h =
     (case find (\<lambda>c. configNumber c = currentConfiguration d) (pConfigurationDescriptorList d) of
        None \<Rightarrow> Some (Inl Null_Access)
      | Some c \<Rightarrow>
          hbind (USB_ParseConfigurationDescriptor (env_junk env) (env_room env)
              (d\<lparr>pCurrentConfigurationDescriptor := Some (cfg_descriptor c)\<rparr>) h)
            (\<lambda>(d1, h1, ok). Some (Inr (if ok then d1 else USB_FreeConfigMemory d1, h1, ok))))"

definition select_configuration :: "'p host_env \<Rightarrow> u8 \<Rightarrow> 'p usb_host \<Rightarrow> (host_fault + 'p usb_host) option" where
  "select_configuration env a h =
     (let d = USB_FreeConfigMemory (dev_at a h)
      in hbind (if currentConfiguration d = 0 then search_config env (pConfigurationDescriptorList d) d h else chosen_config env d h)
           (\<lambda>(d1, h1, found).
             let d2 = (if bfConfiguredOTG d1 \<and> \<not> found then hold_device 0x34 d1 else USB_SetNextSubSubState d1)
             in Some (Inr ((dev_upd a (\<lambda>_. d2) h1)\<lparr>pCurrentConfigurationNode := found\<rparr>))))"

definition task_select :: "'p host_env \<Rightarrow> u8 \<Rightarrow> 'p usb_host \<Rightarrow> (host_fault + 'p usb_host) option" where
  "task_select env a h =
     (let s = usbHostState (dev_at a h) AND SUBSUBSTATE_MASK
      in if s = 0 then select_configuration env a h
         else if s = 1 then
           on_dev a (\<lambda>d. if \<not> bfConfiguredOTG d
             then send_request [0x00, 3, if bfAllowHNP d then 3 else 4, 0, 0, 0, 0, 0] (USB_InitControlWrite EP0_Data 8 No_Data 0)
                    (d\<lparr>bfConfiguredOTG := True\<rparr>)
             else Inr (USB_SetNextSubState d)) h
         else if s = 2 then on_dev a wait_request h
         else if s = 3 then
           on_dev a (\<lambda>d. Inr (if \<not> pCurrentConfigurationNode h then hold_device 0x34 (USB_InitErrorCounters d)
                              else USB_SetNextSubState (USB_InitErrorCounters d))) h
         else Some (Inr h))"

text \<open>The client drivers \<open>drvs\<close> are initialised one after the other; a driver that fails puts the device on hold.\<close>

fun init_drivers :: "'p host_env \<Rightarrow> u8 \<Rightarrow> u8 list \<Rightarrow> 'p usb_host \<Rightarrow> host_fault + 'p usb_host" where
  "init_drivers env a [] h = Inr h"
| "init_drivers env a (x # xs) h =
     (if length (usbClientDrvTable h) \<le> unat x then Inl Read_Past_End
      else
        let c = usbClientDrvTable h ! unat x
        in case env_initialize env (cd_Initialize c) (deviceAddress (dev_at a h)) (cd_flags c) x h of
             (h1, ok) \<Rightarrow>
               let h2 = (if ok then h1 else dev_upd a (hold_device 0x39) h1)
               in init_drivers env a xs
                    (h2\<lparr>usbClientDrvTable := (usbClientDrvTable h2)
                         [unat x := (usbClientDrvTable h2 ! unat x)\<lparr>cd_dev_addr := deviceAddress (dev_at a h2)\<rparr>]\<rparr>))"

definition init_client_drivers :: "'p host_env \<Rightarrow> u8 \<Rightarrow> 'p usb_host \<Rightarrow> host_fault + 'p usb_host" where
  "init_client_drivers env a h =
     (let h1 = dev_upd a USB_SetNextState h; d = dev_at a h1
      in rbind (init_drivers env a (if bfUseDeviceClientDriver d then [deviceClientDriver d] else map hi_clientDriver (pInterfaceList d)) h1)
           (\<lambda>h2. let d2 = dev_at a h2
                 in init_drivers env a (if bfUseEP0Driver d2 then [deviceEP0Driver d2] else []) h2))"

definition task_set_configuration :: "'p host_env \<Rightarrow> u8 \<Rightarrow> 'p usb_host \<Rightarrow> (host_fault + 'p usb_host) option" where
  "task_set_configuration env a h =
     (let s = usbHostState (dev_at a h) AND SUBSUBSTATE_MASK
      in if s = 0 then
           on_dev a (\<lambda>d. send_request [0x00, 9, currentConfiguration d, 0, 0, 0, 0, 0] (USB_InitControlWrite EP0_Data 8 No_Data 0) d) h
         else if s = 1 then on_dev a wait_request h
         else if s = 2 then on_dev a (\<lambda>d. Inr (USB_SetNextSubSubState (USB_InitErrorCounters d))) h
         else if s = 3 then Some (init_client_drivers env a h)
         else Some (Inr h))"

definition task_configuring :: "'p host_env \<Rightarrow> u8 \<Rightarrow> 'p usb_host \<Rightarrow> (host_fault + 'p usb_host) option" where
  "task_configuring env a h =
     (let s = usbHostState (dev_at a h) AND SUBSTATE_MASK
      in if s = 0x00 then on_dev a init_configuration h
         else if s = 0x10 then on_dev a (get_config_descriptor_size env) h
         else if s = 0x20 then on_dev a get_config_descriptor h
         else if s = 0x30 then task_select env a h
         else if s = 0x40 then
           (case app_call 255 EVENT_HOLD_BEFORE_CONFIGURATION h of
              (h1, hold) \<Rightarrow> Some (Inr (if hold then h1 else dev_upd a USB_SetNextSubState h1)))
         else if s = 0x50 then task_set_configuration env a h
         else Some (Inr h))"

subsection \<open>Running and holding\<close>

definition task_running :: "u8 \<Rightarrow> 'p usb_host \<Rightarrow> 'p usb_host" where
  "task_running a h =
     (let st = usbHostState (dev_at a h); s = st AND SUBSUBSTATE_MASK
      in if st AND SUBSTATE_MASK \<noteq> 0x10 then h
         else if s = 1 then
           dev_upd a (\<lambda>d. USB_SetNextSubSubState (d\<lparr>numTimerInterrupts := 21\<rparr>))
             (reg_upd (\<lambda>r. let r1 = r\<lparr>U1CON := U1CON r OR 0x04\<rparr> in if a = 1 then arm_timer r1 else r1) h)
         else if s = 3 then
           dev_upd a (\<lambda>d. USB_SetNextSubSubState (d\<lparr>numTimerInterrupts := 11\<rparr>))
             (reg_upd (\<lambda>r. if a = 1 then arm_timer (r\<lparr>U1CON := (U1CON r AND NOT 0x04) OR 0x01\<rparr>) else r) h)
         else if s = 5 then dev_upd a (\<lambda>d. d\<lparr>usbHostState := STATE_RUNNING\<rparr>) h
         else h)"

definition hold_event :: "u8 \<Rightarrow> host_event" where
  "hold_event e = (if e = 0x35 then EVENT_HUB_ATTACH else if e = 0x34 then EVENT_UNSUPPORTED_DEVICE
     else if e = USB_CANNOT_ENUMERATE then EVENT_CANNOT_ENUMERATE else if e = 0x39 then EVENT_CLIENT_INIT_ERROR
     else if e = 0x33 then EVENT_OUT_OF_MEMORY else EVENT_UNSPECIFIED_ERROR)"

definition task_holding :: "u8 \<Rightarrow> 'p usb_host \<Rightarrow> 'p usb_host" where
  "task_holding a h =
     (if usbHostState (dev_at a h) AND SUBSTATE_MASK \<noteq> 0 then h
      else
        let h1 = (if a = 1 then reg_upd (\<lambda>r. let r1 = host_off (r\<lparr>U1CON := (U1CON r AND 0xC0) OR 0x08\<rparr>) in r1\<lparr>U1IE := 0x01\<rparr>) h else h);
            d = dev_at a h1
        in dev_upd a USB_SetNextSubState (fst (app_call (deviceAddress d) (hold_event (errorCode d)) h1)))"

subsection \<open>One call\<close>

definition task_state :: "'p host_env \<Rightarrow> u8 \<Rightarrow> 'p usb_host \<Rightarrow> (host_fault + 'p usb_host) option" where
  "task_state env a h =
     (let s = usbHostState (dev_at a h) AND STATE_MASK
      in if s = STATE_DETACHED then task_detached env a h
         else if s = STATE_ATTACHED then task_attached env a h
         else if s = 0x0200 then task_addressing a h
         else if s = STATE_CONFIGURING then task_configuring env a h
         else if s = STATE_RUNNING then Some (Inr (task_running a h))
         else if s = STATE_HOLDING then Some (Inr (task_holding a h))
         else Some (Inr h))"

definition take_override :: "'p usb_device_info \<Rightarrow> 'p usb_device_info" where
  "take_override d =
     (let d1 = (if usbOverrideHostState d \<noteq> 0xFFFF then d\<lparr>usbHostState := usbOverrideHostState d, usbOverrideHostState := 0xFFFF\<rparr> else d)
      in d1\<lparr>usbLastHostState := usbHostState d1\<rparr>)"

definition task_slot :: "'p host_env \<Rightarrow> u8 \<Rightarrow> 'p usb_host \<Rightarrow> (host_fault + 'p usb_host) option" where
  "task_slot env a h =
     (if a = 0 \<or> \<not> bit (deluxeExtendedFlags (dev_at a h)) 0 then Some (Inr h) else task_state env a (dev_upd a take_override h))"

fun task_slots :: "'p host_env \<Rightarrow> u8 list \<Rightarrow> 'p usb_host \<Rightarrow> (host_fault + 'p usb_host) option" where
  "task_slots env [] h = Some (Inr h)"
| "task_slots env (a # as) h = hbind (task_slot env a h) (task_slots env as)"

text \<open>The queued events go to the client drivers first.\<close>

fun deliver_events :: "'p host_item list \<Rightarrow> 'p usb_host \<Rightarrow> 'p usb_host option" where
  "deliver_events [] h = Some h"
| "deliver_events (i # is) h =
     (case (case item_event i of
              EVENT_TRANSFER x \<Rightarrow> USB_NotifyClients (item_address i) (EVENT_TRANSFER x) h
            | EVENT_BUS_ERROR x \<Rightarrow> USB_NotifyClients (item_address i) (EVENT_BUS_ERROR x) h
            | _ \<Rightarrow> Some h) of
        None \<Rightarrow> None
      | Some h' \<Rightarrow> deliver_events is (h'\<lparr>usbEventQueue := is\<rparr>))"

definition USBHostTasks :: "'p host_env \<Rightarrow> 'p usb_host \<Rightarrow> (host_fault + 'p usb_host) option" where
  "USBHostTasks env h =
     (case deliver_events (usbEventQueue h) h of
        None \<Rightarrow> Some (Inl Read_Past_End)
      | Some h1 \<Rightarrow> task_slots env (map of_nat [0..<length (usbDeviceInfo h1)]) h1)"

text \<open>The start of the host role, \<^verbatim>\<open>USBDeluxe_SetRole\<close> up to its first call of \<^verbatim>\<open>USBHostTasks\<close>.\<close>

definition host_role_start :: "'p host_env \<Rightarrow> 'p usb_host \<Rightarrow> 'p usb_host" where
  "host_role_start env h =
     (let h1 = USBHostConfigureDeviceSlot 0 True False (fst (USBHostInit (env_ep0 env) 0 h))
      in USBHostConfigureDeviceSlot 1 True False (fst (USBHostInit (env_ep0 env) 1 h1)))"

end
