(* ===== verification/USB_Host_Token.thy ===== *)
theory USB_Host_Token
  imports USB_Host_Tasks
begin

section \<open>The USB host stack: tokens\<close>

text \<open>
  Models \<^verbatim>\<open>_USB_FindNextToken\<close>, \<^verbatim>\<open>_USB_SetBDT\<close> and \<^verbatim>\<open>_USB_SendToken\<close>: which transaction the host puts on the bus next, and
  what it writes for it into the buffer descriptors (\<^verbatim>\<open>BDT[0..3]\<close>: IN even and odd, OUT even and odd) and the registers.
  The loops over isochronous, interrupt and bulk endpoints follow the state of the endpoints and may not end; the result is
  \<open>None\<close> then. The flag \<open>ill\<close> is the local variable \<^verbatim>\<open>illegalState\<close>, which is never reset. \<open>stale\<close> is what the
  event queue held in the field \<^verbatim>\<open>clientDriver\<close>: the event of a failed isochronous read does not set it.
\<close>

abbreviation (input) USB_TOKEN_OUT :: u8 where "USB_TOKEN_OUT \<equiv> 0x01"
abbreviation (input) USB_TOKEN_IN :: u8 where "USB_TOKEN_IN \<equiv> 0x09"
abbreviation (input) USB_TOKEN_SETUP :: u8 where "USB_TOKEN_SETUP \<equiv> 0x0D"

subsection \<open>The current endpoint\<close>

definition cur_ep :: "u8 \<Rightarrow> 'p usb_host \<Rightarrow> 'p host_ep option" where
  "cur_ep a h = map_option (\<lambda>r. ep_at r (dev_at a h)) (pCurrentEndpoint (dev_at a h))"

definition cur_upd :: "u8 \<Rightarrow> ('p host_ep \<Rightarrow> 'p host_ep) \<Rightarrow> 'p usb_host \<Rightarrow> 'p usb_host" where
  "cur_upd a f h = dev_upd a (\<lambda>d. case pCurrentEndpoint d of None \<Rightarrow> d | Some r \<Rightarrow> ep_set r f d) h"

text \<open>The data of an isochronous transfer and its current buffer.\<close>

definition isoc_at :: "'p host_ep \<Rightarrow> 'p usb_host \<Rightarrow> host_fault + 'p \<times> host_isoc \<times> isoc_buffer" where
  "isoc_at e h =
     (case pUserData e of
        User_Data p \<Rightarrow>
          (let d = isoc h p; i = unat (currentBufferUSB d)
           in if i < length (isoc_buffers d) then Inr (p, d, isoc_buffers d ! i) else Inl Read_Past_End)
      | _ \<Rightarrow> Inl Null_Access)"

definition isoc_put :: "'p \<Rightarrow> (isoc_buffer \<Rightarrow> isoc_buffer) \<Rightarrow> 'p usb_host \<Rightarrow> 'p usb_host" where
  "isoc_put p f h =
     (let d = isoc h p; i = unat (currentBufferUSB d)
      in h\<lparr>isoc := (isoc h)(p := d\<lparr>isoc_buffers := (isoc_buffers d)[i := f (isoc_buffers d ! i)]\<rparr>)\<rparr>)"

definition isoc_advance :: "'p \<Rightarrow> 'p usb_host \<Rightarrow> 'p usb_host" where
  "isoc_advance p h =
     (let d = isoc h p; n = currentBufferUSB d + 1
      in h\<lparr>isoc := (isoc h)(p := d\<lparr>currentBufferUSB := (if n \<ge> totalBuffers d then 0 else n)\<rparr>)\<rparr>)"

subsection \<open>The buffer descriptor and the token\<close>

definition packet_size :: "u8 \<Rightarrow> 'p host_ep \<Rightarrow> u16" where
  "packet_size token e =
     (let lim = (\<lambda>mx. if mx - dataCount e > ucast (he_wMaxPacketSize e) then he_wMaxPacketSize e else ucast (mx - dataCount e))
      in if token = USB_TOKEN_SETUP then lim (ucast (dataCountMaxSETUP e))
         else if bfTransferType (he_bmAttributes e) = Isochronous_Ep then
           (if token = USB_TOKEN_IN then he_wMaxPacketSize e else ucast (dataCount e))
         else lim (dataCountMax e))"

definition packet_address :: "u8 \<Rightarrow> 'p host_ep \<Rightarrow> 'p usb_host \<Rightarrow> host_fault + 'p host_data \<times> u16" where
  "packet_address token e h =
     (if token = USB_TOKEN_SETUP then Inr (pUserDataSETUP e, 0)
      else if bfTransferType (he_bmAttributes e) = Isochronous_Ep then
        rbind (isoc_at e h) (\<lambda>(p, d, b). Inr (Isoc_Buffer p (unat (currentBufferUSB d)), 0))
      else Inr (pUserData e, ucast (dataCount e)))"

text \<open>The place of the descriptor in the table, and the ping-pong bit of the first device turned over.\<close>

definition bdt_place :: "u8 \<Rightarrow> 'p usb_host \<Rightarrow> nat \<times> 'p usb_host" where
  "bdt_place token h =
     (if token = USB_TOKEN_IN then
        (if bfPingPongIn (dev_at 1 h) then 1 else 0, dev_upd 1 (\<lambda>d. d\<lparr>bfPingPongIn := \<not> bfPingPongIn d\<rparr>) h)
      else (if bfPingPongOut (dev_at 1 h) then 3 else 2, dev_upd 1 (\<lambda>d. d\<lparr>bfPingPongOut := \<not> bfPingPongOut d\<rparr>) h))"

definition USB_SetBDT :: "u8 \<Rightarrow> u8 \<Rightarrow> 'p usb_host \<Rightarrow> host_fault + 'p usb_host" where
  "USB_SetBDT a token h =
     (case bdt_place token (fst (USBHostGetDeviceInfoOfFirstDevice h)) of
        (k, h1) \<Rightarrow>
          rbind (need Null_Access (cur_ep a h1)) (\<lambda>e.
          rbind (packet_address token e h1) (\<lambda>adr.
            Inr (h1\<lparr>host_BDT := (host_BDT h1)(k :=
              \<lparr>bd_ADR = adr, bd_count = packet_size token e AND 0x3FF, bd_PID = 0, bd_DTS = bfNextDATA01 e,
               bd_DTSEN = bfUseDTS e, bd_UOWN = True\<rparr>)\<rparr>))))"

definition USB_SendToken :: "u8 \<Rightarrow> u8 \<Rightarrow> u8 \<Rightarrow> 'p usb_host \<Rightarrow> host_fault + 'p usb_host" where
  "USB_SendToken a endpoint token h =
     rbind (need Null_Access (cur_ep a h)) (\<lambda>e.
       let d = dev_at a h;
           t0 = 0x5D;
           t1 = (if bfIsLowSpeed d \<and> unat a < 2 then t0 OR 0x80 else t0);
           t2 = (if bfTransferType (he_bmAttributes e) = Control_Ep then t1 AND 0xEF else t1);
           t3 = (if bfTransferType (he_bmAttributes e) = Isochronous_Ep then t2 AND 0xFE else t2)
       in Inr ((reg_upd (\<lambda>r. r\<lparr>U1EP := (U1EP r)(0 := t3), U1ADDR := deviceAddressAndSpeed d,
                              U1TOK := push_bit 4 token OR (endpoint AND 0x7F)\<rparr>) h)\<lparr>bfTokenAlreadyWritten := True\<rparr>))"

definition send_token :: "u8 \<Rightarrow> u8 \<Rightarrow> 'p usb_host \<Rightarrow> host_fault + 'p usb_host" where
  "send_token a token h =
     rbind (USB_SetBDT a token h) (\<lambda>h1.
     rbind (need Null_Access (cur_ep a h1)) (\<lambda>e. USB_SendToken a (he_bEndpointAddress e) token h1))"

subsection \<open>The end of a transfer\<close>

text \<open>When the queue of four events is full, the code overwrites the attributes of the endpoint.\<close>

definition queue_event :: "u8 \<Rightarrow> ('p host_ep \<Rightarrow> 'p host_item) \<Rightarrow> 'p usb_host \<Rightarrow> 'p usb_host" where
  "queue_event a f h =
     (if length (usbEventQueue h) < 4
      then (case cur_ep a h of None \<Rightarrow> h | Some e \<Rightarrow> h\<lparr>usbEventQueue := usbEventQueue h @ [f e]\<rparr>)
      else cur_upd a (\<lambda>e. e\<lparr>he_bmAttributes := 0x08\<rparr>) h)"

definition transfer_event :: "u8 \<Rightarrow> 'p host_ep \<Rightarrow> 'p host_item" where
  "transfer_event addr e = \<lparr>item_address = addr, item_event = EVENT_TRANSFER (he_clientDriver e), item_dataCount = dataCount e,
     item_pUserData = pUserData e, item_bErrorCode = USB_SUCCESS, item_bEndpointAddress = he_bEndpointAddress e,
     item_bmAttributes = he_bmAttributes e\<rparr>"

definition error_event :: "u8 \<Rightarrow> u8 \<Rightarrow> 'p host_ep \<Rightarrow> 'p host_item" where
  "error_event addr drv e = \<lparr>item_address = addr, item_event = EVENT_BUS_ERROR drv, item_dataCount = 0,
     item_pUserData = No_Data, item_bErrorCode = bErrorCode e, item_bEndpointAddress = he_bEndpointAddress e,
     item_bmAttributes = he_bmAttributes e\<rparr>"

text \<open>What the state of a transfer asks for: a token, with the data toggle to set and whether the count becomes the limit.\<close>

datatype transfer_step = Send_Token u8 "bool option" bool | Transfer_Done | Transfer_Failed | Illegal_State

definition end_transfer :: "bool \<Rightarrow> 'p host_ep \<Rightarrow> 'p host_ep" where
  "end_transfer interval e =
     e\<lparr>transferState := 0, wIntervalCount := (if interval then wInterval e else wIntervalCount e), bfTransferComplete := True\<rparr>"

text \<open>Each service of an endpoint gives the host, the flag \<open>ill\<close>, and whether a token was sent.\<close>

definition close_step :: "bool \<Rightarrow> bool \<Rightarrow> u8 \<Rightarrow> 'p usb_host \<Rightarrow> host_fault + 'p usb_host \<times> bool \<times> bool" where
  "close_step interval ill a h = Inr (if ill then cur_upd a (end_transfer interval) h else h, ill, False)"

definition apply_step :: "bool \<Rightarrow> transfer_step \<Rightarrow> bool \<Rightarrow> u8 \<Rightarrow> 'p usb_host \<Rightarrow> host_fault + 'p usb_host \<times> bool \<times> bool" where
  "apply_step interval s ill a h =
     (let addr = deviceAddress (dev_at a h)
      in case s of
        Send_Token token dts limit \<Rightarrow>
          rbind (send_token a token
              (cur_upd a (\<lambda>e. (case dts of None \<Rightarrow> e | Some b \<Rightarrow> e\<lparr>bfNextDATA01 := b\<rparr>)
                 \<lparr>dataCountMax := (if limit then dataCount e else dataCountMax e)\<rparr>) h))
            (\<lambda>h1. Inr (h1, ill, True))
      | Transfer_Done \<Rightarrow> close_step interval ill a (queue_event a (transfer_event addr) (cur_upd a (end_transfer interval) h))
      | Transfer_Failed \<Rightarrow>
          close_step interval ill a
            (queue_event a (\<lambda>e. error_event addr (he_clientDriver e) e) (cur_upd a (end_transfer interval) h))
      | Illegal_State \<Rightarrow> close_step interval True a h)"

subsection \<open>Control transfers\<close>

definition control_step :: "u8 \<Rightarrow> transfer_step" where
  "control_step s =
     (if s = 0x10 \<or> s = 0x20 \<or> s = 0x30 then Send_Token USB_TOKEN_SETUP (Some False) False
      else if s = 0x21 then Send_Token USB_TOKEN_IN None False
      else if s = 0x31 then Send_Token USB_TOKEN_OUT None False
      else if s = 0x11 \<or> s = 0x32 then Send_Token USB_TOKEN_IN (Some True) True
      else if s = 0x22 then Send_Token USB_TOKEN_OUT (Some True) True
      else if s = 0x12 \<or> s = 0x23 \<or> s = 0x33 then Transfer_Done
      else if s = 0x1F \<or> s = 0x2F \<or> s = 0x3F then Transfer_Failed
      else Illegal_State)"

definition control_section :: "u8 \<Rightarrow> bool \<Rightarrow> 'p usb_host \<Rightarrow> host_fault + 'p usb_host \<times> bool \<times> bool" where
  "control_section a ill h =
     (if bfControlTransfersDone h then Inr (h, ill, False)
      else rbind (need Null_Access (USB_FindServiceEndpoint Control_Ep a h)) (\<lambda>(h1, found).
        rbind (if \<not> found then Inr (h1, ill, False)
               else rbind (need Null_Access (cur_ep a h1)) (\<lambda>e. apply_step False (control_step (transferState e)) ill a h1))
          (\<lambda>(h2, ill2, sent). Inr (h2\<lparr>bfControlTransfersDone := True\<rparr>, ill2, sent))))"

subsection \<open>Isochronous transfers\<close>

text \<open>The call of a data handler from the interrupt; without an entry in the table the code reads through a null pointer.\<close>

definition data_event :: "u8 \<Rightarrow> host_event \<Rightarrow> 'p host_ep \<Rightarrow> 'p usb_host \<Rightarrow> host_fault + 'p usb_host" where
  "data_event a ev e h =
     (if unat (he_clientDriver e) < length (usbClientDrvTable h) then
        (let f = cd_DataEventHandler (usbClientDrvTable h ! unat (he_clientDriver e))
         in Inr (if f = 0 then h else h\<lparr>host_calls := host_calls h @ [Client_Call f (deviceAddress (dev_at a h)) ev]\<rparr>))
      else Inl Null_Access)"

definition isoc_read :: "u8 \<Rightarrow> 'p host_ep \<Rightarrow> bool \<Rightarrow> u8 \<Rightarrow> 'p usb_host \<Rightarrow> host_fault + 'p usb_host \<times> bool \<times> bool" where
  "isoc_read stale e ill a h =
     (let s = transferState e; again = (\<lambda>e. e\<lparr>transferState := 0x60, wIntervalCount := wInterval e\<rparr>)
      in if s = 0x60 then
           rbind (isoc_at e h) (\<lambda>(p, d, b).
             if bfDataLengthValid b then close_step True ill a h
             else rbind (send_token a USB_TOKEN_IN (cur_upd a (\<lambda>e. e\<lparr>dataCount := 0, bfNextDATA01 := False\<rparr>) h))
                    (\<lambda>h1. Inr (h1, ill, True)))
         else if s = 0x61 then
           rbind (isoc_at e h) (\<lambda>(p, d, b).
           rbind (data_event a EVENT_DATA_ISOC_READ e
               (isoc_put p (\<lambda>b. b\<lparr>ib_dataLength := ucast (dataCount e), bfDataLengthValid := True\<rparr>) (cur_upd a again h)))
             (\<lambda>h1. close_step True ill a (isoc_advance p (isoc_put p (\<lambda>b. b\<lparr>bfDataLengthValid := False\<rparr>) h1))))
         else if s = 0x6F then
           close_step True ill a (queue_event a (error_event (deviceAddress (dev_at a h)) stale) (cur_upd a again h))
         else close_step True True a h)"

definition isoc_write :: "'p host_ep \<Rightarrow> bool \<Rightarrow> u8 \<Rightarrow> 'p usb_host \<Rightarrow> host_fault + 'p usb_host \<times> bool \<times> bool" where
  "isoc_write e ill a h =
     (let s = transferState e; again = (\<lambda>e. e\<lparr>transferState := 0x70, wIntervalCount := wInterval e\<rparr>)
      in if s = 0x70 then
           rbind (isoc_at e h) (\<lambda>(p, d, b).
             if \<not> bfDataLengthValid b then close_step True ill a h
             else rbind (send_token a USB_TOKEN_OUT
                    (cur_upd a (\<lambda>e. e\<lparr>dataCount := ucast (ib_dataLength b), bfNextDATA01 := False\<rparr>) h))
                    (\<lambda>h1. Inr (h1, ill, True)))
         else if s = 0x71 then
           rbind (isoc_at e h) (\<lambda>(p, d, b).
           rbind (data_event a EVENT_DATA_ISOC_WRITE e (isoc_put p (\<lambda>b. b\<lparr>bfDataLengthValid := False\<rparr>) (cur_upd a again h)))
             (\<lambda>h1. let h2 = isoc_advance p h1
                   in rbind (isoc_at e h2) (\<lambda>_. close_step True ill a (isoc_put p (\<lambda>b. b\<lparr>bfDataLengthValid := True\<rparr>) h2))))
         else if s = 0x7F then
           close_step True ill a (queue_event a (\<lambda>e. error_event (deviceAddress (dev_at a h)) (he_clientDriver e) e) (cur_upd a again h))
         else close_step True True a h)"

definition isoc_service :: "u8 \<Rightarrow> bool \<Rightarrow> u8 \<Rightarrow> 'p usb_host \<Rightarrow> host_fault + 'p usb_host \<times> bool \<times> bool" where
  "isoc_service stale ill a h =
     rbind (need Null_Access (cur_ep a h)) (\<lambda>e.
       if transferState e AND 0xF0 = TSTATE_ISOCHRONOUS_READ then isoc_read stale e ill a h
       else if transferState e AND 0xF0 = TSTATE_ISOCHRONOUS_WRITE then isoc_write e ill a h
       else close_step True True a h)"

partial_function (option) isoc_loop ::
  "u8 \<Rightarrow> u8 \<Rightarrow> bool \<Rightarrow> 'p usb_host \<Rightarrow> (host_fault + 'p usb_host \<times> bool \<times> bool) option" where
  "isoc_loop stale a ill h =
     (case USB_FindServiceEndpoint Isochronous_Ep a h of
        None \<Rightarrow> Some (Inl Null_Access)
      | Some (h1, found) \<Rightarrow>
          if \<not> found then Some (Inr (h1\<lparr>bfIsochronousTransfersDone := True\<rparr>, ill, False))
          else (case isoc_service stale ill a h1 of
                  Inl f \<Rightarrow> Some (Inl f)
                | Inr (h2, ill2, sent) \<Rightarrow> if sent then Some (Inr (h2, ill2, True)) else isoc_loop stale a ill2 h2))"

definition isoc_section :: "u8 \<Rightarrow> u8 \<Rightarrow> bool \<Rightarrow> 'p usb_host \<Rightarrow> (host_fault + 'p usb_host \<times> bool \<times> bool) option" where
  "isoc_section stale a ill h = (if bfIsochronousTransfersDone h then Some (Inr (h, ill, False)) else isoc_loop stale a ill h)"

subsection \<open>Interrupt transfers\<close>

definition interrupt_step :: "u8 \<Rightarrow> transfer_step" where
  "interrupt_step s =
     (if s = 0x40 then Send_Token USB_TOKEN_IN None False
      else if s = 0x50 then Send_Token USB_TOKEN_OUT None False
      else if s = 0x41 \<or> s = 0x51 then Transfer_Done
      else if s = 0x4F \<or> s = 0x5F then Transfer_Failed
      else Illegal_State)"

partial_function (option) interrupt_loop ::
  "u8 \<Rightarrow> bool \<Rightarrow> 'p usb_host \<Rightarrow> (host_fault + 'p usb_host \<times> bool \<times> bool) option" where
  "interrupt_loop a ill h =
     (case USB_FindServiceEndpoint Interrupt_Ep a h of
        None \<Rightarrow> Some (Inl Null_Access)
      | Some (h1, found) \<Rightarrow>
          if \<not> found then Some (Inr (h1\<lparr>bfInterruptTransfersDone := True\<rparr>, ill, False))
          else (case rbind (need Null_Access (cur_ep a h1)) (\<lambda>e. apply_step True (interrupt_step (transferState e)) ill a h1) of
                  Inl f \<Rightarrow> Some (Inl f)
                | Inr (h2, ill2, sent) \<Rightarrow> if sent then Some (Inr (h2, ill2, True)) else interrupt_loop a ill2 h2))"

definition interrupt_section :: "u8 \<Rightarrow> bool \<Rightarrow> 'p usb_host \<Rightarrow> (host_fault + 'p usb_host \<times> bool \<times> bool) option" where
  "interrupt_section a ill h = (if bfInterruptTransfersDone h then Some (Inr (h, ill, False)) else interrupt_loop a ill h)"

subsection \<open>Bulk transfers\<close>

definition bulk_step :: "u8 \<Rightarrow> transfer_step" where
  "bulk_step s =
     (if s = 0x80 then Send_Token USB_TOKEN_IN None False
      else if s = 0x90 then Send_Token USB_TOKEN_OUT None False
      else if s = 0x81 \<or> s = 0x91 then Transfer_Done
      else if s = 0x8F \<or> s = 0x9F then Transfer_Failed
      else Illegal_State)"

text \<open>The label \<^verbatim>\<open>TryBulk\<close>: as long as there are bulk transactions, the search starts over.\<close>

partial_function (option) bulk_loop :: "u8 \<Rightarrow> bool \<Rightarrow> 'p usb_host \<Rightarrow> (host_fault + 'p usb_host \<times> bool \<times> bool) option" where
  "bulk_loop a ill h =
     (if bfBulkTransfersDone h then Some (Inr (h, ill, False))
      else (case USB_FindServiceEndpoint Bulk_Ep a h of
        None \<Rightarrow> Some (Inl Null_Access)
      | Some (h1, found) \<Rightarrow>
          (case (if \<not> found then Inr (h1, ill, False)
                 else rbind (need Null_Access (cur_ep a h1)) (\<lambda>e. apply_step False (bulk_step (transferState e)) ill a h1)) of
             Inl f \<Rightarrow> Some (Inl f)
           | Inr (h2, ill2, sent) \<Rightarrow>
               if sent then Some (Inr (h2, ill2, True))
               else if countBulkTransactions h2 \<noteq> 0 then bulk_loop a ill2 (h2\<lparr>lastBulkTransaction := 0\<rparr>)
               else Some (Inr (h2\<lparr>bfBulkTransfersDone := True\<rparr>, ill2, False)))))"

subsection \<open>The next token\<close>

definition USB_FindNextToken :: "u8 \<Rightarrow> u8 \<Rightarrow> 'p usb_host \<Rightarrow> (host_fault + 'p usb_host) option" where
  "USB_FindNextToken stale a h =
     (if usbHostState (dev_at a h) AND (SUBSTATE_MASK OR SUBSUBSTATE_MASK) = STATE_RUNNING OR SUBSTATE_SUSPEND_AND_RESUME
      then Some (Inr h)
      else if bfTokenAlreadyWritten h then Some (Inr h)
      else
        hbind (Some (control_section a False h)) (\<lambda>(h1, ill1, sent1). if sent1 then Some (Inr h1) else
        hbind (isoc_section stale a ill1 h1) (\<lambda>(h2, ill2, sent2). if sent2 then Some (Inr h2) else
        hbind (interrupt_section a ill2 h2) (\<lambda>(h3, ill3, sent3). if sent3 then Some (Inr h3) else
        hbind (bulk_loop a ill3 h3) (\<lambda>(h4, _, _). Some (Inr h4))))))"

end
