(* ===== verification/USB_Host_Interrupt.thy ===== *)
theory USB_Host_Interrupt
  imports USB_Host_Token
begin

section \<open>The USB host stack: the interrupt handler\<close>

text \<open>
  Models \<^verbatim>\<open>USB_HostInterruptHandler\<close>: the millisecond timer, attachment and detachment, the end of a transaction, the start
  of a frame and bus errors, in this order. Without \<^verbatim>\<open>USB_ENABLE_1MS_EVENT\<close> and \<^verbatim>\<open>USB_ENABLE_SOF_EVENT\<close>, as the
  configuration of the repository has it. The flags in \<open>hregs\<close> are set by the hardware; a write of 1 clears them.
\<close>

subsection \<open>The timer\<close>

text \<open>The device after a tick, and whether its waiting time is over.\<close>

definition tick_device :: "'p usb_device_info \<Rightarrow> 'p usb_device_info \<times> bool" where
  "tick_device d =
     (if numTimerInterrupts d = 0 then (d, False)
      else
        let d1 = d\<lparr>numTimerInterrupts := numTimerInterrupts d - 1\<rparr>
        in if numTimerInterrupts d1 \<noteq> 0 then (d1, False)
           else (if usbHostState d1 AND STATE_MASK \<noteq> STATE_DETACHED then USB_SetNextSubSubState d1 else d1, True))"

fun tick_slots :: "u8 list \<Rightarrow> 'p usb_host \<Rightarrow> 'p usb_host" where
  "tick_slots [] h = h"
| "tick_slots (a # as) h =
     (case tick_device (dev_at a h) of
        (d, over) \<Rightarrow>
          let h1 = dev_upd a (\<lambda>_. d) h
          in tick_slots as (if over then reg_upd (\<lambda>r. r\<lparr>U1OTGIE := U1OTGIE r AND NOT 0x40\<rparr>) h1 else h1))"

definition isr_timer :: "'p usb_host \<Rightarrow> 'p usb_host" where
  "isr_timer h =
     (if bit (U1OTGIE (hregs h)) 6 \<and> bit (U1OTGIR (hregs h)) 6
      then tick_slots (map of_nat [1..<length (usbDeviceInfo h)]) (reg_upd (\<lambda>r. r\<lparr>U1OTGIR := U1OTGIR r AND NOT 0x40\<rparr>) h)
      else h)"

subsection \<open>Attachment and detachment\<close>

definition isr_attach :: "'p usb_host \<Rightarrow> 'p usb_host" where
  "isr_attach h =
     (if bit (U1IE (hregs h)) 6 \<and> bit (U1IR (hregs h)) 6 then
        let h1 = reg_upd (\<lambda>r. r\<lparr>U1IE := U1IE r AND NOT 0x40, U1IR := U1IR r AND NOT 0x40\<rparr>) (fst (USBHostGetDeviceInfoOfFirstDevice h))
        in dev_upd 1 (\<lambda>d. if usbHostState d = STATE_DETACHED OR 0x30 then d\<lparr>usbOverrideHostState := STATE_ATTACHED\<rparr> else d) h1
      else h)"

definition isr_detach :: "'p usb_host \<Rightarrow> 'p usb_host" where
  "isr_detach h =
     (if bit (U1IE (hregs h)) 0 \<and> bit (U1IR (hregs h)) 0 then
        let h1 = reg_upd (\<lambda>r. r\<lparr>U1IR := U1IR r AND NOT 0x01, U1IE := U1IE r AND NOT 0x01\<rparr>) h
        in h1\<lparr>usbDeviceInfo := map (\<lambda>d. if deviceAddress d = 0 then d else d\<lparr>usbOverrideHostState := STATE_DETACHED\<rparr>) (usbDeviceInfo h1)\<rparr>
      else h)"

subsection \<open>The end of a transaction\<close>

definition error_state :: "'p host_ep \<Rightarrow> 'p host_ep" where
  "error_state e = e\<lparr>transferState := (transferState e AND 0xF0) OR 0x0F\<rparr>"

definition next_transfer_state :: "'p host_ep \<Rightarrow> 'p host_ep" where
  "next_transfer_state e = e\<lparr>transferState := transferState e + 1\<rparr>"

definition count_packet :: "u16 \<Rightarrow> 'p host_ep \<Rightarrow> 'p host_ep" where
  "count_packet n e = e\<lparr>dataCount := dataCount e + ucast n, countNAKs := 0, bfNextDATA01 := \<not> bfNextDATA01 e\<rparr>"

text \<open>A packet of data, in either direction: the last one is short or completes the transfer.\<close>

definition data_packet :: "u16 \<Rightarrow> 'p host_ep \<Rightarrow> 'p host_ep" where
  "data_packet n e =
     (let e1 = count_packet n e
      in if bfTransferType (he_bmAttributes e1) = Isochronous_Ep \<or> n < he_wMaxPacketSize e1 \<or> dataCount e1 \<ge> dataCountMax e1
         then next_transfer_state (e1\<lparr>bfTransferSuccessful := True\<rparr>) else e1)"

definition ack_packet :: "u16 \<Rightarrow> 'p host_ep \<Rightarrow> 'p host_ep" where
  "ack_packet n e =
     (if transferState e = 0x10 \<or> transferState e = 0x20 \<or> transferState e = 0x30 then
        let e1 = count_packet n e
        in if dataCount e1 \<ge> ucast (dataCountMaxSETUP e1) then next_transfer_state (e1\<lparr>dataCount := 0\<rparr>) else e1
      else data_packet n e)"

definition nak_timeout :: "'p host_ep \<Rightarrow> 'p host_ep" where
  "nak_timeout e =
     (if bfNAKTimeoutEnabled e \<and> countNAKs e > timeoutNAKs e then error_state (e\<lparr>bfError := True, bErrorCode := 0x17\<rparr>) else e)"

definition nak_packet :: "'p host_ep \<Rightarrow> 'p host_ep" where
  "nak_packet e =
     (let e1 = e\<lparr>bfLastTransferNAKd := True, countNAKs := countNAKs e + 1\<rparr>
      in case bfTransferType (he_bmAttributes e1) of
           Isochronous_Ep \<Rightarrow> next_transfer_state (e1\<lparr>bfTransferSuccessful := True\<rparr>)
         | Interrupt_Ep \<Rightarrow>
             if he_bEndpointAddress e1 AND 0x80 = 0 then nak_timeout e1
             else next_transfer_state (e1\<lparr>bfTransferSuccessful := True\<rparr>)
         | _ \<Rightarrow> nak_timeout e1)"

definition stall_packet :: "'p host_ep \<Rightarrow> 'p host_ep" where
  "stall_packet e = error_state (e\<lparr>bfStalled := True, bErrorCode := USB_ENDPOINT_STALLED\<rparr>)"

text \<open>The error counter has five bits.\<close>

definition count_error :: "'p host_ep \<Rightarrow> 'p host_ep" where
  "count_error e = e\<lparr>bfErrorCount := (bfErrorCount e + 1) AND 0x1F\<rparr>"

definition isr_packet :: "u8 \<Rightarrow> 'p usb_host \<Rightarrow> 'p usb_host" where
  "isr_packet a h =
     (let st = U1STAT (hregs h);
          bd = host_BDT h (if bit st 3 then (if bit st 2 then 3 else 2) else (if bit st 2 then 1 else 0));
          pid = bd_PID bd
      in if pid = 0x2 then cur_upd a (ack_packet (bd_count bd)) h
         else if pid = 0x3 \<or> pid = 0xB then cur_upd a (data_packet (bd_count bd)) h
         else if pid = 0xA then cur_upd a nak_packet h
         else if pid = 0xE then cur_upd a stall_packet h
         else
           let h1 = cur_upd a count_error h
           in if bfErrorCount (the (cur_ep a h1)) \<ge> 20
              then reg_upd (\<lambda>r. r\<lparr>U1EIR := 0, U1IR := U1IR r AND NOT 0x02\<rparr>)
                     (cur_upd a (\<lambda>e. error_state (e\<lparr>bfError := True, bErrorCode := 0x13\<rparr>)) h1)
              else h1)"

text \<open>The device of the transaction: address 0 stands for the first device that is not addressed yet.\<close>

definition transfer_slot :: "'p usb_host \<Rightarrow> u8" where
  "transfer_slot h =
     (let addr = U1ADDR (hregs h) AND 0x7F
      in if addr \<noteq> 0 then addr
         else (case position (\<lambda>d. usbHostState d AND STATE_MASK = STATE_ATTACHED \<or> usbHostState d AND STATE_MASK = 0x0200) (usbDeviceInfo h) of
                 None \<Rightarrow> 0 | Some i \<Rightarrow> of_nat i))"

definition isr_transfer :: "u8 \<Rightarrow> 'p usb_host \<Rightarrow> (host_fault + 'p usb_host) option" where
  "isr_transfer stale h =
     (if bit (U1IE (hregs h)) 3 \<and> bit (U1IR (hregs h)) 3 then
        let a = transfer_slot h; h0 = fst (USBHostGetDeviceInfoBySlotIndex a h)
        in case cur_ep a h0 of
             None \<Rightarrow> Some (Inl Null_Access)
           | Some e \<Rightarrow>
               if bit (U1IE (hregs h0)) 1 \<and> bit (U1IR (hregs h0)) 1 \<and> bfTransferType (he_bmAttributes e) \<noteq> Isochronous_Ep
               then Some (Inr h0)
               else
                 let h1 = reg_upd (\<lambda>r. r\<lparr>U1IR := U1IR r AND NOT 0x08\<rparr>) (h0\<lparr>bfTokenAlreadyWritten := False\<rparr>);
                     h2 = (if he_bEndpointAddress e AND 0x0F = U1TOK (hregs h1) AND 0x0F then isr_packet a h1 else h1)
                 in USB_FindNextToken stale a h2
      else Some (Inr h))"

subsection \<open>The start of a frame\<close>

definition sof_ep :: "'p host_ep \<Rightarrow> 'p host_ep" where
  "sof_ep e = e\<lparr>wIntervalCount :=
       (if bfTransferType (he_bmAttributes e) \<in> {Interrupt_Ep, Isochronous_Ep} \<and> wIntervalCount e \<noteq> 0 then wIntervalCount e - 1
        else wIntervalCount e), bfLastTransferNAKd := False\<rparr>"

definition sof_iface :: "'p host_iface \<Rightarrow> 'p host_iface" where
  "sof_iface i =
     (case pCurrentSetting i of None \<Rightarrow> i
      | Some k \<Rightarrow> i\<lparr>pInterfaceSettings := (pInterfaceSettings i)[k := (pInterfaceSettings i ! k)
                     \<lparr>pEndpointList := map sof_ep (pEndpointList (pInterfaceSettings i ! k))\<rparr>]\<rparr>)"

fun sof_slots :: "u8 \<Rightarrow> u8 list \<Rightarrow> 'p usb_host \<Rightarrow> (host_fault + 'p usb_host) option" where
  "sof_slots stale [] h = Some (Inr h)"
| "sof_slots stale (a # as) h =
     hbind (USB_FindNextToken stale a
              ((dev_upd a (\<lambda>d. d\<lparr>pInterfaceList := map sof_iface (pInterfaceList d)\<rparr>) h)
                \<lparr>bfControlTransfersDone := False, bfInterruptTransfersDone := False, bfIsochronousTransfersDone := False,
                 bfBulkTransfersDone := False, lastBulkTransaction := 0\<rparr>))
       (sof_slots stale as)"

definition isr_sof :: "u8 \<Rightarrow> 'p usb_host \<Rightarrow> (host_fault + 'p usb_host) option" where
  "isr_sof stale h =
     (if bit (U1IE (hregs h)) 2 \<and> bit (U1IR (hregs h)) 2
      then sof_slots stale (map of_nat [1..<length (usbDeviceInfo h)]) (reg_upd (\<lambda>r. r\<lparr>U1IR := U1IR r AND NOT 0x04\<rparr>) h)
      else Some (Inr h))"

subsection \<open>Bus errors\<close>

text \<open>The flags of \<^verbatim>\<open>U1EIR\<close>; the last one that is set counts.\<close>

definition bus_error_code :: "u8 \<Rightarrow> u8 \<Rightarrow> u8" where
  "bus_error_code eir old =
     (if bit eir 0 then 0x26 else if bit eir 1 then 0x25 else if bit eir 2 then 0x24 else if bit eir 3 then 0x23
      else if bit eir 4 then 0x22 else if bit eir 5 then 0x21 else if bit eir 7 then 0x20 else old)"

definition bus_error_ep :: "u8 \<Rightarrow> 'p host_ep \<Rightarrow> 'p host_ep" where
  "bus_error_ep eir e =
     (if bfTransferType (he_bmAttributes e) = Isochronous_Ep then e
      else
        let e1 = count_error e
        in if bfErrorCount e1 \<ge> 20 then error_state (e1\<lparr>bErrorCode := bus_error_code eir (bErrorCode e1), bfError := True\<rparr>) else e1)"

definition isr_error :: "'p usb_host \<Rightarrow> host_fault + 'p usb_host" where
  "isr_error h =
     (if bit (U1IE (hregs h)) 1 \<and> bit (U1IR (hregs h)) 1 then
        let a = U1ADDR (hregs h) AND 0x7F; h0 = (fst (USBHostGetDeviceInfoBySlotIndex a h))\<lparr>bfTokenAlreadyWritten := False\<rparr>
        in case cur_ep a h0 of
             None \<Rightarrow> Inl Null_Access
           | Some _ \<Rightarrow> Inr (reg_upd (\<lambda>r. r\<lparr>U1EIR := 0, U1IR := U1IR r AND NOT 0x02\<rparr>)
                             (cur_upd a (bus_error_ep (U1EIR (hregs h0))) h0))
      else Inr h)"

subsection \<open>The handler\<close>

definition USB_HostInterruptHandler :: "u8 \<Rightarrow> 'p usb_host \<Rightarrow> (host_fault + 'p usb_host) option" where
  "USB_HostInterruptHandler stale h =
     (let h1 = isr_detach (isr_attach (isr_timer (reg_upd (\<lambda>r. r\<lparr>IFS5 := IFS5 r AND 0xFFBF\<rparr>) h)))
      in hbind (isr_transfer stale h1) (\<lambda>h2. hbind (isr_sof stale h2) (\<lambda>h3. Some (isr_error h3))))"

end
