(* ===== verification/USB_Host_Wire.thy ===== *)
theory USB_Host_Wire
  imports USB_Host_Interrupt
begin

section \<open>The USB host stack: one device on the bus\<close>

text \<open>
  The surroundings of the host stack for one device, in slot 1. The hardware carries out a token: it takes the buffer descriptor
  that belongs to it, moves the bytes, writes the packet identifier and the count back and raises the interrupt. The device is
  a function from setup packets to its answer, a stall (\<open>None\<close>) or the data of the data stage, which it sends in packets
  of \<open>mx\<close> bytes, cut to the length the host asks for.

  A round is a millisecond: a call of \<^verbatim>\<open>USBHostTasks\<close>, the interrupt of the timer and the start of the frame, and the
  transaction that this starts, if any.
\<close>

record wire =
  wd_rest :: "u8 list"
  wd_stalled :: bool
  wd_log :: "u8 list list"

subsection \<open>The memory behind a buffer descriptor\<close>

fun host_buffer :: "'p host_data \<Rightarrow> 'p usb_device_info \<Rightarrow> u8 list" where
  "host_buffer EP0_Data d = (case pEP0Data d of None \<Rightarrow> [] | Some b \<Rightarrow> b)"
| "host_buffer Device_Descriptor d = (case pDeviceDescriptor d of None \<Rightarrow> [] | Some b \<Rightarrow> b)"
| "host_buffer Config_Descriptor d = (case pConfigurationDescriptorList d of [] \<Rightarrow> [] | c # _ \<Rightarrow> cfg_descriptor c)"
| "host_buffer _ d = []"

text \<open>\<^verbatim>\<open>pCurrentConfigurationDescriptor\<close> points to the same memory as the first of the list while a descriptor is read.\<close>

fun set_buffer :: "'p host_data \<Rightarrow> u8 list \<Rightarrow> 'p usb_device_info \<Rightarrow> 'p usb_device_info" where
  "set_buffer EP0_Data b d = d\<lparr>pEP0Data := Some b\<rparr>"
| "set_buffer Device_Descriptor b d = d\<lparr>pDeviceDescriptor := Some b\<rparr>"
| "set_buffer Config_Descriptor b d =
     (case pConfigurationDescriptorList d of [] \<Rightarrow> d
      | c # cs \<Rightarrow> d\<lparr>pConfigurationDescriptorList := c\<lparr>cfg_descriptor := b\<rparr> # cs, pCurrentConfigurationDescriptor := Some b\<rparr>)"
| "set_buffer _ b d = d"

definition overwrite_at :: "nat \<Rightarrow> u8 list \<Rightarrow> u8 list \<Rightarrow> u8 list" where
  "overwrite_at k bs xs = take k xs @ bs @ drop (k + length bs) xs"

subsection \<open>A transaction\<close>

definition owned_place :: "bool \<Rightarrow> 'p usb_host \<Rightarrow> nat" where
  "owned_place is_in h =
     (if is_in then (if bd_UOWN (host_BDT h 0) then 0 else 1) else (if bd_UOWN (host_BDT h 2) then 2 else 3))"

text \<open>The hardware's report of a transaction.\<close>

definition report :: "nat \<Rightarrow> u8 \<Rightarrow> u16 \<Rightarrow> 'p usb_host \<Rightarrow> 'p usb_host" where
  "report k pid n h =
     (reg_upd (\<lambda>r. r\<lparr>U1STAT := (if 2 \<le> k then 0x08 else 0) OR (if odd k then 0x04 else 0), U1IR := U1IR r OR 0x08\<rparr>) h)
       \<lparr>host_BDT := (host_BDT h)(k := (host_BDT h k)\<lparr>bd_PID := pid, bd_count := n, bd_UOWN := False\<rparr>)\<rparr>"

definition device_setup :: "(u8 list \<Rightarrow> u8 list option) \<Rightarrow> u8 list \<Rightarrow> wire \<Rightarrow> wire" where
  "device_setup rsp bs w =
     (case rsp bs of
        None \<Rightarrow> w\<lparr>wd_rest := [], wd_stalled := True, wd_log := wd_log w @ [bs]\<rparr>
      | Some D \<Rightarrow> w\<lparr>wd_rest := take (unat (bs ! 6) + 256 * unat (bs ! 7)) D, wd_stalled := False, wd_log := wd_log w @ [bs]\<rparr>)"

definition usb_transaction ::
  "(u8 list \<Rightarrow> u8 list option) \<Rightarrow> nat \<Rightarrow> wire \<Rightarrow> 'p usb_host \<Rightarrow> host_fault + wire \<times> 'p usb_host" where
  "usb_transaction rsp mx w h =
     (let tok = drop_bit 4 (U1TOK (hregs h)); k = owned_place (tok = USB_TOKEN_IN) h; bd = host_BDT h k;
          (p, off) = bd_ADR bd; b = host_buffer p (dev_at 1 h)
      in if tok = USB_TOKEN_SETUP then
           Inr (device_setup rsp (take (unat (bd_count bd)) (drop (unat off) b)) w, report k 0x2 (bd_count bd) h)
         else if wd_stalled w then Inr (w, report k 0xE 0 h)
         else if tok = USB_TOKEN_IN then
           (let bs = take mx (wd_rest w)
            in if length b < unat off + length bs \<and> bs \<noteq> [] then Inl Write_Past_End
               else Inr (w\<lparr>wd_rest := drop mx (wd_rest w)\<rparr>,
                 report k (if bd_DTS bd then 0xB else 0x3) (of_nat (length bs))
                   (if bs = [] then h else dev_upd 1 (set_buffer p (overwrite_at (unat off) bs b)) h)))
         else Inr (w, report k 0x2 (bd_count bd) h))"

subsection \<open>A round\<close>

definition ms_flags :: "host_regs \<Rightarrow> host_regs" where
  "ms_flags r = r\<lparr>U1OTGIR := U1OTGIR r OR 0x40, U1IR := U1IR r OR 0x04\<rparr>"

definition usb_frame ::
  "(u8 list \<Rightarrow> u8 list option) \<Rightarrow> nat \<Rightarrow> wire \<times> 'p usb_host \<Rightarrow> (host_fault + wire \<times> 'p usb_host) option" where
  "usb_frame rsp mx = (\<lambda>(w, h).
     hbind (USB_HostInterruptHandler 0 (reg_upd ms_flags h)) (\<lambda>h1.
       if \<not> bfTokenAlreadyWritten h1 then Some (Inr (w, h1))
       else hbind (Some (usb_transaction rsp mx w h1)) (\<lambda>(w1, h2).
         hbind (USB_HostInterruptHandler 0 h2) (\<lambda>h3. Some (Inr (w1, h3))))))"

definition usb_round ::
  "'p host_env \<Rightarrow> (u8 list \<Rightarrow> u8 list option) \<Rightarrow> nat \<Rightarrow> wire \<times> 'p usb_host \<Rightarrow> (host_fault + wire \<times> 'p usb_host) option" where
  "usb_round env rsp mx = (\<lambda>(w, h). hbind (USBHostTasks env h) (\<lambda>h1. usb_frame rsp mx (w, h1)))"

fun usb_rounds ::
  "'p host_env \<Rightarrow> (u8 list \<Rightarrow> u8 list option) \<Rightarrow> nat \<Rightarrow> nat \<Rightarrow> wire \<times> 'p usb_host \<Rightarrow> (host_fault + wire \<times> 'p usb_host) option" where
  "usb_rounds env rsp mx 0 s = Some (Inr s)"
| "usb_rounds env rsp mx (Suc n) s = hbind (usb_round env rsp mx s) (usb_rounds env rsp mx n)"

end
