(* ===== verification/USB_Host_Refs.thy ===== *)
theory USB_Host_Refs
  imports USB_Host_Token USB_Host_Requests
begin

section \<open>The USB host stack: the endpoints of a device\<close>

text \<open>
  Endpoint references under updates: the endpoints of the current settings form a fixed list of distinct references as long as
  only endpoints change, and an update of one leaves the others alone. What the search for an endpoint to serve returns.
\<close>

definition ifaces_ok :: "'p usb_device_info \<Rightarrow> bool" where
  "ifaces_ok d \<longleftrightarrow> (\<forall>i \<in> set (pInterfaceList d). \<forall>k. pCurrentSetting i = Some k \<longrightarrow> k < length (pInterfaceSettings i))"

definition ref_ok :: "'p usb_device_info \<Rightarrow> ep_ref \<Rightarrow> bool" where
  "ref_ok d r = (case r of Ep0 \<Rightarrow> pEndpoint0 d \<noteq> None
     | Ep_at n k j \<Rightarrow> n < length (pInterfaceList d) \<and> k < length (pInterfaceSettings (pInterfaceList d ! n)) \<and>
         j < length (pEndpointList (pInterfaceSettings (pInterfaceList d ! n) ! k)))"

text \<open>Two devices of the same shape: the same lists, with other endpoints in them.\<close>

definition shape :: "'p usb_device_info \<Rightarrow> (nat option \<times> nat list) list" where
  "shape d = map (\<lambda>i. (pCurrentSetting i, map (length \<circ> pEndpointList) (pInterfaceSettings i))) (pInterfaceList d)"

lemma ifaces_ok_shape: "ifaces_ok d \<longleftrightarrow> (\<forall>(c, ls) \<in> set (shape d). \<forall>k. c = Some k \<longrightarrow> k < length ls)"
  by (auto simp: ifaces_ok_def shape_def)

lemma ref_ok_at: "ref_ok d (Ep_at n k j) \<longleftrightarrow> n < length (shape d) \<and> k < length (snd (shape d ! n)) \<and> j < snd (shape d ! n) ! k"
  by (auto simp: ref_ok_def shape_def)

lemma map_update_same: "g x = g (xs ! k) \<Longrightarrow> map g (xs[k := x]) = map g xs"
  by (metis list_update_beyond list_update_id map_update not_le)

lemma shape_upd: "shape (ep_set r f d) = shape d"
  by (cases r) (auto simp: shape_def iface_map_ep_def intro!: map_update_same)

lemma ref_ok_upd [simp]: "ref_ok (ep_set r f d) s = ref_ok d s"
proof (cases s)
  case Ep0 then show ?thesis by (cases r) (auto simp: ref_ok_def)
qed (simp add: ref_ok_at shape_upd)

lemma ep_at_upd:
  assumes "ref_ok d r"
  shows "ep_at s (ep_set r f d) = (if s = r then f (ep_at r d) else ep_at s d)"
  using assms by (cases r; cases s) (auto simp: ref_ok_def iface_map_ep_def nth_list_update)

subsection \<open>The references of a search\<close>

lemma service_refs_shape: "shape d = shape d' \<Longrightarrow> ifaces_ok d \<Longrightarrow> service_refs d = service_refs d'"
proof -
  assume s: "shape d = shape d'" and ok: "ifaces_ok d"
  have l: "length (pInterfaceList d) = length (pInterfaceList d')" using s by (metis shape_def length_map)
  have "iface_refs n (pInterfaceList d ! n) = iface_refs n (pInterfaceList d' ! n)" if "n < length (pInterfaceList d)" for n
  proof -
    have e: "shape d ! n = shape d' ! n" using s by simp
    have p: "pCurrentSetting (pInterfaceList d ! n) = pCurrentSetting (pInterfaceList d' ! n)"
      "map (length \<circ> pEndpointList) (pInterfaceSettings (pInterfaceList d ! n)) =
         map (length \<circ> pEndpointList) (pInterfaceSettings (pInterfaceList d' ! n))"
      using e that l by (simp_all add: shape_def)
    show ?thesis
    proof (cases "pCurrentSetting (pInterfaceList d ! n)")
      case (Some k)
      then have k: "k < length (pInterfaceSettings (pInterfaceList d ! n))" using ok that by (auto simp: ifaces_ok_def)
      then have "(map (length \<circ> pEndpointList) (pInterfaceSettings (pInterfaceList d ! n))) ! k =
        (map (length \<circ> pEndpointList) (pInterfaceSettings (pInterfaceList d' ! n))) ! k" using p(2) by simp
      moreover have "k < length (pInterfaceSettings (pInterfaceList d' ! n))" using k map_eq_imp_length_eq[OF p(2)] by simp
      ultimately show ?thesis using Some p(1) k by (simp add: iface_refs_def)
    qed (use p in \<open>simp add: iface_refs_def\<close>)
  qed
  then show "service_refs d = service_refs d'" unfolding service_refs_def l by (auto intro!: arg_cong[where f = concat] map_cong simp: l)
qed

lemma service_refs_upd: "ifaces_ok d \<Longrightarrow> service_refs (ep_set r f d) = service_refs d"
  by (rule service_refs_shape) (simp_all add: shape_upd ifaces_ok_shape)

lemma ifaces_ok_upd [simp]: "ifaces_ok (ep_set r f d) = ifaces_ok d"
  by (simp add: ifaces_ok_shape shape_upd)

lemma service_ref_at: "r \<in> set (service_refs d) \<Longrightarrow> ifaces_ok d \<Longrightarrow> r \<noteq> Ep0 \<and> ref_ok d r"
  by (auto simp: service_refs_def iface_refs_def ref_ok_def ifaces_ok_def split: option.splits)

subsection \<open>Devices up to the interval counters\<close>

text \<open>The search changes the current endpoint and the interval counters only; the start of a frame also the NAK marks.\<close>

definition no_counts :: "'p usb_device_info \<Rightarrow> 'p usb_device_info" where
  "no_counts d = map_eps (\<lambda>e. e\<lparr>wIntervalCount := 0, bfLastTransferNAKd := False\<rparr>) (d\<lparr>pCurrentEndpoint := None\<rparr>)"

lemma shape_no_counts [simp]: "shape (no_counts d) = shape d"
  by (simp add: shape_def no_counts_def map_eps_def)

lemma no_counts_current [simp]: "no_counts (d\<lparr>pCurrentEndpoint := x\<rparr>) = no_counts d"
  by (simp add: no_counts_def)

lemma no_counts_upd: "no_counts (ep_set (Ep_at n k j) (\<lambda>e. e\<lparr>wIntervalCount := c\<rparr>) d) = no_counts d"
  by (simp add: no_counts_def map_eps_def iface_map_ep_def map_update_same)

lemma no_counts_shape: "no_counts d = no_counts d' \<Longrightarrow> shape d = shape d'"
  by (metis shape_no_counts)

lemma no_counts_ok: "no_counts d = no_counts d' \<Longrightarrow> ifaces_ok d = ifaces_ok d'"
  by (simp add: ifaces_ok_shape no_counts_shape[of d d'])

lemma no_counts_refs: "no_counts d = no_counts d' \<Longrightarrow> ifaces_ok d \<Longrightarrow> service_refs d = service_refs d'"
  by (rule service_refs_shape[OF no_counts_shape])

lemma no_counts_ep0: "no_counts d = no_counts d' \<Longrightarrow> pEndpoint0 d = pEndpoint0 d'"
  by (auto simp: no_counts_def map_eps_def dest!: arg_cong[where f = pEndpoint0])

lemma no_counts_at:
  assumes "ref_ok d r" "r \<noteq> Ep0"
  shows "ep_at r (no_counts d) = (ep_at r d)\<lparr>wIntervalCount := 0, bfLastTransferNAKd := False\<rparr>"
  using assms by (cases r) (auto simp: ref_ok_def no_counts_def map_eps_def)

lemma no_counts_ref_ok: "no_counts d = no_counts d' \<Longrightarrow> ref_ok d r = ref_ok d' r"
  by (cases r) (auto simp: ref_ok_at dest: no_counts_shape no_counts_ep0 simp: ref_ok_def[of _ Ep0])

lemma no_counts_same:
  assumes "no_counts d = no_counts d'" "ref_ok d r"
  shows "(ep_at r d)\<lparr>wIntervalCount := 0, bfLastTransferNAKd := False\<rparr> = (ep_at r d')\<lparr>wIntervalCount := 0, bfLastTransferNAKd := False\<rparr>"
proof (cases "r = Ep0")
  case True then show ?thesis using no_counts_ep0[OF assms(1)] by simp
next
  case False
  then show ?thesis using assms no_counts_at[OF assms(2)] no_counts_at[of d' r] no_counts_ref_ok[OF assms(1), of r] by simp
qed

subsection \<open>What a search finds\<close>

definition svc_due :: "transfer_type \<Rightarrow> 'p usb_device_info \<Rightarrow> ep_ref \<Rightarrow> bool" where
  "svc_due ty d r \<longleftrightarrow> bfTransferType (he_bmAttributes (ep_at r d)) = ty \<and> \<not> bfTransferComplete (ep_at r d) \<and>
     (ty = Bulk_Ep \<longrightarrow> \<not> bfLastTransferNAKd (ep_at r d)) \<and> (ty \<in> {Interrupt_Ep, Isochronous_Ep} \<longrightarrow> wIntervalCount (ep_at r d) = 0)"

text \<open>Endpoints with a transfer under way are not touched.\<close>

definition keeps_pending :: "'p usb_device_info \<Rightarrow> 'p usb_device_info \<Rightarrow> bool" where
  "keeps_pending d d' \<longleftrightarrow> no_counts d' = no_counts d \<and> (\<forall>s. ref_ok d s \<longrightarrow> \<not> bfTransferComplete (ep_at s d) \<longrightarrow> ep_at s d' = ep_at s d)"

lemma ep_at_current [simp]: "ep_at r (d\<lparr>pCurrentEndpoint := x\<rparr>) = ep_at r d"
  by (cases r) simp_all

lemma keeps_pending_refl [simp]: "keeps_pending d d" "keeps_pending d (d\<lparr>pCurrentEndpoint := x\<rparr>)"
  by (simp_all add: keeps_pending_def)

lemma keeps_complete:
  assumes "keeps_pending d d'" "ref_ok d s"
  shows "bfTransferComplete (ep_at s d') = bfTransferComplete (ep_at s d)"
  using arg_cong[OF no_counts_same[of d d' s], of bfTransferComplete] assms by (simp add: keeps_pending_def)

lemma keeps_due: "keeps_pending d d' \<Longrightarrow> ref_ok d s \<Longrightarrow> svc_due ty d' s = svc_due ty d s"
  using keeps_complete[of d d' s] by (auto simp: svc_due_def keeps_pending_def)

lemma keeps_pending_trans: "keeps_pending d d' \<Longrightarrow> keeps_pending d' d'' \<Longrightarrow> keeps_pending d d''"
  using keeps_complete[of d d'] no_counts_ref_ok[of d' d] unfolding keeps_pending_def by (metis keeps_complete keeps_pending_def)

lemma keeps_recount:
  assumes "ref_ok d r" "r \<noteq> Ep0" "bfTransferComplete (ep_at r d)"
  shows "keeps_pending d (ep_set r (\<lambda>e. e\<lparr>wIntervalCount := wInterval e\<rparr>) d)"
proof (cases r)
  case (Ep_at n k j)
  have "ep_set r (\<lambda>e. e\<lparr>wIntervalCount := wInterval e\<rparr>) d = ep_set r (\<lambda>e. e\<lparr>wIntervalCount := wInterval (ep_at r d)\<rparr>) d"
    by (simp add: Ep_at iface_map_ep_def)
  then show ?thesis using assms ep_at_upd[OF assms(1)] no_counts_upd unfolding keeps_pending_def by (auto simp: Ep_at)
qed (use assms in simp)

lemma service_scan_result:
  assumes "service_scan ty rs d cnt lst = (d', cnt', lst', found)" "Ep0 \<notin> set rs" "\<forall>r \<in> set rs. ref_ok d r"
  shows "keeps_pending d d' \<and>
    (if found then \<exists>r \<in> set rs. pCurrentEndpoint d' = Some r \<and> svc_due ty d r
     else pCurrentEndpoint d' = pCurrentEndpoint d \<and> (ty \<noteq> Bulk_Ep \<longrightarrow> (\<forall>r \<in> set rs. \<not> svc_due ty d r)))"
  using assms
proof (induction rs arbitrary: d cnt lst)
  case (Cons r rs)
  have ok: "Ep0 \<notin> set rs" "\<forall>r \<in> set rs. ref_ok d r" "ref_ok d r" "r \<noteq> Ep0" using Cons.prems by auto
  let ?d1 = "ep_set r (\<lambda>e. e\<lparr>wIntervalCount := wInterval e\<rparr>) d"
  consider "svc_due ty d r" "found" "d' = d\<lparr>pCurrentEndpoint := Some r\<rparr>"
    | c where "\<not> svc_due ty d r \<or> ty = Bulk_Ep" "service_scan ty rs d c lst = (d', cnt', lst', found)"
    | "ty \<noteq> Bulk_Ep" "bfTransferComplete (ep_at r d)" "service_scan ty rs ?d1 cnt lst = (d', cnt', lst', found)"
    using Cons.prems(1) by (auto simp: Let_def svc_due_def split: transfer_type.splits if_splits)
  then show ?case
  proof cases
    case (2 c)
    then show ?thesis using Cons.IH[OF 2(2) ok(1,2)] by (auto split: if_splits)
  next
    case 3
    have k: "keeps_pending d ?d1" by (rule keeps_recount[OF ok(3,4) 3(2)])
    have c: "pCurrentEndpoint ?d1 = pCurrentEndpoint d" by (cases r) simp_all
    have "\<not> svc_due ty d r" using 3(2) by (simp add: svc_due_def)
    moreover have "\<forall>s \<in> set rs. svc_due ty ?d1 s = svc_due ty d s" using keeps_due[OF k] ok(2) by blast
    ultimately show ?thesis using Cons.IH[OF 3(3) ok(1)] ok(2) keeps_pending_trans[OF k] c by (auto split: if_splits)
  qed auto
qed simp

end
