(* ===== verification/USB_Host_Turn.thy ===== *)
theory USB_Host_Turn
  imports USB_Host_Refs USB_Host_Interrupt
begin

section \<open>The USB host stack: the search for a token ends\<close>

text \<open>
  The loops of \<^verbatim>\<open>_USB_FindNextToken\<close> over interrupt and bulk endpoints end: a turn that sends no token completes a transfer,
  and a completed transfer does not come back. The loop over isochronous endpoints has no such end. The bulk endpoints take
  turns, in the order of the interfaces and round again.
\<close>

subsection \<open>Sending a token\<close>

lemma ep_at_pingpong [simp]:
  "ep_at r (d\<lparr>bfPingPongIn := x\<rparr>) = ep_at r d" "ep_at r (d\<lparr>bfPingPongOut := x\<rparr>) = ep_at r d"
  by (cases r; simp)+

lemma cur_ep_of: "cur_ep a h = Some e \<Longrightarrow> \<exists>r. pCurrentEndpoint (dev_at a h) = Some r \<and> e = ep_at r (dev_at a h)"
  by (auto simp: cur_ep_def)

lemma cur_ep_place:
  assumes "bdt_place t (fst (USBHostGetDeviceInfoOfFirstDevice h)) = (k, h1)" "1 < length (usbDeviceInfo h)"
  shows "cur_ep a h1 = cur_ep a h"
  using assms
  by (cases "unat a = 1")
     (auto simp: bdt_place_def cur_ep_def dev_upd_def USBHostGetDeviceInfoOfFirstDevice_def slot_of nth_list_update split: if_splits)

lemma send_token_ok:
  assumes "cur_ep a h = Some e" "1 < length (usbDeviceInfo h)" "t = USB_TOKEN_SETUP \<or> bfTransferType (he_bmAttributes e) \<noteq> Isochronous_Ep"
  shows "\<exists>h'. send_token a t h = Inr h' \<and> bfTokenAlreadyWritten h'"
proof -
  obtain k h1 where p: "bdt_place t (fst (USBHostGetDeviceInfoOfFirstDevice h)) = (k, h1)" by force
  have c: "cur_ep a h1 = Some e" using cur_ep_place[OF p assms(2)] assms(1) by simp
  have "cur_ep a (h1\<lparr>host_BDT := b\<rparr>) = cur_ep a h1" for b by (simp add: cur_ep_def)
  moreover have "\<exists>q. packet_address t e h1 = Inr q" using assms(3) by (auto simp: packet_address_def)
  then obtain q where "packet_address t e h1 = Inr q" by blast
  ultimately show ?thesis using c by (simp add: send_token_def USB_SetBDT_def p USB_SendToken_def Let_def reg_upd_def)
qed

subsection \<open>A service\<close>

definition ready :: "u8 \<Rightarrow> 'p usb_host \<Rightarrow> bool" where
  "ready a h \<longleftrightarrow> unat a < length (usbDeviceInfo h) \<and> 1 < length (usbDeviceInfo h) \<and> ifaces_ok (dev_at a h) \<and>
     length (service_refs (dev_at a h)) < 255 \<and> (\<exists>e. pEndpoint0 (dev_at a h) = Some e \<and> bfTransferType (he_bmAttributes e) = Control_Ep)"

definition pending :: "u8 \<Rightarrow> 'p usb_host \<Rightarrow> ep_ref set" where
  "pending a h = {r \<in> set (service_refs (dev_at a h)). \<not> bfTransferComplete (ep_at r (dev_at a h))}"

text \<open>What is still under way is as it was.\<close>

definition shrinks :: "u8 \<Rightarrow> 'p usb_host \<Rightarrow> 'p usb_host \<Rightarrow> bool" where
  "shrinks a h h' \<longleftrightarrow> ready a h' \<and> service_refs (dev_at a h') = service_refs (dev_at a h) \<and> pending a h' \<subseteq> pending a h \<and>
     (\<forall>r \<in> pending a h'. ep_at r (dev_at a h') = ep_at r (dev_at a h)) \<and>
     bfBulkTransfersDone h' = bfBulkTransfersDone h \<and> bfInterruptTransfersDone h' = bfInterruptTransfersDone h \<and>
     bfIsochronousTransfersDone h' = bfIsochronousTransfersDone h \<and> bfControlTransfersDone h' = bfControlTransfersDone h \<and>
     bfTokenAlreadyWritten h' = bfTokenAlreadyWritten h"

lemma shrinks_refl: "ready a h \<Longrightarrow> shrinks a h h"
  by (simp add: shrinks_def)

lemma shrinks_trans: "shrinks a h h1 \<Longrightarrow> shrinks a h1 h2 \<Longrightarrow> shrinks a h h2"
  by (auto simp: shrinks_def)

lemma cur_upd_shrinks:
  assumes "ready a h" "pCurrentEndpoint (dev_at a h) = Some r" "ref_ok (dev_at a h) r"
    "bfTransferComplete (f (ep_at r (dev_at a h)))" "r = Ep0 \<longrightarrow> bfTransferType (he_bmAttributes (f (ep_at r (dev_at a h)))) = Control_Ep"
  shows "shrinks a h (cur_upd a f h)" "cur_ep a (cur_upd a f h) = Some (f (ep_at r (dev_at a h)))"
    "pCurrentEndpoint (dev_at a (cur_upd a f h)) = Some r" "ref_ok (dev_at a (cur_upd a f h)) r" "r \<notin> pending a (cur_upd a f h)"
proof -
  have d: "dev_at a (cur_upd a f h) = ep_set r f (dev_at a h)" "usbDeviceInfo (cur_upd a f h) = (usbDeviceInfo h)[unat a := ep_set r f (dev_at a h)]"
    using assms(1,2) by (simp_all add: cur_upd_def dev_upd_def ready_def)
  have s: "service_refs (ep_set r f (dev_at a h)) = service_refs (dev_at a h)" using assms(1) by (simp add: service_refs_upd ready_def)
  have e: "ep_at s (ep_set r f (dev_at a h)) = (if s = r then f (ep_at r (dev_at a h)) else ep_at s (dev_at a h))" for s
    by (rule ep_at_upd[OF assms(3)])
  have r0: "\<exists>e. pEndpoint0 (ep_set r f (dev_at a h)) = Some e \<and> bfTransferType (he_bmAttributes e) = Control_Ep"
    using assms(1,5) by (cases r) (auto simp: ready_def)
  have c: "pCurrentEndpoint (ep_set r f (dev_at a h)) = Some r" using assms(2) by (cases r) simp_all
  show "shrinks a h (cur_upd a f h)"
    using assms(1,4) r0 by (auto simp: shrinks_def ready_def pending_def d s e) (simp_all add: cur_upd_def dev_upd_def)
  show "cur_ep a (cur_upd a f h) = Some (f (ep_at r (dev_at a h)))" using c assms(1) by (simp add: cur_ep_def d e ready_def)
  show "pCurrentEndpoint (dev_at a (cur_upd a f h)) = Some r" "ref_ok (dev_at a (cur_upd a f h)) r" "r \<notin> pending a (cur_upd a f h)"
    using c assms(1,3,4) by (simp_all add: d pending_def e ready_def)
qed

lemma queue_shrinks:
  assumes "ready a h" "pCurrentEndpoint (dev_at a h) = Some r" "ref_ok (dev_at a h) r" "bfTransferComplete (ep_at r (dev_at a h))"
  shows "shrinks a h (queue_event a f h)" "pCurrentEndpoint (dev_at a (queue_event a f h)) = Some r"
    "ref_ok (dev_at a (queue_event a f h)) r" "bfTransferComplete (ep_at r (dev_at a (queue_event a f h)))"
    "r \<notin> pending a (queue_event a f h)"
proof -
  let ?g = "\<lambda>e. e\<lparr>he_bmAttributes := 0x08\<rparr>"
  have c: "cur_ep a h = Some (ep_at r (dev_at a h))" using assms(2) by (simp add: cur_ep_def)
  have q: "queue_event a f h = (if length (usbEventQueue h) < 4 then h\<lparr>usbEventQueue := usbEventQueue h @ [f (ep_at r (dev_at a h))]\<rparr> else cur_upd a ?g h)"
    by (simp add: queue_event_def c)
  have b: "bfTransferType (he_bmAttributes (?g (ep_at r (dev_at a h)))) = Control_Ep" by (simp add: bfTransferType_def)
  have k: "shrinks a h (cur_upd a ?g h)" "cur_ep a (cur_upd a ?g h) = Some (?g (ep_at r (dev_at a h)))"
    "pCurrentEndpoint (dev_at a (cur_upd a ?g h)) = Some r" "ref_ok (dev_at a (cur_upd a ?g h)) r" "r \<notin> pending a (cur_upd a ?g h)"
    using cur_upd_shrinks[OF assms(1-3), of ?g] assms(4) b by simp_all
  have e: "ready a (h\<lparr>usbEventQueue := x\<rparr>) = ready a h" "pending a (h\<lparr>usbEventQueue := x\<rparr>) = pending a h" for x
    by (simp_all add: ready_def pending_def)
  show "shrinks a h (queue_event a f h)" unfolding q using k(1) assms(1) by (simp add: shrinks_def e)
  show "pCurrentEndpoint (dev_at a (queue_event a f h)) = Some r" "ref_ok (dev_at a (queue_event a f h)) r"
    "bfTransferComplete (ep_at r (dev_at a (queue_event a f h)))" "r \<notin> pending a (queue_event a f h)"
    unfolding q using k(2-5) assms by (auto simp: cur_ep_def e pending_def)
qed

text \<open>A service sends a token, or completes the transfer of the endpoint.\<close>

lemma close_shrinks:
  assumes "ready a h" "pCurrentEndpoint (dev_at a h) = Some r" "ref_ok (dev_at a h) r"
    "r = Ep0 \<longrightarrow> bfTransferType (he_bmAttributes (ep_at r (dev_at a h))) = Control_Ep" "ill \<or> bfTransferComplete (ep_at r (dev_at a h))"
  shows "\<exists>h' ill'. close_step iv ill a h = Inr (h', ill', False) \<and> shrinks a h h' \<and> r \<notin> pending a h'"
proof (cases ill)
  case True
  then show ?thesis using cur_upd_shrinks(1,5)[OF assms(1-3), of "end_transfer iv"] assms(4) by (auto simp: close_step_def end_transfer_def)
next
  case False
  then show ?thesis using assms(1,5) by (auto simp: close_step_def shrinks_refl pending_def)
qed

lemma end_shrinks:
  assumes "ready a h" "pCurrentEndpoint (dev_at a h) = Some r" "ref_ok (dev_at a h) r"
    "r = Ep0 \<longrightarrow> bfTransferType (he_bmAttributes (ep_at r (dev_at a h))) = Control_Ep"
  shows "\<exists>h' ill'. close_step iv ill a (queue_event a f (cur_upd a (end_transfer iv) h)) = Inr (h', ill', False) \<and> shrinks a h h' \<and> r \<notin> pending a h'"
proof -
  let ?h1 = "cur_upd a (end_transfer iv) h" let ?h2 = "queue_event a f ?h1"
  note u = cur_upd_shrinks[OF assms(1-3), of "end_transfer iv"]
  have s1: "shrinks a h ?h1" "pCurrentEndpoint (dev_at a ?h1) = Some r" "ref_ok (dev_at a ?h1) r" "bfTransferComplete (ep_at r (dev_at a ?h1))"
    using u assms(4) by (auto simp: end_transfer_def cur_ep_def)
  have r1: "ready a ?h1" using s1(1) by (simp add: shrinks_def)
  note q = queue_shrinks[OF r1 s1(2-4), of f]
  have r2: "ready a ?h2" using q(1) by (simp add: shrinks_def)
  have "r = Ep0 \<longrightarrow> bfTransferType (he_bmAttributes (ep_at r (dev_at a ?h2))) = Control_Ep" using r2 by (auto simp: ready_def)
  from close_shrinks[OF r2 q(2,3) this] q(4) obtain h' ill' where
    "close_step iv ill a ?h2 = Inr (h', ill', False)" "shrinks a ?h2 h'" "r \<notin> pending a h'" by blast
  then show ?thesis using shrinks_trans[OF s1(1) shrinks_trans[OF q(1)]] by blast
qed

lemma no_token:
  "\<exists>h' ill'. x = Inr (h', ill', False) \<and> P h' \<Longrightarrow> \<exists>h' ill' sent. x = Inr (h', ill', sent) \<and> (if sent then Q h' else P h')"
  by (metis (full_types))

lemma step_shrinks:
  assumes "ready a h" "pCurrentEndpoint (dev_at a h) = Some r" "ref_ok (dev_at a h) r"
    "r = Ep0 \<longrightarrow> bfTransferType (he_bmAttributes (ep_at r (dev_at a h))) = Control_Ep"
    "bfTransferType (he_bmAttributes (ep_at r (dev_at a h))) \<noteq> Isochronous_Ep"
  shows "\<exists>h' ill' sent. apply_step iv st ill a h = Inr (h', ill', sent) \<and>
    (if sent then bfTokenAlreadyWritten h' else shrinks a h h' \<and> r \<notin> pending a h')"
proof (cases st)
  case (Send_Token t dts lim)
  define f :: "'a host_ep \<Rightarrow> 'a host_ep" where "f = (\<lambda>e. (case dts of None \<Rightarrow> e | Some b \<Rightarrow> e\<lparr>bfNextDATA01 := b\<rparr>)
                 \<lparr>dataCountMax := (if lim then dataCount e else dataCountMax e)\<rparr>)"
  have t: "he_bmAttributes (f e) = he_bmAttributes e" for e by (simp add: f_def split: option.split)
  have d: "dev_at a (cur_upd a f h) = ep_set r f (dev_at a h)" using assms(1,2) by (simp add: cur_upd_def dev_upd_def ready_def)
  have "pCurrentEndpoint (ep_set r f (dev_at a h)) = Some r" using assms(2) by (cases r) simp_all
  then have c: "cur_ep a (cur_upd a f h) = Some (f (ep_at r (dev_at a h)))"
    using ep_at_upd[OF assms(3), of r f] unfolding cur_ep_def d by simp
  have l: "1 < length (usbDeviceInfo (cur_upd a f h))" using assms(1) by (simp add: ready_def cur_upd_def dev_upd_def)
  from send_token_ok[OF c l] assms(5) t obtain h' where "send_token a t (cur_upd a f h) = Inr h'" "bfTokenAlreadyWritten h'" by metis
  then show ?thesis by (auto simp: Send_Token apply_step_def f_def)
next
  case Transfer_Done
  then have "apply_step iv st ill a h = close_step iv ill a (queue_event a (transfer_event (deviceAddress (dev_at a h))) (cur_upd a (end_transfer iv) h))" by (simp add: apply_step_def Let_def)
  then show ?thesis by (simp only:) (rule no_token, use end_shrinks[OF assms(1-4)] in simp)
next
  case Transfer_Failed
  then have "apply_step iv st ill a h = close_step iv ill a (queue_event a (\<lambda>e. error_event (deviceAddress (dev_at a h)) (he_clientDriver e) e) (cur_upd a (end_transfer iv) h))" by (simp add: apply_step_def Let_def)
  then show ?thesis by (simp only:) (rule no_token, use end_shrinks[OF assms(1-4)] in simp)
next
  case Illegal_State
  then have "apply_step iv st ill a h = close_step iv True a h" by (simp add: apply_step_def Let_def)
  then show ?thesis by (simp only:) (rule no_token, use close_shrinks[OF assms(1-4), of True iv] in simp)
qed

subsection \<open>The loops\<close>

lemma find_shrinks:
  assumes "ready a h" "ty \<noteq> Control_Ep \<or> bfTransferComplete (the (pEndpoint0 (dev_at a h)))"
  shows "\<exists>h1 found. USB_FindServiceEndpoint ty a h = Some (h1, found) \<and> shrinks a h h1 \<and> pending a h1 = pending a h \<and>
    (found \<longrightarrow> (\<exists>r \<in> pending a h1. pCurrentEndpoint (dev_at a h1) = Some r \<and> bfTransferType (he_bmAttributes (ep_at r (dev_at a h1))) = ty))"
proof -
  let ?d = "dev_at a h"
  have ok: "ifaces_ok ?d" and len: "unat a < length (usbDeviceInfo h)" using assms(1) by (simp_all add: ready_def)
  obtain e where e: "pEndpoint0 ?d = Some e" "bfTransferType (he_bmAttributes e) = Control_Ep" using assms(1) by (auto simp: ready_def)
  obtain d' cnt lst found where sc: "service_scan ty (service_refs ?d) ?d 0 (lastBulkTransaction h) = (d', cnt, lst, found)"
    by (metis prod_cases4)
  have refs: "Ep0 \<notin> set (service_refs ?d)" "\<forall>r \<in> set (service_refs ?d). ref_ok ?d r" using service_ref_at[OF _ ok] by blast+
  note R = service_scan_result[OF sc refs]
  let ?h1 = "(dev_upd a (\<lambda>_. d') h)\<lparr>countBulkTransactions := cnt, lastBulkTransaction := lst\<rparr>"
  have f: "USB_FindServiceEndpoint ty a h = Some (?h1, found)"
    unfolding USB_FindServiceEndpoint_def Let_def by (simp add: e sc) (use assms(2) e in auto)
  have d1: "dev_at a (dev_upd a (\<lambda>_. d') h) = d'" using len by (simp add: dev_upd_def)
  have k: "keeps_pending ?d d'" using R by blast
  then have n: "no_counts ?d = no_counts d'" by (simp add: keeps_pending_def)
  have sr: "service_refs d' = service_refs ?d" "ifaces_ok d'" "pEndpoint0 d' = pEndpoint0 ?d"
    using no_counts_refs[OF n ok] no_counts_ok[OF n] no_counts_ep0[OF n] ok by simp_all
  have pe: "pending a ?h1 = pending a h" using keeps_complete[OF k] refs(2) by (auto simp: pending_def d1 sr)
  have "shrinks a h ?h1"
    using assms(1) pe k refs(2) by (auto simp: shrinks_def ready_def d1 sr keeps_pending_def pending_def) (auto simp: dev_upd_def)
  moreover have "\<exists>r \<in> pending a ?h1. pCurrentEndpoint (dev_at a ?h1) = Some r \<and> bfTransferType (he_bmAttributes (ep_at r (dev_at a ?h1))) = ty" if found
  proof -
    from R that obtain r where r: "r \<in> set (service_refs ?d)" "pCurrentEndpoint d' = Some r" "svc_due ty ?d r" by auto
    then have "svc_due ty d' r" using keeps_due[OF k] refs(2) by blast
    with r show ?thesis unfolding pe by (intro bexI[of _ r]) (simp_all add: pending_def svc_due_def d1)
  qed
  ultimately show ?thesis using f pe by blast
qed

lemma pending_finite [simp]: "finite (pending a h)"
  by (simp add: pending_def)

lemma ready_flags [simp]:
  "ready a (h\<lparr>bfInterruptTransfersDone := x\<rparr>) = ready a h" "ready a (h\<lparr>lastBulkTransaction := y\<rparr>) = ready a h"
  "ready a (h\<lparr>bfIsochronousTransfersDone := x\<rparr>) = ready a h" "ready a (h\<lparr>bfControlTransfersDone := x\<rparr>) = ready a h"
  "pending a (h\<lparr>bfInterruptTransfersDone := x\<rparr>) = pending a h" "pending a (h\<lparr>lastBulkTransaction := y\<rparr>) = pending a h"
  "pending a (h\<lparr>bfIsochronousTransfersDone := x\<rparr>) = pending a h" "pending a (h\<lparr>bfControlTransfersDone := x\<rparr>) = pending a h"
  by (simp_all add: ready_def pending_def)

lemma pending_less: "shrinks a h h' \<Longrightarrow> r \<in> pending a h \<Longrightarrow> r \<notin> pending a h' \<Longrightarrow> card (pending a h') < card (pending a h)"
  by (intro psubset_card_mono) (auto simp: shrinks_def)

text \<open>One service of an endpoint the search has found.\<close>

lemma serve_shrinks:
  assumes "ready a h" "r \<in> pending a h" "pCurrentEndpoint (dev_at a h) = Some r"
    "bfTransferType (he_bmAttributes (ep_at r (dev_at a h))) \<noteq> Isochronous_Ep"
  shows "\<exists>h' ill' sent. rbind (need Null_Access (cur_ep a h)) (\<lambda>e. apply_step iv (g (transferState e)) ill a h) = Inr (h', ill', sent) \<and>
    (if sent then bfTokenAlreadyWritten h' else shrinks a h h' \<and> card (pending a h') < card (pending a h))"
proof -
  have "r \<noteq> Ep0 \<and> ref_ok (dev_at a h) r" using service_ref_at[of r "dev_at a h"] assms(1,2) by (simp add: ready_def pending_def)
  moreover have "cur_ep a h = Some (ep_at r (dev_at a h))" using assms(3) by (simp add: cur_ep_def)
  ultimately show ?thesis
    using step_shrinks[OF assms(1,3), of iv "g (transferState (ep_at r (dev_at a h)))" ill] pending_less[OF _ assms(2)] assms(4)
    by (fastforce split: if_splits)
qed

lemma interrupt_returns:
  assumes "ready a h"
  shows "\<exists>h' ill' sent. interrupt_loop a ill h = Some (Inr (h', ill', sent)) \<and>
    (if sent then bfTokenAlreadyWritten h' else \<exists>h2. shrinks a h h2 \<and> h' = h2\<lparr>bfInterruptTransfersDone := True\<rparr>)"
  using assms
proof (induction "card (pending a h)" arbitrary: h ill rule: less_induct)
  case less
  from find_shrinks[OF less.prems, of Interrupt_Ep] obtain h1 found where F: "USB_FindServiceEndpoint Interrupt_Ep a h = Some (h1, found)"
    "shrinks a h h1" "pending a h1 = pending a h" "found \<longrightarrow> (\<exists>r \<in> pending a h1. pCurrentEndpoint (dev_at a h1) = Some r \<and>
       bfTransferType (he_bmAttributes (ep_at r (dev_at a h1))) = Interrupt_Ep)" by auto
  show ?case
  proof (cases found)
    case False
    then show ?thesis using F(1,2) by (subst interrupt_loop.simps) auto
  next
    case True
    then obtain r where r: "r \<in> pending a h1" "pCurrentEndpoint (dev_at a h1) = Some r"
      "bfTransferType (he_bmAttributes (ep_at r (dev_at a h1))) \<noteq> Isochronous_Ep" using F(4) by auto
    have r1: "ready a h1" using F(2) by (simp add: shrinks_def)
    from serve_shrinks[OF r1 r, of True interrupt_step ill] obtain h2 ill2 sent where S:
      "rbind (need Null_Access (cur_ep a h1)) (\<lambda>e. apply_step True (interrupt_step (transferState e)) ill a h1) = Inr (h2, ill2, sent)"
      "if sent then bfTokenAlreadyWritten h2 else shrinks a h1 h2 \<and> card (pending a h2) < card (pending a h1)" by blast
    show ?thesis
    proof (cases sent)
      case True
      then show ?thesis using F(1) S \<open>found\<close> by (subst interrupt_loop.simps) auto
    next
      case False
      with S(2) have s2: "shrinks a h1 h2" "card (pending a h2) < card (pending a h)" using F(3) by simp_all
      then have "ready a h2" by (simp add: shrinks_def)
      from less.hyps[OF s2(2) this, of ill2] obtain h3 ill3 sent3 where I: "interrupt_loop a ill2 h2 = Some (Inr (h3, ill3, sent3))"
        "if sent3 then bfTokenAlreadyWritten h3 else \<exists>h4. shrinks a h2 h4 \<and> h3 = h4\<lparr>bfInterruptTransfersDone := True\<rparr>" by blast
      have "interrupt_loop a ill h = interrupt_loop a ill2 h2" using F(1) S(1) \<open>found\<close> False by (subst interrupt_loop.simps) simp
      then show ?thesis using I shrinks_trans[OF F(2) shrinks_trans[OF s2(1)]] by (auto split: if_splits)
    qed
  qed
qed

text \<open>One search for a bulk endpoint: the due endpoint whose number is the counter, or none, and then all due ones are counted.\<close>

lemma bulk_find:
  assumes "ready a h"
  defines "due \<equiv> bulk_due (dev_at a h)"
  shows "\<exists>h1. USB_FindServiceEndpoint Bulk_Ep a h = Some (h1, unat (lastBulkTransaction h) < length due) \<and>
    bfBulkTransfersDone h1 = bfBulkTransfersDone h \<and> length (usbDeviceInfo h1) = length (usbDeviceInfo h) \<and>
    (if unat (lastBulkTransaction h) < length due
     then dev_at a h1 = (dev_at a h)\<lparr>pCurrentEndpoint := Some (due ! unat (lastBulkTransaction h))\<rparr> \<and>
       lastBulkTransaction h1 = lastBulkTransaction h + 1 \<and> countBulkTransactions h1 = lastBulkTransaction h + 1
     else dev_at a h1 = dev_at a h \<and> countBulkTransactions h1 = of_nat (length due))"
proof -
  have l: "length (service_refs (dev_at a h)) < 256" "unat a < length (usbDeviceInfo h)" using assms(1) by (simp_all add: ready_def)
  obtain e where e: "pEndpoint0 (dev_at a h) = Some e" "bfTransferType (he_bmAttributes e) \<noteq> Bulk_Ep" using assms(1) by (auto simp: ready_def)
  note S = bulk_scan[of 0 "service_refs (dev_at a h)" "lastBulkTransaction h" "dev_at a h"]
  show ?thesis
    using l e S unfolding due_def bulk_due_def USB_FindServiceEndpoint_def by (auto simp: Let_def dev_upd_def)
qed

lemma due_less: "ready a h \<Longrightarrow> length (bulk_due (dev_at a h)) < 255"
  using length_filter_le[of "bulk_ep_due (dev_at a h)" "service_refs (dev_at a h)"] unfolding bulk_due_def ready_def by linarith

lemma bulk_none:
  assumes "ready a h" "USB_FindServiceEndpoint Bulk_Ep a h = Some (h1, False)"
  shows "countBulkTransactions h1 = 0 \<longleftrightarrow> bulk_due (dev_at a h1) = []" "lastBulkTransaction h = 0 \<Longrightarrow> countBulkTransactions h1 = 0"
proof -
  from bulk_find[OF assms(1)] assms(2) have b: "\<not> unat (lastBulkTransaction h) < length (bulk_due (dev_at a h))"
    "dev_at a h1 = dev_at a h" "countBulkTransactions h1 = of_nat (length (bulk_due (dev_at a h)))" by (auto split: if_splits)
  have "(of_nat n :: u8) = 0 \<longleftrightarrow> n = 0" if "n < 255" for n
    using that by (simp add: word_unat_eq_iff unat_of_nat)
  then show "countBulkTransactions h1 = 0 \<longleftrightarrow> bulk_due (dev_at a h1) = []" using b(2,3) due_less[OF assms(1)] by simp
  then show "lastBulkTransaction h = 0 \<Longrightarrow> countBulkTransactions h1 = 0" using b by simp
qed

lemma step_counts:
  "apply_step iv s ill a h = Inr (h2, ill2, False) \<Longrightarrow> countBulkTransactions h2 = countBulkTransactions h"
proof (cases s)
  case (Send_Token t b l)
  have "rbind x (\<lambda>h1. Inr (h1, ill, True)) \<noteq> Inr (h2, ill2, False)" for x :: "host_fault + 'a usb_host" by (cases x) (simp_all add: rbind_def)
  then show "apply_step iv s ill a h = Inr (h2, ill2, False) \<Longrightarrow> countBulkTransactions h2 = countBulkTransactions h"
    by (simp add: apply_step_def Let_def Send_Token)
qed (auto simp: apply_step_def close_step_def queue_event_def cur_upd_def dev_upd_def Let_def split: if_splits option.splits)

lemma bulk_returns:
  assumes "ready a h"
  shows "\<exists>h' ill' sent. bulk_loop a ill h = Some (Inr (h', ill', sent)) \<and>
    (if sent then bfTokenAlreadyWritten h' else bfBulkTransfersDone h' \<and> bfControlTransfersDone h' = bfControlTransfersDone h \<and>
      bfInterruptTransfersDone h' = bfInterruptTransfersDone h \<and> bfIsochronousTransfersDone h' = bfIsochronousTransfersDone h \<and>
      (bfBulkTransfersDone h \<or> bulk_due (dev_at a h') = []))"
    (is "\<exists>h' ill' sent. _ h ill h' ill' sent \<and> ?ok h h' sent")
  using assms
proof (induction "2 * card (pending a h) + (if lastBulkTransaction h \<noteq> 0 then 1 else 0)" arbitrary: h ill rule: less_induct)
  case less
  from find_shrinks[OF less.prems, of Bulk_Ep] obtain h1 found where F: "USB_FindServiceEndpoint Bulk_Ep a h = Some (h1, found)"
    "shrinks a h h1" "pending a h1 = pending a h" "found \<longrightarrow> (\<exists>r \<in> pending a h1. pCurrentEndpoint (dev_at a h1) = Some r \<and>
       bfTransferType (he_bmAttributes (ep_at r (dev_at a h1))) = Bulk_Ep)" by auto
  have r1: "ready a h1" using F(2) by (simp add: shrinks_def)
  have again: "\<exists>h' ill' sent. bulk_loop a ill2 (h2\<lparr>lastBulkTransaction := 0\<rparr>) = Some (Inr (h', ill', sent)) \<and> ?ok h h' sent"
    if s: "shrinks a h h2" and m: "2 * card (pending a h2) < 2 * card (pending a h) + (if lastBulkTransaction h \<noteq> 0 then 1 else 0)" for h2 ill2
  proof -
    have r: "ready a (h2\<lparr>lastBulkTransaction := 0\<rparr>)" using s by (simp add: shrinks_def)
    have "2 * card (pending a (h2\<lparr>lastBulkTransaction := 0\<rparr>)) + (if lastBulkTransaction (h2\<lparr>lastBulkTransaction := 0\<rparr>) \<noteq> 0 then 1 else 0)
      < 2 * card (pending a h) + (if lastBulkTransaction h \<noteq> 0 then 1 else 0)" using m by simp
    from less.hyps[OF this r, of ill2] s show ?thesis by (simp add: shrinks_def split del: if_split cong: if_cong)
  qed
  show ?case
  proof (cases "bfBulkTransfersDone h")
    case True
    then show ?thesis by (subst bulk_loop.simps) auto
  next
    case nd: False
    show ?thesis
    proof (cases found)
      case False
      show ?thesis
      proof (cases "countBulkTransactions h1 = 0")
        case True
        then have "bulk_due (dev_at a h1) = []" using bulk_none(1)[OF less.prems, of h1] F(1) False by simp
        then show ?thesis using F(1,2) nd False True by (subst bulk_loop.simps) (auto simp: shrinks_def)
      next
        case c: False
        then have "lastBulkTransaction h \<noteq> 0" using bulk_none(2)[OF less.prems, of h1] F(1) False by auto
        moreover have "bulk_loop a ill h = bulk_loop a ill (h1\<lparr>lastBulkTransaction := 0\<rparr>)" using F(1) nd False c by (subst bulk_loop.simps) simp
        ultimately show ?thesis using again[OF F(2)] F(3) by simp
      qed
    next
      case True
      then obtain r where r: "r \<in> pending a h1" "pCurrentEndpoint (dev_at a h1) = Some r"
        "bfTransferType (he_bmAttributes (ep_at r (dev_at a h1))) \<noteq> Isochronous_Ep" using F(4) by auto
      from serve_shrinks[OF r1 r, of False bulk_step ill] obtain h2 ill2 sent where S:
        "rbind (need Null_Access (cur_ep a h1)) (\<lambda>e. apply_step False (bulk_step (transferState e)) ill a h1) = Inr (h2, ill2, sent)"
        "if sent then bfTokenAlreadyWritten h2 else shrinks a h1 h2 \<and> card (pending a h2) < card (pending a h1)" by blast
      show ?thesis
      proof (cases sent)
        case t: True
        then show ?thesis using F(1) S nd True by (subst bulk_loop.simps) auto
      next
        case f: False
        with S(2) have s2: "shrinks a h h2" "card (pending a h2) < card (pending a h)" using F(3) shrinks_trans[OF F(2)] by simp_all
        have "countBulkTransactions h2 \<noteq> 0"
        proof -
          have l: "unat (lastBulkTransaction h) < length (bulk_due (dev_at a h))" "countBulkTransactions h1 = lastBulkTransaction h + 1"
            using bulk_find[OF less.prems] F(1) True by (auto split: if_splits)
          then have "unat (lastBulkTransaction h + 1) \<noteq> 0" using due_less[OF less.prems] by (simp add: unat_word_ariths)
          moreover have "countBulkTransactions h2 = countBulkTransactions h1"
            using S(1) f step_counts by (auto simp: rbind_def need_def split: option.splits sum.splits)
          ultimately show ?thesis using l(2) by auto
        qed
        then have "bulk_loop a ill h = bulk_loop a ill2 (h2\<lparr>lastBulkTransaction := 0\<rparr>)"
            using F(1) S(1) nd \<open>found\<close> f by (subst bulk_loop.simps) simp
        then show ?thesis using again[OF s2(1), of ill2] s2(2) by simp
      qed
    qed
  qed
qed

subsection \<open>Whose turn it is\<close>

text \<open>The number of the due bulk endpoint that comes next: the counter of the served ones, or the first when all have been served.\<close>

definition bulk_turn :: "u8 \<Rightarrow> 'p usb_host \<Rightarrow> nat" where
  "bulk_turn a h = (if unat (lastBulkTransaction h) < length (bulk_due (dev_at a h)) then unat (lastBulkTransaction h) else 0)"

lemma bulk_next:
  assumes "ready a h" "\<not> bfBulkTransfersDone h" "bulk_due (dev_at a h) \<noteq> []"
  shows "\<exists>h1. bulk_loop a ill h =
      (case rbind (need Null_Access (cur_ep a h1)) (\<lambda>e. apply_step False (bulk_step (transferState e)) ill a h1) of
         Inl f \<Rightarrow> Some (Inl f)
       | Inr (h2, ill2, sent) \<Rightarrow>
           if sent then Some (Inr (h2, ill2, True))
           else if countBulkTransactions h2 \<noteq> 0 then bulk_loop a ill2 (h2\<lparr>lastBulkTransaction := 0\<rparr>)
           else Some (Inr (h2\<lparr>bfBulkTransfersDone := True\<rparr>, ill2, False))) \<and>
    dev_at a h1 = (dev_at a h)\<lparr>pCurrentEndpoint := Some (bulk_due (dev_at a h) ! bulk_turn a h)\<rparr> \<and>
    length (usbDeviceInfo h1) = length (usbDeviceInfo h) \<and> unat (lastBulkTransaction h1) = Suc (bulk_turn a h)"
proof (cases "unat (lastBulkTransaction h) < length (bulk_due (dev_at a h))")
  case True
  have "unat (lastBulkTransaction h + 1) = Suc (unat (lastBulkTransaction h))"
    using True due_less[OF assms(1)] by (simp add: unat_word_ariths)
  moreover obtain h1 where h1: "USB_FindServiceEndpoint Bulk_Ep a h = Some (h1, True)" "length (usbDeviceInfo h1) = length (usbDeviceInfo h)"
    "dev_at a h1 = (dev_at a h)\<lparr>pCurrentEndpoint := Some (bulk_due (dev_at a h) ! unat (lastBulkTransaction h))\<rparr>"
    "lastBulkTransaction h1 = lastBulkTransaction h + 1"
    using bulk_find[OF assms(1)] True by auto
  ultimately show ?thesis using True assms(2) h1 by (intro exI[of _ h1]) (simp add: bulk_loop.simps[of a ill h] bulk_turn_def)
next
  case False
  let ?due = "bulk_due (dev_at a h)"
  obtain h0 where h0: "USB_FindServiceEndpoint Bulk_Ep a h = Some (h0, False)" "length (usbDeviceInfo h0) = length (usbDeviceInfo h)"
    "dev_at a h0 = dev_at a h" "countBulkTransactions h0 = of_nat (length ?due)" "bfBulkTransfersDone h0 = bfBulkTransfersDone h"
    using bulk_find[OF assms(1)] False by auto
  let ?h = "h0\<lparr>lastBulkTransaction := 0\<rparr>"
  have r: "ready a ?h" using assms(1) h0(2,3) by (simp add: ready_def)
  have "countBulkTransactions h0 \<noteq> 0" using bulk_none(1)[OF assms(1) h0(1)] h0(3) assms(3) by simp
  then have l: "bulk_loop a ill h = bulk_loop a ill ?h" using h0(1) assms(2) by (subst bulk_loop.simps) simp
  obtain h1 where h1: "USB_FindServiceEndpoint Bulk_Ep a ?h = Some (h1, True)" "length (usbDeviceInfo h1) = length (usbDeviceInfo h)"
    "dev_at a h1 = (dev_at a h)\<lparr>pCurrentEndpoint := Some (?due ! 0)\<rparr>" "lastBulkTransaction h1 = 1"
    using bulk_find[OF r] h0(2,3) assms(3) by auto
  then show ?thesis using False assms(2) h0(5) unfolding l
    by (intro exI[of _ h1]) (simp add: bulk_loop.simps[of a ill ?h] bulk_turn_def)
qed

text \<open>A token that is sent is one for the current endpoint.\<close>

lemma send_token_does:
  assumes "cur_ep a h = Some e" "1 < length (usbDeviceInfo h)" "unat a < length (usbDeviceInfo h)"
    "bfTransferType (he_bmAttributes e) \<noteq> Isochronous_Ep"
  shows "\<exists>h'. send_token a t h = Inr h' \<and> bfTokenAlreadyWritten h' \<and> pCurrentEndpoint (dev_at a h') = pCurrentEndpoint (dev_at a h) \<and>
    lastBulkTransaction h' = lastBulkTransaction h \<and> U1TOK (hregs h') = push_bit 4 t OR (he_bEndpointAddress e AND 0x7F) \<and>
    U1ADDR (hregs h') = deviceAddressAndSpeed (dev_at a h)"
proof -
  obtain k h1 where p: "bdt_place t (fst (USBHostGetDeviceInfoOfFirstDevice h)) = (k, h1)" by force
  have c: "cur_ep a h1 = Some e" using cur_ep_place[OF p assms(2)] assms(1) by simp
  have d: "pCurrentEndpoint (dev_at a h1) = pCurrentEndpoint (dev_at a h)" "lastBulkTransaction h1 = lastBulkTransaction h"
    "deviceAddressAndSpeed (dev_at a h1) = deviceAddressAndSpeed (dev_at a h)"
    using p assms(2,3) by (cases "unat a = 1";
      auto simp: bdt_place_def dev_upd_def USBHostGetDeviceInfoOfFirstDevice_def slot_of nth_list_update split: if_splits)+
  have "cur_ep a (h1\<lparr>host_BDT := b\<rparr>) = cur_ep a h1" for b by (simp add: cur_ep_def)
  moreover have "\<exists>q. packet_address t e h1 = Inr q" using assms(4) by (auto simp: packet_address_def)
  then obtain q where "packet_address t e h1 = Inr q" by blast
  ultimately show ?thesis using c d by (simp add: send_token_def USB_SetBDT_def p USB_SendToken_def Let_def reg_upd_def)
qed

lemma bulk_token:
  assumes "ready a h" "\<not> bfBulkTransfersDone h" "bulk_due (dev_at a h) \<noteq> []"
  defines "r \<equiv> bulk_due (dev_at a h) ! bulk_turn a h"
  assumes "bulk_step (transferState (ep_at r (dev_at a h))) = Send_Token t None False"
  shows "\<exists>h'. bulk_loop a ill h = Some (Inr (h', ill, True)) \<and> bfTokenAlreadyWritten h' \<and> pCurrentEndpoint (dev_at a h') = Some r \<and>
    unat (lastBulkTransaction h') = Suc (bulk_turn a h) \<and>
    U1TOK (hregs h') = push_bit 4 t OR (he_bEndpointAddress (ep_at r (dev_at a h)) AND 0x7F) \<and>
    U1ADDR (hregs h') = deviceAddressAndSpeed (dev_at a h)"
proof -
  let ?d = "dev_at a h" let ?f = "\<lambda>e. e\<lparr>dataCountMax := dataCountMax e\<rparr> :: 'a host_ep"
  from bulk_next[OF assms(1-3), of ill] obtain h1 where N: "bulk_loop a ill h =
      (case rbind (need Null_Access (cur_ep a h1)) (\<lambda>e. apply_step False (bulk_step (transferState e)) ill a h1) of
         Inl f \<Rightarrow> Some (Inl f)
       | Inr (h2, ill2, sent) \<Rightarrow>
           if sent then Some (Inr (h2, ill2, True))
           else if countBulkTransactions h2 \<noteq> 0 then bulk_loop a ill2 (h2\<lparr>lastBulkTransaction := 0\<rparr>)
           else Some (Inr (h2\<lparr>bfBulkTransfersDone := True\<rparr>, ill2, False)))"
    "dev_at a h1 = ?d\<lparr>pCurrentEndpoint := Some r\<rparr>" "length (usbDeviceInfo h1) = length (usbDeviceInfo h)"
    "unat (lastBulkTransaction h1) = Suc (bulk_turn a h)" unfolding r_def by blast
  have len: "unat a < length (usbDeviceInfo h)" "1 < length (usbDeviceInfo h)" and ok: "ifaces_ok ?d" using assms(1) by (simp_all add: ready_def)
  have m: "r \<in> set (bulk_due ?d)" using assms(3) unfolding r_def by (intro nth_mem) (simp add: bulk_turn_def)
  then have rr: "r \<in> set (service_refs ?d)" "bfTransferType (he_bmAttributes (ep_at r ?d)) = Bulk_Ep"
    by (simp_all add: bulk_due_def bulk_ep_due_def)
  then have r0: "r \<noteq> Ep0" "ref_ok ?d r" using service_ref_at[of r ?d] ok by blast+
  have c1: "cur_ep a h1 = Some (ep_at r ?d)" by (simp add: cur_ep_def N(2))
  have "ref_ok (?d\<lparr>pCurrentEndpoint := Some r\<rparr>) r" using r0 by (cases r) (simp_all add: ref_ok_def)
  then have c2: "cur_ep a (cur_upd a ?f h1) = Some (?f (ep_at r ?d))" and p2: "pCurrentEndpoint (dev_at a (cur_upd a ?f h1)) = Some r"
    "deviceAddressAndSpeed (dev_at a (cur_upd a ?f h1)) = deviceAddressAndSpeed ?d"
    using len N(2,3) r0 ep_at_upd[of "?d\<lparr>pCurrentEndpoint := Some r\<rparr>" r r ?f]
    by (cases r; simp add: cur_ep_def cur_upd_def dev_upd_def)+
  have l2: "length (usbDeviceInfo (cur_upd a ?f h1)) = length (usbDeviceInfo h)" "lastBulkTransaction (cur_upd a ?f h1) = lastBulkTransaction h1"
    using N(3) by (simp_all add: cur_upd_def dev_upd_def)
  have b2: "bfTransferType (he_bmAttributes (?f (ep_at r ?d))) \<noteq> Isochronous_Ep" using rr(2) by (simp add: bfTransferType_def)
  from send_token_does[OF c2 _ _ b2, of t] len l2 obtain h' where h': "send_token a t (cur_upd a ?f h1) = Inr h'" "bfTokenAlreadyWritten h'"
    "pCurrentEndpoint (dev_at a h') = Some r" "lastBulkTransaction h' = lastBulkTransaction h1"
    "U1TOK (hregs h') = push_bit 4 t OR (he_bEndpointAddress (?f (ep_at r ?d)) AND 0x7F)" "U1ADDR (hregs h') = deviceAddressAndSpeed ?d"
    unfolding p2 by auto
  have "apply_step False (bulk_step (transferState (ep_at r ?d))) ill a h1 = Inr (h', ill, True)"
    using h'(1) unfolding assms(5) by (simp add: apply_step_def Let_def)
  then show ?thesis using N(1,4) c1 h' by simp
qed

subsection \<open>The whole search\<close>

text \<open>No isochronous transfer is under way.\<close>

definition no_isoc :: "u8 \<Rightarrow> 'p usb_host \<Rightarrow> bool" where
  "no_isoc a h \<longleftrightarrow> (\<forall>r \<in> pending a h. bfTransferType (he_bmAttributes (ep_at r (dev_at a h))) \<noteq> Isochronous_Ep)"

lemma no_isoc_shrinks: "no_isoc a h \<Longrightarrow> shrinks a h h' \<Longrightarrow> no_isoc a h'"
  by (auto simp: no_isoc_def shrinks_def)

lemma find_control:
  assumes "ready a h"
  shows "\<exists>h1 found. USB_FindServiceEndpoint Control_Ep a h = Some (h1, found) \<and> shrinks a h h1 \<and>
    (found \<longrightarrow> (\<exists>r. ref_ok (dev_at a h1) r \<and> pCurrentEndpoint (dev_at a h1) = Some r \<and>
       bfTransferType (he_bmAttributes (ep_at r (dev_at a h1))) = Control_Ep))"
proof (cases "\<exists>e. pEndpoint0 (dev_at a h) = Some e \<and> \<not> bfTransferComplete e")
  case True
  then obtain e where e: "pEndpoint0 (dev_at a h) = Some e" "\<not> bfTransferComplete e" "bfTransferType (he_bmAttributes e) = Control_Ep"
    using assms by (auto simp: ready_def)
  let ?h1 = "dev_upd a (\<lambda>d. d\<lparr>pCurrentEndpoint := Some Ep0\<rparr>) h"
  have f: "USB_FindServiceEndpoint Control_Ep a h = Some (?h1, True)" using e by (simp add: USB_FindServiceEndpoint_def)
  have d: "dev_at a ?h1 = (dev_at a h)\<lparr>pCurrentEndpoint := Some Ep0\<rparr>" using assms by (simp add: dev_upd_def ready_def)
  have "shrinks a h ?h1" using assms unfolding shrinks_def ready_def pending_def d by (auto simp: ifaces_ok_def) (simp_all add: dev_upd_def)
  then show ?thesis using f d e by (auto simp: ref_ok_def)
next
  case False
  then obtain e where e: "pEndpoint0 (dev_at a h) = Some e" "bfTransferComplete e" using assms by (auto simp: ready_def)
  from find_shrinks[OF assms, of Control_Ep] e obtain h1 found where F: "USB_FindServiceEndpoint Control_Ep a h = Some (h1, found)"
    "shrinks a h h1" "found \<longrightarrow> (\<exists>r \<in> pending a h1. pCurrentEndpoint (dev_at a h1) = Some r \<and>
       bfTransferType (he_bmAttributes (ep_at r (dev_at a h1))) = Control_Ep)" by auto
  have "ref_ok (dev_at a h1) r" if "r \<in> pending a h1" for r
    using service_ref_at[of r "dev_at a h1"] that F(2) by (simp add: pending_def shrinks_def ready_def)
  with F show ?thesis by blast
qed

lemma control_returns:
  assumes "ready a h"
  shows "\<exists>h' ill' sent. control_section a ill h = Inr (h', ill', sent) \<and>
    (if sent then bfTokenAlreadyWritten h' else \<exists>h2. shrinks a h h2 \<and> h' = h2\<lparr>bfControlTransfersDone := True\<rparr>)"
proof (cases "bfControlTransfersDone h")
  case True
  then have "h\<lparr>bfControlTransfersDone := True\<rparr> = h" by (cases h) simp
  then show ?thesis using True shrinks_refl[OF assms] by (auto simp: control_section_def intro!: exI[of _ False] exI[of _ h])
next
  case False
  from find_control[OF assms] obtain h1 found where F: "USB_FindServiceEndpoint Control_Ep a h = Some (h1, found)" "shrinks a h h1"
    "found \<longrightarrow> (\<exists>r. ref_ok (dev_at a h1) r \<and> pCurrentEndpoint (dev_at a h1) = Some r \<and>
       bfTransferType (he_bmAttributes (ep_at r (dev_at a h1))) = Control_Ep)" by blast
  show ?thesis
  proof (cases found)
    case False
    then show ?thesis using F(1,2) \<open>\<not> bfControlTransfersDone h\<close> by (auto simp: control_section_def)
  next
    case True
    then obtain r where r: "ref_ok (dev_at a h1) r" "pCurrentEndpoint (dev_at a h1) = Some r"
      "bfTransferType (he_bmAttributes (ep_at r (dev_at a h1))) = Control_Ep" using F(3) by blast
    have r1: "ready a h1" using F(2) by (simp add: shrinks_def)
    have c: "cur_ep a h1 = Some (ep_at r (dev_at a h1))" using r(2) by (simp add: cur_ep_def)
    have z: "r = Ep0 \<longrightarrow> bfTransferType (he_bmAttributes (ep_at r (dev_at a h1))) = Control_Ep"
      "bfTransferType (he_bmAttributes (ep_at r (dev_at a h1))) \<noteq> Isochronous_Ep" using r(3) by (blast, simp)
    from step_shrinks[OF r1 r(2,1) z, of False "control_step (transferState (ep_at r (dev_at a h1)))" ill] obtain h2 ill2 sent where
      S: "apply_step False (control_step (transferState (ep_at r (dev_at a h1)))) ill a h1 = Inr (h2, ill2, sent)"
      "if sent then bfTokenAlreadyWritten h2 else shrinks a h1 h2 \<and> r \<notin> pending a h2" by blast
    have "control_section a ill h = Inr (h2\<lparr>bfControlTransfersDone := True\<rparr>, ill2, sent)"
      using F(1) \<open>\<not> bfControlTransfersDone h\<close> True c S(1) by (simp add: control_section_def)
    then show ?thesis using S(2) shrinks_trans[OF F(2)] \<open>\<not> bfControlTransfersDone h\<close> by (cases sent) auto
  qed
qed

lemma isoc_returns:
  assumes "ready a h" "bfIsochronousTransfersDone h \<or> no_isoc a h"
  shows "\<exists>h2. shrinks a h h2 \<and> isoc_section stale a ill h = Some (Inr (h2\<lparr>bfIsochronousTransfersDone := True\<rparr>, ill, False))"
proof (cases "bfIsochronousTransfersDone h")
  case True
  moreover from this have "h\<lparr>bfIsochronousTransfersDone := True\<rparr> = h" by (cases h) simp
  ultimately show ?thesis using shrinks_refl[OF assms(1)] by (auto simp: isoc_section_def intro!: exI[of _ h])
next
  case False
  from find_shrinks[OF assms(1), of Isochronous_Ep] obtain h1 found where F: "USB_FindServiceEndpoint Isochronous_Ep a h = Some (h1, found)"
    "shrinks a h h1" "found \<longrightarrow> (\<exists>r \<in> pending a h1. pCurrentEndpoint (dev_at a h1) = Some r \<and>
       bfTransferType (he_bmAttributes (ep_at r (dev_at a h1))) = Isochronous_Ep)" by auto
  have "no_isoc a h1" using no_isoc_shrinks[OF _ F(2)] assms(2) False by blast
  then have "\<not> found" using F(3) by (auto simp: no_isoc_def)
  then have "isoc_loop stale a ill h = Some (Inr (h1\<lparr>bfIsochronousTransfersDone := True\<rparr>, ill, False))" using F(1) by (subst isoc_loop.simps) simp
  then show ?thesis using F(2) False by (auto simp: isoc_section_def)
qed

text \<open>The test for a suspended device masks out the state it compares with.\<close>

lemma never_suspended:
  "s AND (SUBSTATE_MASK OR SUBSUBSTATE_MASK) \<noteq> STATE_RUNNING OR SUBSTATE_SUSPEND_AND_RESUME" for s :: u16
proof
  assume a: "s AND (SUBSTATE_MASK OR SUBSUBSTATE_MASK) = STATE_RUNNING OR SUBSTATE_SUSPEND_AND_RESUME"
  have "bit (s AND (SUBSTATE_MASK OR SUBSUBSTATE_MASK)) 10 = bit (STATE_RUNNING OR SUBSTATE_SUSPEND_AND_RESUME :: u16) 10" by (simp only: a)
  then show False by (simp add: bit_simps)
qed

lemma find_next_returns:
  assumes "ready a h" "bfIsochronousTransfersDone h \<or> no_isoc a h"
  shows "\<exists>h'. USB_FindNextToken stale a h = Some (Inr h') \<and> (bfTokenAlreadyWritten h' \<or> bfControlTransfersDone h' \<and>
    bfIsochronousTransfersDone h' \<and> bfInterruptTransfersDone h' \<and> bfBulkTransfersDone h')"
proof (cases "bfTokenAlreadyWritten h")
  case True
  then show ?thesis by (simp add: USB_FindNextToken_def)
next
  case False
  have sus: "usbHostState (dev_at a h) AND (SUBSTATE_MASK OR SUBSUBSTATE_MASK) \<noteq> STATE_RUNNING OR SUBSTATE_SUSPEND_AND_RESUME"
    by (rule never_suspended)
  from control_returns[OF assms(1), of False] obtain h1 ill1 sent1 where C: "control_section a False h = Inr (h1, ill1, sent1)"
    "if sent1 then bfTokenAlreadyWritten h1 else \<exists>h2. shrinks a h h2 \<and> h1 = h2\<lparr>bfControlTransfersDone := True\<rparr>" by blast
  show ?thesis
  proof (cases sent1)
    case True
    then show ?thesis using C False sus by (simp add: USB_FindNextToken_def)
  next
    case n1: False
    with C(2) obtain g1 where g1: "shrinks a h g1" "h1 = g1\<lparr>bfControlTransfersDone := True\<rparr>" by auto
    have r1: "ready a h1" using g1 by (simp add: shrinks_def)
    have i1: "bfIsochronousTransfersDone h1 \<or> no_isoc a h1"
      using assms(2) no_isoc_shrinks[OF _ g1(1)] g1 by (auto simp: shrinks_def no_isoc_def)
    from isoc_returns[OF r1 i1] obtain g2 where g2: "shrinks a h1 g2"
      "isoc_section stale a ill1 h1 = Some (Inr (g2\<lparr>bfIsochronousTransfersDone := True\<rparr>, ill1, False))" by blast
    let ?h2 = "g2\<lparr>bfIsochronousTransfersDone := True\<rparr>"
    have r2: "ready a ?h2" using g2(1) by (simp add: shrinks_def)
    have c2: "bfControlTransfersDone ?h2" using g1(2) g2(1) by (simp add: shrinks_def)
    obtain h3 ill3 sent3 where I: "interrupt_section a ill1 ?h2 = Some (Inr (h3, ill3, sent3))"
      "if sent3 then bfTokenAlreadyWritten h3 else ready a h3 \<and> bfControlTransfersDone h3 \<and> bfIsochronousTransfersDone h3 \<and> bfInterruptTransfersDone h3"
    proof (cases "bfInterruptTransfersDone ?h2")
      case True
      then show ?thesis using that[of ?h2 ill1 False] r2 c2 by (simp add: interrupt_section_def)
    next
      case False
      from interrupt_returns[OF r2, of ill1] obtain h' ill' sent where R: "interrupt_loop a ill1 ?h2 = Some (Inr (h', ill', sent))"
        "if sent then bfTokenAlreadyWritten h' else \<exists>h2. shrinks a ?h2 h2 \<and> h' = h2\<lparr>bfInterruptTransfersDone := True\<rparr>" by blast
      show ?thesis
        by (rule that[of h' ill' sent]) (use R False c2 in \<open>auto simp: interrupt_section_def shrinks_def split: if_splits\<close>)
    qed
    show ?thesis
    proof (cases sent3)
      case True
      then show ?thesis using C(1) n1 g2(2) I False sus by (simp add: USB_FindNextToken_def)
    next
      case n3: False
      then have "ready a h3" using I(2) by simp
      from bulk_returns[OF this, of ill3] obtain h4 ill4 sent4 where "bulk_loop a ill3 h3 = Some (Inr (h4, ill4, sent4))"
        "if sent4 then bfTokenAlreadyWritten h4 else bfBulkTransfersDone h4 \<and> bfControlTransfersDone h4 = bfControlTransfersDone h3 \<and>
          bfInterruptTransfersDone h4 = bfInterruptTransfersDone h3 \<and> bfIsochronousTransfersDone h4 = bfIsochronousTransfersDone h3 \<and>
          (bfBulkTransfersDone h3 \<or> bulk_due (dev_at a h4) = [])" by blast
      then show ?thesis using C(1) n1 g2(2) I n3 False sus by (auto simp: USB_FindNextToken_def split: if_splits)
    qed
  qed
qed

subsection \<open>Isochronous transfers\<close>

text \<open>An isochronous endpoint that is due, without data to send, or whose buffer still has data for the client.\<close>

definition isoc_blocked :: "u8 \<Rightarrow> ep_ref \<Rightarrow> 'p usb_host \<Rightarrow> bool" where
  "isoc_blocked a r h \<longleftrightarrow> svc_due Isochronous_Ep (dev_at a h) r \<and>
     (\<exists>p d b. isoc_at (ep_at r (dev_at a h)) h = Inr (p, d, b) \<and>
        (transferState (ep_at r (dev_at a h)) = 0x70 \<and> \<not> bfDataLengthValid b \<or> transferState (ep_at r (dev_at a h)) = 0x60 \<and> bfDataLengthValid b))"

definition isoc_stuck :: "u8 \<Rightarrow> 'p usb_host \<Rightarrow> bool" where
  "isoc_stuck a h \<longleftrightarrow> unat a < length (usbDeviceInfo h) \<and>
     (\<exists>e. pEndpoint0 (dev_at a h) = Some e \<and> bfTransferType (he_bmAttributes e) = Control_Ep) \<and>
     (\<exists>r rs. service_refs (dev_at a h) = r # rs \<and> isoc_blocked a r h)"

lemma isoc_turn:
  assumes "isoc_stuck a h"
  shows "\<exists>h1. USB_FindServiceEndpoint Isochronous_Ep a h = Some (h1, True) \<and> isoc_service stale False a h1 = Inr (h1, False, False) \<and> isoc_stuck a h1"
proof -
  from assms obtain r rs e p d b where A: "unat a < length (usbDeviceInfo h)" "pEndpoint0 (dev_at a h) = Some e"
    "bfTransferType (he_bmAttributes e) = Control_Ep" "service_refs (dev_at a h) = r # rs" "svc_due Isochronous_Ep (dev_at a h) r"
    "isoc_at (ep_at r (dev_at a h)) h = Inr (p, d, b)"
    "transferState (ep_at r (dev_at a h)) = 0x70 \<and> \<not> bfDataLengthValid b \<or> transferState (ep_at r (dev_at a h)) = 0x60 \<and> bfDataLengthValid b"
    by (auto simp: isoc_stuck_def isoc_blocked_def)
  let ?h1 = "(dev_upd a (\<lambda>_. (dev_at a h)\<lparr>pCurrentEndpoint := Some r\<rparr>) h)\<lparr>countBulkTransactions := 0, lastBulkTransaction := lastBulkTransaction h\<rparr>"
  have F: "USB_FindServiceEndpoint Isochronous_Ep a h = Some (?h1, True)"
    using A by (simp add: USB_FindServiceEndpoint_def Let_def svc_due_def)
  have d1: "dev_at a (dev_upd a (\<lambda>_. (dev_at a h)\<lparr>pCurrentEndpoint := Some r\<rparr>) h) = (dev_at a h)\<lparr>pCurrentEndpoint := Some r\<rparr>"
    using A(1) by (simp add: dev_upd_def)
  have i1: "isoc_at x ?h1 = isoc_at x h" for x by (simp add: isoc_at_def dev_upd_def split: host_data.split)
  have c1: "cur_ep a ?h1 = Some (ep_at r (dev_at a h))" by (simp add: cur_ep_def d1)
  have "isoc_service stale False a ?h1 = Inr (?h1, False, False)"
    unfolding isoc_service_def c1 using A(6,7) by (auto simp: isoc_read_def isoc_write_def i1 close_step_def Let_def)
  moreover have "isoc_stuck a ?h1"
    using A unfolding isoc_stuck_def isoc_blocked_def i1 by (auto simp: d1 svc_due_def) (simp_all add: dev_upd_def)
  ultimately show ?thesis using F by blast
qed

lemma isoc_loop_stuck: "isoc_loop stale a ill h = Some y \<Longrightarrow> \<not> ill \<longrightarrow> isoc_stuck a h \<longrightarrow> False"
proof (erule isoc_loop.raw_induct [where P = "\<lambda>stale a ill h y. \<not> ill \<longrightarrow> isoc_stuck a h \<longrightarrow> False", rotated], intro impI)
  fix f :: "u8 \<Rightarrow> u8 \<Rightarrow> bool \<Rightarrow> 'a usb_host \<Rightarrow> (host_fault + 'a usb_host \<times> bool \<times> bool) option" and stale a ill h y
  assume IH: "\<And>stale a ill h y. f stale a ill h = Some y \<Longrightarrow> \<not> ill \<longrightarrow> isoc_stuck a h \<longrightarrow> False"
    and s: "\<not> ill" "isoc_stuck a h"
    and r: "(case USB_FindServiceEndpoint Isochronous_Ep a h of None \<Rightarrow> Some (Inl Null_Access)
      | Some (h1, found) \<Rightarrow> if \<not> found then Some (Inr (h1\<lparr>bfIsochronousTransfersDone := True\<rparr>, ill, False))
          else (case isoc_service stale ill a h1 of Inl f \<Rightarrow> Some (Inl f)
                | Inr (h2, ill2, sent) \<Rightarrow> if sent then Some (Inr (h2, ill2, True)) else f stale a ill2 h2)) = Some y"
  from isoc_turn[OF s(2), of stale] obtain h1 where h1: "USB_FindServiceEndpoint Isochronous_Ep a h = Some (h1, True)"
    "isoc_service stale False a h1 = Inr (h1, False, False)" "isoc_stuck a h1" by blast
  have "f stale a False h1 = Some y" using r h1 s(1) by simp
  from IH[OF this] h1(3) show False by simp
qed

lemma find_next_stuck:
  assumes "isoc_stuck a h" "bfControlTransfersDone h" "\<not> bfIsochronousTransfersDone h" "\<not> bfTokenAlreadyWritten h"
  shows "USB_FindNextToken stale a h = None"
proof -
  have "isoc_loop stale a False h = None" using isoc_loop_stuck[of stale a False h] assms(1) by (cases "isoc_loop stale a False h") auto
  then show ?thesis using assms(2-4) never_suspended[of "usbHostState (dev_at a h)"]
    by (simp add: USB_FindNextToken_def control_section_def isoc_section_def)
qed

subsection \<open>A full queue\<close>

lemma ep_set_twice: "ref_ok d r \<Longrightarrow> ep_set r f (ep_set r g d) = ep_set r (\<lambda>e. f (g e)) d"
  by (cases r) (auto simp: ref_ok_def iface_map_ep_def option.map_comp comp_def)

lemma dev_upd_fields [simp]:
  "usbEventQueue (dev_upd a f h) = usbEventQueue h" "length (usbDeviceInfo (dev_upd a f h)) = length (usbDeviceInfo h)"
  "bfBulkTransfersDone (dev_upd a f h) = bfBulkTransfersDone h" "bfTokenAlreadyWritten (dev_upd a f h) = bfTokenAlreadyWritten h"
  by (simp_all add: dev_upd_def)

lemma find_in_eps_same: "map he_bEndpointAddress es = map he_bEndpointAddress es' \<Longrightarrow> find_in_eps a es = find_in_eps a es'"
  by (induction es arbitrary: es') (auto simp: Cons_eq_map_conv)

lemma find_in_ifaces_same:
  "list_all2 (\<lambda>i i'. pCurrentSetting i = pCurrentSetting i' \<and> (\<forall>k. find_in_eps a (pEndpointList (pInterfaceSettings i ! k)) =
     find_in_eps a (pEndpointList (pInterfaceSettings i' ! k)))) is is' \<Longrightarrow> find_in_ifaces a n is = find_in_ifaces a n is'"
  by (induction "is" is' arbitrary: n rule: list_all2_induct) (auto split: option.split)

lemma find_endpoint_current [simp]: "USB_FindEndpoint (d\<lparr>pCurrentEndpoint := y\<rparr>) x = USB_FindEndpoint d x"
  by (simp add: USB_FindEndpoint_def)

lemma find_endpoint_upd:
  assumes "\<And>e. he_bEndpointAddress (f e) = he_bEndpointAddress e"
  shows "USB_FindEndpoint (ep_set r f d) x = USB_FindEndpoint d x"
proof (cases r)
  case (Ep_at n k j)
  have "find_in_eps x (pEndpointList (pInterfaceSettings (iface_map_ep k j f i) ! m)) = find_in_eps x (pEndpointList (pInterfaceSettings i ! m))"
    "pCurrentSetting (iface_map_ep k j f i) = pCurrentSetting i" for i m
    using assms by (cases "m = k \<and> k < length (pInterfaceSettings i)")
      (auto simp: iface_map_ep_def nth_list_update list_update_beyond intro!: find_in_eps_same map_update_same)
  then have "find_in_ifaces x 0 ((pInterfaceList d)[n := iface_map_ep k j f (pInterfaceList d ! n)]) = find_in_ifaces x 0 (pInterfaceList d)"
    by (cases "n < length (pInterfaceList d)") (auto simp: list_all2_conv_all_nth nth_list_update intro!: find_in_ifaces_same)
  then show ?thesis by (simp add: Ep_at USB_FindEndpoint_def)
qed (simp add: USB_FindEndpoint_def option.map_comp comp_def)

lemma cur_upd_at:
  assumes "unat a < length (usbDeviceInfo h)" "pCurrentEndpoint (dev_at a h) = Some r"
  shows "cur_upd a f h = dev_upd a (\<lambda>_. ep_set r f (dev_at a h)) h"
  using assms by (simp add: cur_upd_def dev_upd_def)

lemma bulk_done_full:
  assumes "ready a h" "service_refs (dev_at a h) = [r]" "svc_due Bulk_Ep (dev_at a h) r" "transferState (ep_at r (dev_at a h)) \<in> {0x81, 0x91}"
    "4 \<le> length (usbEventQueue h)" "\<not> bfBulkTransfersDone h" "lastBulkTransaction h = 0"
  shows "\<exists>h' ill. bulk_loop a False h = Some (Inr (h', ill, False)) \<and> usbEventQueue h' = usbEventQueue h \<and>
    length (usbDeviceInfo h') = length (usbDeviceInfo h) \<and>
    dev_at a h' = (ep_set r (\<lambda>e. (end_transfer False e)\<lparr>he_bmAttributes := 0x08\<rparr>) (dev_at a h))\<lparr>pCurrentEndpoint := Some r\<rparr>"
proof -
  let ?d = "dev_at a h" let ?d1 = "?d\<lparr>pCurrentEndpoint := Some r\<rparr>"
  let ?g = "\<lambda>e. (end_transfer False e)\<lparr>he_bmAttributes := 0x08\<rparr>"
  have len: "unat a < length (usbDeviceInfo h)" and ok: "ifaces_ok ?d" using assms(1) by (simp_all add: ready_def)
  have rr: "ref_ok ?d r" "r \<noteq> Ep0" using service_ref_at[of r ?d] ok assms(2) by auto
  obtain e0 where e0: "pEndpoint0 ?d = Some e0" "bfTransferType (he_bmAttributes e0) = Control_Ep" using assms(1) by (auto simp: ready_def)
  let ?h1 = "(dev_upd a (\<lambda>_. ?d1) h)\<lparr>countBulkTransactions := 1, lastBulkTransaction := 1\<rparr>"
  have F: "USB_FindServiceEndpoint Bulk_Ep a h = Some (?h1, True)"
    using assms(2,3,7) e0 by (simp add: USB_FindServiceEndpoint_def Let_def svc_due_def)
  have d1: "dev_at a (dev_upd a (\<lambda>_. ?d1) h) = ?d1" "length (usbDeviceInfo (dev_upd a (\<lambda>_. ?d1) h)) = length (usbDeviceInfo h)"
    "usbEventQueue (dev_upd a (\<lambda>_. ?d1) h) = usbEventQueue h"
    using len by (simp_all add: dev_upd_def)
  have c1: "cur_ep a ?h1 = Some (ep_at r ?d)" by (simp add: cur_ep_def d1)
  let ?d2 = "ep_set r ?g ?d1"
  let ?h2 = "(dev_upd a (\<lambda>_. ?d2) h)\<lparr>countBulkTransactions := 1, lastBulkTransaction := 1\<rparr>"
  have r1: "ref_ok ?d1 r" using rr by (cases r) (simp_all add: ref_ok_def)
  have p1: "pCurrentEndpoint (ep_set r f d) = pCurrentEndpoint d" for f d by (cases r) simp_all
  have u: "cur_upd a f ((dev_upd a (\<lambda>_. x) h)\<lparr>countBulkTransactions := 1, lastBulkTransaction := 1\<rparr>) =
      (dev_upd a (\<lambda>_. ep_set r f x) h)\<lparr>countBulkTransactions := 1, lastBulkTransaction := 1\<rparr>" if "pCurrentEndpoint x = Some r" for f x
    using that len by (simp add: cur_upd_def dev_upd_def)
  have "apply_step False Transfer_Done False a ?h1 = Inr (?h2, False, False)"
    using assms(5) by (simp add: apply_step_def close_step_def queue_event_def u p1 d1 ep_set_twice[OF r1] Let_def)
  then have S: "rbind (need Null_Access (cur_ep a ?h1)) (\<lambda>e. apply_step False (bulk_step (transferState e)) False a ?h1) = Inr (?h2, False, False)"
    using assms(4) by (auto simp: c1 bulk_step_def)
  let ?h3 = "(dev_upd a (\<lambda>_. ?d2) h)\<lparr>countBulkTransactions := 1, lastBulkTransaction := 0\<rparr>"
  have d2: "dev_at a ?h3 = ?d2" "length (usbDeviceInfo ?h3) = length (usbDeviceInfo h)" using len by (simp_all add: dev_upd_def)
  have r2: "service_refs ?d2 = [r]" using service_refs_upd[of ?d1 r ?g] ok assms(2) by (simp add: ifaces_ok_def)
  have t2: "bfTransferType (he_bmAttributes (ep_at r ?d2)) = Control_Ep" using ep_at_upd[OF r1, of r ?g] by (simp add: bfTransferType_def)
  have e2: "pEndpoint0 ?d2 = Some e0" using rr(2) e0 by (cases r) simp_all
  let ?h4 = "(dev_upd a (\<lambda>_. ?d2) ?h3)\<lparr>countBulkTransactions := 0, lastBulkTransaction := 0\<rparr>"
  have F2: "USB_FindServiceEndpoint Bulk_Ep a ?h3 = Some (?h4, False)"
    unfolding USB_FindServiceEndpoint_def Let_def d2(1) by (simp add: e2 e0(2) r2 t2)
  have "bulk_loop a False ?h3 = Some (Inr (?h4\<lparr>bfBulkTransfersDone := True\<rparr>, False, False))"
    using assms(6) by (subst bulk_loop.simps) (simp add: F2)
  moreover have "bulk_loop a False h = bulk_loop a False ?h3"
    using assms(6) by (subst bulk_loop.simps) (simp add: F S)
  moreover have "dev_at a ?h4 = ?d2" "length (usbDeviceInfo ?h4) = length (usbDeviceInfo h)" "usbEventQueue ?h4 = usbEventQueue h"
    using len by (simp_all add: dev_upd_def)
  moreover have "?d2 = (ep_set r ?g ?d)\<lparr>pCurrentEndpoint := Some r\<rparr>" by (cases r) simp_all
  ultimately show ?thesis by auto
qed

subsection \<open>The properties\<close>

text \<open>(C33) The search for the next token, run from the interrupt handler, always returns when no isochronous transfer is under
  way, whatever state the endpoints and the event queue are in: it touches nothing outside its data and either a token is on its
  way or every kind of transfer has been looked at in this frame.\<close>
theorem host_token_search_returns:
  assumes "ready a h" "bfIsochronousTransfersDone h \<or> no_isoc a h"
  shows "\<exists>h'. USB_FindNextToken stale a h = Some (Inr h') \<and> (bfTokenAlreadyWritten h' \<or> bfControlTransfersDone h' \<and>
    bfIsochronousTransfersDone h' \<and> bfInterruptTransfersDone h' \<and> bfBulkTransfersDone h')"
  by (rule find_next_returns[OF assms])

text \<open>(C32) The loop over bulk endpoints, with its restarts, leaves none waiting and takes them in turn: it always returns, and either a
  token is on its way or no bulk endpoint is due any more. The one whose turn it is comes next: the due endpoint with the number of
  the counter \<^verbatim>\<open>lastBulkTransaction\<close> in the order of the interfaces, or the first one when all have been counted; when its transfer
  has data to move, the token is for this endpoint at the address of the device, and the turn passes to the one after it.\<close>
theorem host_bulk_turns:
  assumes "ready a h" "\<not> bfBulkTransfersDone h"
  shows "(\<exists>h' ill' sent. bulk_loop a ill h = Some (Inr (h', ill', sent)) \<and>
      (if sent then bfTokenAlreadyWritten h' else bfBulkTransfersDone h' \<and> bulk_due (dev_at a h') = [])) \<and>
    (\<forall>r t. bulk_due (dev_at a h) \<noteq> [] \<longrightarrow> r = bulk_due (dev_at a h) ! bulk_turn a h \<longrightarrow>
      (transferState (ep_at r (dev_at a h)) = 0x80 \<and> t = USB_TOKEN_IN \<or> transferState (ep_at r (dev_at a h)) = 0x90 \<and> t = USB_TOKEN_OUT) \<longrightarrow>
      (\<exists>h'. bulk_loop a ill h = Some (Inr (h', ill, True)) \<and> pCurrentEndpoint (dev_at a h') = Some r \<and>
        unat (lastBulkTransaction h') = Suc (bulk_turn a h) \<and>
        U1TOK (hregs h') = push_bit 4 t OR (he_bEndpointAddress (ep_at r (dev_at a h)) AND 0x7F) \<and>
        U1ADDR (hregs h') = deviceAddressAndSpeed (dev_at a h)))"
proof (intro conjI allI impI)
  show "\<exists>h' ill' sent. bulk_loop a ill h = Some (Inr (h', ill', sent)) \<and>
      (if sent then bfTokenAlreadyWritten h' else bfBulkTransfersDone h' \<and> bulk_due (dev_at a h') = [])"
  proof -
    from bulk_returns[OF assms(1), of ill] obtain h' ill' sent where B: "bulk_loop a ill h = Some (Inr (h', ill', sent))"
      "if sent then bfTokenAlreadyWritten h' else bfBulkTransfersDone h' \<and> bfControlTransfersDone h' = bfControlTransfersDone h \<and>
        bfInterruptTransfersDone h' = bfInterruptTransfersDone h \<and> bfIsochronousTransfersDone h' = bfIsochronousTransfersDone h \<and>
        (bfBulkTransfersDone h \<or> bulk_due (dev_at a h') = [])" by blast
    show ?thesis by (intro exI[of _ h'] exI[of _ ill'] exI[of _ sent] conjI B(1)) (use B(2) assms(2) in \<open>simp split: if_splits\<close>)
  qed
  fix r t
  assume r: "bulk_due (dev_at a h) \<noteq> []" "r = bulk_due (dev_at a h) ! bulk_turn a h"
    "transferState (ep_at r (dev_at a h)) = 0x80 \<and> t = USB_TOKEN_IN \<or> transferState (ep_at r (dev_at a h)) = 0x90 \<and> t = USB_TOKEN_OUT"
  then have "bulk_step (transferState (ep_at (bulk_due (dev_at a h) ! bulk_turn a h) (dev_at a h))) = Send_Token t None False"
    by (auto simp: bulk_step_def)
  from bulk_token[OF assms r(1) this, of ill] show "\<exists>h'. bulk_loop a ill h = Some (Inr (h', ill, True)) \<and> pCurrentEndpoint (dev_at a h') = Some r \<and>
        unat (lastBulkTransaction h') = Suc (bulk_turn a h) \<and>
        U1TOK (hregs h') = push_bit 4 t OR (he_bEndpointAddress (ep_at r (dev_at a h)) AND 0x7F) \<and>
        U1ADDR (hregs h') = deviceAddressAndSpeed (dev_at a h)"
    unfolding r(2) by blast
qed

text \<open>(C34) An isochronous transfer can stop the host: when the first endpoint of the device is isochronous and due, and a write has
  no valid buffer (as after \<^verbatim>\<open>USBHostIsochronousBuffersCreate\<close>) or a read has one its client has not taken, the search inside
  the interrupt handler finds it again and again and never returns.\<close>
theorem host_isoc_hangs:
  assumes "isoc_stuck a h" "bfControlTransfersDone h" "\<not> bfIsochronousTransfersDone h" "\<not> bfTokenAlreadyWritten h"
  shows "USB_FindNextToken stale a h = None"
  by (rule find_next_stuck[OF assms])

text \<open>(C35) When a bulk transfer ends while four events are waiting, its event is lost and the error code of the full queue is
  written over the attributes of the endpoint: it becomes a control endpoint, and every later read of it is refused as one of
  an illegal type.\<close>
theorem host_full_queue_breaks_endpoint:
  assumes "ready a h" "service_refs (dev_at a h) = [r]" "svc_due Bulk_Ep (dev_at a h) r" "transferState (ep_at r (dev_at a h)) \<in> {0x81, 0x91}"
    and "4 \<le> length (usbEventQueue h)" "lastBulkTransaction h = 0" "\<not> bfTokenAlreadyWritten h"
    and "bfControlTransfersDone h" "bfIsochronousTransfersDone h" "bfInterruptTransfersDone h" "\<not> bfBulkTransfersDone h"
    and "deviceAddress (dev_at a h) = a" "usbHostState (dev_at a h) AND STATE_MASK = STATE_RUNNING"
    and "USB_FindEndpoint (dev_at a h) (he_bEndpointAddress (ep_at r (dev_at a h))) = Some r"
  shows "\<exists>h'. USB_FindNextToken stale a h = Some (Inr h') \<and> usbEventQueue h' = usbEventQueue h \<and>
    bfTransferType (he_bmAttributes (ep_at r (dev_at a h'))) = Control_Ep \<and> bfTransferComplete (ep_at r (dev_at a h')) \<and>
    USBHostRead a (he_bEndpointAddress (ep_at r (dev_at a h))) p n h' = (h', USB_ENDPOINT_ILLEGAL_TYPE)"
proof -
  from bulk_done_full[OF assms(1-5,11,6)] obtain h' ill where B: "bulk_loop a False h = Some (Inr (h', ill, False))"
    "usbEventQueue h' = usbEventQueue h" "length (usbDeviceInfo h') = length (usbDeviceInfo h)"
    "dev_at a h' = (ep_set r (\<lambda>e. (end_transfer False e)\<lparr>he_bmAttributes := 0x08\<rparr>) (dev_at a h))\<lparr>pCurrentEndpoint := Some r\<rparr>" by blast
  have N: "USB_FindNextToken stale a h = Some (Inr h')"
    using assms(7-10) B(1) never_suspended[of "usbHostState (dev_at a h)"]
    by (simp add: USB_FindNextToken_def control_section_def isoc_section_def interrupt_section_def)
  have len: "unat a < length (usbDeviceInfo h')" and rr: "ref_ok (dev_at a h) r"
    using assms(1,2) B(3) service_ref_at[of r "dev_at a h"] by (auto simp: ready_def)
  have e: "ep_at r (dev_at a h') = (end_transfer False (ep_at r (dev_at a h)))\<lparr>he_bmAttributes := 0x08\<rparr>"
    unfolding B(4) using ep_at_upd[OF rr] by simp
  have "USB_FindEndpoint (dev_at a h') (he_bEndpointAddress (ep_at r (dev_at a h))) = Some r"
    unfolding B(4) using assms(14) find_endpoint_upd[of "\<lambda>e. (end_transfer False e)\<lparr>he_bmAttributes := 0x08\<rparr>" r "dev_at a h"]
    by (simp add: end_transfer_def)
  moreover have "deviceAddress (dev_at a h') = a" "usbHostState (dev_at a h') AND STATE_MASK = STATE_RUNNING"
    using assms(12,13) unfolding B(4) by simp_all
  ultimately show ?thesis using N B(2) e slot_of[OF len] by (simp add: USBHostRead_def Let_def end_transfer_def bfTransferType_def)
qed

subsection \<open>Examples\<close>

text \<open>A running device in slot 1 with one endpoint.\<close>

definition demo_one :: "unit host_ep \<Rightarrow> unit usb_device_info" where
  "demo_one e = demo_stick\<lparr>pInterfaceList := [\<lparr>hi_interface = 0, hi_clientDriver = 0, pInterfaceSettings =
       [\<lparr>interfaceAltSetting = 0, pEndpointList = [e]\<rparr>], pCurrentSetting = Some 0\<rparr>]\<rparr>"

text \<open>A speaker whose client starts a write right after it has made the two buffers.\<close>

definition demo_speaker :: "unit usb_host" where
  "demo_speaker = fst (USBHostWrite 1 0x02 () 64 (host_zero
     \<lparr>usbDeviceInfo := [device_zero, demo_one (host_ep_zero\<lparr>he_bEndpointAddress := 0x02, he_bmAttributes := 1, bfTransferComplete := True\<rparr>)],
      isoc := (\<lambda>_. fst (the (USBHostIsochronousBuffersCreate (\<lambda>_. Some (replicate 64 0)) 2
        (isoc_zero\<lparr>isoc_buffers := replicate 2 \<lparr>ib_pBuffer = None, ib_dataLength = 0, bfDataLengthValid = False\<rparr>\<rparr>)))),
      bfControlTransfersDone := True\<rparr>))"

definition demo_full :: "unit usb_host" where
  "demo_full = host_zero\<lparr>usbDeviceInfo := [device_zero, demo_one ((demo_bulk_ep 0x81)\<lparr>transferState := 0x81\<rparr>)],
     usbEventQueue := replicate 4 (transfer_event 1 (demo_bulk_ep 0x81)), bfControlTransfersDone := True,
     bfIsochronousTransfersDone := True, bfInterruptTransfersDone := True\<rparr>"

lemma demo_one_refs: "service_refs (demo_one e) = [Ep_at 0 0 0]" "ifaces_ok (demo_one e)"
  "pEndpoint0 (demo_one e) = Some (host_ep_zero\<lparr>bfTransferComplete := True\<rparr>)" "ep_at (Ep_at 0 0 0) (demo_one e) = e"
  "pEndpointList (pInterfaceSettings (pInterfaceList (demo_one e) ! 0) ! 0) ! 0 = e"
  by (simp_all add: service_refs_def iface_refs_def demo_one_def demo_stick_def ifaces_ok_def)

theorem host_token_search_returns_witness:
  "\<exists>h'. USB_FindNextToken 0 1 demo_bus = Some (Inr h') \<and> (bfTokenAlreadyWritten h' \<or> bfControlTransfersDone h' \<and>
    bfIsochronousTransfersDone h' \<and> bfInterruptTransfersDone h' \<and> bfBulkTransfersDone h')"
proof (rule host_token_search_returns)
  have d: "usbDeviceInfo demo_bus ! unat (1 :: u8) = demo_stick" "length (usbDeviceInfo demo_bus) = 2"
    by (simp_all add: demo_bus_def host_zero_def)
  have r: "service_refs demo_stick = [Ep_at 0 0 0, Ep_at 0 0 1]"
    by (simp add: service_refs_def iface_refs_def demo_stick_def upt_rec)
  show "ready 1 demo_bus" unfolding ready_def d r
    by (simp add: ifaces_ok_def demo_stick_def host_ep_zero_def bfTransferType_def)
  show "bfIsochronousTransfersDone demo_bus \<or> no_isoc 1 demo_bus" unfolding no_isoc_def pending_def d r
    by (auto simp: demo_stick_def demo_bulk_ep_def host_ep_zero_def bfTransferType_def)
qed

text \<open>Two bulk transfers, of which the second has been served last: the turn goes back to the first.\<close>

definition demo_bulk_bus :: "unit usb_host" where
  "demo_bulk_bus = host_zero\<lparr>usbDeviceInfo := [device_zero, demo_stick\<lparr>pInterfaceList :=
      [\<lparr>hi_interface = 0, hi_clientDriver = 0, pInterfaceSettings = [\<lparr>interfaceAltSetting = 0, pEndpointList =
        [(demo_bulk_ep 0x81)\<lparr>transferState := 0x80\<rparr>, (demo_bulk_ep 0x02)\<lparr>transferState := 0x90\<rparr>]\<rparr>], pCurrentSetting = Some 0\<rparr>]\<rparr>],
     lastBulkTransaction := 2\<rparr>"

theorem host_bulk_turns_witness:
  "\<exists>h'. bulk_loop 1 False demo_bulk_bus = Some (Inr (h', False, True)) \<and> lastBulkTransaction h' = 1 \<and> U1TOK (hregs h') = 0x91"
proof -
  have r: "service_refs (dev_at 1 demo_bulk_bus) = [Ep_at 0 0 0, Ep_at 0 0 1]"
    by (simp add: service_refs_def iface_refs_def demo_bulk_bus_def upt_rec)
  have e: "ep_at (Ep_at 0 0 0) (dev_at 1 demo_bulk_bus) = (demo_bulk_ep 0x81)\<lparr>transferState := 0x80\<rparr>"
    "ep_at (Ep_at 0 0 1) (dev_at 1 demo_bulk_bus) = (demo_bulk_ep 0x02)\<lparr>transferState := 0x90\<rparr>" by (simp_all add: demo_bulk_bus_def)
  have b: "bulk_due (dev_at 1 demo_bulk_bus) = [Ep_at 0 0 0, Ep_at 0 0 1]"
    unfolding bulk_due_def r by (simp add: bulk_ep_due_def demo_bulk_bus_def demo_bulk_ep_def host_ep_zero_def bfTransferType_def)
  have t: "bulk_turn 1 demo_bulk_bus = 0" unfolding bulk_turn_def b by (simp add: demo_bulk_bus_def)
  have "ready 1 demo_bulk_bus" unfolding ready_def r
    by (simp add: demo_bulk_bus_def ifaces_ok_def demo_stick_def host_ep_zero_def bfTransferType_def)
  moreover have "\<not> bfBulkTransfersDone demo_bulk_bus" by (simp add: demo_bulk_bus_def host_zero_def)
  ultimately have "\<exists>h'. bulk_loop 1 False demo_bulk_bus = Some (Inr (h', False, True)) \<and> pCurrentEndpoint (dev_at 1 h') = Some (Ep_at 0 0 0) \<and>
      unat (lastBulkTransaction h') = Suc 0 \<and> U1TOK (hregs h') = push_bit 4 USB_TOKEN_IN OR (0x81 AND 0x7F) \<and>
      U1ADDR (hregs h') = deviceAddressAndSpeed (dev_at 1 demo_bulk_bus)"
    using host_bulk_turns[of 1 demo_bulk_bus False, THEN conjunct2, rule_format, of "Ep_at 0 0 0" USB_TOKEN_IN, unfolded b t e]
    by (simp add: demo_bulk_ep_def del: ep_at.simps)
  then obtain h' where h: "bulk_loop 1 False demo_bulk_bus = Some (Inr (h', False, True))" "unat (lastBulkTransaction h') = 1"
    "U1TOK (hregs h') = push_bit 4 USB_TOKEN_IN OR (0x81 AND 0x7F)" by auto
  have "lastBulkTransaction h' = 1" using h(2) by (simp add: word_unat_eq_iff)
  then show ?thesis using h by simp
qed

theorem host_isoc_hangs_witness: "USB_FindNextToken 0 1 demo_speaker = None"
proof (rule host_isoc_hangs)
  let ?e = "host_ep_zero\<lparr>he_bEndpointAddress := 0x02, he_bmAttributes := 1, bfTransferComplete := True\<rparr> :: unit host_ep"
  have w: "usbDeviceInfo demo_speaker ! unat (1 :: u8) = demo_one (USB_InitWrite () 64 ?e) \<and> length (usbDeviceInfo demo_speaker) = 2 \<and>
    (let d = isoc demo_speaker () in currentBufferUSB d = 0 \<and> length (isoc_buffers d) = 2 \<and> \<not> bfDataLengthValid (isoc_buffers d ! 0)) \<and>
    bfControlTransfersDone demo_speaker \<and> \<not> bfIsochronousTransfersDone demo_speaker \<and> \<not> bfTokenAlreadyWritten demo_speaker"
    by code_simp
  then show "bfControlTransfersDone demo_speaker" "\<not> bfIsochronousTransfersDone demo_speaker" "\<not> bfTokenAlreadyWritten demo_speaker" by blast+
  show "isoc_stuck 1 demo_speaker"
    using w by (simp add: isoc_stuck_def demo_one_refs isoc_blocked_def svc_due_def isoc_at_def USB_InitWrite_def bfTransferType_def host_ep_zero_def Let_def)
qed

theorem host_full_queue_breaks_endpoint_witness:
  "\<exists>h'. USB_FindNextToken 0 1 demo_full = Some (Inr h') \<and> usbEventQueue h' = usbEventQueue demo_full \<and>
     USBHostRead 1 0x81 () 64 h' = (h', USB_ENDPOINT_ILLEGAL_TYPE)"
proof -
  let ?e = "(demo_bulk_ep 0x81)\<lparr>transferState := 0x81\<rparr>"
  have d: "usbDeviceInfo demo_full ! unat (1 :: u8) = demo_one ?e" "length (usbDeviceInfo demo_full) = 2"
    by (simp_all add: demo_full_def host_zero_def)
  have b: "he_bEndpointAddress ?e = 0x81" "svc_due Bulk_Ep (demo_one ?e) (Ep_at 0 0 0)" "transferState ?e = 0x81"
    unfolding svc_due_def demo_one_refs by (simp_all add: demo_bulk_ep_def host_ep_zero_def bfTransferType_def)
  have "ready 1 demo_full" unfolding ready_def d by (simp add: demo_one_refs host_ep_zero_def bfTransferType_def)
  note P = host_full_queue_breaks_endpoint[OF this, unfolded d, of "Ep_at 0 0 0" 0 "()" 64, unfolded demo_one_refs b]
  have "USB_FindEndpoint (demo_one ?e) 0x81 = Some (Ep_at 0 0 0)"
    by (simp add: USB_FindEndpoint_def demo_one_def demo_bulk_ep_def host_ep_zero_def)
  with P show ?thesis by (simp add: b(2) demo_full_def host_zero_def) (simp add: demo_one_def demo_stick_def device_zero_def, blast)
qed

end
