(* ===== verification/Registers.thy ===== *)
theory Registers
  imports Prelude
begin

section \<open>Bit fields of registers\<close>

text \<open>
  The assignment to a bit field of a 16-bit register struct, and its reading: \<open>pos\<close> is the lowest bit of the
  field and \<open>len\<close> its width. What is written is read back, and the other fields stay as they are. Also here: the time something that happens again and again stays away.
\<close>

definition set_field :: "nat \<Rightarrow> nat \<Rightarrow> u16 \<Rightarrow> u16 \<Rightarrow> u16" where
  "set_field pos len v w = (w AND NOT (push_bit pos (mask len))) OR push_bit pos (take_bit len v)"

definition get_field :: "nat \<Rightarrow> nat \<Rightarrow> u16 \<Rightarrow> u16" where
  "get_field pos len w = take_bit len (drop_bit pos w)"

lemma bit_set_field:
  "bit (set_field pos len v w) n \<longleftrightarrow> n < 16 \<and> (if pos \<le> n \<and> n < pos + len then bit v (n - pos) else bit w n)"
  by (auto simp: set_field_def bit_simps dest: bit_imp_le_length)

lemma get_set_field [simp]: "pos + len \<le> 16 \<Longrightarrow> get_field pos len (set_field pos len v w) = take_bit len v"
  by (rule bit_word_eqI) (auto simp: get_field_def bit_set_field bit_simps add.commute)

lemma get_set_other [simp]:
  assumes "pos + len \<le> pos' \<or> pos' + len' \<le> pos"
  shows "get_field pos len (set_field pos' len' v w) = get_field pos len w"
  by (rule bit_word_eqI) (use assms in \<open>auto simp: get_field_def bit_set_field bit_simps dest: bit_imp_le_length\<close>)

text \<open>The number of steps from \<open>t\<close> on in which nothing happens.\<close>

definition idle_for :: "(nat \<Rightarrow> nat) \<Rightarrow> nat \<Rightarrow> nat" where
  "idle_for bus t = (LEAST d. 0 < bus (t + d))"

lemma idle_for_Suc: "\<exists>d. 0 < bus (t + d) \<Longrightarrow> bus t = 0 \<Longrightarrow> idle_for bus t = Suc (idle_for bus (Suc t))"
  unfolding idle_for_def by (subst Least_Suc[of _ "LEAST d. 0 < bus (t + d)"]) (auto intro: LeastI_ex)

end
