(* ===== verification/SPI.thy ===== *)
theory SPI
  imports Registers
begin

section \<open>The SPI driver\<close>

text \<open>
  Models \<^verbatim>\<open>Peripherals/SPI/SPI.c\<close>. The registers are words with their bit fields; behind \<^verbatim>\<open>SPIxBUF\<close> are
  the two queues of the enhanced buffer mode: bytes waiting to be sent (\<^verbatim>\<open>SPIBEC\<close> of them, one more in
  the shift register) and up to eight bytes received. The bus runs on its own: before each
  access to \<^verbatim>\<open>SPIxSTAT\<close> it has shifted as many bytes as \<open>bus\<close> says for that access, and each byte shifted
  out brings one in from \<open>peer\<close>, the device at the other end. A byte that comes in while the
  queue is full is lost, with \<^verbatim>\<open>SPIROV\<close> set. The loops poll and may not end; \<open>None\<close> is a call that does not.
\<close>

subsection \<open>Data\<close>

record spi_regs =
  spi_STAT :: u16
  spi_CON1 :: u16
  spi_CON2 :: u16
  tx_fifo :: "u8 list"
  rx_fifo :: "u8 list"
  spi_sent :: "u8 list"
  SPIROV :: bool
  spi_time :: nat

subsection \<open>The hardware\<close>

text \<open>One byte goes over the wire; \<open>peer\<close> answers to all bytes sent so far.\<close>

definition spi_shift :: "(u8 list \<Rightarrow> u8) \<Rightarrow> spi_regs \<Rightarrow> spi_regs" where
  "spi_shift peer h =
     (case tx_fifo h of [] \<Rightarrow> h
      | b # bs \<Rightarrow>
          let h1 = h\<lparr>tx_fifo := bs, spi_sent := spi_sent h @ [b]\<rparr>
          in if length (rx_fifo h) < 8 then h1\<lparr>rx_fifo := rx_fifo h @ [peer (spi_sent h)]\<rparr> else h1\<lparr>SPIROV := True\<rparr>)"

definition spi_tick :: "(nat \<Rightarrow> nat) \<Rightarrow> (u8 list \<Rightarrow> u8) \<Rightarrow> spi_regs \<Rightarrow> spi_regs" where
  "spi_tick bus peer h = ((spi_shift peer ^^ bus (spi_time h)) h)\<lparr>spi_time := Suc (spi_time h)\<rparr>"

text \<open>\<open>tx_fifo\<close> starts with the byte in the shift register.\<close>

definition SPIBEC :: "spi_regs \<Rightarrow> nat" where
  "SPIBEC h = length (tx_fifo h) - 1"

definition SRXMPT :: "spi_regs \<Rightarrow> bool" where
  "SRXMPT h = (rx_fifo h = [])"

definition spi_write_BUF :: "u8 \<Rightarrow> spi_regs \<Rightarrow> spi_regs" where
  "spi_write_BUF b h = h\<lparr>tx_fifo := tx_fifo h @ [b]\<rparr>"

definition spi_read_BUF :: "spi_regs \<Rightarrow> spi_regs \<times> u8" where
  "spi_read_BUF h = (h\<lparr>rx_fifo := tl (rx_fifo h)\<rparr>, hd (rx_fifo h))"

subsection \<open>Configuration\<close>

definition SPI_Initialize :: "u16 \<Rightarrow> spi_regs \<Rightarrow> spi_regs" where
  "SPI_Initialize spi_mode h =
     (let c0 = set_field 9 1 0 (spi_CON1 h);
          c1 = (if spi_mode AND 0x01 \<noteq> 0 then set_field 5 1 1 c0 else set_field 5 1 0 c0);
          c2 = (if spi_mode AND 0x80 \<noteq> 0 then set_field 11 1 1 c1 else set_field 11 1 0 c1);
          c3 = (if spi_mode AND 0x20 \<noteq> 0 then set_field 12 1 1 c2 else set_field 12 1 0 c2);
          c4 = (if spi_mode AND 0x40 \<noteq> 0 then set_field 7 1 0 c3 else set_field 7 1 1 c3);
          c5 = (if spi_mode AND 0x10 \<noteq> 0 then set_field 10 1 1 c4 else set_field 10 1 0 c4);
          c6 = (if spi_mode AND 0x02 \<noteq> 0 then set_field 8 1 1 c5 else set_field 8 1 0 c5);
          c7 = (if spi_mode AND 0x04 \<noteq> 0 then set_field 6 1 1 c6 else set_field 6 1 0 c6)
      in h\<lparr>spi_CON1 := c7, spi_CON2 := 0x01, spi_STAT := 0x800c\<rparr>)"

definition SPI_SetSpeedByPrescaler :: "u8 \<Rightarrow> u8 \<Rightarrow> spi_regs \<Rightarrow> spi_regs" where
  "SPI_SetSpeedByPrescaler ppre spre h =
     h\<lparr>spi_CON1 := set_field 2 3 (ucast spre) (set_field 0 2 (ucast ppre) (spi_CON1 h))\<rparr>"

definition SPI_Enable :: "spi_regs \<Rightarrow> spi_regs" where
  "SPI_Enable h = h\<lparr>spi_STAT := set_field 15 1 1 (spi_STAT h)\<rparr>"

definition SPI_Disable :: "spi_regs \<Rightarrow> spi_regs" where
  "SPI_Disable h = h\<lparr>spi_STAT := set_field 15 1 0 (spi_STAT h)\<rparr>"

subsection \<open>Transfers\<close>

text \<open>
  The loop that empties the receive queue: the bytes received so far (\<open>got\<close>, in order) stand for
  the memory at \<^verbatim>\<open>pRxData\<close> and for \<^verbatim>\<open>dataReceivedCount\<close>.
\<close>

partial_function (option) spi_drain ::
  "(nat \<Rightarrow> nat) \<Rightarrow> (u8 list \<Rightarrow> u8) \<Rightarrow> u8 list \<Rightarrow> spi_regs \<Rightarrow> (spi_regs \<times> u8 list) option" where
  "spi_drain bus peer got h =
     (let h1 = spi_tick bus peer h
      in if \<not> SRXMPT h1 then (case spi_read_BUF h1 of (h2, b) \<Rightarrow> spi_drain bus peer (got @ [b]) h2)
         else Some (h1, got))"

text \<open>The first loop of \<^verbatim>\<open>SPI_TransmitReceive\<close>; \<open>tx\<close> are the bytes still to send.\<close>

partial_function (option) spi_send_loop ::
  "(nat \<Rightarrow> nat) \<Rightarrow> (u8 list \<Rightarrow> u8) \<Rightarrow> u8 list \<Rightarrow> u8 list \<Rightarrow> spi_regs \<Rightarrow> (spi_regs \<times> u8 list) option" where
  "spi_send_loop bus peer tx got h =
     (case tx of [] \<Rightarrow> Some (h, got)
      | b # bs \<Rightarrow>
          let h1 = spi_tick bus peer h;
              (h2, tx') = (if SPIBEC h1 \<noteq> 7 then (spi_write_BUF b h1, bs) else (h1, tx))
          in (case spi_drain bus peer got h2 of None \<Rightarrow> None
              | Some (h3, got') \<Rightarrow> spi_send_loop bus peer tx' got' h3))"

text \<open>The second loop waits for the bytes that are missing.\<close>

partial_function (option) spi_rest_loop ::
  "(nat \<Rightarrow> nat) \<Rightarrow> (u8 list \<Rightarrow> u8) \<Rightarrow> u16 \<Rightarrow> u8 list \<Rightarrow> spi_regs \<Rightarrow> (spi_regs \<times> u8 list) option" where
  "spi_rest_loop bus peer Size got h =
     (if of_nat (length got) < Size then
        let h1 = spi_tick bus peer h
        in if \<not> SRXMPT h1 then (case spi_read_BUF h1 of (h2, b) \<Rightarrow> spi_rest_loop bus peer Size (got @ [b]) h2)
           else spi_rest_loop bus peer Size got h1
      else Some (h, got))"

text \<open>
  \<open>pTxData\<close> is \<open>None\<close> for the null pointer, which sends the low byte of \<^verbatim>\<open>dummyDataTransmit\<close>; the bytes
  received go to \<^verbatim>\<open>pRxData\<close> one after the other, or to a dummy when it is null. Byte \<open>i\<close> arrives after byte \<open>i\<close> is
  sent, so that sending and receiving in the same buffer reads what was there before the call. The
  results are the registers, the bytes received and \<^verbatim>\<open>dataSentCount\<close>.
\<close>

definition SPI_TransmitReceive ::
  "(nat \<Rightarrow> nat) \<Rightarrow> (u8 list \<Rightarrow> u8) \<Rightarrow> u8 list option \<Rightarrow> u16 \<Rightarrow> spi_regs \<Rightarrow> (spi_regs \<times> u8 list \<times> u16) option" where
  "SPI_TransmitReceive bus peer pTxData Size h =
     (let tx = (case pTxData of None \<Rightarrow> replicate (unat Size) 0 | Some p \<Rightarrow> take (unat Size) p)
      in (case spi_send_loop bus peer tx [] h of None \<Rightarrow> None
          | Some (h1, got) \<Rightarrow>
              (case spi_rest_loop bus peer Size got h1 of None \<Rightarrow> None
               | Some (h2, got') \<Rightarrow> Some (h2, got', of_nat (length tx)))))"

text \<open>\<^verbatim>\<open>SPI_Transmit\<close> has the same loops and drops the bytes received; only their number counts.\<close>

definition SPI_Transmit ::
  "(nat \<Rightarrow> nat) \<Rightarrow> (u8 list \<Rightarrow> u8) \<Rightarrow> u8 list \<Rightarrow> u16 \<Rightarrow> spi_regs \<Rightarrow> (spi_regs \<times> u16) option" where
  "SPI_Transmit bus peer pTxData Size h =
     (case spi_send_loop bus peer (take (unat Size) pTxData) [] h of None \<Rightarrow> None
      | Some (h1, got) \<Rightarrow>
          (case spi_rest_loop bus peer Size got h1 of None \<Rightarrow> None
           | Some (h2, _) \<Rightarrow> Some (h2, of_nat (length (take (unat Size) pTxData)))))"

definition SPI_Receive ::
  "(nat \<Rightarrow> nat) \<Rightarrow> (u8 list \<Rightarrow> u8) \<Rightarrow> u16 \<Rightarrow> spi_regs \<Rightarrow> (spi_regs \<times> u8 list \<times> u16) option" where
  "SPI_Receive bus peer Size h = SPI_TransmitReceive bus peer None Size h"

text \<open>The functions for EDS buffers have the same text; only the type of the pointers differs.\<close>

definition SPI_TransmitReceive_EDS ::
  "(nat \<Rightarrow> nat) \<Rightarrow> (u8 list \<Rightarrow> u8) \<Rightarrow> u8 list option \<Rightarrow> u16 \<Rightarrow> spi_regs \<Rightarrow> (spi_regs \<times> u8 list \<times> u16) option" where
  "SPI_TransmitReceive_EDS bus peer pTxData Size h =
     (let tx = (case pTxData of None \<Rightarrow> replicate (unat Size) 0 | Some p \<Rightarrow> take (unat Size) p)
      in (case spi_send_loop bus peer tx [] h of None \<Rightarrow> None
          | Some (h1, got) \<Rightarrow>
              (case spi_rest_loop bus peer Size got h1 of None \<Rightarrow> None
               | Some (h2, got') \<Rightarrow> Some (h2, got', of_nat (length tx)))))"

definition SPI_Transmit_EDS ::
  "(nat \<Rightarrow> nat) \<Rightarrow> (u8 list \<Rightarrow> u8) \<Rightarrow> u8 list \<Rightarrow> u16 \<Rightarrow> spi_regs \<Rightarrow> (spi_regs \<times> u16) option" where
  "SPI_Transmit_EDS bus peer pTxData Size h =
     (case spi_send_loop bus peer (take (unat Size) pTxData) [] h of None \<Rightarrow> None
      | Some (h1, got) \<Rightarrow>
          (case spi_rest_loop bus peer Size got h1 of None \<Rightarrow> None
           | Some (h2, _) \<Rightarrow> Some (h2, of_nat (length (take (unat Size) pTxData)))))"

definition SPI_Receive_EDS ::
  "(nat \<Rightarrow> nat) \<Rightarrow> (u8 list \<Rightarrow> u8) \<Rightarrow> u16 \<Rightarrow> spi_regs \<Rightarrow> (spi_regs \<times> u8 list \<times> u16) option" where
  "SPI_Receive_EDS bus peer Size h = SPI_TransmitReceive_EDS bus peer None Size h"

lemma spi_eds: "SPI_TransmitReceive_EDS = SPI_TransmitReceive" "SPI_Transmit_EDS = SPI_Transmit" "SPI_Receive_EDS = SPI_Receive"
  by (simp_all add: fun_eq_iff SPI_TransmitReceive_EDS_def SPI_TransmitReceive_def SPI_Transmit_EDS_def SPI_Transmit_def
      SPI_Receive_EDS_def SPI_Receive_def)

subsection \<open>What a call keeps\<close>

text \<open>\<open>w\<close> are the bytes written so far, \<open>got\<close> those received: what was shifted out came back, unless a byte was lost.\<close>

definition spi_inv :: "(u8 list \<Rightarrow> u8) \<Rightarrow> u8 list \<Rightarrow> u8 list \<Rightarrow> u8 list \<Rightarrow> spi_regs \<Rightarrow> bool" where
  "spi_inv peer s0 w got h \<longleftrightarrow> (\<exists>k \<le> length w. spi_sent h = s0 @ take k w \<and> tx_fifo h = drop k w \<and>
     (if SPIROV h then length got + length (rx_fifo h) < k
      else got @ rx_fifo h = map (\<lambda>i. peer (s0 @ take i w)) [0..<k]))"

lemma shift_inv:
  assumes "spi_inv peer s0 w got h"
  shows "spi_inv peer s0 w got (spi_shift peer h)"
proof -
  obtain k where k: "k \<le> length w" "spi_sent h = s0 @ take k w" "tx_fifo h = drop k w"
    and g: "if SPIROV h then length got + length (rx_fifo h) < k else got @ rx_fifo h = map (\<lambda>i. peer (s0 @ take i w)) [0..<k]"
    using assms unfolding spi_inv_def by blast
  show ?thesis
  proof (cases "k = length w")
    case True
    then show ?thesis using assms k(3) by (simp add: spi_shift_def)
  next
    case False
    then have lt: "k < length w" using k(1) by simp
    have d: "tx_fifo h = w ! k # drop (Suc k) w" using lt k(3) by (simp add: Cons_nth_drop_Suc)
    have t: "take (Suc k) w = take k w @ [w ! k]" using lt by (simp add: take_Suc_conv_app_nth)
    have sh: "spi_sent (spi_shift peer h) = s0 @ take (Suc k) w" "tx_fifo (spi_shift peer h) = drop (Suc k) w"
      using d k(2) t by (simp_all add: spi_shift_def Let_def)
    have "if SPIROV (spi_shift peer h) then length got + length (rx_fifo (spi_shift peer h)) < Suc k
      else got @ rx_fifo (spi_shift peer h) = map (\<lambda>i. peer (s0 @ take i w)) [0..<Suc k]"
    proof (cases "SPIROV h")
      case True
      then show ?thesis using g d by (simp add: spi_shift_def Let_def)
    next
      case False
      then have e: "got @ rx_fifo h = map (\<lambda>i. peer (s0 @ take i w)) [0..<k]" using g by simp
      have "length (got @ rx_fifo h) = k" unfolding e by simp
      then have "length got + length (rx_fifo h) = k" by simp
      then show ?thesis using False d k(2) e by (simp add: spi_shift_def Let_def flip: append_assoc)
    qed
    with sh lt show ?thesis unfolding spi_inv_def by (intro exI[of _ "Suc k"]) simp
  qed
qed

lemma shifts_inv: "spi_inv peer s0 w got h \<Longrightarrow> spi_inv peer s0 w got ((spi_shift peer ^^ n) h)"
  by (induction n) (auto intro: shift_inv)

lemma inv_time [simp]: "spi_inv peer s0 w got (h\<lparr>spi_time := t\<rparr>) = spi_inv peer s0 w got h"
  by (simp add: spi_inv_def)

lemma tick_inv: "spi_inv peer s0 w got h \<Longrightarrow> spi_inv peer s0 w got (spi_tick bus peer h)"
  by (simp add: spi_tick_def shifts_inv)

lemma write_inv:
  assumes "spi_inv peer s0 w got h"
  shows "spi_inv peer s0 (w @ [b]) got (spi_write_BUF b h)"
proof -
  obtain k where k: "k \<le> length w" "spi_sent h = s0 @ take k w" "tx_fifo h = drop k w"
    and g: "if SPIROV h then length got + length (rx_fifo h) < k else got @ rx_fifo h = map (\<lambda>i. peer (s0 @ take i w)) [0..<k]"
    using assms unfolding spi_inv_def by blast
  have "map (\<lambda>i. peer (s0 @ take i (w @ [b]))) [0..<k] = map (\<lambda>i. peer (s0 @ take i w)) [0..<k]" using k(1) by simp
  with k g show ?thesis unfolding spi_inv_def by (intro exI[of _ k]) (simp add: spi_write_BUF_def)
qed

lemma read_inv:
  assumes "spi_inv peer s0 w got h" "\<not> SRXMPT h" "spi_read_BUF h = (h', b)"
  shows "spi_inv peer s0 w (got @ [b]) h'"
  using assms unfolding spi_inv_def by (cases "rx_fifo h") (auto simp: spi_read_BUF_def SRXMPT_def)


lemma shift_rov: "SPIROV h \<Longrightarrow> SPIROV (spi_shift peer h)"
  by (auto simp: spi_shift_def Let_def split: list.split)

lemma tick_rov: "SPIROV h \<Longrightarrow> SPIROV (spi_tick bus peer h)"
proof -
  assume "SPIROV h"
  then have "SPIROV ((spi_shift peer ^^ n) h)" for n by (induction n) (auto intro: shift_rov)
  then show ?thesis by (simp add: spi_tick_def)
qed

lemma io_rov: "SPIROV (spi_write_BUF b h) = SPIROV h" "spi_read_BUF h = (h', b) \<Longrightarrow> SPIROV h' = SPIROV h"
  by (auto simp: spi_write_BUF_def spi_read_BUF_def)

lemma drain_inv:
  assumes "spi_drain bus peer got h = Some (h', got')" "spi_inv peer s0 w got h"
  shows "spi_inv peer s0 w got' h' \<and> rx_fifo h' = [] \<and> (SPIROV h \<longrightarrow> SPIROV h')"
proof -
  have "spi_inv peer s0 w got h \<longrightarrow> (case y of (h', got') \<Rightarrow> spi_inv peer s0 w got' h' \<and> rx_fifo h' = [] \<and> (SPIROV h \<longrightarrow> SPIROV h'))"
    if "spi_drain bus peer got h = Some y" for y
  proof (rule spi_drain.raw_induct[where P = "\<lambda>bus peer got h y. spi_inv peer s0 w got h \<longrightarrow>
        (case y of (h', got') \<Rightarrow> spi_inv peer s0 w got' h' \<and> rx_fifo h' = [] \<and> (SPIROV h \<longrightarrow> SPIROV h'))", OF _ that])
    fix f bus peer got h y
    assume IH: "\<And>bus peer got h y. f bus peer got h = Some y \<Longrightarrow> spi_inv peer s0 w got h \<longrightarrow>
        (case y of (h', got') \<Rightarrow> spi_inv peer s0 w got' h' \<and> rx_fifo h' = [] \<and> (SPIROV h \<longrightarrow> SPIROV h'))"
      and f: "(let h1 = spi_tick bus peer h in if \<not> SRXMPT h1 then case spi_read_BUF h1 of (h2, b) \<Rightarrow> f bus peer (got @ [b]) h2
        else Some (h1, got)) = Some y"
    show "spi_inv peer s0 w got h \<longrightarrow> (case y of (h', got') \<Rightarrow> spi_inv peer s0 w got' h' \<and> rx_fifo h' = [] \<and> (SPIROV h \<longrightarrow> SPIROV h'))"
    proof
      assume "spi_inv peer s0 w got h"
      from tick_inv[OF this] have i: "spi_inv peer s0 w got (spi_tick bus peer h)" .
      show "case y of (h', got') \<Rightarrow> spi_inv peer s0 w got' h' \<and> rx_fifo h' = [] \<and> (SPIROV h \<longrightarrow> SPIROV h')"
      proof (cases "SRXMPT (spi_tick bus peer h)")
        case True
        then show ?thesis using f i tick_rov by (auto simp: Let_def SRXMPT_def)
      next
        case False
        obtain h2 b where r: "spi_read_BUF (spi_tick bus peer h) = (h2, b)" by (cases "spi_read_BUF (spi_tick bus peer h)")
        from read_inv[OF i False r] f False r IH[of bus peer "got @ [b]" h2 y] io_rov(2)[OF r] tick_rov[of h bus peer] show ?thesis by (auto simp: Let_def)
      qed
    qed
  qed
  with assms show ?thesis by fastforce
qed

lemma send_inv:
  assumes "spi_send_loop bus peer tx got h = Some (h', got')" "spi_inv peer s0 w got h"
  shows "spi_inv peer s0 (w @ tx) got' h' \<and> (SPIROV h \<longrightarrow> SPIROV h')"
proof -
  have "\<forall>w. spi_inv peer s0 w got h \<longrightarrow> (case y of (h', got') \<Rightarrow> spi_inv peer s0 (w @ tx) got' h' \<and> (SPIROV h \<longrightarrow> SPIROV h'))"
    if "spi_send_loop bus peer tx got h = Some y" for y
  proof (rule spi_send_loop.raw_induct[where P = "\<lambda>bus peer tx got h y. \<forall>w. spi_inv peer s0 w got h \<longrightarrow>
        (case y of (h', got') \<Rightarrow> spi_inv peer s0 (w @ tx) got' h' \<and> (SPIROV h \<longrightarrow> SPIROV h'))", OF _ that])
    fix f bus peer tx got h y
    assume IH: "\<And>bus peer tx got h y. f bus peer tx got h = Some y \<Longrightarrow> \<forall>w. spi_inv peer s0 w got h \<longrightarrow>
        (case y of (h', got') \<Rightarrow> spi_inv peer s0 (w @ tx) got' h' \<and> (SPIROV h \<longrightarrow> SPIROV h'))"
      and f: "(case tx of [] \<Rightarrow> Some (h, got) | b # bs \<Rightarrow> let h1 = spi_tick bus peer h;
          (h2, tx') = (if SPIBEC h1 \<noteq> 7 then (spi_write_BUF b h1, bs) else (h1, tx))
        in (case spi_drain bus peer got h2 of None \<Rightarrow> None | Some (h3, got') \<Rightarrow> f bus peer tx' got' h3)) = Some y"
    show "\<forall>w. spi_inv peer s0 w got h \<longrightarrow> (case y of (h', got') \<Rightarrow> spi_inv peer s0 (w @ tx) got' h' \<and> (SPIROV h \<longrightarrow> SPIROV h'))"
    proof (intro allI impI)
      fix w assume i: "spi_inv peer s0 w got h"
      show "case y of (h', got') \<Rightarrow> spi_inv peer s0 (w @ tx) got' h' \<and> (SPIROV h \<longrightarrow> SPIROV h')"
      proof (cases tx)
        case Nil
        then show ?thesis using f i by auto
      next
        case (Cons b bs)
        let ?h1 = "spi_tick bus peer h"
        define h2 where "h2 = (if SPIBEC ?h1 \<noteq> 7 then spi_write_BUF b ?h1 else ?h1)"
        define tx' where "tx' = (if SPIBEC ?h1 \<noteq> 7 then bs else tx)"
        define w' where "w' = (if SPIBEC ?h1 \<noteq> 7 then w @ [b] else w)"
        have i2: "spi_inv peer s0 w' got h2" unfolding h2_def w'_def using tick_inv[OF i] write_inv by auto
        have ww: "w' @ tx' = w @ tx" using Cons by (simp add: w'_def tx'_def)
        have "(case spi_drain bus peer got h2 of None \<Rightarrow> None | Some (h3, got') \<Rightarrow> f bus peer tx' got' h3) = Some y"
          using f unfolding h2_def tx'_def Cons by (cases "SPIBEC ?h1 \<noteq> 7") (simp_all add: Let_def)
        then obtain h3 g3 where d: "spi_drain bus peer got h2 = Some (h3, g3)" and r: "f bus peer tx' g3 h3 = Some y"
          by (auto split: option.splits)
        have "SPIROV h \<longrightarrow> SPIROV h2" unfolding h2_def by (auto simp: io_rov intro: tick_rov)
        with IH[OF r] drain_inv[OF d i2] show ?thesis unfolding ww[symmetric] by fastforce
      qed
    qed
  qed
  with assms show ?thesis by fastforce
qed

lemma inv_length:
  assumes "spi_inv peer s0 w got h"
  shows "length got + length (rx_fifo h) \<le> length w"
proof -
  obtain k where k: "k \<le> length w" "if SPIROV h then length got + length (rx_fifo h) < k
      else got @ rx_fifo h = map (\<lambda>i. peer (s0 @ take i w)) [0..<k]" using assms unfolding spi_inv_def by blast
  show ?thesis
  proof (cases "SPIROV h")
    case False
    then have e: "got @ rx_fifo h = map (\<lambda>i. peer (s0 @ take i w)) [0..<k]" using k(2) by simp
    have "length (got @ rx_fifo h) = k" unfolding e by simp
    then show ?thesis using k(1) by simp
  qed (use k in simp)
qed

lemma rest_inv:
  assumes "spi_rest_loop bus peer Size got h = Some (h', got')" "spi_inv peer s0 w got h" "length w = unat Size"
  shows "spi_inv peer s0 w got' h' \<and> length got' = unat Size \<and> (SPIROV h \<longrightarrow> SPIROV h')"
proof -
  have "length w = unat Size \<longrightarrow> spi_inv peer s0 w got h \<longrightarrow> (case y of (h', got') \<Rightarrow> spi_inv peer s0 w got' h' \<and> length got' = unat Size \<and> (SPIROV h \<longrightarrow> SPIROV h'))"
    if "spi_rest_loop bus peer Size got h = Some y" for y
  proof (rule spi_rest_loop.raw_induct[where P = "\<lambda>bus p S got h y. length w = unat S \<longrightarrow> spi_inv p s0 w got h \<longrightarrow>
        (case y of (h', got') \<Rightarrow> spi_inv p s0 w got' h' \<and> length got' = unat S \<and> (SPIROV h \<longrightarrow> SPIROV h'))", OF _ that])
    fix f bus p and S :: u16 and got h y
    assume IH: "\<And>bus p S got h y. f bus p S got h = Some y \<Longrightarrow> length w = unat S \<longrightarrow> spi_inv p s0 w got h \<longrightarrow>
        (case y of (h', got') \<Rightarrow> spi_inv p s0 w got' h' \<and> length got' = unat S \<and> (SPIROV h \<longrightarrow> SPIROV h'))"
      and f: "(if of_nat (length got) < S then let h1 = spi_tick bus p h in
          if \<not> SRXMPT h1 then case spi_read_BUF h1 of (h2, b) \<Rightarrow> f bus p S (got @ [b]) h2 else f bus p S got h1
        else Some (h, got)) = Some y"
    have "case y of (h', got') \<Rightarrow> spi_inv p s0 w got' h' \<and> length got' = unat S \<and> (SPIROV h \<longrightarrow> SPIROV h')"
      if p: "length w = unat S" and i: "spi_inv p s0 w got h"
    proof (cases "of_nat (length got) < S")
      case False
      have "length got \<le> unat S" using inv_length[OF i] p by simp
      moreover have "unat S \<le> length got"
      proof -
        have "unat (of_nat (length got) :: u16) \<le> length got" by (simp add: unat_of_nat)
        moreover have "unat S \<le> unat (of_nat (length got) :: u16)" using False by (simp add: word_less_nat_alt not_less)
        ultimately show ?thesis by simp
      qed
      ultimately show ?thesis using f False i by auto
    next
      case True
      note i1 = tick_inv[OF i, of bus]
      obtain h2 b where r: "spi_read_BUF (spi_tick bus p h) = (h2, b)" by (cases "spi_read_BUF (spi_tick bus p h)")
      show ?thesis
      proof (cases "SRXMPT (spi_tick bus p h)")
        case True
        then show ?thesis using f \<open>of_nat (length got) < S\<close> IH[of bus p S got "spi_tick bus p h" y] p i1 tick_rov[of h bus p] by (auto simp: Let_def)
      next
        case False
        from read_inv[OF i1 False r] f \<open>of_nat (length got) < S\<close> False r IH[of bus p S "got @ [b]" h2 y] p
          io_rov(2)[OF r] tick_rov[of h bus p] show ?thesis by (auto simp: Let_def)
      qed
    qed
    then show "length w = unat S \<longrightarrow> spi_inv p s0 w got h \<longrightarrow> (case y of (h', got') \<Rightarrow> spi_inv p s0 w got' h' \<and> length got' = unat S \<and> (SPIROV h \<longrightarrow> SPIROV h'))"
      by blast
  qed
  with assms show ?thesis by fastforce
qed


subsection \<open>When a call returns\<close>

definition outstanding :: "spi_regs \<Rightarrow> nat" where
  "outstanding h = length (tx_fifo h) + length (rx_fifo h)"

lemma shift_one:
  assumes "\<not> SPIROV h" "length (rx_fifo h) + min 1 (length (tx_fifo h)) \<le> 8"
  shows "\<not> SPIROV (spi_shift peer h)" "length (tx_fifo (spi_shift peer h)) = length (tx_fifo h) - 1"
    "length (rx_fifo (spi_shift peer h)) = length (rx_fifo h) + min 1 (length (tx_fifo h))" "spi_time (spi_shift peer h) = spi_time h"
  using assms by (auto simp: spi_shift_def Let_def split: list.splits)

lemma shifts_ok:
  assumes "\<not> SPIROV h" "length (rx_fifo h) + min n (length (tx_fifo h)) \<le> 8"
  shows "\<not> SPIROV ((spi_shift peer ^^ n) h) \<and> length (tx_fifo ((spi_shift peer ^^ n) h)) = length (tx_fifo h) - n \<and>
    length (rx_fifo ((spi_shift peer ^^ n) h)) = length (rx_fifo h) + min n (length (tx_fifo h)) \<and>
    spi_time ((spi_shift peer ^^ n) h) = spi_time h"
  using assms(2)
proof (induction n)
  case (Suc n)
  let ?g = "(spi_shift peer ^^ n) h"
  from Suc have "\<not> SPIROV ?g" "length (tx_fifo ?g) = length (tx_fifo h) - n" "spi_time ?g = spi_time h"
    "length (rx_fifo ?g) = length (rx_fifo h) + min n (length (tx_fifo h))" by simp_all
  then show ?case using Suc.prems shift_one[of ?g peer] by simp
qed (simp add: assms(1))

lemma tick_ok:
  assumes "\<not> SPIROV h" "length (rx_fifo h) + min (bus (spi_time h)) (length (tx_fifo h)) \<le> 8"
  shows "\<not> SPIROV (spi_tick bus peer h)" "length (tx_fifo (spi_tick bus peer h)) = length (tx_fifo h) - bus (spi_time h)"
    "length (rx_fifo (spi_tick bus peer h)) = length (rx_fifo h) + min (bus (spi_time h)) (length (tx_fifo h))"
    "spi_time (spi_tick bus peer h) = Suc (spi_time h)"
  using shifts_ok[OF assms] by (simp_all add: spi_tick_def)

lemma spi_read_ok:
  assumes "spi_read_BUF h = (h', b)" "rx_fifo h \<noteq> []"
  shows "SPIROV h' = SPIROV h" "tx_fifo h' = tx_fifo h" "Suc (length (rx_fifo h')) = length (rx_fifo h)" "spi_time h' = spi_time h"
  using assms by (auto simp: spi_read_BUF_def)

lemma drain_returns:
  assumes "\<not> SPIROV h" "outstanding h \<le> 9" "length (rx_fifo h) + min (bus (spi_time h)) (length (tx_fifo h)) \<le> 8"
  shows "\<exists>h' got'. spi_drain bus peer got h = Some (h', got') \<and> \<not> SPIROV h' \<and> rx_fifo h' = [] \<and>
    length (tx_fifo h') \<le> length (tx_fifo h) - bus (spi_time h)"
  using assms
proof (induction "outstanding h" arbitrary: h got rule: less_induct)
  case less
  let ?h1 = "spi_tick bus peer h"
  note T = tick_ok[of h bus peer, OF less.prems(1,3)]
  show ?case
  proof (cases "rx_fifo ?h1 = []")
    case True
    then show ?thesis using T(1,2) by (subst spi_drain.simps) (simp add: SRXMPT_def)
  next
    case False
    obtain h2 b where r: "spi_read_BUF ?h1 = (h2, b)" by (cases "spi_read_BUF ?h1")
    note R = spi_read_ok[OF r False]
    have o: "Suc (outstanding h2) = outstanding h" using R(2,3) T(2,3) by (simp add: outstanding_def)
    have a: "length (rx_fifo h2) + min (bus (spi_time h2)) (length (tx_fifo h2)) \<le> 8"
      using o less.prems(2) by (auto simp: outstanding_def)
    have "\<exists>h' got'. spi_drain bus peer (got @ [b]) h2 = Some (h', got') \<and> \<not> SPIROV h' \<and> rx_fifo h' = [] \<and>
        length (tx_fifo h') \<le> length (tx_fifo h2) - bus (spi_time h2)"
      using o R(1) T(1) less.prems(2) a by (intro less.hyps) simp_all
    then show ?thesis using R(2) T(2) False r by (subst spi_drain.simps) (auto simp: SRXMPT_def Let_def)
  qed
qed

definition spi_measure :: "(nat \<Rightarrow> nat) \<Rightarrow> ((nat \<times> spi_regs) \<times> (nat \<times> spi_regs)) set" where
  "spi_measure bus = measures [\<lambda>(n, h). n, \<lambda>(n, h). length (tx_fifo h), \<lambda>(n, h). idle_for bus (spi_time h)]"

lemma spi_wf: "wf (spi_measure bus)" by (simp add: spi_measure_def)

lemma send_returns:
  assumes fair: "\<And>t. \<exists>d. 0 < bus (t + d)" and slow: "\<And>t. bus t \<le> 4"
  shows "\<not> SPIROV h \<Longrightarrow> rx_fifo h = [] \<Longrightarrow> length (tx_fifo h) \<le> 8 \<Longrightarrow>
    \<exists>h' got'. spi_send_loop bus peer tx got h = Some (h', got') \<and> \<not> SPIROV h' \<and> rx_fifo h' = [] \<and> length (tx_fifo h') \<le> 8"
proof (induction "(length tx, h)" arbitrary: tx h got rule: wf_induct_rule[OF spi_wf[of bus]])
  case 1
  let ?t = "spi_time h" and ?h1 = "spi_tick bus peer h"
  show ?case
  proof (cases tx)
    case Nil
    then show ?thesis using 1(2-4) by (subst spi_send_loop.simps) simp
  next
    case (Cons b bs)
    have c: "length (rx_fifo h) + min (bus ?t) (length (tx_fifo h)) \<le> 8" using 1(3) slow[of ?t] by simp
    note T = tick_ok[of h bus peer, OF 1(2) c]
    define h2 where "h2 = (if SPIBEC ?h1 \<noteq> 7 then spi_write_BUF b ?h1 else ?h1)"
    define tx' where "tx' = (if SPIBEC ?h1 \<noteq> 7 then bs else tx)"
    have H: "\<not> SPIROV h2" "length (rx_fifo h2) = min (bus ?t) (length (tx_fifo h))" "spi_time h2 = Suc ?t" "length (tx_fifo h2) \<le> 8"
      "outstanding h2 \<le> 9"
      using T 1(3,4) by (auto simp: h2_def spi_write_BUF_def SPIBEC_def outstanding_def)
    have c2: "length (rx_fifo h2) + min (bus (spi_time h2)) (length (tx_fifo h2)) \<le> 8"
      using H(2) slow[of ?t] slow[of "spi_time h2"] by (simp add: min_def)
    obtain h3 g3 where D: "spi_drain bus peer got h2 = Some (h3, g3)" "\<not> SPIROV h3" "rx_fifo h3 = []"
      "length (tx_fifo h3) \<le> length (tx_fifo h2) - bus (spi_time h2)"
      using drain_returns[of h2 bus peer got, OF H(1,5) c2] by blast
    have le: "length (tx_fifo h3) \<le> 8" using D(4) H(4) by simp
    have "((length tx', h3), length tx, h) \<in> spi_measure bus"
    proof (cases "SPIBEC ?h1 \<noteq> 7")
      case True
      then show ?thesis using Cons by (simp add: tx'_def spi_measure_def)
    next
      case False
      then have b0: "bus ?t = 0" and eq: "h2 = ?h1" "tx' = tx" and l8: "length (tx_fifo h) = 8"
        using T(2) 1(4) by (auto simp: SPIBEC_def h2_def tx'_def)
      show ?thesis
      proof (cases "bus (Suc ?t) = 0")
        case False
        then have "length (tx_fifo h3) < length (tx_fifo h)" using D(4) H(3) T(2) eq l8 b0 by simp
        then show ?thesis using eq by (simp add: spi_measure_def)
      next
        case True
        have r1: "rx_fifo ?h1 = []" using T(3) 1(3) b0 by simp
        have c3: "length (rx_fifo ?h1) + min (bus (spi_time ?h1)) (length (tx_fifo ?h1)) \<le> 8" using True T(4) r1 by simp
        note T2 = tick_ok[of ?h1 bus peer, OF T(1) c3]
        have "spi_drain bus peer got h2 = Some (spi_tick bus peer ?h1, got)"
          using T2(3) r1 True T(4) eq by (subst spi_drain.simps) (simp add: SRXMPT_def)
        then have "spi_time h3 = Suc (Suc ?t)" "length (tx_fifo h3) = length (tx_fifo h)"
          using D(1) T2(2,4) T(2,4) True b0 by auto
        moreover have "idle_for bus (Suc (Suc ?t)) < idle_for bus ?t"
          using idle_for_Suc[OF fair b0] idle_for_Suc[OF fair True] by simp
        ultimately show ?thesis using eq by (simp add: spi_measure_def)
      qed
    qed
    from 1(1)[OF this D(2,3) le]
    obtain h' got' where "spi_send_loop bus peer tx' g3 h3 = Some (h', got')" "\<not> SPIROV h'" "rx_fifo h' = []" "length (tx_fifo h') \<le> 8"
      by blast
    then show ?thesis using D(1) Cons unfolding h2_def tx'_def
      by (subst spi_send_loop.simps) (cases "SPIBEC ?h1 = 7"; simp add: Let_def)
  qed
qed


text \<open>While bytes are missing and none was lost they are on their way.\<close>

lemma inv_missing:
  assumes "spi_inv peer s0 w got h" "\<not> SPIROV h" "rx_fifo h = []" "length got < length w"
  shows "tx_fifo h \<noteq> []"
proof -
  obtain k where k: "tx_fifo h = drop k w" "if SPIROV h then length got + length (rx_fifo h) < k
      else got @ rx_fifo h = map (\<lambda>i. peer (s0 @ take i w)) [0..<k]" using assms(1) unfolding spi_inv_def by blast
  have e: "got = map (\<lambda>i. peer (s0 @ take i w)) [0..<k]" using k(2) assms(2,3) by simp
  have "length got = k" unfolding e by simp
  then show ?thesis using k(1) assms(4) by simp
qed

lemma rest_returns:
  assumes fair: "\<And>t. \<exists>d. 0 < bus (t + d)" and w: "length w = unat Size"
  shows "\<not> SPIROV h \<Longrightarrow> outstanding h \<le> 8 \<Longrightarrow> spi_inv peer s0 w got h \<Longrightarrow> spi_rest_loop bus peer Size got h \<noteq> None"
proof (induction "(unat Size - length got, h)" arbitrary: h got rule: wf_induct_rule[OF spi_wf[of bus]])
  case 1
  let ?t = "spi_time h" and ?h1 = "spi_tick bus peer h"
  show ?case
  proof (cases "of_nat (length got) < Size")
    case False
    then show ?thesis by (subst spi_rest_loop.simps) simp
  next
    case True
    have "length got \<le> unat Size" using inv_length[OF 1(4)] w by simp
    then have "unat (of_nat (length got) :: u16) = length got"
      using unat_u16[of Size] by (simp add: unat_of_nat)
    then have lt: "length got < unat Size" using True by (simp add: word_less_nat_alt)
    have c: "length (rx_fifo h) + min (bus ?t) (length (tx_fifo h)) \<le> 8" using 1(3) by (simp add: outstanding_def)
    note T = tick_ok[of h bus peer, OF 1(2) c] and I = tick_inv[OF 1(4), of bus]
    have o1: "outstanding ?h1 \<le> 8" using T(2,3) 1(3) by (simp add: outstanding_def)
    show ?thesis
    proof (cases "SRXMPT ?h1")
      case False
      obtain h2 b where r: "spi_read_BUF ?h1 = (h2, b)" by (cases "spi_read_BUF ?h1")
      have ne: "rx_fifo ?h1 \<noteq> []" using False by (simp add: SRXMPT_def)
      note R = spi_read_ok[OF r ne]
      have "((unat Size - length (got @ [b]), h2), unat Size - length got, h) \<in> spi_measure bus"
        using diff_less_mono2[OF lessI lt] by (simp add: spi_measure_def)
      moreover have "outstanding h2 \<le> 8" using R(2,3) o1 by (simp add: outstanding_def)
      ultimately have "spi_rest_loop bus peer Size (got @ [b]) h2 \<noteq> None"
        using 1(1)[of "got @ [b]" h2] R(1) T(1) read_inv[OF I False r] by blast
      then show ?thesis using True False r by (subst spi_rest_loop.simps) (simp add: Let_def)
    next
      case e: True
      then have r1: "rx_fifo ?h1 = []" by (simp add: SRXMPT_def)
      then have r0: "rx_fifo h = []" and m: "min (bus ?t) (length (tx_fifo h)) = 0" using T(3) by simp_all
      have "tx_fifo h \<noteq> []" using inv_missing[OF 1(4,2) r0] lt w by simp
      with m have b0: "bus ?t = 0" by (auto simp: min_def split: if_splits)
      then have "((unat Size - length got, ?h1), unat Size - length got, h) \<in> spi_measure bus"
        using T(2,4) idle_for_Suc[OF fair b0] by (simp add: spi_measure_def)
      from 1(1)[OF this T(1) o1 I] show ?thesis using True e by (subst spi_rest_loop.simps) (simp add: Let_def)
    qed
  qed
qed

lemma inv_complete:
  assumes "spi_inv peer s0 w got h" "length got = length w"
  shows "\<not> SPIROV h" "spi_sent h = s0 @ w" "tx_fifo h = []" "rx_fifo h = []" "got = map (\<lambda>i. peer (s0 @ take i w)) [0..<length w]"
proof -
  obtain k where k: "k \<le> length w" "spi_sent h = s0 @ take k w" "tx_fifo h = drop k w"
    "if SPIROV h then length got + length (rx_fifo h) < k else got @ rx_fifo h = map (\<lambda>i. peer (s0 @ take i w)) [0..<k]"
    using assms(1) unfolding spi_inv_def by blast
  show n: "\<not> SPIROV h" using k(1,4) assms(2) by auto
  then have e: "got @ rx_fifo h = map (\<lambda>i. peer (s0 @ take i w)) [0..<k]" using k(4) by simp
  have "length (got @ rx_fifo h) = k" unfolding e by simp
  then have K: "k = length w" "rx_fifo h = []" using k(1) assms(2) by auto
  then show "spi_sent h = s0 @ w" "tx_fifo h = []" "rx_fifo h = []" "got = map (\<lambda>i. peer (s0 @ take i w)) [0..<length w]"
    using k(2,3) e by simp_all
qed

subsection \<open>Properties\<close>

text \<open>(C36) A transfer that returns has exchanged all its bytes: what was given went over the wire in order, the answer of the
  device to each byte is in the buffer in order, nothing is left in the queues and nothing was lost, whenever the bus shifted.
  And it does return when the bus keeps running and moves at most four bytes between two looks of the driver.\<close>
theorem spi_exchange_correct:
  assumes "tx_fifo h = []" "rx_fifo h = []" "\<not> SPIROV h" "length tx = unat Size"
  shows "(case SPI_TransmitReceive bus peer (Some tx) Size h of
      None \<Rightarrow> \<not> ((\<forall>t. \<exists>d. 0 < bus (t + d)) \<and> (\<forall>t. bus t \<le> 4))
    | Some (h', got, n) \<Rightarrow> n = Size \<and> spi_sent h' = spi_sent h @ tx \<and> tx_fifo h' = [] \<and> rx_fifo h' = [] \<and> \<not> SPIROV h' \<and>
        got = map (\<lambda>i. peer (spi_sent h @ take i tx)) [0..<unat Size])"
proof -
  have i0: "spi_inv peer (spi_sent h) [] [] h" using assms(1-3) by (simp add: spi_inv_def)
  show ?thesis
  proof (cases "SPI_TransmitReceive bus peer (Some tx) Size h")
    case None
    have False if fair: "\<forall>t. \<exists>d. 0 < bus (t + d)" and slow: "\<forall>t. bus t \<le> 4"
    proof -
      obtain h1 got where S: "spi_send_loop bus peer tx [] h = Some (h1, got)" "\<not> SPIROV h1" "rx_fifo h1 = []" "length (tx_fifo h1) \<le> 8"
        using send_returns[of bus h peer tx "[]"] fair slow assms(1-3) by auto
      have "spi_rest_loop bus peer Size got h1 \<noteq> None"
        using rest_returns[of bus tx Size h1 peer "spi_sent h" got] fair assms(4) S(2-4) send_inv[OF S(1) i0] by (simp add: outstanding_def)
      with None S(1) assms(4) show False by (auto simp: SPI_TransmitReceive_def Let_def split: option.splits)
    qed
    then have "\<not> ((\<forall>t. \<exists>d. 0 < bus (t + d)) \<and> (\<forall>t. bus t \<le> 4))" by blast
    with None show ?thesis unfolding None option.case by blast
  next
    case (Some r)
    then obtain h1 g1 h2 g2 where S: "spi_send_loop bus peer tx [] h = Some (h1, g1)"
      and R: "spi_rest_loop bus peer Size g1 h1 = Some (h2, g2)" and r: "r = (h2, g2, Size)"
      using assms(4) by (auto simp: SPI_TransmitReceive_def Let_def split: option.splits)
    have J: "spi_inv peer (spi_sent h) tx g2 h2" "length g2 = unat Size"
      using rest_inv[OF R _ assms(4)] send_inv[OF S i0] by auto
    note E = inv_complete[OF J(1)] J(2) assms(4)
    with Some r show ?thesis by simp
  qed
qed


theorem spi_exchange_correct_witness:
  "case SPI_TransmitReceive (\<lambda>t. 1) (\<lambda>sent. of_nat (length sent) + 0x40) (Some [1, 2, 3]) 3
      \<lparr>spi_STAT = 0, spi_CON1 = 0, spi_CON2 = 0, tx_fifo = [], rx_fifo = [], spi_sent = [], SPIROV = False, spi_time = 0\<rparr> of
    None \<Rightarrow> False | Some (h', got, n) \<Rightarrow> n = 3 \<and> spi_sent h' = [1, 2, 3] \<and> got = [0x40, 0x41, 0x42]"
  using spi_exchange_correct[of "\<lparr>spi_STAT = 0, spi_CON1 = 0, spi_CON2 = 0, tx_fifo = [], rx_fifo = [], spi_sent = [],
    SPIROV = False, spi_time = 0\<rparr>" "[1, 2, 3]" 3 "\<lambda>t. 1" "\<lambda>sent. of_nat (length sent) + 0x40"]
  by (auto simp: upt_rec split: option.splits)

subsection \<open>When bytes are lost\<close>

text \<open>A byte sent while nothing moves on the bus.\<close>

lemma send_quiet:
  assumes "bus (spi_time h) = 0" "bus (Suc (spi_time h)) = 0" "rx_fifo h = []" "length (tx_fifo h) \<le> 7"
  shows "spi_send_loop bus peer (b # bs) got h =
    spi_send_loop bus peer bs got (h\<lparr>tx_fifo := tx_fifo h @ [b], spi_time := Suc (Suc (spi_time h))\<rparr>)"
proof -
  have t: "spi_tick bus peer h = h\<lparr>spi_time := Suc (spi_time h)\<rparr>" using assms(1) by (simp add: spi_tick_def)
  have w: "spi_write_BUF b (spi_tick bus peer h) = h\<lparr>tx_fifo := tx_fifo h @ [b], spi_time := Suc (spi_time h)\<rparr>"
    by (simp add: t spi_write_BUF_def)
  have "SPIBEC (spi_tick bus peer h) \<noteq> 7" using assms(4) by (simp add: t SPIBEC_def)
  moreover have "spi_drain bus peer got (spi_write_BUF b (spi_tick bus peer h)) =
      Some (h\<lparr>tx_fifo := tx_fifo h @ [b], spi_time := Suc (Suc (spi_time h))\<rparr>, got)"
    unfolding w using assms(2,3) by (subst spi_drain.simps) (simp add: spi_tick_def SRXMPT_def)
  ultimately show ?thesis by (subst spi_send_loop.simps) simp
qed

lemma send_quiets:
  assumes "\<forall>d < 2 * length ds. bus (spi_time h + d) = 0" "rx_fifo h = []" "length (tx_fifo h) + length ds \<le> 8"
  shows "spi_send_loop bus peer (ds @ es) got h =
    spi_send_loop bus peer es got (h\<lparr>tx_fifo := tx_fifo h @ ds, spi_time := spi_time h + 2 * length ds\<rparr>)"
  using assms
proof (induction ds arbitrary: h)
  case (Cons d ds)
  have "bus (spi_time h) = 0" "bus (Suc (spi_time h)) = 0"
    using Cons.prems(1)[rule_format, of 0] Cons.prems(1)[rule_format, of 1] by simp_all
  then have q: "spi_send_loop bus peer (d # ds @ es) got h =
      spi_send_loop bus peer (ds @ es) got (h\<lparr>tx_fifo := tx_fifo h @ [d], spi_time := Suc (Suc (spi_time h))\<rparr>)"
    using Cons.prems(2,3) by (intro send_quiet) simp_all
  have "\<forall>e < 2 * length ds. bus (Suc (Suc (spi_time h)) + e) = 0"
  proof (intro allI impI)
    fix e assume "e < 2 * length ds"
    then show "bus (Suc (Suc (spi_time h)) + e) = 0" using Cons.prems(1)[rule_format, of "e + 2"] by simp
  qed
  then show ?case using q Cons.IH[of "h\<lparr>tx_fifo := tx_fifo h @ [d], spi_time := Suc (Suc (spi_time h))\<rparr>"] Cons.prems(2,3) by simp
qed simp

lemma shifts_lost:
  assumes "n \<le> length (tx_fifo h)" "8 < length (rx_fifo h) + n" "length (rx_fifo h) \<le> 8"
  shows "SPIROV ((spi_shift peer ^^ n) h)"
  using assms
proof (induction n arbitrary: h)
  case (Suc n)
  then obtain b bs where b: "tx_fifo h = b # bs" by (cases "tx_fifo h") auto
  have c: "(spi_shift peer ^^ Suc n) h = (spi_shift peer ^^ n) (spi_shift peer h)" by (simp only: funpow_Suc_right comp_apply)
  show ?case
  proof (cases "length (rx_fifo h) < 8")
    case True
    then show ?thesis unfolding c using Suc.prems b by (intro Suc.IH) (simp_all add: spi_shift_def Let_def)
  next
    case False
    then have "SPIROV (spi_shift peer h)" using b by (simp add: spi_shift_def Let_def)
    moreover have "SPIROV g \<Longrightarrow> SPIROV ((spi_shift peer ^^ n) g)" for g by (induction n) (auto intro: shift_rov)
    ultimately show ?thesis unfolding c by blast
  qed
qed simp

text \<open>
  A bus that runs on, but on which the ninth byte is being written just when the first one has come in, followed by an
  interrupt long enough for eight more.
\<close>

definition spi_stall :: "nat \<Rightarrow> nat" where
  "spi_stall t = (if t < 16 then 0 else if t = 17 then 8 else 1)"

text \<open>(C37) With one interrupt at the wrong moment nine bytes come in between two looks of the driver: the ninth is lost in the
  receive queue, and the call waits for it for ever, whatever is sent (nine bytes or more) and whatever the device answers.\<close>
theorem spi_overrun_hangs:
  assumes "tx_fifo h = []" "rx_fifo h = []" "\<not> SPIROV h" "spi_time h = 0" "length tx = unat Size" "9 \<le> length tx"
  shows "SPI_TransmitReceive spi_stall peer (Some tx) Size h = None"
proof -
  define ds e es where "ds = take 8 tx" and "e = tx ! 8" and "es = drop 9 tx"
  have tx: "tx = ds @ e # es" and l8: "length ds = 8"
    using assms(6) Cons_nth_drop_Suc[of 8 tx] by (simp_all add: ds_def e_def es_def)
  let ?h = "h\<lparr>tx_fifo := ds, spi_time := 16\<rparr>"
  have q: "spi_send_loop spi_stall peer tx [] h = spi_send_loop spi_stall peer (e # es) [] ?h"
    unfolding tx using assms(1,2,4) l8 by (subst send_quiets) (simp_all add: spi_stall_def)
  have i0: "spi_inv peer (spi_sent h) ds [] ?h" using assms(1-3) by (simp add: spi_inv_def)
  obtain d0 dt where d0: "ds = d0 # dt" "length dt = 7" using l8 by (cases ds) auto
  let ?h1 = "spi_tick spi_stall peer ?h"
  have t1: "tx_fifo ?h1 = dt" "length (rx_fifo ?h1) = 1" "spi_time ?h1 = 17"
    using d0 assms(2) by (simp_all add: spi_tick_def spi_stall_def spi_shift_def Let_def)
  let ?h2 = "spi_write_BUF e ?h1"
  have b: "SPIBEC ?h1 \<noteq> 7" using t1 d0 by (simp add: SPIBEC_def)
  have rov: "SPIROV (spi_tick spi_stall peer ?h2)"
  proof -
    have "spi_time ?h2 = 17" "SPIROV ((spi_shift peer ^^ 8) ?h2)"
      using t1 d0(2) by (auto simp: spi_write_BUF_def intro!: shifts_lost)
    then show ?thesis unfolding spi_tick_def[of _ _ ?h2] by (simp add: spi_stall_def)
  qed
  have i2: "spi_inv peer (spi_sent h) (ds @ [e]) [] ?h2" by (intro write_inv tick_inv i0)
  show ?thesis
  proof (rule ccontr)
    assume "SPI_TransmitReceive spi_stall peer (Some tx) Size h \<noteq> None"
    then obtain h4 g4 h5 g5 where S: "spi_send_loop spi_stall peer (e # es) [] ?h = Some (h4, g4)"
      and R: "spi_rest_loop spi_stall peer Size g4 h4 = Some (h5, g5)"
      using assms(5) by (auto simp: SPI_TransmitReceive_def q split: option.splits)
    from S b obtain h3 g3 where D: "spi_drain spi_stall peer [] ?h2 = Some (h3, g3)" and S3: "spi_send_loop spi_stall peer es g3 h3 = Some (h4, g4)"
      by (subst (asm) spi_send_loop.simps) (auto simp: Let_def split: option.splits)
    have i3: "spi_inv peer (spi_sent h) (ds @ [e]) g3 h3" using drain_inv[OF D i2] by blast
    have "SPIROV h3"
    proof -
      obtain h2' b' where r: "spi_read_BUF (spi_tick spi_stall peer ?h2) = (h2', b')" by (cases "spi_read_BUF (spi_tick spi_stall peer ?h2)")
      show ?thesis
      proof (cases "SRXMPT (spi_tick spi_stall peer ?h2)")
        case True
        then show ?thesis using D rov by (subst (asm) spi_drain.simps) (auto simp: Let_def)
      next
        case False
        then have "spi_drain spi_stall peer [b'] h2' = Some (h3, g3)" using D r by (subst (asm) spi_drain.simps) (simp add: Let_def)
        moreover have "spi_inv peer (spi_sent h) (ds @ [e]) [b'] h2'" using read_inv[OF tick_inv[OF i2] False r] by simp
        ultimately show ?thesis using drain_inv io_rov(2)[OF r] rov by blast
      qed
    qed
    moreover have "spi_inv peer (spi_sent h) tx g4 h4 \<and> (SPIROV h3 \<longrightarrow> SPIROV h4)" using send_inv[OF S3 i3] tx by simp
    ultimately have "SPIROV h5" "spi_inv peer (spi_sent h) tx g5 h5" "length g5 = length tx"
      using rest_inv[OF R _ assms(5)] assms(5) by auto
    with inv_complete(1) show False by blast
  qed
qed

theorem spi_overrun_hangs_witness:
  "SPI_TransmitReceive spi_stall (\<lambda>sent. 0) (Some (replicate 16 0xAA)) 16
      \<lparr>spi_STAT = 0, spi_CON1 = 0, spi_CON2 = 0, tx_fifo = [], rx_fifo = [], spi_sent = [], SPIROV = False, spi_time = 0\<rparr> = None"
  by (rule spi_overrun_hangs) simp_all

end
