(* ===== verification/UART.thy ===== *)
theory UART
  imports Registers
begin

section \<open>The serial ports\<close>

text \<open>
  Models \<^verbatim>\<open>Peripherals/UART/UART.c\<close> and \<^verbatim>\<open>UnixAPI/mini_termios.c\<close>. Each port has a send and a receive queue of four bytes
  behind \<^verbatim>\<open>UxTXREG\<close> and \<^verbatim>\<open>UxRXREG\<close>. The line runs on its own: \<open>line t\<close> are the bytes that arrive in step \<open>t\<close>, \<open>gone t\<close> is the
  number of bytes that leave in it. A byte that finds the receive queue full is lost and sets \<^verbatim>\<open>OERR\<close>, which stops the
  receiver until it is cleared; clearing it empties the queue. A step is a look at the status register while
  sending, and the delay of a microsecond while receiving. The wait of \<^verbatim>\<open>UART_Transmit\<close> may not end; \<open>None\<close> is a call that
  does not.
\<close>

subsection \<open>Data and hardware\<close>

record uart =
  u_MODE :: u16
  u_STA :: u16
  u_BRG :: u16
  u_tx :: "u8 list"
  u_sent :: "u8 list"
  u_rx :: "u8 list"
  OERR :: bool
  u_time :: nat

definition uart_arrive :: "u8 \<Rightarrow> uart \<Rightarrow> uart" where
  "uart_arrive b h =
     (if OERR h then h else if length (u_rx h) < 4 then h\<lparr>u_rx := u_rx h @ [b]\<rparr> else h\<lparr>OERR := True\<rparr>)"

definition uart_tick :: "(nat \<Rightarrow> u8 list) \<Rightarrow> (nat \<Rightarrow> nat) \<Rightarrow> uart \<Rightarrow> uart" where
  "uart_tick line gone h =
     (let t = u_time h;
          h1 = h\<lparr>u_sent := u_sent h @ take (gone t) (u_tx h), u_tx := drop (gone t) (u_tx h), u_time := Suc t\<rparr>
      in fold uart_arrive (line t) h1)"

definition UTXBF :: "uart \<Rightarrow> bool" where
  "UTXBF h = (4 \<le> length (u_tx h))"

definition URXDA :: "uart \<Rightarrow> bool" where
  "URXDA h = (u_rx h \<noteq> [])"

subsection \<open>The driver\<close>

definition UART_Initialize :: "u16 \<Rightarrow> u16 \<Rightarrow> uart \<Rightarrow> uart" where
  "UART_Initialize uart_mode speed h =
     (let m0 = set_field 15 1 0 (u_MODE h);
          m1 = (if uart_mode AND 0x80 \<noteq> 0 then set_field 0 1 1 m0 else set_field 0 1 0 m0);
          m2 = (if uart_mode AND 0x01 \<noteq> 0 then set_field 1 2 3 m1
                else if uart_mode AND 0x20 \<noteq> 0 then
                  if uart_mode AND 0x40 \<noteq> 0 then set_field 1 2 2 m1 else set_field 1 2 1 m1
                else set_field 1 2 0 m1);
          m3 = set_field 7 1 0 (set_field 6 1 0 (set_field 5 1 0 (set_field 4 1 0 (set_field 3 1 1 m2))));
          m4 = (if uart_mode AND 0x10 \<noteq> 0 then set_field 11 1 1 (set_field 8 2 2 m3)
                else set_field 11 1 0 (set_field 8 2 0 m3));
          m5 = set_field 13 1 0 (set_field 12 1 0 m4)
      in h\<lparr>u_MODE := set_field 15 1 1 m5, OERR := False, u_BRG := speed, u_STA := set_field 10 1 1 0\<rparr>)"

definition UART_SetSpeed :: "u16 \<Rightarrow> uart \<Rightarrow> uart" where
  "UART_SetSpeed speed h = h\<lparr>u_BRG := speed\<rparr>"

partial_function (option) uart_put :: "(nat \<Rightarrow> u8 list) \<Rightarrow> (nat \<Rightarrow> nat) \<Rightarrow> u8 \<Rightarrow> uart \<Rightarrow> uart option" where
  "uart_put line gone b h =
     (let h1 = uart_tick line gone h
      in if UTXBF h1 then uart_put line gone b h1 else Some (h1\<lparr>u_tx := u_tx h1 @ [b]\<rparr>))"

primrec UART_Transmit :: "(nat \<Rightarrow> u8 list) \<Rightarrow> (nat \<Rightarrow> nat) \<Rightarrow> u8 list \<Rightarrow> uart \<Rightarrow> uart option" where
  "UART_Transmit line gone [] h = Some h"
| "UART_Transmit line gone (b # bs) h =
     (case uart_put line gone b h of None \<Rightarrow> None | Some h' \<Rightarrow> UART_Transmit line gone bs h')"

text \<open>The wait for one byte; the result says whether there is one.\<close>

function uart_wait :: "(nat \<Rightarrow> u8 list) \<Rightarrow> (nat \<Rightarrow> nat) \<Rightarrow> u32 \<Rightarrow> u32 \<Rightarrow> uart \<Rightarrow> uart \<times> bool" where
  "uart_wait line gone byte_usecs used h =
     (if URXDA h then (h, True)
      else let h1 = uart_tick line gone h; used1 = used + 1
        in if byte_usecs \<le> used1 then (h1, False) else uart_wait line gone byte_usecs used1 h1)"
  by pat_completeness auto
termination
proof (relation "measure (\<lambda>(_, _, n, k, _). unat (n - (k + 1)))")
  fix line :: "nat \<Rightarrow> u8 list" and gone :: "nat \<Rightarrow> nat" and n k k1 :: u32 and h h1 :: uart
  assume k1: "k1 = k + 1" and lt: "\<not> n \<le> k1"
  have "n - k1 \<noteq> 0" using lt by auto
  then have "unat (n - k1 - 1) < unat (n - k1)" by (rule measure_unat)
  moreover have "n - k1 - 1 = n - (k1 + 1)" by simp
  ultimately show "((line, gone, n, k1, h1), line, gone, n, k, h) \<in> measure (\<lambda>(_, _, n, k, _). unat (n - (k + 1)))"
    by (simp only: in_measure prod.case k1)
qed simp

declare uart_wait.simps [simp del]

text \<open>
  The data register is read after a set \<^verbatim>\<open>OERR\<close> has been cleared, which empties the queue: \<open>stale\<close> is what an empty queue gives.
  \<open>n\<close> bytes are still wanted; the result are the bytes stored, their number is what the function returns.
\<close>

primrec uart_receive_from ::
  "(nat \<Rightarrow> u8 list) \<Rightarrow> (nat \<Rightarrow> nat) \<Rightarrow> u8 \<Rightarrow> u32 \<Rightarrow> nat \<Rightarrow> uart \<Rightarrow> uart \<times> u8 list" where
  "uart_receive_from line gone stale byte_usecs 0 h = (h, [])"
| "uart_receive_from line gone stale byte_usecs (Suc n) h =
     (case uart_wait line gone byte_usecs 0 h of
        (h1, False) \<Rightarrow> (h1, [])
      | (h1, True) \<Rightarrow>
          let h2 = (if OERR h1 then h1\<lparr>OERR := False, u_rx := []\<rparr> else h1);
              b = (case u_rx h2 of [] \<Rightarrow> stale | c # _ \<Rightarrow> c);
              (h3, bs) = uart_receive_from line gone stale byte_usecs n (h2\<lparr>u_rx := tl (u_rx h2)\<rparr>)
          in (h3, b # bs))"

text \<open>The product has 16 bits.\<close>

definition UART_Receive ::
  "(nat \<Rightarrow> u8 list) \<Rightarrow> (nat \<Rightarrow> nat) \<Rightarrow> u8 \<Rightarrow> u16 \<Rightarrow> uart \<Rightarrow> uart \<times> u8 list" where
  "UART_Receive line gone stale len h = uart_receive_from line gone stale (ucast (u_BRG h * 3)) (unat len) h"

subsection \<open>Speeds\<close>

text \<open>The three ports of the board; \<open>None\<close> is the result -1.\<close>

record uart_ports =
  huart1 :: uart
  huart2 :: uart
  huart3 :: uart

definition cfsetspeed :: "u16 \<Rightarrow> u16 \<Rightarrow> uart_ports \<Rightarrow> uart_ports \<times> bool" where
  "cfsetspeed fd speed p =
     (if fd = 0x10 then (p\<lparr>huart1 := (huart1 p)\<lparr>u_BRG := speed\<rparr>\<rparr>, True)
      else if fd = 0x11 then (p\<lparr>huart2 := (huart2 p)\<lparr>u_BRG := speed\<rparr>\<rparr>, True)
      else if fd = 0x12 then (p\<lparr>huart3 := (huart3 p)\<lparr>u_BRG := speed\<rparr>\<rparr>, True)
      else (p, False))"

text \<open>The result is an \<open>int\<close> of 16 bits.\<close>

definition cfgetspeed :: "u16 \<Rightarrow> uart_ports \<Rightarrow> u16" where
  "cfgetspeed fd p =
     (if fd = 0x10 then u_BRG (huart1 p) else if fd = 0x11 then u_BRG (huart2 p)
      else if fd = 0x12 then u_BRG (huart3 p) else -1)"

subsection \<open>Receiving\<close>

text \<open>What has arrived in the steps from \<open>t\<close> to before \<open>t'\<close>.\<close>

definition arrived :: "(nat \<Rightarrow> u8 list) \<Rightarrow> nat \<Rightarrow> nat \<Rightarrow> u8 list" where
  "arrived line t t' = concat (map line [t..<t'])"

lemma arrived_simps [simp]: "arrived line t t = []" "t < t' \<Longrightarrow> arrived line t t' = line t @ arrived line (Suc t) t'"
  by (simp_all add: arrived_def upt_conv_Cons)

lemma arrived_append: "t \<le> u \<Longrightarrow> u \<le> v \<Longrightarrow> arrived line t v = arrived line t u @ arrived line u v"
  by (simp add: arrived_def flip: concat_append map_append) (metis le_add_diff_inverse upt_add_eq_append)

lemma arrive_all:
  assumes "\<not> OERR h" "length (u_rx h) + length bs \<le> 4"
  shows "fold uart_arrive bs h = h\<lparr>u_rx := u_rx h @ bs\<rparr>"
  using assms by (induction bs arbitrary: h) (simp_all add: uart_arrive_def)

lemma tick_receive:
  assumes "\<not> OERR h" "u_rx h = []" "length (line (u_time h)) \<le> 4"
  shows "\<not> OERR (uart_tick line gone h)" "u_rx (uart_tick line gone h) = line (u_time h)" "u_time (uart_tick line gone h) = Suc (u_time h)"
  using assms by (simp_all add: uart_tick_def Let_def arrive_all)

text \<open>The wait ends with the first byte of the first step that brings one, or after the limit, at least one step.\<close>

lemma wait_ok:
  assumes "\<forall>t. length (line t) \<le> 4"
  shows "\<not> OERR h \<Longrightarrow> length (u_rx h) \<le> 4 \<Longrightarrow> used = 0 \<or> used < byte_usecs \<Longrightarrow> uart_wait line gone byte_usecs used h = (h', got) \<Longrightarrow>
    \<not> OERR h' \<and> u_time h \<le> u_time h' \<and> u_rx h @ arrived line (u_time h) (u_time h') = u_rx h' \<and> length (u_rx h') \<le> 4 \<and>
    u_time h' \<le> u_time h + max 1 (unat byte_usecs - unat used) \<and>
    (if got then u_rx h' \<noteq> [] else u_time h' = u_time h + max 1 (unat byte_usecs - unat used) \<and>
      u_rx h = [] \<and> arrived line (u_time h) (u_time h' - 1) = [])"
  using assms
proof (induction line gone byte_usecs used h rule: uart_wait.induct)
  case (1 line gone byte_usecs used h)
  note P = 1(2-6)
  show ?case
  proof (cases "URXDA h")
    case True
    then show ?thesis using P by (simp add: uart_wait.simps URXDA_def)
  next
    case False
    let ?h1 = "uart_tick line gone h" and ?t = "u_time h"
    have rx: "u_rx h = []" using False by (simp add: URXDA_def)
    note T = tick_receive[OF P(1) rx, of line gone, OF P(5)[rule_format]]
    have l4: "length (line ?t) \<le> 4" using P(5) by blast
    show ?thesis
    proof (cases "byte_usecs \<le> used + 1")
      case True
      have "max 1 (unat byte_usecs - unat used) = 1"
        using P(3) True by (auto simp: word_le_nat_alt word_less_nat_alt unat_word_ariths split: if_splits)
      moreover have "h' = ?h1" "\<not> got" using P(4) True False by (auto simp: uart_wait.simps Let_def)
      ultimately show ?thesis using T rx l4 by simp
    next
      case c: False
      have n: "unat (used + 1) = Suc (unat used)" "unat used < unat byte_usecs"
        using c P(3) unat_u32[of byte_usecs] by (auto simp: word_le_nat_alt word_less_nat_alt unat_word_ariths not_le)
      have w: "uart_wait line gone byte_usecs (used + 1) ?h1 = (h', got)" using P(4) c False by (simp add: uart_wait.simps[of line gone byte_usecs used h] Let_def)
      have a: "length (u_rx ?h1) \<le> 4" "used + 1 = 0 \<or> used + 1 < byte_usecs" using l4 T(2) c by (auto simp: not_le)
      note IH = 1(1)[OF False refl refl c T(1) a w P(5), unfolded T(2,3)]
      have m: "Suc (max 1 (unat byte_usecs - unat (used + 1))) = max 1 (unat byte_usecs - unat used)"
        using n c by (auto simp: word_le_nat_alt max_def)
      show ?thesis using IH m rx by (cases got) auto
    qed
  qed
qed


lemma receive_ok:
  assumes "\<forall>t. length (line t) \<le> 4"
  shows "\<not> OERR h \<Longrightarrow> length (u_rx h) \<le> 4 \<Longrightarrow> uart_receive_from line gone stale L n h = (h', bs) \<Longrightarrow>
    \<not> OERR h' \<and> u_time h \<le> u_time h' \<and> u_rx h @ arrived line (u_time h) (u_time h') = bs @ u_rx h' \<and> length (u_rx h') \<le> 4 \<and>
    length bs \<le> n \<and> u_time h' \<le> u_time h + n * max 1 (unat L) \<and>
    (length bs < n \<longrightarrow> u_time h + max 1 (unat L) \<le> u_time h' \<and> arrived line (u_time h' - max 1 (unat L)) (u_time h' - 1) = [])"
proof (induction n arbitrary: h h' bs)
  case (Suc n)
  obtain h1 got where w: "uart_wait line gone L 0 h = (h1, got)" by (cases "uart_wait line gone L 0 h")
  note X = wait_ok[OF assms Suc.prems(1,2) disjI1[OF refl] w, unfolded unsigned_0 minus_nat.diff_0]
  then have W: "\<not> OERR h1" "u_time h \<le> u_time h1" "u_rx h @ arrived line (u_time h) (u_time h1) = u_rx h1" "length (u_rx h1) \<le> 4"
    "u_time h1 \<le> u_time h + max 1 (unat L)" "if got then u_rx h1 \<noteq> [] else u_time h1 = u_time h + max 1 (unat L) \<and>
      u_rx h = [] \<and> arrived line (u_time h) (u_time h1 - 1) = []" by blast+
  show ?case
  proof (cases got)
    case False
    then show ?thesis using Suc.prems(3) w W by auto
  next
    case True
    then obtain b rest where r: "u_rx h1 = b # rest" using W(6) by (cases "u_rx h1") auto
    obtain h3 cs where q: "uart_receive_from line gone stale L n (h1\<lparr>u_rx := rest\<rparr>) = (h3, cs)"
      by (cases "uart_receive_from line gone stale L n (h1\<lparr>u_rx := rest\<rparr>)")
    have e: "h' = h3" "bs = b # cs" using Suc.prems(3) w True r q W(1) by (simp_all add: Let_def)
    have IH: "\<not> OERR h3 \<and> u_time h1 \<le> u_time h3 \<and> rest @ arrived line (u_time h1) (u_time h3) = cs @ u_rx h3 \<and> length (u_rx h3) \<le> 4 \<and>
        length cs \<le> n \<and> u_time h3 \<le> u_time h1 + n * max 1 (unat L) \<and>
        (length cs < n \<longrightarrow> u_time h1 + max 1 (unat L) \<le> u_time h3 \<and> arrived line (u_time h3 - max 1 (unat L)) (u_time h3 - 1) = [])"
      using Suc.IH[OF _ _ q] W(1,4) r by simp
    have "arrived line (u_time h) (u_time h3) = arrived line (u_time h) (u_time h1) @ arrived line (u_time h1) (u_time h3)"
      using W(2) IH by (intro arrived_append) auto
    then have "u_rx h @ arrived line (u_time h) (u_time h3) = b # rest @ arrived line (u_time h1) (u_time h3)"
      using W(3) r by (simp flip: append_assoc)
    then show ?thesis using IH W(2,5) e by auto
  qed
qed simp

subsection \<open>Sending\<close>

lemma fold_arrive_tx: "u_tx (fold uart_arrive bs h) = u_tx h \<and> u_sent (fold uart_arrive bs h) = u_sent h \<and> u_time (fold uart_arrive bs h) = u_time h"
  by (induction bs arbitrary: h) (simp_all add: uart_arrive_def)

lemma tick_send:
  "u_sent (uart_tick line gone h) @ u_tx (uart_tick line gone h) = u_sent h @ u_tx h"
  "length (u_tx (uart_tick line gone h)) = length (u_tx h) - gone (u_time h)" "u_time (uart_tick line gone h) = Suc (u_time h)"
  by (simp_all add: uart_tick_def Let_def fold_arrive_tx)

lemma uart_put_ok:
  assumes "uart_put line gone b h = Some h'"
  shows "u_sent h' @ u_tx h' = u_sent h @ u_tx h @ [b]"
proof (rule uart_put.raw_induct[where P = "\<lambda>line gone b h h'. u_sent h' @ u_tx h' = u_sent h @ u_tx h @ [b]", OF _ assms])
  fix f line gone b h h'
  assume IH: "\<And>line gone b h h'. f line gone b h = Some h' \<Longrightarrow> u_sent h' @ u_tx h' = u_sent h @ u_tx h @ [b]"
    and f: "(let h1 = uart_tick line gone h in if UTXBF h1 then f line gone b h1 else Some (h1\<lparr>u_tx := u_tx h1 @ [b]\<rparr>)) = Some h'"
  show "u_sent h' @ u_tx h' = u_sent h @ u_tx h @ [b]"
  proof (cases "UTXBF (uart_tick line gone h)")
    case True
    then show ?thesis using f IH[of line gone b "uart_tick line gone h" h'] tick_send(1)[of line gone h] by (simp flip: append_assoc)
  next
    case False
    then show ?thesis using f tick_send(1)[of line gone h] by (auto simp: Let_def simp flip: append_assoc)
  qed
qed

lemma put_returns:
  assumes "\<And>t. \<exists>d. 0 < gone (t + d)"
  shows "uart_put line gone b h \<noteq> None"
proof (induction "(length (u_tx h), idle_for gone (u_time h))" arbitrary: h rule: wf_induct_rule[OF wf_lex_prod[OF wf_less wf_less]])
  case 1
  let ?h1 = "uart_tick line gone h"
  show ?case
  proof (cases "UTXBF ?h1")
    case False
    then show ?thesis by (subst uart_put.simps) (simp add: Let_def)
  next
    case True
    have "((length (u_tx ?h1), idle_for gone (u_time ?h1)), length (u_tx h), idle_for gone (u_time h)) \<in> less_than <*lex*> less_than"
    proof (cases "gone (u_time h) = 0")
      case g: True
      then show ?thesis using tick_send(2,3)[of line gone h] idle_for_Suc[OF assms g] by simp
    next
      case False
      then show ?thesis using True tick_send(2)[of line gone h] by (auto simp: UTXBF_def)
    qed
    then have "uart_put line gone b ?h1 \<noteq> None" by (intro 1) simp
    then show ?thesis using True by (subst uart_put.simps) (simp add: Let_def)
  qed
qed

subsection \<open>Properties\<close>

text \<open>(C38) A call of the receive function hands over the bytes in the order in which they arrived, each once and none left out: what was
  in the queue and what arrived during the call are the bytes returned and what is left in the queue. It returns in bounded time, and
  with fewer bytes than asked for only when the line was silent for the time-out. (The receiver
  starts without overrun, and no more than four bytes arrive in a microsecond, so that it stays so.)\<close>
theorem uart_receive_correct:
  assumes "\<forall>t. length (line t) \<le> 4" "\<not> OERR h" "length (u_rx h) \<le> 4" "UART_Receive line gone stale len h = (h', bs)"
  shows "u_rx h @ arrived line (u_time h) (u_time h') = bs @ u_rx h' \<and> \<not> OERR h' \<and> length bs \<le> unat len \<and>
    u_time h' \<le> u_time h + unat len * max 1 (unat (u_BRG h * 3)) \<and>
    (length bs < unat len \<longrightarrow> u_time h + max 1 (unat (u_BRG h * 3)) \<le> u_time h' \<and>
      arrived line (u_time h' - max 1 (unat (u_BRG h * 3))) (u_time h' - 1) = [])"
proof -
  have "unat (ucast (u_BRG h * 3) :: u32) = unat (u_BRG h * 3)" using unat_u16[of "u_BRG h * 3"] by (simp add: unsigned_ucast_eq take_bit_eq_mod)
  then show ?thesis using receive_ok[OF assms(1-3), of gone stale "ucast (u_BRG h * 3)" "unat len" h' bs] assms(4)
    by (simp only: UART_Receive_def) simp
qed

definition demo_uart :: uart where
  "demo_uart = \<lparr>u_MODE = 0, u_STA = 0, u_BRG = 0x22, u_tx = [], u_sent = [], u_rx = [0x41], OERR = False, u_time = 0\<rparr>"

theorem uart_receive_correct_witness:
  "case UART_Receive (\<lambda>t. if t = 50 then [0x42] else []) (\<lambda>t. 1) 0 8 demo_uart of (h', bs) \<Rightarrow>
     0x41 # arrived (\<lambda>t. if t = 50 then [0x42] else []) 0 (u_time h') = bs @ u_rx h' \<and> u_time h' \<le> 816"
  using uart_receive_correct[of "\<lambda>t. if t = 50 then [0x42] else []" demo_uart "\<lambda>t. 1" 0 8] 
  by (cases "UART_Receive (\<lambda>t. if t = 50 then [0x42] else []) (\<lambda>t. 1) 0 8 demo_uart") (simp add: demo_uart_def)

text \<open>Transmitted bytes leave in order: a call returns exactly when room keeps coming up in the queue, and then its bytes follow all
  those sent before.\<close>
theorem uart_transmit_correct:
  shows "case UART_Transmit line gone buf h of None \<Rightarrow> \<not> (\<forall>t. \<exists>d. 0 < gone (t + d))
    | Some h' \<Rightarrow> u_sent h' @ u_tx h' = u_sent h @ u_tx h @ buf"
proof (induction buf arbitrary: h)
  case (Cons b bs)
  show ?case
  proof (cases "uart_put line gone b h")
    case None
    then have "\<not> (\<forall>t. \<exists>d. 0 < gone (t + d))" using put_returns[of gone line b h] by blast
    with None show ?thesis by simp
  next
    case (Some h1)
    then show ?thesis using Cons[of h1] uart_put_ok[OF Some] by (auto split: option.splits)
  qed
qed simp

end
