(* ===== verification/Timers.thy ===== *)
theory Timers
  imports Registers
begin

section \<open>Timers, delays and external interrupts\<close>

text \<open>
  Models \<^verbatim>\<open>Peripherals/Timer/Timer.c\<close>, \<^verbatim>\<open>Peripherals/EXT_INT/EXT_INT.c\<close> and \<^verbatim>\<open>Core/Delay.c\<close>. A handle has the registers of a timer and
  those of its upper half, which counts in 32-bit mode; reading \<^verbatim>\<open>TMRx\<close> of the lower half copies the count of the
  upper one to its holding register, as the hardware does. The interrupt flag and enable registers are words of which a handle
  uses one bit. A delay is the number of cycles spent in \<^verbatim>\<open>__delay32\<close>.
\<close>

subsection \<open>Timers\<close>

record tmr_regs =
  tmr_CON :: u16
  tmr_VAL :: u16
  tmr_VALHLD :: u16
  tmr_PR :: u16

record 'h timer =
  lower_regs :: tmr_regs
  upper_regs :: tmr_regs
  tmr_IFS :: u16
  tmr_IEC :: u16
  IFS_OFFSET :: nat
  IEC_OFFSET :: nat
  InterruptHandler :: "'h option"

definition lower_upd :: "(tmr_regs \<Rightarrow> tmr_regs) \<Rightarrow> 'h timer \<Rightarrow> 'h timer" where
  "lower_upd f t = t\<lparr>lower_regs := f (lower_regs t)\<rparr>"

definition upper_upd :: "(tmr_regs \<Rightarrow> tmr_regs) \<Rightarrow> 'h timer \<Rightarrow> 'h timer" where
  "upper_upd f t = t\<lparr>upper_regs := f (upper_regs t)\<rparr>"

definition con_upd :: "(u16 \<Rightarrow> u16) \<Rightarrow> 'h timer \<Rightarrow> 'h timer" where
  "con_upd f = lower_upd (\<lambda>r. r\<lparr>tmr_CON := f (tmr_CON r)\<rparr>)"

definition T32 :: "'h timer \<Rightarrow> bool" where
  "T32 t = (get_field 3 1 (tmr_CON (lower_regs t)) \<noteq> 0)"

definition Timer_Initialize :: "u16 \<Rightarrow> 'h timer \<Rightarrow> 'h timer" where
  "Timer_Initialize flags t =
     (let c0 = 0;
          c1 = (if flags AND 0x10 \<noteq> 0 then set_field 13 1 1 c0 else c0);
          c2 = (if flags AND 0x01 \<noteq> 0 then set_field 3 1 1 c1 else c1);
          c3 = (if flags AND 0x02 \<noteq> 0 then set_field 6 1 1 c2 else c2);
          c4 = (if flags AND 0x04 \<noteq> 0 then set_field 1 1 1 c3 else c3);
          c5 = (if flags AND 0x08 \<noteq> 0 then set_field 2 1 1 c4 else c4)
      in con_upd (\<lambda>_. c5) t)"

definition Timer_SetSpeedByPrescaler :: "u16 \<Rightarrow> 'h timer \<Rightarrow> 'h timer" where
  "Timer_SetSpeedByPrescaler prescaler = con_upd (set_field 4 2 prescaler)"

definition Timer_Start :: "'h timer \<Rightarrow> 'h timer" where
  "Timer_Start = con_upd (set_field 15 1 1)"

definition Timer_Stop :: "'h timer \<Rightarrow> 'h timer" where
  "Timer_Stop = con_upd (set_field 15 1 0)"

definition Timer_SetPeriod :: "u32 \<Rightarrow> 'h timer \<Rightarrow> 'h timer" where
  "Timer_SetPeriod period t =
     (let t1 = lower_upd (\<lambda>r. r\<lparr>tmr_PR := ucast period\<rparr>) t
      in if T32 t1 then upper_upd (\<lambda>r. r\<lparr>tmr_PR := ucast (drop_bit 16 period)\<rparr>) t1 else t1)"

definition Timer_SetValue :: "u32 \<Rightarrow> 'h timer \<Rightarrow> 'h timer" where
  "Timer_SetValue ticks t =
     (let t1 = con_upd (set_field 15 1 0) t;
          t2 = lower_upd (\<lambda>r. r\<lparr>tmr_VAL := ucast ticks\<rparr>) t1;
          t3 = (if T32 t2 then upper_upd (\<lambda>r. r\<lparr>tmr_VAL := ucast (drop_bit 16 ticks)\<rparr>) t2 else t2)
      in con_upd (set_field 15 1 1) t3)"

text \<open>The read of the lower register latches the upper one.\<close>

definition tmr_latch :: "'h timer \<Rightarrow> 'h timer" where
  "tmr_latch t = (if T32 t then upper_upd (\<lambda>r. r\<lparr>tmr_VALHLD := tmr_VAL r\<rparr>) t else t)"

definition Timer_GetValue :: "'h timer \<Rightarrow> 'h timer \<times> u32" where
  "Timer_GetValue t =
     (let t1 = tmr_latch t; ret = ucast (tmr_VAL (lower_regs t1)) :: u32
      in (t1, if T32 t1 then ret OR push_bit 16 (ucast (tmr_VALHLD (upper_regs t1))) else ret))"

text \<open>Between two looks the timer counts; \<open>count\<close> says how.\<close>

partial_function (option) Timer_WaitUntil :: "('h timer \<Rightarrow> 'h timer) \<Rightarrow> u32 \<Rightarrow> 'h timer \<Rightarrow> 'h timer option" where
  "Timer_WaitUntil count ticks t =
     (case Timer_GetValue t of (t1, v) \<Rightarrow> if ticks < v then Timer_WaitUntil count ticks (count t1) else Some t1)"

definition Timer_ClearInterrupt :: "'h timer \<Rightarrow> 'h timer" where
  "Timer_ClearInterrupt t = t\<lparr>tmr_IFS := tmr_IFS t AND NOT (push_bit (IFS_OFFSET t) 1)\<rparr>"

definition Timer_SetInterrupt :: "bool \<Rightarrow> 'h timer \<Rightarrow> 'h timer" where
  "Timer_SetInterrupt enabled t =
     (let t1 = Timer_ClearInterrupt t
      in if enabled then t1\<lparr>tmr_IEC := tmr_IEC t1 OR push_bit (IEC_OFFSET t) 1\<rparr>
         else t1\<lparr>tmr_IEC := tmr_IEC t1 AND NOT (push_bit (IEC_OFFSET t) 1)\<rparr>)"

definition Timer_SetInterruptHandler :: "'h option \<Rightarrow> 'h timer \<Rightarrow> 'h timer" where
  "Timer_SetInterruptHandler handler t = t\<lparr>InterruptHandler := handler\<rparr>"

subsection \<open>External interrupts\<close>

record 'h extint =
  ext_IFS :: u16
  ext_IEC :: u16
  ext_INTCON :: u16
  IFS_Offset :: nat
  IEC_Offset :: nat
  INTCON_Offset :: nat
  ext_callback :: "'h option"

definition EXTINT_Initialize :: "u8 \<Rightarrow> 'h option \<Rightarrow> 'h extint \<Rightarrow> 'h extint" where
  "EXTINT_Initialize extint_mode callback e =
     (let e1 = e\<lparr>ext_callback := callback\<rparr>;
          e2 = (if extint_mode AND 0x01 \<noteq> 0 then e1\<lparr>ext_INTCON := ext_INTCON e1 OR push_bit (INTCON_Offset e) 1\<rparr>
                else e1\<lparr>ext_INTCON := ext_INTCON e1 AND NOT (push_bit (INTCON_Offset e) 1)\<rparr>)
      in e2\<lparr>ext_IFS := ext_IFS e2 AND NOT (push_bit (IFS_Offset e) 1)\<rparr>)"

definition EXTINT_Enable :: "'h extint \<Rightarrow> 'h extint" where
  "EXTINT_Enable e = e\<lparr>ext_IEC := ext_IEC e OR push_bit (IEC_Offset e) 1\<rparr>"

definition EXTINT_Disable :: "'h extint \<Rightarrow> 'h extint" where
  "EXTINT_Disable e = e\<lparr>ext_IEC := ext_IEC e AND NOT (push_bit (IEC_Offset e) 1)\<rparr>"

text \<open>What the callback does is \<open>run\<close>.\<close>

definition EXTINT_RunCallback :: "('h \<Rightarrow> 's \<Rightarrow> 's) \<Rightarrow> 'h extint \<Rightarrow> 's \<Rightarrow> 's" where
  "EXTINT_RunCallback run e s = (case ext_callback e of None \<Rightarrow> s | Some f \<Rightarrow> run f s)"

subsection \<open>Delays\<close>

text \<open>The boards run at 16 million cycles a second: \<^verbatim>\<open>FCY_DIV_1000\<close> is 16000 and \<^verbatim>\<open>FCY_DIV_1000000\<close> is 16.\<close>

function Delay_Milliseconds :: "64 word \<Rightarrow> nat" where
  "Delay_Milliseconds milliseconds = (if milliseconds = 0 then 0 else 16000 + Delay_Milliseconds (milliseconds - 1))"
  by pat_completeness auto
termination by (relation "measure unat") (auto simp: measure_unat)

function delay_us_rest :: "64 word \<Rightarrow> nat" where
  "delay_us_rest microseconds = (if microseconds = 0 then 0 else 16 + delay_us_rest (microseconds - 1))"
  by pat_completeness auto
termination by (relation "measure unat") (auto simp: measure_unat)

lemma minus_32: "32 \<le> (x :: 64 word) \<Longrightarrow> unat (x - 32) = unat x - 32"
  by (simp add: unat_sub)

function Delay_Microseconds :: "64 word \<Rightarrow> nat" where
  "Delay_Microseconds microseconds =
     (if 32 \<le> microseconds then 16 * 32 + Delay_Microseconds (microseconds - 32) else delay_us_rest microseconds)"
  by pat_completeness auto
termination by (relation "measure unat") (auto simp: minus_32 word_le_nat_alt)

declare Delay_Milliseconds.simps [simp del] delay_us_rest.simps [simp del] Delay_Microseconds.simps [simp del]

definition usleep :: "64 word \<Rightarrow> nat" where
  "usleep usec = Delay_Microseconds usec"

definition msleep :: "64 word \<Rightarrow> nat" where
  "msleep msec = Delay_Milliseconds msec"

definition sleep :: "u32 \<Rightarrow> nat" where
  "sleep sec = Delay_Milliseconds (ucast (sec * 1000))"

lemma delay_ms_cycles: "Delay_Milliseconds n = 16000 * unat n"
proof (induction n rule: Delay_Milliseconds.induct)
  case (1 n)
  show ?case
  proof (cases "n = 0")
    case False
    then have "unat n = Suc (unat (n - 1))" by (simp add: unat_minus_one unat_gt_0)
    then show ?thesis using 1 False by (simp add: Delay_Milliseconds.simps[of n])
  qed (simp add: Delay_Milliseconds.simps)
qed

lemma delay_us_rest_cycles: "delay_us_rest n = 16 * unat n"
proof (induction n rule: delay_us_rest.induct)
  case (1 n)
  show ?case
  proof (cases "n = 0")
    case False
    then have "unat n = Suc (unat (n - 1))" by (simp add: unat_minus_one unat_gt_0)
    then show ?thesis using 1 False by (simp add: delay_us_rest.simps[of n])
  qed (simp add: delay_us_rest.simps)
qed

lemma delay_us_cycles: "Delay_Microseconds n = 16 * unat n"
proof (induction n rule: Delay_Microseconds.induct)
  case (1 n)
  show ?case
  proof (cases "32 \<le> n")
    case True
    then have "32 \<le> unat n" by (simp add: word_le_nat_alt)
    then show ?thesis using 1 True minus_32[OF True] by (simp add: Delay_Microseconds.simps[of n] diff_mult_distrib2)
  qed (simp add: Delay_Microseconds.simps[of n] delay_us_rest_cycles)
qed

subsection \<open>Properties\<close>

text \<open>The delay loops last as long as they say, 16 cycles a microsecond, for every 64-bit argument; \<^verbatim>\<open>sleep\<close> multiplies in 32
  bits, so that it returns early from 4294968 seconds on.\<close>
theorem delays_exact:
  "usleep us = 16 * unat us \<and> msleep ms = 16000 * unat ms \<and> sleep sec = 16000 * (1000 * unat sec mod 4294967296)"
proof -
  have "unat (ucast (sec * 1000) :: 64 word) = 1000 * unat sec mod 4294967296"
    using unat_u32[of "sec * 1000"] by (simp add: unsigned_ucast_eq take_bit_eq_mod unat_word_ariths mult.commute)
  then show ?thesis by (simp add: usleep_def msleep_def sleep_def delay_us_cycles delay_ms_cycles)
qed

lemma halves: "ucast (ucast (v :: u32) :: u16) OR push_bit 16 (ucast (ucast (drop_bit 16 v) :: u16)) = v"
  by (rule bit_word_eqI) (auto simp: bit_simps)

lemma con_upd_simps [simp]:
  "T32 (con_upd (set_field 15 1 b) t) = T32 t" "tmr_VAL (lower_regs (con_upd f t)) = tmr_VAL (lower_regs t)"
  "upper_regs (con_upd f t) = upper_regs t"
  by (simp_all add: con_upd_def lower_upd_def T32_def)

text \<open>A stopped timer in 32-bit mode reads back the value it was set to, both halves, and a 16-bit timer the lower half; setting it
  starts it.\<close>
theorem timer_value_roundtrip:
  "snd (Timer_GetValue (Timer_SetValue ticks t)) = (if T32 t then ticks else take_bit 16 ticks) \<and>
   get_field 15 1 (tmr_CON (lower_regs (Timer_SetValue ticks t))) = 1"
proof -
  have T: "T32 (Timer_SetValue ticks t) = T32 t" "T32 (tmr_latch (Timer_SetValue ticks t)) = T32 t"
    by (simp_all add: Timer_SetValue_def tmr_latch_def Let_def T32_def con_upd_def lower_upd_def upper_upd_def)
  have L: "ucast (ucast ticks :: u16) = take_bit 16 ticks" by (rule bit_word_eqI) (auto simp: bit_simps)
  have "get_field 15 1 (tmr_CON (lower_regs (Timer_SetValue ticks t))) = 1"
    by (simp add: Timer_SetValue_def Let_def con_upd_def lower_upd_def upper_upd_def)
  then show ?thesis using T L halves[of ticks]
    by (simp add: Timer_GetValue_def Timer_SetValue_def tmr_latch_def Let_def T32_def con_upd_def lower_upd_def upper_upd_def)
qed

text \<open>\<^verbatim>\<open>Timer_WaitUntil\<close> has its comparison the wrong way round: it returns at once while the timer has not reached the value.\<close>
theorem timer_wait_returns_early:
  assumes "snd (Timer_GetValue t) \<le> ticks"
  shows "Timer_WaitUntil count ticks t = Some (fst (Timer_GetValue t))"
  using assms by (cases "Timer_GetValue t") (subst Timer_WaitUntil.simps, auto dest: leD)

definition demo_timer :: "unit timer" where
  "demo_timer = \<lparr>lower_regs = \<lparr>tmr_CON = 0, tmr_VAL = 5, tmr_VALHLD = 0, tmr_PR = 0\<rparr>,
     upper_regs = \<lparr>tmr_CON = 0, tmr_VAL = 0, tmr_VALHLD = 0, tmr_PR = 0\<rparr>, tmr_IFS = 0, tmr_IEC = 0, IFS_OFFSET = 7, IEC_OFFSET = 7,
     InterruptHandler = None\<rparr>"

theorem timer_wait_returns_early_witness:
  "Timer_WaitUntil (\<lambda>t. t) 1000 demo_timer = Some (fst (Timer_GetValue demo_timer))"
  by (rule timer_wait_returns_early) (simp add: Timer_GetValue_def tmr_latch_def T32_def demo_timer_def get_field_def Let_def)

end
