(* ===== verification/Unix_IO.thy ===== *)
theory Unix_IO
  imports UART Timers USB_Dispatch
begin

section \<open>The Unix calls\<close>

text \<open>
  Models \<^verbatim>\<open>UnixAPI/mini_unistd.c\<close> (\<^verbatim>\<open>usleep\<close>, \<^verbatim>\<open>msleep\<close> and \<^verbatim>\<open>sleep\<close> are in \<open>Timers\<close>): a file descriptor selects a serial port or
  a function of the USB device by its bits, and three variables redirect the standard streams. The state are the three
  serial ports and the driver table. The calls of the network function, whose block functions have a model of their own, are the
  arguments \<open>ncm_wr\<close> and \<open>ncm_rd\<close>. A call that never returns is \<open>None\<close>; in a result \<open>None\<close> is -1.
\<close>

record 'd unix_io =
  io_uarts :: uart_ports
  io_drivers :: "'d usb_drv_ctx list"
  STDIN_FILENO :: u16
  STDOUT_FILENO :: u16
  STDERR_FILENO :: u16

text \<open>The loops over the driver table; \<open>cdc_nr\<close> counts the functions of the kind.\<close>

fun write_cdc_acm_from :: "u16 \<Rightarrow> u8 \<Rightarrow> u8 list \<Rightarrow> 'd usb_drv_ctx list \<Rightarrow> 'd usb_drv_ctx list \<times> nat option" where
  "write_cdc_acm_from fd cdc_nr buf [] = ([], None)"
| "write_cdc_acm_from fd cdc_nr buf (Drv_ACM c # ds) =
     (if fd = ucast cdc_nr then (case USBDeluxeDevice_CDC_ACM_Write buf c of (c', r) \<Rightarrow> (Drv_ACM c' # ds, r))
      else (case write_cdc_acm_from fd (cdc_nr + 1) buf ds of (ds', r) \<Rightarrow> (Drv_ACM c # ds', r)))"
| "write_cdc_acm_from fd cdc_nr buf (d # ds) =
     (case write_cdc_acm_from fd cdc_nr buf ds of (ds', r) \<Rightarrow> (d # ds', r))"

definition write_cdc_acm :: "u16 \<Rightarrow> u8 list \<Rightarrow> 'd unix_io \<Rightarrow> 'd unix_io \<times> nat option" where
  "write_cdc_acm fd buf s =
     (case write_cdc_acm_from (fd AND 0xf) 0 buf (io_drivers s) of (ds, r) \<Rightarrow> (s\<lparr>io_drivers := ds\<rparr>, r))"

fun read_cdc_acm_from :: "u16 \<Rightarrow> u8 \<Rightarrow> u16 \<Rightarrow> 'd usb_drv_ctx list \<Rightarrow> 'd usb_drv_ctx list \<times> u8 list option" where
  "read_cdc_acm_from fd cdc_nr n [] = ([], None)"
| "read_cdc_acm_from fd cdc_nr n (Drv_ACM c # ds) =
     (if fd = ucast cdc_nr then (case USBDeluxeDevice_CDC_ACM_Read n c of (c', r) \<Rightarrow> (Drv_ACM c' # ds, r))
      else (case read_cdc_acm_from fd (cdc_nr + 1) n ds of (ds', r) \<Rightarrow> (Drv_ACM c # ds', r)))"
| "read_cdc_acm_from fd cdc_nr n (d # ds) =
     (case read_cdc_acm_from fd cdc_nr n ds of (ds', r) \<Rightarrow> (d # ds', r))"

definition read_cdc_acm :: "u16 \<Rightarrow> u16 \<Rightarrow> 'd unix_io \<Rightarrow> 'd unix_io \<times> u8 list option" where
  "read_cdc_acm fd n s =
     (case read_cdc_acm_from (fd AND 0xf) 0 n (io_drivers s) of (ds, r) \<Rightarrow> (s\<lparr>io_drivers := ds\<rparr>, r))"

fun write_cdc_ncm_from ::
  "(u8 list \<Rightarrow> 'd ncm_port \<Rightarrow> 'd ncm_port \<times> nat option) \<Rightarrow> u16 \<Rightarrow> u8 \<Rightarrow> u8 list \<Rightarrow> 'd usb_drv_ctx list \<Rightarrow> 'd usb_drv_ctx list \<times> nat option" where
  "write_cdc_ncm_from ncm_wr fd cdc_nr buf [] = ([], None)"
| "write_cdc_ncm_from ncm_wr fd cdc_nr buf (Drv_NCM c # ds) =
     (if fd = ucast cdc_nr then (case ncm_wr buf c of (c', r) \<Rightarrow> (Drv_NCM c' # ds, r))
      else (case write_cdc_ncm_from ncm_wr fd (cdc_nr + 1) buf ds of (ds', r) \<Rightarrow> (Drv_NCM c # ds', r)))"
| "write_cdc_ncm_from ncm_wr fd cdc_nr buf (d # ds) =
     (case write_cdc_ncm_from ncm_wr fd cdc_nr buf ds of (ds', r) \<Rightarrow> (d # ds', r))"

definition write_cdc_ncm ::
  "(u8 list \<Rightarrow> 'd ncm_port \<Rightarrow> 'd ncm_port \<times> nat option) \<Rightarrow> u16 \<Rightarrow> u8 list \<Rightarrow> 'd unix_io \<Rightarrow> 'd unix_io \<times> nat option" where
  "write_cdc_ncm ncm_wr fd buf s =
     (case write_cdc_ncm_from ncm_wr (fd AND 0xf) 0 buf (io_drivers s) of (ds, r) \<Rightarrow> (s\<lparr>io_drivers := ds\<rparr>, r))"

fun read_cdc_ncm_from ::
  "(u16 \<Rightarrow> 'd ncm_port \<Rightarrow> 'd ncm_port \<times> u8 list option) \<Rightarrow> u16 \<Rightarrow> u8 \<Rightarrow> u16 \<Rightarrow> 'd usb_drv_ctx list \<Rightarrow> 'd usb_drv_ctx list \<times> u8 list option" where
  "read_cdc_ncm_from ncm_rd fd cdc_nr n [] = ([], None)"
| "read_cdc_ncm_from ncm_rd fd cdc_nr n (Drv_NCM c # ds) =
     (if fd = ucast cdc_nr then (case ncm_rd n c of (c', r) \<Rightarrow> (Drv_NCM c' # ds, r))
      else (case read_cdc_ncm_from ncm_rd fd (cdc_nr + 1) n ds of (ds', r) \<Rightarrow> (Drv_NCM c # ds', r)))"
| "read_cdc_ncm_from ncm_rd fd cdc_nr n (d # ds) =
     (case read_cdc_ncm_from ncm_rd fd cdc_nr n ds of (ds', r) \<Rightarrow> (d # ds', r))"

definition read_cdc_ncm ::
  "(u16 \<Rightarrow> 'd ncm_port \<Rightarrow> 'd ncm_port \<times> u8 list option) \<Rightarrow> u16 \<Rightarrow> u16 \<Rightarrow> 'd unix_io \<Rightarrow> 'd unix_io \<times> u8 list option" where
  "read_cdc_ncm ncm_rd fd n s =
     (case read_cdc_ncm_from ncm_rd (fd AND 0xf) 0 n (io_drivers s) of (ds, r) \<Rightarrow> (s\<lparr>io_drivers := ds\<rparr>, r))"

text \<open>\<open>line\<close> and \<open>gone\<close> are the two directions of the line at each port.\<close>

definition write_uart ::
  "(nat \<Rightarrow> u8 list) \<Rightarrow> (nat \<Rightarrow> nat) \<Rightarrow> u16 \<Rightarrow> u8 list \<Rightarrow> 'd unix_io \<Rightarrow> ('d unix_io \<times> nat option) option" where
  "write_uart line gone fd buf s =
     (let p = io_uarts s
      in if fd = 0x10 then
           map_option (\<lambda>u. (s\<lparr>io_uarts := p\<lparr>huart1 := u\<rparr>\<rparr>, Some (length buf))) (UART_Transmit line gone buf (huart1 p))
         else if fd = 0x11 then
           map_option (\<lambda>u. (s\<lparr>io_uarts := p\<lparr>huart2 := u\<rparr>\<rparr>, Some (length buf))) (UART_Transmit line gone buf (huart2 p))
         else if fd = 0x12 then
           map_option (\<lambda>u. (s\<lparr>io_uarts := p\<lparr>huart3 := u\<rparr>\<rparr>, Some (length buf))) (UART_Transmit line gone buf (huart3 p))
         else Some (s, None))"

definition read_uart ::
  "(nat \<Rightarrow> u8 list) \<Rightarrow> (nat \<Rightarrow> nat) \<Rightarrow> u8 \<Rightarrow> u16 \<Rightarrow> u16 \<Rightarrow> 'd unix_io \<Rightarrow> 'd unix_io \<times> u8 list option" where
  "read_uart line gone stale fd n s =
     (let p = io_uarts s
      in if fd = 0x10 then
           (case UART_Receive line gone stale n (huart1 p) of (u, bs) \<Rightarrow> (s\<lparr>io_uarts := p\<lparr>huart1 := u\<rparr>\<rparr>, Some bs))
         else if fd = 0x11 then
           (case UART_Receive line gone stale n (huart2 p) of (u, bs) \<Rightarrow> (s\<lparr>io_uarts := p\<lparr>huart2 := u\<rparr>\<rparr>, Some bs))
         else if fd = 0x12 then
           (case UART_Receive line gone stale n (huart3 p) of (u, bs) \<Rightarrow> (s\<lparr>io_uarts := p\<lparr>huart3 := u\<rparr>\<rparr>, Some bs))
         else (s, None))"

definition unix_write ::
  "(nat \<Rightarrow> u8 list) \<Rightarrow> (nat \<Rightarrow> nat) \<Rightarrow> (u8 list \<Rightarrow> 'd ncm_port \<Rightarrow> 'd ncm_port \<times> nat option) \<Rightarrow>
    u16 \<Rightarrow> u8 list \<Rightarrow> 'd unix_io \<Rightarrow> ('d unix_io \<times> nat option) option" where
  "unix_write line gone ncm_wr fd0 buf s =
     (let fd = (if fd0 = 1 then if 0 <s STDOUT_FILENO s then STDOUT_FILENO s else fd0
                else if fd0 = 2 then if 0 <s STDERR_FILENO s then STDERR_FILENO s else fd0
                else fd0)
      in if fd AND 0x10 \<noteq> 0 then write_uart line gone fd buf s
         else if fd AND 0x20 \<noteq> 0 then Some (write_cdc_acm fd buf s)
         else if fd AND 0x40 \<noteq> 0 then Some (write_cdc_ncm ncm_wr fd buf s)
         else Some (s, None))"

definition unix_read ::
  "(nat \<Rightarrow> u8 list) \<Rightarrow> (nat \<Rightarrow> nat) \<Rightarrow> u8 \<Rightarrow> (u16 \<Rightarrow> 'd ncm_port \<Rightarrow> 'd ncm_port \<times> u8 list option) \<Rightarrow>
    u16 \<Rightarrow> u16 \<Rightarrow> 'd unix_io \<Rightarrow> 'd unix_io \<times> u8 list option" where
  "unix_read line gone stale ncm_rd fd0 n s =
     (let fd = (if fd0 = 0 then if 0 <s STDIN_FILENO s then STDIN_FILENO s else fd0 else fd0)
      in if fd AND 0x10 \<noteq> 0 then read_uart line gone stale fd n s
         else if fd AND 0x20 \<noteq> 0 then read_cdc_acm fd n s
         else if fd AND 0x40 \<noteq> 0 then read_cdc_ncm ncm_rd fd n s
         else (s, None))"

text \<open>
  \<^verbatim>\<open>mini_stdio.c\<close>: \<open>txt\<close> is what \<^verbatim>\<open>vsprintf\<close> makes of the format and its arguments, without the terminating zero. \<open>Inl ()\<close>: the
  buffer of 256 bytes on the stack is overrun.
\<close>

definition unix_dprintf ::
  "(nat \<Rightarrow> u8 list) \<Rightarrow> (nat \<Rightarrow> nat) \<Rightarrow> (u8 list \<Rightarrow> 'd ncm_port \<Rightarrow> 'd ncm_port \<times> nat option) \<Rightarrow>
    u16 \<Rightarrow> u8 list \<Rightarrow> 'd unix_io \<Rightarrow> unit + ('d unix_io \<times> nat option) option" where
  "unix_dprintf line gone ncm_wr fd txt s =
     (if 256 \<le> length txt then Inl () else Inr (unix_write line gone ncm_wr fd txt s))"

subsection \<open>The ports of the USB device\<close>

text \<open>The serial ports in the driver table, with their places.\<close>

fun acm_ports :: "'d usb_drv_ctx list \<Rightarrow> (nat \<times> 'd acm_ctx) list" where
  "acm_ports [] = []"
| "acm_ports (Drv_ACM c # ds) = (0, c) # map (apfst Suc) (acm_ports ds)"
| "acm_ports (d # ds) = map (apfst Suc) (acm_ports ds)"

lemma nr_here: "k + unat nr < 256 \<Longrightarrow> ucast (nr :: u8) = (of_nat (k + unat nr) :: u16) \<longleftrightarrow> k = 0"
proof -
  assume k: "k + unat nr < 256"
  have "unat (ucast nr :: u16) = unat nr" using unat_u8[of nr] by (simp add: unsigned_ucast_eq take_bit_eq_mod)
  moreover have "unat (of_nat (k + unat nr) :: u16) = k + unat nr" using k by (subst unat_of_nat) simp
  ultimately show ?thesis by (simp add: word_unat_eq_iff)
qed

lemma write_from_ports:
  assumes "k + unat nr < 256"
  shows "write_cdc_acm_from (of_nat (k + unat nr)) nr buf ds =
    (if k < length (acm_ports ds) then
       let (i, c) = acm_ports ds ! k; (c', r) = USBDeluxeDevice_CDC_ACM_Write buf c in (ds[i := Drv_ACM c'], r)
     else (ds, None))"
  using assms
proof (induction ds arbitrary: k nr)
  case (Cons d ds)
  show ?case
  proof (cases d)
    case (Drv_ACM c)
    note u = nr_here[OF Cons.prems]
    show ?thesis
    proof (cases k)
      case 0
      then show ?thesis using Drv_ACM u by (auto split: prod.splits)
    next
      case (Suc j)
      have n: "unat (nr + 1) = Suc (unat nr)" using Cons.prems Suc by (simp add: unat_word_ariths)
      have "write_cdc_acm_from (of_nat (j + unat (nr + 1))) (nr + 1) buf ds =
          (if j < length (acm_ports ds) then
             let (i, c) = acm_ports ds ! j; (c', r) = USBDeluxeDevice_CDC_ACM_Write buf c in (ds[i := Drv_ACM c'], r)
           else (ds, None))" using Cons.prems Suc n by (intro Cons.IH) simp
      then show ?thesis using Drv_ACM u Suc n by (auto split: prod.splits simp: eq_commute[of _ "ucast nr"])
    qed
  qed (use Cons.IH[of k nr] Cons.prems in \<open>auto split: prod.splits\<close>)
qed simp

lemma read_from_ports:
  assumes "k + unat nr < 256"
  shows "read_cdc_acm_from (of_nat (k + unat nr)) nr n ds =
    (if k < length (acm_ports ds) then
       let (i, c) = acm_ports ds ! k; (c', r) = USBDeluxeDevice_CDC_ACM_Read n c in (ds[i := Drv_ACM c'], r)
     else (ds, None))"
  using assms
proof (induction ds arbitrary: k nr)
  case (Cons d ds)
  show ?case
  proof (cases d)
    case (Drv_ACM c)
    note u = nr_here[OF Cons.prems]
    show ?thesis
    proof (cases k)
      case 0
      then show ?thesis using Drv_ACM u by (auto split: prod.splits)
    next
      case (Suc j)
      have m: "unat (nr + 1) = Suc (unat nr)" using Cons.prems Suc by (simp add: unat_word_ariths)
      have "read_cdc_acm_from (of_nat (j + unat (nr + 1))) (nr + 1) n ds =
          (if j < length (acm_ports ds) then
             let (i, c) = acm_ports ds ! j; (c', r) = USBDeluxeDevice_CDC_ACM_Read n c in (ds[i := Drv_ACM c'], r)
           else (ds, None))" using Cons.prems Suc m by (intro Cons.IH) simp
      then show ?thesis using Drv_ACM u Suc m by (auto split: prod.splits simp: eq_commute[of _ "ucast nr"])
    qed
  qed (use Cons.IH[of k nr] Cons.prems in \<open>auto split: prod.splits\<close>)
qed simp

lemma below_16: "k < 16 \<Longrightarrow> k \<in> {0, 1, 2, 3, 4, 5, 6, 7, 8, 9, 10, 11, 12, 13, 14, 15 :: nat}"
  by (simp only: insert_iff empty_iff) arith

lemma acm_fd_bits:
  "k < 16 \<Longrightarrow> (0x20 + of_nat k :: u16) AND 0x10 = 0" "k < 16 \<Longrightarrow> (0x20 + of_nat k :: u16) AND 0x20 = 0x20"
  "k < 16 \<Longrightarrow> (0x20 + of_nat k :: u16) AND 0xf = of_nat k"
  by (drule below_16, elim insertE emptyE; simp)+

lemma acm_fd_std:
  "k < 16 \<Longrightarrow> (0x20 + of_nat k :: u16) \<noteq> 0" "k < 16 \<Longrightarrow> (0x20 + of_nat k :: u16) \<noteq> 1" "k < 16 \<Longrightarrow> (0x20 + of_nat k :: u16) \<noteq> 2"
  "k < 16 \<Longrightarrow> 0 <s (0x20 + of_nat k :: u16)"
  by (drule below_16, elim insertE emptyE; simp add: word_sless_alt)+

lemmas acm_fd = acm_fd_bits acm_fd_std

subsection \<open>Properties\<close>

text \<open>(C39) Descriptor \<open>0x20 + k\<close> is the serial port that was registered as number \<open>k\<close>: writing to it is a write to that port, which
  changes no other function and no other part of the state, reading likewise, and without such a port both give -1. A
  standard stream that is redirected to the descriptor is the same port.\<close>
theorem unix_serial_port:
  assumes "k < 16"
  shows "(case if k < length (acm_ports (io_drivers s)) then Some (acm_ports (io_drivers s) ! k) else None of
      None \<Rightarrow> unix_write line gone ncm_wr (0x20 + of_nat k) buf s = Some (s, None) \<and>
        unix_read line gone stale ncm_rd (0x20 + of_nat k) n s = (s, None)
    | Some (i, c) \<Rightarrow>
        unix_write line gone ncm_wr (0x20 + of_nat k) buf s =
          (case USBDeluxeDevice_CDC_ACM_Write buf c of (c', r) \<Rightarrow> Some (s\<lparr>io_drivers := (io_drivers s)[i := Drv_ACM c']\<rparr>, r)) \<and>
        unix_read line gone stale ncm_rd (0x20 + of_nat k) n s =
          (case USBDeluxeDevice_CDC_ACM_Read n c of (c', r) \<Rightarrow> (s\<lparr>io_drivers := (io_drivers s)[i := Drv_ACM c']\<rparr>, r))) \<and>
    (STDOUT_FILENO s = 0x20 + of_nat k \<longrightarrow>
      unix_write line gone ncm_wr 1 buf s = unix_write line gone ncm_wr (0x20 + of_nat k) buf s) \<and>
    (STDIN_FILENO s = 0x20 + of_nat k \<longrightarrow>
      unix_read line gone stale ncm_rd 0 n s = unix_read line gone stale ncm_rd (0x20 + of_nat k) n s)"
proof -
  note F = acm_fd[OF assms]
  have W: "unix_write line gone ncm_wr (0x20 + of_nat k) buf s = Some (write_cdc_acm (0x20 + of_nat k) buf s)"
    and R: "unix_read line gone stale ncm_rd (0x20 + of_nat k) n s = read_cdc_acm (0x20 + of_nat k) n s"
    using F by (simp_all add: unix_write_def unix_read_def Let_def)
  have "STDOUT_FILENO s = 0x20 + of_nat k \<Longrightarrow> unix_write line gone ncm_wr 1 buf s = Some (write_cdc_acm (0x20 + of_nat k) buf s)"
    and "STDIN_FILENO s = 0x20 + of_nat k \<Longrightarrow> unix_read line gone stale ncm_rd 0 n s = read_cdc_acm (0x20 + of_nat k) n s"
    using F by (simp_all add: unix_write_def unix_read_def Let_def)
  note redirected = this
  have F3: "(0x20 + of_nat k) AND 0xf = (of_nat (k + unat (0 :: u8)) :: u16)" using F(3) by simp
  have k: "k + unat (0 :: u8) < 256" using assms by simp
  have same: "s\<lparr>io_drivers := io_drivers s\<rparr> = s" by simp
  show ?thesis
  proof (cases "k < length (acm_ports (io_drivers s))")
    case True
    obtain i c where p: "acm_ports (io_drivers s) ! k = (i, c)" by (cases "acm_ports (io_drivers s) ! k")
    have "write_cdc_acm (0x20 + of_nat k) buf s =
        (case USBDeluxeDevice_CDC_ACM_Write buf c of (c', r) \<Rightarrow> (s\<lparr>io_drivers := (io_drivers s)[i := Drv_ACM c']\<rparr>, r))"
      unfolding write_cdc_acm_def F3 write_from_ports[OF k] using True p by (simp split: prod.split)
    moreover have "read_cdc_acm (0x20 + of_nat k) n s =
        (case USBDeluxeDevice_CDC_ACM_Read n c of (c', r) \<Rightarrow> (s\<lparr>io_drivers := (io_drivers s)[i := Drv_ACM c']\<rparr>, r))"
      unfolding read_cdc_acm_def F3 read_from_ports[OF k] using True p by (simp split: prod.split)
    ultimately show ?thesis using redirected True p by (simp add: W R split: prod.split)
  next
    case False
    have "write_cdc_acm (0x20 + of_nat k) buf s = (s, None)" "read_cdc_acm (0x20 + of_nat k) n s = (s, None)"
      unfolding write_cdc_acm_def read_cdc_acm_def F3 write_from_ports[OF k] read_from_ports[OF k] using False same by simp_all
    then show ?thesis using redirected False by (simp add: W R)
  qed
qed

theorem unix_serial_port_witness:
  "\<forall>u. let c = USBDeluxeDevice_CDC_ACM_Create u () 0 1 1 2 None;
       s = \<lparr>io_uarts = \<lparr>huart1 = demo_uart, huart2 = demo_uart, huart3 = demo_uart\<rparr>, io_drivers = [Drv_ACM c],
         STDIN_FILENO = -1, STDOUT_FILENO = 0x20, STDERR_FILENO = -1\<rparr>
     in unix_write (\<lambda>t. []) (\<lambda>t. 1) (\<lambda>b p. (p, None)) 1 [0x41] s =
       (case USBDeluxeDevice_CDC_ACM_Write [0x41] c of (c', r) \<Rightarrow> Some (s\<lparr>io_drivers := [Drv_ACM c']\<rparr>, r))"
proof
  fix u
  let ?s = "\<lparr>io_uarts = \<lparr>huart1 = demo_uart, huart2 = demo_uart, huart3 = demo_uart\<rparr>,
    io_drivers = [Drv_ACM (USBDeluxeDevice_CDC_ACM_Create u () 0 1 1 2 None)], STDIN_FILENO = -1, STDOUT_FILENO = 0x20, STDERR_FILENO = -1\<rparr>"
  show "let c = USBDeluxeDevice_CDC_ACM_Create u () 0 1 1 2 None;
       s = \<lparr>io_uarts = \<lparr>huart1 = demo_uart, huart2 = demo_uart, huart3 = demo_uart\<rparr>, io_drivers = [Drv_ACM c],
         STDIN_FILENO = -1, STDOUT_FILENO = 0x20, STDERR_FILENO = -1\<rparr>
     in unix_write (\<lambda>t. []) (\<lambda>t. 1) (\<lambda>b p. (p, None)) 1 [0x41] s =
       (case USBDeluxeDevice_CDC_ACM_Write [0x41] c of (c', r) \<Rightarrow> Some (s\<lparr>io_drivers := [Drv_ACM c']\<rparr>, r))"
    using unix_serial_port[where k = 0 and s = ?s and line = "\<lambda>t. []" and gone = "\<lambda>t. 1" and ncm_wr = "\<lambda>b p. (p, None)" and buf = "[0x41]"]
    by (simp add: Let_def)
qed

end
