(* ===== verification/Boot_Companion.thy ===== *)
theory Boot_Companion
  imports USB_Descriptor CDC_ACM
begin

section \<open>The boot companion\<close>

text \<open>
  Models \<^verbatim>\<open>PICoBootCompanion/PICoBootCompanion.c\<close>: a serial port of its own over which a flashing tool asks an application for
  the names of the board and for a reboot. The port is a parameter: \<open>'p\<close> is its state and \<open>wr\<close> the call of
  \<^verbatim>\<open>USBDeluxeDevice_CDC_ACM_Write\<close> on it (\<open>port_write\<close> for the model of the serial port), whose result the code ignores. Saving the
  environment is a parameter too, the boards have it commented out. A reset and a read behind the
  table of argument lengths end the model.
\<close>

subsection \<open>Data\<close>

record pb_env =
  reset_count :: u32
  watchdog_failed_count :: u32
  boot_reason :: u8
  reboot_target :: u8

record 'p picoboot =
  current_command :: u8
  pb_buffer :: "u8 list"
  buffer_pos :: u8
  read_command :: u8
  picoboot_runtime_env :: pb_env
  pb_cnt :: u8
  pb_port :: 'p

record pb_board =
  Board_Name :: "u8 list"
  Board_Manufacturer :: "u8 list"
  Board_Chip :: "u8 list"
  Board_ChipManufacturer :: "u8 list"

datatype pb_stop = Board_Reset pb_env | Table_Overrun u8

definition PICoBoot_Version :: "u8 list" where
  "PICoBoot_Version = map (\<lambda>c. of_nat (of_char c)) ''v0.01 [Companion]''"

definition flasher_cmd_arg_length_table :: "int list" where
  "flasher_cmd_arg_length_table = [-1, 1, 0, 0, 0, 0, 0, 4, 2, 1, 0, 5, 9, 17, 1, 4, 1]"

definition port_write :: "u8 list \<Rightarrow> 'd acm_ctx \<Rightarrow> 'd acm_ctx" where
  "port_write buf s = fst (USBDeluxeDevice_CDC_ACM_Write buf s)"

subsection \<open>Operations\<close>

definition PICoBoot_CmdBuffer_Push :: "u8 \<Rightarrow> 'p picoboot \<Rightarrow> 'p picoboot \<times> int" where
  "PICoBoot_CmdBuffer_Push data s =
     (let s1 = s\<lparr>pb_buffer := (pb_buffer s)[unat (buffer_pos s) := data], buffer_pos := buffer_pos s + 1\<rparr>
      in (s1, uint (buffer_pos s1)))"

definition PICoBoot_CmdBuffer_Clear :: "'p picoboot \<Rightarrow> 'p picoboot" where
  "PICoBoot_CmdBuffer_Clear s = s\<lparr>buffer_pos := 0, current_command := 0\<rparr>"

definition strncpy31 :: "u8 list \<Rightarrow> u8 list \<Rightarrow> u8 list" where
  "strncpy31 str buf = take 31 (str @ replicate 31 0) @ drop 31 buf"

definition env_bytes :: "pb_env \<Rightarrow> u8 list" where
  "env_bytes e = le_bytes 4 (reset_count e) @ le_bytes 4 (watchdog_failed_count e) @ [boot_reason e, reboot_target e]"

text \<open>\<open>stack\<close> is what the local buffer of 64 bytes holds at first.\<close>

definition PICoBoot_DoReads ::
  "pb_board \<Rightarrow> (u8 list \<Rightarrow> 'p \<Rightarrow> 'p) \<Rightarrow> u8 list \<Rightarrow> 'p picoboot \<Rightarrow> 'p picoboot" where
  "PICoBoot_DoReads board wr stack s =
     (if read_command s = 0 then s
      else
        let (buf, len) =
              (if read_command s = 2 then (strncpy31 PICoBoot_Version stack, 32)
               else if read_command s = 3 then (strncpy31 (Board_Name board) stack, 32)
               else if read_command s = 4 then (strncpy31 (Board_Manufacturer board) stack, 32)
               else if read_command s = 5 then (strncpy31 (Board_Chip board) stack, 32)
               else if read_command s = 6 then (strncpy31 (Board_ChipManufacturer board) stack, 32)
               else if read_command s = 14 then
                 (if pb_buffer s ! 0 = 0 then replicate 64 0
                  else env_bytes (picoboot_runtime_env s) @ replicate 54 0, 64)
               else (stack, 32))
        in s\<lparr>pb_port := wr (take len buf) (pb_port s), read_command := 0\<rparr>)"

text \<open>\<open>v.u8\<close> is the first byte of the argument; commands without one do not look at it.\<close>

definition PICoBoot_CommandInvoke ::
  "(u8 list \<Rightarrow> 'p \<Rightarrow> 'p) \<Rightarrow> u8 \<Rightarrow> u8 list \<Rightarrow> 'p picoboot \<Rightarrow> pb_stop + 'p picoboot" where
  "PICoBoot_CommandInvoke wr cmd arg s =
     (if cmd = 1 then Inl (Board_Reset ((picoboot_runtime_env s)\<lparr>reboot_target := arg ! 0\<rparr>))
      else if cmd \<in> {2, 3, 4, 5, 6, 14} then Inr (s\<lparr>read_command := cmd\<rparr>)
      else Inr (s\<lparr>pb_port := wr [3] (pb_port s)\<rparr>))"

definition arg_length :: "u8 \<Rightarrow> pb_stop + int" where
  "arg_length c = (if unat c < length flasher_cmd_arg_length_table then Inr (flasher_cmd_arg_length_table ! unat c)
     else Inl (Table_Overrun c))"

definition pb_byte :: "(u8 list \<Rightarrow> 'p \<Rightarrow> 'p) \<Rightarrow> u8 \<Rightarrow> 'p picoboot \<Rightarrow> pb_stop + 'p picoboot" where
  "pb_byte wr cur_byte s =
     (if current_command s = 0 then
        (case arg_length cur_byte of
           Inl e \<Rightarrow> Inl e
         | Inr n \<Rightarrow>
             if n = 0 then PICoBoot_CommandInvoke wr cur_byte [] s
             else if n = -1 then Inr s
             else Inr (s\<lparr>current_command := cur_byte\<rparr>))
      else
        (case PICoBoot_CmdBuffer_Push cur_byte s of
           (s1, pos) \<Rightarrow>
             (case arg_length (current_command s1) of
                Inl e \<Rightarrow> Inl e
              | Inr n \<Rightarrow>
                  if pos = n then
                    (case PICoBoot_CommandInvoke wr (current_command s1) (take (unat (buffer_pos s1)) (pb_buffer s1)) s1 of
                       Inl e \<Rightarrow> Inl e | Inr s2 \<Rightarrow> Inr (PICoBoot_CmdBuffer_Clear s2))
                  else Inr s1)))"

primrec PICoBoot_CDC_ParseIncomingData ::
  "(u8 list \<Rightarrow> 'p \<Rightarrow> 'p) \<Rightarrow> u8 list \<Rightarrow> 'p picoboot \<Rightarrow> pb_stop + 'p picoboot" where
  "PICoBoot_CDC_ParseIncomingData wr [] s = Inr s"
| "PICoBoot_CDC_ParseIncomingData wr (b # bs) s =
     (case pb_byte wr b s of Inl e \<Rightarrow> Inl e | Inr s' \<Rightarrow> PICoBoot_CDC_ParseIncomingData wr bs s')"

definition PICoBootCompanion_Enable :: "usb_config \<Rightarrow> usb_config \<times> u8" where
  "PICoBootCompanion_Enable c =
     (case USBDeluxe_DeviceFunction_Add_CDC_ACM c of (c1, pbc_cdc_idx) \<Rightarrow> (USBDeluxe_Device_ConfigApply c1, pbc_cdc_idx))"

definition PICoBootCompanion_Tasks ::
  "pb_board \<Rightarrow> (u8 list \<Rightarrow> 'p \<Rightarrow> 'p) \<Rightarrow> u8 list \<Rightarrow> 'p picoboot \<Rightarrow> 'p picoboot" where
  "PICoBootCompanion_Tasks board wr stack s =
     (let s1 = (if pb_cnt s = 0 then PICoBoot_DoReads board wr stack s else s) in s1\<lparr>pb_cnt := pb_cnt s1 + 1\<rparr>)"

subsection \<open>Whole commands\<close>

text \<open>A session: the packets of the host, each handed to the parser.\<close>

primrec pb_packets :: "(u8 list \<Rightarrow> 'p \<Rightarrow> 'p) \<Rightarrow> u8 list list \<Rightarrow> 'p picoboot \<Rightarrow> pb_stop + 'p picoboot" where
  "pb_packets wr [] s = Inr s"
| "pb_packets wr (p # ps) s =
     (case PICoBoot_CDC_ParseIncomingData wr p s of Inl e \<Rightarrow> Inl e | Inr s' \<Rightarrow> pb_packets wr ps s')"

text \<open>What a command means: its argument lands in the buffer, then it is carried out.\<close>

definition pb_execute :: "(u8 list \<Rightarrow> 'p \<Rightarrow> 'p) \<Rightarrow> u8 \<times> u8 list \<Rightarrow> 'p picoboot \<Rightarrow> pb_stop + 'p picoboot" where
  "pb_execute wr c s = PICoBoot_CommandInvoke wr (fst c) (snd c) (s\<lparr>pb_buffer := snd c @ drop (length (snd c)) (pb_buffer s)\<rparr>)"

primrec pb_session :: "(u8 list \<Rightarrow> 'p \<Rightarrow> 'p) \<Rightarrow> (u8 \<times> u8 list) list \<Rightarrow> 'p picoboot \<Rightarrow> pb_stop + 'p picoboot" where
  "pb_session wr [] s = Inr s"
| "pb_session wr (c # cs) s = (case pb_execute wr c s of Inl e \<Rightarrow> Inl e | Inr s' \<Rightarrow> pb_session wr cs s')"

definition pb_command_ok :: "u8 \<times> u8 list \<Rightarrow> bool" where
  "pb_command_ok c \<longleftrightarrow> arg_length (fst c) = Inr (int (length (snd c)))"

definition pb_idle :: "'p picoboot \<Rightarrow> bool" where
  "pb_idle s \<longleftrightarrow> current_command s = 0 \<and> buffer_pos s = 0 \<and> length (pb_buffer s) = 32"

lemma parse_append: "PICoBoot_CDC_ParseIncomingData wr (xs @ ys) s =
    (case PICoBoot_CDC_ParseIncomingData wr xs s of Inl e \<Rightarrow> Inl e | Inr s' \<Rightarrow> PICoBoot_CDC_ParseIncomingData wr ys s')"
  by (induction xs arbitrary: s) (auto split: sum.splits)

lemma packets_concat: "pb_packets wr ps s = PICoBoot_CDC_ParseIncomingData wr (concat ps) s"
  by (induction ps arbitrary: s) (auto simp: parse_append split: sum.splits)

lemma table_cases:
  assumes "arg_length c = Inr n"
  shows "n \<le> 17" "n = -1 \<longleftrightarrow> c = 0" "n = 0 \<or> 1 \<le> n \<or> n = -1"
proof -
  have c: "unat c < 17" and n: "n = flasher_cmd_arg_length_table ! unat c"
    using assms by (auto simp: arg_length_def flasher_cmd_arg_length_table_def split: if_splits)
  from c have "unat c \<in> {0, 1, 2, 3, 4, 5, 6, 7, 8, 9, 10, 11, 12, 13, 14, 15, 16}" by (simp only: insert_iff empty_iff) arith
  then have "n \<le> 17 \<and> (n = -1 \<longleftrightarrow> unat c = 0) \<and> (n = 0 \<or> 1 \<le> n \<or> n = -1)"
    unfolding n flasher_cmd_arg_length_table_def by auto
  then show "n \<le> 17" "n = -1 \<longleftrightarrow> c = 0" "n = 0 \<or> 1 \<le> n \<or> n = -1" by (auto simp: unat_eq_0)
qed

lemma invoke_frame:
  "PICoBoot_CommandInvoke wr c arg (s\<lparr>current_command := x, buffer_pos := y\<rparr>) =
    (case PICoBoot_CommandInvoke wr c arg s of Inl e \<Rightarrow> Inl e | Inr s' \<Rightarrow> Inr (s'\<lparr>current_command := x, buffer_pos := y\<rparr>))"
  by (cases s) (simp add: PICoBoot_CommandInvoke_def)

text \<open>The argument bytes after the first \<open>k\<close>.\<close>

lemma parse_args:
  assumes "arg_length c = Inr (int n)" "c \<noteq> 0" "length (pb_buffer s) = 32" "length done + length args = n" "args \<noteq> []"
    and "length done = k" "pb_buffer s = done @ rest"
  shows "PICoBoot_CDC_ParseIncomingData wr args (s\<lparr>current_command := c, buffer_pos := of_nat k\<rparr>) =
    (case PICoBoot_CommandInvoke wr c (done @ args) (s\<lparr>pb_buffer := done @ args @ drop (length args) rest\<rparr>) of
       Inl e \<Rightarrow> Inl e | Inr s' \<Rightarrow> Inr (s'\<lparr>current_command := 0, buffer_pos := 0\<rparr>))"
  using assms(3-7)
proof (induction args arbitrary: "done" k s rest)
  case (Cons a as)
  have n: "n \<le> 17" using table_cases(1)[OF assms(1)] by simp
  have k: "k < n" "k < 32" using Cons.prems n by auto
  obtain r0 rs where rest: "rest = r0 # rs" using Cons.prems(1,2,4,5) n by (cases rest) auto
  have p1: "of_nat k + 1 = (of_nat (Suc k) :: u8)" by simp
  have us: "unat (of_nat (Suc k) :: u8) = Suc k" using k n by (simp add: unat_of_nat del: of_nat_Suc)
  have uk: "unat (of_nat k :: u8) = k" "uint (of_nat k + 1 :: u8) = int (Suc k)"
    using k n us unfolding p1 by (simp_all add: unat_of_nat uint_nat del: of_nat_Suc)
  have "(done @ rest)[k := a] = (done @ [a]) @ rs" using Cons.prems(4) rest by (simp add: list_update_append)
  then have push: "PICoBoot_CmdBuffer_Push a (s\<lparr>current_command := c, buffer_pos := of_nat k\<rparr>) =
      (s\<lparr>pb_buffer := (done @ [a]) @ rs, current_command := c, buffer_pos := of_nat (Suc k)\<rparr>, int (Suc k))"
    using uk Cons.prems(5) by (cases s) (simp add: PICoBoot_CmdBuffer_Push_def Let_def add.commute)
  show ?case
  proof (cases "as = []")
    case True
    then have e: "int (Suc k) = int n" using Cons.prems(2,4) by simp
    let ?s = "s\<lparr>pb_buffer := done @ a # rs\<rparr>"
    have t: "take (unat (of_nat (Suc k) :: u8)) (done @ a # rs) = done @ [a]" unfolding us using Cons.prems(4) by simp
    have "pb_byte wr a (s\<lparr>current_command := c, buffer_pos := of_nat k\<rparr>) =
        (case PICoBoot_CommandInvoke wr c (done @ [a]) (?s\<lparr>current_command := c, buffer_pos := of_nat (Suc k)\<rparr>) of
          Inl e \<Rightarrow> Inl e | Inr s2 \<Rightarrow> Inr (PICoBoot_CmdBuffer_Clear s2))"
      using push assms(1,2) e t by (simp add: pb_byte_def)
    then show ?thesis using True rest
      by (simp add: invoke_frame PICoBoot_CmdBuffer_Clear_def split: sum.splits)
  next
    case False
    then have ne: "int (Suc k) \<noteq> int n" using Cons.prems(2,4) by (cases as) auto
    let ?s = "s\<lparr>pb_buffer := (done @ [a]) @ rs\<rparr>"
    have b: "pb_byte wr a (s\<lparr>current_command := c, buffer_pos := of_nat k\<rparr>) = Inr (?s\<lparr>current_command := c, buffer_pos := of_nat (Suc k)\<rparr>)"
      using push assms(1,2) ne by (simp add: pb_byte_def)
    have "PICoBoot_CDC_ParseIncomingData wr as (?s\<lparr>current_command := c, buffer_pos := of_nat (Suc k)\<rparr>) =
        (case PICoBoot_CommandInvoke wr c ((done @ [a]) @ as) (?s\<lparr>pb_buffer := (done @ [a]) @ as @ drop (length as) rs\<rparr>) of
          Inl e \<Rightarrow> Inl e | Inr s' \<Rightarrow> Inr (s'\<lparr>current_command := 0, buffer_pos := 0\<rparr>))"
      by (rule Cons.IH) (use Cons.prems(1,2,4,5) False rest in auto)
    then show ?thesis using b rest by simp
  qed
qed simp

lemma parse_command:
  assumes "pb_idle s" "pb_command_ok c"
  shows "PICoBoot_CDC_ParseIncomingData wr (fst c # snd c) s = pb_execute wr c s"
proof -
  note T = table_cases[OF assms(2)[unfolded pb_command_ok_def]]
  have c0: "fst c \<noteq> 0" using T(2) by auto
  show ?thesis
  proof (cases "snd c = []")
    case True
    then show ?thesis using assms c0 by (auto simp: pb_byte_def pb_idle_def pb_command_ok_def pb_execute_def split: sum.splits)
  next
    case False
    have e: "s\<lparr>current_command := fst c\<rparr> = s\<lparr>current_command := fst c, buffer_pos := of_nat 0\<rparr>"
      using assms(1) by (cases s) (simp add: pb_idle_def)
    have "pb_byte wr (fst c) s = Inr (s\<lparr>current_command := fst c, buffer_pos := of_nat 0\<rparr>)"
      using assms False T(2) c0 unfolding e[symmetric] by (simp add: pb_byte_def pb_idle_def pb_command_ok_def)
    then have "PICoBoot_CDC_ParseIncomingData wr (fst c # snd c) s =
        (case PICoBoot_CommandInvoke wr (fst c) ([] @ snd c) (s\<lparr>pb_buffer := [] @ snd c @ drop (length (snd c)) (pb_buffer s)\<rparr>) of
          Inl e \<Rightarrow> Inl e | Inr s' \<Rightarrow> Inr (s'\<lparr>current_command := 0, buffer_pos := 0\<rparr>))"
      using parse_args[of "fst c" "length (snd c)" s "[]" "snd c" 0 "pb_buffer s" wr] assms c0 False
      by (simp add: pb_idle_def pb_command_ok_def)
    also have "\<dots> = pb_execute wr c s"
      using invoke_frame[where wr = wr and c = "fst c" and arg = "snd c" and x = 0 and y = 0 and s = "s\<lparr>pb_buffer := snd c @ drop (length (snd c)) (pb_buffer s)\<rparr>"] assms(1)
      by (cases s) (simp add: pb_execute_def pb_idle_def)
    finally show ?thesis .
  qed
qed

lemma execute_idle:
  assumes "pb_execute wr c s = Inr s'" "pb_idle s" "pb_command_ok c"
  shows "pb_idle s'"
proof -
  have "length (snd c) \<le> 17" using table_cases(1) assms(3) by (fastforce simp: pb_command_ok_def)
  then show ?thesis using assms(1,2) by (auto simp: pb_execute_def pb_idle_def PICoBoot_CommandInvoke_def split: if_splits)
qed

lemma boot_session:
  assumes "pb_idle s" "list_all pb_command_ok cs" "concat packets = concat (map (\<lambda>c. fst c # snd c) cs)"
  shows "pb_packets wr packets s = pb_session wr cs s"
proof -
  have "PICoBoot_CDC_ParseIncomingData wr (concat (map (\<lambda>c. fst c # snd c) cs)) s = pb_session wr cs s"
    using assms(1,2)
  proof (induction cs arbitrary: s)
    case (Cons c cs)
    have "PICoBoot_CDC_ParseIncomingData wr (concat (map (\<lambda>c. fst c # snd c) (c # cs))) s =
        (case pb_execute wr c s of Inl e \<Rightarrow> Inl e | Inr s' \<Rightarrow> PICoBoot_CDC_ParseIncomingData wr (concat (map (\<lambda>c. fst c # snd c) cs)) s')"
      using parse_append[of wr "fst c # snd c"] parse_command[of s c wr] Cons.prems by (simp del: PICoBoot_CDC_ParseIncomingData.simps)
    then show ?case
    proof (cases "pb_execute wr c s")
      case (Inr s')
      then have "pb_idle s'" using execute_idle[of wr c s s'] Cons.prems by simp
      with Inr show ?thesis using \<open>PICoBoot_CDC_ParseIncomingData _ _ s = _\<close> Cons.IH Cons.prems(2) by simp
    qed simp
  qed simp
  then show ?thesis unfolding packets_concat assms(3) .
qed

text \<open>What a session does, without the parser and the handler.\<close>

lemma session_effect:
  "pb_session wr cs s =
    (case dropWhile (\<lambda>c. fst c \<noteq> 1) cs of
       c # _ \<Rightarrow> Inl (Board_Reset ((picoboot_runtime_env s)\<lparr>reboot_target := snd c ! 0\<rparr>))
     | [] \<Rightarrow> Inr (s\<lparr>pb_port := fold (\<lambda>_. wr [3]) (filter (\<lambda>c. fst c \<notin> {2, 3, 4, 5, 6, 14}) cs) (pb_port s),
              read_command := last (read_command s # map fst (filter (\<lambda>c. fst c \<in> {2, 3, 4, 5, 6, 14}) cs)),
              pb_buffer := fold (\<lambda>c b. snd c @ drop (length (snd c)) b) cs (pb_buffer s)\<rparr>))"
proof (induction cs arbitrary: s)
  case (Cons c cs)
  consider "fst c = 1" | "fst c \<in> {2, 3, 4, 5, 6, 14}" | "fst c \<noteq> 1" "fst c \<notin> {2, 3, 4, 5, 6, 14}" by blast
  then show ?case
  proof cases
    case 1
    then show ?thesis by (simp add: pb_execute_def PICoBoot_CommandInvoke_def)
  next
    case 2
    let ?t = "s\<lparr>pb_buffer := snd c @ drop (length (snd c)) (pb_buffer s), read_command := fst c\<rparr>"
    have n: "fst c \<noteq> 1" using 2 by auto
    have "pb_execute wr c s = Inr ?t" using 2 n by (simp add: pb_execute_def PICoBoot_CommandInvoke_def)
    then have "pb_session wr (c # cs) s = pb_session wr cs ?t" by simp
    moreover have "last (read_command s # map fst (filter (\<lambda>c. fst c \<in> {2, 3, 4, 5, 6, 14}) (c # cs))) =
        last (fst c # map fst (filter (\<lambda>c. fst c \<in> {2, 3, 4, 5, 6, 14}) cs))" using 2 by (simp del: insert_iff)
    ultimately show ?thesis unfolding Cons.IH[of ?t] using 2 n
      by (cases "dropWhile (\<lambda>c. fst c \<noteq> 1) cs") (simp_all del: insert_iff last.simps dropWhile_eq_Nil_conv)
  next
    case 3
    let ?t = "s\<lparr>pb_buffer := snd c @ drop (length (snd c)) (pb_buffer s), pb_port := wr [3] (pb_port s)\<rparr>"
    have "pb_execute wr c s = Inr ?t" using 3 by (simp add: pb_execute_def PICoBoot_CommandInvoke_def)
    then have "pb_session wr (c # cs) s = pb_session wr cs ?t" by simp
    then show ?thesis unfolding Cons.IH[of ?t] using 3
      by (cases "dropWhile (\<lambda>c. fst c \<noteq> 1) cs") (simp_all del: insert_iff last.simps dropWhile_eq_Nil_conv)
  qed
qed simp

subsection \<open>Properties\<close>

text \<open>(C40) However the host cuts the bytes into packets, the parser finds the commands in a sequence of complete ones, in order and each
  once: at the first reboot command the board is reset with the target that command asks for; when there is none, every command that
  is not implemented has been answered with one refusal, in order (a write whose result the code ignores), of the read requests the last one is pending (the answers
  come from the task, an earlier request it has not served yet is forgotten), and the arguments have been written over each other
  at the beginning of the buffer.\<close>
theorem boot_session_correct:
  assumes "pb_idle s" "list_all pb_command_ok cs" "concat packets = concat (map (\<lambda>c. fst c # snd c) cs)"
  shows "pb_packets wr packets s =
    (case dropWhile (\<lambda>c. fst c \<noteq> 1) cs of
       c # _ \<Rightarrow> Inl (Board_Reset ((picoboot_runtime_env s)\<lparr>reboot_target := snd c ! 0\<rparr>))
     | [] \<Rightarrow> Inr (s\<lparr>pb_port := fold (\<lambda>_. wr [3]) (filter (\<lambda>c. fst c \<notin> {2, 3, 4, 5, 6, 14}) cs) (pb_port s),
              read_command := last (read_command s # map fst (filter (\<lambda>c. fst c \<in> {2, 3, 4, 5, 6, 14}) cs)),
              pb_buffer := fold (\<lambda>c b. snd c @ drop (length (snd c)) b) cs (pb_buffer s)\<rparr>))"
  using boot_session[OF assms] session_effect by (simp only:)

definition demo_boot :: "u8 list list picoboot" where
  "demo_boot = \<lparr>current_command = 0, pb_buffer = replicate 32 0, buffer_pos = 0, read_command = 0,
     picoboot_runtime_env = \<lparr>reset_count = 1, watchdog_failed_count = 0, boot_reason = 0, reboot_target = 0\<rparr>, pb_cnt = 0, pb_port = []\<rparr>"

definition demo_board :: pb_board where
  "demo_board = \<lparr>Board_Name = [0x50], Board_Manufacturer = [0x53], Board_Chip = [0x43], Board_ChipManufacturer = [0x4D]\<rparr>"

theorem boot_session_correct_witness:
  "(\<exists>t. pb_packets (\<lambda>b p. p @ [b]) [[7, 0x11, 0x22], [], [0x33, 0x44, 3], [4]] demo_boot = Inr t \<and> pb_port t = [[3]] \<and> read_command t = 4) \<and>
   pb_packets (\<lambda>b p. p @ [b]) [[7, 0x11, 0x22], [], [0x33, 0x44, 14, 1, 1], [1]] demo_boot =
     Inl (Board_Reset \<lparr>reset_count = 1, watchdog_failed_count = 0, boot_reason = 0, reboot_target = 1\<rparr>)"
proof -
  have i: "pb_idle demo_boot" by (simp add: pb_idle_def demo_boot_def)
  have l: "list_all pb_command_ok [(7, [0x11, 0x22, 0x33, 0x44]), (3, []), (4, [])]"
    "list_all pb_command_ok [(7, [0x11, 0x22, 0x33, 0x44]), (14, [1]), (1, [1])]"
    by (simp_all add: pb_command_ok_def arg_length_def flasher_cmd_arg_length_table_def)
  show ?thesis using boot_session_correct[OF i l(1), of "[[7, 0x11, 0x22], [], [0x33, 0x44, 3], [4]]" "\<lambda>b p. p @ [b]"]
      boot_session_correct[OF i l(2), of "[[7, 0x11, 0x22], [], [0x33, 0x44, 14, 1, 1], [1]]" "\<lambda>b p. p @ [b]"]
    by (simp add: demo_boot_def del: pb_packets.simps)
qed

text \<open>A command byte beyond the table is looked up behind it.\<close>
theorem boot_table_overrun:
  assumes "current_command s = 0" "17 \<le> c"
  shows "PICoBoot_CDC_ParseIncomingData wr (c # rest) s = Inl (Table_Overrun c)"
  using assms by (simp add: pb_byte_def arg_length_def flasher_cmd_arg_length_table_def word_le_nat_alt)

theorem boot_table_overrun_witness: "PICoBoot_CDC_ParseIncomingData (\<lambda>b p. p @ [b]) [0x20] demo_boot = Inl (Table_Overrun 0x20)"
  by (rule boot_table_overrun) (simp_all add: demo_boot_def)

text \<open>The answers to requests are only looked up when the counter of the task comes round: of several requests that arrive before that
  the last one is answered, whatever they were, and the request for the environment with the argument of whatever command
  came last.\<close>
theorem boot_last_read_answered:
  assumes "pb_idle s" "list_all pb_command_ok cs" "pb_session wr cs s = Inr s1" "c \<in> {2, 3, 4, 5, 6}" "pb_cnt s1 = 0"
  shows "\<exists>s2. pb_packets wr [concat (map (\<lambda>c. fst c # snd c) cs), [c]] s = Inr s2 \<and>
    pb_port (PICoBootCompanion_Tasks board wr stack s2) =
      wr (take 31 ((if c = 2 then PICoBoot_Version else if c = 3 then Board_Name board else if c = 4 then Board_Manufacturer board
        else if c = 5 then Board_Chip board else Board_ChipManufacturer board) @ replicate 31 0) @ take 1 (drop 31 stack)) (pb_port s1) \<and>
    read_command (PICoBootCompanion_Tasks board wr stack s2) = 0"
proof -
  have ok: "pb_command_ok (c, [])"
    using assms(4) by (auto simp: pb_command_ok_def arg_length_def flasher_cmd_arg_length_table_def)
  have idle: "pb_idle s1" using assms(1-3)
  proof (induction cs arbitrary: s)
    case (Cons d cs)
    then show ?case using execute_idle by (cases d) (fastforce split: sum.splits)
  qed simp
  have "pb_packets wr [concat (map (\<lambda>c. fst c # snd c) cs)] s = Inr s1"
    using boot_session[OF assms(1,2), of "[concat (map (\<lambda>c. fst c # snd c) cs)]" wr] assms(3) by simp
  then have p: "pb_packets wr [concat (map (\<lambda>c. fst c # snd c) cs), [c]] s = PICoBoot_CDC_ParseIncomingData wr [c] s1"
    by (simp only: packets_concat concat.simps append_Nil2 parse_append) simp
  have "PICoBoot_CDC_ParseIncomingData wr [c] s1 = Inr (s1\<lparr>read_command := c\<rparr>)"
    using parse_command[OF idle ok, of wr] assms(4) by (cases s1) (auto simp: pb_execute_def PICoBoot_CommandInvoke_def)
  with p have q: "pb_packets wr [concat (map (\<lambda>c. fst c # snd c) cs), [c]] s = Inr (s1\<lparr>read_command := c\<rparr>)" by simp
  have k: "take 32 (strncpy31 x stack) = take 31 (x @ replicate 31 0) @ take 1 (drop 31 stack)" for x
  proof -
    have "length (take 31 (x @ replicate 31 0)) = 31" by simp
    then have "take 32 (take 31 (x @ replicate 31 0) @ drop 31 stack) = take 31 (x @ replicate 31 0) @ take (32 - 31) (drop 31 stack)"
      by (simp only: take_append) simp
    then show ?thesis by (simp only: strncpy31_def) simp
  qed
  show ?thesis using assms(4,5) by (intro exI[of _ "s1\<lparr>read_command := c\<rparr>"] conjI q)
    (auto simp: PICoBootCompanion_Tasks_def PICoBoot_DoReads_def Let_def k)
qed

theorem boot_last_read_answered_witness:
  "\<exists>s2. pb_packets (\<lambda>b p. p @ [b]) [[3], [5]] demo_boot = Inr s2 \<and>
    pb_port (PICoBootCompanion_Tasks demo_board (\<lambda>b p. p @ [b]) (replicate 64 0xAA) s2) = [0x43 # replicate 30 0 @ [0xAA]]"
proof -
  let ?w = "\<lambda>b p. p @ [b]" and ?s1 = "demo_boot\<lparr>read_command := 3\<rparr>"
  have a: "pb_idle demo_boot" "list_all pb_command_ok [(3, [])]"
    by (simp_all add: pb_idle_def demo_boot_def pb_command_ok_def arg_length_def flasher_cmd_arg_length_table_def)
  have b: "pb_session ?w [(3, [])] demo_boot = Inr ?s1" by (simp add: pb_execute_def PICoBoot_CommandInvoke_def demo_boot_def)
  have c: "(5 :: u8) \<in> {2, 3, 4, 5, 6}" and d: "pb_cnt ?s1 = 0" and p: "pb_port ?s1 = []" by (simp_all add: demo_boot_def)
  from boot_last_read_answered[OF a b c d, of demo_board "replicate 64 0xAA"]
  obtain s2 where s: "pb_packets ?w [[3], [5]] demo_boot = Inr s2"
    "pb_port (PICoBootCompanion_Tasks demo_board ?w (replicate 64 0xAA) s2) = [take 31 ([0x43] @ replicate 31 0) @ take 1 (drop 31 (replicate 64 0xAA))]"
    unfolding p by (auto simp: demo_board_def simp del: pb_packets.simps)
  have "take 31 ([0x43] @ replicate 31 0) @ take 1 (drop 31 (replicate 64 0xAA)) = 0x43 # replicate 30 0 @ [0xAA :: u8]"
    by (simp add: numeral_eq_Suc)
  with s show ?thesis by metis
qed

end
