(* ===== verification/Vector_Eds.thy ===== *)
theory Vector_Eds
  imports Heap_Interface Umm_Eds_Props "HOL-Library.Signed_Division"
begin

section \<open>Vectors in extended data space\<close>

text \<open>
  Models \<^verbatim>\<open>Library/Vector_EDS.c\<close>: \<^verbatim>\<open>Vector.c\<close> over EDS pointers and the EDS heap. Sizes stay 16 bits wide; pointers have 32.
  The copies of \<^verbatim>\<open>string.c\<close> between the caller and the heap are given by their bytes; \<^verbatim>\<open>memmove_eds\<close> copies forward, which
  for \<open>Vector_EDS_Erase\<close> is the right direction. \<open>None\<close> is a call that does not return.
\<close>

record vector_eds =
  evec_size :: u16
  evec_data :: u32
  evec_element_size :: u16

definition umm_eds_store :: "umm_eds_state \<Rightarrow> u32 \<Rightarrow> u8 \<Rightarrow> umm_eds_state" where
  "umm_eds_store s a v = s\<lparr>umm_eds_blk := umm_put (umm_eds_blk s) (unat (a - umm_eds_heap s)) v\<rparr>"

definition Vector_EDS_Init :: "u16 \<Rightarrow> vector_eds" where
  "Vector_EDS_Init element_size = \<lparr>evec_size = 0, evec_data = 0, evec_element_size = element_size\<rparr>"

definition Vector_EDS_Clear :: "umm_eds_state \<Rightarrow> vector_eds \<Rightarrow> umm_eds_state \<times> vector_eds" where
  "Vector_EDS_Clear s vec =
     (if evec_size vec \<noteq> 0 then (free_eds s (evec_data vec), vec\<lparr>evec_size := 0, evec_data := 0\<rparr>) else (s, vec))"

text \<open>The product of the sizes has 16 bits.\<close>

definition Vector_EDS_Resize :: "umm_eds_state \<Rightarrow> vector_eds \<Rightarrow> u16 \<Rightarrow> (umm_eds_state \<times> vector_eds) option" where
  "Vector_EDS_Resize s vec n =
     map_option (\<lambda>(s', p). (s', vec\<lparr>evec_data := p, evec_size := n\<rparr>))
       (if evec_data vec \<noteq> 0 then realloc_eds s (evec_data vec) (ucast (evec_element_size vec * n))
        else malloc_eds s (ucast (evec_element_size vec * n)))"

definition Vector_EDS_At :: "vector_eds \<Rightarrow> u16 \<Rightarrow> u32" where
  "Vector_EDS_At vec pos =
     (if evec_size vec \<le> pos then 0 else evec_data vec + ucast (evec_element_size vec * pos))"

definition Vector_EDS_At2 :: "umm_eds_state \<Rightarrow> vector_eds \<Rightarrow> u16 \<Rightarrow> (umm_eds_state \<times> vector_eds \<times> u32) option" where
  "Vector_EDS_At2 s vec pos =
     (if evec_size vec \<le> pos
      then map_option (\<lambda>(s', vec').
             let ret = evec_data vec' + ucast (evec_element_size vec' * pos)
             in (put_bytes umm_eds_store s' ret (replicate (unat (evec_element_size vec')) 0), vec', ret))
           (Vector_EDS_Resize s vec (pos + 1))
      else Some (s, vec, evec_data vec + ucast (evec_element_size vec * pos)))"

text \<open>The difference of two EDS pointers has 32 bits; the result is a \<open>long\<close>.\<close>

definition Vector_EDS_DistanceFromBegin :: "vector_eds \<Rightarrow> u32 \<Rightarrow> u32" where
  "Vector_EDS_DistanceFromBegin vec it =
     (if evec_element_size vec = 0 then -1
      else word_of_int (sint (it - evec_data vec) sdiv uint (evec_element_size vec)))"

definition Vector_EDS_Front :: "vector_eds \<Rightarrow> u32" where
  "Vector_EDS_Front vec = evec_data vec"

definition Vector_EDS_Back :: "vector_eds \<Rightarrow> u32" where
  "Vector_EDS_Back vec =
     (if evec_size vec = 0 then 0 else evec_data vec + ucast (evec_element_size vec * (evec_size vec - 1)))"

definition Vector_EDS_Empty :: "vector_eds \<Rightarrow> bool" where
  "Vector_EDS_Empty vec \<longleftrightarrow> evec_size vec = 0"

definition Vector_EDS_EmplaceBack :: "umm_eds_state \<Rightarrow> vector_eds \<Rightarrow> (umm_eds_state \<times> vector_eds \<times> u32) option" where
  "Vector_EDS_EmplaceBack s vec =
     map_option (\<lambda>(s', vec'). (s', vec', Vector_EDS_Back vec')) (Vector_EDS_Resize s vec (evec_size vec + 1))"

definition Vector_EDS_EmplaceBack2 ::
  "umm_eds_state \<Rightarrow> vector_eds \<Rightarrow> u16 \<Rightarrow> (umm_eds_state \<times> vector_eds \<times> u32) option" where
  "Vector_EDS_EmplaceBack2 s vec len =
     (let oldsize = evec_size vec
      in map_option (\<lambda>(s', vec'). (s', vec', Vector_EDS_At vec' oldsize)) (Vector_EDS_Resize s vec (oldsize + len)))"

definition Vector_EDS_PushBack :: "umm_eds_state \<Rightarrow> vector_eds \<Rightarrow> u8 list \<Rightarrow> (umm_eds_state \<times> vector_eds) option" where
  "Vector_EDS_PushBack s vec object =
     map_option (\<lambda>(s', vec', p).
         (put_bytes umm_eds_store s' p (take (unat (evec_element_size vec')) object), vec'))
       (Vector_EDS_EmplaceBack s vec)"

definition Vector_EDS_PushBack2 ::
  "umm_eds_state \<Rightarrow> vector_eds \<Rightarrow> u8 list \<Rightarrow> u16 \<Rightarrow> (umm_eds_state \<times> vector_eds) option" where
  "Vector_EDS_PushBack2 s vec object len =
     map_option (\<lambda>(s', vec', p).
         (put_bytes umm_eds_store s' p (take (unat (evec_element_size vec' * len)) object), vec'))
       (Vector_EDS_EmplaceBack2 s vec len)"

definition Vector_EDS_Erase :: "umm_eds_state \<Rightarrow> vector_eds \<Rightarrow> u32 \<Rightarrow> umm_eds_state \<times> vector_eds" where
  "Vector_EDS_Erase s vec object =
     (let pos = ucast (Vector_EDS_DistanceFromBegin vec object) :: u16;
          items_left = evec_size vec - pos - 1;
          s' = (if items_left \<noteq> 0
                then put_bytes umm_eds_store s object
                       (get_bytes umm_eds_load s (object + ucast (evec_element_size vec))
                         (unat (items_left * evec_element_size vec)))
                else s)
      in (s', vec\<lparr>evec_size := evec_size vec - 1\<rparr>))"

primrec Vector_EDS_Find_from :: "umm_eds_state \<Rightarrow> vector_eds \<Rightarrow> u8 list \<Rightarrow> nat list \<Rightarrow> u32" where
  "Vector_EDS_Find_from s vec object [] = -1"
| "Vector_EDS_Find_from s vec object (i # is) =
     (if get_bytes umm_eds_load s (Vector_EDS_At vec (of_nat i)) (unat (evec_element_size vec)) =
         take (unat (evec_element_size vec)) object
      then of_nat i else Vector_EDS_Find_from s vec object is)"

definition Vector_EDS_Find :: "umm_eds_state \<Rightarrow> vector_eds \<Rightarrow> u8 list \<Rightarrow> u32" where
  "Vector_EDS_Find s vec object = Vector_EDS_Find_from s vec object [0..<unat (evec_size vec)]"

subsection \<open>What works and what does not\<close>

text \<open>The first element of a vector is pushed into a fresh block of the EDS heap, or there is none large enough.\<close>

lemma first_resize:
  assumes "umm_eds_inv s" "0 < unat e" 
  shows "\<exists>s' p. Vector_EDS_Resize s (Vector_EDS_Init e) 1 = Some (s', \<lparr>evec_size = 1, evec_data = p, evec_element_size = e\<rparr>) \<and>
    umm_eds_inv s' \<and> (p = 0 \<and> s' = s \<or> p \<noteq> 0 \<and> umm_eds_live s p = None \<and>
      (\<exists>k \<ge> unat e. umm_eds_live s' = (umm_eds_live s)(p \<mapsto> k)) \<and> keeps umm_eds_live umm_eds_load s s' {})"
proof -
  have "e \<noteq> 0" using assms(2) by auto
  then show ?thesis using eds.alloc_law[OF assms(1), of e] by (auto simp: Vector_EDS_Resize_def Vector_EDS_Init_def)
qed

theorem Vector_EDS_first_resize:
  assumes "umm_eds_inv s" "0 < unat e"
  shows "\<exists>s' p. Vector_EDS_Resize s (Vector_EDS_Init e) 1 = Some (s', \<lparr>evec_size = 1, evec_data = p, evec_element_size = e\<rparr>) \<and>
    (p = 0 \<or> umm_eds_live s p = None \<and> (\<exists>k \<ge> unat e. umm_eds_live s' p = Some k) \<and> keeps umm_eds_live umm_eds_load s s' {})"
  using first_resize[OF assms] by fastforce

theorem Vector_EDS_first_resize_witness:
  "\<exists>s' p. Vector_EDS_Resize umm_eds_ex (Vector_EDS_Init 4) 1 = Some (s', \<lparr>evec_size = 1, evec_data = p, evec_element_size = 4\<rparr>)"
  using Vector_EDS_first_resize[OF umm_eds_ex_inv, of 4] by auto

text \<open>The next resize is a reallocation, which works on another block than the one of the vector when the EDS heap lies less
  than 512 KB above the main heap (\<open>umm_eds_realloc_wrong_block\<close>): an EDS vector can hold what its first resize made room for
  and no more.\<close>

lemma eds_find_from:
  "Vector_EDS_Find_from s vec object is =
    (case filter (\<lambda>i. get_bytes umm_eds_load s (Vector_EDS_At vec (of_nat i)) (unat (evec_element_size vec)) =
         take (unat (evec_element_size vec)) object) is of [] \<Rightarrow> -1 | i # _ \<Rightarrow> of_nat i)"
  by (induction "is") auto

text \<open>\<^verbatim>\<open>Vector_EDS_Find\<close> gives the first place where the bytes agree.\<close>
theorem Vector_EDS_Find_correct:
  "Vector_EDS_Find s vec object =
    (case find (\<lambda>i. get_bytes umm_eds_load s (evec_data vec + ucast (evec_element_size vec * of_nat i)) (unat (evec_element_size vec)) =
         take (unat (evec_element_size vec)) object) [0..<unat (evec_size vec)] of None \<Rightarrow> -1 | Some i \<Rightarrow> of_nat i)"
proof -
  have "Vector_EDS_At vec (of_nat i) = evec_data vec + ucast (evec_element_size vec * of_nat i)" if "i < unat (evec_size vec)" for i
  proof -
    have "unat (of_nat i :: u16) = i" using that unat_u16[of "evec_size vec"] by (simp add: unat_of_nat)
    then show ?thesis using that by (simp add: Vector_EDS_At_def word_le_nat_alt)
  qed
  then have "filter (\<lambda>i. get_bytes umm_eds_load s (Vector_EDS_At vec (of_nat i)) (unat (evec_element_size vec)) =
         take (unat (evec_element_size vec)) object) [0..<unat (evec_size vec)] =
       filter (\<lambda>i. get_bytes umm_eds_load s (evec_data vec + ucast (evec_element_size vec * of_nat i)) (unat (evec_element_size vec)) =
         take (unat (evec_element_size vec)) object) [0..<unat (evec_size vec)]"
    by (intro filter_cong) auto
  moreover have "(case filter P xs of [] \<Rightarrow> a | i # _ \<Rightarrow> f i) = (case find P xs of None \<Rightarrow> a | Some i \<Rightarrow> f i)" for P :: "nat \<Rightarrow> bool" and xs and a :: u32 and f
    by (induction xs) auto
  ultimately show ?thesis unfolding Vector_EDS_Find_def eds_find_from by metis
qed

end
