(* ===== verification/Spec2Isabelle.thy ===== *)
theory Spec2Isabelle
  imports Umm_Props Umm_Integrity Umm_Info Umm_Eds_Props Scratch_String Heap_Interface Vector Variant MSD_Props I2C_Props
    USB_Descriptor_Props USB_EP0_Props CDC_ACM_Props CDC_NCM_Props USB_Functions_Props USB_Dispatch_Props
    USB_Host_Props USB_Host_Requests USB_Host_Wire USB_Host_Turn
    SPI UART Timers Unix_IO Boot_Companion Vector_Eds
begin

section \<open>PICo24: a verified model of the platform code\<close>

text \<open>
  PICo24 is a software platform for PIC24 and dsPIC33 microcontrollers: drivers, a USB device stack
  with several functions at a time, containers, a C library with two memory allocators. This
  development models the parts of \<^verbatim>\<open>src/Components/PICo24\<close> and \<^verbatim>\<open>src/Components/ScratchLibc\<close> that
  hold its own logic. Each definition has the name of the function it models; a loop or a branch that
  is a definition of its own has a name with the function's prefix.

  \<^bold>\<open>Parts and theories.\<close>

  \<^item> \<open>Prelude\<close>: word and list lemmas, doubly linked lists over functions, collections of simp rules.

  \<^item> Allocator (\<^verbatim>\<open>ScratchLibc/stdlib/malloc/umm_malloc\<close>). \<open>Umm_Heap\<close> has the block array of
    \<^verbatim>\<open>umm_malloc.h\<close> (a function from block numbers to the four link fields; the top bit of the next
    link marks a free block) and the static helpers; \<open>Umm_Malloc\<close> the functions of \<^verbatim>\<open>umm_malloc.c\<close>.
    \<open>Umm_Inv\<close>, \<open>Umm_Steps\<close>, \<open>Umm_Correct\<close>, \<open>Umm_Spec\<close>, \<open>Umm_Bytes\<close> and \<open>Umm_Realloc\<close> build
    the invariant (the block chain covers the heap, no two free blocks are neighbours, the free
    list is the list of the free blocks) and carry it through splitting, merging and moving;
    \<open>Umm_Props\<close> states the contract of \<open>umm_malloc\<close>, \<open>umm_calloc\<close>, \<open>umm_realloc\<close> and \<open>umm_free\<close> over
    live pointers, their sizes and the bytes behind them. \<open>Umm_Integrity\<close> and \<open>Umm_Info\<close> model the
    consistency check and the statistics.

  \<^item> \<open>Umm_Eds\<close>, \<open>Umm_Eds_Props\<close>: the copy of the allocator for extended data space, as far as
    possible by showing that its loops are those of the first one, and where it differs.

  \<^item> \<open>Scratch_String\<close>: \<^verbatim>\<open>string.c\<close>, byte loops over a 32-bit address space.

  \<^item> \<open>Heap_Interface\<close>: what clients of an allocator rely on, as the locales \<open>heap_core\<close> and \<open>heap\<close>,
    interpreted on both allocators; the entry points of \<^verbatim>\<open>malloc.c\<close> and \<^verbatim>\<open>SafeMalloc.c\<close>.

  \<^item> \<open>Vector\<close>, \<open>Variant\<close>: \<^verbatim>\<open>Library/Vector.c\<close>, \<^verbatim>\<open>Set.c\<close> and \<^verbatim>\<open>Variant.c\<close>; the vector operations run
    over any allocator that satisfies the interface.

  \<^item> \<open>USB_Endpoint\<close>, \<open>USB_Control\<close>: the buffer descriptors of \<^verbatim>\<open>usb_device.c\<close> with the functions that
    arm, query and stall an endpoint, and the setup packets of endpoint 0.

  \<^item> Control transfers (\<^verbatim>\<open>usb_device.c\<close>): \<open>USB_EP0\<close> has the state of endpoint 0, the handlers of its
    transactions, the standard requests, and the tokens of the host with what the hardware does on
    them; \<open>USB_EP0_Inv\<close> the events (resets, frames, all tokens, accesses outside an object as an outcome), the
    invariant between a reset and the next misdirected request, and which requests fault, \<open>USB_EP0_Transfer\<close> whole reads and
    writes, \<open>USB_EP0_Props\<close> the properties, down to the configuration descriptor the host receives.

  \<^item> \<open>USB_Descriptor\<close>, \<open>USB_Descriptor_Props\<close>: \<^verbatim>\<open>usb_deluxe_device.c\<close> and the \<^verbatim>\<open>Add\<close> function of
    every device function: the descriptor under construction, the strings and the driver table. The
    properties read the result with the parser of a host.

  \<^item> Mass storage (\<^verbatim>\<open>usb_deluxe_device_msd.c\<close>): \<open>MSD\<close> has the context and every handler, \<open>MSD_Inv\<close>
    the device with its environment, every event with an outcome (a packet that overruns its buffer is one), and the invariant of
    its reachable states,
    \<open>MSD_Read\<close> and \<open>MSD_Write\<close> complete transfers, \<open>MSD_Props\<close> the properties.

  \<^item> Serial port (\<^verbatim>\<open>usb_deluxe_device_cdc_acm.c\<close>): \<open>CDC_ACM\<close> has the double buffers, the task and the
    calls of the application, \<open>CDC_ACM_Props\<close> the runs of host, task and application in any order.

  \<^item> Network adapter (\<^verbatim>\<open>usb_deluxe_device_cdc_ncm.c\<close>): \<open>CDC_NCM\<close>, \<open>CDC_NCM_Props\<close>, the transfer blocks;
    \<open>CDC_NCM_Port\<close> the packet buffers below them and the task.

  \<^item> The small functions (\<^verbatim>\<open>usb_deluxe_device_hid.c\<close>, \<^verbatim>\<open>_midi.c\<close>, \<^verbatim>\<open>_audio.c\<close>, \<^verbatim>\<open>_cdc_ecm.c\<close>):
    \<open>USB_Functions\<close> has their contexts and operations, \<open>USB_Functions_Props\<close> the runs of a MIDI port and
    why the others do not work.

  \<^item> \<open>USB_Dispatch\<close>, \<open>USB_Dispatch_Props\<close>: the loops of \<^verbatim>\<open>usb_deluxe_device.c\<close> over the driver table, and all
    the functions together as the event functions of endpoint 0.

  \<^item> USB host (\<^verbatim>\<open>usb_host.c\<close>): \<open>USB_Host\<close> has the device slots, endpoints and interfaces with the calls of
    the client drivers, \<open>USB_Host_Drivers\<close> the ends of transfers, the events and the choice of drivers and
    endpoints, \<open>USB_Host_Parse\<close> the parser of configuration descriptors, \<open>USB_Host_Tasks\<close> the state machine
    of a device (\<^verbatim>\<open>USBHostTasks\<close>), \<open>USB_Host_Token\<close> the choice and the start of the next token,
    \<open>USB_Host_Interrupt\<close> the interrupt handler and \<open>USB_Host_Wire\<close> a bus: rounds of main loop, timer and frames
    against a device given as a function. \<open>USB_Host_Props\<close> relates the parser to the descriptors the
    device stack builds, \<open>USB_Host_Requests\<close> follows requests and one search for a bulk endpoint, \<open>USB_Host_Refs\<close>
    and \<open>USB_Host_Turn\<close> show when the token search returns, when it does not, how the bulk endpoints take turns, and what a
    full event queue does.

  \<^item> I2C master (\<^verbatim>\<open>I2C.c\<close>): \<open>I2C\<close> has the handle, the ring of messages and the interrupt handler,
    \<open>I2C_Queue\<close> the ring as an interpretation of an abstract bounded queue, \<open>I2C_Message\<close> whole messages,
    \<open>I2C_Props\<close> the properties.

  \<^item> Board peripherals: \<open>Registers\<close> has bit fields; \<open>SPI\<close>, \<open>UART\<close> and \<open>Timers\<close> model \<^verbatim>\<open>SPI.c\<close>, \<^verbatim>\<open>UART.c\<close> with
    \<^verbatim>\<open>mini_termios.c\<close>, and \<^verbatim>\<open>Timer.c\<close> with \<^verbatim>\<open>EXT_INT.c\<close> and \<^verbatim>\<open>Delay.c\<close>. The polling loops run against hardware that goes on
    by itself, and the properties hold for every schedule of it.

  \<^item> \<open>Unix_IO\<close>: \<^verbatim>\<open>mini_unistd.c\<close> and \<^verbatim>\<open>mini_stdio.c\<close> over the serial ports and the USB functions. \<open>Boot_Companion\<close>: the
    command parser of \<^verbatim>\<open>PICoBootCompanion.c\<close> behind a serial port. \<open>Vector_Eds\<close>: \<^verbatim>\<open>Vector_EDS.c\<close>.

  \<^bold>\<open>How they meet.\<close> The device functions work on \<open>usb_eps\<close>, the endpoint state of the stack: a handle is
  the place of a buffer descriptor, and the host's side of a transfer is an environment step that
  takes or fills the buffer that is armed. The builder gives each function its interface and endpoint
  numbers; \<open>USB_Dispatch\<close> hands the requests that arrive on endpoint 0 to the function that owns
  the interface, which answers through the data stage of the stack. The containers call the allocator through the interface.

  \<^bold>\<open>Integers\<close> have the width the compiler gives them: \<^verbatim>\<open>int\<close>, \<^verbatim>\<open>size_t\<close> and a data pointer are 16 bits,
  EDS addresses 32 bits; all arithmetic wraps.

  \<^bold>\<open>Bounds and fuel.\<close> Loops over links that may be corrupt are \<open>partial_function (option)\<close>, and the
  properties say that they return. \<open>ncm_ndps\<close> has a fuel argument: two turns are enough for every
  block, which is part of the property. The other loops are structural. Waiting times are not
  modelled: a call that would wait returns what it returns when its time is over.

  \<^bold>\<open>Not modelled.\<close> FreeRTOS, lwIP and Lua are third-party code; the class drivers of the USB host (\<^verbatim>\<open>usb_host_cdc.c\<close>,
  \<^verbatim>\<open>usb_host_hid.c\<close>, \<^verbatim>\<open>usb_host_hid_parser.c\<close>, the hub driver) are left out: their entry points are arguments of the
  host's model. Suspend, resume and the polling of the interrupt flags in \<^verbatim>\<open>usb_device.c\<close> are register work; the register glue (\<^verbatim>\<open>Core\<close>, \<^verbatim>\<open>Traps\<close>, \<^verbatim>\<open>Boards\<close>)
  is assignments to hardware registers; \<^verbatim>\<open>umm_poison.c\<close> is compiled out; log output and the console
  tools of the I2C driver have no effect on the state.
\<close>

end
